(* ===== verification/Router_Prelude.thy ===== *)
theory Router_Prelude
  imports Complex_Main
begin

text \<open>
  Shared vocabulary of the development.

  \<^item> Python values: exceptions as the error side of a sum (\<open>'a result\<close>), time as an
    integer number of microseconds, nullable columns as \<open>option\<close>.
  \<^item> Database tables: a table is the list of its rows, in the order in which the database
    returns them; \<open>fetch\<close> is a lookup by primary key, \<open>modify\<close> an ORM update of one row.
  \<^item> Text: \<open>str.strip\<close>, \<open>str.lower\<close>, \<open>str.split\<close>/\<open>join\<close> and slices on ASCII strings.
  \<^item> The collections \<open>table_simps\<close> and \<open>step_defs\<close>, and the locales that the components
    interpret: invariants of event-driven systems and one-way status machines.
\<close>

section \<open>Named collections\<close>

named_theorems table_simps \<open>rewriting of table lookups and updates\<close>
named_theorems status_defs \<open>definitions of the operations of a status machine\<close>

section \<open>Errors and time\<close>

text \<open>
  The exceptions the modelled code raises. \<open>HTTPException\<close> carries the status code and the
  detail; \<open>IntegrityError\<close> is what a unique constraint of the database raises.
\<close>

datatype py_error =
    HTTPException int string
  | ValueError string
  | LookupError string
  | RuntimeError string
  | TypeError string
  | IntegrityError

type_synonym 'a result = "py_error + 'a"

type_synonym time = int

definition seconds :: "int \<Rightarrow> time" where
  "seconds n = n * 1000000"

definition days :: "int \<Rightarrow> time" where
  "days n = seconds (n * 86400)"

text \<open>Whether a nullable text column is truthy (\<open>if user.department\<close>).\<close>

definition truthy :: "string option \<Rightarrow> bool" where
  "truthy s = (case s of None \<Rightarrow> False | Some t \<Rightarrow> t \<noteq> [])"

section \<open>Tables\<close>

definition fetch :: "('r \<Rightarrow> 'k) \<Rightarrow> 'k \<Rightarrow> 'r list \<Rightarrow> 'r option" where
  "fetch key i rows = find (\<lambda>r. key r = i) rows"

definition modify :: "('r \<Rightarrow> 'k) \<Rightarrow> 'k \<Rightarrow> ('r \<Rightarrow> 'r) \<Rightarrow> 'r list \<Rightarrow> 'r list" where
  "modify key i f rows = map (\<lambda>r. if key r = i then f r else r) rows"

text \<open>\<open>SUM(w) WHERE p\<close>: the weights of the rows that satisfy a condition, added up.\<close>

definition sum_where :: "('r \<Rightarrow> bool) \<Rightarrow> ('r \<Rightarrow> 'a::comm_monoid_add) \<Rightarrow> 'r list \<Rightarrow> 'a" where
  "sum_where p w rows = sum_list (map w (filter p rows))"

lemma fetch_Nil [simp]: "fetch key i [] = None"
  by (simp add: fetch_def)

lemma fetch_Cons [simp]:
  "fetch key i (r # rows) = (if key r = i then Some r else fetch key i rows)"
  by (simp add: fetch_def)

lemma modify_Nil [simp]: "modify key i f [] = []"
  by (simp add: modify_def)

lemma modify_Cons [simp]:
  "modify key i f (r # rows) = (if key r = i then f r else r) # modify key i f rows"
  by (simp add: modify_def)

lemma fetch_SomeD: "fetch key i rows = Some r \<Longrightarrow> r \<in> set rows \<and> key r = i"
  by (induction rows) (auto split: if_splits)

lemma fetch_key: "fetch key i rows = Some r \<Longrightarrow> key r = i"
  by (blast dest: fetch_SomeD)

lemma fetch_None_iff: "fetch key i rows = None \<longleftrightarrow> i \<notin> key ` set rows"
  by (induction rows) auto

lemma fetch_distinct:
  "distinct (map key rows) \<Longrightarrow> r \<in> set rows \<Longrightarrow> fetch key (key r) rows = Some r"
  by (induction rows) force+

lemma fetch_append: "fetch key k (xs @ ys) = (case fetch key k xs of None \<Rightarrow> fetch key k ys | Some x \<Rightarrow> Some x)"
  by (induction xs) auto

lemma fetch_filter_key: "fetch key k (filter (\<lambda>x. key x \<noteq> j) xs) = (if k = j then None else fetch key k xs)"
  by (induction xs) auto

lemma map_key_modify [simp, table_simps]:
  assumes "\<And>r. key r = i \<Longrightarrow> key' (f r) = key' r"
  shows "map key' (modify key i f rows) = map key' rows"
  using assms by (induction rows) auto

lemma length_modify [simp]: "length (modify key i f rows) = length rows"
  by (simp add: modify_def)

lemma fetch_modify [table_simps]:
  assumes "\<And>r. key r = i \<Longrightarrow> key (f r) = i"
  shows "fetch key j (modify key i f rows)
    = (if j = i then map_option f (fetch key i rows) else fetch key j rows)"
  using assms by (induction rows) auto

lemma set_modify: "set (modify key i f rows) = (\<lambda>r. if key r = i then f r else r) ` set rows"
  by (simp add: modify_def)

lemma modify_absent: "i \<notin> key ` set rows \<Longrightarrow> modify key i f rows = rows"
  by (induction rows) auto

lemma modify_cong_row:
  assumes "distinct (map key rows)" and "fetch key i rows = Some r" and "f r = g r"
  shows "modify key i f rows = modify key i g rows"
  using assms
proof (induction rows)
  case (Cons x rows)
  then show ?case
    by (auto simp: modify_absent split: if_splits)
qed simp

lemma modify_modify:
  assumes "\<And>r. key r = i \<Longrightarrow> key (g r) = i"
  shows "modify key i f (modify key i g rows) = modify key i (\<lambda>r. f (g r)) rows"
  using assms by (induction rows) auto

lemma sum_where_Nil [simp]: "sum_where p w [] = 0"
  by (simp add: sum_where_def)

lemma sum_where_Cons [simp]:
  "sum_where p w (r # rows) = (if p r then w r else 0) + sum_where p w rows"
  by (simp add: sum_where_def)

lemma sum_where_append [simp]:
  "sum_where p w (xs @ ys) = sum_where p w xs + sum_where p w ys"
  by (simp add: sum_where_def)

lemma sum_where_cong:
  assumes "\<And>r. r \<in> set rows \<Longrightarrow> p r = q r" and "\<And>r. r \<in> set rows \<Longrightarrow> q r \<Longrightarrow> w r = v r"
  shows "sum_where p w rows = sum_where q v rows"
  using assms by (induction rows) auto

lemma sum_where_none: "(\<And>r. r \<in> set rows \<Longrightarrow> \<not> p r) \<Longrightarrow> sum_where p w rows = 0"
  by (induction rows) auto

lemma sum_where_nonneg:
  fixes w :: "'r \<Rightarrow> 'a::ordered_comm_monoid_add"
  shows "(\<And>r. r \<in> set rows \<Longrightarrow> p r \<Longrightarrow> 0 \<le> w r) \<Longrightarrow> 0 \<le> sum_where p w rows"
  by (induction rows) auto

text \<open>The effect of a one-row update on a sum over the table.\<close>

lemma sum_where_modify:
  fixes w :: "'r \<Rightarrow> 'a::ab_group_add"
  assumes "distinct (map key rows)" and "fetch key i rows = Some r"
  shows "sum_where p w (modify key i f rows)
    = sum_where p w rows - (if p r then w r else 0) + (if p (f r) then w (f r) else 0)"
  using assms
proof (induction rows)
  case (Cons x rows)
  then show ?case
    by (auto simp: modify_absent split: if_splits)
qed simp

lemma sum_where_ge_row:
  fixes w :: "'r \<Rightarrow> 'a::linordered_ab_group_add"
  assumes "r \<in> set rows" and "p r" and "\<And>x. x \<in> set rows \<Longrightarrow> p x \<Longrightarrow> 0 \<le> w x"
  shows "w r \<le> sum_where p w rows"
  using assms
proof (induction rows)
  case (Cons x rows)
  then show ?case
    using sum_where_nonneg [of rows p w] by (auto simp: add_increasing add_increasing2)
qed simp

section \<open>Text\<close>

text \<open>Python's ASCII white space, which \<open>str.strip\<close> and \<open>str.split\<close> remove.\<close>

definition is_space :: "char \<Rightarrow> bool" where
  "is_space c \<longleftrightarrow> of_char c \<in> {9, 10, 11, 12, 13, 28, 29, 30, 31, 32 :: nat}"

definition lower_char :: "char \<Rightarrow> char" where
  "lower_char c = (let n = of_char c :: nat in if 65 \<le> n \<and> n \<le> 90 then char_of (n + 32) else c)"

definition lower :: "string \<Rightarrow> string" where
  "lower s = map lower_char s"

definition lstrip :: "string \<Rightarrow> string" where
  "lstrip s = dropWhile is_space s"

definition strip :: "string \<Rightarrow> string" where
  "strip s = rev (lstrip (rev (lstrip s)))"

text \<open>The same two tests on the bits of a character, for evaluation.\<close>

lemma is_space_code [code]:
  "is_space (Char b0 b1 b2 b3 b4 b5 b6 b7) \<longleftrightarrow>
     \<not> b7 \<and> \<not> b6 \<and>
     (\<not> b5 \<and> \<not> b4 \<and> b3 \<and> (if b2 then \<not> b1 else b0 \<or> b1) \<or> \<not> b5 \<and> b4 \<and> b3 \<and> b2 \<or>
      b5 \<and> \<not> b4 \<and> \<not> b3 \<and> \<not> b2 \<and> \<not> b1 \<and> \<not> b0)"
  by (cases b0; cases b1; cases b2; cases b3; cases b4; cases b5; cases b6; cases b7) (simp_all add: is_space_def)

lemma lower_char_code [code]:
  "lower_char (Char b0 b1 b2 b3 b4 b5 b6 b7) =
     (if \<not> b7 \<and> b6 \<and> \<not> b5 \<and> (b0 \<or> b1 \<or> b2 \<or> b3 \<or> b4) \<and> \<not> (b4 \<and> b3 \<and> (b2 \<or> b1 \<and> b0))
      then Char b0 b1 b2 b3 b4 True b6 b7 else Char b0 b1 b2 b3 b4 b5 b6 b7)"
  by (cases b0; cases b1; cases b2; cases b3; cases b4; cases b5; cases b6; cases b7)
     (simp_all add: lower_char_def Let_def char_of_def bit_0)

text \<open>\<open>" ".join(s.split())\<close>: white space runs collapsed to one blank, none at the ends.\<close>

fun collapse_spaces :: "string \<Rightarrow> string" where
  "collapse_spaces [] = []"
| "collapse_spaces (c # s) =
     (if is_space c
      then (let t = collapse_spaces s in if t = [] \<or> hd t = CHR '' '' then t else CHR '' '' # t)
      else c # collapse_spaces s)"

definition split_join :: "string \<Rightarrow> string" where
  "split_join s = collapse_spaces (strip s)"

text \<open>\<open>text[:n]\<close> for a length \<open>n\<close> that is not negative.\<close>

fun clip :: "int \<Rightarrow> string \<Rightarrow> string" where
  "clip n [] = []"
| "clip n (c # s) = (if n \<le> 0 then [] else c # clip (n - 1) s)"

lemma clip_take: "clip n s = take (nat n) s"
  by (induction n s rule: clip.induct) (auto simp: take_Cons' nat_diff_distrib)

text \<open>Decimal numerals, as \<open>str(n)\<close> and f-strings write them.\<close>

definition digit_char :: "int \<Rightarrow> char" where
  "digit_char d = char_of (48 + d)"

function show_nat :: "int \<Rightarrow> string" where
  "show_nat n = (if n < 10 then [digit_char n] else show_nat (n div 10) @ [digit_char (n mod 10)])"
  by pat_completeness auto

termination
  by (relation "measure nat") auto

declare show_nat.simps [simp del]

definition show_int :: "int \<Rightarrow> string" where
  "show_int i = (if i < 0 then CHR ''-'' # show_nat (- i) else show_nat i)"

lemma of_digit_char: "0 \<le> d \<Longrightarrow> d < 10 \<Longrightarrow> (of_char (digit_char d) :: int) = 48 + d"
  by (simp add: digit_char_def)

lemma digit_char_inj: "0 \<le> d \<Longrightarrow> d < 10 \<Longrightarrow> 0 \<le> e \<Longrightarrow> e < 10 \<Longrightarrow> digit_char d = digit_char e \<longleftrightarrow> d = e"
  by (metis add_left_cancel of_digit_char)

lemma show_nat_not_Nil [simp]: "show_nat n \<noteq> []"
  by (subst show_nat.simps) simp

lemma show_nat_digits: "0 \<le> n \<Longrightarrow> c \<in> set (show_nat n) \<Longrightarrow> (of_char c :: int) \<in> {48..57}"
proof (induction n rule: show_nat.induct)
  case (1 n)
  show ?case
  proof (cases "n < 10")
    case True
    with 1(2,3) show ?thesis by (auto simp: show_nat.simps of_digit_char)
  next
    case False
    with 1 have "c \<in> set (show_nat (n div 10)) \<or> c = digit_char (n mod 10)"
      by (subst (asm) show_nat.simps) auto
    with 1(1) [OF False] 1(2) show ?thesis by (auto simp: of_digit_char)
  qed
qed

lemma show_nat_inj: "0 \<le> m \<Longrightarrow> 0 \<le> n \<Longrightarrow> show_nat m = show_nat n \<Longrightarrow> m = n"
proof (induction m arbitrary: n rule: show_nat.induct)
  case (1 m)
  have step: "show_nat k = (if k < 10 then [] else show_nat (k div 10)) @ [digit_char (k mod 10)]" if "0 \<le> k" for k
    using that by (subst show_nat.simps) simp
  have last: "m mod 10 = n mod 10"
    and front: "(if m < 10 then [] else show_nat (m div 10)) = (if n < 10 then [] else show_nat (n div 10))"
    using 1(2-4) step [of m] step [of n] digit_char_inj [of "m mod 10" "n mod 10"] by auto
  show ?case
  proof (cases "m < 10")
    case True
    with front have "n < 10" by (metis show_nat_not_Nil)
    with last True 1(2,3) show ?thesis by simp
  next
    case False
    with front have "\<not> n < 10" "show_nat (m div 10) = show_nat (n div 10)" by (auto split: if_splits)
    with 1(1) [OF False, of "n div 10"] 1(2,3) last show ?thesis
      by (metis div_mult_mod_eq pos_imp_zdiv_nonneg_iff zero_less_numeral)
  qed
qed

lemma show_int_chars: "c \<in> set (show_int i) \<Longrightarrow> c = CHR ''-'' \<or> (of_char c :: int) \<in> {48..57}"
  using show_nat_digits [of "- i" c] show_nat_digits [of i c] by (auto simp: show_int_def split: if_splits)

lemma colon_not_in_show_int [simp]: "CHR '':'' \<notin> set (show_int i)"
  using show_int_chars [of "CHR '':''" i] by auto

lemma show_int_inj: "show_int i = show_int j \<Longrightarrow> i = j"
proof -
  have no_minus: "CHR ''-'' # s \<noteq> show_nat n" if "0 \<le> n" for s n
  proof
    assume "CHR ''-'' # s = show_nat n"
    then have "CHR ''-'' \<in> set (show_nat n)" by (metis list.set_intros(1))
    from show_nat_digits [OF that this] show False by simp
  qed
  assume "show_int i = show_int j"
  then show ?thesis
    using no_minus no_minus [symmetric] show_nat_inj [of i j] show_nat_inj [of "- i" "- j"]
    by (auto simp: show_int_def split: if_splits)
qed

text \<open>A separator that does not occur in the first fields splits the text uniquely.\<close>

lemma sep_split_inj:
  assumes "xs @ c # ys = xs' @ c # ys'" and "c \<notin> set xs" and "c \<notin> set xs'"
  shows "xs = xs' \<and> ys = ys'"
  using assms by (auto simp: append_eq_append_conv2 Cons_eq_append_conv append_eq_Cons_conv)

section \<open>Interfaces shared by the components\<close>

text \<open>
  An event-driven component: a state, a step function on events, and an invariant that every
  admissible event keeps. The client's lemma is that a whole run keeps it.
\<close>

locale invariant_system =
  fixes step :: "'s \<Rightarrow> 'e \<Rightarrow> 's"
    and admissible :: "'e \<Rightarrow> bool"
    and inv :: "'s \<Rightarrow> bool"
  assumes step_inv: "admissible e \<Longrightarrow> inv s \<Longrightarrow> inv (step s e)"
begin

lemma run_inv: "list_all admissible es \<Longrightarrow> inv s \<Longrightarrow> inv (foldl step s es)"
  by (induction es arbitrary: s) (auto intro: step_inv)

end

text \<open>
  A one-way status machine over such a component: what is observed moves only along the edges
  of \<open>edge\<close>, and no edge leaves a final observation. The client's lemmas are that a final
  observation stays as it is under every run, and that every run follows a path of edges.
\<close>

locale status_machine = invariant_system +
  fixes status :: "'a \<Rightarrow> 'st"
    and edge :: "'st \<Rightarrow> 'st \<Rightarrow> bool"
    and final :: "'st \<Rightarrow> bool"
  assumes step_edge: "admissible e \<Longrightarrow> inv s \<Longrightarrow> status (step s e) \<noteq> status s \<Longrightarrow>
      edge (status s) (status (step s e))"
    and final_stuck: "final x \<Longrightarrow> \<not> edge x y"
begin

lemma final_step: "admissible e \<Longrightarrow> inv s \<Longrightarrow> final (status s) \<Longrightarrow> status (step s e) = status s"
  using step_edge final_stuck by blast

lemma final_run:
  "list_all admissible es \<Longrightarrow> inv s \<Longrightarrow> final (status s) \<Longrightarrow> status (foldl step s es) = status s"
proof (induction es arbitrary: s)
  case (Cons e es)
  then have "status (foldl step (step s e) es) = status (step s e)"
    by (intro Cons.IH) (simp_all add: step_inv final_step)
  with Cons.prems show ?case by (simp add: final_step)
qed simp

lemma run_path: "list_all admissible es \<Longrightarrow> inv s \<Longrightarrow> edge\<^sup>*\<^sup>* (status s) (status (foldl step s es))"
proof (induction es arbitrary: s)
  case (Cons e es)
  have "edge\<^sup>*\<^sup>* (status s) (status (step s e))"
    using step_edge [of e s] Cons.prems by (cases "status (step s e) = status s") auto
  moreover have "edge\<^sup>*\<^sup>* (status (step s e)) (status (foldl step (step s e) es))"
    using Cons by (simp add: step_inv)
  ultimately show ?case by (simp add: rtranclp_trans)
qed simp

end

end
