(* ===== verification/Money.thy ===== *)
theory Money
  imports Router_Prelude
begin

text \<open>
  Dollar amounts. The code computes with floats and writes every balance back through
  \<open>round(x, 8)\<close>; the columns are exact decimals. Here an amount is an exact rational and
  \<open>round\<close> is Python's: to the nearest multiple of \<open>10\<^sup>-\<^sup>d\<close>, ties to even. \<open>on_grid d x\<close> says
  that \<open>x\<close> is such a multiple, so that rounding it again changes nothing. The binary rounding
  of the individual float operations is not modelled.
\<close>

section \<open>Definitions\<close>

definition round_half_even :: "rat \<Rightarrow> int" where
  "round_half_even x =
     (let n = \<lfloor>x\<rfloor>; d = x - of_int n
      in if d < 1 / 2 then n else if 1 / 2 < d then n + 1 else if even n then n else n + 1)"

definition py_round :: "nat \<Rightarrow> rat \<Rightarrow> rat" where
  "py_round d x = of_int (round_half_even (x * 10 ^ d)) / 10 ^ d"

abbreviation round8 :: "rat \<Rightarrow> rat" where
  "round8 x \<equiv> py_round 8 x"

definition on_grid :: "nat \<Rightarrow> rat \<Rightarrow> bool" where
  "on_grid d x \<longleftrightarrow> of_int \<lfloor>x * 10 ^ d\<rfloor> = x * 10 ^ d"

text \<open>Half a unit of the last place kept by \<open>round(x, 8)\<close>.\<close>

definition half_ulp :: rat where
  "half_ulp = 1 / 200000000"

section \<open>Rounding\<close>

lemma round_half_even_of_int [simp]: "round_half_even (of_int n) = n"
  by (simp add: round_half_even_def)

lemma round_half_even_close: "\<bar>of_int (round_half_even x) - x\<bar> \<le> 1 / 2"
proof -
  have "of_int \<lfloor>x\<rfloor> \<le> x" and "x < of_int \<lfloor>x\<rfloor> + 1"
    by linarith+
  then show ?thesis
    by (auto simp: round_half_even_def Let_def abs_le_iff)
qed

lemma round_half_even_mono: "x \<le> y \<Longrightarrow> round_half_even x \<le> round_half_even y"
proof -
  assume le: "x \<le> y"
  then consider (same) "\<lfloor>x\<rfloor> = \<lfloor>y\<rfloor>" | (less) "\<lfloor>x\<rfloor> + 1 \<le> \<lfloor>y\<rfloor>"
    by (meson floor_mono int_less_real_le leI less_le zless_imp_add1_zle)
  then show ?thesis
  proof cases
    case same
    with le show ?thesis by (auto simp: round_half_even_def Let_def)
  next
    case less
    then show ?thesis by (auto simp: round_half_even_def Let_def)
  qed
qed

lemma on_gridI: "x * 10 ^ d = of_int k \<Longrightarrow> on_grid d x"
  by (simp add: on_grid_def)

lemma on_gridE:
  assumes "on_grid d x"
  obtains k where "x * 10 ^ d = of_int k"
  using assms that unfolding on_grid_def by metis

lemma py_round_on_grid [simp]: "on_grid d (py_round d x)"
  by (rule on_gridI) (simp add: py_round_def)

lemma py_round_id [simp]: "on_grid d x \<Longrightarrow> py_round d x = x"
  by (elim on_gridE) (simp add: py_round_def field_simps)

lemma py_round_mono: "x \<le> y \<Longrightarrow> py_round d x \<le> py_round d y"
  by (simp add: py_round_def divide_right_mono mult_right_mono round_half_even_mono)

lemma round8_close: "\<bar>round8 x - x\<bar> \<le> half_ulp"
proof -
  have "\<bar>of_int (round_half_even (x * 10 ^ 8)) - x * 10 ^ 8\<bar> / 10 ^ 8 \<le> (1 / 2) / 10 ^ 8"
    by (rule divide_right_mono [OF round_half_even_close]) simp
  then show ?thesis
    by (simp add: py_round_def half_ulp_def abs_if diff_divide_distrib split: if_splits)
qed

lemma round8_le: "round8 x \<le> x + half_ulp" and round8_ge: "x \<le> round8 x + half_ulp"
  using round8_close [of x] by linarith+

lemma half_ulp_pos: "0 < half_ulp"
  by (simp add: half_ulp_def)

section \<open>The grid is closed under the ledger's arithmetic\<close>

lemma on_grid_0 [simp]: "on_grid d 0"
  by (rule on_gridI [of _ _ 0]) simp

lemma on_grid_of_int [simp]: "on_grid d (of_int n)"
  by (rule on_gridI [of _ _ "n * 10 ^ d"]) simp

lemma on_grid_numeral [simp]: "on_grid d (numeral n)"
  using on_grid_of_int [of d "numeral n"] by simp

lemma on_grid_1 [simp]: "on_grid d 1"
  using on_grid_of_int [of d 1] by simp

lemma on_grid_add [simp]: "on_grid d x \<Longrightarrow> on_grid d y \<Longrightarrow> on_grid d (x + y)"
  by (elim on_gridE, rule on_gridI) (simp add: ring_distribs flip: of_int_add)

lemma on_grid_diff [simp]: "on_grid d x \<Longrightarrow> on_grid d y \<Longrightarrow> on_grid d (x - y)"
  by (elim on_gridE, rule on_gridI) (simp add: left_diff_distrib flip: of_int_diff)

lemma on_grid_mult_int [simp]: "on_grid d x \<Longrightarrow> on_grid d (of_int n * x)"
proof (elim on_gridE)
  fix k assume "x * 10 ^ d = of_int k"
  then show ?thesis by (intro on_gridI [of _ _ "n * k"]) (simp add: mult.assoc)
qed

lemma on_grid_double [simp]: "on_grid d x \<Longrightarrow> on_grid d (2 * x)"
  using on_grid_mult_int [of d x 2] by simp

lemma on_grid_max [simp]: "on_grid d x \<Longrightarrow> on_grid d y \<Longrightarrow> on_grid d (max x y)"
  by (simp add: max_def)

lemma on_grid_min [simp]: "on_grid d x \<Longrightarrow> on_grid d y \<Longrightarrow> on_grid d (min x y)"
  by (simp add: min_def)

lemma py_round_0 [simp]: "py_round d 0 = 0"
  by simp

lemma py_round_nonneg: "0 \<le> x \<Longrightarrow> 0 \<le> py_round d x"
  using py_round_mono [of 0 x d] by simp

lemma on_grid_sum_where:
  "(\<And>r. r \<in> set rows \<Longrightarrow> p r \<Longrightarrow> on_grid d (w r)) \<Longrightarrow> on_grid d (sum_where p w rows)"
  by (induction rows) auto

text \<open>
  A rounded amount that is at least a grid amount: rounding never crosses a grid point.
\<close>

lemma grid_le_py_round: "on_grid d g \<Longrightarrow> g \<le> x \<Longrightarrow> g \<le> py_round d x"
  using py_round_mono [of g x d] by simp

lemma py_round_le_grid: "on_grid d g \<Longrightarrow> x \<le> g \<Longrightarrow> py_round d x \<le> g"
  using py_round_mono [of x g d] by simp

end
