(* ===== verification/Budget_State.thy ===== *)
theory Budget_State
  imports Money
begin

text \<open>
  The tables behind spend control (\<open>models/user.py\<close>, \<open>models/api_key.py\<close>,
  \<open>models/budget.py\<close>, \<open>models/budget_reservation.py\<close>), restricted to the columns that the
  modelled services read or write, and the balance of a budget subject
  (\<open>_subject_balance\<close>, \<open>_set_subject_reserved\<close>, \<open>_locked_subject\<close>).

  Every read of a nullable money column in the code is \<open>float(x or 0)\<close> or \<open>COALESCE(x, 0)\<close>,
  and every read of a nullable boolean is in a boolean context; NULL is therefore 0 and False
  here. \<open>SELECT ... FOR UPDATE\<close> serialises the transactions on one subject, so an operation is
  a function from the database to the database, and concurrent requests are sequences of
  operations in any order.
\<close>

section \<open>Rows\<close>

datatype subject_type = SUBJECT_USER | SUBJECT_ALPHA_ROUTER_KEY | SUBJECT_OTHER string

datatype hold_status = STATUS_HELD | STATUS_SETTLED | STATUS_RELEASED | STATUS_EXPIRED

record user =
  u_id :: int
  u_is_active :: bool
  u_department :: "string option"
  u_monthly_budget_usd :: rat
  u_budget_used_usd :: rat
  u_budget_reserved_usd :: rat
  u_budget_period_start :: "time option"
  u_deleted_at :: "time option"
  u_purged_at :: "time option"

record api_key =
  k_id :: int
  k_is_active :: bool
  k_credit_limit_usd :: rat
  k_unlimited_budget :: bool
  k_reset_period :: "string option"
  k_expires_at :: "time option"
  k_period_used_usd :: rat
  k_period_reserved_usd :: rat
  k_total_used_usd :: rat
  k_period_started_at :: "time option"
  k_last_used_at :: "time option"

record reservation =
  r_id :: string
  r_subject_type :: subject_type
  r_subject_id :: int
  r_idempotency_key :: string
  r_operation :: string
  r_model_id :: string
  r_reserved_usd :: rat
  r_actual_usd :: "rat option"
  r_status :: hold_status
  r_request_log_id :: "int option"
  r_created_at :: time
  r_expires_at :: time
  r_settled_at :: "time option"

record budget_plan =
  p_id :: int
  p_name :: string
  p_monthly_budget_usd :: rat

record plan_assignment =
  pa_id :: int
  pa_plan_id :: "int option"
  pa_user_id :: "int option"
  pa_group_id :: "int option"
  pa_department :: "string option"

record ledger_entry =
  l_subject_type :: subject_type
  l_subject_id :: "int option"
  l_amount_usd :: rat
  l_effective_at :: time
  l_operation_id :: string
  l_usage_event_id :: string
  l_idempotency_key :: string

record request_log =
  q_id :: int
  q_user_id :: "int option"
  q_api_key_id :: "int option"
  q_request_time :: time
  q_total_cost_usd :: rat
  q_usage_operation_id :: "string option"
  q_budget_reservation_id :: "string option"

text \<open>The database: \<open>members\<close> is \<open>user_group_members\<close> as (user, group) pairs.\<close>

record db_state =
  users :: "user list"
  api_keys :: "api_key list"
  reservations :: "reservation list"
  plans :: "budget_plan list"
  assignments :: "plan_assignment list"
  members :: "(int \<times> int) list"
  groups :: "int list"
  ledger :: "ledger_entry list"
  request_logs :: "request_log list"

type_synonym db = db_state

section \<open>Subjects and their balance\<close>

datatype subject = Subj_User user | Subj_Key api_key

definition locked_subject :: "db \<Rightarrow> subject_type \<Rightarrow> int \<Rightarrow> subject option" where
  "locked_subject db st sid =
     (case st of
        SUBJECT_USER \<Rightarrow> map_option Subj_User (fetch u_id sid (users db))
      | SUBJECT_ALPHA_ROUTER_KEY \<Rightarrow> map_option Subj_Key (fetch k_id sid (api_keys db))
      | SUBJECT_OTHER _ \<Rightarrow> None)"

definition lock_subject :: "db \<Rightarrow> subject_type \<Rightarrow> int \<Rightarrow> bool" where
  "lock_subject db st sid \<longleftrightarrow> locked_subject db st sid \<noteq> None"

text \<open>(limit, used, held) of a user's monthly budget or of a key's credit for the period.\<close>

fun subject_balance :: "subject \<Rightarrow> rat \<times> rat \<times> rat" where
  "subject_balance (Subj_User u) =
     (u_monthly_budget_usd u, u_budget_used_usd u, u_budget_reserved_usd u)"
| "subject_balance (Subj_Key k) =
     (k_credit_limit_usd k, k_period_used_usd k, k_period_reserved_usd k)"

text \<open>Write the reserved counter that \<open>subject_balance\<close> reads as held.\<close>

definition set_subject_reserved :: "db \<Rightarrow> subject_type \<Rightarrow> int \<Rightarrow> rat \<Rightarrow> db" where
  "set_subject_reserved db st sid held =
     (case st of
        SUBJECT_USER \<Rightarrow>
          db\<lparr>users := modify u_id sid (\<lambda>u. u\<lparr>u_budget_reserved_usd := held\<rparr>) (users db)\<rparr>
      | SUBJECT_ALPHA_ROUTER_KEY \<Rightarrow>
          db\<lparr>api_keys := modify k_id sid (\<lambda>k. k\<lparr>k_period_reserved_usd := held\<rparr>) (api_keys db)\<rparr>
      | SUBJECT_OTHER _ \<Rightarrow> db)"

text \<open>\<open>UPDATE\<close> of one reservation row.\<close>

definition update_reservation :: "string \<Rightarrow> (reservation \<Rightarrow> reservation) \<Rightarrow> db \<Rightarrow> db" where
  "update_reservation rid f db = db\<lparr>reservations := modify r_id rid f (reservations db)\<rparr>"

section \<open>Open holds\<close>

definition held_row :: "subject_type \<Rightarrow> int \<Rightarrow> reservation \<Rightarrow> bool" where
  "held_row st sid r \<longleftrightarrow>
     r_subject_type r = st \<and> r_subject_id r = sid \<and> r_status r = STATUS_HELD"

definition held_sum :: "db \<Rightarrow> subject_type \<Rightarrow> int \<Rightarrow> rat" where
  "held_sum db st sid = sum_where (held_row st sid) r_reserved_usd (reservations db)"

text \<open>The three columns of a subject's balance, read from the database.\<close>

definition subject_limit :: "db \<Rightarrow> subject_type \<Rightarrow> int \<Rightarrow> rat" where
  "subject_limit db st sid =
     (case locked_subject db st sid of None \<Rightarrow> 0 | Some s \<Rightarrow> fst (subject_balance s))"

definition subject_used :: "db \<Rightarrow> subject_type \<Rightarrow> int \<Rightarrow> rat" where
  "subject_used db st sid =
     (case locked_subject db st sid of None \<Rightarrow> 0 | Some s \<Rightarrow> fst (snd (subject_balance s)))"

definition subject_held :: "db \<Rightarrow> subject_type \<Rightarrow> int \<Rightarrow> rat" where
  "subject_held db st sid =
     (case locked_subject db st sid of None \<Rightarrow> 0 | Some s \<Rightarrow> snd (snd (subject_balance s)))"

section \<open>Well-formed databases and the budget invariant\<close>

text \<open>
  \<open>wf_db\<close> is what the schema and the write path guarantee of every state: primary keys and the
  unique idempotency key, and amounts of holds that are non-negative multiples of \<open>10\<^sup>-\<^sup>8\<close>.
  \<open>counters_exact\<close> is the contract of the reserved counters: each is the sum of the subject's
  open holds. \<open>keys_started\<close>: a key whose period has not started has no open hold.
\<close>

definition hold_ok :: "reservation \<Rightarrow> bool" where
  "hold_ok r \<longleftrightarrow> 0 \<le> r_reserved_usd r \<and> on_grid 8 (r_reserved_usd r)"

definition wf_db :: "db \<Rightarrow> bool" where
  "wf_db db \<longleftrightarrow>
     distinct (map u_id (users db)) \<and> distinct (map k_id (api_keys db)) \<and>
     distinct (map r_id (reservations db)) \<and>
     distinct (map r_idempotency_key (reservations db)) \<and>
     list_all hold_ok (reservations db)"

definition counters_exact :: "db \<Rightarrow> bool" where
  "counters_exact db \<longleftrightarrow>
     list_all (\<lambda>u. u_budget_reserved_usd u = held_sum db SUBJECT_USER (u_id u)) (users db) \<and>
     list_all (\<lambda>k. k_period_reserved_usd k = held_sum db SUBJECT_ALPHA_ROUTER_KEY (k_id k))
       (api_keys db)"

definition keys_started :: "db \<Rightarrow> bool" where
  "keys_started db \<longleftrightarrow>
     list_all (\<lambda>k. k_period_started_at k = None \<longrightarrow>
         \<not> list_ex (held_row SUBJECT_ALPHA_ROUTER_KEY (k_id k)) (reservations db)) (api_keys db)"

definition budget_inv :: "db \<Rightarrow> bool" where
  "budget_inv db \<longleftrightarrow> wf_db db \<and> counters_exact db \<and> keys_started db"

section \<open>Lemmas\<close>

lemma fetch_user_iff [table_simps]:
  "locked_subject db SUBJECT_USER i = map_option Subj_User (fetch u_id i (users db))"
  by (simp add: locked_subject_def)

lemma fetch_key_iff [table_simps]:
  "locked_subject db SUBJECT_ALPHA_ROUTER_KEY i = map_option Subj_Key (fetch k_id i (api_keys db))"
  by (simp add: locked_subject_def)

lemma held_sum_nonneg: "wf_db db \<Longrightarrow> 0 \<le> held_sum db st sid"
  unfolding held_sum_def
  by (rule sum_where_nonneg) (auto simp: wf_db_def list_all_iff hold_ok_def)

lemma held_sum_on_grid: "wf_db db \<Longrightarrow> on_grid 8 (held_sum db st sid)"
  unfolding held_sum_def
  by (rule on_grid_sum_where) (auto simp: wf_db_def list_all_iff hold_ok_def)

lemma held_sum_ge_row:
  assumes "wf_db db" and "r \<in> set (reservations db)" and "held_row st sid r"
  shows "r_reserved_usd r \<le> held_sum db st sid"
  unfolding held_sum_def
  using assms by (intro sum_where_ge_row) (auto simp: wf_db_def list_all_iff hold_ok_def)

lemma wf_db_fetch:
  assumes "wf_db db" and "r \<in> set (reservations db)"
  shows "fetch r_id (r_id r) (reservations db) = Some r"
  using assms by (simp add: wf_db_def fetch_distinct)

lemma counters_exact_held:
  assumes "counters_exact db" and "lock_subject db st sid"
  shows "subject_held db st sid = held_sum db st sid"
proof (cases st)
  case SUBJECT_USER
  with assms(2) obtain u where u: "fetch u_id sid (users db) = Some u"
    by (auto simp: lock_subject_def locked_subject_def)
  with fetch_SomeD [OF u] SUBJECT_USER assms(1) show ?thesis
    by (auto simp: subject_held_def locked_subject_def counters_exact_def list_all_iff)
next
  case SUBJECT_ALPHA_ROUTER_KEY
  with assms(2) obtain k where k: "fetch k_id sid (api_keys db) = Some k"
    by (auto simp: lock_subject_def locked_subject_def)
  with fetch_SomeD [OF k] SUBJECT_ALPHA_ROUTER_KEY assms(1) show ?thesis
    by (auto simp: subject_held_def locked_subject_def counters_exact_def list_all_iff)
next
  case (SUBJECT_OTHER s)
  with assms show ?thesis by (simp add: lock_subject_def locked_subject_def)
qed

text \<open>What updating one reservation row does to the open holds of each subject.\<close>

lemma held_sum_update:
  assumes "wf_db db" and "fetch r_id rid (reservations db) = Some r"
  shows "held_sum (update_reservation rid f db) st sid
    = held_sum db st sid - (if held_row st sid r then r_reserved_usd r else 0)
      + (if held_row st sid (f r) then r_reserved_usd (f r) else 0)"
  using assms by (simp add: held_sum_def update_reservation_def wf_db_def sum_where_modify)

lemma held_sum_reservations:
  "reservations db' = reservations db \<Longrightarrow> held_sum db' st sid = held_sum db st sid"
  by (simp add: held_sum_def)

lemma wf_update_reservation:
  assumes "wf_db db"
    and "\<And>r. r_id (f r) = r_id r" and "\<And>r. r_idempotency_key (f r) = r_idempotency_key r"
    and "\<And>r. fetch r_id rid (reservations db) = Some r \<Longrightarrow> hold_ok r \<Longrightarrow> hold_ok (f r)"
  shows "wf_db (update_reservation rid f db)"
proof -
  have "hold_ok x" if "x \<in> set (modify r_id rid f (reservations db))" for x
  proof -
    from that obtain r where r: "r \<in> set (reservations db)"
      and x: "x = (if r_id r = rid then f r else r)"
      by (auto simp: set_modify)
    with assms(1) have "hold_ok r" by (simp add: wf_db_def list_all_iff)
    with r x assms(1,4) show ?thesis using wf_db_fetch [OF assms(1) r] by auto
  qed
  with assms show ?thesis
    by (simp add: wf_db_def update_reservation_def list_all_iff)
qed

text \<open>
  Writing the reserved counter of one subject, while the open holds of the other subjects stay
  as they are, keeps the counters exact.
\<close>

lemma counters_exact_write:
  assumes "counters_exact db"
    and "\<And>st' sid'. (st', sid') \<noteq> (st, sid) \<Longrightarrow> held_sum db' st' sid' = held_sum db st' sid'"
    and "held = held_sum db' st sid"
    and "users db' = users db" and "api_keys db' = api_keys db"
  shows "counters_exact (set_subject_reserved db' st sid held)"
proof -
  have res: "held_sum (set_subject_reserved db' st sid held) a b = held_sum db' a b" for a b
    by (rule held_sum_reservations) (simp add: set_subject_reserved_def split: subject_type.split)
  show ?thesis
  proof (cases st)
    case SUBJECT_USER
    then show ?thesis
      using assms unfolding counters_exact_def res
      by (auto simp: set_subject_reserved_def list_all_iff set_modify)
  next
    case SUBJECT_ALPHA_ROUTER_KEY
    then show ?thesis
      using assms unfolding counters_exact_def res
      by (auto simp: set_subject_reserved_def list_all_iff set_modify)
  next
    case (SUBJECT_OTHER s)
    then show ?thesis
      using assms unfolding counters_exact_def res
      by (auto simp: set_subject_reserved_def list_all_iff)
  qed
qed

section \<open>Rows for worked examples\<close>

definition empty_db :: db where
  "empty_db = \<lparr>users = [], api_keys = [], reservations = [], plans = [], assignments = [],
     members = [], groups = [], ledger = [], request_logs = []\<rparr>"

definition sample_user :: "int \<Rightarrow> rat \<Rightarrow> rat \<Rightarrow> user" where
  "sample_user i budget used = \<lparr>u_id = i, u_is_active = True, u_department = None,
     u_monthly_budget_usd = budget, u_budget_used_usd = used, u_budget_reserved_usd = 0,
     u_budget_period_start = Some 0, u_deleted_at = None, u_purged_at = None\<rparr>"

definition sample_key :: "int \<Rightarrow> rat \<Rightarrow> rat \<Rightarrow> api_key" where
  "sample_key i limit used = \<lparr>k_id = i, k_is_active = True, k_credit_limit_usd = limit,
     k_unlimited_budget = False, k_reset_period = Some ''monthly'', k_expires_at = None,
     k_period_used_usd = used, k_period_reserved_usd = 0, k_total_used_usd = used,
     k_period_started_at = Some 0, k_last_used_at = None\<rparr>"

definition sample_hold :: "string \<Rightarrow> subject_type \<Rightarrow> int \<Rightarrow> rat \<Rightarrow> time \<Rightarrow> reservation" where
  "sample_hold rid st sid amount expires = \<lparr>r_id = rid, r_subject_type = st, r_subject_id = sid,
     r_idempotency_key = rid, r_operation = ''chat'', r_model_id = ''m'', r_reserved_usd = amount,
     r_actual_usd = None, r_status = STATUS_HELD, r_request_log_id = None, r_created_at = 0,
     r_expires_at = expires, r_settled_at = None\<rparr>"

lemmas sample_defs = empty_db_def sample_user_def sample_key_def sample_hold_def

end
