(* ===== verification/Budget_Holds.thy ===== *)
theory Budget_Holds
  imports Budget_State
begin

text \<open>
  The life of a hold after it was taken (\<open>services/budget_reservation_service.py\<close>): settle,
  release, expiry of stale holds, reconciliation of the reserved counters with the open holds,
  and the release of all holds of a subject at a period rollover. Each operation keeps the
  budget invariant; a hold leaves the status \<open>held\<close> at most once.
\<close>

section \<open>Definitions\<close>

definition lock_reservation :: "db \<Rightarrow> string \<Rightarrow> reservation option" where
  "lock_reservation db rid = fetch r_id rid (reservations db)"

text \<open>Subject row first, then the reservation: None when either is missing.\<close>

definition lock_subject_then_reservation :: "db \<Rightarrow> string \<Rightarrow> reservation option" where
  "lock_subject_then_reservation db rid =
     (case fetch r_id rid (reservations db) of
        None \<Rightarrow> None
      | Some probe \<Rightarrow>
          if \<not> lock_subject db (r_subject_type probe) (r_subject_id probe) then None
          else lock_reservation db rid)"

definition release_user :: "rat \<Rightarrow> rat option \<Rightarrow> user \<Rightarrow> user" where
  "release_user reserved actual_usd u =
     (let u1 = u\<lparr>u_budget_reserved_usd := round8 (max 0 (u_budget_reserved_usd u - reserved))\<rparr>
      in case actual_usd of
           None \<Rightarrow> u1
         | Some a \<Rightarrow> u1\<lparr>u_budget_used_usd := round8 (u_budget_used_usd u1 + max 0 a)\<rparr>)"

definition release_key :: "time \<Rightarrow> rat \<Rightarrow> rat option \<Rightarrow> api_key \<Rightarrow> api_key" where
  "release_key now reserved actual_usd k =
     (let k1 = k\<lparr>k_period_reserved_usd := round8 (max 0 (k_period_reserved_usd k - reserved))\<rparr>
      in case actual_usd of
           None \<Rightarrow> k1
         | Some a \<Rightarrow> k1\<lparr>k_period_used_usd := round8 (k_period_used_usd k1 + max 0 a),
                        k_total_used_usd := round8 (k_total_used_usd k1 + max 0 a),
                        k_last_used_at := Some now\<rparr>)"

text \<open>Take the hold off the subject's reserved counter; charge the actual cost if there is one.\<close>

definition apply_release_to_subject :: "time \<Rightarrow> db \<Rightarrow> reservation \<Rightarrow> rat option \<Rightarrow> db" where
  "apply_release_to_subject now db row actual_usd =
     (let reserved = max 0 (r_reserved_usd row); sid = r_subject_id row
      in case r_subject_type row of
           SUBJECT_USER \<Rightarrow> db\<lparr>users := modify u_id sid (release_user reserved actual_usd) (users db)\<rparr>
         | SUBJECT_ALPHA_ROUTER_KEY \<Rightarrow>
             db\<lparr>api_keys := modify k_id sid (release_key now reserved actual_usd) (api_keys db)\<rparr>
         | SUBJECT_OTHER _ \<Rightarrow> db)"

definition settle :: "time \<Rightarrow> db \<Rightarrow> string \<Rightarrow> rat \<Rightarrow> int option \<Rightarrow> db \<times> bool" where
  "settle now db rid actual_usd request_log_id =
     (case lock_subject_then_reservation db rid of
        None \<Rightarrow> (db, False)
      | Some row \<Rightarrow>
          if r_status row \<noteq> STATUS_HELD then (db, False)
          else
            let actual = max 0 actual_usd;
                db1 = apply_release_to_subject now db row (Some actual)
            in (update_reservation rid
                  (\<lambda>r. r\<lparr>r_actual_usd := Some actual, r_status := STATUS_SETTLED,
                         r_request_log_id := request_log_id, r_settled_at := Some now\<rparr>) db1,
                True))"

definition release :: "time \<Rightarrow> db \<Rightarrow> string \<Rightarrow> bool \<Rightarrow> db \<times> bool" where
  "release now db rid expired =
     (case lock_subject_then_reservation db rid of
        None \<Rightarrow> (db, False)
      | Some row \<Rightarrow>
          if r_status row \<noteq> STATUS_HELD then (db, False)
          else
            (update_reservation rid
               (\<lambda>r. r\<lparr>r_status := (if expired then STATUS_EXPIRED else STATUS_RELEASED),
                      r_settled_at := Some now\<rparr>)
               (apply_release_to_subject now db row None),
             True))"

text \<open>The loop both sweeps run: release the listed rows as expired and count the released.\<close>

fun release_each :: "time \<Rightarrow> db \<Rightarrow> string list \<Rightarrow> db \<times> nat" where
  "release_each now db [] = (db, 0)"
| "release_each now db (rid # rids) =
     (let (db1, ok) = release now db rid True; (db2, n) = release_each now db1 rids
      in (db2, (if ok then Suc n else n)))"

definition stale_hold :: "time \<Rightarrow> reservation \<Rightarrow> bool" where
  "stale_hold now r \<longleftrightarrow> r_status r = STATUS_HELD \<and> r_expires_at r < now"

definition expire_stale_reservations :: "time \<Rightarrow> db \<Rightarrow> db \<times> nat" where
  "expire_stale_reservations now db =
     release_each now db (map r_id (filter (stale_hold now) (reservations db)))"

text \<open>Set the subject's reserved counter to the sum of its open holds, and return that sum.\<close>

definition reconcile_subject_reserved :: "db \<Rightarrow> subject_type \<Rightarrow> int \<Rightarrow> db \<times> rat" where
  "reconcile_subject_reserved db st sid =
     (let held = round8 (max 0 (sum_where (held_row st sid) r_reserved_usd (reservations db)))
      in (set_subject_reserved db st sid held, held))"

definition release_open_holds_for_subject :: "time \<Rightarrow> db \<Rightarrow> subject_type \<Rightarrow> int \<Rightarrow> db \<times> nat" where
  "release_open_holds_for_subject now db st sid =
     (let (db1, released) =
        release_each now db (map r_id (filter (held_row st sid) (reservations db)))
      in (fst (reconcile_subject_reserved db1 st sid), released))"

text \<open>\<open>_drifted_subject_ids\<close>: counters above the open holds by more than the tolerance.\<close>

definition drift_tolerance :: rat where
  "drift_tolerance = 1 / 1000000"

definition drifted_subject_ids :: "db \<Rightarrow> subject_type \<Rightarrow> (int \<times> rat) list \<Rightarrow> (int \<times> rat) list" where
  "drifted_subject_ids db st counters =
     map (\<lambda>(sid, counter). (sid, counter - held_sum db st sid))
       (filter (\<lambda>(sid, counter). drift_tolerance < counter - held_sum db st sid)
         (filter (\<lambda>(sid, counter). drift_tolerance < counter) counters))"

definition user_counters :: "db \<Rightarrow> (int \<times> rat) list" where
  "user_counters db = map (\<lambda>u. (u_id u, u_budget_reserved_usd u)) (users db)"

definition key_counters :: "db \<Rightarrow> (int \<times> rat) list" where
  "key_counters db = map (\<lambda>k. (k_id k, k_period_reserved_usd k)) (api_keys db)"

fun reconcile_each :: "db \<Rightarrow> subject_type \<Rightarrow> (int \<times> rat) list \<Rightarrow> db" where
  "reconcile_each db st [] = db"
| "reconcile_each db st ((sid, drift) # rest) =
     reconcile_each (fst (reconcile_subject_reserved db st sid)) st rest"

text \<open>
  The sweep over all users, then all keys. \<open>got_lock\<close> is the answer of the advisory lock: when
  it is held elsewhere the call returns 0. The result is (database, repaired, total drift).
\<close>

definition reconcile_drifted_reserved_counters :: "bool \<Rightarrow> db \<Rightarrow> db \<times> nat \<times> rat" where
  "reconcile_drifted_reserved_counters got_lock db =
     (if \<not> got_lock then (db, 0, 0)
      else
        let du = drifted_subject_ids db SUBJECT_USER (user_counters db);
            db1 = reconcile_each db SUBJECT_USER du;
            dk = drifted_subject_ids db1 SUBJECT_ALPHA_ROUTER_KEY (key_counters db1);
            db2 = reconcile_each db1 SUBJECT_ALPHA_ROUTER_KEY dk
        in (db2, length du + length dk, sum_list (map snd (du @ dk))))"

section \<open>Settling and releasing one hold\<close>

lemma lock_then_reservation_Some:
  "lock_subject_then_reservation db rid = Some r \<longleftrightarrow>
     fetch r_id rid (reservations db) = Some r \<and> lock_subject db (r_subject_type r) (r_subject_id r)"
  by (auto simp: lock_subject_then_reservation_def lock_reservation_def split: option.splits)

text \<open>
  Both operations close one open hold: the row leaves the status \<open>held\<close> and the counter of its
  subject goes down by the hold. \<open>close_hold\<close> is the common shape.
\<close>

definition close_hold ::
    "time \<Rightarrow> db \<Rightarrow> reservation \<Rightarrow> rat option \<Rightarrow> (reservation \<Rightarrow> reservation) \<Rightarrow> db" where
  "close_hold now db row actual f =
     update_reservation (r_id row) f (apply_release_to_subject now db row actual)"

definition closing :: "(reservation \<Rightarrow> reservation) \<Rightarrow> bool" where
  "closing f \<longleftrightarrow> (\<forall>r. r_id (f r) = r_id r \<and> r_idempotency_key (f r) = r_idempotency_key r \<and>
      r_reserved_usd (f r) = r_reserved_usd r \<and> r_status (f r) \<noteq> STATUS_HELD \<and>
      r_subject_type (f r) = r_subject_type r \<and> r_subject_id (f r) = r_subject_id r)"

lemma reservations_apply_release [simp]:
  "reservations (apply_release_to_subject now db row actual) = reservations db"
  by (simp add: apply_release_to_subject_def Let_def split: subject_type.split)

lemma u_id_release_user [simp]: "u_id (release_user x a u) = u_id u"
  and u_reserved_release_user [simp]:
    "u_budget_reserved_usd (release_user x a u) = round8 (max 0 (u_budget_reserved_usd u - x))"
  by (simp_all add: release_user_def Let_def split: option.split)

lemma k_id_release_key [simp]: "k_id (release_key now x a k) = k_id k"
  and k_reserved_release_key [simp]:
    "k_period_reserved_usd (release_key now x a k) = round8 (max 0 (k_period_reserved_usd k - x))"
  and k_started_release_key [simp]:
    "k_period_started_at (release_key now x a k) = k_period_started_at k"
  by (simp_all add: release_key_def Let_def split: option.split)

lemma wf_apply_release: "wf_db db \<Longrightarrow> wf_db (apply_release_to_subject now db row actual)"
  by (simp add: wf_db_def apply_release_to_subject_def Let_def split: subject_type.split)

lemma keys_started_apply_release:
  assumes "keys_started db"
  shows "keys_started (apply_release_to_subject now db row actual)"
  using assms
  by (auto simp: keys_started_def apply_release_to_subject_def Let_def list_all_iff set_modify
      split: subject_type.split)

lemma held_sum_close:
  assumes "wf_db db" and "fetch r_id (r_id row) (reservations db) = Some row"
    and "r_status row = STATUS_HELD" and "closing f"
  shows "held_sum (close_hold now db row actual f) st sid =
    held_sum db st sid
      - (if st = r_subject_type row \<and> sid = r_subject_id row then r_reserved_usd row else 0)"
proof -
  have wf: "wf_db (apply_release_to_subject now db row actual)"
    using assms(1) by (rule wf_apply_release)
  have "held_sum (close_hold now db row actual f) st sid =
      held_sum (apply_release_to_subject now db row actual) st sid
        - (if held_row st sid row then r_reserved_usd row else 0)"
    unfolding close_hold_def using assms(2,4)
    by (subst held_sum_update [OF wf, of _ row]) (auto simp: closing_def held_row_def)
  then show ?thesis
    using assms(3) by (auto simp: held_sum_reservations [of "apply_release_to_subject now db row actual" db]
        held_row_def)
qed

text \<open>The counter of the row's subject after the release, computed by the rounded subtraction.\<close>

lemma counter_after_release:
  assumes "wf_db db" and "row \<in> set (reservations db)" and "held_row st sid row"
    and "c = held_sum db st sid"
  shows "round8 (max 0 (c - max 0 (r_reserved_usd row))) = held_sum db st sid - r_reserved_usd row"
proof -
  have "hold_ok row" using assms(1,2) by (simp add: wf_db_def list_all_iff)
  moreover have "r_reserved_usd row \<le> held_sum db st sid"
    using assms(1-3) by (rule held_sum_ge_row)
  ultimately show ?thesis
    using assms(4) held_sum_on_grid [OF assms(1), of st sid] by (simp add: hold_ok_def)
qed

lemma counters_exact_close:
  assumes wf: "wf_db db" and ex: "counters_exact db"
    and row: "fetch r_id (r_id row) (reservations db) = Some row"
    and held: "r_status row = STATUS_HELD" and f: "closing f"
  shows "counters_exact (close_hold now db row actual f)"
proof -
  let ?st = "r_subject_type row" and ?sid = "r_subject_id row"
  have rin: "row \<in> set (reservations db)" and hr: "held_row ?st ?sid row"
    using fetch_SomeD [OF row] held by (auto simp: held_row_def)
  note hs = held_sum_close [OF wf row held f, of now actual]
  note cnt = counter_after_release [OF wf rin hr]
  have us: "users (close_hold now db row actual f) = users (apply_release_to_subject now db row actual)"
    and ks: "api_keys (close_hold now db row actual f) = api_keys (apply_release_to_subject now db row actual)"
    by (simp_all add: close_hold_def update_reservation_def)
  show ?thesis
    using ex cnt unfolding counters_exact_def us ks hs
    by (cases ?st) (auto simp: list_all_iff set_modify apply_release_to_subject_def Let_def)
qed

lemma keys_started_update:
  assumes "keys_started db" and "closing f"
  shows "keys_started (update_reservation rid f db)"
  using assms
  by (auto simp: keys_started_def update_reservation_def list_all_iff list_ex_iff set_modify
      closing_def held_row_def)

lemma wf_close_hold:
  assumes "wf_db db" and "closing f"
  shows "wf_db (close_hold now db row actual f)"
  unfolding close_hold_def
proof (rule wf_update_reservation)
  show "wf_db (apply_release_to_subject now db row actual)"
    using assms(1) by (rule wf_apply_release)
  show "r_id (f r) = r_id r" "r_idempotency_key (f r) = r_idempotency_key r"
    "hold_ok r \<Longrightarrow> hold_ok (f r)" for r
    using assms(2) by (simp_all add: closing_def hold_ok_def)
qed

lemma budget_inv_close:
  assumes "budget_inv db" and "fetch r_id (r_id row) (reservations db) = Some row"
    and "r_status row = STATUS_HELD" and "closing f"
  shows "budget_inv (close_hold now db row actual f)"
proof -
  have "keys_started (close_hold now db row actual f)"
    unfolding close_hold_def using assms
    by (intro keys_started_update keys_started_apply_release) (auto simp: budget_inv_def)
  then show ?thesis
    using assms counters_exact_close wf_close_hold by (simp add: budget_inv_def)
qed

lemma settle_cases:
  obtains (missed) "settle now db rid actual lid = (db, False)"
      "\<And>r. lock_subject_then_reservation db rid = Some r \<Longrightarrow> r_status r \<noteq> STATUS_HELD"
  | (settled) row f where "lock_subject_then_reservation db rid = Some row"
      "r_status row = STATUS_HELD" "closing f" "r_status (f row) = STATUS_SETTLED"
      "r_actual_usd (f row) = Some (max 0 actual)"
      "settle now db rid actual lid = (close_hold now db row (Some (max 0 actual)) f, True)"
proof (cases "lock_subject_then_reservation db rid")
  case None
  then have "settle now db rid actual lid = (db, False)" by (simp add: settle_def)
  with None show ?thesis by (intro missed) auto
next
  case (Some row)
  then have [simp]: "r_id row = rid" by (auto simp: lock_then_reservation_Some dest: fetch_key)
  show ?thesis
  proof (cases "r_status row = STATUS_HELD")
    case False
    with Some have "settle now db rid actual lid = (db, False)" by (simp add: settle_def)
    with Some False show ?thesis by (intro missed) auto
  next
    case True
    with Some show ?thesis
      by (intro settled [of row
          "\<lambda>r. r\<lparr>r_actual_usd := Some (max 0 actual), r_status := STATUS_SETTLED,
                 r_request_log_id := lid, r_settled_at := Some now\<rparr>"])
        (simp_all add: settle_def close_hold_def closing_def Let_def)
  qed
qed

lemma release_cases:
  obtains (missed) "release now db rid expired = (db, False)"
      "\<And>r. lock_subject_then_reservation db rid = Some r \<Longrightarrow> r_status r \<noteq> STATUS_HELD"
  | (released) row f where "lock_subject_then_reservation db rid = Some row"
      "r_status row = STATUS_HELD" "closing f"
      "r_status (f row) = (if expired then STATUS_EXPIRED else STATUS_RELEASED)"
      "release now db rid expired = (close_hold now db row None f, True)"
proof (cases "lock_subject_then_reservation db rid")
  case None
  then have "release now db rid expired = (db, False)" by (simp add: release_def)
  with None show ?thesis by (intro missed) auto
next
  case (Some row)
  then have [simp]: "r_id row = rid" by (auto simp: lock_then_reservation_Some dest: fetch_key)
  show ?thesis
  proof (cases "r_status row = STATUS_HELD")
    case False
    with Some have "release now db rid expired = (db, False)" by (simp add: release_def)
    with Some False show ?thesis by (intro missed) auto
  next
    case True
    with Some show ?thesis
      by (intro released [of row
          "\<lambda>r. r\<lparr>r_status := (if expired then STATUS_EXPIRED else STATUS_RELEASED),
                 r_settled_at := Some now\<rparr>"])
        (simp_all add: release_def close_hold_def closing_def Let_def)
  qed
qed

lemma settle_inv: "budget_inv db \<Longrightarrow> budget_inv (fst (settle now db rid actual lid))"
  by (cases rule: settle_cases [of now db rid actual lid])
     (auto intro!: budget_inv_close simp: lock_then_reservation_Some dest: fetch_key)

lemma release_inv: "budget_inv db \<Longrightarrow> budget_inv (fst (release now db rid expired))"
  by (cases rule: release_cases [of now db rid expired])
     (auto intro!: budget_inv_close simp: lock_then_reservation_Some dest: fetch_key)


section \<open>What a settlement and a release do\<close>

lemma lock_subject_mono:
  assumes "map u_id (users db') = map u_id (users db)" and "map k_id (api_keys db') = map k_id (api_keys db)"
  shows "lock_subject db' st sid = lock_subject db st sid"
proof -
  have "u_id ` set (users db') = u_id ` set (users db)" "k_id ` set (api_keys db') = k_id ` set (api_keys db)"
    using assms by (metis list.set_map)+
  then show ?thesis
    by (cases st) (auto simp: lock_subject_def locked_subject_def fetch_None_iff
        simp flip: not_None_eq)
qed

lemma ids_close_hold [simp]:
  "map u_id (users (close_hold now db row actual f)) = map u_id (users db)"
  "map k_id (api_keys (close_hold now db row actual f)) = map k_id (api_keys db)"
  by (simp_all add: close_hold_def update_reservation_def apply_release_to_subject_def Let_def
      split: subject_type.split)

lemma subject_used_close:
  assumes "lock_subject db (r_subject_type row) (r_subject_id row)"
  shows "subject_used (close_hold now db row actual f) st sid =
    (if st = r_subject_type row \<and> sid = r_subject_id row \<and> actual \<noteq> None
     then round8 (subject_used db st sid + max 0 (the actual)) else subject_used db st sid)"
  using assms
  by (cases st; cases "r_subject_type row")
     (auto simp: subject_used_def locked_subject_def close_hold_def update_reservation_def
        apply_release_to_subject_def Let_def fetch_modify lock_subject_def release_user_def
        release_key_def split: option.splits)

lemma subject_limit_close:
  "subject_limit (close_hold now db row actual f) st sid = subject_limit db st sid"
  by (cases st; cases "r_subject_type row")
     (auto simp: subject_limit_def locked_subject_def close_hold_def update_reservation_def
        apply_release_to_subject_def Let_def fetch_modify release_user_def release_key_def
        split: option.splits)

lemma fetch_close_hold:
  assumes "closing f"
  shows "fetch r_id rid (reservations (close_hold now db row actual f)) =
    (if rid = r_id row then map_option f (fetch r_id rid (reservations db))
     else fetch r_id rid (reservations db))"
  using assms by (simp add: close_hold_def update_reservation_def fetch_modify closing_def)

section \<open>Releasing a list of holds\<close>

definition released_as :: "time \<Rightarrow> bool \<Rightarrow> db \<Rightarrow> string set \<Rightarrow> reservation \<Rightarrow> reservation" where
  "released_as now expired db rids r =
     (if r_id r \<in> rids \<and> r_status r = STATUS_HELD \<and> lock_subject db (r_subject_type r) (r_subject_id r)
      then r\<lparr>r_status := (if expired then STATUS_EXPIRED else STATUS_RELEASED), r_settled_at := Some now\<rparr>
      else r)"

lemma release_reservations:
  assumes "wf_db db"
  shows "reservations (fst (release now db rid expired))
    = map (released_as now expired db {rid}) (reservations db)"
proof (cases "fetch r_id rid (reservations db)")
  case None
  then have "\<forall>r \<in> set (reservations db). released_as now expired db {rid} r = r"
    by (auto simp: fetch_None_iff released_as_def)
  with None show ?thesis
    by (simp add: release_def lock_subject_then_reservation_def map_idI)
next
  case (Some row)
  let ?g = "\<lambda>r. r\<lparr>r_status := (if expired then STATUS_EXPIRED else STATUS_RELEASED), r_settled_at := Some now\<rparr>"
  have eq: "r = row" if "r \<in> set (reservations db)" "r_id r = rid" for r
    using wf_db_fetch [OF assms that(1)] that(2) Some by simp
  show ?thesis
  proof (cases "r_status row = STATUS_HELD \<and> lock_subject db (r_subject_type row) (r_subject_id row)")
    case True
    with Some have "reservations (fst (release now db rid expired)) = modify r_id rid ?g (reservations db)"
      by (simp add: release_def lock_subject_then_reservation_def lock_reservation_def update_reservation_def)
    also have "\<dots> = map (released_as now expired db {rid}) (reservations db)"
      unfolding modify_def using eq True by (intro map_cong) (auto simp: released_as_def)
    finally show ?thesis .
  next
    case False
    with Some have "fst (release now db rid expired) = db"
      by (auto simp: release_def lock_subject_then_reservation_def lock_reservation_def)
    moreover have "released_as now expired db {rid} r = r" if "r \<in> set (reservations db)" for r
      using eq [OF that] False by (auto simp: released_as_def)
    ultimately show ?thesis by (simp add: map_idI)
  qed
qed

lemma release_ids [simp]:
  "map u_id (users (fst (release now db rid e))) = map u_id (users db)"
  "map k_id (api_keys (fst (release now db rid e))) = map k_id (api_keys db)"
  by (cases rule: release_cases [of now db rid e]; simp)+

lemma lock_subject_release [simp]:
  "lock_subject (fst (release now db rid e)) st sid = lock_subject db st sid"
  by (rule lock_subject_mono) simp_all

lemma wf_release: "wf_db db \<Longrightarrow> wf_db (fst (release now db rid e))"
  by (cases rule: release_cases [of now db rid e]) (simp_all add: wf_close_hold)

lemma released_as_Un:
  assumes "\<And>st sid. lock_subject db' st sid = lock_subject db st sid"
  shows "released_as now e db' B (released_as now e db A r) = released_as now e db (A \<union> B) r"
  by (cases "r_status r = STATUS_HELD"; cases "lock_subject db (r_subject_type r) (r_subject_id r)")
     (simp_all add: released_as_def assms)

lemma release_each_reservations:
  "wf_db db \<Longrightarrow> reservations (fst (release_each now db rids))
     = map (released_as now True db (set rids)) (reservations db)"
proof (induction rids arbitrary: db)
  case Nil
  then show ?case by (simp add: released_as_def map_idI)
next
  case (Cons rid rids)
  let ?db1 = "fst (release now db rid True)"
  have "reservations (fst (release_each now ?db1 rids))
      = map (released_as now True ?db1 (set rids)) (reservations ?db1)"
    using Cons.prems by (intro Cons.IH wf_release)
  with Cons.prems show ?case
    by (simp add: release_reservations Let_def split_beta released_as_Un)
qed

lemma release_each_inv: "budget_inv db \<Longrightarrow> budget_inv (fst (release_each now db rids))"
  by (induction rids arbitrary: db) (auto simp: Let_def split_beta release_inv)

lemma release_each_ids [simp]:
  "map u_id (users (fst (release_each now db rids))) = map u_id (users db)"
  "map k_id (api_keys (fst (release_each now db rids))) = map k_id (api_keys db)"
  by (induction rids arbitrary: db) (auto simp: Let_def split_beta)

lemma lock_subject_release_each [simp]:
  "lock_subject (fst (release_each now db rids)) st sid = lock_subject db st sid"
  by (rule lock_subject_mono) simp_all

text \<open>Releasing never touches what was spent or the limits.\<close>

lemma release_used_limit [simp]:
  "subject_used (fst (release now db rid e)) st sid = subject_used db st sid"
  "subject_limit (fst (release now db rid e)) st sid = subject_limit db st sid"
  by (cases rule: release_cases [of now db rid e];
      simp add: subject_used_close subject_limit_close lock_then_reservation_Some)+

lemma release_each_used_limit [simp]:
  "subject_used (fst (release_each now db rids)) st sid = subject_used db st sid"
  "subject_limit (fst (release_each now db rids)) st sid = subject_limit db st sid"
  by (induction rids arbitrary: db) (auto simp: Let_def split_beta)

section \<open>Expiry and reconciliation\<close>

lemma expire_inv: "budget_inv db \<Longrightarrow> budget_inv (fst (expire_stale_reservations now db))"
  by (simp add: expire_stale_reservations_def release_each_inv)

lemma set_subject_reserved_frame [simp]:
  "reservations (set_subject_reserved db st sid h) = reservations db"
  "map u_id (users (set_subject_reserved db st sid h)) = map u_id (users db)"
  "map k_id (api_keys (set_subject_reserved db st sid h)) = map k_id (api_keys db)"
  by (simp_all add: set_subject_reserved_def split: subject_type.split)

lemma subject_set_reserved:
  "subject_used (set_subject_reserved db st' sid' h) st sid = subject_used db st sid"
  "subject_limit (set_subject_reserved db st' sid' h) st sid = subject_limit db st sid"
  "subject_held (set_subject_reserved db st' sid' h) st sid =
     (if st = st' \<and> sid = sid' \<and> lock_subject db st sid then h else subject_held db st sid)"
  by (cases st; cases st'; auto simp: subject_used_def subject_limit_def subject_held_def
      locked_subject_def set_subject_reserved_def fetch_modify lock_subject_def
      split: option.splits)+

lemma lock_set_subject_reserved [simp]:
  "lock_subject (set_subject_reserved db st' sid' h) st sid = lock_subject db st sid"
  by (rule lock_subject_mono) simp_all

lemma wf_set_subject_reserved [simp]: "wf_db (set_subject_reserved db st sid h) = wf_db db"
  by (simp add: wf_db_def)

lemma keys_started_set_reserved: "keys_started db \<Longrightarrow> keys_started (set_subject_reserved db st sid h)"
  by (auto simp: keys_started_def set_subject_reserved_def list_all_iff set_modify
      split: subject_type.split)

lemma reconcile_eq:
  "wf_db db \<Longrightarrow> reconcile_subject_reserved db st sid =
     (set_subject_reserved db st sid (held_sum db st sid), held_sum db st sid)"
  using held_sum_nonneg [of db st sid] held_sum_on_grid [of db st sid]
  by (simp add: reconcile_subject_reserved_def held_sum_def max_def Let_def)

lemma reconcile_inv:
  assumes "budget_inv db"
  shows "budget_inv (fst (reconcile_subject_reserved db st sid))"
  using assms
  by (auto simp: budget_inv_def reconcile_eq keys_started_set_reserved
      intro!: counters_exact_write [of db])

lemma release_open_holds_inv:
  "budget_inv db \<Longrightarrow> budget_inv (fst (release_open_holds_for_subject now db st sid))"
  by (simp add: release_open_holds_for_subject_def Let_def split_beta reconcile_inv release_each_inv)

lemma release_open_holds_reservations:
  "wf_db db \<Longrightarrow> reservations (fst (release_open_holds_for_subject now db st sid))
     = map (released_as now True db (set (map r_id (filter (held_row st sid) (reservations db)))))
         (reservations db)"
  by (simp add: release_open_holds_for_subject_def Let_def split_beta
      reconcile_subject_reserved_def release_each_reservations)

lemma wf_db_id_inj:
  "wf_db db \<Longrightarrow> r \<in> set (reservations db) \<Longrightarrow> r' \<in> set (reservations db) \<Longrightarrow> r_id r = r_id r' \<Longrightarrow> r = r'"
  by (metis option.inject wf_db_fetch)

lemma release_open_holds_none_held:
  assumes "wf_db db" and "lock_subject db st sid"
  shows "\<not> list_ex (held_row st sid) (reservations (fst (release_open_holds_for_subject now db st sid)))"
proof -
  let ?ids = "set (map r_id (filter (held_row st sid) (reservations db)))"
  have "\<not> held_row st sid (released_as now True db ?ids r)" if "r \<in> set (reservations db)" for r
  proof (cases "held_row st sid r")
    case True
    with that have "r_id r \<in> ?ids" by simp
    with True assms(2) show ?thesis by (simp add: released_as_def held_row_def)
  next
    case False
    then show ?thesis by (simp add: released_as_def held_row_def)
  qed
  with assms(1) show ?thesis
    by (simp add: release_open_holds_reservations list_ex_iff)
qed

lemma release_open_holds_frame [simp]:
  "map u_id (users (fst (release_open_holds_for_subject now db st sid))) = map u_id (users db)"
  "map k_id (api_keys (fst (release_open_holds_for_subject now db st sid))) = map k_id (api_keys db)"
  "subject_used (fst (release_open_holds_for_subject now db st sid)) st' sid' = subject_used db st' sid'"
  "subject_limit (fst (release_open_holds_for_subject now db st sid)) st' sid' = subject_limit db st' sid'"
  by (simp_all add: release_open_holds_for_subject_def Let_def split_beta
      reconcile_subject_reserved_def subject_set_reserved)

lemma lock_subject_release_open_holds [simp]:
  "lock_subject (fst (release_open_holds_for_subject now db st' sid')) st sid = lock_subject db st sid"
  by (rule lock_subject_mono) simp_all


section \<open>The drift sweep\<close>

definition repair_user :: "db \<Rightarrow> int set \<Rightarrow> user \<Rightarrow> user" where
  "repair_user db ids u =
     (if u_id u \<in> ids then u\<lparr>u_budget_reserved_usd := held_sum db SUBJECT_USER (u_id u)\<rparr> else u)"

definition repair_key :: "db \<Rightarrow> int set \<Rightarrow> api_key \<Rightarrow> api_key" where
  "repair_key db ids k =
     (if k_id k \<in> ids
      then k\<lparr>k_period_reserved_usd := held_sum db SUBJECT_ALPHA_ROUTER_KEY (k_id k)\<rparr> else k)"

lemma reconcile_step:
  assumes "wf_db db"
  shows "reconcile_each db st (d # ds) =
    reconcile_each (set_subject_reserved db st (fst d) (held_sum db st (fst d))) st ds"
  using assms by (cases d) (simp add: reconcile_eq)

lemma reconcile_each_frame:
  "wf_db db \<Longrightarrow> reservations (reconcile_each db st ds) = reservations db \<and> wf_db (reconcile_each db st ds)"
proof (induction ds arbitrary: db)
  case (Cons d ds)
  then show ?case by (simp add: reconcile_step del: reconcile_each.simps)
qed simp

lemma reconcile_each_users:
  "wf_db db \<Longrightarrow> users (reconcile_each db SUBJECT_USER ds) = map (repair_user db (fst ` set ds)) (users db)
     \<and> api_keys (reconcile_each db SUBJECT_USER ds) = api_keys db"
proof (induction ds arbitrary: db)
  case (Cons d ds)
  let ?db1 = "set_subject_reserved db SUBJECT_USER (fst d) (held_sum db SUBJECT_USER (fst d))"
  have hs: "held_sum ?db1 st sid = held_sum db st sid" for st sid
    by (rule held_sum_reservations) simp
  have "repair_user ?db1 (fst ` set ds)
      (if u_id u = fst d then u\<lparr>u_budget_reserved_usd := held_sum db SUBJECT_USER (fst d)\<rparr> else u)
      = repair_user db (fst ` set (d # ds)) u" for u
    by (simp add: repair_user_def hs)
  moreover have "users ?db1 = map (\<lambda>x. if u_id x = fst d then x\<lparr>u_budget_reserved_usd := held_sum db SUBJECT_USER (fst d)\<rparr> else x) (users db)" "api_keys ?db1 = api_keys db"
    by (simp_all add: set_subject_reserved_def modify_def)
  moreover have "wf_db ?db1" using Cons.prems by simp
  ultimately show ?case
    using Cons.IH [of ?db1] Cons.prems by (simp add: reconcile_step o_def del: reconcile_each.simps)
qed (simp add: repair_user_def map_idI)

lemma reconcile_each_keys:
  "wf_db db \<Longrightarrow>
     api_keys (reconcile_each db SUBJECT_ALPHA_ROUTER_KEY ds) = map (repair_key db (fst ` set ds)) (api_keys db)
     \<and> users (reconcile_each db SUBJECT_ALPHA_ROUTER_KEY ds) = users db"
proof (induction ds arbitrary: db)
  case (Cons d ds)
  let ?db1 = "set_subject_reserved db SUBJECT_ALPHA_ROUTER_KEY (fst d)
      (held_sum db SUBJECT_ALPHA_ROUTER_KEY (fst d))"
  have hs: "held_sum ?db1 st sid = held_sum db st sid" for st sid
    by (rule held_sum_reservations) simp
  have "repair_key ?db1 (fst ` set ds)
      (if k_id k = fst d
       then k\<lparr>k_period_reserved_usd := held_sum db SUBJECT_ALPHA_ROUTER_KEY (fst d)\<rparr> else k)
      = repair_key db (fst ` set (d # ds)) k" for k
    by (simp add: repair_key_def hs)
  moreover have "api_keys ?db1 = map (\<lambda>x. if k_id x = fst d then x\<lparr>k_period_reserved_usd := held_sum db SUBJECT_ALPHA_ROUTER_KEY (fst d)\<rparr> else x) (api_keys db)" "users ?db1 = users db"
    by (simp_all add: set_subject_reserved_def modify_def)
  moreover have "wf_db ?db1" using Cons.prems by simp
  ultimately show ?case
    using Cons.IH [of ?db1] Cons.prems by (simp add: reconcile_step o_def del: reconcile_each.simps)
qed (simp add: repair_key_def map_idI)

lemma drifted_iff:
  "sid \<in> fst ` set (drifted_subject_ids db st cs) \<longleftrightarrow>
     (\<exists>c. (sid, c) \<in> set cs \<and> drift_tolerance < c \<and> drift_tolerance < c - held_sum db st sid)"
  by (force simp: drifted_subject_ids_def image_iff)

lemma undrifted_close:
  assumes "wf_db db" and "(sid, c) \<in> set cs" and "sid \<notin> fst ` set (drifted_subject_ids db st cs)"
  shows "c \<le> held_sum db st sid + drift_tolerance"
  using assms held_sum_nonneg [of db st sid] by (force simp: drifted_iff not_less)

lemma drift_tolerance_pos [simp]: "0 < drift_tolerance" "0 \<le> drift_tolerance"
  by (simp_all add: drift_tolerance_def)

lemma repaired_users:
  assumes "wf_db db"
    and "u \<in> set (map (repair_user db (fst ` set (drifted_subject_ids db SUBJECT_USER (user_counters db)))) (users db))"
  shows "u_budget_reserved_usd u \<le> held_sum db SUBJECT_USER (u_id u) + drift_tolerance"
proof -
  obtain v where v: "v \<in> set (users db)"
    "u = repair_user db (fst ` set (drifted_subject_ids db SUBJECT_USER (user_counters db))) v"
    using assms(2) by auto
  have "(u_id v, u_budget_reserved_usd v) \<in> set (user_counters db)"
    using v(1) by (auto simp: user_counters_def)
  from undrifted_close [OF assms(1) this, of SUBJECT_USER] v(2) show ?thesis
    by (auto simp: repair_user_def)
qed

lemma repaired_keys:
  assumes "wf_db db"
    and "k \<in> set (map (repair_key db (fst ` set (drifted_subject_ids db SUBJECT_ALPHA_ROUTER_KEY (key_counters db)))) (api_keys db))"
  shows "k_period_reserved_usd k \<le> held_sum db SUBJECT_ALPHA_ROUTER_KEY (k_id k) + drift_tolerance"
proof -
  obtain v where v: "v \<in> set (api_keys db)"
    "k = repair_key db (fst ` set (drifted_subject_ids db SUBJECT_ALPHA_ROUTER_KEY (key_counters db))) v"
    using assms(2) by auto
  have "(k_id v, k_period_reserved_usd v) \<in> set (key_counters db)"
    using v(1) by (auto simp: key_counters_def)
  from undrifted_close [OF assms(1) this, of SUBJECT_ALPHA_ROUTER_KEY] v(2) show ?thesis
    by (auto simp: repair_key_def)
qed

lemma no_drift_when_exact:
  assumes "counters_exact db" and "cs = user_counters db \<and> st = SUBJECT_USER \<or>
    cs = key_counters db \<and> st = SUBJECT_ALPHA_ROUTER_KEY"
  shows "drifted_subject_ids db st cs = []"
  using assms
  by (auto simp: drifted_subject_ids_def filter_empty_conv counters_exact_def list_all_iff
      user_counters_def key_counters_def not_less drift_tolerance_def)

lemma drift_sweep_inv:
  "budget_inv db \<Longrightarrow> fst (reconcile_drifted_reserved_counters got db) = db"
  by (simp add: reconcile_drifted_reserved_counters_def budget_inv_def no_drift_when_exact Let_def)

section \<open>Releases touch nothing but the reserved counters\<close>

definition sans_reserved_u :: "user \<Rightarrow> user" where
  "sans_reserved_u u = u\<lparr>u_budget_reserved_usd := 0\<rparr>"

definition sans_reserved_k :: "api_key \<Rightarrow> api_key" where
  "sans_reserved_k k = k\<lparr>k_period_reserved_usd := 0\<rparr>"

lemmas sans_reserved_defs = sans_reserved_u_def sans_reserved_k_def

lemma release_only_reserved:
  "map sans_reserved_u (users (fst (release now db rid e))) = map sans_reserved_u (users db)"
  "map sans_reserved_k (api_keys (fst (release now db rid e))) = map sans_reserved_k (api_keys db)"
  by (auto simp: release_def update_reservation_def apply_release_to_subject_def Let_def
      release_user_def release_key_def sans_reserved_defs
      split: option.split subject_type.split)

lemma release_each_only_reserved:
  "map sans_reserved_u (users (fst (release_each now db rids))) = map sans_reserved_u (users db)"
  "map sans_reserved_k (api_keys (fst (release_each now db rids))) = map sans_reserved_k (api_keys db)"
  by (induction rids arbitrary: db) (simp_all add: split_beta release_only_reserved)

lemma set_reserved_only_reserved:
  "map sans_reserved_u (users (set_subject_reserved db st sid h)) = map sans_reserved_u (users db)"
  "map sans_reserved_k (api_keys (set_subject_reserved db st sid h)) = map sans_reserved_k (api_keys db)"
  by (simp_all add: set_subject_reserved_def sans_reserved_defs split: subject_type.split)

lemma release_open_holds_only_reserved:
  "map sans_reserved_u (users (fst (release_open_holds_for_subject now db st sid))) = map sans_reserved_u (users db)"
  "map sans_reserved_k (api_keys (fst (release_open_holds_for_subject now db st sid))) = map sans_reserved_k (api_keys db)"
  by (simp_all add: release_open_holds_for_subject_def reconcile_subject_reserved_def Let_def split_beta
      set_reserved_only_reserved release_each_only_reserved)

lemma fetch_map_eq:
  assumes "map f xs = map f ys" and "\<And>x y. f x = f y \<Longrightarrow> key x = key y"
    and "fetch key i ys = Some y"
  shows "\<exists>x. fetch key i xs = Some x \<and> f x = f y"
proof -
  have "list_all2 (\<lambda>x y. f x = f y) xs ys"
    using assms(1) by (simp add: list_all2_conv_all_nth) (metis length_map nth_map)
  then show ?thesis
    using assms(3) by induction (auto dest: assms(2) split: if_splits)
qed

lemma sans_reserved_key: "sans_reserved_k x = sans_reserved_k y \<Longrightarrow>
    k_id x = k_id y \<and> k_period_used_usd x = k_period_used_usd y \<and> k_credit_limit_usd x = k_credit_limit_usd y \<and>
    k_is_active x = k_is_active y \<and> k_expires_at x = k_expires_at y \<and> k_unlimited_budget x = k_unlimited_budget y \<and>
    k_total_used_usd x = k_total_used_usd y \<and> k_period_started_at x = k_period_started_at y \<and>
    k_reset_period x = k_reset_period y"
  unfolding sans_reserved_k_def by (cases x; cases y) simp

lemma sans_reserved_user: "sans_reserved_u x = sans_reserved_u y \<Longrightarrow>
    u_id x = u_id y \<and> u_budget_used_usd x = u_budget_used_usd y \<and>
    u_monthly_budget_usd x = u_monthly_budget_usd y \<and> u_department x = u_department y \<and>
    u_budget_period_start x = u_budget_period_start y"
  unfolding sans_reserved_u_def by (cases x; cases y) simp

end
