(* ===== verification/Budget_Plans.thy ===== *)
theory Budget_Plans
  imports Budget_Holds
begin

text \<open>
  Monthly budgets (\<open>services/budget_service.py\<close>) and the plans they come from
  (\<open>services/plan_assignment_service.py\<close>): resolution for one user and for a batch, the plan a
  user inherits, the calendar rollover, and the monthly reset of all users in keyset pages.
\<close>

section \<open>Calendar\<close>

text \<open>
  \<open>datetime(now.year, now.month, 1)\<close>: times are microseconds since 1970-01-01 UTC. The day of
  the month is computed in the proleptic Gregorian calendar, with years that start in March.
\<close>

definition day_of_month :: "int \<Rightarrow> int" where
  "day_of_month day =
     (let doe = (day + 719468) mod 146097;
          yoe = (doe - doe div 1460 + doe div 36524 - doe div 146096) div 365;
          doy = doe - (365 * yoe + yoe div 4 - yoe div 100);
          mp = (5 * doy + 2) div 153
      in doy - (153 * mp + 2) div 5 + 1)"

definition month_start :: "time \<Rightarrow> time" where
  "month_start now = (let day = now div days 1 in days (day - (day_of_month day - 1)))"

section \<open>Plan resolution\<close>

definition plan_amount :: "db \<Rightarrow> int option \<Rightarrow> rat option" where
  "plan_amount db pid =
     (case pid of None \<Rightarrow> None
      | Some i \<Rightarrow> map_option p_monthly_budget_usd (fetch p_id i (plans db)))"

definition get_user_direct_assignment :: "db \<Rightarrow> int \<Rightarrow> plan_assignment option" where
  "get_user_direct_assignment db uid = find (\<lambda>a. pa_user_id a = Some uid) (assignments db)"

definition group_ids_of :: "db \<Rightarrow> int \<Rightarrow> int list" where
  "group_ids_of db uid = map snd (filter (\<lambda>m. fst m = uid) (members db))"

definition in_groups :: "int list \<Rightarrow> plan_assignment \<Rightarrow> bool" where
  "in_groups gids a = (case pa_group_id a of None \<Rightarrow> False | Some g \<Rightarrow> g \<in> set gids)"

definition group_assignment :: "db \<Rightarrow> int \<Rightarrow> plan_assignment option" where
  "group_assignment db uid = find (in_groups (group_ids_of db uid)) (assignments db)"

definition department_assignment :: "db \<Rightarrow> string option \<Rightarrow> plan_assignment option" where
  "department_assignment db dept =
     (if truthy dept then find (\<lambda>a. pa_department a = dept \<and> pa_department a \<noteq> None) (assignments db)
      else None)"

definition assigned_amount :: "db \<Rightarrow> plan_assignment option \<Rightarrow> rat option" where
  "assigned_amount db a = (case a of None \<Rightarrow> None | Some x \<Rightarrow> plan_amount db (pa_plan_id x))"

text \<open>User override (plan, or explicit none), then group, then department.\<close>

definition resolve_monthly_budget :: "db \<Rightarrow> user \<Rightarrow> rat" where
  "resolve_monthly_budget db user =
     (case get_user_direct_assignment db (u_id user) of
        Some direct \<Rightarrow> (case plan_amount db (pa_plan_id direct) of None \<Rightarrow> 0 | Some b \<Rightarrow> b)
      | None \<Rightarrow>
          (case assigned_amount db (group_assignment db (u_id user)) of
             Some b \<Rightarrow> b
           | None \<Rightarrow>
               (case assigned_amount db (department_assignment db (u_department user)) of
                  Some b \<Rightarrow> b
                | None \<Rightarrow> 0)))"

subsection \<open>The batch\<close>

text \<open>The loop over the direct rows: (budgets, explicit_none_ids, assigned_direct_ids).\<close>

fun batch_direct ::
    "db \<Rightarrow> int list \<Rightarrow> plan_assignment list \<Rightarrow> (int \<rightharpoonup> rat) \<times> int list \<times> int list
      \<Rightarrow> (int \<rightharpoonup> rat) \<times> int list \<times> int list" where
  "batch_direct db ids [] acc = acc"
| "batch_direct db ids (a # as) (budgets, nones, assigned) =
     batch_direct db ids as
       (case pa_user_id a of
          None \<Rightarrow> (budgets, nones, assigned)
        | Some uid \<Rightarrow>
            if uid \<notin> set ids then (budgets, nones, assigned)
            else if pa_plan_id a = None then (budgets(uid \<mapsto> 0), uid # nones, assigned)
            else (case plan_amount db (pa_plan_id a) of
                    Some amount \<Rightarrow> (budgets(uid \<mapsto> amount), nones, uid # assigned)
                  | None \<Rightarrow> (budgets, nones, assigned)))"

text \<open>\<open>{gid: amount}\<close> over the inner join of assignments and plans; a later row overwrites.\<close>

definition group_budgets :: "db \<Rightarrow> int list \<Rightarrow> int \<rightharpoonup> rat" where
  "group_budgets db gids =
     map_of (rev (List.maps (\<lambda>a. case (pa_group_id a, plan_amount db (pa_plan_id a)) of
         (Some g, Some amount) \<Rightarrow> if g \<in> set gids then [(g, amount)] else []
       | _ \<Rightarrow> []) (assignments db)))"

definition dept_budgets :: "db \<Rightarrow> string list \<Rightarrow> string \<rightharpoonup> rat" where
  "dept_budgets db depts =
     map_of (rev (List.maps (\<lambda>a. case (pa_department a, plan_amount db (pa_plan_id a)) of
         (Some d, Some amount) \<Rightarrow> if d \<in> set depts \<and> d \<noteq> [] then [(d, amount)] else []
       | _ \<Rightarrow> []) (assignments db)))"

text \<open>\<open>for gid in groups: if gid in found: budgets[uid] = found[gid]; break\<close>.\<close>

fun first_found :: "('k \<rightharpoonup> 'v) \<Rightarrow> 'k list \<Rightarrow> 'v option" where
  "first_found m [] = None"
| "first_found m (k # ks) = (case m k of Some v \<Rightarrow> Some v | None \<Rightarrow> first_found m ks)"

definition upd_found :: "('k \<rightharpoonup> 'v) \<Rightarrow> 'k \<Rightarrow> 'v option \<Rightarrow> ('k \<rightharpoonup> 'v)" where
  "upd_found m k v = (case v of None \<Rightarrow> m | Some x \<Rightarrow> m(k \<mapsto> x))"

definition dept_names :: "user list \<Rightarrow> string list" where
  "dept_names us = List.maps (\<lambda>u. case u_department u of Some d \<Rightarrow> if d \<noteq> [] then [d] else [] | None \<Rightarrow> []) us"

definition resolve_monthly_budgets_batch :: "db \<Rightarrow> user list \<Rightarrow> (int \<rightharpoonup> rat)" where
  "resolve_monthly_budgets_batch db us =
     (let ids = map u_id us;
          budgets0 = foldl (\<lambda>m i. m(i \<mapsto> 0)) Map.empty ids;
          (budgets1, nones, assigned) = batch_direct db ids (assignments db) (budgets0, [], []);
          unresolved = filter (\<lambda>i. i \<notin> set nones \<and> i \<notin> set assigned) ids;
          gids = map snd (filter (\<lambda>m. fst m \<in> set unresolved) (members db));
          gb = group_budgets db gids;
          budgets2 = foldl (\<lambda>m i. upd_found m i (first_found gb (group_ids_of db i))) budgets1 unresolved;
          dept_users = filter (\<lambda>u. u_id u \<in> set unresolved \<and>
              (case budgets2 (u_id u) of Some b \<Rightarrow> b \<le> 0 | None \<Rightarrow> False) \<and> truthy (u_department u)) us;
          dept_found = dept_budgets db (dept_names dept_users)
      in foldl (\<lambda>m u. upd_found m (u_id u) (Option.bind (u_department u) dept_found)) budgets2 dept_users)"

subsection \<open>The inherited plan\<close>

datatype plan_source = From_Group | From_Department

record inherited_plan =
  ip_plan_id :: int
  ip_plan_name :: string
  ip_source :: plan_source

definition plan_row :: "db \<Rightarrow> int option \<Rightarrow> (int \<times> string) option" where
  "plan_row db pid =
     (case pid of None \<Rightarrow> None
      | Some i \<Rightarrow> (case fetch p_id i (plans db) of
            None \<Rightarrow> None
          | Some p \<Rightarrow> if p_name p = [] then None else Some (p_id p, p_name p)))"

definition group_plans :: "db \<Rightarrow> int list \<Rightarrow> int \<rightharpoonup> int \<times> string" where
  "group_plans db gids =
     map_of (rev (List.maps (\<lambda>a. case (pa_group_id a, plan_row db (pa_plan_id a)) of
         (Some g, Some p) \<Rightarrow> if g \<in> set gids then [(g, p)] else []
       | _ \<Rightarrow> []) (assignments db)))"

definition dept_plans :: "db \<Rightarrow> string list \<Rightarrow> string \<rightharpoonup> int \<times> string" where
  "dept_plans db depts =
     map_of (rev (List.maps (\<lambda>a. case (pa_department a, plan_row db (pa_plan_id a)) of
         (Some d, Some p) \<Rightarrow> if d \<in> set depts \<and> d \<noteq> [] then [(d, p)] else []
       | _ \<Rightarrow> []) (assignments db)))"

definition inherits :: "db \<Rightarrow> int list \<Rightarrow> int \<Rightarrow> bool" where
  "inherits db ids uid \<longleftrightarrow>
     \<not> list_ex (\<lambda>a. pa_user_id a = Some uid \<and> uid \<in> set ids) (assignments db)"

definition resolve_inherited_plans_batch :: "db \<Rightarrow> user list \<Rightarrow> (int \<Rightarrow> inherited_plan option)" where
  "resolve_inherited_plans_batch db us =
     (let ids = map u_id us;
          inherit_ids = filter (inherits db ids) ids;
          gids = map snd (filter (\<lambda>m. fst m \<in> set inherit_ids) (members db));
          gp = group_plans db gids;
          out1 = foldl (\<lambda>m i. upd_found m i
              (map_option (\<lambda>(p, n). \<lparr>ip_plan_id = p, ip_plan_name = n, ip_source = From_Group\<rparr>)
                (first_found gp (group_ids_of db i)))) Map.empty inherit_ids;
          cands = filter (\<lambda>u. u_id u \<in> set inherit_ids \<and> out1 (u_id u) = None \<and> truthy (u_department u)) us;
          dp = dept_plans db (dept_names cands)
      in foldl (\<lambda>m u. upd_found m (u_id u)
           (map_option (\<lambda>(p, n). \<lparr>ip_plan_id = p, ip_plan_name = n, ip_source = From_Department\<rparr>)
             (Option.bind (u_department u) dp))) out1 cands)"

section \<open>Admission messages and usage of the month\<close>

definition NO_PLAN_BUDGET_DETAIL :: string where
  "NO_PLAN_BUDGET_DETAIL = ''No budget plan is assigned to your account. '' @
     ''Ask an administrator to assign a plan before you can use Alpharouter features.''"

definition BUDGET_EXCEEDED_DETAIL :: string where
  "BUDGET_EXCEEDED_DETAIL = ''Monthly budget exceeded''"

definition budget_request_blocked :: "rat \<Rightarrow> rat \<Rightarrow> string option" where
  "budget_request_blocked budget usage =
     (if budget \<le> 0 then Some NO_PLAN_BUDGET_DETAIL
      else if usage \<ge> budget then Some BUDGET_EXCEEDED_DETAIL
      else None)"

definition get_month_usage :: "time \<Rightarrow> db \<Rightarrow> int \<Rightarrow> rat" where
  "get_month_usage now db uid =
     (let ms = month_start now;
          start = (case Option.bind (fetch u_id uid (users db)) u_budget_period_start of
              Some p \<Rightarrow> if p > ms then p else ms | None \<Rightarrow> ms);
          ledger_total = sum_where (\<lambda>e. l_subject_type e = SUBJECT_USER \<and> l_subject_id e = Some uid
              \<and> l_effective_at e \<ge> start) l_amount_usd (ledger db);
          legacy_total = sum_where (\<lambda>q. q_user_id q = Some uid \<and> q_request_time q \<ge> start
              \<and> q_usage_operation_id q = None) q_total_cost_usd (request_logs db)
      in max 0 (ledger_total + legacy_total))"

section \<open>Period rollover\<close>

definition period_is_old :: "time \<Rightarrow> time option \<Rightarrow> bool" where
  "period_is_old ms start = (case start of None \<Rightarrow> True | Some p \<Rightarrow> p < ms)"

definition update_user :: "int \<Rightarrow> (user \<Rightarrow> user) \<Rightarrow> db \<Rightarrow> db" where
  "update_user uid f db = db\<lparr>users := modify u_id uid f (users db)\<rparr>"

text \<open>The rollover itself, on the locked row.\<close>

definition roll_period :: "time \<Rightarrow> db \<Rightarrow> int \<Rightarrow> db" where
  "roll_period now db uid =
     (let db1 = fst (release_open_holds_for_subject now db SUBJECT_USER uid);
          db2 = update_user uid (\<lambda>u. u\<lparr>u_budget_period_start := Some (month_start now)\<rparr>) db1;
          usage = get_month_usage now db2 uid
      in update_user uid (\<lambda>u. u\<lparr>u_budget_used_usd := usage, u_budget_reserved_usd := 0\<rparr>) db2)"

definition sync_budget :: "db \<Rightarrow> user \<Rightarrow> db" where
  "sync_budget db user =
     update_user (u_id user) (\<lambda>u. u\<lparr>u_monthly_budget_usd := resolve_monthly_budget db user\<rparr>) db"

text \<open>
  \<open>snap\<close> is the request's own copy of the user, loaded without a lock: the first test reads it,
  the second reads the row after locking it.
\<close>

definition ensure_budget_period :: "time \<Rightarrow> db \<Rightarrow> user \<Rightarrow> db" where
  "ensure_budget_period now db snap =
     (if period_is_old (month_start now) (u_budget_period_start snap) then
        (case fetch u_id (u_id snap) (users db) of
           None \<Rightarrow> db
         | Some locked \<Rightarrow>
             sync_budget
               (if period_is_old (month_start now) (u_budget_period_start locked)
                then roll_period now db (u_id snap) else db) locked)
      else sync_budget db snap)"

text \<open>(monthly budget, used plus reserved) after bringing the period up to date.\<close>

definition get_user_budget_state :: "time \<Rightarrow> db \<Rightarrow> user \<Rightarrow> db \<times> rat \<times> rat" where
  "get_user_budget_state now db snap =
     (let db1 = ensure_budget_period now db snap
      in (db1, resolve_monthly_budget db1 snap,
          (case fetch u_id (u_id snap) (users db1) of
             None \<Rightarrow> 0 | Some u \<Rightarrow> u_budget_used_usd u + u_budget_reserved_usd u)))"

section \<open>Monthly reset of every user\<close>

definition MONTHLY_RESET_BATCH_SIZE :: nat where
  "MONTHLY_RESET_BATCH_SIZE = 500"

definition apply_period_reset :: "time \<Rightarrow> rat \<Rightarrow> user \<Rightarrow> user" where
  "apply_period_reset period_start monthly_budget u =
     u\<lparr>u_budget_used_usd := 0, u_budget_reserved_usd := 0,
       u_budget_period_start := Some period_start, u_monthly_budget_usd := monthly_budget\<rparr>"

definition reset_one :: "time \<Rightarrow> db \<Rightarrow> int \<Rightarrow> rat \<Rightarrow> db" where
  "reset_one now db uid budget =
     update_user uid (apply_period_reset (month_start now) budget)
       (fst (release_open_holds_for_subject now db SUBJECT_USER uid))"

text \<open>
  The retry of a failed batch, one transaction per user. \<open>user_fails\<close> says for which users the
  database raises; their transaction is rolled back and the loop goes on.
\<close>

fun reset_batch_individually :: "time \<Rightarrow> (int \<Rightarrow> bool) \<Rightarrow> db \<Rightarrow> int list \<Rightarrow> db \<times> nat" where
  "reset_batch_individually now user_fails db [] = (db, 0)"
| "reset_batch_individually now user_fails db (uid # ids) =
     (case fetch u_id uid (users db) of
        None \<Rightarrow> reset_batch_individually now user_fails db ids
      | Some user \<Rightarrow>
          if user_fails uid then reset_batch_individually now user_fails db ids
          else
            let db1 = fst (release_open_holds_for_subject now db SUBJECT_USER uid);
                db2 = update_user uid
                  (apply_period_reset (month_start now) (resolve_monthly_budget db1 user)) db1;
                (db3, n) = reset_batch_individually now user_fails db2 ids
            in (db3, Suc n))"

text \<open>The body of one batch that does not fail.\<close>

definition reset_batch :: "time \<Rightarrow> db \<Rightarrow> user list \<Rightarrow> db" where
  "reset_batch now db us =
     (let budgets = resolve_monthly_budgets_batch db us
      in foldl (\<lambda>d u. reset_one now d (u_id u)
            (case budgets (u_id u) of Some b \<Rightarrow> b | None \<Rightarrow> 0)) db us)"

text \<open>\<open>SELECT ... WHERE id > last_id ORDER BY id LIMIT n\<close>.\<close>

definition next_page :: "db \<Rightarrow> int \<Rightarrow> nat \<Rightarrow> user list" where
  "next_page db last_id n = take n (sort_key u_id (filter (\<lambda>u. last_id < u_id u) (users db)))"


section \<open>Rollover keeps the budget invariant\<close>

lemma update_user_frame [simp]:
  "reservations (update_user uid f db) = reservations db" "api_keys (update_user uid f db) = api_keys db"
  "assignments (update_user uid f db) = assignments db" "plans (update_user uid f db) = plans db"
  "members (update_user uid f db) = members db" "groups (update_user uid f db) = groups db"
  by (simp_all add: update_user_def)

lemma held_sum_update_user [simp]: "held_sum (update_user uid f db) st sid = held_sum db st sid"
  by (rule held_sum_reservations) simp

lemma update_user_inv:
  assumes inv: "budget_inv db" and id: "\<And>u. u_id (f u) = u_id u"
    and res: "\<And>u. fetch u_id uid (users db) = Some u \<Longrightarrow>
      u_budget_reserved_usd (f u) = held_sum db SUBJECT_USER uid"
  shows "budget_inv (update_user uid f db)"
proof -
  have d: "distinct (map u_id (users db))" using inv by (simp add: budget_inv_def wf_db_def)
  have "u_budget_reserved_usd (f u) = held_sum db SUBJECT_USER uid"
    if "u \<in> set (users db)" "u_id u = uid" for u
    using fetch_distinct [OF d that(1)] that(2) res by simp
  then have "counters_exact (update_user uid f db)"
    using inv by (auto simp: budget_inv_def counters_exact_def update_user_def set_modify list_all_iff
        id held_sum_update_user [unfolded update_user_def])
  moreover have "wf_db (update_user uid f db)"
    using inv by (simp add: budget_inv_def wf_db_def update_user_def id)
  moreover have "keys_started (update_user uid f db)"
    using inv by (simp add: budget_inv_def keys_started_def)
  ultimately show ?thesis by (simp add: budget_inv_def)
qed

lemma held_sum_none: "\<not> list_ex (held_row st sid) (reservations db) \<Longrightarrow> held_sum db st sid = 0"
  unfolding held_sum_def by (rule sum_where_none) (auto simp: list_ex_iff)

lemma lock_subject_user: "lock_subject db SUBJECT_USER uid \<longleftrightarrow> fetch u_id uid (users db) \<noteq> None"
  by (simp add: lock_subject_def locked_subject_def)

lemma lock_subject_key: "lock_subject db SUBJECT_ALPHA_ROUTER_KEY kid \<longleftrightarrow> fetch k_id kid (api_keys db) \<noteq> None"
  by (simp add: lock_subject_def locked_subject_def)

lemma fetch_user_same_ids:
  "map u_id (users db') = map u_id (users db) \<Longrightarrow>
     fetch u_id uid (users db') = None \<longleftrightarrow> fetch u_id uid (users db) = None"
  unfolding fetch_None_iff by (metis list.set_map)

lemma released_held_sum:
  assumes "budget_inv db" and "fetch u_id uid (users db) \<noteq> None"
  shows "held_sum (fst (release_open_holds_for_subject now db SUBJECT_USER uid)) SUBJECT_USER uid = 0"
  using assms
  by (intro held_sum_none release_open_holds_none_held) (auto simp: budget_inv_def lock_subject_user)

lemma reset_user_inv:
  assumes "budget_inv db" and "\<And>u. u_id (f u) = u_id u" and "\<And>u. u_budget_reserved_usd (f u) = 0"
  shows "budget_inv (update_user uid f (fst (release_open_holds_for_subject now db SUBJECT_USER uid)))"
proof (rule update_user_inv)
  let ?db1 = "fst (release_open_holds_for_subject now db SUBJECT_USER uid)"
  show "budget_inv ?db1" using assms(1) by (rule release_open_holds_inv)
  fix u assume "fetch u_id uid (users ?db1) = Some u"
  then have "fetch u_id uid (users db) \<noteq> None"
    using fetch_user_same_ids [of ?db1 db uid] by auto
  with assms show "u_budget_reserved_usd (f u) = held_sum ?db1 SUBJECT_USER uid"
    by (simp add: released_held_sum)
qed (use assms in simp)

lemma update_user_compose:
  "(\<And>u. u_id (g u) = u_id u) \<Longrightarrow> update_user uid f (update_user uid g db) = update_user uid (\<lambda>u. f (g u)) db"
  by (simp add: update_user_def modify_modify)

lemma roll_period_inv: "budget_inv db \<Longrightarrow> budget_inv (roll_period now db uid)"
  by (simp add: roll_period_def Let_def update_user_compose reset_user_inv)

lemma sync_budget_inv:
  assumes "budget_inv db"
  shows "budget_inv (sync_budget db u)"
  unfolding sync_budget_def
proof (rule update_user_inv [OF assms])
  fix v assume "fetch u_id (u_id u) (users db) = Some v"
  with assms show "u_budget_reserved_usd (v\<lparr>u_monthly_budget_usd := resolve_monthly_budget db u\<rparr>)
      = held_sum db SUBJECT_USER (u_id u)"
    using fetch_SomeD [of u_id "u_id u" "users db" v]
    by (auto simp: budget_inv_def counters_exact_def list_all_iff)
qed simp

lemma ensure_budget_period_inv: "budget_inv db \<Longrightarrow> budget_inv (ensure_budget_period now db snap)"
  by (auto simp: ensure_budget_period_def sync_budget_inv roll_period_inv split: option.split)

lemma reset_one_inv: "budget_inv db \<Longrightarrow> budget_inv (reset_one now db uid b)"
  unfolding reset_one_def by (rule reset_user_inv) (simp_all add: apply_period_reset_def)

lemma reset_individually_inv:
  "budget_inv db \<Longrightarrow> budget_inv (fst (reset_batch_individually now uf db ids))"
proof (induction ids arbitrary: db)
  case (Cons uid ids)
  show ?case
  proof (cases "fetch u_id uid (users db)")
    case None
    with Cons show ?thesis by simp
  next
    case (Some u)
    let ?db1 = "fst (release_open_holds_for_subject now db SUBJECT_USER uid)"
    have "budget_inv (update_user uid
        (apply_period_reset (month_start now) (resolve_monthly_budget ?db1 u)) ?db1)"
      using Cons.prems by (rule reset_user_inv) (simp_all add: apply_period_reset_def)
    with Cons Some show ?thesis by (simp add: Let_def split_beta)
  qed
qed simp

lemma reset_fold_inv:
  "budget_inv db \<Longrightarrow> budget_inv (foldl (\<lambda>d u. reset_one now d (u_id u) (b u)) db us)"
  by (induction us arbitrary: db) (simp_all add: reset_one_inv)

lemma reset_batch_inv: "budget_inv db \<Longrightarrow> budget_inv (reset_batch now db us)"
  by (simp add: reset_batch_def Let_def reset_fold_inv)

section \<open>The paged reset terminates\<close>

lemma reset_one_ids [simp]: "map u_id (users (reset_one now db uid b)) = map u_id (users db)"
  by (simp add: reset_one_def update_user_def apply_period_reset_def)

lemma reset_batch_ids [simp]: "map u_id (users (reset_batch now db us)) = map u_id (users db)"
proof -
  have "map u_id (users (foldl (\<lambda>d u. reset_one now d (u_id u) (b u)) db us)) = map u_id (users db)" for b
    by (induction us arbitrary: db) simp_all
  then show ?thesis by (simp add: reset_batch_def Let_def)
qed

lemma reset_individually_ids [simp]:
  "map u_id (users (fst (reset_batch_individually now uf db ids))) = map u_id (users db)"
proof (induction ids arbitrary: db)
  case (Cons uid ids)
  then show ?case
    by (cases "fetch u_id uid (users db)")
       (simp_all add: Let_def split_beta update_user_def apply_period_reset_def)
qed simp

definition reset_page ::
    "time \<Rightarrow> (int list \<Rightarrow> bool) \<Rightarrow> (int \<Rightarrow> bool) \<Rightarrow> db \<Rightarrow> user list \<Rightarrow> db \<times> nat" where
  "reset_page now batch_fails user_fails db us =
     (if batch_fails (map u_id us)
      then reset_batch_individually now user_fails db (map u_id us)
      else (reset_batch now db us, length us))"

lemma reset_page_ids [simp]: "map u_id (users (fst (reset_page now bf uf db us))) = map u_id (users db)"
  by (simp add: reset_page_def)

lemma next_page_set: "u \<in> set (next_page db last_id n) \<Longrightarrow> u \<in> set (users db) \<and> last_id < u_id u"
  by (auto simp: next_page_def dest: in_set_takeD)

lemma pages_decrease:
  assumes "next_page db last_id n \<noteq> []" and "map u_id (users db') = map u_id (users db)"
  shows "length (filter (\<lambda>u. u_id (last (next_page db last_id n)) < u_id u) (users db'))
    < length (filter (\<lambda>u. last_id < u_id u) (users db))"
proof -
  let ?l = "u_id (last (next_page db last_id n))"
  have l: "last_id < ?l" "?l \<in> u_id ` set (users db)"
    using next_page_set [OF last_in_set [OF assms(1)]] by auto
  have "length (filter (\<lambda>u. ?l < u_id u) (users db')) = length (filter (\<lambda>i. ?l < i) (map u_id (users db)))"
    unfolding assms(2) [symmetric] by (simp add: filter_map o_def)
  also have "\<dots> < length (filter (\<lambda>i. last_id < i) (map u_id (users db)))"
  proof -
    have "filter (\<lambda>i. ?l < i) xs = filter (\<lambda>i. ?l < i) (filter (\<lambda>i. last_id < i) xs)" for xs
      using l(1) by (auto intro: filter_cong)
    moreover have "length (filter (\<lambda>i. ?l < i) (filter (\<lambda>i. last_id < i) (map u_id (users db))))
        < length (filter (\<lambda>i. last_id < i) (map u_id (users db)))"
      using l by (intro length_filter_less [of ?l]) auto
    ultimately show ?thesis by simp
  qed
  also have "\<dots> = length (filter (\<lambda>u. last_id < u_id u) (users db))"
    by (simp add: filter_map o_def)
  finally show ?thesis .
qed

function reset_pages ::
    "time \<Rightarrow> (int list \<Rightarrow> bool) \<Rightarrow> (int \<Rightarrow> bool) \<Rightarrow> db \<Rightarrow> int \<Rightarrow> db \<times> nat" where
  "reset_pages now bf uf db last_id =
     (let us = next_page db last_id MONTHLY_RESET_BATCH_SIZE
      in if us = [] then (db, 0)
         else
           let page = reset_page now bf uf db us
           in if length us < MONTHLY_RESET_BATCH_SIZE then page
              else
                let rest = reset_pages now bf uf (fst page) (u_id (last us))
                in (fst rest, snd page + snd rest))"
  by pat_completeness auto
termination
  by (relation "measure (\<lambda>(now, bf, uf, db, last_id). length (filter (\<lambda>u. last_id < u_id u) (users db)))")
     (simp_all add: pages_decrease)

definition reset_all_monthly_budgets ::
    "time \<Rightarrow> (int list \<Rightarrow> bool) \<Rightarrow> (int \<Rightarrow> bool) \<Rightarrow> db \<Rightarrow> db \<times> nat" where
  "reset_all_monthly_budgets now batch_fails user_fails db =
     reset_pages now batch_fails user_fails db 0"

declare reset_pages.simps [simp del]

lemma reset_page_inv: "budget_inv db \<Longrightarrow> budget_inv (fst (reset_page now bf uf db us))"
  by (simp add: reset_page_def reset_individually_inv reset_batch_inv)

lemma reset_pages_inv: "budget_inv db \<Longrightarrow> budget_inv (fst (reset_pages now bf uf db last_id))"
proof (induction now bf uf db last_id rule: reset_pages.induct)
  case (1 now bf uf db last_id)
  then show ?case
    by (subst reset_pages.simps) (simp add: Let_def reset_page_inv)
qed


section \<open>The reset reaches every user\<close>

definition is_reset :: "time \<Rightarrow> user \<Rightarrow> bool" where
  "is_reset now u \<longleftrightarrow> u_budget_used_usd u = 0 \<and> u_budget_reserved_usd u = 0 \<and>
     u_budget_period_start u = Some (month_start now)"

lemma release_other_user:
  assumes "\<And>row. fetch r_id rid (reservations db) = Some row \<Longrightarrow>
      r_subject_type row = SUBJECT_USER \<Longrightarrow> r_subject_id row \<noteq> i"
  shows "fetch u_id i (users (fst (release now db rid e))) = fetch u_id i (users db)"
proof (cases rule: release_cases [of now db rid e])
  case (released row f)
  then have "fetch r_id rid (reservations db) = Some row"
    by (simp add: lock_then_reservation_Some)
  with released assms [of row] show ?thesis
    by (cases "r_subject_type row")
       (auto simp: close_hold_def update_reservation_def apply_release_to_subject_def Let_def
          fetch_modify)
qed simp

lemma released_as_frame [simp]:
  "r_id (released_as now e db A r) = r_id r"
  "r_subject_type (released_as now e db A r) = r_subject_type r"
  "r_subject_id (released_as now e db A r) = r_subject_id r"
  by (simp_all add: released_as_def)

lemma release_each_other_user:
  "wf_db db \<Longrightarrow>
   (\<And>r. r \<in> set (reservations db) \<Longrightarrow> r_id r \<in> set rids \<Longrightarrow>
      r_subject_type r = SUBJECT_USER \<Longrightarrow> r_subject_id r \<noteq> i) \<Longrightarrow>
   fetch u_id i (users (fst (release_each now db rids))) = fetch u_id i (users db)"
proof (induction rids arbitrary: db)
  case (Cons rid rids)
  let ?db1 = "fst (release now db rid True)"
  have "fetch u_id i (users (fst (release_each now ?db1 rids))) = fetch u_id i (users ?db1)"
  proof (rule Cons.IH)
    show "wf_db ?db1" using Cons.prems(1) by (rule wf_release)
    fix r assume r: "r \<in> set (reservations ?db1)" "r_id r \<in> set rids" "r_subject_type r = SUBJECT_USER"
    then obtain x where "x \<in> set (reservations db)" "r = released_as now True db {rid} x"
      using Cons.prems(1) by (auto simp: release_reservations)
    with r Cons.prems(2) [of x] show "r_subject_id r \<noteq> i" by simp
  qed
  also have "\<dots> = fetch u_id i (users db)"
    using Cons.prems(2) by (intro release_other_user) (auto dest: fetch_SomeD)
  finally show ?case by (simp add: Let_def split_beta)
qed simp

lemma release_open_holds_other_user:
  assumes "wf_db db" and "i \<noteq> uid"
  shows "fetch u_id i (users (fst (release_open_holds_for_subject now db SUBJECT_USER uid)))
    = fetch u_id i (users db)"
proof -
  have "fetch u_id i (users (fst (release_each now db
      (map r_id (filter (held_row SUBJECT_USER uid) (reservations db)))))) = fetch u_id i (users db)"
    using assms by (intro release_each_other_user) (auto simp: held_row_def dest: wf_db_id_inj)
  with assms show ?thesis
    by (simp add: release_open_holds_for_subject_def Let_def split_beta
        reconcile_subject_reserved_def set_subject_reserved_def fetch_modify)
qed

lemma fetch_update_user:
  "(\<And>u. u_id (f u) = u_id u) \<Longrightarrow> fetch u_id i (users (update_user uid f db)) =
     (if i = uid then map_option f (fetch u_id uid (users db)) else fetch u_id i (users db))"
  by (simp add: update_user_def fetch_modify)

lemma reset_user_fetch:
  assumes "wf_db db" and "\<And>u. u_id (f u) = u_id u" and "\<And>u. is_reset now (f u)"
  shows "fetch u_id i (users (update_user uid f (fst (release_open_holds_for_subject now db SUBJECT_USER uid)))) = Some u
    \<Longrightarrow> if i = uid then is_reset now u else fetch u_id i (users db) = Some u"
  using assms by (auto simp: fetch_update_user release_open_holds_other_user)

lemma reset_one_fetch:
  assumes "wf_db db" and "fetch u_id i (users (reset_one now db uid b)) = Some u"
  shows "if i = uid then is_reset now u else fetch u_id i (users db) = Some u"
  using assms(2) unfolding reset_one_def
  by (rule reset_user_fetch [OF assms(1), rotated 2])
     (simp_all add: apply_period_reset_def is_reset_def)

lemma reset_fold_fetch:
  "budget_inv db \<Longrightarrow> fetch u_id i (users (foldl (\<lambda>d v. reset_one now d (u_id v) (b v)) db us)) = Some u \<Longrightarrow>
   if i \<in> u_id ` set us then is_reset now u else fetch u_id i (users db) = Some u"
proof (induction us rule: rev_induct)
  case (snoc v us)
  let ?db1 = "foldl (\<lambda>d v. reset_one now d (u_id v) (b v)) db us"
  have "wf_db ?db1" using reset_fold_inv [OF snoc.prems(1), of now b us] by (simp add: budget_inv_def)
  from reset_one_fetch [OF this, of i now "u_id v" "b v" u] snoc show ?case
    by (auto split: if_splits)
qed simp

lemma reset_individually_fetch:
  "budget_inv db \<Longrightarrow> 
   fetch u_id i (users (fst (reset_batch_individually now (\<lambda>_. False) db ids))) = Some u \<Longrightarrow>
   if i \<in> set ids then is_reset now u else fetch u_id i (users db) = Some u"
proof (induction ids arbitrary: db)
  case (Cons uid ids)
  show ?case
  proof (cases "fetch u_id uid (users db)")
    case None
    have "i \<noteq> uid"
      using Cons.prems(2) None
        fetch_user_same_ids [OF reset_individually_ids [of now "\<lambda>_. False" db "uid # ids"], of uid] by auto
    with None Cons.IH [OF Cons.prems(1)] Cons.prems(2) show ?thesis by simp
  next
    case (Some v)
    let ?db1 = "fst (release_open_holds_for_subject now db SUBJECT_USER uid)"
    let ?f = "apply_period_reset (month_start now) (resolve_monthly_budget ?db1 v)"
    have inv: "budget_inv (update_user uid ?f ?db1)"
      using Cons.prems(1) by (rule reset_user_inv) (simp_all add: apply_period_reset_def)
    have "if i \<in> set ids then is_reset now u else fetch u_id i (users (update_user uid ?f ?db1)) = Some u"
      using Cons.IH [OF inv] Cons.prems Some by (simp add: Let_def split_beta)
    moreover have "if i = uid then is_reset now w else fetch u_id i (users db) = Some w"
      if "fetch u_id i (users (update_user uid ?f ?db1)) = Some w" for w
      using that Cons.prems(1)
      by (intro reset_user_fetch) (simp_all add: budget_inv_def apply_period_reset_def is_reset_def)
    ultimately show ?thesis by (auto split: if_splits)
  qed
qed simp

lemma reset_individually_count:
  "set ids \<subseteq> u_id ` set (users db) \<Longrightarrow>
   snd (reset_batch_individually now (\<lambda>_. False) db ids) = length ids"
proof (induction ids arbitrary: db)
  case (Cons uid ids)
  then obtain v where v: "fetch u_id uid (users db) = Some v"
    by (metis fetch_None_iff insert_subset list.set(2) not_None_eq)
  let ?db1 = "fst (release_open_holds_for_subject now db SUBJECT_USER uid)"
  let ?db2 = "update_user uid (apply_period_reset (month_start now) (resolve_monthly_budget ?db1 v)) ?db1"
  have "map u_id (users ?db2) = map u_id (users db)"
    by (simp add: update_user_def apply_period_reset_def)
  then have "u_id ` set (users ?db2) = u_id ` set (users db)" by (metis list.set_map)
  then have "snd (reset_batch_individually now (\<lambda>_. False) ?db2 ids) = length ids"
    using Cons.prems by (intro Cons.IH) auto
  with v Cons.prems show ?case by (simp add: Let_def split_beta)
qed simp

lemma reset_page_fetch:
  assumes "budget_inv db"
    and "fetch u_id i (users (fst (reset_page now bf (\<lambda>_. False) db us))) = Some u"
  shows "if i \<in> u_id ` set us then is_reset now u else fetch u_id i (users db) = Some u"
proof (cases "bf (map u_id us)")
  case True
  with assms(2) show ?thesis
    using reset_individually_fetch [OF assms(1), of i now "map u_id us" u]
    by (simp add: reset_page_def)
next
  case False
  with assms(2) show ?thesis
    using reset_fold_fetch [OF assms(1), of i now
        "\<lambda>v. case resolve_monthly_budgets_batch db us (u_id v) of None \<Rightarrow> 0 | Some b \<Rightarrow> b" us u]
    by (simp add: reset_page_def reset_batch_def Let_def)
qed


lemma next_page_rest:
  assumes "distinct (map u_id (users db))" and "u \<in> set (users db)" and "last_id < u_id u"
    and "u \<notin> set (next_page db last_id n)"
  shows "length (next_page db last_id n) = n" and "0 < n \<Longrightarrow> u_id (last (next_page db last_id n)) < u_id u"
proof -
  let ?all = "sort_key u_id (filter (\<lambda>u. last_id < u_id u) (users db))"
  let ?last = "last (next_page db last_id n)"
  have page: "next_page db last_id n = take n ?all" by (simp add: next_page_def)
  have "u \<in> set ?all" using assms by simp
  then have "u \<in> set (take n ?all @ drop n ?all)" by (simp only: append_take_drop_id)
  with assms(4) have out: "u \<in> set (drop n ?all)" unfolding page set_append by blast
  have len: "n < length ?all"
  proof (rule ccontr)
    assume "\<not> n < length ?all"
    then have "drop n ?all = []" by simp
    with out show False by simp
  qed
  then show "length (next_page db last_id n) = n" by (simp add: page)
  assume "0 < n"
  with len have "0 < length (take n ?all)" by simp
  then have l: "?last \<in> set (take n ?all)"
    unfolding page length_greater_0_conv by (rule last_in_set)
  have "sorted (map u_id (take n ?all) @ map u_id (drop n ?all))"
    unfolding map_append [symmetric] append_take_drop_id by simp
  then have "u_id ?last \<le> u_id u"
    using l out unfolding sorted_append by auto
  moreover have "u_id ?last \<noteq> u_id u"
  proof
    assume eq: "u_id ?last = u_id u"
    have "?last \<in> set (users db)" using l next_page_set [of ?last db last_id n] by (simp add: page)
    from fetch_distinct [OF assms(1) this] have "Some ?last = fetch u_id (u_id u) (users db)"
      unfolding eq by (rule sym)
    also have "\<dots> = Some u" by (rule fetch_distinct [OF assms(1,2)])
    finally have "?last = u" by (rule option.inject [THEN iffD1])
    with l assms(4) show False by (simp add: page)
  qed
  ultimately show "u_id ?last < u_id u" by simp
qed

lemma reset_pages_ids [simp]:
  "map u_id (users (fst (reset_pages now bf uf db last_id))) = map u_id (users db)"
proof (induction now bf uf db last_id rule: reset_pages.induct)
  case (1 now bf uf db last_id)
  then show ?case by (subst reset_pages.simps) (simp add: Let_def)
qed

lemma reset_pages_below:
  assumes "budget_inv db" and "fetch u_id i (users (fst (reset_pages now bf (\<lambda>_. False) db last_id))) = Some u"
    and "i \<le> last_id"
  shows "fetch u_id i (users db) = Some u"
  using assms
proof (induction now bf "\<lambda>_ :: int. False" db last_id rule: reset_pages.induct)
  case (1 now bf db last_id)
  let ?us = "next_page db last_id MONTHLY_RESET_BATCH_SIZE"
  let ?p = "reset_page now bf (\<lambda>_. False) db ?us"
  have out: "i \<notin> u_id ` set ?us" using "1.prems"(3) next_page_set by fastforce
  have page: "fetch u_id i (users db) = Some u" if "fetch u_id i (users (fst ?p)) = Some u"
    using reset_page_fetch [OF "1.prems"(1) that] out by simp
  show ?case
  proof (cases "?us = [] \<or> length ?us < MONTHLY_RESET_BATCH_SIZE")
    case True
    with "1.prems"(2) page show ?thesis
      by (subst (asm) reset_pages.simps) (auto simp: Let_def split: if_splits)
  next
    case False
    then have "last ?us \<in> set ?us" by simp
    then have "i \<le> u_id (last ?us)" using "1.prems"(3) next_page_set by fastforce
    moreover have "fetch u_id i (users (fst (reset_pages now bf (\<lambda>_. False) (fst ?p) (u_id (last ?us))))) = Some u"
      using "1.prems"(2) False by (subst (asm) reset_pages.simps) (simp add: Let_def)
    ultimately show ?thesis
      using "1.hyps" [of ?us ?p] False reset_page_inv [OF "1.prems"(1)] page by simp
  qed
qed

lemma reset_pages_fetch:
  assumes "budget_inv db" and "fetch u_id i (users (fst (reset_pages now bf (\<lambda>_. False) db last_id))) = Some u"
    and "last_id < i"
  shows "is_reset now u"
  using assms
proof (induction now bf "\<lambda>_ :: int. False" db last_id rule: reset_pages.induct)
  case (1 now bf db last_id)
  let ?N = MONTHLY_RESET_BATCH_SIZE
  let ?us = "next_page db last_id ?N" let ?p = "reset_page now bf (\<lambda>_. False) db ?us"
  have d: "distinct (map u_id (users db))" using "1.prems"(1) by (simp add: budget_inv_def wf_db_def)
  have inv: "budget_inv (fst ?p)" using "1.prems"(1) by (rule reset_page_inv)
  have pos: "0 < ?N" by (simp add: MONTHLY_RESET_BATCH_SIZE_def)
  have page: "is_reset now v" if "fetch u_id i (users (fst ?p)) = Some v" "i \<in> u_id ` set ?us" for v
    using reset_page_fetch [OF "1.prems"(1) that(1)] that(2) by simp
  obtain v where v: "fetch u_id i (users db) = Some v"
    using fetch_user_same_ids [OF reset_pages_ids [of now bf "\<lambda>_. False" db last_id], of i] "1.prems"(2)
    by auto
  have outside: "length ?us = ?N \<and> u_id (last ?us) < i" if out: "i \<notin> u_id ` set ?us"
  proof -
    have "v \<in> set (users db)" "u_id v = i" using fetch_SomeD [OF v] by auto
    moreover from this out have "v \<notin> set ?us" by auto
    ultimately show ?thesis
      using "1.prems"(3) next_page_rest [OF d, of v last_id ?N] pos by auto
  qed
  show ?case
  proof (cases "?us = [] \<or> length ?us < ?N")
    case True
    with outside pos have "i \<in> u_id ` set ?us" by force
    with True "1.prems"(2) page show ?thesis
      by (subst (asm) reset_pages.simps) (auto simp: Let_def split: if_splits)
  next
    case False
    let ?rest = "reset_pages now bf (\<lambda>_. False) (fst ?p) (u_id (last ?us))"
    have rest: "fetch u_id i (users (fst ?rest)) = Some u"
      using "1.prems"(2) False by (subst (asm) reset_pages.simps) (simp add: Let_def)
    show ?thesis
    proof (cases "u_id (last ?us) < i")
      case True
      with "1.hyps" [of ?us ?p] False inv rest show ?thesis by simp
    next
      case below: False
      then have "fetch u_id i (users (fst ?p)) = Some u"
        using reset_pages_below [OF inv rest] by simp
      with page outside below show ?thesis by auto
    qed
  qed
qed

end
