(* ===== verification/Api_Keys.thy ===== *)
theory Api_Keys
  imports Budget_Plans
begin

text \<open>
  Gateway API keys (\<open>services/alpha_router_api_key_service.py\<close>): credit periods, expiry, the
  test whether a key may be used, and the recording of usage that no hold covers.
\<close>

section \<open>Definitions\<close>

definition period_delta :: "string \<Rightarrow> time" where
  "period_delta reset_period =
     (if reset_period = ''daily'' then days 1
      else if reset_period = ''weekly'' then days 7
      else days 30)"

definition compute_expires_at :: "time \<Rightarrow> time option \<Rightarrow> int option \<Rightarrow> time option" where
  "compute_expires_at now created_at expiration_days =
     (case expiration_days of
        None \<Rightarrow> None
      | Some n \<Rightarrow>
          if n \<le> 0 then None
          else Some ((case created_at of Some t \<Rightarrow> t | None \<Rightarrow> now) + days n))"

definition update_key :: "int \<Rightarrow> (api_key \<Rightarrow> api_key) \<Rightarrow> db \<Rightarrow> db" where
  "update_key kid f db = db\<lparr>api_keys := modify k_id kid f (api_keys db)\<rparr>"

text \<open>\<open>key.reset_period or "monthly"\<close>.\<close>

definition reset_period_of :: "api_key \<Rightarrow> string" where
  "reset_period_of k =
     (case k_reset_period k of Some p \<Rightarrow> if p = [] then ''monthly'' else p | None \<Rightarrow> ''monthly'')"

definition start_period :: "time \<Rightarrow> api_key \<Rightarrow> api_key" where
  "start_period now k =
     k\<lparr>k_period_started_at := Some now, k_period_used_usd := 0, k_period_reserved_usd := 0\<rparr>"

definition maybe_reset_key_period :: "time \<Rightarrow> db \<Rightarrow> int \<Rightarrow> db" where
  "maybe_reset_key_period now db kid =
     (case fetch k_id kid (api_keys db) of
        None \<Rightarrow> db
      | Some key \<Rightarrow>
          (case k_period_started_at key of
             None \<Rightarrow> update_key kid (start_period now) db
           | Some started \<Rightarrow>
               if now - started \<ge> period_delta (reset_period_of key) then
                 update_key kid (start_period now)
                   (fst (release_open_holds_for_subject now db SUBJECT_ALPHA_ROUTER_KEY kid))
               else db))"

text \<open>The key after the test, and whether it is usable.\<close>

definition apply_expiration :: "time \<Rightarrow> api_key \<Rightarrow> api_key \<times> bool" where
  "apply_expiration now key =
     (case k_expires_at key of
        Some e \<Rightarrow> if now \<ge> e then (key\<lparr>k_is_active := False\<rparr>, False) else (key, k_is_active key)
      | None \<Rightarrow> (key, k_is_active key))"

definition key_is_unlimited :: "api_key \<Rightarrow> bool" where
  "key_is_unlimited key = k_unlimited_budget key"

text \<open>
  An exception rolls the transaction back, so the error side carries no database. A missing key
  is the caller's error and is answered before this call.
\<close>

definition ensure_key_usable :: "time \<Rightarrow> db \<Rightarrow> int \<Rightarrow> db result" where
  "ensure_key_usable now db kid =
     (case fetch k_id kid (api_keys db) of
        None \<Rightarrow> Inl (LookupError ''key'')
      | Some key0 \<Rightarrow>
          let (key, usable) = apply_expiration now key0
          in if \<not> usable then Inl (HTTPException 403 ''API key has expired'')
             else if \<not> k_is_active key then Inl (HTTPException 403 ''API key is disabled'')
             else
               let db1 = maybe_reset_key_period now db kid
               in (case fetch k_id kid (api_keys db1) of
                    None \<Rightarrow> Inl (LookupError ''key'')
                  | Some k \<Rightarrow>
                      if k_credit_limit_usd k \<le> 0 \<and> \<not> key_is_unlimited k then
                        Inl (HTTPException 402
                          ''API key has no credit limit configured; ask an administrator to set one'')
                      else if 0 < k_credit_limit_usd k \<and> k_credit_limit_usd k \<le> k_period_used_usd k then
                        Inl (HTTPException 402 ''API key credit limit exceeded for this period'')
                      else Inr db1))"

definition record_key_usage :: "time \<Rightarrow> db \<Rightarrow> int \<Rightarrow> rat \<Rightarrow> db" where
  "record_key_usage now db kid cost_usd =
     (if cost_usd \<le> 0 then db
      else
        update_key kid
          (\<lambda>k. k\<lparr>k_period_used_usd := k_period_used_usd k + cost_usd,
                 k_total_used_usd := k_total_used_usd k + cost_usd,
                 k_last_used_at := Some now\<rparr>)
          (maybe_reset_key_period now db kid))"

section \<open>The budget invariant\<close>

lemma update_key_frame [simp]:
  "reservations (update_key kid f db) = reservations db" "users (update_key kid f db) = users db"
  by (simp_all add: update_key_def)

lemma held_sum_update_key [simp]: "held_sum (update_key kid f db) st sid = held_sum db st sid"
  by (rule held_sum_reservations) simp

lemma fetch_update_key:
  "(\<And>k. k_id (f k) = k_id k) \<Longrightarrow> fetch k_id j (api_keys (update_key kid f db)) =
     (if j = kid then map_option f (fetch k_id kid (api_keys db)) else fetch k_id j (api_keys db))"
  by (simp add: update_key_def fetch_modify)

lemma update_key_inv:
  assumes inv: "budget_inv db" and id: "\<And>k. k_id (f k) = k_id k"
    and res: "\<And>k. fetch k_id kid (api_keys db) = Some k \<Longrightarrow>
      k_period_reserved_usd (f k) = held_sum db SUBJECT_ALPHA_ROUTER_KEY kid"
    and started: "\<And>k. fetch k_id kid (api_keys db) = Some k \<Longrightarrow>
      k_period_started_at k \<noteq> None \<Longrightarrow> k_period_started_at (f k) \<noteq> None"
  shows "budget_inv (update_key kid f db)"
proof -
  have d: "distinct (map k_id (api_keys db))" using inv by (simp add: budget_inv_def wf_db_def)
  have row: "fetch k_id kid (api_keys db) = Some k" if "k \<in> set (api_keys db)" "k_id k = kid" for k
    using fetch_distinct [OF d that(1)] that(2) by simp
  have "counters_exact (update_key kid f db)"
    using inv row res by (auto simp: budget_inv_def counters_exact_def update_key_def set_modify
        list_all_iff id held_sum_update_key [unfolded update_key_def])
  moreover have "wf_db (update_key kid f db)"
    using inv by (simp add: budget_inv_def wf_db_def update_key_def id)
  moreover have "keys_started (update_key kid f db)"
    using inv row started
    by (force simp: budget_inv_def keys_started_def update_key_def set_modify list_all_iff id)
  ultimately show ?thesis by (simp add: budget_inv_def)
qed

lemma held_sum_not_started:
  assumes "budget_inv db" and "fetch k_id kid (api_keys db) = Some k" and "k_period_started_at k = None"
  shows "held_sum db SUBJECT_ALPHA_ROUTER_KEY kid = 0"
  using assms fetch_SomeD [OF assms(2)]
  by (auto simp: budget_inv_def keys_started_def list_all_iff intro!: held_sum_none)

lemma k_id_start_period [simp]: "k_id (start_period now k) = k_id k"
  by (simp add: start_period_def)

lemma fetch_key_same_ids:
  "map k_id (api_keys db') = map k_id (api_keys db) \<Longrightarrow>
     (fetch k_id i (api_keys db') = None) = (fetch k_id i (api_keys db) = None)"
  by (simp add: fetch_None_iff) (metis image_set)

lemma maybe_reset_inv:
  assumes inv: "budget_inv db"
  shows "budget_inv (maybe_reset_key_period now db kid)"
proof (cases "fetch k_id kid (api_keys db)")
  case None
  with inv show ?thesis by (simp add: maybe_reset_key_period_def)
next
  case (Some k)
  let ?db1 = "fst (release_open_holds_for_subject now db SUBJECT_ALPHA_ROUTER_KEY kid)"
  have first: "budget_inv (update_key kid (start_period now) db)" if "k_period_started_at k = None"
    using held_sum_not_started [OF inv Some that]
    by (intro update_key_inv [OF inv]) (simp_all add: start_period_def)
  have "lock_subject db SUBJECT_ALPHA_ROUTER_KEY kid" using Some by (simp add: lock_subject_key)
  then have "held_sum ?db1 SUBJECT_ALPHA_ROUTER_KEY kid = 0"
    using inv by (intro held_sum_none release_open_holds_none_held) (auto simp: budget_inv_def)
  then have "budget_inv (update_key kid (start_period now) ?db1)"
    by (intro update_key_inv release_open_holds_inv [OF inv]) (simp_all add: start_period_def)
  with first inv Some show ?thesis
    by (simp add: maybe_reset_key_period_def split: option.split)
qed

lemma record_key_usage_inv:
  assumes "budget_inv db"
  shows "budget_inv (record_key_usage now db kid cost)"
proof -
  let ?db1 = "maybe_reset_key_period now db kid"
  have inv: "budget_inv ?db1" using assms by (rule maybe_reset_inv)
  have "k_period_reserved_usd k = held_sum ?db1 SUBJECT_ALPHA_ROUTER_KEY kid"
    if "fetch k_id kid (api_keys ?db1) = Some k" for k
    using fetch_SomeD [OF that] inv by (auto simp: budget_inv_def counters_exact_def list_all_iff)
  then show ?thesis
    using assms inv unfolding record_key_usage_def by (auto intro!: update_key_inv)
qed

lemma ensure_key_usable_inv: "budget_inv db \<Longrightarrow> ensure_key_usable now db kid = Inr db' \<Longrightarrow> budget_inv db'"
  by (auto simp: ensure_key_usable_def Let_def maybe_reset_inv split: option.splits prod.splits if_splits)

section \<open>Behaviour\<close>

lemma period_delta_pos: "0 < period_delta p"
  by (simp add: period_delta_def days_def seconds_def)

text \<open>The key row that a release of all its holds leaves behind.\<close>

lemma release_open_holds_key:
  assumes "fetch k_id kid (api_keys db) = Some k"
  shows "\<exists>k1. fetch k_id kid (api_keys (fst (release_open_holds_for_subject now db st sid))) = Some k1
    \<and> sans_reserved_k k1 = sans_reserved_k k"
  by (rule fetch_map_eq [OF release_open_holds_only_reserved(2) _ assms]) (blast dest: sans_reserved_key)

lemma maybe_reset_key:
  assumes "fetch k_id kid (api_keys db) = Some k"
  shows "\<exists>k1. fetch k_id kid (api_keys (maybe_reset_key_period now db kid)) = Some k1 \<and>
    k_credit_limit_usd k1 = k_credit_limit_usd k \<and> k_is_active k1 = k_is_active k \<and>
    k_expires_at k1 = k_expires_at k \<and> k_unlimited_budget k1 = k_unlimited_budget k \<and>
    k_total_used_usd k1 = k_total_used_usd k \<and> k_reset_period k1 = k_reset_period k \<and>
    (case k_period_started_at k of
       Some s \<Rightarrow> if now - s < period_delta (reset_period_of k) then k1 = k
                 else k_period_started_at k1 = Some now \<and> k_period_used_usd k1 = 0 \<and> k_period_reserved_usd k1 = 0
     | None \<Rightarrow> k_period_started_at k1 = Some now \<and> k_period_used_usd k1 = 0 \<and> k_period_reserved_usd k1 = 0)"
proof -
  obtain k2 where k2: "fetch k_id kid (api_keys (fst (release_open_holds_for_subject now db SUBJECT_ALPHA_ROUTER_KEY kid))) = Some k2"
    and "sans_reserved_k k2 = sans_reserved_k k"
    using release_open_holds_key [OF assms] by blast
  from sans_reserved_key [OF this(2)] k2 assms show ?thesis
    by (auto simp: maybe_reset_key_period_def fetch_update_key start_period_def split: option.split)
qed

text \<open>
  When the period of a key has run out, the rollover closes every open hold of the
  key and starts a period at the current time with nothing used and nothing reserved; the
  lifetime total, the limit and the activation stay.
\<close>

theorem key_period_rollover:
  assumes "budget_inv db" and "fetch k_id kid (api_keys db) = Some k"
    and "k_period_started_at k = Some s" and "period_delta (reset_period_of k) \<le> now - s"
  shows "budget_inv (maybe_reset_key_period now db kid) \<and>
    \<not> list_ex (held_row SUBJECT_ALPHA_ROUTER_KEY kid) (reservations (maybe_reset_key_period now db kid)) \<and>
    fetch k_id kid (api_keys (maybe_reset_key_period now db kid)) =
      Some (k\<lparr>k_period_started_at := Some now, k_period_used_usd := 0, k_period_reserved_usd := 0\<rparr>)"
proof -
  let ?db1 = "fst (release_open_holds_for_subject now db SUBJECT_ALPHA_ROUTER_KEY kid)"
  have eq: "maybe_reset_key_period now db kid = update_key kid (start_period now) ?db1"
    using assms(2-4) by (simp add: maybe_reset_key_period_def)
  have none: "\<not> list_ex (held_row SUBJECT_ALPHA_ROUTER_KEY kid) (reservations ?db1)"
    using assms(1,2) by (intro release_open_holds_none_held) (simp_all add: budget_inv_def lock_subject_key)
  obtain k2 where k2: "fetch k_id kid (api_keys ?db1) = Some k2" and "sans_reserved_k k2 = sans_reserved_k k"
    using release_open_holds_key [OF assms(2)] by blast
  then have "start_period now k2 = k\<lparr>k_period_started_at := Some now, k_period_used_usd := 0, k_period_reserved_usd := 0\<rparr>"
    unfolding start_period_def sans_reserved_k_def by (cases k; cases k2) simp
  with k2 none maybe_reset_inv [OF assms(1), of now kid] show ?thesis
    unfolding eq by (simp add: fetch_update_key)
qed

text \<open>A key that may be charged at time \<open>now\<close>.\<close>

definition key_open :: "time \<Rightarrow> api_key \<Rightarrow> bool" where
  "key_open now k \<longleftrightarrow> k_is_active k \<and>
     (case k_expires_at k of Some e \<Rightarrow> now < e | None \<Rightarrow> True) \<and>
     (case k_period_started_at k of Some s \<Rightarrow> now - s < period_delta (reset_period_of k) | None \<Rightarrow> False) \<and>
     (0 < k_credit_limit_usd k \<and> k_period_used_usd k < k_credit_limit_usd k \<or> k_unlimited_budget k)"

lemma ensure_key_open:
  assumes "ensure_key_usable now db kid = Inr db'" and "budget_inv db"
  shows "budget_inv db' \<and>
    (case fetch k_id kid (api_keys db') of Some k \<Rightarrow> key_open now k | None \<Rightarrow> False)"
proof -
  from assms(1) obtain k where k: "fetch k_id kid (api_keys db) = Some k"
    by (auto simp: ensure_key_usable_def split: option.splits)
  from maybe_reset_key [OF k, of now] obtain k1 where
    k1: "fetch k_id kid (api_keys (maybe_reset_key_period now db kid)) = Some k1" and
    cols: "k_is_active k1 = k_is_active k" "k_expires_at k1 = k_expires_at k" "k_reset_period k1 = k_reset_period k"
    and per: "case k_period_started_at k of
       Some s \<Rightarrow> if now - s < period_delta (reset_period_of k) then k1 = k else k_period_started_at k1 = Some now
     | None \<Rightarrow> k_period_started_at k1 = Some now"
    by (auto split: option.splits if_splits)
  have "case k_period_started_at k1 of Some s \<Rightarrow> now - s < period_delta (reset_period_of k1) | None \<Rightarrow> False"
    using per period_delta_pos by (auto split: option.splits if_splits)
  moreover have "db' = maybe_reset_key_period now db kid"
    and "k_is_active k1" and "case k_expires_at k1 of Some e \<Rightarrow> now < e | None \<Rightarrow> True"
    and "0 < k_credit_limit_usd k1 \<and> k_period_used_usd k1 < k_credit_limit_usd k1 \<or> k_unlimited_budget k1"
    using assms(1) k k1 cols
    by (auto simp: ensure_key_usable_def apply_expiration_def key_is_unlimited_def Let_def
        split: option.splits if_splits)
  ultimately show ?thesis
    using k1 ensure_key_usable_inv [OF assms(2,1)] by (simp add: key_open_def)
qed

text \<open>
  A key that passes the test exists, is active and not expired, is in a period that
  has not run out, and is either capped with credit left or explicitly unlimited; the budget
  invariant is kept.
\<close>

theorem usable_key:
  assumes "ensure_key_usable now db kid = Inr db'" and "budget_inv db"
  shows "budget_inv db' \<and>
    (case fetch k_id kid (api_keys db') of Some k \<Rightarrow> key_open now k | None \<Rightarrow> False)"
  using assms by (rule ensure_key_open)

text \<open>
  The branch that answers a switched-off key with its own message is never reached:
  such a key is told that it has expired.
\<close>

theorem disabled_key_detail:
  "ensure_key_usable now db kid \<noteq> Inl (HTTPException 403 ''API key is disabled'') \<and>
   (case fetch k_id kid (api_keys db) of
      Some k \<Rightarrow> \<not> k_is_active k \<longrightarrow> ensure_key_usable now db kid = Inl (HTTPException 403 ''API key has expired'')
    | None \<Rightarrow> True)"
  by (auto simp: ensure_key_usable_def apply_expiration_def Let_def split: option.splits if_splits)

text \<open>
  Recording a positive cost adds it to the lifetime total and to the use of the
  current period, starting a new period first where the old one has run out.
\<close>

theorem record_key_usage_charges:
  assumes "0 < cost" and "fetch k_id kid (api_keys db) = Some k" and "k_period_started_at k = Some s"
  shows "\<exists>k1. fetch k_id kid (api_keys (record_key_usage now db kid cost)) = Some k1 \<and>
    k_total_used_usd k1 = k_total_used_usd k + cost \<and> k_last_used_at k1 = Some now \<and>
    k_period_used_usd k1 =
      (if now - s < period_delta (reset_period_of k) then k_period_used_usd k + cost else cost)"
  using maybe_reset_key [OF assms(2), of now] assms(1,3)
  by (auto simp: record_key_usage_def fetch_update_key split: if_splits)

section \<open>Worked examples\<close>

definition key_example :: db where
  "key_example = empty_db\<lparr>api_keys := [(sample_key 1 10 4)\<lparr>k_period_reserved_usd := 2\<rparr>],
     reservations := [sample_hold ''h'' SUBJECT_ALPHA_ROUTER_KEY 1 2 0]\<rparr>"

theorem key_period_rollover_witness:
  "map_option k_period_reserved_usd
     (fetch k_id 1 (api_keys (maybe_reset_key_period (days 30) key_example 1))) = Some 0"
  using key_period_rollover [of key_example 1 "hd (api_keys key_example)" 0 "days 30"] by code_simp

theorem usable_key_witness:
  "budget_inv (projr (ensure_key_usable 5 key_example 1))"
  using usable_key [of 5 key_example 1 "projr (ensure_key_usable 5 key_example 1)"] by code_simp

theorem disabled_key_detail_witness:
  "ensure_key_usable 5 (empty_db\<lparr>api_keys := [(sample_key 1 10 4)\<lparr>k_is_active := False\<rparr>]\<rparr>) 1
    = Inl (HTTPException 403 ''API key has expired'')"
  using disabled_key_detail [of 5 "empty_db\<lparr>api_keys := [(sample_key 1 10 4)\<lparr>k_is_active := False\<rparr>]\<rparr>" 1]
  by code_simp

theorem record_key_usage_charges_witness:
  "map_option k_period_used_usd (fetch k_id 1 (api_keys (record_key_usage 5 key_example 1 3))) = Some 7"
  using record_key_usage_charges [of 3 1 key_example "hd (api_keys key_example)" 0 5]
  by (auto simp: key_example_def sample_defs reset_period_of_def period_delta_def days_def seconds_def)

end
