(* ===== verification/Plan_Assignment.thy ===== *)
theory Plan_Assignment
  imports Budget_Plans
begin

text \<open>
  Assignment of budget plans (\<open>services/plan_assignment_service.py\<close>,
  \<open>services/group_membership.py\<close>), and the agreement of the batched resolution of monthly
  budgets with the resolution of one user.
\<close>

section \<open>Operations\<close>

datatype plan_mode = USER_PLAN_INHERIT | USER_PLAN_NONE | USER_PLAN_ASSIGNED

definition user_plan_mode :: "plan_assignment option \<Rightarrow> plan_mode" where
  "user_plan_mode assignment =
     (case assignment of
        None \<Rightarrow> USER_PLAN_INHERIT
      | Some a \<Rightarrow> if pa_plan_id a = None then USER_PLAN_NONE else USER_PLAN_ASSIGNED)"

definition live_user :: "user \<Rightarrow> bool" where
  "live_user u \<longleftrightarrow> u_deleted_at u = None \<and> u_purged_at u = None"

text \<open>The inner join of the membership table with the live users.\<close>

definition live_member_ids :: "db \<Rightarrow> int \<Rightarrow> int list" where
  "live_member_ids db gid =
     map fst (filter (\<lambda>m. snd m = gid \<and>
       (case fetch u_id (fst m) (users db) of None \<Rightarrow> False | Some u \<Rightarrow> live_user u)) (members db))"

text \<open>The key the database gives the next row of \<open>plan_assignments\<close>.\<close>

definition next_assignment_id :: "db \<Rightarrow> int" where
  "next_assignment_id db = foldr max (map pa_id (assignments db)) 0 + 1"

definition update_assignment :: "int \<Rightarrow> (plan_assignment \<Rightarrow> plan_assignment) \<Rightarrow> db \<Rightarrow> db" where
  "update_assignment aid f db = db\<lparr>assignments := modify pa_id aid f (assignments db)\<rparr>"

definition add_assignment :: "int option \<Rightarrow> int option \<Rightarrow> int option \<Rightarrow> db \<Rightarrow> db" where
  "add_assignment plan uid gid db =
     db\<lparr>assignments := assignments db @
       [\<lparr>pa_id = next_assignment_id db, pa_plan_id = plan, pa_user_id = uid, pa_group_id = gid,
         pa_department = None\<rparr>]\<rparr>"

definition upsert_user_plan :: "db \<Rightarrow> int \<Rightarrow> int \<Rightarrow> db" where
  "upsert_user_plan db uid plan_id =
     (case get_user_direct_assignment db uid of
        Some row \<Rightarrow> update_assignment (pa_id row)
          (\<lambda>a. a\<lparr>pa_plan_id := Some plan_id, pa_group_id := None, pa_department := None\<rparr>) db
      | None \<Rightarrow> add_assignment (Some plan_id) (Some uid) None db)"

definition upsert_user_no_plan :: "db \<Rightarrow> int \<Rightarrow> db" where
  "upsert_user_no_plan db uid =
     (case get_user_direct_assignment db uid of
        Some row \<Rightarrow> update_assignment (pa_id row)
          (\<lambda>a. a\<lparr>pa_plan_id := None, pa_group_id := None, pa_department := None\<rparr>) db
      | None \<Rightarrow> add_assignment None (Some uid) None db)"

definition clear_user_plan_override :: "db \<Rightarrow> int \<Rightarrow> db" where
  "clear_user_plan_override db uid =
     db\<lparr>assignments := filter (\<lambda>a. pa_user_id a \<noteq> Some uid) (assignments db)\<rparr>"

definition upsert_group_plan :: "db \<Rightarrow> int \<Rightarrow> int \<Rightarrow> db" where
  "upsert_group_plan db gid plan_id =
     (case find (\<lambda>a. pa_group_id a = Some gid) (assignments db) of
        Some row \<Rightarrow> update_assignment (pa_id row)
          (\<lambda>a. a\<lparr>pa_plan_id := Some plan_id, pa_user_id := None, pa_department := None\<rparr>) db
      | None \<Rightarrow> add_assignment (Some plan_id) None (Some gid) db)"

text \<open>The loop that refreshes the budgets of the members who inherit.\<close>

definition refresh_member :: "db \<Rightarrow> int \<Rightarrow> db" where
  "refresh_member db uid =
     (case fetch u_id uid (users db) of
        None \<Rightarrow> db
      | Some user \<Rightarrow>
          if user_plan_mode (get_user_direct_assignment db uid) = USER_PLAN_INHERIT
          then update_user uid (\<lambda>u. u\<lparr>u_monthly_budget_usd := resolve_monthly_budget db user\<rparr>) db
          else db)"

definition assign_plan_to_group_members :: "db \<Rightarrow> int \<Rightarrow> int \<Rightarrow> (db \<times> nat) result" where
  "assign_plan_to_group_members db plan_id gid =
     (if fetch p_id plan_id (plans db) = None then Inl (HTTPException 404 ''Plan not found'')
      else if gid \<notin> set (groups db) then Inl (HTTPException 404 ''Group not found'')
      else
        let db1 = upsert_group_plan db gid plan_id;
            ids = live_member_ids db1 gid
        in Inr (foldl refresh_member db1 ids, length ids))"

definition clear_group_plan :: "db \<Rightarrow> int \<Rightarrow> (db \<times> nat) result" where
  "clear_group_plan db gid =
     (if gid \<notin> set (groups db) then Inl (HTTPException 404 ''Group not found'')
      else
        let db1 = db\<lparr>assignments := filter (\<lambda>a. pa_group_id a \<noteq> Some gid) (assignments db)\<rparr>;
            ids = live_member_ids db1 gid
        in Inr (foldl refresh_member db1 ids, length ids))"

section \<open>Well-formed plan tables\<close>

text \<open>
  What the assignment routes keep: at most one assignment per user, per group and per
  department, and (foreign key) no assignment to a plan that does not exist.
\<close>

definition wf_plans :: "db \<Rightarrow> bool" where
  "wf_plans db \<longleftrightarrow>
     distinct (filter (\<lambda>x. x \<noteq> None) (map pa_user_id (assignments db))) \<and>
     distinct (filter (\<lambda>x. x \<noteq> None) (map pa_group_id (assignments db))) \<and>
     distinct (filter (\<lambda>x. x \<noteq> None) (map pa_department (assignments db))) \<and>
     list_all (\<lambda>a. pa_plan_id a \<noteq> None \<longrightarrow> plan_amount db (pa_plan_id a) \<noteq> None) (assignments db)"

text \<open>No two of the user's groups carry a plan.\<close>

definition one_planned_group :: "db \<Rightarrow> int \<Rightarrow> bool" where
  "one_planned_group db uid \<longleftrightarrow>
     length (filter (in_groups (group_ids_of db uid)) (assignments db)) \<le> 1"

lemma foldl_upd_found_id:
  "foldl (\<lambda>m i. upd_found m i (g i)) m xs j =
     (if j \<in> set xs then (case g j of None \<Rightarrow> m j | Some v \<Rightarrow> Some v) else m j)"
  by (induction xs arbitrary: m) (auto simp: upd_found_def split: option.splits)

lemma foldl_upd_found_other:
  "j \<notin> u_id ` set us \<Longrightarrow> foldl (\<lambda>m v. upd_found m (u_id v) (g v)) m us j = m j"
  by (induction us arbitrary: m) (auto simp: upd_found_def split: option.splits)

lemma foldl_upd_found_user:
  "distinct (map u_id us) \<Longrightarrow> u \<in> set us \<Longrightarrow>
     foldl (\<lambda>m v. upd_found m (u_id v) (g v)) m us (u_id u) =
       (case g u of None \<Rightarrow> m (u_id u) | Some v \<Rightarrow> Some v)"
proof (induction us arbitrary: m)
  case (Cons v us)
  show ?case
  proof (cases "u = v")
    case True
    with Cons.prems(1) show ?thesis
      by (simp add: foldl_upd_found_other) (simp add: upd_found_def split: option.split)
  next
    case False
    with Cons.prems have "u_id u \<noteq> u_id v" "u \<in> set us" by (auto simp: image_iff)
    with Cons show ?thesis
      by (simp add: upd_found_def split: option.split)
  qed
qed simp

lemma foldl_zero: "foldl (\<lambda>m i. m(i \<mapsto> 0)) m ids j = (if j \<in> set ids then Some 0 else m j)"
  by (induction ids arbitrary: m) auto

lemma find_none_distinct:
  assumes "distinct (filter (\<lambda>x. x \<noteq> None) (map k (a # as)))" and "k a = Some x"
  shows "find (\<lambda>b. k b = Some x) as = None"
  using assms by (auto simp: find_None_iff) (metis (mono_tags, lifting) image_eqI)

lemma batch_direct_result:
  assumes "uid \<in> set ids" and "distinct (filter (\<lambda>x. x \<noteq> None) (map pa_user_id as))"
    and "list_all (\<lambda>a. pa_plan_id a \<noteq> None \<longrightarrow> plan_amount db (pa_plan_id a) \<noteq> None) as"
    and "batch_direct db ids as (b, n, s) = (b', n', s')"
  shows "b' uid = (case find (\<lambda>a. pa_user_id a = Some uid) as of None \<Rightarrow> b uid
        | Some a \<Rightarrow> Some (case plan_amount db (pa_plan_id a) of None \<Rightarrow> 0 | Some x \<Rightarrow> x)) \<and>
    (uid \<in> set n' \<or> uid \<in> set s' \<longleftrightarrow>
       uid \<in> set n \<or> uid \<in> set s \<or> find (\<lambda>a. pa_user_id a = Some uid) as \<noteq> None)"
  using assms
proof (induction as arbitrary: b n s)
  case (Cons a as)
  have d: "distinct (filter (\<lambda>x. x \<noteq> None) (map pa_user_id as))"
    using Cons.prems(2) by (auto split: if_splits)
  have p: "plan_amount db None = None" by (simp add: plan_amount_def)
  obtain b1 n1 s1 where step: "batch_direct db ids (a # as) (b, n, s) = batch_direct db ids as (b1, n1, s1)"
    and acc: "pa_user_id a \<noteq> Some uid \<Longrightarrow> b1 uid = b uid \<and> (uid \<in> set n1 \<longleftrightarrow> uid \<in> set n) \<and> (uid \<in> set s1 \<longleftrightarrow> uid \<in> set s)"
    and hit: "pa_user_id a = Some uid \<Longrightarrow>
      b1 uid = Some (case plan_amount db (pa_plan_id a) of None \<Rightarrow> 0 | Some x \<Rightarrow> x) \<and> (uid \<in> set n1 \<or> uid \<in> set s1)"
    using Cons.prems(1,3) p by (cases "pa_user_id a"; cases "pa_plan_id a")
      (force split: option.splits if_splits)+
  have IH: "b' uid = (case find (\<lambda>a. pa_user_id a = Some uid) as of None \<Rightarrow> b1 uid
        | Some a \<Rightarrow> Some (case plan_amount db (pa_plan_id a) of None \<Rightarrow> 0 | Some x \<Rightarrow> x)) \<and>
    (uid \<in> set n' \<or> uid \<in> set s' \<longleftrightarrow>
       uid \<in> set n1 \<or> uid \<in> set s1 \<or> find (\<lambda>a. pa_user_id a = Some uid) as \<noteq> None)"
    using Cons.prems step by (intro Cons.IH [OF _ d]) auto
  show ?case
  proof (cases "pa_user_id a = Some uid")
    case True
    with IH hit find_none_distinct [OF Cons.prems(2) True] show ?thesis by simp
  next
    case False
    with IH acc show ?thesis by (simp split: option.split)
  qed
qed simp


lemma map_of_join:
  assumes "distinct (filter (\<lambda>x. x \<noteq> None) (map k as))"
  shows "map_of (rev (List.maps (\<lambda>a. case (k a, v a) of
        (Some g, Some x) \<Rightarrow> if P g then [(g, x)] else [] | _ \<Rightarrow> []) as)) g
    = (if P g then Option.bind (find (\<lambda>a. k a = Some g) as) v else None)"
  using assms
proof (induction as)
  case (Cons a as)
  have d: "distinct (filter (\<lambda>x. x \<noteq> None) (map k as))"
    using Cons.prems by (auto split: if_splits)
  show ?case
    using Cons.IH [OF d] find_none_distinct [OF Cons.prems, of g]
    by (cases "k a"; cases "v a") (auto simp: map_add_def split: option.splits)
qed simp

lemma first_found_none: "(\<And>g. g \<in> set gs \<Longrightarrow> m g = None) \<Longrightarrow> first_found m gs = None"
  by (induction gs) auto

lemma first_found_single:
  assumes "\<And>g. g \<in> set gs \<Longrightarrow> m g = (if g = g0 then r else None)" and "g0 \<in> set gs"
  shows "first_found m gs = r"
proof (cases r)
  case None
  with assms(1) show ?thesis by (auto intro!: first_found_none)
next
  case (Some v)
  with assms show ?thesis by (induction gs) auto
qed

lemma first_found_group:
  assumes "wf_plans db" and "one_planned_group db uid" and "set (group_ids_of db uid) \<subseteq> set gids"
  shows "first_found (group_budgets db gids) (group_ids_of db uid)
    = assigned_amount db (group_assignment db uid)"
proof -
  let ?G = "group_ids_of db uid" and ?as = "assignments db"
  have gb: "group_budgets db gids g =
      Option.bind (find (\<lambda>a. pa_group_id a = Some g) ?as) (\<lambda>a. plan_amount db (pa_plan_id a))"
    if "g \<in> set ?G" for g
    using that assms(1,3) unfolding group_budgets_def
    by (subst map_of_join) (auto simp: wf_plans_def)
  show ?thesis
  proof (cases "group_assignment db uid")
    case None
    then have "find (\<lambda>a. pa_group_id a = Some g) ?as = None" if "g \<in> set ?G" for g
      using that by (auto simp: group_assignment_def find_None_iff in_groups_def split: option.splits)
    with gb None show ?thesis by (auto simp: assigned_amount_def intro!: first_found_none)
  next
    case (Some a)
    then have a: "a \<in> set ?as" "in_groups ?G a"
      by (auto simp: group_assignment_def find_Some_iff)
    then obtain g0 where g0: "pa_group_id a = Some g0" "g0 \<in> set ?G"
      by (auto simp: in_groups_def split: option.splits)
    have only: "b = a" if "b \<in> set ?as" "in_groups ?G b" for b
    proof -
      have "a \<in> set (filter (in_groups ?G) ?as)" "b \<in> set (filter (in_groups ?G) ?as)"
        using a that by auto
      with assms(2) show ?thesis
        unfolding one_planned_group_def by (cases "filter (in_groups ?G) ?as") auto
    qed
    have "group_budgets db gids g = (if g = g0 then plan_amount db (pa_plan_id a) else None)"
      if g: "g \<in> set ?G" for g
    proof (cases "find (\<lambda>a. pa_group_id a = Some g) ?as")
      case None
      then have "g \<noteq> g0" using a(1) g0(1) by (auto simp: find_None_iff)
      with None gb [OF g] show ?thesis by simp
    next
      case (Some b)
      then have "b \<in> set ?as" "pa_group_id b = Some g" by (auto simp: find_Some_iff)
      with g only [of b] have "b = a" by (simp add: in_groups_def)
      with Some gb [OF g] g0(1) \<open>pa_group_id b = Some g\<close> show ?thesis by simp
    qed
    from first_found_single [OF this g0(2)] Some show ?thesis by (simp add: assigned_amount_def)
  qed
qed

lemma dept_lookup:
  assumes "wf_plans db" and "u_department u = Some d" and "d \<noteq> []" and "d \<in> set depts"
  shows "dept_budgets db depts d = assigned_amount db (department_assignment db (u_department u))"
proof -
  have "department_assignment db (u_department u) = find (\<lambda>a. pa_department a = Some d) (assignments db)"
    using assms(2,3) unfolding department_assignment_def
    by (auto simp: truthy_def intro!: arg_cong [of _ _ "\<lambda>p. find p (assignments db)"])
  then show ?thesis
    using assms unfolding dept_budgets_def
    by (subst map_of_join) (simp_all add: wf_plans_def assigned_amount_def split: option.split)
qed

section \<open>The batch agrees with the single resolution\<close>

text \<open>The budget of a user who has no direct assignment, by the rules of the batch.\<close>

lemma batch_unresolved:
  assumes wf: "wf_plans db" and d: "distinct (map u_id us)" and u: "u \<in> set us"
    and g1: "one_planned_group db (u_id u)" and none: "get_user_direct_assignment db (u_id u) = None"
  shows "resolve_monthly_budgets_batch db us (u_id u) = Some
     (let g = (case assigned_amount db (group_assignment db (u_id u)) of None \<Rightarrow> 0 | Some b \<Rightarrow> b)
      in if g \<le> 0 then (case assigned_amount db (department_assignment db (u_department u)) of
                          None \<Rightarrow> g | Some b \<Rightarrow> b) else g)"
proof -
  let ?ids = "map u_id us"
  let ?b0 = "foldl (\<lambda>m i. m(i \<mapsto> 0)) Map.empty ?ids"
  obtain b1 n s where bd: "batch_direct db ?ids (assignments db) (?b0, [], []) = (b1, n, s)"
    by (rule prod_cases3)
  let ?un = "filter (\<lambda>i. i \<notin> set n \<and> i \<notin> set s) ?ids"
  let ?gids = "map snd (filter (\<lambda>m. fst m \<in> set ?un) (members db))"
  let ?b2 = "foldl (\<lambda>m i. upd_found m i (first_found (group_budgets db ?gids) (group_ids_of db i))) b1 ?un"
  let ?g = "assigned_amount db (group_assignment db (u_id u))"
  let ?du = "filter (\<lambda>u. u_id u \<in> set ?un \<and>
      (case ?b2 (u_id u) of Some b \<Rightarrow> b \<le> 0 | None \<Rightarrow> False) \<and> truthy (u_department u)) us"
  let ?df = "dept_budgets db (dept_names ?du)"
  have uid: "u_id u \<in> set ?ids" using u by simp
  have "b1 (u_id u) = Some 0 \<and> u_id u \<in> set ?un"
    using batch_direct_result [OF uid _ _ bd] wf none uid
    by (simp add: wf_plans_def get_user_direct_assignment_def foldl_zero)
  then have b1: "b1 (u_id u) = Some 0" and un: "u_id u \<in> set ?un" by blast+
  have "first_found (group_budgets db ?gids) (group_ids_of db (u_id u)) = ?g"
    using un by (intro first_found_group [OF wf g1]) (auto simp: group_ids_of_def)
  then have b2: "?b2 (u_id u) = Some (case ?g of None \<Rightarrow> 0 | Some b \<Rightarrow> b)"
    using un b1 unfolding foldl_upd_found_id by (simp split: option.split)
  have dd: "distinct (map u_id ?du)" using d by (simp add: distinct_map_filter)
  have eq: "resolve_monthly_budgets_batch db us (u_id u) =
      foldl (\<lambda>m u. upd_found m (u_id u) (Option.bind (u_department u) ?df)) ?b2 ?du (u_id u)"
    unfolding resolve_monthly_budgets_batch_def Let_def bd by simp
  show ?thesis
  proof (cases "u \<in> set ?du")
    case True
    then obtain t where t: "u_department u = Some t" "t \<noteq> []"
      by (auto simp: truthy_def split: option.splits)
    then have "t \<in> set (dept_names ?du)"
      using True by (force simp: dept_names_def)
    from dept_lookup [OF wf t this] t True b2
      foldl_upd_found_user [OF dd True, of "\<lambda>u. Option.bind (u_department u) ?df" ?b2]
    show ?thesis unfolding eq by (auto simp: Let_def split: option.splits)
  next
    case False
    have "u_id u \<notin> u_id ` set ?du"
    proof
      assume "u_id u \<in> u_id ` set ?du"
      then obtain v where "v \<in> set ?du" "u_id v = u_id u" by auto
      with d u have "v = u" by (auto simp: distinct_map inj_on_def)
      with \<open>v \<in> set ?du\<close> False show False by simp
    qed
    from foldl_upd_found_other [OF this, of "\<lambda>u. Option.bind (u_department u) ?df" ?b2] False b2 un u
    show ?thesis unfolding eq
      by (auto simp: department_assignment_def assigned_amount_def Let_def split: option.splits)
  qed
qed

lemma batch_direct_user:
  assumes wf: "wf_plans db" and d: "distinct (map u_id us)" and u: "u \<in> set us"
    and some: "get_user_direct_assignment db (u_id u) = Some a"
  shows "resolve_monthly_budgets_batch db us (u_id u) = Some (resolve_monthly_budget db u)"
proof -
  let ?ids = "map u_id us"
  let ?b0 = "foldl (\<lambda>m i. m(i \<mapsto> 0)) Map.empty ?ids"
  obtain b1 n s where bd: "batch_direct db ?ids (assignments db) (?b0, [], []) = (b1, n, s)"
    by (rule prod_cases3)
  have uid: "u_id u \<in> set ?ids" using u by simp
  have "b1 (u_id u) = Some (resolve_monthly_budget db u) \<and> (u_id u \<in> set n \<or> u_id u \<in> set s)"
    using batch_direct_result [OF uid _ _ bd] wf some
    by (simp add: wf_plans_def get_user_direct_assignment_def resolve_monthly_budget_def)
  then show ?thesis
    unfolding resolve_monthly_budgets_batch_def Let_def bd foldl_upd_found_id prod.case
    by (subst foldl_upd_found_other) auto
qed

text \<open>
  For a list of users without repetition, the batched resolution gives each user the
  budget that the single resolution gives, provided no two of the user's groups carry a plan
  and a group plan of zero dollars does not hide a department plan.
\<close>

theorem batch_agrees:
  assumes "wf_plans db" and "distinct (map u_id us)" and "u \<in> set us"
    and "one_planned_group db (u_id u)"
    and "case assigned_amount db (group_assignment db (u_id u)) of None \<Rightarrow> True
      | Some g \<Rightarrow> 0 < g \<or> g = 0 \<and> assigned_amount db (department_assignment db (u_department u)) = None"
  shows "resolve_monthly_budgets_batch db us (u_id u) = Some (resolve_monthly_budget db u)"
proof (cases "get_user_direct_assignment db (u_id u)")
  case None
  from batch_unresolved [OF assms(1-4) None] assms(5) None show ?thesis
    by (auto simp: resolve_monthly_budget_def Let_def split: option.splits)
next
  case (Some a)
  from batch_direct_user [OF assms(1-3) Some] show ?thesis .
qed

text \<open>
  Where a group plan is worth zero dollars and the user's department has a plan, the
  batch falls through to the department plan although the single resolution answers zero.
\<close>

theorem batch_zero_group_plan:
  assumes "wf_plans db" and "distinct (map u_id us)" and "u \<in> set us"
    and "one_planned_group db (u_id u)" and "get_user_direct_assignment db (u_id u) = None"
    and "assigned_amount db (group_assignment db (u_id u)) = Some 0"
    and "assigned_amount db (department_assignment db (u_department u)) = Some b"
  shows "resolve_monthly_budgets_batch db us (u_id u) = Some b \<and> resolve_monthly_budget db u = 0"
  using batch_unresolved [OF assms(1-5)] assms(5-7)
  by (simp add: resolve_monthly_budget_def)

section \<open>Assignment operations\<close>

lemma resolve_cong:
  assumes "assignments db' = assignments db" "plans db' = plans db" "members db' = members db"
    and "u_id u' = u_id u" "u_department u' = u_department u"
  shows "resolve_monthly_budget db' u' = resolve_monthly_budget db u"
  using assms by (simp add: resolve_monthly_budget_def get_user_direct_assignment_def plan_amount_def
      assigned_amount_def group_assignment_def group_ids_of_def department_assignment_def
      cong: option.case_cong)

lemma find_modify:
  assumes "distinct (map k xs)" and "find P xs = Some x" and "P (f x)"
  shows "find P (modify k (k x) f xs) = Some (f x)"
  using assms
proof (induction xs)
  case (Cons y ys)
  show ?case
  proof (cases "P y")
    case True
    with Cons.prems show ?thesis by simp
  next
    case False
    with Cons.prems have "find P ys = Some x" by simp
    moreover from this Cons.prems(1) have "k y \<noteq> k x"
      by (auto simp: find_Some_iff image_iff)
    ultimately show ?thesis using False Cons by simp
  qed
qed simp

lemma find_append: "find P (xs @ ys) = (case find P xs of None \<Rightarrow> find P ys | Some x \<Rightarrow> Some x)"
  by (induction xs) auto

lemma filter_modify_out:
  "(\<And>r. r \<in> set xs \<Longrightarrow> k r = i \<Longrightarrow> \<not> P r \<and> \<not> P (f r)) \<Longrightarrow> filter P (modify k i f xs) = filter P xs"
  by (induction xs) auto

lemma direct_row:
  assumes "distinct (map pa_id (assignments db))" and "get_user_direct_assignment db uid = Some row"
    and "r \<in> set (assignments db)" and "pa_id r = pa_id row"
  shows "pa_user_id r = Some uid"
proof -
  from assms(2) have "row \<in> set (assignments db)" "pa_user_id row = Some uid"
    by (auto simp: get_user_direct_assignment_def find_Some_iff)
  with assms show ?thesis by (metis fetch_distinct option.inject)
qed

text \<open>
  A direct plan overrides groups and department, an explicit no-plan gives a budget of
  zero, and removing the override restores what the user had without one.
\<close>

theorem user_override:
  assumes "distinct (map pa_id (assignments db))" and "plan_amount db (Some plan) = Some amount"
  shows "resolve_monthly_budget (upsert_user_plan db (u_id u) plan) u = amount \<and>
    resolve_monthly_budget (upsert_user_no_plan db (u_id u)) u = 0 \<and>
    clear_user_plan_override (upsert_user_plan db (u_id u) plan) (u_id u) = clear_user_plan_override db (u_id u) \<and>
    clear_user_plan_override (upsert_user_no_plan db (u_id u)) (u_id u) = clear_user_plan_override db (u_id u)"
proof (cases "get_user_direct_assignment db (u_id u)")
  case None
  with assms(2) show ?thesis
    by (auto simp: resolve_monthly_budget_def upsert_user_plan_def upsert_user_no_plan_def
        add_assignment_def get_user_direct_assignment_def clear_user_plan_override_def find_append
        plan_amount_def)
next
  case (Some row)
  let ?f = "\<lambda>p a. a\<lparr>pa_plan_id := p, pa_group_id := None, pa_department := None\<rparr>"
  have u: "pa_user_id row = Some (u_id u)"
    using Some by (auto simp: get_user_direct_assignment_def find_Some_iff)
  have res: "resolve_monthly_budget (update_assignment (pa_id row) (?f p) db) u
      = (case plan_amount db p of None \<Rightarrow> 0 | Some b \<Rightarrow> b)" for p
    using find_modify [OF assms(1), of "\<lambda>a. pa_user_id a = Some (u_id u)" row "?f p"] Some u
    by (cases p) (auto simp: resolve_monthly_budget_def get_user_direct_assignment_def
        update_assignment_def plan_amount_def)
  have clr: "clear_user_plan_override (update_assignment (pa_id row) (?f p) db) (u_id u)
      = clear_user_plan_override db (u_id u)" for p
    using direct_row [OF assms(1) Some]
    by (simp add: clear_user_plan_override_def update_assignment_def filter_modify_out)
  show ?thesis
    using res clr assms(2) Some
    by (auto simp: upsert_user_plan_def upsert_user_no_plan_def plan_amount_def)
qed

section \<open>Refreshing the members of a group\<close>

lemma refresh_member_frame [simp]:
  "assignments (refresh_member db uid) = assignments db" "plans (refresh_member db uid) = plans db"
  "members (refresh_member db uid) = members db" "reservations (refresh_member db uid) = reservations db"
  "api_keys (refresh_member db uid) = api_keys db" "groups (refresh_member db uid) = groups db"
  by (simp_all add: refresh_member_def split: option.split)

lemma refresh_all_frame:
  "assignments (foldl refresh_member db ids) = assignments db \<and>
   plans (foldl refresh_member db ids) = plans db \<and> members (foldl refresh_member db ids) = members db"
  by (induction ids arbitrary: db) simp_all

lemma refresh_member_fetch:
  "fetch u_id i (users (refresh_member db uid)) =
     (case fetch u_id i (users db) of None \<Rightarrow> None
      | Some u \<Rightarrow> Some (if i = uid \<and> get_user_direct_assignment db uid = None
          then u\<lparr>u_monthly_budget_usd := resolve_monthly_budget db u\<rparr> else u))"
  by (auto simp: refresh_member_def user_plan_mode_def update_user_def fetch_modify split: option.splits)

lemma refresh_all_fetch:
  "fetch u_id i (users (foldl refresh_member db ids)) =
     (case fetch u_id i (users db) of None \<Rightarrow> None
      | Some u \<Rightarrow> Some (if i \<in> set ids \<and> get_user_direct_assignment db i = None
          then u\<lparr>u_monthly_budget_usd := resolve_monthly_budget db u\<rparr> else u))"
proof (induction ids arbitrary: db)
  case (Cons x ids)
  have g: "get_user_direct_assignment (refresh_member db x) i = get_user_direct_assignment db i" for i
    by (simp add: get_user_direct_assignment_def)
  have r: "resolve_monthly_budget (refresh_member db x) v = resolve_monthly_budget db v" for v
    by (intro resolve_cong) simp_all
  have m: "resolve_monthly_budget db (u\<lparr>u_monthly_budget_usd := b\<rparr>) = resolve_monthly_budget db u" for u b
    by (intro resolve_cong) simp_all
  show ?case
    by (auto simp: Cons.IH refresh_member_fetch g r m split: option.splits)
qed (simp split: option.split)

lemma refresh_member_inv: "budget_inv db \<Longrightarrow> budget_inv (refresh_member db uid)"
proof -
  assume inv: "budget_inv db"
  have held: "u_budget_reserved_usd u = held_sum db SUBJECT_USER uid"
    if "fetch u_id uid (users db) = Some u" for u
    using that inv fetch_SomeD [OF that] by (auto simp: budget_inv_def counters_exact_def list_all_iff)
  show ?thesis
    unfolding refresh_member_def
    by (auto intro!: update_user_inv [OF inv] inv dest!: held split: option.split)
qed

lemma refresh_all_inv: "budget_inv db \<Longrightarrow> budget_inv (foldl refresh_member db ids)"
  by (induction ids arbitrary: db) (simp_all add: refresh_member_inv)

text \<open>
  Assigning a plan to a group succeeds exactly when plan and group exist; then the
  stored budget of every live member without an override is what the resolution now gives, the
  other users are untouched, and the budget invariant is kept.
\<close>

theorem group_assignment_refreshes:
  assumes "assign_plan_to_group_members db plan gid = Inr (db', n)"
  shows "n = length (live_member_ids db gid) \<and>
    (budget_inv db \<longrightarrow> budget_inv db') \<and>
    fetch u_id i (users db') =
     (case fetch u_id i (users db) of None \<Rightarrow> None
      | Some u \<Rightarrow> Some (if i \<in> set (live_member_ids db gid) \<and> get_user_direct_assignment db' i = None
          then u\<lparr>u_monthly_budget_usd := resolve_monthly_budget db' u\<rparr> else u))"
proof -
  let ?db1 = "upsert_group_plan db gid plan"
  have db': "db' = foldl refresh_member ?db1 (live_member_ids ?db1 gid)"
    and n: "n = length (live_member_ids ?db1 gid)"
    using assms by (auto simp: assign_plan_to_group_members_def Let_def split: if_splits)
  have fr: "users ?db1 = users db" "members ?db1 = members db" "reservations ?db1 = reservations db"
      "api_keys ?db1 = api_keys db"
    by (simp_all add: upsert_group_plan_def update_assignment_def add_assignment_def split: option.split)
  then have ids: "live_member_ids ?db1 gid = live_member_ids db gid"
    by (simp add: live_member_ids_def)
  have inv: "budget_inv ?db1" if "budget_inv db"
    using that fr by (simp add: budget_inv_def wf_db_def counters_exact_def keys_started_def held_sum_def)
  have g: "get_user_direct_assignment db' i = get_user_direct_assignment ?db1 i"
    using refresh_all_frame by (simp add: get_user_direct_assignment_def db')
  have r: "resolve_monthly_budget db' u = resolve_monthly_budget ?db1 u" for u
    using refresh_all_frame by (intro resolve_cong) (simp_all add: db')
  show ?thesis
    using inv refresh_all_inv n unfolding g r
    by (auto simp: db' ids refresh_all_fetch fr split: option.split)
qed

lemma day_in_month:
  fixes doy :: int
  shows "1 \<le> doy - (153 * ((5 * doy + 2) div 153) + 2) div 5 + 1 \<and>
    doy - (153 * ((5 * doy + 2) div 153) + 2) div 5 + 1 \<le> 31"
proof -
  let ?m = "153 * ((5 * doy + 2) div 153)"
  have "?m \<le> 5 * doy + 2" and "5 * doy - 150 \<le> ?m" by linarith+
  then have "(?m + 2) div 5 \<le> doy" and "doy - 30 \<le> (?m + 2) div 5" by linarith+
  then show ?thesis by linarith
qed

lemma day_of_month_range: "1 \<le> day_of_month d \<and> day_of_month d \<le> 31"
  unfolding day_of_month_def Let_def by (rule day_in_month)

lemma month_start_le: "month_start now \<le> now"
proof -
  have "days (now div days 1) \<le> now" 
    using mult_div_mod_eq [of "days 1" now] pos_mod_sign [of "days 1" now]
    by (simp add: days_def seconds_def)
  then show ?thesis using day_of_month_range [of "now div days 1"]
    by (simp add: month_start_def Let_def days_def seconds_def algebra_simps)
qed

section \<open>A worked example\<close>

text \<open>
  User 1 is in group 7 (plan of 10 dollars) and in a department with a plan of 5 dollars; user 2
  is in the department only. \<open>g\<close> is the amount of the group's plan.
\<close>

definition plan_example :: "rat \<Rightarrow> db" where
  "plan_example g = empty_db\<lparr>
     users := [(sample_user 1 0 0)\<lparr>u_department := Some ''eng''\<rparr>, (sample_user 2 0 0)\<lparr>u_department := Some ''eng''\<rparr>],
     plans := [\<lparr>p_id = 1, p_name = ''g'', p_monthly_budget_usd = g\<rparr>, \<lparr>p_id = 2, p_name = ''d'', p_monthly_budget_usd = 5\<rparr>],
     assignments := [\<lparr>pa_id = 1, pa_plan_id = Some 1, pa_user_id = None, pa_group_id = Some 7, pa_department = None\<rparr>,
       \<lparr>pa_id = 2, pa_plan_id = Some 2, pa_user_id = None, pa_group_id = None, pa_department = Some ''eng''\<rparr>],
     members := [(1, 7)], groups := [7]\<rparr>"

theorem batch_agrees_witness:
  "resolve_monthly_budgets_batch (plan_example 10) (users (plan_example 10)) 1 = Some 10"
  using batch_agrees [of "plan_example 10" "users (plan_example 10)" "hd (users (plan_example 10))"]
  by code_simp

theorem batch_zero_group_plan_witness:
  "resolve_monthly_budgets_batch (plan_example 0) (users (plan_example 0)) 1 = Some 5 \<and>
   resolve_monthly_budget (plan_example 0) (hd (users (plan_example 0))) = 0"
  using batch_zero_group_plan [of "plan_example 0" "users (plan_example 0)" "hd (users (plan_example 0))" 5]
  by code_simp

theorem user_override_witness:
  "resolve_monthly_budget (upsert_user_plan (plan_example 10) 1 2) (hd (users (plan_example 10))) = 5"
  using user_override [of "plan_example 10" 2 5 "hd (users (plan_example 10))"]
  by code_simp

theorem group_assignment_refreshes_witness:
  "snd (projr (assign_plan_to_group_members (plan_example 10) 1 7)) = 1 \<and>
   map_option u_monthly_budget_usd
     (fetch u_id 1 (users (fst (projr (assign_plan_to_group_members (plan_example 10) 1 7))))) = Some 10"
  using group_assignment_refreshes [of "plan_example 10" 1 7
      "fst (projr (assign_plan_to_group_members (plan_example 10) 1 7))"
      "snd (projr (assign_plan_to_group_members (plan_example 10) 1 7))" 1]
  by code_simp

end
