(* ===== verification/Budget_Admission.thy ===== *)
theory Budget_Admission
  imports Api_Keys Plan_Assignment
begin

text \<open>
  Taking and growing holds (\<open>services/budget_reservation_service.py\<close>): the two admission
  policies, \<open>reserve\<close> and \<open>extend_hold\<close>. The theorems say that an admitted hold fits the budget
  that is left, that a refusal was checked against the open holds themselves, and that the
  budget invariant survives every operation.
\<close>

section \<open>Settings and messages\<close>

record budget_settings =
  budget_soft_overshoot_usd :: rat
  budget_reservation_ttl_seconds :: int

definition soft_overshoot_tolerance :: "budget_settings \<Rightarrow> rat" where
  "soft_overshoot_tolerance settings = max 0 (budget_soft_overshoot_usd settings)"

definition reservation_ttl :: "budget_settings \<Rightarrow> int" where
  "reservation_ttl settings =
     (let t = budget_reservation_ttl_seconds settings
      in max 900 (min 86400 (if t = 0 then 7200 else t)))"

text \<open>\<open>f"{x:.4f}"\<close>.\<close>

definition pad_left :: "nat \<Rightarrow> string \<Rightarrow> string" where
  "pad_left n s = replicate (n - length s) CHR ''0'' @ s"

definition format4 :: "rat \<Rightarrow> string" where
  "format4 x =
     (let n = round_half_even (x * 10000); m = \<bar>n\<bar>
      in (if x < 0 then ''-'' else []) @ show_nat (m div 10000) @ ''.'' @ pad_left 4 (show_nat (m mod 10000)))"

section \<open>Admission\<close>

definition hold_fits_balance :: "rat \<Rightarrow> rat \<Rightarrow> rat \<Rightarrow> rat \<Rightarrow> bool" where
  "hold_fits_balance amount limit used held \<longleftrightarrow> round8 (limit - used - held) \<ge> amount"

definition soft_hold_allowance :: "budget_settings \<Rightarrow> rat \<Rightarrow> rat \<Rightarrow> rat \<Rightarrow> rat \<Rightarrow> rat option" where
  "soft_hold_allowance settings amount limit used held =
     (let headroom = round8 (limit - used - held)
      in if headroom \<le> 0 then None
         else
           let shortfall = round8 (amount - headroom)
           in if shortfall \<le> 0 then Some amount
              else if shortfall > soft_overshoot_tolerance settings then None
              else Some headroom)"

definition exhausted_detail :: "rat \<Rightarrow> rat \<Rightarrow> rat \<Rightarrow> rat \<Rightarrow> string \<Rightarrow> string \<Rightarrow> string" where
  "exhausted_detail amount limit used held base_detail scope_label =
     (let headroom = round8 (limit - used - held)
      in if headroom \<le> 0 then base_detail
         else base_detail @ '' This request is estimated at $'' @ format4 amount @ '' but only $'' @
           format4 headroom @ '' of '' @ scope_label @ '' remains.'')"

text \<open>The inner function of \<open>_admit_hold\<close>: the policy chosen by \<open>cost_is_estimated\<close>.\<close>

definition evaluate_hold :: "budget_settings \<Rightarrow> bool \<Rightarrow> rat \<Rightarrow> rat \<Rightarrow> rat \<Rightarrow> rat \<Rightarrow> rat option" where
  "evaluate_hold settings estimated amount limit used current_held =
     (if estimated then soft_hold_allowance settings amount limit used current_held
      else if hold_fits_balance amount limit used current_held then Some amount else None)"

definition admit_hold ::
    "budget_settings \<Rightarrow> db \<Rightarrow> subject_type \<Rightarrow> int \<Rightarrow> rat \<Rightarrow> rat \<Rightarrow> rat \<Rightarrow> rat \<Rightarrow> bool \<Rightarrow> string \<Rightarrow> string
      \<Rightarrow> (db \<times> rat \<times> rat) result" where
  "admit_hold settings db st sid amount limit used held estimated base_detail scope_label =
     (let allowed = evaluate_hold settings estimated amount limit used held;
          (db2, held2, allowed2) =
            (if allowed = None \<and> 0 < held then
               let (db1, repaired) = reconcile_subject_reserved db st sid
               in if repaired < held
                  then (db1, repaired, evaluate_hold settings estimated amount limit used repaired)
                  else (db1, held, allowed)
             else (db, held, allowed))
      in (case allowed2 of
            None \<Rightarrow> Inl (HTTPException 402
              (exhausted_detail amount limit used held2 base_detail scope_label))
          | Some a \<Rightarrow> Inr (db2, held2, round8 a)))"

section \<open>Idempotency keys\<close>

fun subject_type_text :: "subject_type \<Rightarrow> string" where
  "subject_type_text SUBJECT_USER = ''user''"
| "subject_type_text SUBJECT_ALPHA_ROUTER_KEY = ''alpha_router_key''"
| "subject_type_text (SUBJECT_OTHER s) = s"

definition SCOPED_KEY_MAX :: nat where
  "SCOPED_KEY_MAX = 160"

text \<open>\<open>sha256_hex\<close> is the digest of the standard library, 64 hexadecimal characters.\<close>

definition scoped_idempotency_key :: "(string \<Rightarrow> string) \<Rightarrow> subject_type \<Rightarrow> int \<Rightarrow> string \<Rightarrow> string" where
  "scoped_idempotency_key sha256_hex st sid key =
     (let prefix = subject_type_text st @ '':'' @ show_int sid @ '':'';
          scoped = prefix @ key
      in if length scoped \<le> SCOPED_KEY_MAX then scoped
         else
           let digest = sha256_hex scoped;
               room = int SCOPED_KEY_MAX - int (length prefix) - int (length digest) - 1;
               head = (if room > 0 then take (nat room) key else [])
           in take SCOPED_KEY_MAX (prefix @ head @ ''~'' @ digest))"

definition existing_reservation :: "db \<Rightarrow> string \<Rightarrow> reservation option" where
  "existing_reservation db key = fetch r_idempotency_key key (reservations db)"

section \<open>Reserve\<close>

record reserve_request =
  rq_user_id :: "int option"
  rq_alpha_router_api_key_id :: "int option"
  rq_amount_usd :: rat
  rq_operation :: string
  rq_model_id :: string
  rq_idempotency_key :: string
  rq_cost_is_estimated :: bool

text \<open>
  The hold row and its insertion. \<open>new_id\<close> is the UUID drawn for the row; a repeated primary
  key is the database's \<open>IntegrityError\<close>.
\<close>

definition insert_hold ::
    "time \<Rightarrow> budget_settings \<Rightarrow> string \<Rightarrow> db \<Rightarrow> subject_type \<Rightarrow> int \<Rightarrow> string \<Rightarrow> reserve_request \<Rightarrow> rat
      \<Rightarrow> (db \<times> reservation option) result" where
  "insert_hold now settings new_id db st sid scoped_key req amount =
     (if new_id \<in> set (map r_id (reservations db)) then Inl IntegrityError
      else
        let row = \<lparr>r_id = new_id, r_subject_type = st, r_subject_id = sid,
              r_idempotency_key = scoped_key, r_operation = rq_operation req,
              r_model_id = rq_model_id req, r_reserved_usd = amount, r_actual_usd = None,
              r_status = STATUS_HELD, r_request_log_id = None, r_created_at = now,
              r_expires_at = now + seconds (reservation_ttl settings), r_settled_at = None\<rparr>
        in Inr (db\<lparr>reservations := reservations db @ [row]\<rparr>, Some row))"

definition duplicate_key_error :: py_error where
  "duplicate_key_error = HTTPException 409 ''Duplicate request idempotency key''"

definition reserve_key ::
    "time \<Rightarrow> budget_settings \<Rightarrow> string \<Rightarrow> db \<Rightarrow> int \<Rightarrow> string \<Rightarrow> reserve_request \<Rightarrow> rat
      \<Rightarrow> (db \<times> reservation option) result" where
  "reserve_key now settings new_id db kid scoped_key req amount =
     (case fetch k_id kid (api_keys db) of
        None \<Rightarrow> Inl (HTTPException 401 ''Invalid API key'')
      | Some _ \<Rightarrow>
          (case ensure_key_usable now db kid of
             Inl e \<Rightarrow> Inl e
           | Inr db1 \<Rightarrow>
               if existing_reservation db1 scoped_key \<noteq> None then Inl duplicate_key_error
               else
                 (case fetch k_id kid (api_keys db1) of
                    None \<Rightarrow> Inl (HTTPException 401 ''Invalid API key'')
                  | Some key \<Rightarrow>
                      let limit = k_credit_limit_usd key; used = k_period_used_usd key;
                          held = k_period_reserved_usd key
                      in (case (if 0 < limit
                                then admit_hold settings db1 SUBJECT_ALPHA_ROUTER_KEY kid amount limit used held
                                  (rq_cost_is_estimated req)
                                  ''API key credit limit exceeded for this period.'' ''key credit''
                                else Inr (db1, held, amount)) of
                            Inl e \<Rightarrow> Inl e
                          | Inr (db2, held2, amount2) \<Rightarrow>
                              insert_hold now settings new_id
                                (set_subject_reserved db2 SUBJECT_ALPHA_ROUTER_KEY kid (round8 (held2 + amount2)))
                                SUBJECT_ALPHA_ROUTER_KEY kid scoped_key req amount2))))"

definition reserve_user ::
    "time \<Rightarrow> budget_settings \<Rightarrow> string \<Rightarrow> db \<Rightarrow> int \<Rightarrow> string \<Rightarrow> reserve_request \<Rightarrow> rat
      \<Rightarrow> (db \<times> reservation option) result" where
  "reserve_user now settings new_id db uid scoped_key req amount =
     (case fetch u_id uid (users db) of
        None \<Rightarrow> Inl (HTTPException 403 ''Account disabled'')
      | Some user0 \<Rightarrow>
          if \<not> u_is_active user0 then Inl (HTTPException 403 ''Account disabled'')
          else
            let db1 = ensure_budget_period now db user0
            in if existing_reservation db1 scoped_key \<noteq> None then Inl duplicate_key_error
               else
                 (case fetch u_id uid (users db1) of
                    None \<Rightarrow> Inl (HTTPException 403 ''Account disabled'')
                  | Some user \<Rightarrow>
                      let limit = u_monthly_budget_usd user; used = u_budget_used_usd user;
                          held = u_budget_reserved_usd user
                      in if limit \<le> 0 then Inl (HTTPException 402 NO_PLAN_BUDGET_DETAIL)
                         else
                           (case admit_hold settings db1 SUBJECT_USER uid amount limit used held
                                  (rq_cost_is_estimated req)
                                  (BUDGET_EXCEEDED_DETAIL @ ''.'') ''monthly budget'' of
                              Inl e \<Rightarrow> Inl e
                            | Inr (db2, held2, amount2) \<Rightarrow>
                                insert_hold now settings new_id
                                  (set_subject_reserved db2 SUBJECT_USER uid (round8 (held2 + amount2)))
                                  SUBJECT_USER uid scoped_key req amount2)))"

definition reserve ::
    "(string \<Rightarrow> string) \<Rightarrow> time \<Rightarrow> budget_settings \<Rightarrow> string \<Rightarrow> db \<Rightarrow> reserve_request
      \<Rightarrow> (db \<times> reservation option) result" where
  "reserve sha256_hex now settings new_id db req =
     (let amount = round8 (max (1 / 10000) (rq_amount_usd req))
      in (case rq_alpha_router_api_key_id req of
            Some kid \<Rightarrow>
              reserve_key now settings new_id db kid
                (scoped_idempotency_key sha256_hex SUBJECT_ALPHA_ROUTER_KEY kid (rq_idempotency_key req))
                req amount
          | None \<Rightarrow>
              (case rq_user_id req of
                 None \<Rightarrow> Inr (db, None)
               | Some uid \<Rightarrow>
                   reserve_user now settings new_id db uid
                     (scoped_idempotency_key sha256_hex SUBJECT_USER uid (rq_idempotency_key req))
                     req amount)))"

section \<open>Growing a hold\<close>

definition bounded_hold_usd :: "db \<Rightarrow> reservation option \<Rightarrow> rat option" where
  "bounded_hold_usd db hold =
     (case hold of
        None \<Rightarrow> None
      | Some h \<Rightarrow>
          if r_subject_type h = SUBJECT_ALPHA_ROUTER_KEY \<and>
             (case fetch k_id (r_subject_id h) (api_keys db) of
                None \<Rightarrow> False | Some key \<Rightarrow> k_credit_limit_usd key \<le> 0)
          then None
          else Some (r_reserved_usd h))"

definition grow_hold :: "db \<Rightarrow> reservation \<Rightarrow> rat \<Rightarrow> rat \<Rightarrow> rat \<Rightarrow> db \<times> rat option" where
  "grow_hold db row reserved held target =
     (let grown = round8 target
      in (set_subject_reserved (update_reservation (r_id row) (\<lambda>r. r\<lparr>r_reserved_usd := grown\<rparr>) db)
            (r_subject_type row) (r_subject_id row) (round8 (held + grown - reserved)),
          Some grown))"

text \<open>
  \<open>needed_usd\<close> is None when the float is infinite or not a number. A key without a limit has
  infinite headroom, so its hold grows to the larger of the need and twice its size.
\<close>

definition extend_hold :: "db \<Rightarrow> string option \<Rightarrow> rat option \<Rightarrow> db \<times> rat option" where
  "extend_hold db reservation_id needed_usd =
     (case (reservation_id, needed_usd) of
        (Some rid, Some n) \<Rightarrow>
          if rid = [] then (db, None)
          else
            let needed = round8 n
            in (case lock_subject_then_reservation db rid of
                  None \<Rightarrow> (db, None)
                | Some row \<Rightarrow>
                    if r_status row \<noteq> STATUS_HELD then (db, None)
                    else
                      let reserved = round8 (r_reserved_usd row)
                      in if needed \<le> reserved then (db, Some reserved)
                         else
                           (case locked_subject db (r_subject_type row) (r_subject_id row) of
                              None \<Rightarrow> (db, None)
                            | Some subject \<Rightarrow>
                                let (limit, used, held) = subject_balance subject;
                                    extra = round8 (needed - reserved);
                                    unlimited = (case subject of Subj_Key _ \<Rightarrow> limit \<le> 0 | Subj_User _ \<Rightarrow> False);
                                    headroom = round8 (limit - used - held)
                                in if unlimited then
                                     grow_hold db row reserved held (max needed (2 * reserved))
                                   else if headroom < extra then
                                     let (db1, held1) = reconcile_subject_reserved db
                                           (r_subject_type row) (r_subject_id row);
                                         headroom1 = round8 (limit - used - held1)
                                     in if headroom1 < extra then (db1, None)
                                        else grow_hold db1 row reserved held1
                                          (min (max needed (2 * reserved)) (reserved + headroom1))
                                   else
                                     grow_hold db row reserved held
                                       (min (max needed (2 * reserved)) (reserved + headroom))))
      | _ \<Rightarrow> (db, None))"

section \<open>The admission policies\<close>


lemma evaluate_hold_bound:
  assumes "evaluate_hold settings est amount limit used held = Some a" and "on_grid 8 amount"
  shows "a \<le> round8 (limit - used - held)" and "on_grid 8 a" and "a \<le> amount"
    and "0 < amount \<Longrightarrow> 0 < a" and "\<not> est \<Longrightarrow> a = amount"
    and "amount - a \<le> soft_overshoot_tolerance settings"
proof -
  let ?h = "round8 (limit - used - held)"
  have eq: "round8 (amount - ?h) = amount - ?h" using assms(2) by simp
  show "a \<le> ?h" "on_grid 8 a" "a \<le> amount" "0 < amount \<Longrightarrow> 0 < a" "\<not> est \<Longrightarrow> a = amount"
    "amount - a \<le> soft_overshoot_tolerance settings"
    using assms unfolding evaluate_hold_def soft_hold_allowance_def hold_fits_balance_def Let_def eq
    by (auto simp: soft_overshoot_tolerance_def split: if_splits)
qed

text \<open>With an exact counter the second look finds nothing to repair.\<close>

lemma admit_hold_exact:
  assumes "wf_db db" and "held = held_sum db st sid" and "on_grid 8 amount"
  shows "admit_hold settings db st sid amount limit used held est base scope =
    (case evaluate_hold settings est amount limit used held of
       None \<Rightarrow> Inl (HTTPException 402 (exhausted_detail amount limit used held base scope))
     | Some a \<Rightarrow> Inr (db, held, a))"
  using assms evaluate_hold_bound(2) [of settings est amount limit used held]
  by (auto simp: admit_hold_def Let_def reconcile_eq split: option.split)

lemma set_reserved_append:
  "(set_subject_reserved db st sid h)\<lparr>reservations := rs\<rparr> = set_subject_reserved (db\<lparr>reservations := rs\<rparr>) st sid h"
  by (simp add: set_subject_reserved_def split: subject_type.split)

text \<open>Adding a hold and its amount to the counter together keeps the invariant.\<close>

lemma take_hold_inv:
  assumes inv: "budget_inv db" and held: "subject_held db st sid = h" and lock: "lock_subject db st sid"
    and row: "r_subject_type row = st" "r_subject_id row = sid" "r_status row = STATUS_HELD"
      "hold_ok row" "r_id row \<notin> set (map r_id (reservations db))"
      "r_idempotency_key row \<notin> set (map r_idempotency_key (reservations db))"
    and started: "\<And>k. st = SUBJECT_ALPHA_ROUTER_KEY \<Longrightarrow> fetch k_id sid (api_keys db) = Some k \<Longrightarrow>
      k_period_started_at k \<noteq> None"
  shows "budget_inv ((set_subject_reserved db st sid (round8 (h + r_reserved_usd row)))
     \<lparr>reservations := reservations db @ [row]\<rparr>)"
proof -
  let ?db' = "db\<lparr>reservations := reservations db @ [row]\<rparr>"
  have wf: "wf_db db" and ce: "counters_exact db" and ks: "keys_started db"
    using inv by (simp_all add: budget_inv_def)
  have h: "h = held_sum db st sid" using counters_exact_held [OF ce lock] held by simp
  have sums: "held_sum ?db' a b = held_sum db a b + (if a = st \<and> b = sid then r_reserved_usd row else 0)" for a b
    using row by (auto simp: held_sum_def held_row_def)
  have "round8 (h + r_reserved_usd row) = held_sum ?db' st sid"
    using held_sum_on_grid [OF wf] row(4) by (simp add: h sums hold_ok_def)
  then have "counters_exact (set_subject_reserved ?db' st sid (round8 (h + r_reserved_usd row)))"
    by (intro counters_exact_write [OF ce]) (auto simp: sums)
  moreover have "wf_db ?db'" using wf row by (auto simp: wf_db_def)
  moreover have "keys_started ?db'"
  proof -
    have "distinct (map k_id (api_keys db))" using wf by (simp add: wf_db_def)
    then have "k_period_started_at k \<noteq> None"
      if "st = SUBJECT_ALPHA_ROUTER_KEY" "k \<in> set (api_keys db)" "k_id k = sid" for k
      using that started fetch_distinct [of k_id "api_keys db" k] by auto
    with ks row show ?thesis
      by (fastforce simp: keys_started_def list_all_iff held_row_def)
  qed
  ultimately show ?thesis
    unfolding set_reserved_append by (simp add: budget_inv_def keys_started_set_reserved)
qed

section \<open>Reserve\<close>

lemma existing_None: "existing_reservation db key = None \<longleftrightarrow> key \<notin> set (map r_idempotency_key (reservations db))"
  by (simp add: existing_reservation_def fetch_None_iff)

lemma amount_pos: "0 < round8 (max (1 / 10000) x)"
proof -
  have "on_grid 8 (1 / 10000)" by (rule on_gridI [of _ _ 10000]) simp
  from grid_le_py_round [OF this, of "max (1 / 10000) x"] show ?thesis by simp
qed

text \<open>
  What a successful reservation did: \<open>db1\<close> is the database after the subject's period was
  brought up to date, \<open>a\<close> the amount taken under the policy.
\<close>

definition hold_taken ::
    "time \<Rightarrow> budget_settings \<Rightarrow> string \<Rightarrow> subject_type \<Rightarrow> int \<Rightarrow> string \<Rightarrow> reserve_request \<Rightarrow> rat \<Rightarrow> db \<Rightarrow> rat
      \<Rightarrow> db \<Rightarrow> reservation \<Rightarrow> bool" where
  "hold_taken now settings new_id st sid key req amount db1 a db' row \<longleftrightarrow>
     budget_inv db1 \<and> lock_subject db1 st sid \<and>
     new_id \<notin> set (map r_id (reservations db1)) \<and>
     key \<notin> set (map r_idempotency_key (reservations db1)) \<and>
     (evaluate_hold settings (rq_cost_is_estimated req) amount (subject_limit db1 st sid)
        (subject_used db1 st sid) (subject_held db1 st sid) = Some a
      \<or> st = SUBJECT_ALPHA_ROUTER_KEY \<and> subject_limit db1 st sid \<le> 0 \<and> a = amount) \<and>
     r_id row = new_id \<and> r_subject_type row = st \<and> r_subject_id row = sid \<and> r_idempotency_key row = key \<and>
     r_status row = STATUS_HELD \<and> r_reserved_usd row = a \<and>
     r_expires_at row = now + seconds (reservation_ttl settings) \<and>
     (st = SUBJECT_USER \<longrightarrow> 0 < subject_limit db1 st sid) \<and>
     (\<forall>k. st = SUBJECT_ALPHA_ROUTER_KEY \<longrightarrow> fetch k_id sid (api_keys db1) = Some k \<longrightarrow> k_period_started_at k \<noteq> None) \<and>
     db' = (set_subject_reserved db1 st sid (round8 (subject_held db1 st sid + a)))
             \<lparr>reservations := reservations db1 @ [row]\<rparr>"

lemma insert_hold_taken:
  assumes "insert_hold now settings new_id (set_subject_reserved db1 st sid (round8 (held + a))) st sid key req a
      = Inr (db', out)"
    and "budget_inv db1" "lock_subject db1 st sid" "existing_reservation db1 key = None"
    and "held = subject_held db1 st sid"
    and "evaluate_hold settings (rq_cost_is_estimated req) amount (subject_limit db1 st sid)
        (subject_used db1 st sid) (subject_held db1 st sid) = Some a
      \<or> st = SUBJECT_ALPHA_ROUTER_KEY \<and> subject_limit db1 st sid \<le> 0 \<and> a = amount"
    and "st = SUBJECT_USER \<longrightarrow> 0 < subject_limit db1 st sid"
    and "\<forall>k. st = SUBJECT_ALPHA_ROUTER_KEY \<longrightarrow> fetch k_id sid (api_keys db1) = Some k \<longrightarrow> k_period_started_at k \<noteq> None"
  shows "\<exists>db1 a row. out = Some row \<and> hold_taken now settings new_id st sid key req amount db1 a db' row"
proof -
  have "\<exists>row. out = Some row \<and> hold_taken now settings new_id st sid key req amount db1 a db' row"
    using assms(1-4,6-8) unfolding assms(5) hold_taken_def insert_hold_def Let_def existing_None
    by (auto split: if_splits)
  then show ?thesis by blast
qed

lemma reserve_key_taken:
  assumes inv: "budget_inv db" and grid: "on_grid 8 amount"
    and ok: "reserve_key now settings new_id db kid key req amount = Inr (db', out)"
  shows "\<exists>db1 a row. out = Some row \<and> hold_taken now settings new_id SUBJECT_ALPHA_ROUTER_KEY kid key req amount db1 a db' row"
proof -
  from ok obtain db1 k1 where
    use: "ensure_key_usable now db kid = Inr db1" and fresh: "existing_reservation db1 key = None"
    and k1: "fetch k_id kid (api_keys db1) = Some k1"
    and rest: "(case (if 0 < k_credit_limit_usd k1
                then admit_hold settings db1 SUBJECT_ALPHA_ROUTER_KEY kid amount (k_credit_limit_usd k1)
                  (k_period_used_usd k1) (k_period_reserved_usd k1) (rq_cost_is_estimated req)
                  ''API key credit limit exceeded for this period.'' ''key credit''
                else Inr (db1, k_period_reserved_usd k1, amount)) of
          Inl e \<Rightarrow> Inl e
        | Inr (db2, held2, amount2) \<Rightarrow>
            insert_hold now settings new_id
              (set_subject_reserved db2 SUBJECT_ALPHA_ROUTER_KEY kid (round8 (held2 + amount2)))
              SUBJECT_ALPHA_ROUTER_KEY kid key req amount2) = Inr (db', out)"
    unfolding reserve_key_def Let_def by (auto split: option.splits sum.splits if_splits)
  have inv1: "budget_inv db1" using ensure_key_usable_inv [OF inv use] .
  have lock: "lock_subject db1 SUBJECT_ALPHA_ROUTER_KEY kid" using k1 by (simp add: lock_subject_key)
  have held: "k_period_reserved_usd k1 = held_sum db1 SUBJECT_ALPHA_ROUTER_KEY kid"
    using inv1 fetch_SomeD [OF k1] by (auto simp: budget_inv_def counters_exact_def list_all_iff)
  have started: "k_period_started_at k1 \<noteq> None"
    using ensure_key_open [OF use inv] k1 by (auto simp: key_open_def split: option.splits)
  have wf1: "wf_db db1" using inv1 by (simp add: budget_inv_def)
  have bal: "subject_limit db1 SUBJECT_ALPHA_ROUTER_KEY kid = k_credit_limit_usd k1"
    "subject_used db1 SUBJECT_ALPHA_ROUTER_KEY kid = k_period_used_usd k1"
    "subject_held db1 SUBJECT_ALPHA_ROUTER_KEY kid = k_period_reserved_usd k1"
    using k1 by (simp_all add: subject_limit_def subject_used_def subject_held_def fetch_key_iff)
  obtain a where
    ins: "insert_hold now settings new_id (set_subject_reserved db1 SUBJECT_ALPHA_ROUTER_KEY kid
        (round8 (k_period_reserved_usd k1 + a))) SUBJECT_ALPHA_ROUTER_KEY kid key req a = Inr (db', out)"
    and a: "evaluate_hold settings (rq_cost_is_estimated req) amount (k_credit_limit_usd k1)
        (k_period_used_usd k1) (k_period_reserved_usd k1) = Some a \<or> k_credit_limit_usd k1 \<le> 0 \<and> a = amount"
    using rest unfolding admit_hold_exact [OF wf1 held grid]
    by (auto simp: not_less split: if_splits option.splits)
  show ?thesis
    by (rule insert_hold_taken [OF ins inv1 lock fresh]) (use a started k1 bal in auto)
qed

lemma reserve_user_taken:
  assumes inv: "budget_inv db" and grid: "on_grid 8 amount"
    and ok: "reserve_user now settings new_id db uid key req amount = Inr (db', out)"
  shows "\<exists>db1 a row. out = Some row \<and> hold_taken now settings new_id SUBJECT_USER uid key req amount db1 a db' row"
proof -
  from ok obtain u0 u1 where
    fresh: "existing_reservation (ensure_budget_period now db u0) key = None"
    and u1: "fetch u_id uid (users (ensure_budget_period now db u0)) = Some u1"
    and lim: "0 < u_monthly_budget_usd u1"
    and rest: "(case admit_hold settings (ensure_budget_period now db u0) SUBJECT_USER uid amount
            (u_monthly_budget_usd u1) (u_budget_used_usd u1) (u_budget_reserved_usd u1)
            (rq_cost_is_estimated req) (BUDGET_EXCEEDED_DETAIL @ ''.'') ''monthly budget'' of
          Inl e \<Rightarrow> Inl e
        | Inr (db2, held2, amount2) \<Rightarrow>
            insert_hold now settings new_id
              (set_subject_reserved db2 SUBJECT_USER uid (round8 (held2 + amount2)))
              SUBJECT_USER uid key req amount2) = Inr (db', out)"
    unfolding reserve_user_def Let_def by (auto simp: not_le split: option.splits if_splits)
  define db1 where "db1 = ensure_budget_period now db u0"
  have inv1: "budget_inv db1" unfolding db1_def using ensure_budget_period_inv [OF inv] .
  have lock: "lock_subject db1 SUBJECT_USER uid" using u1 by (simp add: lock_subject_user db1_def)
  have held: "u_budget_reserved_usd u1 = held_sum db1 SUBJECT_USER uid"
    using inv1 fetch_SomeD [OF u1] by (auto simp: budget_inv_def counters_exact_def list_all_iff db1_def)
  have wf1: "wf_db db1" using inv1 by (simp add: budget_inv_def)
  have bal: "subject_limit db1 SUBJECT_USER uid = u_monthly_budget_usd u1"
    "subject_used db1 SUBJECT_USER uid = u_budget_used_usd u1"
    "subject_held db1 SUBJECT_USER uid = u_budget_reserved_usd u1"
    using u1 by (simp_all add: subject_limit_def subject_used_def subject_held_def fetch_user_iff db1_def)
  obtain a where
    ins: "insert_hold now settings new_id (set_subject_reserved db1 SUBJECT_USER uid
        (round8 (u_budget_reserved_usd u1 + a))) SUBJECT_USER uid key req a = Inr (db', out)"
    and a: "evaluate_hold settings (rq_cost_is_estimated req) amount (u_monthly_budget_usd u1)
        (u_budget_used_usd u1) (u_budget_reserved_usd u1) = Some a"
    using rest unfolding db1_def [symmetric] admit_hold_exact [OF wf1 held grid]
    by (auto split: option.splits)
  show ?thesis
    by (rule insert_hold_taken [OF ins inv1 lock fresh [folded db1_def]]) (use a bal lim in auto)
qed

text \<open>The subject a request charges: the key if it names one, else the user.\<close>

definition request_subject :: "reserve_request \<Rightarrow> (subject_type \<times> int) option" where
  "request_subject req =
     (case rq_alpha_router_api_key_id req of
        Some kid \<Rightarrow> Some (SUBJECT_ALPHA_ROUTER_KEY, kid)
      | None \<Rightarrow> map_option (\<lambda>uid. (SUBJECT_USER, uid)) (rq_user_id req))"

definition request_amount :: "reserve_request \<Rightarrow> rat" where
  "request_amount req = round8 (max (1 / 10000) (rq_amount_usd req))"

lemma reserve_taken:
  assumes inv: "budget_inv db" and ok: "reserve sha now settings new_id db req = Inr (db', Some row)"
  shows "\<exists>st sid db1 a. request_subject req = Some (st, sid) \<and>
    hold_taken now settings new_id st sid (scoped_idempotency_key sha st sid (rq_idempotency_key req))
      req (request_amount req) db1 a db' row"
proof (cases "rq_alpha_router_api_key_id req")
  case (Some kid)
  with ok show ?thesis
    using reserve_key_taken [OF inv, of "request_amount req"]
    by (auto simp: reserve_def request_subject_def request_amount_def Let_def) blast
next
  case None
  with ok obtain uid where uid: "rq_user_id req = Some uid"
    by (auto simp: reserve_def split: option.splits)
  with None ok show ?thesis
    using reserve_user_taken [OF inv, of "request_amount req"]
    by (auto simp: reserve_def request_subject_def request_amount_def Let_def) blast
qed

lemma reserve_none:
  assumes inv: "budget_inv db" and ok: "reserve sha now settings new_id db req = Inr (db', None)"
  shows "db' = db \<and> request_subject req = None"
proof -
  have "rq_alpha_router_api_key_id req = None \<and> rq_user_id req = None"
    using ok reserve_key_taken [OF inv, of "request_amount req"] reserve_user_taken [OF inv, of "request_amount req"]
    by (auto simp: reserve_def request_amount_def Let_def split: option.splits) blast+
  with ok show ?thesis by (simp add: reserve_def request_subject_def)
qed

text \<open>The facts about a taken hold that the properties rest on.\<close>

lemma hold_taken_amount:
  assumes "hold_taken now settings new_id st sid key req amount db1 a db' row"
    and "on_grid 8 amount" and "0 < amount"
  shows "0 < a" "a \<le> amount" "on_grid 8 a" "amount - a \<le> soft_overshoot_tolerance settings"
    "\<not> rq_cost_is_estimated req \<Longrightarrow> a = amount"
  using assms evaluate_hold_bound [of settings _ amount _ _ _ a]
  by (auto simp: hold_taken_def soft_overshoot_tolerance_def) 

lemma hold_taken_inv:
  assumes t: "hold_taken now settings new_id st sid key req amount db1 a db' row"
    and "on_grid 8 amount" and "0 < amount"
  shows "budget_inv db'"
proof -
  have "hold_ok row" using hold_taken_amount [OF assms] t by (simp add: hold_taken_def hold_ok_def)
  with t show ?thesis
    unfolding hold_taken_def by (auto intro!: take_hold_inv)
qed

lemma hold_taken_balance:
  assumes t: "hold_taken now settings new_id st sid key req amount db1 a db' row"
    and grid: "on_grid 8 amount" and pos: "0 < amount"
  shows "subject_limit db' st sid = subject_limit db1 st sid" "subject_used db' st sid = subject_used db1 st sid"
    "subject_held db' st sid = subject_held db1 st sid + a"
proof -
  let ?s = "set_subject_reserved db1 st sid (round8 (subject_held db1 st sid + a))"
  have db': "db' = ?s\<lparr>reservations := reservations db1 @ [row]\<rparr>" and lock: "lock_subject db1 st sid"
    and inv: "budget_inv db1" using t by (simp_all add: hold_taken_def)
  have same: "locked_subject db' st sid = locked_subject ?s st sid"
    by (simp add: db' locked_subject_def split: subject_type.split)
  have "on_grid 8 (subject_held db1 st sid)"
    using inv counters_exact_held [OF _ lock] held_sum_on_grid by (simp add: budget_inv_def)
  then have "round8 (subject_held db1 st sid + a) = subject_held db1 st sid + a"
    using hold_taken_amount(3) [OF assms] by simp
  then show "subject_limit db' st sid = subject_limit db1 st sid" "subject_used db' st sid = subject_used db1 st sid"
    "subject_held db' st sid = subject_held db1 st sid + a"
    using subject_set_reserved [of db1 st sid] lock
    unfolding subject_limit_def subject_used_def subject_held_def same by simp_all
qed

lemma headroom_bound:
  assumes "a \<le> round8 (limit - used - held)"
  shows "used + (held + a) \<le> limit + half_ulp"
    and "on_grid 8 limit \<Longrightarrow> on_grid 8 used \<Longrightarrow> on_grid 8 held \<Longrightarrow> used + (held + a) \<le> limit"
  using assms round8_le [of "limit - used - held"] by simp_all

lemma reserve_inv:
  assumes "budget_inv db" and "reserve sha now settings new_id db req = Inr (db', out)"
  shows "budget_inv db'"
proof (cases out)
  case None
  with assms reserve_none show ?thesis by blast
next
  case (Some row)
  with assms reserve_taken [of db sha now settings new_id req db' row] show ?thesis
    by (auto intro: hold_taken_inv simp: request_amount_def amount_pos)
qed

section \<open>Growing a hold\<close>

lemma update_reservation_frame [simp]:
  "users (update_reservation rid f db) = users db" "api_keys (update_reservation rid f db) = api_keys db"
  by (simp_all add: update_reservation_def)

lemma grow_hold_inv:
  assumes inv: "budget_inv db" and row: "fetch r_id (r_id row) (reservations db) = Some row"
    and st: "r_status row = STATUS_HELD" and lock: "lock_subject db (r_subject_type row) (r_subject_id row)"
    and held: "held = held_sum db (r_subject_type row) (r_subject_id row)" and t: "0 \<le> target"
  shows "budget_inv (fst (grow_hold db row (r_reserved_usd row) held target))"
proof -
  let ?st = "r_subject_type row" and ?sid = "r_subject_id row" and ?f = "\<lambda>r. r\<lparr>r_reserved_usd := round8 target\<rparr>"
  let ?db1 = "update_reservation (r_id row) ?f db"
  have wf: "wf_db db" and ce: "counters_exact db" and ks: "keys_started db"
    using inv by (simp_all add: budget_inv_def)
  have "row \<in> set (reservations db)" using fetch_SomeD [OF row] by simp
  then have ok: "hold_ok row" using wf by (simp add: wf_db_def list_all_iff)
  have sums: "held_sum ?db1 a b = held_sum db a b
      + (if a = ?st \<and> b = ?sid then round8 target - r_reserved_usd row else 0)" for a b
    using held_sum_update [OF wf row, of ?f a b] st by (auto simp: held_row_def)
  have grid: "on_grid 8 held" "on_grid 8 (r_reserved_usd row)"
    using held_sum_on_grid [OF wf] ok by (simp_all add: held hold_ok_def)
  have "wf_db ?db1" using wf t py_round_nonneg
    by (intro wf_update_reservation) (auto simp: hold_ok_def)
  moreover have "counters_exact (set_subject_reserved ?db1 ?st ?sid (round8 (held + round8 target - r_reserved_usd row)))"
    using grid by (intro counters_exact_write [OF ce]) (auto simp: sums held)
  moreover have "keys_started ?db1"
    using ks by (auto simp: keys_started_def update_reservation_def list_all_iff list_ex_iff set_modify held_row_def)
  ultimately show ?thesis
    unfolding grow_hold_def Let_def by (simp add: budget_inv_def keys_started_set_reserved)
qed

lemma grow_hold_balance:
  assumes inv: "budget_inv db" and row: "fetch r_id (r_id row) (reservations db) = Some row"
    and lock: "lock_subject db (r_subject_type row) (r_subject_id row)"
    and held: "held = held_sum db (r_subject_type row) (r_subject_id row)"
    and g: "grow_hold db row (r_reserved_usd row) held target = (db', Some g)"
  shows "g = round8 target"
    and "fetch r_id (r_id row) (reservations db') = Some (row\<lparr>r_reserved_usd := g\<rparr>)"
    and "subject_limit db' (r_subject_type row) (r_subject_id row) = subject_limit db (r_subject_type row) (r_subject_id row)"
    and "subject_used db' (r_subject_type row) (r_subject_id row) = subject_used db (r_subject_type row) (r_subject_id row)"
    and "subject_held db' (r_subject_type row) (r_subject_id row) = held + (g - r_reserved_usd row)"
proof -
  let ?st = "r_subject_type row" and ?sid = "r_subject_id row"
  let ?db1 = "update_reservation (r_id row) (\<lambda>r. r\<lparr>r_reserved_usd := g\<rparr>) db"
  have wf: "wf_db db" using inv by (simp add: budget_inv_def)
  from fetch_SomeD [OF row] wf have "on_grid 8 (r_reserved_usd row)" by (simp add: wf_db_def list_all_iff hold_ok_def)
  then have rnd: "round8 (held + round8 target - r_reserved_usd row) = held + (round8 target - r_reserved_usd row)"
    using held_sum_on_grid [OF wf] by (simp add: held add_diff_eq)
  show geq: "g = round8 target" using g by (simp add: grow_hold_def Let_def)
  have db': "db' = set_subject_reserved ?db1 ?st ?sid (held + (g - r_reserved_usd row))"
    using g rnd by (auto simp: grow_hold_def Let_def)
  have same: "locked_subject ?db1 a b = locked_subject db a b" for a b
    by (simp add: locked_subject_def split: subject_type.split)
  show "fetch r_id (r_id row) (reservations db') = Some (row\<lparr>r_reserved_usd := g\<rparr>)"
    using row by (simp add: db' update_reservation_def fetch_modify)
  show "subject_limit db' ?st ?sid = subject_limit db ?st ?sid" "subject_used db' ?st ?sid = subject_used db ?st ?sid"
    "subject_held db' ?st ?sid = held + (g - r_reserved_usd row)"
    using lock unfolding db' subject_set_reserved by (simp_all add: subject_limit_def subject_used_def lock_subject_def same)
qed

text \<open>A subject that nothing bounds: an API key without a credit limit.\<close>

definition uncapped :: "db \<Rightarrow> subject_type \<Rightarrow> int \<Rightarrow> bool" where
  "uncapped db st sid \<longleftrightarrow> st = SUBJECT_ALPHA_ROUTER_KEY \<and> subject_limit db st sid \<le> 0"

lemma locked_balance:
  assumes "locked_subject db st sid = Some subject" and "subject_balance subject = (l, u, h)"
  shows "subject_limit db st sid = l" "subject_used db st sid = u" "subject_held db st sid = h"
    "(case subject of Subj_Key _ \<Rightarrow> l \<le> 0 | Subj_User _ \<Rightarrow> False) \<longleftrightarrow> uncapped db st sid"
  using assms by (auto simp: subject_limit_def subject_used_def subject_held_def uncapped_def locked_subject_def
      split: subject_type.splits option.splits)

lemma extend_hold_exact:
  assumes inv: "budget_inv db" and row: "fetch r_id rid (reservations db) = Some row"
    and lock: "lock_subject db (r_subject_type row) (r_subject_id row)"
    and held: "r_status row = STATUS_HELD" and rid: "rid \<noteq> []"
    and h: "h = subject_held db (r_subject_type row) (r_subject_id row)"
    and free: "free = round8 (subject_limit db (r_subject_type row) (r_subject_id row)
       - subject_used db (r_subject_type row) (r_subject_id row) - h)"
  shows "extend_hold db (Some rid) (Some n) =
     (if round8 n \<le> r_reserved_usd row then (db, Some (r_reserved_usd row))
      else if uncapped db (r_subject_type row) (r_subject_id row)
      then grow_hold db row (r_reserved_usd row) h (max (round8 n) (2 * r_reserved_usd row))
      else if free < round8 n - r_reserved_usd row
      then (fst (reconcile_subject_reserved db (r_subject_type row) (r_subject_id row)), None)
      else grow_hold db row (r_reserved_usd row) h
        (min (max (round8 n) (2 * r_reserved_usd row)) (r_reserved_usd row + free)))"
proof -
  let ?st = "r_subject_type row" and ?sid = "r_subject_id row"
  have wf: "wf_db db" using inv by (simp add: budget_inv_def)
  from fetch_SomeD [OF row] wf have grid: "on_grid 8 (r_reserved_usd row)"
    by (simp add: wf_db_def list_all_iff hold_ok_def)
  obtain subject where s: "locked_subject db ?st ?sid = Some subject" using lock by (auto simp: lock_subject_def)
  obtain l u h' where b: "subject_balance subject = (l, u, h')" by (rule prod_cases3)
  note bal = locked_balance [OF s b]
  obtain dbr where rec: "reconcile_subject_reserved db ?st ?sid = (dbr, h)"
    using reconcile_eq [OF wf] counters_exact_held [OF _ lock] inv by (simp add: h budget_inv_def)
  have pre: "lock_subject_then_reservation db rid = Some row"
    using row lock by (simp add: lock_then_reservation_Some)
  have h': "h' = h" using bal(3) h by simp
  have fr: "round8 (l - u - h) = free" using bal free by simp
  show ?thesis
    using rid held grid
    by (simp add: extend_hold_def pre s b h' bal(4) fr Let_def rec)
qed

lemma extend_hold_idle:
  assumes "\<nexists>rid n row. i = Some rid \<and> m = Some n \<and> rid \<noteq> [] \<and> fetch r_id rid (reservations db) = Some row \<and>
    lock_subject db (r_subject_type row) (r_subject_id row) \<and> r_status row = STATUS_HELD"
  shows "extend_hold db i m = (db, None)"
  using assms by (cases i; cases m)
    (auto simp: extend_hold_def Let_def lock_subject_then_reservation_def lock_reservation_def
      split: option.split)

lemma extend_hold_inv:
  assumes inv: "budget_inv db"
  shows "budget_inv (fst (extend_hold db i m))"
proof (cases "\<exists>rid n row. i = Some rid \<and> m = Some n \<and> rid \<noteq> [] \<and> fetch r_id rid (reservations db) = Some row \<and>
    lock_subject db (r_subject_type row) (r_subject_id row) \<and> r_status row = STATUS_HELD")
  case False
  with inv show ?thesis by (simp add: extend_hold_idle)
next
  case True
  then obtain rid n row where e: "i = Some rid" "m = Some n" "rid \<noteq> []" and row: "fetch r_id rid (reservations db) = Some row"
    and lock: "lock_subject db (r_subject_type row) (r_subject_id row)" and held: "r_status row = STATUS_HELD"
    by blast
  let ?st = "r_subject_type row" and ?sid = "r_subject_id row"
  have wf: "wf_db db" using inv by (simp add: budget_inv_def)
  have rid: "r_id row = rid" and "hold_ok row"
    using fetch_SomeD [OF row] wf by (auto simp: wf_db_def list_all_iff)
  then have nn: "0 \<le> r_reserved_usd row" by (simp add: hold_ok_def)
  have h: "subject_held db ?st ?sid = held_sum db ?st ?sid"
    using inv counters_exact_held [OF _ lock] by (simp add: budget_inv_def)
  have grow: "budget_inv (fst (grow_hold db row (r_reserved_usd row) (held_sum db ?st ?sid) t))" if "0 \<le> t" for t
    using row rid by (intro grow_hold_inv [OF inv _ held lock refl that]) simp
  show ?thesis
    unfolding e extend_hold_exact [OF inv row lock held e(3) refl refl] h
    using nn by (auto intro!: grow inv reconcile_inv)
qed

section \<open>Properties of admission\<close>

text \<open>
  C10: whatever the database and the request, a reservation that is granted leaves the
  subject with used plus reserved within its limit, up to the half unit of the eighth decimal
  that the balance test itself rounds away, and exactly within it when limit and use are
  multiples of \<open>10\<^sup>-\<^sup>8\<close>. Only an API key without a limit is exempt. The budget invariant is kept.
\<close>

theorem reserve_within_limit:
  assumes "budget_inv db" and "reserve sha now settings new_id db req = Inr (db', Some row)"
  shows "budget_inv db' \<and>
    (uncapped db' (r_subject_type row) (r_subject_id row) \<or>
     (let used = subject_used db' (r_subject_type row) (r_subject_id row);
          held = subject_held db' (r_subject_type row) (r_subject_id row);
          limit = subject_limit db' (r_subject_type row) (r_subject_id row)
      in used + held \<le> limit + half_ulp \<and>
         (on_grid 8 limit \<longrightarrow> on_grid 8 used \<longrightarrow> used + held \<le> limit)))"
proof -
  from reserve_taken [OF assms] obtain st sid db1 a key where
    t: "hold_taken now settings new_id st sid key req (request_amount req) db1 a db' row" by blast
  have grid: "on_grid 8 (request_amount req)" and pos: "0 < request_amount req"
    by (simp_all add: request_amount_def amount_pos)
  note bal = hold_taken_balance [OF t grid pos]
  have row: "r_subject_type row = st" "r_subject_id row = sid" and inv1: "budget_inv db1" and lock: "lock_subject db1 st sid"
    using t by (simp_all add: hold_taken_def)
  have hg: "on_grid 8 (subject_held db1 st sid)"
    using inv1 counters_exact_held [OF _ lock] held_sum_on_grid by (simp add: budget_inv_def)
  have "uncapped db' st sid \<or> a \<le> round8 (subject_limit db1 st sid - subject_used db1 st sid - subject_held db1 st sid)"
    using t evaluate_hold_bound(1) [OF _ grid] bal by (auto simp: hold_taken_def uncapped_def)
  then show ?thesis
    using headroom_bound [of a] hg hold_taken_inv [OF t grid pos] unfolding row bal Let_def by auto
qed

text \<open>
  What a granted hold is worth. The request's amount is raised to a hundredth of a
  cent and rounded; an operation of known cost takes all of it, and an estimated one takes at
  most that and at least that less the configured tolerance, never nothing. The row is open and
  expires after the configured time to live, between 15 minutes and a day.
\<close>

theorem reserve_policy:
  assumes "budget_inv db" and "reserve sha now settings new_id db req = Inr (db', Some row)"
  shows "request_subject req = Some (r_subject_type row, r_subject_id row) \<and>
    0 < r_reserved_usd row \<and> r_reserved_usd row \<le> request_amount req \<and>
    request_amount req - r_reserved_usd row \<le> soft_overshoot_tolerance settings \<and>
    (\<not> rq_cost_is_estimated req \<longrightarrow> r_reserved_usd row = request_amount req) \<and>
    r_status row = STATUS_HELD \<and> row \<in> set (reservations db') \<and>
    now + seconds 900 \<le> r_expires_at row \<and> r_expires_at row \<le> now + seconds 86400"
proof -
  from reserve_taken [OF assms] obtain st sid db1 a key where
    req: "request_subject req = Some (st, sid)" and
    t: "hold_taken now settings new_id st sid key req (request_amount req) db1 a db' row" by blast
  have "on_grid 8 (request_amount req)" and "0 < request_amount req"
    by (simp_all add: request_amount_def amount_pos)
  note amt = hold_taken_amount [OF t this]
  show ?thesis
    using amt t req by (auto simp: hold_taken_def reservation_ttl_def seconds_def Let_def)
qed

text \<open>
  A refusal of the admission test is final only after the reserved counter was
  compared with the open holds: whatever the counter says, the hold does not fit the balance
  that the open holds leave, nor the one the counter leaves.
\<close>

theorem admit_refusal_checked:
  assumes "wf_db db" and "admit_hold settings db st sid amount limit used held est base scope = Inl e"
    and "0 \<le> held"
  shows "evaluate_hold settings est amount limit used held = None \<and>
    (held_sum db st sid < held \<longrightarrow> evaluate_hold settings est amount limit used (held_sum db st sid) = None) \<and>
    e = HTTPException 402 (exhausted_detail amount limit used (min held (held_sum db st sid)) base scope)"
proof -
  have nn: "0 \<le> held_sum db st sid" using assms(1) by (rule held_sum_nonneg)
  show ?thesis
    using assms(2,3) nn by (auto simp: admit_hold_def Let_def reconcile_eq [OF assms(1)] min_def
        split: if_splits option.splits)
qed

lemma idempotency_keys_released:
  "wf_db db \<Longrightarrow> map r_idempotency_key (reservations (fst (release_open_holds_for_subject now db st sid)))
    = map r_idempotency_key (reservations db)"
  by (simp add: release_open_holds_reservations released_as_def)

lemma idempotency_keys_period:
  assumes "budget_inv db"
  shows "existing_reservation (ensure_budget_period now db u) key = None \<longleftrightarrow> existing_reservation db key = None"
    and "existing_reservation (maybe_reset_key_period now db kid) key = None \<longleftrightarrow> existing_reservation db key = None"
proof -
  have wf: "wf_db db" using assms by (simp add: budget_inv_def)
  have "map r_idempotency_key (reservations (ensure_budget_period now db u)) = map r_idempotency_key (reservations db)"
    "map r_idempotency_key (reservations (maybe_reset_key_period now db kid)) = map r_idempotency_key (reservations db)"
    by (simp_all add: ensure_budget_period_def sync_budget_def roll_period_def maybe_reset_key_period_def Let_def
        idempotency_keys_released [OF wf] split: option.split)
  then show "existing_reservation (ensure_budget_period now db u) key = None \<longleftrightarrow> existing_reservation db key = None"
    "existing_reservation (maybe_reset_key_period now db kid) key = None \<longleftrightarrow> existing_reservation db key = None"
    by (simp_all only: existing_None)
qed

text \<open>
  A request whose scoped idempotency key is already in the table is never granted again,
  whatever became of the first hold; for an active user the answer is 409.
\<close>

theorem duplicate_refused:
  assumes "budget_inv db" and "request_subject req = Some (st, sid)"
    and "existing_reservation db (scoped_idempotency_key sha st sid (rq_idempotency_key req)) \<noteq> None"
  shows "isl (reserve sha now settings new_id db req) \<and>
    (st = SUBJECT_USER \<and> (case fetch u_id sid (users db) of Some u \<Rightarrow> u_is_active u | None \<Rightarrow> False) \<longrightarrow>
       reserve sha now settings new_id db req = Inl duplicate_key_error)"
proof (cases "rq_alpha_router_api_key_id req")
  case (Some kid)
  with assms(2) have st: "st = SUBJECT_ALPHA_ROUTER_KEY" "sid = kid" by (simp_all add: request_subject_def)
  have "db1 = maybe_reset_key_period now db kid" if "ensure_key_usable now db kid = Inr db1" for db1
    using that by (auto simp: ensure_key_usable_def Let_def split: option.splits prod.splits if_splits)
  with assms(3) idempotency_keys_period(2) [OF assms(1)] Some st show ?thesis
    by (auto simp: reserve_def reserve_key_def Let_def split: option.split sum.split)
next
  case None
  with assms(2) have st: "st = SUBJECT_USER" "rq_user_id req = Some sid" by (auto simp: request_subject_def)
  with assms(3) idempotency_keys_period(1) [OF assms(1)] None show ?thesis
    by (auto simp: reserve_def reserve_user_def Let_def split: option.split)
qed


section \<open>Properties of the scoped idempotency key\<close>

lemma scoped_prefix_inj:
  assumes "st \<in> {SUBJECT_USER, SUBJECT_ALPHA_ROUTER_KEY}" "st' \<in> {SUBJECT_USER, SUBJECT_ALPHA_ROUTER_KEY}"
    and "subject_type_text st @ '':'' @ show_int sid @ '':'' @ key = subject_type_text st' @ '':'' @ show_int sid' @ '':'' @ key'"
  shows "st = st' \<and> sid = sid' \<and> key = key'"
proof -
  have "st = st'" using assms by auto
  with assms(3) have "show_int sid @ CHR '':'' # key = show_int sid' @ CHR '':'' # key'" by simp
  from sep_split_inj [OF this] show ?thesis using \<open>st = st'\<close> by (auto dest: show_int_inj)
qed

lemma scoped_long:
  assumes "\<And>t. length (sha t) = 64" and "length (subject_type_text st @ '':'' @ show_int sid @ '':'') \<le> 95"
    and "160 < length (subject_type_text st @ '':'' @ show_int sid @ '':'' @ key)"
  shows "\<exists>front. length front = 96 \<and> scoped_idempotency_key sha st sid key
    = front @ sha (subject_type_text st @ '':'' @ show_int sid @ '':'' @ key)"
proof -
  define p where "p = subject_type_text st @ '':'' @ show_int sid @ '':''"
  have p: "length p \<le> 95" "160 < length p + length key" using assms(2,3) by (simp_all add: p_def)
  let ?head = "take (95 - length p) key"
  have len: "length (p @ ?head @ ''~'') = 96" using p by simp
  have room: "nat (95 - int (length p)) = 95 - length p" by simp
  have "scoped_idempotency_key sha st sid key = take 160 ((p @ ?head @ ''~'') @ sha (p @ key))"
    unfolding scoped_idempotency_key_def SCOPED_KEY_MAX_def Let_def p_def [symmetric]
    using p assms(1) room by simp
  also have "\<dots> = (p @ ?head @ ''~'') @ sha (p @ key)" using len assms(1) by (intro take_all) simp
  finally show ?thesis using len by (intro exI [of _ "p @ ?head @ ''~''"]) (simp add: p_def)
qed

text \<open>
  The scoped key fits its column of 160 characters. For users and keys, two texts that
  fit give the same scoped key only if subject and text are the same, and two texts that are too
  long only if the digests of the scoped texts are the same.
\<close>

theorem scoped_key_unique:
  assumes "st \<in> {SUBJECT_USER, SUBJECT_ALPHA_ROUTER_KEY}" "st' \<in> {SUBJECT_USER, SUBJECT_ALPHA_ROUTER_KEY}"
    and "\<And>t. length (sha t) = 64"
    and "length (subject_type_text st @ '':'' @ show_int sid @ '':'') \<le> 95"
    and "length (subject_type_text st' @ '':'' @ show_int sid' @ '':'') \<le> 95"
    and "scoped_idempotency_key sha st sid key = scoped_idempotency_key sha st' sid' key'"
    and "length (subject_type_text st @ '':'' @ show_int sid @ '':'' @ key) \<le> 160
      \<longleftrightarrow> length (subject_type_text st' @ '':'' @ show_int sid' @ '':'' @ key') \<le> 160"
  shows "length (scoped_idempotency_key sha st sid key) \<le> 160 \<and>
    (if length (subject_type_text st @ '':'' @ show_int sid @ '':'' @ key) \<le> 160
     then st = st' \<and> sid = sid' \<and> key = key'
     else sha (subject_type_text st @ '':'' @ show_int sid @ '':'' @ key)
        = sha (subject_type_text st' @ '':'' @ show_int sid' @ '':'' @ key'))"
proof -
  have len: "length (scoped_idempotency_key sha st sid key) \<le> 160"
    unfolding scoped_idempotency_key_def SCOPED_KEY_MAX_def Let_def
    by (auto simp only: length_take min.cobounded2 split: if_splits)
  show ?thesis
  proof (cases "length (subject_type_text st @ '':'' @ show_int sid @ '':'' @ key) \<le> 160")
    case True
    with assms(6,7) have "subject_type_text st @ '':'' @ show_int sid @ '':'' @ key
        = subject_type_text st' @ '':'' @ show_int sid' @ '':'' @ key'"
      by (simp add: scoped_idempotency_key_def SCOPED_KEY_MAX_def Let_def)
    from scoped_prefix_inj [OF assms(1,2) this] True len show ?thesis by simp
  next
    case False
    with assms(7) have "160 < length (subject_type_text st @ '':'' @ show_int sid @ '':'' @ key)"
      "160 < length (subject_type_text st' @ '':'' @ show_int sid' @ '':'' @ key')" by simp_all
    from scoped_long [of sha, OF assms(3,4) this(1)] scoped_long [of sha, OF assms(3,5) this(2)] assms(6) len False
    show ?thesis by auto
  qed
qed

section \<open>Worked examples\<close>

text \<open>User 1 has 10 dollars, has used 4 and has an open hold of 2; a plan keeps the budget at 10.\<close>

definition admission_example :: db where
  "admission_example = empty_db\<lparr>
     users := [(sample_user 1 10 4)\<lparr>u_budget_reserved_usd := 2\<rparr>],
     plans := [\<lparr>p_id = 1, p_name = ''p'', p_monthly_budget_usd = 10\<rparr>],
     assignments := [\<lparr>pa_id = 1, pa_plan_id = Some 1, pa_user_id = Some 1, pa_group_id = None, pa_department = None\<rparr>],
     reservations := [sample_hold ''h'' SUBJECT_USER 1 2 (seconds 100)]\<rparr>"

definition sample_settings :: budget_settings where
  "sample_settings = \<lparr>budget_soft_overshoot_usd = 1 / 2, budget_reservation_ttl_seconds = 7200\<rparr>"

definition sample_request :: "rat \<Rightarrow> bool \<Rightarrow> reserve_request" where
  "sample_request amount est = \<lparr>rq_user_id = Some 1, rq_alpha_router_api_key_id = None, rq_amount_usd = amount,
     rq_operation = ''chat'', rq_model_id = ''m'', rq_idempotency_key = ''k'', rq_cost_is_estimated = est\<rparr>"

definition sample_sha :: "string \<Rightarrow> string" where
  "sample_sha s = replicate 64 CHR ''0''"

definition sample_reserve :: "rat \<Rightarrow> bool \<Rightarrow> db \<times> reservation option" where
  "sample_reserve amount est = projr (reserve sample_sha 5 sample_settings ''n'' admission_example (sample_request amount est))"

theorem reserve_within_limit_witness:
  "subject_used (fst (sample_reserve (17 / 4) True)) SUBJECT_USER 1
     + subject_held (fst (sample_reserve (17 / 4) True)) SUBJECT_USER 1 = 10"
  using reserve_within_limit [of admission_example sample_sha 5 sample_settings "''n''" "sample_request (17 / 4) True"
      "fst (sample_reserve (17 / 4) True)" "the (snd (sample_reserve (17 / 4) True))"]
  by code_simp

theorem reserve_policy_witness:
  "r_reserved_usd (the (snd (sample_reserve 3 False))) = 3 \<and> r_reserved_usd (the (snd (sample_reserve (17 / 4) True))) = 4"
  using reserve_policy [of admission_example sample_sha 5 sample_settings "''n''" "sample_request 3 False"
      "fst (sample_reserve 3 False)" "the (snd (sample_reserve 3 False))"]
  by code_simp

theorem admit_refusal_checked_witness:
  "evaluate_hold sample_settings False 5 10 4 2 = None"
  using admit_refusal_checked [of admission_example sample_settings SUBJECT_USER 1 5 10 4 2 False "''b''" "''s''"
      "HTTPException 402 (exhausted_detail 5 10 4 2 ''b'' ''s'')"]
  by code_simp

theorem duplicate_refused_witness:
  "reserve sample_sha 5 sample_settings ''n2'' (fst (sample_reserve 3 False)) (sample_request 1 False)
    = Inl duplicate_key_error"
  using duplicate_refused [of "fst (sample_reserve 3 False)" "sample_request 1 False" SUBJECT_USER 1 sample_sha 5
      sample_settings "''n2''"]
  by code_simp


theorem scoped_key_unique_witness:
  "length (scoped_idempotency_key sample_sha SUBJECT_USER 1 ''k'') \<le> 160"
  using scoped_key_unique [of SUBJECT_USER SUBJECT_USER sample_sha 1 1 "''k''" "''k''"]
  by (simp add: sample_sha_def show_int_def show_nat.simps)

end
