(* ===== verification/Budget_System.thy ===== *)
theory Budget_System
  imports Budget_Admission
begin

text \<open>
  Spend control as a whole: every operation of the reservation, budget and key services as an
  event, and what holds of every sequence of them, in any order: the budget invariant, and that
  a hold that was closed stays exactly as it was closed.
\<close>

section \<open>Events\<close>

datatype budget_event =
    Reserve time string reserve_request
  | Extend "string option" "rat option"
  | Settle time string rat "int option"
  | Release time string bool
  | Expire_Stale time
  | Reconcile subject_type int
  | Drift_Sweep bool
  | Ensure_Period time int
  | Reset_Key_Period time int
  | Monthly_Reset time "int list \<Rightarrow> bool" "int \<Rightarrow> bool"
  | Record_Key_Usage time int rat
  | Assign_Group_Plan int int
  | Clear_Group_Plan int
  | Assign_User_Plan int int
  | Assign_No_Plan int
  | Clear_User_Plan int

text \<open>A request that raises is rolled back and leaves the database as it was.\<close>

definition commit :: "db \<Rightarrow> (db \<times> 'a) result \<Rightarrow> db" where
  "commit db r = (case r of Inl _ \<Rightarrow> db | Inr (db', _) \<Rightarrow> db')"

fun budget_step :: "(string \<Rightarrow> string) \<Rightarrow> budget_settings \<Rightarrow> db \<Rightarrow> budget_event \<Rightarrow> db" where
  "budget_step sha settings db (Reserve now new_id req) = commit db (reserve sha now settings new_id db req)"
| "budget_step sha settings db (Extend rid n) = fst (extend_hold db rid n)"
| "budget_step sha settings db (Settle now rid actual lid) = fst (settle now db rid actual lid)"
| "budget_step sha settings db (Release now rid expired) = fst (release now db rid expired)"
| "budget_step sha settings db (Expire_Stale now) = fst (expire_stale_reservations now db)"
| "budget_step sha settings db (Reconcile st sid) = fst (reconcile_subject_reserved db st sid)"
| "budget_step sha settings db (Drift_Sweep got) = fst (reconcile_drifted_reserved_counters got db)"
| "budget_step sha settings db (Ensure_Period now uid) =
     (case fetch u_id uid (users db) of None \<Rightarrow> db | Some u \<Rightarrow> ensure_budget_period now db u)"
| "budget_step sha settings db (Reset_Key_Period now kid) = maybe_reset_key_period now db kid"
| "budget_step sha settings db (Monthly_Reset now bf uf) = fst (reset_all_monthly_budgets now bf uf db)"
| "budget_step sha settings db (Record_Key_Usage now kid cost) = record_key_usage now db kid cost"
| "budget_step sha settings db (Assign_Group_Plan pid gid) = commit db (assign_plan_to_group_members db pid gid)"
| "budget_step sha settings db (Clear_Group_Plan gid) = commit db (clear_group_plan db gid)"
| "budget_step sha settings db (Assign_User_Plan uid pid) = upsert_user_plan db uid pid"
| "budget_step sha settings db (Assign_No_Plan uid) = upsert_user_no_plan db uid"
| "budget_step sha settings db (Clear_User_Plan uid) = clear_user_plan_override db uid"

section \<open>How a hold row may change\<close>

text \<open>
  The observation is the whole row. A row may appear, and an open row may change but keeps its
  identity; there is no edge out of a closed row.
\<close>

definition hold_edge :: "reservation option \<Rightarrow> reservation option \<Rightarrow> bool" where
  "hold_edge a b =
     (case a of
        None \<Rightarrow> b \<noteq> None
      | Some r \<Rightarrow> r_status r = STATUS_HELD \<and>
          (case b of None \<Rightarrow> False
           | Some r' \<Rightarrow> r_id r' = r_id r \<and> r_subject_type r' = r_subject_type r \<and>
               r_subject_id r' = r_subject_id r \<and> r_idempotency_key r' = r_idempotency_key r))"

definition closed_row :: "reservation option \<Rightarrow> bool" where
  "closed_row a = (case a of None \<Rightarrow> False | Some r \<Rightarrow> r_status r \<noteq> STATUS_HELD)"

definition hold_row :: "string \<Rightarrow> db \<Rightarrow> reservation option" where
  "hold_row rid db = fetch r_id rid (reservations db)"

definition hold_moves :: "db \<Rightarrow> db \<Rightarrow> bool" where
  "hold_moves db db' \<longleftrightarrow>
     (\<forall>rid. hold_row rid db' = hold_row rid db \<or> hold_edge (hold_row rid db) (hold_row rid db'))"

named_theorems moves_intros \<open>which operations move holds along edges only\<close>

lemma moves_same [moves_intros]: "reservations db' = reservations db \<Longrightarrow> hold_moves db db'"
  by (simp add: hold_moves_def hold_row_def)

lemma moves_refl [moves_intros]: "hold_moves db db"
  by (rule moves_same) simp

lemma hold_edge_trans: "hold_edge a b \<Longrightarrow> hold_edge b c \<Longrightarrow> hold_edge a c"
  by (auto simp: hold_edge_def split: option.splits)

lemma moves_trans: "hold_moves a b \<Longrightarrow> hold_moves b c \<Longrightarrow> hold_moves a c"
  unfolding hold_moves_def by (metis hold_edge_trans)

lemma moves_then_same: "hold_moves a b \<Longrightarrow> reservations c = reservations b \<Longrightarrow> hold_moves a c"
  by (blast intro: moves_trans moves_same)

lemma moves_close:
  assumes "fetch r_id (r_id row) (reservations db) = Some row" and "r_status row = STATUS_HELD" and "closing f"
  shows "hold_moves db (close_hold now db row actual f)"
  using assms by (auto simp: hold_moves_def hold_row_def fetch_close_hold hold_edge_def closing_def)

lemma moves_settle [moves_intros]: "hold_moves db (fst (settle now db rid actual lid))"
proof (cases rule: settle_cases [of now db rid actual lid])
  case (settled row f)
  then have "fetch r_id (r_id row) (reservations db) = Some row"
    by (metis fetch_key lock_then_reservation_Some)
  with settled show ?thesis by (simp add: moves_close)
qed (simp add: moves_refl)

lemma moves_release [moves_intros]: "hold_moves db (fst (release now db rid e))"
proof (cases rule: release_cases [of now db rid e])
  case (released row f)
  then have "fetch r_id (r_id row) (reservations db) = Some row"
    by (metis fetch_key lock_then_reservation_Some)
  with released show ?thesis by (simp add: moves_close)
qed (simp add: moves_refl)

lemma moves_release_each [moves_intros]: "hold_moves db (fst (release_each now db rids))"
  by (induction rids arbitrary: db) (auto simp: moves_refl split_beta intro: moves_trans moves_release)

lemma moves_release_open [moves_intros]: "hold_moves db (fst (release_open_holds_for_subject now db st sid))"
  unfolding release_open_holds_for_subject_def reconcile_subject_reserved_def Let_def split_beta fst_conv
  by (rule moves_then_same [OF moves_release_each]) simp

lemma moves_ensure_period [moves_intros]: "hold_moves db (ensure_budget_period now db u)"
  by (auto simp: ensure_budget_period_def sync_budget_def roll_period_def Let_def moves_refl
      intro: moves_then_same [OF moves_release_open] moves_same split: option.split)

lemma moves_key_period [moves_intros]: "hold_moves db (maybe_reset_key_period now db kid)"
  by (auto simp: maybe_reset_key_period_def moves_refl
      intro: moves_then_same [OF moves_release_open] moves_same split: option.split)

lemma moves_reset_one: "hold_moves db (reset_one now db uid b)"
  by (auto simp: reset_one_def intro: moves_then_same [OF moves_release_open])

lemma moves_reset_fold: "hold_moves db (foldl (\<lambda>d u. reset_one now d (u_id u) (b u)) db us)"
  by (induction us arbitrary: db) (auto simp: moves_refl intro: moves_trans moves_reset_one)

lemma moves_reset_individually: "hold_moves db (fst (reset_batch_individually now uf db ids))"
proof (induction ids arbitrary: db)
  case (Cons uid ids)
  let ?db1 = "fst (release_open_holds_for_subject now db SUBJECT_USER uid)"
  show ?case
  proof (cases "fetch u_id uid (users db)")
    case None
    with Cons show ?thesis by simp
  next
    case (Some user)
    let ?db2 = "update_user uid (apply_period_reset (month_start now) (resolve_monthly_budget ?db1 user)) ?db1"
    have "hold_moves db ?db2" by (rule moves_then_same [OF moves_release_open]) simp
    with Cons [of ?db2] Cons [of db] Some show ?thesis
      by (auto simp: Let_def split_beta intro: moves_trans)
  qed
qed (simp add: moves_refl)

lemma moves_reset_page: "hold_moves db (fst (reset_page now bf uf db us))"
  by (simp add: reset_page_def reset_batch_def Let_def moves_reset_individually moves_reset_fold)

lemma moves_reset_pages: "hold_moves db (fst (reset_pages now bf uf db last_id))"
proof (induction now bf uf db last_id rule: reset_pages.induct)
  case (1 now bf uf db last_id)
  show ?case
    by (subst reset_pages.simps)
       (auto simp: Let_def moves_refl intro: moves_reset_page moves_trans [OF moves_reset_page] 1)
qed

lemma moves_append: "reservations db' = reservations db @ [row] \<Longrightarrow> hold_moves db db'"
  by (auto simp: hold_moves_def hold_row_def fetch_append hold_edge_def split: option.split)

lemma admit_reservations:
  "admit_hold settings db st sid amount limit used held est base scope = Inr (db2, h, a) \<Longrightarrow>
     reservations db2 = reservations db"
  by (auto simp: admit_hold_def Let_def reconcile_subject_reserved_def split: if_splits option.splits)

lemma moves_insert:
  "insert_hold now settings new_id db st sid key req a = Inr (db', out) \<Longrightarrow> hold_moves db db'"
  by (auto simp: insert_hold_def Let_def intro: moves_append split: if_splits)

lemma moves_admitted:
  assumes "hold_moves db db1" and "reservations db2 = reservations db1"
    and "insert_hold now settings new_id (set_subject_reserved db2 st sid h) st' sid' key req a = Inr (db', out)"
  shows "hold_moves db db'"
  using assms moves_insert [OF assms(3)]
  by (metis moves_same moves_trans set_subject_reserved_frame(1))

lemma moves_reserve:
  assumes "reserve sha now settings new_id db req = Inr (db', out)"
  shows "hold_moves db db'"
proof (cases "rq_alpha_router_api_key_id req")
  case (Some kid)
  have u: "hold_moves db db1" if "ensure_key_usable now db kid = Inr db1" for db1
    using that moves_key_period
    by (auto simp: ensure_key_usable_def Let_def split: option.splits prod.splits if_splits)
  from assms Some obtain db1 db2 h a where "ensure_key_usable now db kid = Inr db1" "reservations db2 = reservations db1"
    "insert_hold now settings new_id (set_subject_reserved db2 SUBJECT_ALPHA_ROUTER_KEY kid h) SUBJECT_ALPHA_ROUTER_KEY kid
       (scoped_idempotency_key sha SUBJECT_ALPHA_ROUTER_KEY kid (rq_idempotency_key req)) req a = Inr (db', out)"
    by (auto simp: reserve_def reserve_key_def Let_def split: option.splits sum.splits if_splits
        dest: admit_reservations)
  then show ?thesis using moves_admitted [OF u] by blast
next
  case None
  then show ?thesis
    using assms
    by (auto simp: reserve_def reserve_user_def Let_def moves_refl split: option.splits sum.splits if_splits
        elim!: moves_admitted [OF moves_ensure_period] dest: admit_reservations)
qed

lemma moves_grow:
  assumes "fetch r_id (r_id row) (reservations db) = Some row" and "r_status row = STATUS_HELD"
  shows "hold_moves db (fst (grow_hold db row r h t))"
  using assms
  by (auto simp: grow_hold_def Let_def hold_moves_def hold_row_def update_reservation_def fetch_modify hold_edge_def)

lemma moves_reconcile: "hold_moves db (fst (reconcile_subject_reserved db st sid))"
  by (rule moves_same) (simp add: reconcile_subject_reserved_def Let_def)

lemma moves_extend:
  assumes inv: "budget_inv db"
  shows "hold_moves db (fst (extend_hold db i m))"
proof (cases "\<exists>rid n row. i = Some rid \<and> m = Some n \<and> rid \<noteq> [] \<and> fetch r_id rid (reservations db) = Some row \<and>
    lock_subject db (r_subject_type row) (r_subject_id row) \<and> r_status row = STATUS_HELD")
  case False
  then show ?thesis by (simp add: extend_hold_idle moves_refl)
next
  case True
  then obtain rid n row where e: "i = Some rid" "m = Some n" "rid \<noteq> []" and row: "fetch r_id rid (reservations db) = Some row"
    and lock: "lock_subject db (r_subject_type row) (r_subject_id row)" and held: "r_status row = STATUS_HELD"
    by blast
  have "fetch r_id (r_id row) (reservations db) = Some row" using row fetch_SomeD [OF row] by simp
  then show ?thesis
    unfolding e extend_hold_exact [OF inv row lock held e(3) refl refl]
    by (simp add: moves_refl moves_reconcile moves_grow held)
qed

section \<open>Every event keeps the invariant and moves holds along edges\<close>

lemma reconcile_each_reservations: "reservations (reconcile_each db st ds) = reservations db"
  by (induction db st ds rule: reconcile_each.induct) (simp_all add: reconcile_subject_reserved_def Let_def)

lemma moves_sweep: "hold_moves db (fst (reconcile_drifted_reserved_counters got db))"
  by (rule moves_same) (simp add: reconcile_drifted_reserved_counters_def Let_def reconcile_each_reservations)

lemma plan_frame:
  "reservations (upsert_user_plan db uid pid) = reservations db \<and> users (upsert_user_plan db uid pid) = users db \<and>
     api_keys (upsert_user_plan db uid pid) = api_keys db"
  "reservations (upsert_user_no_plan db uid) = reservations db \<and> users (upsert_user_no_plan db uid) = users db \<and>
     api_keys (upsert_user_no_plan db uid) = api_keys db"
  "reservations (clear_user_plan_override db uid) = reservations db \<and> users (clear_user_plan_override db uid) = users db \<and>
     api_keys (clear_user_plan_override db uid) = api_keys db"
  "reservations (upsert_group_plan db gid pid) = reservations db \<and> users (upsert_group_plan db gid pid) = users db \<and>
     api_keys (upsert_group_plan db gid pid) = api_keys db"
  by (simp_all add: upsert_user_plan_def upsert_user_no_plan_def clear_user_plan_override_def upsert_group_plan_def
      update_assignment_def add_assignment_def split: option.split)

lemma budget_inv_frame:
  assumes "reservations db' = reservations db \<and> users db' = users db \<and> api_keys db' = api_keys db"
  shows "budget_inv db' = budget_inv db"
  using assms by (simp add: budget_inv_def wf_db_def counters_exact_def keys_started_def held_sum_def)

lemma refresh_all_reservations: "reservations (foldl refresh_member db ids) = reservations db"
  by (induction ids arbitrary: db) simp_all

lemma clear_frame: "budget_inv (db\<lparr>assignments := as\<rparr>) = budget_inv db"
  by (rule budget_inv_frame) simp

lemma group_plan_inv:
  "budget_inv db \<Longrightarrow> budget_inv (commit db (assign_plan_to_group_members db pid gid))"
  "budget_inv db \<Longrightarrow> budget_inv (commit db (clear_group_plan db gid))"
  by (simp_all add: commit_def assign_plan_to_group_members_def clear_group_plan_def Let_def
      refresh_all_inv clear_frame budget_inv_frame [OF plan_frame(4)])

lemma group_plan_moves:
  "hold_moves db (commit db (assign_plan_to_group_members db pid gid))"
  "hold_moves db (commit db (clear_group_plan db gid))"
  by (simp_all add: commit_def assign_plan_to_group_members_def clear_group_plan_def Let_def moves_refl
      moves_same refresh_all_reservations plan_frame)

lemma budget_step_inv: "budget_inv db \<Longrightarrow> budget_inv (budget_step sha settings db e)"
  by (cases e)
     (auto simp: commit_def reserve_inv extend_hold_inv settle_inv release_inv expire_inv reconcile_inv
        drift_sweep_inv ensure_budget_period_inv maybe_reset_inv reset_all_monthly_budgets_def reset_pages_inv
        record_key_usage_inv group_plan_inv [unfolded commit_def] plan_frame budget_inv_frame [OF plan_frame(1)]
        budget_inv_frame [OF plan_frame(2)] budget_inv_frame [OF plan_frame(3)]
        split: sum.split option.split)

lemma budget_step_moves: "budget_inv db \<Longrightarrow> hold_moves db (budget_step sha settings db e)"
  by (cases e)
     (auto simp: commit_def moves_intros moves_extend moves_reconcile moves_sweep expire_stale_reservations_def
        reset_all_monthly_budgets_def moves_reset_pages record_key_usage_def
        group_plan_moves [unfolded commit_def] plan_frame
        intro: moves_reserve moves_then_same [OF moves_key_period] moves_same split: sum.split option.split)

interpretation budget: status_machine "budget_step sha settings" "\<lambda>_. True" budget_inv "hold_row rid" hold_edge closed_row
  for sha settings rid
proof unfold_locales
  fix e db
  assume "budget_inv db"
  then show "budget_inv (budget_step sha settings db e)" by (rule budget_step_inv)
next
  fix e db
  assume "budget_inv db" and "hold_row rid (budget_step sha settings db e) \<noteq> hold_row rid db"
  then show "hold_edge (hold_row rid db) (hold_row rid (budget_step sha settings db e))"
    using budget_step_moves [of db sha settings e] by (auto simp: hold_moves_def)
next
  fix x y
  assume "closed_row x"
  then show "\<not> hold_edge x y" by (auto simp: closed_row_def hold_edge_def split: option.splits)
qed

section \<open>Properties of every run\<close>

text \<open>
  C1: from a database in which every reserved counter is the sum of the subject's open
  holds, every sequence of operations, in any order and with any failures, ends in such a
  database: the counters never drift.
\<close>

theorem run_keeps_budget_inv:
  assumes "budget_inv db"
  shows "budget_inv (foldl (budget_step sha settings) db es)"
  using assms by (intro budget.run_inv) (simp_all add: list_all_iff)

text \<open>
  C3: a hold that was settled, released or expired keeps its row, its amounts included,
  through every later sequence of operations, and settling or releasing it again answers False
  and changes nothing.
\<close>

theorem closed_hold_final:
  assumes "budget_inv db" and "fetch r_id rid (reservations db) = Some row" and "r_status row \<noteq> STATUS_HELD"
  shows "(let db' = foldl (budget_step sha settings) db es
    in fetch r_id rid (reservations db') = Some row \<and>
       settle now db' rid actual lid = (db', False) \<and> release now db' rid expired = (db', False))"
proof -
  let ?db' = "foldl (budget_step sha settings) db es"
  have "hold_row rid ?db' = hold_row rid db"
    using assms by (intro budget.final_run) (simp_all add: list_all_iff hold_row_def closed_row_def)
  then have "fetch r_id rid (reservations ?db') = Some row" using assms(2) by (simp add: hold_row_def)
  with assms(3) show ?thesis
    by (auto simp: Let_def settle_def release_def lock_subject_then_reservation_def lock_reservation_def)
qed

lemma settle_effect:
  assumes inv: "budget_inv db" and row: "fetch r_id rid (reservations db) = Some row"
    and held: "r_status row = STATUS_HELD"
    and lock: "lock_subject db (r_subject_type row) (r_subject_id row)"
    and out: "settle now db rid actual lid = (db', ok)"
  shows "ok \<and> budget_inv db' \<and>
    fetch r_id rid (reservations db') = Some (row\<lparr>r_actual_usd := Some (max 0 actual), r_status := STATUS_SETTLED,
      r_request_log_id := lid, r_settled_at := Some now\<rparr>) \<and>
    subject_limit db' st sid = subject_limit db st sid \<and>
    (if st = r_subject_type row \<and> sid = r_subject_id row
     then subject_used db' st sid = round8 (subject_used db st sid + max 0 actual) \<and>
          subject_held db' st sid = subject_held db st sid - r_reserved_usd row
     else subject_used db' st sid = subject_used db st sid \<and>
          (lock_subject db st sid \<longrightarrow> subject_held db' st sid = subject_held db st sid))"
proof -
  let ?f = "\<lambda>r. r\<lparr>r_actual_usd := Some (max 0 actual), r_status := STATUS_SETTLED,
      r_request_log_id := lid, r_settled_at := Some now\<rparr>"
  have id: "r_id row = rid" using fetch_SomeD [OF row] by simp
  have f: "closing ?f" by (simp add: closing_def)
  have wf: "wf_db db" and ce: "counters_exact db" using inv by (simp_all add: budget_inv_def)
  have "settle now db rid actual lid = (close_hold now db row (Some (max 0 actual)) ?f, True)"
    using row held lock id by (simp add: settle_def lock_subject_then_reservation_def lock_reservation_def
        close_hold_def Let_def)
  with out have db': "db' = close_hold now db row (Some (max 0 actual)) ?f" and ok: "ok" by simp_all
  have inv': "budget_inv db'" using settle_inv [OF inv, of now rid actual lid] out by simp
  have "held_sum db' a b = held_sum db a b - (if a = r_subject_type row \<and> b = r_subject_id row then r_reserved_usd row else 0)" for a b
    unfolding db' using row id held_sum_close [OF wf _ held f] by simp
  moreover have l: "lock_subject db' a b = lock_subject db a b" for a b
    by (rule lock_subject_mono) (simp_all add: db')
  moreover have "subject_held db' a b = held_sum db' a b \<and> subject_held db a b = held_sum db a b" if "lock_subject db a b" for a b
    using that inv inv' l counters_exact_held by (simp add: budget_inv_def)
  ultimately show ?thesis
    using ok inv' lock row id subject_used_close [OF lock, of now "Some (max 0 actual)" ?f]
    by (auto simp: db' subject_limit_close fetch_close_hold [OF f])
qed

text \<open>
  C2: settling an open hold closes it with the actual cost, charges that cost to its
  subject once (rounded to eight decimals), gives back the whole hold, leaves the limit alone,
  and touches no other subject.
\<close>

theorem settle_charges_once:
  assumes inv: "budget_inv db" and row: "fetch r_id rid (reservations db) = Some row"
    and held: "r_status row = STATUS_HELD"
    and lock: "lock_subject db (r_subject_type row) (r_subject_id row)"
    and out: "settle now db rid actual lid = (db', ok)"
  shows "ok \<and> budget_inv db' \<and>
    fetch r_id rid (reservations db') = Some (row\<lparr>r_actual_usd := Some (max 0 actual), r_status := STATUS_SETTLED,
      r_request_log_id := lid, r_settled_at := Some now\<rparr>) \<and>
    subject_limit db' st sid = subject_limit db st sid \<and>
    (if st = r_subject_type row \<and> sid = r_subject_id row
     then subject_used db' st sid = round8 (subject_used db st sid + max 0 actual) \<and>
          subject_held db' st sid = subject_held db st sid - r_reserved_usd row
     else subject_used db' st sid = subject_used db st sid \<and>
          (lock_subject db st sid \<longrightarrow> subject_held db' st sid = subject_held db st sid))"
  by (rule settle_effect [OF assms])

text \<open>
  After the sweep of stale holds no hold of an existing subject is both open and past
  its expiry; every other row is untouched, nothing is charged, and the counters stay exact.
\<close>

theorem expiry_sweep:
  assumes inv: "budget_inv db"
  shows "let db' = fst (expire_stale_reservations now db)
    in budget_inv db' \<and>
       reservations db' = map (\<lambda>r. if r_status r = STATUS_HELD \<and> r_expires_at r < now \<and> lock_subject db (r_subject_type r) (r_subject_id r)
          then r\<lparr>r_status := STATUS_EXPIRED, r_settled_at := Some now\<rparr> else r) (reservations db) \<and>
       subject_used db' st sid = subject_used db st sid \<and> subject_limit db' st sid = subject_limit db st sid"
proof -
  let ?ids = "map r_id (filter (stale_hold now) (reservations db))"
  have wf: "wf_db db" using inv by (simp add: budget_inv_def)
  have stale: "r_id r \<in> set ?ids \<longleftrightarrow> stale_hold now r" if "r \<in> set (reservations db)" for r
    using that wf_db_id_inj [OF wf] by auto
  have "reservations (fst (expire_stale_reservations now db)) = map (released_as now True db (set ?ids)) (reservations db)"
    by (simp add: expire_stale_reservations_def release_each_reservations [OF wf])
  also have "\<dots> = map (\<lambda>r. if r_status r = STATUS_HELD \<and> r_expires_at r < now \<and> lock_subject db (r_subject_type r) (r_subject_id r)
          then r\<lparr>r_status := STATUS_EXPIRED, r_settled_at := Some now\<rparr> else r) (reservations db)"
    by (intro map_cong refl) (simp only: released_as_def stale, auto simp: stale_hold_def)
  finally show ?thesis
    using expire_inv [OF inv, of now] by (simp add: Let_def expire_stale_reservations_def)
qed

text \<open>
  From any well-formed database, however wrong its counters, one run of the drift sweep
  that gets its lock leaves no counter more than the tolerance above the subject's open holds;
  and where the counters are exact it changes nothing.
\<close>

theorem drift_sweep_repairs:
  assumes "wf_db db"
  shows "let db' = fst (reconcile_drifted_reserved_counters True db)
    in reservations db' = reservations db \<and>
       list_all (\<lambda>u. u_budget_reserved_usd u \<le> held_sum db SUBJECT_USER (u_id u) + drift_tolerance) (users db') \<and>
       list_all (\<lambda>k. k_period_reserved_usd k \<le> held_sum db SUBJECT_ALPHA_ROUTER_KEY (k_id k) + drift_tolerance) (api_keys db') \<and>
       (budget_inv db \<longrightarrow> db' = db)"
proof -
  let ?du = "drifted_subject_ids db SUBJECT_USER (user_counters db)"
  let ?db1 = "reconcile_each db SUBJECT_USER ?du"
  let ?dk = "drifted_subject_ids ?db1 SUBJECT_ALPHA_ROUTER_KEY (key_counters ?db1)"
  let ?db2 = "reconcile_each ?db1 SUBJECT_ALPHA_ROUTER_KEY ?dk"
  have wf1: "wf_db ?db1" using reconcile_each_frame [OF assms] by blast
  have hs: "held_sum ?db1 a b = held_sum db a b" for a b
    by (rule held_sum_reservations) (rule reconcile_each_reservations)
  have us: "users ?db2 = map (repair_user db (fst ` set ?du)) (users db)"
    using reconcile_each_users [OF assms] reconcile_each_keys [OF wf1] by simp
  have ks: "api_keys ?db2 = map (repair_key ?db1 (fst ` set ?dk)) (api_keys ?db1)"
    using reconcile_each_keys [OF wf1] by simp
  have eq: "fst (reconcile_drifted_reserved_counters True db) = ?db2"
    by (simp add: reconcile_drifted_reserved_counters_def Let_def)
  show ?thesis
    unfolding Let_def eq
    using repaired_users [OF assms] repaired_keys [OF wf1] drift_sweep_inv [of db True]
    by (simp add: us [symmetric] ks [symmetric] hs list_all_iff reconcile_each_reservations eq)
qed

text \<open>
  C12: the monthly reset reaches every user with a positive id, in pages of 500 and whatever
  pages fail, as long as the retry of a single user does not: each has nothing used, nothing
  reserved and the period of the current month, and the counters stay exact.
\<close>

theorem monthly_reset_complete:
  assumes "budget_inv db" and "u \<in> set (users (fst (reset_all_monthly_budgets now bf (\<lambda>_. False) db)))"
    and "0 < u_id u"
  shows "is_reset now u \<and> budget_inv (fst (reset_all_monthly_budgets now bf (\<lambda>_. False) db)) \<and>
    map u_id (users (fst (reset_all_monthly_budgets now bf (\<lambda>_. False) db))) = map u_id (users db)"
proof -
  let ?db' = "fst (reset_all_monthly_budgets now bf (\<lambda>_. False) db)"
  have inv: "budget_inv ?db'" using assms(1) by (simp add: reset_all_monthly_budgets_def reset_pages_inv)
  then have "fetch u_id (u_id u) (users ?db') = Some u"
    using assms(2) by (intro fetch_distinct) (simp_all add: budget_inv_def wf_db_def)
  then have "is_reset now u"
    using assms(1,3) unfolding reset_all_monthly_budgets_def by (intro reset_pages_fetch [of db "u_id u" now bf 0])
  with inv show ?thesis by (simp add: reset_all_monthly_budgets_def)
qed

lemma month_usage_cong:
  assumes "ledger db' = ledger db" "request_logs db' = request_logs db"
    and "Option.bind (fetch u_id uid (users db')) u_budget_period_start
       = Option.bind (fetch u_id uid (users db)) u_budget_period_start"
  shows "get_month_usage now db' uid = get_month_usage now db uid"
  using assms by (simp add: get_month_usage_def)

lemma update_user_logs [simp]:
  "ledger (update_user uid f db) = ledger db" "request_logs (update_user uid f db) = request_logs db"
  by (simp_all add: update_user_def)

text \<open>
  The first request of a new month closes all open holds of the user, restarts the
  reserved counter at zero, sets the use to what the ledger holds for the new period and
  stores the budget that the plans give now.
\<close>

theorem period_rollover:
  assumes inv: "budget_inv db" and u: "fetch u_id uid (users db) = Some u"
    and old: "period_is_old (month_start now) (u_budget_period_start u)"
  shows "let db' = ensure_budget_period now db u
    in budget_inv db' \<and> \<not> list_ex (held_row SUBJECT_USER uid) (reservations db') \<and>
       (case fetch u_id uid (users db') of None \<Rightarrow> False
        | Some u' \<Rightarrow> u_budget_reserved_usd u' = 0 \<and> u_budget_period_start u' = Some (month_start now) \<and>
            u_monthly_budget_usd u' = resolve_monthly_budget db' u' \<and>
            u_budget_used_usd u' = get_month_usage now db' uid)"
proof -
  let ?r = "fst (release_open_holds_for_subject now db SUBJECT_USER uid)"
  let ?s = "update_user uid (\<lambda>u. u\<lparr>u_budget_period_start := Some (month_start now)\<rparr>) ?r"
  let ?roll = "roll_period now db uid" and ?db' = "ensure_budget_period now db u"
  have id: "u_id u = uid" using fetch_SomeD [OF u] by simp
  have "\<exists>v. fetch u_id uid (users ?r) = Some v \<and> sans_reserved_u v = sans_reserved_u u"
    by (rule fetch_map_eq [OF release_open_holds_only_reserved(1) _ u]) (blast dest: sans_reserved_user)
  then obtain v where v: "fetch u_id uid (users ?r) = Some v" and "sans_reserved_u v = sans_reserved_u u" by blast
  then have vd: "u_department v = u_department u" "u_id v = uid"
    using sans_reserved_user [of v u] id by simp_all
  have db': "?db' = sync_budget ?roll u"
    using old u by (simp add: ensure_budget_period_def id)
  have roll: "fetch u_id uid (users ?roll) = Some (v\<lparr>u_budget_period_start := Some (month_start now),
      u_budget_used_usd := get_month_usage now ?s uid, u_budget_reserved_usd := 0\<rparr>)"
    using v by (simp add: roll_period_def Let_def fetch_update_user)
  then have u': "fetch u_id uid (users ?db') = Some (v\<lparr>u_budget_period_start := Some (month_start now),
      u_budget_used_usd := get_month_usage now ?s uid, u_budget_reserved_usd := 0,
      u_monthly_budget_usd := resolve_monthly_budget ?roll u\<rparr>)"
    by (simp add: db' sync_budget_def id fetch_update_user)
  have usage: "get_month_usage now ?db' uid = get_month_usage now ?s uid"
    using u' v by (intro month_usage_cong)
      (simp_all add: db' sync_budget_def roll_period_def Let_def fetch_update_user)
  have res: "resolve_monthly_budget ?db' w = resolve_monthly_budget ?roll u"
    if "u_id w = uid" "u_department w = u_department u" for w
    using that id by (intro resolve_cong) (simp_all add: db' sync_budget_def)
  have "\<not> list_ex (held_row SUBJECT_USER uid) (reservations ?r)"
    using inv u by (intro release_open_holds_none_held) (simp_all add: budget_inv_def lock_subject_user)
  then have "\<not> list_ex (held_row SUBJECT_USER uid) (reservations ?db')"
    by (simp add: db' sync_budget_def roll_period_def Let_def)
  with u' usage res vd ensure_budget_period_inv [OF inv, of now u] show ?thesis
    by (simp add: Let_def)
qed

section \<open>Worked examples\<close>

definition system_example :: db where
  "system_example = admission_example\<lparr>reservations := reservations admission_example @
     [(sample_hold ''old'' SUBJECT_USER 1 3 0)\<lparr>r_status := STATUS_SETTLED, r_actual_usd := Some 3\<rparr>]\<rparr>"

theorem run_keeps_budget_inv_witness:
  "budget_inv (foldl (budget_step sample_sha sample_settings) system_example
     [Reserve 5 ''n'' (sample_request 3 False), Settle 6 ''h'' 1 None])"
  using run_keeps_budget_inv [of system_example sample_sha sample_settings
      "[Reserve 5 ''n'' (sample_request 3 False), Settle 6 ''h'' 1 None]"]
  by code_simp

theorem closed_hold_final_witness:
  "snd (settle 7 (foldl (budget_step sample_sha sample_settings) system_example [Expire_Stale (seconds 200)]) ''old'' 1 None) = False"
  using closed_hold_final [of system_example "''old''" "reservations system_example ! 1" sample_sha sample_settings
      "[Expire_Stale (seconds 200)]" 7 1 None True]
  by code_simp

theorem settle_charges_once_witness:
  "subject_used (fst (settle 7 system_example ''h'' (3 / 2) None)) SUBJECT_USER 1 = 11 / 2"
  using settle_charges_once [of system_example "''h''" "hd (reservations system_example)" 7 "3 / 2" None
      "fst (settle 7 system_example ''h'' (3 / 2) None)" "snd (settle 7 system_example ''h'' (3 / 2) None)" SUBJECT_USER 1]
  by code_simp

theorem expiry_sweep_witness:
  "map r_status (reservations (fst (expire_stale_reservations (seconds 200) system_example))) = [STATUS_EXPIRED, STATUS_SETTLED]"
  using expiry_sweep [of system_example "seconds 200" SUBJECT_USER 1] by code_simp

theorem drift_sweep_repairs_witness:
  "map u_budget_reserved_usd (users (fst (reconcile_drifted_reserved_counters True
     (system_example\<lparr>users := [(sample_user 1 10 4)\<lparr>u_budget_reserved_usd := 5\<rparr>]\<rparr>)))) = [2]"
  using drift_sweep_repairs [of "system_example\<lparr>users := [(sample_user 1 10 4)\<lparr>u_budget_reserved_usd := 5\<rparr>]\<rparr>"]
  by code_simp

theorem monthly_reset_complete_witness:
  "is_reset (days 40) (hd (users (fst (reset_all_monthly_budgets (days 40) (\<lambda>_. True) (\<lambda>_. False) system_example))))"
  using monthly_reset_complete [of system_example "hd (users (fst (reset_all_monthly_budgets (days 40) (\<lambda>_. True) (\<lambda>_. False) system_example)))"
      "days 40" "\<lambda>_. True"]
  by code_simp

theorem period_rollover_witness:
  "map u_budget_reserved_usd (users (ensure_budget_period (days 40) system_example (hd (users system_example)))) = [0]"
  using period_rollover [of system_example 1 "hd (users system_example)" "days 40"] by code_simp

end
