(* ===== verification/Json.thy ===== *)
theory Json
  imports Router_Prelude
begin

text \<open>
  The values of JSON columns and messages, as the code reads them: dictionary access, Python's
  truth value of a JSON value, \<open>int(value or default)\<close> and \<open>float(value)\<close>, with the grammars of
  \<open>int(text)\<close> and \<open>float(text)\<close>. A number with a fraction or exponent is an exact rational;
  infinities and NaN are not values here.
\<close>

section \<open>Values\<close>

datatype json =
    JNull
  | JBool bool
  | JInt int
  | JFloat rat
  | JString string
  | JList "json list"
  | JObject "(string \<times> json) list"

type_synonym payload = "(string \<times> json) list"

definition dict_get :: "payload \<Rightarrow> string \<Rightarrow> json" where
  "dict_get d k = (case map_of d k of None \<Rightarrow> JNull | Some v \<Rightarrow> v)"

fun dict_set :: "string \<Rightarrow> json \<Rightarrow> payload \<Rightarrow> payload" where
  "dict_set k v [] = [(k, v)]"
| "dict_set k v ((k', v') # d) = (if k' = k then (k, v) # d else (k', v') # dict_set k v d)"

fun json_truthy :: "json \<Rightarrow> bool" where
  "json_truthy JNull \<longleftrightarrow> False"
| "json_truthy (JBool b) \<longleftrightarrow> b"
| "json_truthy (JInt i) \<longleftrightarrow> i \<noteq> 0"
| "json_truthy (JFloat r) \<longleftrightarrow> r \<noteq> 0"
| "json_truthy (JString s) \<longleftrightarrow> s \<noteq> []"
| "json_truthy (JList xs) \<longleftrightarrow> xs \<noteq> []"
| "json_truthy (JObject d) \<longleftrightarrow> d \<noteq> []"

lemma dict_get_set: "dict_get (dict_set k v d) k' = (if k' = k then v else dict_get d k')"
  by (induction k v d rule: dict_set.induct) (auto simp: dict_get_def)

section \<open>Integers\<close>

definition digit_value :: "char \<Rightarrow> int" where
  "digit_value c = of_char c - 48"

definition is_digit :: "char \<Rightarrow> bool" where
  "is_digit c \<longleftrightarrow> 0 \<le> digit_value c \<and> digit_value c \<le> 9"

text \<open>Digits with single underscores between them; the flag says that a digit has just been read.\<close>

fun read_digits :: "int \<Rightarrow> bool \<Rightarrow> string \<Rightarrow> int option" where
  "read_digits acc ok [] = (if ok then Some acc else None)"
| "read_digits acc ok (c # s) =
     (if is_digit c then read_digits (acc * 10 + digit_value c) True s
      else if c = CHR ''_'' \<and> ok then read_digits acc False s else None)"

definition parse_int :: "string \<Rightarrow> int option" where
  "parse_int text =
     (case strip text of
        [] \<Rightarrow> None
      | c # s \<Rightarrow>
          if c = CHR ''-'' then map_option uminus (read_digits 0 False s)
          else if c = CHR ''+'' then read_digits 0 False s
          else read_digits 0 False (c # s))"

definition py_int :: "json \<Rightarrow> int result" where
  "py_int v =
     (case v of
        JInt i \<Rightarrow> Inr i
      | JFloat r \<Rightarrow> Inr (if 0 \<le> r then \<lfloor>r\<rfloor> else \<lceil>r\<rceil>)
      | JBool b \<Rightarrow> Inr (of_bool b)
      | JString s \<Rightarrow> (case parse_int s of Some i \<Rightarrow> Inr i | None \<Rightarrow> Inl (ValueError ''invalid literal for int()''))
      | _ \<Rightarrow> Inl (TypeError ''int() argument''))"

definition int_or :: "int \<Rightarrow> json \<Rightarrow> int result" where
  "int_or d v = (if json_truthy v then py_int v else Inr d)"

lemma int_or_JInt [simp]: "int_or 0 (JInt i) = Inr i"
  by (simp add: int_or_def py_int_def)

lemma is_digit_char: "0 \<le> d \<Longrightarrow> d < 10 \<Longrightarrow> is_digit (digit_char d) \<and> digit_value (digit_char d) = d"
  by (simp add: is_digit_def digit_value_def of_digit_char)

lemma read_digits_append_digit:
  assumes "0 \<le> d" and "d < 10" and "read_digits acc ok s = Some i"
  shows "read_digits acc ok (s @ [digit_char d]) = Some (i * 10 + d)"
  using assms(3)
  by (induction acc ok s rule: read_digits.induct) (auto simp: is_digit_char [OF assms(1,2)] split: if_splits)

lemma read_digits_show_nat: "0 \<le> n \<Longrightarrow> read_digits 0 False (show_nat n) = Some n"
proof (induction n rule: show_nat.induct)
  case (1 n)
  show ?case
  proof (cases "n < 10")
    case True
    with 1(2) show ?thesis by (subst show_nat.simps) (simp add: is_digit_char)
  next
    case False
    with 1(1) [OF False] 1(2) have "read_digits 0 False (show_nat (n div 10)) = Some (n div 10)" by simp
    then have "read_digits 0 False (show_nat (n div 10) @ [digit_char (n mod 10)]) = Some (n div 10 * 10 + n mod 10)"
      by (intro read_digits_append_digit) simp_all
    with False show ?thesis by (subst show_nat.simps) simp
  qed
qed

lemma show_nat_no_space: "0 \<le> n \<Longrightarrow> c \<in> set (show_nat n) \<Longrightarrow> \<not> is_space c"
proof -
  assume "0 \<le> n" "c \<in> set (show_nat n)"
  from show_nat_digits [OF this] have "(of_char c :: nat) \<in> {48..57}"
    by (metis atLeastAtMost_iff of_nat_le_iff of_nat_numeral of_nat_of_char)
  then show ?thesis by (auto simp: is_space_def)
qed

lemma strip_no_space: "(\<And>c. c \<in> set s \<Longrightarrow> \<not> is_space c) \<Longrightarrow> strip s = s"
proof -
  assume ns: "\<And>c. c \<in> set s \<Longrightarrow> \<not> is_space c"
  have dw: "dropWhile is_space t = t" if "set t \<subseteq> set s" for t using that ns by (cases t) auto
  show ?thesis by (simp add: strip_def lstrip_def dw)
qed

text \<open>What Python prints for an integer it also reads back.\<close>

lemma parse_int_show_int: "parse_int (show_int i) = Some i"
proof (cases "i < 0")
  case True
  have "\<not> is_space c" if "c \<in> set (CHR ''-'' # show_nat (- i))" for c
    using that show_nat_no_space [of "- i" c] True by (auto simp: is_space_def)
  then have "strip (CHR ''-'' # show_nat (- i)) = CHR ''-'' # show_nat (- i)" by (rule strip_no_space)
  with True read_digits_show_nat [of "- i"] show ?thesis by (simp add: parse_int_def show_int_def)
next
  case False
  then have st: "strip (show_nat i) = show_nat i" using show_nat_no_space [of i] by (intro strip_no_space) auto
  obtain c s where cs: "show_nat i = c # s" by (cases "show_nat i") auto
  have "(of_char c :: int) \<in> {48..57}" using show_nat_digits [of i c] False cs by simp
  then have "c \<noteq> CHR ''-''" "c \<noteq> CHR ''+''" by auto
  with False st cs read_digits_show_nat [of i] show ?thesis by (simp add: parse_int_def show_int_def)
qed

section \<open>Floats\<close>

text \<open>\<open>str(value)\<close>; the text of floats, lists and objects is an argument.\<close>

definition json_str :: "(json \<Rightarrow> string) \<Rightarrow> json \<Rightarrow> string" where
  "json_str repr v =
     (case v of
        JString s \<Rightarrow> s
      | JInt i \<Rightarrow> show_int i
      | JBool b \<Rightarrow> if b then ''True'' else ''False''
      | JNull \<Rightarrow> ''None''
      | _ \<Rightarrow> repr v)"

definition json_or :: "json \<Rightarrow> json \<Rightarrow> json" where
  "json_or a b = (if json_truthy a then a else b)"

definition dict_update :: "payload \<Rightarrow> payload \<Rightarrow> payload" where
  "dict_update d e = foldl (\<lambda>a (k, v). dict_set k v a) d e"

text \<open>Underscores stand between two digits.\<close>

fun underscores_ok :: "bool \<Rightarrow> string \<Rightarrow> bool" where
  "underscores_ok p [] \<longleftrightarrow> True"
| "underscores_ok p (c # s) \<longleftrightarrow>
     (if c = CHR ''_'' then p \<and> (case s of [] \<Rightarrow> False | d # _ \<Rightarrow> is_digit d) \<and> underscores_ok False s
      else underscores_ok (is_digit c) s)"

definition digits_value :: "string \<Rightarrow> int" where
  "digits_value s = foldl (\<lambda>a c. a * 10 + digit_value c) 0 s"

definition parse_exponent :: "string \<Rightarrow> int option" where
  "parse_exponent text =
     (case text of
        [] \<Rightarrow> Some 0
      | c # s \<Rightarrow>
          let (neg, ds) = (case s of [] \<Rightarrow> (False, []) | d # r \<Rightarrow>
                             if d = CHR ''-'' then (True, r) else if d = CHR ''+'' then (False, r) else (False, s))
          in if (c = CHR ''e'' \<or> c = CHR ''E'') \<and> ds \<noteq> [] \<and> list_all is_digit ds
             then Some (if neg then - digits_value ds else digits_value ds) else None)"

definition scale10 :: "int \<Rightarrow> int \<Rightarrow> rat" where
  "scale10 m e = (if 0 \<le> e then of_int m * 10 ^ nat e else of_int m / 10 ^ nat (- e))"

definition parse_float :: "string \<Rightarrow> rat option" where
  "parse_float text =
     (let s = strip text; t = filter (\<lambda>c. c \<noteq> CHR ''_'') s;
          (neg, b) = (case t of [] \<Rightarrow> (False, []) | c # r \<Rightarrow>
                        if c = CHR ''-'' then (True, r) else if c = CHR ''+'' then (False, r) else (False, t));
          whole = takeWhile is_digit b; rest = dropWhile is_digit b;
          (frac, rest1) = (case rest of [] \<Rightarrow> ([], []) | c # r \<Rightarrow>
                             if c = CHR ''.'' then (takeWhile is_digit r, dropWhile is_digit r) else ([], rest))
      in if \<not> underscores_ok False s \<or> whole = [] \<and> frac = [] then None
         else (case parse_exponent rest1 of
                 None \<Rightarrow> None
               | Some e \<Rightarrow> (let m = digits_value (whole @ frac)
                           in Some (scale10 (if neg then - m else m) (e - int (length frac))))))"

text \<open>\<open>float(value)\<close>; \<open>None\<close> where it raises or gives no finite number.\<close>

definition py_float :: "json \<Rightarrow> rat option" where
  "py_float v =
     (case v of
        JInt i \<Rightarrow> Some (of_int i)
      | JFloat r \<Rightarrow> Some r
      | JBool b \<Rightarrow> Some (of_bool b)
      | JString s \<Rightarrow> parse_float s
      | _ \<Rightarrow> None)"

end
