(* ===== verification/Usage_Capture.thy ===== *)
theory Usage_Capture
  imports Money Json
begin

text \<open>
  What a provider's answer says was used, and what it cost
  (\<open>services/usage_accounting_service.py\<close>, first part): \<open>extract_normalized_usage\<close> reads tokens,
  metered quantities and reported costs from an answer, \<open>_catalog_quote\<close> prices them from the
  catalogue row of the model item by item, \<open>quote_usage\<close> chooses between the provider's own figure,
  the catalogue, LiteLLM's estimate and no price, and \<open>capture_usage_event\<close> makes the event that the
  ledger stores. An answer is a JSON document; an object of a client library is read through its
  attributes by the same names and is given here by the document of its attributes, with a flag
  where the code asks whether it is a dictionary. The copy of the raw usage that is kept for
  support is left out.
\<close>

section \<open>Data\<close>

record normalized_usage =
  nu_prompt_tokens :: int
  nu_completion_tokens :: int
  nu_cached_tokens :: int
  nu_cache_write_tokens :: int
  nu_reasoning_tokens :: int
  nu_web_search_requests :: int
  nu_metered_quantity :: "rat option"
  nu_metered_unit :: "string option"
  nu_provider_cost_usd :: "rat option"
  nu_litellm_cost_usd :: "rat option"
  nu_upstream_request_id :: json

record line_item_quote =
  li_category :: string
  li_quantity :: rat
  li_unit :: string
  li_unit_price_usd :: "rat option"
  li_cost_usd :: "rat option"
  li_pricing_source :: string
  li_metadata :: payload

record cost_quote =
  cq_provider_cost_usd :: "rat option"
  cq_calculated_cost_usd :: "rat option"
  cq_final_cost_usd :: "rat option"
  cq_cost_source :: string
  cq_cost_confidence :: string
  cq_line_items :: "line_item_quote list"
  cq_pricing_payload :: "payload option"
  cq_pricing_source :: "string option"

record pending_event =
  pe_provider_type :: string
  pe_service_type :: string
  pe_operation_name :: string
  pe_model_id :: "string option"
  pe_connection_id :: "int option"
  pe_attempt_index :: int
  pe_status :: string
  pe_usage :: normalized_usage
  pe_quote :: cost_quote
  pe_started_at :: time
  pe_completed_at :: time
  pe_idempotency_key :: string
  pe_quantity :: "rat option"
  pe_unit :: "string option"
  pe_error_message :: "string option"
  pe_pricing_snapshot_id :: "int option"

text \<open>A row of the model catalogue; \<open>am_pricing_raw\<close> is the parsed text, absent where it does not parse.\<close>

record ai_model =
  am_external_id :: string
  am_provider_type :: string
  am_connection_id :: "int option"
  am_input_cost_per_1k :: "rat option"
  am_output_cost_per_1k :: "rat option"
  am_pricing_raw :: "json option"

section \<open>Reading an answer\<close>

definition finite_float :: "json \<Rightarrow> rat option" where
  "finite_float v =
     (case v of
        JNull \<Rightarrow> None
      | JBool _ \<Rightarrow> None
      | _ \<Rightarrow> (case py_float v of None \<Rightarrow> None | Some r \<Rightarrow> if r < 0 then None else Some r))"

definition nonnegative_int :: "json \<Rightarrow> int" where
  "nonnegative_int v = (case int_or 0 v of Inl _ \<Rightarrow> 0 | Inr i \<Rightarrow> max 0 i)"

definition dictish :: "json \<Rightarrow> payload" where
  "dictish v = (case v of JObject d \<Rightarrow> d | _ \<Rightarrow> [])"

definition value_of :: "json \<Rightarrow> string \<Rightarrow> json" where
  "value_of container key = dict_get (dictish container) key"

fun first_present :: "json \<Rightarrow> string list \<Rightarrow> json" where
  "first_present container [] = JNull"
| "first_present container (key # keys) =
     (if value_of container key \<noteq> JNull then value_of container key else first_present container keys)"

fun hidden_params_in :: "json \<Rightarrow> string list \<Rightarrow> payload" where
  "hidden_params_in response [] = []"
| "hidden_params_in response (attr # attrs) =
     (case value_of response attr of JObject d \<Rightarrow> d | _ \<Rightarrow> hidden_params_in response attrs)"

definition hidden_params :: "json \<Rightarrow> payload" where
  "hidden_params response =
     hidden_params_in response [''_last_returned_hidden_params'', ''_hidden_params'', ''hidden_params'']"

definition usage_keys :: "string list" where
  "usage_keys = [''prompt_tokens'', ''completion_tokens'', ''input_tokens'', ''output_tokens'', ''cost'']"

definition usage_object :: "bool \<Rightarrow> json \<Rightarrow> json" where
  "usage_object is_dict response =
     (let hidden = hidden_params response; res = value_of response ''result''; meta = value_of res ''_meta''
      in if value_of response ''usage'' \<noteq> JNull then value_of response ''usage''
         else if dict_get hidden ''usage'' \<noteq> JNull then dict_get hidden ''usage''
         else if is_dict \<and> value_of res ''usage'' \<noteq> JNull then value_of res ''usage''
         else if is_dict \<and> value_of meta ''usage'' \<noteq> JNull then value_of meta ''usage''
         else if is_dict \<and> list_ex (\<lambda>k. k \<in> set (map fst (dictish response))) usage_keys then response
         else JNull)"

definition details :: "json \<Rightarrow> string list \<Rightarrow> json" where
  "details usage names = (let v = first_present usage names in if v = JNull then JObject [] else v)"

definition clean_type :: "string option \<Rightarrow> string" where
  "clean_type t =
     (let s = lower (strip (case t of None \<Rightarrow> ''unknown'' | Some x \<Rightarrow> if x = [] then ''unknown'' else x))
      in if s = [] then ''unknown'' else s)"

definition provider_reported_usage_cost :: "string list" where
  "provider_reported_usage_cost = [''openrouter'', ''litellm_proxy'']"

definition meter_keys :: "(string list \<times> string) list" where
  "meter_keys =
     [([''credits_used'', ''credits''], ''credit''), ([''duration_seconds'', ''audio_seconds''], ''second''),
      ([''characters'', ''character_count''], ''character''), ([''images'', ''image_count''], ''image''),
      ([''requests'', ''request_count''], ''request'')]"

fun metered :: "json \<Rightarrow> (string list \<times> string) list \<Rightarrow> (rat \<times> string) option" where
  "metered usage [] = None"
| "metered usage ((keys, u) # rest) =
     (case finite_float (first_present usage keys) of Some q \<Rightarrow> Some (q, u) | None \<Rightarrow> metered usage rest)"

definition cached_keys :: "string list" where
  "cached_keys = [''cached_tokens'', ''cache_read_input_tokens'', ''prompt_cache_hit_tokens'']"

definition cache_write_keys :: "string list" where
  "cache_write_keys = [''cache_creation_tokens'', ''cache_creation_input_tokens'', ''cache_write_input_tokens'']"

definition reported_cost :: "string \<Rightarrow> json \<Rightarrow> rat option" where
  "reported_cost provider usage =
     (let explicit = first_present usage [''provider_cost'', ''billed_cost'', ''total_cost_usd'']
      in if explicit \<noteq> JNull then finite_float explicit
         else if provider \<in> set provider_reported_usage_cost then finite_float (value_of usage ''cost'')
         else None)"

definition litellm_reported_cost :: "string \<Rightarrow> payload \<Rightarrow> json \<Rightarrow> rat option" where
  "litellm_reported_cost provider hidden usage =
     (case finite_float (dict_get hidden ''response_cost'') of
        Some c \<Rightarrow> Some c
      | None \<Rightarrow> if provider \<notin> set provider_reported_usage_cost then finite_float (value_of usage ''cost'') else None)"

definition extract_normalized_usage :: "bool \<Rightarrow> json \<Rightarrow> string option \<Rightarrow> normalized_usage" where
  "extract_normalized_usage is_dict response provider_type =
     (let provider = clean_type provider_type;
          usage = usage_object is_dict response;
          prompt_details = details usage [''prompt_tokens_details'', ''input_tokens_details''];
          completion_details = details usage [''completion_tokens_details'', ''output_tokens_details''];
          hidden = hidden_params response;
          meter = metered usage meter_keys;
          upstream = first_present response [''id'', ''request_id'', ''response_id'']
      in \<lparr>nu_prompt_tokens = nonnegative_int (first_present usage [''prompt_tokens'', ''input_tokens'']),
          nu_completion_tokens = nonnegative_int (first_present usage [''completion_tokens'', ''output_tokens'']),
          nu_cached_tokens =
            nonnegative_int (json_or (first_present prompt_details cached_keys) (first_present usage cached_keys)),
          nu_cache_write_tokens =
            nonnegative_int (json_or (first_present prompt_details cache_write_keys) (first_present usage cache_write_keys)),
          nu_reasoning_tokens =
            nonnegative_int (json_or (first_present completion_details [''reasoning_tokens''])
              (first_present usage [''reasoning_tokens''])),
          nu_web_search_requests =
            nonnegative_int (json_or (first_present usage [''web_search_requests'', ''search_requests''])
              (json_or (value_of prompt_details ''web_search_requests'')
                (value_of (value_of usage ''server_tool_use'') ''web_search_requests''))),
          nu_metered_quantity = map_option fst meter,
          nu_metered_unit = map_option snd meter,
          nu_provider_cost_usd = reported_cost provider usage,
          nu_litellm_cost_usd = litellm_reported_cost provider hidden usage,
          nu_upstream_request_id =
            (if json_truthy upstream then upstream
             else first_present (JObject hidden) [''provider_request_id'', ''response_id'', ''litellm_call_id''])\<rparr>)"

section \<open>The catalogue\<close>

definition parse_pricing_raw :: "ai_model option \<Rightarrow> payload" where
  "parse_pricing_raw m =
     (case m of None \<Rightarrow> [] | Some a \<Rightarrow> (case am_pricing_raw a of Some (JObject d) \<Rightarrow> d | _ \<Rightarrow> []))"

definition pricing_map :: "ai_model option \<Rightarrow> payload" where
  "pricing_map m =
     (case dict_get (parse_pricing_raw m) ''pricing'' of
        JList (p # _) \<Rightarrow> dictish p
      | p \<Rightarrow> dictish p)"

text \<open>The first key with a usable price; the code's pair \<open>(present, rate)\<close> has a rate exactly when it is present.\<close>

fun rate :: "payload \<Rightarrow> string list \<Rightarrow> rat option" where
  "rate pricing [] = None"
| "rate pricing (key # keys) =
     (case finite_float (dict_get pricing key) of Some v \<Rightarrow> Some v | None \<Rightarrow> rate pricing keys)"

definition speech_character_rate_usd :: "payload \<Rightarrow> rat option" where
  "speech_character_rate_usd pricing =
     (case rate pricing [''speech'', ''audio'', ''tts'', ''character''] of
        Some r \<Rightarrow> Some r
      | None \<Rightarrow> rate pricing [''prompt''])"

definition audio_second_rate_usd :: "payload \<Rightarrow> rat option" where
  "audio_second_rate_usd pricing =
     (case rate pricing [''transcription'', ''audio_second'', ''second''] of
        Some r \<Rightarrow> Some r
      | None \<Rightarrow> map_option (\<lambda>r. r / 60) (rate pricing [''audio_minute'', ''minute'']))"

definition video_second_rate_usd :: "payload \<Rightarrow> rat option" where
  "video_second_rate_usd pricing =
     (case rate pricing [''video'', ''output_video'', ''generate'', ''clip'', ''second'', ''usd_per_second'',
                         ''usd_per_second_output''] of
        Some r \<Rightarrow> Some r
      | None \<Rightarrow> map_option (\<lambda>r. r / 100)
                  (rate pricing [''cents_per_second_output'', ''cents_per_second'', ''cents_per_second_video'']))"

definition line_item :: "string \<Rightarrow> rat \<Rightarrow> string \<Rightarrow> rat \<Rightarrow> payload \<Rightarrow> line_item_quote" where
  "line_item category quantity u price metadata =
     \<lparr>li_category = category, li_quantity = quantity, li_unit = u, li_unit_price_usd = Some price,
      li_cost_usd = Some (max 0 (quantity * price)), li_pricing_source = ''provider_catalog'', li_metadata = metadata\<rparr>"

definition unit_or :: "string option \<Rightarrow> string \<Rightarrow> string" where
  "unit_or u d = (if truthy u then the u else d)"

definition opt_item :: "bool \<Rightarrow> line_item_quote \<Rightarrow> line_item_quote list" where
  "opt_item b i = (if b then [i] else [])"

text \<open>Tokens of the prompt; with a rate for reading or writing the cache those tokens are separate items.\<close>

definition prompt_items :: "payload \<Rightarrow> normalized_usage \<Rightarrow> line_item_quote list" where
  "prompt_items pricing usage =
     (case rate pricing [''prompt'', ''input''] of
        None \<Rightarrow> []
      | Some prompt_rate \<Rightarrow>
          let cache_read = rate pricing [''input_cache_read'', ''cache_read''];
              cache_write = rate pricing [''input_cache_write'', ''cache_write''];
              separate = (cache_read \<noteq> None \<or> cache_write \<noteq> None);
              read = nu_cached_tokens usage; wrote = nu_cache_write_tokens usage;
              standard = (if separate then max 0 (nu_prompt_tokens usage - read - wrote) else nu_prompt_tokens usage)
          in opt_item (standard \<noteq> 0) (line_item ''input_tokens'' (of_int standard) ''token'' prompt_rate [])
           @ opt_item (separate \<and> read \<noteq> 0)
               (line_item ''cache_read_tokens'' (of_int read) ''token'' (case cache_read of Some r \<Rightarrow> r | None \<Rightarrow> prompt_rate)
                  [(''fallback_to_prompt_rate'', JBool (cache_read = None))])
           @ opt_item (separate \<and> wrote \<noteq> 0)
               (line_item ''cache_write_tokens'' (of_int wrote) ''token'' (case cache_write of Some r \<Rightarrow> r | None \<Rightarrow> prompt_rate)
                  [(''fallback_to_prompt_rate'', JBool (cache_write = None))]))"

definition completion_items :: "payload \<Rightarrow> normalized_usage \<Rightarrow> line_item_quote list" where
  "completion_items pricing usage =
     (case rate pricing [''completion'', ''output''] of
        None \<Rightarrow> []
      | Some completion_rate \<Rightarrow>
          (case rate pricing [''internal_reasoning'', ''reasoning''] of
             None \<Rightarrow>
               opt_item (nu_completion_tokens usage \<noteq> 0)
                 (line_item ''output_tokens'' (of_int (nu_completion_tokens usage)) ''token'' completion_rate [])
           | Some reasoning_rate \<Rightarrow>
               let standard = max 0 (nu_completion_tokens usage - nu_reasoning_tokens usage)
               in opt_item (standard \<noteq> 0) (line_item ''output_tokens'' (of_int standard) ''token'' completion_rate [])
                @ opt_item (nu_reasoning_tokens usage \<noteq> 0)
                    (line_item ''reasoning_tokens'' (of_int (nu_reasoning_tokens usage)) ''token'' reasoning_rate [])))"

definition quantity_item :: "string \<Rightarrow> rat option \<Rightarrow> rat option \<Rightarrow> string \<Rightarrow> line_item_quote list" where
  "quantity_item category price quantity u =
     (case (price, quantity) of
        (Some p, Some q) \<Rightarrow> opt_item (q > 0) (line_item category q u p [])
      | _ \<Rightarrow> [])"

definition video_rate :: "string \<Rightarrow> payload \<Rightarrow> rat option" where
  "video_rate service pricing =
     (if service = ''video'' then video_second_rate_usd pricing
      else rate pricing [''video'', ''output_video'', ''generate'', ''clip'', ''second''])"

definition speech_rate :: "string \<Rightarrow> payload \<Rightarrow> rat option" where
  "speech_rate service pricing =
     (if service = ''speech'' then speech_character_rate_usd pricing
      else rate pricing [''speech'', ''audio'', ''tts'', ''character''])"

definition audio_rate :: "string \<Rightarrow> payload \<Rightarrow> rat option" where
  "audio_rate service pricing = (if service = ''audio'' then audio_second_rate_usd pricing else None)"

definition search_rate :: "payload \<Rightarrow> rat option" where
  "search_rate pricing = rate pricing [''web_search'', ''search'']"

definition opt_nonzero :: "rat option \<Rightarrow> bool" where
  "opt_nonzero q \<longleftrightarrow> (case q of None \<Rightarrow> False | Some x \<Rightarrow> x \<noteq> 0)"

text \<open>Whether every used component has a price.\<close>

definition pricing_covers :: "payload \<Rightarrow> normalized_usage \<Rightarrow> string \<Rightarrow> rat option \<Rightarrow> bool" where
  "pricing_covers pricing usage service quantity \<longleftrightarrow>
     \<not> (nu_prompt_tokens usage \<noteq> 0 \<and> rate pricing [''prompt'', ''input''] = None) \<and>
     \<not> (nu_completion_tokens usage \<noteq> 0 \<and> rate pricing [''completion'', ''output''] = None) \<and>
     \<not> (nu_web_search_requests usage \<noteq> 0 \<and> search_rate pricing = None) \<and>
     \<not> (service = ''image'' \<and> opt_nonzero quantity \<and> \<not> (nu_prompt_tokens usage \<noteq> 0 \<or> nu_completion_tokens usage \<noteq> 0) \<and>
        rate pricing [''image'', ''output_image''] = None \<and> rate pricing [''request''] = None) \<and>
     \<not> (service = ''speech'' \<and> opt_nonzero quantity \<and> speech_rate service pricing = None) \<and>
     \<not> (service = ''video'' \<and> opt_nonzero quantity \<and> video_rate service pricing = None) \<and>
     \<not> (service = ''audio'' \<and> opt_nonzero quantity \<and> audio_rate service pricing = None)"

definition priced_items :: "payload \<Rightarrow> normalized_usage \<Rightarrow> string \<Rightarrow> rat option \<Rightarrow> string option \<Rightarrow> line_item_quote list" where
  "priced_items pricing usage service quantity u =
     (if service = ''video'' then quantity_item ''video'' (video_rate service pricing) quantity (unit_or u ''clip'') else [])
   @ (if service \<noteq> ''speech'' then prompt_items pricing usage else [])
   @ (if service \<noteq> ''speech'' then completion_items pricing usage else [])
   @ (case rate pricing [''request''] of None \<Rightarrow> [] | Some r \<Rightarrow> [line_item ''request'' 1 ''request'' r []])
   @ (if service = ''image''
      then quantity_item ''image'' (rate pricing [''image'', ''output_image'']) quantity (unit_or u ''image'') else [])
   @ (if service = ''speech'' then quantity_item ''speech'' (speech_rate service pricing) quantity (unit_or u ''character'') else [])
   @ (if service = ''audio'' then quantity_item ''audio'' (audio_rate service pricing) quantity (unit_or u ''second'') else [])
   @ (case search_rate pricing of
        None \<Rightarrow> []
      | Some r \<Rightarrow> opt_item (nu_web_search_requests usage \<noteq> 0)
                   (line_item ''web_search'' (of_int (nu_web_search_requests usage)) ''request'' r []))"

definition finite_decimal :: "rat option \<Rightarrow> rat option" where
  "finite_decimal x = (case x of None \<Rightarrow> None | Some r \<Rightarrow> finite_float (JFloat r))"

text \<open>The normalised columns per thousand tokens, for catalogues that give no more.\<close>

definition per_1k_items :: "ai_model \<Rightarrow> normalized_usage \<Rightarrow> line_item_quote list" where
  "per_1k_items m usage =
     (let input_rate = finite_decimal (am_input_cost_per_1k m);
          output_rate = finite_decimal (am_output_cost_per_1k m);
          p = nu_prompt_tokens usage; c = nu_completion_tokens usage;
          items = (case input_rate of None \<Rightarrow> []
                   | Some r \<Rightarrow> opt_item (p \<noteq> 0) (line_item ''input_tokens'' (of_int p) ''token'' (r / 1000) []))
                @ (case output_rate of None \<Rightarrow> []
                   | Some r \<Rightarrow> opt_item (c \<noteq> 0) (line_item ''output_tokens'' (of_int c) ''token'' (r / 1000) []))
      in if items = [] \<and> input_rate = Some 0 \<and> output_rate = Some 0 \<and> (p \<noteq> 0 \<or> c \<noteq> 0)
         then [line_item ''input_tokens'' (of_int p) ''token'' 0 [], line_item ''output_tokens'' (of_int c) ''token'' 0 []]
         else items)"

definition per_1k_covers :: "ai_model \<Rightarrow> normalized_usage \<Rightarrow> bool" where
  "per_1k_covers m usage \<longleftrightarrow>
     \<not> (nu_prompt_tokens usage \<noteq> 0 \<and> finite_decimal (am_input_cost_per_1k m) = None) \<and>
     \<not> (nu_completion_tokens usage \<noteq> 0 \<and> finite_decimal (am_output_cost_per_1k m) = None)"

definition service_pricing :: "string \<Rightarrow> ai_model option \<Rightarrow> payload" where
  "service_pricing service m =
     (let pricing = pricing_map m; raw = parse_pricing_raw m
      in if service = ''video''
         then (case json_or (dict_get raw ''video_capabilities'') (dict_get raw ''video_generation'') of
                 JObject meta \<Rightarrow>
                   (case json_or (dict_get meta ''pricing'') (dict_get meta ''pricing_skus'') of
                      JObject video_pricing \<Rightarrow> dict_update pricing video_pricing
                    | _ \<Rightarrow> pricing)
               | _ \<Rightarrow> pricing)
         else pricing)"

definition items_cost :: "line_item_quote list \<Rightarrow> rat" where
  "items_cost items = sum_list (map (\<lambda>i. case li_cost_usd i of None \<Rightarrow> 0 | Some c \<Rightarrow> c) items)"

definition json_of_rat :: "rat option \<Rightarrow> json" where
  "json_of_rat x = (case x of None \<Rightarrow> JNull | Some r \<Rightarrow> JFloat r)"

definition pricing_payload :: "string \<Rightarrow> string \<Rightarrow> ai_model option \<Rightarrow> payload" where
  "pricing_payload provider service m =
     [(''provider_type'', JString provider),
      (''model_id'', case m of None \<Rightarrow> JNull | Some a \<Rightarrow> JString (am_external_id a)),
      (''service_type'', JString service),
      (''normalized_input_cost_per_1k'', case m of None \<Rightarrow> JNull | Some a \<Rightarrow> json_of_rat (am_input_cost_per_1k a)),
      (''normalized_output_cost_per_1k'', case m of None \<Rightarrow> JNull | Some a \<Rightarrow> json_of_rat (am_output_cost_per_1k a)),
      (''provider_pricing'', JObject (service_pricing service m)),
      (''provider_catalog'', JObject (parse_pricing_raw m))]"

definition catalog_quote ::
    "ai_model option \<Rightarrow> normalized_usage \<Rightarrow> string \<Rightarrow> string \<Rightarrow> rat option \<Rightarrow> string option
      \<Rightarrow> rat option \<times> line_item_quote list \<times> payload option" where
  "catalog_quote m usage provider service quantity u =
     (let pricing = service_pricing service m;
          items = (if pricing = [] then [] else priced_items pricing usage service quantity u);
          complete = (pricing = [] \<or> pricing_covers pricing usage service quantity);
          (items1, complete1) =
            (if items = [] then
               (case m of None \<Rightarrow> (items, complete)
                | Some a \<Rightarrow> (per_1k_items a usage, complete \<and> per_1k_covers a usage))
             else (items, complete))
      in if items1 = [] then (None, [], None)
         else (if complete1 then Some (max 0 (items_cost items1)) else None, items1,
               Some (pricing_payload (lower provider) service m)))"

section \<open>Choosing a price\<close>

text \<open>\<open>estimate\<close> is what LiteLLM answers for provider and model, \<open>JNull\<close> where it raises.\<close>

definition litellm_estimate :: "(string \<Rightarrow> string \<Rightarrow> json) \<Rightarrow> string \<Rightarrow> string option \<Rightarrow> rat option" where
  "litellm_estimate estimate provider model_id =
     (if truthy model_id then finite_float (estimate provider (the model_id)) else None)"

definition unknown_quote :: cost_quote where
  "unknown_quote = \<lparr>cq_provider_cost_usd = None, cq_calculated_cost_usd = None, cq_final_cost_usd = None,
     cq_cost_source = ''unknown'', cq_cost_confidence = ''unknown'', cq_line_items = [], cq_pricing_payload = None,
     cq_pricing_source = None\<rparr>"

definition quantity_or_one :: "rat option \<Rightarrow> rat" where
  "quantity_or_one q = (if opt_nonzero q then the q else 1)"

definition quote_usage ::
    "(string \<Rightarrow> string \<Rightarrow> json) \<Rightarrow> normalized_usage \<Rightarrow> ai_model option \<Rightarrow> string option \<Rightarrow> string \<Rightarrow> string option
      \<Rightarrow> rat option \<Rightarrow> string option \<Rightarrow> cost_quote" where
  "quote_usage estimate usage m provider_type service model_id quantity u =
     (let provider = clean_type provider_type;
          (calculated, items, pay) = catalog_quote m usage provider service quantity u
      in case nu_provider_cost_usd usage of
           Some cost \<Rightarrow>
             \<lparr>cq_provider_cost_usd = Some cost, cq_calculated_cost_usd = calculated, cq_final_cost_usd = Some cost,
              cq_cost_source = ''provider_response'', cq_cost_confidence = ''exact'', cq_line_items = items,
              cq_pricing_payload = pay, cq_pricing_source = (if pay = None then None else Some ''provider_catalog'')\<rparr>
         | None \<Rightarrow>
             (case calculated of
                Some cost \<Rightarrow>
                  \<lparr>cq_provider_cost_usd = None, cq_calculated_cost_usd = Some cost, cq_final_cost_usd = Some cost,
                   cq_cost_source = ''provider_catalog'', cq_cost_confidence = ''calculated'', cq_line_items = items,
                   cq_pricing_payload = pay, cq_pricing_source = Some ''provider_catalog''\<rparr>
              | None \<Rightarrow>
                  (case (case nu_litellm_cost_usd usage of Some c \<Rightarrow> Some c
                         | None \<Rightarrow> litellm_estimate estimate provider model_id) of
                     Some cost \<Rightarrow>
                       \<lparr>cq_provider_cost_usd = None, cq_calculated_cost_usd = Some cost, cq_final_cost_usd = Some cost,
                        cq_cost_source = ''litellm'', cq_cost_confidence = ''estimated'',
                        cq_line_items = [\<lparr>li_category = service, li_quantity = quantity_or_one quantity,
                          li_unit = unit_or u ''request'', li_unit_price_usd = Some (cost / max 1 (quantity_or_one quantity)),
                          li_cost_usd = Some cost, li_pricing_source = ''litellm'', li_metadata = []\<rparr>],
                        cq_pricing_payload = None, cq_pricing_source = None\<rparr>
                   | None \<Rightarrow> unknown_quote)))"

section \<open>Capture\<close>

definition int_or_else :: "int \<Rightarrow> int \<Rightarrow> int" where
  "int_or_else a b = (if a \<noteq> 0 then a else b)"

definition opt_or :: "'a option \<Rightarrow> 'a option \<Rightarrow> 'a option" where
  "opt_or a b = (case a of Some x \<Rightarrow> Some x | None \<Rightarrow> b)"

definition text_or :: "string option \<Rightarrow> string option \<Rightarrow> string option" where
  "text_or a b = (if truthy a then a else b)"

definition merge_usage :: "normalized_usage \<Rightarrow> normalized_usage \<Rightarrow> normalized_usage" where
  "merge_usage a b =
     \<lparr>nu_prompt_tokens = int_or_else (nu_prompt_tokens a) (nu_prompt_tokens b),
      nu_completion_tokens = int_or_else (nu_completion_tokens a) (nu_completion_tokens b),
      nu_cached_tokens = int_or_else (nu_cached_tokens a) (nu_cached_tokens b),
      nu_cache_write_tokens = int_or_else (nu_cache_write_tokens a) (nu_cache_write_tokens b),
      nu_reasoning_tokens = int_or_else (nu_reasoning_tokens a) (nu_reasoning_tokens b),
      nu_web_search_requests = int_or_else (nu_web_search_requests a) (nu_web_search_requests b),
      nu_metered_quantity = opt_or (nu_metered_quantity a) (nu_metered_quantity b),
      nu_metered_unit = text_or (nu_metered_unit a) (nu_metered_unit b),
      nu_provider_cost_usd = opt_or (nu_provider_cost_usd a) (nu_provider_cost_usd b),
      nu_litellm_cost_usd = opt_or (nu_litellm_cost_usd a) (nu_litellm_cost_usd b),
      nu_upstream_request_id = json_or (nu_upstream_request_id a) (nu_upstream_request_id b)\<rparr>"

text \<open>What the caller knows better than the answer.\<close>

record token_overrides =
  to_prompt_tokens :: "int option"
  to_completion_tokens :: "int option"
  to_cached_tokens :: "int option"
  to_cache_write_tokens :: "int option"
  to_reasoning_tokens :: "int option"

definition no_overrides :: token_overrides where
  "no_overrides = \<lparr>to_prompt_tokens = None, to_completion_tokens = None, to_cached_tokens = None,
     to_cache_write_tokens = None, to_reasoning_tokens = None\<rparr>"

definition given :: "int option \<Rightarrow> int \<Rightarrow> int" where
  "given x d = (case x of None \<Rightarrow> d | Some i \<Rightarrow> max 0 i)"

definition apply_overrides :: "token_overrides \<Rightarrow> normalized_usage \<Rightarrow> normalized_usage" where
  "apply_overrides over usage =
     usage\<lparr>nu_prompt_tokens := given (to_prompt_tokens over) (nu_prompt_tokens usage),
       nu_completion_tokens := given (to_completion_tokens over) (nu_completion_tokens usage),
       nu_cached_tokens := given (to_cached_tokens over) (nu_cached_tokens usage),
       nu_cache_write_tokens := given (to_cache_write_tokens over) (nu_cache_write_tokens usage),
       nu_reasoning_tokens := given (to_reasoning_tokens over) (nu_reasoning_tokens usage)\<rparr>"

definition observed_billing :: "normalized_usage \<Rightarrow> bool" where
  "observed_billing usage \<longleftrightarrow>
     nu_prompt_tokens usage \<noteq> 0 \<or> nu_completion_tokens usage \<noteq> 0 \<or> nu_cached_tokens usage \<noteq> 0 \<or>
     nu_cache_write_tokens usage \<noteq> 0 \<or> nu_reasoning_tokens usage \<noteq> 0 \<or> nu_web_search_requests usage \<noteq> 0 \<or>
     nu_metered_quantity usage \<noteq> None \<or> nu_provider_cost_usd usage \<noteq> None \<or> nu_litellm_cost_usd usage \<noteq> None"

definition failed_status :: "string \<Rightarrow> bool" where
  "failed_status s \<longleftrightarrow> lower s \<in> {''failed'', ''cancelled'', ''timeout''}"

text \<open>A call as it is handed to the capture: the answer and a second one to fall back on, and its data.\<close>

record capture_call =
  cc_model :: "ai_model option"
  cc_provider_type :: "string option"
  cc_service_type :: string
  cc_operation_name :: string
  cc_model_id :: "string option"
  cc_attempt_index :: int
  cc_status :: string
  cc_started_at :: "time option"
  cc_completed_at :: "time option"
  cc_overrides :: token_overrides
  cc_quantity :: "rat option"
  cc_unit :: "string option"
  cc_error_message :: "string option"
  cc_idempotency_key :: "string option"

definition captured_usage :: "bool \<times> json \<Rightarrow> (bool \<times> json) option \<Rightarrow> capture_call \<Rightarrow> normalized_usage" where
  "captured_usage answer fallback call =
     (let usage = extract_normalized_usage (fst answer) (snd answer) (cc_provider_type call)
      in apply_overrides (cc_overrides call)
           (case fallback of None \<Rightarrow> usage
            | Some f \<Rightarrow> merge_usage usage (extract_normalized_usage (fst f) (snd f) (cc_provider_type call))))"

definition none_if_empty :: "string \<Rightarrow> string option" where
  "none_if_empty s = (if s = [] then None else Some s)"

definition capture_usage_event ::
    "(string \<Rightarrow> string \<Rightarrow> json) \<Rightarrow> time \<Rightarrow> string \<Rightarrow> bool \<times> json \<Rightarrow> (bool \<times> json) option \<Rightarrow> capture_call \<Rightarrow> pending_event" where
  "capture_usage_event estimate now uuid answer fallback call =
     (let usage = captured_usage answer fallback call;
          quantity = opt_or (nu_metered_quantity usage) (cc_quantity call);
          u = text_or (nu_metered_unit usage) (cc_unit call)
      in \<lparr>pe_provider_type = clean_type (cc_provider_type call), pe_service_type = cc_service_type call,
          pe_operation_name = cc_operation_name call, pe_model_id = cc_model_id call,
          pe_connection_id = (case cc_model call of None \<Rightarrow> None | Some m \<Rightarrow> am_connection_id m),
          pe_attempt_index = max 0 (cc_attempt_index call), pe_status = cc_status call, pe_usage = usage,
          pe_quote = (if failed_status (cc_status call) \<and> \<not> observed_billing usage then unknown_quote
                      else quote_usage estimate usage (cc_model call) (cc_provider_type call) (cc_service_type call)
                             (cc_model_id call) quantity u),
          pe_started_at = (case cc_started_at call of None \<Rightarrow> now | Some t \<Rightarrow> t),
          pe_completed_at = (case cc_completed_at call of None \<Rightarrow> now | Some t \<Rightarrow> t),
          pe_idempotency_key = (if truthy (cc_idempotency_key call) then clip 220 (the (cc_idempotency_key call))
                                else ''usage-event:'' @ uuid),
          pe_quantity = quantity, pe_unit = u,
          pe_error_message = none_if_empty (clip 2000 (case cc_error_message call of None \<Rightarrow> [] | Some m \<Rightarrow> m)),
          pe_pricing_snapshot_id = None\<rparr>)"

section \<open>Properties of the price\<close>

lemma finite_float_nonneg: "finite_float v = Some r \<Longrightarrow> 0 \<le> r"
  by (auto simp: finite_float_def split: json.splits option.splits if_splits)

lemma nonnegative_int_nonneg [simp]: "0 \<le> nonnegative_int v"
  by (simp add: nonnegative_int_def split: sum.split)

lemma rate_nonneg: "rate pricing keys = Some r \<Longrightarrow> 0 \<le> r"
  by (induction pricing keys rule: rate.induct) (auto split: option.splits intro: finite_float_nonneg)

definition billed :: "string list \<Rightarrow> line_item_quote list \<Rightarrow> rat" where
  "billed categories items = sum_list (map li_quantity (filter (\<lambda>i. li_category i \<in> set categories) items))"

abbreviation prompt_categories :: "string list" where
  "prompt_categories \<equiv> [''input_tokens'', ''cache_read_tokens'', ''cache_write_tokens'']"

abbreviation completion_categories :: "string list" where
  "completion_categories \<equiv> [''output_tokens'', ''reasoning_tokens'']"

lemma billed_Nil [simp]: "billed cs [] = 0"
  by (simp add: billed_def)

lemma billed_append [simp]: "billed cs (xs @ ys) = billed cs xs + billed cs ys"
  by (simp add: billed_def)

lemma billed_opt_item: "billed cs (opt_item b i) = (if b \<and> li_category i \<in> set cs then li_quantity i else 0)"
  by (simp add: billed_def opt_item_def)

lemma line_item_sel [simp]:
  "li_category (line_item c q u p m) = c" "li_quantity (line_item c q u p m) = q"
  "li_cost_usd (line_item c q u p m) = Some (max 0 (q * p))"
  by (simp_all add: line_item_def)

text \<open>Counts as a provider reports them: cached tokens are part of the prompt, reasoning of the completion.\<close>

definition consistent_usage :: "normalized_usage \<Rightarrow> bool" where
  "consistent_usage usage \<longleftrightarrow>
     0 \<le> nu_cached_tokens usage \<and> 0 \<le> nu_cache_write_tokens usage \<and> 0 \<le> nu_reasoning_tokens usage \<and>
     nu_cached_tokens usage + nu_cache_write_tokens usage \<le> nu_prompt_tokens usage \<and>
     nu_reasoning_tokens usage \<le> nu_completion_tokens usage"

lemma prompt_items_billed:
  assumes "consistent_usage usage" and "rate pricing [''prompt'', ''input''] \<noteq> None"
  shows "billed prompt_categories (prompt_items pricing usage) = of_int (nu_prompt_tokens usage)"
  using assms by (auto simp: prompt_items_def consistent_usage_def billed_opt_item Let_def max_def split: option.splits)

lemma prompt_items_other: "billed completion_categories (prompt_items pricing usage) = 0"
  by (simp add: prompt_items_def billed_opt_item Let_def split: option.split)

lemma completion_items_billed:
  assumes "consistent_usage usage" and "rate pricing [''completion'', ''output''] \<noteq> None"
  shows "billed completion_categories (completion_items pricing usage) = of_int (nu_completion_tokens usage)"
  using assms by (auto simp: completion_items_def consistent_usage_def billed_opt_item Let_def max_def split: option.splits)

lemma completion_items_other: "billed prompt_categories (completion_items pricing usage) = 0"
  by (simp add: completion_items_def billed_opt_item Let_def split: option.split)

lemma no_prompt_rate: "rate pricing [''prompt'', ''input''] = None \<Longrightarrow> prompt_items pricing usage = []"
  by (simp add: prompt_items_def)

lemma no_completion_rate: "rate pricing [''completion'', ''output''] = None \<Longrightarrow> completion_items pricing usage = []"
  by (simp add: completion_items_def)

lemma quantity_item_billed: "category \<notin> set cs \<Longrightarrow> billed cs (quantity_item category p q u) = 0"
  by (simp add: quantity_item_def billed_opt_item split: option.split)

lemma priced_items_billed:
  assumes "consistent_usage usage" and "service \<noteq> ''speech''" and "pricing_covers pricing usage service quantity"
  shows "billed prompt_categories (priced_items pricing usage service quantity u) = of_int (nu_prompt_tokens usage)"
    and "billed completion_categories (priced_items pricing usage service quantity u) = of_int (nu_completion_tokens usage)"
proof -
  have other: "billed cs (case r of None \<Rightarrow> [] | Some x \<Rightarrow> opt_item b (line_item c q v x [])) = 0"
    "billed cs (case r of None \<Rightarrow> [] | Some x \<Rightarrow> [line_item c q v x []]) = 0"
    if "c \<notin> set cs" for cs r b c q v
    using that by (simp_all add: opt_item_def billed_def split: option.split)
  have others: "billed cs (priced_items pricing usage service quantity u) =
      billed cs (prompt_items pricing usage) + billed cs (completion_items pricing usage)"
    if "set cs \<inter> {''video'', ''request'', ''image'', ''speech'', ''audio'', ''web_search''} = {}" for cs
    using assms(2) that unfolding priced_items_def by (simp add: quantity_item_billed other)
  have p: "nu_prompt_tokens usage \<noteq> 0 \<Longrightarrow> rate pricing [''prompt'', ''input''] \<noteq> None"
    using assms(3) by (simp add: pricing_covers_def)
  have c: "nu_completion_tokens usage \<noteq> 0 \<Longrightarrow> rate pricing [''completion'', ''output''] \<noteq> None"
    using assms(3) by (simp add: pricing_covers_def)
  have "billed prompt_categories (prompt_items pricing usage) = of_int (nu_prompt_tokens usage)"
    using prompt_items_billed [OF assms(1)] no_prompt_rate [of pricing usage] p by (metis billed_Nil of_int_0)
  then show "billed prompt_categories (priced_items pricing usage service quantity u) = of_int (nu_prompt_tokens usage)"
    using others completion_items_other by simp
  have "billed completion_categories (completion_items pricing usage) = of_int (nu_completion_tokens usage)"
    using completion_items_billed [OF assms(1)] no_completion_rate [of pricing usage] c by (metis billed_Nil of_int_0)
  then show "billed completion_categories (priced_items pricing usage service quantity u) = of_int (nu_completion_tokens usage)"
    using others prompt_items_other by simp
qed

lemma per_1k_items_billed:
  assumes "per_1k_covers m usage"
  shows "billed prompt_categories (per_1k_items m usage) = of_int (nu_prompt_tokens usage)"
    and "billed completion_categories (per_1k_items m usage) = of_int (nu_completion_tokens usage)"
  using assms
  by (auto simp: per_1k_items_def per_1k_covers_def Let_def opt_item_def billed_def split: option.splits if_splits)

text \<open>
  The branch of the code for models with zero prices is never needed: a price of zero already gives
  its items.
\<close>

lemma zero_price_branch_dead:
  "per_1k_items m usage =
     (case finite_decimal (am_input_cost_per_1k m) of None \<Rightarrow> []
      | Some r \<Rightarrow> opt_item (nu_prompt_tokens usage \<noteq> 0)
          (line_item ''input_tokens'' (of_int (nu_prompt_tokens usage)) ''token'' (r / 1000) []))
   @ (case finite_decimal (am_output_cost_per_1k m) of None \<Rightarrow> []
      | Some r \<Rightarrow> opt_item (nu_completion_tokens usage \<noteq> 0)
          (line_item ''output_tokens'' (of_int (nu_completion_tokens usage)) ''token'' (r / 1000) []))"
  by (auto simp: per_1k_items_def Let_def opt_item_def)

text \<open>Every item has a cost that is not negative, so the clamp on the sum changes nothing.\<close>

lemma opt_item_costs: "\<forall>i \<in> set (opt_item b (line_item c q u p m)). \<exists>x \<ge> 0. li_cost_usd i = Some x"
  by (simp add: opt_item_def)

definition costed :: "line_item_quote list \<Rightarrow> bool" where
  "costed items \<longleftrightarrow> (\<forall>i \<in> set items. \<exists>x \<ge> 0. li_cost_usd i = Some x)"

lemma costed_append [simp]: "costed (xs @ ys) \<longleftrightarrow> costed xs \<and> costed ys"
  by (auto simp: costed_def)

lemma costed_base [simp]: "costed []" "costed (line_item c q u p m # xs) \<longleftrightarrow> costed xs" "costed (opt_item b (line_item c q u p m))"
  by (auto simp: costed_def opt_item_def)

lemma costed_parts [simp]:
  "costed (quantity_item c p q u)" "costed (prompt_items pricing usage)" "costed (completion_items pricing usage)"
  "costed (per_1k_items a usage)"
  by (auto simp: quantity_item_def prompt_items_def completion_items_def per_1k_items_def Let_def split: option.split)

lemma costed_priced [simp]: "costed (priced_items pricing usage service quantity u)"
  by (simp add: priced_items_def split: option.split)

lemma costed_nonneg: "costed items \<Longrightarrow> 0 \<le> items_cost items"
  unfolding items_cost_def by (rule sum_list_nonneg) (force simp: costed_def split: option.split)

text \<open>
  C19: a complete catalogue quote bills every token once. For a usage whose cached tokens are
  part of the prompt and whose reasoning tokens are part of the completion, the items for plain,
  cache-read and cache-write tokens add up to the prompt's tokens, and those for output and
  reasoning to the completion's, whichever of the separate rates exist; the quoted amount is the
  sum of the items and not negative. (Speech is billed by characters and not by tokens.)
\<close>

theorem catalog_bills_once:
  assumes "catalog_quote m usage provider service quantity u = (Some amount, items, pay)"
    and "service \<noteq> ''speech''" and "consistent_usage usage"
  shows "billed prompt_categories items = of_int (nu_prompt_tokens usage) \<and>
    billed completion_categories items = of_int (nu_completion_tokens usage) \<and>
    amount = items_cost items \<and> 0 \<le> amount"
proof -
  have "amount = max 0 (items_cost items) \<and>
      (items = priced_items (service_pricing service m) usage service quantity u \<and>
         pricing_covers (service_pricing service m) usage service quantity \<or>
       (\<exists>a. items = per_1k_items a usage \<and> per_1k_covers a usage))"
    using assms(1) unfolding catalog_quote_def
    by (auto simp: Let_def split: if_splits option.splits)
  then show ?thesis
    using priced_items_billed [OF assms(3,2)] per_1k_items_billed costed_nonneg [of items] by auto
qed

definition sample_model :: ai_model where
  "sample_model = \<lparr>am_external_id = ''openai/gpt-4o'', am_provider_type = ''openrouter'', am_connection_id = Some 3,
     am_input_cost_per_1k = None, am_output_cost_per_1k = None,
     am_pricing_raw = Some (JObject [(''pricing'', JObject [(''prompt'', JString ''0.000002''), (''completion'', JString ''0.00001''),
       (''input_cache_read'', JString ''0.000001'')])])\<rparr>"

definition sample_usage :: normalized_usage where
  "sample_usage = \<lparr>nu_prompt_tokens = 1000, nu_completion_tokens = 200, nu_cached_tokens = 400, nu_cache_write_tokens = 100,
     nu_reasoning_tokens = 50, nu_web_search_requests = 0, nu_metered_quantity = None, nu_metered_unit = None,
     nu_provider_cost_usd = None, nu_litellm_cost_usd = None, nu_upstream_request_id = JNull\<rparr>"

text \<open>
  Five hundred plain tokens, four hundred read from the cache at half the price, a hundred written
  to it at the price of the prompt, and two hundred of output.
\<close>

lemma sample_quote:
  "fst (catalog_quote (Some sample_model) sample_usage ''openrouter'' ''llm'' None None) = Some (9 / 2500)"
  "map li_quantity (fst (snd (catalog_quote (Some sample_model) sample_usage ''openrouter'' ''llm'' None None))) = [500, 400, 100, 200]"
  by code_simp+

theorem catalog_bills_once_witness:
  "\<exists>items pay. catalog_quote (Some sample_model) sample_usage ''openrouter'' ''llm'' None None = (Some (9 / 2500), items, pay) \<and>
     billed prompt_categories items = 1000 \<and> billed completion_categories items = 200 \<and> items_cost items = 9 / 2500"
proof -
  obtain items pay where q:
      "catalog_quote (Some sample_model) sample_usage ''openrouter'' ''llm'' None None = (Some (9 / 2500), items, pay)"
    using sample_quote(1) by (metis prod.collapse)
  have "consistent_usage sample_usage" by code_simp
  with catalog_bills_once [OF q] q show ?thesis by (auto simp: sample_usage_def)
qed

section \<open>Captured events\<close>

definition nonneg_opt :: "rat option \<Rightarrow> bool" where
  "nonneg_opt x \<longleftrightarrow> (case x of None \<Rightarrow> True | Some r \<Rightarrow> 0 \<le> r)"

lemma nonneg_opt_finite [simp]: "nonneg_opt (finite_float v)"
  using finite_float_nonneg [of v] by (auto simp: nonneg_opt_def split: option.split)

lemma nonneg_opt_or [simp]: "nonneg_opt a \<Longrightarrow> nonneg_opt b \<Longrightarrow> nonneg_opt (opt_or a b)"
  by (simp add: opt_or_def nonneg_opt_def split: option.splits)

lemma extract_costs [simp]:
  "nonneg_opt (nu_provider_cost_usd (extract_normalized_usage d r p))"
  "nonneg_opt (nu_litellm_cost_usd (extract_normalized_usage d r p))"
proof -
  have n: "nonneg_opt None" by (simp add: nonneg_opt_def)
  have "nonneg_opt (reported_cost provider usage)" for provider usage
    unfolding reported_cost_def Let_def by (simp add: n)
  then show "nonneg_opt (nu_provider_cost_usd (extract_normalized_usage d r p))"
    unfolding extract_normalized_usage_def Let_def by simp
  have "nonneg_opt (litellm_reported_cost provider hidden usage)" for provider hidden usage
    using finite_float_nonneg unfolding litellm_reported_cost_def
    by (auto simp: n nonneg_opt_def split: option.split)
  then show "nonneg_opt (nu_litellm_cost_usd (extract_normalized_usage d r p))"
    unfolding extract_normalized_usage_def Let_def by simp
qed

lemma captured_costs:
  "nonneg_opt (nu_provider_cost_usd (captured_usage answer fallback call))"
  "nonneg_opt (nu_litellm_cost_usd (captured_usage answer fallback call))"
  by (simp_all add: captured_usage_def apply_overrides_def merge_usage_def Let_def split: option.split)

lemma catalog_quote_nonneg: "catalog_quote m usage provider service quantity u = (Some amount, items, pay) \<Longrightarrow> 0 \<le> amount"
  by (auto simp: catalog_quote_def Let_def split: if_splits option.splits)

lemma quote_usage_price:
  assumes "nonneg_opt (nu_provider_cost_usd usage)" and "nonneg_opt (nu_litellm_cost_usd usage)"
    and "q = quote_usage estimate usage m provider_type service model_id quantity u"
  shows "case cq_final_cost_usd q of
      None \<Rightarrow> cq_cost_source q = ''unknown'' \<and> nu_provider_cost_usd usage = None \<and> nu_litellm_cost_usd usage = None
    | Some c \<Rightarrow> 0 \<le> c \<and> cq_cost_source q \<noteq> ''unknown'' \<and>
        (nu_provider_cost_usd usage = Some c \<and> cq_cost_source q = ''provider_response'' \<or> nu_provider_cost_usd usage = None)"
proof -
  obtain calculated items pay where cq: "catalog_quote m usage (clean_type provider_type) service quantity u = (calculated, items, pay)"
    by (metis prod_cases3)
  have lite: "litellm_estimate estimate provider model_id = Some c \<Longrightarrow> 0 \<le> c" for provider c
    by (auto simp: litellm_estimate_def split: if_splits intro: finite_float_nonneg)
  have cat: "calculated = Some c \<Longrightarrow> 0 \<le> c" for c using cq catalog_quote_nonneg by blast
  show ?thesis
    using assms(1,2) lite cat unfolding assms(3) quote_usage_def cq Let_def
    by (auto simp: nonneg_opt_def unknown_quote_def split: option.split)
qed

text \<open>
  What a captured event costs. The cost is never negative. A figure reported by the
  provider is the cost, before any calculation; an event has no cost only where neither provider
  nor LiteLLM reported one, and then its source says unknown. A call that failed, was cancelled or
  timed out and reports no use at all has no cost.
\<close>

theorem capture_price:
  assumes "e = capture_usage_event estimate now uuid answer fallback call"
  shows "(case cq_final_cost_usd (pe_quote e) of
      None \<Rightarrow> cq_cost_source (pe_quote e) = ''unknown'' \<and> nu_provider_cost_usd (pe_usage e) = None \<and>
        nu_litellm_cost_usd (pe_usage e) = None
    | Some c \<Rightarrow> 0 \<le> c \<and> cq_cost_source (pe_quote e) \<noteq> ''unknown'' \<and>
        (nu_provider_cost_usd (pe_usage e) = Some c \<and> cq_cost_source (pe_quote e) = ''provider_response'' \<or>
         nu_provider_cost_usd (pe_usage e) = None))
    \<and> (lower (pe_status e) \<in> {''failed'', ''cancelled'', ''timeout''} \<and> \<not> observed_billing (pe_usage e)
       \<longrightarrow> cq_final_cost_usd (pe_quote e) = None)"
proof -
  define usage where "usage = captured_usage answer fallback call"
  have e: "pe_usage e = usage" "pe_status e = cc_status call"
    and q: "pe_quote e = (if failed_status (cc_status call) \<and> \<not> observed_billing usage then unknown_quote
      else quote_usage estimate usage (cc_model call) (cc_provider_type call) (cc_service_type call) (cc_model_id call)
        (opt_or (nu_metered_quantity usage) (cc_quantity call)) (text_or (nu_metered_unit usage) (cc_unit call)))"
    unfolding assms capture_usage_event_def usage_def Let_def by simp_all
  note price = quote_usage_price [OF captured_costs [of answer fallback call, folded usage_def] refl]
  show ?thesis
  proof (cases "failed_status (cc_status call) \<and> \<not> observed_billing usage")
    case True
    then show ?thesis using e q by (simp add: unknown_quote_def observed_billing_def)
  next
    case False
    then have q': "pe_quote e = quote_usage estimate usage (cc_model call) (cc_provider_type call) (cc_service_type call) (cc_model_id call)
        (opt_or (nu_metered_quantity usage) (cc_quantity call)) (text_or (nu_metered_unit usage) (cc_unit call))"
      using q by (simp only: if_False)
    show ?thesis unfolding e q' using False by (intro conjI price) (auto simp: failed_status_def)
  qed
qed

definition sample_call :: capture_call where
  "sample_call = \<lparr>cc_model = Some sample_model, cc_provider_type = Some '' OpenRouter '', cc_service_type = ''llm'',
     cc_operation_name = ''chat_completion'', cc_model_id = Some ''openai/gpt-4o'', cc_attempt_index = 0,
     cc_status = ''succeeded'', cc_started_at = None, cc_completed_at = None, cc_overrides = no_overrides,
     cc_quantity = None, cc_unit = None, cc_error_message = None, cc_idempotency_key = Some ''k1''\<rparr>"

definition sample_answer :: json where
  "sample_answer = JObject [(''id'', JString ''gen-1''), (''usage'', JObject [(''prompt_tokens'', JInt 1000),
     (''completion_tokens'', JInt 200), (''cost'', JString ''0.0031'')])]"

theorem capture_price_witness:
  "cq_final_cost_usd (pe_quote (capture_usage_event (\<lambda>_ _. JNull) 5 ''u'' (True, sample_answer) None sample_call)) = Some (31 / 10000)
   \<and> cq_cost_source (pe_quote (capture_usage_event (\<lambda>_ _. JNull) 5 ''u'' (True, sample_answer) None sample_call)) = ''provider_response''
   \<and> cq_final_cost_usd (pe_quote (capture_usage_event (\<lambda>_ _. JNull) 5 ''u'' (False, JNull) None (sample_call\<lparr>cc_status := ''Failed''\<rparr>))) = None"
proof -
  have "nu_provider_cost_usd (pe_usage (capture_usage_event (\<lambda>_ _. JNull) 5 ''u'' (True, sample_answer) None sample_call)) = Some (31 / 10000)"
    by code_simp
  moreover have "lower (pe_status (capture_usage_event (\<lambda>_ _. JNull) 5 ''u'' (False, JNull) None (sample_call\<lparr>cc_status := ''Failed''\<rparr>))) = ''failed''"
    by code_simp
  moreover have "\<not> observed_billing (pe_usage (capture_usage_event (\<lambda>_ _. JNull) 5 ''u'' (False, JNull) None (sample_call\<lparr>cc_status := ''Failed''\<rparr>)))"
    by code_simp
  ultimately show ?thesis
    using capture_price [OF refl, of "\<lambda>_ _. JNull" 5 "''u''" "(True, sample_answer)" None sample_call]
      capture_price [OF refl, of "\<lambda>_ _. JNull" 5 "''u''" "(False, JNull)" None "sample_call\<lparr>cc_status := ''Failed''\<rparr>"]
    by (auto split: option.splits)
qed

end
