(* ===== verification/Usage_Pricing.thy ===== *)
theory Usage_Pricing
  imports Usage_Capture "HOL-Library.Product_Lexorder"
begin

text \<open>
  Prices that an administrator configures (\<open>services/usage_accounting_service.py\<close>, second part): how
  a rate is stored and replaced, how the rate of an event is chosen, and the amount that is held
  before a call from the quoted price.
\<close>

section \<open>Rates\<close>

text \<open>A stored price; \<open>ps_pricing_json\<close> is the parsed document, absent where the text does not parse.\<close>

record pricing_snapshot =
  ps_id :: int
  ps_connection_id :: "int option"
  ps_provider_type :: string
  ps_model_id :: "string option"
  ps_service_type :: string
  ps_source :: string
  ps_fingerprint :: string
  ps_active_scope_key :: "string option"
  ps_pricing_json :: "json option"
  ps_effective_at :: time
  ps_expires_at :: "time option"

definition unit_aliases :: "(string \<times> string) list" where
  "unit_aliases = [(''credits'', ''credit''), (''requests'', ''request''), (''seconds'', ''second''), (''minutes'', ''minute''),
     (''characters'', ''character''), (''images'', ''image''), (''tokens'', ''token'')]"

definition normalize_unit :: "string option \<Rightarrow> string" where
  "normalize_unit u =
     (let v = map (\<lambda>c. if c = CHR '' '' then CHR ''_'' else c) (lower (strip (case u of None \<Rightarrow> [] | Some s \<Rightarrow> s)))
      in (case map_of unit_aliases v of None \<Rightarrow> v | Some a \<Rightarrow> a))"

definition convert_metered_quantity :: "rat \<Rightarrow> string \<Rightarrow> string \<Rightarrow> rat option" where
  "convert_metered_quantity quantity from_unit to_unit =
     (if from_unit = to_unit then Some quantity
      else if from_unit = ''second'' \<and> to_unit = ''minute'' then Some (quantity / 60)
      else if from_unit = ''minute'' \<and> to_unit = ''second'' then Some (quantity * 60)
      else None)"

section \<open>The rate of an event\<close>

definition rate_candidate :: "pending_event \<Rightarrow> pricing_snapshot \<Rightarrow> bool" where
  "rate_candidate e s \<longleftrightarrow>
     ps_provider_type s = pe_provider_type e \<and> ps_service_type s = pe_service_type e \<and>
     ps_source s \<in> {''admin'', ''contract''} \<and> ps_effective_at s \<le> pe_started_at e \<and>
     (ps_connection_id s = None \<or> ps_connection_id s = pe_connection_id e) \<and>
     (case ps_expires_at s of None \<Rightarrow> True | Some t \<Rightarrow> t > pe_started_at e)"

text \<open>Rates of administrators are written with a unit that is text; it is read as such.\<close>

definition json_text :: "json \<Rightarrow> string option" where
  "json_text v = (case v of JString s \<Rightarrow> Some s | _ \<Rightarrow> None)"

text \<open>The unit, price and quantity with which a rate applies to an event, if it does.\<close>

definition rate_match :: "pending_event \<Rightarrow> pricing_snapshot \<Rightarrow> (string \<times> rat \<times> rat) option" where
  "rate_match e s =
     (if truthy (ps_model_id s) \<and> ps_model_id s \<noteq> pe_model_id e then None
      else
        (case ps_pricing_json s of
           Some (JObject pricing) \<Rightarrow>
             (let cunit = normalize_unit (json_text (dict_get pricing ''unit''));
                  eunit = normalize_unit (text_or (pe_unit e) (nu_metered_unit (pe_usage e)));
                  q = opt_or (pe_quantity e) (nu_metered_quantity (pe_usage e));
                  (q1, eunit1) = (if q = None \<and> cunit = ''request'' \<and> \<not> failed_status (pe_status e)
                                  then (Some 1, ''request'') else (q, eunit))
              in case finite_float (dict_get pricing ''unit_price_usd'') of
                   None \<Rightarrow> None
                 | Some price \<Rightarrow>
                     if cunit = [] then None
                     else
                       (case q1 of
                          None \<Rightarrow> None
                        | Some x \<Rightarrow>
                            (case (if eunit1 \<noteq> [] then convert_metered_quantity x eunit1 cunit else Some x) of
                               None \<Rightarrow> None
                             | Some y \<Rightarrow> Some (cunit, price, y))))
         | _ \<Rightarrow> None))"

definition matching_rates :: "pricing_snapshot list \<Rightarrow> pending_event \<Rightarrow> (pricing_snapshot \<times> string \<times> rat \<times> rat) list" where
  "matching_rates snapshots e =
     List.map_filter (\<lambda>s. map_option (Pair s) (rate_match e s)) (filter (rate_candidate e) snapshots)"

text \<open>The key by which the code takes the maximum; tuples are compared lexicographically.\<close>

definition rate_key :: "pricing_snapshot \<Rightarrow> bool \<times> bool \<times> time \<times> int" where
  "rate_key s = (ps_connection_id s \<noteq> None, ps_model_id s \<noteq> None, ps_effective_at s, ps_id s)"

fun best_rate :: "(pricing_snapshot \<times> 'a) list \<Rightarrow> (pricing_snapshot \<times> 'a) option" where
  "best_rate [] = None"
| "best_rate (x # xs) =
     (case best_rate xs of None \<Rightarrow> Some x | Some y \<Rightarrow> Some (if rate_key (fst x) < rate_key (fst y) then y else x))"

definition configured_quote :: "pending_event \<Rightarrow> pricing_snapshot \<Rightarrow> string \<Rightarrow> rat \<Rightarrow> rat \<Rightarrow> cost_quote" where
  "configured_quote e s u price quantity =
     (let calculated = max 0 (quantity * price)
      in \<lparr>cq_provider_cost_usd = cq_provider_cost_usd (pe_quote e), cq_calculated_cost_usd = Some calculated,
          cq_final_cost_usd = Some calculated, cq_cost_source = ''configured_rate'', cq_cost_confidence = ''calculated'',
          cq_line_items = [\<lparr>li_category = pe_operation_name e, li_quantity = quantity, li_unit = u,
            li_unit_price_usd = Some price, li_cost_usd = Some calculated, li_pricing_source = ''configured_rate'',
            li_metadata = [(''pricing_snapshot_id'', JInt (ps_id s))]\<rparr>],
          cq_pricing_payload = None, cq_pricing_source = Some ''configured_rate''\<rparr>)"

definition apply_configured_pricing :: "pricing_snapshot list \<Rightarrow> pending_event \<Rightarrow> pending_event" where
  "apply_configured_pricing snapshots e =
     (if cq_cost_source (pe_quote e) \<notin> {''unknown'', ''litellm'', ''provider_catalog''} then e
      else
        (case best_rate (matching_rates snapshots e) of
           None \<Rightarrow> e
         | Some (s, u, price, quantity) \<Rightarrow>
             e\<lparr>pe_quantity := Some quantity, pe_unit := Some u, pe_pricing_snapshot_id := Some (ps_id s),
               pe_quote := configured_quote e s u price quantity\<rparr>))"

section \<open>Holds\<close>

record hold_settings =
  budget_hold_buffer :: rat
  budget_max_hold_usd :: rat
  budget_unpriced_hold_usd :: rat

definition or_rat :: "rat \<Rightarrow> rat \<Rightarrow> rat" where
  "or_rat v d = (if v = 0 then d else v)"

definition hold_buffer :: "hold_settings \<Rightarrow> rat" where
  "hold_buffer settings = max 1 (min 2 (or_rat (budget_hold_buffer settings) (11 / 10)))"

definition unpriced_hold_usd :: "hold_settings \<Rightarrow> rat" where
  "unpriced_hold_usd settings =
     (let maximum = max (1 / 100) (min 100 (or_rat (budget_max_hold_usd settings) 5));
          fallback = max (1 / 10000) (or_rat (budget_unpriced_hold_usd settings) (1 / 20))
      in round8 (min maximum fallback))"

definition priced_hold_usd :: "hold_settings \<Rightarrow> rat \<Rightarrow> rat" where
  "priced_hold_usd settings quoted = round8 (max (1 / 10000) (quoted * hold_buffer settings))"

record hold_quote =
  hq_hold_usd :: rat
  hq_quoted_usd :: "rat option"
  hq_cost_source :: string
  hq_priced :: bool

text \<open>The quoted cost of a quantity at the configured rate, through the capture of a call without answer.\<close>

definition configured_metered_cost ::
    "(string \<Rightarrow> string \<Rightarrow> json) \<Rightarrow> time \<Rightarrow> pricing_snapshot list \<Rightarrow> string \<Rightarrow> string \<Rightarrow> string option \<Rightarrow> int option
      \<Rightarrow> rat \<Rightarrow> string \<Rightarrow> rat option" where
  "configured_metered_cost estimate now snapshots provider service model_id connection quantity u =
     (let e0 = capture_usage_event estimate now [] (False, JNull) None
            \<lparr>cc_model = None, cc_provider_type = Some provider, cc_service_type = service, cc_operation_name = ''budget_hold'',
             cc_model_id = model_id, cc_attempt_index = 0, cc_status = ''succeeded'', cc_started_at = None,
             cc_completed_at = None, cc_overrides = no_overrides, cc_quantity = Some quantity, cc_unit = Some u,
             cc_error_message = None, cc_idempotency_key = None\<rparr>;
          e = apply_configured_pricing snapshots (e0\<lparr>pe_connection_id := connection\<rparr>)
      in if cq_cost_source (pe_quote e) \<noteq> ''configured_rate'' then None else cq_final_cost_usd (pe_quote e))"

definition int_of :: "int option \<Rightarrow> int" where
  "int_of x = (case x of None \<Rightarrow> 0 | Some i \<Rightarrow> max 0 i)"

definition prospective_usage :: "int option \<Rightarrow> int option \<Rightarrow> rat option \<Rightarrow> string option \<Rightarrow> normalized_usage" where
  "prospective_usage prompt completion quantity u =
     \<lparr>nu_prompt_tokens = int_of prompt, nu_completion_tokens = int_of completion, nu_cached_tokens = 0,
      nu_cache_write_tokens = 0, nu_reasoning_tokens = 0, nu_web_search_requests = 0, nu_metered_quantity = quantity,
      nu_metered_unit = u, nu_provider_cost_usd = None, nu_litellm_cost_usd = None, nu_upstream_request_id = JNull\<rparr>"

definition catalog_hold_quote ::
    "ai_model option \<Rightarrow> string option \<Rightarrow> string option \<Rightarrow> rat option \<Rightarrow> string option \<Rightarrow> int option \<Rightarrow> int option \<Rightarrow> rat option" where
  "catalog_hold_quote m provider_type service_type quantity u prompt completion =
     (let (calculated, items, _) =
            catalog_quote m (prospective_usage prompt completion quantity u) (clean_type provider_type)
              (clean_type service_type) quantity u
      in case calculated of
           Some c \<Rightarrow> Some (max 0 c)
         | None \<Rightarrow> if items \<noteq> [] then Some (max 0 (items_cost items)) else None)"

definition hold_service :: "string option \<Rightarrow> string" where
  "hold_service service_type = (let s = clean_type service_type in if s \<in> {''chat'', ''completion''} then ''llm'' else s)"

record hold_request =
  hr_service_type :: "string option"
  hr_model :: "ai_model option"
  hr_provider_type :: "string option"
  hr_model_id :: "string option"
  hr_connection_id :: "int option"
  hr_quantity :: "rat option"
  hr_unit :: "string option"
  hr_prompt_tokens :: "int option"
  hr_completion_tokens :: "int option"

definition hold_provider :: "hold_request \<Rightarrow> string" where
  "hold_provider r = clean_type (text_or (hr_provider_type r) (map_option am_provider_type (hr_model r)))"

definition hold_model :: "hold_request \<Rightarrow> string option" where
  "hold_model r =
     (let m = text_or (hr_model_id r) (map_option am_external_id (hr_model r))
      in if truthy m then Some (strip (the m)) else None)"

definition int_nonzero :: "int option \<Rightarrow> bool" where
  "int_nonzero x \<longleftrightarrow> (case x of None \<Rightarrow> False | Some i \<Rightarrow> i \<noteq> 0)"

definition hold_lookup :: "hold_request \<Rightarrow> rat option \<times> string" where
  "hold_lookup r =
     (let u = lower (strip (case hr_unit r of None \<Rightarrow> [] | Some s \<Rightarrow> s))
      in if hr_quantity r = None \<and> (int_nonzero (hr_prompt_tokens r) \<or> int_nonzero (hr_completion_tokens r)) \<and>
            u \<in> {[], ''token''}
         then (Some (of_int (int_of (hr_prompt_tokens r) + int_of (hr_completion_tokens r))), ''token'')
         else (hr_quantity r, u))"

definition quote_hold ::
    "hold_settings \<Rightarrow> (string \<Rightarrow> string \<Rightarrow> json) \<Rightarrow> time \<Rightarrow> pricing_snapshot list \<Rightarrow> hold_request \<Rightarrow> hold_quote" where
  "quote_hold settings estimate now snapshots r =
     (let service = hold_service (hr_service_type r);
          provider = hold_provider r;
          (q, u) = hold_lookup r;
          configured =
            (case q of
               None \<Rightarrow> None
             | Some x \<Rightarrow> if u = [] then None
                        else configured_metered_cost estimate now snapshots provider service (hold_model r) (hr_connection_id r) x u)
      in case configured of
           Some c \<Rightarrow> \<lparr>hq_hold_usd = priced_hold_usd settings c, hq_quoted_usd = Some c, hq_cost_source = ''configured_rate'', hq_priced = True\<rparr>
         | None \<Rightarrow>
             (case catalog_hold_quote (hr_model r) (Some provider) (Some service) (hr_quantity r) (hr_unit r)
                     (hr_prompt_tokens r) (hr_completion_tokens r) of
                Some c \<Rightarrow> \<lparr>hq_hold_usd = priced_hold_usd settings c, hq_quoted_usd = Some c, hq_cost_source = ''provider_catalog'', hq_priced = True\<rparr>
              | None \<Rightarrow> \<lparr>hq_hold_usd = unpriced_hold_usd settings, hq_quoted_usd = None, hq_cost_source = ''unpriced'', hq_priced = False\<rparr>))"

section \<open>Versions of a rate\<close>

record rate_input =
  ri_provider_type :: "string option"
  ri_service_type :: "string option"
  ri_unit :: "string option"
  ri_unit_price_usd :: json
  ri_model_id :: "string option"
  ri_connection_id :: "int option"
  ri_source :: string
  ri_effective_at :: "time option"
  ri_expires_at :: "time option"
  ri_metadata :: payload

definition strip_lower :: "string option \<Rightarrow> string" where
  "strip_lower t = lower (strip (case t of None \<Rightarrow> [] | Some s \<Rightarrow> s))"

definition json_of_int :: "int option \<Rightarrow> json" where
  "json_of_int x = (case x of None \<Rightarrow> JNull | Some i \<Rightarrow> JInt i)"

definition json_of_text :: "string option \<Rightarrow> json" where
  "json_of_text x = (case x of None \<Rightarrow> JNull | Some s \<Rightarrow> JString s)"

definition scope_document :: "rate_input \<Rightarrow> json" where
  "scope_document i = JObject
     [(''provider_type'', JString (strip_lower (ri_provider_type i))), (''service_type'', JString (strip_lower (ri_service_type i))),
      (''connection_id'', json_of_int (ri_connection_id i)),
      (''model_id'', json_of_text (none_if_empty (strip (case ri_model_id i of None \<Rightarrow> [] | Some s \<Rightarrow> s))))]"

text \<open>
  \<open>sha\<close> is the digest of a document's text, \<open>isoformat\<close> the text of a time and \<open>new_id\<close> the drawn identifier.
  The rows of the scope that are active are locked, closed at the start of the new rate, and the
  new one is inserted, which the unique columns may refuse.
\<close>

definition create_configured_pricing_snapshot ::
    "(json \<Rightarrow> string) \<Rightarrow> (time \<Rightarrow> string) \<Rightarrow> time \<Rightarrow> int \<Rightarrow> rate_input \<Rightarrow> pricing_snapshot list
      \<Rightarrow> (pricing_snapshot list \<times> pricing_snapshot) result" where
  "create_configured_pricing_snapshot sha isoformat now new_id i rows =
     (let provider = strip_lower (ri_provider_type i);
          service = strip_lower (ri_service_type i);
          u = normalize_unit (ri_unit i);
          effective = (case ri_effective_at i of None \<Rightarrow> now | Some t \<Rightarrow> t);
          src = (if ri_source i = ''contract'' then ''contract'' else ''admin'');
          model = none_if_empty (strip (case ri_model_id i of None \<Rightarrow> [] | Some s \<Rightarrow> s));
          scope = sha (scope_document i)
      in case finite_float (ri_unit_price_usd i) of
           None \<Rightarrow> Inl (ValueError ''provider_type, service_type, unit and non-negative price are required'')
         | Some price \<Rightarrow>
             if provider = [] \<or> service = [] \<or> u = []
             then Inl (ValueError ''provider_type, service_type, unit and non-negative price are required'')
             else if (case ri_expires_at i of None \<Rightarrow> False | Some t \<Rightarrow> t \<le> effective)
             then Inl (ValueError ''expires_at must be later than effective_at'')
             else
               let document = JObject
                     [(''provider_type'', JString provider), (''service_type'', JString service),
                      (''connection_id'', json_of_int (ri_connection_id i)), (''model_id'', json_of_text model),
                      (''unit'', JString u), (''unit_price_usd'', JFloat price), (''source'', JString src),
                      (''metadata'', JObject (ri_metadata i)), (''effective_at'', JString (isoformat effective))];
                   row = \<lparr>ps_id = new_id, ps_connection_id = ri_connection_id i, ps_provider_type = provider,
                      ps_model_id = model, ps_service_type = service, ps_source = src, ps_fingerprint = sha document,
                      ps_active_scope_key = (if ri_expires_at i = None then Some scope else None),
                      ps_pricing_json = Some document, ps_effective_at = effective, ps_expires_at = ri_expires_at i\<rparr>;
                   closed = map (\<lambda>s. if ps_active_scope_key s = Some scope
                                     then s\<lparr>ps_expires_at := Some effective, ps_active_scope_key := None\<rparr> else s) rows
               in if sha document \<in> set (map ps_fingerprint rows)
                  then Inl (ValueError ''A configured rate for this provider scope was updated concurrently; retry'')
                  else Inr (closed @ [row], row))"

section \<open>The chosen rate\<close>

lemma matching_ratesD:
  "(s, u, price, quantity) \<in> set (matching_rates snapshots e) \<longleftrightarrow>
     s \<in> set snapshots \<and> rate_candidate e s \<and> rate_match e s = Some (u, price, quantity)"
  by (force simp: matching_rates_def List.map_filter_def)

lemma rate_match_price: "rate_match e s = Some (u, price, quantity) \<Longrightarrow> 0 \<le> price"
  by (auto simp: rate_match_def Let_def split: if_splits option.splits json.splits prod.splits intro: finite_float_nonneg)

lemma best_rate_None [simp]: "best_rate xs = None \<longleftrightarrow> xs = []"
  by (induction xs) (auto split: option.split)

lemma best_rate_max:
  assumes "best_rate xs = Some y"
  shows "y \<in> set xs \<and> (\<forall>x \<in> set xs. rate_key (fst x) \<le> rate_key (fst y))"
  using assms
proof (induction xs arbitrary: y)
  case (Cons x xs)
  show ?case
  proof (cases "best_rate xs")
    case None
    with Cons.prems show ?thesis by simp
  next
    case (Some z)
    with Cons.IH [OF Some] Cons.prems show ?thesis by (fastforce split: if_splits)
  qed
qed simp

lemma rate_key_le:
  assumes "rate_key t \<le> rate_key s"
  shows "(ps_connection_id t \<noteq> None \<longrightarrow> ps_connection_id s \<noteq> None) \<and>
    ((ps_connection_id t = None) = (ps_connection_id s = None) \<longrightarrow>
       (ps_model_id t \<noteq> None \<longrightarrow> ps_model_id s \<noteq> None) \<and>
       ((ps_model_id t = None) = (ps_model_id s = None) \<longrightarrow> ps_effective_at t \<le> ps_effective_at s))"
  using assms by (auto simp: rate_key_def)

lemma apply_configured_pricing_cases:
  obtains (same) "apply_configured_pricing snapshots e = e"
      "cq_cost_source (pe_quote e) \<notin> {''unknown'', ''litellm'', ''provider_catalog''} \<or> matching_rates snapshots e = []"
  | (rated) s u price quantity where
      "cq_cost_source (pe_quote e) \<in> {''unknown'', ''litellm'', ''provider_catalog''}"
      "best_rate (matching_rates snapshots e) = Some (s, u, price, quantity)"
      "apply_configured_pricing snapshots e =
         e\<lparr>pe_quantity := Some quantity, pe_unit := Some u, pe_pricing_snapshot_id := Some (ps_id s),
           pe_quote := configured_quote e s u price quantity\<rparr>"
proof (cases "cq_cost_source (pe_quote e) \<in> {''unknown'', ''litellm'', ''provider_catalog''}")
  case False
  then show ?thesis using same by (simp add: apply_configured_pricing_def)
next
  case True
  show ?thesis
  proof (cases "best_rate (matching_rates snapshots e)")
    case None
    with True show ?thesis using same by (simp add: apply_configured_pricing_def)
  next
    case (Some r)
    obtain s u price quantity where "r = (s, u, price, quantity)" by (metis prod_cases4)
    with True Some show ?thesis using rated [of s u price quantity] by (simp add: apply_configured_pricing_def)
  qed
qed

lemma configured_quote_sel [simp]:
  "cq_final_cost_usd (configured_quote e s u price quantity) = Some (max 0 (quantity * price))"
  "cq_cost_source (configured_quote e s u price quantity) = ''configured_rate''"
  by (simp_all add: configured_quote_def Let_def)

text \<open>
  Which configured rate prices an event. An event whose cost came from the provider keeps
  it. Otherwise, where some rate in force applies, the event is priced by one of them, quantity times
  price and not negative, and no other that applies is more specific: none is for the connection
  where the chosen one is not, among those none is for the model where the chosen is not, and among
  those none started later.
\<close>

theorem configured_rate_choice:
  assumes "e' = apply_configured_pricing snapshots e"
  shows "(cq_cost_source (pe_quote e) \<notin> {''unknown'', ''litellm'', ''provider_catalog''} \<longrightarrow> e' = e) \<and>
    (cq_cost_source (pe_quote e) \<in> {''unknown'', ''litellm'', ''provider_catalog''} \<and>
       (\<exists>s \<in> set snapshots. rate_candidate e s \<and> rate_match e s \<noteq> None) \<longrightarrow>
     (\<exists>s \<in> set snapshots. \<exists>u price quantity. rate_candidate e s \<and> rate_match e s = Some (u, price, quantity) \<and>
        pe_pricing_snapshot_id e' = Some (ps_id s) \<and>
        cq_final_cost_usd (pe_quote e') = Some (max 0 (quantity * price)) \<and> 0 \<le> price \<and>
        (\<forall>t \<in> set snapshots. rate_candidate e t \<and> rate_match e t \<noteq> None \<longrightarrow>
           (ps_connection_id t \<noteq> None \<longrightarrow> ps_connection_id s \<noteq> None) \<and>
           ((ps_connection_id t = None) = (ps_connection_id s = None) \<longrightarrow>
              (ps_model_id t \<noteq> None \<longrightarrow> ps_model_id s \<noteq> None) \<and>
              ((ps_model_id t = None) = (ps_model_id s = None) \<longrightarrow> ps_effective_at t \<le> ps_effective_at s)))))"
proof (rule apply_configured_pricing_cases [of snapshots e])
  assume same: "apply_configured_pricing snapshots e = e"
    "cq_cost_source (pe_quote e) \<notin> {''unknown'', ''litellm'', ''provider_catalog''} \<or> matching_rates snapshots e = []"
  have "cq_cost_source (pe_quote e) \<notin> {''unknown'', ''litellm'', ''provider_catalog''} \<or>
      \<not> (\<exists>s \<in> set snapshots. rate_candidate e s \<and> rate_match e s \<noteq> None)"
  proof (cases "matching_rates snapshots e = []")
    case True
    then have "(s, u, price, quantity) \<notin> set (matching_rates snapshots e)" for s u price quantity by simp
    then show ?thesis unfolding matching_ratesD by auto
  qed (use same in blast)
  with same show ?thesis unfolding assms by argo
next
  fix s u price quantity
  assume src: "cq_cost_source (pe_quote e) \<in> {''unknown'', ''litellm'', ''provider_catalog''}"
    and best: "best_rate (matching_rates snapshots e) = Some (s, u, price, quantity)"
    and e': "apply_configured_pricing snapshots e =
         e\<lparr>pe_quantity := Some quantity, pe_unit := Some u, pe_pricing_snapshot_id := Some (ps_id s),
           pe_quote := configured_quote e s u price quantity\<rparr>"
  from best_rate_max [OF best] have s: "s \<in> set snapshots" "rate_candidate e s" "rate_match e s = Some (u, price, quantity)"
    and top: "\<And>t r. (t, r) \<in> set (matching_rates snapshots e) \<Longrightarrow> rate_key t \<le> rate_key s"
    by (auto simp: matching_ratesD)
  have "rate_key t \<le> rate_key s" if "t \<in> set snapshots" "rate_candidate e t" "rate_match e t \<noteq> None" for t
  proof -
    from that(3) obtain v p q where "rate_match e t = Some (v, p, q)" by (metis not_None_eq prod_cases3)
    with that have "(t, v, p, q) \<in> set (matching_rates snapshots e)" by (simp add: matching_ratesD)
    then show ?thesis by (rule top)
  qed
  then have "\<forall>t \<in> set snapshots. rate_candidate e t \<and> rate_match e t \<noteq> None \<longrightarrow>
           (ps_connection_id t \<noteq> None \<longrightarrow> ps_connection_id s \<noteq> None) \<and>
           ((ps_connection_id t = None) = (ps_connection_id s = None) \<longrightarrow>
              (ps_model_id t \<noteq> None \<longrightarrow> ps_model_id s \<noteq> None) \<and>
              ((ps_model_id t = None) = (ps_model_id s = None) \<longrightarrow> ps_effective_at t \<le> ps_effective_at s))"
    using rate_key_le by blast
  with s src e' rate_match_price [OF s(3)] show ?thesis unfolding assms by auto
qed

definition request_rate :: "int \<Rightarrow> int option \<Rightarrow> rat \<Rightarrow> pricing_snapshot" where
  "request_rate n connection price = \<lparr>ps_id = n, ps_connection_id = connection, ps_provider_type = ''openrouter'', ps_model_id = None,
     ps_service_type = ''llm'', ps_source = ''admin'', ps_fingerprint = show_int n, ps_active_scope_key = None,
     ps_pricing_json = Some (JObject [(''unit'', JString ''request''), (''unit_price_usd'', JFloat price)]),
     ps_effective_at = n, ps_expires_at = None\<rparr>"

definition chat_answer :: json where
  "chat_answer = JObject [(''usage'', JObject [(''prompt_tokens'', JInt 1000), (''completion_tokens'', JInt 200)])]"

theorem configured_rate_choice_witness:
  "pe_pricing_snapshot_id (apply_configured_pricing [request_rate 4 None (1 / 50), request_rate 2 (Some 3) (1 / 20)]
      (capture_usage_event (\<lambda>_ _. JNull) 5 ''u'' (True, chat_answer) None sample_call)) = Some 2"
proof -
  let ?e = "capture_usage_event (\<lambda>_ _. JNull) 5 ''u'' (True, chat_answer) None sample_call"
  let ?s = "request_rate 4 None (1 / 50)" and ?t = "request_rate 2 (Some 3) (1 / 20)"
  have src: "cq_cost_source (pe_quote ?e) = ''provider_catalog''" by code_simp
  have t: "rate_candidate ?e ?t \<and> rate_match ?e ?t \<noteq> None" by code_simp
  have k: "ps_connection_id ?t \<noteq> None" "ps_connection_id ?s = None" "ps_id ?t = 2" by (simp_all add: request_rate_def)
  from src t k show ?thesis
    using configured_rate_choice [OF refl, of ?e "[?s, ?t]"] by auto
qed

section \<open>Amounts held\<close>

lemma hold_buffer_bounds: "1 \<le> hold_buffer settings" "hold_buffer settings \<le> 2"
  by (simp_all add: hold_buffer_def)

lemma round8_grid_10000: "round8 (1 / 10000) = 1 / 10000"
  by (rule py_round_id, rule on_gridI [where k = 10000]) simp

lemma priced_hold_bounds:
  assumes "0 \<le> c"
  shows "round8 c \<le> priced_hold_usd settings c" and "1 / 10000 \<le> priced_hold_usd settings c"
    and "priced_hold_usd settings c \<le> max (1 / 10000) (round8 (2 * c))"
proof -
  have "c \<le> c * hold_buffer settings" using mult_left_mono [OF hold_buffer_bounds(1) assms] by simp
  then show "round8 c \<le> priced_hold_usd settings c"
    unfolding priced_hold_usd_def by (intro py_round_mono) simp
  show "1 / 10000 \<le> priced_hold_usd settings c"
    unfolding priced_hold_usd_def by (subst round8_grid_10000 [symmetric], rule py_round_mono) simp
  have "c * hold_buffer settings \<le> 2 * c"
    using mult_left_mono [OF hold_buffer_bounds(2) assms, of settings] by (simp add: mult.commute)
  then have "priced_hold_usd settings c \<le> round8 (max (1 / 10000) (2 * c))"
    unfolding priced_hold_usd_def by (intro py_round_mono) auto
  then show "priced_hold_usd settings c \<le> max (1 / 10000) (round8 (2 * c))"
    by (simp add: max_def round8_grid_10000 split: if_splits)
qed

lemma unpriced_hold_bounds: "1 / 10000 \<le> unpriced_hold_usd settings" "unpriced_hold_usd settings \<le> 100"
proof -
  have g: "round8 100 = 100" by (rule py_round_id, rule on_gridI [where k = "100 * 10 ^ 8"]) simp
  let ?m = "min (max (1 / 100) (min 100 (or_rat (budget_max_hold_usd settings) 5)))
    (max (1 / 10000) (or_rat (budget_unpriced_hold_usd settings) (1 / 20)))"
  have u: "unpriced_hold_usd settings = round8 ?m" by (simp add: unpriced_hold_usd_def Let_def)
  have "round8 (1 / 10000) \<le> round8 ?m" by (rule py_round_mono) simp
  then show "1 / 10000 \<le> unpriced_hold_usd settings" by (simp add: u round8_grid_10000)
  have "round8 ?m \<le> round8 100" by (rule py_round_mono) (simp add: min_def max_def)
  then show "unpriced_hold_usd settings \<le> 100" by (simp add: u g)
qed

lemma apply_configured_source:
  assumes "cq_cost_source (pe_quote e) \<noteq> ''configured_rate''"
    and "cq_cost_source (pe_quote (apply_configured_pricing snapshots e)) = ''configured_rate''"
    and "cq_final_cost_usd (pe_quote (apply_configured_pricing snapshots e)) = Some c"
  shows "0 \<le> c"
  using assms by (cases rule: apply_configured_pricing_cases [of snapshots e]) auto

lemma quote_usage_source: "cq_cost_source (quote_usage estimate usage m p s mid q u) \<noteq> ''configured_rate''"
  by (auto simp: quote_usage_def unknown_quote_def Let_def split: option.split prod.split)

lemma capture_source: "cq_cost_source (pe_quote (capture_usage_event estimate now uuid answer fallback call)) \<noteq> ''configured_rate''"
  using quote_usage_source by (simp add: capture_usage_event_def unknown_quote_def Let_def)

lemma configured_metered_cost_nonneg:
  assumes "configured_metered_cost estimate now snapshots provider service mid connection quantity u = Some c"
  shows "0 \<le> c"
  using assms unfolding configured_metered_cost_def Let_def
  by (auto split: if_splits elim!: apply_configured_source [rotated] simp: capture_source)

lemma catalog_hold_quote_nonneg: "catalog_hold_quote m p s q u pt ct = Some c \<Longrightarrow> 0 \<le> c"
  by (auto simp: catalog_hold_quote_def Let_def split: option.splits prod.splits if_splits)

text \<open>
  What is held for a call. A priced hold is at least the quoted price and at most twice it,
  up to rounding and the smallest hold of a hundredth of a cent; a call without any price is held
  at an amount between that and a hundred dollars, whatever is configured.
\<close>

theorem hold_covers_quote:
  "let q = quote_hold settings estimate now snapshots r
   in 1 / 10000 \<le> hq_hold_usd q \<and>
      (case hq_quoted_usd q of
         Some c \<Rightarrow> 0 \<le> c \<and> hq_priced q \<and> round8 c \<le> hq_hold_usd q \<and> hq_hold_usd q \<le> max (1 / 10000) (round8 (2 * c))
       | None \<Rightarrow> \<not> hq_priced q \<and> hq_cost_source q = ''unpriced'' \<and> hq_hold_usd q \<le> 100)"
proof -
  define q where "q = quote_hold settings estimate now snapshots r"
  have "(\<exists>c \<ge> 0. q = \<lparr>hq_hold_usd = priced_hold_usd settings c, hq_quoted_usd = Some c, hq_cost_source = ''configured_rate'', hq_priced = True\<rparr>) \<or>
      (\<exists>c \<ge> 0. q = \<lparr>hq_hold_usd = priced_hold_usd settings c, hq_quoted_usd = Some c, hq_cost_source = ''provider_catalog'', hq_priced = True\<rparr>) \<or>
      q = \<lparr>hq_hold_usd = unpriced_hold_usd settings, hq_quoted_usd = None, hq_cost_source = ''unpriced'', hq_priced = False\<rparr>"
    unfolding q_def quote_hold_def Let_def
    by (auto split: prod.split option.split if_splits intro: configured_metered_cost_nonneg catalog_hold_quote_nonneg)
  then have "1 / 10000 \<le> hq_hold_usd q \<and>
      (case hq_quoted_usd q of
         Some c \<Rightarrow> 0 \<le> c \<and> hq_priced q \<and> round8 c \<le> hq_hold_usd q \<and> hq_hold_usd q \<le> max (1 / 10000) (round8 (2 * c))
       | None \<Rightarrow> \<not> hq_priced q \<and> hq_cost_source q = ''unpriced'' \<and> hq_hold_usd q \<le> 100)"
    using priced_hold_bounds [of _ settings] unpriced_hold_bounds [of settings] by (elim disjE exE conjE) simp_all
  then show ?thesis unfolding q_def Let_def .
qed

section \<open>Rates per token\<close>

definition snapshot_unit :: "pricing_snapshot \<Rightarrow> string" where
  "snapshot_unit s = (case ps_pricing_json s of Some (JObject d) \<Rightarrow> normalize_unit (json_text (dict_get d ''unit'')) | _ \<Rightarrow> [])"

lemma rate_match_needs_quantity:
  assumes "pe_quantity e = None" and "nu_metered_quantity (pe_usage e) = None" and "snapshot_unit s \<noteq> ''request''"
  shows "rate_match e s = None"
  using assms
  by (auto simp: rate_match_def snapshot_unit_def opt_or_def Let_def split: option.splits json.splits prod.splits if_splits)


definition token_rate :: pricing_snapshot where
  "token_rate = \<lparr>ps_id = 1, ps_connection_id = None, ps_provider_type = ''openrouter'', ps_model_id = None,
     ps_service_type = ''llm'', ps_source = ''contract'', ps_fingerprint = ''f'', ps_active_scope_key = Some ''s'',
     ps_pricing_json = Some (JObject [(''unit'', JString ''token''), (''unit_price_usd'', JFloat (1 / 10000))]),
     ps_effective_at = 0, ps_expires_at = None\<rparr>"

definition chat_hold :: hold_request where
  "chat_hold = \<lparr>hr_service_type = Some ''chat'', hr_model = Some sample_model, hr_provider_type = None, hr_model_id = None,
     hr_connection_id = Some 3, hr_quantity = None, hr_unit = None, hr_prompt_tokens = Some 1000, hr_completion_tokens = Some 200\<rparr>"


section \<open>Versions of a rate, properties\<close>

text \<open>Every scope has at most one active row, and active rows have no end.\<close>

definition active_keys :: "pricing_snapshot list \<Rightarrow> string list" where
  "active_keys rows = List.map_filter ps_active_scope_key rows"

definition rates_inv :: "pricing_snapshot list \<Rightarrow> bool" where
  "rates_inv rows \<longleftrightarrow> distinct (active_keys rows) \<and> (\<forall>s \<in> set rows. ps_active_scope_key s \<noteq> None \<longrightarrow> ps_expires_at s = None)"

definition close_scope :: "string \<Rightarrow> time \<Rightarrow> pricing_snapshot \<Rightarrow> pricing_snapshot" where
  "close_scope scope effective s =
     (if ps_active_scope_key s = Some scope then s\<lparr>ps_expires_at := Some effective, ps_active_scope_key := None\<rparr> else s)"

lemma active_keys_simps [simp]:
  "active_keys [] = []"
  "active_keys (s # rows) = (case ps_active_scope_key s of None \<Rightarrow> [] | Some k \<Rightarrow> [k]) @ active_keys rows"
  "active_keys (rows @ rows') = active_keys rows @ active_keys rows'"
  by (simp_all add: active_keys_def List.map_filter_def split: option.split)

lemma active_keys_close: "active_keys (map (close_scope scope t) rows) = filter (\<lambda>k. k \<noteq> scope) (active_keys rows)"
  by (induction rows) (auto simp: close_scope_def split: option.split)

lemma create_cases:
  assumes "create_configured_pricing_snapshot sha isoformat now new_id i rows = Inr (rows', row)"
  obtains effective where
    "effective = (case ri_effective_at i of None \<Rightarrow> now | Some t \<Rightarrow> t)"
    "rows' = map (close_scope (sha (scope_document i)) effective) rows @ [row]"
    "ps_active_scope_key row = (if ri_expires_at i = None then Some (sha (scope_document i)) else None)"
    "ps_effective_at row = effective" "ps_expires_at row = ri_expires_at i" "ps_id row = new_id"
    "case ri_expires_at i of None \<Rightarrow> True | Some t \<Rightarrow> effective < t"
    "ps_provider_type row = strip_lower (ri_provider_type i)" "ps_service_type row = strip_lower (ri_service_type i)"
    "ps_source row \<in> {''admin'', ''contract''}"
  using assms unfolding create_configured_pricing_snapshot_def Let_def close_scope_def [abs_def]
  by (auto split: option.splits if_splits)

lemma filter_close: "filter (\<lambda>s. ps_active_scope_key s = Some scope) (map (close_scope scope t) rows) = []"
  by (induction rows) (auto simp: close_scope_def)

text \<open>
  A new rate replaces the one in force for its scope. At most one row of a scope stays
  active, and active rows have no end; what was active ends where the new rate starts and prices
  nothing from then on; other rows are not touched. A rate that has an end itself also ends the
  active one, and leaves the scope with no active row.
\<close>

theorem rate_versions:
  assumes "rates_inv rows"
    and "create_configured_pricing_snapshot sha isoformat now new_id i rows = Inr (rows', row)"
  shows "rates_inv rows' \<and>
    filter (\<lambda>s. ps_active_scope_key s = Some (sha (scope_document i))) rows' = (if ri_expires_at i = None then [row] else []) \<and>
    (\<forall>s \<in> set rows. if ps_active_scope_key s = Some (sha (scope_document i))
       then \<exists>s' \<in> set rows'. ps_id s' = ps_id s \<and> ps_expires_at s' = Some (ps_effective_at row) \<and>
              (\<forall>e. ps_effective_at row \<le> pe_started_at e \<longrightarrow> \<not> rate_candidate e s')
       else s \<in> set rows')"
proof -
  let ?scope = "sha (scope_document i)"
  from assms(2) obtain effective where rows': "rows' = map (close_scope ?scope effective) rows @ [row]"
    and key: "ps_active_scope_key row = (if ri_expires_at i = None then Some ?scope else None)"
    and eff: "ps_effective_at row = effective" and exp: "ps_expires_at row = ri_expires_at i"
    by (rule create_cases)
  have "rates_inv rows'"
    using assms(1) key exp unfolding rates_inv_def rows'
    by (auto simp: active_keys_close close_scope_def split: if_splits)
  moreover have "filter (\<lambda>s. ps_active_scope_key s = Some ?scope) rows' = (if ri_expires_at i = None then [row] else [])"
    unfolding rows' by (simp add: filter_close key)
  moreover have "if ps_active_scope_key s = Some ?scope
       then \<exists>s' \<in> set rows'. ps_id s' = ps_id s \<and> ps_expires_at s' = Some (ps_effective_at row) \<and>
              (\<forall>e. ps_effective_at row \<le> pe_started_at e \<longrightarrow> \<not> rate_candidate e s')
       else s \<in> set rows'" if "s \<in> set rows" for s
  proof -
    from that have c: "close_scope ?scope effective s \<in> set rows'" by (simp add: rows')
    show ?thesis
    proof (cases "ps_active_scope_key s = Some ?scope")
      case True
      then have "ps_id (close_scope ?scope effective s) = ps_id s" "ps_expires_at (close_scope ?scope effective s) = Some effective"
        by (simp_all add: close_scope_def)
      with c True show ?thesis unfolding eff rate_candidate_def by (intro if_P [THEN iffD2] bexI [OF _ c]) auto
    next
      case False
      with c show ?thesis by (simp add: close_scope_def)
    qed
  qed
  ultimately show ?thesis by blast
qed

definition sample_rate_input :: rate_input where
  "sample_rate_input = \<lparr>ri_provider_type = Some ''OpenRouter'', ri_service_type = Some ''llm'', ri_unit = Some ''Requests'',
     ri_unit_price_usd = JString ''0.02'', ri_model_id = None, ri_connection_id = None, ri_source = ''admin'',
     ri_effective_at = Some 10, ri_expires_at = None, ri_metadata = []\<rparr>"

definition sample_digest :: "json \<Rightarrow> string" where
  "sample_digest v = (if value_of v ''unit'' = JNull then ''s'' else ''g'')"

theorem rate_versions_witness:
  "(case create_configured_pricing_snapshot sample_digest show_int 12 2 sample_rate_input [token_rate] of
      Inl e \<Rightarrow> False
    | Inr (rows', row) \<Rightarrow> rates_inv rows' \<and> filter (\<lambda>s. ps_active_scope_key s = Some ''s'') rows' = [row] \<and> map ps_expires_at rows' = [Some 10, None])"
proof -
  have "case create_configured_pricing_snapshot sample_digest show_int 12 2 sample_rate_input [token_rate] of
      Inl _ \<Rightarrow> False | Inr (rows', row) \<Rightarrow> map ps_expires_at rows' = [Some 10, None]"
    by code_simp
  then obtain rows' row where c: "create_configured_pricing_snapshot sample_digest show_int 12 2 sample_rate_input [token_rate] = Inr (rows', row)"
    and m: "map ps_expires_at rows' = [Some 10, None]"
    by (auto split: sum.splits)
  have k: "sample_digest (scope_document sample_rate_input) = ''s''" "ri_expires_at sample_rate_input = None" by code_simp+
  have "rates_inv [token_rate]" by (simp add: rates_inv_def token_rate_def)
  from rate_versions [OF this c] m k show ?thesis unfolding c by simp
qed

end
