(* ===== verification/Usage_Ledger.thy ===== *)
theory Usage_Ledger
  imports Budget_System Usage_Pricing
begin

text \<open>
  The books (\<open>services/usage_accounting_service.py\<close>, third part, and
  \<open>services/usage_logging_service.py\<close>): every billed call ends in \<open>log_usage\<close>, which writes the request
  log, the operation with its events and ledger debits, and charges the subject once, by settling
  its hold or directly. A provider's later report corrects an event, its ledger and the subject by
  the difference. Columns that no modelled function reads are left out of the rows.
\<close>

section \<open>Data\<close>

record accounting_summary =
  as_operation_id :: string
  as_total_cost_usd :: rat
  as_provider_cost_usd :: "rat option"
  as_calculated_cost_usd :: "rat option"
  as_cost_source :: string
  as_cost_confidence :: string
  as_unpriced_event_count :: nat
  as_prompt_tokens :: int
  as_completion_tokens :: int
  as_cached_tokens :: int
  as_created :: bool

record usage_event =
  ue_id :: string
  ue_operation_id :: string
  ue_connection_id :: "int option"
  ue_pricing_snapshot_id :: "int option"
  ue_reconciliation_run_id :: "string option"
  ue_provider_type :: string
  ue_service_type :: string
  ue_idempotency_key :: string
  ue_status :: string
  ue_provider_cost_usd :: "rat option"
  ue_calculated_cost_usd :: "rat option"
  ue_final_cost_usd :: "rat option"
  ue_cost_source :: string
  ue_cost_confidence :: string
  ue_started_at :: time
  ue_completed_at :: time
  ue_reconciled_at :: "time option"

record usage_operation =
  uo_id :: string
  uo_subject_type :: subject_type
  uo_subject_id :: "int option"
  uo_user_id :: "int option"
  uo_alpha_router_api_key_id :: "int option"
  uo_budget_reservation_id :: "string option"
  uo_idempotency_key :: string
  uo_accounting_status :: string
  uo_total_cost_usd :: rat
  uo_provider_cost_usd :: "rat option"
  uo_calculated_cost_usd :: "rat option"
  uo_unpriced_event_count :: nat
  uo_reconciled_at :: "time option"

record reconciliation_run =
  rr_id :: string
  rr_provider_type :: string
  rr_source :: string
  rr_status :: string
  rr_expected_cost_usd :: rat
  rr_reported_cost_usd :: rat
  rr_adjustment_usd :: rat
  rr_matched_event_count :: nat
  rr_unmatched_event_count :: nat
  rr_error_message :: "string option"
  rr_completed_at :: "time option"

text \<open>The budget database with its ledger and request logs, and the tables beside it.\<close>

record books =
  bk_db :: db
  bk_operations :: "usage_operation list"
  bk_events :: "usage_event list"
  bk_line_items :: "(string \<times> line_item_quote) list"
  bk_snapshots :: "pricing_snapshot list"
  bk_runs :: "reconciliation_run list"

definition or_zero :: "rat option \<Rightarrow> rat" where
  "or_zero x = (case x of None \<Rightarrow> 0 | Some v \<Rightarrow> v)"

text \<open>\<open>SUM\<close> over a nullable column: null when no value is there.\<close>

definition sum_some :: "rat option list \<Rightarrow> rat option" where
  "sum_some xs = (if list_all (\<lambda>x. x = None) xs then None else Some (sum_list (map or_zero xs)))"

section \<open>Operations\<close>

definition one_value :: "string list \<Rightarrow> bool" where
  "one_value xs \<longleftrightarrow> xs \<noteq> [] \<and> list_all (\<lambda>x. x = hd xs) xs"

definition event_cost :: "pending_event \<Rightarrow> rat option" where
  "event_cost e = cq_final_cost_usd (pe_quote e)"

definition summarize_pending_events :: "pending_event list \<Rightarrow> accounting_summary" where
  "summarize_pending_events events =
     (let unpriced = length (filter (\<lambda>e. event_cost e = None) events);
          confidences = map (\<lambda>e. cq_cost_confidence (pe_quote e)) events;
          sources = map (\<lambda>e. cq_cost_source (pe_quote e)) events;
          (confidence, src) =
            (if events = [] then (''unknown'', ''unknown'')
             else if one_value confidences then (hd confidences, if one_value sources then hd sources else ''mixed'')
             else if 0 < unpriced then (''unknown'', ''mixed'')
             else (''estimated'', ''mixed''))
      in \<lparr>as_operation_id = [], as_total_cost_usd = max 0 (sum_list (map (\<lambda>e. or_zero (event_cost e)) events)),
          as_provider_cost_usd = sum_some (map (\<lambda>e. cq_provider_cost_usd (pe_quote e)) events),
          as_calculated_cost_usd = sum_some (map (\<lambda>e. cq_calculated_cost_usd (pe_quote e)) events),
          as_cost_source = src, as_cost_confidence = confidence, as_unpriced_event_count = unpriced,
          as_prompt_tokens = sum_list (map (\<lambda>e. nu_prompt_tokens (pe_usage e)) events),
          as_completion_tokens = sum_list (map (\<lambda>e. nu_completion_tokens (pe_usage e)) events),
          as_cached_tokens = sum_list (map (\<lambda>e. nu_cached_tokens (pe_usage e)) events), as_created = True\<rparr>)"

definition accounting_status :: "nat \<Rightarrow> nat \<Rightarrow> string" where
  "accounting_status n unpriced =
     (if n = 0 \<or> unpriced = n then ''unpriced'' else if 0 < unpriced then ''partial'' else ''priced'')"

text \<open>Where no subject is given, the row carries the type the caller named, or an empty one.\<close>

definition subject_of :: "int option \<Rightarrow> int option \<Rightarrow> string option \<Rightarrow> subject_type \<times> int option" where
  "subject_of user_id key_id subject_type =
     (case key_id of
        Some k \<Rightarrow> (SUBJECT_ALPHA_ROUTER_KEY, Some k)
      | None \<Rightarrow> (case user_id of
          Some u \<Rightarrow> (SUBJECT_USER, Some u)
        | None \<Rightarrow> (SUBJECT_OTHER (if truthy subject_type then the subject_type else []), None)))"

definition operation_key :: "string option \<Rightarrow> string option \<Rightarrow> string \<Rightarrow> string" where
  "operation_key idempotency_key reservation_id uuid =
     (if truthy idempotency_key then clip 200 (the idempotency_key)
      else if truthy reservation_id then ''usage-operation:reservation:'' @ the reservation_id
      else ''usage-operation:'' @ uuid)"

text \<open>The catalogue prices an event was calculated from, stored once per content.\<close>

definition pricing_snapshot_of ::
    "(json \<Rightarrow> string) \<Rightarrow> pending_event \<Rightarrow> pricing_snapshot list \<Rightarrow> pricing_snapshot list \<times> int option" where
  "pricing_snapshot_of sha e snaps =
     (case pe_pricing_snapshot_id e of
        Some i \<Rightarrow> (snaps, map_option ps_id (fetch ps_id i snaps))
      | None \<Rightarrow>
          (case cq_pricing_payload (pe_quote e) of
             None \<Rightarrow> (snaps, None)
           | Some [] \<Rightarrow> (snaps, None)
           | Some doc \<Rightarrow>
               (case fetch ps_fingerprint (sha (JObject doc)) snaps of
                  Some s \<Rightarrow> (snaps, Some (ps_id s))
                | None \<Rightarrow>
                    let i = Max (set (0 # map ps_id snaps)) + 1;
                        row = \<lparr>ps_id = i, ps_connection_id = pe_connection_id e, ps_provider_type = pe_provider_type e,
                          ps_model_id = pe_model_id e, ps_service_type = pe_service_type e,
                          ps_source = (case cq_pricing_source (pe_quote e) of
                             Some s \<Rightarrow> if s = [] then ''provider_catalog'' else s | None \<Rightarrow> ''provider_catalog''),
                          ps_fingerprint = sha (JObject doc), ps_active_scope_key = None,
                          ps_pricing_json = Some (JObject doc), ps_effective_at = pe_started_at e, ps_expires_at = None\<rparr>
                    in (snaps @ [row], Some i))))"

definition event_row :: "string \<Rightarrow> (string \<Rightarrow> string) \<Rightarrow> int option \<Rightarrow> pending_event \<Rightarrow> usage_event" where
  "event_row op_id uuid snap p =
     \<lparr>ue_id = uuid (pe_idempotency_key p), ue_operation_id = op_id, ue_connection_id = pe_connection_id p,
      ue_pricing_snapshot_id = snap, ue_reconciliation_run_id = None, ue_provider_type = pe_provider_type p,
      ue_service_type = pe_service_type p, ue_idempotency_key = pe_idempotency_key p, ue_status = clip 24 (pe_status p),
      ue_provider_cost_usd = cq_provider_cost_usd (pe_quote p), ue_calculated_cost_usd = cq_calculated_cost_usd (pe_quote p),
      ue_final_cost_usd = event_cost p, ue_cost_source = cq_cost_source (pe_quote p),
      ue_cost_confidence = cq_cost_confidence (pe_quote p), ue_started_at = pe_started_at p,
      ue_completed_at = pe_completed_at p, ue_reconciled_at = None\<rparr>"

definition debit_key :: "string \<Rightarrow> string" where
  "debit_key k = clip 240 (''ledger:'' @ k @ '':debit'')"

definition debit_rows :: "usage_operation \<Rightarrow> string \<Rightarrow> pending_event \<Rightarrow> ledger_entry list" where
  "debit_rows operation event_id p =
     (case event_cost p of
        None \<Rightarrow> []
      | Some cost \<Rightarrow>
          [\<lparr>l_subject_type = uo_subject_type operation, l_subject_id = uo_subject_id operation, l_amount_usd = cost,
            l_effective_at = pe_completed_at p, l_operation_id = uo_id operation, l_usage_event_id = event_id,
            l_idempotency_key = debit_key (pe_idempotency_key p)\<rparr>])"

text \<open>The loop over the events: snapshot, event, line items and debit; the unique columns may refuse.\<close>

fun store_events ::
    "(json \<Rightarrow> string) \<Rightarrow> (string \<Rightarrow> string) \<Rightarrow> usage_operation \<Rightarrow> pending_event list \<Rightarrow> books \<Rightarrow> books result" where
  "store_events sha uuid operation [] bk = Inr bk"
| "store_events sha uuid operation (p # ps) bk =
     (let (snaps, snap) = pricing_snapshot_of sha p (bk_snapshots bk);
          row = event_row (uo_id operation) uuid snap p;
          entries = debit_rows operation (ue_id row) p
      in if ue_id row \<in> set (map ue_id (bk_events bk)) \<or>
            ue_idempotency_key row \<in> set (map ue_idempotency_key (bk_events bk)) \<or>
            (\<exists>x \<in> set entries. l_idempotency_key x \<in> set (map l_idempotency_key (ledger (bk_db bk))))
         then Inl IntegrityError
         else store_events sha uuid operation ps
           (bk\<lparr>bk_snapshots := snaps, bk_events := bk_events bk @ [row],
               bk_line_items := bk_line_items bk @ map (Pair (ue_id row)) (cq_line_items (pe_quote p)),
               bk_db := (bk_db bk)\<lparr>ledger := ledger (bk_db bk) @ entries\<rparr>\<rparr>))"

text \<open>
  The operation with its events and debits; an operation under the same key is answered with
  \<open>created = False\<close>. \<open>op_id\<close> and \<open>uuid\<close> are the identifiers drawn for the operation and for the events.
\<close>

definition existing_summary :: "usage_operation \<Rightarrow> accounting_summary" where
  "existing_summary o1 = \<lparr>as_operation_id = uo_id o1, as_total_cost_usd = uo_total_cost_usd o1,
     as_provider_cost_usd = uo_provider_cost_usd o1, as_calculated_cost_usd = uo_calculated_cost_usd o1,
     as_cost_source = ''existing'', as_cost_confidence = ''unknown'', as_unpriced_event_count = uo_unpriced_event_count o1,
     as_prompt_tokens = 0, as_completion_tokens = 0, as_cached_tokens = 0, as_created = False\<rparr>"

definition new_operation ::
    "string \<Rightarrow> string \<Rightarrow> pending_event list \<Rightarrow> int option \<Rightarrow> int option \<Rightarrow> string option \<Rightarrow> string option \<Rightarrow> usage_operation" where
  "new_operation op_id key events user_id key_id reservation_id subject_type =
     (let summary = summarize_pending_events events; subject = subject_of user_id key_id subject_type
      in \<lparr>uo_id = op_id, uo_subject_type = fst subject, uo_subject_id = snd subject, uo_user_id = user_id,
          uo_alpha_router_api_key_id = key_id, uo_budget_reservation_id = reservation_id, uo_idempotency_key = key,
          uo_accounting_status = accounting_status (length events) (as_unpriced_event_count summary),
          uo_total_cost_usd = as_total_cost_usd summary, uo_provider_cost_usd = as_provider_cost_usd summary,
          uo_calculated_cost_usd = as_calculated_cost_usd summary,
          uo_unpriced_event_count = as_unpriced_event_count summary, uo_reconciled_at = None\<rparr>)"

definition persist_usage_operation ::
    "(json \<Rightarrow> string) \<Rightarrow> string \<Rightarrow> (string \<Rightarrow> string) \<Rightarrow> pending_event list \<Rightarrow> int option \<Rightarrow> int option \<Rightarrow> string option
      \<Rightarrow> string option \<Rightarrow> string option \<Rightarrow> books \<Rightarrow> (books \<times> accounting_summary) result" where
  "persist_usage_operation sha op_id uuid events0 user_id key_id reservation_id idempotency_key subject_type bk =
     (let events = map (apply_configured_pricing (bk_snapshots bk)) events0;
          key = operation_key idempotency_key reservation_id op_id;
          operation = new_operation op_id key events user_id key_id reservation_id subject_type
      in case fetch uo_idempotency_key key (bk_operations bk) of
           Some existing \<Rightarrow> Inr (bk, existing_summary existing)
         | None \<Rightarrow>
             if op_id \<in> set (map uo_id (bk_operations bk)) then Inl (LookupError ''No row was found'')
             else
               (case store_events sha uuid operation events (bk\<lparr>bk_operations := bk_operations bk @ [operation]\<rparr>) of
                  Inl e \<Rightarrow> Inl e
                | Inr bk1 \<Rightarrow> Inr (bk1, (summarize_pending_events events)\<lparr>as_operation_id := op_id\<rparr>)))"

section \<open>Logging a call\<close>

definition sanitize_cost_usd :: "rat \<Rightarrow> rat" where
  "sanitize_cost_usd cost = (if cost \<ge> 0 then cost else 0)"

definition apply_cost_to_user :: "int \<Rightarrow> rat \<Rightarrow> db \<Rightarrow> db" where
  "apply_cost_to_user uid cost db =
     (if cost \<le> 0 then db else update_user uid (\<lambda>u. u\<lparr>u_budget_used_usd := u_budget_used_usd u + cost\<rparr>) db)"

record usage_call =
  uc_user_id :: "int option"
  uc_alpha_router_api_key_id :: "int option"
  uc_model_id :: string
  uc_total_cost_usd :: rat
  uc_prompt_tokens :: int
  uc_completion_tokens :: int
  uc_cached_tokens :: int
  uc_budget_reservation_id :: "string option"
  uc_usage_events :: "pending_event list"
  uc_operation_type :: string
  uc_operation_idempotency_key :: "string option"
  uc_subject_type :: "string option"
  uc_charge_budget :: bool

definition legacy_usage_event :: "time \<Rightarrow> string \<Rightarrow> usage_call \<Rightarrow> pending_event" where
  "legacy_usage_event now uuid call =
     (let cost = max 0 (uc_total_cost_usd call)
      in \<lparr>pe_provider_type = ''unknown'', pe_service_type = ''llm'', pe_operation_name = uc_operation_type call,
          pe_model_id = Some (uc_model_id call), pe_connection_id = None, pe_attempt_index = 0, pe_status = ''succeeded'',
          pe_usage = \<lparr>nu_prompt_tokens = max 0 (uc_prompt_tokens call), nu_completion_tokens = max 0 (uc_completion_tokens call),
            nu_cached_tokens = max 0 (uc_cached_tokens call), nu_cache_write_tokens = 0, nu_reasoning_tokens = 0,
            nu_web_search_requests = 0, nu_metered_quantity = None, nu_metered_unit = None, nu_provider_cost_usd = None,
            nu_litellm_cost_usd = None, nu_upstream_request_id = JNull\<rparr>,
          pe_quote = \<lparr>cq_provider_cost_usd = None, cq_calculated_cost_usd = Some cost, cq_final_cost_usd = Some cost,
            cq_cost_source = ''legacy'', cq_cost_confidence = ''estimated'',
            cq_line_items = [\<lparr>li_category = ''legacy_request'', li_quantity = 1, li_unit = ''request'',
              li_unit_price_usd = Some cost, li_cost_usd = Some cost, li_pricing_source = ''legacy'', li_metadata = []\<rparr>],
            cq_pricing_payload = None, cq_pricing_source = None\<rparr>,
          pe_started_at = now, pe_completed_at = now, pe_idempotency_key = ''usage-event:'' @ uuid, pe_quantity = None,
          pe_unit = None, pe_error_message = None, pe_pricing_snapshot_id = None\<rparr>)"

text \<open>How a call that was recorded is charged: through its hold, else to the key, else to the user.\<close>

definition charge_call :: "time \<Rightarrow> usage_call \<Rightarrow> rat \<Rightarrow> int \<Rightarrow> db \<Rightarrow> db" where
  "charge_call now call cost log_id db =
     (let (db1, settled) = (if truthy (uc_budget_reservation_id call)
            then settle now db (the (uc_budget_reservation_id call)) cost (Some log_id) else (db, False))
      in if \<not> settled \<and> int_nonzero (uc_alpha_router_api_key_id call) \<and> cost > 0 then
           (case fetch k_id (the (uc_alpha_router_api_key_id call)) (api_keys db1) of
              None \<Rightarrow> db1
            | Some key \<Rightarrow> record_key_usage now db1 (k_id key) cost)
         else if \<not> settled \<and> int_nonzero (uc_user_id call) \<and> cost > 0 \<and> uc_charge_budget call
         then apply_cost_to_user (the (uc_user_id call)) cost db1
         else db1)"

text \<open>
  The single write path. The insert of the log row is checked against its unique reservation
  column before the operation is looked up. \<open>log_id\<close>, \<open>op_id\<close> and \<open>uuid\<close> are drawn identifiers.
\<close>

definition call_events :: "time \<Rightarrow> string \<Rightarrow> usage_call \<Rightarrow> pending_event list" where
  "call_events now uuid call =
     (if uc_usage_events call = [] then [legacy_usage_event now uuid call] else uc_usage_events call)"

definition log_usage ::
    "(json \<Rightarrow> string) \<Rightarrow> time \<Rightarrow> int \<Rightarrow> string \<Rightarrow> (string \<Rightarrow> string) \<Rightarrow> usage_call \<Rightarrow> books \<Rightarrow> (books \<times> int option) result" where
  "log_usage sha now log_id op_id uuid call bk =
     (if uc_budget_reservation_id call \<noteq> None \<and>
         uc_budget_reservation_id call \<in> set (map q_budget_reservation_id (request_logs (bk_db bk)))
      then Inl IntegrityError
      else
        (case persist_usage_operation sha op_id uuid (call_events now op_id call) (uc_user_id call)
                (uc_alpha_router_api_key_id call) (uc_budget_reservation_id call) (uc_operation_idempotency_key call)
                (uc_subject_type call) bk of
           Inl e \<Rightarrow> Inl e
         | Inr (bk1, accounting) \<Rightarrow>
             if \<not> as_created accounting
             then Inr (if truthy (uc_budget_reservation_id call)
                       then bk1\<lparr>bk_db := fst (release now (bk_db bk1) (the (uc_budget_reservation_id call)) False)\<rparr>
                       else bk1, None)
             else
               let cost = sanitize_cost_usd (as_total_cost_usd accounting);
                   row = \<lparr>q_id = log_id, q_user_id = uc_user_id call, q_api_key_id = uc_alpha_router_api_key_id call,
                     q_request_time = now, q_total_cost_usd = cost,
                     q_usage_operation_id = Some (as_operation_id accounting),
                     q_budget_reservation_id = uc_budget_reservation_id call\<rparr>;
                   db1 = (bk_db bk1)\<lparr>request_logs := request_logs (bk_db bk1) @ [row]\<rparr>
               in Inr (bk1\<lparr>bk_db := charge_call now call cost log_id db1\<rparr>, Some log_id)))"

section \<open>Attempts to log a helper call\<close>

text \<open>
  A helper's call is logged in a session of its own, in up to three attempts. An attempt may be
  lost before its commit, or its commit may succeed and only the answer be lost.
\<close>

datatype attempt = Done | Lost_Before | Lost_After

fun settle_attempts ::
    "(json \<Rightarrow> string) \<Rightarrow> usage_call \<Rightarrow> (attempt \<times> time \<times> int \<times> string \<times> (string \<Rightarrow> string)) list \<Rightarrow> books \<Rightarrow> books \<times> bool" where
  "settle_attempts sha call [] bk = (bk, False)"
| "settle_attempts sha call ((outcome, now, log_id, op_id, uuid) # rest) bk =
     (case log_usage sha now log_id op_id uuid call bk of
        Inl _ \<Rightarrow> settle_attempts sha call rest bk
      | Inr (bk1, _) \<Rightarrow>
          (case outcome of
             Done \<Rightarrow> (bk1, True)
           | Lost_Before \<Rightarrow> settle_attempts sha call rest bk
           | Lost_After \<Rightarrow> settle_attempts sha call rest bk1))"

text \<open>The call as the helper hands it over: one captured event, and a key that names the hold or the event.\<close>

definition auxiliary_call ::
    "int option \<Rightarrow> string \<Rightarrow> pending_event \<Rightarrow> string \<Rightarrow> string option \<Rightarrow> string option \<Rightarrow> bool \<Rightarrow> string option \<Rightarrow> usage_call" where
  "auxiliary_call user_id model_id e operation_name reservation_id subject_type charge_budget idempotency_key =
     \<lparr>uc_user_id = user_id, uc_alpha_router_api_key_id = None, uc_model_id = model_id,
      uc_total_cost_usd = or_zero (event_cost e), uc_prompt_tokens = nu_prompt_tokens (pe_usage e),
      uc_completion_tokens = nu_completion_tokens (pe_usage e), uc_cached_tokens = nu_cached_tokens (pe_usage e),
      uc_budget_reservation_id = reservation_id, uc_usage_events = [e], uc_operation_type = operation_name,
      uc_operation_idempotency_key =
        (if truthy idempotency_key then idempotency_key
         else Some (''aux:'' @ (if truthy reservation_id then the reservation_id else pe_idempotency_key e))),
      uc_subject_type = subject_type, uc_charge_budget = charge_budget\<rparr>"

definition settle_auxiliary_usage ::
    "(json \<Rightarrow> string) \<Rightarrow> usage_call \<Rightarrow> (attempt \<times> time \<times> int \<times> string \<times> (string \<Rightarrow> string)) list \<Rightarrow> books \<Rightarrow> books \<times> bool" where
  "settle_auxiliary_usage sha call attempts bk = settle_attempts sha call (take 3 attempts) bk"

section \<open>Reconciliation\<close>

definition create_reconciliation_run :: "string \<Rightarrow> string option \<Rightarrow> string option \<Rightarrow> books \<Rightarrow> books" where
  "create_reconciliation_run run_id provider_type src bk =
     bk\<lparr>bk_runs := bk_runs bk @ [\<lparr>rr_id = run_id,
       rr_provider_type = clip 64 (if truthy provider_type then the provider_type else ''unknown''),
       rr_source = clip 32 (if truthy src then the src else ''manual''), rr_status = ''running'', rr_expected_cost_usd = 0,
       rr_reported_cost_usd = 0, rr_adjustment_usd = 0, rr_matched_event_count = 0, rr_unmatched_event_count = 0,
       rr_error_message = None, rr_completed_at = None\<rparr>]\<rparr>"

definition finish_reconciliation_run :: "time \<Rightarrow> string \<Rightarrow> string option \<Rightarrow> int \<Rightarrow> books \<Rightarrow> books" where
  "finish_reconciliation_run now run_id error_message unmatched bk =
     bk\<lparr>bk_runs := modify rr_id run_id
       (\<lambda>r. r\<lparr>rr_status := (if truthy error_message then ''failed'' else ''completed''),
             rr_error_message := none_if_empty (clip 2000 (case error_message of None \<Rightarrow> [] | Some m \<Rightarrow> m)),
             rr_unmatched_event_count := nat unmatched, rr_completed_at := Some now\<rparr>) (bk_runs bk)\<rparr>"

definition clamped :: "rat \<Rightarrow> rat \<Rightarrow> rat" where
  "clamped column delta = (if column + delta < 0 then 0 else column + delta)"

definition period_current :: "time option \<Rightarrow> time \<Rightarrow> bool" where
  "period_current start occurred_at = (case start of None \<Rightarrow> True | Some p \<Rightarrow> p \<le> occurred_at)"

definition apply_subject_delta :: "subject_type \<Rightarrow> int option \<Rightarrow> rat \<Rightarrow> time \<Rightarrow> db \<Rightarrow> db" where
  "apply_subject_delta st sid delta occurred_at db =
     (case sid of
        None \<Rightarrow> db
      | Some i \<Rightarrow>
          if delta = 0 then db
          else
            (case st of
               SUBJECT_USER \<Rightarrow>
                 db\<lparr>users := modify u_id i
                   (\<lambda>u. if period_current (u_budget_period_start u) occurred_at
                        then u\<lparr>u_budget_used_usd := clamped (u_budget_used_usd u) delta\<rparr> else u) (users db)\<rparr>
             | SUBJECT_ALPHA_ROUTER_KEY \<Rightarrow>
                 db\<lparr>api_keys := modify k_id i
                   (\<lambda>k. k\<lparr>k_period_used_usd := (if period_current (k_period_started_at k) occurred_at
                            then clamped (k_period_used_usd k) delta else k_period_used_usd k),
                          k_total_used_usd := clamped (k_total_used_usd k) delta\<rparr>) (api_keys db)\<rparr>
             | SUBJECT_OTHER _ \<Rightarrow> db))"

definition reconcile_key :: "string \<Rightarrow> string \<Rightarrow> string" where
  "reconcile_key run_id event_id = clip 240 (''ledger:reconcile:'' @ run_id @ '':'' @ event_id)"

definition events_of :: "string \<Rightarrow> books \<Rightarrow> usage_event list" where
  "events_of op_id bk = filter (\<lambda>e. ue_operation_id e = op_id) (bk_events bk)"

text \<open>The operation's totals over its events, as the query adds them up.\<close>

definition retotal :: "time \<Rightarrow> usage_event list \<Rightarrow> usage_operation \<Rightarrow> usage_operation" where
  "retotal now events op1 =
     (let unpriced = length (filter (\<lambda>e. ue_final_cost_usd e = None) events)
      in op1\<lparr>uo_total_cost_usd := sum_list (map (\<lambda>e. or_zero (ue_final_cost_usd e)) events),
            uo_provider_cost_usd := sum_some (map ue_provider_cost_usd events),
            uo_calculated_cost_usd := sum_some (map ue_calculated_cost_usd events),
            uo_unpriced_event_count := unpriced, uo_reconciled_at := Some now,
            uo_accounting_status := accounting_status (length events) unpriced\<rparr>)"

definition reconciled_event :: "time \<Rightarrow> string \<Rightarrow> rat \<Rightarrow> usage_event \<Rightarrow> usage_event" where
  "reconciled_event now run_id actual e =
     e\<lparr>ue_provider_cost_usd := Some actual, ue_final_cost_usd := Some actual, ue_cost_source := ''provider_reconciliation'',
       ue_cost_confidence := ''reconciled'', ue_reconciliation_run_id := Some run_id, ue_reconciled_at := Some now\<rparr>"

definition adjustment_row :: "usage_operation \<Rightarrow> usage_event \<Rightarrow> string \<Rightarrow> rat \<Rightarrow> ledger_entry" where
  "adjustment_row op1 e run_id delta =
     \<lparr>l_subject_type = uo_subject_type op1, l_subject_id = uo_subject_id op1, l_amount_usd = delta,
      l_effective_at = ue_completed_at e, l_operation_id = uo_id op1, l_usage_event_id = ue_id e,
      l_idempotency_key = reconcile_key run_id (ue_id e)\<rparr>"

text \<open>A row that is missing, or a second log row of the operation, makes the query raise.\<close>

definition reconcile_usage_event ::
    "time \<Rightarrow> string \<Rightarrow> rat \<Rightarrow> string \<Rightarrow> books \<Rightarrow> (books \<times> rat) result" where
  "reconcile_usage_event now event_id actual_cost run_id bk =
     (case (fetch ue_id event_id (bk_events bk), fetch rr_id run_id (bk_runs bk)) of
        (Some e, Some run) \<Rightarrow>
          (case fetch uo_id (ue_operation_id e) (bk_operations bk) of
             None \<Rightarrow> Inl (LookupError ''No row was found'')
           | Some op1 \<Rightarrow>
               (case fetch l_idempotency_key (reconcile_key run_id event_id) (ledger (bk_db bk)) of
                  Some existing \<Rightarrow> Inr (bk, l_amount_usd existing)
                | None \<Rightarrow>
                    let actual = max 0 actual_cost; previous = or_zero (ue_final_cost_usd e); delta = actual - previous;
                        logs = filter (\<lambda>q. q_usage_operation_id q = Some (uo_id op1)) (request_logs (bk_db bk));
                        events = modify ue_id event_id (reconciled_event now run_id actual) (bk_events bk);
                        op2 = retotal now (filter (\<lambda>x. ue_operation_id x = uo_id op1) events) op1;
                        db1 = apply_subject_delta (uo_subject_type op1) (uo_subject_id op1) delta (ue_completed_at e) (bk_db bk)
                    in if 1 < length logs then Inl (LookupError ''Multiple rows were found'')
                       else Inr
                         (bk\<lparr>bk_events := events, bk_operations := modify uo_id (uo_id op1) (\<lambda>_. op2) (bk_operations bk),
                             bk_runs := modify rr_id run_id
                               (\<lambda>r. r\<lparr>rr_expected_cost_usd := rr_expected_cost_usd r + previous,
                                     rr_reported_cost_usd := rr_reported_cost_usd r + actual,
                                     rr_adjustment_usd := rr_adjustment_usd r + delta,
                                     rr_matched_event_count := rr_matched_event_count r + 1\<rparr>) (bk_runs bk),
                             bk_db := db1\<lparr>ledger := ledger db1 @ [adjustment_row op1 e run_id delta],
                               request_logs := map (\<lambda>q. if q_usage_operation_id q = Some (uo_id op1)
                                 then q\<lparr>q_total_cost_usd := uo_total_cost_usd op2\<rparr> else q) (request_logs db1)\<rparr>\<rparr>,
                          delta)))
      | _ \<Rightarrow> Inl (LookupError ''No row was found''))"

end
