(* ===== verification/Books_System.thy ===== *)
theory Books_System
  imports Usage_Ledger
begin

text \<open>
  The books and the budgets together: every billed call, every correction and every operation on
  budgets as an event, and what holds of every sequence of them: the ledger agrees with the events
  and the totals of the operations, and the budget counters stay exact.
\<close>

section \<open>Operations on budgets leave the books alone\<close>

definition same_logs :: "db \<Rightarrow> db \<Rightarrow> bool" where
  "same_logs db db' \<longleftrightarrow> ledger db' = ledger db \<and> request_logs db' = request_logs db"

named_theorems logs_intros \<open>which operations write neither ledger nor request log\<close>

lemma same_logs_refl [logs_intros, simp]: "same_logs db db"
  by (simp add: same_logs_def)

lemma same_logs_trans: "same_logs a b \<Longrightarrow> same_logs b c \<Longrightarrow> same_logs a c"
  by (simp add: same_logs_def)

lemma same_logs_updates [simp]:
  "same_logs a (b\<lparr>users := us\<rparr>) = same_logs a b" "same_logs a (b\<lparr>api_keys := ks\<rparr>) = same_logs a b"
  "same_logs a (b\<lparr>reservations := rs\<rparr>) = same_logs a b" "same_logs a (b\<lparr>assignments := as\<rparr>) = same_logs a b"
  by (simp_all add: same_logs_def)

lemma same_logs_update_fns [simp]:
  "same_logs a (update_user uid f b) = same_logs a b" "same_logs a (update_key kid g b) = same_logs a b"
  "same_logs a (update_reservation rid h b) = same_logs a b"
  "same_logs a (set_subject_reserved b st sid x) = same_logs a b"
  "same_logs a (apply_release_to_subject now b row y) = same_logs a b"
  by (auto simp: update_user_def update_key_def update_reservation_def set_subject_reserved_def apply_release_to_subject_def
      Let_def split: subject_type.split)

lemma logs_settle [simp]: "same_logs a (fst (settle now b rid actual lid)) = same_logs a b"
  by (simp add: settle_def Let_def split: option.split)

lemma logs_release [simp]: "same_logs a (fst (release now b rid e)) = same_logs a b"
  by (simp add: release_def Let_def split: option.split)

lemma logs_release_each [simp]: "same_logs a (fst (release_each now b rids)) = same_logs a b"
  by (induction rids arbitrary: b) (simp_all add: split_beta Let_def)

lemma logs_reconcile [simp]: "same_logs a (fst (reconcile_subject_reserved b st sid)) = same_logs a b"
  by (simp add: reconcile_subject_reserved_def Let_def)

lemma logs_release_open [simp]: "same_logs a (fst (release_open_holds_for_subject now b st sid)) = same_logs a b"
  by (simp add: release_open_holds_for_subject_def split_beta Let_def)

lemma logs_ensure [simp]: "same_logs a (ensure_budget_period now b u) = same_logs a b"
  by (simp add: ensure_budget_period_def sync_budget_def roll_period_def Let_def split: option.split)

lemma logs_key_period [simp]: "same_logs a (maybe_reset_key_period now b kid) = same_logs a b"
  by (simp add: maybe_reset_key_period_def Let_def split: option.split)

lemma logs_key_usage [simp]: "same_logs a (record_key_usage now b kid c) = same_logs a b"
  by (simp add: record_key_usage_def)

lemma logs_reconcile_each [simp]: "same_logs a (reconcile_each b st ds) = same_logs a b"
  by (induction b st ds rule: reconcile_each.induct) simp_all

lemma logs_sweep [simp]: "same_logs a (fst (reconcile_drifted_reserved_counters got b)) = same_logs a b"
  by (simp add: reconcile_drifted_reserved_counters_def Let_def)

lemma logs_reset_one [simp]: "same_logs a (reset_one now b uid x) = same_logs a b"
  by (simp add: reset_one_def)

lemma logs_reset_fold: "same_logs a (foldl (\<lambda>d u. reset_one now d (u_id u) (b u)) c us) = same_logs a c"
  by (induction us arbitrary: c) simp_all

lemma logs_reset_individually [simp]: "same_logs a (fst (reset_batch_individually now uf b ids)) = same_logs a b"
  by (induction ids arbitrary: b) (simp_all add: Let_def split_beta split: option.split)

lemma logs_reset_page [simp]: "same_logs a (fst (reset_page now bf uf b us)) = same_logs a b"
  by (simp add: reset_page_def reset_batch_def Let_def logs_reset_fold)

lemma logs_reset_pages [simp]: "same_logs a (fst (reset_pages now bf uf b last_id)) = same_logs a b"
proof (induction now bf uf b last_id rule: reset_pages.induct)
  case (1 now bf uf b last_id)
  show ?case by (subst reset_pages.simps) (auto simp: Let_def 1)
qed

lemma logs_grow [simp]: "same_logs a (fst (grow_hold b row r h t)) = same_logs a b"
  by (simp add: grow_hold_def Let_def)

lemma logs_extend [simp]: "same_logs a (fst (extend_hold b i m)) = same_logs a b"
  by (simp add: extend_hold_def split_beta Let_def split: option.split)

lemma logs_plans [simp]:
  "same_logs a (upsert_user_plan b uid pid) = same_logs a b" "same_logs a (upsert_user_no_plan b uid) = same_logs a b"
  "same_logs a (clear_user_plan_override b uid) = same_logs a b" "same_logs a (upsert_group_plan b gid pid) = same_logs a b"
  by (simp_all add: upsert_user_plan_def upsert_user_no_plan_def clear_user_plan_override_def upsert_group_plan_def
      update_assignment_def add_assignment_def split: option.split)

lemma logs_refresh [simp]: "same_logs a (foldl refresh_member b ids) = same_logs a b"
  by (induction ids arbitrary: b) (simp_all add: refresh_member_def sync_budget_def Let_def split: option.split)

lemma logs_group [simp]:
  "same_logs a (commit b (assign_plan_to_group_members b pid gid)) = same_logs a b"
  "same_logs a (commit b (clear_group_plan b gid)) = same_logs a b"
  by (simp_all add: commit_def assign_plan_to_group_members_def clear_group_plan_def Let_def)

lemma logs_admit: "admit_hold settings b st sid amount limit used held est base scope = Inr (c, h, x) \<Longrightarrow> same_logs a c = same_logs a b"
proof -
  assume "admit_hold settings b st sid amount limit used held est base scope = Inr (c, h, x)"
  then have "c = b \<or> c = fst (reconcile_subject_reserved b st sid)"
    by (simp add: admit_hold_def split_beta Let_def split: if_splits option.splits)
  then show ?thesis by auto
qed

lemma logs_insert: "insert_hold now settings new_id b st sid key req x = Inr (c, out) \<Longrightarrow> same_logs a c = same_logs a b"
  by (auto simp: insert_hold_def Let_def split: if_splits)

lemma logs_usable: "ensure_key_usable now b kid = Inr c \<Longrightarrow> same_logs a c = same_logs a b"
  by (auto simp: ensure_key_usable_def Let_def split: option.splits prod.splits if_splits)

lemma logs_reserve: "reserve sha now settings new_id b req = Inr (c, out) \<Longrightarrow> same_logs b c"
  by (auto simp: reserve_def reserve_key_def reserve_user_def Let_def logs_admit logs_usable
      split: option.splits sum.splits if_splits dest!: logs_insert [where a = b])

lemma budget_step_logs: "same_logs db (budget_step sha settings db e)"
  by (cases e)
     (auto simp: commit_def expire_stale_reservations_def reset_all_monthly_budgets_def logs_group [unfolded commit_def]
        intro: logs_reserve split: sum.split option.split)

section \<open>The invariant of the books\<close>

lemma sum_where_unique:
  "distinct (map key rows) \<Longrightarrow> r \<in> set rows \<Longrightarrow> sum_where (\<lambda>x. key x = key r) w rows = w r"
proof (induction rows)
  case (Cons x rows)
  then show ?case
  proof (cases "x = r")
    case True
    with Cons.prems have "sum_where (\<lambda>x. key x = key r) w rows = 0" 
      by (intro sum_where_none) (metis distinct.simps(2) image_eqI list.simps(9) set_map)
    with True show ?thesis by simp
  next
    case False
    with Cons show ?thesis by (auto simp: image_iff)
  qed
qed simp

definition ev_cost :: "books \<Rightarrow> string \<Rightarrow> rat" where
  "ev_cost bk i = sum_where (\<lambda>e. ue_id e = i) (\<lambda>e. or_zero (ue_final_cost_usd e)) (bk_events bk)"

definition ev_ledger :: "books \<Rightarrow> string \<Rightarrow> rat" where
  "ev_ledger bk i = sum_where (\<lambda>l. l_usage_event_id l = i) l_amount_usd (ledger (bk_db bk))"

definition op_cost :: "books \<Rightarrow> string \<Rightarrow> rat" where
  "op_cost bk i = sum_where (\<lambda>e. ue_operation_id e = i) (\<lambda>e. or_zero (ue_final_cost_usd e)) (bk_events bk)"

definition op_ledger :: "books \<Rightarrow> string \<Rightarrow> rat" where
  "op_ledger bk i = sum_where (\<lambda>l. l_operation_id l = i) l_amount_usd (ledger (bk_db bk))"

text \<open>Of rows: unique identifiers, events of known operations with costs that are not negative; of sums: the ledger
  agrees with the events, one by one and by operation.\<close>

definition core_inv :: "books \<Rightarrow> bool" where
  "core_inv bk \<longleftrightarrow>
     distinct (map uo_id (bk_operations bk)) \<and> distinct (map ue_id (bk_events bk)) \<and>
     (\<forall>e \<in> set (bk_events bk). nonneg_opt (ue_final_cost_usd e) \<and> ue_operation_id e \<in> uo_id ` set (bk_operations bk)) \<and>
     (\<forall>i. ev_ledger bk i = ev_cost bk i) \<and> (\<forall>i. op_ledger bk i = op_cost bk i)"

definition log_total_ok :: "books \<Rightarrow> request_log \<Rightarrow> bool" where
  "log_total_ok bk q \<longleftrightarrow>
     (case q_usage_operation_id q of None \<Rightarrow> True
      | Some i \<Rightarrow> (case fetch uo_id i (bk_operations bk) of None \<Rightarrow> False | Some op1 \<Rightarrow> q_total_cost_usd q = uo_total_cost_usd op1))"

definition books_inv :: "books \<Rightarrow> bool" where
  "books_inv bk \<longleftrightarrow>
     core_inv bk \<and> (\<forall>op1 \<in> set (bk_operations bk). uo_total_cost_usd op1 = op_cost bk (uo_id op1)) \<and>
     list_all (log_total_ok bk) (request_logs (bk_db bk))"

subsection \<open>Storing events\<close>

lemma apply_configured_nonneg: "nonneg_opt (event_cost e) \<Longrightarrow> nonneg_opt (event_cost (apply_configured_pricing snapshots e))"
  by (cases rule: apply_configured_pricing_cases [of snapshots e]) (auto simp: event_cost_def nonneg_opt_def)

lemma debit_sums:
  "sum_where (\<lambda>l. l_usage_event_id l = i) l_amount_usd (debit_rows op1 eid p) = (if eid = i then or_zero (event_cost p) else 0)"
  "sum_where (\<lambda>l. l_operation_id l = j) l_amount_usd (debit_rows op1 eid p) = (if uo_id op1 = j then or_zero (event_cost p) else 0)"
  by (simp_all add: debit_rows_def or_zero_def split: option.split)

lemma event_row_sel [simp]:
  "ue_id (event_row o1 uuid snap p) = uuid (pe_idempotency_key p)" "ue_operation_id (event_row o1 uuid snap p) = o1"
  "ue_final_cost_usd (event_row o1 uuid snap p) = event_cost p"
  by (simp_all add: event_row_def)

lemma core_inv_store:
  assumes "core_inv bk" and "uo_id operation \<in> uo_id ` set (bk_operations bk)" and "nonneg_opt (event_cost p)"
    and "ue_id row \<notin> set (map ue_id (bk_events bk))" and "row = event_row (uo_id operation) uuid snap p"
  shows "core_inv (bk\<lparr>bk_snapshots := snaps, bk_events := bk_events bk @ [row], bk_line_items := items,
      bk_db := (bk_db bk)\<lparr>ledger := ledger (bk_db bk) @ debit_rows operation (ue_id row) p\<rparr>\<rparr>)"
  using assms unfolding core_inv_def
  by (auto simp: ev_cost_def ev_ledger_def op_cost_def op_ledger_def debit_sums)

lemma store_events_core:
  assumes "store_events sha uuid operation ps bk = Inr bk'" and "core_inv bk"
    and "uo_id operation \<in> uo_id ` set (bk_operations bk)" and "\<forall>p \<in> set ps. nonneg_opt (event_cost p)"
  shows "core_inv bk' \<and> bk_operations bk' = bk_operations bk \<and> bk_runs bk' = bk_runs bk \<and>
    bk_db bk' = (bk_db bk)\<lparr>ledger := ledger (bk_db bk')\<rparr> \<and>
    op_cost bk' i = op_cost bk i + (if i = uo_id operation then sum_list (map (\<lambda>p. or_zero (event_cost p)) ps) else 0)"
  using assms
proof (induction ps arbitrary: bk)
  case (Cons p ps)
  obtain snaps snap where sn: "pricing_snapshot_of sha p (bk_snapshots bk) = (snaps, snap)" by force
  define row where "row = event_row (uo_id operation) uuid snap p"
  define bk1 where "bk1 = bk\<lparr>bk_snapshots := snaps, bk_events := bk_events bk @ [row],
    bk_line_items := bk_line_items bk @ map (Pair (ue_id row)) (cq_line_items (pe_quote p)),
    bk_db := (bk_db bk)\<lparr>ledger := ledger (bk_db bk) @ debit_rows operation (ue_id row) p\<rparr>\<rparr>"
  have fresh: "ue_id row \<notin> set (map ue_id (bk_events bk))" and st: "store_events sha uuid operation ps bk1 = Inr bk'"
    using Cons.prems(1) sn unfolding row_def bk1_def by (auto simp: Let_def split: if_splits)
  have c1: "core_inv bk1"
    unfolding bk1_def using Cons.prems fresh by (intro core_inv_store) (simp_all add: row_def)
  have o1: "op_cost bk1 i = op_cost bk i + (if i = uo_id operation then or_zero (event_cost p) else 0)"
    by (simp add: op_cost_def bk1_def row_def)
  have "core_inv bk' \<and> bk_operations bk' = bk_operations bk1 \<and> bk_runs bk' = bk_runs bk1 \<and>
      bk_db bk' = (bk_db bk1)\<lparr>ledger := ledger (bk_db bk')\<rparr> \<and>
      op_cost bk' i = op_cost bk1 i + (if i = uo_id operation then sum_list (map (\<lambda>p. or_zero (event_cost p)) ps) else 0)"
    by (rule Cons.IH [OF st c1]) (use Cons.prems in \<open>simp_all add: bk1_def\<close>)
  with o1 show ?case by (auto simp: bk1_def)
qed simp

lemma sum_costs_nonneg: "\<forall>p \<in> set ps. nonneg_opt (event_cost p) \<Longrightarrow> 0 \<le> sum_list (map (\<lambda>p. or_zero (event_cost p)) ps)"
  by (rule sum_list_nonneg) (auto simp: or_zero_def nonneg_opt_def split: option.splits)

lemma new_operation_sel [simp]:
  "uo_id (new_operation i k es u a r s) = i" "uo_idempotency_key (new_operation i k es u a r s) = k"
  "uo_total_cost_usd (new_operation i k es u a r s) = as_total_cost_usd (summarize_pending_events es)"
  by (simp_all add: new_operation_def Let_def)

lemma summary_total: "as_total_cost_usd (summarize_pending_events es) = max 0 (sum_list (map (\<lambda>e. or_zero (event_cost e)) es))"
  by (simp add: summarize_pending_events_def Let_def split_beta)

lemma summary_created [simp]: "as_created (summarize_pending_events es)"
  by (simp add: summarize_pending_events_def Let_def split_beta)

lemma log_total_ok_mono:
  assumes "log_total_ok bk q" and "bk_operations bk' = bk_operations bk @ ops"
  shows "log_total_ok bk' q"
  using assms by (auto simp: log_total_ok_def fetch_append split: option.splits)

lemma core_inv_new_operation:
  assumes "core_inv bk" and "uo_id op1 \<notin> set (map uo_id (bk_operations bk))"
  shows "core_inv (bk\<lparr>bk_operations := bk_operations bk @ [op1]\<rparr>)" and "op_cost bk (uo_id op1) = 0"
proof -
  show "core_inv (bk\<lparr>bk_operations := bk_operations bk @ [op1]\<rparr>)"
    using assms unfolding core_inv_def by (auto simp: ev_cost_def ev_ledger_def op_cost_def op_ledger_def)
  have "ue_operation_id e \<noteq> uo_id op1" if "e \<in> set (bk_events bk)" for e
  proof -
    have "ue_operation_id e \<in> uo_id ` set (bk_operations bk)" using assms(1) that by (simp add: core_inv_def)
    then show ?thesis using assms(2) by (metis set_map)
  qed
  then show "op_cost bk (uo_id op1) = 0" unfolding op_cost_def by (intro sum_where_none)
qed

text \<open>What a new operation adds to the books.\<close>

lemma persist_cases:
  assumes "persist_usage_operation sha op_id uuid events0 u k r idem st bk = Inr (bk', acc)"
    and inv: "books_inv bk" and nn: "\<forall>p \<in> set events0. nonneg_opt (event_cost p)"
  obtains (existing) op1 where "fetch uo_idempotency_key (operation_key idem r op_id) (bk_operations bk) = Some op1"
      "bk' = bk" "\<not> as_created acc"
  | (new) op1 where "fetch uo_idempotency_key (operation_key idem r op_id) (bk_operations bk) = None" "as_created acc"
      "books_inv bk'" "bk_operations bk' = bk_operations bk @ [op1]" "uo_id op1 = op_id"
      "uo_idempotency_key op1 = operation_key idem r op_id" "as_operation_id acc = op_id"
      "bk_db bk' = (bk_db bk)\<lparr>ledger := ledger (bk_db bk')\<rparr>"
      "as_total_cost_usd acc = uo_total_cost_usd op1" "0 \<le> uo_total_cost_usd op1"
      "uo_total_cost_usd op1 = sum_list (map (\<lambda>e. or_zero (event_cost (apply_configured_pricing (bk_snapshots bk) e))) events0)"
proof (cases "fetch uo_idempotency_key (operation_key idem r op_id) (bk_operations bk)")
  case (Some op1)
  with assms(1) show ?thesis by (intro existing) (auto simp: persist_usage_operation_def existing_summary_def Let_def)
next
  case None
  define events where "events = map (apply_configured_pricing (bk_snapshots bk)) events0"
  define op1 where "op1 = new_operation op_id (operation_key idem r op_id) events u k r st"
  let ?bk0 = "bk\<lparr>bk_operations := bk_operations bk @ [op1]\<rparr>"
  from assms(1) None have fresh: "op_id \<notin> set (map uo_id (bk_operations bk))"
    and st: "store_events sha uuid op1 events ?bk0 = Inr bk'"
    and acc: "acc = (summarize_pending_events events)\<lparr>as_operation_id := op_id\<rparr>"
    by (auto simp: persist_usage_operation_def Let_def events_def [symmetric] op1_def [symmetric] split: if_splits sum.splits)
  have nn': "\<forall>p \<in> set events. nonneg_opt (event_cost p)" using nn apply_configured_nonneg by (simp add: events_def)
  have core: "core_inv bk" using inv by (simp add: books_inv_def)
  have id: "uo_id op1 = op_id" by (simp add: op1_def)
  note new0 = core_inv_new_operation [OF core, of op1, unfolded id, OF fresh]
  have stored: "core_inv bk' \<and> bk_operations bk' = bk_operations bk @ [op1] \<and> bk_runs bk' = bk_runs bk \<and>
      bk_db bk' = (bk_db bk)\<lparr>ledger := ledger (bk_db bk')\<rparr> \<and>
      op_cost bk' i = op_cost bk i + (if i = op_id then sum_list (map (\<lambda>p. or_zero (event_cost p)) events) else 0)" for i
    using store_events_core [OF st new0(1) _ nn', of i] by (simp add: id op_cost_def)
  have tot: "uo_total_cost_usd op1 = sum_list (map (\<lambda>p. or_zero (event_cost p)) events)"
    using sum_costs_nonneg [OF nn'] by (simp add: op1_def summary_total)
  have "uo_total_cost_usd x = op_cost bk' (uo_id x)" if "x \<in> set (bk_operations bk')" for x
  proof (cases "x = op1")
    case True
    then show ?thesis using stored [of op_id] new0(2) tot id by simp
  next
    case False
    then have "x \<in> set (bk_operations bk)" using that stored by simp
    then have "uo_id x \<noteq> op_id" "uo_total_cost_usd x = op_cost bk (uo_id x)" using fresh inv by (auto simp: books_inv_def)
    then show ?thesis using stored [of "uo_id x"] by simp
  qed
  moreover have "list_all (log_total_ok bk') (request_logs (bk_db bk'))"
  proof -
    have "request_logs (bk_db bk') = request_logs (bk_db bk)" using stored by (metis db_state.select_convs(9) db_state.surjective db_state.update_convs(8))
    moreover have "bk_operations bk' = bk_operations bk @ [op1]" using stored by blast
    ultimately show ?thesis using inv log_total_ok_mono unfolding books_inv_def list_all_iff by metis
  qed
  ultimately have inv': "books_inv bk'" using stored by (simp add: books_inv_def)
  show ?thesis
    by (rule new [of op1, OF None _ inv']) (use stored acc id tot sum_costs_nonneg [OF nn'] in \<open>simp_all add: op1_def events_def comp_def\<close>)
qed

subsection \<open>Logging a call\<close>

lemma logs_apply_cost [simp]: "same_logs a (apply_cost_to_user uid c b) = same_logs a b"
  by (simp add: apply_cost_to_user_def)

lemma logs_charge [simp]: "same_logs a (charge_call now call cost log_id b) = same_logs a b"
  by (simp add: charge_call_def split_beta Let_def split: option.split)

lemma books_inv_db:
  assumes "same_logs (bk_db bk) db'"
  shows "books_inv (bk\<lparr>bk_db := db'\<rparr>) = books_inv bk"
proof -
  have l: "ledger db' = ledger (bk_db bk)" "request_logs db' = request_logs (bk_db bk)"
    using assms by (simp_all add: same_logs_def)
  have "log_total_ok (bk\<lparr>bk_db := db'\<rparr>) = log_total_ok bk" by (rule ext) (simp add: log_total_ok_def split: option.split)
  then show ?thesis
    using l by (simp add: books_inv_def core_inv_def ev_cost_def ev_ledger_def op_cost_def op_ledger_def)
qed

lemma books_inv_log:
  assumes "books_inv bk" and "log_total_ok bk q"
  shows "books_inv (bk\<lparr>bk_db := (bk_db bk)\<lparr>request_logs := request_logs (bk_db bk) @ [q]\<rparr>\<rparr>)"
proof -
  have "log_total_ok (bk\<lparr>bk_db := (bk_db bk)\<lparr>request_logs := request_logs (bk_db bk) @ [q]\<rparr>\<rparr>) = log_total_ok bk"
    by (rule ext) (simp add: log_total_ok_def split: option.split)
  with assms show ?thesis by (simp add: books_inv_def core_inv_def ev_cost_def ev_ledger_def op_cost_def op_ledger_def)
qed

definition call_ok :: "usage_call \<Rightarrow> bool" where
  "call_ok call \<longleftrightarrow> list_all (\<lambda>e. nonneg_opt (event_cost e)) (uc_usage_events call)"

lemma call_events_nonneg: "call_ok call \<Longrightarrow> \<forall>p \<in> set (call_events now uuid call). nonneg_opt (event_cost p)"
  by (auto simp: call_ok_def call_events_def legacy_usage_event_def event_cost_def nonneg_opt_def list_all_iff Let_def)

definition log_row :: "time \<Rightarrow> int \<Rightarrow> usage_call \<Rightarrow> rat \<Rightarrow> string \<Rightarrow> request_log" where
  "log_row now log_id call cost op_id =
     \<lparr>q_id = log_id, q_user_id = uc_user_id call, q_api_key_id = uc_alpha_router_api_key_id call, q_request_time = now,
      q_total_cost_usd = cost, q_usage_operation_id = Some op_id, q_budget_reservation_id = uc_budget_reservation_id call\<rparr>"

lemma log_usage_cases:
  assumes "log_usage sha now log_id op_id uuid call bk = Inr (bk', res)" and inv: "books_inv bk" and ok: "call_ok call"
  obtains (existing) "fetch uo_idempotency_key (operation_key (uc_operation_idempotency_key call) (uc_budget_reservation_id call) op_id)
        (bk_operations bk) \<noteq> None"
      "bk' = (if truthy (uc_budget_reservation_id call)
              then bk\<lparr>bk_db := fst (release now (bk_db bk) (the (uc_budget_reservation_id call)) False)\<rparr> else bk)" "res = None"
  | (new) bk1 op1 where
      "fetch uo_idempotency_key (operation_key (uc_operation_idempotency_key call) (uc_budget_reservation_id call) op_id)
        (bk_operations bk) = None"
      "books_inv bk1" "bk_operations bk1 = bk_operations bk @ [op1]" "uo_id op1 = op_id"
      "uo_idempotency_key op1 = operation_key (uc_operation_idempotency_key call) (uc_budget_reservation_id call) op_id"
      "bk_db bk1 = (bk_db bk)\<lparr>ledger := ledger (bk_db bk1)\<rparr>" "0 \<le> uo_total_cost_usd op1"
      "uo_total_cost_usd op1 =
         sum_list (map (\<lambda>e. or_zero (event_cost (apply_configured_pricing (bk_snapshots bk) e))) (call_events now op_id call))"
      "bk' = bk1\<lparr>bk_db := charge_call now call (uo_total_cost_usd op1) log_id
         ((bk_db bk1)\<lparr>request_logs := request_logs (bk_db bk) @ [log_row now log_id call (uo_total_cost_usd op1) op_id]\<rparr>)\<rparr>"
      "res = Some log_id"
proof -
  obtain bk1 acc where p: "persist_usage_operation sha op_id uuid (call_events now op_id call) (uc_user_id call)
      (uc_alpha_router_api_key_id call) (uc_budget_reservation_id call) (uc_operation_idempotency_key call)
      (uc_subject_type call) bk = Inr (bk1, acc)"
    using assms(1) by (auto simp: log_usage_def split: if_splits sum.splits)
  from p inv call_events_nonneg [OF ok] show thesis
  proof (cases rule: persist_cases)
    case (existing op1)
    with assms(1) p show ?thesis by (intro that(1)) (auto simp: log_usage_def split: if_splits)
  next
    case (new op1)
    then have "sanitize_cost_usd (as_total_cost_usd acc) = uo_total_cost_usd op1" by (simp add: sanitize_cost_usd_def)
    moreover have "request_logs (bk_db bk1) = request_logs (bk_db bk)"
      using new(8) by (metis db_state.select_convs(9) db_state.surjective db_state.update_convs(8))
    ultimately show ?thesis
      using assms(1) p new by (intro that(2) [of bk1 op1]) (auto simp: log_usage_def log_row_def Let_def split: if_splits)
  qed
qed

lemma fetch_last_new:
  assumes "distinct (map key (rows @ [r]))"
  shows "fetch key (key r) (rows @ [r]) = Some r"
  using assms by (induction rows) auto

lemma log_usage_inv:
  assumes "log_usage sha now log_id op_id uuid call bk = Inr (bk', res)" and inv: "books_inv bk" and ok: "call_ok call"
  shows "books_inv bk'"
  using assms
proof (cases rule: log_usage_cases)
  case existing
  then show ?thesis using inv by (auto simp: books_inv_db)
next
  case (new bk1 op1)
  have "distinct (map uo_id (bk_operations bk1))" using new(2) by (simp add: books_inv_def core_inv_def)
  then have "fetch uo_id op_id (bk_operations bk1) = Some op1" using fetch_last_new [of uo_id] new by metis
  then have q: "log_total_ok bk1 (log_row now log_id call (uo_total_cost_usd op1) op_id)"
    by (simp add: log_total_ok_def log_row_def)
  have r: "request_logs (bk_db bk1) = request_logs (bk_db bk)"
    using new(6) by (metis db_state.select_convs(9) db_state.surjective db_state.update_convs(8))
  define bk2 where "bk2 = bk1\<lparr>bk_db := (bk_db bk1)\<lparr>request_logs := request_logs (bk_db bk) @
    [log_row now log_id call (uo_total_cost_usd op1) op_id]\<rparr>\<rparr>"
  have "books_inv bk2" using books_inv_log [OF new(2) q] by (simp add: bk2_def r)
  then have "books_inv (bk2\<lparr>bk_db := charge_call now call (uo_total_cost_usd op1) log_id (bk_db bk2)\<rparr>)"
    by (subst books_inv_db) simp_all
  then show ?thesis unfolding new(9) by (simp add: bk2_def)
qed

subsection \<open>Reconciliation\<close>

lemma logs_delta [simp]: "same_logs a (apply_subject_delta st sid d t b) = same_logs a b"
  by (simp add: apply_subject_delta_def split: option.split subject_type.split)

lemma reconcile_cases:
  assumes "reconcile_usage_event now eid cost rid bk = Inr (bk', delta)"
  obtains (again) l where "fetch l_idempotency_key (reconcile_key rid eid) (ledger (bk_db bk)) = Some l"
      "bk' = bk" "delta = l_amount_usd l"
  | (applied) e op1 op2 events db1 where "fetch ue_id eid (bk_events bk) = Some e"
      "fetch uo_id (ue_operation_id e) (bk_operations bk) = Some op1"
      "fetch l_idempotency_key (reconcile_key rid eid) (ledger (bk_db bk)) = None"
      "delta = max 0 cost - or_zero (ue_final_cost_usd e)"
      "events = modify ue_id eid (reconciled_event now rid (max 0 cost)) (bk_events bk)"
      "op2 = retotal now (filter (\<lambda>x. ue_operation_id x = uo_id op1) events) op1"
      "db1 = apply_subject_delta (uo_subject_type op1) (uo_subject_id op1) delta (ue_completed_at e) (bk_db bk)"
      "bk_events bk' = events" "bk_operations bk' = modify uo_id (uo_id op1) (\<lambda>_. op2) (bk_operations bk)"
      "bk_db bk' = db1\<lparr>ledger := ledger (bk_db bk) @ [adjustment_row op1 e rid delta],
         request_logs := map (\<lambda>q. if q_usage_operation_id q = Some (uo_id op1)
           then q\<lparr>q_total_cost_usd := uo_total_cost_usd op2\<rparr> else q) (request_logs (bk_db bk))\<rparr>"
proof -
  have l: "ledger (apply_subject_delta st sid d t b) = ledger b" "request_logs (apply_subject_delta st sid d t b) = request_logs b"
    for st sid d t b using logs_delta [of b st sid d t b] by (simp_all add: same_logs_def)
  obtain e run where e: "fetch ue_id eid (bk_events bk) = Some e" "fetch rr_id rid (bk_runs bk) = Some run"
    using assms unfolding reconcile_usage_event_def by (auto split: option.splits)
  obtain op1 where o: "fetch uo_id (ue_operation_id e) (bk_operations bk) = Some op1"
    using assms e unfolding reconcile_usage_event_def by (auto split: option.splits)
  show thesis
  proof (cases "fetch l_idempotency_key (reconcile_key rid eid) (ledger (bk_db bk))")
    case (Some l)
    with assms e o show ?thesis by (intro again) (auto simp: reconcile_usage_event_def)
  next
    case None
    show ?thesis
      by (rule applied [OF e(1) o None _ refl refl refl])
         (use assms e o None in \<open>auto simp: reconcile_usage_event_def l Let_def split: if_splits\<close>)
  qed
qed

lemma retotal_sel [simp]:
  "uo_id (retotal now es op1) = uo_id op1"
  "uo_total_cost_usd (retotal now es op1) = sum_list (map (\<lambda>e. or_zero (ue_final_cost_usd e)) es)"
  by (simp_all add: retotal_def Let_def)

lemma reconciled_event_sel [simp]:
  "ue_id (reconciled_event now r a e) = ue_id e" "ue_operation_id (reconciled_event now r a e) = ue_operation_id e"
  "ue_final_cost_usd (reconciled_event now r a e) = Some a"
  by (simp_all add: reconciled_event_def)

lemma adjustment_row_sel [simp]:
  "l_operation_id (adjustment_row op1 e r d) = uo_id op1" "l_usage_event_id (adjustment_row op1 e r d) = ue_id e"
  "l_amount_usd (adjustment_row op1 e r d) = d" "l_idempotency_key (adjustment_row op1 e r d) = reconcile_key r (ue_id e)"
  by (simp_all add: adjustment_row_def)

lemma reconcile_inv_books:
  assumes "reconcile_usage_event now eid cost rid bk = Inr (bk', delta)" and inv: "books_inv bk"
  shows "books_inv bk'"
  using assms(1)
proof (cases rule: reconcile_cases)
  case again
  with inv show ?thesis by simp
next
  case (applied e op1 op2 events db1)
  have core: "core_inv bk" and tot: "\<forall>x \<in> set (bk_operations bk). uo_total_cost_usd x = op_cost bk (uo_id x)"
    and logs: "list_all (log_total_ok bk) (request_logs (bk_db bk))"
    using inv by (simp_all add: books_inv_def)
  have dist: "distinct (map ue_id (bk_events bk))" "distinct (map uo_id (bk_operations bk))"
    using core by (simp_all add: core_inv_def)
  have e: "e \<in> set (bk_events bk)" "ue_id e = eid" using fetch_SomeD [OF applied(1)] by simp_all
  have o: "op1 \<in> set (bk_operations bk)" "uo_id op1 = ue_operation_id e" using fetch_SomeD [OF applied(2)] by simp_all
  have ids: "map uo_id (bk_operations bk') = map uo_id (bk_operations bk)" "map ue_id (bk_events bk') = map ue_id (bk_events bk)"
    unfolding applied(8,9) applied(5) by (simp_all add: applied(6))
  have opc: "op_cost bk' i = op_cost bk i + (if i = uo_id op1 then delta else 0)" for i
    unfolding op_cost_def applied(8) applied(5) by (subst sum_where_modify [OF dist(1) applied(1)]) (simp add: applied(4) o or_zero_def)
  have evc: "ev_cost bk' i = ev_cost bk i + (if i = eid then delta else 0)" for i
    unfolding ev_cost_def applied(8) applied(5) by (subst sum_where_modify [OF dist(1) applied(1)]) (simp add: applied(4) e or_zero_def)
  have led: "ledger (bk_db bk') = ledger (bk_db bk) @ [adjustment_row op1 e rid delta]" by (simp add: applied(10))
  have "nonneg_opt (ue_final_cost_usd x) \<and> ue_operation_id x \<in> uo_id ` set (bk_operations bk')" if "x \<in> set (bk_events bk')" for x
  proof -
    from that obtain y where y: "y \<in> set (bk_events bk)" "x = (if ue_id y = eid then reconciled_event now rid (max 0 cost) y else y)"
      unfolding applied(8) applied(5) set_modify by blast
    have "uo_id ` set (bk_operations bk') = uo_id ` set (bk_operations bk)" using ids(1) by (metis set_map)
    with y core show ?thesis by (auto simp: core_inv_def nonneg_opt_def)
  qed
  then have core': "core_inv bk'"
    using core ids opc evc by (simp add: core_inv_def ev_ledger_def op_ledger_def led e)
  have o2: "uo_id op2 = uo_id op1" "uo_total_cost_usd op2 = op_cost bk' (uo_id op1)"
    unfolding applied(6) op_cost_def applied(8) sum_where_def by simp_all
  have totals: "uo_total_cost_usd x = op_cost bk' (uo_id x)" if "x \<in> set (bk_operations bk')" for x
    using that tot o2 unfolding applied(9) set_modify by (auto simp: opc)
  have l: "log_total_ok bk' (if q_usage_operation_id q = Some (uo_id op1) then q\<lparr>q_total_cost_usd := uo_total_cost_usd op2\<rparr> else q)"
    if "q \<in> set (request_logs (bk_db bk))" for q
  proof -
    have "fetch uo_id i (bk_operations bk') = (if i = uo_id op1 then map_option (\<lambda>_. op2) (fetch uo_id i (bk_operations bk)) else fetch uo_id i (bk_operations bk))" for i
      unfolding applied(9) by (subst fetch_modify) (simp_all add: o2)
    moreover have "log_total_ok bk q" using logs that by (simp add: list_all_iff)
    ultimately show ?thesis using applied(2) o by (auto simp: log_total_ok_def split: option.splits)
  qed
  have "list_all (log_total_ok bk') (request_logs (bk_db bk'))"
    unfolding list_all_iff
  proof
    fix q' assume "q' \<in> set (request_logs (bk_db bk'))"
    then obtain q where "q \<in> set (request_logs (bk_db bk))"
      "q' = (if q_usage_operation_id q = Some (uo_id op1) then q\<lparr>q_total_cost_usd := uo_total_cost_usd op2\<rparr> else q)"
      unfolding applied(10) by auto
    with l show "log_total_ok bk' q'" by blast
  qed
  then show ?thesis using core' totals by (simp add: books_inv_def)
qed

subsection \<open>The budget counters\<close>

lemma budget_inv_used:
  assumes "budget_inv db" and "\<And>u. u_id (f u) = u_id u \<and> u_budget_reserved_usd (f u) = u_budget_reserved_usd u"
  shows "budget_inv (db\<lparr>users := modify u_id i f (users db)\<rparr>)"
  using assms by (auto simp: budget_inv_def wf_db_def counters_exact_def keys_started_def held_sum_def list_all_iff set_modify)

lemma budget_inv_key_used:
  assumes "budget_inv db"
    and "\<And>k. k_id (f k) = k_id k \<and> k_period_reserved_usd (f k) = k_period_reserved_usd k \<and> k_period_started_at (f k) = k_period_started_at k"
  shows "budget_inv (db\<lparr>api_keys := modify k_id i f (api_keys db)\<rparr>)"
  using assms by (auto simp: budget_inv_def wf_db_def counters_exact_def keys_started_def held_sum_def list_all_iff set_modify)

lemma budget_inv_logs [simp]: "budget_inv (db\<lparr>ledger := l\<rparr>) = budget_inv db" "budget_inv (db\<lparr>request_logs := q\<rparr>) = budget_inv db"
  by (rule budget_inv_frame, simp)+

lemma delta_inv: "budget_inv db \<Longrightarrow> budget_inv (apply_subject_delta st sid d t db)"
  by (auto simp: apply_subject_delta_def intro!: budget_inv_used budget_inv_key_used split: option.split subject_type.split)

lemma charge_inv:
  assumes "budget_inv db"
  shows "budget_inv (charge_call now call cost log_id db)"
proof -
  define r where "r = (if truthy (uc_budget_reservation_id call)
    then settle now db (the (uc_budget_reservation_id call)) cost (Some log_id) else (db, False))"
  have "budget_inv (fst r)" using assms by (simp add: r_def settle_inv)
  then show ?thesis
    unfolding charge_call_def r_def [symmetric] split_beta Let_def
    by (auto simp: record_key_usage_inv apply_cost_to_user_def update_user_def intro!: budget_inv_used split: option.split)
qed

lemma log_usage_budget_inv:
  assumes "log_usage sha now log_id op_id uuid call bk = Inr (bk', res)" and "books_inv bk" and "call_ok call"
    and "budget_inv (bk_db bk)"
  shows "budget_inv (bk_db bk')"
  using assms(1-3)
proof (cases rule: log_usage_cases)
  case existing
  then show ?thesis using assms(4) by (simp add: release_inv)
next
  case (new bk1 op1)
  have "budget_inv (bk_db bk1)" using assms(4) new(6) by (metis budget_inv_logs(1))
  then show ?thesis by (simp add: new(9) charge_inv)
qed

lemma reconcile_budget_inv:
  assumes "reconcile_usage_event now eid cost rid bk = Inr (bk', delta)" and "budget_inv (bk_db bk)"
  shows "budget_inv (bk_db bk')"
  using assms(1)
proof (cases rule: reconcile_cases)
  case again
  with assms(2) show ?thesis by simp
next
  case (applied e op1 op2 events db1)
  then show ?thesis using assms(2) by (simp add: delta_inv)
qed

section \<open>Every run\<close>

datatype books_event =
    Log_Usage time int string "string \<Rightarrow> string" usage_call
  | Settle_Auxiliary usage_call "(attempt \<times> time \<times> int \<times> string \<times> (string \<Rightarrow> string)) list"
  | Open_Run string "string option" "string option"
  | Reconcile_Event time string rat string
  | Close_Run time string "string option" int
  | Configure_Rate "time \<Rightarrow> string" time int rate_input
  | Budget budget_event

text \<open>A request that raises is rolled back.\<close>

fun books_step :: "(json \<Rightarrow> string) \<Rightarrow> (string \<Rightarrow> string) \<Rightarrow> budget_settings \<Rightarrow> books \<Rightarrow> books_event \<Rightarrow> books" where
  "books_step sha hex settings bk (Log_Usage now log_id op_id uuid call) =
     (case log_usage sha now log_id op_id uuid call bk of Inl _ \<Rightarrow> bk | Inr (bk', _) \<Rightarrow> bk')"
| "books_step sha hex settings bk (Settle_Auxiliary call attempts) = fst (settle_auxiliary_usage sha call attempts bk)"
| "books_step sha hex settings bk (Open_Run rid p s) = create_reconciliation_run rid p s bk"
| "books_step sha hex settings bk (Reconcile_Event now eid cost rid) =
     (case reconcile_usage_event now eid cost rid bk of Inl _ \<Rightarrow> bk | Inr (bk', _) \<Rightarrow> bk')"
| "books_step sha hex settings bk (Close_Run now rid msg n) = finish_reconciliation_run now rid msg n bk"
| "books_step sha hex settings bk (Configure_Rate isoformat now new_id i) =
     (case create_configured_pricing_snapshot sha isoformat now new_id i (bk_snapshots bk) of
        Inl _ \<Rightarrow> bk | Inr (rows, _) \<Rightarrow> bk\<lparr>bk_snapshots := rows\<rparr>)"
| "books_step sha hex settings bk (Budget e) = bk\<lparr>bk_db := budget_step hex settings (bk_db bk) e\<rparr>"

text \<open>Events handed to the log have costs that are not negative, as captured ones have.\<close>

fun books_ok :: "books_event \<Rightarrow> bool" where
  "books_ok (Log_Usage _ _ _ _ call) = call_ok call"
| "books_ok (Settle_Auxiliary call _) = call_ok call"
| "books_ok _ = True"

definition system_inv :: "books \<Rightarrow> bool" where
  "system_inv bk \<longleftrightarrow> books_inv bk \<and> budget_inv (bk_db bk)"

lemma log_usage_system:
  "log_usage sha now log_id op_id uuid call bk = Inr (bk', res) \<Longrightarrow> call_ok call \<Longrightarrow> system_inv bk \<Longrightarrow> system_inv bk'"
  unfolding system_inv_def using log_usage_inv log_usage_budget_inv by blast

lemma settle_attempts_system: "call_ok call \<Longrightarrow> system_inv bk \<Longrightarrow> system_inv (fst (settle_attempts sha call attempts bk))"
proof (induction sha call attempts bk rule: settle_attempts.induct)
  case (2 sha call outcome now log_id op_id uuid rest bk)
  show ?case
  proof (cases "log_usage sha now log_id op_id uuid call bk")
    case (Inl x)
    with 2 show ?thesis by simp
  next
    case (Inr y)
    obtain bk1 res where y: "y = (bk1, res)" by force
    have "system_inv bk1" using log_usage_system [OF Inr [unfolded y] 2(4,5)] .
    with 2 Inr y show ?thesis by (cases outcome) simp_all
  qed
qed simp

lemma books_inv_runs: "books_inv (bk\<lparr>bk_runs := rs\<rparr>) = books_inv bk" "books_inv (bk\<lparr>bk_snapshots := ss\<rparr>) = books_inv bk"
proof -
  have "log_total_ok (bk\<lparr>bk_runs := rs\<rparr>) = log_total_ok bk" "log_total_ok (bk\<lparr>bk_snapshots := ss\<rparr>) = log_total_ok bk"
    by (rule ext, simp add: log_total_ok_def split: option.split)+
  then show "books_inv (bk\<lparr>bk_runs := rs\<rparr>) = books_inv bk" "books_inv (bk\<lparr>bk_snapshots := ss\<rparr>) = books_inv bk"
    by (simp_all add: books_inv_def core_inv_def ev_cost_def ev_ledger_def op_cost_def op_ledger_def)
qed

lemma books_step_inv:
  assumes "books_ok e" and "system_inv bk"
  shows "system_inv (books_step sha hex settings bk e)"
proof (cases e)
  case (Log_Usage now log_id op_id uuid call)
  with assms log_usage_system show ?thesis by (auto split: sum.split)
next
  case (Settle_Auxiliary call attempts)
  with assms show ?thesis by (simp add: settle_auxiliary_usage_def settle_attempts_system)
next
  case (Reconcile_Event now eid cost rid)
  with assms show ?thesis
    using reconcile_inv_books reconcile_budget_inv by (auto simp: system_inv_def split: sum.split)
next
  case (Configure_Rate f now n i)
  with assms show ?thesis by (auto simp: system_inv_def books_inv_runs split: sum.split)
next
  case (Budget b)
  with assms show ?thesis
    using books_inv_db [OF budget_step_logs] by (simp add: system_inv_def budget_step_inv)
qed (use assms in \<open>simp_all add: system_inv_def create_reconciliation_run_def finish_reconciliation_run_def books_inv_runs\<close>)

interpretation books: invariant_system "books_step sha hex settings" books_ok system_inv for sha hex settings
  by unfold_locales (rule books_step_inv)

text \<open>
  C4: the books balance in every run. From balanced books, through any sequence of logged
  calls, retried helper calls, provider corrections, new rates and operations on budgets, failed ones
  included, the ledger entries of every event add up to its cost, those of every operation to the
  cost of its events and to the total stored on the operation and shown in its request log, and
  every reserved counter is the sum of the open holds of its subject.
\<close>

theorem run_keeps_books:
  assumes "system_inv bk" and "list_all books_ok es" and "bk' = foldl (books_step sha hex settings) bk es"
  shows "(\<forall>e \<in> set (bk_events bk').
      sum_where (\<lambda>l. l_usage_event_id l = ue_id e) l_amount_usd (ledger (bk_db bk')) = or_zero (ue_final_cost_usd e)) \<and>
    (\<forall>op1 \<in> set (bk_operations bk').
      sum_where (\<lambda>l. l_operation_id l = uo_id op1) l_amount_usd (ledger (bk_db bk')) = uo_total_cost_usd op1 \<and>
      sum_where (\<lambda>e. ue_operation_id e = uo_id op1) (\<lambda>e. or_zero (ue_final_cost_usd e)) (bk_events bk') = uo_total_cost_usd op1 \<and>
      (\<forall>q \<in> set (request_logs (bk_db bk')). q_usage_operation_id q = Some (uo_id op1) \<longrightarrow> q_total_cost_usd q = uo_total_cost_usd op1)) \<and>
    system_inv bk'"
proof -
  have inv: "system_inv bk'" unfolding assms(3) using books.run_inv [OF assms(2,1)] .
  then have b: "books_inv bk'" and c: "core_inv bk'" by (simp_all add: system_inv_def books_inv_def)
  have d: "distinct (map uo_id (bk_operations bk'))" "distinct (map ue_id (bk_events bk'))" using c by (simp_all add: core_inv_def)
  have "ev_ledger bk' (ue_id e) = or_zero (ue_final_cost_usd e)" if "e \<in> set (bk_events bk')" for e
  proof -
    have "ev_cost bk' (ue_id e) = or_zero (ue_final_cost_usd e)"
      unfolding ev_cost_def using sum_where_unique [OF d(2) that] .
    then show ?thesis using c by (simp add: core_inv_def)
  qed
  moreover have "op_ledger bk' (uo_id op1) = uo_total_cost_usd op1 \<and> op_cost bk' (uo_id op1) = uo_total_cost_usd op1"
    if "op1 \<in> set (bk_operations bk')" for op1
    using that b c by (simp add: books_inv_def core_inv_def)
  moreover have "q_total_cost_usd q = uo_total_cost_usd op1"
    if "op1 \<in> set (bk_operations bk')" "q \<in> set (request_logs (bk_db bk'))" "q_usage_operation_id q = Some (uo_id op1)" for op1 q
    using that b fetch_distinct [OF d(1) that(1)] by (auto simp: books_inv_def list_all_iff log_total_ok_def)
  ultimately show ?thesis using inv unfolding ev_ledger_def op_ledger_def op_cost_def by blast
qed

section \<open>A call is charged once\<close>

definition recorded :: "string \<Rightarrow> books \<Rightarrow> bool" where
  "recorded key bk \<longleftrightarrow> key \<in> uo_idempotency_key ` set (bk_operations bk)"

lemma log_usage_recorded:
  assumes "log_usage sha now log_id op_id uuid call bk = Inr (bk', res)" and "books_inv bk" and "call_ok call"
  shows "recorded (operation_key (uc_operation_idempotency_key call) (uc_budget_reservation_id call) op_id) bk'"
    and "\<And>key. recorded key bk \<Longrightarrow> recorded key bk'"
proof -
  have "recorded (operation_key (uc_operation_idempotency_key call) (uc_budget_reservation_id call) op_id) bk' \<and>
      (\<forall>key. recorded key bk \<longrightarrow> recorded key bk')"
    using assms
  proof (cases rule: log_usage_cases)
    case existing
    then show ?thesis by (auto simp: recorded_def fetch_None_iff)
  next
    case (new bk1 op1)
    then show ?thesis by (auto simp: recorded_def image_iff)
  qed
  then show "recorded (operation_key (uc_operation_idempotency_key call) (uc_budget_reservation_id call) op_id) bk'"
    and "\<And>key. recorded key bk \<Longrightarrow> recorded key bk'" by blast+
qed

lemma settle_attempts_recorded:
  "call_ok call \<Longrightarrow> system_inv bk \<Longrightarrow> recorded key bk \<Longrightarrow> recorded key (fst (settle_attempts sha call attempts bk))"
proof (induction sha call attempts bk rule: settle_attempts.induct)
  case (2 sha call outcome now log_id op_id uuid rest bk)
  show ?case
  proof (cases "log_usage sha now log_id op_id uuid call bk")
    case (Inl x)
    with 2 show ?thesis by simp
  next
    case (Inr y)
    obtain bk1 res where y: "y = (bk1, res)" by force
    have "system_inv bk1" using log_usage_system [OF Inr [unfolded y] 2(4,5)] .
    moreover have "recorded key bk1"
      using log_usage_recorded(2) [OF Inr [unfolded y]] 2(4-6) by (simp add: system_inv_def)
    ultimately show ?thesis using 2 Inr y by (cases outcome) simp_all
  qed
qed simp

lemma books_step_recorded:
  assumes "books_ok e" and "system_inv bk" and "recorded key bk"
  shows "recorded key (books_step sha hex settings bk e)"
proof (cases e)
  case (Log_Usage now log_id op_id uuid call)
  with assms log_usage_recorded(2) show ?thesis by (auto simp: system_inv_def split: sum.split)
next
  case (Settle_Auxiliary call attempts)
  with assms show ?thesis by (simp add: settle_auxiliary_usage_def settle_attempts_recorded)
next
  case (Reconcile_Event now eid cost rid)
  show ?thesis
  proof (cases "reconcile_usage_event now eid cost rid bk")
    case (Inr y)
    obtain bk1 d where y: "y = (bk1, d)" by force
    have "recorded key bk1" using Inr [unfolded y]
    proof (cases rule: reconcile_cases)
      case (applied ev op1 op2 events db1)
      have "op1 = x" if "x \<in> set (bk_operations bk)" "uo_id x = uo_id op1" for x
        using that assms(2) fetch_SomeD [OF applied(2)] fetch_distinct [of uo_id "bk_operations bk"]
        by (metis applied(2) books_inv_def core_inv_def option.inject system_inv_def)
      moreover have "uo_idempotency_key op2 = uo_idempotency_key op1" by (simp add: applied(6) retotal_def Let_def)
      moreover obtain x where x: "x \<in> set (bk_operations bk)" "key = uo_idempotency_key x" using assms(3) by (auto simp: recorded_def)
      ultimately have "key = uo_idempotency_key (if uo_id x = uo_id op1 then op2 else x)" by auto
      with x(1) show ?thesis unfolding recorded_def applied(9) set_modify by blast
    qed (use assms(3) in simp)
    with Inr y Reconcile_Event show ?thesis by simp
  qed (use assms(3) Reconcile_Event in simp)
next
  case (Configure_Rate f now n i)
  with assms(3) show ?thesis by (auto simp: recorded_def split: sum.split)
qed (use assms(3) in \<open>simp_all add: recorded_def create_reconciliation_run_def finish_reconciliation_run_def\<close>)

lemma run_recorded:
  "list_all books_ok es \<Longrightarrow> system_inv bk \<Longrightarrow> recorded key bk \<Longrightarrow> recorded key (foldl (books_step sha hex settings) bk es)"
  by (induction es arbitrary: bk) (simp_all add: books_step_inv books_step_recorded)

lemma subject_used_release [simp]: "subject_used (fst (release now db rid e)) st sid = subject_used db st sid"
proof (cases rule: release_cases [of now db rid e])
  case (released row f)
  then show ?thesis using subject_used_close [of db row now None f st sid] by (simp add: lock_then_reservation_Some)
qed simp

lemma log_usage_again:
  assumes "log_usage sha now log_id op_id uuid call bk = Inr (bk', res)" and "books_inv bk" and "call_ok call"
    and "recorded (operation_key (uc_operation_idempotency_key call) (uc_budget_reservation_id call) op_id) bk"
  shows "res = None \<and> same_logs (bk_db bk) (bk_db bk') \<and> bk_operations bk' = bk_operations bk \<and> bk_events bk' = bk_events bk \<and>
    subject_used (bk_db bk') st sid = subject_used (bk_db bk) st sid"
  using assms(1-3)
proof (cases rule: log_usage_cases)
  case existing
  then show ?thesis by simp
next
  case (new bk1 op1)
  with assms(4) show ?thesis by (auto simp: recorded_def fetch_None_iff)
qed

lemma operation_key_drawn:
  "truthy idem \<or> truthy r \<Longrightarrow> operation_key idem r a = operation_key idem r b"
  by (auto simp: operation_key_def)


section \<open>Who pays for a call\<close>

text \<open>The hold that pays for a call, if it is still open.\<close>

definition open_hold :: "db \<Rightarrow> string option \<Rightarrow> reservation option" where
  "open_hold db rid =
     (if truthy rid
      then (case fetch r_id (the rid) (reservations db) of
              Some row \<Rightarrow> if r_status row = STATUS_HELD \<and> lock_subject db (r_subject_type row) (r_subject_id row) then Some row else None
            | None \<Rightarrow> None)
      else None)"

lemma subject_used_logs [simp]:
  "subject_used (db\<lparr>ledger := l\<rparr>) st sid = subject_used db st sid" "subject_used (db\<lparr>request_logs := q\<rparr>) st sid = subject_used db st sid"
  by (simp_all add: subject_used_def locked_subject_def split: subject_type.split)

lemma lock_subject_logs [simp]:
  "lock_subject (db\<lparr>ledger := l\<rparr>) st sid = lock_subject db st sid"
  "lock_subject (db\<lparr>request_logs := q\<rparr>) st sid = lock_subject db st sid"
  by (cases st; simp add: lock_subject_def locked_subject_def)+

lemma open_hold_logs [simp]:
  "open_hold (db\<lparr>ledger := l\<rparr>) rid = open_hold db rid" "open_hold (db\<lparr>request_logs := q\<rparr>) rid = open_hold db rid"
  by (simp_all add: open_hold_def cong: option.case_cong)

lemma settle_open:
  assumes "truthy rid"
  shows "settle now db (the rid) c lid = (case open_hold db rid of None \<Rightarrow> (db, False) | Some row \<Rightarrow> (fst (settle now db (the rid) c lid), True))"
    and "subject_used (fst (settle now db (the rid) c lid)) st sid =
      (case open_hold db rid of None \<Rightarrow> subject_used db st sid
       | Some row \<Rightarrow> if st = r_subject_type row \<and> sid = r_subject_id row then round8 (subject_used db st sid + max 0 c)
           else subject_used db st sid)"
proof -
  have o: "open_hold db rid = (case lock_subject_then_reservation db (the rid) of None \<Rightarrow> None
      | Some row \<Rightarrow> if r_status row = STATUS_HELD then Some row else None)"
    using assms by (auto simp: open_hold_def lock_subject_then_reservation_def lock_reservation_def split: option.split)
  show "settle now db (the rid) c lid = (case open_hold db rid of None \<Rightarrow> (db, False) | Some row \<Rightarrow> (fst (settle now db (the rid) c lid), True))"
    unfolding o by (simp add: settle_def Let_def split: option.split)
  show "subject_used (fst (settle now db (the rid) c lid)) st sid =
      (case open_hold db rid of None \<Rightarrow> subject_used db st sid
       | Some row \<Rightarrow> if st = r_subject_type row \<and> sid = r_subject_id row then round8 (subject_used db st sid + max 0 c)
           else subject_used db st sid)"
  proof (cases rule: settle_cases [of now db "the rid" c lid])
    case missed
    then show ?thesis unfolding o by (auto split: option.split)
  next
    case (settled row f)
    then have "lock_subject db (r_subject_type row) (r_subject_id row)" by (simp add: lock_then_reservation_Some)
    with settled show ?thesis unfolding o by (simp add: subject_used_close)
  qed
qed

lemma used_apply_cost:
  "0 \<le> c \<Longrightarrow> subject_used (apply_cost_to_user uid c db) st sid =
     (if st = SUBJECT_USER \<and> sid = uid \<and> fetch u_id uid (users db) \<noteq> None then subject_used db st sid + c else subject_used db st sid)"
  by (cases st) (auto simp: apply_cost_to_user_def subject_used_def locked_subject_def update_user_def fetch_modify split: option.split)

lemma charge_used:
  assumes "0 \<le> cost"
  shows "subject_used (charge_call now call cost log_id db) st sid =
    (case open_hold db (uc_budget_reservation_id call) of
       Some row \<Rightarrow> if st = r_subject_type row \<and> sid = r_subject_id row then round8 (subject_used db st sid + cost)
                  else subject_used db st sid
     | None \<Rightarrow>
         if int_nonzero (uc_alpha_router_api_key_id call) \<and> 0 < cost
         then (if fetch k_id (the (uc_alpha_router_api_key_id call)) (api_keys db) = None then subject_used db st sid
               else subject_used (record_key_usage now db (the (uc_alpha_router_api_key_id call)) cost) st sid)
         else if st = SUBJECT_USER \<and> uc_user_id call = Some sid \<and> sid \<noteq> 0 \<and> uc_charge_budget call \<and> fetch u_id sid (users db) \<noteq> None
         then subject_used db st sid + cost
         else subject_used db st sid)"
proof -
  have none: "(if truthy (uc_budget_reservation_id call)
      then settle now db (the (uc_budget_reservation_id call)) cost (Some log_id) else (db, False)) = (db, False)"
    if "open_hold db (uc_budget_reservation_id call) = None"
    using settle_open(1) [of "uc_budget_reservation_id call" now db cost "Some log_id"] that by simp
  show ?thesis
  proof (cases "open_hold db (uc_budget_reservation_id call)")
    case None
    show ?thesis
      unfolding charge_call_def none [OF None] using None assms
      by (auto simp: Let_def used_apply_cost int_nonzero_def dest: fetch_SomeD split: option.split)
  next
    case (Some row)
    then have t: "truthy (uc_budget_reservation_id call)" by (auto simp: open_hold_def split: if_splits)
    note s = settle_open [OF t, of now db cost "Some log_id"]
    have sn: "snd (settle now db (the (uc_budget_reservation_id call)) cost (Some log_id))" by (subst s(1)) (simp add: Some)
    have "charge_call now call cost log_id db = fst (settle now db (the (uc_budget_reservation_id call)) cost (Some log_id))"
      using t sn unfolding charge_call_def by (simp add: split_beta Let_def)
    with s(2) [of st sid] Some assms show ?thesis by simp
  qed
qed


section \<open>Retried helper calls\<close>

lemma release_idle: "(\<And>r. fetch r_id rid (reservations db) = Some r \<Longrightarrow> r_status r \<noteq> STATUS_HELD) \<Longrightarrow> fst (release now db rid e) = db"
  by (auto simp: release_def lock_subject_then_reservation_def lock_reservation_def split: option.split)

lemma release_twice: "fst (release now' (fst (release now db rid e)) rid e') = fst (release now db rid e)"
proof (cases rule: release_cases [of now db rid e])
  case missed
  then show ?thesis by (auto simp: release_def split: option.splits)
next
  case (released row f)
  have "r_id row = rid" "fetch r_id rid (reservations db) = Some row"
    using released(1) by (auto simp: lock_then_reservation_Some dest: fetch_SomeD)
  then have "fetch r_id rid (reservations (fst (release now db rid e))) = Some (f row)"
    using released by (simp add: fetch_close_hold)
  then show ?thesis using released(4) by (intro release_idle) (simp split: if_splits)
qed

lemma log_usage_writes_reservation:
  assumes "log_usage sha now log_id op_id uuid call bk = Inr (bk1, Some lid)" and "books_inv bk" and "call_ok call"
  shows "uc_budget_reservation_id call \<in> set (map q_budget_reservation_id (request_logs (bk_db bk1)))"
  using assms
proof (cases rule: log_usage_cases)
  case (new bk0 op1)
  let ?db = "(bk_db bk0)\<lparr>request_logs := request_logs (bk_db bk) @ [log_row now log_id call (uo_total_cost_usd op1) op_id]\<rparr>"
  have "request_logs (charge_call now call (uo_total_cost_usd op1) log_id ?db) = request_logs ?db"
    using logs_charge [of ?db now call _ log_id ?db] by (simp add: same_logs_def)
  then show ?thesis by (simp add: new(9) log_row_def)
qed simp

text \<open>What logging a recorded call again changes, which is at most its hold.\<close>

definition settled_books :: "usage_call \<Rightarrow> books \<Rightarrow> bool" where
  "settled_books call bk \<longleftrightarrow>
     recorded (operation_key (uc_operation_idempotency_key call) (uc_budget_reservation_id call) []) bk \<and>
     (truthy (uc_budget_reservation_id call) \<longrightarrow>
        uc_budget_reservation_id call \<in> set (map q_budget_reservation_id (request_logs (bk_db bk))) \<or>
        (\<forall>now. fst (release now (bk_db bk) (the (uc_budget_reservation_id call)) False) = bk_db bk))"

lemma log_usage_settled:
  assumes "log_usage sha now log_id op_id uuid call bk = Inr (bk', res)" and "books_inv bk" and "call_ok call"
    and key: "truthy (uc_operation_idempotency_key call)"
  shows "settled_books call bk \<Longrightarrow> bk' = bk" and "settled_books call bk'"
proof -
  let ?r = "uc_budget_reservation_id call"
  have k: "operation_key (uc_operation_idempotency_key call) ?r op_id = operation_key (uc_operation_idempotency_key call) ?r []"
    using operation_key_drawn key by blast
  have nl: "\<not> (?r \<noteq> None \<and> ?r \<in> set (map q_budget_reservation_id (request_logs (bk_db bk))))"
    using assms(1) by (auto simp: log_usage_def split: if_splits)
  have rec: "recorded (operation_key (uc_operation_idempotency_key call) ?r []) bk'"
    using log_usage_recorded(1) [OF assms(1-3)] by (simp only: k)
  from assms(1-3) have "(settled_books call bk \<longrightarrow> bk' = bk) \<and> settled_books call bk'"
  proof (cases rule: log_usage_cases)
    case existing
    then show ?thesis using nl rec by (auto simp: settled_books_def truthy_def release_twice split: option.splits)
  next
    case (new bk0 op1)
    have "?r \<in> set (map q_budget_reservation_id (request_logs (bk_db bk')))"
      using log_usage_writes_reservation [of sha now log_id op_id uuid call bk bk' log_id] assms(1-3) new(10) by simp
    then show ?thesis using new(1) rec k by (auto simp: settled_books_def recorded_def fetch_None_iff)
  qed
  then show "settled_books call bk \<Longrightarrow> bk' = bk" and "settled_books call bk'" by blast+
qed

lemma settle_attempts_once:
  assumes "books_inv bk" and "call_ok call" and "truthy (uc_operation_idempotency_key call)" and "settled_books call bk"
  shows "fst (settle_attempts sha call attempts bk) = bk"
  using assms
proof (induction attempts)
  case (Cons a attempts)
  obtain outcome now log_id op_id uuid where a: "a = (outcome, now, log_id, op_id, uuid)" by (metis prod_cases5)
  show ?case
  proof (cases "log_usage sha now log_id op_id uuid call bk")
    case (Inl x)
    with Cons a show ?thesis by simp
  next
    case (Inr y)
    obtain bk1 res where y: "y = (bk1, res)" by force
    have "bk1 = bk" using log_usage_settled(1) [OF Inr [unfolded y] Cons.prems(1-3)] Cons.prems(4) .
    with Cons Inr y a show ?thesis by (cases outcome) simp_all
  qed
qed simp

lemma settle_attempts_at_most_once:
  assumes "system_inv bk" and "call_ok call" and "truthy (uc_operation_idempotency_key call)"
    and "settle_attempts sha call attempts bk = (bk', ok)"
  shows "bk' = bk \<and> \<not> ok \<or>
    (\<exists>(outcome, now, log_id, op_id, uuid) \<in> set attempts. \<exists>res. outcome \<noteq> Lost_Before \<and>
       log_usage sha now log_id op_id uuid call bk = Inr (bk', res))"
  using assms
proof (induction attempts)
  case (Cons a attempts)
  obtain outcome now log_id op_id uuid where a: "a = (outcome, now, log_id, op_id, uuid)" by (metis prod_cases5)
  show ?case
  proof (cases "log_usage sha now log_id op_id uuid call bk")
    case (Inl x)
    with Cons a show ?thesis by auto
  next
    case (Inr y)
    obtain bk1 res where y: "y = (bk1, res)" by force
    show ?thesis
    proof (cases outcome)
      case Lost_After
      have inv1: "system_inv bk1" using log_usage_system [OF Inr [unfolded y] Cons.prems(2,1)] .
      have b: "books_inv bk" "books_inv bk1" using inv1 Cons.prems(1) by (simp_all add: system_inv_def)
      have "fst (settle_attempts sha call attempts bk1) = bk1"
        using log_usage_settled(2) [OF Inr [unfolded y] b(1) Cons.prems(2,3)]
        by (rule settle_attempts_once [OF b(2) Cons.prems(2,3)])
      with Cons.prems(4) Inr y a Lost_After show ?thesis by auto
    qed (use Cons Inr y a in auto)
  qed
qed simp

text \<open>
  A helper's call is recorded and charged at most once, however its three attempts are lost:
  the books at the end are those of the start, or those after exactly one of the attempts.
\<close>

theorem auxiliary_recorded_once:
  assumes "system_inv bk" and "call_ok call" and "truthy (uc_operation_idempotency_key call)"
    and "settle_auxiliary_usage sha call attempts bk = (bk', ok)"
  shows "bk' = bk \<and> \<not> ok \<or>
    (\<exists>(outcome, now, log_id, op_id, uuid) \<in> set (take 3 attempts). \<exists>res. outcome \<noteq> Lost_Before \<and>
       log_usage sha now log_id op_id uuid call bk = Inr (bk', res))"
  using assms unfolding settle_auxiliary_usage_def by (rule settle_attempts_at_most_once)

lemma settle_attempts_refused:
  assumes "uc_budget_reservation_id call \<noteq> None"
    and "uc_budget_reservation_id call \<in> set (map q_budget_reservation_id (request_logs (bk_db bk)))"
  shows "settle_attempts sha call attempts bk = (bk, False)"
proof (induction attempts)
  case (Cons a attempts)
  obtain outcome now log_id op_id uuid where a: "a = (outcome, now, log_id, op_id, uuid)" by (metis prod_cases5)
  have "log_usage sha now log_id op_id uuid call bk = Inl IntegrityError" using assms by (simp add: log_usage_def)
  with Cons a show ?case by simp
qed simp

text \<open>
  When the answer to the commit of a call with a hold is lost, the settlement is reported
  as failed although it was made. The unique hold column of the request log refuses every further
  attempt before the operation's key is looked at, so no attempt can find out: the books are those
  after the first attempt, and the report says that the hold is still open.
\<close>

theorem lost_answer_reported_as_leak:
  assumes "system_inv bk" and "call_ok call" and "uc_budget_reservation_id call = Some rid"
    and "log_usage sha now log_id op_id uuid call bk = Inr (bk1, Some lid)"
  shows "settle_auxiliary_usage sha call ((Lost_After, now, log_id, op_id, uuid) # rest) bk = (bk1, False)"
proof -
  have "uc_budget_reservation_id call \<in> set (map q_budget_reservation_id (request_logs (bk_db bk1)))"
    using log_usage_writes_reservation [OF assms(4) _ assms(2)] assms(1) by (simp add: system_inv_def)
  then show ?thesis
    using settle_attempts_refused [of call bk1 sha] assms(3,4) by (simp add: settle_auxiliary_usage_def)
qed

section \<open>Corrections\<close>

definition subject_current :: "db \<Rightarrow> subject_type \<Rightarrow> int \<Rightarrow> time \<Rightarrow> bool" where
  "subject_current db st sid t =
     (case locked_subject db st sid of
        Some (Subj_User u) \<Rightarrow> period_current (u_budget_period_start u) t
      | Some (Subj_Key k) \<Rightarrow> period_current (k_period_started_at k) t
      | None \<Rightarrow> False)"

lemma used_delta:
  "subject_used (apply_subject_delta st' i d t db) st sid =
     (if st' = st \<and> i = Some sid \<and> d \<noteq> 0 \<and> subject_current db st sid t
      then max 0 (subject_used db st sid + d) else subject_used db st sid)"
proof (cases "i = None \<or> d = 0")
  case False
  then obtain k where "i = Some k" "d \<noteq> 0" by (cases i) auto
  then show ?thesis
    by (cases st; cases st')
       (simp_all add: apply_subject_delta_def subject_used_def subject_current_def locked_subject_def fetch_modify clamped_def
          max_def split: option.split)
qed (auto simp: apply_subject_delta_def split: option.split)


section \<open>Spend that is not to be charged\<close>

lemma store_events_ledger:
  assumes "store_events sha uuid op1 ps bk = Inr bk'"
  shows "ledger (bk_db bk') = ledger (bk_db bk) @ concat (map (\<lambda>p. debit_rows op1 (uuid (pe_idempotency_key p)) p) ps)"
  using assms
  by (induction ps arbitrary: bk) (auto simp: Let_def split: if_splits prod.splits)

lemma debit_usage:
  assumes "uo_subject_type op1 = SUBJECT_USER" and "uo_subject_id op1 = Some uid" and "\<forall>p \<in> set ps. start \<le> pe_completed_at p"
  shows "sum_where (\<lambda>l. l_subject_type l = SUBJECT_USER \<and> l_subject_id l = Some uid \<and> l_effective_at l \<ge> start) l_amount_usd
      (concat (map (\<lambda>p. debit_rows op1 (f p) p) ps)) = sum_list (map (\<lambda>p. or_zero (event_cost p)) ps)"
  using assms by (induction ps) (auto simp: debit_rows_def or_zero_def split: option.split)

lemma apply_configured_completed [simp]: "pe_completed_at (apply_configured_pricing snapshots e) = pe_completed_at e"
  by (cases rule: apply_configured_pricing_cases [of snapshots e]) simp_all

lemma log_usage_ledger:
  assumes "log_usage sha now log_id op_id uuid call bk = Inr (bk', Some lid)"
  obtains op1 where "uo_subject_type op1 = fst (subject_of (uc_user_id call) (uc_alpha_router_api_key_id call) (uc_subject_type call))"
    "uo_subject_id op1 = snd (subject_of (uc_user_id call) (uc_alpha_router_api_key_id call) (uc_subject_type call))"
    "ledger (bk_db bk') = ledger (bk_db bk) @ concat (map (\<lambda>p. debit_rows op1 (uuid (pe_idempotency_key p)) p)
       (map (apply_configured_pricing (bk_snapshots bk)) (call_events now op_id call)))"
proof -
  let ?key = "operation_key (uc_operation_idempotency_key call) (uc_budget_reservation_id call) op_id"
  let ?events = "map (apply_configured_pricing (bk_snapshots bk)) (call_events now op_id call)"
  define op1 where "op1 = new_operation op_id ?key ?events (uc_user_id call) (uc_alpha_router_api_key_id call) (uc_budget_reservation_id call) (uc_subject_type call)"
  have none: "fetch uo_idempotency_key ?key (bk_operations bk) = None"
    using assms by (auto simp: log_usage_def persist_usage_operation_def existing_summary_def Let_def split: if_splits option.splits)
  then obtain bk1 where st: "store_events sha uuid op1 ?events (bk\<lparr>bk_operations := bk_operations bk @ [op1]\<rparr>) = Inr bk1"
    using assms by (auto simp: log_usage_def persist_usage_operation_def op1_def Let_def split: if_splits sum.splits)
  have l: "ledger (charge_call now call c i db) = ledger db" for c i db
    using logs_charge [of db now call c i db] by (simp add: same_logs_def)
  have "ledger (bk_db bk') = ledger (bk_db bk1)"
    using assms none st by (auto simp: log_usage_def persist_usage_operation_def op1_def l Let_def split: if_splits)
  then show thesis using that [of op1] store_events_ledger [OF st] by (simp add: op1_def new_operation_def Let_def)
qed

text \<open>
  Spend that is recorded without being charged does consume the allowance. Logging
  such a call leaves what the user has used as it was, but the month's usage, from which the next
  rollover sets it, grows by the cost. The witness rolls the period over and finds the cost charged.
\<close>

theorem uncharged_spend_counts:
  assumes inv: "system_inv bk" and ok: "call_ok call" and log: "log_usage sha now log_id op_id uuid call bk = Inr (bk', Some lid)"
    and c: "\<not> uc_charge_budget call" "uc_budget_reservation_id call = None" "uc_alpha_router_api_key_id call = None"
      "uc_user_id call = Some uid"
    and u: "fetch u_id uid (users (bk_db bk)) = Some u" "start = (case u_budget_period_start u of
         Some p \<Rightarrow> if p > month_start later then p else month_start later | None \<Rightarrow> month_start later)"
    and ev: "\<forall>e \<in> set (call_events now op_id call). start \<le> pe_completed_at e"
    and pos: "\<forall>l \<in> set (ledger (bk_db bk)). 0 \<le> l_amount_usd l" "\<forall>q \<in> set (request_logs (bk_db bk)). 0 \<le> q_total_cost_usd q"
    and cost: "cost = sum_list (map (\<lambda>e. or_zero (cq_final_cost_usd (pe_quote (apply_configured_pricing (bk_snapshots bk) e)))) (call_events now op_id call))"
  shows "subject_used (bk_db bk') SUBJECT_USER uid = subject_used (bk_db bk) SUBJECT_USER uid \<and>
    get_month_usage later (bk_db bk') uid = get_month_usage later (bk_db bk) uid + cost"
proof -
  have b: "books_inv bk" using inv by (simp add: system_inv_def)
  obtain op1 where op1: "uo_subject_type op1 = SUBJECT_USER" "uo_subject_id op1 = Some uid"
    "ledger (bk_db bk') = ledger (bk_db bk) @ concat (map (\<lambda>p. debit_rows op1 (uuid (pe_idempotency_key p)) p)
       (map (apply_configured_pricing (bk_snapshots bk)) (call_events now op_id call)))"
    by (rule log_usage_ledger [OF log]) (simp add: c subject_of_def)
  have led: "sum_where (\<lambda>l. l_subject_type l = SUBJECT_USER \<and> l_subject_id l = Some uid \<and> l_effective_at l \<ge> start) l_amount_usd
      (ledger (bk_db bk')) = sum_where (\<lambda>l. l_subject_type l = SUBJECT_USER \<and> l_subject_id l = Some uid \<and> l_effective_at l \<ge> start)
      l_amount_usd (ledger (bk_db bk)) + cost"
    unfolding op1(3) sum_where_append
    by (subst debit_usage [OF op1(1,2)]) (use ev in \<open>simp_all add: cost event_cost_def comp_def\<close>)
  from log b ok show ?thesis
  proof (cases rule: log_usage_cases)
    case (new bk1 op2)
    have db': "bk_db bk' = (bk_db bk1)\<lparr>request_logs := request_logs (bk_db bk) @ [log_row now log_id call (uo_total_cost_usd op2) op_id]\<rparr>"
      unfolding new(9) by (simp add: charge_call_def c truthy_def int_nonzero_def)
    have us: "users (bk_db bk') = users (bk_db bk)" by (metis (no_types, lifting) db' db_state.ext_inject db_state.surjective db_state.update_convs(8,9) new(6))
    have "subject_used (bk_db bk') SUBJECT_USER uid = subject_used (bk_db bk) SUBJECT_USER uid"
      by (simp add: subject_used_def locked_subject_def us)
    moreover have "sum_where (\<lambda>q. q_user_id q = Some uid \<and> q_request_time q \<ge> start \<and> q_usage_operation_id q = None) q_total_cost_usd
        (request_logs (bk_db bk')) =
      sum_where (\<lambda>q. q_user_id q = Some uid \<and> q_request_time q \<ge> start \<and> q_usage_operation_id q = None) q_total_cost_usd
        (request_logs (bk_db bk))"
      unfolding db' by (simp add: log_row_def)
    moreover have "0 \<le> sum_where (\<lambda>q. q_user_id q = Some uid \<and> q_request_time q \<ge> start \<and> q_usage_operation_id q = None) q_total_cost_usd
        (request_logs (bk_db bk))"
      "0 \<le> sum_where (\<lambda>l. l_subject_type l = SUBJECT_USER \<and> l_subject_id l = Some uid \<and> l_effective_at l \<ge> start) l_amount_usd (ledger (bk_db bk))"
      using pos by (auto intro: sum_where_nonneg)
    moreover have "0 \<le> cost" using new(7,8) by (simp add: cost event_cost_def)
    ultimately show ?thesis
      using led u by (simp add: get_month_usage_def us Let_def)
  qed simp
qed

section \<open>Worked examples\<close>

definition books_example :: books where
  "books_example = \<lparr>bk_db = system_example, bk_operations = [], bk_events = [], bk_line_items = [], bk_snapshots = [], bk_runs = []\<rparr>"

definition helper_event :: pending_event where
  "helper_event = capture_usage_event (\<lambda>_ _. JNull) 5 ''u'' (True, sample_answer) None sample_call"

definition helper_call :: usage_call where
  "helper_call = auxiliary_call (Some 1) ''m'' helper_event ''title'' (Some ''h'') None True None"

definition memory_call :: usage_call where
  "memory_call = (auxiliary_call (Some 1) ''m'' helper_event ''memory'' None None False (Some ''mem:1''))
     \<lparr>uc_usage_events := [helper_event\<lparr>pe_completed_at := days 40\<rparr>]\<rparr>"

abbreviation log_example :: "usage_call \<Rightarrow> books \<Rightarrow> (books \<times> int option) result" where
  "log_example \<equiv> log_usage sample_digest 5 7 ''op'' (\<lambda>_. ''ev'')"

lemma system_inv_example: "system_inv books_example"
proof -
  have "budget_inv system_example" by code_simp
  moreover have "ledger system_example = []" "request_logs system_example = []" by code_simp+
  ultimately show ?thesis
    by (simp add: system_inv_def books_inv_def core_inv_def books_example_def ev_cost_def ev_ledger_def op_cost_def op_ledger_def)
qed

lemma example_calls_ok: "call_ok helper_call" "call_ok memory_call"
  by code_simp+

lemma log_example_runs:
  obtains bk1 where "log_example helper_call books_example = Inr (bk1, Some 7)"
    "u_budget_used_usd (hd (users (bk_db bk1))) = 4 + 31 / 10000" "map r_status (reservations (bk_db bk1)) = [STATUS_SETTLED, STATUS_SETTLED]"
proof -
  have "case log_example helper_call books_example of Inl _ \<Rightarrow> False
    | Inr (bk1, r) \<Rightarrow> r = Some 7 \<and> u_budget_used_usd (hd (users (bk_db bk1))) = 4 + 31 / 10000 \<and>
        map r_status (reservations (bk_db bk1)) = [STATUS_SETTLED, STATUS_SETTLED]"
    by code_simp
  then show ?thesis using that by (auto split: sum.splits)
qed

definition example_events :: "books_event list" where
  "example_events = [Log_Usage 5 7 ''op'' (\<lambda>_. ''ev'') helper_call, Open_Run ''run'' None None, Reconcile_Event 9 ''ev'' 1 ''run'',
     Budget (Expire_Stale (seconds 200))]"

theorem run_keeps_books_witness:
  "sum_where (\<lambda>l. l_operation_id l = ''op'') l_amount_usd
     (ledger (bk_db (foldl (books_step sample_digest Budget_Admission.sample_sha sample_settings) books_example example_events))) = 1"
proof -
  let ?bk = "foldl (books_step sample_digest Budget_Admission.sample_sha sample_settings) books_example example_events"
  have "map (\<lambda>x. (uo_id x, uo_total_cost_usd x)) (bk_operations ?bk) = [(''op'', 1)]" by code_simp
  then obtain op1 where "op1 \<in> set (bk_operations ?bk)" "uo_id op1 = ''op''" "uo_total_cost_usd op1 = 1" by force
  moreover have "list_all books_ok example_events" by code_simp
  ultimately show ?thesis using run_keeps_books [OF system_inv_example _ refl, of example_events] by metis
qed



theorem auxiliary_recorded_once_witness:
  "snd (settle_auxiliary_usage sample_digest helper_call [(Lost_Before, 4, 6, ''o'', (\<lambda>_. ''e'')), (Done, 5, 7, ''op'', (\<lambda>_. ''ev''))] books_example)
   \<and> (\<exists>(outcome, now, log_id, op_id, uuid) \<in> set [(Lost_Before, 4, 6, ''o'', (\<lambda>_. ''e'')), (Done, 5, 7, ''op'', (\<lambda>_. ''ev''))]. \<exists>res.
        outcome \<noteq> Lost_Before \<and> log_usage sample_digest now log_id op_id uuid helper_call books_example =
          Inr (fst (settle_auxiliary_usage sample_digest helper_call [(Lost_Before, 4, 6, ''o'', (\<lambda>_. ''e'')), (Done, 5, 7, ''op'', (\<lambda>_. ''ev''))] books_example), res))"
proof -
  let ?a = "[(Lost_Before, 4, 6, ''o'', (\<lambda>_. ''e'')), (Done, 5, 7, ''op'', (\<lambda>_. ''ev''))]"
  have t: "truthy (uc_operation_idempotency_key helper_call)" by code_simp
  have ok: "snd (settle_auxiliary_usage sample_digest helper_call ?a books_example)" by code_simp
  have "settle_auxiliary_usage sample_digest helper_call ?a books_example =
      (fst (settle_auxiliary_usage sample_digest helper_call ?a books_example), True)"
    using ok by (simp add: prod_eq_iff)
  from auxiliary_recorded_once [OF system_inv_example example_calls_ok(1) t this] ok show ?thesis by simp
qed

theorem lost_answer_reported_as_leak_witness:
  "\<exists>bk1. log_example helper_call books_example = Inr (bk1, Some 7) \<and> map r_status (reservations (bk_db bk1)) = [STATUS_SETTLED, STATUS_SETTLED] \<and>
     settle_auxiliary_usage sample_digest helper_call [(Lost_After, 5, 7, ''op'', (\<lambda>_. ''ev'')), (Done, 6, 8, ''o2'', (\<lambda>_. ''e2''))] books_example = (bk1, False)"
proof -
  obtain bk1 where l: "log_example helper_call books_example = Inr (bk1, Some 7)" and
    r: "map r_status (reservations (bk_db bk1)) = [STATUS_SETTLED, STATUS_SETTLED]"
    by (rule log_example_runs)
  have h: "uc_budget_reservation_id helper_call = Some ''h''" by code_simp
  show ?thesis
    by (intro exI [of _ bk1] conjI l r lost_answer_reported_as_leak [OF system_inv_example example_calls_ok(1) h l])
qed

definition reconciled_example :: books where
  "reconciled_example = foldl (books_step sample_digest Budget_Admission.sample_sha sample_settings) books_example (take 2 example_events)"


definition fresh_books :: books where
  "fresh_books = books_example\<lparr>bk_db := system_example\<lparr>reservations := [], users := [sample_user 1 10 4]\<rparr>\<rparr>"

theorem uncharged_spend_counts_witness:
  "\<exists>bk'. log_example memory_call fresh_books = Inr (bk', Some 7) \<and>
     subject_used (bk_db bk') SUBJECT_USER 1 = 4 \<and>
     get_month_usage (days 41) (bk_db bk') 1 = get_month_usage (days 41) (bk_db fresh_books) 1 + 31 / 10000 \<and>
     map u_budget_used_usd (users (ensure_budget_period (days 41) (bk_db bk') (sample_user 1 10 4))) = [31 / 10000]"
proof -
  have "budget_inv (bk_db fresh_books)" "ledger (bk_db fresh_books) = []" "request_logs (bk_db fresh_books) = []" by code_simp+
  moreover have "bk_operations fresh_books = []" "bk_events fresh_books = []" by code_simp+
  ultimately have inv: "system_inv fresh_books"
    by (simp add: system_inv_def books_inv_def core_inv_def ev_cost_def ev_ledger_def op_cost_def op_ledger_def)
  have "case log_example memory_call fresh_books of Inl _ \<Rightarrow> False | Inr (b, r) \<Rightarrow> r = Some 7 \<and>
      map u_budget_used_usd (users (ensure_budget_period (days 41) (bk_db b) (sample_user 1 10 4))) = [31 / 10000]"
    by code_simp
  then obtain bk' where l: "log_example memory_call fresh_books = Inr (bk', Some 7)"
    and r: "map u_budget_used_usd (users (ensure_budget_period (days 41) (bk_db bk') (sample_user 1 10 4))) = [31 / 10000]"
    by (auto split: sum.splits)
  have c: "\<not> uc_charge_budget memory_call" "uc_budget_reservation_id memory_call = None" "uc_alpha_router_api_key_id memory_call = None"
    "uc_user_id memory_call = Some 1" by code_simp+
  have u: "fetch u_id 1 (users (bk_db fresh_books)) = Some (sample_user 1 10 4)" by code_simp
  have ev: "\<forall>e \<in> set (call_events 5 ''op'' memory_call). (case u_budget_period_start (sample_user 1 10 4) of
      Some p \<Rightarrow> if p > month_start (days 41) then p else month_start (days 41) | None \<Rightarrow> month_start (days 41)) \<le> pe_completed_at e"
    by code_simp
  have p: "\<forall>l \<in> set (ledger (bk_db fresh_books)). 0 \<le> l_amount_usd l" "\<forall>q \<in> set (request_logs (bk_db fresh_books)). 0 \<le> q_total_cost_usd q"
    by code_simp+
  have cost: "31 / 10000 = sum_list (map (\<lambda>e. or_zero (cq_final_cost_usd (pe_quote (apply_configured_pricing (bk_snapshots fresh_books) e))))
      (call_events 5 ''op'' memory_call))"
    by code_simp
  have s: "subject_used (bk_db fresh_books) SUBJECT_USER 1 = 4" by code_simp
  from uncharged_spend_counts [OF inv example_calls_ok(2) l c u refl ev p cost] l r s show ?thesis by auto
qed

end
