(* ===== verification/Capacity.thy ===== *)
theory Capacity
  imports Router_Prelude
begin

text \<open>
  The leased semaphore that admits Code Interpreter turns
  (\<open>services/code_interpreter_capacity_service.py\<close>): the Lua scripts that Redis runs
  atomically, the operational policy with its off switch, and the functions around them.

  A sorted set is the list of its (member, score) pairs, one per member; a key with an expiry is
  gone from the moment it runs out. Redis and the workers read the same clock.
\<close>

section \<open>Redis data\<close>

type_synonym zset = "(string \<times> time) list"

record capacity_store =
  cap_global :: zset
  cap_subject :: "string \<Rightarrow> zset"
  cap_lease :: "string \<Rightarrow> (string \<times> time) option"
  cap_policy :: "(string \<times> int option) list"
  cap_rejected :: int

definition zprune :: "time \<Rightarrow> zset \<Rightarrow> zset" where
  "zprune now z = filter (\<lambda>(m, score). now < score) z"

definition zrem :: "string \<Rightarrow> zset \<Rightarrow> zset" where
  "zrem i z = filter (\<lambda>(m, score). m \<noteq> i) z"

definition zadd :: "time \<Rightarrow> string \<Rightarrow> zset \<Rightarrow> zset" where
  "zadd score i z = (i, score) # zrem i z"

definition lease_get :: "time \<Rightarrow> capacity_store \<Rightarrow> string \<Rightarrow> string option" where
  "lease_get now s i =
     (case cap_lease s i of None \<Rightarrow> None | Some (subj, e) \<Rightarrow> if e \<le> now then None else Some subj)"

section \<open>The scripts\<close>

text \<open>Record a lease until \<open>expiry\<close> in both sets and in its own key.\<close>

definition put_lease :: "string \<Rightarrow> string \<Rightarrow> time \<Rightarrow> capacity_store \<Rightarrow> capacity_store" where
  "put_lease i subj expiry s =
     s\<lparr>cap_global := zadd expiry i (cap_global s),
       cap_subject := (cap_subject s)(subj := zadd expiry i (cap_subject s subj)),
       cap_lease := (cap_lease s)(i := Some (subj, expiry))\<rparr>"

definition prune_subject :: "time \<Rightarrow> string \<Rightarrow> capacity_store \<Rightarrow> capacity_store" where
  "prune_subject now subj s = s\<lparr>cap_subject := (cap_subject s)(subj := zprune now (cap_subject s subj))\<rparr>"

definition prune_global :: "time \<Rightarrow> capacity_store \<Rightarrow> capacity_store" where
  "prune_global now s = s\<lparr>cap_global := zprune now (cap_global s)\<rparr>"

text \<open>\<open>_ACQUIRE_LUA\<close>: the store and the triple it returns.\<close>

definition acquire_lua ::
    "string \<Rightarrow> string \<Rightarrow> time \<Rightarrow> time \<Rightarrow> int \<Rightarrow> int \<Rightarrow> capacity_store \<Rightarrow> capacity_store \<times> int \<times> int \<times> int" where
  "acquire_lua lease subj now expiry global_max subject_max s0 =
     (let s = prune_subject now subj (prune_global now s0);
          gc = int (length (cap_global s)); sc = int (length (cap_subject s subj))
      in (case lease_get now s lease of
            Some existing \<Rightarrow>
              if existing = subj then
                let s1 = put_lease lease subj expiry s
                in (s1, 1, int (length (cap_global s1)), int (length (cap_subject s1 subj)))
              else (s, -2, gc, sc)
          | None \<Rightarrow>
              if gc \<ge> global_max then (s, 0, gc, sc)
              else if sc \<ge> subject_max then (s, -1, gc, sc)
              else (put_lease lease subj expiry s, 1, gc + 1, sc + 1)))"

definition release_lua :: "string \<Rightarrow> time \<Rightarrow> capacity_store \<Rightarrow> capacity_store \<times> int" where
  "release_lua lease now s0 =
     (let s = prune_global now s0;
          meta = (case lease_get now s lease of Some subj \<Rightarrow> if subj = [] then None else Some subj | None \<Rightarrow> None);
          removed = length (cap_global s) - length (zrem lease (cap_global s));
          s1 = s\<lparr>cap_global := zrem lease (cap_global s)\<rparr>;
          s2 = (case meta of
                  None \<Rightarrow> s1
                | Some subj \<Rightarrow> prune_subject now subj
                    (s1\<lparr>cap_subject := (cap_subject s1)(subj := zrem lease (cap_subject s1 subj))\<rparr>));
          s3 = s2\<lparr>cap_lease := (cap_lease s2)(lease := None)\<rparr>
      in (s3, if removed > 0 \<or> meta \<noteq> None then 1 else 0))"

definition heartbeat_lua :: "string \<Rightarrow> time \<Rightarrow> time \<Rightarrow> capacity_store \<Rightarrow> capacity_store \<times> int" where
  "heartbeat_lua lease now expiry s0 =
     (let s = prune_global now s0
      in (case lease_get now s lease of
            None \<Rightarrow> (s\<lparr>cap_global := zrem lease (cap_global s)\<rparr>, 0)
          | Some subj \<Rightarrow>
              if subj = [] then (s\<lparr>cap_global := zrem lease (cap_global s)\<rparr>, 0)
              else (put_lease lease subj expiry (prune_subject now subj s), 1)))"

definition stats_lua :: "time \<Rightarrow> capacity_store \<Rightarrow> capacity_store \<times> int" where
  "stats_lua now s = (prune_global now s, int (length (cap_global (prune_global now s))))"

section \<open>Policy\<close>

record capacity_config =
  global_max :: int
  per_subject_max :: int
  lease_ttl :: int
  heartbeat :: int
  retry_after :: int
  enabled :: bool
  hard_global_max :: int

record capacity_env =
  env_global_max :: int
  env_per_subject_max :: int
  env_lease_ttl_seconds :: int
  env_heartbeat_seconds :: int
  env_retry_after_seconds :: int

definition or_default :: "int \<Rightarrow> int \<Rightarrow> int" where
  "or_default x d = (if x = 0 then d else x)"

definition capacity_settings :: "capacity_env \<Rightarrow> capacity_config" where
  "capacity_settings env =
     (let g = max 1 (or_default (env_global_max env) 200)
      in \<lparr>global_max = g,
          per_subject_max = max 1 (or_default (env_per_subject_max env) 2),
          lease_ttl = max 30 (or_default (env_lease_ttl_seconds env) 900),
          heartbeat = max 5 (or_default (env_heartbeat_seconds env) 30),
          retry_after = max 1 (or_default (env_retry_after_seconds env) 30),
          enabled = True, hard_global_max = g\<rparr>)"

definition if_given :: "int option \<Rightarrow> int \<Rightarrow> int" where
  "if_given x d = (case x of None \<Rightarrow> d | Some v \<Rightarrow> v)"

definition normalize_policy ::
    "capacity_config \<Rightarrow> int option \<Rightarrow> int option \<Rightarrow> int option \<Rightarrow> int option \<Rightarrow> capacity_config" where
  "normalize_policy base gmax smax retry en =
     (let hard_global = max 1 (global_max base);
          operational_global = min hard_global (max 1 (if_given gmax hard_global));
          operational_subject = min operational_global (max 1 (if_given smax (per_subject_max base)))
      in base\<lparr>global_max := operational_global, per_subject_max := operational_subject,
           retry_after := max 1 (min 300 (if_given retry (retry_after base))),
           hard_global_max := hard_global,
           enabled := (case en of None \<Rightarrow> enabled base | Some v \<Rightarrow> v \<noteq> 0)\<rparr>)"

text \<open>
  The policy hash of Redis holds integers as text: a field is absent, or present with a value
  that parses or does not. \<open>known\<close> is the switch this worker saw last; reading a non-empty hash
  updates it.
\<close>

definition optional_int :: "(string \<times> int option) list \<Rightarrow> string \<Rightarrow> int option" where
  "optional_int raw key = (case map_of raw key of None \<Rightarrow> None | Some v \<Rightarrow> v)"

definition effective_policy ::
    "int option \<Rightarrow> capacity_store \<Rightarrow> capacity_config \<Rightarrow> capacity_config \<times> int option" where
  "effective_policy known s base =
     (let raw = cap_policy s
      in if raw = [] then (normalize_policy base None None None known, known)
         else
           let policy = normalize_policy base (optional_int raw ''global_max'')
                 (optional_int raw ''per_subject_max'') (optional_int raw ''retry_after'')
                 (if map_of raw ''enabled'' \<noteq> None then optional_int raw ''enabled'' else known)
           in (policy, Some (if enabled policy then 1 else 0)))"

section \<open>Admission\<close>

datatype capacity_error = Busy int | Disabled | Unavailable int | Subject_Required

fun error_status :: "capacity_error \<Rightarrow> int option" where
  "error_status (Busy _) = Some 429"
| "error_status Disabled = Some 503"
| "error_status (Unavailable _) = Some 503"
| "error_status Subject_Required = None"

record permit =
  pm_lease_id :: string
  pm_subject :: string
  pm_expires_at :: time

text \<open>
  Where Redis fails, if it does: at the policy read, at the script, or at the count of
  rejections (which is swallowed).
\<close>

datatype redis_fault = Redis_Up | Down_At_Policy | Down_At_Script | Down_At_Counter

definition subject_for_user :: "int \<Rightarrow> string" where
  "subject_for_user uid = ''user:'' @ show_int uid"

definition subject_for_api_key :: "int \<Rightarrow> string" where
  "subject_for_api_key kid = ''api_key:'' @ show_int kid"

definition is_alnum :: "char \<Rightarrow> bool" where
  "is_alnum c = (let n = of_char c :: nat
     in 48 \<le> n \<and> n \<le> 57 \<or> 65 \<le> n \<and> n \<le> 90 \<or> 97 \<le> n \<and> n \<le> 122)"

definition strip_set :: "char list \<Rightarrow> string \<Rightarrow> string" where
  "strip_set cs s = rev (dropWhile (\<lambda>c. c \<in> set cs) (rev (dropWhile (\<lambda>c. c \<in> set cs) s)))"

definition subject_for_system :: "string \<Rightarrow> string" where
  "subject_for_system name =
     (let cleaned = map (\<lambda>c. if is_alnum c \<or> c \<in> set ''-_'' then c else CHR ''-'')
            (strip (if name = [] then ''probe'' else name));
          trimmed = strip_set ''-_'' cleaned
      in ''system:'' @ (if trimmed = [] then ''probe'' else trimmed))"

text \<open>
  \<open>acquire_code_interpreter_turn\<close>. \<open>fresh\<close> is the UUID drawn when the caller gives no lease
  id. The result is the store, this worker's remembered switch, and the permit or the error.
\<close>

definition acquire_code_interpreter_turn ::
    "capacity_env \<Rightarrow> redis_fault \<Rightarrow> string \<Rightarrow> time \<Rightarrow> string \<Rightarrow> string option \<Rightarrow> int option \<Rightarrow> int option
      \<Rightarrow> capacity_store \<Rightarrow> int option \<Rightarrow> capacity_store \<times> int option \<times> (capacity_error + permit)" where
  "acquire_code_interpreter_turn env fault fresh now subject0 lease_id global_limit subject_limit s known =
     (let base = capacity_settings env; subject = strip subject0
      in if subject = [] then (s, known, Inl Subject_Required)
         else
           let given = (case lease_id of None \<Rightarrow> [] | Some l \<Rightarrow> strip l);
               lease = (if given = [] then fresh else given);
               expiry = now + seconds (lease_ttl base)
           in if fault = Down_At_Policy then (s, known, Inl (Unavailable (retry_after base)))
              else
                let (cfg, known1) = effective_policy known s base;
                    g_max = max 1 (if_given global_limit (global_max cfg));
                    s_max = max 1 (if_given subject_limit (per_subject_max cfg))
                in if \<not> enabled cfg then (s, known1, Inl Disabled)
                   else if fault = Down_At_Script then (s, known1, Inl (Unavailable (retry_after cfg)))
                   else
                     let (s1, status, gc, sc) = acquire_lua lease subject now expiry g_max s_max s
                     in if status = 1
                        then (s1, known1, Inr \<lparr>pm_lease_id = lease, pm_subject = subject, pm_expires_at = expiry\<rparr>)
                        else (if fault = Down_At_Counter then s1 else s1\<lparr>cap_rejected := cap_rejected s1 + 1\<rparr>,
                              known1, Inl (Busy (retry_after cfg))))"

definition release_code_interpreter_turn :: "bool \<Rightarrow> time \<Rightarrow> string \<Rightarrow> capacity_store \<Rightarrow> capacity_store \<times> bool" where
  "release_code_interpreter_turn redis_ok now lease s =
     (if lease = [] \<or> \<not> redis_ok then (s, False)
      else let (s1, n) = release_lua lease now s in (s1, n \<noteq> 0))"

definition heartbeat_code_interpreter_turn ::
    "capacity_env \<Rightarrow> bool \<Rightarrow> time \<Rightarrow> string \<Rightarrow> capacity_store \<Rightarrow> capacity_store \<times> (capacity_error + bool)" where
  "heartbeat_code_interpreter_turn env redis_ok now lease s =
     (let cfg = capacity_settings env
      in if lease = [] then (s, Inr False)
         else if \<not> redis_ok then (s, Inl (Unavailable (retry_after cfg)))
         else let (s1, n) = heartbeat_lua lease now (now + seconds (lease_ttl cfg)) s in (s1, Inr (n \<noteq> 0)))"

record capacity_stats =
  st_active :: int
  st_limit :: int
  st_available :: int
  st_per_subject_limit :: int
  st_hard_limit :: int
  st_enabled :: bool

definition code_interpreter_capacity_stats ::
    "capacity_env \<Rightarrow> bool \<Rightarrow> time \<Rightarrow> capacity_store \<Rightarrow> int option
      \<Rightarrow> capacity_store \<times> int option \<times> (capacity_error + capacity_stats)" where
  "code_interpreter_capacity_stats env redis_ok now s known =
     (let base = capacity_settings env
      in if \<not> redis_ok then (s, known, Inl (Unavailable (retry_after base)))
         else
           let (cfg, known1) = effective_policy known s base; (s1, active) = stats_lua now s
           in (s1, known1, Inr \<lparr>st_active = active, st_limit = global_max cfg,
                st_available = max 0 (global_max cfg - active), st_per_subject_limit = per_subject_max cfg,
                st_hard_limit = hard_global_max cfg, st_enabled = enabled cfg\<rparr>))"

section \<open>The persisted policy\<close>

text \<open>
  \<open>system_settings\<close>: None where the row is missing or its value does not parse, which the code
  treats alike.
\<close>

type_synonym settings_table = "string \<Rightarrow> int option"

definition get_code_interpreter_capacity_policy :: "capacity_env \<Rightarrow> settings_table \<Rightarrow> capacity_config" where
  "get_code_interpreter_capacity_policy env db =
     normalize_policy (capacity_settings env)
       (db ''code_interpreter_capacity_global_max'') (db ''code_interpreter_capacity_per_subject_max'')
       (db ''code_interpreter_capacity_retry_after_seconds'') (db ''code_interpreter_enabled'')"

definition sync_code_interpreter_capacity_policy ::
    "capacity_env \<Rightarrow> bool \<Rightarrow> settings_table \<Rightarrow> capacity_store \<Rightarrow> int option
      \<Rightarrow> capacity_store \<times> int option \<times> (capacity_error + capacity_config)" where
  "sync_code_interpreter_capacity_policy env redis_ok db s known =
     (let policy = get_code_interpreter_capacity_policy env db
      in if \<not> redis_ok then (s, known, Inl (Unavailable (retry_after policy)))
         else
           let en = (if enabled policy then 1 else 0);
               fields = [(''global_max'', Some (global_max policy)), (''per_subject_max'', Some (per_subject_max policy)),
                 (''retry_after'', Some (retry_after policy)), (''enabled'', Some en)]
           in (s\<lparr>cap_policy := fields @ filter (\<lambda>(k, v). k \<notin> set (map fst fields)) (cap_policy s)\<rparr>, Some en, Inr policy))"

definition set_code_interpreter_capacity_policy ::
    "capacity_env \<Rightarrow> settings_table \<Rightarrow> int option \<Rightarrow> int option \<Rightarrow> int option \<Rightarrow> bool option
      \<Rightarrow> settings_table \<times> capacity_config" where
  "set_code_interpreter_capacity_policy env db gmax smax retry en =
     (let current = get_code_interpreter_capacity_policy env db;
          normalized = normalize_policy (capacity_settings env)
            (Some (if_given gmax (global_max current))) (Some (if_given smax (per_subject_max current)))
            (Some (if_given retry (retry_after current)))
            (Some (case en of None \<Rightarrow> if enabled current then 1 else 0 | Some b \<Rightarrow> if b then 1 else 0))
      in (db(''code_interpreter_capacity_global_max'' := Some (global_max normalized),
             ''code_interpreter_capacity_per_subject_max'' := Some (per_subject_max normalized),
             ''code_interpreter_capacity_retry_after_seconds'' := Some (retry_after normalized),
             ''code_interpreter_enabled'' := Some (if enabled normalized then 1 else 0)),
          normalized))"

section \<open>Sorted sets\<close>

lemma set_zprune [simp]: "set (zprune now z) = {p \<in> set z. now < snd p}"
  by (auto simp: zprune_def)

lemma set_zrem [simp]: "set (zrem i z) = {p \<in> set z. fst p \<noteq> i}"
  by (auto simp: zrem_def)

lemma set_zadd [simp]: "set (zadd e i z) = insert (i, e) {p \<in> set z. fst p \<noteq> i}"
  by (simp add: zadd_def)

lemma distinct_zops:
  "distinct (map fst z) \<Longrightarrow> distinct (map fst (zprune now z))"
  "distinct (map fst z) \<Longrightarrow> distinct (map fst (zrem i z))"
  "distinct (map fst z) \<Longrightarrow> distinct (map fst (zadd e i z))"
  by (auto simp: zprune_def zrem_def zadd_def distinct_map_filter)

lemma zprune_idem [simp]: "zprune t (zprune t z) = zprune t z"
  by (simp add: zprune_def)

lemma zprune_later: "t \<le> t' \<Longrightarrow> zprune t' (zprune t z) = zprune t' z"
  unfolding zprune_def filter_filter by (rule filter_cong) auto

lemma length_zprune_mono: "t \<le> t' \<Longrightarrow> length (zprune t' z) \<le> length (zprune t z)"
  by (metis zprune_later zprune_def length_filter_le)

lemma length_zrem_le: "length (zrem i z) \<le> length z"
  by (simp add: zrem_def)

lemma zprune_zrem: "zprune t (zrem i z) = zrem i (zprune t z)"
  by (simp add: zprune_def zrem_def conj_commute case_prod_beta)

lemma zrem_idem [simp]: "zrem i (zrem i z) = zrem i z"
  by (simp add: zrem_def)

lemma length_zrem:
  assumes "distinct (map fst z)"
  shows "length (zrem i z) = length z - (if i \<in> fst ` set z then 1 else 0)"
  using assms
proof (induction z)
  case (Cons p z)
  show ?case
  proof (cases "fst p = i")
    case True
    with Cons.prems have "i \<notin> fst ` set z" by auto
    then have "zrem i z = z" by (auto simp: zrem_def filter_id_conv image_iff)
    with True show ?thesis by (cases p) (simp add: zrem_def)
  next
    case False
    then have "i \<in> fst ` set z \<Longrightarrow> 0 < length z" by (cases z) auto
    with False Cons show ?thesis by (cases p) (auto simp: zrem_def)
  qed
qed (simp add: zrem_def)

lemma length_zadd_present:
  "distinct (map fst z) \<Longrightarrow> i \<in> fst ` set z \<Longrightarrow> length (zadd e i z) = length z"
  by (cases z) (auto simp: zadd_def length_zrem)

lemma length_zadd_le: "length (zadd e i z) \<le> length z + 1"
  using length_zrem_le [of i z] by (simp add: zadd_def)

section \<open>The sets and the lease keys agree\<close>

text \<open>
  What the scripts keep: below the surface of expired leftovers, the global set, the set of each
  subject and the lease keys record the same leases with the same expiry.
\<close>

definition cap_sync :: "time \<Rightarrow> capacity_store \<Rightarrow> bool" where
  "cap_sync t s \<longleftrightarrow>
     distinct (map fst (cap_global s)) \<and> (\<forall>subj. distinct (map fst (cap_subject s subj))) \<and>
     (\<forall>i e. t < e \<longrightarrow> ((i, e) \<in> set (cap_global s) \<longleftrightarrow> (\<exists>subj. cap_lease s i = Some (subj, e)))) \<and>
     (\<forall>subj i e. t < e \<longrightarrow> ((i, e) \<in> set (cap_subject s subj) \<longleftrightarrow> cap_lease s i = Some (subj, e))) \<and>
     (\<forall>i subj e. cap_lease s i = Some (subj, e) \<longrightarrow> subj \<noteq> [])"

definition within_caps :: "nat \<Rightarrow> nat \<Rightarrow> time \<Rightarrow> capacity_store \<Rightarrow> bool" where
  "within_caps G S t s \<longleftrightarrow> length (zprune t (cap_global s)) \<le> G \<and>
     (\<forall>subj. length (zprune t (cap_subject s subj)) \<le> S)"

lemma cap_sync_later: "cap_sync t s \<Longrightarrow> t \<le> t' \<Longrightarrow> cap_sync t' s"
  unfolding cap_sync_def by (meson order_le_less_trans)

lemma within_caps_later: "within_caps G S t s \<Longrightarrow> t \<le> t' \<Longrightarrow> within_caps G S t' s"
  unfolding within_caps_def by (meson length_zprune_mono order_trans)

lemma sync_prune_global: "cap_sync t s \<Longrightarrow> cap_sync t (prune_global t s)"
  by (auto simp: cap_sync_def prune_global_def distinct_zops)

lemma sync_prune_subject: "cap_sync t s \<Longrightarrow> cap_sync t (prune_subject t subj s)"
  by (auto simp: cap_sync_def prune_subject_def distinct_zops)

lemma caps_prune [simp]:
  "within_caps G S t (prune_global t s) = within_caps G S t s"
  "within_caps G S t (prune_subject t subj s) = within_caps G S t s"
  by (auto simp: within_caps_def prune_global_def prune_subject_def)

lemma lease_get_prune [simp]:
  "lease_get t (prune_global t' s) i = lease_get t s i" "lease_get t (prune_subject t' subj s) i = lease_get t s i"
  by (simp_all add: lease_get_def prune_global_def prune_subject_def)

lemma prune_global_sel [simp]:
  "cap_global (prune_global t s) = zprune t (cap_global s)" "cap_subject (prune_global t s) = cap_subject s"
  "cap_lease (prune_global t s) = cap_lease s"
  by (simp_all add: prune_global_def)

lemma lease_get_Some: "lease_get t s i = Some subj \<longleftrightarrow> (\<exists>e. cap_lease s i = Some (subj, e) \<and> t < e)"
  by (auto simp: lease_get_def split: option.splits)

text \<open>Writing a lease whose id is free, or belongs to the same subject, keeps the agreement.\<close>

lemma sync_put_lease:
  assumes sync: "cap_sync t s" and subj: "subj \<noteq> []"
    and own: "lease_get t s i = None \<or> lease_get t s i = Some subj"
  shows "cap_sync t (put_lease i subj e s)"
proof -
  have other: "(i, x) \<notin> set (cap_subject s c)" if "t < x" "c \<noteq> subj" for x c
    using that sync own unfolding cap_sync_def lease_get_def by (force split: option.splits if_splits)
  show ?thesis
    using sync subj other unfolding cap_sync_def put_lease_def
    by (auto simp: distinct_zops split: if_splits)
qed

lemma sync_subject_nonempty: "cap_sync t s \<Longrightarrow> lease_get t s i = Some subj \<Longrightarrow> subj \<noteq> []"
  unfolding cap_sync_def lease_get_Some by blast

lemma zprune_zadd: "t < e \<Longrightarrow> zprune t (zadd e i z) = zadd e i (zprune t z)"
  by (simp add: zadd_def zprune_zrem [symmetric]) (simp add: zprune_def)

text \<open>A held lease occupies a live place of both sets, so writing it again takes no new place.\<close>

lemma sync_member:
  assumes "cap_sync t s" and "lease_get t s i = Some subj"
  shows "i \<in> fst ` set (zprune t (cap_global s))" "i \<in> fst ` set (zprune t (cap_subject s subj))"
proof -
  from assms(2) obtain e where "cap_lease s i = Some (subj, e)" "t < e" by (auto simp: lease_get_Some)
  with assms(1) have "(i, e) \<in> set (cap_global s)" "(i, e) \<in> set (cap_subject s subj)"
    unfolding cap_sync_def by blast+
  with \<open>t < e\<close> show "i \<in> fst ` set (zprune t (cap_global s))" "i \<in> fst ` set (zprune t (cap_subject s subj))"
    by (force intro: image_eqI [where x = "(i, e)"])+
qed

lemma caps_put_held:
  assumes sync: "cap_sync t s" and caps: "within_caps G S t s" and own: "lease_get t s i = Some subj" and e: "t < e"
  shows "within_caps G S t (put_lease i subj e s)"
proof -
  have "distinct (map fst (zprune t (cap_global s)))" "distinct (map fst (zprune t (cap_subject s subj)))"
    using sync by (simp_all add: cap_sync_def distinct_zops)
  with caps sync_member [OF sync own] show ?thesis
    by (simp add: within_caps_def put_lease_def zprune_zadd [OF e] length_zadd_present)
qed

lemma caps_put_new:
  assumes caps: "within_caps G S t s" and e: "t < e"
    and "length (zprune t (cap_global s)) < G" and "length (zprune t (cap_subject s subj)) < S"
  shows "within_caps G S t (put_lease i subj e s)"
  using assms length_zadd_le [of e i "zprune t (cap_global s)"] length_zadd_le [of e i "zprune t (cap_subject s subj)"]
  by (auto simp: within_caps_def put_lease_def zprune_zadd [OF e] simp del: One_nat_def)

lemma acquire_lua_keeps:
  assumes sync: "cap_sync t s" and caps: "within_caps G S t s" and subj: "subj \<noteq> []" and e: "t < e"
    and lim: "g \<le> int G" "m \<le> int S"
  shows "cap_sync t (fst (acquire_lua i subj t e g m s)) \<and> within_caps G S t (fst (acquire_lua i subj t e g m s))"
proof -
  let ?s = "prune_subject t subj (prune_global t s)"
  have sync': "cap_sync t ?s" using sync by (simp add: sync_prune_global sync_prune_subject)
  have caps': "within_caps G S t ?s" using caps by simp
  have len: "zprune t (cap_global ?s) = cap_global ?s" "zprune t (cap_subject ?s subj) = cap_subject ?s subj"
    by (simp_all add: prune_subject_def prune_global_def)
  show ?thesis
  proof (cases "lease_get t ?s i")
    case None
    have "within_caps G S t (put_lease i subj e ?s)"
      if "int (length (cap_global ?s)) < g" "int (length (cap_subject ?s subj)) < m"
    proof (rule caps_put_new [OF caps' e])
      show "length (zprune t (cap_global ?s)) < G" "length (zprune t (cap_subject ?s subj)) < S"
        unfolding len using that lim by linarith+
    qed
    with None sync' caps' sync_put_lease [OF sync' subj, of i e] show ?thesis
      by (simp add: acquire_lua_def Let_def)
  next
    case (Some x)
    with sync' caps' sync_put_lease [OF sync' subj, of i e] caps_put_held [OF sync' caps' _ e, of i subj] show ?thesis
      by (simp add: acquire_lua_def Let_def)
  qed
qed

lemma caps_zrem:
  "within_caps G S t s \<Longrightarrow> within_caps G S t (s\<lparr>cap_global := zrem i (cap_global s)\<rparr>)"
  "within_caps G S t s \<Longrightarrow> within_caps G S t (s\<lparr>cap_subject := (cap_subject s)(subj := zrem i (cap_subject s subj))\<rparr>)"
  "within_caps G S t (s\<lparr>cap_lease := l\<rparr>) = within_caps G S t s"
  by (auto simp: within_caps_def zprune_zrem intro: order_trans [OF length_zrem_le])

lemma release_lua_keeps:
  assumes sync: "cap_sync t s" and caps: "within_caps G S t s"
  shows "cap_sync t (fst (release_lua i t s)) \<and> within_caps G S t (fst (release_lua i t s))"
proof -
  let ?s = "prune_global t s"
  have sync': "cap_sync t ?s" and caps': "within_caps G S t ?s" using assms by (simp_all add: sync_prune_global)
  show ?thesis
  proof (cases "lease_get t ?s i")
    case None
    then have "\<And>subj e. t < e \<Longrightarrow> cap_lease ?s i \<noteq> Some (subj, e)" by (force simp: lease_get_def)
    with sync' have "cap_sync t (?s\<lparr>cap_global := zrem i (cap_global ?s), cap_lease := (cap_lease ?s)(i := None)\<rparr>)"
      unfolding cap_sync_def by (auto simp: distinct_zops)
    with None caps' caps_zrem(1) [OF caps', of i] show ?thesis
      by (simp add: release_lua_def Let_def caps_zrem(3))
  next
    case (Some subj)
    then obtain e where e: "cap_lease ?s i = Some (subj, e)" "t < e" unfolding lease_get_Some by blast
    have ne: "subj \<noteq> []" using sync_subject_nonempty [OF sync' Some] .
    have sy: "cap_sync t (?s\<lparr>cap_global := zrem i (cap_global ?s),
        cap_subject := (cap_subject ?s)(subj := zprune t (zrem i (cap_subject ?s subj))),
        cap_lease := (cap_lease ?s)(i := None)\<rparr>)"
      using sync' e unfolding cap_sync_def by (auto simp: distinct_zops)
    moreover have "within_caps G S t (?s\<lparr>cap_global := zrem i (cap_global ?s),
        cap_subject := (cap_subject ?s)(subj := zprune t (zrem i (cap_subject ?s subj))),
        cap_lease := (cap_lease ?s)(i := None)\<rparr>)"
      using caps' by (auto simp: within_caps_def zprune_zrem intro: order_trans [OF length_zrem_le])
    ultimately show ?thesis using Some ne
      by (simp add: release_lua_def Let_def prune_subject_def)
  qed
qed

lemma heartbeat_lua_keeps:
  assumes sync: "cap_sync t s" and caps: "within_caps G S t s" and e: "t < e"
  shows "cap_sync t (fst (heartbeat_lua i t e s)) \<and> within_caps G S t (fst (heartbeat_lua i t e s))"
proof -
  let ?s = "prune_global t s"
  have sync': "cap_sync t ?s" and caps': "within_caps G S t ?s" using assms by (simp_all add: sync_prune_global)
  show ?thesis
  proof (cases "lease_get t ?s i")
    case None
    then have "\<And>subj e. t < e \<Longrightarrow> cap_lease ?s i \<noteq> Some (subj, e)" by (force simp: lease_get_def)
    with sync' have "cap_sync t (?s\<lparr>cap_global := zrem i (cap_global ?s)\<rparr>)"
      unfolding cap_sync_def by (auto simp: distinct_zops)
    with None caps_zrem(1) [OF caps', of i] show ?thesis by (simp add: heartbeat_lua_def Let_def)
  next
    case (Some subj)
    then have ne: "subj \<noteq> []" using sync_subject_nonempty [OF sync'] by blast
    let ?s2 = "prune_subject t subj ?s"
    have "cap_sync t ?s2" "within_caps G S t ?s2" "lease_get t ?s2 i = Some subj"
      using sync' caps' Some by (simp_all add: sync_prune_subject)
    with Some ne show ?thesis
      by (simp add: heartbeat_lua_def Let_def sync_put_lease caps_put_held e)
  qed
qed

section \<open>Runs\<close>

text \<open>
  What the workers do to the store, each event after some time (in microseconds). The state is
  the store, the clock and the switch that the acting worker remembers.
\<close>

datatype capacity_event =
    Acquire nat capacity_env redis_fault string string "string option" "int option" "int option"
  | Release_Turn nat bool string
  | Heartbeat nat capacity_env bool string
  | Stats nat capacity_env bool
  | Sync_Policy nat capacity_env bool settings_table
  | Flush_Policy nat

type_synonym capacity_state = "capacity_store \<times> time \<times> int option"

fun capacity_step :: "capacity_state \<Rightarrow> capacity_event \<Rightarrow> capacity_state" where
  "capacity_step (s, t, k) (Acquire d env fault fresh subj lease gl sl) =
     (let now = t + int d; (s1, k1, r) = acquire_code_interpreter_turn env fault fresh now subj lease gl sl s k in (s1, now, k1))"
| "capacity_step (s, t, k) (Release_Turn d ok lease) =
     (let now = t + int d in (fst (release_code_interpreter_turn ok now lease s), now, k))"
| "capacity_step (s, t, k) (Heartbeat d env ok lease) =
     (let now = t + int d in (fst (heartbeat_code_interpreter_turn env ok now lease s), now, k))"
| "capacity_step (s, t, k) (Stats d env ok) =
     (let now = t + int d; (s1, k1, r) = code_interpreter_capacity_stats env ok now s k in (s1, now, k1))"
| "capacity_step (s, t, k) (Sync_Policy d env ok db) =
     (let now = t + int d; (s1, k1, r) = sync_code_interpreter_capacity_policy env ok db s k in (s1, now, k1))"
| "capacity_step (s, t, k) (Flush_Policy d) = (s\<lparr>cap_policy := []\<rparr>, t + int d, k)"

text \<open>The ceilings that bound the limits an event can ask for or publish.\<close>

fun event_within :: "nat \<Rightarrow> nat \<Rightarrow> capacity_event \<Rightarrow> bool" where
  "event_within G S (Acquire d env fault fresh subj lease gl sl) \<longleftrightarrow>
     max 1 (if_given gl (max 1 (or_default (env_global_max env) 200))) \<le> int G \<and>
     max 1 (if_given sl (max 1 (or_default (env_per_subject_max env) 2))) \<le> int S"
| "event_within G S (Sync_Policy d env ok db) \<longleftrightarrow>
     per_subject_max (get_code_interpreter_capacity_policy env db) \<le> int S"
| "event_within G S _ \<longleftrightarrow> True"

definition policy_within :: "nat \<Rightarrow> capacity_store \<Rightarrow> bool" where
  "policy_within S s = (case optional_int (cap_policy s) ''per_subject_max'' of None \<Rightarrow> True | Some m \<Rightarrow> m \<le> int S)"

definition capacity_ok :: "nat \<Rightarrow> nat \<Rightarrow> capacity_state \<Rightarrow> bool" where
  "capacity_ok G S st = (case st of (s, t, k) \<Rightarrow> cap_sync t s \<and> within_caps G S t s \<and> policy_within S s)"

lemma lua_policy [simp]:
  "cap_policy (fst (acquire_lua i subj t e g m s)) = cap_policy s" "cap_policy (fst (release_lua i t s)) = cap_policy s"
  "cap_policy (fst (heartbeat_lua i t e s)) = cap_policy s" "cap_policy (fst (stats_lua t s)) = cap_policy s"
  by (auto simp: acquire_lua_def release_lua_def heartbeat_lua_def stats_lua_def Let_def prune_global_def
      prune_subject_def put_lease_def split: option.split)

lemma normalize_global_cap: "global_max (normalize_policy base g m r e) \<le> max 1 (global_max base)"
  by (simp add: normalize_policy_def Let_def)

lemma policy_global_cap:
  assumes "effective_policy k s (capacity_settings env) = (cfg, k')"
  shows "global_max cfg \<le> max 1 (or_default (env_global_max env) 200)"
proof -
  obtain g m r e where "cfg = normalize_policy (capacity_settings env) g m r e"
    using assms by (auto simp: effective_policy_def Let_def split: if_splits)
  moreover have "max 1 (global_max (capacity_settings env)) = max 1 (or_default (env_global_max env) 200)"
    by (simp add: capacity_settings_def Let_def)
  ultimately show ?thesis using normalize_global_cap [of "capacity_settings env" g m r e] by simp
qed

lemma normalize_subject_cap: "per_subject_max (normalize_policy base g m r e) \<le> max 1 (if_given m (per_subject_max base))"
  by (simp add: normalize_policy_def Let_def min.coboundedI2)

lemma policy_subject_cap:
  assumes "effective_policy k s (capacity_settings env) = (cfg, k')" and "policy_within S s"
    and "max 1 (or_default (env_per_subject_max env) 2) \<le> int S"
  shows "per_subject_max cfg \<le> int S"
proof -
  obtain g m r e where cfg: "cfg = normalize_policy (capacity_settings env) g m r e"
    and m: "m = None \<or> m = optional_int (cap_policy s) ''per_subject_max''"
    using assms(1) by (auto simp: effective_policy_def Let_def split: if_splits)
  have "max 1 (if_given m (per_subject_max (capacity_settings env))) \<le> int S"
    using m assms(2,3) by (auto simp: if_given_def policy_within_def capacity_settings_def Let_def split: option.splits)
  with normalize_subject_cap [of "capacity_settings env" g m r e] show ?thesis unfolding cfg by linarith
qed

lemma lease_ttl_pos: "t < t + seconds (lease_ttl (capacity_settings env))"
  by (simp add: capacity_settings_def seconds_def Let_def)

lemma caps_rejected [simp]:
  "cap_sync t (s\<lparr>cap_rejected := n\<rparr>) = cap_sync t s" "within_caps G S t (s\<lparr>cap_rejected := n\<rparr>) = within_caps G S t s"
  "policy_within S (s\<lparr>cap_rejected := n\<rparr>) = policy_within S s"
  "cap_sync t (s\<lparr>cap_policy := p\<rparr>) = cap_sync t s" "within_caps G S t (s\<lparr>cap_policy := p\<rparr>) = within_caps G S t s"
  by (simp_all add: cap_sync_def within_caps_def policy_within_def)

lemma acquire_step_ok:
  assumes ok: "cap_sync t s" "within_caps G S t s" "policy_within S s"
    and ev: "event_within G S (Acquire d env fault fresh subj lease gl sl)"
    and r: "acquire_code_interpreter_turn env fault fresh t subj lease gl sl s k = (s1, k1, out)"
  shows "cap_sync t s1 \<and> within_caps G S t s1 \<and> policy_within S s1"
proof -
  obtain cfg k2 where pol: "effective_policy k s (capacity_settings env) = (cfg, k2)" by (rule prod.exhaust)
  let ?g = "max 1 (if_given gl (global_max cfg))" and ?m = "max 1 (if_given sl (per_subject_max cfg))"
  have lim: "?g \<le> int G" "?m \<le> int S"
    using ev policy_global_cap [OF pol] policy_subject_cap [OF pol ok(3)]
    by (auto simp: if_given_def split: option.splits)
  let ?lua = "\<lambda>i. fst (acquire_lua i (strip subj) t (t + seconds (lease_ttl (capacity_settings env))) ?g ?m s)"
  have lua: "cap_sync t (?lua i) \<and> within_caps G S t (?lua i) \<and> policy_within S (?lua i)" if "strip subj \<noteq> []" for i
    using acquire_lua_keeps [OF ok(1,2) that lease_ttl_pos lim, of i] ok(3) by (simp add: policy_within_def)
  define i where "i = (let given = (case lease of None \<Rightarrow> [] | Some l \<Rightarrow> strip l) in if given = [] then fresh else given)"
  obtain s2 st gc sc where q: "acquire_lua i (strip subj) t (t + seconds (lease_ttl (capacity_settings env))) ?g ?m s = (s2, st, gc, sc)"
    by (rule prod_cases4)
  have "s1 = s \<or> strip subj \<noteq> [] \<and> (s1 = s2 \<or> s1 = s2\<lparr>cap_rejected := cap_rejected s2 + 1\<rparr>)"
    using r pol q unfolding acquire_code_interpreter_turn_def Let_def i_def [unfolded Let_def, symmetric]
    by (simp split: if_splits)
  with lua [of i] ok q show ?thesis by auto
qed

lemma capacity_step_ok:
  assumes "event_within G S e" and "capacity_ok G S st"
  shows "capacity_ok G S (capacity_step st e)"
proof -
  obtain s t k where st: "st = (s, t, k)" by (rule prod_cases3)
  define now where "now = t + int (case e of Acquire d _ _ _ _ _ _ _ \<Rightarrow> d | Release_Turn d _ _ \<Rightarrow> d
    | Heartbeat d _ _ _ \<Rightarrow> d | Stats d _ _ \<Rightarrow> d | Sync_Policy d _ _ _ \<Rightarrow> d | Flush_Policy d \<Rightarrow> d)"
  have "t \<le> now" by (simp add: now_def)
  then have ok: "cap_sync now s" "within_caps G S now s" "policy_within S s"
    using assms(2) cap_sync_later within_caps_later by (auto simp: capacity_ok_def st)
  show ?thesis
  proof (cases e)
    case (Acquire d env fault fresh subj lease gl sl)
    obtain s1 k1 r where q: "acquire_code_interpreter_turn env fault fresh now subj lease gl sl s k = (s1, k1, r)"
      by (rule prod_cases3)
    from acquire_step_ok [OF ok assms(1) [unfolded Acquire] q] q show ?thesis
      by (simp add: capacity_ok_def st Acquire now_def)
  next
    case (Release_Turn d r lease)
    have now: "now = t + int d" by (simp add: now_def Release_Turn)
    from release_lua_keeps [OF ok(1,2), of lease] ok show ?thesis
      by (auto simp: capacity_ok_def st Release_Turn now [symmetric] release_code_interpreter_turn_def policy_within_def split_beta)
  next
    case (Heartbeat d env r lease)
    have now: "now = t + int d" by (simp add: now_def Heartbeat)
    from heartbeat_lua_keeps [OF ok(1,2) lease_ttl_pos, of lease env] ok show ?thesis
      by (auto simp: capacity_ok_def st Heartbeat now [symmetric] heartbeat_code_interpreter_turn_def policy_within_def
          Let_def split_beta)
  next
    case (Stats d env r)
    have now: "now = t + int d" by (simp add: now_def Stats)
    from sync_prune_global [OF ok(1)] ok show ?thesis
      by (auto simp: capacity_ok_def st Stats now [symmetric] code_interpreter_capacity_stats_def stats_lua_def policy_within_def
          prune_global_def within_caps_def Let_def split: prod.split)
  next
    case (Sync_Policy d env r db)
    have now: "now = t + int d" by (simp add: now_def Sync_Policy)
    from ok assms(1) show ?thesis
      by (auto simp: capacity_ok_def st Sync_Policy now [symmetric] sync_code_interpreter_capacity_policy_def
          policy_within_def optional_int_def Let_def)
  next
    case (Flush_Policy d)
    have now: "now = t + int d" by (simp add: now_def Flush_Policy)
    from ok show ?thesis
      by (simp add: capacity_ok_def st Flush_Policy now [symmetric] policy_within_def optional_int_def)
  qed
qed

interpretation capacity: invariant_system capacity_step "event_within G S" "capacity_ok G S" for G S
  by unfold_locales (rule capacity_step_ok)

section \<open>Properties\<close>


text \<open>
  What an admission attempt answers when Redis answers and the switch is on: a permit
  exactly when the lease is already the caller's, or is free and both counts are below their
  limits; otherwise 429. A refusal takes no lease from anyone.
\<close>

theorem acquire_answer:
  assumes "strip subject \<noteq> []" and "strip l \<noteq> []"
    and "effective_policy k s (capacity_settings env) = (cfg, kn)" and "enabled cfg"
  shows "(case acquire_code_interpreter_turn env Redis_Up fresh now subject (Some l) gl sl s k of
      (s', k', Inr p) \<Rightarrow>
        pm_lease_id p = strip l \<and> pm_subject p = strip subject \<and> now < pm_expires_at p \<and>
        cap_lease s' (strip l) = Some (strip subject, pm_expires_at p) \<and>
        (lease_get now s (strip l) = Some (strip subject) \<or>
         lease_get now s (strip l) = None \<and>
         int (length (zprune now (cap_global s))) < max 1 (if_given gl (global_max cfg)) \<and>
         int (length (zprune now (cap_subject s (strip subject)))) < max 1 (if_given sl (per_subject_max cfg)))
    | (s', k', Inl e) \<Rightarrow>
        e = Busy (retry_after cfg) \<and> cap_lease s' = cap_lease s \<and> cap_rejected s' = cap_rejected s + 1 \<and>
        (\<exists>other. other \<noteq> strip subject \<and> lease_get now s (strip l) = Some other \<or>
         lease_get now s (strip l) = None \<and>
         (max 1 (if_given gl (global_max cfg)) \<le> int (length (zprune now (cap_global s))) \<or>
          max 1 (if_given sl (per_subject_max cfg)) \<le> int (length (zprune now (cap_subject s (strip subject)))))))"
proof -
  have ttl: "now < now + seconds (lease_ttl (capacity_settings env))" by (rule lease_ttl_pos)
  show ?thesis
    using assms ttl
    by (auto simp: acquire_code_interpreter_turn_def acquire_lua_def Let_def put_lease_def prune_subject_def
        prune_global_def lease_get_def not_le split: option.split)
qed

text \<open>
  Once a worker has read or published the switch as off, it refuses every turn with 503
  while the policy hash is empty, as after a flush of Redis, and leaves the store as it is;
  whatever Redis does in the meantime.
\<close>

theorem off_switch_survives_flush:
  assumes "cap_policy s = []" and "strip subject \<noteq> []" and "fault \<noteq> Down_At_Policy"
  shows "acquire_code_interpreter_turn env fault fresh now subject lease gl sl s (Some 0) = (s, Some 0, Inl Disabled)"
  using assms by (simp add: acquire_code_interpreter_turn_def effective_policy_def normalize_policy_def
      capacity_settings_def Let_def)

text \<open>
  Releasing a held lease answers True, frees one place of the global set and of its
  subject's, and a second release or a heartbeat of it answers False.
\<close>

theorem release_frees_place:
  assumes sync: "cap_sync now s" and held: "lease_get now s lease = Some subj" and "lease \<noteq> []"
  shows "let (s', ok) = release_code_interpreter_turn True now lease s
    in ok \<and> length (zprune now (cap_global s')) + 1 = length (zprune now (cap_global s)) \<and>
       length (zprune now (cap_subject s' subj)) + 1 = length (zprune now (cap_subject s subj)) \<and>
       \<not> snd (release_code_interpreter_turn True now lease s') \<and>
       snd (heartbeat_code_interpreter_turn env True now lease s') = Inr False"
proof -
  let ?g = "zprune now (cap_global s)" and ?u = "zprune now (cap_subject s subj)"
  have ne: "subj \<noteq> []" using sync_subject_nonempty [OF sync held] .
  have d: "distinct (map fst ?g)" "distinct (map fst ?u)" using sync by (simp_all add: cap_sync_def distinct_zops)
  have m: "lease \<in> fst ` set ?g" "lease \<in> fst ` set ?u" using sync_member [OF sync held] .
  then have pos: "0 < length ?g" "0 < length ?u" by (auto simp del: set_zprune)
  have len: "length (zrem lease ?g) + 1 = length ?g" "length (zrem lease ?u) + 1 = length ?u"
    using length_zrem [OF d(1), of lease] length_zrem [OF d(2), of lease] m pos by simp_all
  have idem: "zrem lease (zprune now (zrem lease ?g)) = zprune now (zrem lease ?g)"
    by (simp add: zprune_zrem zrem_idem)
  let ?s' = "fst (release_lua lease now s)"
  have s': "cap_global ?s' = zrem lease ?g" "cap_subject ?s' subj = zprune now (zrem lease (cap_subject s subj))"
      "cap_lease ?s' lease = None"
    and one: "snd (release_lua lease now s) = 1"
    using held ne by (simp_all add: release_lua_def Let_def prune_subject_def)
  have again: "snd (release_lua lease now ?s') = 0" "snd (heartbeat_lua lease now e ?s') = 0" for e
    using s' idem by (simp_all add: release_lua_def heartbeat_lua_def Let_def lease_get_def)
  show ?thesis
    using assms(3) len again one
    by (simp add: release_code_interpreter_turn_def heartbeat_code_interpreter_turn_def Let_def split_beta s'
        zprune_zrem)
qed

lemma normalize_bounds:
  "1 \<le> per_subject_max (normalize_policy base g m r e)"
  "per_subject_max (normalize_policy base g m r e) \<le> global_max (normalize_policy base g m r e)"
  "global_max (normalize_policy base g m r e) \<le> hard_global_max (normalize_policy base g m r e)"
  "hard_global_max (normalize_policy base g m r e) = max 1 (global_max base)"
  "1 \<le> retry_after (normalize_policy base g m r e)" "retry_after (normalize_policy base g m r e) \<le> 300"
  "enabled (normalize_policy base g m r e) = (case e of None \<Rightarrow> enabled base | Some v \<Rightarrow> v \<noteq> 0)"
  by (simp_all add: normalize_policy_def Let_def min_le_iff_disj)

lemma normalize_stable:
  assumes "1 \<le> m" "m \<le> g" "g \<le> max 1 (global_max base)" "1 \<le> r" "r \<le> 300"
  shows "normalize_policy base (Some g) (Some m) (Some r) (Some (if b then 1 else 0)) =
    base\<lparr>global_max := g, per_subject_max := m, retry_after := r,
      hard_global_max := max 1 (global_max base), enabled := b\<rparr>"
  using assms by (simp add: normalize_policy_def if_given_def Let_def)

lemma normalize_form:
  "normalize_policy base g m r e = base\<lparr>global_max := global_max (normalize_policy base g m r e),
     per_subject_max := per_subject_max (normalize_policy base g m r e),
     retry_after := retry_after (normalize_policy base g m r e), hard_global_max := max 1 (global_max base),
     enabled := enabled (normalize_policy base g m r e)\<rparr>"
  by (simp add: normalize_policy_def Let_def)

lemma normalize_again:
  assumes "p = normalize_policy base g m r e"
  shows "normalize_policy base (Some (global_max p)) (Some (per_subject_max p)) (Some (retry_after p))
    (Some (if enabled p then 1 else 0)) = p"
proof -
  have "normalize_policy base (Some (global_max p)) (Some (per_subject_max p)) (Some (retry_after p))
      (Some (if enabled p then 1 else 0)) = base\<lparr>global_max := global_max p, per_subject_max := per_subject_max p,
      retry_after := retry_after p, hard_global_max := max 1 (global_max base), enabled := enabled p\<rparr>"
    using normalize_bounds [of base g m r e] unfolding assms by (intro normalize_stable) linarith+
  with normalize_form [of base g m r e] show ?thesis unfolding assms by simp
qed

text \<open>
  The policy that is stored is sane and is what is read back: whatever is asked for,
  one turn is allowed at least, no subject may hold more than everyone together, nothing exceeds
  the ceiling of the environment, and clients are told to wait between 1 and 300 seconds.
\<close>

theorem policy_roundtrip:
  "let (db', p) = set_code_interpreter_capacity_policy env db gmax smax retry en
   in get_code_interpreter_capacity_policy env db' = p \<and>
      1 \<le> per_subject_max p \<and> per_subject_max p \<le> global_max p \<and> global_max p \<le> hard_global_max p \<and>
      hard_global_max p = max 1 (or_default (env_global_max env) 200) \<and>
      1 \<le> retry_after p \<and> retry_after p \<le> 300 \<and>
      enabled p = (case en of Some b \<Rightarrow> b | None \<Rightarrow> enabled (get_code_interpreter_capacity_policy env db))"
proof -
  obtain db' p where set: "set_code_interpreter_capacity_policy env db gmax smax retry en = (db', p)" by (rule prod.exhaust)
  then obtain g m r where p: "p = normalize_policy (capacity_settings env) g m r
      (Some (case en of None \<Rightarrow> if enabled (get_code_interpreter_capacity_policy env db) then 1 else 0
        | Some b \<Rightarrow> if b then 1 else 0))"
    by (auto simp: set_code_interpreter_capacity_policy_def Let_def)
  have "get_code_interpreter_capacity_policy env db' = normalize_policy (capacity_settings env)
      (Some (global_max p)) (Some (per_subject_max p)) (Some (retry_after p)) (Some (if enabled p then 1 else 0))"
    using set by (auto simp: set_code_interpreter_capacity_policy_def get_code_interpreter_capacity_policy_def Let_def)
  then have "get_code_interpreter_capacity_policy env db' = p" unfolding normalize_again [OF p] .
  moreover have "max 1 (global_max (capacity_settings env)) = max 1 (or_default (env_global_max env) 200)"
    by (simp add: capacity_settings_def Let_def)
  moreover have "enabled p = (case en of Some b \<Rightarrow> b | None \<Rightarrow> enabled (get_code_interpreter_capacity_policy env db))"
    unfolding p normalize_bounds(7) by (simp split: option.split)
  moreover have "1 \<le> per_subject_max p" "per_subject_max p \<le> global_max p" "global_max p \<le> hard_global_max p"
    "hard_global_max p = max 1 (global_max (capacity_settings env))" "1 \<le> retry_after p" "retry_after p \<le> 300"
    unfolding p by (rule normalize_bounds)+
  ultimately show ?thesis unfolding set by simp
qed

text \<open>
  The fairness cap is per caller: users, API keys and system jobs never share a
  subject, and two users or two keys share one only if they are the same.
\<close>

theorem subjects_distinct:
  "subject_for_user u \<noteq> subject_for_api_key k \<and> subject_for_user u \<noteq> subject_for_system n \<and>
   subject_for_api_key k \<noteq> subject_for_system n \<and>
   (subject_for_user u = subject_for_user u' \<longleftrightarrow> u = u') \<and>
   (subject_for_api_key k = subject_for_api_key k' \<longleftrightarrow> k = k')"
  by (auto simp: subject_for_user_def subject_for_api_key_def subject_for_system_def Let_def dest: show_int_inj)

section \<open>Worked examples\<close>

definition empty_capacity :: capacity_store where
  "empty_capacity = \<lparr>cap_global = [], cap_subject = (\<lambda>_. []), cap_lease = (\<lambda>_. None), cap_policy = [], cap_rejected = 0\<rparr>"

definition default_env :: capacity_env where
  "default_env = \<lparr>env_global_max = 200, env_per_subject_max = 2, env_lease_ttl_seconds = 900,
     env_heartbeat_seconds = 30, env_retry_after_seconds = 30\<rparr>"

definition one_lease :: capacity_store where
  "one_lease = put_lease ''l'' ''user:1'' (seconds 900) empty_capacity"

lemma one_lease_sync: "cap_sync 5 one_lease"
  unfolding one_lease_def
  by (rule sync_put_lease) (simp_all add: cap_sync_def empty_capacity_def lease_get_def)


theorem acquire_answer_witness:
  "\<not> isl (snd (snd (acquire_code_interpreter_turn default_env Redis_Up ''x'' 5 ''user:1'' (Some ''m'') None None one_lease None)))"
proof -
  have "\<not> isl (snd (snd (acquire_code_interpreter_turn default_env Redis_Up ''x'' 5 ''user:1'' (Some ''m'') None None one_lease None)))"
    by code_simp
  moreover have "strip ''user:1'' \<noteq> []" "strip ''m'' \<noteq> []" "enabled (fst (effective_policy None one_lease (capacity_settings default_env)))"
    by code_simp+
  ultimately show ?thesis
    using acquire_answer [where subject = "''user:1''" and l = "''m''" and k = None and s = one_lease
      and env = default_env and cfg = "fst (effective_policy None one_lease (capacity_settings default_env))"
      and kn = "snd (effective_policy None one_lease (capacity_settings default_env))"] by simp
qed

theorem off_switch_survives_flush_witness:
  "acquire_code_interpreter_turn default_env Redis_Up ''x'' 5 ''user:1'' None None None empty_capacity (Some 0)
    = (empty_capacity, Some 0, Inl Disabled)"
  by (rule off_switch_survives_flush) (simp add: empty_capacity_def, code_simp, code_simp)

theorem release_frees_place_witness:
  "snd (release_code_interpreter_turn True 5 ''l'' one_lease)"
proof -
  have "lease_get 5 one_lease ''l'' = Some ''user:1''" by code_simp
  from release_frees_place [OF one_lease_sync this, of default_env] show ?thesis by (simp add: split_beta)
qed

end
