(* ===== verification/Outbox.thy ===== *)
theory Outbox
  imports Json "HOL-Library.Product_Lexorder" "HOL-Library.List_Lexorder" "HOL-Library.Char_ord"
begin

text \<open>
  The transactional outbox (\<open>services/outbox_service.py\<close>, \<open>publish_outbox_message\<close> of
  \<open>services/knowledge_queue.py\<close>): events are inserted once per idempotency key, leased in
  batches, published to the stream at least once, and retried with growing delay until they
  are processed or dead.
\<close>

section \<open>Data\<close>

datatype outbox_status = Ob_Pending | Ob_Leased | Ob_Processed | Ob_Retry | Ob_Dead

record outbox_event =
  e_id :: string
  e_aggregate_type :: string
  e_aggregate_id :: string
  e_event_type :: string
  e_payload :: payload
  e_status :: outbox_status
  e_attempt_count :: int
  e_lease_owner :: "string option"
  e_lease_until :: "time option"
  e_idempotency_key :: string
  e_available_at :: time
  e_processed_at :: "time option"
  e_last_error :: "string option"
  e_created_at :: time

text \<open>A message of the Redis stream.\<close>

record stream_message =
  sm_event_id :: string
  sm_event_type :: string
  sm_aggregate_type :: string
  sm_aggregate_id :: string
  sm_payload :: payload

text \<open>
  The outbox table, and the history of the messages written to the stream, newest last (Redis
  may later trim old ones). A payload is the dictionary that the message carries as JSON. A relay
  run reads the clock once here.
\<close>

record outbox =
  ob_events :: "outbox_event list"
  ob_stream :: "stream_message list"

record outbox_settings =
  outbox_batch_size :: nat
  outbox_lease_seconds :: int
  knowledge_job_max_attempts :: int
  knowledge_retry_base_seconds :: int
  knowledge_job_lease_seconds :: int

section \<open>Operations\<close>

definition outbox_row ::
    "time \<Rightarrow> string \<Rightarrow> string \<Rightarrow> string \<Rightarrow> string \<Rightarrow> payload \<Rightarrow> string \<Rightarrow> time option \<Rightarrow> outbox_event" where
  "outbox_row now new_id atype aid etype payload key available_at =
     \<lparr>e_id = new_id, e_aggregate_type = atype, e_aggregate_id = aid, e_event_type = etype,
      e_payload = payload, e_status = Ob_Pending, e_attempt_count = 0, e_lease_owner = None,
      e_lease_until = None, e_idempotency_key = key,
      e_available_at = (case available_at of None \<Rightarrow> now | Some t \<Rightarrow> t),
      e_processed_at = None, e_last_error = None, e_created_at = now\<rparr>"

text \<open>
  Insert with \<open>ON CONFLICT (idempotency_key) DO NOTHING\<close>; the row under the key is returned, be
  it new or the original. \<open>new_id\<close> is the UUID drawn for the row.
\<close>

definition enqueue_outbox_event ::
    "time \<Rightarrow> string \<Rightarrow> string \<Rightarrow> string \<Rightarrow> string \<Rightarrow> payload \<Rightarrow> string \<Rightarrow> time option \<Rightarrow> outbox_event list
      \<Rightarrow> outbox_event list \<times> outbox_event" where
  "enqueue_outbox_event now new_id atype aid etype payload key available_at events =
     (case fetch e_idempotency_key key events of
        Some original \<Rightarrow> (events, original)
      | None \<Rightarrow>
          let row = outbox_row now new_id atype aid etype payload key available_at
          in (events @ [row], row))"

definition outbox_due :: "time \<Rightarrow> outbox_event \<Rightarrow> bool" where
  "outbox_due current e \<longleftrightarrow> e_available_at e \<le> current \<and>
     (e_status e \<in> {Ob_Pending, Ob_Retry} \<or>
      e_status e = Ob_Leased \<and> (case e_lease_until e of None \<Rightarrow> False | Some t \<Rightarrow> t \<le> current))"

definition lease_event :: "string \<Rightarrow> time \<Rightarrow> outbox_event \<Rightarrow> outbox_event" where
  "lease_event worker until e =
     e\<lparr>e_status := Ob_Leased, e_lease_owner := Some worker, e_lease_until := Some until\<rparr>"

text \<open>The ids of the claimed batch, in the order of the query, and the table after the claim.\<close>

definition claim_outbox_events ::
    "outbox_settings \<Rightarrow> string \<Rightarrow> time \<Rightarrow> nat option \<Rightarrow> outbox_event list \<Rightarrow> outbox_event list \<times> string list" where
  "claim_outbox_events settings worker current batch_size events =
     (let limit = (case batch_size of None \<Rightarrow> outbox_batch_size settings
            | Some n \<Rightarrow> if n = 0 then outbox_batch_size settings else n);
          rows = take limit (sort_key (\<lambda>e. (e_available_at e, e_created_at e, e_id e))
                   (filter (outbox_due current) events));
          ids = map e_id rows;
          until = current + seconds (outbox_lease_seconds settings)
      in (map (\<lambda>e. if e_id e \<in> set ids then lease_event worker until e else e) events, ids))"

definition holds_lease :: "string \<Rightarrow> outbox_event \<Rightarrow> bool" where
  "holds_lease worker e \<longleftrightarrow> e_status e = Ob_Leased \<and> e_lease_owner e = Some worker"

definition mark_outbox_processed :: "time \<Rightarrow> string \<Rightarrow> outbox_event \<Rightarrow> outbox_event \<times> bool" where
  "mark_outbox_processed now worker e =
     (if \<not> holds_lease worker e then (e, False)
      else (e\<lparr>e_status := Ob_Processed, e_processed_at := Some now, e_lease_owner := None,
              e_lease_until := None, e_last_error := None\<rparr>, True))"

definition retry_delay :: "outbox_settings \<Rightarrow> int \<Rightarrow> time" where
  "retry_delay settings attempts =
     seconds (min (knowledge_retry_base_seconds settings * 2 ^ nat (attempts - 1)) 3600)"

definition mark_outbox_failed ::
    "outbox_settings \<Rightarrow> time \<Rightarrow> string \<Rightarrow> string \<Rightarrow> outbox_event \<Rightarrow> outbox_event \<times> outbox_status" where
  "mark_outbox_failed settings now worker error e =
     (if \<not> holds_lease worker e then (e, e_status e)
      else
        let n = e_attempt_count e + 1;
            e1 = e\<lparr>e_attempt_count := n, e_last_error := Some (clip 8000 error), e_lease_owner := None,
                   e_lease_until := None\<rparr>;
            e2 = (if n \<ge> knowledge_job_max_attempts settings then e1\<lparr>e_status := Ob_Dead\<rparr>
                  else e1\<lparr>e_status := Ob_Retry, e_available_at := now + retry_delay settings n\<rparr>)
        in (e2, e_status e2))"

definition publish_outbox_message :: "outbox_event \<Rightarrow> stream_message list \<Rightarrow> stream_message list" where
  "publish_outbox_message e stream =
     stream @ [\<lparr>sm_event_id = e_id e, sm_event_type = e_event_type e, sm_aggregate_type = e_aggregate_type e,
       sm_aggregate_id = e_aggregate_id e, sm_payload = e_payload e\<rparr>]"

text \<open>
  What Redis does with one message: it takes it, refuses it, or takes it and the connection
  breaks before the answer.
\<close>

datatype publish_outcome = Published | Refused string | Published_Then_Error string

record relay_stats =
  rs_claimed :: nat
  rs_published :: nat
  rs_retried :: nat
  rs_dead :: nat

definition update_event :: "outbox_event \<Rightarrow> outbox_event list \<Rightarrow> outbox_event list" where
  "update_event e = modify e_id (e_id e) (\<lambda>_. e)"

text \<open>One claimed event of a relay run: the guard, the publication, and its outcome.\<close>

definition relay_one ::
    "outbox_settings \<Rightarrow> (string \<Rightarrow> publish_outcome) \<Rightarrow> time \<Rightarrow> string \<Rightarrow> string \<Rightarrow> outbox \<times> relay_stats
      \<Rightarrow> outbox \<times> relay_stats" where
  "relay_one settings redis now worker eid st =
     (let (ob, stats) = st
      in (case fetch e_id eid (ob_events ob) of
            None \<Rightarrow> st
          | Some e \<Rightarrow>
              if \<not> holds_lease worker e then st
              else
                let failed = (\<lambda>error stream.
                      let (e1, status) = mark_outbox_failed settings now worker error e
                      in (ob\<lparr>ob_events := update_event e1 (ob_events ob), ob_stream := stream\<rparr>,
                          stats\<lparr>rs_retried := rs_retried stats + (if status = Ob_Retry then 1 else 0),
                                rs_dead := rs_dead stats + (if status = Ob_Dead then 1 else 0)\<rparr>))
                in (case redis eid of
                      Published \<Rightarrow>
                        let (e1, ok) = mark_outbox_processed now worker e
                        in (ob\<lparr>ob_events := update_event e1 (ob_events ob),
                               ob_stream := publish_outbox_message e (ob_stream ob)\<rparr>,
                            stats\<lparr>rs_published := rs_published stats + (if ok then 1 else 0)\<rparr>)
                    | Refused error \<Rightarrow> failed error (ob_stream ob)
                    | Published_Then_Error error \<Rightarrow> failed error (publish_outbox_message e (ob_stream ob)))))"

definition relay_outbox_once ::
    "outbox_settings \<Rightarrow> (string \<Rightarrow> publish_outcome) \<Rightarrow> time \<Rightarrow> string \<Rightarrow> outbox \<Rightarrow> outbox \<times> relay_stats" where
  "relay_outbox_once settings redis now worker ob =
     (let (events, ids) = claim_outbox_events settings worker now None (ob_events ob)
      in foldl (\<lambda>st eid. relay_one settings redis now worker eid st)
           (ob\<lparr>ob_events := events\<rparr>, \<lparr>rs_claimed = length ids, rs_published = 0, rs_retried = 0, rs_dead = 0\<rparr>) ids)"

section \<open>The table and the stream\<close>

text \<open>
  What every operation keeps: the unique columns, that a processed event is in the stream, and
  that an event which is not dead has attempts left.
\<close>

definition outbox_event_ok :: "int \<Rightarrow> string list \<Rightarrow> outbox_event \<Rightarrow> bool" where
  "outbox_event_ok max_attempts sent e \<longleftrightarrow>
     0 \<le> e_attempt_count e \<and> e_attempt_count e \<le> max_attempts \<and>
     (e_status e = Ob_Processed \<longrightarrow> e_id e \<in> set sent) \<and>
     (e_status e \<noteq> Ob_Dead \<longrightarrow> e_attempt_count e < max_attempts)"

definition outbox_inv :: "int \<Rightarrow> outbox \<Rightarrow> bool" where
  "outbox_inv max_attempts ob \<longleftrightarrow>
     distinct (map e_id (ob_events ob)) \<and> distinct (map e_idempotency_key (ob_events ob)) \<and>
     list_all (outbox_event_ok max_attempts (map sm_event_id (ob_stream ob))) (ob_events ob)"

lemma lease_event_sel [simp]:
  "e_id (lease_event w u e) = e_id e" "e_idempotency_key (lease_event w u e) = e_idempotency_key e"
  "e_attempt_count (lease_event w u e) = e_attempt_count e" "e_status (lease_event w u e) = Ob_Leased"
  by (simp_all add: lease_event_def)

text \<open>The event that one step of the relay writes back, and the stream after it.\<close>

definition relayed ::
    "outbox_settings \<Rightarrow> (string \<Rightarrow> publish_outcome) \<Rightarrow> time \<Rightarrow> string \<Rightarrow> outbox_event \<Rightarrow> outbox_event" where
  "relayed settings redis now worker e =
     (case redis (e_id e) of
        Published \<Rightarrow> fst (mark_outbox_processed now worker e)
      | Refused err \<Rightarrow> fst (mark_outbox_failed settings now worker err e)
      | Published_Then_Error err \<Rightarrow> fst (mark_outbox_failed settings now worker err e))"

lemma relay_one_eq:
  "fst (relay_one settings redis now worker eid (ob, stats)) =
     (case fetch e_id eid (ob_events ob) of
        None \<Rightarrow> ob
      | Some e \<Rightarrow>
          if \<not> holds_lease worker e then ob
          else ob\<lparr>ob_events := update_event (relayed settings redis now worker e) (ob_events ob),
                  ob_stream := (case redis eid of Refused _ \<Rightarrow> ob_stream ob | _ \<Rightarrow> publish_outbox_message e (ob_stream ob))\<rparr>)"
  by (auto simp: relay_one_def relayed_def Let_def dest: fetch_key split: option.splits publish_outcome.splits prod.splits)

lemma relayed_sel [simp]:
  "e_id (relayed settings redis now worker e) = e_id e"
  "e_idempotency_key (relayed settings redis now worker e) = e_idempotency_key e"
  by (simp_all add: relayed_def mark_outbox_processed_def mark_outbox_failed_def Let_def split: publish_outcome.split)

lemma relayed_status:
  assumes "holds_lease worker e"
  shows "e_status (relayed settings redis now worker e) = (case redis (e_id e) of Published \<Rightarrow> Ob_Processed
     | _ \<Rightarrow> if e_attempt_count e + 1 \<ge> knowledge_job_max_attempts settings then Ob_Dead else Ob_Retry)"
    and "e_attempt_count (relayed settings redis now worker e) = (case redis (e_id e) of Published \<Rightarrow> e_attempt_count e
     | _ \<Rightarrow> e_attempt_count e + 1)"
  using assms by (simp_all add: relayed_def mark_outbox_processed_def mark_outbox_failed_def Let_def split: publish_outcome.split)

lemma stream_ids [simp]: "map sm_event_id (publish_outbox_message e st) = map sm_event_id st @ [e_id e]"
  by (simp add: publish_outbox_message_def)

lemma event_ok_mono: "outbox_event_ok m sent e \<Longrightarrow> set sent \<subseteq> set sent' \<Longrightarrow> outbox_event_ok m sent' e"
  by (auto simp: outbox_event_ok_def)

lemma relayed_keys:
  assumes "distinct (map e_id (ob_events ob))" and "fetch e_id (e_id e) (ob_events ob) = Some e"
  shows "map e_idempotency_key (update_event (relayed settings redis now worker e) (ob_events ob))
    = map e_idempotency_key (ob_events ob)"
proof -
  let ?r = "relayed settings redis now worker e"
  have "modify e_id (e_id e) (\<lambda>_. ?r) (ob_events ob) = modify e_id (e_id e) (\<lambda>x. if x = e then ?r else x) (ob_events ob)"
    by (rule modify_cong_row [OF assms]) simp
  then show ?thesis by (simp add: update_event_def)
qed

lemma relay_one_inv:
  assumes inv: "outbox_inv (knowledge_job_max_attempts settings) ob"
  shows "outbox_inv (knowledge_job_max_attempts settings) (fst (relay_one settings redis now worker eid (ob, stats)))"
proof (cases "\<exists>e. fetch e_id eid (ob_events ob) = Some e \<and> holds_lease worker e")
  case False
  with inv show ?thesis by (auto simp: relay_one_eq split: option.split)
next
  case True
  then obtain e where e: "fetch e_id eid (ob_events ob) = Some e" and l: "holds_lease worker e" by blast
  let ?m = "knowledge_job_max_attempts settings" and ?r = "relayed settings redis now worker e"
  let ?st = "case redis eid of Refused _ \<Rightarrow> ob_stream ob | _ \<Rightarrow> publish_outbox_message e (ob_stream ob)"
  have id: "e_id e = eid" and mem: "e \<in> set (ob_events ob)" using fetch_SomeD [OF e] by auto
  have sub: "set (map sm_event_id (ob_stream ob)) \<subseteq> set (map sm_event_id ?st)"
    by (auto split: publish_outcome.split simp: publish_outbox_message_def)
  have "outbox_event_ok ?m (map sm_event_id (ob_stream ob)) e" using inv mem by (simp add: outbox_inv_def list_all_iff)
  then have "outbox_event_ok ?m (map sm_event_id ?st) ?r"
    using l relayed_status [OF l, of settings redis now] id
    by (auto simp: outbox_event_ok_def holds_lease_def publish_outbox_message_def split: publish_outcome.splits if_splits)
  moreover have "distinct (map e_idempotency_key (update_event ?r (ob_events ob)))"
    using relayed_keys [of ob e settings redis now worker] inv e id by (simp add: outbox_inv_def)
  ultimately show ?thesis
    using inv e l id event_ok_mono [OF _ sub]
    by (auto simp: relay_one_eq outbox_inv_def update_event_def list_all_iff set_modify)
qed

lemma claim_inv:
  assumes "outbox_inv m ob"
  shows "outbox_inv m (ob\<lparr>ob_events := fst (claim_outbox_events settings worker now b (ob_events ob))\<rparr>)"
proof -
  let ?ids = "snd (claim_outbox_events settings worker now b (ob_events ob))"
  have ids: "e_status x \<noteq> Ob_Dead \<and> e_status x \<noteq> Ob_Processed" if "x \<in> set (ob_events ob)" "e_id x \<in> set ?ids" for x
  proof -
    from that(2) obtain y where y: "y \<in> set (filter (outbox_due now) (ob_events ob))" "e_id y = e_id x"
      by (auto simp: claim_outbox_events_def Let_def dest!: in_set_takeD)
    with that(1) assms have "y = x" by (auto simp: outbox_inv_def distinct_map inj_on_def)
    with y(1) show ?thesis by (auto simp: outbox_due_def)
  qed
  have eq: "fst (claim_outbox_events settings worker now b (ob_events ob)) =
      map (\<lambda>e. if e_id e \<in> set ?ids then lease_event worker (now + seconds (outbox_lease_seconds settings)) e else e) (ob_events ob)"
    by (simp add: claim_outbox_events_def Let_def)
  have maps: "map e_id (fst (claim_outbox_events settings worker now b (ob_events ob))) = map e_id (ob_events ob)"
    "map e_idempotency_key (fst (claim_outbox_events settings worker now b (ob_events ob))) = map e_idempotency_key (ob_events ob)"
    unfolding eq by auto
  show ?thesis
    using assms ids unfolding outbox_inv_def
    by (simp add: maps) (auto simp: eq list_all_iff outbox_event_ok_def)
qed

lemma enqueue_inv:
  assumes "outbox_inv m ob" and "0 < m" and "new_id \<notin> set (map e_id (ob_events ob))"
  shows "outbox_inv m (ob\<lparr>ob_events := fst (enqueue_outbox_event now new_id a i t pl key av (ob_events ob))\<rparr>)"
  using assms by (auto simp: enqueue_outbox_event_def outbox_inv_def outbox_row_def outbox_event_ok_def Let_def
      fetch_None_iff list_all_iff split: option.split)

text \<open>Where every event is processed there is nothing left to claim.\<close>

lemma nothing_due:
  assumes "list_all (\<lambda>e. e_status e = Ob_Processed) events"
  shows "snd (claim_outbox_events settings worker now b events) = []"
proof -
  have "filter (outbox_due now) events = []" using assms by (auto simp: filter_empty_conv outbox_due_def list_all_iff)
  then show ?thesis by (simp add: claim_outbox_events_def Let_def)
qed

section \<open>Runs\<close>

datatype outbox_action =
    Enqueue time string string string string payload string "time option"
  | Claim string time "nat option"
  | Relay_One "string \<Rightarrow> publish_outcome" time string string
  | Relay "string \<Rightarrow> publish_outcome" time string

text \<open>\<open>Relay_One\<close> is one iteration of a relay of another worker, so that two relays interleave.\<close>

fun outbox_step :: "outbox_settings \<Rightarrow> outbox \<Rightarrow> outbox_action \<Rightarrow> outbox" where
  "outbox_step settings ob (Enqueue now new_id a i t pl key av) =
     (if new_id \<in> set (map e_id (ob_events ob)) then ob
      else ob\<lparr>ob_events := fst (enqueue_outbox_event now new_id a i t pl key av (ob_events ob))\<rparr>)"
| "outbox_step settings ob (Claim worker now b) =
     ob\<lparr>ob_events := fst (claim_outbox_events settings worker now b (ob_events ob))\<rparr>"
| "outbox_step settings ob (Relay_One redis now worker eid) =
     fst (relay_one settings redis now worker eid (ob, \<lparr>rs_claimed = 0, rs_published = 0, rs_retried = 0, rs_dead = 0\<rparr>))"
| "outbox_step settings ob (Relay redis now worker) = fst (relay_outbox_once settings redis now worker ob)"

lemma relay_fold_inv:
  "outbox_inv (knowledge_job_max_attempts settings) (fst st) \<Longrightarrow>
   outbox_inv (knowledge_job_max_attempts settings) (fst (foldl (\<lambda>st eid. relay_one settings redis now worker eid st) st ids))"
proof (induction ids arbitrary: st)
  case (Cons i ids)
  obtain ob stats where "st = (ob, stats)" by (rule prod.exhaust)
  with Cons relay_one_inv [of settings ob redis now worker i stats] show ?case by simp
qed simp

text \<open>Relays and claims never touch the idempotency keys.\<close>

lemma relay_one_keys:
  assumes "outbox_inv m ob"
  shows "map e_idempotency_key (ob_events (fst (relay_one settings redis now worker eid (ob, stats))))
    = map e_idempotency_key (ob_events ob)"
proof (cases "\<exists>e. fetch e_id eid (ob_events ob) = Some e \<and> holds_lease worker e")
  case False
  then show ?thesis by (auto simp: relay_one_eq split: option.split)
next
  case True
  then obtain e where e: "fetch e_id eid (ob_events ob) = Some e" and l: "holds_lease worker e" by blast
  have id: "e_id e = eid" using fetch_SomeD [OF e] by simp
  have "distinct (map e_id (ob_events ob))" using assms by (simp add: outbox_inv_def)
  from relayed_keys [OF this, of e] e l id show ?thesis by (simp add: relay_one_eq)
qed

lemma claim_keys:
  "map e_idempotency_key (fst (claim_outbox_events settings worker now b events)) = map e_idempotency_key events"
  by (simp add: claim_outbox_events_def Let_def)

lemma relay_fold_keys:
  "outbox_inv (knowledge_job_max_attempts settings) (fst st) \<Longrightarrow>
   map e_idempotency_key (ob_events (fst (foldl (\<lambda>st eid. relay_one settings redis now worker eid st) st ids)))
     = map e_idempotency_key (ob_events (fst st))"
proof (induction ids arbitrary: st)
  case (Cons i ids)
  obtain ob stats where st: "st = (ob, stats)" by (rule prod.exhaust)
  from Cons.prems have "outbox_inv (knowledge_job_max_attempts settings) ob" by (simp add: st)
  from relay_one_inv [OF this] relay_one_keys [OF this] Cons.IH show ?case by (simp add: st)
qed simp

lemma outbox_step_keys:
  assumes "outbox_inv (knowledge_job_max_attempts settings) ob"
  shows "set (map e_idempotency_key (ob_events (outbox_step settings ob a))) \<subseteq>
    (case a of Enqueue now new_id aty ai t pl key av \<Rightarrow> {key} | _ \<Rightarrow> {}) \<union> set (map e_idempotency_key (ob_events ob))"
proof (cases a)
  case (Enqueue now new_id aty ai t pl key av)
  then show ?thesis
    by (auto simp: enqueue_outbox_event_def outbox_row_def Let_def split: option.split)
next
  case (Claim worker now b)
  then show ?thesis using claim_keys [of settings worker now b "ob_events ob"] by (simp del: set_map)
next
  case (Relay_One redis now worker eid)
  then show ?thesis using relay_one_keys [OF assms] by (simp del: set_map)
next
  case (Relay redis now worker)
  let ?c = "claim_outbox_events settings worker now None (ob_events ob)"
  have "outbox_inv (knowledge_job_max_attempts settings) (ob\<lparr>ob_events := fst ?c\<rparr>)" by (rule claim_inv [OF assms])
  then have "outbox_inv (knowledge_job_max_attempts settings) (fst (ob\<lparr>ob_events := fst ?c\<rparr>, s))" for s :: relay_stats by simp
  from relay_fold_keys [OF this] Relay show ?thesis by (simp del: set_map add: relay_outbox_once_def split_beta Let_def claim_keys)
qed

text \<open>How the status of an event may change.\<close>

fun outbox_edge :: "outbox_status option \<Rightarrow> outbox_status option \<Rightarrow> bool" where
  "outbox_edge None (Some Ob_Pending) = True"
| "outbox_edge (Some Ob_Pending) (Some y) = (y \<in> {Ob_Leased, Ob_Processed, Ob_Retry, Ob_Dead})"
| "outbox_edge (Some Ob_Retry) (Some y) = (y \<in> {Ob_Leased, Ob_Processed, Ob_Dead})"
| "outbox_edge (Some Ob_Leased) (Some y) = (y \<in> {Ob_Processed, Ob_Retry, Ob_Dead})"
| "outbox_edge _ _ = False"

definition event_status :: "string \<Rightarrow> outbox \<Rightarrow> outbox_status option" where
  "event_status i ob = map_option e_status (fetch e_id i (ob_events ob))"

definition outbox_final :: "outbox_status option \<Rightarrow> bool" where
  "outbox_final x \<longleftrightarrow> x = Some Ob_Processed \<or> x = Some Ob_Dead"

text \<open>The relay only ever moves leased events, and never back to pending.\<close>

lemma fetch_update_event: "fetch e_id i (update_event r es) =
    (if i = e_id r then map_option (\<lambda>_. r) (fetch e_id i es) else fetch e_id i es)"
  by (auto simp: update_event_def fetch_modify)

lemma relay_one_status:
  "event_status i (fst (relay_one settings redis now worker eid (ob, stats))) = event_status i ob \<or>
   event_status i ob = Some Ob_Leased \<and>
   event_status i (fst (relay_one settings redis now worker eid (ob, stats))) \<in> {Some Ob_Processed, Some Ob_Retry, Some Ob_Dead}"
proof (cases "\<exists>e. fetch e_id eid (ob_events ob) = Some e \<and> holds_lease worker e")
  case False
  then show ?thesis by (auto simp: relay_one_eq split: option.split)
next
  case True
  then obtain e where e: "fetch e_id eid (ob_events ob) = Some e" and l: "holds_lease worker e" by blast
  have id: "e_id e = eid" using fetch_SomeD [OF e] by simp
  have "e_status (relayed settings redis now worker e) \<in> {Ob_Processed, Ob_Retry, Ob_Dead}"
    using relayed_status(1) [OF l, of settings redis now] by (auto split: publish_outcome.splits)
  with e l id show ?thesis
    by (auto simp: relay_one_eq event_status_def fetch_update_event holds_lease_def)
qed

lemma relay_fold_status:
  "event_status i (fst (foldl (\<lambda>st eid. relay_one settings redis now worker eid st) st ids)) = event_status i (fst st) \<or>
   event_status i (fst st) = Some Ob_Leased \<and>
   event_status i (fst (foldl (\<lambda>st eid. relay_one settings redis now worker eid st) st ids))
     \<in> {Some Ob_Processed, Some Ob_Retry, Some Ob_Dead}"
proof (induction ids arbitrary: st)
  case (Cons x ids)
  obtain ob stats where st: "st = (ob, stats)" by (rule prod.exhaust)
  from Cons [of "relay_one settings redis now worker x (ob, stats)"] relay_one_status [of i settings redis now worker x ob stats]
  show ?case by (auto simp: st)
qed simp

lemma claim_status:
  assumes "outbox_inv m ob"
  shows "event_status i (ob\<lparr>ob_events := fst (claim_outbox_events settings worker now b (ob_events ob))\<rparr>) = event_status i ob \<or>
    event_status i ob \<in> {Some Ob_Pending, Some Ob_Retry} \<and>
    event_status i (ob\<lparr>ob_events := fst (claim_outbox_events settings worker now b (ob_events ob))\<rparr>) = Some Ob_Leased"
proof -
  let ?ids = "snd (claim_outbox_events settings worker now b (ob_events ob))"
  let ?f = "\<lambda>e. if e_id e \<in> set ?ids then lease_event worker (now + seconds (outbox_lease_seconds settings)) e else e"
  have eq: "fst (claim_outbox_events settings worker now b (ob_events ob)) = map ?f (ob_events ob)"
    by (simp add: claim_outbox_events_def Let_def)
  have fm: "fetch e_id i (map ?f es) = map_option ?f (fetch e_id i es)" for es by (induction es) auto
  show ?thesis
  proof (cases "fetch e_id i (ob_events ob)")
    case None
    then show ?thesis by (simp add: event_status_def eq fm del: option.map_sel)
  next
    case (Some e)
    have e: "e \<in> set (ob_events ob)" "e_id e = i" using fetch_SomeD [OF Some] by auto
    have "e_status e \<in> {Ob_Pending, Ob_Retry, Ob_Leased}" if in_ids: "e_id e \<in> set ?ids"
    proof -
      from in_ids obtain y where y: "y \<in> set (filter (outbox_due now) (ob_events ob))" "e_id y = e_id e"
        by (auto simp: claim_outbox_events_def Let_def dest!: in_set_takeD)
      with e assms have "y = e" by (auto simp: outbox_inv_def distinct_map inj_on_def)
      with y(1) show ?thesis by (auto simp: outbox_due_def)
    qed
    with Some show ?thesis by (auto simp: event_status_def eq fm)
  qed
qed

lemma relay_edge:
  assumes "y = x \<or> x \<in> {Some Ob_Pending, Some Ob_Retry} \<and> y = Some Ob_Leased"
    and "z = y \<or> y = Some Ob_Leased \<and> z \<in> {Some Ob_Processed, Some Ob_Retry, Some Ob_Dead}" and "z \<noteq> x"
  shows "outbox_edge x z"
  using assms by auto

interpretation outbox: status_machine "outbox_step settings" "\<lambda>_. 0 < knowledge_job_max_attempts settings"
  "outbox_inv (knowledge_job_max_attempts settings)" "event_status i" outbox_edge outbox_final
  for settings i
proof unfold_locales
  let ?inv = "outbox_inv (knowledge_job_max_attempts settings)"
  fix a ob assume pos: "0 < knowledge_job_max_attempts settings" and inv: "?inv ob"
  show "?inv (outbox_step settings ob a)"
    using inv pos claim_inv [OF inv]
    by (cases a) (auto simp: enqueue_inv relay_one_inv relay_outbox_once_def split_beta Let_def intro!: relay_fold_inv)
  assume ne: "event_status i (outbox_step settings ob a) \<noteq> event_status i ob"
  show "outbox_edge (event_status i ob) (event_status i (outbox_step settings ob a))"
  proof (cases a)
    case (Enqueue now new_id aty ai t pl key av)
    have fa: "fetch e_id i (xs @ [y]) = (case fetch e_id i xs of None \<Rightarrow> if e_id y = i then Some y else None | Some r \<Rightarrow> Some r)" for xs y
      by (induction xs) auto
    from ne show ?thesis
      by (auto simp: Enqueue enqueue_outbox_event_def event_status_def fa outbox_row_def Let_def split: option.splits if_splits)
  next
    case (Claim worker now b)
    with ne claim_status [OF inv, of i settings worker now b] show ?thesis by auto
  next
    case (Relay_One redis now worker eid)
    with ne relay_one_status [of i settings redis now worker eid ob
        "\<lparr>rs_claimed = 0, rs_published = 0, rs_retried = 0, rs_dead = 0\<rparr>"] show ?thesis by auto
  next
    case (Relay redis now worker)
    let ?ob1 = "ob\<lparr>ob_events := fst (claim_outbox_events settings worker now None (ob_events ob))\<rparr>"
    have r: "event_status i (outbox_step settings ob a) = event_status i ?ob1 \<or> event_status i ?ob1 = Some Ob_Leased \<and>
      event_status i (outbox_step settings ob a) \<in> {Some Ob_Processed, Some Ob_Retry, Some Ob_Dead}"
      using relay_fold_status [of i settings redis now worker
          "(?ob1, \<lparr>rs_claimed = length (snd (claim_outbox_events settings worker now None (ob_events ob))),
             rs_published = 0, rs_retried = 0, rs_dead = 0\<rparr>)"]
      by (simp add: Relay relay_outbox_once_def split_beta Let_def)
    show ?thesis by (rule relay_edge [OF claim_status [OF inv, of i settings worker now None] r ne])
  qed
next
  fix x y assume "outbox_final x"
  then show "\<not> outbox_edge x y" by (auto simp: outbox_final_def)
qed

section \<open>Properties\<close>

text \<open>An outbox for the witnesses: two events due and one not, with the default settings.\<close>

definition sample_outbox_settings :: outbox_settings where
  "sample_outbox_settings = \<lparr>outbox_batch_size = 100, outbox_lease_seconds = 60,
     knowledge_job_max_attempts = 5, knowledge_retry_base_seconds = 5,
     knowledge_job_lease_seconds = 120\<rparr>"

definition sample_outbox :: outbox where
  "sample_outbox = \<lparr>ob_events =
     [outbox_row 10 ''a'' ''job'' ''1'' ''ready'' [] ''k1'' None,
      outbox_row 5 ''b'' ''job'' ''2'' ''ready'' [] ''k2'' None,
      outbox_row 5 ''c'' ''job'' ''3'' ''ready'' [] ''k3'' (Some 90)], ob_stream = []\<rparr>"

lemmas sample_outbox_defs = sample_outbox_settings_def sample_outbox_def outbox_row_def outbox_inv_def outbox_event_ok_def




text \<open>
  A claim takes at most a batch, only due events, the longest due first, and nothing
  whose lease of another worker still runs; what it takes is leased to the worker for the
  configured time, and every other row is unchanged.
\<close>

theorem claim_takes_due:
  assumes "distinct (map e_id events)" and "claim_outbox_events settings worker now (Some (Suc b)) events = (events', ids)"
  shows "let due = (\<lambda>e. e_available_at e \<le> now \<and> (e_status e = Ob_Pending \<or> e_status e = Ob_Retry \<or>
      e_status e = Ob_Leased \<and> (case e_lease_until e of None \<Rightarrow> False | Some t \<Rightarrow> t \<le> now)))
   in length ids \<le> Suc b \<and>
    list_all (\<lambda>e. (e_id e \<in> set ids \<longrightarrow> due e) \<and>
      (e_id e \<notin> set ids \<and> due e \<longrightarrow> length ids = Suc b \<and>
        list_all (\<lambda>c. e_id c \<in> set ids \<longrightarrow> (e_available_at c, e_created_at c, e_id c) \<le> (e_available_at e, e_created_at e, e_id e)) events)) events \<and>
    events' = map (\<lambda>e. if e_id e \<in> set ids
      then e\<lparr>e_status := Ob_Leased, e_lease_owner := Some worker,
             e_lease_until := Some (now + seconds (outbox_lease_seconds settings))\<rparr> else e) events"
proof -
  let ?k = "\<lambda>e. (e_available_at e, e_created_at e, e_id e)"
  let ?all = "sort_key ?k (filter (outbox_due now) events)"
  let ?rows = "take (Suc b) ?all"
  have ids: "ids = map e_id ?rows" and ev: "events' = map (\<lambda>e. if e_id e \<in> set ids
      then lease_event worker (now + seconds (outbox_lease_seconds settings)) e else e) events"
    using assms(2) by (auto simp: claim_outbox_events_def Let_def)
  have mem: "e_id e \<in> set ids \<longleftrightarrow> e \<in> set ?rows" if "e \<in> set events" for e
  proof
    assume "e_id e \<in> set ids"
    then obtain y where y: "y \<in> set ?rows" "e_id y = e_id e" by (auto simp: ids)
    then have "y \<in> set events" by (auto dest!: in_set_takeD)
    with that y assms(1) have "y = e" by (auto simp: distinct_map inj_on_def)
    with y show "e \<in> set ?rows" by simp
  qed (simp add: ids)
  have due: "outbox_due now e" if "e \<in> set ?rows" for e using that by (auto dest!: in_set_takeD)
  have rest: "?k c \<le> ?k e" if e: "e \<in> set events" "e \<notin> set ?rows" "outbox_due now e" and c: "c \<in> set ?rows" for e c
  proof -
    have "e \<in> set ?all" using e by simp
    then have "e \<in> set (take (Suc b) ?all @ drop (Suc b) ?all)" by (simp only: append_take_drop_id)
    then have d: "e \<in> set (drop (Suc b) ?all)" using e(2) unfolding set_append by blast
    have "sorted (map ?k (take (Suc b) ?all @ drop (Suc b) ?all))" by (simp only: append_take_drop_id sorted_sort_key)
    then have le: "\<forall>x \<in> set (map ?k ?rows). \<forall>y \<in> set (map ?k (drop (Suc b) ?all)). x \<le> y"
      unfolding map_append sorted_append by blast
    from le imageI [OF c, of ?k] imageI [OF d, of ?k] show ?thesis unfolding set_map by blast
  qed
  have full: "length ids = Suc b" if e: "e \<in> set events" "e \<notin> set ?rows" "outbox_due now e" for e
  proof -
    have "e \<in> set ?all" using e by simp
    then have "\<not> length ?all \<le> Suc b" using e(2) by auto
    then show ?thesis by (simp add: ids)
  qed
  have "length ids \<le> Suc b" by (simp add: ids)
  moreover have "list_all (\<lambda>e. (e_id e \<in> set ids \<longrightarrow> outbox_due now e) \<and>
      (e_id e \<notin> set ids \<and> outbox_due now e \<longrightarrow> length ids = Suc b \<and>
        list_all (\<lambda>c. e_id c \<in> set ids \<longrightarrow> ?k c \<le> ?k e) events)) events"
    unfolding list_all_iff using mem due rest full by blast
  moreover have due_iff: "(e_available_at e \<le> now \<and> (e_status e = Ob_Pending \<or> e_status e = Ob_Retry \<or>
      e_status e = Ob_Leased \<and> (case e_lease_until e of None \<Rightarrow> False | Some t \<Rightarrow> t \<le> now))) = outbox_due now e" for e
    by (auto simp: outbox_due_def)
  ultimately show ?thesis unfolding ev lease_event_def Let_def due_iff by blast
qed

theorem claim_takes_due_witness:
  "snd (claim_outbox_events sample_outbox_settings ''w'' 20 (Some (Suc 0)) (ob_events sample_outbox)) = [''b''] \<and>
   length [''b''] \<le> Suc 0"
proof -
  have ids: "snd (claim_outbox_events sample_outbox_settings ''w'' 20 (Some (Suc 0)) (ob_events sample_outbox)) = [''b'']"
    by code_simp
  moreover have "distinct (map e_id (ob_events sample_outbox))" by (simp add: sample_outbox_defs)
  ultimately show ?thesis
    using claim_takes_due [of "ob_events sample_outbox" sample_outbox_settings "''w''" 20 0] by (metis surjective_pairing)
qed

lemma relay_fold_published:
  assumes "distinct ids" and "distinct (map e_id (ob_events ob))"
    and "\<And>i. i \<in> set ids \<Longrightarrow> \<exists>e. fetch e_id i (ob_events ob) = Some e \<and> holds_lease worker e"
    and "foldl (\<lambda>st eid. relay_one settings (\<lambda>_. Published) now worker eid st) (ob, stats) ids = (ob', stats')"
  shows "rs_published stats' = rs_published stats + length ids \<and> rs_retried stats' = rs_retried stats \<and>
    rs_dead stats' = rs_dead stats \<and> rs_claimed stats' = rs_claimed stats \<and>
    map sm_event_id (ob_stream ob') = map sm_event_id (ob_stream ob) @ ids \<and>
    (\<forall>i. event_status i ob' = (if i \<in> set ids then Some Ob_Processed else event_status i ob))"
  using assms
proof (induction ids arbitrary: ob stats)
  case (Cons x ids)
  from Cons.prems(3) [of x] obtain e where e: "fetch e_id x (ob_events ob) = Some e" and l: "holds_lease worker e" by auto
  have id: "e_id e = x" using fetch_SomeD [OF e] by simp
  let ?r = "fst (mark_outbox_processed now worker e)"
  let ?ob1 = "ob\<lparr>ob_events := update_event ?r (ob_events ob), ob_stream := publish_outbox_message e (ob_stream ob)\<rparr>"
  let ?stats1 = "stats\<lparr>rs_published := rs_published stats + 1\<rparr>"
  have rid: "e_id ?r = x" and rst: "e_status ?r = Ob_Processed" and rok: "snd (mark_outbox_processed now worker e)"
    using l id by (simp_all add: mark_outbox_processed_def)
  have step: "relay_one settings (\<lambda>_. Published) now worker x (ob, stats) = (?ob1, ?stats1)"
    using e l rok by (simp add: relay_one_def Let_def split_beta)
  have d1: "distinct (map e_id (ob_events ?ob1))"
    using Cons.prems(2) rid by (simp add: update_event_def)
  have h1: "\<exists>e. fetch e_id i (ob_events ?ob1) = Some e \<and> holds_lease worker e" if "i \<in> set ids" for i
    using that Cons.prems(1,3) rid by (auto simp: fetch_update_event)
  have "event_status i ?ob1 = (if i = x then Some Ob_Processed else event_status i ob)" for i
    using e rid rst by (simp add: event_status_def fetch_update_event)
  with Cons.IH [OF _ d1 h1, of ?stats1] Cons.prems(1,4) id show ?case by (auto simp: step)
qed auto

text \<open>
  When Redis takes every message, one relay run processes every event it claimed:
  none is retried or dead, and each is marked processed with its message at the end of the stream.
\<close>

theorem relay_processes_batch:
  assumes "outbox_inv m ob" and "relay_outbox_once settings (\<lambda>_. Published) now worker ob = (ob', stats)"
    and "claim_outbox_events settings worker now None (ob_events ob) = (claimed, ids)"
  shows "rs_claimed stats = length ids \<and> rs_published stats = length ids \<and> rs_retried stats = 0 \<and> rs_dead stats = 0 \<and>
    map sm_event_id (ob_stream ob') = map sm_event_id (ob_stream ob) @ ids \<and>
    (i \<in> set ids \<longrightarrow> event_status i ob' = Some Ob_Processed)"
proof -
  let ?all = "sort_key (\<lambda>e. (e_available_at e, e_created_at e, e_id e)) (filter (outbox_due now) (ob_events ob))"
  let ?ob1 = "ob\<lparr>ob_events := claimed\<rparr>"
  let ?f = "\<lambda>e. if e_id e \<in> set ids then lease_event worker (now + seconds (outbox_lease_seconds settings)) e else e"
  have d: "distinct (map e_id (ob_events ob))" using assms(1) by (simp add: outbox_inv_def)
  have ids: "ids = map e_id (take (outbox_batch_size settings) ?all)" and cl: "claimed = map ?f (ob_events ob)"
    using assms(3) by (auto simp: claim_outbox_events_def Let_def)
  have "distinct (map e_id ?all)" using d by (auto simp: distinct_map intro: inj_on_subset)
  then have di: "distinct ids" unfolding ids take_map [symmetric] by (rule distinct_take)
  have dc: "distinct (map e_id (ob_events ?ob1))"
  proof -
    have "map e_id claimed = map e_id (ob_events ob)" by (auto simp: cl)
    with d show ?thesis by simp
  qed
  have fm: "fetch e_id i (map ?f es) = map_option ?f (fetch e_id i es)" for i es by (induction es) auto
  have held: "\<exists>e. fetch e_id i (ob_events ?ob1) = Some e \<and> holds_lease worker e" if "i \<in> set ids" for i
  proof -
    from that obtain y where "y \<in> set (ob_events ob)" "e_id y = i" by (auto simp: ids dest!: in_set_takeD)
    with fetch_distinct [OF d this(1)] that show ?thesis
      by (simp add: cl fm holds_lease_def) (simp add: lease_event_def)
  qed
  from relay_fold_published [OF di dc held, of settings now
      "\<lparr>rs_claimed = length ids, rs_published = 0, rs_retried = 0, rs_dead = 0\<rparr>" ob' stats] assms(2,3)
  show ?thesis by (simp add: relay_outbox_once_def)
qed

theorem relay_processes_batch_witness:
  "map sm_event_id (ob_stream (fst (relay_outbox_once sample_outbox_settings (\<lambda>_. Published) 20 ''w'' sample_outbox)))
     = [''b'', ''a'']"
proof -
  have ids: "snd (claim_outbox_events sample_outbox_settings ''w'' 20 None (ob_events sample_outbox)) = [''b'', ''a'']"
    by code_simp
  have st: "ob_stream sample_outbox = []" by (simp add: sample_outbox_def)
  have "outbox_inv 5 sample_outbox" by (simp add: sample_outbox_defs)
  from relay_processes_batch [OF this surjective_pairing surjective_pairing, of sample_outbox_settings 20 "''w''" "''a''"]
  show ?thesis by (simp add: ids st)
qed

end
