(* ===== verification/Knowledge_Jobs.thy ===== *)
theory Knowledge_Jobs
  imports Outbox
begin

text \<open>
  Durable Knowledge jobs (\<open>services/knowledge_job_service.py\<close>): jobs are created once per
  idempotency key, claimed under a lease, completed, failed with a growing delay or killed, taken
  back from dead workers, and retried by hand. Every dispatch is an outbox event under a key that
  names the job, its attempt and the reason.
\<close>

section \<open>Data\<close>

datatype job_status = J_Pending | J_Leased | J_Processing | J_Retry | J_Succeeded | J_Dead | J_Cancelled

record ingestion_job =
  j_id :: string
  j_knowledge_base_id :: string
  j_document_version_id :: "string option"
  j_index_version_id :: "string option"
  j_job_type :: string
  j_status :: job_status
  j_attempt_count :: int
  j_max_attempts :: int
  j_lease_owner :: "string option"
  j_lease_until :: "time option"
  j_idempotency_key :: string
  j_payload :: payload
  j_error_code :: "string option"
  j_error_message :: "string option"
  j_next_attempt_at :: "time option"
  j_created_at :: time
  j_started_at :: "time option"
  j_completed_at :: "time option"
  j_updated_at :: time

record job_failure =
  jf_status :: job_status
  jf_attempt_count :: int
  jf_next_attempt_at :: "time option"

text \<open>The part of the database that the jobs live in.\<close>

record knowledge =
  kn_jobs :: "ingestion_job list"
  kn_outbox :: outbox

definition TERMINAL_JOB_STATUSES :: "job_status list" where
  "TERMINAL_JOB_STATUSES = [J_Succeeded, J_Dead, J_Cancelled]"

section \<open>Operations\<close>

definition dispatch_key :: "string \<Rightarrow> int \<Rightarrow> string \<Rightarrow> string" where
  "dispatch_key jid n reason = ''knowledge-job:'' @ jid @ '':dispatch:'' @ show_int n @ '':'' @ reason"

definition schedule_job_dispatch ::
    "time \<Rightarrow> string \<Rightarrow> ingestion_job \<Rightarrow> string \<Rightarrow> time \<Rightarrow> outbox_event list \<Rightarrow> outbox_event list" where
  "schedule_job_dispatch now uuid job reason available_at events =
     fst (enqueue_outbox_event now uuid ''knowledge_job'' (j_id job) ''knowledge.job.ready''
       [(''job_id'', JString (j_id job)), (''job_type'', JString (j_job_type job)),
        (''attempt'', JInt (j_attempt_count job)), (''reason'', JString reason)]
       (dispatch_key (j_id job) (j_attempt_count job) reason) (Some available_at) events)"

definition new_job ::
    "outbox_settings \<Rightarrow> time \<Rightarrow> string \<Rightarrow> string \<Rightarrow> string \<Rightarrow> string \<Rightarrow> payload \<Rightarrow> string option \<Rightarrow> string option
      \<Rightarrow> int option \<Rightarrow> ingestion_job" where
  "new_job settings now job_id kb job_type key payload doc index max_attempts =
     \<lparr>j_id = job_id, j_knowledge_base_id = kb, j_document_version_id = doc, j_index_version_id = index,
      j_job_type = job_type, j_status = J_Pending, j_attempt_count = 0,
      j_max_attempts = (case max_attempts of None \<Rightarrow> knowledge_job_max_attempts settings
         | Some n \<Rightarrow> if n = 0 then knowledge_job_max_attempts settings else n),
      j_lease_owner = None, j_lease_until = None, j_idempotency_key = key, j_payload = payload,
      j_error_code = None, j_error_message = None, j_next_attempt_at = None, j_created_at = now,
      j_started_at = None, j_completed_at = None, j_updated_at = now\<rparr>"

text \<open>\<open>job_id\<close> and \<open>uuid\<close> are the identifiers drawn for the job and for its first dispatch.\<close>

definition enqueue_knowledge_job ::
    "outbox_settings \<Rightarrow> time \<Rightarrow> string \<Rightarrow> string \<Rightarrow> string \<Rightarrow> string \<Rightarrow> string \<Rightarrow> payload \<Rightarrow> string option
      \<Rightarrow> string option \<Rightarrow> int option \<Rightarrow> knowledge \<Rightarrow> knowledge \<times> ingestion_job" where
  "enqueue_knowledge_job settings now job_id uuid kb job_type key payload doc index max_attempts st =
     (case fetch j_idempotency_key key (kn_jobs st) of
        Some existing \<Rightarrow> (st, existing)
      | None \<Rightarrow>
          let job = new_job settings now job_id kb job_type key payload doc index max_attempts;
              ob = kn_outbox st
          in (st\<lparr>kn_jobs := kn_jobs st @ [job],
                 kn_outbox := ob\<lparr>ob_events := schedule_job_dispatch now uuid job ''created'' now (ob_events ob)\<rparr>\<rparr>, job))"

definition claimable :: "time \<Rightarrow> ingestion_job \<Rightarrow> bool" where
  "claimable current job \<longleftrightarrow>
     j_status job \<notin> set TERMINAL_JOB_STATUSES \<and>
     \<not> (j_status job \<in> {J_Leased, J_Processing} \<and> (case j_lease_until job of None \<Rightarrow> False | Some t \<Rightarrow> t > current)) \<and>
     j_status job \<in> {J_Pending, J_Retry, J_Leased, J_Processing} \<and>
     \<not> (case j_next_attempt_at job of None \<Rightarrow> False | Some t \<Rightarrow> t > current)"

definition take_job :: "outbox_settings \<Rightarrow> time \<Rightarrow> string \<Rightarrow> ingestion_job \<Rightarrow> ingestion_job" where
  "take_job settings current worker job =
     job\<lparr>j_status := J_Processing, j_attempt_count := j_attempt_count job + 1, j_lease_owner := Some worker,
         j_lease_until := Some (current + seconds (knowledge_job_lease_seconds settings)),
         j_started_at := (case j_started_at job of None \<Rightarrow> Some current | Some t \<Rightarrow> Some t),
         j_updated_at := current, j_error_code := None, j_error_message := None\<rparr>"

definition claim_knowledge_job ::
    "outbox_settings \<Rightarrow> time \<Rightarrow> string \<Rightarrow> string \<Rightarrow> knowledge \<Rightarrow> knowledge \<times> ingestion_job option" where
  "claim_knowledge_job settings current jid worker st =
     (case fetch j_id jid (kn_jobs st) of
        None \<Rightarrow> (st, None)
      | Some job \<Rightarrow>
          if \<not> claimable current job then (st, None)
          else (st\<lparr>kn_jobs := modify j_id jid (take_job settings current worker) (kn_jobs st)\<rparr>,
                Some (take_job settings current worker job)))"

definition owns_job :: "string \<Rightarrow> ingestion_job \<Rightarrow> bool" where
  "owns_job worker job \<longleftrightarrow> j_status job = J_Processing \<and> j_lease_owner job = Some worker"

text \<open>The three operations on a row that the caller has loaded.\<close>

definition heartbeat_knowledge_job ::
    "outbox_settings \<Rightarrow> time \<Rightarrow> string \<Rightarrow> ingestion_job \<Rightarrow> ingestion_job \<times> bool" where
  "heartbeat_knowledge_job settings current worker job =
     (if \<not> owns_job worker job then (job, False)
      else (job\<lparr>j_lease_until := Some (current + seconds (knowledge_job_lease_seconds settings)),
                j_updated_at := current\<rparr>, True))"

definition complete_knowledge_job :: "time \<Rightarrow> string \<Rightarrow> ingestion_job \<Rightarrow> ingestion_job \<times> bool" where
  "complete_knowledge_job now worker job =
     (if \<not> owns_job worker job then (job, False)
      else (job\<lparr>j_status := J_Succeeded, j_lease_owner := None, j_lease_until := None, j_next_attempt_at := None,
                j_completed_at := Some now, j_updated_at := now, j_error_code := None, j_error_message := None\<rparr>, True))"

definition attempts_left :: "ingestion_job \<Rightarrow> bool" where
  "attempts_left job \<longleftrightarrow> j_attempt_count job < (if j_max_attempts job = 0 then 1 else j_max_attempts job)"

definition job_retry_delay :: "outbox_settings \<Rightarrow> int \<Rightarrow> time" where
  "job_retry_delay settings attempts =
     seconds (min (knowledge_retry_base_seconds settings * 2 ^ nat (max 0 (attempts - 1))) 3600)"

definition fail_knowledge_job ::
    "outbox_settings \<Rightarrow> time \<Rightarrow> string \<Rightarrow> string \<Rightarrow> string \<Rightarrow> string \<Rightarrow> bool \<Rightarrow> ingestion_job \<Rightarrow> outbox_event list
      \<Rightarrow> ingestion_job \<times> outbox_event list \<times> job_failure" where
  "fail_knowledge_job settings now uuid worker error error_code retryable job events =
     (if \<not> owns_job worker job
      then (job, events, \<lparr>jf_status = j_status job, jf_attempt_count = j_attempt_count job,
              jf_next_attempt_at = j_next_attempt_at job\<rparr>)
      else
        let job1 = job\<lparr>j_lease_owner := None, j_lease_until := None, j_error_code := Some (clip 64 error_code),
                       j_error_message := Some (clip 8000 error), j_updated_at := now\<rparr>;
            (job2, events2) =
              (if \<not> retryable \<or> \<not> attempts_left job
               then (job1\<lparr>j_status := J_Dead, j_completed_at := Some now, j_next_attempt_at := None\<rparr>, events)
               else
                 let next = now + job_retry_delay settings (j_attempt_count job);
                     job' = job1\<lparr>j_status := J_Retry, j_next_attempt_at := Some next\<rparr>
                 in (job', schedule_job_dispatch now uuid job' ''retry'' next events))
        in (job2, events2, \<lparr>jf_status = j_status job2, jf_attempt_count = j_attempt_count job,
              jf_next_attempt_at = j_next_attempt_at job2\<rparr>))"

definition stale_job :: "time \<Rightarrow> ingestion_job \<Rightarrow> bool" where
  "stale_job current job \<longleftrightarrow> j_status job \<in> {J_Leased, J_Processing} \<and>
     (case j_lease_until job of None \<Rightarrow> True | Some t \<Rightarrow> t \<le> current)"

text \<open>The job that a sweep writes back.\<close>

definition recover_job :: "time \<Rightarrow> ingestion_job \<Rightarrow> ingestion_job" where
  "recover_job current job =
     (let job1 = job\<lparr>j_lease_owner := None, j_lease_until := None, j_error_code := Some ''lease_expired'',
            j_error_message := Some ''Worker lease expired before completion'', j_updated_at := current\<rparr>
      in if \<not> attempts_left job
         then job1\<lparr>j_status := J_Dead, j_completed_at := Some current, j_next_attempt_at := None\<rparr>
         else job1\<lparr>j_status := J_Retry, j_next_attempt_at := Some current\<rparr>)"

definition recover_one :: "time \<Rightarrow> (string \<Rightarrow> string) \<Rightarrow> ingestion_job \<Rightarrow> knowledge \<Rightarrow> knowledge" where
  "recover_one current uuid job st =
     (let job1 = recover_job current job; ob = kn_outbox st
      in st\<lparr>kn_jobs := modify j_id (j_id job) (\<lambda>_. job1) (kn_jobs st),
            kn_outbox := ob\<lparr>ob_events := (if j_status job1 = J_Retry
              then schedule_job_dispatch current (uuid (j_id job)) job1 ''lease-expired'' current (ob_events ob)
              else ob_events ob)\<rparr>\<rparr>)"

text \<open>\<open>ORDER BY lease_until, created_at\<close>, with the rows without a lease at the end as PostgreSQL has them.\<close>

definition recover_order :: "ingestion_job \<Rightarrow> (bool \<times> time) \<times> time" where
  "recover_order job = ((case j_lease_until job of None \<Rightarrow> (True, 0) | Some t \<Rightarrow> (False, t)), j_created_at job)"

definition stale_jobs :: "time \<Rightarrow> nat \<Rightarrow> knowledge \<Rightarrow> ingestion_job list" where
  "stale_jobs current limit st = take limit (sort_key recover_order (filter (stale_job current) (kn_jobs st)))"

text \<open>\<open>uuid\<close> gives the identifier drawn for the dispatch of each recovered job.\<close>

definition recover_stale_knowledge_jobs ::
    "time \<Rightarrow> nat \<Rightarrow> (string \<Rightarrow> string) \<Rightarrow> knowledge \<Rightarrow> knowledge \<times> nat" where
  "recover_stale_knowledge_jobs current limit uuid st =
     (let jobs = stale_jobs current limit st
      in (foldl (\<lambda>s job. recover_one current uuid job s) st jobs, length jobs))"

definition manual_count :: "ingestion_job \<Rightarrow> int result" where
  "manual_count job = int_or 0 (dict_get (j_payload job) ''manual_retry_count'')"

definition reopened_job :: "time \<Rightarrow> int \<Rightarrow> ingestion_job \<Rightarrow> ingestion_job" where
  "reopened_job now n job =
     job\<lparr>j_payload := dict_set ''manual_retry_count'' (JInt n) (j_payload job), j_status := J_Pending,
         j_attempt_count := 0, j_lease_owner := None, j_lease_until := None, j_next_attempt_at := None,
         j_started_at := None, j_completed_at := None, j_error_code := None, j_error_message := None,
         j_updated_at := now\<rparr>"

definition manual_reason :: "int \<Rightarrow> string" where
  "manual_reason n = ''manual-retry-'' @ show_int n"

definition retry_dead_knowledge_job ::
    "time \<Rightarrow> string \<Rightarrow> string \<Rightarrow> knowledge \<Rightarrow> (knowledge \<times> ingestion_job) result" where
  "retry_dead_knowledge_job now uuid jid st =
     (case fetch j_id jid (kn_jobs st) of
        None \<Rightarrow> Inl (ValueError ''Knowledge job not found'')
      | Some job \<Rightarrow>
          if j_status job \<noteq> J_Dead then Inl (ValueError ''Only a dead Knowledge job can be retried manually'')
          else
            (case manual_count job of
               Inl e \<Rightarrow> Inl e
             | Inr m \<Rightarrow>
                 if m + 1 > 10 then Inl (ValueError ''Knowledge job exceeded the manual retry limit'')
                 else
                   let job1 = reopened_job now (m + 1) job; ob = kn_outbox st
                   in Inr (st\<lparr>kn_jobs := modify j_id jid (\<lambda>_. job1) (kn_jobs st),
                        kn_outbox := ob\<lparr>ob_events :=
                          schedule_job_dispatch now uuid job1 (manual_reason (m + 1)) now (ob_events ob)\<rparr>\<rparr>, job1)))"

section \<open>Dispatch keys\<close>

lemma last_field:
  assumes "xs @ c # ys = xs' @ c # ys'" and "c \<notin> set ys" and "c \<notin> set ys'"
  shows "xs = xs' \<and> ys = ys'"
proof -
  have "rev ys @ c # rev xs = rev ys' @ c # rev xs'" using arg_cong [OF assms(1), of rev] by simp
  with assms(2,3) have "rev ys = rev ys' \<and> rev xs = rev xs'" by (intro sep_split_inj) auto
  then show ?thesis by simp
qed

lemma dispatch_key_inj:
  assumes "dispatch_key jid n r = dispatch_key jid' n' r'" and "CHR '':'' \<notin> set r" and "CHR '':'' \<notin> set r'"
  shows "jid = jid' \<and> n = n' \<and> r = r'"
proof -
  let ?p = "\<lambda>i k. ''knowledge-job:'' @ i @ '':dispatch'' @ CHR '':'' # show_int k"
  have "?p jid n @ CHR '':'' # r = ?p jid' n' @ CHR '':'' # r'" using assms(1) by (simp add: dispatch_key_def)
  from last_field [OF this assms(2,3)] have p: "?p jid n = ?p jid' n'" and r: "r = r'" by simp_all
  have "(''knowledge-job:'' @ jid @ '':dispatch'') @ CHR '':'' # show_int n
      = (''knowledge-job:'' @ jid' @ '':dispatch'') @ CHR '':'' # show_int n'" using p by simp
  from last_field [OF this] have "jid = jid'" "show_int n = show_int n'" by simp_all
  with r show_int_inj show ?thesis by blast
qed

section \<open>Invariant\<close>

text \<open>
  What holds of every job row: a lease exactly while a worker has the job, attempts left while
  it waits for its next attempt, and no attempt made while it waits for the first.
\<close>

definition job_ok :: "ingestion_job \<Rightarrow> bool" where
  "job_ok job \<longleftrightarrow> 0 < j_max_attempts job \<and> 0 \<le> j_attempt_count job \<and>
     (j_status job = J_Processing \<longrightarrow> j_lease_owner job \<noteq> None \<and> j_lease_until job \<noteq> None \<and> 1 \<le> j_attempt_count job) \<and>
     (j_status job \<notin> {J_Leased, J_Processing} \<longrightarrow> j_lease_owner job = None \<and> j_lease_until job = None) \<and>
     (j_status job = J_Pending \<longrightarrow> j_attempt_count job = 0) \<and>
     (j_status job = J_Retry \<longrightarrow> j_attempt_count job < j_max_attempts job \<and> j_next_attempt_at job \<noteq> None) \<and>
     (case manual_count job of Inl _ \<Rightarrow> True | Inr m \<Rightarrow> 0 \<le> m)"

definition event_keys :: "outbox_event list \<Rightarrow> string set" where
  "event_keys events = set (map e_idempotency_key events)"

text \<open>The number of the next automatic dispatch of a job: the current attempt while it runs.\<close>

definition next_dispatch :: "ingestion_job \<Rightarrow> int" where
  "next_dispatch job = j_attempt_count job + (if j_status job \<in> {J_Leased, J_Processing} then 0 else 1)"

text \<open>No automatic dispatch from that number on has been made yet.\<close>

definition dispatch_open :: "string set \<Rightarrow> ingestion_job \<Rightarrow> bool" where
  "dispatch_open ks job \<longleftrightarrow> (\<forall>n \<ge> next_dispatch job.
     dispatch_key (j_id job) n ''retry'' \<notin> ks \<and> dispatch_key (j_id job) n ''lease-expired'' \<notin> ks)"

definition kn_inv :: "int \<Rightarrow> knowledge \<Rightarrow> bool" where
  "kn_inv m st \<longleftrightarrow>
     distinct (map j_id (kn_jobs st)) \<and> distinct (map j_idempotency_key (kn_jobs st)) \<and>
     list_all job_ok (kn_jobs st) \<and> outbox_inv m (kn_outbox st) \<and>
     list_all (\<lambda>job. manual_count job = Inr 0 \<longrightarrow> dispatch_open (event_keys (ob_events (kn_outbox st))) job) (kn_jobs st) \<and>
     (\<forall>jid n r. CHR '':'' \<notin> set r \<longrightarrow> dispatch_key jid n r \<in> event_keys (ob_events (kn_outbox st)) \<longrightarrow>
        jid \<in> j_id ` set (kn_jobs st))"

definition put_job :: "ingestion_job \<Rightarrow> outbox_event list \<Rightarrow> knowledge \<Rightarrow> knowledge" where
  "put_job job events st =
     st\<lparr>kn_jobs := modify j_id (j_id job) (\<lambda>_. job) (kn_jobs st), kn_outbox := (kn_outbox st)\<lparr>ob_events := events\<rparr>\<rparr>"

lemma kn_inv_put_job:
  assumes inv: "kn_inv m st" and row: "fetch j_id (j_id job1) (kn_jobs st) = Some job"
    and key: "j_idempotency_key job1 = j_idempotency_key job" and ok: "job_ok job1"
    and ob: "outbox_inv m ((kn_outbox st)\<lparr>ob_events := ev\<rparr>)"
    and ks: "event_keys ev \<subseteq> insert (dispatch_key (j_id job1) n r) (event_keys (ob_events (kn_outbox st)))"
    and r: "CHR '':'' \<notin> set r"
    and fresh: "manual_count job1 = Inr 0 \<Longrightarrow> dispatch_open (event_keys ev) job1"
  shows "kn_inv m (put_job job1 ev st)"
proof -
  have ids: "distinct (map j_id (kn_jobs st))" using inv by (simp add: kn_inv_def)
  have mem: "job \<in> set (kn_jobs st)" "j_id job = j_id job1" using fetch_SomeD [OF row] by auto
  have cong: "modify j_id (j_id job1) (\<lambda>_. job1) (kn_jobs st)
      = modify j_id (j_id job1) (\<lambda>x. if x = job then job1 else x) (kn_jobs st)"
    by (rule modify_cong_row [OF ids row]) simp
  have "map j_id (modify j_id (j_id job1) (\<lambda>_. job1) (kn_jobs st)) = map j_id (kn_jobs st)" by simp
  moreover have "map j_idempotency_key (modify j_id (j_id job1) (\<lambda>_. job1) (kn_jobs st)) = map j_idempotency_key (kn_jobs st)"
    unfolding cong by (rule map_key_modify) (use key in auto)
  moreover have "dispatch_open (event_keys ev) x"
    if "x \<in> set (kn_jobs st)" "j_id x \<noteq> j_id job1" "manual_count x = Inr 0" for x
  proof -
    have "dispatch_open (event_keys (ob_events (kn_outbox st))) x"
      using inv that by (simp add: kn_inv_def list_all_iff)
    moreover have "dispatch_key (j_id x) k s \<noteq> dispatch_key (j_id job1) n r" if "s = ''retry'' \<or> s = ''lease-expired''" for k s
    proof
      assume "dispatch_key (j_id x) k s = dispatch_key (j_id job1) n r"
      from dispatch_key_inj [OF this _ r] that have "j_id x = j_id job1" by auto
      with \<open>j_id x \<noteq> j_id job1\<close> show False ..
    qed
    ultimately show ?thesis using ks unfolding dispatch_open_def by blast
  qed
  moreover have "jid \<in> j_id ` set (modify j_id (j_id job1) (\<lambda>_. job1) (kn_jobs st))"
    if c: "CHR '':'' \<notin> set s" and k: "dispatch_key jid k s \<in> event_keys ev" for jid k s
  proof -
    have "j_id ` set (modify j_id (j_id job1) (\<lambda>_. job1) (kn_jobs st)) = j_id ` set (kn_jobs st)"
      by (metis calculation(1) list.set_map)
    moreover have "jid \<in> j_id ` set (kn_jobs st)"
    proof (cases "dispatch_key jid k s = dispatch_key (j_id job1) n r")
      case True
      from dispatch_key_inj [OF this c r] mem show ?thesis by (metis imageI)
    next
      case False
      with ks k have "dispatch_key jid k s \<in> event_keys (ob_events (kn_outbox st))" by blast
      with inv c show ?thesis by (simp add: kn_inv_def)
    qed
    ultimately show ?thesis by simp
  qed
  ultimately show ?thesis
    using inv ok ob fresh unfolding kn_inv_def put_job_def by (auto simp: list_all_iff set_modify)
qed

text \<open>A dispatch adds at most its own key, and keeps the outbox in order.\<close>

lemma schedule_keys:
  "event_keys (schedule_job_dispatch now uuid job r t events)
     = insert (dispatch_key (j_id job) (j_attempt_count job) r) (event_keys events)"
proof (cases "fetch e_idempotency_key (dispatch_key (j_id job) (j_attempt_count job) r) events")
  case (Some e)
  from fetch_SomeD [OF Some] have "dispatch_key (j_id job) (j_attempt_count job) r \<in> event_keys events"
    by (simp add: event_keys_def) (metis imageI)
  with Some show ?thesis by (simp add: schedule_job_dispatch_def enqueue_outbox_event_def insert_absorb)
qed (simp add: schedule_job_dispatch_def enqueue_outbox_event_def event_keys_def outbox_row_def Let_def)

lemma schedule_inv:
  assumes "outbox_inv m ob" and "0 < m" and "uuid \<notin> set (map e_id (ob_events ob))"
  shows "outbox_inv m (ob\<lparr>ob_events := schedule_job_dispatch now uuid job r t (ob_events ob)\<rparr>)"
  unfolding schedule_job_dispatch_def by (rule enqueue_inv [OF assms])

lemma schedule_ids:
  "set (map e_id (schedule_job_dispatch now uuid job r t events)) \<subseteq> insert uuid (set (map e_id events))"
  by (auto simp: schedule_job_dispatch_def enqueue_outbox_event_def outbox_row_def Let_def split: option.split)

section \<open>Steps\<close>

datatype knowledge_event =
    Enqueue_Job time string string string string string payload "string option" "string option" "int option"
  | Claim_Job time string string
  | Heartbeat_Job time string string
  | Complete_Job time string string
  | Fail_Job time string string string string string bool
  | Recover_Jobs time nat "string \<Rightarrow> string"
  | Retry_Dead_Job time string string
  | Outbox_Action outbox_action

definition event_ids :: "knowledge \<Rightarrow> string list" where
  "event_ids st = map e_id (ob_events (kn_outbox st))"

text \<open>Drawn identifiers are new; an event whose identifier is taken does not happen.\<close>

definition recover_ids_fresh :: "time \<Rightarrow> nat \<Rightarrow> (string \<Rightarrow> string) \<Rightarrow> knowledge \<Rightarrow> bool" where
  "recover_ids_fresh now limit uuid st \<longleftrightarrow>
     (let ids = map (\<lambda>job. uuid (j_id job)) (stale_jobs now limit st)
      in distinct ids \<and> list_all (\<lambda>i. i \<notin> set (event_ids st)) ids)"

fun knowledge_step :: "outbox_settings \<Rightarrow> knowledge \<Rightarrow> knowledge_event \<Rightarrow> knowledge" where
  "knowledge_step settings st (Enqueue_Job now job_id uuid kb job_type key payload doc index mx) =
     (if job_id \<in> set (map j_id (kn_jobs st)) \<or> uuid \<in> set (event_ids st) then st
      else fst (enqueue_knowledge_job settings now job_id uuid kb job_type key payload doc index mx st))"
| "knowledge_step settings st (Claim_Job now jid worker) = fst (claim_knowledge_job settings now jid worker st)"
| "knowledge_step settings st (Heartbeat_Job now jid worker) =
     st\<lparr>kn_jobs := modify j_id jid (\<lambda>job. fst (heartbeat_knowledge_job settings now worker job)) (kn_jobs st)\<rparr>"
| "knowledge_step settings st (Complete_Job now jid worker) =
     st\<lparr>kn_jobs := modify j_id jid (\<lambda>job. fst (complete_knowledge_job now worker job)) (kn_jobs st)\<rparr>"
| "knowledge_step settings st (Fail_Job now uuid jid worker error code retryable) =
     (case fetch j_id jid (kn_jobs st) of
        None \<Rightarrow> st
      | Some job \<Rightarrow>
          if uuid \<in> set (event_ids st) then st
          else
            let (job1, events, f) = fail_knowledge_job settings now uuid worker error code retryable job (ob_events (kn_outbox st))
            in put_job job1 events st)"
| "knowledge_step settings st (Recover_Jobs now limit uuid) =
     (if recover_ids_fresh now limit uuid st then fst (recover_stale_knowledge_jobs now limit uuid st) else st)"
| "knowledge_step settings st (Retry_Dead_Job now uuid jid) =
     (if uuid \<in> set (event_ids st) then st
      else (case retry_dead_knowledge_job now uuid jid st of Inl _ \<Rightarrow> st | Inr (st', _) \<Rightarrow> st'))"
| "knowledge_step settings st (Outbox_Action a) = st\<lparr>kn_outbox := outbox_step settings (kn_outbox st) a\<rparr>"

text \<open>
  What the environment respects: callers ask for a non-negative number of attempts and do not
  start with a negative count of manual retries, other producers of outbox events use keys of
  their own.
\<close>

fun knowledge_admissible :: "outbox_settings \<Rightarrow> knowledge_event \<Rightarrow> bool" where
  "knowledge_admissible settings (Enqueue_Job now job_id uuid kb job_type key payload doc index mx) \<longleftrightarrow>
     0 < knowledge_job_max_attempts settings \<and> (case mx of None \<Rightarrow> True | Some n \<Rightarrow> 0 \<le> n) \<and>
     (case int_or 0 (dict_get payload ''manual_retry_count'') of Inl _ \<Rightarrow> True | Inr n \<Rightarrow> 0 \<le> n)"
| "knowledge_admissible settings (Outbox_Action (Enqueue now new_id a i t pl key av)) \<longleftrightarrow>
     0 < knowledge_job_max_attempts settings \<and> take 14 key \<noteq> ''knowledge-job:''"
| "knowledge_admissible settings _ \<longleftrightarrow> 0 < knowledge_job_max_attempts settings"

lemma put_job_same_events: "put_job job (ob_events (kn_outbox st)) st = st\<lparr>kn_jobs := modify j_id (j_id job) (\<lambda>_. job) (kn_jobs st)\<rparr>"
  by (simp add: put_job_def)

lemma dispatch_open_mono:
  "dispatch_open ks job \<Longrightarrow> j_id job1 = j_id job \<Longrightarrow> next_dispatch job \<le> next_dispatch job1 \<Longrightarrow> dispatch_open ks job1"
proof -
  assume o: "dispatch_open ks job" and id: "j_id job1 = j_id job" and le: "next_dispatch job \<le> next_dispatch job1"
  show ?thesis unfolding dispatch_open_def id
  proof (intro allI impI)
    fix n assume "next_dispatch job1 \<le> n"
    with le have "next_dispatch job \<le> n" by simp
    with o show "dispatch_key (j_id job) n ''retry'' \<notin> ks \<and> dispatch_key (j_id job) n ''lease-expired'' \<notin> ks"
      unfolding dispatch_open_def by blast
  qed
qed

text \<open>A row update that makes no dispatch.\<close>

lemma kn_inv_update:
  assumes inv: "kn_inv m st" and row: "fetch j_id jid (kn_jobs st) = Some job"
    and same: "j_id (f job) = j_id job" "j_idempotency_key (f job) = j_idempotency_key job" and ok: "job_ok (f job)"
    and fresh: "manual_count (f job) = Inr 0 \<Longrightarrow> manual_count job = Inr 0 \<and> next_dispatch job \<le> next_dispatch (f job)"
  shows "kn_inv m (st\<lparr>kn_jobs := modify j_id jid f (kn_jobs st)\<rparr>)"
proof -
  have id: "j_id job = jid" and mem: "job \<in> set (kn_jobs st)" using fetch_SomeD [OF row] by auto
  have ids: "distinct (map j_id (kn_jobs st))" and ob: "outbox_inv m (kn_outbox st)" using inv by (simp_all add: kn_inv_def)
  have d: "dispatch_open (event_keys (ob_events (kn_outbox st))) (f job)" if m: "manual_count (f job) = Inr 0"
    using inv mem fresh [OF m] dispatch_open_mono [OF _ same(1)] by (simp add: kn_inv_def list_all_iff)
  have "kn_inv m (put_job (f job) (ob_events (kn_outbox st)) st)"
  proof (rule kn_inv_put_job [OF inv _ same(2) ok _ _ _ d])
    show "fetch j_id (j_id (f job)) (kn_jobs st) = Some job" using row same(1) id by simp
    show "outbox_inv m ((kn_outbox st)\<lparr>ob_events := ob_events (kn_outbox st)\<rparr>)" using ob by simp
    show "event_keys (ob_events (kn_outbox st)) \<subseteq>
      insert (dispatch_key (j_id (f job)) 0 []) (event_keys (ob_events (kn_outbox st)))" by (rule subset_insertI)
  qed simp_all
  moreover have "modify j_id jid f (kn_jobs st) = modify j_id jid (\<lambda>_. f job) (kn_jobs st)"
    by (rule modify_cong_row [OF ids row]) simp
  ultimately show ?thesis using same(1) id by (simp add: put_job_same_events)
qed

lemma job_ok_row: "kn_inv m st \<Longrightarrow> fetch j_id jid (kn_jobs st) = Some job \<Longrightarrow> job_ok job"
  by (auto simp: kn_inv_def list_all_iff dest: fetch_SomeD)

lemma manual_count_cong: "j_payload job1 = j_payload job \<Longrightarrow> manual_count job1 = manual_count job"
  by (simp add: manual_count_def)

lemma take_job_sel [simp]:
  "j_id (take_job settings now w job) = j_id job"
  "j_idempotency_key (take_job settings now w job) = j_idempotency_key job"
  "j_payload (take_job settings now w job) = j_payload job"
  "j_status (take_job settings now w job) = J_Processing"
  "j_attempt_count (take_job settings now w job) = j_attempt_count job + 1"
  "j_max_attempts (take_job settings now w job) = j_max_attempts job"
  "j_lease_owner (take_job settings now w job) = Some w"
  "j_lease_until (take_job settings now w job) = Some (now + seconds (knowledge_job_lease_seconds settings))"
  by (simp_all add: take_job_def)

lemma claim_kn_inv:
  assumes "kn_inv m st"
  shows "kn_inv m (fst (claim_knowledge_job settings now jid worker st))"
proof (cases "\<exists>job. fetch j_id jid (kn_jobs st) = Some job \<and> claimable now job")
  case True
  then obtain job where row: "fetch j_id jid (kn_jobs st) = Some job" and c: "claimable now job" by blast
  have ok: "job_ok job" by (rule job_ok_row [OF assms row])
  have "kn_inv m (st\<lparr>kn_jobs := modify j_id jid (take_job settings now worker) (kn_jobs st)\<rparr>)"
  proof (rule kn_inv_update [OF assms row])
    show "job_ok (take_job settings now worker job)"
      using ok by (simp add: job_ok_def manual_count_cong [of "take_job settings now worker job" job])
    show "manual_count job = Inr 0 \<and> next_dispatch job \<le> next_dispatch (take_job settings now worker job)"
      if "manual_count (take_job settings now worker job) = Inr 0"
      using that by (simp add: manual_count_cong [of "take_job settings now worker job" job] next_dispatch_def)
  qed simp_all
  with row c show ?thesis by (simp add: claim_knowledge_job_def)
next
  case False
  then show ?thesis using assms by (auto simp: claim_knowledge_job_def split: option.split)
qed

lemma kn_inv_modify:
  assumes inv: "kn_inv m st"
    and f: "\<And>job. job_ok job \<Longrightarrow> j_id (f job) = j_id job \<and> j_idempotency_key (f job) = j_idempotency_key job \<and>
      job_ok (f job) \<and> j_payload (f job) = j_payload job \<and> next_dispatch job \<le> next_dispatch (f job)"
  shows "kn_inv m (st\<lparr>kn_jobs := modify j_id jid f (kn_jobs st)\<rparr>)"
proof (cases "fetch j_id jid (kn_jobs st)")
  case None
  then have "modify j_id jid f (kn_jobs st) = kn_jobs st" by (simp add: fetch_None_iff modify_absent)
  with inv show ?thesis by simp
next
  case (Some job)
  note fj = f [OF job_ok_row [OF inv Some]]
  show ?thesis
    by (rule kn_inv_update [OF inv Some]) (use fj manual_count_cong [of "f job" job] in auto)
qed

lemma heartbeat_kn_inv:
  assumes "kn_inv m st"
  shows "kn_inv m (st\<lparr>kn_jobs := modify j_id jid (\<lambda>job. fst (heartbeat_knowledge_job settings now worker job)) (kn_jobs st)\<rparr>)"
  by (rule kn_inv_modify [OF assms])
    (auto simp: heartbeat_knowledge_job_def owns_job_def job_ok_def next_dispatch_def manual_count_def)

lemma complete_kn_inv:
  assumes "kn_inv m st"
  shows "kn_inv m (st\<lparr>kn_jobs := modify j_id jid (\<lambda>job. fst (complete_knowledge_job now worker job)) (kn_jobs st)\<rparr>)"
  by (rule kn_inv_modify [OF assms])
    (auto simp: complete_knowledge_job_def owns_job_def job_ok_def next_dispatch_def manual_count_def)

text \<open>An automatic dispatch of the current attempt, after which the job waits.\<close>

lemma dispatch_open_after:
  assumes o: "dispatch_open ks job" and id: "j_id job1 = j_id job" and n: "next_dispatch job \<le> n"
    and n1: "n < next_dispatch job1" and r: "CHR '':'' \<notin> set r"
  shows "dispatch_open (insert (dispatch_key (j_id job) n r) ks) job1"
  unfolding dispatch_open_def id
proof (intro allI impI)
  fix k assume k: "next_dispatch job1 \<le> k"
  have ne: "dispatch_key (j_id job) k s \<noteq> dispatch_key (j_id job) n r" if "CHR '':'' \<notin> set s" for s
  proof
    assume "dispatch_key (j_id job) k s = dispatch_key (j_id job) n r"
    from dispatch_key_inj [OF this that r] k n1 show False by simp
  qed
  have "next_dispatch job \<le> k" using n n1 k by simp
  with o ne show "dispatch_key (j_id job) k ''retry'' \<notin> insert (dispatch_key (j_id job) n r) ks \<and>
      dispatch_key (j_id job) k ''lease-expired'' \<notin> insert (dispatch_key (j_id job) n r) ks"
    unfolding dispatch_open_def by auto
qed

lemma kn_inv_dispatch:
  assumes inv: "kn_inv m st" and m: "0 < m" and row: "fetch j_id (j_id job) (kn_jobs st) = Some job"
    and id: "j_id job1 = j_id job" and key: "j_idempotency_key job1 = j_idempotency_key job"
    and pl: "j_payload job1 = j_payload job" and ac: "j_attempt_count job1 = j_attempt_count job"
    and ok: "job_ok job1" and run: "next_dispatch job = j_attempt_count job" "next_dispatch job1 = j_attempt_count job + 1"
    and r: "CHR '':'' \<notin> set r" and u: "uuid \<notin> set (event_ids st)"
  shows "kn_inv m (put_job job1 (schedule_job_dispatch now uuid job1 r t (ob_events (kn_outbox st))) st)"
proof (rule kn_inv_put_job [OF inv _ key ok _ _ r])
  show "fetch j_id (j_id job1) (kn_jobs st) = Some job" using row id by simp
  have ob: "outbox_inv m (kn_outbox st)" using inv by (simp add: kn_inv_def)
  show "outbox_inv m ((kn_outbox st)\<lparr>ob_events := schedule_job_dispatch now uuid job1 r t (ob_events (kn_outbox st))\<rparr>)"
    by (rule schedule_inv [OF ob m]) (use u in \<open>simp add: event_ids_def\<close>)
  show "event_keys (schedule_job_dispatch now uuid job1 r t (ob_events (kn_outbox st)))
      \<subseteq> insert (dispatch_key (j_id job1) (j_attempt_count job) r) (event_keys (ob_events (kn_outbox st)))"
    by (simp add: schedule_keys ac)
  assume "manual_count job1 = Inr 0"
  then have "manual_count job = Inr 0" using pl by (simp add: manual_count_def)
  then have "dispatch_open (event_keys (ob_events (kn_outbox st))) job"
    using inv fetch_SomeD [OF row] by (simp add: kn_inv_def list_all_iff)
  from dispatch_open_after [OF this id _ _ r, of "j_attempt_count job"] run
  show "dispatch_open (event_keys (schedule_job_dispatch now uuid job1 r t (ob_events (kn_outbox st)))) job1"
    by (simp add: schedule_keys ac id)
qed

lemma kn_inv_put_same:
  assumes inv: "kn_inv m st" and row: "fetch j_id (j_id job) (kn_jobs st) = Some job"
    and "j_id job1 = j_id job" "j_idempotency_key job1 = j_idempotency_key job" "j_payload job1 = j_payload job"
    and "job_ok job1" and "next_dispatch job \<le> next_dispatch job1"
  shows "kn_inv m (put_job job1 (ob_events (kn_outbox st)) st)"
  unfolding put_job_same_events
  by (subst assms(3), rule kn_inv_update [OF inv row]) (use assms(3-) manual_count_cong [of job1 job] in auto)

text \<open>The row that a failed attempt leaves.\<close>

lemma fail_cases:
  assumes "fail_knowledge_job settings now uuid worker error code retryable job events = (job1, events1, f)"
  obtains (lost) "\<not> owns_job worker job" "job1 = job" "events1 = events" "jf_status f = j_status job"
  | (dead) "owns_job worker job" "\<not> retryable \<or> \<not> attempts_left job" "events1 = events" "j_status job1 = J_Dead"
      "jf_status f = J_Dead" "j_lease_owner job1 = None" "j_lease_until job1 = None" "j_id job1 = j_id job"
      "j_idempotency_key job1 = j_idempotency_key job" "j_payload job1 = j_payload job"
      "j_attempt_count job1 = j_attempt_count job" "j_max_attempts job1 = j_max_attempts job"
  | (retry) t where "owns_job worker job" "retryable" "attempts_left job"
      "t = now + job_retry_delay settings (j_attempt_count job)"
      "events1 = schedule_job_dispatch now uuid job1 ''retry'' t events" "j_status job1 = J_Retry"
      "jf_status f = J_Retry" "j_lease_owner job1 = None" "j_lease_until job1 = None" "j_id job1 = j_id job"
      "j_idempotency_key job1 = j_idempotency_key job" "j_payload job1 = j_payload job"
      "j_attempt_count job1 = j_attempt_count job" "j_max_attempts job1 = j_max_attempts job"
      "j_next_attempt_at job1 = Some t"
proof (cases "owns_job worker job")
  case False
  with assms show ?thesis by (intro lost) (auto simp: fail_knowledge_job_def)
next
  case own: True
  show ?thesis
  proof (cases "\<not> retryable \<or> \<not> attempts_left job")
    case True
    show ?thesis by (rule dead) (use assms own True in \<open>auto simp: fail_knowledge_job_def\<close>)
  next
    case False
    show ?thesis by (rule retry) (use assms own False in \<open>auto simp: fail_knowledge_job_def Let_def\<close>)
  qed
qed

lemma fail_kn_inv:
  assumes inv: "kn_inv m st" and m: "0 < m" and row: "fetch j_id jid (kn_jobs st) = Some job"
    and u: "uuid \<notin> set (event_ids st)"
    and f: "fail_knowledge_job settings now uuid worker error code retryable job (ob_events (kn_outbox st)) = (job1, events, f)"
  shows "kn_inv m (put_job job1 events st)"
proof -
  have id: "j_id job = jid" using fetch_SomeD [OF row] by simp
  have row': "fetch j_id (j_id job) (kn_jobs st) = Some job" using row id by simp
  have ok: "job_ok job" by (rule job_ok_row [OF inv row])
  from f show ?thesis
  proof (cases rule: fail_cases)
    case lost
    show ?thesis unfolding lost(2,3) by (rule kn_inv_put_same [OF inv row']) (use ok in simp_all)
  next
    case dead
    show ?thesis unfolding dead(3)
      by (rule kn_inv_put_same [OF inv row'])
        (use ok dead in \<open>simp_all add: job_ok_def next_dispatch_def manual_count_def owns_job_def\<close>)
  next
    case (retry t)
    show ?thesis unfolding retry(5)
      by (rule kn_inv_dispatch [OF inv m row'])
        (use ok retry u in \<open>simp_all add: job_ok_def next_dispatch_def manual_count_def owns_job_def attempts_left_def\<close>)
  qed
qed

lemma recover_job_sel [simp]:
  "j_id (recover_job now job) = j_id job" "j_idempotency_key (recover_job now job) = j_idempotency_key job"
  "j_payload (recover_job now job) = j_payload job" "j_attempt_count (recover_job now job) = j_attempt_count job"
  "j_max_attempts (recover_job now job) = j_max_attempts job"
  "j_status (recover_job now job) = (if attempts_left job then J_Retry else J_Dead)"
  "j_lease_owner (recover_job now job) = None" "j_lease_until (recover_job now job) = None"
  by (simp_all add: recover_job_def Let_def)

lemma recover_job_ok: "job_ok job \<Longrightarrow> job_ok (recover_job now job)"
  by (simp add: job_ok_def manual_count_def) (simp add: recover_job_def attempts_left_def Let_def)

lemma recover_one_eq:
  "recover_one now uuid job st = put_job (recover_job now job)
     (if attempts_left job then schedule_job_dispatch now (uuid (j_id job)) (recover_job now job) ''lease-expired'' now
        (ob_events (kn_outbox st)) else ob_events (kn_outbox st)) st"
  by (simp add: recover_one_def put_job_def Let_def)

lemma recover_one_kn_inv:
  assumes inv: "kn_inv m st" and m: "0 < m" and row: "fetch j_id (j_id job) (kn_jobs st) = Some job"
    and stale: "stale_job now job" and u: "uuid (j_id job) \<notin> set (event_ids st)"
  shows "kn_inv m (recover_one now uuid job st)"
proof -
  have ok: "job_ok (recover_job now job)" by (rule recover_job_ok [OF job_ok_row [OF inv row]])
  have nd: "next_dispatch job = j_attempt_count job" "next_dispatch (recover_job now job) = j_attempt_count job + 1"
    using stale by (simp_all add: next_dispatch_def stale_job_def)
  show ?thesis
  proof (cases "attempts_left job")
    case True
    then show ?thesis unfolding recover_one_eq
      by (simp only: if_True) (rule kn_inv_dispatch [OF inv m row], use ok nd u in simp_all)
  next
    case False
    then show ?thesis unfolding recover_one_eq
      by (simp only: if_False) (rule kn_inv_put_same [OF inv row], use ok nd in simp_all)
  qed
qed

lemma fetch_put_job:
  "fetch j_id i (kn_jobs (put_job job ev st)) =
     (if i = j_id job then map_option (\<lambda>_. job) (fetch j_id i (kn_jobs st)) else fetch j_id i (kn_jobs st))"
  by (auto simp: put_job_def fetch_modify)

lemma event_ids_recover:
  "set (event_ids (recover_one now uuid job st)) \<subseteq> insert (uuid (j_id job)) (set (event_ids st))"
  using schedule_ids [of now "uuid (j_id job)" "recover_job now job" "''lease-expired''" now "ob_events (kn_outbox st)"]
  by (auto simp: recover_one_eq put_job_def event_ids_def)

text \<open>The rows after a sweep: every swept row is recovered, the others stay.\<close>

lemma recover_fold:
  assumes "0 < m" and "kn_inv m st" and "distinct (map j_id js)" and "distinct (map (\<lambda>job. uuid (j_id job)) js)"
    and "\<And>job. job \<in> set js \<Longrightarrow> fetch j_id (j_id job) (kn_jobs st) = Some job \<and> stale_job now job \<and>
      uuid (j_id job) \<notin> set (event_ids st)"
  shows "kn_inv m (foldl (\<lambda>s job. recover_one now uuid job s) st js) \<and>
    (\<forall>i. fetch j_id i (kn_jobs (foldl (\<lambda>s job. recover_one now uuid job s) st js)) =
      (case fetch j_id i (kn_jobs st) of None \<Rightarrow> None
       | Some job \<Rightarrow> Some (if i \<in> set (map j_id js) then recover_job now job else job)))"
  using assms(2-)
proof (induction js arbitrary: st)
  case (Cons x js)
  let ?st1 = "recover_one now uuid x st"
  have x: "fetch j_id (j_id x) (kn_jobs st) = Some x" "stale_job now x" "uuid (j_id x) \<notin> set (event_ids st)"
    using Cons.prems(4) by auto
  have inv1: "kn_inv m ?st1" by (rule recover_one_kn_inv [where uuid = uuid, OF Cons.prems(1) assms(1) x])
  have f1: "fetch j_id i (kn_jobs ?st1) = (if i = j_id x then Some (recover_job now x) else fetch j_id i (kn_jobs st))" for i
    using x(1) by (simp add: recover_one_eq fetch_put_job)
  have js: "fetch j_id (j_id job) (kn_jobs ?st1) = Some job \<and> stale_job now job \<and> uuid (j_id job) \<notin> set (event_ids ?st1)"
    if j: "job \<in> set js" for job
  proof -
    have "uuid (j_id x) \<notin> (\<lambda>job. uuid (j_id job)) ` set js" using Cons.prems(3) by simp
    with j have "uuid (j_id job) \<noteq> uuid (j_id x)" by (metis imageI)
    then have "j_id job \<noteq> j_id x" "uuid (j_id job) \<noteq> uuid (j_id x)" by auto
    with Cons.prems(4) [of job] j f1 event_ids_recover [of now uuid x st] show ?thesis by auto
  qed
  from Cons.IH [OF inv1 _ _ js] Cons.prems(2,3)
  have ih: "kn_inv m (foldl (\<lambda>s job. recover_one now uuid job s) ?st1 js)"
    "fetch j_id i (kn_jobs (foldl (\<lambda>s job. recover_one now uuid job s) ?st1 js)) =
      (case fetch j_id i (kn_jobs ?st1) of None \<Rightarrow> None
       | Some job \<Rightarrow> Some (if i \<in> set (map j_id js) then recover_job now job else job))" for i by auto
  from Cons.prems(2) have "j_id x \<notin> set (map j_id js)" by simp
  with ih x(1) show ?case by (auto simp: f1 split: option.split)
qed (auto split: option.split)

lemma stale_jobs_rows:
  assumes "kn_inv m st"
  shows "distinct (map j_id (stale_jobs now limit st))"
    and "job \<in> set (stale_jobs now limit st) \<Longrightarrow> fetch j_id (j_id job) (kn_jobs st) = Some job \<and> stale_job now job"
proof -
  have d: "distinct (map j_id (kn_jobs st))" using assms by (simp add: kn_inv_def)
  then have "distinct (map j_id (sort_key recover_order (filter (stale_job now) (kn_jobs st))))"
    by (auto simp: distinct_map intro: inj_on_subset)
  then show "distinct (map j_id (stale_jobs now limit st))"
    unfolding stale_jobs_def take_map [symmetric] by (rule distinct_take)
  assume "job \<in> set (stale_jobs now limit st)"
  then have "job \<in> set (kn_jobs st)" "stale_job now job" by (auto simp: stale_jobs_def dest!: in_set_takeD)
  with fetch_distinct [OF d] show "fetch j_id (j_id job) (kn_jobs st) = Some job \<and> stale_job now job" by simp
qed

lemma recover_rows:
  assumes "0 < m" and inv: "kn_inv m st" and fresh: "recover_ids_fresh now limit uuid st"
  shows "kn_inv m (fst (recover_stale_knowledge_jobs now limit uuid st))"
    and "fetch j_id i (kn_jobs (fst (recover_stale_knowledge_jobs now limit uuid st))) =
      (case fetch j_id i (kn_jobs st) of None \<Rightarrow> None
       | Some job \<Rightarrow> Some (if i \<in> set (map j_id (stale_jobs now limit st)) then recover_job now job else job))"
  using recover_fold [OF assms(1) inv stale_jobs_rows(1) [OF inv, of now limit], of uuid now] stale_jobs_rows(2) [OF inv, of _ now limit] fresh
  by (auto simp: recover_stale_knowledge_jobs_def recover_ids_fresh_def Let_def list_all_iff)

lemma retry_dead_kn_inv:
  assumes inv: "kn_inv m st" and m: "0 < m" and u: "uuid \<notin> set (event_ids st)"
    and r: "retry_dead_knowledge_job now uuid jid st = Inr (st', job1)"
  obtains job n where "fetch j_id jid (kn_jobs st) = Some job" "j_status job = J_Dead" "manual_count job = Inr n" "n < 10"
    "job1 = reopened_job now (n + 1) job" "kn_inv m st'"
    "st' = put_job job1 (schedule_job_dispatch now uuid job1 (manual_reason (n + 1)) now (ob_events (kn_outbox st))) st"
proof -
  from r obtain job n where row: "fetch j_id jid (kn_jobs st) = Some job" and d: "j_status job = J_Dead"
    and mc: "manual_count job = Inr n" and n: "n < 10" and j1: "job1 = reopened_job now (n + 1) job"
    and st': "st' = st\<lparr>kn_jobs := modify j_id jid (\<lambda>_. job1) (kn_jobs st), kn_outbox := (kn_outbox st)\<lparr>ob_events :=
        schedule_job_dispatch now uuid job1 (manual_reason (n + 1)) now (ob_events (kn_outbox st))\<rparr>\<rparr>"
    by (auto simp: retry_dead_knowledge_job_def Let_def split: option.splits sum.splits if_splits)
  have id: "j_id job = jid" using fetch_SomeD [OF row] by simp
  have ok: "job_ok job" by (rule job_ok_row [OF inv row])
  have sel: "j_id job1 = jid" "j_idempotency_key job1 = j_idempotency_key job" "manual_count job1 = Inr (n + 1)"
    "j_attempt_count job1 = 0"
    using id by (simp_all add: j1 reopened_job_def manual_count_def dict_get_set)
  have n0: "0 \<le> n" using ok mc by (simp add: job_ok_def)
  have eq: "st' = put_job job1 (schedule_job_dispatch now uuid job1 (manual_reason (n + 1)) now (ob_events (kn_outbox st))) st"
    by (simp add: st' put_job_def sel)
  have ob: "outbox_inv m (kn_outbox st)" using inv by (simp add: kn_inv_def)
  have "kn_inv m st'" unfolding eq
  proof (rule kn_inv_put_job [OF inv _ sel(2)])
    show "fetch j_id (j_id job1) (kn_jobs st) = Some job" using row sel(1) by simp
    show "job_ok job1" using ok n0 sel(3) by (simp add: job_ok_def) (simp add: j1 reopened_job_def)
    show "outbox_inv m ((kn_outbox st)\<lparr>ob_events := schedule_job_dispatch now uuid job1 (manual_reason (n + 1)) now (ob_events (kn_outbox st))\<rparr>)"
      by (rule schedule_inv [OF ob m]) (use u in \<open>simp add: event_ids_def\<close>)
    show "event_keys (schedule_job_dispatch now uuid job1 (manual_reason (n + 1)) now (ob_events (kn_outbox st))) \<subseteq>
        insert (dispatch_key (j_id job1) 0 (manual_reason (n + 1))) (event_keys (ob_events (kn_outbox st)))"
      by (simp add: schedule_keys sel)
    show "CHR '':'' \<notin> set (manual_reason (n + 1))" by (simp add: manual_reason_def)
    show "dispatch_open (event_keys (schedule_job_dispatch now uuid job1 (manual_reason (n + 1)) now (ob_events (kn_outbox st)))) job1"
      if "manual_count job1 = Inr 0" using that sel(3) n0 by simp
  qed
  with that [OF row d mc n j1 _ eq] show ?thesis .
qed

lemma dispatch_key_prefix: "take 14 (dispatch_key jid n r) = ''knowledge-job:''"
  by (simp add: dispatch_key_def)

text \<open>Changes of the outbox that bring no dispatch key do not concern the jobs.\<close>

lemma kn_inv_outbox:
  assumes inv: "kn_inv m st" and ob: "outbox_inv m ob"
    and ks: "event_keys (ob_events ob) \<subseteq> K \<union> event_keys (ob_events (kn_outbox st))"
    and K: "\<And>k. k \<in> K \<Longrightarrow> take 14 k \<noteq> ''knowledge-job:''"
  shows "kn_inv m (st\<lparr>kn_outbox := ob\<rparr>)"
proof -
  have old: "dispatch_key jid n r \<in> event_keys (ob_events (kn_outbox st))"
    if "dispatch_key jid n r \<in> event_keys (ob_events ob)" for jid n r
    using that ks K dispatch_key_prefix by blast
  have "dispatch_open (event_keys (ob_events ob)) job"
    if "dispatch_open (event_keys (ob_events (kn_outbox st))) job" for job
    using that old unfolding dispatch_open_def by blast
  with inv ob old show ?thesis by (simp add: kn_inv_def list_all_iff) blast
qed

lemma enqueue_kn_inv:
  assumes inv: "kn_inv (knowledge_job_max_attempts settings) st"
    and adm: "knowledge_admissible settings (Enqueue_Job now job_id uuid kb job_type key payload doc index mx)"
    and new: "job_id \<notin> set (map j_id (kn_jobs st))" "uuid \<notin> set (event_ids st)"
  shows "kn_inv (knowledge_job_max_attempts settings)
    (fst (enqueue_knowledge_job settings now job_id uuid kb job_type key payload doc index mx st))"
proof (cases "fetch j_idempotency_key key (kn_jobs st)")
  case (Some e)
  with inv show ?thesis by (simp add: enqueue_knowledge_job_def)
next
  case None
  let ?m = "knowledge_job_max_attempts settings" and ?ks = "event_keys (ob_events (kn_outbox st))"
  define job where "job = new_job settings now job_id kb job_type key payload doc index mx"
  have sel: "j_id job = job_id" "j_idempotency_key job = key" "j_attempt_count job = 0" "j_status job = J_Pending"
    by (simp_all add: job_def new_job_def)
  have ok: "job_ok job"
    using adm by (auto simp: job_def new_job_def job_ok_def manual_count_def split: option.splits sum.splits)
  have ob: "outbox_inv ?m ((kn_outbox st)\<lparr>ob_events := schedule_job_dispatch now uuid job ''created'' now (ob_events (kn_outbox st))\<rparr>)"
    by (rule schedule_inv) (use inv adm new in \<open>simp_all add: kn_inv_def event_ids_def\<close>)
  have other: "dispatch_key jid n r \<in> insert (dispatch_key job_id 0 ''created'') ?ks \<longleftrightarrow> dispatch_key jid n r \<in> ?ks"
    if "r = ''retry'' \<or> r = ''lease-expired''" for jid n r
    using that dispatch_key_inj [of jid n r job_id 0 "''created''"] by auto
  have unknown: "dispatch_key job_id n r \<notin> ?ks" if "CHR '':'' \<notin> set r" for n r
    using inv that new(1) by (force simp: kn_inv_def)
  have open_other: "dispatch_open (insert (dispatch_key job_id 0 ''created'') ?ks) x \<longleftrightarrow> dispatch_open ?ks x" for x
    unfolding dispatch_open_def by (simp only: other simp_thms)
  have open_new: "dispatch_open ?ks job"
    unfolding dispatch_open_def sel(1) using unknown by simp
  have known: "jid \<in> j_id ` set (kn_jobs st @ [job])"
    if "CHR '':'' \<notin> set r" "dispatch_key jid n r \<in> insert (dispatch_key job_id 0 ''created'') ?ks" for jid n r
    using inv that dispatch_key_inj [of jid n r job_id 0 "''created''"] by (auto simp: kn_inv_def sel)
  have "key \<notin> j_idempotency_key ` set (kn_jobs st)" using None by (simp add: fetch_None_iff)
  then show ?thesis
    using inv ok ob new(1) open_new known None
    by (simp add: enqueue_knowledge_job_def kn_inv_def schedule_keys sel open_other Let_def flip: job_def)
qed

section \<open>Runs\<close>

definition job_state :: "string \<Rightarrow> knowledge \<Rightarrow> job_status option" where
  "job_state i st = map_option j_status (fetch j_id i (kn_jobs st))"

text \<open>The moves of a job, with and without retries by hand.\<close>

fun job_edge :: "bool \<Rightarrow> job_status option \<Rightarrow> job_status option \<Rightarrow> bool" where
  "job_edge manual None (Some y) \<longleftrightarrow> y = J_Pending"
| "job_edge manual (Some J_Dead) (Some y) \<longleftrightarrow> manual \<and> y = J_Pending"
| "job_edge manual (Some J_Pending) (Some y) \<longleftrightarrow> y = J_Processing"
| "job_edge manual (Some J_Retry) (Some y) \<longleftrightarrow> y = J_Processing"
| "job_edge manual (Some J_Leased) (Some y) \<longleftrightarrow> y \<in> {J_Processing, J_Retry, J_Dead}"
| "job_edge manual (Some J_Processing) (Some y) \<longleftrightarrow> y \<in> {J_Succeeded, J_Retry, J_Dead}"
| "job_edge manual _ _ \<longleftrightarrow> False"

definition job_final :: "bool \<Rightarrow> job_status option \<Rightarrow> bool" where
  "job_final manual x \<longleftrightarrow> x = Some J_Succeeded \<or> x = Some J_Cancelled \<or> \<not> manual \<and> x = Some J_Dead"

definition by_hand :: "knowledge_event \<Rightarrow> bool" where
  "by_hand e = (case e of Retry_Dead_Job _ _ _ \<Rightarrow> True | _ \<Rightarrow> False)"

definition event_allowed :: "bool \<Rightarrow> outbox_settings \<Rightarrow> knowledge_event \<Rightarrow> bool" where
  "event_allowed manual settings e \<longleftrightarrow> knowledge_admissible settings e \<and> (by_hand e \<longrightarrow> manual)"

lemma admissible_pos: "knowledge_admissible settings e \<Longrightarrow> 0 < knowledge_job_max_attempts settings"
  by (cases "(settings, e)" rule: knowledge_admissible.cases) auto

lemma knowledge_step_inv:
  assumes adm: "knowledge_admissible settings e" and inv: "kn_inv (knowledge_job_max_attempts settings) st"
  shows "kn_inv (knowledge_job_max_attempts settings) (knowledge_step settings st e)"
proof (cases e)
  case (Enqueue_Job now job_id uuid kb job_type key payload doc index mx)
  then show ?thesis using enqueue_kn_inv [OF inv] adm inv by simp
next
  case (Fail_Job now uuid jid worker error code retryable)
  then show ?thesis
    using inv fail_kn_inv [OF inv admissible_pos [OF adm]] by (auto split: option.split prod.split)
next
  case (Recover_Jobs now limit uuid)
  then show ?thesis using inv recover_rows(1) [OF admissible_pos [OF adm] inv] by simp
next
  case (Retry_Dead_Job now uuid jid)
  then show ?thesis
    using inv by (auto split: sum.split elim: retry_dead_kn_inv [OF inv admissible_pos [OF adm]])
next
  case (Outbox_Action a)
  have ob: "outbox_inv (knowledge_job_max_attempts settings) (kn_outbox st)" using inv by (simp add: kn_inv_def)
  have "kn_inv (knowledge_job_max_attempts settings) (st\<lparr>kn_outbox := outbox_step settings (kn_outbox st) a\<rparr>)"
  proof (rule kn_inv_outbox [OF inv])
    show "outbox_inv (knowledge_job_max_attempts settings) (outbox_step settings (kn_outbox st) a)"
      by (rule outbox.step_inv [OF admissible_pos [OF adm] ob])
    show "event_keys (ob_events (outbox_step settings (kn_outbox st) a)) \<subseteq>
        (case a of Enqueue now new_id aty ai t pl key av \<Rightarrow> {key} | _ \<Rightarrow> {}) \<union> event_keys (ob_events (kn_outbox st))"
      unfolding event_keys_def by (rule outbox_step_keys [OF ob])
    show "take 14 k \<noteq> ''knowledge-job:''" if "k \<in> (case a of Enqueue now new_id aty ai t pl key av \<Rightarrow> {key} | _ \<Rightarrow> {})" for k
      using that adm Outbox_Action by (cases a) auto
  qed
  then show ?thesis by (simp add: Outbox_Action)
qed (use inv claim_kn_inv heartbeat_kn_inv complete_kn_inv in simp_all)

lemma job_state_put: "fetch j_id (j_id job) (kn_jobs st) = Some old \<Longrightarrow>
    job_state i (put_job job ev st) = (if i = j_id job then Some (j_status job) else job_state i st)"
  by (simp add: job_state_def fetch_put_job)

lemma job_state_modify:
  assumes "\<And>job. j_id (f job) = j_id job"
  shows "job_state i (st\<lparr>kn_jobs := modify j_id jid f (kn_jobs st)\<rparr>) =
    (if i = jid then map_option (\<lambda>job. j_status (f job)) (fetch j_id i (kn_jobs st)) else job_state i st)"
  using assms by (simp add: job_state_def fetch_modify option.map_comp comp_def)

lemma claim_edge:
  assumes "job_state i (fst (claim_knowledge_job settings now jid worker st)) \<noteq> job_state i st"
  shows "job_edge manual (job_state i st) (job_state i (fst (claim_knowledge_job settings now jid worker st)))"
proof -
  from assms obtain job where row: "fetch j_id jid (kn_jobs st) = Some job" and c: "claimable now job"
    by (auto simp: claim_knowledge_job_def split: option.splits if_splits)
  have st': "job_state i (fst (claim_knowledge_job settings now jid worker st)) = (if i = jid then Some J_Processing else job_state i st)"
    using row c by (simp add: claim_knowledge_job_def job_state_modify)
  with assms have "i = jid" by (metis (full_types))
  then have "job_state i st = Some (j_status job)" using row by (simp add: job_state_def)
  moreover have "j_status job \<in> {J_Pending, J_Retry, J_Leased, J_Processing}" using c by (simp add: claimable_def)
  ultimately show ?thesis using st' assms \<open>i = jid\<close> by auto
qed

lemma complete_edge:
  assumes st'_def: "st' = st\<lparr>kn_jobs := modify j_id jid (\<lambda>job. fst (complete_knowledge_job now worker job)) (kn_jobs st)\<rparr>"
    and "job_state i st' \<noteq> job_state i st"
  shows "job_edge manual (job_state i st) (job_state i st')"
proof -
  have sel: "j_status (fst (complete_knowledge_job now worker job)) = (if owns_job worker job then J_Succeeded else j_status job)"
    "j_id (fst (complete_knowledge_job now worker job)) = j_id job" for job
    by (simp_all add: complete_knowledge_job_def)
  have eq: "job_state i st' = (if i = jid then map_option (\<lambda>job. if owns_job worker job then J_Succeeded else j_status job)
      (fetch j_id i (kn_jobs st)) else job_state i st)"
    unfolding st'_def by (subst job_state_modify) (simp_all add: sel)
  show ?thesis
  proof (cases "fetch j_id i (kn_jobs st)")
    case None
    then have "job_state i st = None" by (simp add: job_state_def)
    with None assms(2) eq show ?thesis by (simp split: if_splits)
  next
    case (Some job)
    then have "job_state i st = Some (j_status job)" by (simp add: job_state_def)
    with Some assms(2) eq show ?thesis by (auto simp: owns_job_def split: if_splits)
  qed
qed

lemma fail_edge:
  assumes row: "fetch j_id jid (kn_jobs st) = Some job"
    and f: "fail_knowledge_job settings now uuid worker error code retryable job events = (job1, events1, f)"
    and ne: "job_state i (put_job job1 events1 st) \<noteq> job_state i st"
  shows "job_edge manual (job_state i st) (job_state i (put_job job1 events1 st))"
proof -
  have id: "j_id job = jid" using fetch_SomeD [OF row] by simp
  have id1: "j_id job1 = jid" by (rule fail_cases [OF f]) (use id in simp_all)
  have st': "job_state i (put_job job1 events1 st) = (if i = jid then Some (j_status job1) else job_state i st)"
    using job_state_put [of job1 st job i events1] row id1 by simp
  with ne have i: "i = jid" by (metis (full_types))
  with row have old: "job_state i st = Some (j_status job)" by (simp add: job_state_def)
  from f show ?thesis
    by (cases rule: fail_cases) (use ne st' i old in \<open>simp_all add: owns_job_def\<close>)
qed

lemma recover_edge:
  assumes pos: "0 < m" and inv: "kn_inv m st" and fresh: "recover_ids_fresh now limit uuid st"
    and ne: "job_state i (fst (recover_stale_knowledge_jobs now limit uuid st)) \<noteq> job_state i st"
  shows "job_edge manual (job_state i st) (job_state i (fst (recover_stale_knowledge_jobs now limit uuid st)))"
proof -
  note rows = recover_rows(2) [OF pos inv fresh, of i]
  obtain job where row: "fetch j_id i (kn_jobs st) = Some job" "i \<in> set (map j_id (stale_jobs now limit st))"
    using ne rows by (auto simp: job_state_def split: option.splits if_splits)
  then obtain x where "x \<in> set (stale_jobs now limit st)" "j_id x = i" by auto
  with stale_jobs_rows(2) [OF inv, of x now limit] row have "stale_job now job" by auto
  with row rows show ?thesis by (auto simp: job_state_def stale_job_def)
qed

lemma retry_dead_edge:
  assumes pos: "0 < m" and inv: "kn_inv m st" and u: "uuid \<notin> set (event_ids st)"
    and r: "retry_dead_knowledge_job now uuid jid st = Inr (st', job1)" and ne: "job_state i st' \<noteq> job_state i st"
  shows "job_edge True (job_state i st) (job_state i st')"
proof -
  from retry_dead_kn_inv [OF inv pos u r] obtain job n where row: "fetch j_id jid (kn_jobs st) = Some job" "j_status job = J_Dead"
    and j1: "job1 = reopened_job now (n + 1) job"
    and st': "st' = put_job job1 (schedule_job_dispatch now uuid job1 (manual_reason (n + 1)) now (ob_events (kn_outbox st))) st"
    by metis
  have id1: "j_id job1 = jid" "j_status job1 = J_Pending" using fetch_SomeD [OF row(1)] by (simp_all add: j1 reopened_job_def)
  have "job_state i st' = (if i = jid then Some J_Pending else job_state i st)"
    unfolding st' by (subst job_state_put) (use row id1 in simp_all)
  with ne row show ?thesis by (auto simp: job_state_def)
qed

lemma knowledge_step_edge:
  assumes al: "event_allowed manual settings e" and inv: "kn_inv (knowledge_job_max_attempts settings) st"
    and ne: "job_state i (knowledge_step settings st e) \<noteq> job_state i st"
  shows "job_edge manual (job_state i st) (job_state i (knowledge_step settings st e))"
proof -
  have adm: "knowledge_admissible settings e" using al by (simp add: event_allowed_def)
  note pos = admissible_pos [OF adm]
  show ?thesis
  proof (cases e)
    case (Enqueue_Job now job_id uuid kb job_type key payload doc index mx)
    have fa: "fetch j_id i (xs @ [y]) = (case fetch j_id i xs of None \<Rightarrow> if j_id y = i then Some y else None | Some r \<Rightarrow> Some r)" for xs y
      by (induction xs) auto
    from ne show ?thesis
      by (auto simp: Enqueue_Job enqueue_knowledge_job_def job_state_def fa new_job_def Let_def split: option.splits if_splits)
  next
    case (Claim_Job now jid worker)
    with ne claim_edge show ?thesis by simp
  next
    case (Heartbeat_Job now jid worker)
    have "j_status (fst (heartbeat_knowledge_job settings now worker job)) = j_status job"
      "j_id (fst (heartbeat_knowledge_job settings now worker job)) = j_id job" for job
      by (simp_all add: heartbeat_knowledge_job_def)
    with ne show ?thesis by (simp add: Heartbeat_Job job_state_modify) (simp add: job_state_def split: if_splits)
  next
    case (Complete_Job now jid worker)
    with ne complete_edge show ?thesis by simp
  next
    case (Fail_Job now uuid jid worker error code retryable)
    with ne obtain job job1 events f where "fetch j_id jid (kn_jobs st) = Some job"
      "fail_knowledge_job settings now uuid worker error code retryable job (ob_events (kn_outbox st)) = (job1, events, f)"
      and st': "knowledge_step settings st e = put_job job1 events st"
      by (auto split: option.splits prod.splits if_splits)
    from fail_edge [OF this(1,2)] ne show ?thesis by (simp only: st')
  next
    case (Recover_Jobs now limit uuid)
    with ne recover_edge [OF pos inv] show ?thesis by (simp split: if_splits)
  next
    case (Retry_Dead_Job now uuid jid)
    with ne obtain st' job1 where r: "retry_dead_knowledge_job now uuid jid st = Inr (st', job1)" and u: "uuid \<notin> set (event_ids st)"
      and s': "knowledge_step settings st e = st'"
      by (auto split: sum.splits if_splits)
    from al have manual by (simp add: Retry_Dead_Job event_allowed_def by_hand_def)
    with retry_dead_edge [OF pos inv u r] ne show ?thesis by (simp add: s')
  next
    case (Outbox_Action a)
    with ne show ?thesis by (simp add: job_state_def)
  qed
qed

lemma job_final_stuck: "job_final manual x \<Longrightarrow> \<not> job_edge manual x y"
  by (cases y) (auto simp: job_final_def)

interpretation jobs: status_machine "knowledge_step settings" "event_allowed manual settings"
  "kn_inv (knowledge_job_max_attempts settings)" "job_state i" "job_edge manual" "job_final manual"
  for settings manual i
  by unfold_locales
    (auto simp: event_allowed_def knowledge_step_inv job_final_stuck intro!: knowledge_step_edge)

section \<open>Properties\<close>


text \<open>A job for the witnesses, held by a worker for the first time, in an empty outbox.\<close>

definition sample_job :: ingestion_job where
  "sample_job = (new_job sample_outbox_settings 0 ''j'' ''kb'' ''ingest'' ''k'' [] None None None)
     \<lparr>j_status := J_Processing, j_attempt_count := 1, j_lease_owner := Some ''w'', j_lease_until := Some 50\<rparr>"

definition sample_knowledge :: knowledge where
  "sample_knowledge = \<lparr>kn_jobs = [sample_job], kn_outbox = \<lparr>ob_events = [], ob_stream = []\<rparr>\<rparr>"

lemma sample_knowledge_inv: "kn_inv 5 sample_knowledge"
  by (simp add: kn_inv_def sample_knowledge_def sample_job_def new_job_def job_ok_def manual_count_def dict_get_def
      int_or_def outbox_inv_def event_keys_def dispatch_open_def sample_outbox_settings_def)

lemma sample_max_attempts: "knowledge_job_max_attempts sample_outbox_settings = 5"
  by (simp add: sample_outbox_settings_def)


lemma claimable_iff:
  "claimable now job \<longleftrightarrow> (case j_next_attempt_at job of None \<Rightarrow> True | Some t \<Rightarrow> t \<le> now) \<and>
     (j_status job \<in> {J_Pending, J_Retry} \<or> j_status job \<in> {J_Leased, J_Processing} \<and>
       (case j_lease_until job of None \<Rightarrow> True | Some t \<Rightarrow> t \<le> now))"
  by (cases "j_status job") (auto simp: claimable_def TERMINAL_JOB_STATUSES_def split: option.splits)

text \<open>
  A worker gets a job exactly when it waits and is due, or the lease of its holder has
  run out. Whoever got it holds it alone for the configured time: until then every other claim
  is refused, and what another worker reports about the job changes nothing.
\<close>

theorem claim_exclusive:
  assumes "claim_knowledge_job settings now jid w st = (st', answer)"
  shows "(answer \<noteq> None) = (case fetch j_id jid (kn_jobs st) of None \<Rightarrow> False | Some job \<Rightarrow>
      (case j_next_attempt_at job of None \<Rightarrow> True | Some t \<Rightarrow> t \<le> now) \<and>
      (j_status job \<in> {J_Pending, J_Retry} \<or> j_status job \<in> {J_Leased, J_Processing} \<and>
        (case j_lease_until job of None \<Rightarrow> True | Some t \<Rightarrow> t \<le> now))) \<and>
    (case answer of None \<Rightarrow> st' = st
    | Some job \<Rightarrow> fetch j_id jid (kn_jobs st') = Some job \<and> owns_job w job \<and>
        j_lease_until job = Some (now + seconds (knowledge_job_lease_seconds settings)) \<and>
        (now' < now + seconds (knowledge_job_lease_seconds settings) \<longrightarrow>
           claim_knowledge_job settings now' jid w' st' = (st', None)) \<and>
        (w' \<noteq> w \<longrightarrow> heartbeat_knowledge_job settings now' w' job = (job, False) \<and>
           complete_knowledge_job now' w' job = (job, False) \<and>
           (case fail_knowledge_job settings now' uuid w' err code retryable job events of
              (job1, events1, f) \<Rightarrow> job1 = job \<and> events1 = events)))"
proof (cases "\<exists>job. fetch j_id jid (kn_jobs st) = Some job \<and> claimable now job")
  case True
  then obtain job where row: "fetch j_id jid (kn_jobs st) = Some job" and c: "claimable now job" by blast
  let ?job = "take_job settings now w job"
  have st': "st' = st\<lparr>kn_jobs := modify j_id jid (take_job settings now w) (kn_jobs st)\<rparr>" and ans: "answer = Some ?job"
    using assms row c by (simp_all add: claim_knowledge_job_def)
  have row': "fetch j_id jid (kn_jobs st') = Some ?job" using row by (simp add: st' fetch_modify)
  have own: "owns_job w ?job" by (simp add: owns_job_def)
  have "claim_knowledge_job settings now' jid w' st' = (st', None)"
    if "now' < now + seconds (knowledge_job_lease_seconds settings)"
    using row' that by (simp add: claim_knowledge_job_def claimable_def)
  moreover have "\<not> owns_job w' ?job" if "w' \<noteq> w" using that by (simp add: owns_job_def)
  ultimately show ?thesis
    using c row row' own ans
    by (auto simp: claimable_iff heartbeat_knowledge_job_def complete_knowledge_job_def fail_knowledge_job_def)
next
  case False
  then have "answer = None" "st' = st" using assms by (auto simp: claim_knowledge_job_def split: option.splits if_splits)
  moreover have "\<not> claimable now job" if "fetch j_id jid (kn_jobs st) = Some job" for job using False that by blast
  ultimately show ?thesis unfolding claimable_iff by (simp split: option.split)
qed

theorem claim_exclusive_witness:
  "snd (claim_knowledge_job sample_outbox_settings 60 ''j'' ''v'' sample_knowledge) \<noteq> None"
  using claim_exclusive [OF surjective_pairing, of sample_outbox_settings 60 "''j''" "''v''" sample_knowledge]
  by (simp add: sample_knowledge_def sample_job_def new_job_def)

text \<open>
  As long as a job was not revived by hand, every failed attempt that may be retried
  leaves it waiting with a new event in the outbox: pending, for this job, due exactly when the
  job is, after a delay between the configured base and an hour.
\<close>

theorem failed_attempt_dispatched:
  assumes inv: "kn_inv m st" and row: "fetch j_id jid (kn_jobs st) = Some job" and own: "owns_job w job"
    and left: "attempts_left job" and first: "manual_count job = Inr 0"
    and base: "0 < knowledge_retry_base_seconds settings" "knowledge_retry_base_seconds settings \<le> 3600"
  shows "case fail_knowledge_job settings now uuid w err code True job (ob_events (kn_outbox st)) of (job1, events, f) \<Rightarrow>
    \<exists>e t. events = ob_events (kn_outbox st) @ [e] \<and> e_status e = Ob_Pending \<and> e_aggregate_id e = jid \<and> e_id e = uuid \<and>
      e_available_at e = t \<and> j_next_attempt_at job1 = Some t \<and> j_status job1 = J_Retry \<and> jf_status f = J_Retry \<and>
      now + seconds (knowledge_retry_base_seconds settings) \<le> t \<and> t \<le> now + seconds 3600"
proof -
  obtain job1 events f where res: "fail_knowledge_job settings now uuid w err code True job (ob_events (kn_outbox st)) = (job1, events, f)"
    by (metis prod_cases3)
  have id: "j_id job = jid" and mem: "job \<in> set (kn_jobs st)" using fetch_SomeD [OF row] by auto
  have "dispatch_open (event_keys (ob_events (kn_outbox st))) job"
    using inv mem first by (simp add: kn_inv_def list_all_iff)
  moreover have "next_dispatch job = j_attempt_count job" using own by (simp add: next_dispatch_def owns_job_def)
  ultimately have new: "dispatch_key jid (j_attempt_count job) ''retry'' \<notin> event_keys (ob_events (kn_outbox st))"
    using id by (simp add: dispatch_open_def)
  let ?d = "knowledge_retry_base_seconds settings * 2 ^ nat (max 0 (j_attempt_count job - 1))"
  have "knowledge_retry_base_seconds settings * 1 \<le> ?d" using base(1) by (intro mult_left_mono) simp_all
  then have delay: "seconds (knowledge_retry_base_seconds settings) \<le> job_retry_delay settings (j_attempt_count job)"
    "job_retry_delay settings (j_attempt_count job) \<le> seconds 3600"
    using base(2) by (simp_all add: job_retry_delay_def seconds_def)
  from res show ?thesis
  proof (cases rule: fail_cases)
    case (retry t)
    have "fetch e_idempotency_key (dispatch_key jid (j_attempt_count job) ''retry'') (ob_events (kn_outbox st)) = None"
      using new by (simp add: fetch_None_iff event_keys_def)
    then obtain pl where "events = ob_events (kn_outbox st) @ [outbox_row now uuid ''knowledge_job'' jid ''knowledge.job.ready''
        pl (dispatch_key jid (j_attempt_count job) ''retry'') (Some t)]" (is "_ = _ @ [?e]")
      using retry(5,10,13) id by (simp add: schedule_job_dispatch_def enqueue_outbox_event_def Let_def)
    moreover have "e_status ?e = Ob_Pending" "e_aggregate_id ?e = jid" "e_id ?e = uuid" "e_available_at ?e = t"
      by (simp_all add: outbox_row_def)
    ultimately show ?thesis using retry(4,6,7,15) delay unfolding res prod.case by auto
  qed (use own left in simp_all)
qed

theorem failed_attempt_dispatched_witness:
  "case fail_knowledge_job sample_outbox_settings 10 ''u'' ''w'' ''boom'' ''handler_failed'' True sample_job [] of (job1, events, f) \<Rightarrow>
     \<exists>e t. events = [e] \<and> e_status e = Ob_Pending \<and> e_available_at e = t \<and> j_next_attempt_at job1 = Some t"
proof -
  have "fetch j_id ''j'' (kn_jobs sample_knowledge) = Some sample_job" "ob_events (kn_outbox sample_knowledge) = []"
    "owns_job ''w'' sample_job" "attempts_left sample_job" "manual_count sample_job = Inr 0"
    by (simp_all add: sample_knowledge_def sample_job_def new_job_def owns_job_def attempts_left_def manual_count_def
        dict_get_def int_or_def sample_outbox_settings_def)
  from failed_attempt_dispatched [OF sample_knowledge_inv this(1,3-5),
      where settings = sample_outbox_settings and now = 10 and uuid = "''u''" and err = "''boom''" and code = "''handler_failed''"] this(2)
  show ?thesis by (auto simp: sample_outbox_settings_def)
qed

text \<open>
  A sweep with a large enough limit leaves no job behind whose worker lost its
  lease: each is dead when its attempts are used up, and otherwise waits, due at once, with a
  dispatch of its attempt in the outbox. No other job is touched.
\<close>

theorem recover_sweep:
  assumes inv: "kn_inv m st" and m: "0 < m" and fresh: "recover_ids_fresh now limit uuid st"
    and limit: "length (kn_jobs st) \<le> limit" and row: "fetch j_id i (kn_jobs st) = Some job"
  shows "let lost = (\<lambda>j. (j_status j = J_Leased \<or> j_status j = J_Processing) \<and>
        (case j_lease_until j of None \<Rightarrow> True | Some t \<Rightarrow> t \<le> now))
    in \<exists>job'. fetch j_id i (kn_jobs (fst (recover_stale_knowledge_jobs now limit uuid st))) = Some job' \<and> \<not> lost job' \<and>
      (if \<not> lost job then job' = job
       else if j_attempt_count job < j_max_attempts job
       then j_status job' = J_Retry \<and> j_next_attempt_at job' = Some now
       else j_status job' = J_Dead \<and> j_completed_at job' = Some now)"
proof -
  have lost: "(j_status j = J_Leased \<or> j_status j = J_Processing) \<and> (case j_lease_until j of None \<Rightarrow> True | Some t \<Rightarrow> t \<le> now)
      \<longleftrightarrow> stale_job now j" for j by (auto simp: stale_job_def)
  have stale: "stale_jobs now limit st = sort_key recover_order (filter (stale_job now) (kn_jobs st))"
    using limit le_trans [OF length_filter_le limit] by (simp add: stale_jobs_def)
  have d: "distinct (map j_id (kn_jobs st))" using inv by (simp add: kn_inv_def)
  have mem: "job \<in> set (kn_jobs st)" "j_id job = i" using fetch_SomeD [OF row] by auto
  have left: "attempts_left job \<longleftrightarrow> j_attempt_count job < j_max_attempts job"
    using job_ok_row [OF inv row] by (simp add: attempts_left_def job_ok_def)
  have "i \<in> set (map j_id (stale_jobs now limit st)) \<longleftrightarrow> stale_job now job"
    using d mem by (auto simp: stale distinct_map inj_on_def)
  moreover have "\<not> stale_job now (recover_job now job)" by (simp add: stale_job_def)
  ultimately show ?thesis
    unfolding Let_def lost using recover_rows(2) [OF m inv fresh, of i] row left
    by (cases "stale_job now job") (simp_all add: recover_job_def Let_def)
qed

theorem recover_sweep_witness:
  "\<exists>job'. fetch j_id ''j'' (kn_jobs (fst (recover_stale_knowledge_jobs 60 100 (\<lambda>_. ''u'') sample_knowledge))) = Some job' \<and>
     j_status job' = J_Retry"
proof -
  have st: "stale_job 60 sample_job" "attempts_left sample_job"
    by (simp_all add: stale_job_def sample_job_def new_job_def attempts_left_def sample_outbox_settings_def)
  have "recover_ids_fresh 60 100 (\<lambda>_. ''u'') sample_knowledge"
    by (simp add: recover_ids_fresh_def stale_jobs_def sample_knowledge_def event_ids_def st)
  moreover have "fetch j_id ''j'' (kn_jobs sample_knowledge) = Some sample_job"
    by (simp add: sample_knowledge_def sample_job_def new_job_def)
  ultimately show ?thesis
    using recover_sweep [OF sample_knowledge_inv, of 60 100 "\<lambda>_. ''u''" "''j''" sample_job]
    by (auto simp: sample_knowledge_def sample_job_def new_job_def sample_outbox_settings_def Let_def)
qed

text \<open>
  The life of a job that is killed, revived by hand, and fails once more: two attempts allowed,
  every message published.
\<close>

definition revival_run :: "knowledge_event list" where
  "revival_run =
     [Enqueue_Job 0 ''j'' ''u1'' ''kb'' ''ingest'' ''k'' [] None None (Some 2),
      Outbox_Action (Relay (\<lambda>_. Published) 1 ''r''),
      Claim_Job 2 ''j'' ''w'', Fail_Job 3 ''u2'' ''j'' ''w'' ''boom'' ''handler_failed'' True,
      Outbox_Action (Relay (\<lambda>_. Published) 6000000 ''r''),
      Claim_Job 6000001 ''j'' ''w'', Fail_Job 6000002 ''u3'' ''j'' ''w'' ''boom'' ''handler_failed'' True,
      Retry_Dead_Job 7000000 ''u4'' ''j'',
      Outbox_Action (Relay (\<lambda>_. Published) 7000001 ''r''),
      Claim_Job 7000002 ''j'' ''w'', Fail_Job 7000003 ''u5'' ''j'' ''w'' ''boom'' ''handler_failed'' True]"


end
