(* ===== verification/Knowledge_Worker.thy ===== *)
theory Knowledge_Worker
  imports Knowledge_Jobs
begin

text \<open>
  The worker that consumes the stream (\<open>services/knowledge_worker_service.py\<close>, with the message
  functions of \<open>services/knowledge_queue.py\<close>): decoding, dispatch on the event type, and the whole
  life of one delivery of a Knowledge job, from the claim to the acknowledgement.
\<close>

section \<open>Messages\<close>

record queue_message =
  qm_stream_id :: string
  qm_event_id :: string
  qm_event_type :: string
  qm_aggregate_type :: string
  qm_aggregate_id :: string
  qm_payload :: payload

record dead_letter =
  dl_source_stream_id :: string
  dl_event_id :: string
  dl_event_type :: string
  dl_aggregate_type :: string
  dl_aggregate_id :: string
  dl_payload :: payload
  dl_error :: string

definition field_text :: "(string \<times> string) list \<Rightarrow> string \<Rightarrow> string" where
  "field_text flds k = (case map_of flds k of None \<Rightarrow> [] | Some s \<Rightarrow> s)"

text \<open>\<open>loads\<close> is the JSON parser: None where it raises.\<close>

definition decode_message :: "(string \<Rightarrow> json option) \<Rightarrow> string \<Rightarrow> (string \<times> string) list \<Rightarrow> queue_message" where
  "decode_message loads stream_id flds =
     (let raw = (if field_text flds ''payload_json'' = [] then ''{}'' else field_text flds ''payload_json'');
          payload = (case loads raw of
             None \<Rightarrow> [(''_invalid_payload'', JString raw)]
           | Some (JObject d) \<Rightarrow> d
           | Some v \<Rightarrow> [(''value'', v)])
      in \<lparr>qm_stream_id = stream_id, qm_event_id = field_text flds ''event_id'',
          qm_event_type = field_text flds ''event_type'', qm_aggregate_type = field_text flds ''aggregate_type'',
          qm_aggregate_id = field_text flds ''aggregate_id'', qm_payload = payload\<rparr>)"

text \<open>\<open>str(value or other or "")\<close> for a value of a payload; \<open>repr\<close> prints lists and objects.\<close>

definition py_str :: "(json \<Rightarrow> string) \<Rightarrow> json \<Rightarrow> string" where
  "py_str repr v = (case v of JNull \<Rightarrow> ''None'' | JBool b \<Rightarrow> (if b then ''True'' else ''False'')
     | JInt i \<Rightarrow> show_int i | JString s \<Rightarrow> s | _ \<Rightarrow> repr v)"

definition text_or :: "(json \<Rightarrow> string) \<Rightarrow> json \<Rightarrow> string \<Rightarrow> string" where
  "text_or repr v other = (if json_truthy v then py_str repr v else other)"

section \<open>State\<close>

record sync_run =
  sr_id :: string
  sr_status :: string
  sr_error_message :: "string option"
  sr_completed_at :: "time option"

record document_version =
  dv_id :: string
  dv_status :: string
  dv_failure_reason :: "string option"

record index_version =
  iv_id :: string
  iv_status :: string
  iv_active_scope_key :: "string option"
  iv_failure_reason :: "string option"

text \<open>The database as the worker sees it, the acknowledged stream ids and the dead letters.\<close>

record worker_env =
  we_kn :: knowledge
  we_sync_runs :: "sync_run list"
  we_documents :: "document_version list"
  we_indexes :: "index_version list"
  we_acked :: "string list"
  we_dead_letters :: "dead_letter list"

record process_result =
  pr_outcome :: string
  pr_job_id :: "string option"
  pr_error :: "string option"

text \<open>
  A handler of a job type: what the database is when it has returned (with everything that
  other workers did in the meantime), and the exception it raised, if any.
\<close>

type_synonym handler = "ingestion_job \<Rightarrow> worker_env \<Rightarrow> worker_env \<times> string option"

definition publish_dead_letter :: "queue_message \<Rightarrow> string \<Rightarrow> worker_env \<Rightarrow> worker_env" where
  "publish_dead_letter msg error env =
     env\<lparr>we_dead_letters := we_dead_letters env @
       [\<lparr>dl_source_stream_id = qm_stream_id msg, dl_event_id = qm_event_id msg, dl_event_type = qm_event_type msg,
         dl_aggregate_type = qm_aggregate_type msg, dl_aggregate_id = qm_aggregate_id msg,
         dl_payload = qm_payload msg, dl_error = clip 4000 error\<rparr>]\<rparr>"

definition acknowledge_message :: "string \<Rightarrow> worker_env \<Rightarrow> worker_env" where
  "acknowledge_message stream_id env = env\<lparr>we_acked := we_acked env @ [stream_id]\<rparr>"

definition reject_message :: "queue_message \<Rightarrow> string option \<Rightarrow> string \<Rightarrow> worker_env \<Rightarrow> worker_env \<times> process_result" where
  "reject_message msg job_id error env =
     (acknowledge_message (qm_stream_id msg) (publish_dead_letter msg error env),
      \<lparr>pr_outcome = ''dead'', pr_job_id = job_id, pr_error = Some error\<rparr>)"

definition status_text :: "job_status \<Rightarrow> string" where
  "status_text s = (case s of J_Pending \<Rightarrow> ''pending'' | J_Leased \<Rightarrow> ''leased'' | J_Processing \<Rightarrow> ''processing''
     | J_Retry \<Rightarrow> ''retry'' | J_Succeeded \<Rightarrow> ''succeeded'' | J_Dead \<Rightarrow> ''dead'' | J_Cancelled \<Rightarrow> ''cancelled'')"

section \<open>One delivery of a Knowledge job\<close>

text \<open>The heartbeat period of the worker, in seconds.\<close>

definition heartbeat_interval :: "outbox_settings \<Rightarrow> int" where
  "heartbeat_interval settings = max 1 (knowledge_job_lease_seconds settings div 3)"

text \<open>What the worker marks as failed together with a dead job.\<close>

definition fail_dependents :: "(json \<Rightarrow> string) \<Rightarrow> time \<Rightarrow> string \<Rightarrow> ingestion_job \<Rightarrow> worker_env \<Rightarrow> worker_env" where
  "fail_dependents repr now failure job env =
     (let run_id = text_or repr (dict_get (j_payload job) ''sync_run_id'') [];
          env1 = (if run_id = [] then env
             else env\<lparr>we_sync_runs := modify sr_id run_id
                    (\<lambda>r. r\<lparr>sr_status := ''failed'', sr_error_message := Some (clip 8000 failure), sr_completed_at := Some now\<rparr>)
                    (we_sync_runs env)\<rparr>);
          env2 = (if \<not> truthy (j_document_version_id job) then env1
             else env1\<lparr>we_documents := modify dv_id (the (j_document_version_id job))
                    (\<lambda>v. if dv_status v \<in> {''uploaded'', ''quarantined'', ''processing''}
                      then v\<lparr>dv_status := ''failed'',
                             dv_failure_reason := Some (''Processing retries exhausted: '' @ clip 7900 failure)\<rparr> else v)
                    (we_documents env1)\<rparr>)
      in if \<not> truthy (j_index_version_id job) then env2
         else env2\<lparr>we_indexes := modify iv_id (the (j_index_version_id job))
                (\<lambda>v. if iv_status v \<noteq> ''active''
                  then v\<lparr>iv_status := ''failed'', iv_active_scope_key := None,
                         iv_failure_reason := Some (''Indexing retries exhausted: '' @ clip 7900 failure)\<rparr> else v)
                (we_indexes env2)\<rparr>)"

text \<open>The job is executed: the handler of its type, and the exception that ends the attempt.\<close>

definition run_handler ::
    "(string \<Rightarrow> handler option) \<Rightarrow> ingestion_job \<Rightarrow> worker_env \<Rightarrow> worker_env \<times> string option \<times> bool" where
  "run_handler handlers job env =
     (case handlers (j_job_type job) of
        None \<Rightarrow> (env, Some (''Unsupported Knowledge job type: '' @ j_job_type job), False)
      | Some handler \<Rightarrow>
          (case fetch j_id (j_id job) (kn_jobs (we_kn env)) of
             None \<Rightarrow> (env, Some ''Knowledge job disappeared during execution'', True)
           | Some current \<Rightarrow> let (env1, failure) = handler current env in (env1, failure, True)))"

text \<open>The success is recorded, unless the job is gone or no longer the worker's.\<close>

definition record_success :: "time \<Rightarrow> string \<Rightarrow> string \<Rightarrow> worker_env \<Rightarrow> worker_env \<times> string option" where
  "record_success now worker jid env =
     (case fetch j_id jid (kn_jobs (we_kn env)) of
        None \<Rightarrow> (env, Some ''Knowledge job lease was lost before completion'')
      | Some current \<Rightarrow>
          let (job1, ok) = complete_knowledge_job now worker current
          in if ok then (env\<lparr>we_kn := put_job job1 (ob_events (kn_outbox (we_kn env))) (we_kn env)\<rparr>, None)
             else (env, Some ''Knowledge job lease was lost before completion''))"

definition record_failed_attempt ::
    "outbox_settings \<Rightarrow> (json \<Rightarrow> string) \<Rightarrow> time \<Rightarrow> string \<Rightarrow> string \<Rightarrow> string \<Rightarrow> bool \<Rightarrow> string \<Rightarrow> worker_env
      \<Rightarrow> worker_env \<times> job_status" where
  "record_failed_attempt settings repr now uuid worker failure retryable jid env =
     (case fetch j_id jid (kn_jobs (we_kn env)) of
        None \<Rightarrow> (env, J_Dead)
      | Some current \<Rightarrow>
          let (job1, events, res) = fail_knowledge_job settings now uuid worker failure ''handler_failed'' retryable current
                (ob_events (kn_outbox (we_kn env)));
              env1 = env\<lparr>we_kn := put_job job1 events (we_kn env)\<rparr>
          in (if jf_status res = J_Dead then fail_dependents repr now failure job1 env1 else env1, jf_status res))"

definition process_knowledge_job ::
    "outbox_settings \<Rightarrow> (json \<Rightarrow> string) \<Rightarrow> (string \<Rightarrow> handler option) \<Rightarrow> time \<Rightarrow> time \<Rightarrow> string \<Rightarrow> string
      \<Rightarrow> queue_message \<Rightarrow> worker_env \<Rightarrow> worker_env \<times> process_result" where
  "process_knowledge_job settings repr handlers start now uuid worker msg env =
     (let jid = text_or repr (dict_get (qm_payload msg) ''job_id'') (qm_aggregate_id msg)
      in if jid = [] then reject_message msg None ''Knowledge queue message does not identify a job'' env
         else
           let (kn1, claimed) = claim_knowledge_job settings start jid worker (we_kn env);
               env1 = env\<lparr>we_kn := kn1\<rparr>
           in (case claimed of
                 None \<Rightarrow>
                   (case fetch j_id jid (kn_jobs kn1) of
                      None \<Rightarrow> reject_message msg (Some jid) (''Knowledge job not found: '' @ jid) env1
                    | Some _ \<Rightarrow> (acknowledge_message (qm_stream_id msg) env1,
                        \<lparr>pr_outcome = ''duplicate'', pr_job_id = Some jid, pr_error = None\<rparr>))
               | Some job \<Rightarrow>
                   let (env2, failure, retryable) = run_handler handlers job env1;
                       (env3, failure3) = (case failure of
                          None \<Rightarrow> record_success now worker (j_id job) env2
                        | Some e \<Rightarrow> (env2, Some e))
                   in (case failure3 of
                         None \<Rightarrow> (acknowledge_message (qm_stream_id msg) env3,
                           \<lparr>pr_outcome = ''succeeded'', pr_job_id = Some (j_id job), pr_error = None\<rparr>)
                       | Some e \<Rightarrow>
                           let (env4, status) = record_failed_attempt settings repr now uuid worker e retryable (j_id job) env3;
                               env5 = (if status = J_Dead then publish_dead_letter msg e env4 else env4)
                           in (acknowledge_message (qm_stream_id msg) env5,
                               \<lparr>pr_outcome = status_text status, pr_job_id = Some (j_id job), pr_error = Some e\<rparr>))))"

text \<open>
  The dispatch on the event type. The other consumers (memory extraction of users and projects,
  chat summaries, chat index, deletion of vectors) are parameters.
\<close>

definition process_message ::
    "(string \<Rightarrow> queue_message \<Rightarrow> worker_env \<Rightarrow> worker_env \<times> process_result) \<Rightarrow>
     (queue_message \<Rightarrow> worker_env \<Rightarrow> worker_env \<times> process_result) \<Rightarrow> queue_message \<Rightarrow> worker_env
      \<Rightarrow> worker_env \<times> process_result" where
  "process_message other knowledge_job msg env =
     (if qm_event_type msg \<in> {''memory.job.ready'', ''project_memory.job.ready'', ''chat_summary.job.ready'',
            ''chat_index.job.ready'', ''chat_recall.vectors.drop''}
      then other (qm_event_type msg) msg env
      else if qm_event_type msg \<noteq> ''knowledge.job.ready''
      then reject_message msg None (''Unsupported Knowledge event type: '' @ qm_event_type msg) env
      else knowledge_job msg env)"

section \<open>What a delivery leaves behind\<close>

lemma fail_dependents_sel [simp]:
  "we_kn (fail_dependents repr now e job env) = we_kn env" "we_acked (fail_dependents repr now e job env) = we_acked env"
  "we_dead_letters (fail_dependents repr now e job env) = we_dead_letters env"
  by (simp_all add: fail_dependents_def Let_def)

lemma letters_simps [simp]:
  "we_acked (publish_dead_letter msg e env) = we_acked env" "we_kn (publish_dead_letter msg e env) = we_kn env"
  "we_acked (acknowledge_message i env) = we_acked env @ [i]" "we_kn (acknowledge_message i env) = we_kn env"
  "we_dead_letters (acknowledge_message i env) = we_dead_letters env"
  by (simp_all add: publish_dead_letter_def acknowledge_message_def)

lemma record_success_cases:
  assumes "record_success now worker jid env = (env1, failure)"
  obtains (finished) job where "failure = None" "fetch j_id jid (kn_jobs (we_kn env)) = Some job" "owns_job worker job"
      "env1 = env\<lparr>we_kn := put_job (fst (complete_knowledge_job now worker job)) (ob_events (kn_outbox (we_kn env))) (we_kn env)\<rparr>"
  | (lost) "failure = Some ''Knowledge job lease was lost before completion''" "env1 = env"
  using assms by (auto simp: record_success_def complete_knowledge_job_def split: option.splits prod.splits if_splits)

lemma record_failed_sel:
  assumes "record_failed_attempt settings repr now uuid worker e retryable jid env = (env1, status)"
  shows "we_acked env1 = we_acked env" "we_dead_letters env1 = we_dead_letters env"
    and "job_state jid (we_kn env1) = (if job_state jid (we_kn env) = None then None else Some status)"
    and "job_state jid (we_kn env) = None \<Longrightarrow> status = J_Dead"
proof -
  show "we_acked env1 = we_acked env" "we_dead_letters env1 = we_dead_letters env"
    using assms by (auto simp: record_failed_attempt_def Let_def split: option.splits prod.splits)
  show "job_state jid (we_kn env) = None \<Longrightarrow> status = J_Dead"
    using assms by (auto simp: record_failed_attempt_def job_state_def)
  show "job_state jid (we_kn env1) = (if job_state jid (we_kn env) = None then None else Some status)"
  proof (cases "fetch j_id jid (kn_jobs (we_kn env))")
    case None
    with assms show ?thesis by (simp add: record_failed_attempt_def job_state_def)
  next
    case (Some job)
    obtain job1 events f where res: "fail_knowledge_job settings now uuid worker e ''handler_failed'' retryable job
        (ob_events (kn_outbox (we_kn env))) = (job1, events, f)" by (metis prod_cases3)
    have id: "j_id job = jid" using fetch_SomeD [OF Some] by simp
    from res have f: "jf_status f = j_status job1" "j_id job1 = jid" by (cases rule: fail_cases; simp add: id)+
    have "we_kn env1 = put_job job1 events (we_kn env)" "status = j_status job1"
      using assms Some res f by (auto simp: record_failed_attempt_def Let_def)
    with job_state_put [of job1 "we_kn env" job jid events] Some f(2) show ?thesis by (simp add: job_state_def)
  qed
qed

text \<open>
  The end of a delivery whose job was claimed: the environment in which the last record was
  made, and what was published.
\<close>

lemma delivery_cases:
  assumes "process_knowledge_job settings repr handlers start now uuid worker msg env = (env', res)"
  obtains (no_job) error jid kn1 where "env' = acknowledge_message (qm_stream_id msg) (publish_dead_letter msg error (env\<lparr>we_kn := kn1\<rparr>))"
      "pr_outcome res = ''dead''" "pr_error res = Some error" "pr_job_id res = None \<or>
        pr_job_id res = Some jid \<and> fetch j_id jid (kn_jobs kn1) = None"
  | (duplicate) jid where "env' = acknowledge_message (qm_stream_id msg) env" "pr_outcome res = ''duplicate''" "pr_job_id res = Some jid"
  | (succeeded) job env1 env2 env3 rt where "claim_knowledge_job settings start (j_id job) worker (we_kn env) = (we_kn env1, Some job)"
      "env1 = env\<lparr>we_kn := we_kn env1\<rparr>" "run_handler handlers job env1 = (env2, None, rt)"
      "record_success now worker (j_id job) env2 = (env3, None)"
      "env' = acknowledge_message (qm_stream_id msg) env3" "pr_outcome res = ''succeeded''" "pr_job_id res = Some (j_id job)"
  | (failed) job env1 env2 env3 env4 rt failure e status where
      "claim_knowledge_job settings start (j_id job) worker (we_kn env) = (we_kn env1, Some job)"
      "env1 = env\<lparr>we_kn := we_kn env1\<rparr>" "run_handler handlers job env1 = (env2, failure, rt)"
      "failure = None \<and> record_success now worker (j_id job) env2 = (env3, Some e) \<or> failure = Some e \<and> env3 = env2"
      "record_failed_attempt settings repr now uuid worker e rt (j_id job) env3 = (env4, status)"
      "env' = acknowledge_message (qm_stream_id msg) (if status = J_Dead then publish_dead_letter msg e env4 else env4)"
      "pr_outcome res = status_text status" "pr_job_id res = Some (j_id job)" "pr_error res = Some e"
proof -
  define jid where "jid = text_or repr (dict_get (qm_payload msg) ''job_id'') (qm_aggregate_id msg)"
  show ?thesis
  proof (cases "jid = []")
    case True
    then show ?thesis using assms
      by (intro no_job [of "''Knowledge queue message does not identify a job''" "we_kn env"])
        (auto simp: process_knowledge_job_def reject_message_def Let_def simp flip: jid_def)
  next
    case False
    obtain kn1 claimed where cl: "claim_knowledge_job settings start jid worker (we_kn env) = (kn1, claimed)" by (rule prod.exhaust)
    let ?env1 = "env\<lparr>we_kn := kn1\<rparr>"
    show ?thesis
    proof (cases claimed)
      case None
      then have kn1: "kn1 = we_kn env" using cl by (auto simp: claim_knowledge_job_def split: option.splits if_splits)
      show ?thesis
      proof (cases "fetch j_id jid (kn_jobs kn1)")
        case fn: None
        show ?thesis
          by (rule no_job [of "''Knowledge job not found: '' @ jid" kn1 jid])
            (use assms False cl None fn in \<open>auto simp: process_knowledge_job_def reject_message_def Let_def simp flip: jid_def\<close>)
      next
        case (Some j)
        show ?thesis
          by (rule duplicate [of jid])
            (use assms False cl None Some kn1 in \<open>auto simp: process_knowledge_job_def Let_def simp flip: jid_def\<close>)
      qed
    next
      case (Some job)
      have id: "j_id job = jid" using cl Some by (auto simp: claim_knowledge_job_def dest: fetch_SomeD split: option.splits if_splits)
      obtain env2 failure rt where h: "run_handler handlers job ?env1 = (env2, failure, rt)" by (metis prod_cases3)
      obtain env3 failure3 where s: "(case failure of None \<Rightarrow> record_success now worker (j_id job) env2 | Some e \<Rightarrow> (env2, Some e))
          = (env3, failure3)" by (rule prod.exhaust)
      show ?thesis
      proof (cases failure3)
        case None
        then have f: "failure = None" using s by (auto split: option.splits)
        show ?thesis
          by (rule succeeded [of job ?env1 env2 rt env3])
            (use assms False cl Some h s None f id in \<open>auto simp: process_knowledge_job_def Let_def simp flip: jid_def\<close>)
      next
        case (Some e)
        obtain env4 status where r: "record_failed_attempt settings repr now uuid worker e rt (j_id job) env3 = (env4, status)"
          by (rule prod.exhaust)
        show ?thesis
          by (rule failed [of job ?env1 env2 failure rt env3 e env4 status])
            (use assms False cl \<open>claimed = Some job\<close> h s Some r id in
              \<open>auto simp: process_knowledge_job_def Let_def split: option.splits simp flip: jid_def\<close>)
      qed
    qed
  qed
qed

lemma status_text_dead [simp]: "status_text s = ''dead'' \<longleftrightarrow> s = J_Dead"
  by (cases s) (simp_all add: status_text_def)

section \<open>Properties\<close>

text \<open>
  Whatever happens to a delivery, its message is acknowledged exactly once, and it leaves
  a dead letter, naming the message and carrying the error, exactly when the outcome is dead. The
  handlers are not expected to touch the stream themselves.
\<close>

theorem delivery_accounted:
  assumes res: "process_knowledge_job settings repr handlers start now uuid worker msg env = (env', res)"
    and handlers: "\<And>jt h job e. handlers jt = Some h \<Longrightarrow>
      we_acked (fst (h job e)) = we_acked e \<and> we_dead_letters (fst (h job e)) = we_dead_letters e"
  shows "we_acked env' = we_acked env @ [qm_stream_id msg] \<and>
    (if pr_outcome res = ''dead''
     then \<exists>err letter. pr_error res = Some err \<and> we_dead_letters env' = we_dead_letters env @ [letter] \<and>
       dl_source_stream_id letter = qm_stream_id msg \<and> dl_event_id letter = qm_event_id msg \<and>
       dl_payload letter = qm_payload msg \<and> dl_error letter = clip 4000 err
     else we_dead_letters env' = we_dead_letters env)"
proof -
  have handled: "we_acked e2 = we_acked e1 \<and> we_dead_letters e2 = we_dead_letters e1"
    if "run_handler handlers job e1 = (e2, failure, rt)" for job e1 e2 failure rt
    using that handlers by (auto simp: run_handler_def split: option.splits prod.splits) (metis fst_conv)+
  have recorded: "we_acked e2 = we_acked e1 \<and> we_dead_letters e2 = we_dead_letters e1"
    if "record_success now worker jid e1 = (e2, failure)" for jid e1 e2 failure
    using that by (cases rule: record_success_cases) auto
  from res show ?thesis
  proof (cases rule: delivery_cases)
    case (succeeded job env1 env2 env3 rt)
    from handled [OF succeeded(3)] recorded [OF succeeded(4)] succeeded(2) have "we_acked env3 = we_acked env"
      "we_dead_letters env3 = we_dead_letters env" by (metis worker_env.select_convs worker_env.surjective worker_env.update_convs(1))+
    with succeeded show ?thesis by simp
  next
    case (failed job env1 env2 env3 env4 rt failure e status)
    have "we_acked env1 = we_acked env" "we_dead_letters env1 = we_dead_letters env"
      by (subst failed(2), simp)+
    with handled [OF failed(3)] recorded [of "j_id job" env2 env3 "Some e"] failed(4) record_failed_sel(1,2) [OF failed(5)]
    have "we_acked env4 = we_acked env" "we_dead_letters env4 = we_dead_letters env" by auto
    with failed show ?thesis by (simp add: publish_dead_letter_def)
  qed (simp_all add: publish_dead_letter_def)
qed

definition sample_message :: queue_message where
  "sample_message = \<lparr>qm_stream_id = ''1-0'', qm_event_id = ''e'', qm_event_type = ''knowledge.job.ready'',
     qm_aggregate_type = ''knowledge_job'', qm_aggregate_id = ''j'', qm_payload = [(''job_id'', JString ''j'')]\<rparr>"

definition sample_env :: worker_env where
  "sample_env = \<lparr>we_kn = sample_knowledge, we_sync_runs = [], we_documents = [], we_indexes = [], we_acked = [],
     we_dead_letters = []\<rparr>"

theorem delivery_accounted_witness:
  "we_acked (fst (process_knowledge_job sample_outbox_settings (\<lambda>_. []) (\<lambda>_. None) 60 70 ''u'' ''v'' sample_message sample_env)) = [''1-0'']"
  using delivery_accounted [OF surjective_pairing, of "\<lambda>_. None" sample_outbox_settings "\<lambda>_. []" 60 70 "''u''" "''v''" sample_message sample_env]
  by (simp add: sample_env_def sample_message_def)

text \<open>
  The outcome that the worker reports is the truth about the job in the database when it
  returns, whatever the handler and other workers did meanwhile: apart from duplicates, it is the
  status of the row, and dead where the row is gone.
\<close>

theorem delivery_outcome:
  assumes res: "process_knowledge_job settings repr handlers start now uuid worker msg env = (env', res)"
    and jid: "pr_job_id res = Some jid" and nd: "pr_outcome res \<noteq> ''duplicate''"
  shows "pr_outcome res = (case job_state jid (we_kn env') of None \<Rightarrow> ''dead'' | Some s \<Rightarrow> status_text s)"
  using res
proof (cases rule: delivery_cases)
  case (no_job error i kn1)
  with jid show ?thesis by (auto simp: job_state_def)
next
  case (duplicate i)
  with nd show ?thesis by simp
next
  case (succeeded job env1 env2 env3 rt)
  from succeeded(4) show ?thesis
  proof (cases rule: record_success_cases)
    case (finished row)
    let ?row1 = "fst (complete_knowledge_job now worker row)"
    have i: "jid = j_id job" using jid succeeded by simp
    have "j_id ?row1 = jid" "j_status ?row1 = J_Succeeded"
      using finished(3) fetch_SomeD [OF finished(2)] i by (simp_all add: complete_knowledge_job_def)
    with job_state_put [of ?row1 "we_kn env2" row jid] finished(2,4) i succeeded show ?thesis
      by (simp add: status_text_def)
  qed simp
next
  case (failed job env1 env2 env3 env4 rt failure e status)
  have "jid = j_id job" using jid failed by simp
  with record_failed_sel(3,4) [OF failed(5)] failed(6,7) show ?thesis
    by (auto simp: status_text_def split: option.split)
qed

theorem delivery_outcome_witness:
  "pr_outcome (snd (process_knowledge_job sample_outbox_settings (\<lambda>_. []) (\<lambda>_. None) 60 70 ''u'' ''v'' sample_message sample_env)) = ''dead'' \<and>
   job_state ''j'' (we_kn (fst (process_knowledge_job sample_outbox_settings (\<lambda>_. []) (\<lambda>_. None) 60 70 ''u'' ''v'' sample_message sample_env)))
     = Some J_Dead"
proof -
  let ?r = "process_knowledge_job sample_outbox_settings (\<lambda>_. []) (\<lambda>_. None) 60 70 ''u'' ''v'' sample_message sample_env"
  have v: "pr_job_id (snd ?r) = Some ''j''" "pr_outcome (snd ?r) = ''dead''" "job_state ''j'' (we_kn (fst ?r)) \<noteq> None" by code_simp+
  with delivery_outcome [OF surjective_pairing, of sample_outbox_settings "\<lambda>_. []" "\<lambda>_. None" 60 70 "''u''" "''v''" sample_message sample_env "''j''"]
  show ?thesis by (auto split: option.splits) (metis status_text_dead)
qed

text \<open>
  The lease outlasts the heartbeat that renews it, as soon as it is at least two seconds.
\<close>

lemma heartbeat_in_time: "2 \<le> knowledge_job_lease_seconds settings \<Longrightarrow> heartbeat_interval settings < knowledge_job_lease_seconds settings"
  by (simp add: heartbeat_interval_def)

end
