(* ===== verification/Memory_Jobs.thy ===== *)
theory Memory_Jobs
  imports Outbox
begin

text \<open>
  Jobs that learn from chats (\<open>services/memory_job_service.py\<close> for the memory of a user and its
  mirror \<open>services/project_memory_job_service.py\<close> for the memory of a project). A reply queues the
  chat, or moves the chat's waiting job; the job is claimed under a lease once it is due, and put
  off through the outbox when it is not. The two services differ in the owner of a job and in
  the names of their events, which are the fields of \<open>memory_scope\<close>.
\<close>

section \<open>Data\<close>

datatype memory_owner = Owner_User int | Owner_Project string

datatype memory_status = M_Pending | M_Running | M_Retry | M_Succeeded | M_Dead

record memory_job =
  mj_id :: string
  mj_owner :: memory_owner
  mj_session_id :: string
  mj_status :: memory_status
  mj_watermark_sequence :: int
  mj_extracted_sequence :: int
  mj_run_after :: time
  mj_attempt_count :: int
  mj_max_attempts :: int
  mj_lease_expires_at :: "time option"
  mj_worker_id :: "string option"
  mj_last_error :: "string option"
  mj_created_at :: time
  mj_updated_at :: time

record job_result =
  jr_status :: memory_status
  jr_attempt_count :: int
  jr_next_attempt_at :: "time option"

record memory_scope =
  ms_prefix :: string
  ms_aggregate_type :: string
  ms_event_type :: string

definition user_scope :: memory_scope where
  "user_scope = \<lparr>ms_prefix = ''user-memory:'', ms_aggregate_type = ''user_memory_job'', ms_event_type = ''memory.job.ready''\<rparr>"

definition project_scope :: memory_scope where
  "project_scope = \<lparr>ms_prefix = ''project-memory:'', ms_aggregate_type = ''project_memory_job'',
     ms_event_type = ''project_memory.job.ready''\<rparr>"

record memory_config =
  memory_job_lease_seconds :: int
  memory_job_max_attempts :: int
  memory_retry_base_seconds :: int
  memory_extract_enabled :: bool

text \<open>The job table and the events of the outbox.\<close>

record memory_db =
  md_jobs :: "memory_job list"
  md_events :: "outbox_event list"

section \<open>The table\<close>

definition open_job :: "memory_job \<Rightarrow> bool" where
  "open_job job \<longleftrightarrow> mj_status job \<in> {M_Pending, M_Retry}"

definition of_chat :: "memory_owner \<Rightarrow> string \<Rightarrow> memory_job \<Rightarrow> bool" where
  "of_chat owner session job \<longleftrightarrow> mj_owner job = owner \<and> mj_session_id job = session"

text \<open>The unique partial index: one open job per owner and chat.\<close>

definition open_index_ok :: "memory_job list \<Rightarrow> bool" where
  "open_index_ok jobs \<longleftrightarrow> distinct (map (\<lambda>job. (mj_owner job, mj_session_id job)) (filter open_job jobs))"

definition memory_key :: "memory_scope \<Rightarrow> string \<Rightarrow> int \<Rightarrow> string \<Rightarrow> string" where
  "memory_key scope jid n suffix = ms_prefix scope @ jid @ '':dispatch:'' @ show_int n @ '':'' @ suffix"

definition dispatch_memory_job ::
    "memory_scope \<Rightarrow> time \<Rightarrow> string \<Rightarrow> memory_job \<Rightarrow> string \<Rightarrow> time \<Rightarrow> outbox_event list \<Rightarrow> outbox_event list" where
  "dispatch_memory_job scope now uuid job suffix available_at events =
     fst (enqueue_outbox_event now uuid (ms_aggregate_type scope) (mj_id job) (ms_event_type scope)
       [(''job_id'', JString (mj_id job)), (''attempt'', JInt (mj_attempt_count job))]
       (memory_key scope (mj_id job) (mj_attempt_count job) suffix) (Some available_at) events)"

section \<open>Scheduling\<close>

record memory_settings =
  feature_enabled :: bool
  project_feature_enabled :: bool
  extraction_model_id :: "string option"
  extract_debounce_seconds :: int
  extract_max_wait_seconds :: int
  project_extract_debounce_seconds :: int
  project_extract_max_wait_seconds :: int

record chat_session =
  cs_user_id :: int
  cs_project_id :: "string option"
  cs_private_mode :: bool
  cs_member_channel :: bool

text \<open>
  Whether a chat feeds a person's memory: the feature is on and has a model, the person captures
  automatically and may chat, and the chat is theirs, neither private nor shared.
\<close>

definition user_eligible ::
    "memory_config \<Rightarrow> memory_settings \<Rightarrow> bool \<Rightarrow> bool \<Rightarrow> int \<Rightarrow> chat_session option \<Rightarrow> bool" where
  "user_eligible config settings auto_capture feature_chat user_id session \<longleftrightarrow>
     feature_enabled settings \<and> truthy (extraction_model_id settings) \<and> memory_extract_enabled config \<and> auto_capture \<and>
     (case session of None \<Rightarrow> False
      | Some s \<Rightarrow> cs_user_id s = user_id \<and> \<not> (cs_private_mode s \<or> cs_member_channel s) \<and> \<not> truthy (cs_project_id s)) \<and>
     feature_chat"

definition is_eligible_session :: "chat_session option \<Rightarrow> bool" where
  "is_eligible_session session =
     (case session of None \<Rightarrow> False
      | Some s \<Rightarrow> truthy (cs_project_id s) \<and> \<not> (cs_private_mode s \<or> cs_member_channel s))"

definition project_eligible ::
    "memory_config \<Rightarrow> memory_settings \<Rightarrow> bool \<Rightarrow> bool \<Rightarrow> string \<Rightarrow> chat_session option \<Rightarrow> bool" where
  "project_eligible config settings memory_enabled auto_capture project_id session \<longleftrightarrow>
     feature_enabled settings \<and> project_feature_enabled settings \<and> truthy (extraction_model_id settings) \<and>
     memory_extract_enabled config \<and>
     (case session of None \<Rightarrow> False
      | Some s \<Rightarrow> (case cs_project_id s of None \<Rightarrow> [] | Some p \<Rightarrow> p) = project_id) \<and>
     is_eligible_session session \<and> memory_enabled \<and> auto_capture"

definition latest_extracted_sequence :: "memory_owner \<Rightarrow> string \<Rightarrow> memory_job list \<Rightarrow> int" where
  "latest_extracted_sequence owner session jobs =
     (case sort_key (\<lambda>job. - mj_updated_at job) (filter (of_chat owner session) jobs) of
        [] \<Rightarrow> 0 | job # _ \<Rightarrow> mj_extracted_sequence job)"

text \<open>\<open>MAX(watermark_sequence)\<close> over the chat's jobs that are mining it now.\<close>

definition mining_now :: "time \<Rightarrow> memory_owner \<Rightarrow> string \<Rightarrow> string option \<Rightarrow> memory_job \<Rightarrow> bool" where
  "mining_now now owner session exclude job \<longleftrightarrow>
     of_chat owner session job \<and> mj_status job = M_Running \<and>
     (case mj_lease_expires_at job of None \<Rightarrow> False | Some t \<Rightarrow> t > now) \<and>
     (truthy exclude \<longrightarrow> mj_id job \<noteq> the exclude)"

definition running_to :: "time \<Rightarrow> memory_owner \<Rightarrow> string \<Rightarrow> string option \<Rightarrow> memory_job list \<Rightarrow> int" where
  "running_to now owner session exclude jobs =
     (case map mj_watermark_sequence (filter (mining_now now owner session exclude) jobs) of
        [] \<Rightarrow> 0 | w # ws \<Rightarrow> foldr max ws w)"

definition or_default :: "int \<Rightarrow> int \<Rightarrow> int" where
  "or_default d v = (if v = 0 then d else v)"

definition extend_open_job :: "time \<Rightarrow> int \<Rightarrow> int \<Rightarrow> int \<Rightarrow> memory_job \<Rightarrow> memory_job" where
  "extend_open_job now watermark debounce max_wait job =
     job\<lparr>mj_watermark_sequence := max (mj_watermark_sequence job) watermark,
         mj_run_after := min (now + seconds debounce) (mj_created_at job + seconds max_wait), mj_updated_at := now\<rparr>"

definition new_memory_job ::
    "memory_config \<Rightarrow> time \<Rightarrow> string \<Rightarrow> memory_owner \<Rightarrow> string \<Rightarrow> int \<Rightarrow> int \<Rightarrow> int \<Rightarrow> memory_job" where
  "new_memory_job config now job_id owner session watermark extracted debounce =
     \<lparr>mj_id = job_id, mj_owner = owner, mj_session_id = session, mj_status = M_Pending,
      mj_watermark_sequence = watermark, mj_extracted_sequence = extracted, mj_run_after = now + seconds debounce,
      mj_attempt_count = 0, mj_max_attempts = memory_job_max_attempts config, mj_lease_expires_at = None,
      mj_worker_id = None, mj_last_error = None, mj_created_at = now, mj_updated_at = now\<rparr>"

text \<open>
  Queueing a chat that may be mined. \<open>between\<close> is what other transactions commit after the look
  for an open job and before the insert, which the savepoint around the insert is for.
\<close>

definition schedule_chat ::
    "memory_scope \<Rightarrow> memory_config \<Rightarrow> time \<Rightarrow> string \<Rightarrow> string \<Rightarrow> memory_owner \<Rightarrow> string \<Rightarrow> int \<Rightarrow> string option \<Rightarrow> int \<Rightarrow> int
      \<Rightarrow> (memory_db \<Rightarrow> memory_db) \<Rightarrow> memory_db \<Rightarrow> memory_db \<times> memory_job option" where
  "schedule_chat scope config now job_id uuid owner session watermark exclude debounce max_wait between db =
     (case sort_key mj_created_at (filter (\<lambda>job. of_chat owner session job \<and> open_job job) (md_jobs db)) of
        existing # _ \<Rightarrow>
          let job = extend_open_job now watermark debounce max_wait existing
          in (db\<lparr>md_jobs := modify mj_id (mj_id existing) (\<lambda>_. job) (md_jobs db)\<rparr>, Some job)
      | [] \<Rightarrow>
          let extracted = min (max (latest_extracted_sequence owner session (md_jobs db))
                (running_to now owner session exclude (md_jobs db))) watermark;
              job = new_memory_job config now job_id owner session watermark extracted debounce;
              db1 = between db
          in if open_index_ok (md_jobs db1 @ [job])
             then (db1\<lparr>md_jobs := md_jobs db1 @ [job],
                       md_events := dispatch_memory_job scope now uuid job ''created'' (mj_run_after job) (md_events db1)\<rparr>, Some job)
             else
               (case filter (\<lambda>job. of_chat owner session job \<and> open_job job) (md_jobs db1) of
                  [] \<Rightarrow> (db1, None)
                | raced # _ \<Rightarrow>
                    let job1 = raced\<lparr>mj_watermark_sequence := max (mj_watermark_sequence raced) watermark, mj_updated_at := now\<rparr>
                    in (db1\<lparr>md_jobs := modify mj_id (mj_id raced) (\<lambda>_. job1) (md_jobs db1)\<rparr>, Some job1)))"

definition schedule_extraction ::
    "memory_config \<Rightarrow> memory_settings \<Rightarrow> bool \<Rightarrow> bool \<Rightarrow> chat_session option \<Rightarrow> time \<Rightarrow> string \<Rightarrow> string \<Rightarrow> int \<Rightarrow> string
      \<Rightarrow> int \<Rightarrow> string option \<Rightarrow> (memory_db \<Rightarrow> memory_db) \<Rightarrow> memory_db \<Rightarrow> memory_db \<times> memory_job option" where
  "schedule_extraction config settings auto_capture feature_chat chat now job_id uuid user_id session watermark exclude between db =
     (if \<not> user_eligible config settings auto_capture feature_chat user_id chat then (db, None)
      else schedule_chat user_scope config now job_id uuid (Owner_User user_id) session watermark exclude
             (or_default 30 (extract_debounce_seconds settings)) (or_default 600 (extract_max_wait_seconds settings)) between db)"

definition schedule_project_extraction ::
    "memory_config \<Rightarrow> memory_settings \<Rightarrow> bool \<Rightarrow> bool \<Rightarrow> chat_session option \<Rightarrow> time \<Rightarrow> string \<Rightarrow> string \<Rightarrow> string \<Rightarrow> string
      \<Rightarrow> int \<Rightarrow> string option \<Rightarrow> (memory_db \<Rightarrow> memory_db) \<Rightarrow> memory_db \<Rightarrow> memory_db \<times> memory_job option" where
  "schedule_project_extraction config settings memory_enabled auto_capture chat now job_id uuid project_id session watermark exclude
       between db =
     (if \<not> project_eligible config settings memory_enabled auto_capture project_id chat then (db, None)
      else schedule_chat project_scope config now job_id uuid (Owner_Project project_id) session watermark exclude
             (or_default 45 (project_extract_debounce_seconds settings))
             (or_default 900 (project_extract_max_wait_seconds settings)) between db)"

section \<open>Running\<close>

definition deferred_suffix :: "memory_job \<Rightarrow> string" where
  "deferred_suffix job = ''deferred:'' @ show_int (mj_run_after job div 1000000)"

definition claimable_memory_job :: "time \<Rightarrow> memory_job \<Rightarrow> bool" where
  "claimable_memory_job current job \<longleftrightarrow>
     mj_status job \<notin> {M_Succeeded, M_Dead} \<and>
     \<not> (mj_status job = M_Running \<and> (case mj_lease_expires_at job of None \<Rightarrow> False | Some t \<Rightarrow> t > current)) \<and>
     mj_status job \<in> {M_Pending, M_Retry, M_Running}"

definition take_memory_job :: "memory_config \<Rightarrow> time \<Rightarrow> string \<Rightarrow> memory_job \<Rightarrow> memory_job" where
  "take_memory_job config current worker job =
     job\<lparr>mj_status := M_Running, mj_attempt_count := mj_attempt_count job + 1, mj_worker_id := Some worker,
         mj_lease_expires_at := Some (current + seconds (memory_job_lease_seconds config)), mj_updated_at := current,
         mj_last_error := None\<rparr>"

definition claim_memory_job ::
    "memory_scope \<Rightarrow> memory_config \<Rightarrow> time \<Rightarrow> string \<Rightarrow> string \<Rightarrow> string \<Rightarrow> memory_db \<Rightarrow> memory_db \<times> memory_job option" where
  "claim_memory_job scope config current uuid jid worker db =
     (case fetch mj_id jid (md_jobs db) of
        None \<Rightarrow> (db, None)
      | Some job \<Rightarrow>
          if \<not> claimable_memory_job current job then (db, None)
          else if mj_run_after job > current
          then (db\<lparr>md_events := dispatch_memory_job scope current uuid job (deferred_suffix job) (mj_run_after job) (md_events db)\<rparr>, None)
          else let job1 = take_memory_job config current worker job
               in (db\<lparr>md_jobs := modify mj_id jid (\<lambda>_. job1) (md_jobs db)\<rparr>, Some job1))"

definition runs_memory_job :: "string \<Rightarrow> memory_job \<Rightarrow> bool" where
  "runs_memory_job worker job \<longleftrightarrow> mj_status job = M_Running \<and> mj_worker_id job = Some worker"

definition heartbeat_memory_job :: "memory_config \<Rightarrow> time \<Rightarrow> string \<Rightarrow> memory_job \<Rightarrow> memory_job \<times> bool" where
  "heartbeat_memory_job config current worker job =
     (if \<not> runs_memory_job worker job then (job, False)
      else (job\<lparr>mj_lease_expires_at := Some (current + seconds (memory_job_lease_seconds config)), mj_updated_at := current\<rparr>, True))"

definition complete_memory_job :: "time \<Rightarrow> string \<Rightarrow> int \<Rightarrow> memory_job \<Rightarrow> memory_job \<times> bool" where
  "complete_memory_job now worker extracted job =
     (if \<not> runs_memory_job worker job then (job, False)
      else (job\<lparr>mj_status := M_Succeeded, mj_extracted_sequence := extracted, mj_worker_id := None,
                mj_lease_expires_at := None, mj_updated_at := now, mj_last_error := None\<rparr>, True))"

definition memory_retry_delay :: "memory_config \<Rightarrow> int \<Rightarrow> time" where
  "memory_retry_delay config attempts =
     seconds (min (memory_retry_base_seconds config * 2 ^ nat (max 0 (attempts - 1))) 3600)"

text \<open>Written rows are checked against the unique index; the transaction is lost when it objects.\<close>

definition fail_memory_job ::
    "memory_scope \<Rightarrow> memory_config \<Rightarrow> time \<Rightarrow> string \<Rightarrow> string \<Rightarrow> string \<Rightarrow> bool \<Rightarrow> memory_job \<Rightarrow> memory_db
      \<Rightarrow> (memory_db \<times> job_result) result" where
  "fail_memory_job scope config now uuid worker error retryable job db =
     (if \<not> runs_memory_job worker job
      then Inr (db, \<lparr>jr_status = mj_status job, jr_attempt_count = mj_attempt_count job, jr_next_attempt_at = Some (mj_run_after job)\<rparr>)
      else
        let attempts = mj_attempt_count job;
            job1 = job\<lparr>mj_worker_id := None, mj_lease_expires_at := None, mj_last_error := Some (clip 8000 error), mj_updated_at := now\<rparr>
        in if \<not> retryable \<or> attempts \<ge> (if mj_max_attempts job = 0 then memory_job_max_attempts config else mj_max_attempts job)
           then Inr (db\<lparr>md_jobs := modify mj_id (mj_id job) (\<lambda>_. job1\<lparr>mj_status := M_Dead\<rparr>) (md_jobs db)\<rparr>,
                     \<lparr>jr_status = M_Dead, jr_attempt_count = attempts, jr_next_attempt_at = None\<rparr>)
           else
             let run_after = now + memory_retry_delay config attempts;
                 job2 = job1\<lparr>mj_status := M_Retry, mj_run_after := run_after\<rparr>;
                 jobs = modify mj_id (mj_id job) (\<lambda>_. job2) (md_jobs db)
             in if \<not> open_index_ok jobs then Inl IntegrityError
                else Inr (db\<lparr>md_jobs := jobs,
                             md_events := dispatch_memory_job scope now uuid job2 ''retry'' run_after (md_events db)\<rparr>,
                          \<lparr>jr_status = M_Retry, jr_attempt_count = attempts, jr_next_attempt_at = Some run_after\<rparr>))"

definition stale_memory_job :: "time \<Rightarrow> memory_job \<Rightarrow> bool" where
  "stale_memory_job current job \<longleftrightarrow> mj_status job = M_Running \<and>
     (case mj_lease_expires_at job of None \<Rightarrow> True | Some t \<Rightarrow> t \<le> current)"

definition memory_recover_order :: "memory_job \<Rightarrow> (bool \<times> time) \<times> time" where
  "memory_recover_order job = ((case mj_lease_expires_at job of None \<Rightarrow> (True, 0) | Some t \<Rightarrow> (False, t)), mj_created_at job)"

definition stale_memory_jobs :: "time \<Rightarrow> nat \<Rightarrow> memory_job list \<Rightarrow> memory_job list" where
  "stale_memory_jobs current limit jobs = take limit (sort_key memory_recover_order (filter (stale_memory_job current) jobs))"

definition released_memory_job :: "time \<Rightarrow> memory_job \<Rightarrow> memory_job" where
  "released_memory_job current job =
     job\<lparr>mj_status := M_Retry, mj_worker_id := None, mj_lease_expires_at := None, mj_run_after := current, mj_updated_at := current\<rparr>"

definition recover_memory_job ::
    "memory_scope \<Rightarrow> time \<Rightarrow> (string \<Rightarrow> string) \<Rightarrow> memory_job \<Rightarrow> memory_db result \<Rightarrow> memory_db result" where
  "recover_memory_job scope current uuid job st =
     (case st of
        Inl e \<Rightarrow> Inl e
      | Inr db \<Rightarrow>
          let job1 = released_memory_job current job;
              jobs = modify mj_id (mj_id job) (\<lambda>_. job1) (md_jobs db)
          in if \<not> open_index_ok jobs then Inl IntegrityError
             else Inr (db\<lparr>md_jobs := jobs,
                          md_events := dispatch_memory_job scope current (uuid (mj_id job)) job1 ''lease-expired'' current (md_events db)\<rparr>))"

definition recover_stale_memory_jobs ::
    "memory_scope \<Rightarrow> time \<Rightarrow> nat \<Rightarrow> (string \<Rightarrow> string) \<Rightarrow> memory_db \<Rightarrow> (memory_db \<times> nat) result" where
  "recover_stale_memory_jobs scope current limit uuid db =
     (let jobs = stale_memory_jobs current limit (md_jobs db)
      in (case foldl (\<lambda>st job. recover_memory_job scope current uuid job st) (Inr db) jobs of
            Inl e \<Rightarrow> Inl e
          | Inr db1 \<Rightarrow> Inr (db1, length jobs)))"

text \<open>
  After all memories of an owner were deleted: every chat counts as mined up to its newest
  message. \<open>seqs\<close> has the newest sequence of each chat, \<open>uuid\<close> the identifiers of the new rows.
\<close>

definition skip_memory_job :: "time \<Rightarrow> (string \<times> int) list \<Rightarrow> memory_job \<Rightarrow> memory_job" where
  "skip_memory_job now seqs job =
     (let w = (case map_of seqs (mj_session_id job) of None \<Rightarrow> mj_watermark_sequence job | Some n \<Rightarrow> n)
      in job\<lparr>mj_extracted_sequence := max (mj_extracted_sequence job) w, mj_watermark_sequence := max (mj_watermark_sequence job) w,
             mj_status := (if open_job job then M_Succeeded else mj_status job), mj_updated_at := now\<rparr>)"

definition reset_watermarks ::
    "memory_config \<Rightarrow> time \<Rightarrow> (string \<Rightarrow> string) \<Rightarrow> memory_owner \<Rightarrow> (string \<times> int) list \<Rightarrow> memory_db \<Rightarrow> memory_db" where
  "reset_watermarks config now uuid owner seqs db =
     (let seen = map mj_session_id (filter (\<lambda>job. mj_owner job = owner) (md_jobs db));
          rows = map (\<lambda>(session, n). (new_memory_job config now (uuid session) owner session n n 0)\<lparr>mj_status := M_Succeeded\<rparr>)
                   (filter (\<lambda>(session, _). session \<notin> set seen) seqs)
      in db\<lparr>md_jobs := map (\<lambda>job. if mj_owner job = owner then skip_memory_job now seqs job else job) (md_jobs db) @ rows\<rparr>)"

definition project_claim_job ::
    "memory_config \<Rightarrow> time \<Rightarrow> string \<Rightarrow> string \<Rightarrow> string \<Rightarrow> memory_db \<Rightarrow> memory_db \<times> memory_job option" where
  "project_claim_job = claim_memory_job project_scope"

definition project_fail_job ::
    "memory_config \<Rightarrow> time \<Rightarrow> string \<Rightarrow> string \<Rightarrow> string \<Rightarrow> bool \<Rightarrow> memory_job \<Rightarrow> memory_db \<Rightarrow> (memory_db \<times> job_result) result" where
  "project_fail_job = fail_memory_job project_scope"

definition project_recover_stale_jobs ::
    "time \<Rightarrow> nat \<Rightarrow> (string \<Rightarrow> string) \<Rightarrow> memory_db \<Rightarrow> (memory_db \<times> nat) result" where
  "project_recover_stale_jobs = recover_stale_memory_jobs project_scope"

section \<open>The index and the chats\<close>

lemma open_pair_violates:
  assumes "a \<in> set jobs" "b \<in> set jobs" "a \<noteq> b" "open_job a" "open_job b"
    and "mj_owner a = mj_owner b" "mj_session_id a = mj_session_id b"
  shows "\<not> open_index_ok jobs"
proof
  assume "open_index_ok jobs"
  then have "inj_on (\<lambda>job. (mj_owner job, mj_session_id job)) (set (filter open_job jobs))"
    by (simp add: open_index_ok_def distinct_map)
  with assms show False by (auto simp: inj_on_def)
qed

lemma recover_fold_Inl: "foldl (\<lambda>st job. recover_memory_job scope now uuid job st) (Inl e) js = Inl e"
  by (induction js) (simp_all add: recover_memory_job_def)

text \<open>A sweep never turns an open job of the chat into anything else, so it stumbles over it.\<close>

lemma recover_fold_blocked:
  assumes "a \<in> set js" and "b \<in> set (md_jobs db)" and "open_job b" and "fetch mj_id (mj_id a) (md_jobs db) \<noteq> None"
    and "mj_owner a = mj_owner b" "mj_session_id a = mj_session_id b" and "mj_id b \<notin> set (map mj_id js)"
  shows "foldl (\<lambda>st job. recover_memory_job scope now uuid job st) (Inr db) js = Inl IntegrityError"
  using assms
proof (induction js arbitrary: db)
  case (Cons x js)
  let ?x1 = "released_memory_job now x"
  let ?jobs = "modify mj_id (mj_id x) (\<lambda>_. ?x1) (md_jobs db)"
  have b: "b \<in> set ?jobs" using Cons.prems(2,7) by (auto simp: set_modify)
  show ?case
  proof (cases "open_index_ok ?jobs")
    case False
    then have "recover_memory_job scope now uuid x (Inr db) = Inl IntegrityError" by (simp add: recover_memory_job_def Let_def)
    then show ?thesis by (simp add: recover_fold_Inl)
  next
    case True
    let ?db1 = "db\<lparr>md_jobs := ?jobs,
       md_events := dispatch_memory_job scope now (uuid (mj_id x)) ?x1 ''lease-expired'' now (md_events db)\<rparr>"
    have step: "recover_memory_job scope now uuid x (Inr db) = Inr ?db1" using True by (simp add: recover_memory_job_def Let_def)
    have id1: "mj_id ?x1 = mj_id x" by (simp add: released_memory_job_def)
    show ?thesis
    proof (cases "x = a")
      case True
      from Cons.prems(4) obtain r where "r \<in> set (md_jobs db)" "mj_id r = mj_id a" by (auto dest: fetch_SomeD)
      then have "?x1 \<in> set ?jobs" using \<open>x = a\<close> by (auto simp: set_modify)
      moreover have "?x1 \<noteq> b" using Cons.prems(7) id1 by auto
      ultimately have "\<not> open_index_ok ?jobs"
        using open_pair_violates [of ?x1 ?jobs b] b Cons.prems(3,5,6) \<open>x = a\<close> by (simp add: released_memory_job_def open_job_def)
      with \<open>open_index_ok ?jobs\<close> show ?thesis by contradiction
    next
      case False
      have "foldl (\<lambda>st job. recover_memory_job scope now uuid job st) (Inr ?db1) js = Inl IntegrityError"
        by (rule Cons.IH) (use Cons.prems False b id1 in \<open>auto simp: fetch_modify\<close>)
      then show ?thesis by (simp add: step)
    qed
  qed
qed simp

lemma foldr_max: "w \<le> foldr max ws (w :: int) \<and> (\<forall>x \<in> set ws. x \<le> foldr max ws w)"
  by (induction ws) (auto intro: max.coboundedI2)

lemma running_to_covers:
  assumes "job \<in> set jobs" and "mining_now now owner session exclude job"
  shows "mj_watermark_sequence job \<le> running_to now owner session exclude jobs"
proof -
  let ?ws = "map mj_watermark_sequence (filter (mining_now now owner session exclude) jobs)"
  have m: "mj_watermark_sequence job \<in> set ?ws" using assms by auto
  then obtain w ws where ws: "?ws = w # ws" by (cases ?ws) auto
  with m have "mj_watermark_sequence job = w \<or> mj_watermark_sequence job \<in> set ws" by simp
  with foldr_max [of w ws] show ?thesis unfolding running_to_def ws by auto
qed

lemma open_index_modify:
  assumes ok: "open_index_ok jobs" and ids: "distinct (map mj_id jobs)" and row: "fetch mj_id (mj_id job) jobs = Some job"
    and same: "mj_owner job1 = mj_owner job" "mj_session_id job1 = mj_session_id job" "open_job job1 = open_job job"
  shows "open_index_ok (modify mj_id (mj_id job) (\<lambda>_. job1) jobs)"
proof -
  have "modify mj_id (mj_id job) (\<lambda>_. job1) jobs = modify mj_id (mj_id job) (\<lambda>x. if x = job then job1 else x) jobs"
    by (rule modify_cong_row [OF ids row]) simp
  moreover have "map (\<lambda>x. (mj_owner x, mj_session_id x)) (filter open_job (modify mj_id (mj_id job) (\<lambda>x. if x = job then job1 else x) jobs))
      = map (\<lambda>x. (mj_owner x, mj_session_id x)) (filter open_job jobs)"
    using same by (induction jobs) auto
  ultimately show ?thesis using ok by (simp add: open_index_ok_def)
qed

section \<open>Properties\<close>

text \<open>
  Scheduling leaves the chat with one waiting job that reaches at least the given
  message. It never waits longer than the debounce or the maximum after its creation, however
  often replies put it off. A new job starts no later than its own end and not before the end of
  any job that is mining the chat now.
\<close>

theorem schedule_keeps_one_waiting:
  assumes ok: "open_index_ok (md_jobs db)" and ids: "distinct (map mj_id (md_jobs db))"
    and res: "schedule_chat scope config now job_id uuid owner session watermark exclude debounce max_wait id db = (db', r)"
  shows "\<exists>job. r = Some job \<and> job \<in> set (md_jobs db') \<and> of_chat owner session job \<and> open_job job \<and> open_index_ok (md_jobs db') \<and>
    watermark \<le> mj_watermark_sequence job \<and>
    mj_run_after job \<le> mj_created_at job + seconds (max debounce max_wait) \<and>
    (filter (\<lambda>j. of_chat owner session j \<and> open_job j) (md_jobs db) = [] \<longrightarrow>
       mj_extracted_sequence job \<le> mj_watermark_sequence job \<and>
       list_all (\<lambda>j. mining_now now owner session exclude j \<longrightarrow>
         min (mj_watermark_sequence j) watermark \<le> mj_extracted_sequence job) (md_jobs db))"
proof (cases "sort_key mj_created_at (filter (\<lambda>job. of_chat owner session job \<and> open_job job) (md_jobs db))")
  case Nil
  then have none: "filter (\<lambda>job. of_chat owner session job \<and> open_job job) (md_jobs db) = []" by (metis set_empty set_sort)
  let ?ex = "min (max (latest_extracted_sequence owner session (md_jobs db)) (running_to now owner session exclude (md_jobs db))) watermark"
  let ?job = "new_memory_job config now job_id owner session watermark ?ex debounce"
  have "(mj_owner ?job, mj_session_id ?job) \<notin> (\<lambda>job. (mj_owner job, mj_session_id job)) ` set (filter open_job (md_jobs db))"
    using none by (auto simp: new_memory_job_def filter_empty_conv of_chat_def)
  then have idx: "open_index_ok (md_jobs db @ [?job])" using ok by (auto simp: open_index_ok_def)
  then have r: "r = Some ?job" and jobs: "md_jobs db' = md_jobs db @ [?job]"
    using res Nil by (auto simp: schedule_chat_def Let_def)
  have sel: "of_chat owner session ?job" "open_job ?job" "mj_watermark_sequence ?job = watermark" "mj_created_at ?job = now"
    "mj_run_after ?job = now + seconds debounce" "mj_extracted_sequence ?job = ?ex"
    by (simp_all add: new_memory_job_def of_chat_def open_job_def)
  have "min (mj_watermark_sequence j) watermark \<le> ?ex" if "j \<in> set (md_jobs db)" "mining_now now owner session exclude j" for j
    using running_to_covers [OF that] by simp
  moreover have "seconds debounce \<le> seconds (max debounce max_wait)" by (simp add: seconds_def)
  ultimately show ?thesis using r jobs idx sel by (auto simp: list_all_iff)
next
  case (Cons existing rest)
  have "set (existing # rest) = set (filter (\<lambda>job. of_chat owner session job \<and> open_job job) (md_jobs db))"
    using Cons by (metis set_sort)
  then have ex: "existing \<in> set (md_jobs db)" "of_chat owner session existing" "open_job existing" by auto
  let ?job = "extend_open_job now watermark debounce max_wait existing"
  have r: "r = Some ?job" and jobs: "md_jobs db' = modify mj_id (mj_id existing) (\<lambda>_. ?job) (md_jobs db)"
    using res Cons by (auto simp: schedule_chat_def Let_def)
  have sel: "mj_owner ?job = mj_owner existing" "mj_session_id ?job = mj_session_id existing" "open_job ?job = open_job existing"
    "watermark \<le> mj_watermark_sequence ?job" "mj_run_after ?job \<le> mj_created_at ?job + seconds (max debounce max_wait)"
    by (simp_all add: extend_open_job_def open_job_def seconds_def)
  have row: "fetch mj_id (mj_id existing) (md_jobs db) = Some existing" by (rule fetch_distinct [OF ids ex(1)])
  have "?job \<in> set (md_jobs db')" using ex(1) by (auto simp: jobs set_modify)
  moreover have "open_index_ok (md_jobs db')" unfolding jobs by (rule open_index_modify [OF ok ids row sel(1-3)])
  moreover have "filter (\<lambda>j. of_chat owner session j \<and> open_job j) (md_jobs db) \<noteq> []" using ex by (auto simp: filter_empty_conv)
  ultimately show ?thesis using r sel ex by (auto simp: of_chat_def)
qed

text \<open>A database for the witnesses: one job of chat \<open>s\<close> waits while another one mines the chat.\<close>

definition sample_config :: memory_config where
  "sample_config = \<lparr>memory_job_lease_seconds = 120, memory_job_max_attempts = 5, memory_retry_base_seconds = 5,
     memory_extract_enabled = True\<rparr>"

definition running_sample :: memory_job where
  "running_sample = take_memory_job sample_config 40000000 ''w'' (new_memory_job sample_config 0 ''a'' (Owner_User 1) ''s'' 4 0 30)"

definition mining_db :: memory_db where
  "mining_db = \<lparr>md_jobs = [running_sample], md_events = []\<rparr>"

definition sibling_db :: memory_db where
  "sibling_db = fst (schedule_chat user_scope sample_config 50000000 ''b'' ''u'' (Owner_User 1) ''s'' 6 None 30 600 id mining_db)"

lemmas memory_sample_defs = sample_config_def running_sample_def mining_db_def take_memory_job_def new_memory_job_def

theorem schedule_keeps_one_waiting_witness:
  "open_index_ok (md_jobs sibling_db) \<and> length (md_jobs sibling_db) = 2"
proof -
  have "open_index_ok (md_jobs mining_db)" "distinct (map mj_id (md_jobs mining_db))"
    by (simp_all add: memory_sample_defs open_index_ok_def open_job_def)
  from schedule_keeps_one_waiting [OF this surjective_pairing, of user_scope sample_config 50000000 "''b''" "''u''" "Owner_User 1" "''s''" 6 None 30 600]
  have "open_index_ok (md_jobs sibling_db)" by (auto simp: sibling_db_def)
  moreover have "length (md_jobs sibling_db) = 2" by code_simp
  ultimately show ?thesis by simp
qed

text \<open>
  C18: while a chat has a waiting job, the job that mines it can neither be put back for
  another attempt nor be recovered from a dead worker: the unique index objects. The sweep is one
  transaction, so one such pair keeps every stale job from being recovered. The state is reached
  by design: a reply that comes while a job runs queues a second one.
\<close>

theorem waiting_sibling_blocks:
  assumes ids: "distinct (map mj_id (md_jobs db))" and a: "a \<in> set (md_jobs db)" and b: "b \<in> set (md_jobs db)" "open_job b"
    and chat: "mj_owner a = mj_owner b" "mj_session_id a = mj_session_id b" and run: "mj_status a = M_Running"
  shows "(runs_memory_job worker a \<and> mj_attempt_count a < mj_max_attempts a \<and> 0 < mj_max_attempts a \<longrightarrow>
      fail_memory_job scope config now uuid worker err True a db = Inl IntegrityError) \<and>
    (a \<in> set (stale_memory_jobs now limit (md_jobs db)) \<longrightarrow>
      recover_stale_memory_jobs scope now limit uuids db = Inl IntegrityError)"
proof -
  have row: "fetch mj_id (mj_id a) (md_jobs db) = Some a" by (rule fetch_distinct [OF ids a])
  have ab: "mj_id a \<noteq> mj_id b" using ids a b run by (auto simp: distinct_map inj_on_def open_job_def)
  have viol: "\<not> open_index_ok (modify mj_id (mj_id a) (\<lambda>_. a1) (md_jobs db))"
    if "mj_owner a1 = mj_owner a" "mj_session_id a1 = mj_session_id a" "mj_id a1 = mj_id a" "open_job a1" for a1
    by (rule open_pair_violates [of a1 _ b]) (use that a b chat ab in \<open>auto simp: set_modify\<close>)
  have "fail_memory_job scope config now uuid worker err True a db = Inl IntegrityError"
    if "runs_memory_job worker a" "mj_attempt_count a < mj_max_attempts a" "0 < mj_max_attempts a"
    using that viol by (simp add: fail_memory_job_def Let_def open_job_def)
  moreover have "recover_stale_memory_jobs scope now limit uuids db = Inl IntegrityError"
    if st: "a \<in> set (stale_memory_jobs now limit (md_jobs db))"
  proof -
    have "mj_id b \<notin> set (map mj_id (stale_memory_jobs now limit (md_jobs db)))"
    proof
      assume "mj_id b \<in> set (map mj_id (stale_memory_jobs now limit (md_jobs db)))"
      then obtain y where "y \<in> set (md_jobs db)" "mj_id y = mj_id b" "mj_status y = M_Running"
        by (auto simp: stale_memory_jobs_def stale_memory_job_def dest!: in_set_takeD)
      with ids b show False by (auto simp: distinct_map inj_on_def open_job_def)
    qed
    from recover_fold_blocked [OF st b(1,2) _ chat this, of scope now uuids] row show ?thesis
      by (simp add: recover_stale_memory_jobs_def Let_def)
  qed
  ultimately show ?thesis by blast
qed

theorem waiting_sibling_blocks_witness:
  "fail_memory_job user_scope sample_config 60000000 ''v'' ''w'' ''boom'' True running_sample sibling_db = Inl IntegrityError"
proof -
  have v: "map mj_id (md_jobs sibling_db) = [''a'', ''b'']" "map mj_owner (md_jobs sibling_db) = [Owner_User 1, Owner_User 1]"
    "map mj_session_id (md_jobs sibling_db) = [''s'', ''s'']" "map open_job (md_jobs sibling_db) = [False, True]"
    "hd (md_jobs sibling_db) = running_sample"
    by code_simp+
  then obtain b where jobs: "md_jobs sibling_db = [running_sample, b]" by (auto simp: map_eq_Cons_conv)
  have run: "mj_status running_sample = M_Running" "runs_memory_job ''w'' running_sample" "mj_attempt_count running_sample = 1"
    "mj_max_attempts running_sample = 5"
    by (simp_all add: memory_sample_defs runs_memory_job_def)
  show ?thesis
    using waiting_sibling_blocks [of sibling_db running_sample b "''w''" user_scope sample_config 60000000 "''v''" "''boom''"] v run jobs
    by simp
qed

text \<open>
  Two replies within one second, around the moment at which the first delivery of the job finds
  it put off: created at 0, a reply at 30.05 s, the delivery at 30.3 s, a reply at 30.8 s, and
  the second delivery at 60.2 s.
\<close>

definition relay_at :: "time \<Rightarrow> memory_db \<Rightarrow> memory_db" where
  "relay_at t db = db\<lparr>md_events := ob_events (fst (relay_outbox_once sample_outbox_settings (\<lambda>_. Published) t ''r''
     \<lparr>ob_events = md_events db, ob_stream = []\<rparr>))\<rparr>"

definition reply_at :: "time \<Rightarrow> string \<Rightarrow> int \<Rightarrow> memory_db \<Rightarrow> memory_db" where
  "reply_at t u n db = fst (schedule_chat user_scope sample_config t ''j'' u (Owner_User 1) ''s'' n None 30 600 id db)"

definition deliver_at :: "time \<Rightarrow> string \<Rightarrow> memory_db \<Rightarrow> memory_db" where
  "deliver_at t u db = fst (claim_memory_job user_scope sample_config t u ''j'' ''w'' (relay_at t db))"

definition put_off_db :: memory_db where
  "put_off_db = relay_at 70000000 (deliver_at 60200000 ''u3'' (reply_at 30800000 ''x'' 6
     (deliver_at 30300000 ''u2'' (reply_at 30050000 ''x'' 4 (reply_at 0 ''u1'' 2 \<lparr>md_jobs = [], md_events = []\<rparr>)))))"

text \<open>
  The key of a put-off delivery names the second of its new time only. In this history
  the second delivery is put off within the same second as the first, its event is swallowed as a
  duplicate, and the job waits with every event processed: no relay finds anything for it at any
  later time, and later replies only move its time.
\<close>

theorem put_off_delivery_lost:
  "map mj_status (md_jobs put_off_db) = [M_Pending] \<and>
   snd (claim_outbox_events settings worker now b (md_events put_off_db)) = [] \<and>
   md_events (fst (schedule_chat user_scope config now job_id u (Owner_User 1) ''s'' n None debounce max_wait between put_off_db))
     = md_events put_off_db"
proof -
  have v: "map mj_status (md_jobs put_off_db) = [M_Pending]" "map mj_owner (md_jobs put_off_db) = [Owner_User 1]"
    "map mj_session_id (md_jobs put_off_db) = [''s'']" "list_all (\<lambda>e. e_status e = Ob_Processed) (md_events put_off_db)"
    by code_simp+
  then obtain j where j: "md_jobs put_off_db = [j]" "mj_status j = M_Pending" "mj_owner j = Owner_User 1" "mj_session_id j = ''s''"
    by (cases "md_jobs put_off_db") auto
  then have "sort_key mj_created_at (filter (\<lambda>job. of_chat (Owner_User 1) ''s'' job \<and> open_job job) (md_jobs put_off_db)) = [j]"
    by (simp add: of_chat_def open_job_def)
  with v nothing_due [OF v(4)] show ?thesis by (simp add: schedule_chat_def Let_def)
qed

end
