(* ===== verification/Rate_Limit.thy ===== *)
theory Rate_Limit
  imports Router_Prelude
begin

text \<open>
  Rate limits (\<open>services/rate_limit.py\<close>): sliding windows in Redis sorted sets shared by all
  workers, the per-process windows that stand in for them when Redis fails, the failure counters,
  and the limits of logins and of paid calls.
\<close>

section \<open>State\<close>

text \<open>
  Sorted sets with the time at which Redis drops them (on its own clock), the in-memory buckets
  of one process, and the counter of fallbacks.
\<close>

record limiter =
  rl_sets :: "string \<Rightarrow> (string \<times> time) list"
  rl_expiry :: "string \<Rightarrow> time option"
  rl_buckets :: "string \<Rightarrow> time list option"
  rl_fallbacks :: nat

text \<open>How Redis answers: there is no client, the pipeline fails before or after it was applied, or it is served.\<close>

datatype redis_conn = No_Client | Pipeline_Error bool | Served

definition RATE_LIMIT_EXCEEDED :: py_error where
  "RATE_LIMIT_EXCEEDED = HTTPException 429 ''Rate limit exceeded. Try again shortly.''"

definition REDIS_UNAVAILABLE_LOGIN :: py_error where
  "REDIS_UNAVAILABLE_LOGIN = HTTPException 503 ''Login temporarily unavailable. Try again shortly.''"

definition LOGIN_USER_LIMIT :: int where
  "LOGIN_USER_LIMIT = 20"

definition LOGIN_IP_LIMIT :: int where
  "LOGIN_IP_LIMIT = 60"

section \<open>Sorted sets\<close>

definition live_set :: "time \<Rightarrow> string \<Rightarrow> limiter \<Rightarrow> (string \<times> time) list" where
  "live_set rt key st = (case rl_expiry st key of None \<Rightarrow> rl_sets st key | Some t \<Rightarrow> if rt < t then rl_sets st key else [])"

definition live_expiry :: "time \<Rightarrow> string \<Rightarrow> limiter \<Rightarrow> time option" where
  "live_expiry rt key st = (case rl_expiry st key of None \<Rightarrow> None | Some t \<Rightarrow> if rt < t then Some t else None)"

definition zadd :: "string \<Rightarrow> time \<Rightarrow> (string \<times> time) list \<Rightarrow> (string \<times> time) list" where
  "zadd member score s = filter (\<lambda>(m, _). m \<noteq> member) s @ [(member, score)]"

definition zremrangebyscore :: "time \<Rightarrow> time \<Rightarrow> (string \<times> time) list \<Rightarrow> (string \<times> time) list" where
  "zremrangebyscore lo hi s = filter (\<lambda>(_, t). \<not> (lo \<le> t \<and> t \<le> hi)) s"

definition store_set :: "string \<Rightarrow> (string \<times> time) list \<Rightarrow> time option \<Rightarrow> limiter \<Rightarrow> limiter" where
  "store_set key s expiry st = st\<lparr>rl_sets := (rl_sets st)(key := s), rl_expiry := (rl_expiry st)(key := expiry)\<rparr>"

section \<open>Operations\<close>

text \<open>
  The pipeline of one attempt: \<open>rt\<close> is the time of Redis, \<open>now\<close> the monotonic clock of the
  worker, \<open>member\<close> the text that names the attempt.
\<close>

definition window_pipeline :: "time \<Rightarrow> time \<Rightarrow> string \<Rightarrow> string \<Rightarrow> int \<Rightarrow> limiter \<Rightarrow> limiter \<times> int" where
  "window_pipeline rt now key member window st =
     (let s = zremrangebyscore 0 (now - seconds window) (zadd member now (live_set rt key st))
      in (store_set key s (Some (rt + seconds (window + 5))) st, int (length s)))"

definition bucket :: "string \<Rightarrow> limiter \<Rightarrow> time list" where
  "bucket key st = (case rl_buckets st key of None \<Rightarrow> [] | Some hits \<Rightarrow> hits)"

definition memory_window :: "time \<Rightarrow> string \<Rightarrow> int \<Rightarrow> int \<Rightarrow> limiter \<Rightarrow> limiter \<times> unit result" where
  "memory_window now key limit window st =
     (let hits = filter (\<lambda>t. t > now - seconds window) (bucket key st)
      in if int (length hits) \<ge> limit then (st\<lparr>rl_buckets := (rl_buckets st)(key \<mapsto> hits)\<rparr>, Inl RATE_LIMIT_EXCEEDED)
         else (st\<lparr>rl_buckets := (rl_buckets st)(key \<mapsto> hits @ [now])\<rparr>, Inr ()))"

definition count_fallback :: "limiter \<Rightarrow> limiter" where
  "count_fallback st = st\<lparr>rl_fallbacks := rl_fallbacks st + 1\<rparr>"

definition check_rate_limit ::
    "redis_conn \<Rightarrow> time \<Rightarrow> time \<Rightarrow> string \<Rightarrow> string \<Rightarrow> int \<Rightarrow> int \<Rightarrow> bool \<Rightarrow> limiter \<Rightarrow> limiter \<times> unit result" where
  "check_rate_limit conn rt now member key limit window fail_closed st =
     (case conn of
        Served \<Rightarrow>
          let (st1, count) = window_pipeline rt now key member window st
          in if count > limit then (st1, Inl RATE_LIMIT_EXCEEDED) else (st1, Inr ())
      | Pipeline_Error applied \<Rightarrow>
          let st1 = count_fallback (if applied then fst (window_pipeline rt now key member window st) else st)
          in if fail_closed then (st1, Inl REDIS_UNAVAILABLE_LOGIN) else memory_window now key limit window st1
      | No_Client \<Rightarrow>
          if fail_closed then (count_fallback st, Inl REDIS_UNAVAILABLE_LOGIN)
          else memory_window now key limit window st)"

text \<open>\<open>wall\<close> is the wall clock, which scores the failures in Redis.\<close>

definition failure_limit_reached ::
    "redis_conn \<Rightarrow> time \<Rightarrow> time \<Rightarrow> time \<Rightarrow> string \<Rightarrow> int \<Rightarrow> int \<Rightarrow> limiter \<Rightarrow> limiter \<times> bool" where
  "failure_limit_reached conn rt wall now key limit window st =
     (let prune = (\<lambda>st. store_set key (zremrangebyscore 0 (wall - seconds window) (live_set rt key st)) (live_expiry rt key st) st);
          local = (\<lambda>st. let hits = filter (\<lambda>t. t > now - seconds window) (bucket key st)
             in (st\<lparr>rl_buckets := (rl_buckets st)(key \<mapsto> hits)\<rparr>, int (length hits) \<ge> limit))
      in case conn of
           Served \<Rightarrow> let st1 = prune st in (st1, int (length (rl_sets st1 key)) \<ge> limit)
         | Pipeline_Error applied \<Rightarrow> local (count_fallback (if applied then prune st else st))
         | No_Client \<Rightarrow> local st)"

definition record_failure ::
    "redis_conn \<Rightarrow> time \<Rightarrow> time \<Rightarrow> time \<Rightarrow> string \<Rightarrow> string \<Rightarrow> int \<Rightarrow> limiter \<Rightarrow> limiter" where
  "record_failure conn rt wall now member key window st =
     (let add = (\<lambda>st. store_set key (zadd member wall (live_set rt key st)) (Some (rt + seconds (window + 5))) st);
          local = (\<lambda>st. st\<lparr>rl_buckets := (rl_buckets st)(key \<mapsto> bucket key st @ [now])\<rparr>)
      in case conn of
           Served \<Rightarrow> add st
         | Pipeline_Error applied \<Rightarrow> local (count_fallback (if applied then add st else st))
         | No_Client \<Rightarrow> local st)"

definition prune_stale_buckets :: "time \<Rightarrow> int \<Rightarrow> limiter \<Rightarrow> limiter" where
  "prune_stale_buckets now max_age st =
     st\<lparr>rl_buckets := (\<lambda>k. case rl_buckets st k of None \<Rightarrow> None
        | Some hits \<Rightarrow> if hits = [] \<or> last hits < now - seconds max_age then None else Some hits)\<rparr>"

definition generation_subject :: "int option \<Rightarrow> int option \<Rightarrow> string" where
  "generation_subject user_id api_key_id =
     (case api_key_id of
        Some k \<Rightarrow> if k \<noteq> 0 then ''key:'' @ show_int k
          else (case user_id of Some u \<Rightarrow> if u \<noteq> 0 then ''user:'' @ show_int u else ''anonymous'' | None \<Rightarrow> ''anonymous'')
      | None \<Rightarrow> (case user_id of Some u \<Rightarrow> if u \<noteq> 0 then ''user:'' @ show_int u else ''anonymous'' | None \<Rightarrow> ''anonymous''))"

definition check_generation_rate_limit ::
    "redis_conn \<Rightarrow> time \<Rightarrow> time \<Rightarrow> string \<Rightarrow> string \<Rightarrow> string \<Rightarrow> int \<Rightarrow> limiter \<Rightarrow> limiter \<times> unit result" where
  "check_generation_rate_limit conn rt now member kind subject limit st =
     check_rate_limit conn rt now member (''generation:'' @ kind @ '':'' @ subject) (max 1 limit) 60 False st"

text \<open>The two windows of a login; the second call has its own Redis answer and member.\<close>

definition check_login_rate_limit ::
    "redis_conn \<Rightarrow> redis_conn \<Rightarrow> time \<Rightarrow> time \<Rightarrow> string \<Rightarrow> string \<Rightarrow> string \<Rightarrow> string option \<Rightarrow> limiter
      \<Rightarrow> limiter \<times> unit result" where
  "check_login_rate_limit conn conn_ip rt now member member_ip username source_ip st =
     (let scope = (if truthy source_ip then the source_ip else ''unknown'')
      in (case check_rate_limit conn rt now member (''login:user:'' @ username @ '':'' @ scope) LOGIN_USER_LIMIT 60 True st of
            (st1, Inl e) \<Rightarrow> (st1, Inl e)
          | (st1, Inr _) \<Rightarrow>
              if truthy source_ip
              then check_rate_limit conn_ip rt now member_ip (''login:ip:'' @ the source_ip) LOGIN_IP_LIMIT 60 True st1
              else (st1, Inr ())))"

section \<open>Histories of one key\<close>

text \<open>
  The answers to a history of attempts \<open>(time, member)\<close> on one key while Redis serves them,
  \<open>off\<close> being the distance of its clock from the workers', and what they should be: an attempt
  passes when the attempts of the window that ends with it, itself and refused ones included, are
  within the limit.
\<close>

fun window_run :: "time \<Rightarrow> string \<Rightarrow> int \<Rightarrow> int \<Rightarrow> bool \<Rightarrow> limiter \<Rightarrow> (time \<times> string) list \<Rightarrow> bool list" where
  "window_run off key limit window fc st [] = []"
| "window_run off key limit window fc st ((t, m) # xs) =
     (let (st', r) = check_rate_limit Served (t + off) t m key limit window fc st
      in (r = Inr ()) # window_run off key limit window fc st' xs)"

definition recent :: "int \<Rightarrow> time \<Rightarrow> time list \<Rightarrow> time list" where
  "recent window t ts = filter (\<lambda>u. u > t - seconds window) ts"

fun window_spec :: "int \<Rightarrow> int \<Rightarrow> time list \<Rightarrow> time list \<Rightarrow> bool list" where
  "window_spec limit window hist [] = []"
| "window_spec limit window hist (t # ts) =
     (int (length (recent window t (hist @ [t]))) \<le> limit) # window_spec limit window (hist @ [t]) ts"

text \<open>The answers of the in-memory window; a refused attempt leaves no trace here.\<close>

fun memory_run :: "string \<Rightarrow> int \<Rightarrow> int \<Rightarrow> limiter \<Rightarrow> time list \<Rightarrow> bool list" where
  "memory_run key limit window st [] = []"
| "memory_run key limit window st (t # ts) =
     (let (st', r) = check_rate_limit No_Client 0 t [] key limit window False st
      in (r = Inr ()) # memory_run key limit window st' ts)"

fun memory_spec :: "int \<Rightarrow> int \<Rightarrow> time list \<Rightarrow> time list \<Rightarrow> bool list" where
  "memory_spec limit window hist [] = []"
| "memory_spec limit window hist (t # ts) =
     (let ok = int (length (recent window t hist)) < limit
      in ok # memory_spec limit window (if ok then hist @ [t] else hist) ts)"

definition passed :: "time list \<Rightarrow> bool list \<Rightarrow> time list" where
  "passed ts oks = map fst (filter snd (zip ts oks))"

lemma passed_simps [simp]:
  "passed [] oks = []" "passed (t # ts) (ok # oks) = (if ok then t # passed ts oks else passed ts oks)"
  by (simp_all add: passed_def)

lemma recent_simps [simp]:
  "recent window t (xs @ ys) = recent window t xs @ recent window t ys"
  "recent window t [] = []" "recent window t (u # us) = (if u > t - seconds window then u # recent window t us else recent window t us)"
  by (simp_all add: recent_def)

lemma recent_recent: "t \<le> t' \<Longrightarrow> recent window t' (recent window t ts) = recent window t' ts"
  by (auto simp: recent_def intro!: filter_cong)

text \<open>
  What the sorted set of a key stands for: read at any later time it has exactly the attempts
  of the window, oldest first.
\<close>

definition mirrors :: "time \<Rightarrow> string \<Rightarrow> int \<Rightarrow> (time \<times> string) list \<Rightarrow> limiter \<Rightarrow> bool" where
  "mirrors off key window hist st \<longleftrightarrow> (\<forall>t. (\<forall>h \<in> set hist. fst h \<le> t) \<longrightarrow>
     set (live_set (t + off) key st) \<subseteq> prod.swap ` set hist \<and>
     filter (\<lambda>(_, u). u > t - seconds window) (live_set (t + off) key st)
       = map prod.swap (filter (\<lambda>(u, _). u > t - seconds window) hist))"

lemma window_pipeline_mirrors:
  assumes mir: "mirrors off key window hist st" and le: "\<forall>h \<in> set hist. fst h \<le> t \<and> 0 \<le> fst h" and t: "0 \<le> t"
    and new: "m \<notin> snd ` set hist" and w: "0 < window"
    and res: "window_pipeline (t + off) t key m window st = (st', n)"
  shows "mirrors off key window (hist @ [(t, m)]) st' \<and> n = int (length (recent window t (map fst hist @ [t])))"
proof -
  let ?live = "live_set (t + off) key st" and ?hist = "hist @ [(t, m)]"
  let ?s = "zremrangebyscore 0 (t - seconds window) (zadd m t ?live)"
  have wpos: "0 < seconds window" using w by (simp add: seconds_def)
  have swap: "filter (\<lambda>(_, u). P u) (map prod.swap xs) = map prod.swap (filter (\<lambda>(u, _). P u) xs)" for P and xs :: "(time \<times> string) list"
    by (induction xs) auto
  have sub: "set ?live \<subseteq> prod.swap ` set hist"
    and eq: "filter (\<lambda>(_, u). u > t - seconds window) ?live = map prod.swap (filter (\<lambda>(u, _). u > t - seconds window) hist)"
    using mir le by (auto simp: mirrors_def)
  have nonneg: "0 \<le> u" and other: "k \<noteq> m" if "(k, u) \<in> set ?live" for k u
    using that sub le new by force+
  have "zadd m t ?live = ?live @ [(m, t)]" using other by (auto simp: zadd_def filter_id_conv)
  then have "?s = filter (\<lambda>(_, u). u > t - seconds window) (?live @ [(m, t)])"
    using nonneg t by (auto simp: zremrangebyscore_def intro!: filter_cong)
  then have s: "?s = map prod.swap (filter (\<lambda>(u, _). u > t - seconds window) ?hist)" using eq wpos by simp
  have st': "st' = store_set key ?s (Some (t + off + seconds (window + 5))) st" and n: "n = int (length ?s)"
    using res by (simp_all add: window_pipeline_def Let_def)
  have "mirrors off key window ?hist st'" unfolding mirrors_def
  proof (intro allI impI)
    fix t' assume later: "\<forall>h \<in> set ?hist. fst h \<le> t'"
    have live': "live_set (t' + off) key st' = (if t' < t + seconds (window + 5) then ?s else [])"
      by (simp add: st' store_set_def live_set_def)
    have "filter (\<lambda>(u, _). u > t' - seconds window) (filter (\<lambda>(u, _). u > t - seconds window) ?hist)
        = filter (\<lambda>(u, _). u > t' - seconds window) ?hist"
      unfolding filter_filter by (rule filter_cong) (use later in auto)
    then have keep: "filter (\<lambda>(_, u). u > t' - seconds window) ?s = map prod.swap (filter (\<lambda>(u, _). u > t' - seconds window) ?hist)"
      by (simp only: s swap)
    have gone: "filter (\<lambda>(u, _). u > t' - seconds window) ?hist = []" if "\<not> t' < t + seconds (window + 5)"
    proof -
      have "u \<le> t' - seconds window" if "(u, k) \<in> set ?hist" for u k
        using that le \<open>\<not> t' < t + seconds (window + 5)\<close> by (auto simp: seconds_def)
      then show ?thesis unfolding filter_empty_conv by (metis (mono_tags, lifting) case_prodE linorder_not_le)
    qed
    have "set ?s \<subseteq> prod.swap ` set ?hist" unfolding s by auto
    with keep gone show "set (live_set (t' + off) key st') \<subseteq> prod.swap ` set ?hist \<and>
        filter (\<lambda>(_, u). u > t' - seconds window) (live_set (t' + off) key st')
          = map prod.swap (filter (\<lambda>(u, _). u > t' - seconds window) ?hist)"
      unfolding live' by (cases "t' < t + seconds (window + 5)") simp_all
  qed
  moreover have "map fst (filter (\<lambda>(u, _). u > t - seconds window) ?hist) = recent window t (map fst hist @ [t])"
    by (simp add: recent_def filter_map comp_def case_prod_unfold)
  then have "n = int (length (recent window t (map fst hist @ [t])))"
    unfolding n s by (metis length_map)
  ultimately show ?thesis by blast
qed

lemma window_run_spec:
  assumes "mirrors off key window hist st" and "0 < window" and "sorted (map fst hist @ map fst xs)"
    and "\<forall>h \<in> set (hist @ xs). 0 \<le> fst h" and "distinct (map snd (hist @ xs))"
  shows "window_run off key limit window fc st xs = window_spec limit window (map fst hist) (map fst xs)"
  using assms
proof (induction xs arbitrary: hist st)
  case (Cons x xs)
  obtain t m where x: "x = (t, m)" by (rule prod.exhaust)
  obtain st' n where p: "window_pipeline (t + off) t key m window st = (st', n)" by (rule prod.exhaust)
  have le: "\<forall>h \<in> set hist. fst h \<le> t \<and> 0 \<le> fst h" using Cons.prems(3,4) by (auto simp: x sorted_append)
  have t: "0 \<le> t" and m: "m \<notin> snd ` set hist" using Cons.prems(4,5) by (auto simp: x)
  from window_pipeline_mirrors [OF Cons.prems(1) le t m Cons.prems(2) p]
  have mir: "mirrors off key window (hist @ [(t, m)]) st'" and n: "n = int (length (recent window t (map fst hist @ [t])))" by auto
  have "window_run off key limit window fc st' xs = window_spec limit window (map fst (hist @ [(t, m)])) (map fst xs)"
    by (rule Cons.IH [OF mir Cons.prems(2)]) (use Cons.prems(3-) in \<open>auto simp: x\<close>)
  then show ?case by (simp add: x check_rate_limit_def p n)
qed simp

lemma memory_run_spec:
  assumes "\<And>t'. t' \<ge> t0 \<Longrightarrow> recent window t' (bucket key st) = recent window t' hist" and "sorted (t0 # ts)"
  shows "memory_run key limit window st ts = memory_spec limit window hist ts"
  using assms
proof (induction ts arbitrary: t0 hist st)
  case (Cons t ts)
  let ?h = "recent window t hist"
  have t: "t0 \<le> t" using Cons.prems(2) by simp
  have h: "filter (\<lambda>u. u > t - seconds window) (bucket key st) = ?h"
    using Cons.prems(1) [OF t] by (simp add: recent_def)
  obtain st' r where res: "memory_window t key limit window st = (st', r)" by (rule prod.exhaust)
  have mw: "memory_window t key limit window st =
      (if int (length ?h) \<ge> limit then (st\<lparr>rl_buckets := (rl_buckets st)(key \<mapsto> ?h)\<rparr>, Inl RATE_LIMIT_EXCEEDED)
       else (st\<lparr>rl_buckets := (rl_buckets st)(key \<mapsto> ?h @ [t])\<rparr>, Inr ()))"
    unfolding memory_window_def Let_def h ..
  have r: "r = Inr () \<longleftrightarrow> int (length ?h) < limit"
    and b: "bucket key st' = (if int (length ?h) < limit then ?h @ [t] else ?h)"
    using res unfolding mw by (auto simp: bucket_def split: if_splits)
  have "memory_run key limit window st' ts = memory_spec limit window (if int (length ?h) < limit then hist @ [t] else hist) ts"
    by (rule Cons.IH [of t]) (use Cons.prems(2) in \<open>auto simp: b recent_recent\<close>)
  then show ?case by (simp add: check_rate_limit_def res r Let_def)
qed simp

section \<open>How much passes\<close>

text \<open>No window of the configured length has more than \<open>limit\<close> of the times.\<close>

definition at_most :: "int \<Rightarrow> int \<Rightarrow> time list \<Rightarrow> bool" where
  "at_most limit window ts \<longleftrightarrow> (\<forall>T. int (length (filter (\<lambda>u. T - seconds window < u \<and> u \<le> T) ts)) \<le> max 0 limit)"

lemma at_most_append:
  assumes am: "at_most limit window acc" and le: "int (length (recent window t acc)) < limit"
  shows "at_most limit window (acc @ [t])"
  unfolding at_most_def
proof
  fix T
  let ?in = "\<lambda>u. T - seconds window < u \<and> u \<le> T"
  show "int (length (filter ?in (acc @ [t]))) \<le> max 0 limit"
  proof (cases "?in t")
    case False
    then have "filter ?in (acc @ [t]) = filter ?in acc" by auto
    with am show ?thesis unfolding at_most_def by metis
  next
    case True
    have "length (filter ?in acc) = length (filter ?in (recent window t acc))"
      using True by (auto simp: recent_def intro!: arg_cong [where f = length] filter_cong)
    also have "\<dots> \<le> length (recent window t acc)" by simp
    finally show ?thesis using le True by simp
  qed
qed

lemma memory_spec_bound:
  "at_most limit window hist \<Longrightarrow> at_most limit window (hist @ passed ts (memory_spec limit window hist ts))"
proof (induction ts arbitrary: hist)
  case (Cons t ts)
  from Cons.IH [of "hist @ [t]"] Cons.IH [of hist] Cons.prems at_most_append [of limit window hist t]
  show ?case by (auto simp: Let_def)
qed simp

lemma window_spec_bound:
  assumes "0 < window" "at_most limit window acc" "\<And>p. length (filter p acc) \<le> length (filter p hist)"
  shows "at_most limit window (acc @ passed ts (window_spec limit window hist ts))"
  using assms(2,3)
proof (induction ts arbitrary: acc hist)
  case (Cons t ts)
  have w: "0 < seconds window" using assms(1) by (simp add: seconds_def)
  show ?case
  proof (cases "int (length (recent window t (hist @ [t]))) \<le> limit")
    case True
    have "length (recent window t acc) \<le> length (recent window t hist)" using Cons.prems(2) by (simp add: recent_def)
    with True w have "int (length (recent window t acc)) < limit" by simp
    from at_most_append [OF Cons.prems(1) this] have "at_most limit window (acc @ [t])" .
    from Cons.IH [OF this, of "hist @ [t]"] Cons.prems(2) True show ?thesis by simp
  next
    case False
    from Cons.IH [OF Cons.prems(1), of "hist @ [t]"] Cons.prems(2) False show ?thesis
      by (simp add: le_SucI add_increasing2)
  qed
qed simp

section \<open>Properties\<close>

text \<open>
  C17: while Redis serves the limiter, the answers to any history of attempts on a key are
  those of the window specification: an attempt passes exactly when the attempts of the last
  window, itself and the refused ones included, are within the limit. So no window has more than
  the limit of passed calls, however long the history and although Redis drops idle keys.
\<close>

theorem redis_window:
  assumes "rl_sets st key = []" and "0 < window" and "sorted (map fst xs)" and "list_all (\<lambda>x. 0 \<le> fst x) xs"
    and "distinct (map snd xs)"
  shows "window_run off key limit window fc st xs = window_spec limit window [] (map fst xs) \<and>
    at_most limit window (passed (map fst xs) (window_run off key limit window fc st xs))"
proof -
  have "mirrors off key window [] st" using assms(1) by (auto simp: mirrors_def live_set_def split: option.split)
  from window_run_spec [OF this assms(2)] assms(3-) have "window_run off key limit window fc st xs = window_spec limit window [] (map fst xs)"
    by (simp add: list_all_iff)
  moreover have "at_most limit window []" by (simp add: at_most_def)
  from window_spec_bound [OF assms(2) this, of "[]" "map fst xs"]
  have "at_most limit window (passed (map fst xs) (window_spec limit window [] (map fst xs)))" by simp
  ultimately show ?thesis by simp
qed

definition empty_limiter :: limiter where
  "empty_limiter = \<lparr>rl_sets = (\<lambda>_. []), rl_expiry = (\<lambda>_. None), rl_buckets = (\<lambda>_. None), rl_fallbacks = 0\<rparr>"

theorem redis_window_witness:
  "window_run 0 ''k'' 1 60 False empty_limiter [(0, ''a''), (5, ''b''), (70000000, ''c'')] = [True, False, True]"
  using redis_window [of empty_limiter "''k''" 60 "[(0, ''a''), (5, ''b''), (70000000, ''c'')]" 0 1 False]
  by (simp add: empty_limiter_def recent_def seconds_def)

text \<open>
  Without Redis a caller that may fail open is limited by its own process: the
  answers are those of the specification in which only passed calls count, and again no window
  has more than the limit of passed calls.
\<close>

theorem memory_fallback:
  assumes "rl_buckets st key = None" and "sorted ts"
  shows "memory_run key limit window st ts = memory_spec limit window [] ts \<and>
    at_most limit window (passed ts (memory_run key limit window st ts))"
proof -
  have "memory_run key limit window st ts = memory_spec limit window [] ts"
  proof (cases ts)
    case (Cons t us)
    show ?thesis
      by (rule memory_run_spec [of t]) (use assms Cons in \<open>auto simp: bucket_def recent_def\<close>)
  qed simp
  moreover have "at_most limit window []" by (simp add: at_most_def)
  from memory_spec_bound [OF this, of ts] have "at_most limit window (passed ts (memory_spec limit window [] ts))" by simp
  ultimately show ?thesis by simp
qed

theorem memory_fallback_witness:
  "memory_run ''k'' 1 60 empty_limiter [0, 59000000, 61000000] = [True, False, True]"
  using memory_fallback [of empty_limiter "''k''" "[0, 59000000, 61000000]" 1 60]
  by (simp add: empty_limiter_def recent_def seconds_def Let_def)

text \<open>
  A login that passes was counted by Redis within both limits, the one of the pair of
  name and address and the one of the address. When Redis does not serve it, the answer is 503;
  the in-memory windows are never used for logins.
\<close>

theorem login_fail_closed:
  assumes "check_login_rate_limit conn conn_ip rt now m m_ip username source_ip st = (st', r)"
  shows "rl_buckets st' = rl_buckets st \<and>
    (r = Inr () \<longrightarrow> conn = Served \<and> (truthy source_ip \<longrightarrow> conn_ip = Served \<and>
       int (length (rl_sets st' (''login:ip:'' @ the source_ip))) \<le> 60)) \<and>
    (conn \<noteq> Served \<longrightarrow> r = Inl REDIS_UNAVAILABLE_LOGIN) \<and>
    (conn = Served \<longrightarrow> r = Inl RATE_LIMIT_EXCEEDED \<or> snd (window_pipeline rt now
       (''login:user:'' @ username @ '':'' @ (if truthy source_ip then the source_ip else ''unknown'')) m 60 st) \<le> 20)"
proof -
  have closed: "rl_buckets (fst (check_rate_limit c rt now k key l 60 True s)) = rl_buckets s \<and>
      (snd (check_rate_limit c rt now k key l 60 True s) = Inr () \<longrightarrow>
        c = Served \<and> int (length (rl_sets (fst (check_rate_limit c rt now k key l 60 True s)) key)) \<le> l) \<and>
      (c \<noteq> Served \<longrightarrow> snd (check_rate_limit c rt now k key l 60 True s) = Inl REDIS_UNAVAILABLE_LOGIN)" for c k key l s
    by (cases c) (auto simp: check_rate_limit_def window_pipeline_def store_set_def count_fallback_def Let_def)
  let ?key = "''login:user:'' @ username @ '':'' @ (if truthy source_ip then the source_ip else ''unknown'')"
  obtain st1 r1 where first: "check_rate_limit conn rt now m ?key LOGIN_USER_LIMIT 60 True st = (st1, r1)" by (rule prod.exhaust)
  have served: "r1 = Inl RATE_LIMIT_EXCEEDED \<or> snd (window_pipeline rt now ?key m 60 st) \<le> 20" if "conn = Served"
    using first that by (auto simp: check_rate_limit_def LOGIN_USER_LIMIT_def split: prod.splits if_splits)
  note c1 = closed [of conn m ?key LOGIN_USER_LIMIT st, unfolded first fst_conv snd_conv]
  show ?thesis
  proof (cases r1)
    case (Inl e)
    with assms first have "st' = st1" "r = Inl e" by (simp_all add: check_login_rate_limit_def)
    with c1 served Inl show ?thesis by auto
  next
    case (Inr u)
    note c2 = closed [of conn_ip m_ip "''login:ip:'' @ the source_ip" LOGIN_IP_LIMIT st1]
    from assms first Inr have "if truthy source_ip
        then check_rate_limit conn_ip rt now m_ip (''login:ip:'' @ the source_ip) LOGIN_IP_LIMIT 60 True st1 = (st', r)
        else st' = st1 \<and> r = Inr ()" by (simp add: check_login_rate_limit_def split: if_splits)
    with c1 c2 served Inr show ?thesis by (cases "truthy source_ip") (auto simp: LOGIN_IP_LIMIT_def)
  qed
qed

theorem login_fail_closed_witness:
  "snd (check_login_rate_limit No_Client Served 0 0 ''m'' ''n'' ''root'' (Some ''ip'') empty_limiter) = Inl REDIS_UNAVAILABLE_LOGIN"
  using login_fail_closed [OF surjective_pairing, of No_Client Served 0 0 "''m''" "''n''" "''root''" "Some ''ip''" empty_limiter]
  by simp

end
