(* ===== verification/Roles.thy ===== *)
theory Roles
  imports Router_Prelude "HOL-Library.List_Lexorder" "HOL-Library.Char_ord"
begin

text \<open>
  Role-based access control of the admin panel (\<open>services/rbac.py\<close>): the menus, the role
  catalogue, which roles read and write which menus, the permissions of the Agents and Knowledge
  domain, who may assign which roles, the menu of a path, and the session payload.

  A role is text, as the code has it. \<open>None\<close> and the empty text take the same branch of
  \<open>role or USER_SLUG\<close>, so the empty text stands for both. Frozen sets of slugs are lists whose
  elements are tested for membership.
\<close>

section \<open>Slugs\<close>

definition ALL_SECTIONS_CATEGORY :: string where
  [simp]: "ALL_SECTIONS_CATEGORY = ''All sections''"

definition USER_CATEGORY :: string where
  [simp]: "USER_CATEGORY = ''User''"

definition LEGACY_ADMIN_SLUG :: string where
  [simp]: "LEGACY_ADMIN_SLUG = ''admin''"

definition FULL_ADMIN_SLUG :: string where
  [simp]: "FULL_ADMIN_SLUG = ''full_administrator''"

definition READ_ONLY_FULL_ADMIN_SLUG :: string where
  [simp]: "READ_ONLY_FULL_ADMIN_SLUG = ''read_only_full_administrator''"

definition LEGACY_READ_ONLY_ADMIN_SLUG :: string where
  [simp]: "LEGACY_READ_ONLY_ADMIN_SLUG = ''read_only_administrator''"

definition USER_SLUG :: string where
  [simp]: "USER_SLUG = ''user''"

definition SUPER_ADMIN_SLUG :: string where
  [simp]: "SUPER_ADMIN_SLUG = ''super_admin''"

definition READ_ONLY_SUPER_ADMIN_SLUG :: string where
  [simp]: "READ_ONLY_SUPER_ADMIN_SLUG = ''read_only_super_admin''"

definition API_KEY_ADMIN_SLUG :: string where
  [simp]: "API_KEY_ADMIN_SLUG = ''api_keys_full_administrator''"

definition DASHBOARD_VIEW_SLUG :: string where
  [simp]: "DASHBOARD_VIEW_SLUG = ''dashboard_read_only_administrator''"

definition REPORTS_ACCESS_SLUG :: string where
  [simp]: "REPORTS_ACCESS_SLUG = ''reports_full_administrator''"

definition AGENTS_ADMIN_SLUG :: string where
  [simp]: "AGENTS_ADMIN_SLUG = ''agents_administrator''"

definition AGENT_DESIGNER_SLUG :: string where
  [simp]: "AGENT_DESIGNER_SLUG = ''agent_designer''"

definition AGENT_PUBLISHER_SLUG :: string where
  [simp]: "AGENT_PUBLISHER_SLUG = ''agent_publisher''"

definition KNOWLEDGE_ADMIN_SLUG :: string where
  [simp]: "KNOWLEDGE_ADMIN_SLUG = ''knowledge_administrator''"

definition KNOWLEDGE_CURATOR_SLUG :: string where
  [simp]: "KNOWLEDGE_CURATOR_SLUG = ''knowledge_curator''"

definition KNOWLEDGE_PUBLISHER_SLUG :: string where
  [simp]: "KNOWLEDGE_PUBLISHER_SLUG = ''knowledge_publisher''"

definition DOMAIN_APPROVER_SLUG :: string where
  [simp]: "DOMAIN_APPROVER_SLUG = ''agent_domain_approver''"

definition TOOL_ADMIN_SLUG :: string where
  [simp]: "TOOL_ADMIN_SLUG = ''agent_tool_administrator''"

definition AGENT_OPERATIONS_ADMIN_SLUG :: string where
  [simp]: "AGENT_OPERATIONS_ADMIN_SLUG = ''agent_operations_administrator''"

definition AGENT_AUDITOR_SLUG :: string where
  [simp]: "AGENT_AUDITOR_SLUG = ''agent_auditor''"

definition SUPPORT_SLUG :: string where
  [simp]: "SUPPORT_SLUG = ''support_agent''"

section \<open>Menus\<close>

definition MENU_DEFINITIONS :: "(string \<times> string \<times> string) list" where
  "MENU_DEFINITIONS =
    [(''dashboard'', ''Dashboard'', ''overview''),
    (''operations'', ''Operations'', ''overview''),
    (''database'', ''Database'', ''overview''),
    (''tickets'', ''Tickets'', ''overview''),
    (''chat'', ''Chat'', ''overview''),
    (''media'', ''Media'', ''overview''),
    (''connections'', ''Connections'', ''models_api''),
    (''models'', ''Models'', ''models_api''),
    (''api_keys'', ''API Keys'', ''models_api''),
    (''chat_tools'', ''Chat Tools'', ''chat_experience''),
    (''memory'', ''Memory'', ''chat_experience''),
    (''roles'', ''Roles'', ''people_access''),
    (''users'', ''Users'', ''people_access''),
    (''deleted_users'', ''Deleted Users'', ''people_access''),
    (''groups'', ''Groups'', ''people_access''),
    (''plans'', ''Plans'', ''people_access''),
    (''authentication'', ''Authentication'', ''people_access''),
    (''smtp'', ''SMTP Server'', ''integrations''),
    (''exchange_ews'', ''Exchange EWS'', ''integrations''),
    (''storage'', ''Storage'', ''data_reports''),
    (''reports'', ''Reports'', ''data_reports''),
    (''api_logs'', ''API Logs'', ''data_reports''),
    (''sign_in_activity'', ''Sign-in Activity'', ''data_reports''),
    (''agents'', ''Agents & Knowledge'', ''agents_knowledge''),
    (''admin_guide'', ''Admin Guide'', ''developer''),
    (''user_manual'', ''User Manual'', ''developer''),
    (''security_settings'', ''Security Settings'', ''security''),
    (''guardrails'', ''Guardrails'', ''security'')]"

definition REENABLED_SCOPED_ROLE_SLUGS :: "string list" where
  "REENABLED_SCOPED_ROLE_SLUGS = [DASHBOARD_VIEW_SLUG, REPORTS_ACCESS_SLUG]"

definition ASSIGNABLE_ADMIN_MENUS :: "string list" where
  "ASSIGNABLE_ADMIN_MENUS = [''api_keys'']"

definition USER_APP_MENUS :: "string list" where
  "USER_APP_MENUS = [''chat'', ''media'', ''user_manual'']"

definition all_historical_menu_role_slugs :: "string list" where
  "all_historical_menu_role_slugs =
     concat (map (\<lambda>(menu, _, _). [menu @ ''_full_administrator'', menu @ ''_read_only_administrator'']) MENU_DEFINITIONS)"

definition REMOVED_ASSIGNABLE_ROLE_SLUGS :: "string list" where
  "REMOVED_ASSIGNABLE_ROLE_SLUGS =
     [FULL_ADMIN_SLUG, READ_ONLY_FULL_ADMIN_SLUG,
      ''recommendations_full_administrator'', ''recommendations_read_only_administrator''] @
     filter (\<lambda>s. s \<noteq> API_KEY_ADMIN_SLUG \<and> s \<notin> set REENABLED_SCOPED_ROLE_SLUGS) all_historical_menu_role_slugs"

definition LEGACY_SUPER_ADMIN_SLUGS :: "string list" where
  "LEGACY_SUPER_ADMIN_SLUGS =
     [FULL_ADMIN_SLUG, READ_ONLY_FULL_ADMIN_SLUG, LEGACY_READ_ONLY_ADMIN_SLUG, LEGACY_ADMIN_SLUG]"

definition GLOBAL_FULL_ADMIN_SLUGS :: "string list" where
  "GLOBAL_FULL_ADMIN_SLUGS = [SUPER_ADMIN_SLUG, FULL_ADMIN_SLUG, LEGACY_ADMIN_SLUG]"

definition GLOBAL_READ_ONLY_SLUGS :: "string list" where
  "GLOBAL_READ_ONLY_SLUGS = [READ_ONLY_SUPER_ADMIN_SLUG, READ_ONLY_FULL_ADMIN_SLUG, LEGACY_READ_ONLY_ADMIN_SLUG]"

definition GLOBAL_ROLE_SLUGS :: "string list" where
  "GLOBAL_ROLE_SLUGS = GLOBAL_FULL_ADMIN_SLUGS @ GLOBAL_READ_ONLY_SLUGS"

definition MENU_LABELS :: "(string \<times> string) list" where
  "MENU_LABELS = map (\<lambda>(menu, label, _). (menu, label)) MENU_DEFINITIONS"

definition MENU_GROUP_KEYS :: "(string \<times> string) list" where
  "MENU_GROUP_KEYS = map (\<lambda>(menu, _, g). (menu, g)) MENU_DEFINITIONS"

definition CATEGORY_LABELS :: "(string \<times> string) list" where
  "CATEGORY_LABELS =
    [(''overview'', ''Overview''),
    (''models_api'', ''Models & API''),
    (''chat_experience'', ''Chat experience''),
    (''people_access'', ''People & access''),
    (''integrations'', ''Integrations''),
    (''data_reports'', ''Data & reports''),
    (''agents_knowledge'', ''Agents & Knowledge''),
    (''developer'', ''Developer''),
    (''security'', ''Security'')]"

definition MENU_PATH_PREFIXES :: "(string \<times> string list) list" where
  "MENU_PATH_PREFIXES =
    [(''dashboard'', [''/admin'', ''/admin/my-activity'']),
     (''chat'', [''/admin/chat'', ''/admin/my-connections'']),
     (''media'', [''/admin/media'']),
     (''connections'', [''/admin/connections'']),
     (''models'', [''/admin/models'']),
     (''api_keys'', [''/admin/api-keys'']),
     (''roles'', [''/admin/roles'']),
     (''users'', [''/admin/users'']),
     (''deleted_users'', [''/admin/deleted-users'']),
     (''groups'', [''/admin/groups'']),
     (''plans'', [''/admin/plans'']),
     (''authentication'', [''/admin/authentication'']),
     (''smtp'', [''/admin/smtp'']),
     (''exchange_ews'', [''/admin/exchange-ews'']),
     (''storage'', [''/admin/storage-management'', ''/admin/retention-policy'', ''/admin/storage'']),
     (''reports'', [''/admin/reports'', ''/admin/project-usage'']),
     (''api_logs'', [''/admin/logs'', ''/admin/admin-logs'']),
     (''sign_in_activity'', [''/admin/sign-in-activity'']),
     (''operations'', [''/admin/operations'', ''/admin/debug'']),
     (''database'', [''/admin/database'']),
     (''chat_tools'', [''/admin/chat-tools'', ''/admin/code-interpreter'', ''/admin/feature-access'']),
     (''memory'', [''/admin/memory'']),
     (''agents'', [''/admin/agents'', ''/admin/knowledge'', ''/admin/agent-tools'', ''/admin/agent-
       evaluations'', ''/admin/agent-approvals'', ''/admin/agent-activity'']),
     (''admin_guide'', [''/admin/docs'']),
     (''user_manual'', [''/admin/manual'']),
     (''security_settings'', [''/admin/security-settings'']),
     (''guardrails'', [''/admin/guardrails'']),
     (''tickets'', [''/admin/tickets''])]"

text \<open>\<open>setdefault(group, ())\<close>, then the menu appended; a dictionary keeps the order of first use.\<close>

fun add_to_group :: "string \<Rightarrow> string \<Rightarrow> (string \<times> string list) list \<Rightarrow> (string \<times> string list) list" where
  "add_to_group g m [] = [(g, [m])]"
| "add_to_group g m ((g', ms) # d) = (if g' = g then (g', ms @ [m]) # d else (g', ms) # add_to_group g m d)"

definition MENUS_BY_CATEGORY :: "(string \<times> string list) list" where
  "MENUS_BY_CATEGORY = foldl (\<lambda>d (menu, _, g). add_to_group g menu d) [] MENU_DEFINITIONS"

section \<open>The role catalogue\<close>

record role_definition =
  rd_slug :: string
  rd_name :: string
  rd_description :: string
  rd_category :: string
  rd_menu_key :: "string option"
  rd_read_only :: bool
  rd_is_user_panel :: bool

definition role_def :: "string \<Rightarrow> string \<Rightarrow> string \<Rightarrow> string \<Rightarrow> string option \<Rightarrow> bool \<Rightarrow> bool \<Rightarrow> role_definition" where
  "role_def slug name description category menu_key read_only is_user_panel =
     \<lparr>rd_slug = slug, rd_name = name, rd_description = description, rd_category = category,
      rd_menu_key = menu_key, rd_read_only = read_only, rd_is_user_panel = is_user_panel\<rparr>"

text \<open>\<open>CATEGORY_LABELS[key]\<close>; every key the catalogue uses is present (\<open>category_keys_known\<close>).\<close>

definition category_label :: "string \<Rightarrow> string" where
  "category_label k = (case map_of CATEGORY_LABELS k of Some l \<Rightarrow> l | None \<Rightarrow> [])"

definition ROLE_CATALOG :: "role_definition list" where
  "ROLE_CATALOG =
    [role_def USER_SLUG ''User''
       ''Standard end-user access to Chat, Media, Activity, and the User Manual.''
       (USER_CATEGORY) None False True,
     role_def SUPER_ADMIN_SLUG ''Super Admin''
       ''Full read and write access to every admin menu and the entire platform.''
       (ALL_SECTIONS_CATEGORY) None False False,
     role_def READ_ONLY_SUPER_ADMIN_SLUG ''Read Only Super Admin''
       ''Sees every admin menu and the whole platform, and cannot change any of it.''
       (ALL_SECTIONS_CATEGORY) None True False,
     role_def API_KEY_ADMIN_SLUG ''API Key Admin''
       ''Full read and write access to the API Keys admin menu.''
       (category_label ''models_api'') (Some ''api_keys'') False False,
     role_def DASHBOARD_VIEW_SLUG ''Dashboard View''
       ''View-only access to the Dashboard admin menu.''
       (category_label ''overview'') (Some ''dashboard'') True False,
     role_def REPORTS_ACCESS_SLUG ''Reports Access''
       ''Access to the Reports admin menu, including preview and export.''
       (category_label ''data_reports'') (Some ''reports'') False False,
     role_def SUPPORT_SLUG ''Support''
       ''Sees, answers, assigns and closes support tickets. Cannot change Tickets settings or delete tickets.''
       (category_label ''overview'') (Some ''tickets'') False False,
     role_def AGENTS_ADMIN_SLUG ''Agents Administrator''
       ''Manage the full Agents & Knowledge domain without bypassing required approvals.''
       (category_label ''agents_knowledge'') (Some ''agents'') False False,
     role_def AGENT_DESIGNER_SLUG ''Agent Designer''
       ''Create, clone, edit, test, and submit Agent drafts without publishing.''
       (category_label ''agents_knowledge'') (Some ''agents'') False False,
     role_def AGENT_PUBLISHER_SLUG ''Agent Publisher''
       ''Review, publish, archive, and roll back Agent versions.''
       (category_label ''agents_knowledge'') (Some ''agents'') False False,
     role_def KNOWLEDGE_ADMIN_SLUG ''Knowledge Administrator''
       ''Manage Knowledge Bases, ACLs, retrieval policy, and Agent bindings.''
       (category_label ''agents_knowledge'') (Some ''agents'') False False,
     role_def KNOWLEDGE_CURATOR_SLUG ''Knowledge Curator''
       ''Manage documents, metadata, sources, connectors, and ingestion drafts.''
       (category_label ''agents_knowledge'') (Some ''agents'') False False,
     role_def KNOWLEDGE_PUBLISHER_SLUG ''Knowledge Publisher''
       ''Review, publish, archive, and roll back Knowledge releases.''
       (category_label ''agents_knowledge'') (Some ''agents'') False False,
     role_def DOMAIN_APPROVER_SLUG ''Agent Domain Approver''
       ''Approve sensitive HR, Legal, and Finance changes and bindings.''
       (category_label ''agents_knowledge'') (Some ''agents'') False False,
     role_def TOOL_ADMIN_SLUG ''Agent Tool Administrator''
       ''Register and govern Agent tools, permissions, and compatibility.''
       (category_label ''agents_knowledge'') (Some ''agents'') False False,
     role_def AGENT_OPERATIONS_ADMIN_SLUG ''Agent Operations Administrator''
       ''Operate ingestion jobs, dead-letter queues, indexes, and reconciliation.''
       (category_label ''agents_knowledge'') (Some ''agents'') False False,
     role_def AGENT_AUDITOR_SLUG ''Agent Auditor''
       ''Read-only access to Agent evaluation, activity, and audit evidence.''
       (category_label ''agents_knowledge'') (Some ''agents'') True False]"

definition ROLE_BY_SLUG :: "string \<Rightarrow> role_definition option" where
  "ROLE_BY_SLUG slug = fetch rd_slug slug ROLE_CATALOG"

definition VALID_ROLE_SLUGS :: "string list" where
  "VALID_ROLE_SLUGS = map rd_slug ROLE_CATALOG @ LEGACY_SUPER_ADMIN_SLUGS"

definition AGENT_DOMAIN_PERMISSIONS :: "string list" where
  "AGENT_DOMAIN_PERMISSIONS =
    [''agent.read'', ''agent.create'', ''agent.edit'', ''agent.test'', ''agent.submit'',
     ''agent.review'', ''agent.publish'', ''agent.rollback'', ''agent.archive'', ''agent.access.manage'',
     ''agent.knowledge.bind'', ''knowledge.read'', ''knowledge.create'', ''knowledge.edit'',
     ''knowledge.access.manage'', ''knowledge.documents.write'', ''knowledge.connectors.manage'',
     ''knowledge.sync.run'', ''knowledge.review'', ''knowledge.publish'', ''knowledge.rollback'',
     ''knowledge.purge'', ''tool.read'', ''tool.manage'', ''evaluation.read'', ''evaluation.run'',
     ''evaluation.manage'', ''approval.read'', ''approval.approve'', ''activity.read'',
     ''governance.read'', ''governance.hold.manage'', ''governance.retention.run'', ''operations.read'',
     ''operations.retry'', ''operations.reindex'']"

definition AGENT_READ_PERMISSIONS :: "string list" where
  "AGENT_READ_PERMISSIONS =
    [''agent.read'', ''knowledge.read'', ''tool.read'', ''evaluation.read'', ''approval.read'',
     ''activity.read'', ''governance.read'', ''operations.read'']"

definition AGENT_ROLE_PERMISSIONS :: "(string \<times> string list) list" where
  "AGENT_ROLE_PERMISSIONS =
    [(AGENTS_ADMIN_SLUG,
       AGENT_DOMAIN_PERMISSIONS),
     (AGENT_DESIGNER_SLUG,
       [''agent.read'', ''agent.create'', ''agent.edit'', ''agent.test'', ''agent.submit'',
        ''knowledge.read'', ''tool.read'', ''evaluation.read'', ''evaluation.run'']),
     (AGENT_PUBLISHER_SLUG,
       [''agent.read'', ''agent.review'', ''agent.publish'', ''agent.rollback'', ''agent.archive'',
        ''knowledge.read'', ''evaluation.read'', ''approval.read'']),
     (KNOWLEDGE_ADMIN_SLUG,
       [''agent.read'', ''agent.knowledge.bind'', ''knowledge.read'', ''knowledge.create'',
        ''knowledge.edit'', ''knowledge.access.manage'', ''knowledge.documents.write'',
        ''knowledge.connectors.manage'', ''knowledge.sync.run'', ''knowledge.purge'',
        ''operations.read'']),
     (KNOWLEDGE_CURATOR_SLUG,
       [''knowledge.read'', ''knowledge.edit'', ''knowledge.documents.write'',
        ''knowledge.connectors.manage'', ''knowledge.sync.run'', ''operations.read'']),
     (KNOWLEDGE_PUBLISHER_SLUG,
       [''knowledge.read'', ''knowledge.review'', ''knowledge.publish'', ''knowledge.rollback'',
        ''approval.read'']),
     (DOMAIN_APPROVER_SLUG,
       [''agent.read'', ''knowledge.read'', ''approval.read'', ''approval.approve'', ''activity.read'']),
     (TOOL_ADMIN_SLUG,
       [''agent.read'', ''tool.read'', ''tool.manage'', ''activity.read'']),
     (AGENT_OPERATIONS_ADMIN_SLUG,
       [''knowledge.read'', ''operations.read'', ''operations.retry'', ''operations.reindex'',
        ''activity.read'', ''governance.read'', ''governance.hold.manage'', ''governance.retention.run'']),
     (AGENT_AUDITOR_SLUG,
       [''agent.read'', ''knowledge.read'', ''tool.read'', ''evaluation.read'', ''approval.read'',
        ''activity.read'', ''governance.read'', ''operations.read''])]"

section \<open>Roles\<close>

definition normalize_role_slug :: "string \<Rightarrow> string" where
  "normalize_role_slug role =
     (let slug = lower (strip (if role = [] then USER_SLUG else role))
      in if slug = LEGACY_ADMIN_SLUG then FULL_ADMIN_SLUG
         else if slug = LEGACY_READ_ONLY_ADMIN_SLUG then READ_ONLY_FULL_ADMIN_SLUG
         else slug)"

text \<open>\<open>[normalize_role_slug(s) for s in slugs if s]\<close>\<close>

definition normalized_slugs :: "string list \<Rightarrow> string list" where
  "normalized_slugs slugs = map normalize_role_slug (filter (\<lambda>s. s \<noteq> []) slugs)"

definition bootstrap_super_admin_role_slugs :: "string list" where
  "bootstrap_super_admin_role_slugs = [SUPER_ADMIN_SLUG]"

definition is_legacy_super_admin_slug :: "string \<Rightarrow> bool" where
  "is_legacy_super_admin_slug slug \<longleftrightarrow> normalize_role_slug slug \<in> {FULL_ADMIN_SLUG, READ_ONLY_FULL_ADMIN_SLUG}"

definition user_has_super_admin_access :: "string list \<Rightarrow> bool" where
  "user_has_super_admin_access slugs \<longleftrightarrow>
     (let normalized = normalized_slugs slugs
      in if SUPER_ADMIN_SLUG \<in> set normalized then True
         else FULL_ADMIN_SLUG \<in> set normalized \<or> LEGACY_ADMIN_SLUG \<in> set normalized)"

definition grants_platform_wide_role :: "string list \<Rightarrow> bool" where
  "grants_platform_wide_role slugs \<longleftrightarrow> list_ex (\<lambda>s. s \<in> set GLOBAL_ROLE_SLUGS) (normalized_slugs slugs)"

definition actor_may_assign_roles :: "string list \<Rightarrow> string list \<Rightarrow> string list option \<Rightarrow> bool" where
  "actor_may_assign_roles actor_slugs new_slugs previous_slugs \<longleftrightarrow>
     (let actor_is_super = user_has_super_admin_access actor_slugs
      in if grants_platform_wide_role new_slugs \<and> \<not> actor_is_super then False
         else \<not> (case previous_slugs of None \<Rightarrow> False
                  | Some prev \<Rightarrow> grants_platform_wide_role prev \<and> \<not> actor_is_super))"

definition user_has_super_read_only_access :: "string list \<Rightarrow> bool" where
  "user_has_super_read_only_access slugs \<longleftrightarrow>
     list_ex (\<lambda>s. s \<in> set GLOBAL_READ_ONLY_SLUGS) (normalized_slugs slugs)"

text \<open>The loop over the sections of \<open>expand_legacy_role_slug\<close>.\<close>

fun expand_section :: "string \<Rightarrow> (string \<times> string list) list \<Rightarrow> string list" where
  "expand_section raw [] = []"
| "expand_section raw ((section, menus) # d) =
     (let assignable = filter (\<lambda>menu. menu \<in> set ASSIGNABLE_ADMIN_MENUS) menus
      in if raw = section @ ''_full_administrator'' then map (\<lambda>menu. menu @ ''_full_administrator'') assignable
         else if raw = section @ ''_read_only_administrator'' then []
         else expand_section raw d)"

definition expand_legacy_role_slug :: "string \<Rightarrow> string list" where
  "expand_legacy_role_slug slug =
     (let raw = lower (strip slug)
      in if raw \<in> {LEGACY_ADMIN_SLUG, FULL_ADMIN_SLUG, SUPER_ADMIN_SLUG} then [SUPER_ADMIN_SLUG]
         else if raw \<in> {LEGACY_READ_ONLY_ADMIN_SLUG, READ_ONLY_FULL_ADMIN_SLUG} then [READ_ONLY_SUPER_ADMIN_SLUG]
         else if raw = API_KEY_ADMIN_SLUG then [API_KEY_ADMIN_SLUG]
         else if raw \<in> set REMOVED_ASSIGNABLE_ROLE_SLUGS then []
         else if ROLE_BY_SLUG raw \<noteq> None then [raw]
         else expand_section raw MENUS_BY_CATEGORY)"

definition is_assignable_role_slug :: "string \<Rightarrow> bool" where
  "is_assignable_role_slug role \<longleftrightarrow>
     (let slug = normalize_role_slug role
      in ROLE_BY_SLUG slug \<noteq> None \<and> slug \<notin> set REMOVED_ASSIGNABLE_ROLE_SLUGS)"

definition get_role_definition :: "string \<Rightarrow> role_definition option" where
  "get_role_definition role =
     (let slug = normalize_role_slug role
      in if slug \<in> set REMOVED_ASSIGNABLE_ROLE_SLUGS then None else ROLE_BY_SLUG slug)"

definition is_valid_role_slug :: "string \<Rightarrow> bool" where
  "is_valid_role_slug role = is_assignable_role_slug role"

text \<open>One row of \<open>list_roles\<close>: the catalogue entry and \<open>MENU_GROUP_KEYS[menu_key]\<close> if it has a menu.\<close>

definition list_roles :: "(role_definition \<times> string option) list" where
  "list_roles = map (\<lambda>r. (r, case rd_menu_key r of None \<Rightarrow> None | Some m \<Rightarrow> map_of MENU_GROUP_KEYS m)) ROLE_CATALOG"

section \<open>Permissions of the Agents and Knowledge domain\<close>

definition agent_permissions_for_slugs :: "string list \<Rightarrow> string set" where
  "agent_permissions_for_slugs slugs =
     (let normalized = normalized_slugs slugs;
          permissions =
            (if list_ex (\<lambda>slug. user_has_super_admin_access [slug]) normalized
             then set AGENT_DOMAIN_PERMISSIONS
             else \<Union> (set (map (\<lambda>slug. case map_of AGENT_ROLE_PERMISSIONS slug of None \<Rightarrow> {} | Some ps \<Rightarrow> set ps) normalized)))
      in if list_ex (\<lambda>s. s \<in> set GLOBAL_READ_ONLY_SLUGS) normalized then set AGENT_READ_PERMISSIONS
         else permissions)"

definition user_has_agent_permission :: "string list \<Rightarrow> string \<Rightarrow> bool" where
  "user_has_agent_permission slugs permission \<longleftrightarrow>
     (let p = lower (strip permission)
      in p \<in> set AGENT_DOMAIN_PERMISSIONS \<and> p \<in> agent_permissions_for_slugs slugs)"

section \<open>Menus of a role\<close>

definition ends_with :: "string \<Rightarrow> string \<Rightarrow> bool" where
  "ends_with suffix s \<longleftrightarrow> take (length suffix) (rev s) = rev suffix"

definition starts_with :: "string \<Rightarrow> string \<Rightarrow> bool" where
  "starts_with p s \<longleftrightarrow> take (length p) s = p"

definition is_admin_panel_role :: "string \<Rightarrow> bool" where
  "is_admin_panel_role role \<longleftrightarrow>
     (let slug = normalize_role_slug role
      in if slug \<in> set REMOVED_ASSIGNABLE_ROLE_SLUGS \<and> slug \<notin> {FULL_ADMIN_SLUG, READ_ONLY_FULL_ADMIN_SLUG} then False
         else if slug \<in> set GLOBAL_ROLE_SLUGS then True
         else (case get_role_definition slug of None \<Rightarrow> False | Some d \<Rightarrow> \<not> rd_is_user_panel d))"

definition is_full_administrator :: "string \<Rightarrow> bool" where
  "is_full_administrator role \<longleftrightarrow> normalize_role_slug role \<in> set GLOBAL_FULL_ADMIN_SLUGS"

definition is_read_only_role :: "string \<Rightarrow> bool" where
  "is_read_only_role role \<longleftrightarrow>
     (if normalize_role_slug role \<in> set GLOBAL_READ_ONLY_SLUGS then True
      else (case get_role_definition role of None \<Rightarrow> False | Some d \<Rightarrow> rd_read_only d))"

text \<open>\<open>None\<close> is access to every menu.\<close>

definition accessible_menu_keys :: "string \<Rightarrow> string set option" where
  "accessible_menu_keys role =
     (let slug = normalize_role_slug role
      in if slug \<in> set GLOBAL_ROLE_SLUGS then None
         else (case get_role_definition slug of
                 None \<Rightarrow> Some {}
               | Some d \<Rightarrow>
                   if rd_is_user_panel d then Some {}
                   else (case rd_menu_key d of None \<Rightarrow> Some {} | Some m \<Rightarrow> if m = [] then Some {} else Some {m})))"

definition can_access_menu :: "string \<Rightarrow> string \<Rightarrow> bool" where
  "can_access_menu role menu \<longleftrightarrow>
     (if \<not> is_admin_panel_role role then False
      else (case accessible_menu_keys role of None \<Rightarrow> True | Some allowed \<Rightarrow> menu \<in> allowed))"

definition can_write_menu :: "string \<Rightarrow> string option \<Rightarrow> bool" where
  "can_write_menu role menu \<longleftrightarrow>
     (if \<not> is_admin_panel_role role then False
      else
        let slug = normalize_role_slug role;
            allowed = (if slug \<in> set GLOBAL_READ_ONLY_SLUGS then False
                       else \<not> ends_with ''_read_only_administrator'' slug)
        in (case menu of
              None \<Rightarrow> allowed
            | Some m \<Rightarrow> if m \<in> set USER_APP_MENUS then True
                        else if \<not> can_access_menu role m then False
                        else allowed))"

section \<open>The menu of a path\<close>

definition rstrip_slash :: "string \<Rightarrow> string" where
  "rstrip_slash path = rev (dropWhile (\<lambda>c. c = CHR ''/'') (rev path))"

definition normalized_path :: "string \<Rightarrow> string" where
  "normalized_path path = (let p = rstrip_slash path in if p = [] then ''/'' else p)"

text \<open>Whether a prefix applies: the admin root only to itself, any other to its whole subtree.\<close>

definition prefix_applies :: "string \<Rightarrow> string \<Rightarrow> bool" where
  "prefix_applies normalized p \<longleftrightarrow>
     (if p = ''/admin'' then normalized = ''/admin''
      else normalized = p \<or> starts_with (p @ ''/'') normalized)"

fun best_prefix :: "string \<Rightarrow> (string option \<times> int) \<Rightarrow> (string \<times> string) list \<Rightarrow> string option \<times> int" where
  "best_prefix normalized best [] = best"
| "best_prefix normalized (best, best_len) ((menu, p) # d) =
     (if prefix_applies normalized p \<and> best_len < int (length p)
      then best_prefix normalized (Some menu, int (length p)) d
      else best_prefix normalized (best, best_len) d)"

definition menu_prefixes :: "(string \<times> string) list" where
  "menu_prefixes = concat (map (\<lambda>(menu, ps). map (Pair menu) ps) MENU_PATH_PREFIXES)"

definition path_to_menu :: "string \<Rightarrow> string option" where
  "path_to_menu path = fst (best_prefix (normalized_path path) (None, -1) menu_prefixes)"

section \<open>Several roles at once\<close>

definition role_privilege_rank :: "string \<Rightarrow> int" where
  "role_privilege_rank role =
     (let slug = normalize_role_slug role
      in if slug = USER_SLUG then 0
         else if slug \<in> set GLOBAL_READ_ONLY_SLUGS then 10
         else if is_read_only_role slug then 20
         else if slug = SUPER_ADMIN_SLUG then 50
         else if slug = FULL_ADMIN_SLUG then 40
         else if ends_with ''_full_administrator'' slug then 30
         else if is_admin_panel_role slug then 25
         else 0)"

text \<open>\<open>min(xs, key=f)\<close>: the first of the elements with the least key.\<close>

fun min_by :: "('a \<Rightarrow> int) \<Rightarrow> 'a \<Rightarrow> 'a list \<Rightarrow> 'a" where
  "min_by f best [] = best"
| "min_by f best (x # xs) = min_by f (if f x < f best then x else best) xs"

definition primary_role_slug :: "string list \<Rightarrow> string" where
  "primary_role_slug slugs =
     (case normalized_slugs slugs of
        [] \<Rightarrow> USER_SLUG
      | n # ns \<Rightarrow>
          (case filter is_admin_panel_role (n # ns) of
             a # as \<Rightarrow> min_by role_privilege_rank a as
           | [] \<Rightarrow> if USER_SLUG \<in> set (n # ns) then USER_SLUG else min_by role_privilege_rank n ns))"

definition admin_role_slugs :: "string list \<Rightarrow> string list" where
  "admin_role_slugs slugs = map normalize_role_slug (filter is_admin_panel_role slugs)"

definition effective_accessible_menu_keys :: "string list \<Rightarrow> string set option" where
  "effective_accessible_menu_keys slugs =
     (let admin_slugs = admin_role_slugs slugs
      in if admin_slugs = [] then Some {}
         else if user_has_super_admin_access admin_slugs \<or> user_has_super_read_only_access admin_slugs then None
         else Some (\<Union> (set (map (\<lambda>slug. if slug \<in> set GLOBAL_ROLE_SLUGS then {}
                                  else (case accessible_menu_keys slug of None \<Rightarrow> {} | Some allowed \<Rightarrow> allowed))
                             (map normalize_role_slug admin_slugs)))))"

definition user_can_access_menu :: "string list \<Rightarrow> string \<Rightarrow> bool" where
  "user_can_access_menu slugs menu \<longleftrightarrow> list_ex (\<lambda>s. can_access_menu s menu) slugs"

function user_can_write_menu :: "string list \<Rightarrow> string option \<Rightarrow> bool" where
  "user_can_write_menu slugs (Some menu) \<longleftrightarrow>
     (let admin_slugs = admin_role_slugs slugs
      in if admin_slugs = [] then False
         else if menu \<in> set USER_APP_MENUS then True
         else
           let contributors = filter (\<lambda>s. can_access_menu s menu) admin_slugs
           in if contributors = [] then False
              else list_all (\<lambda>s. can_write_menu s (Some menu)) contributors)"
| "user_can_write_menu slugs None \<longleftrightarrow>
     (if admin_role_slugs slugs = [] then False
      else list_ex (\<lambda>m. user_can_write_menu slugs (Some m))
             (filter (\<lambda>m. m \<notin> set USER_APP_MENUS) (map fst MENU_LABELS)))"
  by pat_completeness auto

termination
  by (relation "measure (\<lambda>(_, m). case m of None \<Rightarrow> 1 | Some _ \<Rightarrow> 0)") auto

definition user_can_work_tickets :: "string list \<Rightarrow> bool" where
  "user_can_work_tickets slugs \<longleftrightarrow> user_can_write_menu slugs (Some ''tickets'')"

definition user_is_admin_panel :: "string list \<Rightarrow> bool" where
  "user_is_admin_panel slugs \<longleftrightarrow> list_ex is_admin_panel_role slugs"

definition user_is_read_only_admin :: "string list \<Rightarrow> bool" where
  "user_is_read_only_admin slugs \<longleftrightarrow>
     (if \<not> user_is_admin_panel slugs then False else user_has_super_read_only_access slugs)"

text \<open>\<open>MENU_GROUP_KEYS[menu]\<close> for the menus of the catalogue, which all have a group.\<close>

definition menu_group :: "string \<Rightarrow> string set" where
  "menu_group menu = (case map_of MENU_GROUP_KEYS menu of None \<Rightarrow> {} | Some g \<Rightarrow> {g})"

definition effective_accessible_category_keys :: "string list \<Rightarrow> string set option" where
  "effective_accessible_category_keys slugs =
     (case effective_accessible_menu_keys slugs of
        None \<Rightarrow> None
      | Some allowed_menus \<Rightarrow> Some (\<Union> (menu_group ` allowed_menus)))"

record session_payload =
  sp_role :: string
  sp_roles :: "string list"
  sp_role_name :: string
  sp_role_names :: "string list"
  sp_read_only :: bool
  sp_is_admin_panel :: bool
  sp_menus :: "string list option"
  sp_categories :: "string list option"

definition session_payload_for_slugs :: "string list \<Rightarrow> session_payload" where
  "session_payload_for_slugs slugs =
     (let ns = normalized_slugs slugs;
          normalized = (if ns = [] then [USER_SLUG] else ns);
          primary = primary_role_slug normalized;
          name_of = (\<lambda>s. case get_role_definition s of Some d \<Rightarrow> rd_name d | None \<Rightarrow> s)
      in \<lparr>sp_role = primary, sp_roles = normalized, sp_role_name = name_of primary,
          sp_role_names = map name_of normalized,
          sp_read_only = user_is_read_only_admin normalized,
          sp_is_admin_panel = user_is_admin_panel normalized,
          sp_menus = map_option sorted_list_of_set (effective_accessible_menu_keys normalized),
          sp_categories = map_option sorted_list_of_set (effective_accessible_category_keys normalized)\<rparr>)"

section \<open>Normal forms of slugs\<close>

lemma is_space_lower_char [simp]: "is_space (lower_char c) = is_space c"
  by (auto simp: is_space_def lower_char_def Let_def)

lemma lower_char_idem [simp]: "lower_char (lower_char c) = lower_char c"
  by (auto simp: lower_char_def Let_def)

lemma lower_lower [simp]: "lower (lower s) = lower s"
  by (simp add: lower_def)

lemma dropWhile_space_lower: "dropWhile is_space (map lower_char s) = map lower_char (dropWhile is_space s)"
  by (induction s) auto

lemma strip_lower: "strip (lower s) = lower (strip s)"
  by (simp add: strip_def lstrip_def lower_def rev_map dropWhile_space_lower)

lemma lstrip_fixed: "(s \<noteq> [] \<longrightarrow> \<not> is_space (hd s)) \<Longrightarrow> lstrip s = s"
  by (cases s) (auto simp: lstrip_def)

lemma hd_lstrip: "lstrip s \<noteq> [] \<Longrightarrow> \<not> is_space (hd (lstrip s))"
  unfolding lstrip_def by (rule hd_dropWhile)

lemma strip_strip [simp]: "strip (strip s) = strip s"
proof -
  let ?t = "lstrip s"
  let ?u = "lstrip (rev ?t)"
  obtain v where v: "rev ?t = v @ ?u"
    unfolding lstrip_def by (metis takeWhile_dropWhile_id)
  then have t: "?t = rev ?u @ rev v" by (metis rev_append rev_rev_ident)
  have "lstrip (rev ?u) = rev ?u"
    using hd_lstrip [of s] t by (intro lstrip_fixed) (metis Nil_is_append_conv hd_append2)
  moreover have "lstrip ?u = ?u" using hd_lstrip [of "rev ?t"] by (intro lstrip_fixed) simp
  ultimately show ?thesis by (simp add: strip_def)
qed

lemma normalize_idem:
  assumes "normalize_role_slug role \<noteq> []"
  shows "normalize_role_slug (normalize_role_slug role) = normalize_role_slug role"
proof -
  let ?s = "lower (strip (if role = [] then USER_SLUG else role))"
  have s: "lower (strip ?s) = ?s" by (simp add: strip_lower)
  consider "normalize_role_slug role = FULL_ADMIN_SLUG" | "normalize_role_slug role = READ_ONLY_FULL_ADMIN_SLUG"
    | "normalize_role_slug role = ?s" "?s \<noteq> LEGACY_ADMIN_SLUG" "?s \<noteq> LEGACY_READ_ONLY_ADMIN_SLUG"
    unfolding normalize_role_slug_def Let_def by presburger
  then show ?thesis
  proof cases
    case 1
    then show ?thesis by (simp only:) code_simp
  next
    case 2
    then show ?thesis by (simp only:) code_simp
  next
    case 3
    with assms s show ?thesis unfolding 3(1) by (simp add: normalize_role_slug_def Let_def)
  qed
qed

lemma normalize_Nil: "normalize_role_slug [] = USER_SLUG"
  by code_simp

lemma normalize_not_legacy: "normalize_role_slug role \<noteq> LEGACY_ADMIN_SLUG" "normalize_role_slug role \<noteq> LEGACY_READ_ONLY_ADMIN_SLUG"
  by (auto simp: normalize_role_slug_def Let_def)

section \<open>The catalogue\<close>

text \<open>Evaluated forms, for the kernel's evaluation of examples.\<close>

lemma REMOVED_ASSIGNABLE_ROLE_SLUGS_eval [code]:
  "REMOVED_ASSIGNABLE_ROLE_SLUGS =
     [''full_administrator'', ''read_only_full_administrator'', ''recommendations_full_administrator'',
      ''recommendations_read_only_administrator'', ''dashboard_full_administrator'',
      ''operations_full_administrator'', ''operations_read_only_administrator'',
      ''database_full_administrator'', ''database_read_only_administrator'',
      ''tickets_full_administrator'', ''tickets_read_only_administrator'', ''chat_full_administrator'',
      ''chat_read_only_administrator'', ''media_full_administrator'', ''media_read_only_administrator'',
      ''connections_full_administrator'', ''connections_read_only_administrator'',
      ''models_full_administrator'', ''models_read_only_administrator'',
      ''api_keys_read_only_administrator'', ''chat_tools_full_administrator'',
      ''chat_tools_read_only_administrator'', ''memory_full_administrator'',
      ''memory_read_only_administrator'', ''roles_full_administrator'', ''roles_read_only_administrator'',
      ''users_full_administrator'', ''users_read_only_administrator'',
      ''deleted_users_full_administrator'', ''deleted_users_read_only_administrator'',
      ''groups_full_administrator'', ''groups_read_only_administrator'', ''plans_full_administrator'',
      ''plans_read_only_administrator'', ''authentication_full_administrator'',
      ''authentication_read_only_administrator'', ''smtp_full_administrator'',
      ''smtp_read_only_administrator'', ''exchange_ews_full_administrator'',
      ''exchange_ews_read_only_administrator'', ''storage_full_administrator'',
      ''storage_read_only_administrator'', ''reports_read_only_administrator'',
      ''api_logs_full_administrator'', ''api_logs_read_only_administrator'',
      ''sign_in_activity_full_administrator'', ''sign_in_activity_read_only_administrator'',
      ''agents_full_administrator'', ''agents_read_only_administrator'',
      ''admin_guide_full_administrator'', ''admin_guide_read_only_administrator'',
      ''user_manual_full_administrator'', ''user_manual_read_only_administrator'',
      ''security_settings_full_administrator'', ''security_settings_read_only_administrator'',
      ''guardrails_full_administrator'', ''guardrails_read_only_administrator'']"
  by code_simp

lemma catalog_slugs:
  "list_all (\<lambda>d. rd_slug d \<notin> set REMOVED_ASSIGNABLE_ROLE_SLUGS \<and> normalize_role_slug (rd_slug d) = rd_slug d
     \<and> rd_slug d \<noteq> [] \<and> rd_menu_key d \<noteq> Some []) ROLE_CATALOG"
  by code_simp

lemma global_slugs:
  "list_all (\<lambda>s. s \<notin> set REMOVED_ASSIGNABLE_ROLE_SLUGS \<or> s = FULL_ADMIN_SLUG \<or> s = READ_ONLY_FULL_ADMIN_SLUG)
     GLOBAL_ROLE_SLUGS"
  by code_simp

lemma category_keys_known:
  "list_all (\<lambda>(_, _, g). map_of CATEGORY_LABELS g \<noteq> None) MENU_DEFINITIONS
   \<and> list_all (\<lambda>d. case rd_menu_key d of None \<Rightarrow> True | Some m \<Rightarrow> map_of MENU_GROUP_KEYS m \<noteq> None) ROLE_CATALOG"
  by code_simp

lemma ROLE_BY_SLUG_SomeD:
  assumes "ROLE_BY_SLUG s = Some d"
  shows "d \<in> set ROLE_CATALOG \<and> rd_slug d = s \<and> s \<notin> set REMOVED_ASSIGNABLE_ROLE_SLUGS \<and> normalize_role_slug s = s
    \<and> s \<noteq> [] \<and> rd_menu_key d \<noteq> Some []"
  using assms fetch_SomeD [of rd_slug s ROLE_CATALOG d] catalog_slugs
  by (auto simp: ROLE_BY_SLUG_def list_all_iff)

lemma ROLE_BY_SLUG_user: "\<exists>d. ROLE_BY_SLUG USER_SLUG = Some d \<and> rd_is_user_panel d"
proof -
  have "(case ROLE_BY_SLUG USER_SLUG of None \<Rightarrow> False | Some d \<Rightarrow> rd_is_user_panel d)" by code_simp
  then show ?thesis by (auto split: option.splits)
qed

lemma get_role_definition_normal:
  assumes "normalize_role_slug role \<noteq> []"
  shows "get_role_definition (normalize_role_slug role) = ROLE_BY_SLUG (normalize_role_slug role)"
proof (cases "ROLE_BY_SLUG (normalize_role_slug role)")
  case None
  with assms show ?thesis by (simp add: get_role_definition_def Let_def normalize_idem)
next
  case (Some d)
  with assms ROLE_BY_SLUG_SomeD [OF Some] show ?thesis by (simp add: get_role_definition_def Let_def)
qed

lemma get_role_definition_blank: "\<exists>d. get_role_definition [] = Some d \<and> rd_is_user_panel d"
  using ROLE_BY_SLUG_user ROLE_BY_SLUG_SomeD [of USER_SLUG]
  unfolding get_role_definition_def normalize_Nil Let_def by fastforce

lemma get_role_definition_iff [code]: "get_role_definition role = ROLE_BY_SLUG (normalize_role_slug role)"
proof (cases "ROLE_BY_SLUG (normalize_role_slug role)")
  case (Some d)
  from ROLE_BY_SLUG_SomeD [OF Some] Some show ?thesis by (simp add: get_role_definition_def Let_def)
qed (simp add: get_role_definition_def Let_def)

text \<open>The roles that open the admin panel, and the menus they open.\<close>

definition scoped_role :: "string \<Rightarrow> role_definition \<Rightarrow> bool" where
  "scoped_role role d \<longleftrightarrow> ROLE_BY_SLUG (normalize_role_slug role) = Some d \<and> \<not> rd_is_user_panel d"

lemma panel_definition:
  "(case get_role_definition (normalize_role_slug role) of None \<Rightarrow> False | Some d \<Rightarrow> \<not> rd_is_user_panel d \<and> P d)
     \<longleftrightarrow> (\<exists>d. scoped_role role d \<and> P d)"
proof (cases "normalize_role_slug role = []")
  case True
  then have "ROLE_BY_SLUG (normalize_role_slug role) = None"
    using ROLE_BY_SLUG_SomeD [of "[]"] by (cases "ROLE_BY_SLUG []") auto
  with True get_role_definition_blank show ?thesis by (auto simp: scoped_role_def)
next
  case False
  then show ?thesis by (auto simp: get_role_definition_normal scoped_role_def split: option.split)
qed

lemma is_admin_panel_role_iff:
  "is_admin_panel_role role \<longleftrightarrow> normalize_role_slug role \<in> set GLOBAL_ROLE_SLUGS \<or> (\<exists>d. scoped_role role d)"
proof -
  let ?n = "normalize_role_slug role"
  have removed: "\<not> (\<exists>d. scoped_role role d)" if "?n \<in> set REMOVED_ASSIGNABLE_ROLE_SLUGS"
    using that ROLE_BY_SLUG_SomeD by (auto simp: scoped_role_def)
  have "?n \<notin> set GLOBAL_ROLE_SLUGS"
    if "?n \<in> set REMOVED_ASSIGNABLE_ROLE_SLUGS" "?n \<notin> {FULL_ADMIN_SLUG, READ_ONLY_FULL_ADMIN_SLUG}"
    using that global_slugs by (auto simp only: list_all_iff insert_iff)
  with removed panel_definition [where P = "\<lambda>_. True" and role = role] show ?thesis
    unfolding is_admin_panel_role_def Let_def by (auto simp only: simp_thms if_True if_False split: if_splits option.splits)
qed

lemma is_admin_panel_role_code [code]:
  "is_admin_panel_role role \<longleftrightarrow>
     (let slug = normalize_role_slug role
      in slug \<in> set GLOBAL_ROLE_SLUGS \<or>
         (case ROLE_BY_SLUG slug of None \<Rightarrow> False | Some d \<Rightarrow> \<not> rd_is_user_panel d))"
  by (auto simp: is_admin_panel_role_iff scoped_role_def Let_def split: option.split)

lemma is_assignable_role_slug_code [code]:
  "is_assignable_role_slug role \<longleftrightarrow> ROLE_BY_SLUG (normalize_role_slug role) \<noteq> None"
  using ROLE_BY_SLUG_SomeD by (auto simp: is_assignable_role_slug_def Let_def)

lemma can_access_menu_iff:
  "can_access_menu role m \<longleftrightarrow>
     normalize_role_slug role \<in> set GLOBAL_ROLE_SLUGS \<or> (\<exists>d. scoped_role role d \<and> rd_menu_key d = Some m)"
proof (cases "normalize_role_slug role \<in> set GLOBAL_ROLE_SLUGS")
  case True
  then show ?thesis by (simp add: can_access_menu_def is_admin_panel_role_iff accessible_menu_keys_def Let_def)
next
  case False
  show ?thesis
  proof (cases "\<exists>d. scoped_role role d")
    case True
    then obtain d where d: "scoped_role role d" by blast
    then have "normalize_role_slug role \<noteq> []" "rd_menu_key d \<noteq> Some []"
      using ROLE_BY_SLUG_SomeD by (auto simp: scoped_role_def)
    with d False show ?thesis
      by (auto simp: can_access_menu_def is_admin_panel_role_iff accessible_menu_keys_def Let_def
          get_role_definition_normal scoped_role_def split: option.split)
  next
    case none: False
    with False show ?thesis by (simp add: can_access_menu_def is_admin_panel_role_iff)
  qed
qed

lemma can_write_menu_iff:
  assumes "m \<notin> set USER_APP_MENUS"
  shows "can_write_menu role (Some m) \<longleftrightarrow> can_access_menu role m \<and>
    normalize_role_slug role \<notin> set GLOBAL_READ_ONLY_SLUGS \<and>
    \<not> ends_with ''_read_only_administrator'' (normalize_role_slug role)"
  using assms by (auto simp: can_write_menu_def can_access_menu_def Let_def)

lemma admin_slugs_normal:
  assumes "s \<in> set (admin_role_slugs slugs)"
  shows "normalize_role_slug s = s \<and> s \<noteq> [] \<and> is_admin_panel_role s"
proof -
  from assms obtain r where r: "r \<in> set slugs" "is_admin_panel_role r" "s = normalize_role_slug r"
    by (auto simp: admin_role_slugs_def)
  have blank: "[] \<notin> set GLOBAL_ROLE_SLUGS" by code_simp
  from r(2,3) have "s \<noteq> []"
    unfolding is_admin_panel_role_iff using blank ROLE_BY_SLUG_SomeD by (metis scoped_role_def)
  with r normalize_idem [of r] show ?thesis by (auto simp: is_admin_panel_role_iff scoped_role_def)
qed

lemma can_access_normal: "normalize_role_slug (normalize_role_slug r) = normalize_role_slug r \<Longrightarrow>
    can_access_menu (normalize_role_slug r) m = can_access_menu r m"
  by (simp add: can_access_menu_iff scoped_role_def)

lemma can_access_admin: "can_access_menu r m \<Longrightarrow> is_admin_panel_role r"
  by (simp add: can_access_menu_def split: if_splits)

lemma normalized_admin: "normalized_slugs (admin_role_slugs slugs) = admin_role_slugs slugs"
proof -
  have "filter (\<lambda>s. s \<noteq> []) (admin_role_slugs slugs) = admin_role_slugs slugs"
    using admin_slugs_normal by (intro filter_True) blast
  moreover have "map normalize_role_slug (admin_role_slugs slugs) = admin_role_slugs slugs"
    using admin_slugs_normal by (intro map_idI) blast
  ultimately show ?thesis by (simp only: normalized_slugs_def)
qed

section \<open>The menu of a path: the fold finds a longest applicable prefix\<close>

lemma best_prefix_origin:
  "best_prefix n best d = best \<or>
     (\<exists>m p. (m, p) \<in> set d \<and> prefix_applies n p \<and> best_prefix n best d = (Some m, int (length p)))"
  by (induction n best d rule: best_prefix.induct) auto

lemma best_prefix_mono: "snd best \<le> snd (best_prefix n best d)"
  by (induction n best d rule: best_prefix.induct) auto

lemma best_prefix_longest:
  "(m, p) \<in> set d \<Longrightarrow> prefix_applies n p \<Longrightarrow> int (length p) \<le> snd (best_prefix n best d)"
proof (induction n best d rule: best_prefix.induct)
  case (2 n b k m' p' d)
  show ?case
  proof (cases "(m, p) \<in> set d")
    case True
    with 2 show ?thesis by simp
  next
    case False
    with 2 show ?thesis
      using best_prefix_mono [of "(Some m', int (length p'))" n d] best_prefix_mono [of "(b, k)" n d] by auto
  qed
qed simp

section \<open>Several roles\<close>

lemma grants_iff: "grants_platform_wide_role slugs \<longleftrightarrow> (\<exists>s\<in>set slugs. normalize_role_slug s \<in> set GLOBAL_ROLE_SLUGS)"
proof -
  have "normalize_role_slug [] \<notin> set GLOBAL_ROLE_SLUGS" by code_simp
  then show ?thesis
    by (force simp: grants_platform_wide_role_def normalized_slugs_def list_ex_iff)
qed

lemma super_iff: "user_has_super_admin_access slugs \<longleftrightarrow> (\<exists>s\<in>set slugs. normalize_role_slug s \<in> set GLOBAL_FULL_ADMIN_SLUGS)"
proof -
  have "user_has_super_admin_access slugs \<longleftrightarrow> (\<exists>n\<in>set (normalized_slugs slugs). n \<in> set GLOBAL_FULL_ADMIN_SLUGS)"
    unfolding user_has_super_admin_access_def GLOBAL_FULL_ADMIN_SLUGS_def Let_def list.set
    by (simp only: insert_iff empty_iff simp_thms if_bool_eq_disj) blast
  moreover have "normalize_role_slug [] \<notin> set GLOBAL_FULL_ADMIN_SLUGS" by code_simp
  ultimately show ?thesis by (force simp: normalized_slugs_def)
qed

lemma super_read_only_iff:
  "user_has_super_read_only_access slugs \<longleftrightarrow> (\<exists>s\<in>set slugs. normalize_role_slug s \<in> set GLOBAL_READ_ONLY_SLUGS)"
proof -
  have "normalize_role_slug [] \<notin> set GLOBAL_READ_ONLY_SLUGS" by code_simp
  then show ?thesis
    by (force simp: user_has_super_read_only_access_def normalized_slugs_def list_ex_iff)
qed

lemma global_split: "s \<in> set GLOBAL_ROLE_SLUGS \<longleftrightarrow> s \<in> set GLOBAL_FULL_ADMIN_SLUGS \<or> s \<in> set GLOBAL_READ_ONLY_SLUGS"
  by (simp add: GLOBAL_ROLE_SLUGS_def)

lemma admin_slugsI: "s \<in> set slugs \<Longrightarrow> is_admin_panel_role s \<Longrightarrow> normalize_role_slug s \<in> set (admin_role_slugs slugs)"
  by (auto simp: admin_role_slugs_def)

lemma admin_slugsE:
  assumes "a \<in> set (admin_role_slugs slugs)"
  obtains s where "s \<in> set slugs" "is_admin_panel_role s" "a = normalize_role_slug s" "normalize_role_slug a = a"
  using assms admin_slugs_normal [OF assms] by (auto simp: admin_role_slugs_def)

lemma admin_slugs_global:
  "(\<exists>s\<in>set (admin_role_slugs slugs). normalize_role_slug s \<in> set GLOBAL_ROLE_SLUGS)
     \<longleftrightarrow> (\<exists>s\<in>set slugs. normalize_role_slug s \<in> set GLOBAL_ROLE_SLUGS)" (is "?l \<longleftrightarrow> ?r")
proof
  assume ?r
  then obtain s where s: "s \<in> set slugs" "normalize_role_slug s \<in> set GLOBAL_ROLE_SLUGS" by blast
  then have a: "normalize_role_slug s \<in> set (admin_role_slugs slugs)"
    by (intro admin_slugsI) (simp_all add: is_admin_panel_role_iff)
  from s(2) admin_slugs_normal [OF a] have "normalize_role_slug (normalize_role_slug s) \<in> set GLOBAL_ROLE_SLUGS" by metis
  with a show ?l by blast
next
  assume ?l
  then obtain a where a: "a \<in> set (admin_role_slugs slugs)" "normalize_role_slug a \<in> set GLOBAL_ROLE_SLUGS" by blast
  from a(1) obtain s where "s \<in> set slugs" "a = normalize_role_slug s" "normalize_role_slug a = a" by (rule admin_slugsE)
  with a(2) show ?r by metis
qed

lemma effective_None_iff: "effective_accessible_menu_keys slugs = None \<longleftrightarrow> grants_platform_wide_role slugs"
proof -
  have "user_has_super_admin_access a \<or> user_has_super_read_only_access a
      \<longleftrightarrow> (\<exists>s\<in>set a. normalize_role_slug s \<in> set GLOBAL_ROLE_SLUGS)" for a
    by (auto simp only: super_iff super_read_only_iff global_split)
  then show ?thesis
    unfolding effective_accessible_menu_keys_def Let_def grants_iff
    using admin_slugs_global [of slugs] by (auto split: if_splits)
qed

lemma access_via_admin_slugs:
  "(\<exists>a\<in>set (admin_role_slugs slugs). can_access_menu a m) \<longleftrightarrow> user_can_access_menu slugs m" (is "?l \<longleftrightarrow> ?r")
proof
  assume ?l
  then obtain a where a: "a \<in> set (admin_role_slugs slugs)" "can_access_menu a m" by blast
  from a(1) obtain s where "s \<in> set slugs" "a = normalize_role_slug s" "normalize_role_slug a = a" by (rule admin_slugsE)
  with a(2) can_access_normal [of s m] show ?r by (auto simp: user_can_access_menu_def list_ex_iff)
next
  assume ?r
  then obtain s where s: "s \<in> set slugs" "can_access_menu s m" by (auto simp: user_can_access_menu_def list_ex_iff)
  then have a: "normalize_role_slug s \<in> set (admin_role_slugs slugs)"
    by (intro admin_slugsI) (simp_all add: can_access_admin)
  with s admin_slugs_normal [OF a] can_access_normal [of s m] show ?l by metis
qed

lemma scoped_menus:
  assumes "a \<in> set (admin_role_slugs slugs)" and "a \<notin> set GLOBAL_ROLE_SLUGS"
  shows "\<exists>ms. accessible_menu_keys a = Some ms \<and> ms = {m. can_access_menu a m}"
proof -
  from admin_slugs_normal [OF assms(1)] assms(2) have "accessible_menu_keys a \<noteq> None" "is_admin_panel_role a"
    by (simp_all add: accessible_menu_keys_def Let_def split: option.split)
  then show ?thesis by (auto simp: can_access_menu_def)
qed

lemma effective_Some_mem:
  assumes "effective_accessible_menu_keys slugs = Some ms"
  shows "m \<in> ms \<longleftrightarrow> user_can_access_menu slugs m"
proof -
  have "\<not> grants_platform_wide_role slugs" using assms effective_None_iff [of slugs] by simp
  then have none: "a \<notin> set GLOBAL_ROLE_SLUGS" if "a \<in> set (admin_role_slugs slugs)" for a
    using that admin_slugsE grants_iff by metis
  have norm: "map normalize_role_slug (admin_role_slugs slugs) = admin_role_slugs slugs"
    using admin_slugs_normal by (intro map_idI) blast
  have menus: "(if a \<in> set GLOBAL_ROLE_SLUGS then {} else case accessible_menu_keys a of None \<Rightarrow> {} | Some al \<Rightarrow> al)
      = {m. can_access_menu a m}" if "a \<in> set (admin_role_slugs slugs)" for a
    using none [OF that] scoped_menus [OF that none [OF that]] by auto
  have "ms = (\<Union>a\<in>set (admin_role_slugs slugs). {m. can_access_menu a m})"
  proof (cases "admin_role_slugs slugs = []")
    case True
    with assms show ?thesis by (simp add: effective_accessible_menu_keys_def)
  next
    case False
    with assms have "ms = \<Union> (set (map (\<lambda>a. if a \<in> set GLOBAL_ROLE_SLUGS then {} else
        case accessible_menu_keys a of None \<Rightarrow> {} | Some al \<Rightarrow> al) (admin_role_slugs slugs)))"
      unfolding effective_accessible_menu_keys_def Let_def norm by (simp split: if_splits)
    with menus show ?thesis by simp
  qed
  with access_via_admin_slugs [of slugs m] show ?thesis by blast
qed

lemma effective_finite: "effective_accessible_menu_keys slugs = Some ms \<Longrightarrow> finite ms"
  by (auto simp: effective_accessible_menu_keys_def Let_def accessible_menu_keys_def
      split: if_splits option.splits)

section \<open>Properties\<close>

lemma write_gate:
  assumes "m \<notin> set USER_APP_MENUS"
  shows "user_can_write_menu slugs (Some m) \<longleftrightarrow>
    user_can_access_menu slugs m \<and> (\<forall>a\<in>set (admin_role_slugs slugs). can_access_menu a m \<longrightarrow> can_write_menu a (Some m))"
  using assms access_via_admin_slugs [of slugs m]
  by (auto simp: Let_def filter_empty_conv list_all_iff)

lemma read_only_slug_blocks:
  assumes "s \<in> set slugs" and "normalize_role_slug s \<in> set GLOBAL_READ_ONLY_SLUGS" and "m \<notin> set USER_APP_MENUS"
  shows "\<not> user_can_write_menu slugs (Some m)"
proof -
  have a: "normalize_role_slug s \<in> set (admin_role_slugs slugs)"
    using assms(1,2) by (intro admin_slugsI) (simp_all add: is_admin_panel_role_iff global_split)
  have n: "normalize_role_slug (normalize_role_slug s) = normalize_role_slug s" using admin_slugs_normal [OF a] by simp
  then have "can_access_menu (normalize_role_slug s) m" "\<not> can_write_menu (normalize_role_slug s) (Some m)"
    using assms(2,3) by (simp_all only: can_access_menu_iff can_write_menu_iff [OF assms(3)] global_split n simp_thms)
  with a show ?thesis unfolding write_gate [OF assms(3)] by blast
qed

lemma write_None_iff:
  "user_can_write_menu slugs None \<longleftrightarrow>
     (\<exists>m\<in>set (map fst MENU_LABELS). m \<notin> set USER_APP_MENUS \<and> user_can_write_menu slugs (Some m))"
  by (auto simp: list_ex_iff Let_def split: if_splits)

lemma write_some_write:
  "user_can_write_menu slugs (Some m) \<Longrightarrow> m \<in> set (map fst MENU_LABELS) \<Longrightarrow> m \<notin> set USER_APP_MENUS \<Longrightarrow>
     user_can_write_menu slugs None"
  unfolding write_None_iff by blast

lemma read_only_no_write: "normalize_role_slug s \<in> set GLOBAL_READ_ONLY_SLUGS \<Longrightarrow> \<not> user_can_write_menu [s] None"
  unfolding write_None_iff using read_only_slug_blocks [of s "[s]"] by (metis list.set_intros(1))

lemma suffix_no_write:
  assumes "ends_with ''_read_only_administrator'' (normalize_role_slug s)"
  shows "\<not> user_can_write_menu [s] None"
proof -
  have "\<not> user_can_write_menu [s] (Some m)" if m: "m \<notin> set USER_APP_MENUS" for m
  proof
    assume w: "user_can_write_menu [s] (Some m)"
    then have "user_can_access_menu [s] m" unfolding write_gate [OF m] ..
    then obtain a where a: "a \<in> set (admin_role_slugs [s])" "can_access_menu a m"
      using access_via_admin_slugs by blast
    with w have "can_write_menu a (Some m)" unfolding write_gate [OF m] by blast
    moreover from a(1) have "normalize_role_slug a = normalize_role_slug s"
      by (rule admin_slugsE) simp
    ultimately show False using assms can_write_menu_iff [OF m] by simp
  qed
  then show ?thesis unfolding write_None_iff by blast
qed



lemma blank_opens_nothing:
  "\<not> can_access_menu [] m" "\<not> can_access_menu USER_SLUG m" "normalize_role_slug s = [] \<Longrightarrow> \<not> can_access_menu s m"
proof -
  have n: "normalize_role_slug USER_SLUG = USER_SLUG" "USER_SLUG \<notin> set GLOBAL_ROLE_SLUGS" "[] \<notin> set GLOBAL_ROLE_SLUGS"
    by code_simp+
  have user: "\<not> (\<exists>d. ROLE_BY_SLUG USER_SLUG = Some d \<and> \<not> rd_is_user_panel d)"
    using ROLE_BY_SLUG_user by fastforce
  with n show "\<not> can_access_menu USER_SLUG m" "\<not> can_access_menu [] m"
    by (auto simp only: can_access_menu_iff scoped_role_def normalize_Nil)
  show "normalize_role_slug s = [] \<Longrightarrow> \<not> can_access_menu s m"
    using n ROLE_BY_SLUG_SomeD [of "[]"] by (auto simp only: can_access_menu_iff scoped_role_def)
qed

text \<open>
  The menus that the session payload lists for an account (all of them when it lists
  none) are exactly the menus that the gate of the admin routes lets the account into.
\<close>

theorem session_menus_agree:
  "user_can_access_menu slugs m \<longleftrightarrow>
     (case sp_menus (session_payload_for_slugs slugs) of None \<Rightarrow> True | Some menus \<Rightarrow> m \<in> set menus)"
proof -
  define ns where "ns = (if normalized_slugs slugs = [] then [USER_SLUG] else normalized_slugs slugs)"
  have norm: "can_access_menu (normalize_role_slug s) m = can_access_menu s m" for s
  proof (cases "normalize_role_slug s = []")
    case True
    then show ?thesis using blank_opens_nothing by simp
  qed (simp add: can_access_normal normalize_idem)
  have "user_can_access_menu ns m \<longleftrightarrow> user_can_access_menu slugs m"
    using blank_opens_nothing norm by (auto simp: ns_def user_can_access_menu_def list_ex_iff normalized_slugs_def filter_empty_conv)
  moreover have "sp_menus (session_payload_for_slugs slugs) = map_option sorted_list_of_set (effective_accessible_menu_keys ns)"
    by (simp add: session_payload_for_slugs_def Let_def ns_def)
  moreover have "user_can_access_menu ns m" if "effective_accessible_menu_keys ns = None"
    using that unfolding effective_None_iff grants_iff
    by (auto simp: user_can_access_menu_def list_ex_iff can_access_menu_iff)
  ultimately show ?thesis
    using effective_Some_mem [of ns] effective_finite [of ns] by (auto split: option.split)
qed

text \<open>
  An actor may apply a set of roles to an account exactly when the actor is a Super
  Admin, or neither the new roles nor the roles they replace open the whole platform.
\<close>

theorem role_assignment_gate:
  "actor_may_assign_roles actor new_slugs prev \<longleftrightarrow>
     user_has_super_admin_access actor \<or>
     effective_accessible_menu_keys new_slugs \<noteq> None \<and>
     (case prev of None \<Rightarrow> True | Some p \<Rightarrow> effective_accessible_menu_keys p \<noteq> None)"
  unfolding actor_may_assign_roles_def effective_None_iff Let_def by (auto split: option.split)

text \<open>
  The menu of a path has a prefix that applies to it, and no menu has a longer one; a
  path without a menu is one to which no prefix applies.
\<close>

theorem path_to_menu_specific:
  "(case path_to_menu path of
      None \<Rightarrow> \<forall>(m, p)\<in>set menu_prefixes. \<not> prefix_applies (normalized_path path) p
    | Some m \<Rightarrow> \<exists>p. (m, p) \<in> set menu_prefixes \<and> prefix_applies (normalized_path path) p \<and>
        (\<forall>(m', p')\<in>set menu_prefixes. prefix_applies (normalized_path path) p' \<longrightarrow> length p' \<le> length p))"
proof -
  let ?n = "normalized_path path"
  let ?b = "best_prefix ?n (None, -1) menu_prefixes"
  have longest: "int (length p) \<le> snd ?b" if "(m, p) \<in> set menu_prefixes" "prefix_applies ?n p" for m p
    using best_prefix_longest [OF that] .
  consider "?b = (None, -1)" | m p where "(m, p) \<in> set menu_prefixes" "prefix_applies ?n p" "?b = (Some m, int (length p))"
    using best_prefix_origin [of ?n "(None, -1)" menu_prefixes] by auto
  then show ?thesis
  proof cases
    case 1
    with longest have "\<not> prefix_applies ?n p" if "(m, p) \<in> set menu_prefixes" for m p
      using that by fastforce
    with 1 show ?thesis by (auto simp: path_to_menu_def)
  next
    case 2
    with longest show ?thesis by (force simp: path_to_menu_def)
  qed
qed

theorem path_to_menu_specific_witness:
  "path_to_menu ''/admin/knowledge/12/'' = Some ''agents'' \<and>
   (\<exists>p. (''agents'', p) \<in> set menu_prefixes \<and> prefix_applies (normalized_path ''/admin/knowledge/12/'') p)"
proof -
  have "path_to_menu ''/admin/knowledge/12/'' = Some ''agents''" by code_simp
  with path_to_menu_specific [of "''/admin/knowledge/12/''"] show ?thesis by auto
qed

text \<open>
  Among the roles of the catalogue that are read-only, every one is refused by the
  write gate on every admin menu, except the Agent Auditor: its slug does not end the way the write
  gate looks for, so the gate lets it write the Agents menu, whereas its permissions are reads.
\<close>

theorem auditor_passes_write_gate:
  "filter (\<lambda>slug. user_can_write_menu [slug] None) (filter is_read_only_role (map rd_slug ROLE_CATALOG))
     = [AGENT_AUDITOR_SLUG]
   \<and> user_can_write_menu [AGENT_AUDITOR_SLUG] (Some ''agents'')
   \<and> agent_permissions_for_slugs [AGENT_AUDITOR_SLUG] = set AGENT_READ_PERMISSIONS"
proof -
  have ro: "filter is_read_only_role (map rd_slug ROLE_CATALOG)
      = [READ_ONLY_SUPER_ADMIN_SLUG, DASHBOARD_VIEW_SLUG, AGENT_AUDITOR_SLUG]" by code_simp
  have 1: "\<not> user_can_write_menu [READ_ONLY_SUPER_ADMIN_SLUG] None"
  proof (rule read_only_no_write)
    show "normalize_role_slug READ_ONLY_SUPER_ADMIN_SLUG \<in> set GLOBAL_READ_ONLY_SLUGS" by code_simp
  qed
  have 2: "\<not> user_can_write_menu [DASHBOARD_VIEW_SLUG] None"
  proof (rule suffix_no_write)
    show "ends_with ''_read_only_administrator'' (normalize_role_slug DASHBOARD_VIEW_SLUG)" by code_simp
  qed
  have 3: "user_can_write_menu [AGENT_AUDITOR_SLUG] (Some ''agents'')" by code_simp
  have "''agents'' \<in> set (map fst MENU_LABELS)" "''agents'' \<notin> set USER_APP_MENUS" by code_simp+
  with 3 have 4: "user_can_write_menu [AGENT_AUDITOR_SLUG] None" by (rule write_some_write)
  have 5: "agent_permissions_for_slugs [AGENT_AUDITOR_SLUG] = set AGENT_READ_PERMISSIONS" by code_simp
  show ?thesis unfolding ro using 1 2 3 4 5 by (simp only: filter.simps if_True if_False simp_thms)
qed

section \<open>Migration of retired slugs\<close>

lemma expand_section_api_keys: "set (expand_section raw d) \<subseteq> {API_KEY_ADMIN_SLUG}"
  by (induction d) (auto simp: Let_def ASSIGNABLE_ADMIN_MENUS_def split: if_splits)

lemma expand_legacy_cases:
  obtains "expand_legacy_role_slug s = [SUPER_ADMIN_SLUG]" "lower (strip s) \<in> {LEGACY_ADMIN_SLUG, FULL_ADMIN_SLUG, SUPER_ADMIN_SLUG}"
  | "lower (strip s) \<notin> {LEGACY_ADMIN_SLUG, FULL_ADMIN_SLUG, SUPER_ADMIN_SLUG}"
      "\<And>r. r \<in> set (expand_legacy_role_slug s) \<Longrightarrow> r \<noteq> SUPER_ADMIN_SLUG \<and> r \<in> set (map rd_slug ROLE_CATALOG)"
proof (cases "lower (strip s) \<in> {LEGACY_ADMIN_SLUG, FULL_ADMIN_SLUG, SUPER_ADMIN_SLUG}")
  case True
  then show thesis using that(1) by (simp only: expand_legacy_role_slug_def Let_def if_True)
next
  case False
  let ?raw = "lower (strip s)"
  have keys: "READ_ONLY_SUPER_ADMIN_SLUG \<in> set (map rd_slug ROLE_CATALOG)" "API_KEY_ADMIN_SLUG \<in> set (map rd_slug ROLE_CATALOG)"
    "READ_ONLY_SUPER_ADMIN_SLUG \<noteq> SUPER_ADMIN_SLUG" "API_KEY_ADMIN_SLUG \<noteq> SUPER_ADMIN_SLUG"
    by code_simp+
  have "r \<noteq> SUPER_ADMIN_SLUG \<and> r \<in> set (map rd_slug ROLE_CATALOG)" if r: "r \<in> set (expand_legacy_role_slug s)" for r
  proof -
    have "r \<in> set (if ?raw \<in> {LEGACY_READ_ONLY_ADMIN_SLUG, READ_ONLY_FULL_ADMIN_SLUG} then [READ_ONLY_SUPER_ADMIN_SLUG]
         else if ?raw = API_KEY_ADMIN_SLUG then [API_KEY_ADMIN_SLUG]
         else if ?raw \<in> set REMOVED_ASSIGNABLE_ROLE_SLUGS then []
         else if ROLE_BY_SLUG ?raw \<noteq> None then [?raw]
         else expand_section ?raw MENUS_BY_CATEGORY)"
      using r False unfolding expand_legacy_role_slug_def Let_def by (simp only: if_False)
    then consider "r = READ_ONLY_SUPER_ADMIN_SLUG" | "r = API_KEY_ADMIN_SLUG"
      | "r = ?raw" "ROLE_BY_SLUG ?raw \<noteq> None" | "r \<in> set (expand_section ?raw MENUS_BY_CATEGORY)"
      by (simp only: list.set singleton_iff empty_iff simp_thms split: if_split_asm)
    then show ?thesis
    proof cases
      case 3
      then obtain d where "ROLE_BY_SLUG ?raw = Some d" by blast
      then have "d \<in> set ROLE_CATALOG" "r = rd_slug d" using ROLE_BY_SLUG_SomeD [of ?raw d] 3(1) by simp_all
      then have "r \<in> set (map rd_slug ROLE_CATALOG)" unfolding set_map by (intro image_eqI)
      moreover have "r \<noteq> SUPER_ADMIN_SLUG" using False unfolding 3(1) by (simp only: insert_iff de_Morgan_disj simp_thms)
      ultimately show ?thesis by (simp only: simp_thms)
    next
      case 4
      then have "r = API_KEY_ADMIN_SLUG"
        using subsetD [OF expand_section_api_keys [of ?raw MENUS_BY_CATEGORY]] by (simp only: singleton_iff)
      then show ?thesis using keys(2,4) by (simp only: simp_thms)
    qed (simp_all only: keys simp_thms)
  qed
  with False show thesis by (rule that(2))
qed

lemma super_single: "user_has_super_admin_access [s] \<longleftrightarrow> lower (strip s) \<in> {LEGACY_ADMIN_SLUG, FULL_ADMIN_SLUG, SUPER_ADMIN_SLUG}"
proof (cases "s = []")
  case True
  show ?thesis unfolding True by code_simp
next
  case False
  then show ?thesis
    by (auto simp: user_has_super_admin_access_def normalized_slugs_def normalize_role_slug_def Let_def)
qed

lemma catalog_lower: "list_all (\<lambda>d. lower (strip (rd_slug d)) = rd_slug d \<and>
    rd_slug d \<notin> {LEGACY_ADMIN_SLUG, FULL_ADMIN_SLUG, LEGACY_READ_ONLY_ADMIN_SLUG, READ_ONLY_FULL_ADMIN_SLUG}) ROLE_CATALOG"
  by code_simp

lemma catalog_expand:
  assumes "r \<in> set (map rd_slug ROLE_CATALOG)"
  shows "expand_legacy_role_slug r = [r] \<and> is_assignable_role_slug r"
proof -
  from assms have "ROLE_BY_SLUG r \<noteq> None" by (auto simp: ROLE_BY_SLUG_def fetch_None_iff)
  then obtain d where "ROLE_BY_SLUG r = Some d" by blast
  note d = ROLE_BY_SLUG_SomeD [OF this] this
  with catalog_lower have l: "lower (strip r) = r" "r \<notin> {LEGACY_ADMIN_SLUG, FULL_ADMIN_SLUG}"
    "r \<notin> {LEGACY_READ_ONLY_ADMIN_SLUG, READ_ONLY_FULL_ADMIN_SLUG}"
    by (auto simp only: list_all_iff insert_iff empty_iff)
  from l d have "expand_legacy_role_slug r = [r]"
    unfolding expand_legacy_role_slug_def Let_def l(1) by (simp only: if_False option.distinct insert_iff simp_thms) simp
  with d show ?thesis by (simp add: is_assignable_role_slug_def Let_def)
qed

text \<open>
  Migrating a stored slug yields assignable slugs only, migrating again changes nothing,
  and an account becomes Super Admin exactly if its old slug made it one.
\<close>

theorem legacy_expansion:
  "list_all (\<lambda>r. is_assignable_role_slug r \<and> expand_legacy_role_slug r = [r]) (expand_legacy_role_slug s)
   \<and> (user_has_super_admin_access (expand_legacy_role_slug s) \<longleftrightarrow> user_has_super_admin_access [s])"
proof (cases rule: expand_legacy_cases [of s])
  case 1
  have "SUPER_ADMIN_SLUG \<in> set (map rd_slug ROLE_CATALOG)" "user_has_super_admin_access [SUPER_ADMIN_SLUG]" by code_simp+
  with 1(2) catalog_expand [of SUPER_ADMIN_SLUG] show ?thesis
    unfolding 1(1) super_single [of s] by (simp only: list.pred_inject simp_thms)
next
  case 2
  have full: "list_all (\<lambda>r. r = SUPER_ADMIN_SLUG \<or> normalize_role_slug r \<notin> set GLOBAL_FULL_ADMIN_SLUGS) (map rd_slug ROLE_CATALOG)"
    by code_simp
  have "\<not> user_has_super_admin_access (expand_legacy_role_slug s)"
    unfolding super_iff using 2(2) full unfolding list_all_iff by blast
  with 2 show ?thesis unfolding super_single list_all_iff using catalog_expand by blast
qed

end
