(* ===== verification/Accounts.thy ===== *)
theory Accounts
  imports Roles
begin

text \<open>
  User accounts: role assignments (\<open>services/user_role_service.py\<close>), soft deletion, restoration
  and permanent removal (\<open>services/user_lifecycle_service.py\<close>, \<open>user_account_cleanup_service.py\<close>),
  and the admin endpoints that call them (\<open>api/admin.py\<close>).

  An endpoint returns the error it raises, or the new state: the session is rolled back when an
  exception leaves it. Tables of which the purge only deletes a person's rows are kept as pairs
  of table and owner. Object storage and vector indexes are outside the model.
\<close>

section \<open>Rows\<close>

record account =
  a_id :: int
  a_username :: string
  a_email :: "string option"
  a_display_name :: "string option"
  a_hashed_password :: "string option"
  a_auth_provider :: string
  a_external_id :: "string option"
  a_is_active :: bool
  a_token_version :: int
  a_company :: "string option"
  a_job_title :: "string option"
  a_department :: "string option"
  a_office :: "string option"
  a_reporting_to :: "string option"
  a_monthly_budget_usd :: rat
  a_totp_secret_encrypted :: "string option"
  a_totp_enabled :: bool
  a_totp_backup_codes_hashed :: "string list option"
  a_last_login_at :: "time option"
  a_deleted_at :: "time option"
  a_purged_at :: "time option"

datatype project_role = PRIMARY_OWNER | OWNER | CONTRIBUTOR | VIEWER

record project_member =
  m_project_id :: string
  m_user_id :: int
  m_role :: project_role
  m_invited_by_user_id :: "int option"
  m_created_at :: time
  m_updated_at :: time

record chat_session =
  cs_id :: string
  cs_user_id :: int
  cs_project_id :: "string option"

record chat_message =
  cm_session_id :: string
  cm_user_id :: "int option"

text \<open>The tables of which a purge deletes the rows of a person.\<close>

datatype personal_table =
    MediaAsset | UserMemory | ChatFolder | ExtensionSession | SupportTicket
  | MailItemRef | MailActionItem | MailDraft | MailConnection
  | UserChatPrefs | UserMediaPreferences | UserApiKey | UserPlanAssignment

text \<open>Entries of the security log and of the sign-in log.\<close>

datatype security_event =
    Roles_Changed int int "string list" "string list"
  | User_Action int string int
  | Users_Purged int "int list"

record auth_event =
  ae_event_type :: string
  ae_user_id :: int
  ae_reason_code :: string
  ae_auth_method :: string

record account_db =
  ad_users :: "account list"
  ad_roles :: "(int \<times> string) list"
  ad_groups :: "(int \<times> int) list"
  ad_personal :: "(personal_table \<times> int) list"
  ad_sessions :: "chat_session list"
  ad_messages :: "chat_message list"
  ad_summaries :: "string list"
  ad_log_owners :: "int option list"
  ad_uploaders :: "(string \<times> int option) list"
  ad_members :: "project_member list"
  ad_security_log :: "security_event list"
  ad_auth_events :: "auth_event list"

definition update_account :: "int \<Rightarrow> (account \<Rightarrow> account) \<Rightarrow> 'x account_db_scheme \<Rightarrow> 'x account_db_scheme" where
  "update_account uid f db = db\<lparr>ad_users := modify a_id uid f (ad_users db)\<rparr>"

section \<open>Role assignments\<close>

fun normalize_roles :: "string list \<Rightarrow> string list \<Rightarrow> string list" where
  "normalize_roles seen [] = []"
| "normalize_roles seen (raw # slugs) =
     (let slug = normalize_role_slug raw
      in if \<not> is_assignable_role_slug slug then normalize_roles seen slugs
         else if slug \<in> set seen then normalize_roles seen slugs
         else slug # normalize_roles (slug # seen) slugs)"

definition normalize_role_list :: "string list \<Rightarrow> string list" where
  "normalize_role_list slugs =
     (let out = normalize_roles [] slugs in if out = [] then [USER_SLUG] else out)"

definition role_rows_of :: "'x account_db_scheme \<Rightarrow> int \<Rightarrow> string list" where
  "role_rows_of db uid = map snd (filter (\<lambda>(u, _). u = uid) (ad_roles db))"

definition get_user_role_slugs :: "'x account_db_scheme \<Rightarrow> int \<Rightarrow> string list" where
  "get_user_role_slugs db uid =
     (let rows = sort (role_rows_of db uid) in if rows \<noteq> [] then normalize_role_list rows else [USER_SLUG])"

text \<open>
  \<open>get_roles_map\<close>: one query for several users, the rows ordered by user and slug, collected
  into a dictionary that starts with the requested ids.
\<close>

definition rows_by_user :: "'x account_db_scheme \<Rightarrow> int list \<Rightarrow> (int \<times> string) list" where
  "rows_by_user db ids =
     sort_key fst (sort_key snd (filter (\<lambda>(u, _). u \<in> set ids) (ad_roles db)))"

definition collect_roles :: "(int \<Rightarrow> string list option) \<Rightarrow> int \<times> string \<Rightarrow> int \<Rightarrow> string list option" where
  "collect_roles raw row =
     raw(fst row \<mapsto> (case raw (fst row) of None \<Rightarrow> [snd row] | Some ss \<Rightarrow> ss @ [snd row]))"

definition get_roles_map :: "'x account_db_scheme \<Rightarrow> int list \<Rightarrow> int \<Rightarrow> string list option" where
  "get_roles_map db ids =
     (if ids = [] then Map.empty
      else
        let raw = foldl collect_roles (\<lambda>u. if u \<in> set ids then Some [] else None) (rows_by_user db ids)
        in (\<lambda>u. map_option normalize_role_list (raw u)))"

definition primary_role_for_user :: "'x account_db_scheme \<Rightarrow> int \<Rightarrow> string" where
  "primary_role_for_user db uid = primary_role_slug (get_user_role_slugs db uid)"

definition set_user_roles :: "'x account_db_scheme \<Rightarrow> int \<Rightarrow> string list \<Rightarrow> 'x account_db_scheme \<times> string list" where
  "set_user_roles db uid slugs =
     (let normalized = normalize_role_list slugs
      in (db\<lparr>ad_roles := filter (\<lambda>(u, _). u \<noteq> uid) (ad_roles db) @ map (Pair uid) normalized\<rparr>, normalized))"

definition user_has_full_administrator :: "'x account_db_scheme \<Rightarrow> int \<Rightarrow> bool" where
  "user_has_full_administrator db uid \<longleftrightarrow> user_has_super_admin_access (get_user_role_slugs db uid)"

definition user_bypasses_maker_checker :: "'x account_db_scheme \<Rightarrow> int \<Rightarrow> bool" where
  "user_bypasses_maker_checker db uid \<longleftrightarrow> user_has_full_administrator db uid"

text \<open>
  The join groups the stored slugs of the accounts that can sign in; an account without rows is
  no key of the dictionary, and no slugs grant no Super Admin access.
\<close>

definition can_sign_in :: "account \<Rightarrow> bool" where
  "can_sign_in u \<longleftrightarrow> a_is_active u \<and> a_deleted_at u = None"

definition counted_administrator :: "'x account_db_scheme \<Rightarrow> account \<Rightarrow> bool" where
  "counted_administrator db u \<longleftrightarrow> can_sign_in u \<and> user_has_super_admin_access (role_rows_of db (a_id u))"

definition count_active_full_administrators :: "'x account_db_scheme \<Rightarrow> int" where
  "count_active_full_administrators db = int (length (filter (counted_administrator db) (ad_users db)))"

definition ensure_super_admin_roles :: "string \<Rightarrow> 'x account_db_scheme \<Rightarrow> account \<Rightarrow> 'x account_db_scheme" where
  "ensure_super_admin_roles admin_username db user =
     (let slugs = get_user_role_slugs db (a_id user);
          normalized = set (map normalize_role_slug slugs)
      in if user_has_super_admin_access slugs then
           (if normalized = {SUPER_ADMIN_SLUG} then db
            else if FULL_ADMIN_SLUG \<in> normalized \<or> LEGACY_ADMIN_SLUG \<in> normalized
            then fst (set_user_roles db (a_id user) bootstrap_super_admin_role_slugs)
            else db)
         else if a_username user = admin_username
         then fst (set_user_roles db (a_id user) bootstrap_super_admin_role_slugs)
         else db)"

definition ensure_bootstrap_admin_roles :: "string \<Rightarrow> 'x account_db_scheme \<Rightarrow> 'x account_db_scheme \<times> nat" where
  "ensure_bootstrap_admin_roles admin_username db =
     (let legacy_slugs = filter (\<lambda>s. normalize_role_slug s \<in> {FULL_ADMIN_SLUG, LEGACY_ADMIN_SLUG}) (remdups (map snd (ad_roles db)));
          candidates = filter (\<lambda>u. a_username u = admin_username \<or>
                         list_ex (\<lambda>(i, s). i = a_id u \<and> s \<in> set legacy_slugs) (ad_roles db)) (ad_users db)
      in (foldl (ensure_super_admin_roles admin_username) db candidates, length candidates))"

section \<open>Deletion and restoration\<close>

definition method_for :: "account \<Rightarrow> string" where
  "method_for user =
     (let provider = lower (strip (a_auth_provider user))
      in if provider \<in> {''local'', ''ldap'', ''saml'', ''oidc''} then provider else ''local'')"

definition record_auth_event :: "string \<Rightarrow> account \<Rightarrow> string \<Rightarrow> 'x account_db_scheme \<Rightarrow> 'x account_db_scheme" where
  "record_auth_event event_type user reason db =
     db\<lparr>ad_auth_events := ad_auth_events db @
         [\<lparr>ae_event_type = event_type, ae_user_id = a_id user, ae_reason_code = reason, ae_auth_method = method_for user\<rparr>]\<rparr>"

definition soft_delete_user :: "time \<Rightarrow> 'x account_db_scheme \<Rightarrow> account \<Rightarrow> 'x account_db_scheme" where
  "soft_delete_user now db user =
     record_auth_event ''session_revoked'' user ''user_deleted''
       (update_account (a_id user)
          (\<lambda>u. u\<lparr>a_deleted_at := Some now, a_is_active := False, a_token_version := a_token_version u + 1\<rparr>) db)"

definition restore_user :: "'x account_db_scheme \<Rightarrow> account \<Rightarrow> ('x account_db_scheme) result" where
  "restore_user db user =
     (if a_purged_at user \<noteq> None then Inl (ValueError ''Cannot restore a permanently deleted account'')
      else Inr (update_account (a_id user) (\<lambda>u. u\<lparr>a_deleted_at := None, a_is_active := True\<rparr>) db))"

definition prune_sync_user :: "time \<Rightarrow> 'x account_db_scheme \<Rightarrow> account \<Rightarrow> 'x account_db_scheme \<times> string" where
  "prune_sync_user now db user =
     (if user_has_full_administrator db (a_id user) then (db, ''skipped'')
      else if a_deleted_at user \<noteq> None then (db, ''skipped'')
      else (soft_delete_user now db user, ''soft_deleted''))"

subsection \<open>The purge\<close>

definition others_with_role :: "project_member list \<Rightarrow> string \<Rightarrow> int \<Rightarrow> project_role \<Rightarrow> project_member list" where
  "others_with_role ms pid uid role =
     filter (\<lambda>m. m_project_id m = pid \<and> m_user_id m \<noteq> uid \<and> m_role m = role) ms"

definition remaining_project_assignee_id :: "project_member list \<Rightarrow> string \<Rightarrow> int \<Rightarrow> int option" where
  "remaining_project_assignee_id ms pid exclude =
     (case others_with_role ms pid exclude PRIMARY_OWNER of
        m # _ \<Rightarrow> Some (m_user_id m)
      | [] \<Rightarrow>
          (case others_with_role ms pid exclude OWNER of
             m # _ \<Rightarrow> Some (m_user_id m)
           | [] \<Rightarrow>
               (case filter (\<lambda>m. m_project_id m = pid \<and> m_user_id m \<noteq> exclude) ms of
                  m # _ \<Rightarrow> Some (m_user_id m)
                | [] \<Rightarrow> None)))"

definition set_member :: "string \<Rightarrow> int \<Rightarrow> (project_member \<Rightarrow> project_member) \<Rightarrow> project_member list \<Rightarrow> project_member list" where
  "set_member pid uid f ms = modify (\<lambda>m. (m_project_id m, m_user_id m)) (pid, uid) f ms"

text \<open>One turn of the loop of \<open>_transfer_primary_owner_if_departing\<close>: demote, then promote.\<close>

definition transfer_one :: "time \<Rightarrow> int \<Rightarrow> project_member list \<Rightarrow> string \<Rightarrow> project_member list" where
  "transfer_one now uid ms pid =
     (case remaining_project_assignee_id ms pid uid of
        None \<Rightarrow> ms
      | Some successor \<Rightarrow>
          set_member pid successor (\<lambda>m. m\<lparr>m_role := PRIMARY_OWNER, m_updated_at := now\<rparr>)
            (set_member pid uid (\<lambda>m. m\<lparr>m_role := OWNER, m_updated_at := now\<rparr>) ms))"

definition transfer_primary_owner_if_departing :: "time \<Rightarrow> int \<Rightarrow> project_member list \<Rightarrow> project_member list" where
  "transfer_primary_owner_if_departing now uid ms =
     foldl (transfer_one now uid) ms
       (map m_project_id (filter (\<lambda>m. m_user_id m = uid \<and> m_role m = PRIMARY_OWNER) ms))"

definition reassign_project_chat_sessions :: "project_member list \<Rightarrow> int \<Rightarrow> chat_session list \<Rightarrow> chat_session list" where
  "reassign_project_chat_sessions ms uid sessions =
     map (\<lambda>s. if cs_user_id s = uid
              then (case cs_project_id s of
                      None \<Rightarrow> s
                    | Some pid \<Rightarrow>
                        (case remaining_project_assignee_id ms pid uid of
                           None \<Rightarrow> s
                         | Some assignee \<Rightarrow> s\<lparr>cs_user_id := assignee\<rparr>))
              else s) sessions"

definition delete_owned :: "personal_table list \<Rightarrow> int \<Rightarrow> 'x account_db_scheme \<Rightarrow> 'x account_db_scheme" where
  "delete_owned tables uid db =
     db\<lparr>ad_personal := filter (\<lambda>(t, u). \<not> (t \<in> set tables \<and> u = uid)) (ad_personal db)\<rparr>"

definition forget_owner :: "int \<Rightarrow> int option list \<Rightarrow> int option list" where
  "forget_owner uid = map (\<lambda>u. if u = Some uid then None else u)"

definition forget_uploader :: "int \<Rightarrow> (string \<times> int option) list \<Rightarrow> (string \<times> int option) list" where
  "forget_uploader uid = map (\<lambda>(pid, u). (pid, if u = Some uid then None else u))"

definition delete_personal_chats :: "int \<Rightarrow> 'x account_db_scheme \<Rightarrow> 'x account_db_scheme" where
  "delete_personal_chats uid db =
     (let ids = map cs_id (filter (\<lambda>s. cs_user_id s = uid \<and> cs_project_id s = None) (ad_sessions db))
      in if ids = [] then db
         else db\<lparr>ad_summaries := filter (\<lambda>i. i \<notin> set ids) (ad_summaries db),
                 ad_messages := filter (\<lambda>m. cm_session_id m \<notin> set ids) (ad_messages db),
                 ad_sessions := filter (\<lambda>s. cs_id s \<notin> set ids) (ad_sessions db)\<rparr>)"

definition purge_user_account_data :: "time \<Rightarrow> 'x account_db_scheme \<Rightarrow> int \<Rightarrow> 'x account_db_scheme" where
  "purge_user_account_data now db uid =
     (let db1 = delete_owned [MediaAsset] uid db;
          db2 = db1\<lparr>ad_members := transfer_primary_owner_if_departing now uid (ad_members db1)\<rparr>;
          db3 = db2\<lparr>ad_uploaders := forget_uploader uid (ad_uploaders db2)\<rparr>;
          db4 = db3\<lparr>ad_sessions := reassign_project_chat_sessions (ad_members db3) uid (ad_sessions db3)\<rparr>;
          db5 = delete_personal_chats uid db4;
          db6 = db5\<lparr>ad_messages := map (\<lambda>m. if cm_user_id m = Some uid then m\<lparr>cm_user_id := None\<rparr> else m) (ad_messages db5)\<rparr>
      in delete_owned
           [UserMemory, ChatFolder, ExtensionSession, SupportTicket, MailItemRef, MailActionItem, MailDraft, MailConnection,
            UserChatPrefs, UserMediaPreferences] uid db6)"

definition PURGED_AUTH_PROVIDER :: string where
  "PURGED_AUTH_PROVIDER = ''purged''"

text \<open>The row stays, emptied of everything that identifies the person.\<close>

definition empty_account :: "time \<Rightarrow> account \<Rightarrow> account" where
  "empty_account now u =
     u\<lparr>a_username := ''purged-user-'' @ show_int (a_id u), a_email := None, a_display_name := None,
       a_hashed_password := None, a_external_id := None, a_auth_provider := PURGED_AUTH_PROVIDER,
       a_company := None, a_job_title := None, a_department := None, a_office := None, a_reporting_to := None,
       a_totp_secret_encrypted := None, a_totp_enabled := False, a_totp_backup_codes_hashed := None,
       a_last_login_at := None, a_is_active := False,
       a_deleted_at := (case a_deleted_at u of None \<Rightarrow> Some now | d \<Rightarrow> d),
       a_purged_at := Some now, a_token_version := a_token_version u + 1\<rparr>"

definition permanently_delete_user :: "time \<Rightarrow> 'x account_db_scheme \<Rightarrow> account \<Rightarrow> ('x account_db_scheme) result" where
  "permanently_delete_user now db user =
     (let uid = a_id user
      in if user_has_full_administrator db uid \<and> count_active_full_administrators db \<le> 1
         then Inl (ValueError ''Cannot delete the last Full Administrator account'')
         else
           let db1 = record_auth_event ''session_revoked'' user ''user_deleted'' db;
               db2 = purge_user_account_data now db1 uid;
               db3 = db2\<lparr>ad_log_owners := forget_owner uid (ad_log_owners db2)\<rparr>;
               db4 = delete_owned [UserApiKey, UserPlanAssignment] uid db3;
               db5 = db4\<lparr>ad_groups := filter (\<lambda>(u, _). u \<noteq> uid) (ad_groups db4),
                         ad_roles := filter (\<lambda>(u, _). u \<noteq> uid) (ad_roles db4)\<rparr>
           in Inr (update_account uid (empty_account now) db5))"

section \<open>Admin endpoints\<close>

definition clean_optional_str :: "string option \<Rightarrow> string option" where
  "clean_optional_str v = (case v of None \<Rightarrow> None | Some s \<Rightarrow> let t = strip s in if t = [] then None else Some t)"

definition normalize_username :: "string \<Rightarrow> string" where
  "normalize_username v = lower (strip v)"

definition username_taken_ci :: "'x account_db_scheme \<Rightarrow> string \<Rightarrow> int \<Rightarrow> bool" where
  "username_taken_ci db username exclude =
     (let key = normalize_username username
      in if key = [] then False
         else list_ex (\<lambda>u. lower (a_username u) = key \<and> a_id u \<noteq> exclude) (ad_users db))"

definition normalize_role :: "string \<Rightarrow> string result" where
  "normalize_role role =
     (let slug = normalize_role_slug role
      in if \<not> is_valid_role_slug slug then Inl (HTTPException 400 ''Invalid role'') else Inr slug)"

fun normalize_each :: "string list \<Rightarrow> (string list) result" where
  "normalize_each [] = Inr []"
| "normalize_each (r # rs) =
     (case normalize_role r of Inl e \<Rightarrow> Inl e
      | Inr slug \<Rightarrow> (case normalize_each rs of Inl e \<Rightarrow> Inl e | Inr slugs \<Rightarrow> Inr (slug # slugs)))"

definition ensure_not_last_full_admin_removal :: "'x account_db_scheme \<Rightarrow> int \<Rightarrow> string list \<Rightarrow> unit result" where
  "ensure_not_last_full_admin_removal db uid new_slugs =
     (if user_has_super_admin_access (get_user_role_slugs db uid) \<and> \<not> user_has_super_admin_access new_slugs \<and>
         count_active_full_administrators db \<le> 1
      then Inl (HTTPException 400 ''Cannot demote the last Full Administrator account'') else Inr ())"

definition ensure_actor_may_assign_roles ::
  "'x account_db_scheme \<Rightarrow> int \<Rightarrow> string list \<Rightarrow> string list option \<Rightarrow> unit result" where
  "ensure_actor_may_assign_roles db actor new_slugs previous =
     (if \<not> actor_may_assign_roles (get_user_role_slugs db actor) new_slugs previous
      then Inl (HTTPException 403 ''Only Super Admin can grant, change, or revoke Super Admin access'') else Inr ())"

definition audit_role_change ::
  "int \<Rightarrow> int \<Rightarrow> string list \<Rightarrow> string list \<Rightarrow> 'x account_db_scheme \<Rightarrow> 'x account_db_scheme" where
  "audit_role_change actor uid previous new_slugs db =
     (if sort previous = sort new_slugs then db
      else db\<lparr>ad_security_log := ad_security_log db @ [Roles_Changed actor uid (sort previous) (sort new_slugs)]\<rparr>)"

definition audit_user_action :: "int \<Rightarrow> string \<Rightarrow> int \<Rightarrow> 'x account_db_scheme \<Rightarrow> 'x account_db_scheme" where
  "audit_user_action actor action uid db =
     db\<lparr>ad_security_log := ad_security_log db @ [User_Action actor action uid]\<rparr>"

text \<open>The guarded replacement of the roles of one account (the two role branches of \<open>patch_user\<close>).\<close>

definition change_roles ::
  "int \<Rightarrow> 'x account_db_scheme \<Rightarrow> int \<Rightarrow> string list \<Rightarrow> ('x account_db_scheme \<times> string list) result" where
  "change_roles actor db uid new_slugs =
     (let previous = get_user_role_slugs db uid
      in case ensure_actor_may_assign_roles db actor new_slugs (Some previous) of Inl e \<Rightarrow> Inl e
         | Inr _ \<Rightarrow>
             (case ensure_not_last_full_admin_removal db uid new_slugs of Inl e \<Rightarrow> Inl e
              | Inr _ \<Rightarrow>
                  let (db1, saved) = set_user_roles db uid new_slugs
                  in Inr (audit_role_change actor uid previous saved db1, saved)))"

record user_admin_patch =
  up_username :: "string option"
  up_email :: "string option"
  up_display_name :: "string option"
  up_role :: "string option"
  up_roles :: "string list option"
  up_is_active :: "bool option"
  up_company :: "string option"
  up_department :: "string option"
  up_office :: "string option"
  up_job_title :: "string option"
  up_reporting_to :: "string option"

definition patch_names :: "user_admin_patch \<Rightarrow> 'x account_db_scheme \<Rightarrow> int \<Rightarrow> ('x account_db_scheme) result" where
  "patch_names body db uid =
     (case (case up_username body of
              None \<Rightarrow> Inr db
            | Some raw \<Rightarrow>
                let username = normalize_username raw
                in if username = [] then Inl (HTTPException 400 ''Username is required'')
                   else if username_taken_ci db username uid then Inl (HTTPException 400 ''Username already taken'')
                   else Inr (update_account uid (\<lambda>u. u\<lparr>a_username := username\<rparr>) db)) of
        Inl e \<Rightarrow> Inl e
      | Inr db1 \<Rightarrow>
          (case (case up_email body of
                   None \<Rightarrow> Inr db1
                 | Some raw \<Rightarrow>
                     let email = clean_optional_str (Some raw)
                     in if email \<noteq> None \<and> list_ex (\<lambda>u. a_email u = email \<and> a_id u \<noteq> uid) (ad_users db1)
                        then Inl (HTTPException 400 ''Email already in use'')
                        else Inr (update_account uid (\<lambda>u. u\<lparr>a_email := email\<rparr>) db1)) of
             Inl e \<Rightarrow> Inl e
           | Inr db2 \<Rightarrow>
               Inr (case up_display_name body of
                      None \<Rightarrow> db2
                    | Some raw \<Rightarrow> update_account uid (\<lambda>u. u\<lparr>a_display_name := clean_optional_str (Some raw)\<rparr>) db2)))"

definition patch_roles ::
  "int \<Rightarrow> user_admin_patch \<Rightarrow> 'x account_db_scheme \<Rightarrow> int \<Rightarrow> ('x account_db_scheme \<times> string list) result" where
  "patch_roles actor body db uid =
     (case up_roles body of
        Some roles \<Rightarrow>
          (case (if roles \<noteq> [] then normalize_each roles else Inr [''user'']) of Inl e \<Rightarrow> Inl e
           | Inr new_slugs \<Rightarrow> change_roles actor db uid new_slugs)
      | None \<Rightarrow>
          (case up_role body of
             Some role \<Rightarrow>
               (case normalize_role role of Inl e \<Rightarrow> Inl e | Inr new_role \<Rightarrow> change_roles actor db uid [new_role])
           | None \<Rightarrow> Inr (db, get_user_role_slugs db uid)))"

definition patch_directory :: "user_admin_patch \<Rightarrow> account \<Rightarrow> account" where
  "patch_directory body u =
     u\<lparr>a_company := (if up_company body = None then a_company u else clean_optional_str (up_company body)),
       a_department := (if up_department body = None then a_department u else clean_optional_str (up_department body)),
       a_office := (if up_office body = None then a_office u else clean_optional_str (up_office body)),
       a_job_title := (if up_job_title body = None then a_job_title u else clean_optional_str (up_job_title body)),
       a_reporting_to := (if up_reporting_to body = None then a_reporting_to u else clean_optional_str (up_reporting_to body))\<rparr>"

definition patch_active :: "user_admin_patch \<Rightarrow> 'x account_db_scheme \<Rightarrow> account \<Rightarrow> ('x account_db_scheme) result" where
  "patch_active body db user =
     (case up_is_active body of
        None \<Rightarrow> Inr db
      | Some on \<Rightarrow>
          if a_is_active user = on then Inr db
          else if \<not> on \<and> user_has_full_administrator db (a_id user) \<and> count_active_full_administrators db \<le> 1
          then Inl (HTTPException 400 ''Cannot disable the last active Full Administrator account'')
          else
            let db1 = update_account (a_id user) (\<lambda>u. u\<lparr>a_is_active := on\<rparr>) db
            in Inr (if on then db1
                    else record_auth_event ''session_revoked'' user ''user_deactivated''
                           (update_account (a_id user) (\<lambda>u. u\<lparr>a_token_version := a_token_version u + 1\<rparr>) db1)))"

text \<open>\<open>resolve\<close> is \<open>resolve_monthly_budget\<close>, the budget that the plans of the account give it.\<close>

definition patch_user ::
  "('x account_db_scheme \<Rightarrow> int \<Rightarrow> rat) \<Rightarrow> int \<Rightarrow> 'x account_db_scheme \<Rightarrow> int \<Rightarrow> user_admin_patch \<Rightarrow>
     ('x account_db_scheme \<times> string list) result" where
  "patch_user resolve actor db uid body =
     (case fetch a_id uid (ad_users db) of
        None \<Rightarrow> Inl (HTTPException 404 ''Not Found'')
      | Some user \<Rightarrow>
          (case patch_names body db uid of Inl e \<Rightarrow> Inl e
           | Inr db1 \<Rightarrow>
               (case patch_roles actor body db1 uid of Inl e \<Rightarrow> Inl e
                | Inr (db2, saved) \<Rightarrow>
                    let db3 = update_account uid (patch_directory body) db2
                    in case patch_active body db3 user of Inl e \<Rightarrow> Inl e
                       | Inr db4 \<Rightarrow>
                           Inr (update_account uid (\<lambda>u. u\<lparr>a_monthly_budget_usd := resolve db4 uid\<rparr>) db4, saved))))"

definition delete_local_user :: "time \<Rightarrow> 'x account_db_scheme \<Rightarrow> int \<Rightarrow> ('x account_db_scheme) result" where
  "delete_local_user now db uid =
     (case fetch a_id uid (ad_users db) of
        None \<Rightarrow> Inl (HTTPException 404 ''Not Found'')
      | Some user \<Rightarrow>
          if a_deleted_at user \<noteq> None then Inl (HTTPException 400 ''User is already in Deleted Users'')
          else if user_has_full_administrator db uid \<and> count_active_full_administrators db \<le> 1
          then Inl (HTTPException 400 ''Cannot delete the last Full Administrator account'')
          else Inr (soft_delete_user now db user))"

text \<open>\<open>except ValueError as exc: raise HTTPException(400, detail=str(exc))\<close>\<close>

definition value_error_400 :: "'a result \<Rightarrow> 'a result" where
  "value_error_400 r = (case r of Inl (ValueError t) \<Rightarrow> Inl (HTTPException 400 t) | _ \<Rightarrow> r)"

definition permanently_delete_user_endpoint ::
  "time \<Rightarrow> int \<Rightarrow> 'x account_db_scheme \<Rightarrow> int \<Rightarrow> ('x account_db_scheme) result" where
  "permanently_delete_user_endpoint now actor db uid =
     (case fetch a_id uid (ad_users db) of
        None \<Rightarrow> Inl (HTTPException 404 ''Not Found'')
      | Some user \<Rightarrow>
          if a_deleted_at user = None
          then Inl (HTTPException 400 ''User must be in Deleted Users before permanent deletion'')
          else if a_purged_at user \<noteq> None
          then Inl (HTTPException 400 ''User has already been permanently deleted'')
          else value_error_400
                 (permanently_delete_user now (audit_user_action actor ''user_permanently_deleted'' uid db) user))"

definition restore_user_endpoint :: "int \<Rightarrow> 'x account_db_scheme \<Rightarrow> int \<Rightarrow> ('x account_db_scheme) result" where
  "restore_user_endpoint actor db uid =
     (case fetch a_id uid (ad_users db) of
        None \<Rightarrow> Inl (HTTPException 404 ''Not Found'')
      | Some user \<Rightarrow>
          if a_deleted_at user = None then Inl (HTTPException 400 ''User is not in Deleted Users'')
          else (case value_error_400 (restore_user db user) of Inl e \<Rightarrow> Inl e
                | Inr db1 \<Rightarrow> Inr (audit_user_action actor ''user_restored'' uid db1)))"

text \<open>The bulk endpoints work on the rows found for the ids, in table order.\<close>

definition selected_users :: "'x account_db_scheme \<Rightarrow> int list \<Rightarrow> account list" where
  "selected_users db ids = filter (\<lambda>u. a_id u \<in> set ids) (ad_users db)"

fun restore_each :: "int \<Rightarrow> 'x account_db_scheme \<Rightarrow> account list \<Rightarrow> 'x account_db_scheme \<times> int" where
  "restore_each actor db [] = (db, 0)"
| "restore_each actor db (user # users) =
     (if a_deleted_at user = None \<or> a_purged_at user \<noteq> None then restore_each actor db users
      else (case restore_user db user of
              Inl _ \<Rightarrow> restore_each actor db users
            | Inr db1 \<Rightarrow>
                let (db2, n) = restore_each actor (audit_user_action actor ''user_restored'' (a_id user) db1) users
                in (db2, n + 1)))"

definition bulk_restore_users :: "int \<Rightarrow> 'x account_db_scheme \<Rightarrow> int list \<Rightarrow> ('x account_db_scheme \<times> int) result" where
  "bulk_restore_users actor db ids =
     (if ids = [] then Inl (HTTPException 400 ''No users selected'')
      else Inr (restore_each actor db (selected_users db ids)))"

fun purge_each :: "time \<Rightarrow> 'x account_db_scheme \<Rightarrow> account list \<Rightarrow> 'x account_db_scheme \<times> int list" where
  "purge_each now db [] = (db, [])"
| "purge_each now db (user # users) =
     (if a_deleted_at user = None \<or> a_purged_at user \<noteq> None then purge_each now db users
      else (case permanently_delete_user now db user of
              Inl _ \<Rightarrow> purge_each now db users
            | Inr db1 \<Rightarrow> let (db2, removed) = purge_each now db1 users in (db2, a_id user # removed)))"

definition bulk_permanently_delete_users ::
  "time \<Rightarrow> int \<Rightarrow> 'x account_db_scheme \<Rightarrow> int list \<Rightarrow> ('x account_db_scheme \<times> nat) result" where
  "bulk_permanently_delete_users now actor db ids =
     (if ids = [] then Inl (HTTPException 400 ''No users selected'')
      else
        let (db1, removed) = purge_each now db (selected_users db ids)
        in Inr (if removed = [] then db1 else db1\<lparr>ad_security_log := ad_security_log db1 @ [Users_Purged actor removed]\<rparr>,
                length removed))"

text \<open>The role part and the activity part of \<open>bulk_update_users\<close>.\<close>

fun dedupe_roles :: "string list \<Rightarrow> string list \<Rightarrow> (string list) result" where
  "dedupe_roles seen [] = Inr []"
| "dedupe_roles seen (raw # rs) =
     (case normalize_role raw of Inl e \<Rightarrow> Inl e
      | Inr slug \<Rightarrow>
          if slug \<in> set seen then dedupe_roles seen rs
          else (case dedupe_roles (slug # seen) rs of Inl e \<Rightarrow> Inl e | Inr slugs \<Rightarrow> Inr (slug # slugs)))"

definition bulk_new_slugs :: "string list option \<Rightarrow> string option \<Rightarrow> (string list) result" where
  "bulk_new_slugs roles role =
     (case roles of
        Some rs \<Rightarrow> if rs = [] then Inl (HTTPException 400 ''Select at least one role'') else dedupe_roles [] rs
      | None \<Rightarrow> (case normalize_role (case role of None \<Rightarrow> [] | Some r \<Rightarrow> r) of Inl e \<Rightarrow> Inl e | Inr slug \<Rightarrow> Inr [slug]))"

fun bulk_apply_roles ::
  "int \<Rightarrow> string list \<Rightarrow> 'x account_db_scheme \<Rightarrow> account list \<Rightarrow> ('x account_db_scheme \<times> int) result" where
  "bulk_apply_roles actor new_slugs db [] = Inr (db, 0)"
| "bulk_apply_roles actor new_slugs db (u # us) =
     (let cur = get_user_role_slugs db (a_id u)
      in if cur = new_slugs then bulk_apply_roles actor new_slugs db us
         else (case ensure_actor_may_assign_roles db actor new_slugs (Some cur) of Inl e \<Rightarrow> Inl e
               | Inr _ \<Rightarrow>
                   (case bulk_apply_roles actor new_slugs
                           (audit_role_change actor (a_id u) cur new_slugs (fst (set_user_roles db (a_id u) new_slugs))) us of
                      Inl e \<Rightarrow> Inl e
                    | Inr (db1, n) \<Rightarrow> Inr (db1, n + 1))))"

definition bulk_update_roles ::
  "int \<Rightarrow> 'x account_db_scheme \<Rightarrow> account list \<Rightarrow> string list option \<Rightarrow> string option \<Rightarrow> ('x account_db_scheme \<times> int) result" where
  "bulk_update_roles actor db users roles role =
     (if roles = None \<and> role = None then Inr (db, 0)
      else
        (case bulk_new_slugs roles role of Inl e \<Rightarrow> Inl e
         | Inr new_slugs \<Rightarrow>
             let demote_count = int (length (filter (\<lambda>u. user_has_super_admin_access (get_user_role_slugs db (a_id u))) users))
             in if \<not> user_has_super_admin_access new_slugs \<and> demote_count \<noteq> 0 \<and>
                   count_active_full_administrators db - demote_count < 1
                then Inl (HTTPException 400 ''Cannot demote the last Full Administrator account'')
                else bulk_apply_roles actor new_slugs db users))"

definition set_active_row :: "bool \<Rightarrow> account \<Rightarrow> account" where
  "set_active_row on u =
     (if a_is_active u = on then u
      else if on then u\<lparr>a_is_active := True\<rparr>
      else u\<lparr>a_is_active := False, a_token_version := a_token_version u + 1\<rparr>)"

definition bulk_update_active :: "'x account_db_scheme \<Rightarrow> account list \<Rightarrow> bool option \<Rightarrow> ('x account_db_scheme) result" where
  "bulk_update_active db users is_active =
     (case is_active of
        None \<Rightarrow> Inr db
      | Some on \<Rightarrow>
          let to_disable = int (length (filter (\<lambda>u. a_is_active u \<and> user_has_full_administrator db (a_id u)) users))
          in if \<not> on \<and> to_disable \<noteq> 0 \<and> count_active_full_administrators db \<le> to_disable
             then Inl (HTTPException 400 ''Cannot disable the last active Full Administrator account'')
             else Inr (foldl (\<lambda>d u. update_account (a_id u) (set_active_row on) d) db users))"

fun show_ints :: "int list \<Rightarrow> string" where
  "show_ints [] = []"
| "show_ints [i] = show_int i"
| "show_ints (i # is) = show_int i @ '', '' @ show_ints is"

text \<open>The two parts in the order of the request, on the rows that were read at its start.\<close>

definition bulk_update_accounts ::
  "int \<Rightarrow> 'x account_db_scheme \<Rightarrow> int list \<Rightarrow> string list option \<Rightarrow> string option \<Rightarrow> bool option \<Rightarrow> ('x account_db_scheme) result" where
  "bulk_update_accounts actor db ids roles role is_active =
     (if ids = [] then Inl (HTTPException 400 ''No users selected'')
      else
        let users = selected_users db ids;
            missing = filter (\<lambda>i. i \<notin> a_id ` set users) ids
        in if missing \<noteq> [] then Inl (HTTPException 404 (''Users not found: ['' @ show_ints (take 5 missing) @ '']''))
           else (case bulk_update_roles actor db users roles role of Inl e \<Rightarrow> Inl e
                 | Inr (db1, _) \<Rightarrow> bulk_update_active db1 users is_active))"

section \<open>What the guards count\<close>

text \<open>
  A slug as the role service stores it: assignable and in normal form, or the empty text, which
  is what a role of white space is stored as and what reads back as the user role.
\<close>

definition clean_slug :: "string \<Rightarrow> bool" where
  "clean_slug s \<longleftrightarrow> is_assignable_role_slug s \<and> (s = [] \<or> normalize_role_slug s = s)"

definition roles_clean :: "'x account_db_scheme \<Rightarrow> bool" where
  "roles_clean db \<longleftrightarrow> (\<forall>(u, s)\<in>set (ad_roles db). clean_slug s)"

definition account_inv :: "'x account_db_scheme \<Rightarrow> bool" where
  "account_inv db \<longleftrightarrow> distinct (map a_id (ad_users db)) \<and> roles_clean db"

text \<open>Whether the account with this id is a full administrator who can sign in.\<close>

definition administers :: "'x account_db_scheme \<Rightarrow> int \<Rightarrow> bool" where
  "administers db uid \<longleftrightarrow> (case fetch a_id uid (ad_users db) of None \<Rightarrow> False | Some u \<Rightarrow> counted_administrator db u)"

lemma set_normalize_roles:
  "set (normalize_roles seen slugs) = {n \<in> normalize_role_slug ` set slugs. is_assignable_role_slug n} - set seen"
  by (induction seen slugs rule: normalize_roles.induct) (auto simp: Let_def)

lemma user_not_super: "normalize_role_slug USER_SLUG \<notin> set GLOBAL_FULL_ADMIN_SLUGS"
  by code_simp

lemma user_assignable: "is_assignable_role_slug USER_SLUG" "normalize_role_slug USER_SLUG = USER_SLUG"
  by code_simp+

lemma clean_slug_normal:
  assumes "clean_slug s"
  shows "normalize_role_slug (normalize_role_slug s) = normalize_role_slug s \<and> is_assignable_role_slug (normalize_role_slug s)"
proof (cases "s = []")
  case True
  then show ?thesis unfolding True normalize_Nil using user_assignable by simp
next
  case False
  with assms show ?thesis by (simp add: clean_slug_def)
qed

lemma normalize_role_list_clean: "s \<in> set (normalize_role_list slugs) \<Longrightarrow> clean_slug s"
proof -
  assume s: "s \<in> set (normalize_role_list slugs)"
  have "clean_slug s" if "s \<in> set (normalize_roles [] slugs)"
    using that normalize_idem by (auto simp: set_normalize_roles clean_slug_def)
  with s user_assignable show ?thesis by (auto simp: normalize_role_list_def Let_def clean_slug_def split: if_splits)
qed

lemma super_normalize_role_list:
  assumes "\<And>s. s \<in> set slugs \<Longrightarrow> clean_slug s"
  shows "user_has_super_admin_access (normalize_role_list slugs) \<longleftrightarrow> user_has_super_admin_access slugs"
proof -
  have eq: "set (normalize_roles [] slugs) = normalize_role_slug ` set slugs"
    using assms clean_slug_normal by (auto simp: set_normalize_roles)
  show ?thesis
  proof (cases "slugs = []")
    case True
    then show ?thesis using user_not_super by (simp add: normalize_role_list_def super_iff del: USER_SLUG_def)
  next
    case False
    with eq have "normalize_roles [] slugs \<noteq> []" by (metis image_is_empty set_empty)
    then have "user_has_super_admin_access (normalize_role_list slugs)
        \<longleftrightarrow> (\<exists>s\<in>set slugs. normalize_role_slug (normalize_role_slug s) \<in> set GLOBAL_FULL_ADMIN_SLUGS)"
      by (simp add: normalize_role_list_def super_iff eq)
    with assms clean_slug_normal show ?thesis by (simp add: super_iff)
  qed
qed

lemma role_rows_clean: "roles_clean db \<Longrightarrow> s \<in> set (role_rows_of db uid) \<Longrightarrow> clean_slug s"
  by (auto simp: roles_clean_def role_rows_of_def)

lemma full_administrator_iff:
  assumes "roles_clean db"
  shows "user_has_full_administrator db uid \<longleftrightarrow> user_has_super_admin_access (role_rows_of db uid)"
proof (cases "role_rows_of db uid = []")
  case True
  then show ?thesis using user_not_super
    by (simp add: user_has_full_administrator_def get_user_role_slugs_def super_iff del: USER_SLUG_def)
next
  case False
  let ?r = "sort (role_rows_of db uid)"
  have "?r \<noteq> []" using False by (metis set_empty set_sort)
  then have "user_has_full_administrator db uid = user_has_super_admin_access (normalize_role_list ?r)"
    by (simp add: user_has_full_administrator_def get_user_role_slugs_def)
  also have "\<dots> = user_has_super_admin_access ?r"
    using role_rows_clean [OF assms] by (intro super_normalize_role_list) simp
  finally show ?thesis by (simp add: super_iff)
qed

lemma counted_administers:
  "distinct (map a_id (ad_users db)) \<Longrightarrow> u \<in> set (ad_users db) \<Longrightarrow> counted_administrator db u \<longleftrightarrow> administers db (a_id u)"
  by (simp add: administers_def fetch_distinct)

lemma administers_row: "administers db v \<longleftrightarrow> (\<exists>u. fetch a_id v (ad_users db) = Some u \<and> counted_administrator db u)"
  by (simp add: administers_def split: option.split)

lemma count_pos:
  assumes "distinct (map a_id (ad_users db))"
  shows "1 \<le> count_active_full_administrators db \<longleftrightarrow> (\<exists>v. administers db v)"
proof -
  have "1 \<le> count_active_full_administrators db \<longleftrightarrow> filter (counted_administrator db) (ad_users db) \<noteq> []"
    by (cases "filter (counted_administrator db) (ad_users db)") (simp_all add: count_active_full_administrators_def)
  also have "\<dots> \<longleftrightarrow> (\<exists>u\<in>set (ad_users db). counted_administrator db u)" by (simp add: filter_empty_conv)
  also have "\<dots> \<longleftrightarrow> (\<exists>v. administers db v)"
  proof
    assume "\<exists>u\<in>set (ad_users db). counted_administrator db u"
    then show "\<exists>v. administers db v" using counted_administers [OF assms] by blast
  next
    assume "\<exists>v. administers db v"
    then obtain v u where "fetch a_id v (ad_users db) = Some u" "counted_administrator db u"
      unfolding administers_row by blast
    then show "\<exists>u\<in>set (ad_users db). counted_administrator db u" using fetch_SomeD by fast
  qed
  finally show ?thesis .
qed

text \<open>More administrators than a list of accounts leaves one outside the list.\<close>

lemma count_gt:
  assumes "distinct (map a_id (ad_users db))" and "distinct (map a_id us)"
    and "int (length us) < count_active_full_administrators db"
  shows "\<exists>v. administers db v \<and> v \<notin> a_id ` set us"
proof (rule ccontr)
  assume "\<not> ?thesis"
  then have sub: "a_id ` set (filter (counted_administrator db) (ad_users db)) \<subseteq> a_id ` set us"
    using counted_administers [OF assms(1)] by auto
  have d: "distinct (map a_id (filter (counted_administrator db) (ad_users db)))"
    by (rule distinct_map_filter [OF assms(1)])
  have "length (filter (counted_administrator db) (ad_users db)) = card (a_id ` set (filter (counted_administrator db) (ad_users db)))"
    using distinct_card [OF d] by simp
  also have "\<dots> \<le> card (a_id ` set us)" using sub by (intro card_mono) auto
  also have "\<dots> = length us" using distinct_card [OF assms(2)] by simp
  finally show False using assms(3) by (simp add: count_active_full_administrators_def)
qed

section \<open>Operations on one account\<close>

text \<open>
  An operation works on the account \<open>uid\<close> when the sign-in state and the role rows of every
  other account stay as they are.
\<close>

definition works_on :: "int \<Rightarrow> 'x account_db_scheme \<Rightarrow> 'x account_db_scheme \<Rightarrow> bool" where
  "works_on uid db db' \<longleftrightarrow> map a_id (ad_users db') = map a_id (ad_users db) \<and>
     (\<forall>v. v \<noteq> uid \<longrightarrow> map_option can_sign_in (fetch a_id v (ad_users db')) = map_option can_sign_in (fetch a_id v (ad_users db))
        \<and> role_rows_of db' v = role_rows_of db v)"

lemma works_on_refl [simp]: "works_on uid db db"
  by (simp add: works_on_def)

lemma works_on_trans: "works_on uid a b \<Longrightarrow> works_on uid b c \<Longrightarrow> works_on uid a c"
  by (simp add: works_on_def)

lemma administers_iff:
  "administers db v \<longleftrightarrow> map_option can_sign_in (fetch a_id v (ad_users db)) = Some True \<and>
     user_has_super_admin_access (role_rows_of db v)"
  by (auto simp: administers_def counted_administrator_def dest: fetch_key split: option.split)

lemma works_on_others: "works_on uid db db' \<Longrightarrow> v \<noteq> uid \<Longrightarrow> administers db' v = administers db v"
  by (simp add: works_on_def administers_iff)

lemma works_on_keeps:
  assumes "works_on uid db db'" and "account_inv db" and "roles_clean db'" and "1 \<le> count_active_full_administrators db"
    and "administers db uid \<Longrightarrow> administers db' uid \<or> 1 < count_active_full_administrators db"
  shows "account_inv db' \<and> 1 \<le> count_active_full_administrators db'"
proof -
  have d: "distinct (map a_id (ad_users db))" "distinct (map a_id (ad_users db'))"
    using assms(1,2) by (simp_all add: account_inv_def works_on_def)
  from assms(4) obtain v where v: "administers db v" using count_pos [OF d(1)] by blast
  have "\<exists>v. administers db' v"
  proof (cases "v = uid")
    case False
    with v works_on_others [OF assms(1)] show ?thesis by blast
  next
    case True
    with v assms(5) consider "administers db' uid" | "1 < count_active_full_administrators db" by blast
    then show ?thesis
    proof cases
      case 2
      from v obtain u where u: "u \<in> set (ad_users db)" "a_id u = v" by (auto simp: administers_row dest: fetch_SomeD)
      with 2 count_gt [OF d(1), of "[u]"] obtain w where "administers db w" "w \<noteq> v" by auto
      with True works_on_others [OF assms(1)] show ?thesis by blast
    qed blast
  qed
  with d assms(3) show ?thesis using count_pos [OF d(2)] by (simp add: account_inv_def)
qed

lemma works_on_update [simp]:
  "(\<And>u. a_id (f u) = a_id u) \<Longrightarrow> works_on uid db (update_account uid f db)"
  by (simp add: works_on_def update_account_def role_rows_of_def fetch_modify)

lemma works_on_frame: "ad_users db' = ad_users db \<Longrightarrow> ad_roles db' = ad_roles db \<Longrightarrow> works_on uid db db'"
  by (simp add: works_on_def role_rows_of_def)

lemma works_on_roles:
  "ad_users db' = ad_users db \<Longrightarrow> (\<And>v. v \<noteq> uid \<Longrightarrow> role_rows_of db' v = role_rows_of db v) \<Longrightarrow> works_on uid db db'"
  by (simp add: works_on_def)

lemma rows_map_Pair: "map snd (filter (\<lambda>(w, _). w = v) (map (Pair uid) xs)) = (if v = uid then xs else [])"
  by (induction xs) auto

lemma rows_filter_ne: "filter (\<lambda>(w, _). w = v) (filter (\<lambda>(w, _). w \<noteq> uid) rows) = (if v = uid then [] else filter (\<lambda>(w, _). w = v) rows)"
  by (induction rows) auto

lemma role_rows_set: "role_rows_of (fst (set_user_roles db uid slugs)) v = (if v = uid then normalize_role_list slugs else role_rows_of db v)"
  by (simp add: role_rows_of_def set_user_roles_def Let_def rows_map_Pair rows_filter_ne del: filter_filter)

lemma set_user_roles_users [simp]: "ad_users (fst (set_user_roles db uid slugs)) = ad_users db"
  by (simp add: set_user_roles_def Let_def)

lemma set_user_roles_clean: "roles_clean db \<Longrightarrow> roles_clean (fst (set_user_roles db uid slugs))"
  using normalize_role_list_clean by (auto simp: roles_clean_def set_user_roles_def Let_def)

lemma role_audit_frame [simp]:
  "ad_users (audit_role_change actor uid p n db) = ad_users db" "ad_roles (audit_role_change actor uid p n db) = ad_roles db"
  "role_rows_of (audit_role_change actor uid p n db) = role_rows_of db"
  by (simp_all add: audit_role_change_def role_rows_of_def fun_eq_iff)

lemma user_audit_frame [simp]:
  "ad_users (audit_user_action actor t uid db) = ad_users db" "ad_roles (audit_user_action actor t uid db) = ad_roles db"
  by (simp_all add: audit_user_action_def)

lemma auth_event_frame [simp]:
  "ad_users (record_auth_event t u r db) = ad_users db" "ad_roles (record_auth_event t u r db) = ad_roles db"
  by (simp_all add: record_auth_event_def)

lemma update_account_roles [simp]: "ad_roles (update_account uid f db) = ad_roles db"
  by (simp add: update_account_def)

lemma clean_frame: "ad_roles db' = ad_roles db \<Longrightarrow> roles_clean db' = roles_clean db"
  by (simp add: roles_clean_def)

lemma roles_clean_update [simp]: "roles_clean (update_account uid f db) = roles_clean db"
  by (rule clean_frame) simp

lemma rows_frame: "ad_roles db' = ad_roles db \<Longrightarrow> role_rows_of db' v = role_rows_of db v"
  by (simp add: role_rows_of_def)

lemma set_roles_works_on: "works_on uid db (fst (set_user_roles db uid slugs))"
  by (rule works_on_roles) (simp_all add: role_rows_set)

text \<open>New slugs that passed \<open>_normalize_role\<close> are clean, so what is stored grants what was asked.\<close>

lemma normalize_role_clean: "normalize_role r = Inr s \<Longrightarrow> clean_slug s"
  using normalize_idem [of r] by (auto simp: normalize_role_def Let_def is_valid_role_slug_def clean_slug_def split: if_splits)

lemma normalize_each_clean: "normalize_each rs = Inr ss \<Longrightarrow> s \<in> set ss \<Longrightarrow> clean_slug s"
  by (induction rs arbitrary: ss) (auto dest: normalize_role_clean split: sum.splits)

lemma dedupe_roles_clean: "dedupe_roles seen rs = Inr ss \<Longrightarrow> s \<in> set ss \<Longrightarrow> clean_slug s"
  by (induction seen rs arbitrary: ss rule: dedupe_roles.induct) (auto dest: normalize_role_clean split: sum.splits if_splits)

lemma bulk_new_slugs_clean: "bulk_new_slugs roles role = Inr ss \<Longrightarrow> s \<in> set ss \<Longrightarrow> clean_slug s"
  by (auto simp: bulk_new_slugs_def dest: dedupe_roles_clean normalize_role_clean split: option.splits sum.splits if_splits)

section \<open>No operation locks the administrators out\<close>

definition staffed :: "'x account_db_scheme \<Rightarrow> bool" where
  "staffed db \<longleftrightarrow> account_inv db \<and> 1 \<le> count_active_full_administrators db"

lemma staffed_clean: "staffed db \<Longrightarrow> roles_clean db"
  by (simp add: staffed_def account_inv_def)

lemma staffed_step:
  assumes "staffed db" and "works_on uid db db'" and "roles_clean db'"
    and "administers db uid \<Longrightarrow> administers db' uid \<or> 1 < count_active_full_administrators db"
  shows "staffed db'"
  using works_on_keeps [OF assms(2) _ assms(3) _ assms(4)] assms(1) by (simp add: staffed_def)

lemma administers_full: "roles_clean db \<Longrightarrow> administers db uid \<Longrightarrow> user_has_full_administrator db uid"
  by (simp add: full_administrator_iff administers_iff)

lemma staffed_update:
  assumes "staffed db" and "\<And>u. a_id (f u) = a_id u" and "\<And>u. can_sign_in u \<Longrightarrow> can_sign_in (f u)"
  shows "staffed (update_account uid f db)"
proof (rule staffed_step [OF assms(1)])
  show "works_on uid db (update_account uid f db)" using assms(2) by simp
  show "roles_clean (update_account uid f db)" using staffed_clean [OF assms(1)] by simp
  show "administers (update_account uid f db) uid \<or> 1 < count_active_full_administrators db" if "administers db uid"
  proof -
    from that obtain u where "fetch a_id uid (ad_users db) = Some u" "can_sign_in u" "user_has_super_admin_access (role_rows_of db uid)"
      by (auto simp: administers_iff)
    with assms(2,3) have "administers (update_account uid f db) uid"
      by (simp add: administers_iff update_account_def fetch_modify role_rows_of_def)
    then show ?thesis ..
  qed
qed

lemma staffed_frame: "ad_users db' = ad_users db \<Longrightarrow> ad_roles db' = ad_roles db \<Longrightarrow> staffed db' = staffed db"
proof -
  assume eq: "ad_users db' = ad_users db" "ad_roles db' = ad_roles db"
  then have "counted_administrator db' = counted_administrator db"
    by (simp add: fun_eq_iff counted_administrator_def role_rows_of_def)
  with eq show ?thesis
    by (simp add: staffed_def account_inv_def roles_clean_def count_active_full_administrators_def)
qed

lemma staffed_audit [simp]:
  "staffed (audit_role_change actor uid p n db) = staffed db" "staffed (audit_user_action actor t uid db) = staffed db"
  "staffed (record_auth_event e u r db) = staffed db"
  by (rule staffed_frame; simp)+

lemma change_roles_staffed:
  assumes "staffed db" and "change_roles actor db uid new_slugs = Inr (db', saved)"
    and "\<And>s. s \<in> set new_slugs \<Longrightarrow> clean_slug s"
  shows "staffed db'"
proof -
  let ?db1 = "fst (set_user_roles db uid new_slugs)"
  from assms(2) have db': "db' = audit_role_change actor uid (get_user_role_slugs db uid) saved ?db1"
    and guard: "\<not> (user_has_full_administrator db uid \<and> \<not> user_has_super_admin_access new_slugs \<and> count_active_full_administrators db \<le> 1)"
    by (auto simp: change_roles_def Let_def ensure_not_last_full_admin_removal_def ensure_actor_may_assign_roles_def
        user_has_full_administrator_def split_beta split: sum.splits if_splits)
  have "staffed ?db1"
  proof (rule staffed_step [OF assms(1) set_roles_works_on])
    show "roles_clean ?db1" by (rule set_user_roles_clean [OF staffed_clean [OF assms(1)]])
    assume adm: "administers db uid"
    with guard administers_full [OF staffed_clean [OF assms(1)] adm]
    have "user_has_super_admin_access new_slugs \<or> 1 < count_active_full_administrators db" by auto
    then show "administers ?db1 uid \<or> 1 < count_active_full_administrators db"
      using adm super_normalize_role_list [of new_slugs] assms(3) by (auto simp: administers_iff role_rows_set)
  qed
  then show ?thesis by (simp add: db')
qed

lemma patch_names_staffed: "staffed db \<Longrightarrow> patch_names body db uid = Inr db' \<Longrightarrow> staffed db'"
  by (auto simp: patch_names_def Let_def can_sign_in_def intro!: staffed_update split: option.splits sum.splits if_splits)

lemma patch_roles_staffed: "staffed db \<Longrightarrow> patch_roles actor body db uid = Inr (db', saved) \<Longrightarrow> staffed db'"
proof -
  assume st: "staffed db" and r: "patch_roles actor body db uid = Inr (db', saved)"
  have user: "clean_slug ''user''" using user_assignable by (simp add: clean_slug_def)
  from r consider "db' = db" | rs ss where "normalize_each rs = Inr ss" "change_roles actor db uid ss = Inr (db', saved)"
    | "change_roles actor db uid [''user''] = Inr (db', saved)"
    | ro s where "normalize_role ro = Inr s" "change_roles actor db uid [s] = Inr (db', saved)"
    by (auto simp: patch_roles_def split: option.splits sum.splits if_splits)
  then show ?thesis
  proof cases
    case 2
    then show ?thesis by (intro change_roles_staffed [OF st 2(2)]) (rule normalize_each_clean)
  next
    case 3
    then show ?thesis using user by (intro change_roles_staffed [OF st 3]) simp
  next
    case 4
    then show ?thesis by (intro change_roles_staffed [OF st 4(2)]) (simp add: normalize_role_clean)
  qed (use st in simp)
qed

text \<open>Taking the sign-in away from one account, under the guard the endpoints share.\<close>

lemma guarded_change_staffed:
  assumes "staffed db" and "works_on uid db db'" and "roles_clean db'"
    and "\<not> (user_has_full_administrator db uid \<and> count_active_full_administrators db \<le> 1)"
  shows "staffed db'"
  using assms administers_full [OF staffed_clean [OF assms(1)]] by (intro staffed_step [OF assms(1-3)]) force

lemma patch_active_staffed: "staffed db \<Longrightarrow> patch_active body db user = Inr db' \<Longrightarrow> staffed db'"
proof -
  assume st: "staffed db" and r: "patch_active body db user = Inr db'"
  let ?on = "\<lambda>b. update_account (a_id user) (\<lambda>u. u\<lparr>a_is_active := b\<rparr>) db"
  from r consider "db' = db" | "db' = ?on True"
    | "db' = record_auth_event ''session_revoked'' user ''user_deactivated''
             (update_account (a_id user) (\<lambda>u. u\<lparr>a_token_version := a_token_version u + 1\<rparr>) (?on False))"
      "\<not> (user_has_full_administrator db (a_id user) \<and> count_active_full_administrators db \<le> 1)"
    by (auto simp: patch_active_def Let_def split: option.splits if_splits)
  then show ?thesis
  proof cases
    case 2
    show ?thesis unfolding 2 by (rule staffed_update [OF st]) (simp_all add: can_sign_in_def)
  next
    case 3
    have "staffed (?on False)"
      by (rule guarded_change_staffed [OF st _ _ 3(2)]) (simp_all add: staffed_clean [OF st])
    then have "staffed (update_account (a_id user) (\<lambda>u. u\<lparr>a_token_version := a_token_version u + 1\<rparr>) (?on False))"
      by (rule staffed_update) (simp_all add: can_sign_in_def)
    then show ?thesis by (simp only: 3(1) staffed_audit)
  qed (use st in simp)
qed

lemma patch_user_staffed:
  assumes "staffed db" and "patch_user resolve actor db uid body = Inr (db', saved)"
  shows "staffed db'"
proof -
  from assms(2) obtain user db1 db2 db4 where
    "patch_names body db uid = Inr db1" "patch_roles actor body db1 uid = Inr (db2, saved)"
    "patch_active body (update_account uid (patch_directory body) db2) user = Inr db4"
    "db' = update_account uid (\<lambda>u. u\<lparr>a_monthly_budget_usd := resolve db4 uid\<rparr>) db4"
    by (auto simp: patch_user_def Let_def split: option.splits sum.splits prod.splits)
  moreover from this assms(1) have "staffed db2" by (blast intro: patch_names_staffed patch_roles_staffed)
  then have "staffed (update_account uid (patch_directory body) db2)"
    by (rule staffed_update) (simp_all add: patch_directory_def can_sign_in_def)
  ultimately show ?thesis
    using patch_active_staffed by (auto simp: can_sign_in_def intro!: staffed_update)
qed

lemma soft_delete_frame:
  "works_on (a_id user) db (soft_delete_user now db user)" "ad_roles (soft_delete_user now db user) = ad_roles db"
proof -
  let ?f = "\<lambda>u. u\<lparr>a_deleted_at := Some now, a_is_active := False, a_token_version := a_token_version u + 1\<rparr>"
  have "works_on (a_id user) db (update_account (a_id user) ?f db)" by simp
  moreover have "works_on (a_id user) (update_account (a_id user) ?f db) (soft_delete_user now db user)"
    by (rule works_on_frame) (simp_all add: soft_delete_user_def)
  ultimately show "works_on (a_id user) db (soft_delete_user now db user)" by (rule works_on_trans)
qed (simp add: soft_delete_user_def)

lemma soft_delete_staffed:
  assumes "staffed db" and "\<not> (user_has_full_administrator db (a_id user) \<and> count_active_full_administrators db \<le> 1)"
  shows "staffed (soft_delete_user now db user)"
  using staffed_clean [OF assms(1)]
  by (intro guarded_change_staffed [OF assms(1) soft_delete_frame(1) _ assms(2)])
     (simp add: clean_frame [OF soft_delete_frame(2)])

lemma delete_local_user_staffed: "staffed db \<Longrightarrow> delete_local_user now db uid = Inr db' \<Longrightarrow> staffed db'"
  by (auto simp: delete_local_user_def intro!: soft_delete_staffed dest: fetch_key split: option.splits if_splits)

lemma prune_sync_user_staffed: "staffed db \<Longrightarrow> staffed (fst (prune_sync_user now db user))"
  by (auto simp: prune_sync_user_def intro: soft_delete_staffed)

lemma delete_owned_frame [simp]:
  "ad_users (delete_owned ts uid db) = ad_users db" "ad_roles (delete_owned ts uid db) = ad_roles db"
  by (simp_all add: delete_owned_def)

lemma delete_personal_chats_frame [simp]:
  "ad_users (delete_personal_chats uid db) = ad_users db" "ad_roles (delete_personal_chats uid db) = ad_roles db"
  by (simp_all add: delete_personal_chats_def Let_def)

lemma purge_data_frame [simp]:
  "ad_users (purge_user_account_data now db uid) = ad_users db" "ad_roles (purge_user_account_data now db uid) = ad_roles db"
  by (simp_all add: purge_user_account_data_def Let_def)

lemma permanently_delete_frame:
  assumes "permanently_delete_user now db user = Inr db'"
  shows "ad_users db' = modify a_id (a_id user) (empty_account now) (ad_users db)"
    and "ad_roles db' = filter (\<lambda>(u, _). u \<noteq> a_id user) (ad_roles db)"
    and "\<not> (user_has_full_administrator db (a_id user) \<and> count_active_full_administrators db \<le> 1)"
  using assms by (auto simp: permanently_delete_user_def Let_def update_account_def split: if_splits)

lemma empty_account_id [simp]: "a_id (empty_account now u) = a_id u"
  by (simp add: empty_account_def)

lemma permanently_delete_staffed:
  assumes "staffed db" and "permanently_delete_user now db user = Inr db'"
  shows "staffed db'"
proof (rule guarded_change_staffed [OF assms(1) _ _ permanently_delete_frame(3) [OF assms(2)]])
  note fr = permanently_delete_frame [OF assms(2)]
  show "works_on (a_id user) db db'"
    unfolding works_on_def fr(1) role_rows_of_def fr(2) rows_filter_ne by (simp add: fetch_modify)
  show "roles_clean db'" using staffed_clean [OF assms(1)] by (auto simp: roles_clean_def fr)
qed

lemma restore_user_staffed: "staffed db \<Longrightarrow> restore_user db user = Inr db' \<Longrightarrow> staffed db'"
  by (auto simp: restore_user_def can_sign_in_def intro!: staffed_update split: if_splits)

lemma value_error_400_Inr: "value_error_400 r = Inr x \<longleftrightarrow> r = Inr x"
  by (auto simp: value_error_400_def split: sum.splits py_error.splits)

lemma permanently_delete_endpoint_staffed:
  "staffed db \<Longrightarrow> permanently_delete_user_endpoint now actor db uid = Inr db' \<Longrightarrow> staffed db'"
  using permanently_delete_staffed [of "audit_user_action actor ''user_permanently_deleted'' uid db" now _ db']
  by (auto simp: permanently_delete_user_endpoint_def value_error_400_Inr split: option.splits if_splits)

lemma restore_endpoint_staffed: "staffed db \<Longrightarrow> restore_user_endpoint actor db uid = Inr db' \<Longrightarrow> staffed db'"
  by (auto simp: restore_user_endpoint_def value_error_400_Inr dest: restore_user_staffed
      split: option.splits if_splits sum.splits)

lemma restore_each_staffed: "staffed db \<Longrightarrow> staffed (fst (restore_each actor db users))"
  by (induction actor db users rule: restore_each.induct)
     (auto simp: Let_def split_beta dest: restore_user_staffed split: sum.splits)

lemma purge_each_staffed: "staffed db \<Longrightarrow> staffed (fst (purge_each now db users))"
  by (induction now db users rule: purge_each.induct)
     (auto simp: Let_def split_beta dest: permanently_delete_staffed split: sum.splits)

lemma bulk_restore_staffed: "staffed db \<Longrightarrow> bulk_restore_users actor db ids = Inr r \<Longrightarrow> staffed (fst r)"
  by (auto simp: bulk_restore_users_def intro: restore_each_staffed split: if_splits)

lemma bulk_purge_staffed: "staffed db \<Longrightarrow> bulk_permanently_delete_users now actor db ids = Inr r \<Longrightarrow> staffed (fst r)"
proof -
  assume st: "staffed db" and r: "bulk_permanently_delete_users now actor db ids = Inr r"
  let ?p = "purge_each now db (selected_users db ids)"
  from r have "ad_users (fst r) = ad_users (fst ?p)" "ad_roles (fst r) = ad_roles (fst ?p)"
    by (auto simp: bulk_permanently_delete_users_def Let_def split_beta split: if_splits)
  with purge_each_staffed [OF st] show ?thesis by (metis staffed_frame)
qed

section \<open>Bulk changes of roles and activity\<close>

text \<open>What the role loop leaves behind: the selected accounts hold the old or the new roles.\<close>

lemma bulk_apply_roles_spec:
  assumes "bulk_apply_roles actor new_slugs db us = Inr (db', n)"
  shows "ad_users db' = ad_users db
    \<and> (\<forall>v. role_rows_of db' v = role_rows_of db v \<or> v \<in> a_id ` set us \<and> role_rows_of db' v = normalize_role_list new_slugs)
    \<and> (roles_clean db \<longrightarrow> roles_clean db')"
  using assms
proof (induction actor new_slugs db us arbitrary: db' n rule: bulk_apply_roles.induct)
  case (2 actor new_slugs db u us)
  let ?cur = "get_user_role_slugs db (a_id u)"
  let ?db1 = "audit_role_change actor (a_id u) ?cur new_slugs (fst (set_user_roles db (a_id u) new_slugs))"
  have clean: "roles_clean ?db1 = roles_clean (fst (set_user_roles db (a_id u) new_slugs))" by (rule clean_frame) simp
  show ?case
  proof (cases "?cur = new_slugs")
    case True
    with 2(1) [OF refl True] 2(3) show ?thesis by auto
  next
    case False
    with 2(3) obtain m where e: "ensure_actor_may_assign_roles db actor new_slugs (Some ?cur) = Inr ()"
      and m: "bulk_apply_roles actor new_slugs ?db1 us = Inr (db', m)"
      by (auto simp: Let_def split: sum.splits)
    note IH = 2(2) [OF refl False e m]
    have rows: "role_rows_of db' v = role_rows_of db v \<or> v \<in> a_id ` set (u # us) \<and> role_rows_of db' v = normalize_role_list new_slugs" for v
    proof -
      from IH have "role_rows_of db' v = (if v = a_id u then normalize_role_list new_slugs else role_rows_of db v) \<or>
          v \<in> a_id ` set us \<and> role_rows_of db' v = normalize_role_list new_slugs"
        by (simp add: role_rows_set)
      then show ?thesis by (auto split: if_splits)
    qed
    from IH rows set_user_roles_clean [of db "a_id u" new_slugs] show ?thesis unfolding clean by simp
  qed
qed simp

lemma selected_distinct: "distinct (map a_id (ad_users db)) \<Longrightarrow> distinct (map a_id (selected_users db ids))"
  unfolding selected_users_def by (rule distinct_map_filter)

lemma bulk_update_roles_staffed:
  assumes st: "staffed db" and r: "bulk_update_roles actor db (selected_users db ids) roles role = Inr (db', n)"
  shows "staffed db' \<and> ad_users db' = ad_users db"
proof (cases "roles = None \<and> role = None")
  case True
  with r st show ?thesis by (simp add: bulk_update_roles_def)
next
  case False
  let ?us = "selected_users db ids"
  let ?sup = "filter (\<lambda>u. user_has_super_admin_access (get_user_role_slugs db (a_id u))) ?us"
  from False r obtain ss where ss: "bulk_new_slugs roles role = Inr ss"
    and guard: "user_has_super_admin_access ss \<or> ?sup = [] \<or> int (length ?sup) < count_active_full_administrators db"
    and app: "bulk_apply_roles actor ss db ?us = Inr (db', n)"
    by (auto simp: bulk_update_roles_def Let_def split: sum.splits if_splits)
  note spec = bulk_apply_roles_spec [OF app]
  have inv: "distinct (map a_id (ad_users db))" "roles_clean db" using st by (simp_all add: staffed_def account_inv_def)
  have keep: "administers db' v" if "administers db v" "role_rows_of db' v = role_rows_of db v \<or> user_has_super_admin_access ss" for v
  proof -
    have "user_has_super_admin_access (normalize_role_list ss) = user_has_super_admin_access ss"
      using bulk_new_slugs_clean [OF ss] by (rule super_normalize_role_list)
    with that spec have "user_has_super_admin_access (role_rows_of db' v)" by (metis administers_iff)
    with that spec show ?thesis by (simp add: administers_iff)
  qed
  have "\<exists>v. administers db' v"
  proof (cases "user_has_super_admin_access ss")
    case True
    with st keep show ?thesis using count_pos [OF inv(1)] by (auto simp: staffed_def)
  next
    case no: False
    have "\<exists>v. administers db v \<and> v \<notin> a_id ` set ?sup"
    proof (cases "?sup = []")
      case True
      with st show ?thesis using count_pos [OF inv(1)] by (auto simp: staffed_def)
    next
      case False
      with guard no count_gt [OF inv(1) distinct_map_filter [OF selected_distinct [OF inv(1)]]] show ?thesis by blast
    qed
    then obtain v where v: "administers db v" "v \<notin> a_id ` set ?sup" by blast
    then have "v \<notin> a_id ` set ?us"
      using administers_full [OF inv(2) v(1)] by (auto simp: user_has_full_administrator_def)
    with spec have "role_rows_of db' v = role_rows_of db v" by blast
    with keep v(1) show ?thesis by blast
  qed
  with spec inv show ?thesis using count_pos [of db'] by (simp add: staffed_def account_inv_def)
qed

lemma set_active_row_id [simp]: "a_id (set_active_row on u) = a_id u"
  by (simp add: set_active_row_def)

lemma fold_active:
  "ad_roles (foldl (\<lambda>d u. update_account (a_id u) (set_active_row on) d) db us) = ad_roles db"
  "map a_id (ad_users (foldl (\<lambda>d u. update_account (a_id u) (set_active_row on) d) db us)) = map a_id (ad_users db)"
  "v \<notin> a_id ` set us \<Longrightarrow>
     fetch a_id v (ad_users (foldl (\<lambda>d u. update_account (a_id u) (set_active_row on) d) db us)) = fetch a_id v (ad_users db)"
  by (induction us arbitrary: db) (simp_all add: update_account_def fetch_modify)

lemma fold_activate_staffed: "staffed db \<Longrightarrow> staffed (foldl (\<lambda>d u. update_account (a_id u) (set_active_row True) d) db us)"
proof (induction us arbitrary: db)
  case (Cons u us)
  have "staffed (update_account (a_id u) (set_active_row True) db)"
    by (rule staffed_update [OF Cons.prems]) (simp_all add: set_active_row_def can_sign_in_def)
  with Cons.IH show ?case by simp
qed simp

lemma bulk_update_active_staffed:
  assumes st: "staffed db" and us: "distinct (map a_id us)" "\<And>u. u \<in> set us \<Longrightarrow> fetch a_id (a_id u) (ad_users db) = Some u"
    and r: "bulk_update_active db us active = Inr db'"
  shows "staffed db'"
proof (cases "active = Some False")
  case False
  with r st fold_activate_staffed [OF st, of us] show ?thesis
    by (cases active) (auto simp: bulk_update_active_def)
next
  case True
  let ?adm = "filter (\<lambda>u. a_is_active u \<and> user_has_full_administrator db (a_id u)) us"
  from True r have db': "db' = foldl (\<lambda>d u. update_account (a_id u) (set_active_row False) d) db us"
    and guard: "?adm = [] \<or> int (length ?adm) < count_active_full_administrators db"
    by (auto simp: bulk_update_active_def Let_def split: if_splits)
  have inv: "distinct (map a_id (ad_users db))" "roles_clean db" using st by (simp_all add: staffed_def account_inv_def)
  have "\<exists>v. administers db v \<and> v \<notin> a_id ` set ?adm"
  proof (cases "?adm = []")
    case True
    with st show ?thesis using count_pos [OF inv(1)] by (auto simp: staffed_def)
  next
    case False
    with guard count_gt [OF inv(1) distinct_map_filter [OF us(1)]] show ?thesis by blast
  qed
  then obtain v where v: "administers db v" "v \<notin> a_id ` set ?adm" by blast
  have "v \<notin> a_id ` set us"
  proof
    assume "v \<in> a_id ` set us"
    then obtain u where u: "u \<in> set us" "v = a_id u" by blast
    with v(1) us(2) [OF u(1)] have "a_is_active u" by (simp add: administers_iff can_sign_in_def)
    with u v administers_full [OF inv(2) v(1)] show False by auto
  qed
  with v(1) have "administers db' v" by (simp add: administers_iff db' fold_active role_rows_of_def)
  with inv show ?thesis
    using count_pos [of db'] by (auto simp: staffed_def account_inv_def db' fold_active clean_frame [OF fold_active(1)])
qed

lemma bulk_update_accounts_staffed:
  assumes "staffed db" and "bulk_update_accounts actor db ids roles role active = Inr db'"
  shows "staffed db'"
proof -
  from assms(2) obtain db1 n where r: "bulk_update_roles actor db (selected_users db ids) roles role = Inr (db1, n)"
    and a: "bulk_update_active db1 (selected_users db ids) active = Inr db'"
    by (auto simp: bulk_update_accounts_def Let_def split: if_splits sum.splits prod.splits)
  have d: "distinct (map a_id (ad_users db))" using assms(1) by (simp add: staffed_def account_inv_def)
  from bulk_update_roles_staffed [OF assms(1) r] have "staffed db1" "ad_users db1 = ad_users db" by simp_all
  with d selected_distinct [OF d] show ?thesis
    by (intro bulk_update_active_staffed [OF _ _ _ a]) (auto simp: selected_users_def intro: fetch_distinct)
qed

section \<open>The start-up repair\<close>

lemma ensure_super_admin_staffed:
  assumes "staffed db"
  shows "staffed (ensure_super_admin_roles name db user) \<and> ad_users (ensure_super_admin_roles name db user) = ad_users db"
proof -
  let ?db1 = "fst (set_user_roles db (a_id user) bootstrap_super_admin_role_slugs)"
  have stored: "user_has_super_admin_access (normalize_role_list bootstrap_super_admin_role_slugs)" by code_simp
  have "staffed ?db1"
    using stored by (intro staffed_step [OF assms set_roles_works_on set_user_roles_clean [OF staffed_clean [OF assms]]])
      (simp add: administers_iff role_rows_set)
  then have "staffed ?db1 \<and> ad_users ?db1 = ad_users db" by simp
  with assms show ?thesis by (simp add: ensure_super_admin_roles_def Let_def del: USER_SLUG_def SUPER_ADMIN_SLUG_def)
qed

lemma ensure_bootstrap_staffed: "staffed db \<Longrightarrow> staffed (fst (ensure_bootstrap_admin_roles name db))"
proof -
  have "staffed (foldl (ensure_super_admin_roles name) db us)" if "staffed db" for us db
    using that by (induction us arbitrary: db) (simp_all add: ensure_super_admin_staffed)
  then show "staffed db \<Longrightarrow> staffed (fst (ensure_bootstrap_admin_roles name db))"
    by (simp add: ensure_bootstrap_admin_roles_def Let_def)
qed

section \<open>The accounts as an event system\<close>

datatype account_event =
    Patch_User int int user_admin_patch
  | Delete_User time int
  | Prune_User time int
  | Restore_User int int
  | Bulk_Restore int "int list"
  | Purge_User time int int
  | Bulk_Purge time int "int list"
  | Bulk_Update int "int list" "string list option" "string option" "bool option"
  | Startup string

definition keep_on_error :: "'s \<Rightarrow> 's result \<Rightarrow> 's" where
  "keep_on_error s r = (case r of Inl _ \<Rightarrow> s | Inr s' \<Rightarrow> s')"

definition fst_result :: "('s \<times> 'a) result \<Rightarrow> 's result" where
  "fst_result r = (case r of Inl e \<Rightarrow> Inl e | Inr (s, _) \<Rightarrow> Inr s)"

fun account_step :: "('x account_db_scheme \<Rightarrow> int \<Rightarrow> rat) \<Rightarrow> 'x account_db_scheme \<Rightarrow> account_event \<Rightarrow> 'x account_db_scheme" where
  "account_step resolve db (Patch_User actor uid body) = keep_on_error db (fst_result (patch_user resolve actor db uid body))"
| "account_step resolve db (Delete_User now uid) = keep_on_error db (delete_local_user now db uid)"
| "account_step resolve db (Prune_User now uid) =
     (case fetch a_id uid (ad_users db) of None \<Rightarrow> db | Some user \<Rightarrow> fst (prune_sync_user now db user))"
| "account_step resolve db (Restore_User actor uid) = keep_on_error db (restore_user_endpoint actor db uid)"
| "account_step resolve db (Bulk_Restore actor ids) = keep_on_error db (fst_result (bulk_restore_users actor db ids))"
| "account_step resolve db (Purge_User now actor uid) = keep_on_error db (permanently_delete_user_endpoint now actor db uid)"
| "account_step resolve db (Bulk_Purge now actor ids) =
     keep_on_error db (fst_result (bulk_permanently_delete_users now actor db ids))"
| "account_step resolve db (Bulk_Update actor ids roles role active) =
     keep_on_error db (bulk_update_accounts actor db ids roles role active)"
| "account_step resolve db (Startup name) = fst (ensure_bootstrap_admin_roles name db)"

lemma keep_staffed: "staffed db \<Longrightarrow> (\<And>db'. r = Inr db' \<Longrightarrow> staffed db') \<Longrightarrow> staffed (keep_on_error db r)"
  by (simp add: keep_on_error_def split: sum.split)

lemma keep_fst_staffed: "staffed db \<Longrightarrow> (\<And>p. r = Inr p \<Longrightarrow> staffed (fst p)) \<Longrightarrow> staffed (keep_on_error db (fst_result r))"
  by (auto simp: keep_on_error_def fst_result_def split: sum.split)

lemma account_step_staffed: "staffed db \<Longrightarrow> staffed (account_step resolve db e)"
proof (induction resolve db e rule: account_step.induct)
  case (1 resolve db actor uid body)
  then show ?case using patch_user_staffed by (auto intro!: keep_fst_staffed)
next
  case (3 resolve db now uid)
  then show ?case by (simp add: prune_sync_user_staffed split: option.split)
qed (auto intro!: keep_staffed keep_fst_staffed intro: delete_local_user_staffed restore_endpoint_staffed bulk_restore_staffed
    permanently_delete_endpoint_staffed bulk_purge_staffed bulk_update_accounts_staffed ensure_bootstrap_staffed)

interpretation accounts: invariant_system "account_step resolve" "\<lambda>_. True" staffed
  for resolve :: "'x account_db_scheme \<Rightarrow> int \<Rightarrow> rat"
  by unfold_locales (rule account_step_staffed)

section \<open>Properties\<close>

text \<open>
  C8: as long as the stored role slugs are the ones the role service writes, no sequence of
  admin requests, directory prunes and restarts leaves the installation without a full
  administrator who can sign in.
\<close>

theorem no_admin_lockout:
  assumes "distinct (map a_id (ad_users db))" and "roles_clean db" and "1 \<le> count_active_full_administrators db"
  shows "1 \<le> count_active_full_administrators (foldl (account_step resolve) db es)
    \<and> roles_clean (foldl (account_step resolve) db es)"
proof -
  have "staffed db" using assms by (simp add: staffed_def account_inv_def)
  moreover have "list_all (\<lambda>_. True) es" by (simp add: list_all_iff)
  ultimately have "staffed (foldl (account_step resolve) db es)" by (intro accounts.run_inv)
  then show ?thesis by (simp add: staffed_def account_inv_def)
qed

definition sample_account :: "int \<Rightarrow> string \<Rightarrow> account" where
  "sample_account i name =
     \<lparr>a_id = i, a_username = name, a_email = None, a_display_name = None, a_hashed_password = None,
      a_auth_provider = ''local'', a_external_id = None, a_is_active = True, a_token_version = 0,
      a_company = None, a_job_title = None, a_department = None, a_office = None, a_reporting_to = None,
      a_monthly_budget_usd = 0, a_totp_secret_encrypted = None, a_totp_enabled = False,
      a_totp_backup_codes_hashed = None, a_last_login_at = None, a_deleted_at = None, a_purged_at = None\<rparr>"

definition sample_accounts :: "account list \<Rightarrow> (int \<times> string) list \<Rightarrow> account_db" where
  "sample_accounts us rs =
     \<lparr>ad_users = us, ad_roles = rs, ad_groups = [], ad_personal = [(UserMemory, 1), (UserMemory, 2)], ad_sessions = [],
      ad_messages = [], ad_summaries = [], ad_log_owners = [Some 1], ad_uploaders = [], ad_members = [],
      ad_security_log = [], ad_auth_events = []\<rparr>"

theorem no_admin_lockout_witness:
  "1 \<le> count_active_full_administrators
     (foldl (account_step (\<lambda>_ _. 0)) (sample_accounts [sample_account 1 ''ann'', sample_account 2 ''bob'']
        [(1, ''super_admin''), (2, ''super_admin'')]) [Delete_User 5 1, Delete_User 6 2])"
proof -
  let ?db = "sample_accounts [sample_account 1 ''ann'', sample_account 2 ''bob''] [(1, ''super_admin''), (2, ''super_admin'')]"
  have "distinct (map a_id (ad_users ?db))" "1 \<le> count_active_full_administrators ?db" by code_simp+
  moreover have "list_all (\<lambda>(_, s). clean_slug s) (ad_roles ?db)" by code_simp
  then have "roles_clean ?db" by (auto simp: roles_clean_def list_all_iff)
  ultimately show ?thesis using no_admin_lockout [of ?db "\<lambda>_ _. 0" "[Delete_User 5 1, Delete_User 6 2]"] by blast
qed

lemma personal_frame [simp]:
  "ad_personal (delete_owned ts uid db) = filter (\<lambda>(t, u). \<not> (t \<in> set ts \<and> u = uid)) (ad_personal db)"
  "ad_personal (delete_personal_chats uid db) = ad_personal db" "ad_personal (update_account uid f db) = ad_personal db"
  "ad_personal (record_auth_event e u r db) = ad_personal db"
  by (simp_all add: delete_owned_def delete_personal_chats_def update_account_def record_auth_event_def Let_def)

lemma purge_personal:
  assumes "permanently_delete_user now db user = Inr db'"
  shows "ad_personal db' = filter (\<lambda>(t, u). u \<noteq> a_id user) (ad_personal db)"
proof -
  let ?del = "\<lambda>ts rows. filter (\<lambda>(t, u). \<not> (t \<in> set ts \<and> u = a_id user)) rows"
  define t1 where "t1 = [MediaAsset]"
  define t2 where "t2 = [UserMemory, ChatFolder, ExtensionSession, SupportTicket, MailItemRef,
      MailActionItem, MailDraft, MailConnection, UserChatPrefs, UserMediaPreferences]"
  define t3 where "t3 = [UserApiKey, UserPlanAssignment]"
  have all: "t \<in> set t1 \<or> t \<in> set t2 \<or> t \<in> set t3" for t
    by (cases t) (simp_all add: t1_def t2_def t3_def)
  from assms have "ad_personal db' = ?del t3 (?del t2 (?del t1 (ad_personal db)))"
    unfolding permanently_delete_user_def purge_user_account_data_def Let_def t1_def [symmetric] t2_def [symmetric] t3_def [symmetric]
    by (auto simp del: filter_filter split: if_splits)
  also have "\<dots> = filter (\<lambda>(t, u). u \<noteq> a_id user) (ad_personal db)"
  proof (unfold filter_filter, rule filter_cong [OF refl])
    fix row :: "personal_table \<times> int"
    show "(((case row of (t, u) \<Rightarrow> \<not> (t \<in> set t1 \<and> u = a_id user)) \<and> (case row of (t, u) \<Rightarrow> \<not> (t \<in> set t2 \<and> u = a_id user))) \<and>
        (case row of (t, u) \<Rightarrow> \<not> (t \<in> set t3 \<and> u = a_id user))) = (case row of (t, u) \<Rightarrow> u \<noteq> a_id user)"
      using all [of "fst row"] by (cases row) auto
  qed
  finally show ?thesis .
qed

text \<open>The chats, messages and owners after a purge.\<close>

lemma personal_sessions_kept:
  "s \<in> set (reassign_project_chat_sessions ms uid sessions) \<and> cs_user_id s = uid \<and> cs_project_id s = None
     \<longleftrightarrow> s \<in> set sessions \<and> cs_user_id s = uid \<and> cs_project_id s = None"
  unfolding reassign_project_chat_sessions_def
  by (induction sessions) (auto split: option.splits if_splits)

definition personal_ids :: "int \<Rightarrow> chat_session list \<Rightarrow> string set" where
  "personal_ids uid ss = cs_id ` {s \<in> set ss. cs_user_id s = uid \<and> cs_project_id s = None}"

lemma personal_ids_reassign: "personal_ids uid (reassign_project_chat_sessions ms uid ss) = personal_ids uid ss"
  by (simp only: personal_ids_def personal_sessions_kept)

lemma delete_personal_chats_eq [simp]:
  "ad_sessions (delete_personal_chats uid db) = filter (\<lambda>s. cs_id s \<notin> personal_ids uid (ad_sessions db)) (ad_sessions db)"
  "ad_messages (delete_personal_chats uid db) = filter (\<lambda>m. cm_session_id m \<notin> personal_ids uid (ad_sessions db)) (ad_messages db)"
  "ad_members (delete_personal_chats uid db) = ad_members db" "ad_groups (delete_personal_chats uid db) = ad_groups db"
  "ad_uploaders (delete_personal_chats uid db) = ad_uploaders db" "ad_log_owners (delete_personal_chats uid db) = ad_log_owners db"
proof -
  have ids: "set (map cs_id (filter (\<lambda>s. cs_user_id s = uid \<and> cs_project_id s = None) (ad_sessions db))) = personal_ids uid (ad_sessions db)"
    by (auto simp: personal_ids_def)
  show "ad_sessions (delete_personal_chats uid db) = filter (\<lambda>s. cs_id s \<notin> personal_ids uid (ad_sessions db)) (ad_sessions db)"
    "ad_messages (delete_personal_chats uid db) = filter (\<lambda>m. cm_session_id m \<notin> personal_ids uid (ad_sessions db)) (ad_messages db)"
    unfolding delete_personal_chats_def Let_def ids [symmetric]
    by (cases "map cs_id (filter (\<lambda>s. cs_user_id s = uid \<and> cs_project_id s = None) (ad_sessions db)) = []"; simp del: set_map)+
qed (simp_all add: delete_personal_chats_def Let_def)

lemma delete_owned_eq [simp]:
  "ad_sessions (delete_owned ts uid db) = ad_sessions db" "ad_messages (delete_owned ts uid db) = ad_messages db"
  "ad_members (delete_owned ts uid db) = ad_members db" "ad_groups (delete_owned ts uid db) = ad_groups db"
  "ad_uploaders (delete_owned ts uid db) = ad_uploaders db" "ad_log_owners (delete_owned ts uid db) = ad_log_owners db"
  by (simp_all add: delete_owned_def)

lemma purge_data_eq:
  "ad_members (purge_user_account_data now db uid) = transfer_primary_owner_if_departing now uid (ad_members db)"
  "ad_sessions (purge_user_account_data now db uid) = filter (\<lambda>s. cs_id s \<notin> personal_ids uid (ad_sessions db))
     (reassign_project_chat_sessions (transfer_primary_owner_if_departing now uid (ad_members db)) uid (ad_sessions db))"
  "ad_messages (purge_user_account_data now db uid) = map (\<lambda>m. if cm_user_id m = Some uid then m\<lparr>cm_user_id := None\<rparr> else m)
     (filter (\<lambda>m. cm_session_id m \<notin> personal_ids uid (ad_sessions db)) (ad_messages db))"
  "ad_groups (purge_user_account_data now db uid) = ad_groups db"
  "ad_uploaders (purge_user_account_data now db uid) = forget_uploader uid (ad_uploaders db)"
  "ad_log_owners (purge_user_account_data now db uid) = ad_log_owners db"
  by (simp_all add: purge_user_account_data_def Let_def personal_ids_reassign)

lemma not_forgotten: "Some uid \<notin> set (forget_owner uid us)" "(pid, Some uid) \<notin> set (forget_uploader uid ups)"
  by (auto simp: forget_owner_def forget_uploader_def split: if_splits)

lemma purge_chats:
  assumes "permanently_delete_user now db user = Inr db'"
  shows "ad_members db' = transfer_primary_owner_if_departing now (a_id user) (ad_members db)"
    and "ad_sessions db' = filter (\<lambda>s. cs_id s \<notin> personal_ids (a_id user) (ad_sessions db))
      (reassign_project_chat_sessions (ad_members db') (a_id user) (ad_sessions db))"
    and "\<forall>m\<in>set (ad_messages db'). cm_user_id m \<noteq> Some (a_id user) \<and> cm_session_id m \<notin> personal_ids (a_id user) (ad_sessions db)"
    and "Some (a_id user) \<notin> set (ad_log_owners db')" and "\<forall>pid. (pid, Some (a_id user)) \<notin> set (ad_uploaders db')"
    and "ad_groups db' = filter (\<lambda>(u, _). u \<noteq> a_id user) (ad_groups db)"
proof -
  let ?uid = "a_id user"
  let ?p = "purge_user_account_data now (record_auth_event ''session_revoked'' user ''user_deleted'' db) ?uid"
  from assms have eqs: "ad_members db' = ad_members ?p" "ad_sessions db' = ad_sessions ?p" "ad_messages db' = ad_messages ?p"
    "ad_uploaders db' = ad_uploaders ?p" "ad_log_owners db' = forget_owner ?uid (ad_log_owners ?p)"
    "ad_groups db' = filter (\<lambda>(u, _). u \<noteq> ?uid) (ad_groups ?p)"
    by (auto simp: permanently_delete_user_def Let_def update_account_def split: if_splits)
  note [simp] = eqs purge_data_eq not_forgotten
  show "ad_members db' = transfer_primary_owner_if_departing now ?uid (ad_members db)"
    "ad_sessions db' = filter (\<lambda>s. cs_id s \<notin> personal_ids ?uid (ad_sessions db))
      (reassign_project_chat_sessions (ad_members db') ?uid (ad_sessions db))"
    "Some ?uid \<notin> set (ad_log_owners db')" "\<forall>pid. (pid, Some ?uid) \<notin> set (ad_uploaders db')"
    "ad_groups db' = filter (\<lambda>(u, _). u \<noteq> ?uid) (ad_groups db)"
    by (simp_all add: record_auth_event_def)
  show "\<forall>m\<in>set (ad_messages db'). cm_user_id m \<noteq> Some ?uid \<and> cm_session_id m \<notin> personal_ids ?uid (ad_sessions db)"
    by (auto simp: record_auth_event_def)
qed

lemma filter_Cons_mem: "filter P xs = y # ys \<Longrightarrow> y \<in> set xs \<and> P y"
  by (metis (no_types, lifting) list.set_intros(1) mem_Collect_eq set_filter)

lemma assignee_is_member:
  "remaining_project_assignee_id ms pid uid = Some v \<Longrightarrow> v \<noteq> uid \<and> (\<exists>m\<in>set ms. m_project_id m = pid \<and> m_user_id m = v)"
  by (auto simp: remaining_project_assignee_id_def others_with_role_def dest!: filter_Cons_mem split: list.splits)

lemma no_assignee:
  "remaining_project_assignee_id ms pid uid = None \<longleftrightarrow> (\<forall>m\<in>set ms. m_project_id m = pid \<longrightarrow> m_user_id m = uid)"
proof
  assume "remaining_project_assignee_id ms pid uid = None"
  then have "filter (\<lambda>m. m_project_id m = pid \<and> m_user_id m \<noteq> uid) ms = []"
    by (simp add: remaining_project_assignee_id_def split: list.splits)
  then show "\<forall>m\<in>set ms. m_project_id m = pid \<longrightarrow> m_user_id m = uid" by (auto simp: filter_empty_conv)
next
  assume "\<forall>m\<in>set ms. m_project_id m = pid \<longrightarrow> m_user_id m = uid"
  then show "remaining_project_assignee_id ms pid uid = None"
    using assignee_is_member [of ms pid uid] by (cases "remaining_project_assignee_id ms pid uid") auto
qed

lemma purge_effects:
  assumes "permanently_delete_user now db user = Inr db'" and "distinct (map a_id (ad_users db))"
    and "user \<in> set (ad_users db)"
  shows "\<exists>row. fetch a_id (a_id user) (ad_users db') = Some row \<and> \<not> can_sign_in row \<and> a_purged_at row = Some now \<and>
      a_email row = None \<and> a_display_name row = None \<and> a_hashed_password row = None \<and> a_external_id row = None \<and>
      a_totp_secret_encrypted row = None \<and> a_username row = ''purged-user-'' @ show_int (a_id user)"
    and "role_rows_of db' (a_id user) = []" and "\<forall>g. (a_id user, g) \<notin> set (ad_groups db')"
    and "\<forall>t. (t, a_id user) \<notin> set (ad_personal db')"
    and "\<forall>m\<in>set (ad_messages db'). cm_user_id m \<noteq> Some (a_id user)"
    and "Some (a_id user) \<notin> set (ad_log_owners db')" and "\<forall>pid. (pid, Some (a_id user)) \<notin> set (ad_uploaders db')"
    and "\<forall>s\<in>set (ad_sessions db'). cs_user_id s = a_id user \<longrightarrow>
      (\<exists>pid. cs_project_id s = Some pid \<and> (\<forall>m\<in>set (ad_members db'). m_project_id m = pid \<longrightarrow> m_user_id m = a_id user))"
    and "\<forall>v. v \<noteq> a_id user \<longrightarrow> fetch a_id v (ad_users db') = fetch a_id v (ad_users db) \<and>
      role_rows_of db' v = role_rows_of db v \<and> (\<forall>t. (t, v) \<in> set (ad_personal db') \<longleftrightarrow> (t, v) \<in> set (ad_personal db))"
proof -
  let ?uid = "a_id user"
  note fr = permanently_delete_frame [OF assms(1)] and ch = purge_chats [OF assms(1)] and pe = purge_personal [OF assms(1)]
  have "fetch a_id ?uid (ad_users db') = Some (empty_account now user)"
    using fetch_distinct [OF assms(2,3)] by (simp add: fr(1) fetch_modify)
  then show "\<exists>row. fetch a_id ?uid (ad_users db') = Some row \<and> \<not> can_sign_in row \<and> a_purged_at row = Some now \<and>
      a_email row = None \<and> a_display_name row = None \<and> a_hashed_password row = None \<and> a_external_id row = None \<and>
      a_totp_secret_encrypted row = None \<and> a_username row = ''purged-user-'' @ show_int ?uid"
    by (simp add: empty_account_def can_sign_in_def)
  show "role_rows_of db' ?uid = []" unfolding role_rows_of_def fr(2) rows_filter_ne by simp
  show "\<forall>g. (?uid, g) \<notin> set (ad_groups db')" by (simp add: ch(6))
  show "\<forall>t. (t, ?uid) \<notin> set (ad_personal db')" by (simp add: pe)
  show "\<forall>m\<in>set (ad_messages db'). cm_user_id m \<noteq> Some ?uid" using ch(3) by blast
  show "Some ?uid \<notin> set (ad_log_owners db')" "\<forall>pid. (pid, Some ?uid) \<notin> set (ad_uploaders db')" by (rule ch(4), rule ch(5))
  show "\<forall>s\<in>set (ad_sessions db'). cs_user_id s = ?uid \<longrightarrow>
      (\<exists>pid. cs_project_id s = Some pid \<and> (\<forall>m\<in>set (ad_members db'). m_project_id m = pid \<longrightarrow> m_user_id m = ?uid))"
    unfolding ch(2)
  proof (intro ballI impI)
    fix s assume s: "s \<in> set (filter (\<lambda>s. cs_id s \<notin> personal_ids ?uid (ad_sessions db))
        (reassign_project_chat_sessions (ad_members db') ?uid (ad_sessions db)))" and u: "cs_user_id s = ?uid"
    then have "cs_project_id s \<noteq> None"
      using personal_sessions_kept [of s "ad_members db'" ?uid "ad_sessions db"] by (auto simp: personal_ids_def)
    with s u show "\<exists>pid. cs_project_id s = Some pid \<and> (\<forall>m\<in>set (ad_members db'). m_project_id m = pid \<longrightarrow> m_user_id m = ?uid)"
      using assignee_is_member
      by (fastforce simp: reassign_project_chat_sessions_def no_assignee split: option.splits if_splits)
  qed
  show "\<forall>v. v \<noteq> ?uid \<longrightarrow> fetch a_id v (ad_users db') = fetch a_id v (ad_users db) \<and>
      role_rows_of db' v = role_rows_of db v \<and> (\<forall>t. (t, v) \<in> set (ad_personal db') \<longleftrightarrow> (t, v) \<in> set (ad_personal db))"
    unfolding role_rows_of_def fr(2) rows_filter_ne by (simp add: fr(1) fetch_modify pe)
qed



text \<open>
  An account that is soft-deleted and then restored is as it was, with the same roles,
  groups and personal rows; only its sessions have ended (its token version has grown).
\<close>

theorem soft_delete_restore:
  assumes "fetch a_id uid (ad_users db) = Some user" and "a_deleted_at user = None" and "a_is_active user"
    and "a_purged_at user = None" and "delete_local_user now db uid = Inr db1"
  shows "\<exists>db2. restore_user_endpoint actor db1 uid = Inr db2 \<and>
    fetch a_id uid (ad_users db2) = Some (user\<lparr>a_token_version := a_token_version user + 1\<rparr>) \<and>
    (\<forall>v. v \<noteq> uid \<longrightarrow> fetch a_id v (ad_users db2) = fetch a_id v (ad_users db)) \<and>
    ad_roles db2 = ad_roles db \<and> ad_groups db2 = ad_groups db \<and> ad_personal db2 = ad_personal db"
proof -
  have uid: "a_id user = uid" using fetch_key [OF assms(1)] .
  have db1: "db1 = soft_delete_user now db user"
    using assms(1,2,5) by (auto simp: delete_local_user_def split: if_splits)
  let ?row = "user\<lparr>a_deleted_at := Some now, a_is_active := False, a_token_version := a_token_version user + 1\<rparr>"
  have row: "fetch a_id uid (ad_users db1) = Some ?row"
    by (simp add: db1 soft_delete_user_def update_account_def fetch_modify uid assms(1))
  have other: "fetch a_id v (ad_users db1) = fetch a_id v (ad_users db)" if "v \<noteq> uid" for v
    using that by (simp add: db1 soft_delete_user_def update_account_def fetch_modify uid)
  have rest: "ad_roles db1 = ad_roles db \<and> ad_groups db1 = ad_groups db \<and> ad_personal db1 = ad_personal db"
    by (simp add: db1 soft_delete_user_def update_account_def record_auth_event_def)
  have restored: "restore_user_endpoint actor db1 uid = Inr (audit_user_action actor ''user_restored'' uid
      (update_account uid (\<lambda>u. u\<lparr>a_deleted_at := None, a_is_active := True\<rparr>) db1))"
    by (simp add: restore_user_endpoint_def row restore_user_def assms(4) value_error_400_def uid)
  show ?thesis
    unfolding restored using assms(2,3) row other rest
    by (auto simp: update_account_def audit_user_action_def fetch_modify uid)
qed

theorem soft_delete_restore_witness:
  "case delete_local_user 9 (sample_accounts [sample_account 1 ''ann''] [(1, ''user'')]) 1 of
     Inl _ \<Rightarrow> False
   | Inr db1 \<Rightarrow> (\<exists>db2. restore_user_endpoint 1 db1 1 = Inr db2 \<and>
       fetch a_id 1 (ad_users db2) = Some ((sample_account 1 ''ann'')\<lparr>a_token_version := 1\<rparr>))"
proof -
  let ?db = "sample_accounts [sample_account 1 ''ann''] [(1, ''user'')]"
  have "(case delete_local_user 9 ?db 1 of Inl _ \<Rightarrow> False | Inr _ \<Rightarrow> True)" by code_simp
  then obtain db1 where r: "delete_local_user 9 ?db 1 = Inr db1" by (auto split: sum.splits)
  have row: "fetch a_id 1 (ad_users ?db) = Some (sample_account 1 ''ann'')" "a_deleted_at (sample_account 1 ''ann'') = None"
    "a_is_active (sample_account 1 ''ann'')" "a_purged_at (sample_account 1 ''ann'') = None"
    "a_token_version (sample_account 1 ''ann'') = 0"
    by (simp_all add: sample_accounts_def sample_account_def)
  from soft_delete_restore [OF row(1-4) r, of 1] r row(5) show ?thesis by auto
qed

text \<open>
  An account whose only stored slug is a retired global administrator slug is
  counted as a full administrator who can sign in, while the roles it is served with are those of
  an ordinary user, and the start-up repair, which is to turn it into a Super Admin, leaves it.
\<close>

theorem legacy_admin_counted:
  assumes "role_rows_of db (a_id user) = [slug]" and "normalize_role_slug slug = FULL_ADMIN_SLUG"
    and "can_sign_in user" and "a_username user \<noteq> admin_username"
  shows "counted_administrator db user \<and> get_user_role_slugs db (a_id user) = [USER_SLUG]
    \<and> \<not> user_is_admin_panel (get_user_role_slugs db (a_id user))
    \<and> ensure_super_admin_roles admin_username db user = db"
proof -
  have c: "\<not> is_assignable_role_slug FULL_ADMIN_SLUG" "\<not> user_is_admin_panel [USER_SLUG]"
    "\<not> user_has_super_admin_access [USER_SLUG]" "FULL_ADMIN_SLUG \<in> set GLOBAL_FULL_ADMIN_SLUGS" by code_simp+
  have g: "get_user_role_slugs db (a_id user) = [USER_SLUG]"
    unfolding get_user_role_slugs_def assms(1) using assms(2) c(1)
    by (simp add: normalize_role_list_def Let_def del: USER_SLUG_def FULL_ADMIN_SLUG_def)
  have "counted_administrator db user"
    using assms(3) c(4) by (simp add: counted_administrator_def super_iff assms(1,2) del: FULL_ADMIN_SLUG_def)
  with c g assms(4) show ?thesis
    by (simp add: ensure_super_admin_roles_def g del: USER_SLUG_def SUPER_ADMIN_SLUG_def FULL_ADMIN_SLUG_def LEGACY_ADMIN_SLUG_def)
qed

theorem legacy_admin_counted_witness:
  "let db = sample_accounts [sample_account 1 ''ann'', sample_account 2 ''bob''] [(1, ''super_admin''), (2, ''admin'')]
   in counted_administrator db (sample_account 2 ''bob'') \<and>
      (case delete_local_user 9 db 1 of
         Inl _ \<Rightarrow> False
       | Inr db' \<Rightarrow> \<not> list_ex (\<lambda>u. can_sign_in u \<and> user_is_admin_panel (get_user_role_slugs db' (a_id u))) (ad_users db'))"
proof -
  let ?db = "sample_accounts [sample_account 1 ''ann'', sample_account 2 ''bob''] [(1, ''super_admin''), (2, ''admin'')]"
  have h: "role_rows_of ?db (a_id (sample_account 2 ''bob'')) = [''admin'']" "normalize_role_slug ''admin'' = FULL_ADMIN_SLUG"
    "can_sign_in (sample_account 2 ''bob'')" "a_username (sample_account 2 ''bob'') \<noteq> ''root''"
    by code_simp+
  have "case delete_local_user 9 ?db 1 of
      Inl _ \<Rightarrow> False
    | Inr db' \<Rightarrow> \<not> list_ex (\<lambda>u. can_sign_in u \<and> user_is_admin_panel (get_user_role_slugs db' (a_id u))) (ad_users db')"
    by code_simp
  with legacy_admin_counted [OF h] show ?thesis by (simp only: Let_def simp_thms)
qed

section \<open>The batched role query\<close>

lemma collect_roles_spec:
  "raw u = Some ss \<Longrightarrow> foldl collect_roles raw rows u = Some (ss @ map snd (filter (\<lambda>row. fst row = u) rows))"
proof (induction rows arbitrary: raw ss)
  case (Cons row rows)
  have "collect_roles raw row u = Some (if fst row = u then ss @ [snd row] else ss)"
    using Cons.prems by (auto simp: collect_roles_def)
  with Cons.IH [of "collect_roles raw row"] show ?case by simp
qed simp

lemma map_snd_insort_key: "map snd (insort_key snd row rows) = insort (snd row) (map snd rows)"
  by (induction rows) auto

lemma map_snd_sort_key: "map snd (sort_key snd rows) = sort (map snd rows)"
  by (induction rows) (simp_all add: map_snd_insort_key)

text \<open>The batched query answers for every requested account what the single query answers.\<close>

lemma get_roles_map_agrees:
  assumes "uid \<in> set ids"
  shows "get_roles_map db ids uid = Some (get_user_role_slugs db uid)"
proof -
  let ?sel = "filter (\<lambda>(u, _). u \<in> set ids) (ad_roles db)"
  have "filter (\<lambda>row. fst row = uid) (rows_by_user db ids) = filter (\<lambda>row. fst row = uid) (sort_key snd ?sel)"
    unfolding rows_by_user_def by (rule sort_key_stable)
  also have "\<dots> = sort_key snd (filter (\<lambda>row. fst row = uid) ?sel)" by (rule filter_sort)
  also have "filter (\<lambda>row. fst row = uid) ?sel = filter (\<lambda>(u, _). u = uid) (ad_roles db)"
    using assms by (auto intro!: filter_cong)
  finally have rows: "map snd (filter (\<lambda>row. fst row = uid) (rows_by_user db ids)) = sort (role_rows_of db uid)"
    by (simp add: map_snd_sort_key role_rows_of_def)
  have "foldl collect_roles (\<lambda>u. if u \<in> set ids then Some [] else None) (rows_by_user db ids) uid = Some (sort (role_rows_of db uid))"
    using collect_roles_spec [of "\<lambda>u. if u \<in> set ids then Some [] else None" uid "[]" "rows_by_user db ids"] assms
    by (simp add: rows)
  moreover have "ids \<noteq> []" using assms by auto
  moreover have "normalize_role_list [] = [USER_SLUG]" by (simp add: normalize_role_list_def)
  ultimately show ?thesis by (simp add: get_roles_map_def get_user_role_slugs_def Let_def)
qed

end
