(* ===== verification/Project_Access.thy ===== *)
theory Project_Access
  imports Accounts Json
begin

text \<open>
  Access control of the Projects domain (\<open>services/project_access_service.py\<close>): the rows of
  projects, members, invitations and audit events (\<open>models/project.py\<close>), the capabilities of
  each role, how the access of a user to a project is resolved, and the protection of the owners.

  The state extends the accounts with the project tables. Columns with a check constraint
  (status, visibility, role) are enumerations. Primary keys are unique: a project id names at
  most one row, a pair of project and user at most one membership.
\<close>

section \<open>Rows\<close>

datatype project_status = STATUS_ACTIVE | STATUS_ARCHIVED | STATUS_DELETION_PENDING

datatype project_visibility = VISIBILITY_PRIVATE | VISIBILITY_PUBLIC

record project =
  pj_id :: string
  pj_name :: string
  pj_description :: "string option"
  pj_status :: project_status
  pj_visibility :: project_visibility
  pj_created_by_user_id :: "int option"
  pj_revision :: int
  pj_acl_version :: int
  pj_created_at :: time
  pj_updated_at :: time
  pj_archived_at :: "time option"

record project_invitation =
  i_id :: string
  i_project_id :: string
  i_role :: project_role
  i_token_hash :: string
  i_max_uses :: int
  i_use_count :: int
  i_expires_at :: time
  i_created_by_user_id :: "int option"
  i_claimed_by_user_id :: "int option"
  i_claimed_at :: "time option"
  i_revoked_at :: "time option"
  i_created_at :: time

record project_audit_event =
  e_project_id :: "string option"
  e_event_type :: string
  e_actor_user_id :: "int option"
  e_payload_json :: payload
  e_created_at :: time

record project_db = account_db +
  projects :: "project list"
  invitations :: "project_invitation list"
  audit_events :: "project_audit_event list"

text \<open>
  What a project operation raises: an \<open>HTTPException\<close>, the two errors of the domain, or the
  \<open>ValueError\<close> of \<open>validate_role\<close>, which is not one of the domain's.
\<close>

datatype project_error =
    Http_Error int string
  | ProjectAccessError string
  | ProjectValidationError string
  | Role_ValueError string

type_synonym 'a presult = "project_error + 'a"

definition get_project_row :: "project_db \<Rightarrow> string \<Rightarrow> project option" where
  "get_project_row db pid = fetch pj_id pid (projects db)"

definition member_key :: "project_member \<Rightarrow> string \<times> int" where
  "member_key m = (m_project_id m, m_user_id m)"

definition get_member :: "'x account_db_scheme \<Rightarrow> string \<Rightarrow> int \<Rightarrow> project_member option" where
  "get_member db pid uid = fetch member_key (pid, uid) (ad_members db)"

definition update_project_row :: "string \<Rightarrow> (project \<Rightarrow> project) \<Rightarrow> project_db \<Rightarrow> project_db" where
  "update_project_row pid f db = db\<lparr>projects := modify pj_id pid f (projects db)\<rparr>"

section \<open>Roles and capabilities\<close>

definition PROJECT_OWNER_ROLES :: "project_role list" where
  "PROJECT_OWNER_ROLES = [PRIMARY_OWNER, OWNER]"

definition is_project_owner_role :: "project_role option \<Rightarrow> bool" where
  "is_project_owner_role role \<longleftrightarrow> (case role of None \<Rightarrow> False | Some r \<Rightarrow> r \<in> set PROJECT_OWNER_ROLES)"

definition is_primary_owner_role :: "project_role option \<Rightarrow> bool" where
  "is_primary_owner_role role \<longleftrightarrow> role = Some PRIMARY_OWNER"

datatype capability =
    Project_View | Chat_Read | Resource_Read | Memory_Read | Media_Read | Members_Read | Config_Read
  | Project_Edit | Project_Delete | Member_Manage | Member_Manage_Owners | Resource_Upload | Resource_Manage
  | Chat_Write | Chat_Pin | Memory_Manage | Memory_Grant | Media_Upload | Media_Delete

definition MEMBER_READ_CAPABILITIES :: "capability set" where
  "MEMBER_READ_CAPABILITIES =
     {Project_View, Chat_Read, Resource_Read, Memory_Read, Media_Read, Members_Read, Config_Read}"

definition PUBLIC_VIEWER_CAPABILITIES :: "capability set" where
  "PUBLIC_VIEWER_CAPABILITIES = {Project_View, Chat_Read, Resource_Read}"

definition OWNER_CAPABILITIES :: "capability set" where
  "OWNER_CAPABILITIES = MEMBER_READ_CAPABILITIES \<union>
     {Project_Edit, Member_Manage, Resource_Upload, Resource_Manage, Chat_Write, Chat_Pin, Memory_Manage,
      Memory_Grant, Media_Upload, Media_Delete}"

fun CAPABILITIES :: "project_role \<Rightarrow> capability set" where
  "CAPABILITIES PRIMARY_OWNER = OWNER_CAPABILITIES \<union> {Project_Delete, Member_Manage_Owners}"
| "CAPABILITIES OWNER = OWNER_CAPABILITIES"
| "CAPABILITIES CONTRIBUTOR =
     MEMBER_READ_CAPABILITIES \<union> {Resource_Upload, Chat_Write, Chat_Pin, Media_Upload, Media_Delete}"
| "CAPABILITIES VIEWER = MEMBER_READ_CAPABILITIES"

record project_access =
  acc_project_id :: string
  acc_user_id :: int
  acc_role :: "project_role option"
  acc_is_member :: bool
  acc_is_public_viewer :: bool

definition capabilities :: "project_access \<Rightarrow> capability set" where
  "capabilities access =
     (if acc_is_public_viewer access then PUBLIC_VIEWER_CAPABILITIES
      else (case acc_role access of None \<Rightarrow> {} | Some role \<Rightarrow> CAPABILITIES role))"

definition can :: "project_access \<Rightarrow> capability \<Rightarrow> bool" where
  "can access capability \<longleftrightarrow> capability \<in> capabilities access"

section \<open>Resolution\<close>

definition resolve_project_access :: "project_db \<Rightarrow> string \<Rightarrow> account option \<Rightarrow> project_access option" where
  "resolve_project_access db pid user =
     (case get_project_row db pid of
        None \<Rightarrow> None
      | Some project \<Rightarrow>
          (case user of
             None \<Rightarrow> None
           | Some u \<Rightarrow>
               if \<not> a_is_active u \<or> a_deleted_at u \<noteq> None then None
               else (case get_member db pid (a_id u) of
                       Some member \<Rightarrow>
                         Some \<lparr>acc_project_id = pid, acc_user_id = a_id u, acc_role = Some (m_role member),
                               acc_is_member = True, acc_is_public_viewer = False\<rparr>
                     | None \<Rightarrow>
                         if pj_status project \<noteq> STATUS_ACTIVE then None
                         else if pj_visibility project = VISIBILITY_PUBLIC
                         then Some \<lparr>acc_project_id = pid, acc_user_id = a_id u, acc_role = Some VIEWER,
                                    acc_is_member = False, acc_is_public_viewer = True\<rparr>
                         else None)))"

definition require_capability :: "project_db \<Rightarrow> string \<Rightarrow> account \<Rightarrow> capability \<Rightarrow> project_access presult" where
  "require_capability db pid user capability =
     (case resolve_project_access db pid (Some user) of
        None \<Rightarrow> Inl (Http_Error 404 ''Project not found'')
      | Some access \<Rightarrow>
          if \<not> can access capability then Inl (Http_Error 403 ''You do not have permission for this action'')
          else Inr access)"

section \<open>Owners\<close>

definition members_of :: "'x account_db_scheme \<Rightarrow> string \<Rightarrow> project_member list" where
  "members_of db pid = filter (\<lambda>m. m_project_id m = pid) (ad_members db)"

definition count_owners :: "'x account_db_scheme \<Rightarrow> string \<Rightarrow> nat" where
  "count_owners db pid = length (filter (\<lambda>m. m_role m \<in> set PROJECT_OWNER_ROLES) (members_of db pid))"

definition count_primary_owners :: "'x account_db_scheme \<Rightarrow> string \<Rightarrow> nat" where
  "count_primary_owners db pid = length (filter (\<lambda>m. m_role m = PRIMARY_OWNER) (members_of db pid))"

definition assignable_roles_for :: "project_role option \<Rightarrow> project_role set" where
  "assignable_roles_for actor_role =
     (if actor_role = Some PRIMARY_OWNER then {OWNER, CONTRIBUTOR, VIEWER}
      else if actor_role = Some OWNER then {CONTRIBUTOR, VIEWER}
      else {})"

definition ensure_primary_owner_protected :: "project_member option \<Rightarrow> project_role option \<Rightarrow> unit presult" where
  "ensure_primary_owner_protected member new_role =
     (case member of
        None \<Rightarrow> Inr ()
      | Some m \<Rightarrow>
          if \<not> is_primary_owner_role (Some (m_role m)) then Inr ()
          else if new_role = Some PRIMARY_OWNER then Inr ()
          else Inl (ProjectAccessError ''Cannot remove or change the Primary Owner''))"

definition ensure_not_last_owner :: "project_db \<Rightarrow> string \<Rightarrow> int \<Rightarrow> project_role option \<Rightarrow> unit presult" where
  "ensure_not_last_owner db pid uid new_role =
     (let member = get_member db pid uid
      in case ensure_primary_owner_protected member new_role of
           Inl e \<Rightarrow> Inl e
         | Inr _ \<Rightarrow>
             (case member of
                None \<Rightarrow> Inr ()
              | Some m \<Rightarrow>
                  if \<not> is_project_owner_role (Some (m_role m)) then Inr ()
                  else if is_project_owner_role new_role then Inr ()
                  else if 1 \<le> count_primary_owners db pid then Inr ()
                  else if count_owners db pid \<le> 1
                  then Inl (ProjectAccessError ''Cannot remove or demote the last project Owner'')
                  else Inr ()))"

definition append_project_audit ::
  "time \<Rightarrow> string \<Rightarrow> string \<Rightarrow> int \<Rightarrow> payload \<Rightarrow> project_db \<Rightarrow> project_db" where
  "append_project_audit now pid event_type actor pl db =
     db\<lparr>audit_events := audit_events db @
         [\<lparr>e_project_id = Some pid, e_event_type = event_type, e_actor_user_id = Some actor,
           e_payload_json = pl, e_created_at = now\<rparr>]\<rparr>"

definition bump_acl_version :: "time \<Rightarrow> project \<Rightarrow> project" where
  "bump_acl_version now p =
     p\<lparr>pj_acl_version := (if pj_acl_version p = 0 then 1 else pj_acl_version p) + 1, pj_updated_at := now\<rparr>"

definition role_text :: "project_role \<Rightarrow> string" where
  "role_text r =
     (case r of PRIMARY_OWNER \<Rightarrow> ''primary_owner'' | OWNER \<Rightarrow> ''owner'' | CONTRIBUTOR \<Rightarrow> ''contributor'' | VIEWER \<Rightarrow> ''viewer'')"

definition role_of_text :: "string \<Rightarrow> project_role option" where
  "role_of_text s = find (\<lambda>r. role_text r = s) [PRIMARY_OWNER, OWNER, CONTRIBUTOR, VIEWER]"

definition validate_role :: "string \<Rightarrow> project_role presult" where
  "validate_role role =
     (case role_of_text (lower (strip role)) of
        None \<Rightarrow> Inl (Role_ValueError (''Invalid project role: '' @ CHR 0x27 # role @ [CHR 0x27]))
      | Some r \<Rightarrow> Inr r)"

definition validate_invitation_role :: "string \<Rightarrow> project_role presult" where
  "validate_invitation_role role =
     (case validate_role role of
        Inl e \<Rightarrow> Inl e
      | Inr normalized \<Rightarrow>
          if is_project_owner_role (Some normalized)
          then Inl (Role_ValueError ''Invitation links cannot grant Owner or Primary Owner'')
          else Inr normalized)"

definition can_view_project_activity :: "project_db \<Rightarrow> string \<Rightarrow> account option \<Rightarrow> bool" where
  "can_view_project_activity db pid user \<longleftrightarrow>
     (case resolve_project_access db pid user of
        Some access \<Rightarrow> is_project_owner_role (acc_role access) \<and> acc_is_member access
      | None \<Rightarrow> False) \<or>
     (case get_project_row db pid of
        None \<Rightarrow> False
      | Some _ \<Rightarrow>
          (case user of
             None \<Rightarrow> False
           | Some u \<Rightarrow> user_can_access_menu (get_user_role_slugs db (a_id u)) ''reports''))"

end
