(* ===== verification/Project_Service.thy ===== *)
theory Project_Service
  imports Project_Access
begin

text \<open>
  Project lifecycle, membership and invitation links (\<open>services/project_service.py\<close>), with the
  endpoints' answers to errors (\<open>api/projects.py\<close>).

  An operation that raises leaves the state as it was: the endpoints roll the session back. The
  identifiers and tokens that the code draws at random are arguments, and so is the hash of a
  token. Deleting a project row deletes, by the cascades of the schema, its memberships,
  invitations and chats. Object storage, vector indexes and email are outside the model.
\<close>

section \<open>Text\<close>

definition PROJECT_NAME_MAX :: int where
  "PROJECT_NAME_MAX = 255"

definition PROJECT_DESCRIPTION_MAX :: int where
  "PROJECT_DESCRIPTION_MAX = 4000"

definition normalize_name :: "string \<Rightarrow> string presult" where
  "normalize_name name =
     (let normalized = strip name
      in if normalized = [] then Inl (ProjectValidationError ''Project name is required'')
         else if int (length normalized) > PROJECT_NAME_MAX
         then Inl (ProjectValidationError ''Project name must be at most 255 characters'')
         else Inr normalized)"

definition normalize_description :: "string option \<Rightarrow> (string option) presult" where
  "normalize_description description =
     (case description of
        None \<Rightarrow> Inr None
      | Some d \<Rightarrow>
          if d = [] then Inr None
          else
            let txt = strip d
            in if int (length txt) > PROJECT_DESCRIPTION_MAX
               then Inl (ProjectValidationError ''Project description must be at most 4000 characters'')
               else Inr (if txt = [] then None else Some txt))"

definition visibility_text :: "project_visibility \<Rightarrow> string" where
  "visibility_text v = (case v of VISIBILITY_PRIVATE \<Rightarrow> ''private'' | VISIBILITY_PUBLIC \<Rightarrow> ''public'')"

definition visibility_of_text :: "string \<Rightarrow> project_visibility option" where
  "visibility_of_text s =
     (if s = ''private'' then Some VISIBILITY_PRIVATE else if s = ''public'' then Some VISIBILITY_PUBLIC else None)"

definition status_text :: "project_status \<Rightarrow> string" where
  "status_text s =
     (case s of STATUS_ACTIVE \<Rightarrow> ''active'' | STATUS_ARCHIVED \<Rightarrow> ''archived'' | STATUS_DELETION_PENDING \<Rightarrow> ''deletion_pending'')"

text \<open>
  \<open>ILIKE\<close>: \<open>%\<close> stands for any text, \<open>_\<close> for any character, a backslash quotes the next one.
\<close>

function like :: "string \<Rightarrow> string \<Rightarrow> bool" where
  "like [] s = (s = [])"
| "like (p # ps) s =
     (if p = CHR ''%'' then like ps s \<or> (case s of [] \<Rightarrow> False | _ # s' \<Rightarrow> like (p # ps) s')
      else (case s of
              [] \<Rightarrow> False
            | c # s' \<Rightarrow>
                if p = CHR 0x5C then (case ps of [] \<Rightarrow> False | q # qs \<Rightarrow> q = c \<and> like qs s')
                else (p = CHR ''_'' \<or> p = c) \<and> like ps s'))"
  by pat_completeness auto

termination
  by (relation "measure (\<lambda>(p, s). length p + length s)") auto

definition ilike :: "string option \<Rightarrow> string \<Rightarrow> bool" where
  "ilike column pattern = (case column of None \<Rightarrow> False | Some s \<Rightarrow> like (lower pattern) (lower s))"

definition search_pattern :: "string \<Rightarrow> string" where
  "search_pattern q = ''%'' @ strip q @ ''%''"

section \<open>Creating and listing\<close>

text \<open>What an operation answers about a project: the row, the caller's role, whether a member.\<close>

type_synonym project_view = "project \<times> project_role option \<times> bool"

definition create_project ::
  "time \<Rightarrow> string \<Rightarrow> project_db \<Rightarrow> account \<Rightarrow> string \<Rightarrow> string option \<Rightarrow> string \<Rightarrow> (project_db \<times> project_view) presult" where
  "create_project now new_id db user name description visibility =
     (case normalize_name name of Inl e \<Rightarrow> Inl e
      | Inr clean_name \<Rightarrow>
          (case normalize_description description of Inl e \<Rightarrow> Inl e
           | Inr clean_desc \<Rightarrow>
               (case visibility_of_text visibility of
                  None \<Rightarrow> Inl (ProjectValidationError ''Invalid visibility'')
                | Some v \<Rightarrow>
                    let project = \<lparr>pj_id = new_id, pj_name = clean_name, pj_description = clean_desc,
                                   pj_status = STATUS_ACTIVE, pj_visibility = v, pj_created_by_user_id = Some (a_id user),
                                   pj_revision = 1, pj_acl_version = 1, pj_created_at = now, pj_updated_at = now,
                                   pj_archived_at = None\<rparr>;
                        member = \<lparr>m_project_id = new_id, m_user_id = a_id user, m_role = PRIMARY_OWNER,
                                  m_invited_by_user_id = Some (a_id user), m_created_at = now, m_updated_at = now\<rparr>;
                        db1 = db\<lparr>projects := projects db @ [project], ad_members := ad_members db @ [member]\<rparr>
                    in Inr (append_project_audit now new_id ''project.created'' (a_id user)
                              [(''name'', JString clean_name), (''visibility'', JString visibility)] db1,
                            (project, Some PRIMARY_OWNER, True)))))"

definition get_project :: "project_db \<Rightarrow> string \<Rightarrow> account \<Rightarrow> project_view option" where
  "get_project db pid user =
     (case resolve_project_access db pid (Some user) of
        None \<Rightarrow> None
      | Some access \<Rightarrow>
          (case get_project_row db pid of
             None \<Rightarrow> None
           | Some project \<Rightarrow> Some (project, acc_role access, acc_is_member access)))"

definition PROJECT_LIST_MAX_LIMIT :: int where
  "PROJECT_LIST_MAX_LIMIT = 100"

text \<open>\<open>ORDER BY updated_at DESC LIMIT l OFFSET o\<close>, with the bounds the code puts on both.\<close>

definition page :: "int \<Rightarrow> int \<Rightarrow> project list \<Rightarrow> project list" where
  "page limit offset rows =
     take (nat (max 1 (min limit PROJECT_LIST_MAX_LIMIT))) (drop (nat (max 0 offset)) (sort_key (\<lambda>p. - pj_updated_at p) rows))"

definition joined_project :: "project_db \<Rightarrow> account \<Rightarrow> project \<Rightarrow> bool" where
  "joined_project db user p \<longleftrightarrow> list_ex (\<lambda>m. m_user_id m = a_id user \<and> m_project_id m = pj_id p) (ad_members db)"

definition list_my_projects :: "project_db \<Rightarrow> account \<Rightarrow> int \<Rightarrow> int \<Rightarrow> project_view list \<times> int" where
  "list_my_projects db user limit offset =
     (let mine = filter (joined_project db user) (projects db)
      in (map (\<lambda>p. (p, map_option m_role (get_member db (pj_id p) (a_id user)), True)) (page limit offset mine),
          int (length mine)))"

definition explore_match :: "project_db \<Rightarrow> account \<Rightarrow> string option \<Rightarrow> project \<Rightarrow> bool" where
  "explore_match db user q p \<longleftrightarrow>
     pj_visibility p = VISIBILITY_PUBLIC \<and> pj_status p = STATUS_ACTIVE \<and> \<not> joined_project db user p \<and>
     (case q of
        None \<Rightarrow> True
      | Some t \<Rightarrow> t = [] \<or> ilike (Some (pj_name p)) (search_pattern t) \<or> ilike (pj_description p) (search_pattern t))"

definition list_public_projects ::
  "project_db \<Rightarrow> account \<Rightarrow> int \<Rightarrow> int \<Rightarrow> string option \<Rightarrow> project_view list \<times> int" where
  "list_public_projects db user limit offset q =
     (let base = filter (explore_match db user q) (projects db)
      in (map (\<lambda>p. (p, Some VIEWER, False)) (page limit offset base), int (length base)))"

section \<open>Updating, deleting, archiving, restoring\<close>

definition public_confirmed :: "project \<Rightarrow> string option \<Rightarrow> string option \<Rightarrow> bool" where
  "public_confirmed project visibility confirm_public_name \<longleftrightarrow>
     \<not> (visibility = Some ''public'' \<and> pj_visibility project \<noteq> VISIBILITY_PUBLIC \<and>
        strip (case confirm_public_name of None \<Rightarrow> [] | Some c \<Rightarrow> c) \<noteq> strip (pj_name project))"

definition json_opt :: "string option \<Rightarrow> json" where
  "json_opt v = (case v of None \<Rightarrow> JNull | Some s \<Rightarrow> JString s)"

text \<open>The three fields of a request, one after the other: the row so far and the changes noted.\<close>

definition edit_name :: "string option \<Rightarrow> project \<Rightarrow> (project \<times> payload) presult" where
  "edit_name name p =
     (case name of None \<Rightarrow> Inr (p, [])
      | Some t \<Rightarrow> (case normalize_name t of Inl e \<Rightarrow> Inl e | Inr n \<Rightarrow> Inr (p\<lparr>pj_name := n\<rparr>, [(''name'', JString n)])))"

definition edit_description :: "string option \<Rightarrow> project \<Rightarrow> payload \<Rightarrow> (project \<times> payload) presult" where
  "edit_description description p changes =
     (case description of None \<Rightarrow> Inr (p, changes)
      | Some t \<Rightarrow>
          (case normalize_description (Some t) of Inl e \<Rightarrow> Inl e
           | Inr d \<Rightarrow> Inr (p\<lparr>pj_description := d\<rparr>, changes @ [(''description'', json_opt d)])))"

definition edit_visibility :: "time \<Rightarrow> string option \<Rightarrow> project \<Rightarrow> payload \<Rightarrow> (project \<times> payload \<times> bool) presult" where
  "edit_visibility now visibility p changes =
     (case visibility of None \<Rightarrow> Inr (p, changes, False)
      | Some t \<Rightarrow>
          (case visibility_of_text t of
             None \<Rightarrow> Inl (ProjectValidationError ''Invalid visibility'')
           | Some v \<Rightarrow>
               if pj_visibility p = v then Inr (p, changes, False)
               else Inr (bump_acl_version now (p\<lparr>pj_visibility := v\<rparr>), changes @ [(''visibility'', JString t)], v = VISIBILITY_PUBLIC)))"

definition update_project ::
  "time \<Rightarrow> project_db \<Rightarrow> string \<Rightarrow> account \<Rightarrow> string option \<Rightarrow> string option \<Rightarrow> string option \<Rightarrow> string option \<Rightarrow>
     (project_db \<times> project_view) presult" where
  "update_project now db pid user name description visibility confirm_public_name =
     (case require_capability db pid user Project_Edit of Inl e \<Rightarrow> Inl e
      | Inr access \<Rightarrow>
          (case get_project_row db pid of
             None \<Rightarrow> Inl (ProjectValidationError ''Project not found'')
           | Some project \<Rightarrow>
               if \<not> public_confirmed project visibility confirm_public_name
               then Inl (ProjectValidationError ''To make this project public, repeat its exact name in confirm_public_name'')
               else
                 (case edit_name name project of Inl e \<Rightarrow> Inl e
                  | Inr (p1, changes1) \<Rightarrow>
                      (case edit_description description p1 changes1 of Inl e \<Rightarrow> Inl e
                       | Inr (p2, changes2) \<Rightarrow>
                           (case edit_visibility now visibility p2 changes2 of Inl e \<Rightarrow> Inl e
                            | Inr (p3, changes, went_public) \<Rightarrow>
                                let p4 = p3\<lparr>pj_revision := (if pj_revision p3 = 0 then 1 else pj_revision p3) + 1, pj_updated_at := now\<rparr>;
                                    db1 = update_project_row pid (\<lambda>_. p4) db;
                                    db2 = (if went_public
                                           then append_project_audit now pid ''project.visibility.public'' (a_id user)
                                                  [(''name'', JString (pj_name p3)), (''confirmed'', JBool True)] db1
                                           else db1)
                                in Inr (append_project_audit now pid ''project.updated'' (a_id user) changes db2,
                                        (p4, acc_role access, acc_is_member access)))))))"

lemma edit_keeps:
  "edit_name name p = Inr (p1, c1) \<Longrightarrow> pj_id p1 = pj_id p \<and> pj_visibility p1 = pj_visibility p \<and> pj_acl_version p1 = pj_acl_version p"
  "edit_description description p c = Inr (p1, c1) \<Longrightarrow> pj_id p1 = pj_id p \<and> pj_visibility p1 = pj_visibility p \<and> pj_acl_version p1 = pj_acl_version p"
  by (auto simp: edit_name_def edit_description_def split: option.splits sum.splits)

lemma edit_visibility_effect:
  "edit_visibility now visibility p c = Inr (p1, c1, went_public) \<Longrightarrow> pj_id p1 = pj_id p \<and>
     (pj_visibility p1 \<noteq> pj_visibility p \<longrightarrow> went_public = (pj_visibility p1 = VISIBILITY_PUBLIC) \<and>
        visibility = Some (visibility_text (pj_visibility p1)) \<and> pj_acl_version p < pj_acl_version p1)"
  by (auto simp: edit_visibility_def bump_acl_version_def visibility_of_text_def visibility_text_def split: option.splits if_splits)

definition delete_project :: "time \<Rightarrow> project_db \<Rightarrow> string \<Rightarrow> account \<Rightarrow> (project_db \<times> bool) presult" where
  "delete_project now db pid user =
     (case require_capability db pid user Project_Delete of Inl e \<Rightarrow> Inl e
      | Inr access \<Rightarrow>
          (case get_project_row db pid of
             None \<Rightarrow> Inr (db, False)
           | Some project \<Rightarrow>
               if pj_status project = STATUS_DELETION_PENDING then Inr (db, True)
               else Inr (append_project_audit now pid ''project.deleted'' (a_id user)
                           [(''previous_status'', JString (status_text (pj_status project)))]
                           (update_project_row pid (\<lambda>p. p\<lparr>pj_status := STATUS_DELETION_PENDING, pj_updated_at := now\<rparr>) db),
                         True)))"

definition archive_project :: "time \<Rightarrow> project_db \<Rightarrow> string \<Rightarrow> account \<Rightarrow> (project_db \<times> project_view option) presult" where
  "archive_project now db pid user =
     (case require_capability db pid user Project_Delete of Inl e \<Rightarrow> Inl e
      | Inr access \<Rightarrow>
          (case get_project_row db pid of
             None \<Rightarrow> Inr (db, None)
           | Some project \<Rightarrow>
               if pj_status project = STATUS_DELETION_PENDING
               then Inl (ProjectValidationError ''Cannot archive a project that is pending deletion'')
               else if pj_status project \<noteq> STATUS_ARCHIVED
               then let p1 = project\<lparr>pj_status := STATUS_ARCHIVED, pj_archived_at := Some now, pj_updated_at := now\<rparr>
                    in Inr (append_project_audit now pid ''project.archived'' (a_id user) [] (update_project_row pid (\<lambda>_. p1) db),
                            Some (p1, acc_role access, acc_is_member access))
               else Inr (db, Some (project, acc_role access, acc_is_member access))))"

text \<open>\<open>ORDER BY created_at DESC LIMIT 1\<close>: the newest event, the last written one among equals.\<close>

fun newest :: "project_audit_event option \<Rightarrow> project_audit_event list \<Rightarrow> project_audit_event option" where
  "newest best [] = best"
| "newest best (e # es) =
     (case best of
        None \<Rightarrow> newest (Some e) es
      | Some b \<Rightarrow> newest (Some (if e_created_at b \<le> e_created_at e then e else b)) es)"

definition deletion_events :: "project_db \<Rightarrow> string \<Rightarrow> project_audit_event list" where
  "deletion_events db pid =
     filter (\<lambda>e. e_project_id e = Some pid \<and> e_event_type e = ''project.deleted'') (audit_events db)"

definition status_before_deletion :: "project_db \<Rightarrow> string \<Rightarrow> project_status" where
  "status_before_deletion db pid =
     (let previous = (case newest None (deletion_events db pid) of None \<Rightarrow> JNull
                      | Some e \<Rightarrow> dict_get (e_payload_json e) ''previous_status'')
      in if previous = JString ''active'' then STATUS_ACTIVE
         else if previous = JString ''archived'' then STATUS_ARCHIVED
         else STATUS_ACTIVE)"

definition restore_project :: "time \<Rightarrow> project_db \<Rightarrow> string \<Rightarrow> account \<Rightarrow> (project_db \<times> project_view option) presult" where
  "restore_project now db pid user =
     (case require_capability db pid user Project_Delete of Inl e \<Rightarrow> Inl e
      | Inr access \<Rightarrow>
          (case get_project_row db pid of
             None \<Rightarrow> Inr (db, None)
           | Some project \<Rightarrow>
               if pj_status project = STATUS_DELETION_PENDING
               then
                 let target = status_before_deletion db pid;
                     p1 = project\<lparr>pj_status := target,
                            pj_archived_at := (if target = STATUS_ARCHIVED then pj_archived_at project else None),
                            pj_updated_at := now\<rparr>
                 in Inr (append_project_audit now pid ''project.restored'' (a_id user)
                           [(''from'', JString (status_text STATUS_DELETION_PENDING)), (''to'', JString (status_text target))]
                           (update_project_row pid (\<lambda>_. p1) db),
                         Some (p1, acc_role access, acc_is_member access))
               else if pj_status project \<noteq> STATUS_ACTIVE
               then
                 let p1 = project\<lparr>pj_status := STATUS_ACTIVE, pj_archived_at := None, pj_updated_at := now\<rparr>
                 in Inr (append_project_audit now pid ''project.restored'' (a_id user) [] (update_project_row pid (\<lambda>_. p1) db),
                         Some (p1, acc_role access, acc_is_member access))
               else Inr (db, Some (project, acc_role access, acc_is_member access))))"

definition purge_project_rows :: "project_db \<Rightarrow> string \<Rightarrow> project_db" where
  "purge_project_rows db pid =
     (let chats = map cs_id (filter (\<lambda>s. cs_project_id s = Some pid) (ad_sessions db))
      in db\<lparr>ad_uploaders := filter (\<lambda>(q, _). q \<noteq> pid) (ad_uploaders db),
            projects := filter (\<lambda>p. pj_id p \<noteq> pid) (projects db),
            ad_members := filter (\<lambda>m. m_project_id m \<noteq> pid) (ad_members db),
            invitations := filter (\<lambda>i. i_project_id i \<noteq> pid) (invitations db),
            ad_sessions := filter (\<lambda>s. cs_project_id s \<noteq> Some pid) (ad_sessions db),
            ad_messages := filter (\<lambda>m. cm_session_id m \<notin> set chats) (ad_messages db)\<rparr>)"

definition hard_delete_project :: "project_db \<Rightarrow> string \<Rightarrow> account \<Rightarrow> bool \<Rightarrow> (project_db \<times> bool) presult" where
  "hard_delete_project db pid user require_pending =
     (case require_capability db pid user Project_Delete of Inl e \<Rightarrow> Inl e
      | Inr access \<Rightarrow>
          (case get_project_row db pid of
             None \<Rightarrow> Inr (db, False)
           | Some project \<Rightarrow>
               if require_pending \<and> pj_status project \<noteq> STATUS_DELETION_PENDING
               then Inl (ProjectValidationError ''Only deletion-pending projects can be purged'')
               else Inr (purge_project_rows db pid, True)))"

definition purge_expired_deleted_projects :: "time \<Rightarrow> int \<Rightarrow> project_db \<Rightarrow> project_db \<times> nat" where
  "purge_expired_deleted_projects now retention_days db =
     (let cutoff = now - days (max 1 retention_days);
          rows = filter (\<lambda>p. pj_status p = STATUS_DELETION_PENDING \<and> pj_updated_at p < cutoff) (projects db)
      in (foldl (\<lambda>d p. purge_project_rows d (pj_id p)) db rows, length rows))"

section \<open>Members\<close>

definition remove_member_row :: "string \<Rightarrow> int \<Rightarrow> project_db \<Rightarrow> project_db" where
  "remove_member_row pid uid db = db\<lparr>ad_members := filter (\<lambda>m. member_key m \<noteq> (pid, uid)) (ad_members db)\<rparr>"

definition set_member_role :: "time \<Rightarrow> string \<Rightarrow> int \<Rightarrow> project_role \<Rightarrow> project_db \<Rightarrow> project_db" where
  "set_member_role now pid uid role db =
     db\<lparr>ad_members := modify member_key (pid, uid) (\<lambda>m. m\<lparr>m_role := role, m_updated_at := now\<rparr>) (ad_members db)\<rparr>"

definition add_member_row :: "time \<Rightarrow> string \<Rightarrow> int \<Rightarrow> project_role \<Rightarrow> int option \<Rightarrow> project_db \<Rightarrow> project_db" where
  "add_member_row now pid uid role inviter db =
     db\<lparr>ad_members := ad_members db @
         [\<lparr>m_project_id = pid, m_user_id = uid, m_role = role, m_invited_by_user_id = inviter,
           m_created_at = now, m_updated_at = now\<rparr>]\<rparr>"

definition leave_project :: "time \<Rightarrow> project_db \<Rightarrow> string \<Rightarrow> account \<Rightarrow> (project_db \<times> bool) presult" where
  "leave_project now db pid user =
     (case resolve_project_access db pid (Some user) of
        None \<Rightarrow> Inr (db, False)
      | Some access \<Rightarrow>
          if \<not> acc_is_member access then Inr (db, False)
          else
            (case ensure_not_last_owner db pid (a_id user) None of
               Inl (ProjectAccessError _) \<Rightarrow>
                 Inl (ProjectAccessError
                        (if is_primary_owner_role (acc_role access) then ''The Primary Owner cannot leave the project''
                         else ''You are the last Owner and cannot leave the project''))
             | Inl e \<Rightarrow> Inl e
             | Inr _ \<Rightarrow>
                 (case get_member db pid (a_id user) of
                    None \<Rightarrow> Inr (db, False)
                  | Some _ \<Rightarrow>
                      Inr (append_project_audit now pid ''member.left'' (a_id user) [(''user_id'', JInt (a_id user))]
                             (update_project_row pid (bump_acl_version now) (remove_member_row pid (a_id user) db)),
                           True))))"

definition require_member_role_mutation ::
  "project_db \<Rightarrow> string \<Rightarrow> account \<Rightarrow> project_member option \<Rightarrow> project_role option \<Rightarrow> unit presult" where
  "require_member_role_mutation db pid user target new_role =
     (if new_role = Some PRIMARY_OWNER then Inl (Http_Error 403 ''The Primary Owner role cannot be assigned'')
      else
        (case ensure_primary_owner_protected target new_role of Inl e \<Rightarrow> Inl e
         | Inr _ \<Rightarrow>
             if new_role = Some OWNER \<or> (case target of None \<Rightarrow> False | Some t \<Rightarrow> is_project_owner_role (Some (m_role t)))
             then (case require_capability db pid user Member_Manage_Owners of Inl e \<Rightarrow> Inl e | Inr _ \<Rightarrow> Inr ())
             else Inr ()))"

definition list_members :: "project_db \<Rightarrow> string \<Rightarrow> account \<Rightarrow> ((project_member \<times> account) list) presult" where
  "list_members db pid user =
     (case require_capability db pid user Members_Read of Inl e \<Rightarrow> Inl e
      | Inr _ \<Rightarrow>
          Inr (concat (map (\<lambda>m. case fetch a_id (m_user_id m) (ad_users db) of None \<Rightarrow> [] | Some u \<Rightarrow> [(m, u)])
                 (sort_key m_created_at (members_of db pid)))))"

text \<open>The payload of the events about a member's role.\<close>

definition role_payload :: "int \<Rightarrow> project_role \<Rightarrow> payload" where
  "role_payload uid role = [(''user_id'', JInt uid), (''role'', JString (role_text role))]"

definition add_member ::
  "time \<Rightarrow> project_db \<Rightarrow> string \<Rightarrow> account \<Rightarrow> int \<Rightarrow> string \<Rightarrow> (project_db \<times> project_role) presult" where
  "add_member now db pid user target_user_id role =
     (case require_capability db pid user Member_Manage of Inl e \<Rightarrow> Inl e
      | Inr _ \<Rightarrow>
          (case validate_role role of Inl e \<Rightarrow> Inl e
           | Inr new_role \<Rightarrow>
               (case fetch a_id target_user_id (ad_users db) of
                  None \<Rightarrow> Inl (ProjectValidationError ''User not found or inactive'')
                | Some target \<Rightarrow>
                    if \<not> a_is_active target \<or> a_deleted_at target \<noteq> None
                    then Inl (ProjectValidationError ''User not found or inactive'')
                    else
                      (let existing = get_member db pid target_user_id
                       in case require_member_role_mutation db pid user existing (Some new_role) of Inl e \<Rightarrow> Inl e
                          | Inr _ \<Rightarrow>
                              (case existing of
                                 Some m \<Rightarrow>
                                   (case (if m_role m \<noteq> new_role
                                          then (case ensure_not_last_owner db pid target_user_id (Some new_role) of Inl e \<Rightarrow> Inl e
                                                | Inr _ \<Rightarrow> Inr (set_member_role now pid target_user_id new_role db))
                                          else Inr db) of
                                      Inl e \<Rightarrow> Inl e
                                    | Inr db1 \<Rightarrow>
                                        Inr (append_project_audit now pid ''member.role_changed'' (a_id user)
                                               (role_payload target_user_id new_role) db1, new_role))
                               | None \<Rightarrow>
                                   Inr (append_project_audit now pid ''member.added'' (a_id user) (role_payload target_user_id new_role)
                                          (update_project_row pid (bump_acl_version now)
                                             (add_member_row now pid target_user_id new_role (Some (a_id user)) db)),
                                        new_role))))))"

definition update_member_role ::
  "time \<Rightarrow> project_db \<Rightarrow> string \<Rightarrow> account \<Rightarrow> int \<Rightarrow> string \<Rightarrow> (project_db \<times> project_role option) presult" where
  "update_member_role now db pid user target_user_id role =
     (case require_capability db pid user Member_Manage of Inl e \<Rightarrow> Inl e
      | Inr _ \<Rightarrow>
          (case validate_role role of Inl e \<Rightarrow> Inl e
           | Inr new_role \<Rightarrow>
               (case get_member db pid target_user_id of
                  None \<Rightarrow> Inr (db, None)
                | Some member \<Rightarrow>
                    (case require_member_role_mutation db pid user (Some member) (Some new_role) of Inl e \<Rightarrow> Inl e
                     | Inr _ \<Rightarrow>
                         (case ensure_not_last_owner db pid target_user_id (Some new_role) of Inl e \<Rightarrow> Inl e
                          | Inr _ \<Rightarrow>
                              Inr (append_project_audit now pid ''member.role_changed'' (a_id user) (role_payload target_user_id new_role)
                                     (update_project_row pid (bump_acl_version now) (set_member_role now pid target_user_id new_role db)),
                                   Some new_role))))))"

definition remove_member :: "time \<Rightarrow> project_db \<Rightarrow> string \<Rightarrow> account \<Rightarrow> int \<Rightarrow> (project_db \<times> bool) presult" where
  "remove_member now db pid user target_user_id =
     (case require_capability db pid user Member_Manage of Inl e \<Rightarrow> Inl e
      | Inr _ \<Rightarrow>
          (case get_member db pid target_user_id of
             None \<Rightarrow> Inr (db, False)
           | Some member \<Rightarrow>
               (case require_member_role_mutation db pid user (Some member) None of Inl e \<Rightarrow> Inl e
                | Inr _ \<Rightarrow>
                    (case ensure_not_last_owner db pid target_user_id None of Inl e \<Rightarrow> Inl e
                     | Inr _ \<Rightarrow>
                         Inr (append_project_audit now pid ''member.removed'' (a_id user) [(''user_id'', JInt target_user_id)]
                                (update_project_row pid (bump_acl_version now) (remove_member_row pid target_user_id db)),
                              True)))))"

definition list_invitable_users ::
  "project_db \<Rightarrow> string \<Rightarrow> account \<Rightarrow> string option \<Rightarrow> int \<Rightarrow> (account list) presult" where
  "list_invitable_users db pid user q limit =
     (case require_capability db pid user Member_Manage of Inl e \<Rightarrow> Inl e
      | Inr _ \<Rightarrow>
          Inr (take (nat (max 1 (min limit 50)))
                 (sort_key a_username
                    (filter (\<lambda>u. a_is_active u \<and> a_deleted_at u = None \<and> get_member db pid (a_id u) = None \<and>
                               (case q of
                                  None \<Rightarrow> True
                                | Some t \<Rightarrow> t = [] \<or> ilike (Some (a_username u)) (search_pattern t) \<or>
                                             ilike (a_display_name u) (search_pattern t)))
                       (ad_users db)))))"

section \<open>Invitation links\<close>

definition INVITATION_MAX_TTL_DAYS :: int where
  "INVITATION_MAX_TTL_DAYS = 30"

definition create_invitation ::
  "(string \<Rightarrow> string) \<Rightarrow> time \<Rightarrow> string \<Rightarrow> string \<Rightarrow> project_db \<Rightarrow> string \<Rightarrow> account \<Rightarrow> string \<Rightarrow> int \<Rightarrow> int \<Rightarrow>
     (project_db \<times> project_invitation) presult" where
  "create_invitation hash now new_id token db pid user role max_uses0 ttl_days0 =
     (case require_capability db pid user Member_Manage of Inl e \<Rightarrow> Inl e
      | Inr _ \<Rightarrow>
          (case validate_invitation_role role of Inl e \<Rightarrow> Inl e
           | Inr new_role \<Rightarrow>
               let max_uses = max 1 (min max_uses0 100);
                   ttl_days = max 1 (min ttl_days0 INVITATION_MAX_TTL_DAYS);
                   invitation = \<lparr>i_id = new_id, i_project_id = pid, i_role = new_role, i_token_hash = hash token,
                                 i_max_uses = max_uses, i_use_count = 0, i_expires_at = now + days ttl_days,
                                 i_created_by_user_id = Some (a_id user), i_claimed_by_user_id = None, i_claimed_at = None,
                                 i_revoked_at = None, i_created_at = now\<rparr>
               in Inr (append_project_audit now pid ''invitation.created'' (a_id user)
                         [(''role'', JString (role_text new_role)), (''maxUses'', JInt max_uses), (''ttlDays'', JInt ttl_days)]
                         (db\<lparr>invitations := invitations db @ [invitation]\<rparr>),
                       invitation)))"

definition list_invitations :: "project_db \<Rightarrow> string \<Rightarrow> account \<Rightarrow> (project_invitation list) presult" where
  "list_invitations db pid user =
     (case require_capability db pid user Member_Manage of Inl e \<Rightarrow> Inl e
      | Inr _ \<Rightarrow> Inr (sort_key (\<lambda>i. - i_created_at i) (filter (\<lambda>i. i_project_id i = pid) (invitations db))))"

definition update_invitation :: "string \<Rightarrow> (project_invitation \<Rightarrow> project_invitation) \<Rightarrow> project_db \<Rightarrow> project_db" where
  "update_invitation iid f db = db\<lparr>invitations := modify i_id iid f (invitations db)\<rparr>"

definition revoke_invitation :: "time \<Rightarrow> project_db \<Rightarrow> string \<Rightarrow> string \<Rightarrow> account \<Rightarrow> (project_db \<times> bool) presult" where
  "revoke_invitation now db pid invitation_id user =
     (case require_capability db pid user Member_Manage of Inl e \<Rightarrow> Inl e
      | Inr _ \<Rightarrow>
          (case fetch i_id invitation_id (invitations db) of
             None \<Rightarrow> Inr (db, False)
           | Some invitation \<Rightarrow>
               if i_project_id invitation \<noteq> pid then Inr (db, False)
               else if i_revoked_at invitation \<noteq> None then Inr (db, True)
               else Inr (append_project_audit now pid ''invitation.revoked'' (a_id user) [(''invitationId'', JString invitation_id)]
                           (update_invitation invitation_id (\<lambda>i. i\<lparr>i_revoked_at := Some now\<rparr>) db),
                         True)))"

definition claim_invitation ::
  "(string \<Rightarrow> string) \<Rightarrow> time \<Rightarrow> project_db \<Rightarrow> string \<Rightarrow> account \<Rightarrow> (project_db \<times> project_view option) presult" where
  "claim_invitation hash now db token user =
     (case fetch i_token_hash (hash token) (invitations db) of
        None \<Rightarrow> Inr (db, None)
      | Some invitation \<Rightarrow>
          let pid = i_project_id invitation; claim = (\<lambda>i. i\<lparr>i_claimed_by_user_id := Some (a_id user), i_claimed_at := Some now\<rparr>)
          in if i_revoked_at invitation \<noteq> None then Inl (ProjectValidationError ''Invitation has been revoked'')
             else if i_expires_at invitation < now then Inl (ProjectValidationError ''Invitation has expired'')
             else
               (case get_member db pid (a_id user) of
                  Some existing \<Rightarrow>
                    let db1 = update_invitation (i_id invitation) claim db
                    in Inr (db1, map_option (\<lambda>p. (p, Some (m_role existing), True)) (get_project_row db1 pid))
                | None \<Rightarrow>
                    if \<not> i_use_count invitation < i_max_uses invitation
                    then Inl (ProjectValidationError ''Invitation has been exhausted'')
                    else
                      let db1 = update_invitation (i_id invitation) (\<lambda>i. claim (i\<lparr>i_use_count := i_use_count i + 1\<rparr>)) db;
                          db2 = add_member_row now pid (a_id user) (i_role invitation) (i_created_by_user_id invitation) db1;
                          db3 = update_project_row pid (bump_acl_version now) db2;
                          db4 = append_project_audit now pid ''invitation.claimed'' (a_id user)
                                  [(''invitationId'', JString (i_id invitation)), (''role'', JString (role_text (i_role invitation)))] db3
                      in Inr (db4, map_option (\<lambda>p. (p, Some (i_role invitation), True)) (get_project_row db4 pid))))"

section \<open>What the endpoints answer to an error\<close>

text \<open>
  An \<open>HTTPException\<close> passes; the two errors of the domain become 400; the \<open>ValueError\<close> of a role
  is caught by no handler, so the request ends in the server's own error.
\<close>

fun endpoint_status :: "project_error \<Rightarrow> int" where
  "endpoint_status (Http_Error status _) = status"
| "endpoint_status (ProjectAccessError _) = 400"
| "endpoint_status (ProjectValidationError _) = 400"
| "endpoint_status (Role_ValueError _) = 500"

end
