(* ===== verification/Project_System.thy ===== *)
theory Project_System
  imports Project_Service
begin

text \<open>
  The projects as a transition system, and what every reachable state satisfies: each project has
  exactly one Primary Owner, memberships and invitations belong to existing projects, and an
  invitation link admitted as many members as its counter says, at most its maximum. Further: who
  may change owners, what a hidden project shows to outsiders, and that a deletion can be taken back.
\<close>

section \<open>Relational invariants\<close>

text \<open>A transition relation, an invariant that its steps keep, and reachability.\<close>

locale transition_invariant =
  fixes trans :: "'s \<Rightarrow> 's \<Rightarrow> bool"
    and inv :: "'s \<Rightarrow> bool"
  assumes trans_inv: "trans s s' \<Longrightarrow> inv s \<Longrightarrow> inv s'"
begin

lemma reachable_inv: "trans\<^sup>*\<^sup>* s s' \<Longrightarrow> inv s \<Longrightarrow> inv s'"
  by (induction rule: rtranclp_induct) (auto intro: trans_inv)

end

section \<open>The step relation\<close>

text \<open>
  One request, job or account event. The caller is a row of the users table. The rules for new
  rows say what the database and the random identifiers give: a new project id names no project,
  a new invitation id is not in use and in no audit event, and a token hash is unique.
\<close>

definition claim_event :: "string \<Rightarrow> project_audit_event \<Rightarrow> bool" where
  "claim_event iid e \<longleftrightarrow> e_event_type e = ''invitation.claimed'' \<and> dict_get (e_payload_json e) ''invitationId'' = JString iid"

definition claims :: "project_audit_event list \<Rightarrow> string \<Rightarrow> int" where
  "claims es iid = int (length (filter (claim_event iid) es))"

inductive project_step :: "(string \<Rightarrow> string) \<Rightarrow> project_db \<Rightarrow> project_db \<Rightarrow> bool" for hash where
  Create: "project_step hash db db'"
    if "user \<in> set (ad_users db)" and "new_id \<notin> pj_id ` set (projects db)"
    and "create_project now new_id db user name description visibility = Inr (db', view)"
| Update: "project_step hash db db'"
    if "user \<in> set (ad_users db)"
    and "update_project now db pid user name description visibility confirm = Inr (db', view)"
| Delete: "project_step hash db db'"
    if "user \<in> set (ad_users db)" and "delete_project now db pid user = Inr (db', ok)"
| Archive: "project_step hash db db'"
    if "user \<in> set (ad_users db)" and "archive_project now db pid user = Inr (db', view')"
| Restore: "project_step hash db db'"
    if "user \<in> set (ad_users db)" and "restore_project now db pid user = Inr (db', view')"
| Hard_Delete: "project_step hash db db'"
    if "user \<in> set (ad_users db)" and "hard_delete_project db pid user pending = Inr (db', ok)"
| Retention: "project_step hash db (fst (purge_expired_deleted_projects now retention_days db))"
| Leave: "project_step hash db db'"
    if "user \<in> set (ad_users db)" and "leave_project now db pid user = Inr (db', ok)"
| Add: "project_step hash db db'"
    if "user \<in> set (ad_users db)" and "add_member now db pid user uid role = Inr (db', r)"
| Set_Role: "project_step hash db db'"
    if "user \<in> set (ad_users db)" and "update_member_role now db pid user uid role = Inr (db', r')"
| Remove: "project_step hash db db'"
    if "user \<in> set (ad_users db)" and "remove_member now db pid user uid = Inr (db', ok)"
| Invite: "project_step hash db db'"
    if "user \<in> set (ad_users db)" and "new_id \<notin> i_id ` set (invitations db)" and "claims (audit_events db) new_id = 0"
    and "hash token \<notin> i_token_hash ` set (invitations db)"
    and "create_invitation hash now new_id token db pid user role max_uses ttl_days = Inr (db', link)"
| Revoke: "project_step hash db db'"
    if "user \<in> set (ad_users db)" and "revoke_invitation now db pid iid user = Inr (db', ok)"
| Claim: "project_step hash db db'"
    if "user \<in> set (ad_users db)" and "claim_invitation hash now db token user = Inr (db', view')"
| Account: "project_step hash db (account_step resolve db event)"

section \<open>Counting Primary Owners\<close>

definition primary_in :: "string \<Rightarrow> project_member \<Rightarrow> bool" where
  "primary_in pid m \<longleftrightarrow> m_project_id m = pid \<and> m_role m = PRIMARY_OWNER"

definition primaries :: "string \<Rightarrow> project_member list \<Rightarrow> int" where
  "primaries pid ms = int (length (filter (primary_in pid) ms))"

lemma count_primary_owners_eq: "int (count_primary_owners db pid) = primaries pid (ad_members db)"
proof -
  have "filter (primary_in pid) (ad_members db) = filter (\<lambda>m. m_project_id m = pid \<and> m_role m = PRIMARY_OWNER) (ad_members db)"
    by (rule filter_cong) (simp_all add: primary_in_def)
  then show ?thesis by (simp add: count_primary_owners_def members_of_def primaries_def)
qed

lemma member_key_role [simp]: "member_key (m\<lparr>m_role := r, m_updated_at := t\<rparr>) = member_key m"
  by (simp add: member_key_def)

lemma primaries_simps [simp]:
  "primaries pid [] = 0" "primaries pid (m # ms) = of_bool (primary_in pid m) + primaries pid ms"
  "primaries pid (xs @ ys) = primaries pid xs + primaries pid ys"
  by (simp_all add: primaries_def)

lemma primaries_modify:
  "distinct (map member_key ms) \<Longrightarrow> fetch member_key k ms = Some m \<Longrightarrow>
     primaries pid (modify member_key k f ms) = primaries pid ms - of_bool (primary_in pid m) + of_bool (primary_in pid (f m))"
proof -
  have "primaries pid xs = sum_where (primary_in pid) (\<lambda>_. 1) xs" for xs by (induction xs) simp_all
  then show "distinct (map member_key ms) \<Longrightarrow> fetch member_key k ms = Some m \<Longrightarrow>
     primaries pid (modify member_key k f ms) = primaries pid ms - of_bool (primary_in pid m) + of_bool (primary_in pid (f m))"
    using sum_where_modify [of member_key ms k m "primary_in pid" "\<lambda>_. 1 :: int" f] by simp
qed

lemma primaries_filter: "(\<And>m. m \<in> set ms \<Longrightarrow> primary_in pid m \<Longrightarrow> P m) \<Longrightarrow> primaries pid (filter P ms) = primaries pid ms"
  by (induction ms) auto

lemma primaries_zero: "primaries pid ms = 0 \<longleftrightarrow> (\<forall>m\<in>set ms. \<not> primary_in pid m)"
  by (auto simp: primaries_def filter_empty_conv)

lemma others_primary_Nil:
  assumes "distinct (map member_key ms)" and "primaries pid ms = 1" and "fetch member_key (pid, uid) ms = Some m" and "m_role m = PRIMARY_OWNER"
  shows "others_with_role ms pid uid PRIMARY_OWNER = []"
proof -
  have key: "m_project_id m = pid" "m_user_id m = uid" using fetch_key [OF assms(3)] by (simp_all add: member_key_def)
  have "primaries pid (modify member_key (pid, uid) (\<lambda>m. m\<lparr>m_role := VIEWER\<rparr>) ms) = 0"
    using primaries_modify [OF assms(1,3), of pid "\<lambda>m. m\<lparr>m_role := VIEWER\<rparr>"] assms(2,4) key by (simp add: primary_in_def)
  then have "\<not> primary_in pid x" if "x \<in> set ms" "member_key x \<noteq> (pid, uid)" for x
    using that unfolding primaries_zero set_modify by auto
  then show ?thesis by (auto simp: others_with_role_def filter_empty_conv primary_in_def member_key_def)
qed

section \<open>The transfer of a departing Primary Owner\<close>

lemma set_member_modify: "set_member pid uid f ms = modify member_key (pid, uid) f ms"
  by (simp add: set_member_def modify_def member_key_def cong: map_cong)

lemma transfer_one_keys: "map member_key (transfer_one now uid ms pid) = map member_key ms"
  by (simp add: transfer_one_def set_member_modify split: option.split)

lemma transfer_one_other:
  assumes "q \<noteq> pid"
  shows "primaries q (transfer_one now uid ms pid) = primaries q ms"
    and "fetch member_key (q, v) (transfer_one now uid ms pid) = fetch member_key (q, v) ms"
proof -
  have one: "primaries q (modify member_key (pid, w) f xs) = primaries q xs"
    if "\<And>m. member_key m = (pid, w) \<Longrightarrow> m_project_id (f m) = m_project_id m" for w f xs
    using that assms by (induction xs) (auto simp: primary_in_def member_key_def)
  show "primaries q (transfer_one now uid ms pid) = primaries q ms"
    by (simp add: transfer_one_def set_member_modify one split: option.split)
  show "fetch member_key (q, v) (transfer_one now uid ms pid) = fetch member_key (q, v) ms"
    using assms by (simp add: transfer_one_def set_member_modify fetch_modify split: option.split)
qed

lemma transfer_one_same:
  assumes "distinct (map member_key ms)" and "primaries pid ms = 1" and "fetch member_key (pid, uid) ms = Some m" and "m_role m = PRIMARY_OWNER"
  shows "primaries pid (transfer_one now uid ms pid) = 1"
proof (cases "remaining_project_assignee_id ms pid uid")
  case None
  with assms(2) show ?thesis by (simp add: transfer_one_def)
next
  case (Some v)
  have key: "m_project_id m = pid" "m_user_id m = uid" using fetch_key [OF assms(3)] by (simp_all add: member_key_def)
  from assignee_is_member [OF Some] obtain s where s: "s \<in> set ms" "m_project_id s = pid" "m_user_id s = v" and ne: "v \<noteq> uid" by blast
  have fs: "fetch member_key (pid, v) ms = Some s" using fetch_distinct [OF assms(1) s(1)] s by (simp add: member_key_def)
  have "m_role s \<noteq> PRIMARY_OWNER"
    using others_primary_Nil [OF assms] s ne by (auto simp: others_with_role_def filter_empty_conv)
  let ?ms1 = "modify member_key (pid, uid) (\<lambda>m. m\<lparr>m_role := OWNER, m_updated_at := now\<rparr>) ms"
  have d1: "distinct (map member_key ?ms1)" using assms(1) by simp
  have f1: "fetch member_key (pid, v) ?ms1 = Some s" using fs ne by (simp add: fetch_modify)
  have "primaries pid ?ms1 = 0"
    using primaries_modify [OF assms(1,3), of pid] assms(2,4) key by (simp add: primary_in_def)
  with primaries_modify [OF d1 f1, of pid] \<open>m_role s \<noteq> PRIMARY_OWNER\<close> s(2) show ?thesis
    by (simp add: transfer_one_def Some set_member_modify primary_in_def)
qed

lemma transfer_fold:
  assumes "distinct (map member_key ms)" and "distinct pids"
    and "\<And>pid. pid \<in> set pids \<Longrightarrow> \<exists>m. fetch member_key (pid, uid) ms = Some m \<and> m_role m = PRIMARY_OWNER"
    and "\<And>pid. pid \<in> set pids \<Longrightarrow> primaries pid ms = 1"
  shows "map member_key (foldl (transfer_one now uid) ms pids) = map member_key ms
    \<and> (\<forall>q. primaries q (foldl (transfer_one now uid) ms pids) = primaries q ms)"
  using assms
proof (induction pids arbitrary: ms)
  case (Cons pid pids)
  let ?ms1 = "transfer_one now uid ms pid"
  obtain m where m: "fetch member_key (pid, uid) ms = Some m" "m_role m = PRIMARY_OWNER" using Cons.prems(3) by auto
  have same: "primaries q ?ms1 = primaries q ms" for q
    using transfer_one_other(1) [of q pid] transfer_one_same [OF Cons.prems(1) _ m] Cons.prems(4)
    by (cases "q = pid") simp_all
  have other: "\<exists>m. fetch member_key (q, uid) ?ms1 = Some m \<and> m_role m = PRIMARY_OWNER" if "q \<in> set pids" for q
    using that Cons.prems(2,3) transfer_one_other(2) [where q = q and pid = pid] by (metis distinct.simps(2) list.set_intros(2))
  have "map member_key (foldl (transfer_one now uid) ?ms1 pids) = map member_key ?ms1
    \<and> (\<forall>q. primaries q (foldl (transfer_one now uid) ?ms1 pids) = primaries q ?ms1)"
    using Cons.prems other by (intro Cons.IH) (simp_all add: transfer_one_keys same)
  with same show ?case by (simp add: transfer_one_keys)
qed simp

lemma transfer_keeps_primaries:
  assumes "distinct (map member_key ms)" and "\<And>m. m \<in> set ms \<Longrightarrow> primaries (m_project_id m) ms = 1"
  shows "map member_key (transfer_primary_owner_if_departing now uid ms) = map member_key ms
    \<and> (\<forall>q. primaries q (transfer_primary_owner_if_departing now uid ms) = primaries q ms)"
proof -
  let ?own = "filter (\<lambda>m. m_user_id m = uid \<and> m_role m = PRIMARY_OWNER) ms"
  have inj: "inj_on m_project_id (set ?own)"
    using assms(1) by (auto simp: inj_on_def distinct_map member_key_def)
  have "distinct (map m_project_id ?own)"
    using assms(1) inj by (simp add: distinct_map)
  moreover have "\<exists>m. fetch member_key (pid, uid) ms = Some m \<and> m_role m = PRIMARY_OWNER" if "pid \<in> set (map m_project_id ?own)" for pid
    using that fetch_distinct [OF assms(1)] by (force simp: member_key_def)
  ultimately show ?thesis
    unfolding transfer_primary_owner_if_departing_def using assms by (intro transfer_fold) auto
qed

section \<open>Accounts seen from the projects\<close>

text \<open>
  An account request keeps the project tables; what it does to the memberships is a sequence of
  transfers, one for each purged account.
\<close>

definition departures :: "'x account_db_scheme \<Rightarrow> 'x account_db_scheme \<Rightarrow> bool" where
  "departures db db' \<longleftrightarrow> account_db.more db' = account_db.more db \<and>
     (\<exists>ds. ad_members db' = foldl (\<lambda>ms (t, u). transfer_primary_owner_if_departing t u ms) (ad_members db) ds)"

lemma departures_same: "account_db.more db' = account_db.more db \<Longrightarrow> ad_members db' = ad_members db \<Longrightarrow> departures db db'"
  unfolding departures_def by (metis foldl_Nil)

lemma departures_one:
  "account_db.more db' = account_db.more db \<Longrightarrow> ad_members db' = transfer_primary_owner_if_departing t u (ad_members db) \<Longrightarrow> departures db db'"
  unfolding departures_def by (rule conjI, assumption, rule exI [of _ "[(t, u)]"]) simp

lemma departures_trans: "departures a b \<Longrightarrow> departures b c \<Longrightarrow> departures a c"
  unfolding departures_def by (metis foldl_append)

lemma departures_tables:
  fixes db db' :: project_db
  assumes "departures db db'"
  shows "projects db' = projects db" "invitations db' = invitations db" "audit_events db' = audit_events db"
  using assms by (cases db; cases db'; simp add: departures_def)+

lemma departures_refl [simp]: "departures db db"
  by (simp add: departures_same)

lemma departures_frame [simp]:
  "departures db (update_account uid f d) = departures db d"
  "departures db (record_auth_event t u r d) = departures db d"
  "departures db (audit_user_action actor t uid d) = departures db d"
  "departures db (audit_role_change actor uid p n d) = departures db d"
  "departures db (fst (set_user_roles d uid slugs)) = departures db d"
  "departures (update_account uid f db) d = departures db d"
  "departures (audit_user_action actor t uid db) d = departures db d"
  "departures (audit_role_change actor uid p n db) d = departures db d"
  "departures (fst (set_user_roles db uid slugs)) d = departures db d"
  "departures db (d\<lparr>ad_security_log := es\<rparr>) = departures db d"
  by (simp_all add: departures_def update_account_def record_auth_event_def audit_user_action_def audit_role_change_def
      set_user_roles_def Let_def)

lemma departures_soft_delete [simp]: "departures db (soft_delete_user now db user)"
  by (simp add: soft_delete_user_def)

lemma departures_restore: "restore_user db user = Inr db' \<Longrightarrow> departures db db'"
  by (auto simp: restore_user_def split: if_splits)

lemma purge_data_more [simp]: "account_db.more (purge_user_account_data now db uid) = account_db.more db"
  by (simp add: purge_user_account_data_def delete_owned_def delete_personal_chats_def Let_def)

lemma departures_purge: "permanently_delete_user now db user = Inr db' \<Longrightarrow> departures db db'"
proof (rule departures_one)
  assume *: "permanently_delete_user now db user = Inr db'"
  show "ad_members db' = transfer_primary_owner_if_departing now (a_id user) (ad_members db)" by (rule purge_chats(1) [OF *])
  from * show "account_db.more db' = account_db.more db"
    by (auto simp: permanently_delete_user_def Let_def update_account_def delete_owned_def record_auth_event_def split: if_splits)
qed

lemma departures_foldl: "(\<And>d x. departures d (f d x)) \<Longrightarrow> departures db (foldl f db xs)"
  by (induction xs arbitrary: db) (auto intro: departures_trans)

lemma departures_keep: "(\<And>db'. r = Inr db' \<Longrightarrow> departures db db') \<Longrightarrow> departures db (keep_on_error db r)"
  by (simp add: keep_on_error_def split: sum.split)

lemma departures_keep_fst: "(\<And>p. r = Inr p \<Longrightarrow> departures db (fst p)) \<Longrightarrow> departures db (keep_on_error db (fst_result r))"
  by (auto simp: keep_on_error_def fst_result_def split: sum.split)

lemma departures_change_roles: "change_roles actor db uid slugs = Inr (db', r) \<Longrightarrow> departures db db'"
  by (auto simp: change_roles_def Let_def case_prod_unfold split: sum.splits)

lemma departures_patch_names: "patch_names body db uid = Inr db' \<Longrightarrow> departures db db'"
  by (auto simp: patch_names_def Let_def split: option.splits sum.splits if_splits)

lemma departures_patch_roles: "patch_roles actor body db uid = Inr (db', r) \<Longrightarrow> departures db db'"
  by (auto simp: patch_roles_def split: option.splits sum.splits dest: departures_change_roles)

lemma departures_patch_active: "patch_active body db user = Inr db' \<Longrightarrow> departures db db'"
  by (auto simp: patch_active_def Let_def split: option.splits if_splits)

lemma departures_patch_user: "patch_user resolve actor db uid body = Inr p \<Longrightarrow> departures db (fst p)"
  by (auto simp: patch_user_def Let_def split: option.splits sum.splits
      dest!: departures_patch_names departures_patch_roles departures_patch_active) (blast intro: departures_trans)

lemma departures_restore_each: "departures db (fst (restore_each actor db users))"
  by (induction actor db users rule: restore_each.induct)
    (auto simp: Let_def case_prod_unfold split: sum.splits dest: departures_restore intro: departures_trans)

lemma departures_purge_each: "departures db (fst (purge_each now db users))"
  by (induction now db users rule: purge_each.induct)
    (auto simp: Let_def case_prod_unfold split: sum.splits dest: departures_purge intro: departures_trans)

lemma departures_bulk_roles: "bulk_apply_roles actor slugs db us = Inr p \<Longrightarrow> departures db (fst p)"
  by (induction actor slugs db us arbitrary: p rule: bulk_apply_roles.induct) (auto simp: Let_def split: sum.splits if_splits)

lemma departures_bulk_update_roles: "bulk_update_roles actor db users roles role = Inr p \<Longrightarrow> departures db (fst p)"
  by (auto simp: bulk_update_roles_def Let_def split: if_splits sum.splits dest: departures_bulk_roles)

lemma departures_bulk_active: "bulk_update_active db users active = Inr db' \<Longrightarrow> departures db db'"
  by (auto simp: bulk_update_active_def Let_def split: if_splits option.splits intro!: departures_foldl)

lemma departures_bulk_update: "bulk_update_accounts actor db ids roles role active = Inr db' \<Longrightarrow> departures db db'"
  by (auto simp: bulk_update_accounts_def Let_def split: if_splits sum.splits
      dest!: departures_bulk_update_roles departures_bulk_active intro: departures_trans)

lemma departures_bootstrap: "departures db (fst (ensure_bootstrap_admin_roles name db))"
  by (auto simp: ensure_bootstrap_admin_roles_def ensure_super_admin_roles_def Let_def intro!: departures_foldl)

lemma account_step_departures: "departures db (account_step resolve db e)"
proof (induction resolve db e rule: account_step.induct)
  case (3 resolve db now uid)
  show ?case by (simp add: prune_sync_user_def split: option.split)
next
  case (5 resolve db actor ids)
  show ?case
    using departures_restore_each [of db actor "selected_users db ids"]
    by (auto simp: bulk_restore_users_def split: if_splits intro!: departures_keep_fst)
next
  case (6 resolve db now actor uid)
  show ?case
    by (auto simp: permanently_delete_user_endpoint_def value_error_400_Inr split: option.splits if_splits intro!: departures_keep dest!: departures_purge)
next
  case (7 resolve db now actor ids)
  show ?case
    by (auto simp: bulk_permanently_delete_users_def Let_def case_prod_unfold departures_purge_each split: if_splits intro!: departures_keep_fst)
qed (auto intro!: departures_keep departures_keep_fst departures_bootstrap simp: delete_local_user_def restore_user_endpoint_def value_error_400_Inr
    dest: departures_patch_user departures_bulk_update departures_restore
    split: option.splits if_splits sum.splits)

section \<open>The invariant\<close>

definition owners_ok :: "string list \<Rightarrow> project_member list \<Rightarrow> bool" where
  "owners_ok pids ms \<longleftrightarrow> distinct pids \<and> distinct (map member_key ms) \<and>
     (\<forall>m\<in>set ms. m_project_id m \<in> set pids) \<and> (\<forall>pid\<in>set pids. primaries pid ms = 1)"

definition links_ok :: "string list \<Rightarrow> project_invitation list \<Rightarrow> project_audit_event list \<Rightarrow> bool" where
  "links_ok pids links es \<longleftrightarrow> distinct (map i_id links) \<and>
     (\<forall>i\<in>set links. i_project_id i \<in> set pids \<and> i_role i \<notin> set PROJECT_OWNER_ROLES \<and>
        claims es (i_id i) = i_use_count i \<and> i_use_count i \<le> i_max_uses i)"

definition project_inv :: "project_db \<Rightarrow> bool" where
  "project_inv db \<longleftrightarrow> owners_ok (map pj_id (projects db)) (ad_members db) \<and>
     links_ok (map pj_id (projects db)) (invitations db) (audit_events db)"

subsection \<open>Memberships\<close>

lemma owners_ok_add:
  "owners_ok pids ms \<Longrightarrow> m_project_id m \<in> set pids \<Longrightarrow> fetch member_key (m_project_id m, m_user_id m) ms = None \<Longrightarrow>
     m_role m \<noteq> PRIMARY_OWNER \<Longrightarrow> owners_ok pids (ms @ [m])"
  by (auto simp: owners_ok_def primary_in_def fetch_None_iff member_key_def)

lemma owners_ok_set:
  assumes "owners_ok pids ms" and "fetch member_key k ms = Some m" and "m_role m \<noteq> PRIMARY_OWNER" and "role \<noteq> PRIMARY_OWNER"
  shows "owners_ok pids (modify member_key k (\<lambda>m. m\<lparr>m_role := role, m_updated_at := now\<rparr>) ms)"
proof -
  have "primaries pid (modify member_key k (\<lambda>m. m\<lparr>m_role := role, m_updated_at := now\<rparr>) ms) = primaries pid ms" for pid
    using assms primaries_modify [of ms k m pid] by (simp add: owners_ok_def primary_in_def)
  with assms(1) show ?thesis by (auto simp: owners_ok_def set_modify)
qed

lemma owners_ok_remove:
  assumes "owners_ok pids ms" and "fetch member_key k ms = Some m" and "m_role m \<noteq> PRIMARY_OWNER"
  shows "owners_ok pids (filter (\<lambda>m. member_key m \<noteq> k) ms)"
proof -
  have "member_key x \<noteq> k" if "x \<in> set ms" "primary_in pid x" for x pid
    using that assms fetch_distinct [of member_key ms x] by (auto simp: owners_ok_def primary_in_def)
  then have "primaries pid (filter (\<lambda>m. member_key m \<noteq> k) ms) = primaries pid ms" for pid
    by (intro primaries_filter)
  with assms(1) show ?thesis by (auto simp: owners_ok_def distinct_map_filter)
qed

lemma owners_ok_create:
  assumes "owners_ok pids ms" and "pid \<notin> set pids" and "m_project_id m = pid" and "m_role m = PRIMARY_OWNER"
  shows "owners_ok (pids @ [pid]) (ms @ [m])"
proof -
  have "primaries pid ms = 0" using assms by (auto simp: owners_ok_def primaries_zero primary_in_def)
  moreover have "member_key m \<notin> member_key ` set ms" using assms by (auto simp: owners_ok_def member_key_def)
  ultimately show ?thesis using assms by (auto simp: owners_ok_def primary_in_def)
qed

lemma owners_ok_purge:
  assumes "owners_ok pids ms"
  shows "owners_ok (filter (\<lambda>p. p \<noteq> pid) pids) (filter (\<lambda>m. m_project_id m \<noteq> pid) ms)"
proof -
  have "primaries q (filter (\<lambda>m. m_project_id m \<noteq> pid) ms) = primaries q ms" if "q \<noteq> pid" for q
    using that by (intro primaries_filter) (auto simp: primary_in_def)
  with assms show ?thesis by (auto simp: owners_ok_def distinct_map_filter)
qed

lemma owners_ok_transfer: "owners_ok pids ms \<Longrightarrow> owners_ok pids (transfer_primary_owner_if_departing now uid ms)"
proof -
  assume ok: "owners_ok pids ms"
  then have keys: "map member_key (transfer_primary_owner_if_departing now uid ms) = map member_key ms"
    and same: "\<forall>q. primaries q (transfer_primary_owner_if_departing now uid ms) = primaries q ms"
    using transfer_keeps_primaries [of ms now uid] by (auto simp: owners_ok_def)
  have "m_project_id ` set (transfer_primary_owner_if_departing now uid ms) = fst ` member_key ` set (transfer_primary_owner_if_departing now uid ms)"
    by (auto simp: member_key_def image_iff)
  also have "\<dots> = fst ` set (map member_key ms)" by (simp flip: keys)
  also have "\<dots> = m_project_id ` set ms" by (auto simp: member_key_def image_iff)
  finally have "m_project_id ` set (transfer_primary_owner_if_departing now uid ms) \<subseteq> set pids" using ok by (auto simp: owners_ok_def)
  with ok keys same show ?thesis by (simp add: owners_ok_def image_subset_iff)
qed

lemma owners_ok_departures: "departures db db' \<Longrightarrow> owners_ok pids (ad_members db) \<Longrightarrow> owners_ok pids (ad_members db')"
proof -
  have "owners_ok pids ms \<Longrightarrow> owners_ok pids (foldl (\<lambda>ms (t, u). transfer_primary_owner_if_departing t u ms) ms ds)" for ms ds
    by (induction ds arbitrary: ms) (auto intro: owners_ok_transfer)
  then show "departures db db' \<Longrightarrow> owners_ok pids (ad_members db) \<Longrightarrow> owners_ok pids (ad_members db')"
    by (auto simp: departures_def)
qed

subsection \<open>Invitation links\<close>

lemma claims_simps [simp]:
  "claims [] iid = 0" "claims (e # es) iid = of_bool (claim_event iid e) + claims es iid" "claims (xs @ ys) iid = claims xs iid + claims ys iid"
  by (simp_all add: claims_def)

lemma links_ok_event: "e_event_type e \<noteq> ''invitation.claimed'' \<Longrightarrow> links_ok pids links (es @ [e]) = links_ok pids links es"
  by (simp add: links_ok_def claim_event_def)

lemma links_ok_more: "links_ok pids links es \<Longrightarrow> links_ok (pids @ [pid]) links es"
  by (auto simp: links_ok_def)

lemma links_ok_add:
  "links_ok pids links es \<Longrightarrow> i_id i \<notin> i_id ` set links \<Longrightarrow> claims es (i_id i) = 0 \<Longrightarrow> i_project_id i \<in> set pids \<Longrightarrow>
     i_role i \<notin> set PROJECT_OWNER_ROLES \<Longrightarrow> i_use_count i = 0 \<Longrightarrow> 0 \<le> i_max_uses i \<Longrightarrow> links_ok pids (links @ [i]) es"
  by (auto simp: links_ok_def)

lemma links_ok_same:
  assumes "links_ok pids links es"
    and "\<And>i. i_id (f i) = i_id i \<and> i_project_id (f i) = i_project_id i \<and> i_role (f i) = i_role i \<and>
      i_use_count (f i) = i_use_count i \<and> i_max_uses (f i) = i_max_uses i"
  shows "links_ok pids (modify i_id iid f links) es"
  using assms by (auto simp: links_ok_def set_modify)

lemma links_ok_claim:
  assumes "links_ok pids links es" and "fetch i_id iid links = Some i" and "i_use_count i < i_max_uses i"
    and "\<And>i. i_id (f i) = i_id i \<and> i_project_id (f i) = i_project_id i \<and> i_role (f i) = i_role i \<and>
      i_use_count (f i) = i_use_count i + 1 \<and> i_max_uses (f i) = i_max_uses i"
    and "\<And>j. claim_event j e \<longleftrightarrow> j = iid"
  shows "links_ok pids (modify i_id iid f links) (es @ [e])"
proof -
  have "x = i" if "x \<in> set links" "i_id x = iid" for x
    using that assms(1,2) fetch_distinct [of i_id links x] by (auto simp: links_ok_def)
  with assms show ?thesis by (auto simp: links_ok_def set_modify)
qed

lemma links_ok_purge: "links_ok pids links es \<Longrightarrow> links_ok (filter (\<lambda>p. p \<noteq> pid) pids) (filter (\<lambda>i. i_project_id i \<noteq> pid) links) es"
  by (auto simp: links_ok_def distinct_map_filter)

subsection \<open>Rows\<close>

lemma row_frames [simp]:
  "projects (append_project_audit now pid t a pl db) = projects db"
  "ad_members (append_project_audit now pid t a pl db) = ad_members db"
  "invitations (append_project_audit now pid t a pl db) = invitations db"
  "ad_members (update_project_row pid f db) = ad_members db"
  "invitations (update_project_row pid f db) = invitations db"
  "audit_events (update_project_row pid f db) = audit_events db"
  "projects (remove_member_row pid uid db) = projects db" "invitations (remove_member_row pid uid db) = invitations db"
  "audit_events (remove_member_row pid uid db) = audit_events db"
  "projects (set_member_role now pid uid r db) = projects db" "invitations (set_member_role now pid uid r db) = invitations db"
  "audit_events (set_member_role now pid uid r db) = audit_events db"
  "projects (add_member_row now pid uid r i db) = projects db" "invitations (add_member_row now pid uid r i db) = invitations db"
  "audit_events (add_member_row now pid uid r i db) = audit_events db"
  "projects (update_invitation iid g db) = projects db" "ad_members (update_invitation iid g db) = ad_members db"
  "audit_events (update_invitation iid g db) = audit_events db"
  by (simp_all add: append_project_audit_def update_project_row_def remove_member_row_def set_member_role_def
      add_member_row_def update_invitation_def)

lemma project_ids_update [simp]:
  "(\<And>p. pj_id p = pid \<Longrightarrow> pj_id (f p) = pid) \<Longrightarrow> map pj_id (projects (update_project_row pid f db)) = map pj_id (projects db)"
  by (simp add: update_project_row_def)

lemma bump_id [simp]: "pj_id (bump_acl_version now p) = pj_id p"
  by (simp add: bump_acl_version_def)

lemma inv_event:
  "t \<noteq> ''invitation.claimed'' \<Longrightarrow> project_inv (append_project_audit now pid t a pl db) = project_inv db"
  by (simp add: project_inv_def append_project_audit_def links_ok_event)

lemma inv_row: "(\<And>p. pj_id p = pid \<Longrightarrow> pj_id (f p) = pid) \<Longrightarrow> project_inv (update_project_row pid f db) = project_inv db"
  by (simp add: project_inv_def)

lemma inv_put:
  "map_option pj_id (get_project_row db pid) = Some (pj_id p) \<Longrightarrow> project_inv db \<Longrightarrow> project_inv (update_project_row pid (\<lambda>_. p) db)"
  by (auto simp: get_project_row_def inv_row dest: fetch_key)

lemma inv_purge: "project_inv db \<Longrightarrow> project_inv (purge_project_rows db pid)"
  using owners_ok_purge [of "map pj_id (projects db)" "ad_members db" pid]
    links_ok_purge [of "map pj_id (projects db)" "invitations db" "audit_events db" pid]
  by (simp add: project_inv_def purge_project_rows_def Let_def filter_map o_def)

lemma inv_purge_expired: "project_inv db \<Longrightarrow> project_inv (fst (purge_expired_deleted_projects now n db))"
proof -
  have "project_inv d \<Longrightarrow> project_inv (foldl (\<lambda>d p. purge_project_rows d (pj_id p)) d ps)" for d ps
    by (induction ps arbitrary: d) (auto intro: inv_purge)
  then show "project_inv db \<Longrightarrow> project_inv (fst (purge_expired_deleted_projects now n db))"
    by (simp add: purge_expired_deleted_projects_def Let_def)
qed

lemma inv_set_role:
  "project_inv db \<Longrightarrow> get_member db pid uid = Some m \<Longrightarrow> m_role m \<noteq> PRIMARY_OWNER \<Longrightarrow> r \<noteq> PRIMARY_OWNER \<Longrightarrow>
     project_inv (set_member_role now pid uid r db)"
  using owners_ok_set [of _ "ad_members db" "(pid, uid)"] by (simp add: project_inv_def set_member_role_def get_member_def)

lemma inv_remove:
  "project_inv db \<Longrightarrow> get_member db pid uid = Some m \<Longrightarrow> m_role m \<noteq> PRIMARY_OWNER \<Longrightarrow> project_inv (remove_member_row pid uid db)"
  using owners_ok_remove [of _ "ad_members db" "(pid, uid)"] by (simp add: project_inv_def remove_member_row_def get_member_def)

lemma inv_add:
  "project_inv db \<Longrightarrow> get_member db pid uid = None \<Longrightarrow> pid \<in> pj_id ` set (projects db) \<Longrightarrow> r \<noteq> PRIMARY_OWNER \<Longrightarrow>
     project_inv (add_member_row now pid uid r i db)"
  by (simp add: project_inv_def add_member_row_def get_member_def owners_ok_add)

subsection \<open>Guards\<close>

lemma access_project: "resolve_project_access db pid u = Some access \<Longrightarrow> pid \<in> pj_id ` set (projects db)"
  by (auto simp: resolve_project_access_def get_project_row_def split: option.splits dest: fetch_SomeD)

lemma capability_project: "require_capability db pid u c = Inr access \<Longrightarrow> pid \<in> pj_id ` set (projects db)"
  by (auto simp: require_capability_def split: option.splits if_splits dest: access_project)

lemma protected_primary: "ensure_primary_owner_protected (Some m) r = Inr x \<Longrightarrow> r \<noteq> Some PRIMARY_OWNER \<Longrightarrow> m_role m \<noteq> PRIMARY_OWNER"
  by (auto simp: ensure_primary_owner_protected_def is_primary_owner_role_def)

lemma mutation_guard:
  assumes "require_member_role_mutation db pid u t r = Inr x"
  shows "r \<noteq> Some PRIMARY_OWNER" and "t = Some m \<Longrightarrow> m_role m \<noteq> PRIMARY_OWNER"
  using assms by (auto simp: require_member_role_mutation_def split: if_splits sum.splits dest: protected_primary)

lemma last_owner_guard:
  "ensure_not_last_owner db pid uid r = Inr x \<Longrightarrow> get_member db pid uid = Some m \<Longrightarrow> r \<noteq> Some PRIMARY_OWNER \<Longrightarrow> m_role m \<noteq> PRIMARY_OWNER"
  by (auto simp: ensure_not_last_owner_def Let_def split: sum.splits dest: protected_primary)

subsection \<open>Every operation keeps it\<close>

lemma create_inv:
  assumes "create_project now new_id db user name description visibility = Inr (db', view)"
    and "project_inv db" and "new_id \<notin> pj_id ` set (projects db)"
  shows "project_inv db'"
  using assms
  by (auto simp: create_project_def Let_def inv_event split: sum.splits option.splits)
    (simp add: project_inv_def links_ok_more owners_ok_create)

lemma update_inv:
  assumes "update_project now db pid user name description visibility confirm = Inr (db', view)" and "project_inv db"
  shows "project_inv db'"
  using assms(1) unfolding update_project_def
  by (auto simp: assms(2) inv_event Let_def intro!: inv_put dest!: edit_keeps edit_visibility_effect
      split: sum.splits option.splits if_splits)

lemma delete_inv: "delete_project now db pid user = Inr (db', r) \<Longrightarrow> project_inv db \<Longrightarrow> project_inv db'"
  by (auto simp: delete_project_def inv_event inv_row split: sum.splits option.splits if_splits)

lemma archive_inv: "archive_project now db pid user = Inr (db', r) \<Longrightarrow> project_inv db \<Longrightarrow> project_inv db'"
  by (auto simp: archive_project_def Let_def inv_event intro!: inv_put split: sum.splits option.splits if_splits)

lemma restore_inv: "restore_project now db pid user = Inr (db', r) \<Longrightarrow> project_inv db \<Longrightarrow> project_inv db'"
  by (auto simp: restore_project_def Let_def inv_event intro!: inv_put split: sum.splits option.splits if_splits)

lemma hard_delete_inv: "hard_delete_project db pid user pending = Inr (db', r) \<Longrightarrow> project_inv db \<Longrightarrow> project_inv db'"
  by (auto simp: hard_delete_project_def inv_purge split: sum.splits option.splits if_splits)

lemma leave_inv: "leave_project now db pid user = Inr (db', r) \<Longrightarrow> project_inv db \<Longrightarrow> project_inv db'"
  by (auto simp: leave_project_def inv_event inv_row dest: last_owner_guard intro!: inv_remove
      split: sum.splits option.splits if_splits project_error.splits)

lemma add_inv: "add_member now db pid user uid role = Inr (db', r) \<Longrightarrow> project_inv db \<Longrightarrow> project_inv db'"
  by (auto simp: add_member_def Let_def inv_event inv_row intro!: inv_set_role inv_add dest: mutation_guard capability_project
      split: sum.splits option.splits if_splits)

lemma set_role_inv: "update_member_role now db pid user uid role = Inr (db', r) \<Longrightarrow> project_inv db \<Longrightarrow> project_inv db'"
  by (auto simp: update_member_role_def inv_event inv_row intro!: inv_set_role dest: mutation_guard
      split: sum.splits option.splits if_splits)

lemma remove_inv: "remove_member now db pid user uid = Inr (db', r) \<Longrightarrow> project_inv db \<Longrightarrow> project_inv db'"
  by (auto simp: remove_member_def inv_event inv_row intro!: inv_remove dest: mutation_guard
      split: sum.splits option.splits if_splits)

lemma invitation_role: "validate_invitation_role role = Inr r \<Longrightarrow> r \<notin> set PROJECT_OWNER_ROLES"
  by (auto simp: validate_invitation_role_def is_project_owner_role_def split: sum.splits if_splits)

lemma invite_inv:
  assumes "create_invitation hash now new_id token db pid user role max_uses ttl_days = Inr (db', link)" and "project_inv db"
    and "new_id \<notin> i_id ` set (invitations db)" and "claims (audit_events db) new_id = 0"
  shows "project_inv db'"
  using assms
  by (auto simp: create_invitation_def Let_def inv_event dest!: capability_project invitation_role split: sum.splits)
    (auto simp: project_inv_def intro!: links_ok_add)

lemma inv_link:
  assumes "project_inv db"
    and "\<And>i. i_id (f i) = i_id i \<and> i_project_id (f i) = i_project_id i \<and> i_role (f i) = i_role i \<and>
      i_use_count (f i) = i_use_count i \<and> i_max_uses (f i) = i_max_uses i"
  shows "project_inv (update_invitation iid f db)"
  using assms by (simp add: project_inv_def update_invitation_def links_ok_same)

lemma revoke_inv: "revoke_invitation now db pid iid user = Inr (db', r) \<Longrightarrow> project_inv db \<Longrightarrow> project_inv db'"
  by (auto simp: revoke_invitation_def inv_event intro!: inv_link split: sum.splits option.splits if_splits)

lemma claim_link_inv:
  assumes "claim_invitation hash now db token user = Inr (db', r)" and "project_inv db"
  shows "project_inv db'"
proof (cases "fetch i_token_hash (hash token) (invitations db)")
  case None
  with assms show ?thesis by (simp add: claim_invitation_def)
next
  case (Some i)
  then have i: "i \<in> set (invitations db)" by (auto dest: fetch_SomeD)
  let ?pid = "i_project_id i"
  show ?thesis
  proof (cases "get_member db ?pid (a_id user)")
    case (Some m)
    with assms \<open>fetch i_token_hash _ _ = _\<close> show ?thesis
      by (auto simp: claim_invitation_def Let_def intro!: inv_link split: if_splits)
  next
    case None
    let ?f = "\<lambda>i. i\<lparr>i_use_count := i_use_count i + 1, i_claimed_by_user_id := Some (a_id user), i_claimed_at := Some now\<rparr>"
    let ?pl = "[(''invitationId'', JString (i_id i)), (''role'', JString (role_text (i_role i)))]"
    let ?db2 = "add_member_row now ?pid (a_id user) (i_role i) (i_created_by_user_id i) (update_invitation (i_id i) ?f db)"
    from None Some assms(1) have left: "i_use_count i < i_max_uses i"
      and db': "db' = append_project_audit now ?pid ''invitation.claimed'' (a_id user) ?pl
        (update_project_row ?pid (bump_acl_version now) ?db2)"
      by (auto simp: claim_invitation_def Let_def split: if_splits)
    have ok: "owners_ok (map pj_id (projects db)) (ad_members db)"
      "links_ok (map pj_id (projects db)) (invitations db) (audit_events db)"
      using assms(2) by (simp_all add: project_inv_def)
    have fi: "fetch i_id (i_id i) (invitations db) = Some i" using ok(2) i by (simp add: links_ok_def fetch_distinct)
    have role: "i_role i \<noteq> PRIMARY_OWNER" "?pid \<in> set (map pj_id (projects db))"
      using ok(2) i by (auto simp: links_ok_def PROJECT_OWNER_ROLES_def)
    have "owners_ok (map pj_id (projects db')) (ad_members db')"
      using ok(1) role None by (simp add: db' add_member_row_def get_member_def owners_ok_add)
    moreover have "links_ok (map pj_id (projects db')) (invitations db') (audit_events db')"
      by (auto simp: db' append_project_audit_def update_invitation_def claim_event_def dict_get_def intro!: links_ok_claim [OF ok(2) fi left])
    ultimately show ?thesis by (simp add: project_inv_def)
  qed
qed

lemma account_inv_projects: "project_inv db \<Longrightarrow> project_inv (account_step resolve db e)"
  using departures_tables [OF account_step_departures [of db resolve e]] owners_ok_departures [OF account_step_departures [of db resolve e]]
  by (simp add: project_inv_def)

interpretation projects: transition_invariant "project_step hash" project_inv
  for hash :: "string \<Rightarrow> string"
proof
  fix db db'
  assume "project_step hash db db'" and "project_inv db"
  then show "project_inv db'"
    by cases (auto intro: create_inv update_inv delete_inv archive_inv restore_inv hard_delete_inv inv_purge_expired leave_inv
        add_inv set_role_inv remove_inv invite_inv revoke_inv claim_link_inv account_inv_projects)
qed

section \<open>Property\<close>

definition empty_projects :: "account list \<Rightarrow> project_db" where
  "empty_projects users =
     \<lparr>ad_users = users, ad_roles = [], ad_groups = [], ad_personal = [], ad_sessions = [], ad_messages = [], ad_summaries = [],
      ad_log_owners = [], ad_uploaders = [], ad_members = [], ad_security_log = [], ad_auth_events = [],
      projects = [], invitations = [], audit_events = []\<rparr>"

lemma empty_projects_inv: "project_inv (empty_projects users)"
  by (simp add: project_inv_def owners_ok_def links_ok_def empty_projects_def)

text \<open>
  C7: starting from no projects, whatever sequence of requests, retention jobs and account
  events (purges of owners included) has run, every project has exactly one Primary Owner, no user
  is a member of a project twice, a membership or an invitation never outlives its project, and an
  invitation link grants no owner role and has admitted, by the audit trail, exactly as many members
  as its counter says and never more than its maximum.
\<close>

theorem one_primary_owner:
  assumes "(project_step hash)\<^sup>*\<^sup>* (empty_projects users) db"
  shows "(\<forall>p\<in>set (projects db). count_primary_owners db (pj_id p) = 1)
    \<and> distinct (map member_key (ad_members db))
    \<and> (\<forall>m\<in>set (ad_members db). get_project_row db (m_project_id m) \<noteq> None)
    \<and> (\<forall>i\<in>set (invitations db). get_project_row db (i_project_id i) \<noteq> None \<and> i_role i \<in> {CONTRIBUTOR, VIEWER}
        \<and> claims (audit_events db) (i_id i) = i_use_count i \<and> i_use_count i \<le> i_max_uses i)"
proof -
  have "project_inv db" using projects.reachable_inv [OF assms empty_projects_inv] .
  then have ok: "owners_ok (map pj_id (projects db)) (ad_members db)"
    "links_ok (map pj_id (projects db)) (invitations db) (audit_events db)"
    by (simp_all add: project_inv_def)
  have one: "count_primary_owners db pid = 1 \<longleftrightarrow> primaries pid (ad_members db) = 1" for pid
    using count_primary_owners_eq [of db pid] by linarith
  have "r \<notin> set PROJECT_OWNER_ROLES \<longleftrightarrow> r \<in> {CONTRIBUTOR, VIEWER}" for r
    by (cases r) (simp_all add: PROJECT_OWNER_ROLES_def)
  with ok one show ?thesis
    by (simp add: owners_ok_def links_ok_def get_project_row_def fetch_None_iff)
qed

text \<open>The state after a request: the new one, or the old one when the request raised.\<close>

definition after :: "project_db \<Rightarrow> (project_db \<times> 'a) presult \<Rightarrow> project_db" where
  "after db r = (case r of Inl _ \<Rightarrow> db | Inr (db', _) \<Rightarrow> db')"

lemma after_Inr: "\<not> isl r \<Longrightarrow> r = Inr (after db r, snd (projr r))"
  by (cases r) (auto simp: after_def)

definition ann :: account where
  "ann = sample_account 1 ''ann''"

definition bob :: account where
  "bob = sample_account 2 ''bob''"

definition sample_created :: project_db where
  "sample_created = after (empty_projects [ann, bob]) (create_project 0 ''p'' (empty_projects [ann, bob]) ann ''Plan'' None ''private'')"

definition sample_invited :: project_db where
  "sample_invited = after sample_created (create_invitation id 1 ''i'' ''secret'' sample_created ''p'' ann ''viewer'' 1 7)"

definition sample_joined :: project_db where
  "sample_joined = after sample_invited (claim_invitation id 2 sample_invited ''secret'' bob)"

definition sample_departed :: project_db where
  "sample_departed = account_step (\<lambda>_ _. 0) (account_step (\<lambda>_ _. 0) sample_joined (Delete_User 3 1)) (Purge_User 4 2 1)"

lemma sample_run: "(project_step id)\<^sup>*\<^sup>* (empty_projects [ann, bob]) sample_joined"
proof -
  have c: "project_step id (empty_projects [ann, bob]) sample_created"
    unfolding sample_created_def by (rule project_step.Create [OF _ _ after_Inr]) code_simp+
  have i: "project_step id sample_created sample_invited"
    unfolding sample_invited_def by (rule project_step.Invite [OF _ _ _ _ after_Inr]) code_simp+
  have j: "project_step id sample_invited sample_joined"
    unfolding sample_joined_def by (rule project_step.Claim [OF _ after_Inr]) code_simp+
  from c i j show ?thesis by (rule converse_rtranclp_into_rtranclp [OF _ converse_rtranclp_into_rtranclp [OF _ r_into_rtranclp]])
qed

theorem one_primary_owner_witness:
  "(project_step id)\<^sup>*\<^sup>* (empty_projects [ann, bob]) sample_departed
    \<and> map m_role (ad_members sample_departed) = [OWNER, PRIMARY_OWNER]
    \<and> list_all (\<lambda>p. count_primary_owners sample_departed (pj_id p) = 1) (projects sample_departed)"
proof -
  have "(project_step id)\<^sup>*\<^sup>* sample_joined sample_departed"
    unfolding sample_departed_def
    by (rule converse_rtranclp_into_rtranclp [OF _ r_into_rtranclp]) (rule project_step.Account)+
  with sample_run have run: "(project_step id)\<^sup>*\<^sup>* (empty_projects [ann, bob]) sample_departed" by (rule rtranclp_trans)
  moreover have "map m_role (ad_members sample_departed) = [OWNER, PRIMARY_OWNER]" by code_simp
  ultimately show ?thesis using one_primary_owner [OF run] by (simp add: list_all_iff)
qed

end
