(* ===== verification/Project_Rules.thy ===== *)
theory Project_Rules
  imports Project_System
begin

text \<open>
  What single project requests guarantee: who may change a role, what a hidden project shows to
  outsiders, that a deletion can be taken back, that a project becomes public only after its name
  was repeated, and the cases where the code leaves its own intentions: a purge that leaves a
  project without anybody who may delete it, a role text that ends in the server's error, a role
  change that does not raise the access version.
\<close>

section \<open>Roles after a request\<close>

definition role_in :: "project_db \<Rightarrow> string \<Rightarrow> int \<Rightarrow> project_role option" where
  "role_in db pid uid = map_option m_role (get_member db pid uid)"

lemma role_in_rows [simp]:
  "role_in (append_project_audit now pid t a pl db) = role_in db"
  "role_in (update_project_row pid f db) = role_in db"
  by (simp_all add: role_in_def get_member_def fun_eq_iff)

lemma role_in_set:
  "role_in (set_member_role now pid uid r db) q v = (if (q, v) = (pid, uid) then map_option (\<lambda>_. r) (role_in db q v) else role_in db q v)"
  by (auto simp: role_in_def get_member_def set_member_role_def fetch_modify option.map_comp o_def)

lemma role_in_add:
  "get_member db pid uid = None \<Longrightarrow>
     role_in (add_member_row now pid uid r i db) q v = (if (q, v) = (pid, uid) then Some r else role_in db q v)"
  by (auto simp: role_in_def get_member_def add_member_row_def fetch_append member_key_def split: option.splits)

lemma role_in_remove: "role_in (remove_member_row pid uid db) q v = (if (q, v) = (pid, uid) then None else role_in db q v)"
  by (simp add: role_in_def get_member_def remove_member_row_def fetch_filter_key)

section \<open>Who may change roles\<close>

lemma capability_role:
  assumes "require_capability db pid user c = Inr access" and "c \<notin> PUBLIC_VIEWER_CAPABILITIES"
  shows "a_is_active user \<and> a_deleted_at user = None \<and> (\<exists>r. role_in db pid (a_id user) = Some r \<and> c \<in> CAPABILITIES r)"
  using assms by (auto simp: require_capability_def resolve_project_access_def can_def capabilities_def role_in_def
      split: option.splits if_splits)

lemma manage_role:
  assumes "require_capability db pid user Member_Manage = Inr access"
  shows "a_is_active user \<and> a_deleted_at user = None \<and> role_in db pid (a_id user) \<in> {Some PRIMARY_OWNER, Some OWNER}"
proof -
  have "r \<in> {PRIMARY_OWNER, OWNER}" if "Member_Manage \<in> CAPABILITIES r" for r
    using that by (cases r) (auto simp: MEMBER_READ_CAPABILITIES_def)
  then show ?thesis using capability_role [OF assms] by (auto simp: PUBLIC_VIEWER_CAPABILITIES_def)
qed

lemma primary_capability:
  assumes "require_capability db pid user c = Inr access" and "c \<in> {Project_Delete, Member_Manage_Owners}"
  shows "a_is_active user \<and> a_deleted_at user = None \<and> role_in db pid (a_id user) = Some PRIMARY_OWNER"
proof -
  have "r = PRIMARY_OWNER" if "c \<in> CAPABILITIES r" for r
    using that assms(2) by (cases r) (auto simp: MEMBER_READ_CAPABILITIES_def OWNER_CAPABILITIES_def)
  then show ?thesis using capability_role [OF assms(1)] assms(2) by (auto simp: PUBLIC_VIEWER_CAPABILITIES_def)
qed

lemma mutation_owner:
  assumes "require_member_role_mutation db pid user target r = Inr x"
    and "r = Some OWNER \<or> (\<exists>m. target = Some m \<and> m_role m = OWNER)"
  shows "role_in db pid (a_id user) = Some PRIMARY_OWNER"
proof -
  have "\<exists>access. require_capability db pid user Member_Manage_Owners = Inr access"
    using assms by (auto simp: require_member_role_mutation_def is_project_owner_role_def PROJECT_OWNER_ROLES_def split: if_splits sum.splits)
  then show ?thesis using primary_capability by fastforce
qed

text \<open>What a successful change of one membership has passed.\<close>

definition change_allowed :: "project_db \<Rightarrow> string \<Rightarrow> account \<Rightarrow> int \<Rightarrow> project_role option \<Rightarrow> bool" where
  "change_allowed db pid user uid r \<longleftrightarrow>
     a_is_active user \<and> a_deleted_at user = None \<and> role_in db pid (a_id user) \<in> {Some PRIMARY_OWNER, Some OWNER} \<and>
     r \<noteq> Some PRIMARY_OWNER \<and> role_in db pid uid \<noteq> Some PRIMARY_OWNER \<and>
     (r = Some OWNER \<or> role_in db pid uid = Some OWNER \<longrightarrow> role_in db pid (a_id user) = Some PRIMARY_OWNER)"

lemma change_allowed:
  assumes "require_capability db pid user Member_Manage = Inr access"
    and "require_member_role_mutation db pid user (get_member db pid uid) r = Inr x"
  shows "change_allowed db pid user uid r"
proof -
  have "role_in db pid uid \<noteq> Some PRIMARY_OWNER" using mutation_guard(2) [OF assms(2)] by (auto simp: role_in_def)
  moreover have "role_in db pid (a_id user) = Some PRIMARY_OWNER" if "r = Some OWNER \<or> role_in db pid uid = Some OWNER"
    using that by (intro mutation_owner [OF assms(2)]) (auto simp: role_in_def)
  ultimately show ?thesis
    using manage_role [OF assms(1)] mutation_guard(1) [OF assms(2)] by (simp add: change_allowed_def)
qed

lemma add_effect:
  assumes "add_member now db pid user uid role = Inr (db', r)"
  shows "change_allowed db pid user uid (Some r) \<and> role_in db' = (role_in db)(pid := (role_in db pid)(uid := Some r))"
  using assms
  by (auto simp: add_member_def Let_def fun_eq_iff role_in_set role_in_add split: sum.splits option.splits if_splits
      dest!: change_allowed) (auto simp: role_in_def)

lemma update_effect:
  assumes "update_member_role now db pid user uid role = Inr (db', r)"
  shows "(r = None \<and> db' = db) \<or>
    (r \<noteq> None \<and> change_allowed db pid user uid r \<and> role_in db' = (role_in db)(pid := (role_in db pid)(uid := r)))"
proof (cases "get_member db pid uid")
  case None
  with assms show ?thesis by (auto simp: update_member_role_def split: sum.splits)
next
  case (Some m)
  from assms Some obtain access where "require_capability db pid user Member_Manage = Inr access"
    and x: "require_member_role_mutation db pid user (get_member db pid uid) r = Inr ()" and "r \<noteq> None"
    and db': "role_in db' = role_in (set_member_role now pid uid (the r) db)"
    by (auto simp: update_member_role_def split: sum.splits)
  then have "change_allowed db pid user uid r" using change_allowed by blast
  moreover have "role_in db' = (role_in db)(pid := (role_in db pid)(uid := r))"
    using Some \<open>r \<noteq> None\<close> by (auto simp: db' fun_eq_iff role_in_set) (auto simp: role_in_def)
  ultimately show ?thesis using \<open>r \<noteq> None\<close> by blast
qed

lemma remove_effect:
  assumes "remove_member now db pid user uid = Inr (db', r)"
  shows "(\<not> r \<and> db' = db) \<or> (change_allowed db pid user uid None \<and> role_in db' = (role_in db)(pid := (role_in db pid)(uid := None)))"
proof (cases "get_member db pid uid")
  case None
  with assms show ?thesis by (auto simp: remove_member_def split: sum.splits)
next
  case (Some m)
  from assms Some obtain access where "require_capability db pid user Member_Manage = Inr access"
    and "require_member_role_mutation db pid user (get_member db pid uid) None = Inr ()"
    and db': "role_in db' = role_in (remove_member_row pid uid db)"
    by (auto simp: remove_member_def split: sum.splits)
  then have "change_allowed db pid user uid None" using change_allowed by blast
  moreover have "role_in db' = (role_in db)(pid := (role_in db pid)(uid := None))"
    by (auto simp: db' fun_eq_iff role_in_remove)
  ultimately show ?thesis by blast
qed

text \<open>
  C26: a request that adds, changes or removes a member changes at most the role of its
  target in its project. The caller is then an active Owner or Primary Owner of it; the role given
  is one that the caller's role may assign; a Primary Owner is never changed; and making, changing
  or removing an Owner takes the Primary Owner.
\<close>

theorem owner_role_needs_primary:
  assumes "add_member now db pid user uid role = Inr (db', r1) \<or> update_member_role now db pid user uid role = Inr (db', r2)
      \<or> remove_member now db pid user uid = Inr (db', r3)"
    and "role_in db' q v \<noteq> role_in db q v"
  shows "q = pid \<and> v = uid \<and> a_is_active user \<and> a_deleted_at user = None
    \<and> role_in db pid (a_id user) \<in> {Some PRIMARY_OWNER, Some OWNER}
    \<and> (case role_in db' pid uid of None \<Rightarrow> True | Some r \<Rightarrow> r \<in> assignable_roles_for (role_in db pid (a_id user)))
    \<and> role_in db pid uid \<noteq> Some PRIMARY_OWNER
    \<and> (role_in db pid uid = Some OWNER \<longrightarrow> role_in db pid (a_id user) = Some PRIMARY_OWNER)"
proof -
  obtain r where ok: "change_allowed db pid user uid r" and eq: "role_in db' = (role_in db)(pid := (role_in db pid)(uid := r))"
    using assms add_effect update_effect remove_effect by metis
  have "q = pid \<and> v = uid" using assms(2) eq by (auto split: if_splits)
  moreover have "x \<in> assignable_roles_for (role_in db pid (a_id user))" if "r = Some x" for x
    using that ok by (cases x) (auto simp: change_allowed_def assignable_roles_for_def)
  ultimately show ?thesis using ok eq by (auto simp: change_allowed_def split: option.split)
qed

text \<open>Ann makes Bob, a viewer of her project, an Owner of it.\<close>

theorem owner_role_needs_primary_witness:
  "let db' = after sample_joined (update_member_role 5 sample_joined ''p'' ann 2 ''owner'')
   in role_in sample_joined ''p'' 2 = Some VIEWER \<and> role_in db' ''p'' 2 = Some OWNER \<and>
      role_in sample_joined ''p'' (a_id ann) \<in> {Some PRIMARY_OWNER, Some OWNER}"
proof -
  let ?r = "update_member_role 5 sample_joined ''p'' ann 2 ''owner''"
  have "\<not> isl ?r" by code_simp
  from after_Inr [OF this, of sample_joined] have r: "?r = Inr (after sample_joined ?r, snd (projr ?r))" .
  have c: "role_in sample_joined ''p'' 2 = Some VIEWER" "role_in (after sample_joined ?r) ''p'' 2 = Some OWNER" by code_simp+
  then have "role_in (after sample_joined ?r) ''p'' 2 \<noteq> role_in sample_joined ''p'' 2" by simp
  from owner_role_needs_primary [OF disjI2 [OF disjI1 [OF r]] this] c show ?thesis by (simp add: Let_def)
qed

section \<open>Hidden projects\<close>

text \<open>A user without a membership, and a project that is private, archived or pending deletion.\<close>

definition hidden_from :: "project_db \<Rightarrow> string \<Rightarrow> account \<Rightarrow> bool" where
  "hidden_from db pid user \<longleftrightarrow> get_member db pid (a_id user) = None \<and>
     (case get_project_row db pid of None \<Rightarrow> True
      | Some p \<Rightarrow> pj_visibility p = VISIBILITY_PRIVATE \<or> pj_status p \<noteq> STATUS_ACTIVE)"

lemma hidden_access: "hidden_from db pid user \<Longrightarrow> resolve_project_access db pid (Some user) = None"
  by (auto simp: hidden_from_def resolve_project_access_def split: option.splits)

lemma hidden_capability: "hidden_from db pid user \<Longrightarrow> require_capability db pid user c = Inl (Http_Error 404 ''Project not found'')"
  by (simp add: require_capability_def hidden_access)

lemma joined_member: "joined_project db user p \<longleftrightarrow> get_member db (pj_id p) (a_id user) \<noteq> None"
  by (force simp: joined_project_def get_member_def fetch_None_iff list_ex_iff member_key_def)

lemma page_subset: "set (page limit offset rows) \<subseteq> set rows"
  by (auto simp: page_def dest!: in_set_takeD in_set_dropD)



definition public_viewer :: "project_db \<Rightarrow> account \<Rightarrow> project \<Rightarrow> bool" where
  "public_viewer db user p \<longleftrightarrow>
     (case resolve_project_access db (pj_id p) (Some user) of None \<Rightarrow> False | Some access \<Rightarrow> acc_is_public_viewer access)"

definition search_match :: "string option \<Rightarrow> project \<Rightarrow> bool" where
  "search_match q p \<longleftrightarrow>
     (case q of None \<Rightarrow> True
      | Some t \<Rightarrow> t = [] \<or> ilike (Some (pj_name p)) (search_pattern t) \<or> ilike (pj_description p) (search_pattern t))"

text \<open>
  The total that the exploration of public projects reports counts exactly the projects
  that match the search and to which the access resolution gives the caller the rights of a public
  viewer; every project of the page is such a one.
\<close>

theorem explore_agrees:
  assumes "a_is_active user" and "a_deleted_at user = None" and "distinct (map pj_id (projects db))"
  shows "snd (list_public_projects db user limit offset q)
      = int (length (filter (\<lambda>p. public_viewer db user p \<and> search_match q p) (projects db)))
    \<and> (\<forall>(p, role, member)\<in>set (fst (list_public_projects db user limit offset q)).
         p \<in> set (projects db) \<and> public_viewer db user p \<and> search_match q p \<and> role = Some VIEWER \<and> \<not> member)"
proof -
  have iff: "explore_match db user q p \<longleftrightarrow> public_viewer db user p \<and> search_match q p" if "p \<in> set (projects db)" for p
  proof -
    have "get_project_row db (pj_id p) = Some p" using that assms(3) by (simp add: get_project_row_def fetch_distinct)
    then have "public_viewer db user p \<longleftrightarrow> pj_visibility p = VISIBILITY_PUBLIC \<and> pj_status p = STATUS_ACTIVE \<and> \<not> joined_project db user p"
      using assms(1,2) by (cases "get_member db (pj_id p) (a_id user)") (simp_all add: public_viewer_def joined_member resolve_project_access_def)
    then show ?thesis by (simp add: explore_match_def search_match_def)
  qed
  have eq: "filter (explore_match db user q) (projects db) = filter (\<lambda>p. public_viewer db user p \<and> search_match q p) (projects db)"
    using iff by (intro filter_cong) simp_all
  have listed: "p \<in> set (projects db) \<and> public_viewer db user p \<and> search_match q p"
    if "p \<in> set (page limit offset (filter (\<lambda>p. public_viewer db user p \<and> search_match q p) (projects db)))" for p
    using subsetD [OF page_subset that] by simp
  show ?thesis unfolding list_public_projects_def Let_def eq fst_conv snd_conv
  proof (intro conjI refl ballI)
    fix x
    assume "x \<in> set (map (\<lambda>p. (p, Some VIEWER, False)) (page limit offset (filter (\<lambda>p. public_viewer db user p \<and> search_match q p) (projects db))))"
    then obtain p where "x = (p, Some VIEWER, False)" "p \<in> set (page limit offset (filter (\<lambda>p. public_viewer db user p \<and> search_match q p) (projects db)))"
      unfolding set_map by blast
    then show "case x of (p, role, member) \<Rightarrow>
        p \<in> set (projects db) \<and> public_viewer db user p \<and> search_match q p \<and> role = Some VIEWER \<and> \<not> member"
      using listed [of p] by (simp only: prod.case simp_thms)
  qed
qed

definition sample_public :: project_db where
  "sample_public = after sample_created (update_project 3 sample_created ''p'' ann None None (Some ''public'') (Some ''Plan''))"

theorem explore_agrees_witness:
  "snd (list_public_projects sample_public bob 10 0 (Some ''la'')) = 1 \<and>
   (\<forall>p\<in>set (projects sample_public). public_viewer sample_public bob p)"
proof -
  have h: "a_is_active bob" "a_deleted_at bob = None" "distinct (map pj_id (projects sample_public))" by code_simp+
  have one: "snd (list_public_projects sample_public bob 10 0 (Some ''la'')) = 1" by code_simp
  have "length (projects sample_public) = 1" by code_simp
  then obtain p where "projects sample_public = [p]" by (auto simp: length_Suc_conv)
  with one explore_agrees [OF h, where q = "Some ''la''" and limit = 10 and offset = 0] show ?thesis by (simp split: if_splits)
qed

section \<open>Deletion, restoration, publication\<close>

lemma newest_last:
  "(\<And>x. x \<in> set es \<Longrightarrow> e_created_at x \<le> e_created_at e) \<Longrightarrow> (\<And>b. best = Some b \<Longrightarrow> e_created_at b \<le> e_created_at e) \<Longrightarrow>
     newest best (es @ [e]) = Some e"
  by (induction best es rule: newest.induct) (auto split: option.splits)

lemma capability_row:
  assumes "get_project_row db' pid = Some p'" and "get_project_row db pid = Some p" and "get_member db' pid (a_id user) = get_member db pid (a_id user)"
    and "get_member db pid (a_id user) \<noteq> None"
  shows "require_capability db' pid user c = require_capability db pid user c"
  using assms by (auto simp: require_capability_def resolve_project_access_def split: option.splits)

lemma get_row_update:
  "(\<And>p. pj_id p = pid \<Longrightarrow> pj_id (f p) = pid) \<Longrightarrow> get_project_row (update_project_row pid f db) pid = map_option f (get_project_row db pid)"
  by (simp add: get_project_row_def update_project_row_def fetch_modify)

lemma row_reads [simp]:
  "get_project_row (append_project_audit now pid t a pl db) q = get_project_row db q"
  "get_member (append_project_audit now pid t a pl db) = get_member db" "get_member (update_project_row pid f db) = get_member db"
  by (simp_all add: get_project_row_def get_member_def fun_eq_iff)

text \<open>
  The Primary Owner who moves a project to the bin can take it back: the restored row is
  the one before, archived if it was archived, with the same members and links (the earlier
  deletions of the same project, if any, being older).
\<close>

theorem restore_returns_status:
  assumes "delete_project now db pid user = Inr (db1, True)" and "get_project_row db pid = Some p" and "pj_status p \<noteq> STATUS_DELETION_PENDING"
    and "\<forall>e\<in>set (deletion_events db pid). e_created_at e < now"
  shows "\<exists>db2 view. restore_project later db1 pid user = Inr (db2, Some view)
    \<and> get_project_row db2 pid
        = Some (p\<lparr>pj_updated_at := later, pj_archived_at := (if pj_status p = STATUS_ARCHIVED then pj_archived_at p else None)\<rparr>)
    \<and> ad_members db2 = ad_members db \<and> invitations db2 = invitations db \<and> ad_sessions db2 = ad_sessions db"
proof -
  from assms(1-3) obtain access where cap: "require_capability db pid user Project_Delete = Inr access"
    and db1: "db1 = append_project_audit now pid ''project.deleted'' (a_id user) [(''previous_status'', JString (status_text (pj_status p)))]
      (update_project_row pid (\<lambda>p. p\<lparr>pj_status := STATUS_DELETION_PENDING, pj_updated_at := now\<rparr>) db)"
    by (auto simp: delete_project_def split: sum.splits)
  have p1: "get_project_row db1 pid = Some (p\<lparr>pj_status := STATUS_DELETION_PENDING, pj_updated_at := now\<rparr>)"
    using assms(2) by (simp add: db1 get_row_update)
  have cap1: "require_capability db1 pid user Project_Delete = Inr access"
    using capability_row [OF p1 assms(2), of user Project_Delete] primary_capability [OF cap] cap by (auto simp: db1 role_in_def)
  have events: "deletion_events db1 pid = deletion_events db pid @
      [\<lparr>e_project_id = Some pid, e_event_type = ''project.deleted'', e_actor_user_id = Some (a_id user),
        e_payload_json = [(''previous_status'', JString (status_text (pj_status p)))], e_created_at = now\<rparr>]"
    by (simp add: deletion_events_def db1 append_project_audit_def)
  have "newest None (deletion_events db1 pid) = Some (last (deletion_events db1 pid))"
    unfolding events last_snoc using assms(4) by (intro newest_last) (auto simp: less_imp_le)
  then have status: "status_before_deletion db1 pid = pj_status p"
    using assms(3) by (cases "pj_status p") (simp_all add: status_before_deletion_def events dict_get_def status_text_def)
  have key: "pj_id p = pid" using assms(2) fetch_key by (auto simp: get_project_row_def)
  show ?thesis
    using p1 assms(3) key
    by (simp add: restore_project_def cap1 status get_row_update Let_def) (simp add: db1 append_project_audit_def update_project_row_def)
qed

theorem restore_returns_status_witness:
  "\<exists>db1 db2 view. delete_project 4 sample_joined ''p'' ann = Inr (db1, True)
    \<and> restore_project 5 db1 ''p'' ann = Inr (db2, Some view) \<and> ad_members db2 = ad_members sample_joined"
proof -
  let ?r = "delete_project 4 sample_joined ''p'' ann"
  have "case ?r of Inl _ \<Rightarrow> False | Inr (_, ok) \<Rightarrow> ok" by code_simp
  then obtain db1 where r: "?r = Inr (db1, True)" by (cases ?r) auto
  have "case get_project_row sample_joined ''p'' of None \<Rightarrow> False | Some p \<Rightarrow> pj_status p \<noteq> STATUS_DELETION_PENDING" by code_simp
  then obtain p where p: "get_project_row sample_joined ''p'' = Some p" "pj_status p \<noteq> STATUS_DELETION_PENDING" by (auto split: option.splits)
  have "deletion_events sample_joined ''p'' = []" by code_simp
  then show ?thesis using restore_returns_status [OF r p, of 5] r by auto
qed

lemma edit_role:
  assumes "require_capability db pid user Project_Edit = Inr access"
  shows "a_is_active user \<and> a_deleted_at user = None \<and> role_in db pid (a_id user) \<in> {Some PRIMARY_OWNER, Some OWNER}"
proof -
  have "r \<in> {PRIMARY_OWNER, OWNER}" if "Project_Edit \<in> CAPABILITIES r" for r
    using that by (cases r) (auto simp: MEMBER_READ_CAPABILITIES_def)
  then show ?thesis using capability_role [OF assms] by (auto simp: PUBLIC_VIEWER_CAPABILITIES_def)
qed

text \<open>The event that a publication writes.\<close>

definition publication :: "time \<Rightarrow> string \<Rightarrow> int \<Rightarrow> project_audit_event \<Rightarrow> bool" where
  "publication now pid actor e \<longleftrightarrow> e_event_type e = ''project.visibility.public'' \<and> e_project_id e = Some pid \<and>
     e_actor_user_id e = Some actor \<and> e_created_at e = now"

lemma publication_written: "list_ex (publication now pid a) (audit_events
    (append_project_audit now pid t a c (append_project_audit now pid ''project.visibility.public'' a pl db)))"
  by (simp add: append_project_audit_def publication_def)

lemma get_row_put: "get_project_row db pid = Some p \<Longrightarrow> pj_id p' = pj_id p \<Longrightarrow> get_project_row (update_project_row pid (\<lambda>_. p') db) pid = Some p'"
  by (subst get_row_update) (auto simp: get_project_row_def dest: fetch_key)

lemma update_publishes:
  assumes "update_project now db pid user name description visibility confirm = Inr (db', view)" and "get_project_row db pid = Some p"
    and "get_project_row db' pid = Some p'" and "pj_visibility p = VISIBILITY_PRIVATE" and "pj_visibility p' = VISIBILITY_PUBLIC"
  shows "pj_acl_version p < pj_acl_version p' \<and> list_ex (publication now pid (a_id user)) (audit_events db') \<and> visibility = Some ''public''
    \<and> public_confirmed p visibility confirm \<and> (\<exists>access. require_capability db pid user Project_Edit = Inr access)"
  using assms(1,3,5) unfolding update_project_def
  by (auto simp: assms(2,4) Let_def get_row_put [OF assms(2)] publication_written visibility_text_def
      dest!: edit_keeps edit_visibility_effect split: sum.splits option.splits if_splits)

text \<open>
  A private project becomes public only by the request of an active Owner or Primary
  Owner who repeated its name; the access version grows and the audit trail names the publisher.
\<close>

theorem public_needs_confirmation:
  assumes "update_project now db pid user name description visibility confirm = Inr (db', view)" and "get_project_row db pid = Some p"
    and "get_project_row db' pid = Some p'" and "pj_visibility p = VISIBILITY_PRIVATE" and "pj_visibility p' = VISIBILITY_PUBLIC"
  shows "a_is_active user \<and> a_deleted_at user = None \<and> role_in db pid (a_id user) \<in> {Some PRIMARY_OWNER, Some OWNER}
    \<and> strip (case confirm of None \<Rightarrow> [] | Some c \<Rightarrow> c) = strip (pj_name p)
    \<and> pj_acl_version p < pj_acl_version p' \<and> list_ex (publication now pid (a_id user)) (audit_events db')"
  using update_publishes [OF assms] edit_role assms(4) by (auto simp: public_confirmed_def)

theorem public_needs_confirmation_witness:
  "\<exists>p p'. get_project_row sample_created ''p'' = Some p \<and> get_project_row sample_public ''p'' = Some p' \<and>
     pj_acl_version p < pj_acl_version p' \<and> list_ex (publication 3 ''p'' (a_id ann)) (audit_events sample_public)"
proof -
  let ?r = "update_project 3 sample_created ''p'' ann None None (Some ''public'') (Some ''Plan'')"
  have "\<not> isl ?r" by code_simp
  from after_Inr [OF this, of sample_created] have r: "?r = Inr (sample_public, snd (projr ?r))" by (simp add: sample_public_def)
  have "map_option pj_visibility (get_project_row sample_created ''p'') = Some VISIBILITY_PRIVATE"
    "map_option pj_visibility (get_project_row sample_public ''p'') = Some VISIBILITY_PUBLIC"
    by code_simp+
  then obtain p p' where "get_project_row sample_created ''p'' = Some p" "get_project_row sample_public ''p'' = Some p'"
    "pj_visibility p = VISIBILITY_PRIVATE" "pj_visibility p' = VISIBILITY_PUBLIC" by auto
  with public_needs_confirmation [OF r this] show ?thesis by blast
qed

section \<open>A purge that orphans a project\<close>

definition rows_in :: "string \<Rightarrow> project_member list \<Rightarrow> project_member list" where
  "rows_in pid ms = filter (\<lambda>m. m_project_id m = pid) ms"

lemma fetch_rows_in: "fetch member_key (pid, w) (rows_in pid ms) = fetch member_key (pid, w) ms"
  by (induction ms) (auto simp: rows_in_def member_key_def)

lemma rows_in_modify:
  "(\<And>m. m_project_id (f m) = m_project_id m) \<Longrightarrow>
     rows_in pid (modify member_key (q, w) f ms) = (if q = pid then modify member_key (pid, w) f (rows_in pid ms) else rows_in pid ms)"
  by (induction ms) (auto simp: rows_in_def member_key_def)

lemma assignee_rows_in: "remaining_project_assignee_id (rows_in pid ms) pid uid = remaining_project_assignee_id ms pid uid"
proof -
  have "others_with_role (rows_in pid ms) pid uid r = others_with_role ms pid uid r" for r
    by (simp add: others_with_role_def rows_in_def filter_filter conj_ac)
  moreover have "filter (\<lambda>m. m_project_id m = pid \<and> m_user_id m \<noteq> uid) (rows_in pid ms) = filter (\<lambda>m. m_project_id m = pid \<and> m_user_id m \<noteq> uid) ms"
    by (simp add: rows_in_def filter_filter conj_ac)
  ultimately show ?thesis by (simp only: remaining_project_assignee_id_def)
qed

lemma rows_in_transfer:
  "rows_in pid (transfer_one now uid ms q) = (if q = pid then transfer_one now uid (rows_in pid ms) pid else rows_in pid ms)"
  by (auto simp: transfer_one_def set_member_modify rows_in_modify assignee_rows_in split: option.split)

lemma rows_in_transfers:
  "distinct pids \<Longrightarrow> pid \<in> set pids \<Longrightarrow> rows_in pid (foldl (transfer_one now uid) ms pids) = transfer_one now uid (rows_in pid ms) pid"
proof (induction pids arbitrary: ms)
  case (Cons q pids)
  have "q \<notin> set qs \<Longrightarrow> rows_in q (foldl (transfer_one now uid) xs qs) = rows_in q xs" for qs xs
    by (induction qs arbitrary: xs) (auto simp: rows_in_transfer)
  with Cons show ?case by (auto simp: rows_in_transfer)
qed simp

lemma successor_promoted:
  assumes "owners_ok pids (ad_members db)" and "permanently_delete_user now db user = Inr db'"
    and "role_in db pid (a_id user) = Some PRIMARY_OWNER" and "remaining_project_assignee_id (ad_members db) pid (a_id user) = Some v"
  shows "role_in db' pid v = Some PRIMARY_OWNER"
proof -
  let ?ms = "ad_members db" and ?uid = "a_id user"
  let ?own = "filter (\<lambda>m. m_user_id m = ?uid \<and> m_role m = PRIMARY_OWNER) ?ms"
  obtain m where m: "fetch member_key (pid, ?uid) ?ms = Some m" "m_role m = PRIMARY_OWNER"
    using assms(3) by (auto simp: role_in_def get_member_def)
  then have "pid \<in> set (map m_project_id ?own)" using fetch_SomeD [OF m(1)] by (force simp: member_key_def)
  moreover have "distinct (map m_project_id ?own)"
    using assms(1) by (auto simp: owners_ok_def distinct_map inj_on_def member_key_def)
  ultimately have rows: "rows_in pid (ad_members db') = transfer_one now ?uid (rows_in pid ?ms) pid"
    using rows_in_transfers [of "map m_project_id ?own" pid now ?uid ?ms]
    by (simp only: purge_chats(1) [OF assms(2)] transfer_primary_owner_if_departing_def)
  from assignee_is_member [OF assms(4)] obtain s where "v \<noteq> ?uid" "s \<in> set ?ms" "m_project_id s = pid" "m_user_id s = v" by blast
  then have "(pid, v) \<in> member_key ` set ?ms" by (auto simp: member_key_def intro!: image_eqI [of _ _ s])
  then obtain t where "fetch member_key (pid, v) ?ms = Some t" using fetch_None_iff [of member_key "(pid, v)" ?ms] by auto
  then have "map_option m_role (fetch member_key (pid, v) (rows_in pid (ad_members db'))) = Some PRIMARY_OWNER"
    using \<open>v \<noteq> ?uid\<close> assms(4)
    by (simp add: rows transfer_one_def assignee_rows_in set_member_modify fetch_modify fetch_rows_in)
  then show ?thesis by (simp add: role_in_def get_member_def fetch_rows_in)
qed

lemma sole_primary:
  assumes "owners_ok pids (ad_members db)" and "pid \<in> set pids" and "role_in db pid u = Some PRIMARY_OWNER" and "role_in db pid v = Some PRIMARY_OWNER"
  shows "u = v"
proof (rule ccontr)
  assume ne: "u \<noteq> v"
  from assms(3,4) obtain a b where a: "fetch member_key (pid, u) (ad_members db) = Some a" "m_role a = PRIMARY_OWNER"
    and b: "fetch member_key (pid, v) (ad_members db) = Some b" "m_role b = PRIMARY_OWNER"
    by (auto simp: role_in_def get_member_def)
  have "others_with_role (ad_members db) pid u PRIMARY_OWNER = []"
    using assms(1,2) a by (intro others_primary_Nil) (auto simp: owners_ok_def)
  with fetch_SomeD [OF b(1)] b(2) ne show False by (auto simp: others_with_role_def filter_empty_conv member_key_def)
qed

text \<open>
  When the Primary Owner is purged, the code promotes the first Owner, then the first
  member, without asking whether that account can sign in. If it is deactivated or in the bin,
  nobody is left who may delete, archive, restore or purge the project or manage its Owners,
  whatever active members it has.
\<close>

theorem orphaned_project:
  assumes "project_inv db" and "distinct (map a_id (ad_users db))" and "permanently_delete_user now db user = Inr db'"
    and "role_in db pid (a_id user) = Some PRIMARY_OWNER" and "remaining_project_assignee_id (ad_members db) pid (a_id user) = Some v"
    and "fetch a_id v (ad_users db) = Some successor" and "\<not> a_is_active successor \<or> a_deleted_at successor \<noteq> None"
    and "c \<in> {Project_Delete, Member_Manage_Owners}"
  shows "\<forall>u\<in>set (ad_users db'). isl (require_capability db' pid u c)"
proof (rule ballI, rule ccontr)
  fix u
  assume u: "u \<in> set (ad_users db')" and "\<not> isl (require_capability db' pid u c)"
  then obtain access where cap: "require_capability db' pid u c = Inr access" by (cases "require_capability db' pid u c") auto
  from primary_capability [OF cap assms(8)] have act: "a_is_active u" "a_deleted_at u = None"
    and pu: "role_in db' pid (a_id u) = Some PRIMARY_OWNER" by simp_all
  have ok: "owners_ok (map pj_id (projects db)) (ad_members db)" using assms(1) by (simp add: project_inv_def)
  have dep: "departures db db'" using assms(3) by (rule departures_purge)
  have pid: "pid \<in> set (map pj_id (projects db))"
    using capability_project [OF cap] departures_tables(1) [OF dep] by simp
  have pv: "role_in db' pid v = Some PRIMARY_OWNER" using successor_promoted [OF ok assms(3-5)] .
  have id: "a_id u = v" using sole_primary [OF owners_ok_departures [OF dep ok] pid pu pv] .
  have users: "ad_users db' = modify a_id (a_id user) (empty_account now) (ad_users db)"
    using assms(3) by (auto simp: permanently_delete_user_def update_account_def Let_def split: if_splits)
  have "v \<noteq> a_id user" using assignee_is_member [OF assms(5)] by simp
  then have "fetch a_id v (ad_users db') = Some successor" using assms(6) by (simp add: users fetch_modify empty_account_def)
  moreover have "distinct (map a_id (ad_users db'))" using assms(2) by (simp add: users empty_account_def)
  ultimately have "u = successor" using fetch_distinct [of a_id "ad_users db'" u] u id by simp
  with act assms(7) show False by simp
qed

text \<open>Ann owns the project, Bob is an Owner in the bin, Carol an active contributor; Ann is purged.\<close>

definition sample_staffed :: project_db where
  "sample_staffed = (empty_projects [ann, bob\<lparr>a_is_active := False, a_deleted_at := Some 1\<rparr>, sample_account 3 ''carol''])
     \<lparr>projects := [\<lparr>pj_id = ''p'', pj_name = ''Plan'', pj_description = None, pj_status = STATUS_ACTIVE,
         pj_visibility = VISIBILITY_PRIVATE, pj_created_by_user_id = Some 1, pj_revision = 1, pj_acl_version = 1,
         pj_created_at = 0, pj_updated_at = 0, pj_archived_at = None\<rparr>],
      ad_members := map (\<lambda>(u, r). \<lparr>m_project_id = ''p'', m_user_id = u, m_role = r, m_invited_by_user_id = Some 1,
         m_created_at = 0, m_updated_at = 0\<rparr>) [(1, PRIMARY_OWNER), (2, OWNER), (3, CONTRIBUTOR)]\<rparr>"

theorem orphaned_project_witness:
  "\<exists>db'. permanently_delete_user 5 sample_staffed ann = Inr db' \<and>
     (\<forall>u\<in>set (ad_users db'). isl (require_capability db' ''p'' u Project_Delete))"
proof -
  let ?b = "bob\<lparr>a_is_active := False, a_deleted_at := Some 1\<rparr>"
  have inv: "project_inv sample_staffed"
    by (simp add: project_inv_def owners_ok_def links_ok_def sample_staffed_def empty_projects_def member_key_def primary_in_def)
  have h: "distinct (map a_id (ad_users sample_staffed))" "role_in sample_staffed ''p'' (a_id ann) = Some PRIMARY_OWNER"
    "remaining_project_assignee_id (ad_members sample_staffed) ''p'' (a_id ann) = Some 2" by code_simp+
  have b: "fetch a_id 2 (ad_users sample_staffed) = Some ?b" by (simp add: sample_staffed_def empty_projects_def ann_def bob_def sample_account_def)
  have "case permanently_delete_user 5 sample_staffed ann of Inl _ \<Rightarrow> False | Inr _ \<Rightarrow> True" by code_simp
  then obtain db' where r: "permanently_delete_user 5 sample_staffed ann = Inr db'" by (auto split: sum.splits)
  from orphaned_project [OF inv h(1) r h(2,3) b, of Project_Delete] r show ?thesis by simp
qed

section \<open>Errors and versions\<close>

lemma role_errors:
  "validate_role role = Inl e \<Longrightarrow> endpoint_status e = 500"
  "require_capability db pid user c = Inl e \<Longrightarrow> endpoint_status e \<in> {403, 404}"
  "ensure_primary_owner_protected m r = Inl e \<Longrightarrow> endpoint_status e = 400"
  by (auto simp: validate_role_def require_capability_def ensure_primary_owner_protected_def split: option.splits if_splits)

lemma mutation_errors: "require_member_role_mutation db pid user target r = Inl e \<Longrightarrow> endpoint_status e \<in> {400, 403, 404}"
  by (auto simp: require_member_role_mutation_def dest: role_errors split: if_splits sum.splits)

lemma last_owner_errors: "ensure_not_last_owner db pid uid r = Inl e \<Longrightarrow> endpoint_status e = 400"
  by (auto simp: ensure_not_last_owner_def Let_def dest: role_errors split: if_splits sum.splits option.splits)

text \<open>
  A caller who may manage members and sends a role text that is none of the four gets the
  server's own error 500 from adding a member, changing a role and creating a link, and a link for
  an Owner role ends the same way; every other refusal of these requests is a 400, 403 or 404.
\<close>

theorem bad_role_is_500:
  assumes "require_capability db pid user Member_Manage = Inr access"
  shows "(case add_member now db pid user uid role of
       Inl e \<Rightarrow> endpoint_status e \<in> {400, 403, 404, 500} \<and> (endpoint_status e = 500 \<longleftrightarrow> isl (validate_role role))
     | Inr _ \<Rightarrow> \<not> isl (validate_role role))
    \<and> (case update_member_role now db pid user uid role of
         Inl e \<Rightarrow> endpoint_status e \<in> {400, 403, 404, 500} \<and> (endpoint_status e = 500 \<longleftrightarrow> isl (validate_role role))
       | Inr _ \<Rightarrow> \<not> isl (validate_role role))
    \<and> (case create_invitation hash now new_id token db pid user role max_uses ttl of
         Inl e \<Rightarrow> endpoint_status e = 500 \<and> validate_role role \<notin> {Inr CONTRIBUTOR, Inr VIEWER}
       | Inr _ \<Rightarrow> validate_role role \<in> {Inr CONTRIBUTOR, Inr VIEWER})"
proof -
  have "r \<in> {CONTRIBUTOR, VIEWER} \<longleftrightarrow> r \<notin> set PROJECT_OWNER_ROLES" for r by (cases r) (simp_all add: PROJECT_OWNER_ROLES_def)
  then have "case create_invitation hash now new_id token db pid user role max_uses ttl of
         Inl e \<Rightarrow> endpoint_status e = 500 \<and> validate_role role \<notin> {Inr CONTRIBUTOR, Inr VIEWER}
       | Inr _ \<Rightarrow> validate_role role \<in> {Inr CONTRIBUTOR, Inr VIEWER}"
    using assms role_errors(1) [of role]
    by (auto simp: create_invitation_def validate_invitation_role_def is_project_owner_role_def Let_def split: sum.split)
  moreover have "case add_member now db pid user uid role of
       Inl e \<Rightarrow> endpoint_status e \<in> {400, 403, 404, 500} \<and> (endpoint_status e = 500 \<longleftrightarrow> isl (validate_role role))
     | Inr _ \<Rightarrow> \<not> isl (validate_role role)"
    using assms by (auto simp: add_member_def Let_def split: sum.splits option.splits if_splits
        dest!: role_errors mutation_errors last_owner_errors)
  moreover have "case update_member_role now db pid user uid role of
       Inl e \<Rightarrow> endpoint_status e \<in> {400, 403, 404, 500} \<and> (endpoint_status e = 500 \<longleftrightarrow> isl (validate_role role))
     | Inr _ \<Rightarrow> \<not> isl (validate_role role)"
    using assms by (auto simp: update_member_role_def split: sum.splits option.splits
        dest!: role_errors mutation_errors last_owner_errors)
  ultimately show ?thesis by blast
qed

theorem bad_role_is_500_witness:
  "case add_member 5 sample_joined ''p'' ann 2 ''admin'' of Inl e \<Rightarrow> endpoint_status e = 500 | Inr _ \<Rightarrow> False"
proof -
  let ?c = "require_capability sample_joined ''p'' ann Member_Manage"
  have "\<not> isl ?c" by code_simp
  then obtain access where c: "?c = Inr access" by (cases ?c) auto
  have "isl (validate_role ''admin'')" by code_simp
  with bad_role_is_500 [OF c, where now = 5 and uid = 2 and role = "''admin''"] show ?thesis by (auto split: sum.splits)
qed

text \<open>
  Adding a user who is already a member changes the role exactly as the role request does, yet
  leaves the access version of the project as it was, while the role request raises it.
\<close>

theorem readd_keeps_acl_version:
  assumes "add_member now db pid user uid role = Inr (db', r)" and "get_member db pid uid = Some m"
  shows "get_project_row db' pid = get_project_row db pid
    \<and> (\<exists>db''. update_member_role now db pid user uid role = Inr (db'', Some r) \<and> role_in db'' = role_in db'
        \<and> get_project_row db'' pid = map_option (bump_acl_version now) (get_project_row db pid))"
proof -
  have same: "ensure_not_last_owner db pid uid (Some (m_role m)) = Inr ()" if "m_role m \<noteq> PRIMARY_OWNER"
    using that assms(2) by (auto simp: ensure_not_last_owner_def ensure_primary_owner_protected_def is_primary_owner_role_def)
  have frame: "get_project_row (set_member_role now pid uid r db) pid = get_project_row db pid" by (simp add: get_project_row_def)
  have keep: "role_in (set_member_role now pid uid r db) = role_in db" if "m_role m = r"
    using that assms(2) by (auto simp: fun_eq_iff role_in_set) (simp add: role_in_def)
  from assms obtain access where 1: "require_capability db pid user Member_Manage = Inr access" "validate_role role = Inr r"
    and 2: "require_member_role_mutation db pid user (Some m) (Some r) = Inr ()"
    and 3: "m_role m \<noteq> r \<Longrightarrow> ensure_not_last_owner db pid uid (Some r) = Inr ()"
    and 4: "role_in db' = role_in (if m_role m = r then db else set_member_role now pid uid r db)"
      "get_project_row db' pid = get_project_row db pid"
    by (auto simp: add_member_def Let_def frame split: sum.splits option.splits if_splits)
  have "ensure_not_last_owner db pid uid (Some r) = Inr ()" using 3 same mutation_guard(2) [OF 2] by blast
  with 1 2 4 keep frame assms(2) show ?thesis by (simp add: update_member_role_def get_row_update)
qed

theorem readd_keeps_acl_version_witness:
  "let db' = after sample_joined (add_member 5 sample_joined ''p'' ann 2 ''contributor'')
   in role_in db' ''p'' 2 = Some CONTRIBUTOR \<and> get_project_row db' ''p'' = get_project_row sample_joined ''p''"
proof -
  let ?r = "add_member 5 sample_joined ''p'' ann 2 ''contributor''"
  have "\<not> isl ?r" by code_simp
  from after_Inr [OF this, of sample_joined] have r: "?r = Inr (after sample_joined ?r, snd (projr ?r))" .
  have "get_member sample_joined ''p'' 2 \<noteq> None" by code_simp
  then obtain m where "get_member sample_joined ''p'' 2 = Some m" by blast
  from readd_keeps_acl_version [OF r this] have "get_project_row (after sample_joined ?r) ''p'' = get_project_row sample_joined ''p''" by blast
  moreover have "role_in (after sample_joined ?r) ''p'' 2 = Some CONTRIBUTOR" by code_simp
  ultimately show ?thesis unfolding Let_def by blast
qed

end
