(* ===== verification/Resource_Access.thy ===== *)
theory Resource_Access
  imports Accounts Json
begin

text \<open>
  Deny-first access rules of Agents, Knowledge Bases and documents
  (\<open>services/resource_access_service.py\<close>): who a request acts for, which rules address that
  subject, the decision, its bulk forms, and the saving of rules.

  A frozenset is a list read by membership. Text is ASCII, on which \<open>casefold\<close> is \<open>lower\<close>.
\<close>

section \<open>Rows and subjects\<close>

record acl_assignment =
  aa_resource_id :: string
  aa_user_id :: "int option"
  aa_group_id :: "int option"
  aa_department :: "string option"
  aa_role_slug :: "string option"
  aa_effect :: string
  aa_assigned_by_user_id :: "int option"
  aa_assigned_at :: time

record agent_row =
  ar_id :: string
  ar_access_type :: string
  ar_acl_version :: int

record knowledge_base_row =
  kr_id :: string
  kr_status :: string
  kr_access_type :: string
  kr_acl_version :: int

record document_row =
  dr_id :: string
  dr_knowledge_base_id :: string
  dr_title :: string
  dr_status :: string
  dr_acl_version :: int
  dr_revoked_at :: "time option"
  dr_deleted_at :: "time option"

record chat_tool_policy =
  tp_tool_key :: string
  tp_access_type :: string
  tp_acl_version :: int
  tp_updated_at :: "time option"
  tp_updated_by_user_id :: "int option"

record acl_db = account_db +
  rd_key_owners :: "(int \<times> int option) list"
  rd_groups :: "int list"
  rd_agents :: "agent_row list"
  rd_knowledge_bases :: "knowledge_base_row list"
  rd_documents :: "document_row list"
  rd_tool_policies :: "chat_tool_policy list"
  rd_agent_access :: "acl_assignment list"
  rd_kb_access :: "acl_assignment list"
  rd_document_access :: "acl_assignment list"
  rd_tool_access :: "acl_assignment list"

record acl_subject =
  su_user_id :: "int option"
  su_group_ids :: "int list"
  su_department :: "string option"
  su_role_slugs :: "string list"
  su_active :: bool
  su_public_only :: bool
  su_break_glass :: bool

definition ACCESS_PUBLIC :: string where
  "ACCESS_PUBLIC = ''public''"

definition ACCESS_PRIVATE :: string where
  "ACCESS_PRIVATE = ''private''"

definition EFFECT_ALLOW :: string where
  "EFFECT_ALLOW = ''allow''"

definition EFFECT_DENY :: string where
  "EFFECT_DENY = ''deny''"

definition user_token :: "int \<Rightarrow> string" where
  "user_token i = ''user:'' @ show_int i"

definition group_token :: "int \<Rightarrow> string" where
  "group_token i = ''group:'' @ show_int i"

definition department_token :: "string \<Rightarrow> string" where
  "department_token d = ''department:'' @ d"

definition role_token :: "string \<Rightarrow> string" where
  "role_token s = ''role:'' @ s"

definition principal_tokens :: "acl_subject \<Rightarrow> string list" where
  "principal_tokens subject =
     (case su_user_id subject of None \<Rightarrow> [] | Some i \<Rightarrow> [user_token i]) @
     map group_token (su_group_ids subject) @
     (if truthy (su_department subject) then [department_token (the (su_department subject))] else []) @
     map role_token (su_role_slugs subject)"

definition normalize_text :: "string option \<Rightarrow> string option" where
  "normalize_text v =
     (case v of
        None \<Rightarrow> None
      | Some s \<Rightarrow> let normalized = lower (split_join (strip s)) in if normalized = [] then None else Some normalized)"

definition public_subject :: acl_subject where
  "public_subject =
     \<lparr>su_user_id = None, su_group_ids = [], su_department = None, su_role_slugs = [], su_active = True,
      su_public_only = True, su_break_glass = False\<rparr>"

definition resolve_resource_access_subject ::
  "'x acl_db_scheme \<Rightarrow> int option \<Rightarrow> int option \<Rightarrow> string option \<Rightarrow> bool \<Rightarrow> acl_subject" where
  "resolve_resource_access_subject db user_id key_id source break_glass =
     (if source = Some ''master'' then public_subject
      else
        (case (case key_id of
                 None \<Rightarrow> user_id
               | Some k \<Rightarrow> (case map_of (rd_key_owners db) k of Some (Some i) \<Rightarrow> Some i | _ \<Rightarrow> None)) of
           None \<Rightarrow> public_subject
         | Some uid \<Rightarrow>
             (case fetch a_id uid (ad_users db) of
                None \<Rightarrow> public_subject\<lparr>su_user_id := Some uid, su_active := False, su_public_only := False\<rparr>
              | Some user \<Rightarrow>
                  if a_deleted_at user \<noteq> None \<or> \<not> a_is_active user
                  then public_subject\<lparr>su_user_id := Some uid, su_active := False, su_public_only := False\<rparr>
                  else
                    let role_slugs = concat (map (\<lambda>slug. case normalize_text (Some slug) of None \<Rightarrow> [] | Some n \<Rightarrow> [n])
                                               (get_user_role_slugs db uid))
                    in \<lparr>su_user_id = Some uid,
                        su_group_ids = map snd (filter (\<lambda>(u, _). u = uid) (ad_groups db)),
                        su_department = normalize_text (a_department user),
                        su_role_slugs = role_slugs,
                        su_active = True, su_public_only = False,
                        su_break_glass = (break_glass \<and> user_has_super_admin_access role_slugs)\<rparr>)))"

section \<open>The decision\<close>

definition assignment_token :: "acl_assignment \<Rightarrow> string option" where
  "assignment_token a =
     (case aa_user_id a of
        Some i \<Rightarrow> Some (user_token i)
      | None \<Rightarrow>
          (case aa_group_id a of
             Some i \<Rightarrow> Some (group_token i)
           | None \<Rightarrow>
               (case normalize_text (aa_department a) of
                  Some d \<Rightarrow> Some (department_token d)
                | None \<Rightarrow> map_option role_token (normalize_text (aa_role_slug a)))))"

definition assignment_matches :: "acl_assignment \<Rightarrow> acl_subject \<Rightarrow> bool" where
  "assignment_matches a subject =
     (case assignment_token a of None \<Rightarrow> False | Some token \<Rightarrow> token \<in> set (principal_tokens subject))"

definition effect_of :: "acl_assignment \<Rightarrow> string" where
  "effect_of a = lower (if aa_effect a = [] then EFFECT_ALLOW else aa_effect a)"

definition evaluate_access :: "string \<Rightarrow> acl_assignment list \<Rightarrow> acl_subject \<Rightarrow> bool" where
  "evaluate_access access_type assignments subject =
     (if \<not> su_active subject then False
      else if su_break_glass subject then True
      else
        let matched = filter (\<lambda>a. assignment_matches a subject) assignments;
            normalized_access = lower (strip (if access_type = [] then ACCESS_PRIVATE else access_type))
        in if list_ex (\<lambda>a. effect_of a = EFFECT_DENY) matched then False
           else if normalized_access = ACCESS_PUBLIC then True
           else if su_public_only subject \<or> su_user_id subject = None then False
           else list_ex (\<lambda>a. effect_of a = EFFECT_ALLOW) matched)"

definition rows_for :: "string \<Rightarrow> acl_assignment list \<Rightarrow> acl_assignment list" where
  "rows_for rid rows = filter (\<lambda>a. aa_resource_id a = rid) rows"

definition user_can_access_agent :: "'x acl_db_scheme \<Rightarrow> agent_row \<Rightarrow> acl_subject \<Rightarrow> bool" where
  "user_can_access_agent db agent subject =
     evaluate_access (ar_access_type agent) (rows_for (ar_id agent) (rd_agent_access db)) subject"

text \<open>The dictionary that starts with the requested ids and collects the rows of one query.\<close>

definition group_rows :: "string list \<Rightarrow> acl_assignment list \<Rightarrow> string \<Rightarrow> acl_assignment list option" where
  "group_rows ids rows =
     foldl (\<lambda>d a. d(aa_resource_id a \<mapsto> (case d (aa_resource_id a) of None \<Rightarrow> [] | Some xs \<Rightarrow> xs) @ [a]))
       (\<lambda>k. if k \<in> set ids then Some [] else None) rows"

definition get_rows :: "(string \<Rightarrow> acl_assignment list option) \<Rightarrow> string \<Rightarrow> acl_assignment list" where
  "get_rows d k = (case d k of None \<Rightarrow> [] | Some xs \<Rightarrow> xs)"

definition filter_agents_for_subject :: "'x acl_db_scheme \<Rightarrow> agent_row list \<Rightarrow> acl_subject \<Rightarrow> agent_row list" where
  "filter_agents_for_subject db agents subject =
     (if agents = [] \<or> \<not> su_active subject then []
      else
        let ids = map ar_id agents;
            by_agent = group_rows ids (filter (\<lambda>a. aa_resource_id a \<in> set ids) (rd_agent_access db))
        in filter (\<lambda>agent. evaluate_access (ar_access_type agent) (get_rows by_agent (ar_id agent)) subject) agents)"

definition user_can_access_knowledge_base :: "'x acl_db_scheme \<Rightarrow> knowledge_base_row \<Rightarrow> acl_subject \<Rightarrow> bool" where
  "user_can_access_knowledge_base db kb subject =
     evaluate_access (kr_access_type kb) (rows_for (kr_id kb) (rd_kb_access db)) subject"

definition filter_knowledge_bases_for_subject ::
  "'x acl_db_scheme \<Rightarrow> knowledge_base_row list \<Rightarrow> acl_subject \<Rightarrow> knowledge_base_row list" where
  "filter_knowledge_bases_for_subject db kbs subject =
     (if kbs = [] \<or> \<not> su_active subject then []
      else if su_break_glass subject then kbs
      else
        let ids = map kr_id kbs;
            by_kb = group_rows ids (filter (\<lambda>a. aa_resource_id a \<in> set ids) (rd_kb_access db))
        in filter (\<lambda>kb. evaluate_access (kr_access_type kb) (get_rows by_kb (kr_id kb)) subject) kbs)"

text \<open>The restrictive rules of a document, once its Knowledge Base is accessible.\<close>

definition document_rules_allow :: "acl_assignment list \<Rightarrow> acl_subject \<Rightarrow> bool" where
  "document_rules_allow assignments subject =
     (if assignments = [] then True
      else
        let matched = filter (\<lambda>a. assignment_matches a subject) assignments
        in if list_ex (\<lambda>a. effect_of a = EFFECT_DENY) matched then False
           else if \<not> list_ex (\<lambda>a. effect_of a = EFFECT_ALLOW) assignments then True
           else list_ex (\<lambda>a. effect_of a = EFFECT_ALLOW) matched)"

definition user_can_access_document :: "'x acl_db_scheme \<Rightarrow> document_row \<Rightarrow> acl_subject \<Rightarrow> bool" where
  "user_can_access_document db document subject =
     (case fetch kr_id (dr_knowledge_base_id document) (rd_knowledge_bases db) of
        None \<Rightarrow> False
      | Some kb \<Rightarrow>
          if \<not> user_can_access_knowledge_base db kb subject then False
          else if su_break_glass subject then True
          else document_rules_allow (rows_for (dr_id document) (rd_document_access db)) subject)"

definition filter_documents_for_subject :: "'x acl_db_scheme \<Rightarrow> document_row list \<Rightarrow> acl_subject \<Rightarrow> document_row list" where
  "filter_documents_for_subject db documents subject =
     (if documents = [] \<or> \<not> su_active subject then []
      else
        let kbs = filter (\<lambda>kb. kr_id kb \<in> set (map dr_knowledge_base_id documents)) (rd_knowledge_bases db);
            allowed = map kr_id (filter_knowledge_bases_for_subject db kbs subject)
        in if allowed = [] then []
           else if su_break_glass subject then filter (\<lambda>d. dr_knowledge_base_id d \<in> set allowed) documents
           else
             let ids = map dr_id documents;
                 by_document = group_rows ids (filter (\<lambda>a. aa_resource_id a \<in> set ids) (rd_document_access db))
             in filter (\<lambda>d. dr_knowledge_base_id d \<in> set allowed \<and>
                            document_rules_allow (get_rows by_document (dr_id d)) subject) documents)"

section \<open>Saving grants\<close>

text \<open>A word in single quotes, in a message.\<close>

definition quoted :: "string \<Rightarrow> string" where
  "quoted s = CHR 0x27 # s @ [CHR 0x27]"

datatype acl_target = Target_Int int | Target_Str string

record access_grant =
  gr_target_type :: string
  gr_target :: acl_target
  gr_effect :: string

definition target_int :: "acl_target \<Rightarrow> int result" where
  "target_int t =
     (case t of
        Target_Int i \<Rightarrow> Inr i
      | Target_Str s \<Rightarrow>
          (case parse_int s of None \<Rightarrow> Inl (ValueError ''invalid literal for int()'') | Some i \<Rightarrow> Inr i))"

definition target_str :: "acl_target \<Rightarrow> string" where
  "target_str t = (case t of Target_Int i \<Rightarrow> show_int i | Target_Str s \<Rightarrow> s)"

text \<open>The columns of a row that a grant becomes, and the value that identifies it.\<close>

type_synonym grant_row = "(int option \<times> int option \<times> string option \<times> string option) \<times> string"

type_synonym grant_key = "string \<times> acl_target \<times> string"

definition normalize_grant :: "'x acl_db_scheme \<Rightarrow> access_grant \<Rightarrow> (grant_key \<times> grant_row) result" where
  "normalize_grant db grant =
     (let target_type = lower (strip (gr_target_type grant));
          effect = lower (strip (gr_effect grant))
      in if target_type \<notin> {''user'', ''group'', ''department'', ''role''}
         then Inl (ValueError (''Unsupported ACL target_type: '' @ target_type))
         else if effect \<notin> {EFFECT_ALLOW, EFFECT_DENY}
         then Inl (ValueError (''ACL effect must be '' @ quoted EFFECT_ALLOW @ '' or '' @ quoted EFFECT_DENY))
         else if target_type = ''user''
         then (case target_int (gr_target grant) of Inl e \<Rightarrow> Inl e
               | Inr i \<Rightarrow>
                   (case fetch a_id i (ad_users db) of
                      None \<Rightarrow> Inl (ValueError (''Unknown or inactive ACL user: '' @ show_int i))
                    | Some user \<Rightarrow>
                        if a_deleted_at user \<noteq> None \<or> \<not> a_is_active user
                        then Inl (ValueError (''Unknown or inactive ACL user: '' @ show_int i))
                        else Inr ((target_type, Target_Int i, effect), ((Some i, None, None, None), effect))))
         else if target_type = ''group''
         then (case target_int (gr_target grant) of Inl e \<Rightarrow> Inl e
               | Inr i \<Rightarrow>
                   if i \<notin> set (rd_groups db) then Inl (ValueError (''Unknown ACL group: '' @ show_int i))
                   else Inr ((target_type, Target_Int i, effect), ((None, Some i, None, None), effect)))
         else if target_type = ''department''
         then (case normalize_text (Some (target_str (gr_target grant))) of
                 None \<Rightarrow> Inl (ValueError ''ACL department cannot be empty'')
               | Some t \<Rightarrow> Inr ((target_type, Target_Str t, effect), ((None, None, Some t, None), effect)))
         else (case normalize_text (Some (target_str (gr_target grant))) of
                 None \<Rightarrow> Inl (ValueError ''Unknown ACL role: None'')
               | Some t \<Rightarrow>
                   if \<not> is_valid_role_slug t then Inl (ValueError (''Unknown ACL role: '' @ t))
                   else Inr ((target_type, Target_Str t, effect), ((None, None, None, Some t), effect))))"

fun validate_each :: "'x acl_db_scheme \<Rightarrow> grant_key list \<Rightarrow> access_grant list \<Rightarrow> (grant_row list) result" where
  "validate_each db seen [] = Inr []"
| "validate_each db seen (g # gs) =
     (case normalize_grant db g of Inl e \<Rightarrow> Inl e
      | Inr (k, row) \<Rightarrow>
          if k \<in> set seen then validate_each db seen gs
          else (case validate_each db (k # seen) gs of Inl e \<Rightarrow> Inl e | Inr rows \<Rightarrow> Inr (row # rows)))"

definition validated_grants :: "'x acl_db_scheme \<Rightarrow> access_grant list \<Rightarrow> (grant_row list) result" where
  "validated_grants db grants = validate_each db [] grants"

definition grant_assignment :: "string \<Rightarrow> int option \<Rightarrow> time \<Rightarrow> grant_row \<Rightarrow> acl_assignment" where
  "grant_assignment rid actor now row =
     (case row of ((u, g, d, r), effect) \<Rightarrow>
        \<lparr>aa_resource_id = rid, aa_user_id = u, aa_group_id = g, aa_department = d, aa_role_slug = r, aa_effect = effect,
         aa_assigned_by_user_id = actor, aa_assigned_at = now\<rparr>)"

definition replace_rows :: "string \<Rightarrow> int option \<Rightarrow> time \<Rightarrow> grant_row list \<Rightarrow> acl_assignment list \<Rightarrow> acl_assignment list" where
  "replace_rows rid actor now rows table =
     filter (\<lambda>a. aa_resource_id a \<noteq> rid) table @ map (grant_assignment rid actor now) rows"

definition valid_access_type :: "string \<Rightarrow> string result" where
  "valid_access_type access_type =
     (let access = lower (strip access_type)
      in if access \<in> {ACCESS_PUBLIC, ACCESS_PRIVATE} then Inr access
         else Inl (ValueError (''access_type must be '' @ quoted ACCESS_PUBLIC @ '' or '' @ quoted ACCESS_PRIVATE)))"

definition set_agent_access ::
  "time \<Rightarrow> 'x acl_db_scheme \<Rightarrow> string \<Rightarrow> string \<Rightarrow> access_grant list \<Rightarrow> int option \<Rightarrow> ('x acl_db_scheme) result" where
  "set_agent_access now db aid access_type grants actor =
     (case valid_access_type access_type of Inl e \<Rightarrow> Inl e
      | Inr access \<Rightarrow>
          (case validated_grants db grants of Inl e \<Rightarrow> Inl e
           | Inr rows \<Rightarrow>
               Inr (db\<lparr>rd_agent_access := replace_rows aid actor now rows (rd_agent_access db),
                       rd_agents := modify ar_id aid (\<lambda>r. r\<lparr>ar_access_type := access, ar_acl_version := ar_acl_version r + 1\<rparr>)
                                      (rd_agents db)\<rparr>)))"

definition set_knowledge_base_access ::
  "time \<Rightarrow> 'x acl_db_scheme \<Rightarrow> string \<Rightarrow> string \<Rightarrow> access_grant list \<Rightarrow> int option \<Rightarrow> ('x acl_db_scheme) result" where
  "set_knowledge_base_access now db kid access_type grants actor =
     (case valid_access_type access_type of Inl e \<Rightarrow> Inl e
      | Inr access \<Rightarrow>
          (case validated_grants db grants of Inl e \<Rightarrow> Inl e
           | Inr rows \<Rightarrow>
               Inr (db\<lparr>rd_kb_access := replace_rows kid actor now rows (rd_kb_access db),
                       rd_knowledge_bases := modify kr_id kid (\<lambda>r. r\<lparr>kr_access_type := access, kr_acl_version := kr_acl_version r + 1\<rparr>)
                                               (rd_knowledge_bases db)\<rparr>)))"

definition set_document_access ::
  "time \<Rightarrow> 'x acl_db_scheme \<Rightarrow> string \<Rightarrow> access_grant list \<Rightarrow> int option \<Rightarrow> ('x acl_db_scheme) result" where
  "set_document_access now db did grants actor =
     (case validated_grants db grants of Inl e \<Rightarrow> Inl e
      | Inr rows \<Rightarrow>
          Inr (db\<lparr>rd_document_access := replace_rows did actor now rows (rd_document_access db),
                  rd_documents := modify dr_id did (\<lambda>r. r\<lparr>dr_acl_version := dr_acl_version r + 1\<rparr>) (rd_documents db)\<rparr>))"

section \<open>Tokens name principals\<close>

lemma token_inj [simp]:
  "user_token i = user_token j \<longleftrightarrow> i = j" "group_token i = group_token j \<longleftrightarrow> i = j"
  "department_token d = department_token e \<longleftrightarrow> d = e" "role_token r = role_token q \<longleftrightarrow> r = q"
  by (auto simp: user_token_def group_token_def department_token_def role_token_def dest: show_int_inj)

lemma token_kinds [simp]:
  "user_token i \<noteq> group_token j" "user_token i \<noteq> department_token d" "user_token i \<noteq> role_token r"
  "group_token j \<noteq> user_token i" "group_token j \<noteq> department_token d" "group_token j \<noteq> role_token r"
  "department_token d \<noteq> user_token i" "department_token d \<noteq> group_token j" "department_token d \<noteq> role_token r"
  "role_token r \<noteq> user_token i" "role_token r \<noteq> group_token j" "role_token r \<noteq> department_token d"
  by (simp_all add: user_token_def group_token_def department_token_def role_token_def)

lemma normalized_not_Nil: "normalize_text v = Some d \<Longrightarrow> d \<noteq> []"
  by (auto simp: normalize_text_def Let_def split: option.splits if_splits)

text \<open>
  What an assignment means, without tokens: it names one user, else one group, else a department,
  else a role, the texts compared in normal form.
\<close>

definition addresses :: "acl_assignment \<Rightarrow> int option \<Rightarrow> int set \<Rightarrow> string option \<Rightarrow> string set \<Rightarrow> bool" where
  "addresses a user groups department roles \<longleftrightarrow>
     (case aa_user_id a of
        Some i \<Rightarrow> user = Some i
      | None \<Rightarrow>
          (case aa_group_id a of
             Some i \<Rightarrow> i \<in> groups
           | None \<Rightarrow>
               (case normalize_text (aa_department a) of
                  Some d \<Rightarrow> department = Some d
                | None \<Rightarrow> (case normalize_text (aa_role_slug a) of None \<Rightarrow> False | Some r \<Rightarrow> r \<in> roles))))"

lemma matches_addresses:
  "assignment_matches a subject \<longleftrightarrow>
     addresses a (su_user_id subject) (set (su_group_ids subject)) (su_department subject) (set (su_role_slugs subject))"
  using normalized_not_Nil [of "aa_department a"]
  by (auto simp: assignment_matches_def assignment_token_def addresses_def principal_tokens_def truthy_def split: option.splits)

section \<open>Bulk filters\<close>

lemma group_rows_eq: "get_rows (group_rows ids rows) k = rows_for k rows"
proof -
  have "get_rows (foldl (\<lambda>d a. d(aa_resource_id a \<mapsto> (case d (aa_resource_id a) of None \<Rightarrow> [] | Some xs \<Rightarrow> xs) @ [a])) d rows) k
      = get_rows d k @ rows_for k rows" for d
    by (induction rows arbitrary: d) (auto simp: get_rows_def rows_for_def)
  then show ?thesis by (simp add: group_rows_def) (simp add: get_rows_def)
qed

lemma rows_for_filter [simp]: "k \<in> S \<Longrightarrow> rows_for k (filter (\<lambda>a. aa_resource_id a \<in> S) rows) = rows_for k rows"
  by (induction rows) (auto simp: rows_for_def)

lemma inactive_denied [simp]: "\<not> su_active subject \<Longrightarrow> evaluate_access t rows subject = False"
  by (simp add: evaluate_access_def)

lemma filter_agents_eq: "filter_agents_for_subject db agents subject = filter (\<lambda>agent. user_can_access_agent db agent subject) agents"
  by (auto simp: filter_agents_for_subject_def user_can_access_agent_def group_rows_eq Let_def filter_empty_conv intro!: filter_cong)

lemma filter_kbs_eq:
  "filter_knowledge_bases_for_subject db kbs subject = filter (\<lambda>kb. user_can_access_knowledge_base db kb subject) kbs"
proof (cases "su_active subject \<and> su_break_glass subject")
  case True
  then show ?thesis by (auto simp: filter_knowledge_bases_for_subject_def user_can_access_knowledge_base_def evaluate_access_def)
next
  case False
  then show ?thesis
    by (auto simp: filter_knowledge_bases_for_subject_def user_can_access_knowledge_base_def group_rows_eq Let_def filter_empty_conv
        intro!: filter_cong)
qed

lemma mapped_filters: "k \<in> set (map f (filter P (filter Q xs))) \<longleftrightarrow> (\<exists>x\<in>set xs. f x = k \<and> Q x \<and> P x)"
  by auto

lemma document_kb_allowed:
  assumes "distinct (map kr_id (rd_knowledge_bases db))" and "d \<in> set documents"
  shows "dr_knowledge_base_id d \<in> set (map kr_id (filter_knowledge_bases_for_subject db
      (filter (\<lambda>kb. kr_id kb \<in> set (map dr_knowledge_base_id documents)) (rd_knowledge_bases db)) subject))
    \<longleftrightarrow> (case fetch kr_id (dr_knowledge_base_id d) (rd_knowledge_bases db) of None \<Rightarrow> False
         | Some kb \<Rightarrow> user_can_access_knowledge_base db kb subject)"
proof (cases "fetch kr_id (dr_knowledge_base_id d) (rd_knowledge_bases db)")
  case None
  then have "dr_knowledge_base_id d \<notin> kr_id ` set (rd_knowledge_bases db)" by (simp add: fetch_None_iff)
  with None show ?thesis by (auto simp: filter_kbs_eq)
next
  case (Some kb)
  let ?k = "dr_knowledge_base_id d" and ?P = "\<lambda>kb. user_can_access_knowledge_base db kb subject"
  from fetch_SomeD [OF Some] have kb: "kb \<in> set (rd_knowledge_bases db)" "kr_id kb = ?k" by auto
  have k: "?k \<in> set (map dr_knowledge_base_id documents)" using assms(2) by simp
  have only: "x = kb" if "x \<in> set (rd_knowledge_bases db)" "kr_id x = ?k" for x
    using fetch_distinct [OF assms(1) that(1)] Some unfolding that(2) by simp
  show ?thesis unfolding filter_kbs_eq Some option.case mapped_filters
  proof
    assume "?P kb"
    with kb k show "\<exists>x\<in>set (rd_knowledge_bases db). kr_id x = ?k \<and> kr_id x \<in> set (map dr_knowledge_base_id documents) \<and> ?P x"
      by (intro bexI [of _ kb]) simp_all
  qed (use only in blast)
qed

lemma filter_documents_eq:
  assumes "distinct (map kr_id (rd_knowledge_bases db))"
  shows "filter_documents_for_subject db documents subject = filter (\<lambda>d. user_can_access_document db d subject) documents"
proof (cases "documents = [] \<or> \<not> su_active subject")
  case True
  then have "\<not> user_can_access_document db d subject" if "documents \<noteq> []" for d
    using that by (simp add: user_can_access_document_def user_can_access_knowledge_base_def split: option.split)
  with True show ?thesis by (cases "documents = []") (simp_all add: filter_documents_for_subject_def)
next
  case False
  let ?allowed = "map kr_id (filter_knowledge_bases_for_subject db
      (filter (\<lambda>kb. kr_id kb \<in> set (map dr_knowledge_base_id documents)) (rd_knowledge_bases db)) subject)"
  let ?rules = "\<lambda>d. document_rules_allow (rows_for (dr_id d) (rd_document_access db)) subject"
  have single: "user_can_access_document db d subject \<longleftrightarrow> dr_knowledge_base_id d \<in> set ?allowed \<and> (su_break_glass subject \<or> ?rules d)"
    if "d \<in> set documents" for d
    unfolding document_kb_allowed [OF assms that] by (auto simp: user_can_access_document_def split: option.split)
  have "filter_documents_for_subject db documents subject
      = filter (\<lambda>d. dr_knowledge_base_id d \<in> set ?allowed \<and> (su_break_glass subject \<or> ?rules d)) documents"
    using False by (auto simp only: filter_documents_for_subject_def Let_def group_rows_eq rows_for_filter simp_thms if_False
        intro!: filter_cong split: if_splits) auto
  also have "\<dots> = filter (\<lambda>d. user_can_access_document db d subject) documents"
    using single by (intro filter_cong) simp_all
  finally show ?thesis .
qed

section \<open>Normal forms\<close>

lemma blank_char [simp]: "is_space (CHR '' '')" "lower_char c = CHR '' '' \<longleftrightarrow> c = CHR '' ''"
proof -
  show "is_space (CHR '' '')" by code_simp
  obtain b0 b1 b2 b3 b4 b5 b6 b7 where c: "c = Char b0 b1 b2 b3 b4 b5 b6 b7" by (cases c)
  show "lower_char c = CHR '' '' \<longleftrightarrow> c = CHR '' ''"
    unfolding c by (cases b0; cases b1; cases b2; cases b3; cases b4; cases b5; cases b6; cases b7) (simp_all add: lower_char_code)
qed

lemma collapse_idem: "collapse_spaces (collapse_spaces s) = collapse_spaces s"
  by (induction s) (auto simp: Let_def)

lemma lower_Nil_iff [simp]: "lower s = [] \<longleftrightarrow> s = []" "lower [] = []" "lower (c # s) = lower_char c # lower s"
  by (simp_all add: lower_def)

lemma hd_lower: "s \<noteq> [] \<Longrightarrow> hd (lower s) = lower_char (hd s)"
  by (simp add: lower_def hd_map)

lemma lower_blank [simp]: "lower_char (CHR '' '') = CHR '' ''"
  by (simp only: blank_char)

lemma collapse_lower: "collapse_spaces (lower s) = lower (collapse_spaces s)"
  by (induction s) (auto simp: Let_def hd_lower)

lemma collapse_ends: "collapse_spaces s \<noteq> [] \<Longrightarrow> \<not> is_space (last (collapse_spaces s))"
  by (induction s) (auto simp: Let_def)

lemma strip_fixed: "s = [] \<or> \<not> is_space (hd s) \<and> \<not> is_space (last s) \<Longrightarrow> strip s = s"
  by (cases "s = []") (simp_all add: strip_def lstrip_fixed hd_rev)

lemma strip_hd: "strip s \<noteq> [] \<Longrightarrow> \<not> is_space (hd (strip s))"
proof (cases "strip s")
  case (Cons c t)
  have "length (strip t) \<le> length t"
    unfolding strip_def lstrip_def length_rev by (rule order_trans [OF length_dropWhile_le]) (simp add: length_dropWhile_le)
  moreover have "strip (c # t) = c # t" using strip_strip [of s] by (simp add: Cons)
  moreover have "strip (c # t) = strip t" if "is_space c" using that by (simp add: strip_def lstrip_def)
  ultimately have "\<not> is_space c" by fastforce
  with Cons show ?thesis by simp
qed simp

lemma strip_split_join: "strip (split_join s) = split_join s"
proof (rule strip_fixed, cases "strip s")
  case (Cons c t)
  with strip_hd [of s] have "\<not> is_space c" by simp
  then have "hd (split_join s) = c" by (simp add: split_join_def Cons)
  with \<open>\<not> is_space c\<close> collapse_ends [of "strip s"] show "split_join s = [] \<or> \<not> is_space (hd (split_join s)) \<and> \<not> is_space (last (split_join s))"
    by (auto simp: split_join_def)
qed (simp add: split_join_def)

lemma split_join_idem: "split_join (split_join s) = split_join s"
  using strip_split_join [of s] collapse_idem [of "strip s"] by (simp add: split_join_def)

lemma normalize_text_idem: "normalize_text v = Some t \<Longrightarrow> normalize_text (Some t) = Some t"
proof -
  assume "normalize_text v = Some t"
  then obtain s where t: "t = lower (split_join (strip s))" and "t \<noteq> []"
    by (auto simp: normalize_text_def Let_def split: option.splits if_splits)
  have "lower (split_join (strip t)) = t"
    unfolding t strip_lower strip_split_join by (simp add: split_join_def collapse_lower strip_lower split_join_idem [unfolded split_join_def])
  with \<open>t \<noteq> []\<close> show ?thesis by (simp add: normalize_text_def Let_def)
qed

section \<open>The constraints of the assignment tables\<close>

text \<open>
  \<open>one_acl_target_constraint\<close>, the check on the effect, and the four unique constraints (a row has
  one target, so they forbid two rows with the same resource, target and effect).
\<close>

definition acl_target_of :: "acl_assignment \<Rightarrow> int option \<times> int option \<times> string option \<times> string option" where
  "acl_target_of a = (aa_user_id a, aa_group_id a, aa_department a, aa_role_slug a)"

definition one_target :: "acl_assignment \<Rightarrow> bool" where
  "one_target a \<longleftrightarrow>
     (of_bool (aa_user_id a \<noteq> None) + of_bool (aa_group_id a \<noteq> None) + of_bool (aa_department a \<noteq> None) +
      of_bool (aa_role_slug a \<noteq> None) :: int) = 1"

definition acl_table_ok :: "acl_assignment list \<Rightarrow> bool" where
  "acl_table_ok table \<longleftrightarrow>
     (\<forall>a\<in>set table. one_target a \<and> aa_effect a \<in> {EFFECT_ALLOW, EFFECT_DENY} \<and> assignment_token a \<noteq> None) \<and>
     distinct (map (\<lambda>a. (aa_resource_id a, acl_target_of a, aa_effect a)) table)"

definition grant_key_of :: "grant_row \<Rightarrow> grant_key" where
  "grant_key_of row =
     (case row of ((u, g, d, r), effect) \<Rightarrow>
        (case u of Some i \<Rightarrow> (''user'', Target_Int i, effect)
         | None \<Rightarrow> (case g of Some i \<Rightarrow> (''group'', Target_Int i, effect)
             | None \<Rightarrow> (case d of Some t \<Rightarrow> (''department'', Target_Str t, effect)
                 | None \<Rightarrow> (''role'', Target_Str (the r), effect)))))"

lemma normalize_grant_cases:
  assumes "normalize_grant db g = Inr (k, row)"
  obtains (User) i e where "row = ((Some i, None, None, None), e)" "e \<in> {EFFECT_ALLOW, EFFECT_DENY}" "k = (''user'', Target_Int i, e)"
  | (Group) i e where "row = ((None, Some i, None, None), e)" "e \<in> {EFFECT_ALLOW, EFFECT_DENY}" "k = (''group'', Target_Int i, e)"
  | (Department) t e s where "row = ((None, None, Some t, None), e)" "e \<in> {EFFECT_ALLOW, EFFECT_DENY}"
      "k = (''department'', Target_Str t, e)" "normalize_text s = Some t"
  | (Role) t e s where "row = ((None, None, None, Some t), e)" "e \<in> {EFFECT_ALLOW, EFFECT_DENY}"
      "k = (''role'', Target_Str t, e)" "normalize_text s = Some t"
proof -
  let ?t = "lower (strip (gr_target_type g))" and ?e = "lower (strip (gr_effect g))"
  have kind: "?t \<in> {''user'', ''group'', ''department'', ''role''}" and effect: "?e \<in> {EFFECT_ALLOW, EFFECT_DENY}"
    using assms by (simp_all add: normalize_grant_def Let_def split: if_splits)
  note body = assms [unfolded normalize_grant_def Let_def]
  from kind consider "?t = ''user''" | "?t = ''group''" | "?t = ''department''" | "?t = ''role''" by blast
  then show thesis
  proof cases
    case 1
    with body effect show thesis by (auto split: sum.splits option.splits if_splits intro: User)
  next
    case 2
    with body effect show thesis by (auto split: sum.splits if_splits intro: Group)
  next
    case 3
    with body effect show thesis by (auto split: option.splits intro: Department)
  next
    case 4
    with body effect show thesis by (auto split: option.splits if_splits intro: Role)
  qed
qed

lemma normalize_grant_row:
  assumes "normalize_grant db g = Inr (k, row)"
  shows "k = grant_key_of row \<and> one_target (grant_assignment rid actor now row)
    \<and> aa_effect (grant_assignment rid actor now row) \<in> {EFFECT_ALLOW, EFFECT_DENY}
    \<and> assignment_token (grant_assignment rid actor now row) \<noteq> None"
  using assms
proof (cases rule: normalize_grant_cases)
  case (Department t e s)
  with normalize_text_idem [OF Department(4)] show ?thesis
    by (simp add: grant_key_of_def grant_assignment_def one_target_def assignment_token_def)
next
  case (Role t e s)
  with normalize_text_idem [OF Role(4)] show ?thesis
    by (simp add: grant_key_of_def grant_assignment_def one_target_def assignment_token_def normalize_text_def [of None])
qed (simp_all add: grant_key_of_def grant_assignment_def one_target_def assignment_token_def)

lemma validate_each_rows:
  assumes "validate_each db seen gs = Inr rows"
  shows "distinct (map grant_key_of rows) \<and> set (map grant_key_of rows) \<inter> set seen = {} \<and>
    (\<forall>row\<in>set rows. \<exists>g. normalize_grant db g = Inr (grant_key_of row, row))"
  using assms
proof (induction db seen gs arbitrary: rows rule: validate_each.induct)
  case (2 db seen g gs)
  from "2.prems" obtain k row where ng: "normalize_grant db g = Inr (k, row)" by (auto split: sum.splits prod.splits)
  have k: "k = grant_key_of row" using normalize_grant_row [OF ng] by blast
  show ?case
  proof (cases "k \<in> set seen")
    case True
    with 2 ng show ?thesis by auto
  next
    case False
    with "2.prems" ng obtain rs where rs: "validate_each db (k # seen) gs = Inr rs" "rows = row # rs" by (auto split: sum.splits)
    from "2.IH"(2) [OF ng refl False rs(1)] rs(2) ng False show ?thesis by (auto simp: k)
  qed
qed simp

lemma replace_rows_ok:
  assumes "acl_table_ok table" and "validated_grants db grants = Inr rows"
  shows "acl_table_ok (replace_rows rid actor now rows table)"
proof -
  let ?key = "\<lambda>a. (aa_resource_id a, acl_target_of a, aa_effect a)"
  note v = validate_each_rows [OF assms(2) [unfolded validated_grants_def]]
  have key: "?key (grant_assignment rid actor now row) = (rid, row)" for row
    by (simp add: acl_target_of_def grant_assignment_def split: prod.split)
  have "distinct rows" using v by (blast dest: distinct_map [THEN iffD1])
  then have "distinct (map ?key (map (grant_assignment rid actor now) rows))" by (simp add: key o_def distinct_map inj_on_def)
  moreover have "fst k \<noteq> rid" if "k \<in> set (map ?key (filter (\<lambda>a. aa_resource_id a \<noteq> rid) table))" for k using that by auto
  moreover have "fst k = rid" if "k \<in> set (map ?key (map (grant_assignment rid actor now) rows))" for k
    using that key by (auto simp: grant_assignment_def split: prod.splits)
  moreover have "distinct (map ?key (filter (\<lambda>a. aa_resource_id a \<noteq> rid) table))"
    using assms(1) by (simp add: acl_table_ok_def distinct_map_filter)
  ultimately have "distinct (map ?key (replace_rows rid actor now rows table))"
    unfolding replace_rows_def map_append distinct_append by blast
  moreover have "one_target a \<and> aa_effect a \<in> {EFFECT_ALLOW, EFFECT_DENY} \<and> assignment_token a \<noteq> None"
    if "a \<in> set (replace_rows rid actor now rows table)" for a
  proof (cases "a \<in> set table")
    case True
    with assms(1) show ?thesis by (simp add: acl_table_ok_def)
  next
    case False
    with that obtain row where "row \<in> set rows" "a = grant_assignment rid actor now row" by (auto simp: replace_rows_def)
    with v normalize_grant_row show ?thesis by blast
  qed
  ultimately show ?thesis by (simp add: acl_table_ok_def)
qed

section \<open>Properties\<close>

text \<open>What the rules of a resource say to an active user, without tokens.\<close>

definition rule_for :: "'x acl_db_scheme \<Rightarrow> account \<Rightarrow> acl_assignment \<Rightarrow> bool" where
  "rule_for db user a \<longleftrightarrow>
     addresses a (Some (a_id user)) {g. (a_id user, g) \<in> set (ad_groups db)} (normalize_text (a_department user))
       {n. \<exists>slug\<in>set (get_user_role_slugs db (a_id user)). normalize_text (Some slug) = Some n}"

definition is_public :: "string \<Rightarrow> bool" where
  "is_public access_type \<longleftrightarrow> lower (strip access_type) = ACCESS_PUBLIC"

lemma is_public_or_private: "lower (strip (if t = [] then ACCESS_PRIVATE else t)) = ACCESS_PUBLIC \<longleftrightarrow> is_public t"
proof (cases "t = []")
  case True
  have "lower (strip ACCESS_PRIVATE) \<noteq> ACCESS_PUBLIC" "lower (strip []) \<noteq> ACCESS_PUBLIC" by code_simp+
  with True show ?thesis by (simp add: is_public_def)
qed (simp add: is_public_def)

lemma resolved_user:
  assumes "fetch a_id uid (ad_users db) = Some user" and "a_is_active user" and "a_deleted_at user = None"
  shows "assignment_matches a (resolve_resource_access_subject db (Some uid) None None b) \<longleftrightarrow> rule_for db user a"
    and "su_active (resolve_resource_access_subject db (Some uid) None None b)"
    and "\<not> su_public_only (resolve_resource_access_subject db (Some uid) None None b)"
    and "su_user_id (resolve_resource_access_subject db (Some uid) None None b) = Some uid"
    and "su_break_glass (resolve_resource_access_subject db (Some uid) None None False) = False"
proof -
  have id: "a_id user = uid" using fetch_key [OF assms(1)] .
  let ?s = "resolve_resource_access_subject db (Some uid) None None b"
  have "set (su_role_slugs ?s) = {n. \<exists>slug\<in>set (get_user_role_slugs db uid). normalize_text (Some slug) = Some n}"
    using assms by (auto simp: resolve_resource_access_subject_def Let_def split: option.splits)
  moreover have "set (su_group_ids ?s) = {g. (uid, g) \<in> set (ad_groups db)}"
    using assms by (force simp: resolve_resource_access_subject_def Let_def)
  moreover have "su_user_id ?s = Some uid" "su_department ?s = normalize_text (a_department user)"
    using assms by (simp_all add: resolve_resource_access_subject_def Let_def)
  ultimately show "assignment_matches a ?s \<longleftrightarrow> rule_for db user a"
    by (simp only: matches_addresses rule_for_def id)
qed (use assms in \<open>simp_all add: resolve_resource_access_subject_def Let_def\<close>)

text \<open>
  C21: access to an Agent, as the tokens decide it, is what the rules say: an account that cannot
  sign in has none; a matching deny wins over everything; otherwise a public Agent is open and a
  private one needs a rule that allows the user, one of the user's groups, the department or a role.
  The master key, an unowned key and a request without a user see exactly the public Agents; nobody
  bypasses the rules by being Super Admin without asking for it.
\<close>

theorem acl_meaning:
  assumes "fetch a_id uid (ad_users db) = Some user"
  shows "(user_can_access_agent db agent (resolve_resource_access_subject db (Some uid) None None False) \<longleftrightarrow>
      a_is_active user \<and> a_deleted_at user = None
      \<and> \<not> list_ex (\<lambda>a. rule_for db user a \<and> effect_of a = EFFECT_DENY) (rows_for (ar_id agent) (rd_agent_access db))
      \<and> (is_public (ar_access_type agent)
          \<or> list_ex (\<lambda>a. rule_for db user a \<and> effect_of a = EFFECT_ALLOW) (rows_for (ar_id agent) (rd_agent_access db))))
    \<and> (user_can_access_agent db agent (resolve_resource_access_subject db (Some uid) key (Some ''master'') glass) \<longleftrightarrow> is_public (ar_access_type agent))
    \<and> (map_of (rd_key_owners db) k \<in> {None, Some None} \<longrightarrow>
        (user_can_access_agent db agent (resolve_resource_access_subject db (Some uid) (Some k) None glass) \<longleftrightarrow> is_public (ar_access_type agent)))"
proof -
  let ?s = "resolve_resource_access_subject db (Some uid) None None False"
  let ?rows = "rows_for (ar_id agent) (rd_agent_access db)"
  have anon: "evaluate_access t rows public_subject \<longleftrightarrow> is_public t" for t rows
  proof -
    have "\<not> assignment_matches a public_subject" for a
      by (simp add: assignment_matches_def principal_tokens_def public_subject_def truthy_def split: option.split)
    then show ?thesis by (simp add: evaluate_access_def is_public_or_private) (simp add: public_subject_def)
  qed
  have "user_can_access_agent db agent ?s \<longleftrightarrow> a_is_active user \<and> a_deleted_at user = None
      \<and> \<not> list_ex (\<lambda>a. rule_for db user a \<and> effect_of a = EFFECT_DENY) ?rows
      \<and> (is_public (ar_access_type agent) \<or> list_ex (\<lambda>a. rule_for db user a \<and> effect_of a = EFFECT_ALLOW) ?rows)"
  proof (cases "a_is_active user \<and> a_deleted_at user = None")
    case True
    note r = resolved_user [OF assms conjunct1 [OF True] conjunct2 [OF True]]
    show ?thesis
      using True by (simp add: user_can_access_agent_def evaluate_access_def r Let_def is_public_or_private list_ex_iff conj_comms) blast
  next
    case False
    then have "\<not> su_active ?s" using assms by (auto simp: resolve_resource_access_subject_def public_subject_def)
    with False show ?thesis by (simp add: user_can_access_agent_def)
  qed
  moreover have "resolve_resource_access_subject db (Some uid) key (Some ''master'') glass = public_subject"
    by (simp add: resolve_resource_access_subject_def)
  moreover have "resolve_resource_access_subject db (Some uid) (Some k) None glass = public_subject" if "map_of (rd_key_owners db) k \<in> {None, Some None}"
    using that by (auto simp: resolve_resource_access_subject_def)
  ultimately show ?thesis by (simp add: user_can_access_agent_def anon)
qed

text \<open>Ann of the legal department; a private Agent for that department that denies one group.\<close>

definition legal_rule :: acl_assignment where
  "legal_rule = \<lparr>aa_resource_id = ''a1'', aa_user_id = None, aa_group_id = None, aa_department = Some ''legal'', aa_role_slug = None,
     aa_effect = ''allow'', aa_assigned_by_user_id = None, aa_assigned_at = 0\<rparr>"

definition sample_acl :: "acl_assignment list \<Rightarrow> acl_db" where
  "sample_acl rules =
     \<lparr>ad_users = [(sample_account 1 ''ann'')\<lparr>a_department := Some '' Legal ''\<rparr>], ad_roles = [], ad_groups = [(1, 7)], ad_personal = [],
      ad_sessions = [], ad_messages = [], ad_summaries = [], ad_log_owners = [], ad_uploaders = [], ad_members = [],
      ad_security_log = [], ad_auth_events = [], rd_key_owners = [], rd_groups = [7],
      rd_agents = [\<lparr>ar_id = ''a1'', ar_access_type = ''private'', ar_acl_version = 1\<rparr>],
      rd_knowledge_bases = [\<lparr>kr_id = ''k1'', kr_status = ''active'', kr_access_type = ''public'', kr_acl_version = 1\<rparr>],
      rd_documents = [\<lparr>dr_id = ''d1'', dr_knowledge_base_id = ''k1'', dr_title = ''Leave'', dr_status = ''active'', dr_acl_version = 1, dr_revoked_at = None, dr_deleted_at = None\<rparr>], rd_tool_policies = [],
      rd_agent_access = rules, rd_kb_access = [], rd_document_access = [legal_rule\<lparr>aa_resource_id := ''d1''\<rparr>],
      rd_tool_access = []\<rparr>"

theorem acl_meaning_witness:
  "user_can_access_agent (sample_acl [legal_rule]) \<lparr>ar_id = ''a1'', ar_access_type = ''private'', ar_acl_version = 1\<rparr>
       (resolve_resource_access_subject (sample_acl [legal_rule]) (Some 1) None None False)
    \<and> \<not> user_can_access_agent (sample_acl [legal_rule]) \<lparr>ar_id = ''a1'', ar_access_type = ''private'', ar_acl_version = 1\<rparr>
         (resolve_resource_access_subject (sample_acl [legal_rule]) (Some 1) None (Some ''master'') False)"
proof -
  let ?db = "sample_acl [legal_rule]" and ?u = "(sample_account 1 ''ann'')\<lparr>a_department := Some '' Legal ''\<rparr>"
  let ?a = "\<lparr>ar_id = ''a1'', ar_access_type = ''private'', ar_acl_version = 1\<rparr>"
  have u: "fetch a_id 1 (ad_users ?db) = Some ?u" by (simp add: sample_acl_def sample_account_def)
  have n: "normalize_text (Some ''legal'') = Some ''legal''" "normalize_text (Some '' Legal '') = Some ''legal''" by code_simp+
  have rule: "rule_for ?db ?u legal_rule" by (simp add: rule_for_def addresses_def legal_rule_def n)
  have rest: "effect_of legal_rule = EFFECT_ALLOW" "EFFECT_ALLOW \<noteq> EFFECT_DENY" "rows_for ''a1'' (rd_agent_access ?db) = [legal_rule]"
    "\<not> is_public ''private''" "a_is_active ?u" "a_deleted_at ?u = None" by code_simp+
  show ?thesis
    using acl_meaning [OF u, of ?a None False 0] rule rest by simp
qed

text \<open>
  The bulk filters for Agents, Knowledge Bases and documents, which read the rules of all
  candidates with one query, keep exactly the candidates that the single checks admit, in order.
\<close>

theorem bulk_filters_agree:
  assumes "distinct (map kr_id (rd_knowledge_bases db))"
  shows "filter_agents_for_subject db agents subject = filter (\<lambda>a. user_can_access_agent db a subject) agents
    \<and> filter_knowledge_bases_for_subject db kbs subject = filter (\<lambda>kb. user_can_access_knowledge_base db kb subject) kbs
    \<and> filter_documents_for_subject db documents subject = filter (\<lambda>d. user_can_access_document db d subject) documents"
  using assms by (simp add: filter_agents_eq filter_kbs_eq filter_documents_eq)

theorem bulk_filters_agree_witness:
  "filter_documents_for_subject (sample_acl []) (rd_documents (sample_acl []))
       (resolve_resource_access_subject (sample_acl []) (Some 1) None None False) = rd_documents (sample_acl [])
    \<and> filter (\<lambda>d. user_can_access_document (sample_acl []) d public_subject) (rd_documents (sample_acl [])) = []"
proof -
  have d: "distinct (map kr_id (rd_knowledge_bases (sample_acl [])))" by code_simp
  have "filter (\<lambda>d. user_can_access_document (sample_acl []) d (resolve_resource_access_subject (sample_acl []) (Some 1) None None False))
      (rd_documents (sample_acl [])) = rd_documents (sample_acl [])"
    "filter (\<lambda>d. user_can_access_document (sample_acl []) d public_subject) (rd_documents (sample_acl [])) = []" by code_simp+
  with bulk_filters_agree [OF d, of "[]" _ "[]" "rd_documents (sample_acl [])"] show ?thesis by simp
qed

text \<open>
  C28: saving the access of an Agent, a Knowledge Base or a document leaves a table that satisfies
  its constraints (one target for each row, a known effect, no two rows for the same target and
  effect) and whose every rule names a principal; the rows of all other resources stay, and the
  access version of the resource grows by one.
\<close>

theorem saved_access_well_typed:
  assumes "set_agent_access now db aid access_type grants actor = Inr db1"
    and "set_knowledge_base_access now db kid access_type grants actor = Inr db2"
    and "set_document_access now db did grants actor = Inr db3"
    and "acl_table_ok (rd_agent_access db)" and "acl_table_ok (rd_kb_access db)" and "acl_table_ok (rd_document_access db)"
    and "other \<noteq> aid" and "other \<noteq> kid" and "other \<noteq> did"
  shows "acl_table_ok (rd_agent_access db1) \<and> acl_table_ok (rd_kb_access db2) \<and> acl_table_ok (rd_document_access db3)
    \<and> rows_for other (rd_agent_access db1) = rows_for other (rd_agent_access db)
    \<and> rows_for other (rd_kb_access db2) = rows_for other (rd_kb_access db)
    \<and> rows_for other (rd_document_access db3) = rows_for other (rd_document_access db)
    \<and> map_option ar_acl_version (fetch ar_id aid (rd_agents db1)) = map_option (\<lambda>r. ar_acl_version r + 1) (fetch ar_id aid (rd_agents db))"
proof -
  have kept: "r \<noteq> other \<Longrightarrow> rows_for other (replace_rows r actor now rows table) = rows_for other table" for r rows table
    by (induction table) (auto simp: replace_rows_def rows_for_def grant_assignment_def filter_empty_conv split: prod.splits)
  from assms(1-3) obtain access rows where g: "validated_grants db grants = Inr rows"
    and db1: "rd_agent_access db1 = replace_rows aid actor now rows (rd_agent_access db)"
      "rd_agents db1 = modify ar_id aid (\<lambda>r. r\<lparr>ar_access_type := access, ar_acl_version := ar_acl_version r + 1\<rparr>) (rd_agents db)"
    and db2: "rd_kb_access db2 = replace_rows kid actor now rows (rd_kb_access db)"
    and db3: "rd_document_access db3 = replace_rows did actor now rows (rd_document_access db)"
    by (auto simp: set_agent_access_def set_knowledge_base_access_def set_document_access_def split: sum.splits)
  show ?thesis
    using assms(4-9) by (simp add: db1 db2 db3 kept replace_rows_ok [OF _ g] fetch_modify option.map_comp o_def)
qed

theorem saved_access_well_typed_witness:
  "\<exists>db1 db2 db3. set_agent_access 9 (sample_acl []) ''a1'' ''Private'' [\<lparr>gr_target_type = ''user'', gr_target = Target_Str '' 1'', gr_effect = ''Allow''\<rparr>] None = Inr db1
    \<and> set_knowledge_base_access 9 (sample_acl []) ''k1'' ''Private'' [\<lparr>gr_target_type = ''user'', gr_target = Target_Str '' 1'', gr_effect = ''Allow''\<rparr>] None = Inr db2
    \<and> set_document_access 9 (sample_acl []) ''d2'' [\<lparr>gr_target_type = ''user'', gr_target = Target_Str '' 1'', gr_effect = ''Allow''\<rparr>] None = Inr db3
    \<and> acl_table_ok (rd_agent_access db1) \<and> rows_for ''d1'' (rd_document_access db3) = [legal_rule\<lparr>aa_resource_id := ''d1''\<rparr>]"
proof -
  let ?db = "sample_acl []" and ?g = "[\<lparr>gr_target_type = ''user'', gr_target = Target_Str '' 1'', gr_effect = ''Allow''\<rparr>]"
  have "\<not> isl (set_agent_access 9 ?db ''a1'' ''Private'' ?g None)" "\<not> isl (set_knowledge_base_access 9 ?db ''k1'' ''Private'' ?g None)"
    "\<not> isl (set_document_access 9 ?db ''d2'' ?g None)" by code_simp+
  then obtain db1 db2 db3 where s: "set_agent_access 9 ?db ''a1'' ''Private'' ?g None = Inr db1"
    "set_knowledge_base_access 9 ?db ''k1'' ''Private'' ?g None = Inr db2" "set_document_access 9 ?db ''d2'' ?g None = Inr db3"
    by (metis isl_def sum.exhaust)
  have "assignment_token (legal_rule\<lparr>aa_resource_id := ''d1''\<rparr>) \<noteq> None" by code_simp
  then have ok: "acl_table_ok (rd_agent_access ?db)" "acl_table_ok (rd_kb_access ?db)" "acl_table_ok (rd_document_access ?db)"
    by (simp_all add: acl_table_ok_def sample_acl_def one_target_def legal_rule_def EFFECT_ALLOW_def)
  have "rows_for ''d1'' (rd_document_access ?db) = [legal_rule\<lparr>aa_resource_id := ''d1''\<rparr>]"
    by (simp add: rows_for_def sample_acl_def legal_rule_def)
  with saved_access_well_typed [OF s ok, of "''d1''"] s show ?thesis by auto
qed

end
