(* ===== verification/Knowledge_Search.thy ===== *)
theory Knowledge_Search
  imports Resource_Access
begin

text \<open>
  Search in organization Knowledge. The access rules are copied into the payload of every point of
  the vector index (\<open>services/knowledge_index_service.py\<close>); a search carries a filter made from the
  subject (\<open>services/knowledge_retrieval_service.py\<close>).

  The vector store is not part of the repository: how it evaluates a filter is an argument,
  \<open>matches\<close>, with the documented meaning of the conditions as the hypothesis \<open>store_semantics\<close>, and
  so is the text \<open>date_text\<close> of a date in a payload. This theory shows that the filter and the rules
  decide alike; \<open>Knowledge_Retrieval\<close> follows a whole search.
\<close>

section \<open>Rows\<close>

record document_version =
  dv_id :: string
  dv_document_id :: string
  dv_status :: string
  dv_file_name :: string
  dv_mime_type :: string
  dv_language :: "string option"
  dv_classification :: string
  dv_authority :: string
  dv_effective_from :: "time option"
  dv_effective_to :: "time option"
  dv_revoked_at :: "time option"

record knowledge_chunk =
  ck_id :: string
  ck_document_version_id :: string
  ck_parent_chunk_id :: "string option"
  ck_chunk_index :: int
  ck_content :: string
  ck_content_hash :: string
  ck_page_number :: "int option"
  ck_section :: "string option"
  ck_language :: "string option"

section \<open>The payload of a point\<close>

definition compile_acl_payload :: "acl_assignment list \<Rightarrow> string list \<times> string list" where
  "compile_acl_payload assignments =
     (let token = (\<lambda>a. case assignment_token a of None \<Rightarrow> [] | Some t \<Rightarrow> [t]);
          deny = filter (\<lambda>a. effect_of a = EFFECT_DENY) assignments;
          allow = filter (\<lambda>a. effect_of a \<noteq> EFFECT_DENY) assignments
      in (sort (remdups (concat (map token allow))), sort (remdups (concat (map token deny)))))"

definition json_texts :: "string list \<Rightarrow> json" where
  "json_texts ts = JList (map JString ts)"

definition json_text_opt :: "string option \<Rightarrow> json" where
  "json_text_opt t = (case t of None \<Rightarrow> JNull | Some s \<Rightarrow> JString s)"

definition point_acl_payload ::
  "knowledge_base_row \<Rightarrow> acl_assignment list \<Rightarrow> acl_assignment list \<Rightarrow> payload" where
  "point_acl_payload kb kb_assignments document_assignments =
     (let (kb_allows, kb_denies) = compile_acl_payload kb_assignments;
          (document_allows, document_denies) = compile_acl_payload document_assignments;
          scope = JString (if document_allows \<noteq> [] then ''restricted'' else ''inherited'')
      in [(''kb_access_scope'', JString (if kr_access_type kb = ''public'' then ''public'' else ''restricted'')),
          (''kb_allow_principal_tokens'', json_texts kb_allows),
          (''document_access_scope'', scope),
          (''document_allow_principal_tokens'', json_texts document_allows),
          (''deny_principal_tokens'', json_texts (sort (remdups (kb_denies @ document_denies)))),
          (''access_scope'', scope),
          (''allow_principal_tokens'', json_texts (sort (remdups (kb_allows @ document_allows))))])"

definition utc_payload :: "(time \<Rightarrow> string) \<Rightarrow> time option \<Rightarrow> json" where
  "utc_payload date_text t = json_text_opt (map_option date_text t)"

definition point_payload ::
  "(time \<Rightarrow> string) \<Rightarrow> 'x acl_db_scheme \<Rightarrow> knowledge_base_row \<Rightarrow> string \<Rightarrow> string \<Rightarrow> document_row \<Rightarrow> document_version \<Rightarrow> knowledge_chunk \<Rightarrow> payload" where
  "point_payload date_text db kb release_id index_id document version chunk =
     [(''knowledge_base_id'', JString (kr_id kb)),
      (''release_id'', JString release_id),
      (''document_id'', JString (dr_id document)),
      (''document_version_id'', JString (dv_id version)),
      (''chunk_id'', JString (ck_id chunk)),
      (''chunk_index'', JInt (ck_chunk_index chunk)),
      (''page_number'', (case ck_page_number chunk of None \<Rightarrow> JNull | Some n \<Rightarrow> JInt n)),
      (''acl_version'', JInt (max (kr_acl_version kb) (dr_acl_version document))),
      (''status'', JString ''active''),
      (''classification'', JString (dv_classification version)),
      (''language'', json_text_opt (if truthy (ck_language chunk) then ck_language chunk else dv_language version)),
      (''authority'', JString (dv_authority version)),
      (''effective_from'', utc_payload date_text (dv_effective_from version)),
      (''effective_to'', utc_payload date_text (dv_effective_to version)),
      (''revoked_at'', utc_payload date_text (dv_revoked_at version)),
      (''content_hash'', JString (ck_content_hash chunk)),
      (''index_version_id'', JString index_id)] @
     point_acl_payload kb (rows_for (kr_id kb) (rd_kb_access db)) (rows_for (dr_id document) (rd_document_access db))"

section \<open>The filter of a search\<close>

datatype condition =
    Match_Value string string
  | Match_Any string "string list"
  | Range_Lte string time
  | Range_Gte string time
  | Is_Empty string
  | Filter "condition list" "condition list" "condition list"

definition acl_layer_filter :: "string \<Rightarrow> string \<Rightarrow> string \<Rightarrow> string list \<Rightarrow> condition" where
  "acl_layer_filter scope_field unrestricted_value allow_field tokens =
     Filter [] (Match_Value scope_field unrestricted_value # (if tokens \<noteq> [] then [Match_Any allow_field tokens] else [])) []"

definition build_qdrant_retrieval_filter :: "string \<Rightarrow> acl_subject \<Rightarrow> time \<Rightarrow> condition" where
  "build_qdrant_retrieval_filter release_id subject now =
     (let tokens = sort (remdups (principal_tokens subject));
          must = [Match_Value ''release_id'' release_id,
                  Match_Value ''status'' ''active'',
                  Filter [] [Is_Empty ''effective_from'', Range_Lte ''effective_from'' now] [],
                  Filter [] [Is_Empty ''effective_to'', Range_Gte ''effective_to'' now] [],
                  Is_Empty ''revoked_at'']
      in if su_break_glass subject then Filter must [] []
         else Filter (must @
                [acl_layer_filter ''kb_access_scope'' ''public'' ''kb_allow_principal_tokens'' tokens,
                 acl_layer_filter ''document_access_scope'' ''inherited'' ''document_allow_principal_tokens'' tokens]) []
                (if tokens \<noteq> [] then [Match_Any ''deny_principal_tokens'' tokens] else []))"

text \<open>
  What the vector store documents: a filter holds when all of \<open>must\<close>, one of \<open>should\<close> (if there are
  any) and none of \<open>must_not\<close> hold; a value condition on an array holds when one element satisfies
  it; a field is empty when it is missing, null or the empty array; dates are compared as points in
  time.
\<close>

definition field_values :: "payload \<Rightarrow> string \<Rightarrow> json list" where
  "field_values p k = (case dict_get p k of JNull \<Rightarrow> [] | JList vs \<Rightarrow> vs | v \<Rightarrow> [v])"

definition store_semantics :: "(condition \<Rightarrow> payload \<Rightarrow> bool) \<Rightarrow> (time \<Rightarrow> string) \<Rightarrow> bool" where
  "store_semantics matches date_text \<longleftrightarrow>
     (\<forall>p k v. matches (Match_Value k v) p \<longleftrightarrow> JString v \<in> set (field_values p k)) \<and>
     (\<forall>p k vs. matches (Match_Any k vs) p \<longleftrightarrow> (\<exists>v\<in>set vs. JString v \<in> set (field_values p k))) \<and>
     (\<forall>p k now t. dict_get p k = JString (date_text t) \<longrightarrow> (matches (Range_Lte k now) p \<longleftrightarrow> t \<le> now) \<and> (matches (Range_Gte k now) p \<longleftrightarrow> now \<le> t)) \<and>
     (\<forall>p k now. dict_get p k = JNull \<longrightarrow> \<not> matches (Range_Lte k now) p \<and> \<not> matches (Range_Gte k now) p) \<and>
     (\<forall>p k. matches (Is_Empty k) p \<longleftrightarrow> field_values p k = []) \<and>
     (\<forall>p must should must_not. matches (Filter must should must_not) p \<longleftrightarrow>
        (\<forall>c\<in>set must. matches c p) \<and> (should = [] \<or> (\<exists>c\<in>set should. matches c p)) \<and> (\<forall>c\<in>set must_not. \<not> matches c p))"

definition temporally_valid :: "document_version \<Rightarrow> time \<Rightarrow> bool" where
  "temporally_valid version now =
     (if (case dv_effective_from version of None \<Rightarrow> False | Some t \<Rightarrow> now < t) then False
      else if (case dv_effective_to version of None \<Rightarrow> False | Some t \<Rightarrow> t < now) then False
      else dv_revoked_at version = None)"

section \<open>The filter decides what the rules decide\<close>

lemma store_cases:
  assumes "store_semantics matches date_text"
  shows "matches (Match_Value k v) p \<longleftrightarrow> JString v \<in> set (field_values p k)"
    and "matches (Match_Any k vs) p \<longleftrightarrow> (\<exists>v\<in>set vs. JString v \<in> set (field_values p k))"
    and "dict_get p k = utc_payload date_text t \<Longrightarrow> matches (Range_Lte k now) p \<longleftrightarrow> (case t of None \<Rightarrow> False | Some t \<Rightarrow> t \<le> now)"
    and "dict_get p k = utc_payload date_text t \<Longrightarrow> matches (Range_Gte k now) p \<longleftrightarrow> (case t of None \<Rightarrow> False | Some t \<Rightarrow> now \<le> t)"
    and "matches (Is_Empty k) p \<longleftrightarrow> field_values p k = []"
    and "matches (Filter must should must_not) p \<longleftrightarrow>
      (\<forall>c\<in>set must. matches c p) \<and> (should = [] \<or> (\<exists>c\<in>set should. matches c p)) \<and> (\<forall>c\<in>set must_not. \<not> matches c p)"
  using assms by (simp_all add: store_semantics_def utc_payload_def json_text_opt_def split: option.splits)

lemma utc_empty: "dict_get p k = utc_payload date_text t \<Longrightarrow> field_values p k = [] \<longleftrightarrow> t = None"
  by (simp add: field_values_def utc_payload_def json_text_opt_def split: option.split)

definition tokens_with :: "(string \<Rightarrow> bool) \<Rightarrow> acl_assignment list \<Rightarrow> string set" where
  "tokens_with P rows = {t. \<exists>a\<in>set rows. P (effect_of a) \<and> assignment_token a = Some t}"

lemma compile_tokens:
  "set (fst (compile_acl_payload rows)) = tokens_with (\<lambda>e. e \<noteq> EFFECT_DENY) rows"
  "set (snd (compile_acl_payload rows)) = tokens_with (\<lambda>e. e = EFFECT_DENY) rows"
  by (auto simp: compile_acl_payload_def tokens_with_def Let_def split: option.splits)

lemma texts_mem [simp]: "JString v \<in> set (field_values p k) \<longleftrightarrow> v \<in> set ts" if "dict_get p k = json_texts ts"
  using that by (auto simp: field_values_def json_texts_def)

lemma sorted_tokens_Nil [simp]: "sort (remdups (ts :: string list)) = [] \<longleftrightarrow> ts = []"
  by (metis set_empty set_remdups set_sort)

lemma text_mem: "dict_get p k = JString t \<Longrightarrow> JString v \<in> set (field_values p k) \<longleftrightarrow> v = t"
  by (auto simp: field_values_def)

lemma point_fields:
  assumes p: "p = point_payload date_text db kb release_id index_id document version chunk"
  shows "dict_get p ''release_id'' = JString release_id" and "dict_get p ''status'' = JString ''active''"
    and "dict_get p ''effective_from'' = utc_payload date_text (dv_effective_from version)"
    and "dict_get p ''effective_to'' = utc_payload date_text (dv_effective_to version)"
    and "dict_get p ''revoked_at'' = utc_payload date_text (dv_revoked_at version)"
    and "dict_get p ''kb_access_scope'' = JString (if kr_access_type kb = ''public'' then ''public'' else ''restricted'')"
    and "dict_get p ''kb_allow_principal_tokens'' = json_texts (fst (compile_acl_payload (rows_for (kr_id kb) (rd_kb_access db))))"
    and "dict_get p ''document_access_scope'' = JString (if fst (compile_acl_payload (rows_for (dr_id document) (rd_document_access db))) \<noteq> []
      then ''restricted'' else ''inherited'')"
    and "dict_get p ''document_allow_principal_tokens'' = json_texts (fst (compile_acl_payload (rows_for (dr_id document) (rd_document_access db))))"
    and "dict_get p ''deny_principal_tokens'' = json_texts (sort (remdups (snd (compile_acl_payload (rows_for (kr_id kb) (rd_kb_access db))) @
      snd (compile_acl_payload (rows_for (dr_id document) (rd_document_access db))))))"
  by (simp_all add: p point_payload_def point_acl_payload_def dict_get_def Let_def case_prod_unfold)

lemma matched_tokens:
  "list_ex (\<lambda>a. P (effect_of a)) (filter (\<lambda>a. assignment_matches a subject) rows)
    \<longleftrightarrow> (\<exists>t\<in>set (principal_tokens subject). t \<in> tokens_with P rows)"
  by (auto simp: list_ex_iff tokens_with_def assignment_matches_def split: option.splits)

text \<open>Rows as the constraints of their table leave them.\<close>

definition rules_ok :: "acl_assignment list \<Rightarrow> bool" where
  "rules_ok rows \<longleftrightarrow> (\<forall>a\<in>set rows. aa_effect a \<in> {EFFECT_ALLOW, EFFECT_DENY} \<and> assignment_token a \<noteq> None)"

lemma table_rules_ok: "acl_table_ok table \<Longrightarrow> rules_ok (rows_for k table)"
  by (simp add: acl_table_ok_def rules_ok_def rows_for_def)

lemma rules_effect: "rules_ok rows \<Longrightarrow> a \<in> set rows \<Longrightarrow> effect_of a \<noteq> EFFECT_DENY \<longleftrightarrow> effect_of a = EFFECT_ALLOW"
proof -
  have "lower EFFECT_ALLOW = EFFECT_ALLOW" "lower EFFECT_DENY = EFFECT_DENY" "EFFECT_ALLOW \<noteq> EFFECT_DENY" "EFFECT_DENY \<noteq> []"
    by code_simp+
  then show "rules_ok rows \<Longrightarrow> a \<in> set rows \<Longrightarrow> effect_of a \<noteq> EFFECT_DENY \<longleftrightarrow> effect_of a = EFFECT_ALLOW"
    by (auto simp: rules_ok_def effect_of_def)
qed

lemma tokens_allow: "rules_ok rows \<Longrightarrow> tokens_with (\<lambda>e. e \<noteq> EFFECT_DENY) rows = tokens_with (\<lambda>e. e = EFFECT_ALLOW) rows"
  using rules_effect by (auto simp: tokens_with_def)

lemma document_rules_tokens:
  assumes "rules_ok rows"
  shows "document_rules_allow rows subject \<longleftrightarrow>
    \<not> (\<exists>t\<in>set (principal_tokens subject). t \<in> tokens_with (\<lambda>e. e = EFFECT_DENY) rows)
    \<and> (tokens_with (\<lambda>e. e = EFFECT_ALLOW) rows = {} \<or> (\<exists>t\<in>set (principal_tokens subject). t \<in> tokens_with (\<lambda>e. e = EFFECT_ALLOW) rows))"
proof -
  have "list_ex (\<lambda>a. effect_of a = EFFECT_ALLOW) rows \<longleftrightarrow> tokens_with (\<lambda>e. e = EFFECT_ALLOW) rows \<noteq> {}"
    using assms unfolding list_ex_iff tokens_with_def rules_ok_def by (fastforce simp: not_None_eq)
  then show ?thesis
    using matched_tokens [of "\<lambda>e. e = EFFECT_DENY"] matched_tokens [of "\<lambda>e. e = EFFECT_ALLOW"]
    by (auto simp: document_rules_allow_def Let_def tokens_with_def)
qed

lemma kb_rules_tokens:
  assumes "su_active subject" and "\<not> su_break_glass subject" and "su_public_only subject \<or> su_user_id subject = None \<Longrightarrow> principal_tokens subject = []"
    and "t \<in> {ACCESS_PUBLIC, ACCESS_PRIVATE}"
  shows "evaluate_access t rows subject \<longleftrightarrow>
    \<not> (\<exists>t\<in>set (principal_tokens subject). t \<in> tokens_with (\<lambda>e. e = EFFECT_DENY) rows)
    \<and> (t = ACCESS_PUBLIC \<or> (\<exists>t\<in>set (principal_tokens subject). t \<in> tokens_with (\<lambda>e. e = EFFECT_ALLOW) rows))"
proof -
  have "lower (strip ACCESS_PUBLIC) = ACCESS_PUBLIC" "lower (strip ACCESS_PRIVATE) \<noteq> ACCESS_PUBLIC" "ACCESS_PRIVATE \<noteq> ACCESS_PUBLIC"
    "ACCESS_PUBLIC \<noteq> []" "ACCESS_PRIVATE \<noteq> []" by code_simp+
  with assms(4) have "lower (strip (if t = [] then ACCESS_PRIVATE else t)) = ACCESS_PUBLIC \<longleftrightarrow> t = ACCESS_PUBLIC" by auto
  then show ?thesis
    using assms(1-3) matched_tokens [of "\<lambda>e. e = EFFECT_DENY"] matched_tokens [of "\<lambda>e. e = EFFECT_ALLOW"]
    by (auto simp: evaluate_access_def Let_def)
qed

lemma resolved_anonymous:
  assumes "subject = resolve_resource_access_subject db uid key source glass" and "su_public_only subject \<or> su_user_id subject = None"
  shows "principal_tokens subject = []"
  using assms by (auto simp: resolve_resource_access_subject_def Let_def public_subject_def principal_tokens_def truthy_def
      split: if_splits option.splits)

text \<open>The three parts of the filter on a point: time, the two layers of allowed tokens, the denied tokens.\<close>

lemma filter_time:
  assumes "store_semantics matches date_text" and p: "p = point_payload date_text db kb release_id index_id document version chunk"
  shows "matches (Filter [] [Is_Empty ''effective_from'', Range_Lte ''effective_from'' now] []) p
      \<and> matches (Filter [] [Is_Empty ''effective_to'', Range_Gte ''effective_to'' now] []) p \<and> matches (Is_Empty ''revoked_at'') p
      \<longleftrightarrow> temporally_valid version now"
  by (auto simp: store_cases(5,6) [OF assms(1)] store_cases(3) [OF assms(1) point_fields(3) [OF p]]
      store_cases(4) [OF assms(1) point_fields(4) [OF p]] utc_empty [OF point_fields(3) [OF p]] utc_empty [OF point_fields(4) [OF p]]
      utc_empty [OF point_fields(5) [OF p]] temporally_valid_def split: option.splits)

lemma filter_layers:
  assumes "store_semantics matches date_text" and p: "p = point_payload date_text db kb release_id index_id document version chunk"
    and k: "rules_ok (rows_for (kr_id kb) (rd_kb_access db))" and d: "rules_ok (rows_for (dr_id document) (rd_document_access db))"
  shows "matches (acl_layer_filter ''kb_access_scope'' ''public'' ''kb_allow_principal_tokens'' (sort (remdups toks))) p
      \<longleftrightarrow> kr_access_type kb = ''public'' \<or> (\<exists>t\<in>set toks. t \<in> tokens_with (\<lambda>e. e = EFFECT_ALLOW) (rows_for (kr_id kb) (rd_kb_access db)))"
    and "matches (acl_layer_filter ''document_access_scope'' ''inherited'' ''document_allow_principal_tokens'' (sort (remdups toks))) p
      \<longleftrightarrow> tokens_with (\<lambda>e. e = EFFECT_ALLOW) (rows_for (dr_id document) (rd_document_access db)) = {}
        \<or> (\<exists>t\<in>set toks. t \<in> tokens_with (\<lambda>e. e = EFFECT_ALLOW) (rows_for (dr_id document) (rd_document_access db)))"
    and "matches (Match_Any ''deny_principal_tokens'' (sort (remdups toks))) p
      \<longleftrightarrow> (\<exists>t\<in>set toks. t \<in> tokens_with (\<lambda>e. e = EFFECT_DENY) (rows_for (kr_id kb) (rd_kb_access db)))
        \<or> (\<exists>t\<in>set toks. t \<in> tokens_with (\<lambda>e. e = EFFECT_DENY) (rows_for (dr_id document) (rd_document_access db)))"
proof -
  note m = store_cases [OF assms(1)] and f = point_fields [OF p]
  let ?d = "rows_for (dr_id document) (rd_document_access db)"
  have ne: "fst (compile_acl_payload ?d) = [] \<longleftrightarrow> tokens_with (\<lambda>e. e = EFFECT_ALLOW) ?d = {}"
    using compile_tokens(1) [of ?d] tokens_allow [OF d] by (metis set_empty)
  show "matches (acl_layer_filter ''kb_access_scope'' ''public'' ''kb_allow_principal_tokens'' (sort (remdups toks))) p
      \<longleftrightarrow> kr_access_type kb = ''public'' \<or> (\<exists>t\<in>set toks. t \<in> tokens_with (\<lambda>e. e = EFFECT_ALLOW) (rows_for (kr_id kb) (rd_kb_access db)))"
    by (auto simp: acl_layer_filter_def m(1,2,6) text_mem [OF f(6)] texts_mem [OF f(7)] compile_tokens(1) tokens_allow [OF k])
  show "matches (acl_layer_filter ''document_access_scope'' ''inherited'' ''document_allow_principal_tokens'' (sort (remdups toks))) p
      \<longleftrightarrow> tokens_with (\<lambda>e. e = EFFECT_ALLOW) ?d = {} \<or> (\<exists>t\<in>set toks. t \<in> tokens_with (\<lambda>e. e = EFFECT_ALLOW) ?d)"
    by (auto simp: acl_layer_filter_def m(1,2,6) text_mem [OF f(8)] texts_mem [OF f(9)] ne compile_tokens(1) tokens_allow [OF d])
  show "matches (Match_Any ''deny_principal_tokens'' (sort (remdups toks))) p
      \<longleftrightarrow> (\<exists>t\<in>set toks. t \<in> tokens_with (\<lambda>e. e = EFFECT_DENY) (rows_for (kr_id kb) (rd_kb_access db)))
        \<or> (\<exists>t\<in>set toks. t \<in> tokens_with (\<lambda>e. e = EFFECT_DENY) ?d)"
    by (auto simp: m(2) texts_mem [OF f(10)] compile_tokens(2))
qed

lemma document_access_tokens:
  assumes "subject = resolve_resource_access_subject db uid key source glass" and "su_active subject" and "\<not> su_break_glass subject"
    and "rules_ok (rows_for (dr_id document) (rd_document_access db))"
    and kb: "fetch kr_id (dr_knowledge_base_id document) (rd_knowledge_bases db) = Some kb" and "kr_access_type kb \<in> {ACCESS_PUBLIC, ACCESS_PRIVATE}"
  shows "user_can_access_document db document subject \<longleftrightarrow>
    (let holds = (\<lambda>P rows. \<exists>t\<in>set (principal_tokens subject). t \<in> tokens_with P rows);
         k = rows_for (kr_id kb) (rd_kb_access db); d = rows_for (dr_id document) (rd_document_access db)
     in \<not> holds (\<lambda>e. e = EFFECT_DENY) k \<and> (kr_access_type kb = ''public'' \<or> holds (\<lambda>e. e = EFFECT_ALLOW) k)
        \<and> \<not> holds (\<lambda>e. e = EFFECT_DENY) d \<and> (tokens_with (\<lambda>e. e = EFFECT_ALLOW) d = {} \<or> holds (\<lambda>e. e = EFFECT_ALLOW) d))"
proof -
  have kbe: "evaluate_access (kr_access_type kb) (rows_for (kr_id kb) (rd_kb_access db)) subject \<longleftrightarrow>
      \<not> (\<exists>t\<in>set (principal_tokens subject). t \<in> tokens_with (\<lambda>e. e = EFFECT_DENY) (rows_for (kr_id kb) (rd_kb_access db)))
      \<and> (kr_access_type kb = ACCESS_PUBLIC
        \<or> (\<exists>t\<in>set (principal_tokens subject). t \<in> tokens_with (\<lambda>e. e = EFFECT_ALLOW) (rows_for (kr_id kb) (rd_kb_access db))))"
    by (rule kb_rules_tokens [OF assms(2,3) _ assms(6)]) (rule resolved_anonymous [OF assms(1)])
  show ?thesis
    unfolding user_can_access_document_def user_can_access_knowledge_base_def kb option.case kbe document_rules_tokens [OF assms(4)]
      ACCESS_PUBLIC_def [symmetric] Let_def
    using assms(3) by (simp only: if_False if_bool_eq_disj) blast
qed

text \<open>
  C25: for the points that carry the current rules, the filter of a search and the rules of the
  database agree: a point of the release passes exactly when its version is in force and the subject
  may read its document.
\<close>

theorem search_filter_agrees:
  assumes "store_semantics matches date_text"
    and "subject = resolve_resource_access_subject db uid key source glass" and "su_active subject"
    and "acl_table_ok (rd_kb_access db)" and "acl_table_ok (rd_document_access db)"
    and "fetch kr_id (dr_knowledge_base_id document) (rd_knowledge_bases db) = Some kb" and "kr_access_type kb \<in> {ACCESS_PUBLIC, ACCESS_PRIVATE}"
  shows "matches (build_qdrant_retrieval_filter release_id subject now)
      (point_payload date_text db kb point_release index_id document version chunk)
    \<longleftrightarrow> point_release = release_id \<and> temporally_valid version now \<and> user_can_access_document db document subject"
proof -
  let ?p = "point_payload date_text db kb point_release index_id document version chunk"
  note m = store_cases [OF assms(1)] and times = filter_time [OF assms(1) refl [of ?p]] and f = point_fields [OF refl [of ?p]]
  have release: "matches (Match_Value ''release_id'' release_id) ?p \<longleftrightarrow> point_release = release_id" "matches (Match_Value ''status'' ''active'') ?p"
    by (auto simp: m(1) text_mem [OF f(1)] text_mem [OF f(2)])
  show ?thesis
  proof (cases "su_break_glass subject")
    case True
    with assms(3,6) have "user_can_access_document db document subject"
      by (simp add: user_can_access_document_def user_can_access_knowledge_base_def evaluate_access_def)
    with True release show ?thesis unfolding times [symmetric]
      by (simp add: build_qdrant_retrieval_filter_def Let_def m(6) [of "_ # _"])
  next
    case False
    note layers = filter_layers [OF assms(1) refl [of ?p] table_rules_ok [OF assms(4)] table_rules_ok [OF assms(5)]]
      and sql = document_access_tokens [OF assms(2,3) False table_rules_ok [OF assms(5)] assms(6,7)]
    have "matches (build_qdrant_retrieval_filter release_id subject now) ?p \<longleftrightarrow> point_release = release_id \<and> temporally_valid version now
        \<and> matches (acl_layer_filter ''kb_access_scope'' ''public'' ''kb_allow_principal_tokens'' (sort (remdups (principal_tokens subject)))) ?p
        \<and> matches (acl_layer_filter ''document_access_scope'' ''inherited'' ''document_allow_principal_tokens'' (sort (remdups (principal_tokens subject)))) ?p
        \<and> \<not> (principal_tokens subject \<noteq> [] \<and> matches (Match_Any ''deny_principal_tokens'' (sort (remdups (principal_tokens subject)))) ?p)"
      using False release unfolding times [symmetric]
      by (simp add: build_qdrant_retrieval_filter_def Let_def m(6) [of "_ # _"]) blast
    then show ?thesis unfolding layers sql Let_def by auto
  qed
qed

text \<open>A store that reads dates as their number of microseconds has the documented semantics.\<close>

fun eval_condition :: "condition \<Rightarrow> payload \<Rightarrow> bool" where
  "eval_condition (Match_Value k v) p = (JString v \<in> set (field_values p k))"
| "eval_condition (Match_Any k vs) p = (\<exists>v\<in>set vs. JString v \<in> set (field_values p k))"
| "eval_condition (Range_Lte k now) p =
     (case dict_get p k of JString s \<Rightarrow> (case parse_int s of None \<Rightarrow> False | Some t \<Rightarrow> t \<le> now) | _ \<Rightarrow> False)"
| "eval_condition (Range_Gte k now) p =
     (case dict_get p k of JString s \<Rightarrow> (case parse_int s of None \<Rightarrow> False | Some t \<Rightarrow> now \<le> t) | _ \<Rightarrow> False)"
| "eval_condition (Is_Empty k) p = (field_values p k = [])"
| "eval_condition (Filter must should must_not) p =
     ((\<forall>c\<in>set must. eval_condition c p) \<and> (should = [] \<or> (\<exists>c\<in>set should. eval_condition c p)) \<and>
      (\<forall>c\<in>set must_not. \<not> eval_condition c p))"

lemma eval_condition_store: "store_semantics eval_condition show_int"
  by (simp add: store_semantics_def parse_int_show_int)

definition sample_version :: document_version where
  "sample_version = \<lparr>dv_id = ''v1'', dv_document_id = ''d1'', dv_status = ''published'', dv_file_name = ''leave.md'',
     dv_mime_type = ''text/markdown'', dv_language = None, dv_classification = ''internal'', dv_authority = ''policy'',
     dv_effective_from = Some 3, dv_effective_to = None, dv_revoked_at = None\<rparr>"

definition sample_chunk :: knowledge_chunk where
  "sample_chunk = \<lparr>ck_id = ''c1'', ck_document_version_id = ''v1'', ck_parent_chunk_id = None, ck_chunk_index = 0,
     ck_content = ''enc:v1:t'', ck_content_hash = ''0'' @ [CHR 0x00] @ ''t'', ck_page_number = None, ck_section = None, ck_language = None\<rparr>"

lemma sample_tables_ok:
  "acl_table_ok (rd_kb_access (sample_acl rules))" "acl_table_ok (rd_document_access (sample_acl rules))"
proof -
  have "assignment_token (legal_rule\<lparr>aa_resource_id := ''d1''\<rparr>) \<noteq> None" by code_simp
  then show "acl_table_ok (rd_kb_access (sample_acl rules))" "acl_table_ok (rd_document_access (sample_acl rules))"
    by (simp_all add: acl_table_ok_def sample_acl_def one_target_def legal_rule_def EFFECT_ALLOW_def)
qed

theorem search_filter_agrees_witness:
  "let db = sample_acl []; kb = hd (rd_knowledge_bases db); document = hd (rd_documents db);
       point = point_payload show_int db kb ''r1'' ''i1'' document sample_version sample_chunk;
       search = (\<lambda>key now. eval_condition (build_qdrant_retrieval_filter ''r1'' (resolve_resource_access_subject db (Some 1) None key False) now) point)
   in store_semantics eval_condition show_int \<and> search None 5 \<and> \<not> search None 2 \<and> \<not> search (Some ''master'') 5"
proof -
  let ?db = "sample_acl []" and ?s = "\<lambda>key. resolve_resource_access_subject (sample_acl []) (Some 1) None key False"
  let ?kb = "hd (rd_knowledge_bases (sample_acl []))" and ?d = "hd (rd_documents (sample_acl []))"
  have kb: "fetch kr_id (dr_knowledge_base_id ?d) (rd_knowledge_bases ?db) = Some ?kb" "kr_access_type ?kb \<in> {ACCESS_PUBLIC, ACCESS_PRIVATE}"
    by code_simp+
  have act: "su_active (?s None)" "su_active (?s (Some ''master''))" by code_simp+
  have "temporally_valid sample_version 5" "\<not> temporally_valid sample_version 2" "user_can_access_document ?db ?d (?s None)"
    "\<not> user_can_access_document ?db ?d (?s (Some ''master''))" by code_simp+
  then show ?thesis
    using search_filter_agrees [OF eval_condition_store refl act(1) sample_tables_ok kb, of "''r1''" _ "''r1''" "''i1''" sample_version sample_chunk]
      search_filter_agrees [OF eval_condition_store refl act(2) sample_tables_ok kb, of "''r1''" _ "''r1''" "''i1''" sample_version sample_chunk]
    by (simp add: Let_def eval_condition_store del: eval_condition.simps)
qed

end
