(* ===== verification/Knowledge_Retrieval.thy ===== *)
theory Knowledge_Retrieval
  imports Knowledge_Search "HOL-Library.Product_Lexorder"
begin

text \<open>
  A whole search in organization Knowledge (\<open>services/knowledge_retrieval_service.py\<close>): the policy
  of the Agent version, its bound and accessible sources, rank fusion, the second authorization
  against the database, decryption with its integrity check (\<open>services/knowledge_crypto_service.py\<close>),
  the choice of evidence, and the context that is handed to the model.

  Arguments (\<open>retrieval_env\<close>): the embedding backend and the vector store as one search, the
  reranker, AES-GCM, base64 and SHA-256, the text of dates and of JSON values that are not text or
  integers. Scores are exact rationals. Text is its UTF-8 encoding; a column of text is assumed to
  hold valid text, what a cipher returns is checked as \<open>decode\<close> does.
\<close>

section \<open>Results of steps\<close>

definition and_then :: "'a result \<Rightarrow> ('a \<Rightarrow> 'b result) \<Rightarrow> 'b result" where
  "and_then r f = (case r of Inl e \<Rightarrow> Inl e | Inr x \<Rightarrow> f x)"

lemma and_then_simps [simp]: "and_then (Inl e) f = Inl e" "and_then (Inr x) f = f x"
  by (simp_all add: and_then_def)

lemma and_then_Inr [simp]: "and_then r f = Inr y \<longleftrightarrow> (\<exists>x. r = Inr x \<and> f x = Inr y)"
  by (cases r) simp_all

section \<open>Rows\<close>

record knowledge_release =
  rl_id :: string
  rl_knowledge_base_id :: string
  rl_status :: string
  rl_active_scope_key :: "string option"

record knowledge_binding =
  bi_agent_version_id :: string
  bi_knowledge_base_id :: string
  bi_release_mode :: string
  bi_pinned_release_id :: "string option"
  bi_status :: string

record index_version =
  iv_id :: string
  iv_release_id :: string
  iv_version_number :: int
  iv_status :: string

record agent_version =
  av_id :: string
  av_status :: string
  av_published_at :: "time option"
  av_retrieval_policy :: payload

record retrieval_db = acl_db +
  sd_agent_versions :: "agent_version list"
  sd_bindings :: "knowledge_binding list"
  sd_releases :: "knowledge_release list"
  sd_release_documents :: "(string \<times> string) list"
  sd_index_versions :: "index_version list"
  sd_versions :: "document_version list"
  sd_chunks :: "knowledge_chunk list"

section \<open>The policy\<close>

record retrieval_settings =
  st_max_query_characters :: int
  st_candidate_limit :: int
  st_final_limit :: int
  st_rrf_k :: int
  st_max_chunks_per_document :: int
  st_context_token_budget :: int
  st_dense_score_threshold :: rat
  st_sparse_score_threshold :: rat

record retrieval_policy =
  rp_candidate_limit :: int
  rp_final_limit :: int
  rp_rrf_k :: int
  rp_max_chunks_per_document :: int
  rp_context_token_budget :: int
  rp_minimum_answerability_score :: rat
  rp_dense_weight :: rat
  rp_sparse_weight :: rat
  rp_dense_score_threshold :: rat
  rp_sparse_score_threshold :: rat
  rp_citations_required :: bool
  rp_fail_closed :: bool

definition bounded_int :: "payload \<Rightarrow> string \<Rightarrow> int \<Rightarrow> int \<Rightarrow> int \<Rightarrow> int result" where
  "bounded_int raw key dflt minimum maximum =
     and_then (case map_of raw key of None \<Rightarrow> Inr dflt | Some v \<Rightarrow> py_int v) (\<lambda>i. Inr (max minimum (min maximum i)))"

definition bounded_float :: "payload \<Rightarrow> string \<Rightarrow> rat \<Rightarrow> rat \<Rightarrow> rat \<Rightarrow> rat result" where
  "bounded_float raw key dflt minimum maximum =
     and_then
       (case map_of raw key of
          None \<Rightarrow> Inr dflt
        | Some v \<Rightarrow>
            (case py_float v of
               Some r \<Rightarrow> Inr r
             | None \<Rightarrow> Inl (case v of JString _ \<Rightarrow> ValueError ''could not convert string to float'' | _ \<Rightarrow> TypeError ''float() argument'')))
       (\<lambda>r. Inr (max minimum (min maximum r)))"

definition bool_or :: "payload \<Rightarrow> string \<Rightarrow> bool \<Rightarrow> bool" where
  "bool_or raw key dflt = (case map_of raw key of None \<Rightarrow> dflt | Some v \<Rightarrow> json_truthy v)"

definition MAX_KNOWLEDGE_BASES_PER_AGENT :: nat where
  "MAX_KNOWLEDGE_BASES_PER_AGENT = 64"

definition MAX_CANDIDATES :: nat where
  "MAX_CANDIDATES = 1000"

definition MAX_FINAL_RESULTS :: int where
  "MAX_FINAL_RESULTS = 32"

definition MAX_CONTEXT_TOKENS :: int where
  "MAX_CONTEXT_TOKENS = 32768"

definition from_dict :: "retrieval_settings \<Rightarrow> payload \<Rightarrow> retrieval_policy result" where
  "from_dict settings raw =
     and_then (bounded_int raw ''candidate_limit'' (st_candidate_limit settings) 1 200) (\<lambda>candidates.
     and_then (bounded_int raw ''final_limit'' (st_final_limit settings) 1 MAX_FINAL_RESULTS) (\<lambda>final.
     and_then (bounded_int raw ''rrf_k'' (st_rrf_k settings) 1 1000) (\<lambda>rrf_k.
     and_then (bounded_int raw ''max_chunks_per_document'' (st_max_chunks_per_document settings) 1 10) (\<lambda>chunks.
     and_then (bounded_int raw ''context_token_budget'' (st_context_token_budget settings) 128 MAX_CONTEXT_TOKENS) (\<lambda>budget.
     and_then (bounded_float raw ''minimum_answerability_score'' (35 / 100) 0 1) (\<lambda>answerability.
     and_then (bounded_float raw ''dense_weight'' 1 0 10) (\<lambda>dense.
     and_then (bounded_float raw ''sparse_weight'' 1 0 10) (\<lambda>sparse.
     and_then (bounded_float raw ''dense_score_threshold'' (st_dense_score_threshold settings) (- 1) 1) (\<lambda>dense_threshold.
     and_then (bounded_float raw ''sparse_score_threshold'' (st_sparse_score_threshold settings) 0 1000000) (\<lambda>sparse_threshold.
       Inr \<lparr>rp_candidate_limit = candidates, rp_final_limit = final, rp_rrf_k = rrf_k, rp_max_chunks_per_document = chunks,
            rp_context_token_budget = budget, rp_minimum_answerability_score = answerability, rp_dense_weight = dense,
            rp_sparse_weight = sparse, rp_dense_score_threshold = dense_threshold, rp_sparse_score_threshold = sparse_threshold,
            rp_citations_required = bool_or raw ''citations_required'' True, rp_fail_closed = bool_or raw ''fail_closed'' True\<rparr>))))))))))"

section \<open>Rank fusion\<close>

record search_hit =
  ht_point_id :: string
  ht_score :: rat
  ht_payload :: payload

record fused_candidate =
  fc_chunk_id :: string
  fc_release_id :: string
  fc_index_version_id :: string
  fc_payload :: payload
  fc_rrf_score :: rat
  fc_dense_score :: "rat option"
  fc_sparse_score :: "rat option"
  fc_dense_rank :: "int option"
  fc_sparse_rank :: "int option"

datatype channel = Dense | Sparse

text \<open>\<open>str(value or alternative)\<close>.\<close>

definition str_or :: "(json \<Rightarrow> string) \<Rightarrow> payload \<Rightarrow> string \<Rightarrow> string \<Rightarrow> string" where
  "str_or repr p key alternative = (let v = dict_get p key in if json_truthy v then json_str repr v else alternative)"

definition note_rank :: "channel \<Rightarrow> rat \<Rightarrow> int \<Rightarrow> fused_candidate \<Rightarrow> fused_candidate" where
  "note_rank channel score rank c =
     (case channel of
        Dense \<Rightarrow> c\<lparr>fc_dense_score := Some score, fc_dense_rank := Some rank\<rparr>
      | Sparse \<Rightarrow> c\<lparr>fc_sparse_score := Some score, fc_sparse_rank := Some rank\<rparr>)"

text \<open>One hit: the entry of its chunk is made if it is missing, and gains the share of the rank.\<close>

definition fuse_hit ::
  "(json \<Rightarrow> string) \<Rightarrow> string \<Rightarrow> string \<Rightarrow> int \<Rightarrow> channel \<Rightarrow> rat \<Rightarrow> int \<Rightarrow> search_hit \<Rightarrow> fused_candidate list \<Rightarrow> fused_candidate list" where
  "fuse_hit repr release_id index_id rrf_k channel weight rank hit accumulated =
     (let chunk_id = str_or repr (ht_payload hit) ''chunk_id'' (ht_point_id hit)
      in if chunk_id = [] \<or> chunk_id \<noteq> ht_point_id hit then accumulated
         else
           let entries = (if fetch fc_chunk_id chunk_id accumulated = None
                          then accumulated @ [\<lparr>fc_chunk_id = chunk_id, fc_release_id = release_id, fc_index_version_id = index_id,
                                 fc_payload = ht_payload hit, fc_rrf_score = 0, fc_dense_score = None, fc_sparse_score = None,
                                 fc_dense_rank = None, fc_sparse_rank = None\<rparr>]
                          else accumulated)
           in modify fc_chunk_id chunk_id
                (\<lambda>c. note_rank channel (ht_score hit) rank (c\<lparr>fc_rrf_score := fc_rrf_score c + weight / of_int (rrf_k + rank)\<rparr>)) entries)"

fun fuse_hits ::
  "(json \<Rightarrow> string) \<Rightarrow> string \<Rightarrow> string \<Rightarrow> int \<Rightarrow> channel \<Rightarrow> rat \<Rightarrow> int \<Rightarrow> search_hit list \<Rightarrow> fused_candidate list \<Rightarrow> fused_candidate list" where
  "fuse_hits repr release_id index_id rrf_k channel weight rank [] accumulated = accumulated"
| "fuse_hits repr release_id index_id rrf_k channel weight rank (hit # hits) accumulated =
     fuse_hits repr release_id index_id rrf_k channel weight (rank + 1) hits
       (fuse_hit repr release_id index_id rrf_k channel weight rank hit accumulated)"

definition by_score :: "fused_candidate list \<Rightarrow> fused_candidate list" where
  "by_score = sort_key (\<lambda>c. (- fc_rrf_score c, fc_chunk_id c))"

definition reciprocal_rank_fusion ::
  "(json \<Rightarrow> string) \<Rightarrow> (channel \<times> search_hit list \<times> rat) list \<Rightarrow> string \<Rightarrow> string \<Rightarrow> int \<Rightarrow> (fused_candidate list) result" where
  "reciprocal_rank_fusion repr rankings release_id index_id rrf_k =
     (if rrf_k < 1 then Inl (ValueError ''rrf_k must be positive'')
      else Inr (by_score (foldl (\<lambda>accumulated (channel, hits, weight).
             if weight \<le> 0 then accumulated else fuse_hits repr release_id index_id rrf_k channel weight 1 hits accumulated) [] rankings)))"

section \<open>Sources\<close>

record retrieval_source =
  so_knowledge_base :: knowledge_base_row
  so_release :: knowledge_release
  so_index_version :: index_version

definition binding_release :: "retrieval_db \<Rightarrow> knowledge_binding \<Rightarrow> knowledge_base_row \<Rightarrow> knowledge_release option" where
  "binding_release db binding kb =
     (if bi_release_mode binding = ''pinned''
      then (case (if truthy (bi_pinned_release_id binding) then fetch rl_id (the (bi_pinned_release_id binding)) (sd_releases db) else None) of
              None \<Rightarrow> None
            | Some release \<Rightarrow>
                if rl_knowledge_base_id release \<noteq> kr_id kb \<or> rl_status release \<notin> {''published'', ''archived''} then None else Some release)
      else find (\<lambda>r. rl_knowledge_base_id r = kr_id kb \<and> rl_active_scope_key r = Some (''kb-release:'' @ kr_id kb) \<and>
                     rl_status r = ''published'') (sd_releases db))"

definition newest_index :: "retrieval_db \<Rightarrow> knowledge_release \<Rightarrow> index_version option" where
  "newest_index db release =
     (case sort_key (\<lambda>i. - iv_version_number i)
             (filter (\<lambda>i. iv_release_id i = rl_id release \<and> iv_status i \<in> {''active'', ''retired''}) (sd_index_versions db)) of
        [] \<Rightarrow> None
      | i # _ \<Rightarrow> Some i)"

definition binding_source :: "retrieval_db \<Rightarrow> knowledge_base_row list \<Rightarrow> knowledge_binding \<Rightarrow> retrieval_source list" where
  "binding_source db allowed binding =
     (case fetch kr_id (bi_knowledge_base_id binding) allowed of
        None \<Rightarrow> []
      | Some kb \<Rightarrow>
          (case binding_release db binding kb of
             None \<Rightarrow> []
           | Some release \<Rightarrow>
               (case newest_index db release of
                  None \<Rightarrow> []
                | Some index \<Rightarrow> [\<lparr>so_knowledge_base = kb, so_release = release, so_index_version = index\<rparr>])))"

definition resolve_sources :: "retrieval_db \<Rightarrow> string \<Rightarrow> acl_subject \<Rightarrow> (retrieval_source list) result" where
  "resolve_sources db agent_version_id subject =
     (let bindings = take (MAX_KNOWLEDGE_BASES_PER_AGENT + 1) (sort_key bi_knowledge_base_id
            (filter (\<lambda>b. bi_agent_version_id b = agent_version_id \<and> bi_status b = ''published'') (sd_bindings db)));
          ids = map bi_knowledge_base_id bindings
      in if MAX_KNOWLEDGE_BASES_PER_AGENT < length bindings
         then Inl (ValueError ''Agent Knowledge bindings exceed the runtime safety limit'')
         else if ids = [] then Inr []
         else
           let kbs = filter (\<lambda>kb. kr_id kb \<in> set ids \<and> kr_status kb = ''active'') (rd_knowledge_bases db);
               allowed = filter_knowledge_bases_for_subject db kbs subject
           in Inr (concat (map (binding_source db allowed) bindings)))"

section \<open>Encrypted text\<close>

record cipher =
  ci_b64decode :: "string \<Rightarrow> string option"
  ci_aesgcm_decrypt :: "string \<Rightarrow> string \<Rightarrow> string \<Rightarrow> string result"
  ci_sha256 :: "string \<Rightarrow> string"

definition continuation :: "char \<Rightarrow> bool" where
  "continuation c \<longleftrightarrow> 0x80 \<le> (of_char c :: int) \<and> (of_char c :: int) \<le> 0xBF"

text \<open>The number of characters of a text: its bytes that begin one.\<close>

definition characters :: "string \<Rightarrow> nat" where
  "characters s = length (filter (\<lambda>c. \<not> continuation c) s)"

text \<open>Well-formed UTF-8: no overlong forms, no surrogates, nothing above \<open>U+10FFFF\<close>.\<close>

fun utf8_valid :: "string \<Rightarrow> bool" where
  "utf8_valid [] = True"
| "utf8_valid (a # s) =
     (let x = (of_char a :: int)
      in if x < 0x80 then utf8_valid s
         else if 0xC2 \<le> x \<and> x \<le> 0xDF then (case s of b # r \<Rightarrow> continuation b \<and> utf8_valid r | _ \<Rightarrow> False)
         else if 0xE0 \<le> x \<and> x \<le> 0xEF
         then (case s of
                 b # c # r \<Rightarrow> continuation b \<and> continuation c \<and> (x = 0xE0 \<longrightarrow> 0xA0 \<le> (of_char b :: int)) \<and>
                   (x = 0xED \<longrightarrow> (of_char b :: int) \<le> 0x9F) \<and> utf8_valid r
               | _ \<Rightarrow> False)
         else if 0xF0 \<le> x \<and> x \<le> 0xF4
         then (case s of
                 b # c # d # r \<Rightarrow> continuation b \<and> continuation c \<and> continuation d \<and>
                   (x = 0xF0 \<longrightarrow> 0x90 \<le> (of_char b :: int)) \<and> (x = 0xF4 \<longrightarrow> (of_char b :: int) \<le> 0x8F) \<and> utf8_valid r
               | _ \<Rightarrow> False)
         else False)"

definition BINARY_MAGIC :: string where
  "BINARY_MAGIC = ''AKN1''"

definition TEXT_PREFIX :: string where
  "TEXT_PREFIX = ''enc:v1:''"

definition NONCE_BYTES :: nat where
  "NONCE_BYTES = 12"

definition decrypt_bytes :: "cipher \<Rightarrow> string \<Rightarrow> string \<Rightarrow> string result" where
  "decrypt_bytes ci envelope associated_data =
     (let minimum = length BINARY_MAGIC + NONCE_BYTES + 16
      in if length envelope < minimum \<or> \<not> starts_with BINARY_MAGIC envelope
         then Inl (ValueError ''Invalid Knowledge encryption envelope'')
         else
           let nonce_start = length BINARY_MAGIC
           in ci_aesgcm_decrypt ci (take NONCE_BYTES (drop nonce_start envelope)) (drop (nonce_start + NONCE_BYTES) envelope) associated_data)"

definition decrypt_text :: "cipher \<Rightarrow> string \<Rightarrow> string \<Rightarrow> string result" where
  "decrypt_text ci envelope associated_data =
     (if \<not> starts_with TEXT_PREFIX envelope then Inl (ValueError ''Unencrypted Knowledge chunk content is not accepted'')
      else
        (case ci_b64decode ci (drop (length TEXT_PREFIX) envelope) of
           None \<Rightarrow> Inl (ValueError ''base64'')
         | Some raw \<Rightarrow>
             and_then (decrypt_bytes ci raw associated_data)
               (\<lambda>plain. if utf8_valid plain then Inr plain else Inl (ValueError ''utf-8''))))"

definition chunk_plaintext_hash :: "cipher \<Rightarrow> int \<Rightarrow> string \<Rightarrow> string" where
  "chunk_plaintext_hash ci chunk_index plain = ci_sha256 ci (show_int chunk_index @ [CHR 0x00] @ plain)"

text \<open>The text of a chunk, decrypted and compared with its digest.\<close>

definition read_chunk :: "cipher \<Rightarrow> string \<Rightarrow> knowledge_chunk \<Rightarrow> string result" where
  "read_chunk ci message chunk =
     and_then (decrypt_text ci (ck_content chunk) (''knowledge-chunk:'' @ ck_id chunk))
       (\<lambda>plain. if chunk_plaintext_hash ci (ck_chunk_index chunk) plain \<noteq> ck_content_hash chunk then Inl (ValueError message) else Inr plain)"

section \<open>Authorization after the search\<close>

record authorized_candidate =
  ac_fused :: fused_candidate
  ac_chunk :: knowledge_chunk
  ac_context_chunk :: knowledge_chunk
  ac_document :: document_row
  ac_version :: document_version
  ac_child_text :: string
  ac_context_text :: string

type_synonym chunk_row = "knowledge_chunk \<times> document_version \<times> document_row"

text \<open>The three-table join on the chunks of the candidates, and the dictionary made of it.\<close>

definition chunk_rows :: "retrieval_db \<Rightarrow> string list \<Rightarrow> chunk_row list" where
  "chunk_rows db chunk_ids =
     concat (map (\<lambda>chunk.
       (case fetch dv_id (ck_document_version_id chunk) (sd_versions db) of
          None \<Rightarrow> []
        | Some version \<Rightarrow>
            (case fetch dr_id (dv_document_id version) (rd_documents db) of
               None \<Rightarrow> []
             | Some document \<Rightarrow> [(chunk, version, document)])))
       (filter (\<lambda>chunk. ck_id chunk \<in> set chunk_ids) (sd_chunks db)))"

definition row_by_chunk :: "chunk_row list \<Rightarrow> string \<Rightarrow> chunk_row option" where
  "row_by_chunk rows = map_of (rev (map (\<lambda>row. (ck_id (fst row), row)) rows))"

text \<open>The tests of one candidate against its row; \<open>allowed\<close> are the ids of the accessible documents.\<close>

definition candidate_admitted ::
  "(json \<Rightarrow> string) \<Rightarrow> time \<Rightarrow> string list \<Rightarrow> (string \<times> string) list \<Rightarrow> fused_candidate \<Rightarrow> chunk_row \<Rightarrow> bool" where
  "candidate_admitted repr now allowed memberships candidate row =
     (case row of (chunk, version, document) \<Rightarrow>
        let field = (\<lambda>key. str_or repr (fc_payload candidate) key [])
        in dr_id document \<in> set allowed \<and> dr_status document = ''active'' \<and>
           dr_revoked_at document = None \<and> dr_deleted_at document = None \<and>
           dv_status version \<in> {''published'', ''superseded''} \<and> temporally_valid version now \<and>
           (fc_release_id candidate, dv_id version) \<in> set memberships \<and>
           field ''document_id'' = dr_id document \<and> field ''document_version_id'' = dv_id version \<and>
           field ''knowledge_base_id'' = dr_knowledge_base_id document \<and> field ''release_id'' = fc_release_id candidate \<and>
           field ''index_version_id'' = fc_index_version_id candidate \<and> field ''content_hash'' = ck_content_hash chunk)"

definition preliminary ::
  "(json \<Rightarrow> string) \<Rightarrow> retrieval_db \<Rightarrow> acl_subject \<Rightarrow> time \<Rightarrow> fused_candidate list \<Rightarrow> (fused_candidate \<times> chunk_row) list" where
  "preliminary repr db subject now bounded =
     (let rows = chunk_rows db (map fc_chunk_id bounded);
          documents = remdups (map (\<lambda>(_, _, document). document) rows);
          allowed = map dr_id (filter_documents_for_subject db documents subject);
          release_ids = map fc_release_id bounded;
          memberships = filter (\<lambda>(release_id, _). release_id \<in> set release_ids) (sd_release_documents db);
          releases = filter (\<lambda>r. rl_id r \<in> set release_ids) (sd_releases db)
      in concat (map (\<lambda>candidate.
           (case (row_by_chunk rows (fc_chunk_id candidate), fetch rl_id (fc_release_id candidate) releases) of
              (Some row, Some release) \<Rightarrow>
                if rl_status release \<in> {''published'', ''archived''} \<and> candidate_admitted repr now allowed memberships candidate row
                then [(candidate, row)] else []
            | _ \<Rightarrow> [])) bounded))"

fun authorize_each ::
  "cipher \<Rightarrow> knowledge_chunk list \<Rightarrow> (fused_candidate \<times> chunk_row) list \<Rightarrow> (authorized_candidate list) result" where
  "authorize_each ci parents [] = Inr []"
| "authorize_each ci parents ((candidate, (chunk, version, document)) # rest) =
     and_then (read_chunk ci ''Knowledge child chunk integrity verification failed'' chunk) (\<lambda>child_text.
       let context_chunk = (case ck_parent_chunk_id chunk of
                              None \<Rightarrow> chunk
                            | Some parent_id \<Rightarrow> (case fetch ck_id parent_id parents of None \<Rightarrow> chunk | Some parent \<Rightarrow> parent))
       in if ck_document_version_id context_chunk \<noteq> ck_document_version_id chunk then authorize_each ci parents rest
          else
            and_then (if ck_id context_chunk = ck_id chunk then Inr child_text
                      else read_chunk ci ''Knowledge parent chunk integrity verification failed'' context_chunk) (\<lambda>context_text.
            and_then (authorize_each ci parents rest) (\<lambda>authorized.
              Inr (\<lparr>ac_fused = candidate, ac_chunk = chunk, ac_context_chunk = context_chunk, ac_document = document, ac_version = version,
                    ac_child_text = child_text, ac_context_text = context_text\<rparr> # authorized))))"

definition post_authorize_candidates ::
  "(json \<Rightarrow> string) \<Rightarrow> cipher \<Rightarrow> retrieval_db \<Rightarrow> fused_candidate list \<Rightarrow> acl_subject \<Rightarrow> time \<Rightarrow> (authorized_candidate list) result" where
  "post_authorize_candidates repr ci db candidates subject now =
     (let bounded = take MAX_CANDIDATES candidates;
          prelim = preliminary repr db subject now bounded;
          parent_ids = concat (map (\<lambda>(_, (chunk, _, _)). if truthy (ck_parent_chunk_id chunk) then [the (ck_parent_chunk_id chunk)] else []) prelim);
          parents = filter (\<lambda>chunk. ck_id chunk \<in> set parent_ids) (sd_chunks db)
      in if bounded = [] then Inr [] else authorize_each ci parents prelim)"

section \<open>Evidence and context\<close>

record citation =
  ct_citation_id :: string
  ct_chunk_id :: string
  ct_document_id :: string
  ct_document_version_id :: string
  ct_knowledge_base_id :: string
  ct_release_id :: string
  ct_title :: string
  ct_file_name :: string
  ct_mime_type :: string
  ct_page_number :: "int option"
  ct_section :: "string option"
  ct_authority :: string
  ct_classification :: string
  ct_effective_from :: "string option"
  ct_effective_to :: "string option"
  ct_content_hash :: string

record evidence =
  ev_rank :: int
  ev_text :: string
  ev_child_text :: string
  ev_rerank_score :: rat
  ev_rrf_score :: rat
  ev_dense_score :: "rat option"
  ev_sparse_score :: "rat option"
  ev_citation :: citation

definition citation_for :: "(time \<Rightarrow> string) \<Rightarrow> authorized_candidate \<Rightarrow> citation" where
  "citation_for isoformat candidate =
     (let version = ac_version candidate; chunk = ac_chunk candidate; document = ac_document candidate
      in \<lparr>ct_citation_id = ck_id chunk, ct_chunk_id = ck_id chunk, ct_document_id = dr_id document, ct_document_version_id = dv_id version,
          ct_knowledge_base_id = dr_knowledge_base_id document, ct_release_id = fc_release_id (ac_fused candidate),
          ct_title = dr_title document, ct_file_name = dv_file_name version, ct_mime_type = dv_mime_type version,
          ct_page_number = ck_page_number chunk, ct_section = ck_section chunk, ct_authority = dv_authority version,
          ct_classification = dv_classification version, ct_effective_from = map_option isoformat (dv_effective_from version),
          ct_effective_to = map_option isoformat (dv_effective_to version), ct_content_hash = ck_content_hash chunk\<rparr>)"

text \<open>\<open>json.dumps\<close> with \<open>ensure_ascii=False\<close>, of text, integers and null.\<close>

definition hex_digit :: "int \<Rightarrow> char" where
  "hex_digit n = (if n < 10 then digit_char n else char_of (n + 87))"

definition json_escape :: "char \<Rightarrow> string" where
  "json_escape c =
     (if c = CHR 0x22 then [CHR 0x5C, CHR 0x22]
      else if c = CHR 0x5C then [CHR 0x5C, CHR 0x5C]
      else if c = CHR 0x0A then [CHR 0x5C, CHR ''n'']
      else if c = CHR 0x0D then [CHR 0x5C, CHR ''r'']
      else if c = CHR 0x09 then [CHR 0x5C, CHR ''t'']
      else if c = CHR 0x0C then [CHR 0x5C, CHR ''f'']
      else if c = CHR 0x08 then [CHR 0x5C, CHR ''b'']
      else if (of_char c :: int) < 32
      then CHR 0x5C # ''u00'' @ [hex_digit (of_char c div 16), hex_digit (of_char c mod 16)]
      else [c])"

definition json_quote :: "string \<Rightarrow> string" where
  "json_quote s = CHR 0x22 # concat (map json_escape s) @ [CHR 0x22]"

definition dumps_opt :: "('a \<Rightarrow> string) \<Rightarrow> 'a option \<Rightarrow> string" where
  "dumps_opt f v = (case v of None \<Rightarrow> ''null'' | Some x \<Rightarrow> f x)"

fun join_with :: "string \<Rightarrow> string list \<Rightarrow> string" where
  "join_with separator [] = []"
| "join_with separator [s] = s"
| "join_with separator (s # ss) = s @ separator @ join_with separator ss"

definition evidence_payload :: "citation \<Rightarrow> string \<Rightarrow> string" where
  "evidence_payload c content =
     CHR ''{'' #
     join_with '','' (map (\<lambda>(key, dumped). json_quote key @ '':'' @ dumped)
       [(''citation_id'', json_quote (ct_citation_id c)), (''title'', json_quote (ct_title c)),
        (''section'', dumps_opt json_quote (ct_section c)), (''page_number'', dumps_opt show_int (ct_page_number c)),
        (''authority'', json_quote (ct_authority c)), (''effective_from'', dumps_opt json_quote (ct_effective_from c)),
        (''effective_to'', dumps_opt json_quote (ct_effective_to c)), (''content'', json_quote content)]) @
     [CHR ''}'']"

definition newline :: char where
  "newline = CHR 0x0A"

definition BEGIN_MARK :: string where
  "BEGIN_MARK = ''BEGIN_UNTRUSTED_KNOWLEDGE_EVIDENCE''"

definition END_MARK :: string where
  "END_MARK = ''END_UNTRUSTED_KNOWLEDGE_EVIDENCE''"

definition evidence_block :: "string \<Rightarrow> string" where
  "evidence_block payload = BEGIN_MARK @ [newline] @ payload @ [newline] @ END_MARK"

text \<open>\<open>text.encode()[:n].decode(errors="ignore")\<close>: a character that the cut splits is dropped.\<close>

definition utf8_cut :: "nat \<Rightarrow> string \<Rightarrow> string" where
  "utf8_cut n s =
     (if n < length s \<and> continuation (s ! n) then rev (tl (dropWhile continuation (rev (take n s)))) else take n s)"

record context_pack =
  pk_text :: string
  pk_citations :: "citation list"
  pk_estimated_tokens :: int
  pk_truncated :: bool

definition estimated_tokens :: "string \<Rightarrow> int" where
  "estimated_tokens content = max 1 (int (length content)) + 80"

fun pack_each :: "int \<Rightarrow> evidence list \<Rightarrow> (string \<times> citation) list \<Rightarrow> int \<Rightarrow> bool \<Rightarrow> (string \<times> citation) list \<times> int \<times> bool" where
  "pack_each budget [] blocks used truncated = (blocks, used, truncated)"
| "pack_each budget (item # rest) blocks used truncated =
     (let c = ev_citation item; remaining = budget - used - 80
      in if remaining \<le> 0 then (blocks, used, True)
         else if budget - used < estimated_tokens (ev_text item)
         then if blocks \<noteq> [] then (blocks, used, True)
              else
                let content = utf8_cut (nat (max 1 remaining)) (ev_text item)
                in pack_each budget rest (blocks @ [(evidence_payload c content, c)]) (used + estimated_tokens content) True
         else pack_each budget rest (blocks @ [(evidence_payload c (ev_text item), c)]) (used + estimated_tokens (ev_text item)) truncated)"

definition pack_context :: "evidence list \<Rightarrow> int \<Rightarrow> context_pack" where
  "pack_context items token_budget =
     (case pack_each token_budget items [] 0 False of (blocks, used, truncated) \<Rightarrow>
        \<lparr>pk_text = join_with [newline, newline] (map (evidence_block \<circ> fst) blocks), pk_citations = map snd blocks,
         pk_estimated_tokens = used, pk_truncated = truncated\<rparr>)"

section \<open>The whole search\<close>

record rerank_candidate =
  rk_key :: string
  rk_text :: string
  rk_rrf_score :: rat
  rk_authority :: string
  rk_effective_from :: "time option"

record retrieval_env =
  rv_settings :: retrieval_settings
  rv_repr :: "json \<Rightarrow> string"
  rv_isoformat :: "time \<Rightarrow> string"
  rv_cipher :: cipher
  rv_search :: "string \<Rightarrow> retrieval_source \<Rightarrow> condition \<Rightarrow> retrieval_policy \<Rightarrow> string + (search_hit list \<times> search_hit list)"
  rv_rerank :: "string \<Rightarrow> rerank_candidate list \<Rightarrow> nat \<Rightarrow> ((string \<times> rat) list) result"

record retrieval_result =
  re_evidence :: "evidence list"
  re_context :: context_pack
  re_answerable :: bool
  re_abstention_reason :: "string option"
  re_release_ids :: "string list"
  re_index_version_ids :: "string list"
  re_candidate_count :: nat
  re_post_authorized_count :: nat
  re_component_errors :: "string list"

definition abstain :: "string \<Rightarrow> retrieval_source list \<Rightarrow> nat \<Rightarrow> string list \<Rightarrow> retrieval_result" where
  "abstain reason sources candidates errors =
     \<lparr>re_evidence = [], re_context = \<lparr>pk_text = [], pk_citations = [], pk_estimated_tokens = 0, pk_truncated = False\<rparr>,
      re_answerable = False, re_abstention_reason = Some reason,
      re_release_ids = sort (remdups (map (\<lambda>s. rl_id (so_release s)) sources)),
      re_index_version_ids = sort (remdups (map (\<lambda>s. iv_id (so_index_version s)) sources)),
      re_candidate_count = candidates, re_post_authorized_count = 0, re_component_errors = errors\<rparr>"

text \<open>
  The search of one source; an error of it ends the whole search when the policy fails closed, and
  is noted otherwise.
\<close>

definition source_candidates ::
  "retrieval_env \<Rightarrow> string \<Rightarrow> retrieval_policy \<Rightarrow> acl_subject \<Rightarrow> time \<Rightarrow> retrieval_source \<Rightarrow> string + fused_candidate list" where
  "source_candidates env query policy subject now source =
     (case rv_search env query source (build_qdrant_retrieval_filter (rl_id (so_release source)) subject now) policy of
        Inl kind \<Rightarrow> Inl kind
      | Inr (dense_hits, sparse_hits) \<Rightarrow>
          (case reciprocal_rank_fusion (rv_repr env)
                  [(Dense, dense_hits, rp_dense_weight policy), (Sparse, sparse_hits, rp_sparse_weight policy)]
                  (rl_id (so_release source)) (iv_id (so_index_version source)) (rp_rrf_k policy) of
             Inl _ \<Rightarrow> Inl ''ValueError''
           | Inr fused \<Rightarrow> Inr fused))"

fun search_sources ::
  "retrieval_env \<Rightarrow> string \<Rightarrow> retrieval_policy \<Rightarrow> acl_subject \<Rightarrow> time \<Rightarrow> retrieval_source list \<Rightarrow>
   fused_candidate list \<Rightarrow> string list \<Rightarrow> (fused_candidate list \<times> string list) result" where
  "search_sources env query policy subject now [] fused errors = Inr (fused, errors)"
| "search_sources env query policy subject now (source # sources) fused errors =
     (case source_candidates env query policy subject now source of
        Inl kind \<Rightarrow>
          if rp_fail_closed policy
          then Inl (RuntimeError (''Knowledge retrieval failed for '' @ kr_id (so_knowledge_base source)))
          else search_sources env query policy subject now sources fused (errors @ [kr_id (so_knowledge_base source) @ '':'' @ kind])
      | Inr found \<Rightarrow> search_sources env query policy subject now sources (fused @ found) errors)"

definition authorized_by_key :: "authorized_candidate list \<Rightarrow> string \<Rightarrow> authorized_candidate option" where
  "authorized_by_key authorized = map_of (rev (map (\<lambda>a. (fc_chunk_id (ac_fused a), a)) authorized))"

definition evidence_for :: "(time \<Rightarrow> string) \<Rightarrow> int \<Rightarrow> rat \<Rightarrow> authorized_candidate \<Rightarrow> evidence" where
  "evidence_for isoformat rank score candidate =
     \<lparr>ev_rank = rank, ev_text = ac_context_text candidate, ev_child_text = ac_child_text candidate, ev_rerank_score = score,
      ev_rrf_score = fc_rrf_score (ac_fused candidate), ev_dense_score = fc_dense_score (ac_fused candidate),
      ev_sparse_score = fc_sparse_score (ac_fused candidate), ev_citation = citation_for isoformat candidate\<rparr>"

fun select_evidence ::
  "(time \<Rightarrow> string) \<Rightarrow> retrieval_policy \<Rightarrow> (string \<Rightarrow> authorized_candidate option) \<Rightarrow> (string \<times> rat) list \<Rightarrow>
   evidence list \<Rightarrow> (string \<Rightarrow> int) \<Rightarrow> string list \<Rightarrow> evidence list" where
  "select_evidence isoformat policy by_key [] selected per_document used = selected"
| "select_evidence isoformat policy by_key ((key, score) # reranked) selected per_document used =
     (case by_key key of
        None \<Rightarrow> select_evidence isoformat policy by_key reranked selected per_document used
      | Some candidate \<Rightarrow>
          let document_id = dr_id (ac_document candidate); context_chunk_id = ck_id (ac_context_chunk candidate)
          in if rp_max_chunks_per_document policy \<le> per_document document_id \<or> context_chunk_id \<in> set used
             then select_evidence isoformat policy by_key reranked selected per_document used
             else
               let selected' = selected @ [evidence_for isoformat (int (length selected) + 1) score candidate]
               in if rp_final_limit policy \<le> int (length selected') then selected'
                  else select_evidence isoformat policy by_key reranked selected'
                         (per_document(document_id := per_document document_id + 1)) (used @ [context_chunk_id]))"

definition answer_from ::
  "retrieval_env \<Rightarrow> retrieval_policy \<Rightarrow> nat \<Rightarrow> string list \<Rightarrow> authorized_candidate list \<Rightarrow> (string \<times> rat) list \<Rightarrow> retrieval_result" where
  "answer_from env policy candidates errors authorized reranked =
     (let by_key = authorized_by_key authorized;
          selected = select_evidence (rv_isoformat env) policy by_key reranked [] (\<lambda>_. 0) [];
          pack = pack_context selected (rp_context_token_budget policy);
          included = map ct_citation_id (pk_citations pack);
          chosen = filter (\<lambda>e. ct_citation_id (ev_citation e) \<in> set included) selected;
          top_score = (case chosen of [] \<Rightarrow> 0 | e # _ \<Rightarrow> ev_rerank_score e);
          answerable = (chosen \<noteq> [] \<and> rp_minimum_answerability_score policy \<le> top_score)
      in \<lparr>re_evidence = chosen, re_context = pack, re_answerable = answerable,
          re_abstention_reason = (if answerable then None else Some ''insufficient_evidence''),
          re_release_ids = sort (remdups (map (\<lambda>e. ct_release_id (ev_citation e)) chosen)),
          re_index_version_ids = sort (remdups (concat (map (\<lambda>e. case by_key (ct_chunk_id (ev_citation e)) of
             None \<Rightarrow> [] | Some a \<Rightarrow> [fc_index_version_id (ac_fused a)]) chosen))),
          re_candidate_count = candidates, re_post_authorized_count = length authorized, re_component_errors = errors\<rparr>)"

definition rerank_input :: "authorized_candidate \<Rightarrow> rerank_candidate" where
  "rerank_input a =
     \<lparr>rk_key = fc_chunk_id (ac_fused a), rk_text = ac_child_text a, rk_rrf_score = fc_rrf_score (ac_fused a),
      rk_authority = dv_authority (ac_version a), rk_effective_from = dv_effective_from (ac_version a)\<rparr>"

text \<open>The search for a published Agent version.\<close>

definition search_knowledge ::
  "retrieval_env \<Rightarrow> retrieval_db \<Rightarrow> agent_version \<Rightarrow> acl_subject \<Rightarrow> string \<Rightarrow> time \<Rightarrow> retrieval_result result" where
  "search_knowledge env db agent_version subject clean_query now =
     and_then (from_dict (rv_settings env) (av_retrieval_policy agent_version)) (\<lambda>policy.
     and_then (resolve_sources db (av_id agent_version) subject) (\<lambda>sources.
       if sources = [] then Inr (abstain ''no_accessible_knowledge'' [] 0 [])
       else
         and_then (search_sources env clean_query policy subject now sources [] []) (\<lambda>(fused, errors).
           let candidates = take MAX_CANDIDATES (by_score fused)
           in and_then (post_authorize_candidates (rv_repr env) (rv_cipher env) db candidates subject now) (\<lambda>authorized.
                if authorized = [] then Inr (abstain ''no_authorized_evidence'' sources (length candidates) errors)
                else
                  and_then (rv_rerank env clean_query (map rerank_input authorized) (min (length authorized) MAX_CANDIDATES)) (\<lambda>reranked.
                    Inr (answer_from env policy (length candidates) errors authorized reranked))))))"

definition retrieve_knowledge ::
  "retrieval_env \<Rightarrow> retrieval_db \<Rightarrow> string \<Rightarrow> acl_subject \<Rightarrow> string \<Rightarrow> time \<Rightarrow> retrieval_result result" where
  "retrieve_knowledge env db agent_version_id subject query now =
     (let clean_query = split_join query
      in if clean_query = [] then Inl (ValueError ''Knowledge retrieval query cannot be empty'')
         else if st_max_query_characters (rv_settings env) < int (characters clean_query)
         then Inl (ValueError ''Knowledge retrieval query exceeds the configured limit'')
         else if \<not> su_active subject then Inr (abstain ''inactive_subject'' [] 0 [])
         else
           (case fetch av_id agent_version_id (sd_agent_versions db) of
              None \<Rightarrow> Inl (ValueError ''A previously published Agent version is required for Knowledge retrieval'')
            | Some agent_version \<Rightarrow>
                if av_status agent_version \<notin> {''published'', ''archived''} \<or>
                   av_status agent_version = ''archived'' \<and> av_published_at agent_version = None
                then Inl (ValueError ''A previously published Agent version is required for Knowledge retrieval'')
                else search_knowledge env db agent_version subject clean_query now))"

section \<open>Bounds of the policy\<close>

lemma bounded_int_range: "bounded_int raw key dflt lo hi = Inr i \<Longrightarrow> lo \<le> hi \<Longrightarrow> lo \<le> i \<and> i \<le> hi"
  by (auto simp: bounded_int_def)

lemma from_dict_bounds:
  assumes "from_dict settings raw = Inr policy"
  shows "1 \<le> rp_final_limit policy" "rp_final_limit policy \<le> 32" "1 \<le> rp_max_chunks_per_document policy"
    "rp_max_chunks_per_document policy \<le> 10" "128 \<le> rp_context_token_budget policy" "rp_context_token_budget policy \<le> 32768"
proof -
  obtain final chunks budget where b: "bounded_int raw ''final_limit'' (st_final_limit settings) 1 MAX_FINAL_RESULTS = Inr final"
      "bounded_int raw ''max_chunks_per_document'' (st_max_chunks_per_document settings) 1 10 = Inr chunks"
      "bounded_int raw ''context_token_budget'' (st_context_token_budget settings) 128 MAX_CONTEXT_TOKENS = Inr budget"
    and p: "rp_final_limit policy = final" "rp_max_chunks_per_document policy = chunks" "rp_context_token_budget policy = budget"
    using assms unfolding from_dict_def and_then_Inr sum.inject by (elim exE conjE) (drule sym, rule that, assumption+, simp_all)
  from b [THEN bounded_int_range] show "1 \<le> rp_final_limit policy" "rp_final_limit policy \<le> 32" "1 \<le> rp_max_chunks_per_document policy"
    "rp_max_chunks_per_document policy \<le> 10" "128 \<le> rp_context_token_budget policy" "rp_context_token_budget policy \<le> 32768"
    by (simp_all add: p MAX_FINAL_RESULTS_def MAX_CONTEXT_TOKENS_def)
qed

section \<open>What authorization lets through\<close>

definition verified_text :: "cipher \<Rightarrow> knowledge_chunk \<Rightarrow> string \<Rightarrow> bool" where
  "verified_text ci chunk plain \<longleftrightarrow>
     decrypt_text ci (ck_content chunk) (''knowledge-chunk:'' @ ck_id chunk) = Inr plain \<and>
     chunk_plaintext_hash ci (ck_chunk_index chunk) plain = ck_content_hash chunk"

definition in_force :: "retrieval_db \<Rightarrow> acl_subject \<Rightarrow> time \<Rightarrow> document_row \<Rightarrow> document_version \<Rightarrow> bool" where
  "in_force db subject now document version \<longleftrightarrow>
     user_can_access_document db document subject \<and> dr_status document = ''active'' \<and> dr_revoked_at document = None \<and>
     dr_deleted_at document = None \<and> dv_status version \<in> {''published'', ''superseded''} \<and> temporally_valid version now"

definition bound_release :: "retrieval_db \<Rightarrow> string \<Rightarrow> acl_subject \<Rightarrow> string \<Rightarrow> bool" where
  "bound_release db agent_version_id subject release_id \<longleftrightarrow>
     (\<exists>binding\<in>set (sd_bindings db). \<exists>kb\<in>set (rd_knowledge_bases db). \<exists>release\<in>set (sd_releases db).
        bi_agent_version_id binding = agent_version_id \<and> bi_status binding = ''published'' \<and> bi_knowledge_base_id binding = kr_id kb \<and>
        kr_status kb = ''active'' \<and> user_can_access_knowledge_base db kb subject \<and> rl_id release = release_id \<and>
        rl_knowledge_base_id release = kr_id kb \<and> rl_status release \<in> {''published'', ''archived''})"

lemma read_chunk_Inr [simp]: "read_chunk ci message chunk = Inr plain \<longleftrightarrow> verified_text ci chunk plain"
  by (auto simp: read_chunk_def verified_text_def)

text \<open>How an authorized candidate arises from a preliminary one.\<close>

definition authorized_from :: "cipher \<Rightarrow> knowledge_chunk list \<Rightarrow> (fused_candidate \<times> chunk_row) list \<Rightarrow> authorized_candidate \<Rightarrow> bool" where
  "authorized_from ci parents prelim a \<longleftrightarrow>
     (ac_fused a, (ac_chunk a, ac_version a, ac_document a)) \<in> set prelim \<and>
     (ac_context_chunk a = ac_chunk a \<or> ac_context_chunk a \<in> set parents) \<and>
     ck_document_version_id (ac_context_chunk a) = ck_document_version_id (ac_chunk a) \<and>
     verified_text ci (ac_chunk a) (ac_child_text a) \<and>
     (if ck_id (ac_context_chunk a) = ck_id (ac_chunk a) then ac_context_text a = ac_child_text a
      else verified_text ci (ac_context_chunk a) (ac_context_text a))"

lemma authorized_from_Cons: "authorized_from ci parents prelim a \<Longrightarrow> authorized_from ci parents (x # prelim) a"
  by (simp add: authorized_from_def)

lemma authorize_each_sound:
  "authorize_each ci parents prelim = Inr authorized \<Longrightarrow> a \<in> set authorized \<Longrightarrow> authorized_from ci parents prelim a"
proof (induction ci parents prelim arbitrary: authorized rule: authorize_each.induct)
  case (2 ci parents candidate chunk version document rest)
  define ctx where "ctx = (case ck_parent_chunk_id chunk of None \<Rightarrow> chunk
    | Some parent_id \<Rightarrow> (case fetch ck_id parent_id parents of None \<Rightarrow> chunk | Some parent \<Rightarrow> parent))"
  have ctx: "ctx = chunk \<or> ctx \<in> set parents" by (auto simp: ctx_def split: option.splits dest: fetch_SomeD)
  note step = "2.prems"(1) [unfolded authorize_each.simps Let_def ctx_def [symmetric]]
  show ?case
  proof (cases "ck_document_version_id ctx = ck_document_version_id chunk")
    case False
    with step have "authorize_each ci parents rest = Inr authorized" by auto
    with "2.IH"(1) [OF ctx_def False] "2.prems"(2) show ?thesis by (blast intro: authorized_from_Cons)
  next
    case True
    with step obtain child_text context_text others where child: "verified_text ci chunk child_text"
      and parent: "if ck_id ctx = ck_id chunk then context_text = child_text else verified_text ci ctx context_text"
      and others: "authorize_each ci parents rest = Inr others"
      and authorized: "authorized = \<lparr>ac_fused = candidate, ac_chunk = chunk, ac_context_chunk = ctx, ac_document = document,
        ac_version = version, ac_child_text = child_text, ac_context_text = context_text\<rparr> # others"
      by (auto split: if_splits)
    from "2.prems"(2) authorized consider "a \<in> set others"
      | "a = \<lparr>ac_fused = candidate, ac_chunk = chunk, ac_context_chunk = ctx, ac_document = document,
        ac_version = version, ac_child_text = child_text, ac_context_text = context_text\<rparr>" by auto
    then show ?thesis
    proof cases
      case 1
      with "2.IH" others True show ?thesis by (metis authorized_from_Cons ctx_def)
    next
      case 2
      with child parent ctx True show ?thesis by (simp add: authorized_from_def)
    qed
  qed
qed simp

lemma chunk_rowsD:
  assumes "(chunk, version, document) \<in> set (chunk_rows db ids)"
  shows "chunk \<in> set (sd_chunks db)" "fetch dv_id (ck_document_version_id chunk) (sd_versions db) = Some version"
    "fetch dr_id (dv_document_id version) (rd_documents db) = Some document"
  using assms by (auto simp: chunk_rows_def split: option.splits)

lemma row_by_chunkD: "row_by_chunk rows k = Some row \<Longrightarrow> row \<in> set rows \<and> ck_id (fst row) = k"
  by (auto simp: row_by_chunk_def dest!: map_of_SomeD)

lemma document_of_row: "(chunk, version, document) \<in> set (chunk_rows db ids) \<Longrightarrow> fetch dr_id (dr_id document) (rd_documents db) = Some document"
  using chunk_rowsD(3) fetch_key by fastforce

lemma preliminary_sound:
  assumes "(candidate, (chunk, version, document)) \<in> set (preliminary repr db subject now bounded)"
    and "distinct (map kr_id (rd_knowledge_bases db))"
  shows "candidate \<in> set bounded" "chunk \<in> set (sd_chunks db)" "ck_id chunk = fc_chunk_id candidate"
    "version \<in> set (sd_versions db)" "dv_id version = ck_document_version_id chunk"
    "document \<in> set (rd_documents db)" "dr_id document = dv_document_id version"
    "in_force db subject now document version" "(fc_release_id candidate, dv_id version) \<in> set (sd_release_documents db)"
proof -
  let ?rows = "chunk_rows db (map fc_chunk_id bounded)"
  let ?docs = "remdups (map (\<lambda>(_, _, document). document) ?rows)"
  from assms(1) have c: "candidate \<in> set bounded" "row_by_chunk ?rows (fc_chunk_id candidate) = Some (chunk, version, document)"
    and adm: "candidate_admitted repr now (map dr_id (filter_documents_for_subject db ?docs subject))
      (filter (\<lambda>(release_id, _). release_id \<in> set (map fc_release_id bounded)) (sd_release_documents db)) candidate (chunk, version, document)"
    by (auto simp: preliminary_def Let_def split: option.splits if_splits)
  from row_by_chunkD [OF c(2)] have row: "(chunk, version, document) \<in> set ?rows" and id: "ck_id chunk = fc_chunk_id candidate" by simp_all
  note f = chunk_rowsD [OF row]
  from adm have "dr_id document \<in> dr_id ` set (filter (\<lambda>d. user_can_access_document db d subject) ?docs)"
    by (simp add: candidate_admitted_def filter_documents_eq [OF assms(2)] Let_def)
  then obtain other where o: "other \<in> set ?docs" "dr_id other = dr_id document" "user_can_access_document db other subject" by force
  from o(1) obtain c' v' where "(c', v', other) \<in> set ?rows" by auto
  with document_of_row o(2) document_of_row [OF row] have "other = document" by fastforce
  with o(3) adm show "in_force db subject now document version" "(fc_release_id candidate, dv_id version) \<in> set (sd_release_documents db)"
    by (auto simp: candidate_admitted_def in_force_def Let_def)
  show "candidate \<in> set bounded" "chunk \<in> set (sd_chunks db)" "ck_id chunk = fc_chunk_id candidate" by (rule c f id)+
  show "version \<in> set (sd_versions db)" "dv_id version = ck_document_version_id chunk" "document \<in> set (rd_documents db)"
    "dr_id document = dv_document_id version" using fetch_SomeD [OF f(2)] fetch_SomeD [OF f(3)] by simp_all
qed

text \<open>What is known of an authorized candidate.\<close>

definition backed :: "cipher \<Rightarrow> retrieval_db \<Rightarrow> acl_subject \<Rightarrow> time \<Rightarrow> authorized_candidate \<Rightarrow> bool" where
  "backed ci db subject now a \<longleftrightarrow>
     ac_document a \<in> set (rd_documents db) \<and> ac_version a \<in> set (sd_versions db) \<and> ac_chunk a \<in> set (sd_chunks db) \<and>
     ac_context_chunk a \<in> set (sd_chunks db) \<and> dv_document_id (ac_version a) = dr_id (ac_document a) \<and>
     ck_document_version_id (ac_chunk a) = dv_id (ac_version a) \<and> ck_document_version_id (ac_context_chunk a) = dv_id (ac_version a) \<and>
     in_force db subject now (ac_document a) (ac_version a) \<and>
     (fc_release_id (ac_fused a), dv_id (ac_version a)) \<in> set (sd_release_documents db) \<and>
     verified_text ci (ac_chunk a) (ac_child_text a) \<and> verified_text ci (ac_context_chunk a) (ac_context_text a)"

lemma post_authorize_sound:
  assumes "post_authorize_candidates repr ci db candidates subject now = Inr authorized" and "a \<in> set authorized"
    and "distinct (map kr_id (rd_knowledge_bases db))" and "distinct (map ck_id (sd_chunks db))"
  shows "backed ci db subject now a" "ac_fused a \<in> set candidates" "ck_id (ac_chunk a) = fc_chunk_id (ac_fused a)"
proof -
  let ?prelim = "preliminary repr db subject now (take MAX_CANDIDATES candidates)"
  obtain P where each: "authorize_each ci (filter P (sd_chunks db)) ?prelim = Inr authorized"
    using assms(1,2) unfolding post_authorize_candidates_def Let_def by (fastforce split: if_splits)
  have s: "(ac_fused a, (ac_chunk a, ac_version a, ac_document a)) \<in> set ?prelim"
    "ac_context_chunk a = ac_chunk a \<or> ac_context_chunk a \<in> set (filter P (sd_chunks db))"
    "ck_document_version_id (ac_context_chunk a) = ck_document_version_id (ac_chunk a)" "verified_text ci (ac_chunk a) (ac_child_text a)"
    "if ck_id (ac_context_chunk a) = ck_id (ac_chunk a) then ac_context_text a = ac_child_text a
     else verified_text ci (ac_context_chunk a) (ac_context_text a)"
    using authorize_each_sound [OF each assms(2)] unfolding authorized_from_def by blast+
  note p = preliminary_sound [OF s(1) assms(3)]
  have ctx: "ac_context_chunk a \<in> set (sd_chunks db)" using s(2) p(2) by auto
  have "ck_id (ac_context_chunk a) = ck_id (ac_chunk a) \<Longrightarrow> ac_context_chunk a = ac_chunk a"
    using assms(4) ctx p(2) by (metis fetch_distinct option.inject)
  then have "verified_text ci (ac_context_chunk a) (ac_context_text a)" using s(4,5) by (auto split: if_splits)
  with p s ctx show "backed ci db subject now a" by (simp add: backed_def)
  show "ac_fused a \<in> set candidates" using p(1) by (rule in_set_takeD)
  show "ck_id (ac_chunk a) = fc_chunk_id (ac_fused a)" by (rule p(3))
qed

section \<open>Where candidates come from\<close>

lemma modify_all: "\<forall>c\<in>set xs. P c \<Longrightarrow> (\<And>c. P c \<Longrightarrow> P (f c)) \<Longrightarrow> \<forall>c\<in>set (modify key k f xs). P c"
  by (auto simp: set_modify)

lemma note_rank_release [simp]: "fc_release_id (note_rank channel score rank c) = fc_release_id c"
  by (simp add: note_rank_def split: channel.split)

lemma fuse_hit_release:
  assumes "\<forall>c\<in>set accumulated. fc_release_id c = release_id"
  shows "\<forall>c\<in>set (fuse_hit repr release_id index_id k channel weight rank hit accumulated). fc_release_id c = release_id"
proof (cases "str_or repr (ht_payload hit) ''chunk_id'' (ht_point_id hit) = [] \<or>
    str_or repr (ht_payload hit) ''chunk_id'' (ht_point_id hit) \<noteq> ht_point_id hit")
  case True
  then show ?thesis using assms by (simp add: fuse_hit_def Let_def)
next
  case False
  show ?thesis
    unfolding fuse_hit_def Let_def if_not_P [OF False] by (rule modify_all) (use assms in auto)
qed

lemma fuse_hits_release:
  "\<forall>c\<in>set accumulated. fc_release_id c = release_id \<Longrightarrow>
   \<forall>c\<in>set (fuse_hits repr release_id index_id k channel weight rank hits accumulated). fc_release_id c = release_id"
proof (induction hits arbitrary: rank accumulated)
  case (Cons hit hits)
  from Cons.IH [OF fuse_hit_release [OF Cons.prems]] show ?case unfolding fuse_hits.simps .
qed simp

lemma fusion_release:
  assumes "reciprocal_rank_fusion repr rankings release_id index_id k = Inr fused" and "c \<in> set fused"
  shows "fc_release_id c = release_id"
proof -
  let ?step = "\<lambda>accumulated (channel, hits, weight).
    if weight \<le> 0 then accumulated else fuse_hits repr release_id index_id k channel weight 1 hits accumulated"
  have "\<forall>c\<in>set (foldl ?step accumulated rankings). fc_release_id c = release_id"
    if "\<forall>c\<in>set accumulated. fc_release_id c = release_id" for accumulated
    using that
  proof (induction rankings arbitrary: accumulated)
    case (Cons x rankings)
    obtain channel hits weight where x: "x = (channel, hits, weight)" by (cases x)
    show ?case using Cons.IH [OF Cons.prems] Cons.IH [OF fuse_hits_release [OF Cons.prems]] by (simp add: x)
  qed simp
  from this [of "[]"] assms show ?thesis by (auto simp: reciprocal_rank_fusion_def by_score_def split: if_splits)
qed

lemma search_sources_release:
  assumes "search_sources env query policy subject now sources fused errors = Inr (found, noted)" and "c \<in> set found"
  shows "c \<in> set fused \<or> (\<exists>source\<in>set sources. fc_release_id c = rl_id (so_release source))"
  using assms
proof (induction sources arbitrary: fused errors)
  case (Cons source sources)
  show ?case
  proof (cases "source_candidates env query policy subject now source")
    case (Inl kind)
    with Cons.prems have "search_sources env query policy subject now sources fused (errors @ [kr_id (so_knowledge_base source) @ '':'' @ kind])
        = Inr (found, noted)" by (simp split: if_splits)
    from Cons.IH [OF this Cons.prems(2)] show ?thesis by auto
  next
    case (Inr more)
    then have "\<forall>c\<in>set more. fc_release_id c = rl_id (so_release source)"
      using fusion_release by (auto simp: source_candidates_def split: sum.splits)
    with Cons.IH [of "fused @ more" errors] Cons.prems Inr show ?thesis by auto
  qed
qed simp

lemma binding_sourceD:
  "source \<in> set (binding_source db allowed binding) \<Longrightarrow>
   \<exists>kb. fetch kr_id (bi_knowledge_base_id binding) allowed = Some kb \<and> binding_release db binding kb = Some (so_release source)"
  by (auto simp: binding_source_def split: option.split_asm) metis

lemma binding_releaseD:
  "binding_release db binding kb = Some release \<Longrightarrow>
   release \<in> set (sd_releases db) \<and> rl_knowledge_base_id release = kr_id kb \<and> rl_status release \<in> {''published'', ''archived''}"
  by (auto simp: binding_release_def find_Some_iff dest!: fetch_SomeD split: if_split_asm option.split_asm)

lemma resolve_sources_bound:
  assumes "resolve_sources db agent_version_id subject = Inr sources" and "source \<in> set sources"
  shows "bound_release db agent_version_id subject (rl_id (so_release source))"
proof -
  let ?bound = "filter (\<lambda>b. bi_agent_version_id b = agent_version_id \<and> bi_status b = ''published'') (sd_bindings db)"
  let ?bindings = "take (MAX_KNOWLEDGE_BASES_PER_AGENT + 1) (sort_key bi_knowledge_base_id ?bound)"
  define kbs where "kbs = filter (\<lambda>kb. kr_id kb \<in> set (map bi_knowledge_base_id ?bindings) \<and> kr_status kb = ''active'') (rd_knowledge_bases db)"
  have "sources = concat (map (binding_source db (filter_knowledge_bases_for_subject db kbs subject)) ?bindings)"
    using assms unfolding resolve_sources_def Let_def kbs_def [symmetric] by (auto split: if_splits)
  with assms(2) obtain binding where "binding \<in> set ?bindings"
    and src: "source \<in> set (binding_source db (filter_knowledge_bases_for_subject db kbs subject) binding)" by auto
  then have b: "binding \<in> set (sd_bindings db)" "bi_agent_version_id binding = agent_version_id" "bi_status binding = ''published''"
    by (auto dest!: in_set_takeD)
  have kbs: "\<forall>kb\<in>set kbs. kb \<in> set (rd_knowledge_bases db) \<and> kr_status kb = ''active''" by (simp add: kbs_def)
  from binding_sourceD [OF src] obtain kb
    where kb: "fetch kr_id (bi_knowledge_base_id binding) (filter_knowledge_bases_for_subject db kbs subject) = Some kb"
    and release: "binding_release db binding kb = Some (so_release source)" by blast
  from fetch_SomeD [OF kb] have k: "kb \<in> set kbs" "user_can_access_knowledge_base db kb subject" "bi_knowledge_base_id binding = kr_id kb"
    by (simp_all add: filter_kbs_eq)
  with kbs have "kb \<in> set (rd_knowledge_bases db)" "kr_status kb = ''active''" by blast+
  with b k binding_releaseD [OF release] show ?thesis unfolding bound_release_def by blast
qed

section \<open>The choice of evidence\<close>

lemma select_members:
  assumes "e \<in> set (select_evidence isoformat policy by_key reranked selected per_document used)"
  shows "e \<in> set selected \<or> (\<exists>key a rank score. by_key key = Some a \<and> e = evidence_for isoformat rank score a)"
  using assms
proof (induction reranked arbitrary: selected per_document used)
  case (Cons item reranked)
  obtain key score where item: "item = (key, score)" by (cases item)
  show ?case
  proof (cases "by_key key")
    case None
    with Cons show ?thesis by (simp add: item)
  next
    case (Some a)
    let ?s = "selected @ [evidence_for isoformat (int (length selected) + 1) score a]"
    from Cons.prems Some consider "e \<in> set (select_evidence isoformat policy by_key reranked selected per_document used)" | "e \<in> set ?s"
      | counts contexts where "e \<in> set (select_evidence isoformat policy by_key reranked ?s counts contexts)"
      unfolding item select_evidence.simps Let_def by (simp only: option.case split: if_split_asm)
    then show ?thesis
    proof cases
      case 1
      then show ?thesis by (rule Cons.IH)
    next
      case 2
      with Some show ?thesis by auto
    next
      case 3
      from Cons.IH [OF 3] Some show ?thesis by auto
    qed
  qed
qed simp

lemma by_keyD: "authorized_by_key authorized key = Some a \<Longrightarrow> a \<in> set authorized \<and> fc_chunk_id (ac_fused a) = key"
  by (auto simp: authorized_by_key_def dest!: map_of_SomeD)

lemma evidence_for_sel [simp]:
  "ev_rank (evidence_for isoformat rank score a) = rank"
  "ct_chunk_id (ev_citation (evidence_for isoformat rank score a)) = ck_id (ac_chunk a)"
  "ct_citation_id (ev_citation (evidence_for isoformat rank score a)) = ck_id (ac_chunk a)"
  "ct_document_id (ev_citation (evidence_for isoformat rank score a)) = dr_id (ac_document a)"
  by (simp_all add: evidence_for_def citation_for_def Let_def)

text \<open>
  What the loop keeps: the evidence comes from different chunks, each with its context noted as used,
  the counters count, and the ranks number the evidence.
\<close>

definition selection_ok ::
  "retrieval_policy \<Rightarrow> (string \<Rightarrow> authorized_candidate option) \<Rightarrow> evidence list \<Rightarrow> (string \<Rightarrow> int) \<Rightarrow> string list \<Rightarrow> bool" where
  "selection_ok policy by_key selected per_document used \<longleftrightarrow>
     distinct (map (\<lambda>e. ct_chunk_id (ev_citation e)) selected) \<and>
     (\<forall>e\<in>set selected. \<exists>a. by_key (ct_chunk_id (ev_citation e)) = Some a \<and> ck_id (ac_context_chunk a) \<in> set used) \<and>
     (\<forall>d. per_document d = int (length (filter (\<lambda>e. ct_document_id (ev_citation e) = d) selected)) \<and>
          per_document d \<le> rp_max_chunks_per_document policy) \<and>
     (\<forall>e\<in>set selected. ct_citation_id (ev_citation e) = ct_chunk_id (ev_citation e)) \<and>
     map ev_rank selected = map int [1..<Suc (length selected)]"

lemma selection_ok_add:
  assumes "selection_ok policy by_key selected per_document used" and "by_key key = Some a" and "ck_id (ac_chunk a) = key"
    and "per_document (dr_id (ac_document a)) < rp_max_chunks_per_document policy" and "ck_id (ac_context_chunk a) \<notin> set used"
  shows "selection_ok policy by_key (selected @ [evidence_for isoformat (int (length selected) + 1) score a])
    (per_document(dr_id (ac_document a) := per_document (dr_id (ac_document a)) + 1)) (used @ [ck_id (ac_context_chunk a)])"
proof -
  have "key \<notin> (\<lambda>e. ct_chunk_id (ev_citation e)) ` set selected"
    using assms(1,2,5) by (force simp: selection_ok_def)
  then have "distinct (map (\<lambda>e. ct_chunk_id (ev_citation e)) (selected @ [evidence_for isoformat (int (length selected) + 1) score a]))"
    using assms(1,3) by (simp add: selection_ok_def)
  moreover have "\<exists>a'. by_key (ct_chunk_id (ev_citation e)) = Some a' \<and> ck_id (ac_context_chunk a') \<in> set (used @ [ck_id (ac_context_chunk a)])"
    if "e \<in> set (selected @ [evidence_for isoformat (int (length selected) + 1) score a])" for e
    using that assms(1,2,3) by (auto simp: selection_ok_def)
  moreover have "int (length (filter (\<lambda>e. ct_document_id (ev_citation e) = d) selected)) \<le> rp_max_chunks_per_document policy" for d
    using assms(1) by (metis selection_ok_def)
  ultimately show ?thesis using assms(1,4) unfolding selection_ok_def by simp
qed

lemma select_ok:
  assumes "selection_ok policy by_key selected per_document used" and "int (length selected) < rp_final_limit policy"
    and "\<forall>key a. by_key key = Some a \<longrightarrow> ck_id (ac_chunk a) = key"
  shows "\<exists>counts contexts. selection_ok policy by_key (select_evidence isoformat policy by_key reranked selected per_document used) counts contexts
    \<and> int (length (select_evidence isoformat policy by_key reranked selected per_document used)) \<le> rp_final_limit policy"
  using assms(1,2)
proof (induction reranked arbitrary: selected per_document used)
  case Nil
  then show ?case by auto
next
  case (Cons item reranked)
  obtain key score where item: "item = (key, score)" by (cases item)
  show ?case
  proof (cases "by_key key")
    case None
    with Cons show ?thesis by (simp add: item)
  next
    case (Some a)
    let ?d = "dr_id (ac_document a)" and ?c = "ck_id (ac_context_chunk a)"
    let ?s = "selected @ [evidence_for isoformat (int (length selected) + 1) score a]"
    show ?thesis
    proof (cases "rp_max_chunks_per_document policy \<le> per_document ?d \<or> ?c \<in> set used")
      case True
      with Cons Some show ?thesis by (auto simp: item Let_def)
    next
      case False
      then have ok: "selection_ok policy by_key ?s (per_document(?d := per_document ?d + 1)) (used @ [?c])"
        using selection_ok_add [OF Cons.prems(1) Some, of isoformat score] assms(3) Some by simp
      show ?thesis
      proof (cases "rp_final_limit policy \<le> int (length ?s)")
        case True
        with ok False Some Cons.prems(2) show ?thesis by (auto simp: item Let_def)
      next
        case more: False
        from Cons.IH [OF ok] more False Some show ?thesis by (simp add: item Let_def del: fun_upd_apply)
      qed
    qed
  qed
qed

section \<open>Packing the context\<close>

lemma utf8_cut_length: "length (utf8_cut n s) \<le> n"
proof -
  have "length (dropWhile continuation (rev (take n s))) \<le> n"
    by (rule order_trans [OF length_dropWhile_le]) simp
  then show ?thesis by (auto simp: utf8_cut_def)
qed

lemma pack_each_spec:
  assumes "pack_each budget items blocks used truncated = (packed, spent, shortened)"
  shows "\<exists>n. map snd packed = map snd blocks @ map ev_citation (take n items)"
    and "used \<le> budget \<Longrightarrow> spent \<le> budget"
    and "\<forall>(p, c)\<in>set packed. (p, c) \<in> set blocks \<or> (\<exists>content. p = evidence_payload c content)"
  using assms
proof (induction budget items blocks used truncated rule: pack_each.induct)
  case (2 budget item rest blocks used truncated)
  { case 1
    show ?case
    proof (cases "\<exists>n. map snd packed = map snd blocks @ ev_citation item # map ev_citation (take n rest)")
      case True
      then obtain n where "map snd packed = map snd blocks @ map ev_citation (take (Suc n) (item # rest))" by auto
      then show ?thesis by blast
    next
      case False
      with 2 1 have "packed = blocks" by (auto simp: Let_def split: if_splits)
      then have "map snd packed = map snd blocks @ map ev_citation (take 0 (item # rest))" by simp
      then show ?thesis by blast
    qed
  next
    case 2
    have "estimated_tokens (utf8_cut (nat (max 1 (budget - used - 80))) (ev_text item)) \<le> budget - used" if "0 < budget - used - 80"
      using that utf8_cut_length [of "nat (max 1 (budget - used - 80))" "ev_text item"] by (simp add: estimated_tokens_def)
    with 2 "2.IH" show ?case by (fastforce simp: Let_def split: if_splits)
  next
    case 3
    with "2.IH" show ?case by (fastforce simp: Let_def split: if_splits)
  }
qed auto

lemma filter_take_distinct:
  "distinct (map f xs) \<Longrightarrow> filter (\<lambda>x. f x \<in> f ` set (take n xs)) xs = take n xs"
proof (induction xs arbitrary: n)
  case (Cons x xs)
  show ?case
  proof (cases n)
    case (Suc m)
    have "filter (\<lambda>y. f y \<in> f ` set (take n (x # xs))) xs = filter (\<lambda>y. f y \<in> f ` set (take m xs)) xs"
      using Cons.prems Suc by (intro filter_cong) (auto simp: image_iff)
    with Cons Suc show ?thesis by simp
  qed simp
qed simp

text \<open>The lines of a text, and those of fenced payloads.\<close>

fun split_lines :: "string \<Rightarrow> string list" where
  "split_lines [] = [[]]"
| "split_lines (c # s) =
     (if c = newline then [] # split_lines s else case split_lines s of [] \<Rightarrow> [[c]] | l # ls \<Rightarrow> (c # l) # ls)"

fun fenced :: "string list \<Rightarrow> string list" where
  "fenced [] = [[]]"
| "fenced [p] = [BEGIN_MARK, p, END_MARK]"
| "fenced (p # ps) = [BEGIN_MARK, p, END_MARK, []] @ fenced ps"

lemma split_line: "newline \<notin> set a \<Longrightarrow> split_lines a = [a]" "newline \<notin> set a \<Longrightarrow> split_lines (a @ newline # s) = a # split_lines s"
  by (induction a) auto

lemma marks_line: "newline \<notin> set BEGIN_MARK" "newline \<notin> set END_MARK"
  by (simp_all add: newline_def BEGIN_MARK_def END_MARK_def)

lemma split_fenced:
  assumes "\<forall>p\<in>set ps. newline \<notin> set p"
  shows "split_lines (join_with [newline, newline] (map evidence_block ps)) = fenced ps"
  using assms
proof (induction ps rule: fenced.induct)
  case (2 p)
  then show ?case by (simp add: evidence_block_def split_line marks_line)
next
  case (3 p q ps)
  have nl: "split_lines (newline # s) = [] # split_lines s" for s by simp
  from 3 show ?case
    by (simp add: evidence_block_def split_line marks_line nl del: split_lines.simps)
qed simp

lemma newline_code: "c = newline \<longleftrightarrow> (of_char c :: int) = 10"
proof
  assume "(of_char c :: int) = 10"
  then have "of_char c = (of_char newline :: int)" by (simp add: newline_def)
  then show "c = newline" by (simp only: of_char_eq_iff)
qed (simp add: newline_def)

lemma hex_digit_line: "0 \<le> n \<Longrightarrow> n < 16 \<Longrightarrow> hex_digit n \<noteq> newline"
  by (auto simp: newline_code hex_digit_def of_digit_char)

lemma escape_line: "newline \<notin> set (json_escape c)"
proof -
  have "0 \<le> (of_char c :: int)" by (metis of_nat_0_le_iff of_nat_of_char)
  then have "0 \<le> (of_char c :: int) div 16" "(of_char c :: int) < 32 \<Longrightarrow> (of_char c :: int) div 16 < 16" by simp_all
  then show ?thesis using hex_digit_line [of "of_char c div 16"] hex_digit_line [of "of_char c mod 16"]
    by (auto simp: json_escape_def newline_def)
qed

lemma quote_line: "newline \<notin> set (json_quote s)"
  using escape_line by (auto simp: json_quote_def newline_def)

lemma show_int_line: "newline \<notin> set (show_int i)"
  using show_int_chars by (fastforce simp: newline_def)

lemma payload_line: "newline \<notin> set (evidence_payload c content)"
  using quote_line show_int_line by (auto simp: evidence_payload_def dumps_opt_def newline_def split: option.splits)

section \<open>The result of a search\<close>

lemma search_cases:
  assumes "search_knowledge env db agent_version subject query now = Inr result"
  obtains (abstained) reason sources n errors where "result = abstain reason sources n errors"
  | (answered) policy sources fused errors authorized reranked n where
      "from_dict (rv_settings env) (av_retrieval_policy agent_version) = Inr policy"
      "resolve_sources db (av_id agent_version) subject = Inr sources"
      "search_sources env query policy subject now sources [] [] = Inr (fused, errors)"
      "post_authorize_candidates (rv_repr env) (rv_cipher env) db (take MAX_CANDIDATES (by_score fused)) subject now = Inr authorized"
      "result = answer_from env policy n errors authorized reranked"
proof -
  from assms obtain policy sources where 1: "from_dict (rv_settings env) (av_retrieval_policy agent_version) = Inr policy"
      "resolve_sources db (av_id agent_version) subject = Inr sources" unfolding search_knowledge_def and_then_Inr by blast
  note step = assms [unfolded search_knowledge_def 1 and_then_simps]
  show thesis
  proof (cases "sources = []")
    case True
    with step have "result = abstain ''no_accessible_knowledge'' [] 0 []" by simp
    then show thesis by (rule abstained)
  next
    case False
    from step [unfolded if_not_P [OF False]] obtain fused errors
      where 2: "search_sources env query policy subject now sources [] [] = Inr (fused, errors)" unfolding and_then_Inr by (metis surj_pair)
    note step = step [unfolded if_not_P [OF False] 2 and_then_simps prod.case Let_def]
    from step obtain authorized where
      3: "post_authorize_candidates (rv_repr env) (rv_cipher env) db (take MAX_CANDIDATES (by_score fused)) subject now = Inr authorized"
      unfolding and_then_Inr by blast
    note step = step [unfolded 3 and_then_simps]
    show thesis
    proof (cases "authorized = []")
      case True
      with step have "result = abstain ''no_authorized_evidence'' sources (length (take MAX_CANDIDATES (by_score fused))) errors" by simp
      then show thesis by (rule abstained)
    next
      case False
      from step [unfolded if_not_P [OF False] and_then_Inr sum.inject] obtain reranked
        where "result = answer_from env policy (length (take MAX_CANDIDATES (by_score fused))) errors authorized reranked" by blast
      with 1 2 3 show thesis by (rule answered)
    qed
  qed
qed

lemma retrieve_cases:
  assumes "retrieve_knowledge env db aid subject query now = Inr result"
  obtains (abstained) reason sources n errors where "result = abstain reason sources n errors"
  | (answered) agent_version policy sources fused errors authorized reranked n where
      "fetch av_id aid (sd_agent_versions db) = Some agent_version"
      "from_dict (rv_settings env) (av_retrieval_policy agent_version) = Inr policy" "resolve_sources db aid subject = Inr sources"
      "search_sources env (split_join query) policy subject now sources [] [] = Inr (fused, errors)"
      "post_authorize_candidates (rv_repr env) (rv_cipher env) db (take MAX_CANDIDATES (by_score fused)) subject now = Inr authorized"
      "result = answer_from env policy n errors authorized reranked"
proof -
  from assms consider "result = abstain ''inactive_subject'' [] 0 []"
    | agent_version where "fetch av_id aid (sd_agent_versions db) = Some agent_version"
        "search_knowledge env db agent_version subject (split_join query) now = Inr result"
    unfolding retrieve_knowledge_def Let_def by (auto split: if_split_asm option.split_asm)
  then show thesis
  proof cases
    case 1
    then show thesis by (rule abstained)
  next
    case 2
    from 2(2) show thesis
    proof (cases rule: search_cases)
      case (answered policy sources fused errors authorized reranked n)
      with fetch_key [OF 2(1)] 2(1) that(2) show thesis by metis
    qed (rule abstained)
  qed
qed

lemma answer_evidence:
  assumes "e \<in> set (re_evidence (answer_from env policy n errors authorized reranked))"
  shows "\<exists>a\<in>set authorized. \<exists>rank score. e = evidence_for (rv_isoformat env) rank score a"
  using assms select_members [of e "rv_isoformat env" policy "authorized_by_key authorized" reranked "[]"] by_keyD
  by (fastforce simp: answer_from_def Let_def)

text \<open>
  One public Knowledge Base with one chunk, bound to a published Agent version; a store that
  answers its one point to every search, a cipher that keeps the plain text behind a header, a digest that is the text itself, and a reranker
  that keeps the order.
\<close>

definition sample_retrieval :: retrieval_db where
  "sample_retrieval = acl_db.extend (sample_acl [])
     (retrieval_db.fields
        [\<lparr>av_id = ''av1'', av_status = ''published'', av_published_at = Some 1, av_retrieval_policy = []\<rparr>]
        [\<lparr>bi_agent_version_id = ''av1'', bi_knowledge_base_id = ''k1'', bi_release_mode = ''latest'', bi_pinned_release_id = None,
          bi_status = ''published''\<rparr>]
        [\<lparr>rl_id = ''r1'', rl_knowledge_base_id = ''k1'', rl_status = ''published'', rl_active_scope_key = Some ''kb-release:k1''\<rparr>]
        [(''r1'', ''v1'')]
        [\<lparr>iv_id = ''i1'', iv_release_id = ''r1'', iv_version_number = 1, iv_status = ''active''\<rparr>]
        [sample_version] [sample_chunk])"

definition sample_settings :: retrieval_settings where
  "sample_settings = \<lparr>st_max_query_characters = 8000, st_candidate_limit = 40, st_final_limit = 8, st_rrf_k = 60,
     st_max_chunks_per_document = 3, st_context_token_budget = 6000, st_dense_score_threshold = 5 / 100, st_sparse_score_threshold = 1 / 100\<rparr>"

definition sample_point :: payload where
  "sample_point = [(''chunk_id'', JString ''c1''), (''document_id'', JString ''d1''), (''document_version_id'', JString ''v1''),
     (''knowledge_base_id'', JString ''k1''), (''release_id'', JString ''r1''), (''index_version_id'', JString ''i1''),
     (''content_hash'', JString (ck_content_hash sample_chunk))]"

definition sample_env :: retrieval_env where
  "sample_env = \<lparr>rv_settings = sample_settings, rv_repr = (\<lambda>_. []), rv_isoformat = show_int,
     rv_cipher = \<lparr>ci_b64decode = (\<lambda>s. Some (''AKN1'' @ replicate 28 (CHR ''n'') @ s)),
       ci_aesgcm_decrypt = (\<lambda>nonce ciphertext ad. Inr (drop 16 ciphertext)), ci_sha256 = (\<lambda>s. s)\<rparr>,
     rv_search = (\<lambda>query source condition policy.
       Inr ([\<lparr>ht_point_id = ''c1'', ht_score = 1, ht_payload = sample_point\<rparr>], [])),
     rv_rerank = (\<lambda>query candidates limit. Inr (map (\<lambda>c. (rk_key c, 1)) candidates))\<rparr>"

definition sample_reader :: acl_subject where
  "sample_reader = resolve_resource_access_subject sample_retrieval (Some 1) None None False"

lemma sample_search:
  obtains result where "retrieve_knowledge sample_env sample_retrieval ''av1'' sample_reader ''annual  leave'' 5 = Inr result"
    and "map ev_text (re_evidence result) = [''t'']" and "map (\<lambda>e. ct_release_id (ev_citation e)) (re_evidence result) = [''r1'']"
proof (cases "retrieve_knowledge sample_env sample_retrieval ''av1'' sample_reader ''annual  leave'' 5")
  case (Inl e)
  have "\<not> isl (retrieve_knowledge sample_env sample_retrieval ''av1'' sample_reader ''annual  leave'' 5)" by code_simp
  with Inl show ?thesis by simp
next
  case (Inr result)
  have "case retrieve_knowledge sample_env sample_retrieval ''av1'' sample_reader ''annual  leave'' 5 of
      Inl _ \<Rightarrow> False
    | Inr result \<Rightarrow> map ev_text (re_evidence result) = [''t''] \<and> map (\<lambda>e. ct_release_id (ev_citation e)) (re_evidence result) = [''r1'']"
    by code_simp
  with Inr have "map ev_text (re_evidence result) = [''t''] \<and> map (\<lambda>e. ct_release_id (ev_citation e)) (re_evidence result) = [''r1'']"
    by (simp only: sum.case)
  then show ?thesis using that [OF Inr] by simp
qed

lemma sample_keys: "distinct (map kr_id (rd_knowledge_bases sample_retrieval))" "distinct (map ck_id (sd_chunks sample_retrieval))"
  by code_simp+

text \<open>
  C22: whatever the vector store and the reranker answer, every piece of evidence that a search
  returns quotes a document that the subject may read at that moment, that is active and whose cited
  version is in force and part of the cited release, and this release is bound to the Agent version
  through an active Knowledge Base that the subject may read. The text is that of a stored chunk of
  the very version, and both texts passed the check of their digests.
\<close>

theorem retrieved_evidence_authorized:
  assumes "retrieve_knowledge env db aid subject query now = Inr result" and "e \<in> set (re_evidence result)"
    and "distinct (map kr_id (rd_knowledge_bases db))" and "distinct (map ck_id (sd_chunks db))"
  shows "\<exists>document\<in>set (rd_documents db). \<exists>version\<in>set (sd_versions db). \<exists>chunk\<in>set (sd_chunks db). \<exists>context_chunk\<in>set (sd_chunks db).
    ct_document_id (ev_citation e) = dr_id document \<and> ct_document_version_id (ev_citation e) = dv_id version \<and> ct_chunk_id (ev_citation e) = ck_id chunk
    \<and> dv_document_id version = dr_id document \<and> ck_document_version_id chunk = dv_id version \<and> ck_document_version_id context_chunk = dv_id version
    \<and> in_force db subject now document version
    \<and> (ct_release_id (ev_citation e), dv_id version) \<in> set (sd_release_documents db) \<and> bound_release db aid subject (ct_release_id (ev_citation e))
    \<and> verified_text (rv_cipher env) chunk (ev_child_text e) \<and> verified_text (rv_cipher env) context_chunk (ev_text e)"
  using assms(1)
proof (cases rule: retrieve_cases)
  case (abstained reason sources n errors)
  with assms(2) show ?thesis by (simp add: abstain_def)
next
  case (answered agent_version policy sources fused errors authorized reranked n)
  from answer_evidence assms(2) answered(6) obtain a rank score where a: "a \<in> set authorized"
    and e: "e = evidence_for (rv_isoformat env) rank score a" by blast
  note p = post_authorize_sound [OF answered(5) a assms(3,4)]
  have "ac_fused a \<in> set fused" using p(2) by (auto simp: by_score_def dest: in_set_takeD)
  from search_sources_release [OF answered(4) this] resolve_sources_bound [OF answered(3)]
  have "bound_release db aid subject (fc_release_id (ac_fused a))" by auto
  with p(1) show ?thesis by (auto simp: e evidence_for_def citation_for_def Let_def backed_def)
qed

theorem retrieved_evidence_authorized_witness:
  "\<exists>result e. retrieve_knowledge sample_env sample_retrieval ''av1'' sample_reader ''annual  leave'' 5 = Inr result \<and>
     re_evidence result = [e] \<and> ev_text e = ''t'' \<and> bound_release sample_retrieval ''av1'' sample_reader ''r1'' \<and>
     (\<exists>chunk\<in>set (sd_chunks sample_retrieval). verified_text (rv_cipher sample_env) chunk ''t'')"
proof -
  obtain result where r: "retrieve_knowledge sample_env sample_retrieval ''av1'' sample_reader ''annual  leave'' 5 = Inr result"
    and t: "map ev_text (re_evidence result) = [''t'']" "map (\<lambda>e. ct_release_id (ev_citation e)) (re_evidence result) = [''r1'']" by (rule sample_search)
  from t obtain e where e: "re_evidence result = [e]" "ev_text e = ''t''" "ct_release_id (ev_citation e) = ''r1''" by auto
  then have "e \<in> set (re_evidence result)" by simp
  note found = retrieved_evidence_authorized [OF r this sample_keys, unfolded e(2,3)]
  then have "bound_release sample_retrieval ''av1'' sample_reader ''r1''" by blast
  moreover from found have "\<exists>chunk\<in>set (sd_chunks sample_retrieval). verified_text (rv_cipher sample_env) chunk ''t''" by blast
  ultimately show ?thesis using r e(1,2) by (intro exI conjI)
qed

text \<open>
  C23: a search returns at most the configured number of pieces of evidence, never more than 32,
  numbered from one, from different chunks, and no more of one document than configured, never more
  than 10; the context cites exactly this evidence, in its order, and its estimate stays within the
  token budget, never more than 32768.
\<close>

theorem context_within_budget:
  assumes "retrieve_knowledge env db aid subject query now = Inr result" and "fetch av_id aid (sd_agent_versions db) = Some agent_version"
    and "from_dict (rv_settings env) (av_retrieval_policy agent_version) = Inr policy"
    and "distinct (map kr_id (rd_knowledge_bases db))" and "distinct (map ck_id (sd_chunks db))"
  shows "int (length (re_evidence result)) \<le> rp_final_limit policy \<and> rp_final_limit policy \<le> 32
    \<and> map ev_rank (re_evidence result) = map int [1..<Suc (length (re_evidence result))]
    \<and> distinct (map (\<lambda>e. ct_chunk_id (ev_citation e)) (re_evidence result))
    \<and> int (length (filter (\<lambda>e. ct_document_id (ev_citation e) = d) (re_evidence result))) \<le> rp_max_chunks_per_document policy
    \<and> rp_max_chunks_per_document policy \<le> 10
    \<and> pk_citations (re_context result) = map ev_citation (re_evidence result)
    \<and> pk_estimated_tokens (re_context result) \<le> rp_context_token_budget policy \<and> rp_context_token_budget policy \<le> 32768"
  using assms(1)
proof (cases rule: retrieve_cases)
  case (abstained reason sources n errors)
  with from_dict_bounds [OF assms(3)] show ?thesis by (simp add: abstain_def)
next
  case (answered av pol sources fused errors authorized reranked n)
  have pol: "pol = policy" using answered(1,2) assms(2,3) by simp
  let ?k = "authorized_by_key authorized"
  let ?sel = "select_evidence (rv_isoformat env) policy ?k reranked [] (\<lambda>_. 0) []"
  note b = from_dict_bounds [OF assms(3)]
  have key: "\<forall>key a. ?k key = Some a \<longrightarrow> ck_id (ac_chunk a) = key"
    using by_keyD post_authorize_sound(3) [OF answered(5) _ assms(4,5)] by metis
  have start: "selection_ok policy ?k [] (\<lambda>_. 0) []" using b(3) by (simp add: selection_ok_def)
  from select_ok [OF start _ key, of "rv_isoformat env" reranked] b(1) obtain per_document used
    where ok: "selection_ok policy ?k ?sel per_document used" and len: "int (length ?sel) \<le> rp_final_limit policy" by auto
  obtain packed spent shortened where pack: "pack_each (rp_context_token_budget policy) ?sel [] 0 False = (packed, spent, shortened)"
    by (cases "pack_each (rp_context_token_budget policy) ?sel [] 0 False")
  note ps = pack_each_spec(1,2) [OF pack]
  from ps(1) obtain m where m: "map snd packed = map ev_citation (take m ?sel)" by auto
  have ids: "map (\<lambda>e. ct_citation_id (ev_citation e)) ?sel = map (\<lambda>e. ct_chunk_id (ev_citation e)) ?sel"
    using ok by (simp add: selection_ok_def)
  have sel: "pk_citations (pack_context ?sel (rp_context_token_budget policy)) = map ev_citation (take m ?sel)"
    "pk_estimated_tokens (pack_context ?sel (rp_context_token_budget policy)) = spent"
    by (simp_all add: pack_context_def pack m)
  have cx: "re_context result = pack_context ?sel (rp_context_token_budget policy)" by (simp add: answered(6) pol answer_from_def Let_def)
  have "re_evidence result = filter (\<lambda>e. ct_citation_id (ev_citation e) \<in> (\<lambda>e. ct_citation_id (ev_citation e)) ` set (take m ?sel)) ?sel"
    by (simp add: answered(6) pol answer_from_def Let_def sel image_image)
  moreover have "distinct (map (\<lambda>e. ct_citation_id (ev_citation e)) ?sel)" using ok unfolding ids by (simp add: selection_ok_def)
  ultimately have ev: "re_evidence result = take m ?sel" by (simp only: filter_take_distinct)
  have "length (filter (\<lambda>e. ct_document_id (ev_citation e) = d) (take m ?sel)) \<le> length (filter (\<lambda>e. ct_document_id (ev_citation e) = d) ?sel)"
    by (metis append_take_drop_id filter_append le_add1 length_append)
  moreover have "int (length (filter (\<lambda>e. ct_document_id (ev_citation e) = d) ?sel)) \<le> rp_max_chunks_per_document policy"
    using ok by (metis selection_ok_def)
  moreover have "map ev_rank (take m ?sel) = map int [1..<Suc (length (take m ?sel))]"
    using ok by (simp add: selection_ok_def flip: take_map) (simp add: take_map min_def)
  moreover have "distinct (map (\<lambda>e. ct_chunk_id (ev_citation e)) (take m ?sel))"
    using ok by (simp add: selection_ok_def flip: take_map)
  ultimately show ?thesis using len b ps(2) by (simp add: ev cx sel)
qed

theorem context_within_budget_witness:
  "\<exists>result. retrieve_knowledge sample_env sample_retrieval ''av1'' sample_reader ''annual  leave'' 5 = Inr result \<and>
     map ev_rank (re_evidence result) = [1] \<and> pk_citations (re_context result) = map ev_citation (re_evidence result) \<and>
     pk_estimated_tokens (re_context result) \<le> 6000"
proof -
  obtain result where r: "retrieve_knowledge sample_env sample_retrieval ''av1'' sample_reader ''annual  leave'' 5 = Inr result"
    and t: "map ev_text (re_evidence result) = [''t'']" by (rule sample_search)
  let ?v = "hd (sd_agent_versions sample_retrieval)"
  have v: "fetch av_id ''av1'' (sd_agent_versions sample_retrieval) = Some ?v" by code_simp
  have "case from_dict (rv_settings sample_env) (av_retrieval_policy ?v) of Inl _ \<Rightarrow> False | Inr p \<Rightarrow> rp_context_token_budget p = 6000"
    by code_simp
  then obtain policy where p: "from_dict (rv_settings sample_env) (av_retrieval_policy ?v) = Inr policy" "rp_context_token_budget policy = 6000"
    by (auto split: sum.splits)
  from t have one: "length (re_evidence result) = 1" by auto
  note found = context_within_budget [where d = "[]", OF r v p(1) sample_keys]
  from found have "map ev_rank (re_evidence result) = map int [1..<Suc (length (re_evidence result))]" by blast
  then have "map ev_rank (re_evidence result) = [1]" by (simp add: one)
  moreover from found p(2) have "pk_citations (re_context result) = map ev_citation (re_evidence result)" by blast
  moreover from found p(2) have "pk_estimated_tokens (re_context result) \<le> 6000" by simp
  ultimately show ?thesis using r by (intro exI conjI)
qed

text \<open>
  C24: no text of a document can leave its block. The lines of a context are, for each piece of
  evidence, the opening mark, one line that begins with a brace, and the closing mark, with an empty
  line between the blocks; so each of the two marks stands on exactly as many lines as there are
  citations, whatever the titles, sections and texts contain.
\<close>

theorem evidence_stays_fenced:
  "(\<exists>payloads. split_lines (pk_text (pack_context items token_budget)) = fenced payloads
      \<and> length payloads = length (pk_citations (pack_context items token_budget)) \<and> list_all (\<lambda>p. hd p = CHR ''{'') payloads)
   \<and> count_list (split_lines (pk_text (pack_context items token_budget))) BEGIN_MARK = length (pk_citations (pack_context items token_budget))
   \<and> count_list (split_lines (pk_text (pack_context items token_budget))) END_MARK = length (pk_citations (pack_context items token_budget))"
proof -
  obtain packed spent shortened where pack: "pack_each token_budget items [] 0 False = (packed, spent, shortened)"
    by (cases "pack_each token_budget items [] 0 False")
  let ?ps = "map fst packed"
  have form: "\<exists>c content. p = evidence_payload c content" if "p \<in> set ?ps" for p using pack_each_spec(3) [OF pack] that by fastforce
  then have line: "\<forall>p\<in>set ?ps. newline \<notin> set p" and brace: "\<forall>p\<in>set ?ps. hd p = CHR ''{''"
    using payload_line by (fastforce, force simp: evidence_payload_def)
  have lines: "split_lines (pk_text (pack_context items token_budget)) = fenced ?ps"
    using split_fenced [OF line] by (simp add: pack_context_def pack)
  have "count_list (fenced ps) BEGIN_MARK = length ps \<and> count_list (fenced ps) END_MARK = length ps" if "\<forall>p\<in>set ps. hd p = CHR ''{''" for ps
    using that by (induction ps rule: fenced.induct) (auto simp: BEGIN_MARK_def END_MARK_def)
  then have "count_list (fenced ?ps) BEGIN_MARK = length ?ps" "count_list (fenced ?ps) END_MARK = length ?ps" using brace by blast+
  moreover have "length ?ps = length (pk_citations (pack_context items token_budget))" by (simp add: pack_context_def pack)
  ultimately show ?thesis using lines brace by (auto simp: list_all_iff intro!: exI [of _ ?ps])
qed

end
