(* ===== verification/Chat_Tools.thy ===== *)
theory Chat_Tools
  imports Resource_Access
begin

text \<open>
  The tools of a chat turn: the registry (\<open>services/chat_tool_registry.py\<close>), who may use a tool
  (\<open>services/chat_tool_access_service.py\<close>, with the rules of \<open>Resource_Access\<close>), and what the turn acts on
  (\<open>parse_tools_config\<close> of \<open>services/chat_tools_service.py\<close>). The text of dates and of JSON values that are not
  text or integers is an argument.
\<close>

section \<open>The registry\<close>

record chat_tool_spec =
  ts_key :: string
  ts_title :: string
  ts_description :: string
  ts_icon :: string
  ts_default_access :: string

definition tool_spec :: "string \<Rightarrow> string \<Rightarrow> string \<Rightarrow> string \<Rightarrow> string \<Rightarrow> chat_tool_spec" where
  "tool_spec key title description icon default_access =
     \<lparr>ts_key = key, ts_title = title, ts_description = description, ts_icon = icon, ts_default_access = default_access\<rparr>"

definition CHAT_TOOLS :: "chat_tool_spec list" where
  "CHAT_TOOLS =
    [tool_spec ''web_search'' ''Web Search'' ''Fresh web results'' ''globe'' ACCESS_PUBLIC,
     tool_spec ''web_fetch'' ''Web Fetch'' ''Read links in your message'' ''link'' ACCESS_PUBLIC,
     tool_spec ''image_generation'' ''Image Generation'' ''Create or edit images from text'' ''image'' ACCESS_PUBLIC,
     tool_spec ''video_generation'' ''Video Generation'' ''Create short videos from text'' ''video'' ACCESS_PUBLIC,
     tool_spec ''speech_generation'' ''Text to Speech'' ''Read the answer aloud'' ''speaker'' ACCESS_PUBLIC,
     tool_spec ''speech_to_text'' ''Voice Messages'' ''Dictate a message instead of typing'' ''microphone'' ACCESS_PUBLIC,
     tool_spec ''code_interpreter'' ''Code Interpreter'' ''Run Python in a sandbox'' ''terminal'' ACCESS_PUBLIC,
     tool_spec ''private_mode'' ''Private Mode'' ''Do not store this conversation'' ''lock'' ACCESS_PUBLIC,
     tool_spec ''browser_extension'' ''Browser Extension'' ''Use Alpharouter from the browser side panel'' ''puzzle'' ACCESS_PUBLIC,
     tool_spec ''browser_agent'' ''Browser Agent'' ''Let the extension click and type in web pages'' ''cursor'' ACCESS_PRIVATE,
     tool_spec ''browser_control'' ''Browser Control''
       (''Let the extension'' @ [CHR 0x27] @ ''s agent use a real mouse and keyboard, and see the page'') ''cursor'' ACCESS_PRIVATE,
     tool_spec ''exchange_mail'' ''Exchange Mail'' ''Read, search and draft email in your Exchange mailbox'' ''mail'' ACCESS_PUBLIC]"

definition REQUEST_TOOL_KEYS :: "string list" where
  "REQUEST_TOOL_KEYS =
     [''web_search'', ''web_fetch'', ''image_generation'', ''video_generation'', ''speech_generation'', ''code_interpreter'']"

definition spec_or_none :: "string \<Rightarrow> chat_tool_spec option" where
  "spec_or_none key = fetch ts_key (strip key) CHAT_TOOLS"

definition tools_object :: "payload \<Rightarrow> payload" where
  "tools_object body = (case dict_get body ''tools'' of JObject d \<Rightarrow> d | _ \<Rightarrow> [])"

definition requested_tool_keys :: "payload \<Rightarrow> string list" where
  "requested_tool_keys body =
     (let tools = tools_object body
      in filter (\<lambda>key. json_truthy (dict_get tools key) \<or> json_truthy (dict_get body key)) REQUEST_TOOL_KEYS @
         (if json_truthy (dict_get body ''private_mode'') then [''private_mode''] else []))"

section \<open>What a turn acts on\<close>

record chat_tools_config =
  tc_web_search :: bool
  tc_web_search_depth :: string
  tc_web_fetch :: bool
  tc_code_interpreter :: bool
  tc_exchange_mail :: bool

definition asks_for_mail :: "payload \<Rightarrow> bool" where
  "asks_for_mail body = (case dict_get body ''tools'' of JObject d \<Rightarrow> dict_get d ''exchange_mail'' = JBool True | _ \<Rightarrow> False)"

definition parse_tools_config :: "(json \<Rightarrow> string) \<Rightarrow> payload \<Rightarrow> chat_tools_config" where
  "parse_tools_config repr body =
     (let tools = tools_object body;
          depth = lower (json_str repr (json_or (json_or (dict_get tools ''web_search_depth'') (dict_get body ''web_search_depth'')) (JString ''medium'')))
      in \<lparr>tc_web_search = json_truthy (json_or (dict_get body ''web_search'') (dict_get tools ''web_search'')),
          tc_web_search_depth = (if depth \<notin> {''low'', ''medium'', ''high''} then ''medium'' else depth),
          tc_web_fetch = json_truthy (json_or (dict_get tools ''web_fetch'') (dict_get body ''web_fetch'')),
          tc_code_interpreter = json_truthy (json_or (dict_get tools ''code_interpreter'') (dict_get body ''code_interpreter'')),
          tc_exchange_mail = asks_for_mail body\<rparr>)"

section \<open>Who may use a tool\<close>

definition tool_forbidden :: "chat_tool_spec \<Rightarrow> py_error" where
  "tool_forbidden spec = HTTPException 403 (ts_title spec @ '' is not available to your account.'')"

definition tool_policies :: "'x acl_db_scheme \<Rightarrow> string list \<Rightarrow> string \<Rightarrow> chat_tool_policy option" where
  "tool_policies db keys k = fetch tp_tool_key k (filter (\<lambda>p. tp_tool_key p \<in> set keys) (rd_tool_policies db))"

definition tool_assignments :: "'x acl_db_scheme \<Rightarrow> string list \<Rightarrow> string \<Rightarrow> acl_assignment list" where
  "tool_assignments db keys = get_rows (group_rows keys (filter (\<lambda>a. aa_resource_id a \<in> set keys) (rd_tool_access db)))"

definition access_type_of :: "chat_tool_spec \<Rightarrow> chat_tool_policy option \<Rightarrow> string" where
  "access_type_of spec policy =
     (case policy of
        None \<Rightarrow> ts_default_access spec
      | Some p \<Rightarrow> if tp_access_type p \<noteq> [] then tp_access_type p else ts_default_access spec)"

definition permitted_tool_keys :: "'x acl_db_scheme \<Rightarrow> acl_subject \<Rightarrow> string list option \<Rightarrow> string list" where
  "permitted_tool_keys db subject keys =
     (let specs = filter (\<lambda>spec. case keys of None \<Rightarrow> True | Some ks \<Rightarrow> ts_key spec \<in> set ks) CHAT_TOOLS;
          wanted = map ts_key specs
      in if specs = [] then []
         else map ts_key (filter (\<lambda>spec. evaluate_access (access_type_of spec (tool_policies db wanted (ts_key spec)))
                                           (tool_assignments db wanted (ts_key spec)) subject) specs))"

definition assert_tools_permitted :: "'x acl_db_scheme \<Rightarrow> acl_subject \<Rightarrow> string list \<Rightarrow> unit result" where
  "assert_tools_permitted db subject requested =
     (let wanted = sort (remdups (filter (\<lambda>key. spec_or_none key \<noteq> None) requested))
      in if wanted = [] then Inr ()
         else
           let allowed = permitted_tool_keys db subject (Some wanted)
           in (case find (\<lambda>key. key \<notin> set allowed) wanted of
                 None \<Rightarrow> Inr ()
               | Some key \<Rightarrow> Inl (tool_forbidden (the (spec_or_none key)))))"

definition assert_tool_for_user ::
  "'x acl_db_scheme \<Rightarrow> string \<Rightarrow> int option \<Rightarrow> int option \<Rightarrow> string option \<Rightarrow> unit result" where
  "assert_tool_for_user db key user_id key_id source =
     assert_tools_permitted db (resolve_resource_access_subject db user_id key_id source False) [key]"

section \<open>Reading and saving a policy\<close>

record tool_access =
  tv_tool_key :: string
  tv_access_type :: string
  tv_acl_version :: int
  tv_grants :: "access_grant list"
  tv_updated_at :: "string option"
  tv_updated_by_user_id :: "int option"

definition view_grant :: "acl_assignment \<Rightarrow> access_grant list" where
  "view_grant a =
     (case aa_user_id a of
        Some i \<Rightarrow> [\<lparr>gr_target_type = ''user'', gr_target = Target_Int i, gr_effect = aa_effect a\<rparr>]
      | None \<Rightarrow>
          (case aa_group_id a of
             Some i \<Rightarrow> [\<lparr>gr_target_type = ''group'', gr_target = Target_Int i, gr_effect = aa_effect a\<rparr>]
           | None \<Rightarrow>
               if truthy (aa_department a)
               then [\<lparr>gr_target_type = ''department'', gr_target = Target_Str (the (aa_department a)), gr_effect = aa_effect a\<rparr>]
               else if truthy (aa_role_slug a)
               then [\<lparr>gr_target_type = ''role'', gr_target = Target_Str (the (aa_role_slug a)), gr_effect = aa_effect a\<rparr>]
               else []))"

definition unknown_tool :: "string \<Rightarrow> py_error" where
  "unknown_tool key = HTTPException 404 (''Unknown chat tool '' @ quoted key @ ''.'')"

definition get_chat_tool_access :: "(time \<Rightarrow> string) \<Rightarrow> 'x acl_db_scheme \<Rightarrow> string \<Rightarrow> tool_access result" where
  "get_chat_tool_access isoformat db key =
     (case spec_or_none key of
        None \<Rightarrow> Inl (unknown_tool key)
      | Some spec \<Rightarrow>
          let policy = tool_policies db [ts_key spec] (ts_key spec)
          in Inr \<lparr>tv_tool_key = ts_key spec, tv_access_type = access_type_of spec policy,
                  tv_acl_version = (case policy of None \<Rightarrow> 0 | Some p \<Rightarrow> tp_acl_version p),
                  tv_grants = concat (map view_grant (tool_assignments db [ts_key spec] (ts_key spec))),
                  tv_updated_at = (case policy of None \<Rightarrow> None | Some p \<Rightarrow> map_option isoformat (tp_updated_at p)),
                  tv_updated_by_user_id = (case policy of None \<Rightarrow> None | Some p \<Rightarrow> tp_updated_by_user_id p)\<rparr>)"

definition save_policy :: "time \<Rightarrow> string \<Rightarrow> string \<Rightarrow> int option \<Rightarrow> chat_tool_policy list \<Rightarrow> chat_tool_policy list" where
  "save_policy now key access actor policies =
     modify tp_tool_key key
       (\<lambda>p. p\<lparr>tp_access_type := access, tp_acl_version := tp_acl_version p + 1, tp_updated_at := Some now, tp_updated_by_user_id := actor\<rparr>)
       (if fetch tp_tool_key key policies = None
        then policies @ [\<lparr>tp_tool_key = key, tp_access_type = access, tp_acl_version = 0, tp_updated_at = None, tp_updated_by_user_id = None\<rparr>]
        else policies)"

definition set_chat_tool_access ::
  "(time \<Rightarrow> string) \<Rightarrow> time \<Rightarrow> 'x acl_db_scheme \<Rightarrow> string \<Rightarrow> string \<Rightarrow> access_grant list \<Rightarrow> int option \<Rightarrow> ('x acl_db_scheme \<times> tool_access) result" where
  "set_chat_tool_access isoformat now db key access_type grants actor =
     (case spec_or_none key of
        None \<Rightarrow> Inl (unknown_tool key)
      | Some spec \<Rightarrow>
          (case valid_access_type access_type of Inl e \<Rightarrow> Inl e
           | Inr access \<Rightarrow>
               (case validated_grants db grants of Inl e \<Rightarrow> Inl e
                | Inr rows \<Rightarrow>
                    let db1 = db\<lparr>rd_tool_policies := save_policy now (ts_key spec) access actor (rd_tool_policies db),
                                 rd_tool_access := replace_rows (ts_key spec) actor now rows (rd_tool_access db)\<rparr>
                    in (case get_chat_tool_access isoformat db1 (ts_key spec) of Inl e \<Rightarrow> Inl e | Inr saved \<Rightarrow> Inr (db1, saved)))))"

record tool_overview =
  to_key :: string
  to_title :: string
  to_description :: string
  to_icon :: string
  to_access_type :: string
  to_acl_version :: int
  to_allow_count :: nat
  to_deny_count :: nat
  to_updated_at :: "string option"
  to_updated_by_user_id :: "int option"

definition chat_tool_overview :: "(time \<Rightarrow> string) \<Rightarrow> 'x acl_db_scheme \<Rightarrow> tool_overview list" where
  "chat_tool_overview isoformat db =
     (let keys = map ts_key CHAT_TOOLS; effect = (\<lambda>a. if aa_effect a = [] then ''allow'' else aa_effect a)
      in map (\<lambda>spec.
           let policy = tool_policies db keys (ts_key spec); rows = tool_assignments db keys (ts_key spec)
           in \<lparr>to_key = ts_key spec, to_title = ts_title spec, to_description = ts_description spec, to_icon = ts_icon spec,
               to_access_type = access_type_of spec policy, to_acl_version = (case policy of None \<Rightarrow> 0 | Some p \<Rightarrow> tp_acl_version p),
               to_allow_count = length (filter (\<lambda>a. effect a = ''allow'') rows),
               to_deny_count = length (filter (\<lambda>a. effect a = ''deny'') rows),
               to_updated_at = (case policy of None \<Rightarrow> None | Some p \<Rightarrow> map_option isoformat (tp_updated_at p)),
               to_updated_by_user_id = (case policy of None \<Rightarrow> None | Some p \<Rightarrow> tp_updated_by_user_id p)\<rparr>) CHAT_TOOLS)"

section \<open>The gate of a turn\<close>

lemma tool_assignments_eq: "k \<in> set keys \<Longrightarrow> tool_assignments db keys k = rows_for k (rd_tool_access db)"
  by (simp add: tool_assignments_def group_rows_eq)

lemma fetch_filter_in: "k \<in> S \<Longrightarrow> fetch key k (filter (\<lambda>r. key r \<in> S) rows) = fetch key k rows"
  by (induction rows) auto

lemma tool_policies_eq: "k \<in> set keys \<Longrightarrow> tool_policies db keys k = fetch tp_tool_key k (rd_tool_policies db)"
  by (simp add: tool_policies_def fetch_filter_in)

text \<open>What the rules say of one tool.\<close>

definition tool_open :: "'x acl_db_scheme \<Rightarrow> acl_subject \<Rightarrow> chat_tool_spec \<Rightarrow> bool" where
  "tool_open db subject spec \<longleftrightarrow>
     evaluate_access (access_type_of spec (fetch tp_tool_key (ts_key spec) (rd_tool_policies db))) (rows_for (ts_key spec) (rd_tool_access db)) subject"

lemma permitted_iff:
  "k \<in> set (permitted_tool_keys db subject keys) \<longleftrightarrow>
   (case keys of None \<Rightarrow> True | Some ks \<Rightarrow> k \<in> set ks) \<and> (\<exists>spec\<in>set CHAT_TOOLS. ts_key spec = k \<and> tool_open db subject spec)"
proof -
  let ?specs = "filter (\<lambda>spec. case keys of None \<Rightarrow> True | Some ks \<Rightarrow> ts_key spec \<in> set ks) CHAT_TOOLS"
  have "permitted_tool_keys db subject keys = map ts_key (filter (tool_open db subject) ?specs)"
  proof (cases "?specs = []")
    case True
    then show ?thesis unfolding permitted_tool_keys_def Let_def True by simp
  next
    case False
    show ?thesis
      unfolding permitted_tool_keys_def Let_def if_not_P [OF False] tool_open_def
      by (intro arg_cong [of _ _ "map ts_key"] filter_cong refl) (simp add: tool_assignments_eq tool_policies_eq)
  qed
  then show ?thesis by (auto split: option.splits)
qed

lemma registered_keys: "distinct (map ts_key CHAT_TOOLS)" "list_all (\<lambda>spec. spec_or_none (ts_key spec) = Some spec) CHAT_TOOLS"
  "list_all (\<lambda>k. spec_or_none k \<noteq> None) (''private_mode'' # REQUEST_TOOL_KEYS)"
  by code_simp+

lemma spec_registered: "spec_or_none key = Some spec \<Longrightarrow> spec \<in> set CHAT_TOOLS \<and> spec_or_none (ts_key spec) = Some spec"
  using registered_keys(2) by (auto simp: spec_or_none_def list_all_iff dest!: fetch_SomeD)

lemma requested_registered: "k \<in> set (requested_tool_keys body) \<Longrightarrow> spec_or_none k \<noteq> None"
  using registered_keys(3) by (auto simp: requested_tool_keys_def Let_def list_all_iff split: if_splits)

lemma requested_key: "k \<in> set (requested_tool_keys body) \<Longrightarrow> spec_or_none k = Some spec \<Longrightarrow> ts_key spec = k"
proof -
  have "list_all (\<lambda>k. map_option ts_key (spec_or_none k) = Some k) (''private_mode'' # REQUEST_TOOL_KEYS)" by code_simp
  then show "k \<in> set (requested_tool_keys body) \<Longrightarrow> spec_or_none k = Some spec \<Longrightarrow> ts_key spec = k"
    by (fastforce simp: requested_tool_keys_def Let_def list_all_iff split: if_splits)
qed

lemma requested_memI:
  "k \<in> set REQUEST_TOOL_KEYS \<Longrightarrow> json_truthy (dict_get (tools_object body) k) \<or> json_truthy (dict_get body k) \<Longrightarrow>
   k \<in> set (requested_tool_keys body)"
  by (simp add: requested_tool_keys_def)

lemma find_SomeD: "find P xs = Some x \<Longrightarrow> x \<in> set xs \<and> P x"
  by (induction xs) (auto split: if_splits)

lemma assert_tools_iff:
  assumes "\<And>k. k \<in> set requested \<Longrightarrow> spec_or_none k \<noteq> None"
  shows "assert_tools_permitted db subject requested = Inr () \<longleftrightarrow> set requested \<subseteq> set (permitted_tool_keys db subject None)"
proof -
  let ?w = "sort (remdups (filter (\<lambda>key. spec_or_none key \<noteq> None) requested))"
  have w: "set ?w = set requested" using assms by auto
  have "assert_tools_permitted db subject requested = Inr () \<longleftrightarrow> (\<forall>k\<in>set ?w. k \<in> set (permitted_tool_keys db subject (Some ?w)))"
  proof (cases "?w = []")
    case True
    show ?thesis unfolding assert_tools_permitted_def Let_def True by simp
  next
    case False
    have none: "(case x of None \<Rightarrow> Inr () | Some k \<Rightarrow> Inl (err k)) = Inr () \<longleftrightarrow> x = None" for x :: "string option" and err :: "string \<Rightarrow> py_error"
      by (cases x) auto
    show ?thesis
      unfolding assert_tools_permitted_def Let_def if_not_P [OF False] none find_None_iff by blast
  qed
  also have "\<dots> \<longleftrightarrow> set requested \<subseteq> set (permitted_tool_keys db subject None)"
    unfolding permitted_iff option.case w subset_iff by blast
  finally show ?thesis .
qed

text \<open>
  C29: the gate of a turn refuses exactly when some requested tool is closed to the subject, and
  names such a tool; once the gate has passed, everything the turn is configured to run is open to
  the subject. (The mailbox is the exception by design: it is only offered, and checked elsewhere.)
\<close>

theorem turn_runs_permitted_tools:
  "(case assert_tools_permitted db subject (requested_tool_keys body) of
      Inr _ \<Rightarrow> set (requested_tool_keys body) \<subseteq> set (permitted_tool_keys db subject None)
        \<and> (\<not> tc_web_search (parse_tools_config repr body) \<or> ''web_search'' \<in> set (permitted_tool_keys db subject None))
        \<and> (\<not> tc_web_fetch (parse_tools_config repr body) \<or> ''web_fetch'' \<in> set (permitted_tool_keys db subject None))
        \<and> (\<not> tc_code_interpreter (parse_tools_config repr body) \<or> ''code_interpreter'' \<in> set (permitted_tool_keys db subject None))
    | Inl e \<Rightarrow> \<exists>spec\<in>set CHAT_TOOLS. ts_key spec \<in> set (requested_tool_keys body) \<and> \<not> tool_open db subject spec \<and> e = tool_forbidden spec)"
proof (cases "assert_tools_permitted db subject (requested_tool_keys body)")
  case (Inr u)
  then have sub: "set (requested_tool_keys body) \<subseteq> set (permitted_tool_keys db subject None)"
    by (subst assert_tools_iff [symmetric]) (rule requested_registered, simp_all)
  have mem: "''web_search'' \<in> set REQUEST_TOOL_KEYS" "''web_fetch'' \<in> set REQUEST_TOOL_KEYS" "''code_interpreter'' \<in> set REQUEST_TOOL_KEYS"
    by (simp_all add: REQUEST_TOOL_KEYS_def)
  have "tc_web_search (parse_tools_config repr body) \<Longrightarrow> ''web_search'' \<in> set (requested_tool_keys body)"
    "tc_web_fetch (parse_tools_config repr body) \<Longrightarrow> ''web_fetch'' \<in> set (requested_tool_keys body)"
    "tc_code_interpreter (parse_tools_config repr body) \<Longrightarrow> ''code_interpreter'' \<in> set (requested_tool_keys body)"
    by (rule requested_memI [OF mem(1)], simp add: parse_tools_config_def Let_def json_or_def split: if_split_asm)
      (rule requested_memI [OF mem(2)], simp add: parse_tools_config_def Let_def json_or_def split: if_split_asm,
       rule requested_memI [OF mem(3)], simp add: parse_tools_config_def Let_def json_or_def split: if_split_asm)
  with sub Inr show ?thesis by (simp only: sum.case) blast
next
  case (Inl e)
  let ?w = "sort (remdups (filter (\<lambda>key. spec_or_none key \<noteq> None) (requested_tool_keys body)))"
  from Inl have "(case find (\<lambda>key. key \<notin> set (permitted_tool_keys db subject (Some ?w))) ?w of
      None \<Rightarrow> Inr () | Some key \<Rightarrow> Inl (tool_forbidden (the (spec_or_none key)))) = Inl e"
    unfolding assert_tools_permitted_def Let_def by (simp only: split: if_split_asm) simp
  then obtain key where "find (\<lambda>key. key \<notin> set (permitted_tool_keys db subject (Some ?w))) ?w = Some key"
    and e: "e = tool_forbidden (the (spec_or_none key))"
    by (cases "find (\<lambda>key. key \<notin> set (permitted_tool_keys db subject (Some ?w))) ?w") (simp_all only: option.case sum.inject sum.distinct)
  from find_SomeD [OF this(1)] have w: "key \<in> set ?w" "key \<notin> set (permitted_tool_keys db subject (Some ?w))" by blast+
  then have k: "key \<in> set (requested_tool_keys body)" "spec_or_none key \<noteq> None" by auto
  then obtain spec where spec: "spec_or_none key = Some spec" by auto
  have "ts_key spec = key" using requested_key k(1) spec by blast
  with w spec_registered [OF spec] have "\<not> tool_open db subject spec" unfolding permitted_iff option.case by blast
  moreover have "e = tool_forbidden spec" by (simp add: e spec)
  ultimately show ?thesis
    using \<open>ts_key spec = key\<close> k(1) spec_registered [OF spec] unfolding Inl sum.case by blast
qed

theorem turn_runs_permitted_tools_witness:
  "assert_tools_permitted (sample_acl []) public_subject (requested_tool_keys [(''tools'', JObject [(''web_fetch'', JBool True)])]) = Inr ()
    \<and> ''web_fetch'' \<in> set (permitted_tool_keys (sample_acl []) public_subject None)"
proof -
  have "assert_tools_permitted (sample_acl []) public_subject (requested_tool_keys [(''tools'', JObject [(''web_fetch'', JBool True)])]) = Inr ()"
    "tc_web_fetch (parse_tools_config (\<lambda>_. []) [(''tools'', JObject [(''web_fetch'', JBool True)])])" by code_simp+
  with turn_runs_permitted_tools [where db = "sample_acl []" and subject = public_subject
      and body = "[(''tools'', JObject [(''web_fetch'', JBool True)])]" and repr = "\<lambda>_. []"]
  show ?thesis by (simp only: sum.case) blast
qed

section \<open>Saving and reading back\<close>

lemma validated_again:
  assumes "normalize_grant db g = Inr (k, row)"
  shows "\<exists>v. view_grant (grant_assignment rid actor now row) = [v] \<and> normalize_grant db v = Inr (k, row)"
proof -
  have lits: "lower (strip ''user'') = ''user''" "lower (strip ''group'') = ''group''" "lower (strip ''department'') = ''department''"
    "lower (strip ''role'') = ''role''" "lower (strip EFFECT_ALLOW) = EFFECT_ALLOW" "lower (strip EFFECT_DENY) = EFFECT_DENY" by code_simp+
  from assms show ?thesis
  proof (cases rule: normalize_grant_cases)
    case (User i e)
    from assms have "\<exists>user. fetch a_id i (ad_users db) = Some user \<and> a_deleted_at user = None \<and> a_is_active user"
      using User(1) by (auto simp: normalize_grant_def Let_def split: if_splits sum.splits option.splits)
    with User lits show ?thesis
      by (auto simp: view_grant_def grant_assignment_def normalize_grant_def Let_def target_int_def)
  next
    case (Group i e)
    from assms have "i \<in> set (rd_groups db)" using Group(1) by (auto simp: normalize_grant_def Let_def split: if_splits sum.splits option.splits)
    with Group lits show ?thesis
      by (auto simp: view_grant_def grant_assignment_def normalize_grant_def Let_def target_int_def)
  next
    case (Department t e s)
    with lits normalize_text_idem [OF Department(4)] normalized_not_Nil [OF Department(4)] show ?thesis
      by (auto simp: view_grant_def grant_assignment_def normalize_grant_def Let_def target_str_def truthy_def)
  next
    case (Role t e s)
    from assms have "is_valid_role_slug t" using Role(1) by (auto simp: normalize_grant_def Let_def split: if_splits sum.splits option.splits)
    with Role lits normalize_text_idem [OF Role(4)] normalized_not_Nil [OF Role(4)] show ?thesis
      by (auto simp: view_grant_def grant_assignment_def normalize_grant_def Let_def target_str_def truthy_def)
  qed
qed

lemma view_grant_stamp: "view_grant (grant_assignment rid a t row) = view_grant (grant_assignment rid a' t' row)"
  by (simp add: view_grant_def grant_assignment_def split: prod.split option.split)

lemma validate_views:
  assumes "\<forall>row\<in>set rows. \<exists>g. normalize_grant db g = Inr (grant_key_of row, row)" and "distinct (map grant_key_of rows)"
    and "grant_key_of ` set rows \<inter> set seen = {}"
  shows "validate_each db seen (concat (map (\<lambda>row. view_grant (grant_assignment rid actor now row)) rows)) = Inr rows"
  using assms
proof (induction rows arbitrary: seen)
  case (Cons row rows)
  from Cons.prems(1) obtain g where "normalize_grant db g = Inr (grant_key_of row, row)" by auto
  from validated_again [OF this] obtain v where v: "view_grant (grant_assignment rid actor now row) = [v]"
    "normalize_grant db v = Inr (grant_key_of row, row)" by blast
  have "validate_each db (grant_key_of row # seen) (concat (map (\<lambda>row. view_grant (grant_assignment rid actor now row)) rows)) = Inr rows"
    using Cons.prems by (intro Cons.IH) auto
  with v Cons.prems(3) show ?case by simp
qed simp

lemma tool_tables_frame [simp]:
  "ad_users (db\<lparr>rd_tool_policies := ps, rd_tool_access := rules\<rparr>) = ad_users db"
  "rd_groups (db\<lparr>rd_tool_policies := ps, rd_tool_access := rules\<rparr>) = rd_groups db"
  by (cases db; simp)+

lemma normalize_grant_frame: "normalize_grant (db\<lparr>rd_tool_policies := ps, rd_tool_access := rules\<rparr>) g = normalize_grant db g"
  unfolding normalize_grant_def tool_tables_frame by (rule refl)

lemma validate_each_frame: "validate_each (db\<lparr>rd_tool_policies := ps, rd_tool_access := rules\<rparr>) seen gs = validate_each db seen gs"
  by (induction db seen gs rule: validate_each.induct) (simp_all add: normalize_grant_frame split: sum.split prod.split)

lemma rows_replaced [simp]:
  "rows_for k (replace_rows rid actor now rows table) = (if k = rid then map (grant_assignment rid actor now) rows else rows_for k table)"
  by (auto simp: rows_for_def replace_rows_def grant_assignment_def filter_empty_conv filter_id_conv intro!: filter_cong split: prod.splits)

lemma fetch_save_policy:
  "fetch tp_tool_key k (save_policy now key access actor policies) =
    (if k = key
     then Some (case fetch tp_tool_key key policies of
         None \<Rightarrow> \<lparr>tp_tool_key = key, tp_access_type = access, tp_acl_version = 1, tp_updated_at = Some now, tp_updated_by_user_id = actor\<rparr>
       | Some p \<Rightarrow> p\<lparr>tp_access_type := access, tp_acl_version := tp_acl_version p + 1, tp_updated_at := Some now, tp_updated_by_user_id := actor\<rparr>)
     else fetch tp_tool_key k policies)"
  by (auto simp: save_policy_def fetch_modify fetch_append split: option.splits dest: fetch_key)

lemma get_access_eq:
  "spec_or_none key = Some spec \<Longrightarrow>
   get_chat_tool_access isoformat db key =
     Inr \<lparr>tv_tool_key = ts_key spec, tv_access_type = access_type_of spec (fetch tp_tool_key (ts_key spec) (rd_tool_policies db)),
          tv_acl_version = (case fetch tp_tool_key (ts_key spec) (rd_tool_policies db) of None \<Rightarrow> 0 | Some p \<Rightarrow> tp_acl_version p),
          tv_grants = concat (map view_grant (rows_for (ts_key spec) (rd_tool_access db))),
          tv_updated_at = (case fetch tp_tool_key (ts_key spec) (rd_tool_policies db) of None \<Rightarrow> None | Some p \<Rightarrow> map_option isoformat (tp_updated_at p)),
          tv_updated_by_user_id = (case fetch tp_tool_key (ts_key spec) (rd_tool_policies db) of None \<Rightarrow> None | Some p \<Rightarrow> tp_updated_by_user_id p)\<rparr>"
  by (simp add: get_chat_tool_access_def Let_def tool_policies_eq tool_assignments_eq)

text \<open>The view of a tool right after it was saved with certain rows.\<close>

definition saved_view :: "(time \<Rightarrow> string) \<Rightarrow> time \<Rightarrow> chat_tool_spec \<Rightarrow> string \<Rightarrow> int \<Rightarrow> grant_row list \<Rightarrow> int option \<Rightarrow> tool_access" where
  "saved_view isoformat now spec access version rows actor =
     \<lparr>tv_tool_key = ts_key spec, tv_access_type = access, tv_acl_version = version,
      tv_grants = concat (map (\<lambda>row. view_grant (grant_assignment (ts_key spec) actor now row)) rows),
      tv_updated_at = Some (isoformat now), tv_updated_by_user_id = actor\<rparr>"

definition version_of :: "'x acl_db_scheme \<Rightarrow> chat_tool_spec \<Rightarrow> int" where
  "version_of db spec = (case fetch tp_tool_key (ts_key spec) (rd_tool_policies db) of None \<Rightarrow> 0 | Some p \<Rightarrow> tp_acl_version p)"

lemma set_access_eq:
  assumes "spec_or_none key = Some spec"
  shows "set_chat_tool_access isoformat now db key access_type grants actor =
    (case valid_access_type access_type of Inl e \<Rightarrow> Inl e
     | Inr access \<Rightarrow>
         (case validated_grants db grants of Inl e \<Rightarrow> Inl e
          | Inr rows \<Rightarrow>
              Inr (db\<lparr>rd_tool_policies := save_policy now (ts_key spec) access actor (rd_tool_policies db),
                      rd_tool_access := replace_rows (ts_key spec) actor now rows (rd_tool_access db)\<rparr>,
                   saved_view isoformat now spec access (version_of db spec + 1) rows actor)))"
proof -
  have get: "get_chat_tool_access isoformat (db\<lparr>rd_tool_policies := save_policy now (ts_key spec) access actor (rd_tool_policies db),
      rd_tool_access := replace_rows (ts_key spec) actor now rows (rd_tool_access db)\<rparr>) (ts_key spec)
      = Inr (saved_view isoformat now spec access (version_of db spec + 1) rows actor)"
    if "valid_access_type access_type = Inr access" for access rows
  proof -
    have "access \<noteq> []" using that by (auto simp: valid_access_type_def Let_def ACCESS_PUBLIC_def ACCESS_PRIVATE_def split: if_splits)
    then show ?thesis using spec_registered [OF assms]
      by (simp add: get_access_eq saved_view_def version_of_def fetch_save_policy access_type_of_def o_def split: option.split)
  qed
  show ?thesis
    unfolding set_chat_tool_access_def assms option.case Let_def
    by (cases "valid_access_type access_type"; cases "validated_grants db grants"; simp add: get)
qed

lemma valid_access_again: "valid_access_type access_type = Inr access \<Longrightarrow> access = lower (strip access_type) \<and> valid_access_type access = Inr access"
proof -
  have lits: "lower (strip ACCESS_PUBLIC) = ACCESS_PUBLIC" "lower (strip ACCESS_PRIVATE) = ACCESS_PRIVATE" by code_simp+
  then show "valid_access_type access_type = Inr access \<Longrightarrow> access = lower (strip access_type) \<and> valid_access_type access = Inr access"
    by (auto simp: valid_access_type_def Let_def split: if_splits)
qed

text \<open>
  What saving the access of a tool answers is what reading it answers afterwards; the access
  version grows by one; the policy of every other tool is untouched; and an administrator who saves
  again what the editor shows, users and groups being the same, gets the same access and the same
  grants in the same order.
\<close>

theorem tool_policy_round_trip:
  assumes "set_chat_tool_access isoformat now db key access_type grants actor = Inr (db', saved)"
  shows "get_chat_tool_access isoformat db' key = Inr saved \<and> tv_access_type saved = lower (strip access_type)
    \<and> (\<exists>before. get_chat_tool_access isoformat db key = Inr before \<and> tv_acl_version saved = tv_acl_version before + 1)
    \<and> (spec_or_none other = spec_or_none key \<or> get_chat_tool_access isoformat db' other = get_chat_tool_access isoformat db other)
    \<and> (\<exists>db'' again. set_chat_tool_access isoformat later db' key (tv_access_type saved) (tv_grants saved) actor' = Inr (db'', again)
        \<and> tv_access_type again = tv_access_type saved \<and> tv_grants again = tv_grants saved \<and> tv_acl_version again = tv_acl_version saved + 1)"
proof -
  from assms obtain spec where spec: "spec_or_none key = Some spec" by (auto simp: set_chat_tool_access_def split: option.splits)
  note eq = set_access_eq [OF spec]
  from assms [unfolded eq] obtain access rows where va: "valid_access_type access_type = Inr access" and vg: "validated_grants db grants = Inr rows"
    and db': "db' = db\<lparr>rd_tool_policies := save_policy now (ts_key spec) access actor (rd_tool_policies db),
      rd_tool_access := replace_rows (ts_key spec) actor now rows (rd_tool_access db)\<rparr>"
    and saved: "saved = saved_view isoformat now spec access (version_of db spec + 1) rows actor"
    by (auto split: sum.splits)
  have ne: "access \<noteq> []" using va by (auto simp: valid_access_type_def Let_def ACCESS_PUBLIC_def ACCESS_PRIVATE_def split: if_splits)
  have get: "get_chat_tool_access isoformat db' key = Inr saved"
    using ne by (simp add: get_access_eq [OF spec] saved saved_view_def db' fetch_save_policy access_type_of_def version_of_def o_def split: option.split)
  have other: "get_chat_tool_access isoformat db' other = get_chat_tool_access isoformat db other" if "spec_or_none other \<noteq> Some spec"
  proof (cases "spec_or_none other")
    case (Some s)
    have "ts_key s \<noteq> ts_key spec" using that Some spec_registered [OF Some] spec_registered [OF spec] by metis
    then show ?thesis by (simp add: get_access_eq [OF Some] db' fetch_save_policy)
  qed (simp add: get_chat_tool_access_def)
  have again: "validated_grants db' (tv_grants saved) = Inr rows"
    using validate_each_rows [OF vg [unfolded validated_grants_def]] validate_views [of rows db "[]"]
    by (auto simp: validated_grants_def db' validate_each_frame saved saved_view_def)
  have "version_of db' spec = version_of db spec + 1" by (simp add: version_of_def db' fetch_save_policy split: option.split)
  moreover have "tv_grants (saved_view isoformat later spec access v rows actor') = tv_grants saved" for v
    unfolding saved saved_view_def tool_access.select_convs by (intro arg_cong [where f = concat] map_cong refl view_grant_stamp)
  moreover have "tv_access_type saved = access" "tv_acl_version saved = version_of db spec + 1" by (simp_all add: saved saved_view_def)
  ultimately have "set_chat_tool_access isoformat later db' key (tv_access_type saved) (tv_grants saved) actor'
      = Inr (db'\<lparr>rd_tool_policies := save_policy later (ts_key spec) access actor' (rd_tool_policies db'),
          rd_tool_access := replace_rows (ts_key spec) actor' later rows (rd_tool_access db')\<rparr>,
          saved_view isoformat later spec access (tv_acl_version saved + 1) rows actor')"
    and grants: "\<And>v. tv_grants (saved_view isoformat later spec access v rows actor') = tv_grants saved"
    and sel: "tv_access_type saved = access" "tv_acl_version saved = version_of db spec + 1"
    using valid_access_again [OF va, THEN conjunct2] again by (simp_all add: set_access_eq [OF spec])
  then obtain db'' again where r: "set_chat_tool_access isoformat later db' key (tv_access_type saved) (tv_grants saved) actor' = Inr (db'', again)"
    and ag: "again = saved_view isoformat later spec access (tv_acl_version saved + 1) rows actor'" by blast
  have "tv_access_type again = tv_access_type saved" "tv_grants again = tv_grants saved" "tv_acl_version again = tv_acl_version saved + 1"
    by (simp_all only: ag grants) (simp_all add: saved_view_def sel)
  with r have "\<exists>db'' again. set_chat_tool_access isoformat later db' key (tv_access_type saved) (tv_grants saved) actor' = Inr (db'', again)
      \<and> tv_access_type again = tv_access_type saved \<and> tv_grants again = tv_grants saved \<and> tv_acl_version again = tv_acl_version saved + 1"
    by (intro exI conjI)
  moreover have "\<exists>before. get_chat_tool_access isoformat db key = Inr before \<and> tv_acl_version saved = tv_acl_version before + 1"
    by (simp add: get_access_eq [OF spec] sel version_of_def)
  ultimately show ?thesis using get other spec valid_access_again [OF va] sel(1) by metis
qed

theorem tool_policy_round_trip_witness:
  "\<exists>db' saved again db''. set_chat_tool_access show_int 9 (sample_acl []) ''browser_agent'' ''Private''
       [\<lparr>gr_target_type = '' Department'', gr_target = Target_Str ''Legal  Affairs'', gr_effect = ''Allow''\<rparr>] None = Inr (db', saved)
     \<and> get_chat_tool_access show_int db' ''browser_agent'' = Inr saved
     \<and> set_chat_tool_access show_int 10 db' ''browser_agent'' (tv_access_type saved) (tv_grants saved) None = Inr (db'', again)
     \<and> tv_grants again = tv_grants saved"
proof -
  let ?g = "[\<lparr>gr_target_type = '' Department'', gr_target = Target_Str ''Legal  Affairs'', gr_effect = ''Allow''\<rparr>]"
  have "\<not> isl (set_chat_tool_access show_int 9 (sample_acl []) ''browser_agent'' ''Private'' ?g None)" by code_simp
  then obtain db' saved where s: "set_chat_tool_access show_int 9 (sample_acl []) ''browser_agent'' ''Private'' ?g None = Inr (db', saved)"
    by (metis isl_def surj_pair sum.exhaust)
  note rt = tool_policy_round_trip [where other = "''web_search''" and later = 10 and actor' = None, OF s]
  from rt have "get_chat_tool_access show_int db' ''browser_agent'' = Inr saved" by (elim conjE)
  moreover from rt obtain db'' again where
    "set_chat_tool_access show_int 10 db' ''browser_agent'' (tv_access_type saved) (tv_grants saved) None = Inr (db'', again)"
    "tv_grants again = tv_grants saved" by (elim conjE exE)
  ultimately show ?thesis using s by (intro exI conjI)
qed

end
