(* ===== verification/Ticket_Settings.thy ===== *)
theory Ticket_Settings
  imports Resource_Access
begin

text \<open>
  The settings of Support (\<open>services/support_tickets.py\<close>): what an administrator may save
  (\<open>validate_settings\<close>), what is read back from the stored row (\<open>_settings_from_stored\<close>), and the limits of the
  platform both are brought within (\<open>services/image_decode_policy.py\<close>).

  The stored row is the JSON value of its text, \<open>None\<close> when there is no row, an empty text or no JSON. Case
  folding is that of ASCII; the two typographic quotes of the default reply are the 8-bit codes 0x93 and 0x94.
  Whether an address can be put in a mail header is an argument (the email package decides), and so is the text
  of JSON values that are not text or integers.
\<close>

section \<open>Refusals and constants\<close>

datatype ticket_error = TicketError (te_code: string) (te_message: string) (te_status: int)

type_synonym 'a ticket_result = "ticket_error + 'a"

definition PRIORITIES :: "string list" where
  "PRIORITIES = [''low'', ''normal'', ''high'', ''urgent'']"

definition IMAGE_TYPE_CEILING :: "string list" where
  "IMAGE_TYPE_CEILING = [''png'', ''jpg'', ''webp'', ''gif'']"

definition CATEGORY_MAX :: int where
  "CATEGORY_MAX = 40"

definition AUTO_REPLY_MAX :: int where
  "AUTO_REPLY_MAX = 2000"

definition MAX_NOTIFY_EMAILS :: int where
  "MAX_NOTIFY_EMAILS = 20"

definition MAX_CATEGORIES :: int where
  "MAX_CATEGORIES = 20"

definition DEFAULT_AUTO_REPLY_TEXT :: string where
  "DEFAULT_AUTO_REPLY_TEXT =
     ''Hello {name}, we have your ticket {number} '' @ CHR 0x93 # ''{title}'' @ CHR 0x94 # CHR ''.'' # CHR 0x0A #
     ''We answer within one working day; Urgent tickets sooner.''"

definition DEFAULT_CATEGORIES :: "string list" where
  "DEFAULT_CATEGORIES = [''Bug'', ''Problem'', ''Question'', ''Feature request'']"

definition SETTING_BOUNDS :: "(string \<times> int \<times> int) list" where
  "SETTING_BOUNDS =
     [(''per_hour'', 1, 100), (''max_open'', 1, 200), (''reopen_days'', 1, 90), (''auto_close_days'', 1, 60),
      (''retention_days'', 0, 3650), (''max_image_mb'', 1, 10), (''max_images'', 1, 10), (''max_side_px'', 512, 8192)]"

definition bounds_of :: "string \<Rightarrow> int \<times> int" where
  "bounds_of key = (case map_of SETTING_BOUNDS key of Some b \<Rightarrow> b | None \<Rightarrow> (0, 0))"

definition MAX_IMAGES_CEILING :: int where
  "MAX_IMAGES_CEILING = snd (bounds_of ''max_images'')"

record ticket_settings =
  ts_enabled :: bool
  ts_per_hour :: int
  ts_max_open :: int
  ts_reopen_days :: int
  ts_auto_close_days :: int
  ts_retention_days :: int
  ts_notify_emails :: "string list"
  ts_notify_on_user_reply :: bool
  ts_notify_min_priority :: string
  ts_email_assignee :: bool
  ts_email_user :: bool
  ts_auto_reply_enabled :: bool
  ts_auto_reply_text :: string
  ts_categories :: "string list"
  ts_image_types :: "string list"
  ts_max_image_mb :: int
  ts_max_images :: int
  ts_max_side_px :: int

definition default_settings :: ticket_settings where
  "default_settings =
     \<lparr>ts_enabled = True, ts_per_hour = 5, ts_max_open = 20, ts_reopen_days = 14, ts_auto_close_days = 7,
      ts_retention_days = 365, ts_notify_emails = [], ts_notify_on_user_reply = True, ts_notify_min_priority = ''normal'',
      ts_email_assignee = True, ts_email_user = False, ts_auto_reply_enabled = True,
      ts_auto_reply_text = DEFAULT_AUTO_REPLY_TEXT, ts_categories = DEFAULT_CATEGORIES,
      ts_image_types = IMAGE_TYPE_CEILING, ts_max_image_mb = 5, ts_max_images = 5, ts_max_side_px = 4096\<rparr>"

definition as_dict :: "ticket_settings \<Rightarrow> payload" where
  "as_dict s =
     [(''enabled'', JBool (ts_enabled s)), (''per_hour'', JInt (ts_per_hour s)), (''max_open'', JInt (ts_max_open s)),
      (''reopen_days'', JInt (ts_reopen_days s)), (''auto_close_days'', JInt (ts_auto_close_days s)),
      (''retention_days'', JInt (ts_retention_days s)), (''notify_emails'', JList (map JString (ts_notify_emails s))),
      (''notify_on_user_reply'', JBool (ts_notify_on_user_reply s)),
      (''notify_min_priority'', JString (ts_notify_min_priority s)), (''email_assignee'', JBool (ts_email_assignee s)),
      (''email_user'', JBool (ts_email_user s)), (''auto_reply_enabled'', JBool (ts_auto_reply_enabled s)),
      (''auto_reply_text'', JString (ts_auto_reply_text s)), (''categories'', JList (map JString (ts_categories s))),
      (''image_types'', JList (map JString (ts_image_types s))), (''max_image_mb'', JInt (ts_max_image_mb s)),
      (''max_images'', JInt (ts_max_images s)), (''max_side_px'', JInt (ts_max_side_px s))]"

section \<open>The limits of the platform\<close>

record ticket_env =
  tn_sendable :: "string \<Rightarrow> bool"
  tn_repr :: "json \<Rightarrow> string"
  tn_max_media_input_bytes :: int
  tn_max_image_side_px :: int

definition clamp_limit :: "int \<Rightarrow> int \<Rightarrow> int \<Rightarrow> int" where
  "clamp_limit v minimum maximum = max minimum (min maximum v)"

text \<open>The first two of the three limits: the settings take no bound on the number of pixels.\<close>

definition platform_image_limits :: "'e ticket_env_scheme \<Rightarrow> int \<times> int" where
  "platform_image_limits env =
     (clamp_limit (tn_max_media_input_bytes env) (1024 * 1024) (50 * 1024 * 1024),
      clamp_limit (tn_max_image_side_px env) 2048 8192)"

definition within_platform :: "'e ticket_env_scheme \<Rightarrow> ticket_settings \<Rightarrow> ticket_settings" where
  "within_platform env s =
     (let (max_bytes, max_side) = platform_image_limits env
      in s\<lparr>ts_max_side_px := max (fst (bounds_of ''max_side_px'')) (min (ts_max_side_px s) max_side),
           ts_max_image_mb := max 1 (min (ts_max_image_mb s) (max_bytes div (1024 * 1024)))\<rparr>)"

section \<open>Cleaning lists of values\<close>

definition valid_email :: "'e ticket_env_scheme \<Rightarrow> string \<Rightarrow> bool" where
  "valid_email env v \<longleftrightarrow> CHR ''@'' \<in> set v \<and> length v \<le> 254 \<and> \<not> list_ex is_space v \<and> tn_sendable env v"

fun clean_names :: "string list \<Rightarrow> string list \<Rightarrow> string list" where
  "clean_names seen [] = []"
| "clean_names seen (v # values) =
     (let name = split_join v
      in if name \<noteq> [] \<and> lower name \<notin> set seen then name # clean_names (lower name # seen) values
         else clean_names seen values)"

definition clean_categories :: "string list \<Rightarrow> string list" where
  "clean_categories values = clean_names [] values"

definition image_type_name :: "string \<Rightarrow> string" where
  "image_type_name v = (let n = lower (strip v) in if n = ''jpeg'' then ''jpg'' else n)"

definition clean_image_types :: "string list \<Rightarrow> string list" where
  "clean_image_types values = filter (\<lambda>kind. kind \<in> set (map image_type_name values)) IMAGE_TYPE_CEILING"

section \<open>Reading the stored settings\<close>

definition dict_get_or :: "payload \<Rightarrow> string \<Rightarrow> json \<Rightarrow> json" where
  "dict_get_or data key d = (case map_of data key of None \<Rightarrow> d | Some v \<Rightarrow> v)"

definition lenient_bool :: "payload \<Rightarrow> string \<Rightarrow> bool \<Rightarrow> bool" where
  "lenient_bool data key d = (case dict_get_or data key (JBool d) of JBool b \<Rightarrow> b | _ \<Rightarrow> d)"

definition lenient_int :: "payload \<Rightarrow> string \<Rightarrow> int \<Rightarrow> int" where
  "lenient_int data key d =
     (let (low, high) = bounds_of key; raw = dict_get_or data key (JInt d)
      in (case raw of
            JBool _ \<Rightarrow> d
          | _ \<Rightarrow> (case py_int raw of Inl _ \<Rightarrow> d | Inr v \<Rightarrow> min (max v low) high)))"

definition json_list :: "json \<Rightarrow> json list" where
  "json_list v = (case v of JList xs \<Rightarrow> xs | _ \<Rightarrow> [])"

definition stored_emails :: "'e ticket_env_scheme \<Rightarrow> json list \<Rightarrow> string list" where
  "stored_emails env emails =
     take (nat MAX_NOTIFY_EMAILS) (filter (valid_email env) (map (\<lambda>e. strip (json_str (tn_repr env) e)) emails))"

definition stored_categories :: "'e ticket_env_scheme \<Rightarrow> json list \<Rightarrow> string list" where
  "stored_categories env raw =
     take (nat MAX_CATEGORIES)
       (filter (\<lambda>c. int (length c) \<le> CATEGORY_MAX) (clean_categories (map (json_str (tn_repr env)) raw)))"

definition list_or :: "'a list \<Rightarrow> 'a list \<Rightarrow> 'a list" where
  "list_or xs d = (if xs \<noteq> [] then xs else d)"

definition settings_from_stored :: "'e ticket_env_scheme \<Rightarrow> payload \<Rightarrow> ticket_settings" where
  "settings_from_stored env data =
     within_platform env
       \<lparr>ts_enabled = lenient_bool data ''enabled'' True,
        ts_per_hour = lenient_int data ''per_hour'' 5,
        ts_max_open = lenient_int data ''max_open'' 20,
        ts_reopen_days = lenient_int data ''reopen_days'' 14,
        ts_auto_close_days = lenient_int data ''auto_close_days'' 7,
        ts_retention_days = lenient_int data ''retention_days'' 365,
        ts_notify_emails = stored_emails env (json_list (dict_get data ''notify_emails'')),
        ts_notify_on_user_reply = lenient_bool data ''notify_on_user_reply'' True,
        ts_notify_min_priority =
          (case dict_get data ''notify_min_priority'' of
             JString p \<Rightarrow> if p \<in> set PRIORITIES then p else ''normal''
           | _ \<Rightarrow> ''normal''),
        ts_email_assignee = lenient_bool data ''email_assignee'' True,
        ts_email_user = lenient_bool data ''email_user'' False,
        ts_auto_reply_enabled = lenient_bool data ''auto_reply_enabled'' True,
        ts_auto_reply_text =
          (case dict_get data ''auto_reply_text'' of
             JString t \<Rightarrow> clip AUTO_REPLY_MAX t
           | _ \<Rightarrow> DEFAULT_AUTO_REPLY_TEXT),
        ts_categories = list_or (stored_categories env (json_list (dict_get data ''categories''))) DEFAULT_CATEGORIES,
        ts_image_types =
          list_or (clean_image_types (map (json_str (tn_repr env)) (json_list (dict_get data ''image_types''))))
            IMAGE_TYPE_CEILING,
        ts_max_image_mb = lenient_int data ''max_image_mb'' 5,
        ts_max_images = lenient_int data ''max_images'' 5,
        ts_max_side_px = lenient_int data ''max_side_px'' 4096\<rparr>"

definition load_settings :: "'e ticket_env_scheme \<Rightarrow> json option \<Rightarrow> ticket_settings" where
  "load_settings env row = settings_from_stored env (case row of Some (JObject d) \<Rightarrow> d | _ \<Rightarrow> [])"

section \<open>Checking what an administrator sends\<close>

definition invalid :: "string \<Rightarrow> ticket_error" where
  "invalid message = TicketError ''invalid_settings'' message 422"

definition strict_bool :: "payload \<Rightarrow> string \<times> bool \<Rightarrow> ticket_error option" where
  "strict_bool data kd =
     (case dict_get_or data (fst kd) (JBool (snd kd)) of
        JBool _ \<Rightarrow> None
      | _ \<Rightarrow> Some (invalid (fst kd @ '' must be true or false.'')))"

definition strict_int :: "payload \<Rightarrow> string \<times> int \<Rightarrow> ticket_error option" where
  "strict_int data kd =
     (let (low, high) = bounds_of (fst kd);
          refusal = Some (invalid (fst kd @ '' must be a whole number from '' @ show_int low @ '' to '' @ show_int high @ ''.''))
      in (case dict_get_or data (fst kd) (JInt (snd kd)) of
            JInt v \<Rightarrow> if low \<le> v \<and> v \<le> high then None else refusal
          | _ \<Rightarrow> refusal))"

fun first_refusal :: "('a \<Rightarrow> ticket_error option) \<Rightarrow> 'a list \<Rightarrow> ticket_error option" where
  "first_refusal f [] = None"
| "first_refusal f (x # xs) = (case f x of Some e \<Rightarrow> Some e | None \<Rightarrow> first_refusal f xs)"

definition BOOL_SETTINGS :: "(string \<times> bool) list" where
  "BOOL_SETTINGS =
     [(''enabled'', True), (''notify_on_user_reply'', True), (''email_assignee'', True), (''email_user'', False),
      (''auto_reply_enabled'', True)]"

definition INT_SETTINGS :: "(string \<times> int) list" where
  "INT_SETTINGS =
     [(''per_hour'', 5), (''max_open'', 20), (''reopen_days'', 14), (''auto_close_days'', 7), (''retention_days'', 365),
      (''max_image_mb'', 5), (''max_images'', 5), (''max_side_px'', 4096)]"

fun strict_each_email :: "'e ticket_env_scheme \<Rightarrow> string list \<Rightarrow> json list \<Rightarrow> (string list) ticket_result" where
  "strict_each_email env emails [] = Inr emails"
| "strict_each_email env emails (v # raw) =
     (case v of
        JString value \<Rightarrow>
          (let email = strip value
           in if email = [] then strict_each_email env emails raw
              else if \<not> valid_email env email then Inl (invalid (''Not an email address: '' @ value))
              else if lower email \<in> set (map lower emails) then strict_each_email env emails raw
              else strict_each_email env (emails @ [email]) raw)
      | _ \<Rightarrow> Inl (invalid ''notify_emails must be a list of email addresses.''))"

definition strict_emails :: "'e ticket_env_scheme \<Rightarrow> json \<Rightarrow> (string list) ticket_result" where
  "strict_emails env raw =
     (case raw of
        JList xs \<Rightarrow>
          (case strict_each_email env [] xs of
             Inl e \<Rightarrow> Inl e
           | Inr emails \<Rightarrow>
               if MAX_NOTIFY_EMAILS < int (length emails)
               then Inl (invalid (''Up to '' @ show_int MAX_NOTIFY_EMAILS @ '' addresses can be told about new tickets.''))
               else Inr emails)
      | _ \<Rightarrow> Inl (invalid ''notify_emails must be a list of email addresses.''))"

definition is_JString :: "json \<Rightarrow> bool" where
  "is_JString v = (case v of JString _ \<Rightarrow> True | _ \<Rightarrow> False)"

definition the_JString :: "json \<Rightarrow> string" where
  "the_JString v = (case v of JString s \<Rightarrow> s | _ \<Rightarrow> [])"

definition strict_categories :: "json \<Rightarrow> (string list) ticket_result" where
  "strict_categories raw =
     (case raw of
        JList xs \<Rightarrow>
          if \<not> list_all is_JString xs then Inl (invalid ''categories must be a list of names.'')
          else
            let names = map split_join (filter (\<lambda>v. strip v \<noteq> []) (map the_JString xs));
                categories = clean_categories names
            in if length categories \<noteq> length names then Inl (invalid ''Each category can appear only once.'')
               else if \<not> (1 \<le> length categories \<and> int (length categories) \<le> MAX_CATEGORIES)
               then Inl (invalid (''Keep from 1 to '' @ show_int MAX_CATEGORIES @ '' categories.''))
               else (case find (\<lambda>c. CATEGORY_MAX < int (length c)) categories of
                       Some long \<Rightarrow>
                         Inl (invalid (''A category name can be up to '' @ show_int CATEGORY_MAX @ '' characters: '' @ long))
                     | None \<Rightarrow> Inr categories)
      | _ \<Rightarrow> Inl (invalid ''categories must be a list of names.''))"

definition strict_image_types :: "json \<Rightarrow> (string list) ticket_result" where
  "strict_image_types raw =
     (case raw of
        JList xs \<Rightarrow>
          if \<not> list_all is_JString xs then Inl (invalid ''image_types must be a list.'')
          else
            let vs = map the_JString xs
            in if list_ex (\<lambda>v. lower (strip v) \<notin> set (IMAGE_TYPE_CEILING @ [''jpeg''])) vs
               then Inl (invalid ''Only these image types can be allowed: png, jpg, webp, gif.'')
               else
                 let types = clean_image_types vs
                 in if types = [] then Inl (invalid ''Allow at least one image type.'') else Inr types
      | _ \<Rightarrow> Inl (invalid ''image_types must be a list.''))"

definition get_bool :: "payload \<Rightarrow> string \<Rightarrow> bool" where
  "get_bool data key = (dict_get_or data key (JBool (the (map_of BOOL_SETTINGS key))) = JBool True)"

definition get_int :: "payload \<Rightarrow> string \<Rightarrow> int" where
  "get_int data key =
     (let d = the (map_of INT_SETTINGS key) in case dict_get_or data key (JInt d) of JInt v \<Rightarrow> v | _ \<Rightarrow> d)"

definition strict_priority :: "payload \<Rightarrow> string ticket_result" where
  "strict_priority data =
     (case dict_get_or data ''notify_min_priority'' (JString ''normal'') of
        JString p \<Rightarrow> if p \<in> set PRIORITIES then Inr p
                     else Inl (invalid ''notify_min_priority must be one of low, normal, high, urgent.'')
      | _ \<Rightarrow> Inl (invalid ''notify_min_priority must be one of low, normal, high, urgent.''))"

definition strict_reply_text :: "payload \<Rightarrow> string ticket_result" where
  "strict_reply_text data =
     (let too_long = Inl (invalid (''The automatic reply can be up to '' @ show_int AUTO_REPLY_MAX @ '' characters.''))
      in (case dict_get_or data ''auto_reply_text'' (JString DEFAULT_AUTO_REPLY_TEXT) of
            JString t \<Rightarrow>
              if AUTO_REPLY_MAX < int (length t) then too_long
              else if get_bool data ''auto_reply_enabled'' \<and> strip t = []
              then Inl (invalid ''Write the automatic reply, or turn it off.'')
              else Inr t
          | _ \<Rightarrow> too_long))"

text \<open>The values once every check has passed.\<close>

definition checked_settings ::
  "payload \<Rightarrow> string list \<Rightarrow> string \<Rightarrow> string \<Rightarrow> string list \<Rightarrow> string list \<Rightarrow> ticket_settings" where
  "checked_settings data emails priority reply categories types =
     \<lparr>ts_enabled = get_bool data ''enabled'', ts_per_hour = get_int data ''per_hour'',
      ts_max_open = get_int data ''max_open'', ts_reopen_days = get_int data ''reopen_days'',
      ts_auto_close_days = get_int data ''auto_close_days'', ts_retention_days = get_int data ''retention_days'',
      ts_notify_emails = emails, ts_notify_on_user_reply = get_bool data ''notify_on_user_reply'',
      ts_notify_min_priority = priority, ts_email_assignee = get_bool data ''email_assignee'',
      ts_email_user = get_bool data ''email_user'', ts_auto_reply_enabled = get_bool data ''auto_reply_enabled'',
      ts_auto_reply_text = reply, ts_categories = categories, ts_image_types = types,
      ts_max_image_mb = get_int data ''max_image_mb'', ts_max_images = get_int data ''max_images'',
      ts_max_side_px = get_int data ''max_side_px''\<rparr>"

definition retention_refusal :: "payload \<Rightarrow> ticket_error option" where
  "retention_refusal data =
     (let retention = get_int data ''retention_days''; reopen = get_int data ''reopen_days''
      in if retention \<noteq> 0 \<and> retention < reopen
         then Some (invalid (''Keep closed tickets at least '' @ show_int reopen @
                ('' days (the reopen window), or set retention to 0 to keep them forever.'')))
         else None)"

definition validate_settings :: "'e ticket_env_scheme \<Rightarrow> json \<Rightarrow> ticket_settings ticket_result" where
  "validate_settings env body =
     (case body of
        JObject data \<Rightarrow>
          (case first_refusal (strict_bool data) BOOL_SETTINGS of Some e \<Rightarrow> Inl e | None \<Rightarrow>
           (case first_refusal (strict_int data) INT_SETTINGS of Some e \<Rightarrow> Inl e | None \<Rightarrow>
            (case retention_refusal data of Some e \<Rightarrow> Inl e | None \<Rightarrow>
             (case strict_emails env (dict_get_or data ''notify_emails'' (JList [])) of Inl e \<Rightarrow> Inl e | Inr emails \<Rightarrow>
              (case strict_priority data of Inl e \<Rightarrow> Inl e | Inr priority \<Rightarrow>
               (case strict_reply_text data of Inl e \<Rightarrow> Inl e | Inr reply \<Rightarrow>
                (case strict_categories (dict_get_or data ''categories'' (JList (map JString DEFAULT_CATEGORIES))) of
                   Inl e \<Rightarrow> Inl e
                 | Inr categories \<Rightarrow>
                (case strict_image_types (dict_get_or data ''image_types'' (JList (map JString IMAGE_TYPE_CEILING))) of
                   Inl e \<Rightarrow> Inl e
                 | Inr types \<Rightarrow>
                     Inr (within_platform env (checked_settings data emails priority reply categories types))))))))))
      | _ \<Rightarrow> Inl (invalid ''Send the settings as an object.''))"

definition save_settings :: "ticket_settings \<Rightarrow> json option" where
  "save_settings s = Some (JObject (as_dict s))"

section \<open>The settings that are within the rules\<close>

definition in_bounds :: "string \<Rightarrow> int \<Rightarrow> bool" where
  "in_bounds key v \<longleftrightarrow> fst (bounds_of key) \<le> v \<and> v \<le> snd (bounds_of key)"

definition lists_ok :: "'e ticket_env_scheme \<Rightarrow> ticket_settings \<Rightarrow> bool" where
  "lists_ok env s \<longleftrightarrow>
     int (length (ts_notify_emails s)) \<le> MAX_NOTIFY_EMAILS \<and> list_all (valid_email env) (ts_notify_emails s) \<and>
     ts_categories s \<noteq> [] \<and> int (length (ts_categories s)) \<le> MAX_CATEGORIES \<and>
     list_all (\<lambda>c. int (length c) \<le> CATEGORY_MAX) (ts_categories s) \<and> clean_categories (ts_categories s) = ts_categories s \<and>
     ts_image_types s \<noteq> [] \<and> clean_image_types (ts_image_types s) = ts_image_types s"

definition bounds_ok :: "ticket_settings \<Rightarrow> bool" where
  "bounds_ok s \<longleftrightarrow>
     in_bounds ''per_hour'' (ts_per_hour s) \<and> in_bounds ''max_open'' (ts_max_open s) \<and> in_bounds ''reopen_days'' (ts_reopen_days s) \<and>
     in_bounds ''auto_close_days'' (ts_auto_close_days s) \<and> in_bounds ''retention_days'' (ts_retention_days s) \<and>
     in_bounds ''max_image_mb'' (ts_max_image_mb s) \<and> in_bounds ''max_images'' (ts_max_images s) \<and>
     in_bounds ''max_side_px'' (ts_max_side_px s)"

definition settings_ok :: "'e ticket_env_scheme \<Rightarrow> ticket_settings \<Rightarrow> bool" where
  "settings_ok env s \<longleftrightarrow>
     bounds_ok s \<and> lists_ok env s \<and> ts_notify_min_priority s \<in> set PRIORITIES \<and>
     int (length (ts_auto_reply_text s)) \<le> AUTO_REPLY_MAX \<and>
     ts_max_side_px s \<le> snd (platform_image_limits env) \<and>
     ts_max_image_mb s \<le> fst (platform_image_limits env) div (1024 * 1024)"

lemma platform_side: "2048 \<le> snd (platform_image_limits env) \<and> snd (platform_image_limits env) \<le> 8192"
  by (simp add: platform_image_limits_def clamp_limit_def)

lemma platform_mb: "1 \<le> fst (platform_image_limits env) div (1024 * 1024)"
proof -
  have "1024 * 1024 \<le> fst (platform_image_limits env)" by (simp add: platform_image_limits_def clamp_limit_def)
  from zdiv_mono1 [OF this, of "1024 * 1024"] show ?thesis by simp
qed

lemma bounds_simps [simp]:
  "bounds_of ''per_hour'' = (1, 100)" "bounds_of ''max_open'' = (1, 200)" "bounds_of ''reopen_days'' = (1, 90)"
  "bounds_of ''auto_close_days'' = (1, 60)" "bounds_of ''retention_days'' = (0, 3650)" "bounds_of ''max_image_mb'' = (1, 10)"
  "bounds_of ''max_images'' = (1, 10)" "bounds_of ''max_side_px'' = (512, 8192)"
  by (simp_all add: bounds_of_def SETTING_BOUNDS_def)

lemma within_platform_fields [simp]:
  "ts_notify_emails (within_platform env s) = ts_notify_emails s" "ts_categories (within_platform env s) = ts_categories s"
  "ts_image_types (within_platform env s) = ts_image_types s" "ts_per_hour (within_platform env s) = ts_per_hour s"
  "ts_max_open (within_platform env s) = ts_max_open s" "ts_reopen_days (within_platform env s) = ts_reopen_days s"
  "ts_auto_close_days (within_platform env s) = ts_auto_close_days s"
  "ts_retention_days (within_platform env s) = ts_retention_days s" "ts_max_images (within_platform env s) = ts_max_images s"
  "ts_notify_min_priority (within_platform env s) = ts_notify_min_priority s"
  "ts_auto_reply_text (within_platform env s) = ts_auto_reply_text s"
  "ts_max_side_px (within_platform env s) = max 512 (min (ts_max_side_px s) (snd (platform_image_limits env)))"
  "ts_max_image_mb (within_platform env s) = max 1 (min (ts_max_image_mb s) (fst (platform_image_limits env) div (1024 * 1024)))"
  by (simp_all add: within_platform_def split_def Let_def)

lemma within_platform_fixed: "settings_ok env s \<Longrightarrow> within_platform env s = s"
  by (cases s) (simp add: within_platform_def settings_ok_def bounds_ok_def in_bounds_def split_def Let_def)

lemma within_platform_ok:
  assumes "bounds_ok s" and "lists_ok env s" and "ts_notify_min_priority s \<in> set PRIORITIES"
    and "int (length (ts_auto_reply_text s)) \<le> AUTO_REPLY_MAX"
  shows "settings_ok env (within_platform env s)"
  using assms platform_side [of env] platform_mb [of env]
  by (auto simp: settings_ok_def bounds_ok_def lists_ok_def in_bounds_def)

text \<open>A list of names comes out clean, and a clean list comes out as it is.\<close>

lemma clean_names_clean:
  "list_all (\<lambda>v. split_join v = v \<and> v \<noteq> [] \<and> lower v \<notin> set seen) (clean_names seen vs) \<and>
     distinct (map lower (clean_names seen vs))"
proof (induction seen vs rule: clean_names.induct)
  case (2 seen v vs)
  show ?case
  proof (cases "split_join v \<noteq> [] \<and> lower (split_join v) \<notin> set seen")
    case True
    let ?rest = "clean_names (lower (split_join v) # seen) vs"
    have rest: "list_all (\<lambda>v'. split_join v' = v' \<and> v' \<noteq> [] \<and> lower v' \<notin> set (lower (split_join v) # seen)) ?rest"
      "distinct (map lower ?rest)" using 2(1) [OF refl True] by blast+
    have "lower (split_join v) \<notin> set (map lower ?rest)" using rest(1) by (fastforce simp: list_all_iff)
    moreover have "clean_names seen (v # vs) = split_join v # ?rest" using True by (simp add: Let_def)
    ultimately show ?thesis using rest True by (simp add: split_join_idem list_all_iff)
  next
    case False
    have "clean_names seen (v # vs) = clean_names seen vs" unfolding clean_names.simps Let_def using False by (rule if_not_P)
    with 2(2) [OF refl False] show ?thesis by simp
  qed
qed simp

lemma clean_names_fixed:
  "list_all (\<lambda>v. split_join v = v \<and> v \<noteq> [] \<and> lower v \<notin> set seen) vs \<Longrightarrow> distinct (map lower vs) \<Longrightarrow> clean_names seen vs = vs"
proof (induction vs arbitrary: seen)
  case (Cons v vs)
  have "lower v \<notin> lower ` set vs" using Cons.prems(2) by simp
  then have "lower x \<noteq> lower v" if "x \<in> set vs" for x using that by (metis imageI)
  with Cons.prems have "clean_names (lower v # seen) vs = vs" by (intro Cons.IH) (simp_all add: list_all_iff)
  with Cons.prems show ?case by (simp add: Let_def)
qed simp

lemma clean_categories_take_filter:
  "clean_categories (take n (filter p (clean_categories vs))) = take n (filter p (clean_categories vs))"
  unfolding clean_categories_def
proof (rule clean_names_fixed)
  let ?out = "clean_names [] vs"
  note clean = clean_names_clean [of "[]" vs]
  have "distinct (map lower (filter p ?out))" using clean by (intro distinct_map_filter) (rule conjunct2)
  then show "distinct (map lower (take n (filter p ?out)))" unfolding take_map [symmetric] by (rule distinct_take)
  have "set (take n (filter p ?out)) \<subseteq> set ?out" by (rule subset_trans [OF set_take_subset]) (rule filter_is_subset)
  with conjunct1 [OF clean] show "list_all (\<lambda>v. split_join v = v \<and> v \<noteq> [] \<and> lower v \<notin> set []) (take n (filter p ?out))"
    unfolding list_all_iff by blast
qed

lemma clean_categories_idem: "clean_categories (clean_categories vs) = clean_categories vs"
  using clean_names_clean [of "[]" vs] unfolding clean_categories_def by (intro clean_names_fixed) (simp_all add: list_all_iff)

lemma image_type_fixed: "k \<in> set IMAGE_TYPE_CEILING \<Longrightarrow> image_type_name k = k"
proof -
  have "list_all (\<lambda>k. image_type_name k = k) IMAGE_TYPE_CEILING" by code_simp
  then show "k \<in> set IMAGE_TYPE_CEILING \<Longrightarrow> image_type_name k = k" by (simp only: list_all_iff Ball_def)
qed

lemma clean_image_types_idem: "clean_image_types (clean_image_types vs) = clean_image_types vs"
proof -
  have "image_type_name ` {k \<in> set IMAGE_TYPE_CEILING. P k} = {k \<in> set IMAGE_TYPE_CEILING. P k}" for P
    using image_type_fixed by (auto simp: image_iff)
  then show ?thesis unfolding clean_image_types_def by (intro filter_cong refl) auto
qed

lemma default_lists:
  "clean_categories DEFAULT_CATEGORIES = DEFAULT_CATEGORIES" "DEFAULT_CATEGORIES \<noteq> []"
  "int (length DEFAULT_CATEGORIES) \<le> MAX_CATEGORIES" "list_all (\<lambda>c. int (length c) \<le> CATEGORY_MAX) DEFAULT_CATEGORIES"
  "clean_image_types IMAGE_TYPE_CEILING = IMAGE_TYPE_CEILING" "IMAGE_TYPE_CEILING \<noteq> []"
  "int (length DEFAULT_AUTO_REPLY_TEXT) \<le> AUTO_REPLY_MAX"
  by code_simp+

lemma valid_email_strip: "valid_email env e \<Longrightarrow> strip e = e"
  by (rule strip_no_space) (simp add: valid_email_def list_ex_iff)

section \<open>What is read is within the rules\<close>

lemma lenient_int_within: "fst (bounds_of key) \<le> d \<Longrightarrow> d \<le> snd (bounds_of key) \<Longrightarrow> in_bounds key (lenient_int data key d)"
  by (auto simp: lenient_int_def in_bounds_def split_def Let_def split: json.split sum.split)

lemma stored_lists_ok:
  "list_all (valid_email env) (stored_emails env xs)" "int (length (stored_emails env xs)) \<le> MAX_NOTIFY_EMAILS"
  "list_all (\<lambda>c. int (length c) \<le> CATEGORY_MAX) (stored_categories env ys)"
  "int (length (stored_categories env ys)) \<le> MAX_CATEGORIES"
  "clean_categories (stored_categories env ys) = stored_categories env ys"
  by (auto simp: stored_emails_def stored_categories_def MAX_NOTIFY_EMAILS_def MAX_CATEGORIES_def list_all_iff
      clean_categories_take_filter dest: in_set_takeD)

lemma list_or_cases: "P d \<Longrightarrow> (xs \<noteq> [] \<Longrightarrow> P xs) \<Longrightarrow> P (list_or xs d)"
  by (simp add: list_or_def)

lemma list_or_not_Nil: "d \<noteq> [] \<Longrightarrow> list_or xs d \<noteq> []"
  by (simp add: list_or_def)

lemma settings_from_stored_ok: "settings_ok env (settings_from_stored env data)"
  unfolding settings_from_stored_def
proof (rule within_platform_ok, goal_cases)
  case 1
  show ?case by (simp add: bounds_ok_def lenient_int_within)
next
  case 2
  show ?case
    unfolding lists_ok_def ticket_settings.simps
    by (intro conjI stored_lists_ok list_or_not_Nil default_lists)
      (rule list_or_cases; simp add: default_lists stored_lists_ok clean_image_types_idem)+
next
  case 3
  show ?case by (simp add: PRIORITIES_def split: json.split)
next
  case 4
  show ?case
    using default_lists(7) by (auto simp: clip_take AUTO_REPLY_MAX_def split: json.split)
qed

section \<open>What is checked is read back\<close>

lemma map_json_str [simp]: "map (json_str r) (map JString xs) = xs" "map (\<lambda>x. json_str r (JString x)) xs = xs"
  by (simp_all add: json_str_def comp_def)

lemma stored_emails_fixed:
  "list_all (valid_email env) xs \<Longrightarrow> int (length xs) \<le> MAX_NOTIFY_EMAILS \<Longrightarrow> stored_emails env (map JString xs) = xs"
proof -
  assume ok: "list_all (valid_email env) xs" and len: "int (length xs) \<le> MAX_NOTIFY_EMAILS"
  have "map (\<lambda>e. strip (json_str (tn_repr env) (JString e))) xs = xs"
    using ok valid_email_strip by (induction xs) (auto simp: json_str_def simp del: strip_no_space)
  moreover have "filter (valid_email env) xs = xs" using ok by (simp add: filter_id_conv list_all_iff)
  ultimately show ?thesis using len by (simp add: stored_emails_def comp_def MAX_NOTIFY_EMAILS_def)
qed

lemma stored_categories_fixed:
  "clean_categories xs = xs \<Longrightarrow> list_all (\<lambda>c. int (length c) \<le> CATEGORY_MAX) xs \<Longrightarrow> int (length xs) \<le> MAX_CATEGORIES \<Longrightarrow>
     stored_categories env (map JString xs) = xs"
  unfolding stored_categories_def map_json_str by (simp add: MAX_CATEGORIES_def list_all_iff filter_id_conv)

lemma lenient_fixed:
  "dict_get_or data key (JBool d) = JBool b \<Longrightarrow> lenient_bool data key d = b"
  "dict_get_or data key (JInt e) = JInt i \<Longrightarrow> in_bounds key i \<Longrightarrow> lenient_int data key e = i"
  by (auto simp: lenient_bool_def lenient_int_def in_bounds_def py_int_def split_def Let_def)

lemma as_dict_get:
  "dict_get_or (as_dict s) ''enabled'' d = JBool (ts_enabled s)" "dict_get_or (as_dict s) ''per_hour'' d = JInt (ts_per_hour s)"
  "dict_get_or (as_dict s) ''max_open'' d = JInt (ts_max_open s)" "dict_get_or (as_dict s) ''reopen_days'' d = JInt (ts_reopen_days s)"
  "dict_get_or (as_dict s) ''auto_close_days'' d = JInt (ts_auto_close_days s)"
  "dict_get_or (as_dict s) ''retention_days'' d = JInt (ts_retention_days s)"
  "dict_get_or (as_dict s) ''notify_emails'' d = JList (map JString (ts_notify_emails s))"
  "dict_get_or (as_dict s) ''notify_on_user_reply'' d = JBool (ts_notify_on_user_reply s)"
  "dict_get_or (as_dict s) ''notify_min_priority'' d = JString (ts_notify_min_priority s)"
  "dict_get_or (as_dict s) ''email_assignee'' d = JBool (ts_email_assignee s)"
  "dict_get_or (as_dict s) ''email_user'' d = JBool (ts_email_user s)"
  "dict_get_or (as_dict s) ''auto_reply_enabled'' d = JBool (ts_auto_reply_enabled s)"
  "dict_get_or (as_dict s) ''auto_reply_text'' d = JString (ts_auto_reply_text s)"
  "dict_get_or (as_dict s) ''categories'' d = JList (map JString (ts_categories s))"
  "dict_get_or (as_dict s) ''image_types'' d = JList (map JString (ts_image_types s))"
  "dict_get_or (as_dict s) ''max_image_mb'' d = JInt (ts_max_image_mb s)"
  "dict_get_or (as_dict s) ''max_images'' d = JInt (ts_max_images s)"
  "dict_get_or (as_dict s) ''max_side_px'' d = JInt (ts_max_side_px s)"
  by (simp_all add: dict_get_or_def as_dict_def)

lemma dict_get_via_or: "dict_get data key = dict_get_or data key JNull"
  by (simp add: dict_get_def dict_get_or_def)

lemma within_settings:
  "within_platform env s = s \<Longrightarrow> within_platform env
     \<lparr>ts_enabled = ts_enabled s, ts_per_hour = ts_per_hour s, ts_max_open = ts_max_open s, ts_reopen_days = ts_reopen_days s,
      ts_auto_close_days = ts_auto_close_days s, ts_retention_days = ts_retention_days s,
      ts_notify_emails = ts_notify_emails s, ts_notify_on_user_reply = ts_notify_on_user_reply s,
      ts_notify_min_priority = ts_notify_min_priority s, ts_email_assignee = ts_email_assignee s,
      ts_email_user = ts_email_user s, ts_auto_reply_enabled = ts_auto_reply_enabled s,
      ts_auto_reply_text = ts_auto_reply_text s, ts_categories = ts_categories s, ts_image_types = ts_image_types s,
      ts_max_image_mb = ts_max_image_mb s, ts_max_images = ts_max_images s, ts_max_side_px = ts_max_side_px s\<rparr> = s"
  by (cases s) simp

lemma settings_stored_fixed:
  assumes "settings_ok env s"
  shows "settings_from_stored env (as_dict s) = s"
proof -
  note wp = within_platform_fixed [OF assms]
  from assms have "bounds_ok s" and l: "lists_ok env s" and p: "ts_notify_min_priority s \<in> set PRIORITIES"
    and t: "int (length (ts_auto_reply_text s)) \<le> AUTO_REPLY_MAX" by (simp_all add: settings_ok_def)
  note b = this(1) [unfolded bounds_ok_def]
  have e: "stored_emails env (map JString (ts_notify_emails s)) = ts_notify_emails s"
    using l by (intro stored_emails_fixed) (simp_all add: lists_ok_def)
  have c: "list_or (stored_categories env (map JString (ts_categories s))) DEFAULT_CATEGORIES = ts_categories s"
    using l by (simp add: stored_categories_fixed lists_ok_def list_or_def)
  have i: "list_or (clean_image_types (map (json_str (tn_repr env)) (map JString (ts_image_types s)))) IMAGE_TYPE_CEILING
      = ts_image_types s"
    using l unfolding map_json_str by (simp add: lists_ok_def list_or_def)
  have r: "clip AUTO_REPLY_MAX (ts_auto_reply_text s) = ts_auto_reply_text s"
    using t by (simp add: clip_take AUTO_REPLY_MAX_def)
  show ?thesis
    unfolding settings_from_stored_def dict_get_via_or as_dict_get json_list_def json.case e c i r
      lenient_fixed(1) [OF as_dict_get(1)] lenient_fixed(1) [OF as_dict_get(8)] lenient_fixed(1) [OF as_dict_get(10)]
      lenient_fixed(1) [OF as_dict_get(11)] lenient_fixed(1) [OF as_dict_get(12)]
    using b p by (simp add: lenient_fixed(2) as_dict_get within_settings [OF wp])
qed

section \<open>What passes the checks is within the rules\<close>

lemma first_refusal_None: "first_refusal f xs = None \<Longrightarrow> x \<in> set xs \<Longrightarrow> f x = None"
  by (induction xs) (auto split: option.splits)

lemma strict_int_within:
  assumes "first_refusal (strict_int data) INT_SETTINGS = None" and "map_of INT_SETTINGS key = Some d"
  shows "in_bounds key (get_int data key)"
proof -
  from assms(2) have "(key, d) \<in> set INT_SETTINGS" by (rule map_of_SomeD)
  with assms(1) have "strict_int data (key, d) = None" by (rule first_refusal_None)
  then show ?thesis
    by (auto simp: strict_int_def get_int_def in_bounds_def assms(2) split_def Let_def split: json.splits if_splits)
qed

lemma strict_each_email_ok:
  "strict_each_email env emails xs = Inr out \<Longrightarrow> list_all (valid_email env) emails \<Longrightarrow> list_all (valid_email env) out"
  by (induction env emails xs rule: strict_each_email.induct)
    (auto simp: Let_def split: json.splits if_splits)

lemma strict_emails_ok:
  "strict_emails env raw = Inr out \<Longrightarrow> list_all (valid_email env) out \<and> int (length out) \<le> MAX_NOTIFY_EMAILS"
  by (auto simp: strict_emails_def intro: strict_each_email_ok split: json.splits sum.splits if_splits)

lemma find_None_all: "find p xs = None \<longleftrightarrow> list_all (\<lambda>x. \<not> p x) xs"
  by (auto simp: find_None_iff list_all_iff)

lemma strict_categories_ok:
  assumes "strict_categories raw = Inr out"
  shows "out \<noteq> [] \<and> int (length out) \<le> MAX_CATEGORIES \<and> list_all (\<lambda>c. int (length c) \<le> CATEGORY_MAX) out \<and>
    clean_categories out = out"
proof -
  obtain xs where "raw = JList xs" using assms by (cases raw) (simp_all add: strict_categories_def)
  let ?out = "clean_categories (map split_join (filter (\<lambda>v. strip v \<noteq> []) (map the_JString xs)))"
  from assms have "out = ?out" "?out \<noteq> []" "int (length ?out) \<le> MAX_CATEGORIES" "find (\<lambda>c. CATEGORY_MAX < int (length c)) ?out = None"
    unfolding strict_categories_def \<open>raw = JList xs\<close> json.case Let_def by (auto split: if_splits option.splits)
  then show ?thesis by (simp add: find_None_all not_less clean_categories_idem)
qed

lemma strict_image_types_ok: "strict_image_types raw = Inr out \<Longrightarrow> out \<noteq> [] \<and> clean_image_types out = out"
  by (auto simp: strict_image_types_def Let_def clean_image_types_idem split: json.splits if_splits)

lemma strict_texts_ok:
  "strict_priority data = Inr p \<Longrightarrow> p \<in> set PRIORITIES"
  "strict_reply_text data = Inr t \<Longrightarrow> int (length t) \<le> AUTO_REPLY_MAX"
  by (auto simp: strict_priority_def strict_reply_text_def Let_def not_less split: json.splits if_splits)

lemma validate_settings_ok:
  assumes "validate_settings env body = Inr s"
  shows "settings_ok env s"
proof -
  obtain data where body: "body = JObject data" using assms by (cases body) (simp_all add: validate_settings_def)
  from assms [unfolded validate_settings_def body json.case] obtain emails p t cats types
    where ints: "first_refusal (strict_int data) INT_SETTINGS = None"
      and ok: "strict_emails env (dict_get_or data ''notify_emails'' (JList [])) = Inr emails"
        "strict_priority data = Inr p" "strict_reply_text data = Inr t"
        "strict_categories (dict_get_or data ''categories'' (JList (map JString DEFAULT_CATEGORIES))) = Inr cats"
        "strict_image_types (dict_get_or data ''image_types'' (JList (map JString IMAGE_TYPE_CEILING))) = Inr types"
      and s: "s = within_platform env (checked_settings data emails p t cats types)"
    by (auto split: option.splits sum.splits)
  note int_ok = strict_int_within [OF ints]
  show ?thesis
    unfolding s
    by (rule within_platform_ok)
      (use ok in \<open>simp_all add: bounds_ok_def lists_ok_def checked_settings_def int_ok INT_SETTINGS_def
        strict_emails_ok strict_categories_ok strict_image_types_ok strict_texts_ok\<close>)
qed

section \<open>Properties\<close>

text \<open>
  Whatever is in the stored row, the settings the code works with are within the rules: every number in its
  bounds and within what the platform decodes, only addresses that can be mailed, at least one category and one
  image type, all of them clean.
\<close>

theorem stored_settings_in_bounds: "settings_ok env (load_settings env row)"
  by (simp add: load_settings_def settings_from_stored_ok)

text \<open>
  C37: settings that pass the check are read back exactly as they were saved.
\<close>

theorem settings_round_trip:
  assumes "validate_settings env body = Inr s"
  shows "load_settings env (save_settings s) = s"
  using validate_settings_ok [OF assms] by (simp add: load_settings_def save_settings_def settings_stored_fixed)

definition sample_env :: ticket_env where
  "sample_env = \<lparr>tn_sendable = (\<lambda>_. True), tn_repr = (\<lambda>_. []), tn_max_media_input_bytes = 4 * 1024 * 1024, tn_max_image_side_px = 4096\<rparr>"

definition sample_body :: json where
  "sample_body = JObject [(''max_image_mb'', JInt 9), (''categories'', JList [JString '' Billing  issue '', JString ''Bug'']),
     (''notify_emails'', JList [JString ''desk@example.com'', JString ''DESK@example.com'']),
     (''image_types'', JList [JString ''JPEG'', JString ''png''])]"

theorem settings_round_trip_witness:
  "load_settings sample_env (save_settings (projr (validate_settings sample_env sample_body))) =
     projr (validate_settings sample_env sample_body) \<and>
   ts_max_image_mb (projr (validate_settings sample_env sample_body)) = 4 \<and>
   ts_categories (projr (validate_settings sample_env sample_body)) = [''Billing issue'', ''Bug'']"
proof -
  have r: "isl (validate_settings sample_env sample_body) = False" by code_simp
  then have "validate_settings sample_env sample_body = Inr (projr (validate_settings sample_env sample_body))"
    by (cases "validate_settings sample_env sample_body") simp_all
  from settings_round_trip [OF this] show ?thesis by (intro conjI) (assumption | code_simp)+
qed

end
