(* ===== verification/Support_Tickets.thy ===== *)
theory Support_Tickets
  imports Ticket_Settings
begin

text \<open>
  Support tickets (\<open>services/support_tickets.py\<close> over \<open>models/support_ticket.py\<close>): opening a ticket, the person's
  replies, what staff do, assignment, the scheduled jobs and deletion.

  The state extends the accounts with the three ticket tables, the stored settings, the id sequences, and the keys
  of the images handed to object storage for removal. \<open>event_json\<close> and \<open>context_json\<close> are the JSON objects of
  their texts. A call reads the clock once. A refused call is the error side of the sum: the caller rolls back.
  Emails are sent after the commit by another module and are left out.
\<close>

section \<open>Rows\<close>

datatype ticket_status = Open | In_Progress | Waiting | Resolved | Closed

datatype closed_reason = Closed_Manual | Closed_Auto | Closed_Resolved

datatype resolved_by = By_Staff | By_User

datatype message_kind = User_Message | Staff_Message | Note | Auto_Reply | Event

record ticket =
  tk_id :: int
  tk_number :: int
  tk_user_id :: int
  tk_reporter_name :: string
  tk_reporter_username :: string
  tk_reporter_email :: "string option"
  tk_reporter_department :: "string option"
  tk_title :: string
  tk_category :: string
  tk_priority :: string
  tk_status :: ticket_status
  tk_assignee_id :: "int option"
  tk_assigned_at :: "time option"
  tk_assigned_by_id :: "int option"
  tk_context :: "payload option"
  tk_user_unread :: bool
  tk_needs_staff :: bool
  tk_created_at :: time
  tk_updated_at :: time
  tk_waiting_since :: "time option"
  tk_first_staff_reply_at :: "time option"
  tk_resolved_at :: "time option"
  tk_closed_at :: "time option"
  tk_closed_reason :: "closed_reason option"
  tk_resolved_by :: "resolved_by option"
  tk_reopened_count :: int

record ticket_message =
  mg_id :: int
  mg_ticket_id :: int
  mg_author_id :: "int option"
  mg_author_name :: "string option"
  mg_kind :: message_kind
  mg_body :: string
  mg_event :: "payload option"
  mg_created_at :: time

record ticket_attachment =
  at_id :: int
  at_ticket_id :: int
  at_message_id :: int
  at_storage_key :: string
  at_mime :: string
  at_bytes :: int
  at_width :: int
  at_height :: int
  at_sha256 :: string
  at_display_name :: string
  at_created_at :: time

record stored_image =
  si_storage_key :: string
  si_mime :: string
  si_bytes :: int
  si_width :: int
  si_height :: int
  si_sha256 :: string
  si_display_name :: string

text \<open>An entry of the security log: who, what, which resource, and the details.\<close>

record ticket_audit =
  al_actor_id :: int
  al_action :: string
  al_resource_id :: "string option"
  al_detail :: payload

record support_db = account_db +
  sd_tickets :: "ticket list"
  sd_messages :: "ticket_message list"
  sd_attachments :: "ticket_attachment list"
  sd_settings :: "json option"
  sd_next_ticket :: int
  sd_next_message :: int
  sd_next_attachment :: int
  sd_removed :: "string list"
  sd_audit :: "ticket_audit list"

section \<open>Constants\<close>

definition STATUSES :: "ticket_status list" where
  "STATUSES = [Open, In_Progress, Waiting, Resolved, Closed]"

definition ACTIVE_STATUSES :: "ticket_status list" where
  "ACTIVE_STATUSES = [Open, In_Progress, Waiting]"

definition DONE_STATUSES :: "ticket_status list" where
  "DONE_STATUSES = [Resolved, Closed]"

fun status_name :: "ticket_status \<Rightarrow> string" where
  "status_name Open = ''open''"
| "status_name In_Progress = ''in_progress''"
| "status_name Waiting = ''waiting''"
| "status_name Resolved = ''resolved''"
| "status_name Closed = ''closed''"

definition TITLE_MAX :: int where "TITLE_MAX = 150"

definition BODY_MAX :: int where "BODY_MAX = 5000"

definition CONTEXT_KEYS :: "string list" where
  "CONTEXT_KEYS = [''app_version'', ''browser'', ''page'']"

definition CONTEXT_VALUE_MAX :: int where "CONTEXT_VALUE_MAX = 200"

definition AUTO_REPLY_AUTHOR :: string where "AUTO_REPLY_AUTHOR = ''Support team''"

definition REPLIES_PER_HOUR :: int where "REPLIES_PER_HOUR = 60"

definition JOB_BATCH :: nat where "JOB_BATCH = 200"

definition IN_CHUNK :: nat where "IN_CHUNK = 500"

definition MAX_ID :: int where "MAX_ID = 2147483647"

definition PRIORITY_LABELS :: "(string \<times> string) list" where
  "PRIORITY_LABELS = [(''low'', ''Low''), (''normal'', ''Normal''), (''high'', ''High''), (''urgent'', ''Urgent'')]"

definition priority_label :: "string \<Rightarrow> string" where
  "priority_label p = (case map_of PRIORITY_LABELS p of Some l \<Rightarrow> l | None \<Rightarrow> p)"

section \<open>Who works tickets\<close>

definition display_name :: "account \<Rightarrow> string" where
  "display_name u = (let n = strip (case a_display_name u of None \<Rightarrow> [] | Some d \<Rightarrow> d) in if n \<noteq> [] then n else a_username u)"

definition usable :: "account \<Rightarrow> bool" where
  "usable u \<longleftrightarrow> a_is_active u \<and> a_deleted_at u = None \<and> a_purged_at u = None"

definition can_work_tickets :: "'x account_db_scheme \<Rightarrow> account option \<Rightarrow> bool" where
  "can_work_tickets db user =
     (case user of None \<Rightarrow> False | Some u \<Rightarrow> usable u \<and> user_can_work_tickets (get_user_role_slugs db (a_id u)))"

definition staff_role_label :: "string list \<Rightarrow> string" where
  "staff_role_label slugs = (if user_has_super_admin_access slugs then ''Super Admin'' else ''Support'')"

record staff =
  sf_id :: int
  sf_name :: string
  sf_username :: string
  sf_role_label :: string
  sf_open_count :: int

definition active_ticket :: "ticket \<Rightarrow> bool" where
  "active_ticket t \<longleftrightarrow> tk_status t \<in> set ACTIVE_STATUSES"

definition done_ticket :: "ticket \<Rightarrow> bool" where
  "done_ticket t \<longleftrightarrow> tk_status t \<in> set DONE_STATUSES"

definition count_tickets :: "(ticket \<Rightarrow> bool) \<Rightarrow> 'x support_db_scheme \<Rightarrow> int" where
  "count_tickets p db = int (length (filter p (sd_tickets db)))"

definition active_assigned_count :: "'x support_db_scheme \<Rightarrow> int \<Rightarrow> int" where
  "active_assigned_count db uid = count_tickets (\<lambda>t. tk_assignee_id t = Some uid \<and> active_ticket t) db"

definition assignable_staff :: "'x support_db_scheme \<Rightarrow> staff list" where
  "assignable_staff db =
     (let candidate_ids = map fst (filter (\<lambda>(_, slug). slug = SUPPORT_SLUG \<or> slug = SUPER_ADMIN_SLUG) (ad_roles db));
          users = filter (\<lambda>u. a_id u \<in> set candidate_ids) (ad_users db);
          roles = get_roles_map db (map a_id users);
          slugs = (\<lambda>u. case roles (a_id u) of None \<Rightarrow> [] | Some ss \<Rightarrow> ss);
          staff = map (\<lambda>u. \<lparr>sf_id = a_id u, sf_name = display_name u, sf_username = a_username u,
                            sf_role_label = staff_role_label (slugs u), sf_open_count = active_assigned_count db (a_id u)\<rparr>)
                    (filter (\<lambda>u. usable u \<and> user_can_work_tickets (slugs u)) users)
      in sort_key (\<lambda>s. lower (sf_name s)) (sort_key sf_id staff))"

section \<open>Writing rows\<close>

definition check_text :: "string \<Rightarrow> int \<Rightarrow> string \<Rightarrow> string ticket_result" where
  "check_text name limit value =
     (let t = strip value
      in if t = [] then Inl (TicketError (''invalid_'' @ name) (''The '' @ name @ '' cannot be empty.'') 422)
         else if limit < int (length t)
         then Inl (TicketError (''invalid_'' @ name) (''The '' @ name @ '' can be up to '' @ show_int limit @ '' characters.'') 422)
         else Inr t)"

definition too_many_images :: "int \<Rightarrow> ticket_error" where
  "too_many_images n = TicketError ''too_many_images'' (''Up to '' @ show_int n @ '' images can go with one message.'') 422"

text \<open>\<open>isinstance(value, str | int | float)\<close> holds for booleans too.\<close>

definition is_scalar :: "json \<Rightarrow> bool" where
  "is_scalar v = (case v of JString _ \<Rightarrow> True | JInt _ \<Rightarrow> True | JFloat _ \<Rightarrow> True | JBool _ \<Rightarrow> True | _ \<Rightarrow> False)"

definition clean_context :: "'e ticket_env_scheme \<Rightarrow> payload option \<Rightarrow> payload option" where
  "clean_context env ctx =
     (case ctx of
        None \<Rightarrow> None
      | Some d \<Rightarrow>
          (let shown = (\<lambda>k. strip (json_str (tn_repr env) (dict_get d k)));
               kept = map (\<lambda>k. (k, JString (clip CONTEXT_VALUE_MAX (shown k))))
                        (filter (\<lambda>k. is_scalar (dict_get d k) \<and> shown k \<noteq> []) CONTEXT_KEYS)
           in if kept = [] then None else Some kept))"

definition put_ticket :: "ticket \<Rightarrow> 'x support_db_scheme \<Rightarrow> 'x support_db_scheme" where
  "put_ticket t db = db\<lparr>sd_tickets := modify tk_id (tk_id t) (\<lambda>_. t) (sd_tickets db)\<rparr>"

definition insert_message :: "ticket_message \<Rightarrow> 'x support_db_scheme \<Rightarrow> 'x support_db_scheme" where
  "insert_message m db = db\<lparr>sd_messages := sd_messages db @ [m], sd_next_message := sd_next_message db + 1\<rparr>"

definition add_event :: "ticket \<Rightarrow> time \<Rightarrow> payload \<Rightarrow> 'x support_db_scheme \<Rightarrow> 'x support_db_scheme" where
  "add_event t now facts db =
     insert_message
       \<lparr>mg_id = sd_next_message db, mg_ticket_id = tk_id t, mg_author_id = None, mg_author_name = None, mg_kind = Event,
        mg_body = [], mg_event = Some facts, mg_created_at = now\<rparr> db"

definition attachment_row :: "int \<Rightarrow> ticket_message \<Rightarrow> stored_image \<Rightarrow> ticket_attachment" where
  "attachment_row i m img =
     \<lparr>at_id = i, at_ticket_id = mg_ticket_id m, at_message_id = mg_id m, at_storage_key = si_storage_key img,
      at_mime = si_mime img, at_bytes = si_bytes img, at_width = si_width img, at_height = si_height img,
      at_sha256 = si_sha256 img,
      at_display_name = clip 255 (if si_display_name img \<noteq> [] then si_display_name img else ''image''),
      at_created_at = mg_created_at m\<rparr>"

definition attach_one :: "ticket_message \<Rightarrow> 'x support_db_scheme \<Rightarrow> stored_image \<Rightarrow> 'x support_db_scheme" where
  "attach_one m db img =
     db\<lparr>sd_attachments := sd_attachments db @ [attachment_row (sd_next_attachment db) m img],
        sd_next_attachment := sd_next_attachment db + 1\<rparr>"

definition attach :: "ticket_message \<Rightarrow> stored_image list \<Rightarrow> 'x support_db_scheme \<Rightarrow> 'x support_db_scheme" where
  "attach m images db = foldl (attach_one m) db images"

text \<open>The author of a message: the account, or only a name.\<close>

definition message_row ::
  "int \<Rightarrow> ticket \<Rightarrow> message_kind \<Rightarrow> string \<Rightarrow> account option \<Rightarrow> string option \<Rightarrow> time \<Rightarrow> ticket_message" where
  "message_row i t kind body author author_name now =
     (let given = (case author_name of None \<Rightarrow> [] | Some n \<Rightarrow> n);
          name = clip 255 (if given \<noteq> [] then given else case author of None \<Rightarrow> [] | Some a \<Rightarrow> display_name a)
      in \<lparr>mg_id = i, mg_ticket_id = tk_id t, mg_author_id = map_option a_id author,
          mg_author_name = (if name = [] then None else Some name), mg_kind = kind, mg_body = body, mg_event = None,
          mg_created_at = now\<rparr>)"

definition add_message ::
  "ticket \<Rightarrow> message_kind \<Rightarrow> string \<Rightarrow> account option \<Rightarrow> string option \<Rightarrow> time \<Rightarrow> stored_image list \<Rightarrow>
   'x support_db_scheme \<Rightarrow> 'x support_db_scheme" where
  "add_message t kind body author author_name now images db =
     (let m = message_row (sd_next_message db) t kind body author author_name now
      in attach m images (insert_message m db))"

section \<open>Opening a ticket\<close>

text \<open>The placeholders are replaced in one pass; any other brace stays.\<close>

definition placeholder :: "string \<Rightarrow> string \<Rightarrow> bool" where
  "placeholder key s \<longleftrightarrow> starts_with (CHR ''{'' # key @ ''}'') s"

function fill_placeholders :: "(string \<times> string) list \<Rightarrow> string \<Rightarrow> string" where
  "fill_placeholders values [] = []"
| "fill_placeholders values (c # s) =
     (case find (\<lambda>(key, _). placeholder key (c # s)) values of
        None \<Rightarrow> c # fill_placeholders values s
      | Some (key, v) \<Rightarrow> v @ fill_placeholders values (drop (length key + 1) s))"
  by pat_completeness auto

termination
  by (relation "measure (length \<circ> snd)") auto

definition render_auto_reply :: "string \<Rightarrow> ticket \<Rightarrow> string" where
  "render_auto_reply template t =
     fill_placeholders
       [(''name'', tk_reporter_name t), (''number'', CHR ''#'' # show_int (tk_number t)), (''title'', tk_title t),
        (''priority'', priority_label (tk_priority t)), (''category'', tk_category t)] template"

definition auto_reply_wanted :: "ticket_settings \<Rightarrow> bool" where
  "auto_reply_wanted s \<longleftrightarrow> ts_auto_reply_enabled s \<and> strip (ts_auto_reply_text s) \<noteq> []"

record ticket_request =
  rq_title :: string
  rq_description :: string
  rq_category :: string
  rq_priority :: string
  rq_context :: "payload option"

definition recent_tickets :: "'x support_db_scheme \<Rightarrow> int \<Rightarrow> time \<Rightarrow> int" where
  "recent_tickets db uid since = count_tickets (\<lambda>t. tk_user_id t = uid \<and> since \<le> tk_created_at t) db"

definition active_tickets :: "'x support_db_scheme \<Rightarrow> int \<Rightarrow> int" where
  "active_tickets db uid = count_tickets (\<lambda>t. tk_user_id t = uid \<and> active_ticket t) db"

definition precheck_create ::
  "'x support_db_scheme \<Rightarrow> account \<Rightarrow> ticket_request \<Rightarrow> ticket_settings \<Rightarrow> time \<Rightarrow> (string \<times> string) ticket_result" where
  "precheck_create db user rq settings now =
     (if \<not> a_is_active user then Inl (TicketError ''account_inactive'' ''A disabled account cannot open tickets.'' 403)
      else (case check_text ''title'' TITLE_MAX (rq_title rq) of Inl e \<Rightarrow> Inl e | Inr title \<Rightarrow>
           (case check_text ''description'' BODY_MAX (rq_description rq) of Inl e \<Rightarrow> Inl e | Inr description \<Rightarrow>
              if rq_category rq \<notin> set (ts_categories settings)
              then Inl (TicketError ''invalid_category'' ''Pick one of the categories offered.'' 422)
              else if rq_priority rq \<notin> set PRIORITIES
              then Inl (TicketError ''invalid_priority'' ''Pick one of the priorities offered.'' 422)
              else if ts_per_hour settings \<le> recent_tickets db (a_id user) (now - seconds 3600)
              then Inl (TicketError ''ticket_rate_limited''
                     (''You can open up to '' @ show_int (ts_per_hour settings) @ '' tickets an hour. Try again later.'') 429)
              else if ts_max_open settings \<le> active_tickets db (a_id user)
              then Inl (TicketError ''too_many_open''
                     (''You have '' @ show_int (active_tickets db (a_id user)) @
                      '' open tickets, the most allowed. Mark one resolved before you open another.'') 409)
              else Inr (title, description))))"

definition clip_option :: "string option \<Rightarrow> string option" where
  "clip_option v = (if truthy v then map_option (clip 255) v else None)"

definition reporter_department :: "account \<Rightarrow> string option" where
  "reporter_department user =
     (if truthy (a_department user)
      then let d = clip 255 (strip (the (a_department user))) in if d = [] then None else Some d
      else None)"

text \<open>The row as it is once the number is set from the id of the insert.\<close>

definition new_ticket :: "'e ticket_env_scheme \<Rightarrow> int \<Rightarrow> account \<Rightarrow> string \<Rightarrow> ticket_request \<Rightarrow> time \<Rightarrow> ticket" where
  "new_ticket env i user title rq now =
     \<lparr>tk_id = i, tk_number = 1000 + i, tk_user_id = a_id user, tk_reporter_name = clip 255 (display_name user),
      tk_reporter_username = clip 255 (a_username user), tk_reporter_email = clip_option (a_email user),
      tk_reporter_department = reporter_department user, tk_title = title, tk_category = rq_category rq,
      tk_priority = rq_priority rq, tk_status = Open, tk_assignee_id = None, tk_assigned_at = None,
      tk_assigned_by_id = None, tk_context = clean_context env (rq_context rq), tk_user_unread = False,
      tk_needs_staff = True, tk_created_at = now, tk_updated_at = now, tk_waiting_since = None,
      tk_first_staff_reply_at = None, tk_resolved_at = None, tk_closed_at = None, tk_closed_reason = None,
      tk_resolved_by = None, tk_reopened_count = 0\<rparr>"

definition insert_ticket :: "ticket \<Rightarrow> 'x support_db_scheme \<Rightarrow> 'x support_db_scheme" where
  "insert_ticket t db = db\<lparr>sd_tickets := sd_tickets db @ [t], sd_next_ticket := sd_next_ticket db + 1\<rparr>"

definition create_ticket ::
  "'e ticket_env_scheme \<Rightarrow> 'x support_db_scheme \<Rightarrow> account \<Rightarrow> ticket_request \<Rightarrow> stored_image list \<Rightarrow> ticket_settings \<Rightarrow> time \<Rightarrow>
   ('x support_db_scheme \<times> ticket) ticket_result" where
  "create_ticket env db user rq images settings now =
     (case precheck_create db user rq settings now of
        Inl e \<Rightarrow> Inl e
      | Inr (title, description) \<Rightarrow>
          if ts_max_images settings < int (length images) then Inl (too_many_images (ts_max_images settings))
          else
            let t = new_ticket env (sd_next_ticket db) user title rq now;
                db1 = add_message t User_Message description (Some user) None now images (insert_ticket t db);
                db2 = (if auto_reply_wanted settings
                       then add_message t Auto_Reply (render_auto_reply (ts_auto_reply_text settings) t) None
                              (Some AUTO_REPLY_AUTHOR) now [] db1
                       else db1)
            in Inr (db2, t))"

section \<open>The person's side\<close>

definition first_some :: "'a option \<Rightarrow> 'a option \<Rightarrow> 'a option" where
  "first_some a b = (case a of Some x \<Rightarrow> Some x | None \<Rightarrow> b)"

definition reopen_until :: "ticket \<Rightarrow> ticket_settings \<Rightarrow> time option" where
  "reopen_until t settings =
     (if \<not> done_ticket t then None
      else map_option (\<lambda>since. since + days (ts_reopen_days settings)) (first_some (tk_resolved_at t) (tk_closed_at t)))"

definition clear_done :: "ticket \<Rightarrow> ticket" where
  "clear_done t = t\<lparr>tk_resolved_at := None, tk_resolved_by := None, tk_closed_at := None, tk_closed_reason := None\<rparr>"

definition not_found :: ticket_error where
  "not_found = TicketError ''not_found'' ''Ticket not found.'' 404"

definition message_owner :: "'x support_db_scheme \<Rightarrow> ticket_message \<Rightarrow> int option" where
  "message_owner db m = map_option tk_user_id (fetch tk_id (mg_ticket_id m) (sd_tickets db))"

definition recent_replies :: "'x support_db_scheme \<Rightarrow> int \<Rightarrow> time \<Rightarrow> int" where
  "recent_replies db uid since =
     (let messages = int (length (filter (\<lambda>m. message_owner db m = Some uid \<and> mg_kind m = User_Message \<and>
                                            since \<le> mg_created_at m) (sd_messages db)))
      in max 0 (messages - recent_tickets db uid since))"

definition reopen_passed :: "ticket \<Rightarrow> ticket_settings \<Rightarrow> time \<Rightarrow> bool" where
  "reopen_passed t settings now = (case reopen_until t settings of None \<Rightarrow> True | Some u \<Rightarrow> u < now)"

definition precheck_user_reply ::
  "'x support_db_scheme \<Rightarrow> ticket \<Rightarrow> account \<Rightarrow> string \<Rightarrow> ticket_settings \<Rightarrow> time \<Rightarrow> string ticket_result" where
  "precheck_user_reply db t user body settings now =
     (if tk_user_id t \<noteq> a_id user then Inl not_found
      else if \<not> a_is_active user then Inl (TicketError ''account_inactive'' ''A disabled account cannot reply.'' 403)
      else (case check_text ''body'' BODY_MAX body of
              Inl e \<Rightarrow> Inl e
            | Inr text_body \<Rightarrow>
                if done_ticket t \<and> reopen_passed t settings now
                then Inl (TicketError ''reopen_window_passed''
                       (''This ticket ended more than '' @ show_int (ts_reopen_days settings) @
                        '' days ago. Open a new ticket instead.'') 409)
                else if REPLIES_PER_HOUR \<le> recent_replies db (a_id user) (now - seconds 3600)
                then Inl (TicketError ''reply_rate_limited''
                       (''You can send up to '' @ show_int REPLIES_PER_HOUR @ '' replies an hour. Try again later.'') 429)
                else Inr text_body))"

definition by_facts :: "string \<Rightarrow> account \<Rightarrow> payload" where
  "by_facts kind actor = [(''type'', JString kind), (''by'', JString (display_name actor)), (''by_id'', JInt (a_id actor))]"

text \<open>The row after the person's message.\<close>

definition answered :: "time \<Rightarrow> ticket \<Rightarrow> ticket" where
  "answered now t =
     (let t1 = (if done_ticket t then (clear_done t)\<lparr>tk_status := Open, tk_reopened_count := tk_reopened_count t + 1\<rparr>
                else if tk_status t = Waiting then t\<lparr>tk_status := Open\<rparr> else t)
      in t1\<lparr>tk_waiting_since := None, tk_needs_staff := True, tk_updated_at := now\<rparr>)"

definition add_user_message ::
  "'x support_db_scheme \<Rightarrow> ticket \<Rightarrow> account \<Rightarrow> string \<Rightarrow> stored_image list \<Rightarrow> ticket_settings \<Rightarrow> time \<Rightarrow>
   ('x support_db_scheme) ticket_result" where
  "add_user_message db t user body images settings now =
     (case precheck_user_reply db t user body settings now of
        Inl e \<Rightarrow> Inl e
      | Inr text_body \<Rightarrow>
          if ts_max_images settings < int (length images) then Inl (too_many_images (ts_max_images settings))
          else
            let db1 = add_message t User_Message text_body (Some user) None now images db;
                db2 = (if done_ticket t then add_event t now (by_facts ''reopened'' user) db1 else db1)
            in Inr (put_ticket (answered now t) db2))"

definition resolved_by_user :: "time \<Rightarrow> ticket \<Rightarrow> ticket" where
  "resolved_by_user now t =
     t\<lparr>tk_status := Resolved, tk_resolved_at := Some now, tk_resolved_by := Some By_User, tk_waiting_since := None,
       tk_needs_staff := False, tk_updated_at := now\<rparr>"

definition user_resolve ::
  "'x support_db_scheme \<Rightarrow> ticket \<Rightarrow> account \<Rightarrow> time \<Rightarrow> ('x support_db_scheme) ticket_result" where
  "user_resolve db t user now =
     (if tk_user_id t \<noteq> a_id user then Inl not_found
      else if \<not> a_is_active user then Inl (TicketError ''account_inactive'' ''A disabled account cannot change tickets.'' 403)
      else if \<not> active_ticket t then Inl (TicketError ''not_active'' ''This ticket has already ended.'' 409)
      else Inr (add_event t now (by_facts ''resolved'' user) (put_ticket (resolved_by_user now t) db)))"

section \<open>What staff do\<close>

definition apply_status :: "ticket_status \<Rightarrow> time \<Rightarrow> ticket \<Rightarrow> ticket" where
  "apply_status status now t =
     (let t1 = (if done_ticket t \<and> status \<in> set ACTIVE_STATUSES
                then (clear_done t)\<lparr>tk_reopened_count := tk_reopened_count t + 1\<rparr> else t);
          t2 = t1\<lparr>tk_status := status, tk_waiting_since := (if status = Waiting then Some now else None)\<rparr>;
          t3 = (if status = Resolved
                then t2\<lparr>tk_resolved_at := Some now, tk_resolved_by := Some By_Staff, tk_closed_at := None, tk_closed_reason := None\<rparr>
                else if status = Closed then t2\<lparr>tk_closed_at := Some now, tk_closed_reason := Some Closed_Manual\<rparr>
                else t2)
      in if status \<in> set DONE_STATUSES then t3\<lparr>tk_needs_staff := False\<rparr> else t3)"

definition check_status :: "string \<Rightarrow> ticket_status ticket_result" where
  "check_status name =
     (case find (\<lambda>s. status_name s = name) STATUSES of
        Some s \<Rightarrow> Inr s
      | None \<Rightarrow> Inl (TicketError ''invalid_status'' ''Status must be one of open, in_progress, waiting, resolved, closed.'' 422))"

text \<open>The changed row, and the database with it and the event line.\<close>

definition status_changed :: "ticket_status \<Rightarrow> time \<Rightarrow> ticket \<Rightarrow> ticket" where
  "status_changed status now t =
     (if status = tk_status t then t else (apply_status status now t)\<lparr>tk_user_unread := True, tk_updated_at := now\<rparr>)"

definition change_facts :: "string \<Rightarrow> account \<Rightarrow> string \<Rightarrow> string \<Rightarrow> payload" where
  "change_facts kind actor to previous = by_facts kind actor @ [(''to'', JString to), (''from'', JString previous)]"

definition change_status ::
  "ticket \<Rightarrow> account \<Rightarrow> ticket_status \<Rightarrow> time \<Rightarrow> 'x support_db_scheme \<Rightarrow> 'x support_db_scheme" where
  "change_status t actor status now db =
     (if status = tk_status t then db
      else add_event t now (change_facts ''status'' actor (status_name status) (status_name (tk_status t)))
             (put_ticket (status_changed status now t) db))"

definition precheck_staff_message :: "string \<Rightarrow> string option \<Rightarrow> (string \<times> ticket_status option) ticket_result" where
  "precheck_staff_message body status =
     (case check_text ''body'' BODY_MAX body of
        Inl e \<Rightarrow> Inl e
      | Inr text_body \<Rightarrow>
          (case status of
             None \<Rightarrow> Inr (text_body, None)
           | Some name \<Rightarrow> (case check_status name of Inl e \<Rightarrow> Inl e | Inr s \<Rightarrow> Inr (text_body, Some s))))"

text \<open>The row after a reply is noted and before the status changes, and after both.\<close>

definition replied :: "time \<Rightarrow> ticket \<Rightarrow> ticket" where
  "replied now t =
     t\<lparr>tk_first_staff_reply_at := (case tk_first_staff_reply_at t of None \<Rightarrow> Some now | Some x \<Rightarrow> Some x),
       tk_needs_staff := False, tk_user_unread := True\<rparr>"

definition reply_finished :: "time \<Rightarrow> ticket \<Rightarrow> ticket" where
  "reply_finished now t =
     (if tk_status t = Waiting then t\<lparr>tk_waiting_since := Some now\<rparr> else t)\<lparr>tk_updated_at := now\<rparr>"

definition staff_status :: "ticket \<Rightarrow> bool \<Rightarrow> ticket_status option \<Rightarrow> ticket_status option" where
  "staff_status t internal status =
     (if \<not> internal \<and> status = None \<and> tk_status t = Open then Some In_Progress else status)"

definition add_staff_message ::
  "'x support_db_scheme \<Rightarrow> ticket \<Rightarrow> account \<Rightarrow> string \<Rightarrow> bool \<Rightarrow> stored_image list \<Rightarrow> string option \<Rightarrow> time \<Rightarrow>
   ('x support_db_scheme) ticket_result" where
  "add_staff_message db t staff body internal images status now =
     (case precheck_staff_message body status of
        Inl e \<Rightarrow> Inl e
      | Inr (text_body, wanted) \<Rightarrow>
          if MAX_IMAGES_CEILING < int (length images) then Inl (too_many_images MAX_IMAGES_CEILING)
          else
            let db1 = add_message t (if internal then Note else Staff_Message) text_body (Some staff) None now images db;
                t1 = (if internal then t else replied now t);
                t2 = (case staff_status t internal wanted of None \<Rightarrow> t1 | Some s \<Rightarrow> status_changed s now t1);
                db2 = (case staff_status t internal wanted of None \<Rightarrow> db1 | Some s \<Rightarrow> change_status t1 staff s now db1);
                t3 = (if internal then t2 else reply_finished now t2)
            in Inr (put_ticket t3 db2))"

definition set_status ::
  "'x support_db_scheme \<Rightarrow> ticket \<Rightarrow> account \<Rightarrow> string \<Rightarrow> time \<Rightarrow> ('x support_db_scheme) ticket_result" where
  "set_status db t actor status now =
     (case check_status status of Inl e \<Rightarrow> Inl e | Inr s \<Rightarrow> Inr (change_status t actor s now db))"

definition set_priority ::
  "'x support_db_scheme \<Rightarrow> ticket \<Rightarrow> account \<Rightarrow> string \<Rightarrow> time \<Rightarrow> ('x support_db_scheme) ticket_result" where
  "set_priority db t actor priority now =
     (if priority \<notin> set PRIORITIES
      then Inl (TicketError ''invalid_priority'' ''Priority must be one of low, normal, high, urgent.'' 422)
      else if priority = tk_priority t then Inr db
      else Inr (add_event t now (change_facts ''priority'' actor priority (tk_priority t)) (put_ticket (t\<lparr>tk_priority := priority\<rparr>) db)))"

text \<open>The settings are loaded unless the caller passes them.\<close>

definition settings_or_load :: "'e ticket_env_scheme \<Rightarrow> 'x support_db_scheme \<Rightarrow> ticket_settings option \<Rightarrow> ticket_settings" where
  "settings_or_load env db settings = (case settings of Some s \<Rightarrow> s | None \<Rightarrow> load_settings env (sd_settings db))"

definition set_category ::
  "'e ticket_env_scheme \<Rightarrow> 'x support_db_scheme \<Rightarrow> ticket \<Rightarrow> account \<Rightarrow> string \<Rightarrow> ticket_settings option \<Rightarrow> time \<Rightarrow>
   ('x support_db_scheme) ticket_result" where
  "set_category env db t actor category settings now =
     (if category = tk_category t then Inr db
      else if category \<notin> set (ts_categories (settings_or_load env db settings))
      then Inl (TicketError ''invalid_category'' ''Pick one of the categories offered.'' 422)
      else Inr (add_event t now (change_facts ''category'' actor category (tk_category t)) (put_ticket (t\<lparr>tk_category := category\<rparr>) db)))"

section \<open>Assignment\<close>

record assign_outcome =
  ao_changed :: bool
  ao_email_wanted :: bool
  ao_event_id :: "int option"

definition unassigned :: "ticket \<Rightarrow> ticket" where
  "unassigned t = t\<lparr>tk_assignee_id := None, tk_assigned_at := None, tk_assigned_by_id := None\<rparr>"

definition unchanged_outcome :: assign_outcome where
  "unchanged_outcome = \<lparr>ao_changed = False, ao_email_wanted = False, ao_event_id = None\<rparr>"

definition email_state :: "account \<Rightarrow> account \<Rightarrow> ticket_settings \<Rightarrow> string" where
  "email_state actor assignee settings =
     (if a_id assignee = a_id actor then ''none''
      else if ts_email_assignee settings \<and> strip (case a_email assignee of None \<Rightarrow> [] | Some e \<Rightarrow> e) \<noteq> [] then ''pending''
      else ''off'')"

definition json_of_option :: "('a \<Rightarrow> json) \<Rightarrow> 'a option \<Rightarrow> json" where
  "json_of_option f v = (case v of None \<Rightarrow> JNull | Some x \<Rightarrow> f x)"

definition assign ::
  "'e ticket_env_scheme \<Rightarrow> 'x support_db_scheme \<Rightarrow> ticket \<Rightarrow> account \<Rightarrow> account option \<Rightarrow> ticket_settings option \<Rightarrow> time \<Rightarrow>
   ('x support_db_scheme \<times> assign_outcome) ticket_result" where
  "assign env db t actor assignee settings now =
     (case assignee of
        None \<Rightarrow>
          (case tk_assignee_id t of
             None \<Rightarrow> Inr (db, unchanged_outcome)
           | Some old \<Rightarrow>
               let previous = fetch a_id old (ad_users db)
               in Inr (add_event t now
                         (by_facts ''unassigned'' actor @
                          [(''from'', json_of_option (JString \<circ> display_name) previous), (''from_id'', json_of_option (JInt \<circ> a_id) previous)])
                         (put_ticket (unassigned t) db),
                       \<lparr>ao_changed = True, ao_email_wanted = False, ao_event_id = Some (sd_next_message db)\<rparr>))
      | Some person \<Rightarrow>
          if \<not> can_work_tickets db (Some person)
          then Inl (TicketError ''not_assignable'' (display_name person @ '' cannot work tickets.'') 422)
          else if tk_assignee_id t = Some (a_id person) then Inr (db, unchanged_outcome)
          else
            let email = email_state actor person (settings_or_load env db settings)
            in Inr (add_event t now
                      (by_facts ''assigned'' actor @
                       [(''to'', JString (display_name person)), (''to_id'', JInt (a_id person)), (''email'', JString email)])
                      (put_ticket (t\<lparr>tk_assignee_id := Some (a_id person), tk_assigned_at := Some now,
                                     tk_assigned_by_id := Some (a_id actor)\<rparr>) db),
                    \<lparr>ao_changed = True, ao_email_wanted = (email = ''pending''), ao_event_id = Some (sd_next_message db)\<rparr>))"

definition release_ticket :: "string \<Rightarrow> int \<Rightarrow> time \<Rightarrow> 'x support_db_scheme \<Rightarrow> ticket \<Rightarrow> 'x support_db_scheme" where
  "release_ticket name aid now db t =
     add_event t now [(''type'', JString ''assignee_removed''), (''from'', JString name), (''from_id'', JInt aid)]
       (put_ticket (unassigned t) db)"

text \<open>One assignee of the sweep; the count is of the tickets released so far.\<close>

definition release_assignee :: "time \<Rightarrow> 'x support_db_scheme \<times> int \<Rightarrow> int \<Rightarrow> 'x support_db_scheme \<times> int" where
  "release_assignee now acc aid =
     (let (db, released) = acc; person = fetch a_id aid (ad_users db)
      in if can_work_tickets db person then (db, released)
         else
           let name = (case person of None \<Rightarrow> ''Someone'' | Some u \<Rightarrow> display_name u);
               tickets = filter (\<lambda>t. tk_assignee_id t = Some aid \<and> active_ticket t) (sd_tickets db)
           in (foldl (release_ticket name aid now) db tickets, released + int (length tickets)))"

definition assignees_of_active :: "'x support_db_scheme \<Rightarrow> int list" where
  "assignees_of_active db = remdups (List.map_filter tk_assignee_id (filter active_ticket (sd_tickets db)))"

definition release_orphaned_assignments :: "'x support_db_scheme \<Rightarrow> time \<Rightarrow> 'x support_db_scheme \<times> int" where
  "release_orphaned_assignments db now = foldl (release_assignee now) (db, 0) (assignees_of_active db)"

section \<open>Deletion\<close>

record delete_totals =
  dt_deleted :: int
  dt_messages :: int
  dt_images :: int
  dt_image_bytes :: int

definition no_totals :: delete_totals where
  "no_totals = \<lparr>dt_deleted = 0, dt_messages = 0, dt_images = 0, dt_image_bytes = 0\<rparr>"

definition add_totals :: "delete_totals \<Rightarrow> delete_totals \<Rightarrow> delete_totals" where
  "add_totals a b =
     \<lparr>dt_deleted = dt_deleted a + dt_deleted b, dt_messages = dt_messages a + dt_messages b,
      dt_images = dt_images a + dt_images b, dt_image_bytes = dt_image_bytes a + dt_image_bytes b\<rparr>"

function chunks :: "nat \<Rightarrow> 'a list \<Rightarrow> 'a list list" where
  "chunks n xs = (if xs = [] \<or> n = 0 then [] else take n xs # chunks n (drop n xs))"
  by pat_completeness auto

termination
  by (relation "measure (length \<circ> snd)") auto

declare chunks.simps [simp del]

text \<open>
  One chunk: with conditions only the rows that still meet them, which are locked first; a chunk of which none
  does is skipped. The keys of the images leave storage after the commit.
\<close>

definition delete_chunk ::
  "(ticket \<Rightarrow> bool) option \<Rightarrow> 'x support_db_scheme \<times> delete_totals \<Rightarrow> int list \<Rightarrow> 'x support_db_scheme \<times> delete_totals" where
  "delete_chunk conditions acc requested =
     (let (db, totals) = acc;
          locked = (\<lambda>p. map tk_id (sort_key tk_id (filter (\<lambda>t. tk_id t \<in> set requested \<and> p t) (sd_tickets db))));
          chunk = (case conditions of None \<Rightarrow> requested | Some p \<Rightarrow> locked p)
      in if conditions \<noteq> None \<and> chunk = [] then (db, totals)
         else
           let images = filter (\<lambda>a. at_ticket_id a \<in> set chunk) (sd_attachments db);
               messages = filter (\<lambda>m. mg_ticket_id m \<in> set chunk \<and> mg_kind m \<noteq> Event) (sd_messages db);
               gone = (\<lambda>t. tk_id t \<in> set chunk \<and> (case conditions of None \<Rightarrow> True | Some p \<Rightarrow> p t))
           in (db\<lparr>sd_attachments := filter (\<lambda>a. at_ticket_id a \<notin> set chunk) (sd_attachments db),
                  sd_messages := filter (\<lambda>m. mg_ticket_id m \<notin> set chunk) (sd_messages db),
                  sd_tickets := filter (\<lambda>t. \<not> gone t) (sd_tickets db),
                  sd_removed := sd_removed db @ map at_storage_key images\<rparr>,
               add_totals totals
                 \<lparr>dt_deleted = count_tickets gone db, dt_messages = int (length messages), dt_images = int (length images),
                  dt_image_bytes = sum_list (map at_bytes images)\<rparr>))"

definition delete_tickets ::
  "'x support_db_scheme \<Rightarrow> int list \<Rightarrow> (ticket \<Rightarrow> bool) option \<Rightarrow> 'x support_db_scheme \<times> delete_totals" where
  "delete_tickets db ids conditions =
     foldl (delete_chunk conditions) (db, no_totals) (chunks IN_CHUNK (sort (remdups ids)))"

definition delete_user_tickets :: "'x support_db_scheme \<Rightarrow> int \<Rightarrow> 'x support_db_scheme \<times> delete_totals" where
  "delete_user_tickets db uid =
     delete_tickets db (map tk_id (filter (\<lambda>t. tk_user_id t = uid) (sd_tickets db))) None"

section \<open>Scheduled jobs\<close>

text \<open>
  A batch: the next tickets past an id that are due, without the rows another session holds (\<open>busy\<close>), at most
  \<open>JOB_BATCH\<close> of them. The loop over the batches is the same in both close jobs; the test on the locked row is the
  condition of the query.
\<close>

definition locked_batch :: "(ticket \<Rightarrow> bool) \<Rightarrow> (int \<Rightarrow> bool) \<Rightarrow> int \<Rightarrow> 'x support_db_scheme \<Rightarrow> ticket list" where
  "locked_batch due busy after_id db =
     take JOB_BATCH (sort_key tk_id (filter (\<lambda>t. after_id < tk_id t \<and> due t \<and> \<not> busy (tk_id t)) (sd_tickets db)))"

definition close_one ::
  "(ticket \<Rightarrow> ticket) \<Rightarrow> payload \<Rightarrow> time \<Rightarrow> 'x support_db_scheme \<Rightarrow> ticket \<Rightarrow> 'x support_db_scheme" where
  "close_one change facts now db t = add_event t now facts (put_ticket (change t) db)"

lemma put_ticket_ids [simp]: "map tk_id (sd_tickets (put_ticket t db)) = map tk_id (sd_tickets db)"
  by (simp add: put_ticket_def)

lemma add_event_tickets [simp]: "sd_tickets (add_event t now facts db) = sd_tickets db"
  by (simp add: add_event_def insert_message_def)

lemma close_one_ids [simp]:
  "map tk_id (sd_tickets (close_one change facts now db t)) = map tk_id (sd_tickets db)"
  by (simp add: close_one_def)

lemma close_all_ids [simp]:
  "map tk_id (sd_tickets (foldl (close_one change facts now) db ts)) = map tk_id (sd_tickets db)"
  by (induction ts arbitrary: db) simp_all

lemma locked_batch_after: "t \<in> set (locked_batch due busy after_id db) \<Longrightarrow> t \<in> set (sd_tickets db) \<and> after_id < tk_id t"
  by (auto simp: locked_batch_def dest: in_set_takeD)

function close_batches ::
  "(ticket \<Rightarrow> bool) \<Rightarrow> (int \<Rightarrow> bool) \<Rightarrow> (ticket \<Rightarrow> ticket) \<Rightarrow> payload \<Rightarrow> time \<Rightarrow> int \<Rightarrow> 'x support_db_scheme \<Rightarrow> int list \<Rightarrow>
   'x support_db_scheme \<times> int list" where
  "close_batches due busy change facts now after_id db out =
     (let batch = locked_batch due busy after_id db
      in if batch = [] then (db, out)
         else close_batches due busy change facts now (tk_id (last batch)) (foldl (close_one change facts now) db batch)
                (out @ map tk_id batch))"
  by pat_completeness auto

termination
proof (relation "measure (\<lambda>(due, busy, change, facts, now, after_id, db, out). length (filter (\<lambda>i. after_id < i) (map tk_id (sd_tickets db))))",
    goal_cases)
  case (2 due busy change facts now after_id db out batch)
  then have "last batch \<in> set batch" by simp
  with 2(1) have l: "last batch \<in> set (sd_tickets db)" "after_id < tk_id (last batch)"
    using locked_batch_after by blast+
  let ?ids = "map tk_id (sd_tickets db)"
  have "filter (\<lambda>i. tk_id (last batch) < i) ?ids = filter (\<lambda>i. tk_id (last batch) < i) (filter (\<lambda>i. after_id < i) ?ids)"
    using l(2) by (auto intro!: filter_cong)
  also have "length \<dots> < length (filter (\<lambda>i. after_id < i) ?ids)"
    by (rule length_filter_less [of "tk_id (last batch)"]) (use l in auto)
  finally show ?case by (simp del: filter_map length_filter_map)
qed simp

declare close_batches.simps [simp del]

definition waiting_due :: "time \<Rightarrow> ticket \<Rightarrow> bool" where
  "waiting_due cutoff t \<longleftrightarrow> tk_status t = Waiting \<and> (case tk_waiting_since t of None \<Rightarrow> False | Some w \<Rightarrow> w < cutoff)"

definition auto_closed :: "time \<Rightarrow> ticket \<Rightarrow> ticket" where
  "auto_closed now t =
     t\<lparr>tk_status := Closed, tk_closed_at := Some now, tk_closed_reason := Some Closed_Auto, tk_waiting_since := None,
       tk_needs_staff := False, tk_user_unread := True, tk_updated_at := now\<rparr>"

definition days_facts :: "string \<Rightarrow> int \<Rightarrow> payload" where
  "days_facts kind n = [(''type'', JString kind), (''days'', JInt n)]"

definition close_waiting_tickets ::
  "'e ticket_env_scheme \<Rightarrow> 'x support_db_scheme \<Rightarrow> (int \<Rightarrow> bool) \<Rightarrow> time \<Rightarrow> 'x support_db_scheme \<times> int list" where
  "close_waiting_tickets env db busy now =
     (let settings = load_settings env (sd_settings db); n = ts_auto_close_days settings
      in if \<not> ts_enabled settings then (db, [])
         else close_batches (waiting_due (now - days n)) busy (auto_closed now) (days_facts ''auto_closed'' n) now 0 db [])"

definition resolved_due :: "time \<Rightarrow> ticket \<Rightarrow> bool" where
  "resolved_due cutoff t \<longleftrightarrow> tk_status t = Resolved \<and> (case tk_resolved_at t of None \<Rightarrow> False | Some r \<Rightarrow> r < cutoff)"

definition closed_after_window :: "time \<Rightarrow> ticket \<Rightarrow> ticket" where
  "closed_after_window now t =
     t\<lparr>tk_status := Closed, tk_closed_at := Some now, tk_closed_reason := Some Closed_Resolved, tk_updated_at := now\<rparr>"

definition close_resolved_tickets ::
  "'e ticket_env_scheme \<Rightarrow> 'x support_db_scheme \<Rightarrow> (int \<Rightarrow> bool) \<Rightarrow> time \<Rightarrow> 'x support_db_scheme \<times> int list" where
  "close_resolved_tickets env db busy now =
     (let settings = load_settings env (sd_settings db); n = ts_reopen_days settings
      in if \<not> ts_enabled settings then (db, [])
         else close_batches (resolved_due (now - days n)) busy (closed_after_window now) (days_facts ''closed_resolved'' n) now 0 db [])"

definition restart_clock :: "time \<Rightarrow> ticket \<Rightarrow> ticket" where
  "restart_clock now t = (if tk_status t = Waiting then t\<lparr>tk_waiting_since := Some now\<rparr> else t)"

definition restart_waiting_clocks :: "'x support_db_scheme \<Rightarrow> time \<Rightarrow> 'x support_db_scheme \<times> int" where
  "restart_waiting_clocks db now =
     (db\<lparr>sd_tickets := map (restart_clock now) (sd_tickets db)\<rparr>, count_tickets (\<lambda>t. tk_status t = Waiting) db)"

definition closed_due :: "time \<Rightarrow> ticket \<Rightarrow> bool" where
  "closed_due cutoff t \<longleftrightarrow> tk_status t = Closed \<and> (case tk_closed_at t of None \<Rightarrow> False | Some c \<Rightarrow> c < cutoff)"

definition due_ids :: "time \<Rightarrow> 'x support_db_scheme \<Rightarrow> int list" where
  "due_ids cutoff db = take JOB_BATCH (map tk_id (sort_key tk_id (filter (closed_due cutoff) (sd_tickets db))))"

lemma set_chunks: "n \<noteq> 0 \<Longrightarrow> \<Union> (set ` set (chunks n xs)) = set xs"
proof (induction n xs rule: chunks.induct)
  case (1 n xs)
  show ?case
  proof (cases "xs = []")
    case False
    with 1 have "\<Union> (set ` set (chunks n (drop n xs))) = set (drop n xs)" by simp
    with False 1(2) show ?thesis
      by (subst chunks.simps) (simp add: set_append [symmetric] del: set_append)
  qed (simp add: chunks.simps)
qed

definition meets :: "(ticket \<Rightarrow> bool) option \<Rightarrow> ticket \<Rightarrow> bool" where
  "meets conditions t = (case conditions of None \<Rightarrow> True | Some p \<Rightarrow> p t)"

lemma delete_chunk_tickets:
  "sd_tickets (fst (delete_chunk conditions (db, totals) ids)) =
     filter (\<lambda>t. \<not> (tk_id t \<in> set ids \<and> meets conditions t)) (sd_tickets db)"
proof (cases conditions)
  case None
  then show ?thesis by (simp add: delete_chunk_def meets_def Let_def)
next
  case (Some p)
  let ?chunk = "map tk_id (sort_key tk_id (filter (\<lambda>t. tk_id t \<in> set ids \<and> p t) (sd_tickets db)))"
  have chunk: "set ?chunk = tk_id ` {t \<in> set (sd_tickets db). tk_id t \<in> set ids \<and> p t}" by auto
  show ?thesis
  proof (cases "?chunk = []")
    case True
    then have "set ?chunk = {}" by simp
    then have "\<not> (tk_id t \<in> set ids \<and> p t)" if "t \<in> set (sd_tickets db)" for t
      using that unfolding chunk by blast
    then have "filter (\<lambda>t. \<not> (tk_id t \<in> set ids \<and> p t)) (sd_tickets db) = sd_tickets db" by (simp add: filter_id_conv)
    with True show ?thesis by (simp add: delete_chunk_def Some meets_def Let_def)
  next
    case False
    have "filter (\<lambda>t. \<not> (tk_id t \<in> set ?chunk \<and> p t)) (sd_tickets db)
        = filter (\<lambda>t. \<not> (tk_id t \<in> set ids \<and> p t)) (sd_tickets db)"
      unfolding chunk by (intro filter_cong refl) auto
    with False show ?thesis unfolding delete_chunk_def Some meets_def Let_def prod.case option.case by simp
  qed
qed

lemma delete_chunks_tickets:
  "sd_tickets (fst (foldl (delete_chunk conditions) (db, totals) cs)) =
     filter (\<lambda>t. \<not> (tk_id t \<in> \<Union> (set ` set cs) \<and> meets conditions t)) (sd_tickets db)"
proof (induction cs arbitrary: db totals)
  case (Cons c cs)
  obtain db1 totals1 where step: "delete_chunk conditions (db, totals) c = (db1, totals1)" by (rule prod.exhaust)
  have "sd_tickets db1 = filter (\<lambda>t. \<not> (tk_id t \<in> set c \<and> meets conditions t)) (sd_tickets db)"
    using delete_chunk_tickets [of conditions db totals c] by (simp add: step)
  with Cons [of db1 totals1] show ?case by (auto simp: step intro!: filter_cong)
qed simp

lemma delete_tickets_tickets:
  "sd_tickets (fst (delete_tickets db ids conditions)) =
     filter (\<lambda>t. \<not> (tk_id t \<in> set ids \<and> meets conditions t)) (sd_tickets db)"
  by (simp add: delete_tickets_def delete_chunks_tickets set_chunks IN_CHUNK_def)

lemma due_ids_due: "i \<in> set (due_ids cutoff db) \<Longrightarrow> \<exists>t \<in> set (sd_tickets db). tk_id t = i \<and> closed_due cutoff t"
  by (auto simp: due_ids_def dest!: in_set_takeD)

function purge_loop ::
  "time \<Rightarrow> 'x support_db_scheme \<Rightarrow> delete_totals \<Rightarrow> 'x support_db_scheme \<times> delete_totals" where
  "purge_loop cutoff db totals =
     (let ids = due_ids cutoff db
      in if ids = [] then (db, totals)
         else
           let (db1, counts) = delete_tickets db ids (Some (closed_due cutoff))
           in purge_loop cutoff db1 (add_totals totals counts))"
  by pat_completeness auto

termination
proof (relation "measure (\<lambda>(cutoff, db, totals). length (sd_tickets db))", goal_cases)
  case (2 cutoff db totals ids p db1 counts)
  then obtain i where "i \<in> set (due_ids cutoff db)" by (cases "due_ids cutoff db") auto
  then obtain t where "t \<in> set (sd_tickets db)" "tk_id t \<in> set (due_ids cutoff db)" "closed_due cutoff t"
    using due_ids_due by blast
  then have "length (sd_tickets (fst (delete_tickets db (due_ids cutoff db) (Some (closed_due cutoff))))) < length (sd_tickets db)"
    unfolding delete_tickets_tickets by (intro length_filter_less [of t]) (simp_all add: meets_def)
  with 2 show ?case by (metis fst_conv in_measure split_conv)
qed simp

declare purge_loop.simps [simp del]

definition purge_cutoff :: "ticket_settings \<Rightarrow> time \<Rightarrow> time" where
  "purge_cutoff settings now = now - days (max (ts_retention_days settings) (ts_reopen_days settings))"

definition purge_closed_tickets ::
  "'e ticket_env_scheme \<Rightarrow> 'x support_db_scheme \<Rightarrow> time \<Rightarrow> 'x support_db_scheme \<times> delete_totals" where
  "purge_closed_tickets env db now =
     (let settings = load_settings env (sd_settings db)
      in if ts_retention_days settings \<le> 0 then (db, no_totals)
         else purge_loop (purge_cutoff settings now) db no_totals)"

section \<open>The invariant of a ticket\<close>

definition at_most :: "time option \<Rightarrow> time \<Rightarrow> bool" where
  "at_most v now = (case v of None \<Rightarrow> True | Some x \<Rightarrow> x \<le> now)"

definition status_ok :: "ticket \<Rightarrow> bool" where
  "status_ok t \<longleftrightarrow>
     (tk_status t = Waiting \<longleftrightarrow> tk_waiting_since t \<noteq> None) \<and>
     (tk_status t = Closed \<longleftrightarrow> tk_closed_at t \<noteq> None) \<and>
     (tk_status t = Resolved \<longrightarrow> tk_resolved_at t \<noteq> None) \<and>
     (tk_resolved_at t \<noteq> None \<longrightarrow> tk_status t = Resolved \<or> tk_status t = Closed) \<and>
     (tk_closed_reason t = None \<longleftrightarrow> tk_closed_at t = None) \<and>
     (tk_resolved_by t = None \<longleftrightarrow> tk_resolved_at t = None) \<and>
     (tk_status t = Resolved \<or> tk_status t = Closed \<longrightarrow> \<not> tk_needs_staff t) \<and>
     (tk_closed_reason t = Some Closed_Auto \<longrightarrow> tk_resolved_at t = None) \<and>
     (tk_closed_reason t = Some Closed_Resolved \<longrightarrow> tk_resolved_at t \<noteq> None)"

definition times_ok :: "time \<Rightarrow> ticket \<Rightarrow> bool" where
  "times_ok now t \<longleftrightarrow>
     tk_created_at t \<le> tk_updated_at t \<and> tk_updated_at t \<le> now \<and> at_most (tk_waiting_since t) now \<and>
     at_most (tk_first_staff_reply_at t) now \<and> at_most (tk_resolved_at t) now \<and> at_most (tk_closed_at t) now \<and>
     (case tk_closed_at t of None \<Rightarrow> True | Some c \<Rightarrow> at_most (tk_resolved_at t) c)"

definition ticket_ok :: "time \<Rightarrow> ticket \<Rightarrow> bool" where
  "ticket_ok now t \<longleftrightarrow>
     tk_number t = 1000 + tk_id t \<and> tk_priority t \<in> set PRIORITIES \<and> 0 \<le> tk_reopened_count t \<and>
     (tk_assigned_at t = None \<longleftrightarrow> tk_assignee_id t = None) \<and> status_ok t \<and> times_ok now t"

named_theorems ticket_defs \<open>the invariant of a ticket row, unfolded\<close>

lemmas [ticket_defs] = ticket_ok_def status_ok_def times_ok_def at_most_def

lemma active_ticket_iff [simp]: "active_ticket t \<longleftrightarrow> tk_status t \<noteq> Resolved \<and> tk_status t \<noteq> Closed"
  by (cases "tk_status t") (simp_all add: active_ticket_def ACTIVE_STATUSES_def)

lemma done_ticket_iff [simp]: "done_ticket t \<longleftrightarrow> tk_status t = Resolved \<or> tk_status t = Closed"
  by (auto simp: done_ticket_def DONE_STATUSES_def)

lemma ticket_ok_mono: "ticket_ok now t \<Longrightarrow> now \<le> now' \<Longrightarrow> ticket_ok now' t"
  by (auto simp: ticket_defs split: option.splits)

text \<open>The changes of a row, with what they keep.\<close>

definition same_origin :: "ticket \<Rightarrow> ticket \<Rightarrow> bool" where
  "same_origin t t' \<longleftrightarrow> tk_id t' = tk_id t \<and> tk_user_id t' = tk_user_id t \<and> tk_created_at t' = tk_created_at t"

lemma same_origin_refl [simp]: "same_origin t t"
  by (simp add: same_origin_def)

lemma same_origin_trans: "same_origin a b \<Longrightarrow> same_origin b c \<Longrightarrow> same_origin a c"
  by (simp add: same_origin_def)

lemma same_origin_id: "same_origin t t' \<Longrightarrow> tk_id t' = tk_id t"
  by (simp add: same_origin_def)

lemma new_ticket_ok: "rq_priority rq \<in> set PRIORITIES \<Longrightarrow> ticket_ok now (new_ticket env i user title rq now)"
  by (simp add: new_ticket_def ticket_defs)

lemma answered_ok: "ticket_ok now t \<Longrightarrow> ticket_ok now (answered now t)"
  by (auto simp: answered_def clear_done_def ticket_defs Let_def split: option.splits if_splits)

lemma resolved_by_user_ok: "ticket_ok now t \<Longrightarrow> active_ticket t \<Longrightarrow> ticket_ok now (resolved_by_user now t)"
  by (auto simp: resolved_by_user_def ticket_defs split: option.splits)

lemma status_changed_ok: "ticket_ok now t \<Longrightarrow> ticket_ok now (status_changed status now t)"
  unfolding status_changed_def apply_status_def
  by (cases status)
    (auto simp: clear_done_def ticket_defs ACTIVE_STATUSES_def DONE_STATUSES_def Let_def split: option.splits)

lemma replied_ok: "ticket_ok now t \<Longrightarrow> ticket_ok now (replied now t)"
  by (auto simp: replied_def ticket_defs split: option.splits)

lemma reply_finished_ok: "ticket_ok now t \<Longrightarrow> ticket_ok now (reply_finished now t)"
  by (auto simp: reply_finished_def ticket_defs split: option.splits)

lemma unassigned_ok: "ticket_ok now t \<Longrightarrow> ticket_ok now (unassigned t)"
  by (auto simp: unassigned_def ticket_defs split: option.splits)

lemma auto_closed_ok: "ticket_ok now t \<Longrightarrow> waiting_due cutoff t \<Longrightarrow> ticket_ok now (auto_closed now t)"
  by (auto simp: auto_closed_def waiting_due_def ticket_defs split: option.splits)

lemma closed_after_window_ok: "ticket_ok now t \<Longrightarrow> resolved_due cutoff t \<Longrightarrow> ticket_ok now (closed_after_window now t)"
  by (auto simp: closed_after_window_def resolved_due_def ticket_defs split: option.splits)

lemma restart_clock_ok: "ticket_ok now t \<Longrightarrow> ticket_ok now (restart_clock now t)"
  by (auto simp: restart_clock_def ticket_defs split: option.splits)

lemma ticket_origin [simp]:
  "same_origin t (answered now t)" "same_origin t (resolved_by_user now t)" "same_origin t (status_changed status now t)"
  "same_origin t (replied now t)" "same_origin t (reply_finished now t)" "same_origin t (unassigned t)"
  "same_origin t (auto_closed now t)" "same_origin t (closed_after_window now t)" "same_origin t (restart_clock now t)"
  by (simp_all add: same_origin_def answered_def clear_done_def resolved_by_user_def status_changed_def apply_status_def
      replied_def reply_finished_def unassigned_def auto_closed_def closed_after_window_def restart_clock_def Let_def)

section \<open>The invariant of the tables\<close>

definition first_message :: "'x support_db_scheme \<Rightarrow> int \<Rightarrow> ticket_message option" where
  "first_message db i = fetch mg_ticket_id i (sd_messages db)"

definition opening_ok :: "'x support_db_scheme \<Rightarrow> ticket \<Rightarrow> bool" where
  "opening_ok db t \<longleftrightarrow>
     (case first_message db (tk_id t) of None \<Rightarrow> False | Some m \<Rightarrow> mg_kind m = User_Message \<and> mg_created_at m = tk_created_at t)"

definition message_ok :: "time \<Rightarrow> 'x support_db_scheme \<Rightarrow> ticket_message \<Rightarrow> bool" where
  "message_ok now db m \<longleftrightarrow>
     mg_id m < sd_next_message db \<and> mg_created_at m \<le> now \<and> mg_ticket_id m \<in> tk_id ` set (sd_tickets db) \<and>
     (mg_kind m = Event \<longleftrightarrow> mg_event m \<noteq> None)"

definition attachment_ok :: "'x support_db_scheme \<Rightarrow> ticket_attachment \<Rightarrow> bool" where
  "attachment_ok db a \<longleftrightarrow>
     at_id a < sd_next_attachment db \<and>
     (at_message_id a, at_ticket_id a) \<in> (\<lambda>m. (mg_id m, mg_ticket_id m)) ` set (sd_messages db)"

definition tables_ok :: "time \<Rightarrow> 'x support_db_scheme \<Rightarrow> bool" where
  "tables_ok now db \<longleftrightarrow>
     distinct (map tk_id (sd_tickets db)) \<and>
     list_all (\<lambda>t. ticket_ok now t \<and> 1 \<le> tk_id t \<and> tk_id t < sd_next_ticket db) (sd_tickets db) \<and> 1 \<le> sd_next_ticket db \<and>
     distinct (map mg_id (sd_messages db)) \<and> list_all (message_ok now db) (sd_messages db) \<and>
     distinct (map at_id (sd_attachments db)) \<and> list_all (attachment_ok db) (sd_attachments db)"

definition support_ok :: "time \<Rightarrow> 'x support_db_scheme \<Rightarrow> bool" where
  "support_ok now db \<longleftrightarrow> tables_ok now db \<and> list_all (opening_ok db) (sd_tickets db)"

lemma support_ok_mono: "support_ok now db \<Longrightarrow> now \<le> now' \<Longrightarrow> support_ok now' db"
  using ticket_ok_mono by (fastforce simp: support_ok_def tables_ok_def list_all_iff message_ok_def)

lemma support_ok_ticket: "support_ok now db \<Longrightarrow> t \<in> set (sd_tickets db) \<Longrightarrow> ticket_ok now t"
  by (simp add: support_ok_def tables_ok_def list_all_iff)

text \<open>One row is replaced.\<close>

lemma put_ticket_ok:
  assumes "support_ok now db" and "t \<in> set (sd_tickets db)" and "ticket_ok now t'" and "same_origin t t'"
  shows "support_ok now (put_ticket t' db)"
proof -
  note id' = same_origin_id [OF assms(4)]
  have ids: "tk_id ` set (sd_tickets (put_ticket t' db)) = tk_id ` set (sd_tickets db)"
    by (metis list.set_map put_ticket_ids)
  have rows: "x \<in> set (sd_tickets (put_ticket t' db)) \<Longrightarrow> x = t' \<or> x \<in> set (sd_tickets db)" for x
    by (auto simp: put_ticket_def set_modify)
  have row: "ticket_ok now x \<and> 1 \<le> tk_id x \<and> tk_id x < sd_next_ticket db" if "x \<in> set (sd_tickets (put_ticket t' db))" for x
    using rows [OF that] assms(1,2,3) id' by (auto simp: support_ok_def tables_ok_def list_all_iff)
  have frame: "sd_messages (put_ticket t' db) = sd_messages db" "sd_attachments (put_ticket t' db) = sd_attachments db"
    "sd_next_ticket (put_ticket t' db) = sd_next_ticket db" "sd_next_message (put_ticket t' db) = sd_next_message db"
    "sd_next_attachment (put_ticket t' db) = sd_next_attachment db"
    by (simp_all add: put_ticket_def)
  have "tables_ok now (put_ticket t' db)"
    using assms(1) row
    by (simp add: support_ok_def tables_ok_def list_all_iff message_ok_def attachment_ok_def frame ids del: set_map)
  moreover have "opening_ok db t' = opening_ok db t" using assms(4) by (auto simp: opening_ok_def same_origin_def split: option.split)
  then have "opening_ok db x" if "x \<in> set (sd_tickets (put_ticket t' db))" for x
    using rows [OF that] assms(1,2) by (auto simp: support_ok_def list_all_iff)
  then have "opening_ok (put_ticket t' db) x" if "x \<in> set (sd_tickets (put_ticket t' db))" for x
    using that by (simp add: opening_ok_def first_message_def frame)
  ultimately show ?thesis by (simp add: support_ok_def list_all_iff)
qed

text \<open>A message is appended to a ticket that has its opening message.\<close>

lemma insert_message_ok:
  assumes "support_ok now db" and "mg_id m = sd_next_message db" and "mg_created_at m \<le> now"
    and "mg_ticket_id m \<in> tk_id ` set (sd_tickets db)" and "mg_kind m = Event \<longleftrightarrow> mg_event m \<noteq> None"
  shows "support_ok now (insert_message m db)"
proof -
  have "opening_ok (insert_message m db) t" if "opening_ok db t" for t
    using that by (auto simp: opening_ok_def first_message_def insert_message_def fetch_append split: option.splits)
  moreover have "sd_next_message db \<notin> mg_id ` set (sd_messages db)"
    using assms(1) by (fastforce simp: support_ok_def tables_ok_def list_all_iff message_ok_def)
  ultimately show ?thesis
    using assms
    by (fastforce simp: support_ok_def tables_ok_def list_all_iff message_ok_def attachment_ok_def insert_message_def)
qed

lemma add_event_ok: "support_ok now db \<Longrightarrow> t \<in> set (sd_tickets db) \<Longrightarrow> support_ok now (add_event t now facts db)"
  unfolding add_event_def by (rule insert_message_ok) auto

lemma attach_one_ok:
  assumes "support_ok now db" and "m \<in> set (sd_messages db)"
  shows "support_ok now (attach_one m db img) \<and> sd_messages (attach_one m db img) = sd_messages db"
proof -
  have "sd_next_attachment db \<notin> at_id ` set (sd_attachments db)"
    using assms(1) by (fastforce simp: support_ok_def tables_ok_def list_all_iff attachment_ok_def)
  with assms show ?thesis
    by (fastforce simp: support_ok_def tables_ok_def list_all_iff message_ok_def attachment_ok_def attach_one_def
        attachment_row_def opening_ok_def first_message_def)
qed

lemma attach_ok: "support_ok now db \<Longrightarrow> m \<in> set (sd_messages db) \<Longrightarrow> support_ok now (attach m images db)"
  unfolding attach_def by (induction images arbitrary: db) (simp_all add: attach_one_ok)

lemma attach_frame [simp]:
  "sd_tickets (attach m images db) = sd_tickets db" "sd_messages (attach m images db) = sd_messages db"
  "sd_settings (attach m images db) = sd_settings db" "account_db.truncate (attach m images db) = account_db.truncate db"
  unfolding attach_def by (induction images arbitrary: db) (simp_all add: attach_one_def account_db.defs)

lemma insert_message_frame [simp]:
  "sd_tickets (insert_message m db) = sd_tickets db" "sd_messages (insert_message m db) = sd_messages db @ [m]"
  "sd_settings (insert_message m db) = sd_settings db"
  by (simp_all add: insert_message_def)

lemma add_message_ok:
  assumes "support_ok now db" and "t \<in> set (sd_tickets db)" and "kind \<noteq> Event"
  shows "support_ok now (add_message t kind body author author_name now images db)"
  unfolding add_message_def Let_def
  using assms by (intro attach_ok insert_message_ok) (simp_all add: message_row_def Let_def)

lemma add_message_tickets [simp]: "sd_tickets (add_message t kind body author author_name now images db) = sd_tickets db"
  by (simp add: add_message_def Let_def)

text \<open>A ticket is inserted with its opening message.\<close>

lemma insert_ticket_ok:
  assumes "support_ok now db" and "ticket_ok now t" and "tk_id t = sd_next_ticket db" and "tk_created_at t = now"
  shows "support_ok now (add_message t User_Message body author author_name now images (insert_ticket t db))"
proof -
  let ?m = "message_row (sd_next_message (insert_ticket t db)) t User_Message body author author_name now"
  have m: "mg_id ?m = sd_next_message db" "mg_ticket_id ?m = sd_next_ticket db" "mg_kind ?m = User_Message"
    "mg_event ?m = None" "mg_created_at ?m = now"
    using assms(3) by (simp_all add: message_row_def insert_ticket_def Let_def)
  have fresh: "sd_next_ticket db \<notin> tk_id ` set (sd_tickets db)" "sd_next_message db \<notin> mg_id ` set (sd_messages db)"
    using assms(1) by (fastforce simp: support_ok_def tables_ok_def list_all_iff message_ok_def)+
  have none: "fetch mg_ticket_id (sd_next_ticket db) (sd_messages db) = None"
    using assms(1) fresh(1) by (auto simp: fetch_None_iff support_ok_def tables_ok_def list_all_iff message_ok_def)
  have old: "opening_ok (insert_message ?m (insert_ticket t db)) x" if "opening_ok db x" for x
    using that by (auto simp: opening_ok_def first_message_def insert_ticket_def fetch_append split: option.splits)
  have new: "opening_ok (insert_message ?m (insert_ticket t db)) t"
    using none m assms(3,4) by (simp add: opening_ok_def first_message_def insert_ticket_def fetch_append)
  have "tables_ok now (insert_message ?m (insert_ticket t db))"
    using assms(1,2,3) m fresh
    by (fastforce simp: support_ok_def tables_ok_def list_all_iff message_ok_def attachment_ok_def insert_ticket_def
        insert_message_def)
  with assms(1) old new have "support_ok now (insert_message ?m (insert_ticket t db))"
    by (auto simp: support_ok_def list_all_iff insert_ticket_def)
  then show ?thesis unfolding add_message_def Let_def by (intro attach_ok) simp_all
qed

section \<open>Every operation keeps the invariant\<close>

lemma create_ticket_ok:
  assumes "support_ok now db" and "create_ticket env db user rq images settings now = Inr (db', t)"
  shows "support_ok now db' \<and> t \<in> set (sd_tickets db')"
proof -
  from assms(2) obtain title description where pre: "precheck_create db user rq settings now = Inr (title, description)"
    by (auto simp: create_ticket_def split: sum.splits)
  then have prio: "rq_priority rq \<in> set PRIORITIES"
    by (auto simp: precheck_create_def split: sum.splits if_splits)
  let ?t = "new_ticket env (sd_next_ticket db) user title rq now"
  have ok: "support_ok now (add_message ?t User_Message description (Some user) None now images (insert_ticket ?t db))"
    by (rule insert_ticket_ok [OF assms(1) new_ticket_ok [OF prio]]) (simp_all add: new_ticket_def)
  have mem: "?t \<in> set (sd_tickets (add_message ?t User_Message description (Some user) None now images (insert_ticket ?t db)))"
    by (simp add: insert_ticket_def)
  from assms(2) pre have "t = ?t" and "db' = (let db1 = add_message ?t User_Message description (Some user) None now images (insert_ticket ?t db)
       in if auto_reply_wanted settings
          then add_message ?t Auto_Reply (render_auto_reply (ts_auto_reply_text settings) ?t) None (Some AUTO_REPLY_AUTHOR) now [] db1
          else db1)"
    by (auto simp: create_ticket_def Let_def split: if_splits)
  then show ?thesis using ok mem add_message_ok [OF ok mem] by (simp add: Let_def)
qed

lemma add_event_put_ok:
  assumes "support_ok now db" and "t \<in> set (sd_tickets db)" and "ticket_ok now t'" and "same_origin t t'" and "tk_id e = tk_id t"
  shows "support_ok now (add_event e now facts (put_ticket t' db))"
proof -
  have "t' \<in> set (sd_tickets (put_ticket t' db))"
    using assms(2,4) by (auto simp: put_ticket_def set_modify same_origin_def)
  from add_event_ok [OF put_ticket_ok [OF assms(1-4)] this, of facts]
  have "support_ok now (add_event t' now facts (put_ticket t' db))" .
  moreover have "add_event e now facts = (add_event t' now facts :: 'a support_db_scheme \<Rightarrow> _)"
    using assms(4,5) by (intro ext) (simp add: add_event_def same_origin_def)
  ultimately show ?thesis by simp
qed

lemma add_user_message_ok:
  assumes "support_ok now db" and "t \<in> set (sd_tickets db)" and "add_user_message db t user body images settings now = Inr db'"
  shows "support_ok now db'"
proof -
  from assms(3) obtain text_body where "db' = put_ticket (answered now t)
      (let db1 = add_message t User_Message text_body (Some user) None now images db
       in if done_ticket t then add_event t now (by_facts ''reopened'' user) db1 else db1)"
    by (auto simp: add_user_message_def Let_def split: sum.splits if_splits)
  then show ?thesis
    using assms(1,2) add_message_ok [OF assms(1,2)] support_ok_ticket [OF assms(1,2)]
    by (auto simp: Let_def intro!: put_ticket_ok [of _ _ t] add_event_ok answered_ok)
qed

lemma user_resolve_ok:
  assumes "support_ok now db" and "t \<in> set (sd_tickets db)" and "user_resolve db t user now = Inr db'"
  shows "support_ok now db'"
  using assms support_ok_ticket [OF assms(1,2)]
  by (auto simp: user_resolve_def split: if_splits intro!: add_event_put_ok [of _ _ t] resolved_by_user_ok)

lemma change_status_ok:
  "support_ok now db \<Longrightarrow> t0 \<in> set (sd_tickets db) \<Longrightarrow> same_origin t0 t \<Longrightarrow> ticket_ok now t \<Longrightarrow> support_ok now (change_status t actor s now db)"
  by (auto simp: change_status_def same_origin_id
      intro!: add_event_put_ok [of _ _ t0] status_changed_ok same_origin_trans [of t0 t])

lemma put_ticket_origin: "t \<in> set (sd_tickets db) \<Longrightarrow> same_origin t t' \<Longrightarrow> t' \<in> set (sd_tickets (put_ticket t' db))"
  by (auto simp: put_ticket_def set_modify same_origin_def)

lemma change_status_mem:
  "t0 \<in> set (sd_tickets db) \<Longrightarrow> same_origin t0 t \<Longrightarrow> \<exists>x \<in> set (sd_tickets (change_status t actor s now db)). same_origin t0 x"
  using put_ticket_origin [of t0 db "status_changed s now t"] same_origin_trans [of t0 t "status_changed s now t"]
    same_origin_refl [of t0]
  by (cases "s = tk_status t") (auto simp: change_status_def intro: bexI [of _ t0])

lemma same_origin_sym: "same_origin a b \<Longrightarrow> same_origin b a"
  by (simp add: same_origin_def)

lemma add_staff_message_ok:
  assumes "support_ok now db" and "t \<in> set (sd_tickets db)"
    and "add_staff_message db t staff body internal images status now = Inr db'"
  shows "support_ok now db'"
proof -
  from assms(3) obtain text_body wanted where pre: "precheck_staff_message body status = Inr (text_body, wanted)"
    by (auto simp: add_staff_message_def split: sum.splits)
  let ?s = "staff_status t internal wanted"
  let ?db1 = "add_message t (if internal then Note else Staff_Message) text_body (Some staff) None now images db"
  let ?t1 = "if internal then t else replied now t"
  let ?t2 = "case ?s of None \<Rightarrow> ?t1 | Some s \<Rightarrow> status_changed s now ?t1"
  let ?db2 = "case ?s of None \<Rightarrow> ?db1 | Some s \<Rightarrow> change_status ?t1 staff s now ?db1"
  let ?t3 = "if internal then ?t2 else reply_finished now ?t2"
  from assms(3) pre have db': "db' = put_ticket ?t3 ?db2"
    unfolding add_staff_message_def by (auto simp: Let_def split: if_splits)
  have t: "ticket_ok now t" by (rule support_ok_ticket [OF assms(1,2)])
  have o1: "same_origin t ?t1" and k1: "ticket_ok now ?t1" using t by (auto intro: replied_ok)
  have o2: "same_origin t ?t2" and k2: "ticket_ok now ?t2"
    using o1 k1 by (auto split: option.split intro: status_changed_ok same_origin_trans)
  have last: "same_origin t (if internal then x else reply_finished now x) \<and> ticket_ok now (if internal then x else reply_finished now x)"
    if "same_origin t x" "ticket_ok now x" for x
    using that by (auto intro: reply_finished_ok same_origin_trans)
  have o3: "same_origin t ?t3" and k3: "ticket_ok now ?t3" using last [OF o2 k2] by (rule conjunct1, rule conjunct2)
  have s1: "support_ok now ?db1" using assms(1,2) by (intro add_message_ok) auto
  have m1: "t \<in> set (sd_tickets ?db1)" using assms(2) by simp
  have "\<exists>x \<in> set (sd_tickets ?db2). same_origin t x"
  proof (cases ?s)
    case None
    show ?thesis unfolding None option.case using m1 same_origin_refl by (rule bexI [rotated])
  next
    case (Some s)
    show ?thesis unfolding Some option.case using m1 o1 by (rule change_status_mem)
  qed
  then obtain x where x: "x \<in> set (sd_tickets ?db2)" "same_origin t x" by blast
  have s2: "support_ok now ?db2" using change_status_ok [OF s1 m1 o1 k1] s1 by (cases ?s) auto
  show ?thesis unfolding db'
    by (rule put_ticket_ok [OF s2 x(1) k3 same_origin_trans [OF same_origin_sym [OF x(2)] o3]])
qed

lemma staff_edits_ok:
  assumes "support_ok now db" and "t \<in> set (sd_tickets db)"
  shows "set_status db t actor status now = Inr db' \<Longrightarrow> support_ok now db'"
    and "set_priority db t actor priority now = Inr db' \<Longrightarrow> support_ok now db'"
    and "set_category env db t actor category settings now = Inr db' \<Longrightarrow> support_ok now db'"
    and "assign env db t actor assignee settings now = Inr (db', out) \<Longrightarrow> support_ok now db'"
proof -
  have t: "ticket_ok now t" by (rule support_ok_ticket [OF assms])
  have prio: "ticket_ok now (t\<lparr>tk_priority := p\<rparr>)" if "p \<in> set PRIORITIES" for p using t that by (auto simp: ticket_defs split: option.splits)
  have cat: "ticket_ok now (t\<lparr>tk_category := c\<rparr>)" for c using t by (auto simp: ticket_defs split: option.splits)
  have asg: "ticket_ok now (t\<lparr>tk_assignee_id := Some i, tk_assigned_at := Some now, tk_assigned_by_id := Some j\<rparr>)" for i j
    using t by (auto simp: ticket_defs split: option.splits)
  show "set_status db t actor status now = Inr db' \<Longrightarrow> support_ok now db'"
    using assms t by (auto simp: set_status_def split: sum.splits intro!: change_status_ok [of _ _ t])
  show "set_priority db t actor priority now = Inr db' \<Longrightarrow> support_ok now db'"
    using assms prio by (auto simp: set_priority_def same_origin_def split: if_splits intro!: add_event_put_ok [of _ _ t])
  show "set_category env db t actor category settings now = Inr db' \<Longrightarrow> support_ok now db'"
    using assms cat by (auto simp: set_category_def same_origin_def split: if_splits intro!: add_event_put_ok [of _ _ t])
  show "assign env db t actor assignee settings now = Inr (db', out) \<Longrightarrow> support_ok now db'"
    using assms asg unassigned_ok [OF t]
    by (auto simp: assign_def same_origin_def unassigned_def Let_def split: option.splits if_splits intro!: add_event_put_ok [of _ _ t])
qed

lemma release_ticket_ok: "support_ok now db \<Longrightarrow> t \<in> set (sd_tickets db) \<Longrightarrow> support_ok now (release_ticket name aid now db t)"
  unfolding release_ticket_def by (rule add_event_put_ok [of _ _ t]) (simp_all add: support_ok_ticket unassigned_ok)

lemma fold_fst_inv: "(\<And>acc x. P (fst acc) \<Longrightarrow> P (fst (f acc x))) \<Longrightarrow> P (fst acc) \<Longrightarrow> P (fst (foldl f acc xs))"
  by (induction xs arbitrary: acc) simp_all

text \<open>A change applied to a list of rows of the table, one after the other.\<close>

lemma put_ticket_other: "x \<in> set (sd_tickets db) \<Longrightarrow> tk_id x \<noteq> tk_id t \<Longrightarrow> x \<in> set (sd_tickets (put_ticket t db))"
  by (force simp: put_ticket_def set_modify)

lemma fold_rows_ok:
  assumes "\<And>db t. support_ok now db \<Longrightarrow> t \<in> set (sd_tickets db) \<Longrightarrow> p t \<Longrightarrow> support_ok now (f db t)"
    and "\<And>db t x. p t \<Longrightarrow> x \<in> set (sd_tickets db) \<Longrightarrow> tk_id x \<noteq> tk_id t \<Longrightarrow> x \<in> set (sd_tickets (f db t))"
    and "support_ok now db" and "set ts \<subseteq> set (sd_tickets db)" and "distinct (map tk_id ts)" and "list_all p ts"
  shows "support_ok now (foldl f db ts)"
  using assms(3-)
proof (induction ts arbitrary: db)
  case (Cons t ts)
  have "set ts \<subseteq> set (sd_tickets (f db t))"
  proof
    fix x assume "x \<in> set ts"
    moreover have "tk_id t \<notin> tk_id ` set ts" using Cons.prems(3) by simp
    ultimately have "x \<in> set (sd_tickets db)" "tk_id x \<noteq> tk_id t" using Cons.prems(2) by (auto, metis imageI)
    with Cons.prems(4) show "x \<in> set (sd_tickets (f db t))" by (auto intro: assms(2))
  qed
  with Cons show ?case by (auto intro!: Cons.IH assms(1))
qed simp

lemma rows_distinct: "support_ok now db \<Longrightarrow> distinct (map tk_id (filter p (sd_tickets db)))"
  by (auto simp: support_ok_def tables_ok_def intro: distinct_map_filter)

lemma release_assignee_ok: "support_ok now (fst acc) \<Longrightarrow> support_ok now (fst (release_assignee now acc aid))"
proof -
  assume ok: "support_ok now (fst acc)"
  obtain db n where acc: "acc = (db, n)" by (rule prod.exhaust)
  have "support_ok now (foldl (release_ticket name aid now) db (filter p (sd_tickets db)))" for name p
    using ok unfolding acc fst_conv
    by (intro fold_rows_ok [where p = "\<lambda>_. True"])
      (auto simp: list_all_iff release_ticket_ok rows_distinct intro!: put_ticket_other,
        auto simp: release_ticket_def unassigned_def intro!: put_ticket_other)
  with ok show ?thesis by (simp add: acc release_assignee_def Let_def)
qed

lemma release_ok: "support_ok now db \<Longrightarrow> support_ok now (fst (release_orphaned_assignments db now))"
  unfolding release_orphaned_assignments_def
  by (rule fold_fst_inv [where P = "support_ok now"]) (simp_all add: release_assignee_ok)

text \<open>The close jobs.\<close>

lemma locked_batch_rows:
  assumes "support_ok now db"
  shows "set (locked_batch due busy after_id db) \<subseteq> set (sd_tickets db)" "distinct (map tk_id (locked_batch due busy after_id db))"
    "list_all due (locked_batch due busy after_id db)"
proof -
  show "set (locked_batch due busy after_id db) \<subseteq> set (sd_tickets db)" using locked_batch_after by blast
  have "distinct (map tk_id (sort_key tk_id (filter (\<lambda>t. after_id < tk_id t \<and> due t \<and> \<not> busy (tk_id t)) (sd_tickets db))))"
    using rows_distinct [OF assms] by (simp add: distinct_map)
  then show "distinct (map tk_id (locked_batch due busy after_id db))"
    unfolding locked_batch_def take_map [symmetric] by (rule distinct_take)
  show "list_all due (locked_batch due busy after_id db)"
    by (auto simp: locked_batch_def list_all_iff dest: in_set_takeD)
qed

lemma close_batches_ok:
  assumes "\<And>t. ticket_ok now t \<Longrightarrow> due t \<Longrightarrow> ticket_ok now (change t)" and "\<And>t. same_origin t (change t)"
    and "support_ok now db"
  shows "support_ok now (fst (close_batches due busy change facts now after_id db out))"
  using assms
proof (induction due busy change facts now after_id db out rule: close_batches.induct)
  case (1 due busy change facts now after_id db out)
  let ?batch = "locked_batch due busy after_id db"
  have "support_ok now (foldl (close_one change facts now) db ?batch)"
    using 1(2-4) locked_batch_rows [OF 1(4), of due busy after_id]
    by (intro fold_rows_ok [where p = due])
      (auto simp: close_one_def same_origin_id intro!: add_event_put_ok put_ticket_other dest: support_ok_ticket)
  with 1 show ?case by (subst close_batches.simps) (simp add: Let_def)
qed

lemma close_jobs_ok:
  assumes "support_ok now db"
  shows "support_ok now (fst (close_waiting_tickets env db busy now))" "support_ok now (fst (close_resolved_tickets env db busy now))"
proof -
  show "support_ok now (fst (close_waiting_tickets env db busy now))"
    unfolding close_waiting_tickets_def Let_def
    using assms by (auto intro!: close_batches_ok simp: auto_closed_ok)
  show "support_ok now (fst (close_resolved_tickets env db busy now))"
    unfolding close_resolved_tickets_def Let_def
    using assms by (auto intro!: close_batches_ok simp: closed_after_window_ok)
qed

lemma restart_ok: "support_ok now db \<Longrightarrow> support_ok now (fst (restart_waiting_clocks db now))"
proof -
  assume ok: "support_ok now db"
  have o: "same_origin t (restart_clock now t)" for t by simp
  then have ids: "map tk_id (map (restart_clock now) (sd_tickets db)) = map tk_id (sd_tickets db)"
    by (simp add: same_origin_def)
  then have set_ids: "tk_id ` restart_clock now ` set (sd_tickets db) = tk_id ` set (sd_tickets db)"
    by (metis list.set_map)
  have op: "opening_ok db (restart_clock now t) = opening_ok db t" for t
    using o [of t] by (auto simp: opening_ok_def same_origin_def split: option.split)
  have "opening_ok (fst (restart_waiting_clocks db now)) t = opening_ok db t" for t
    by (simp add: opening_ok_def first_message_def restart_waiting_clocks_def)
  then show ?thesis
    using ok o ids set_ids op
    by (simp add: support_ok_def tables_ok_def list_all_iff message_ok_def attachment_ok_def restart_waiting_clocks_def
        restart_clock_ok same_origin_def comp_def)
qed

text \<open>Deletion takes a ticket with all its messages and images.\<close>

lemma fetch_filter_other: "(\<And>m. key m = i \<Longrightarrow> p m) \<Longrightarrow> fetch key i (filter p rows) = fetch key i rows"
  by (induction rows) auto

lemma delete_chunk_ok:
  assumes "support_ok now db"
  shows "support_ok now (fst (delete_chunk conditions (db, totals) ids))"
proof -
  let ?gone = "\<lambda>t. tk_id t \<in> set ids \<and> meets conditions t"
  let ?db = "fst (delete_chunk conditions (db, totals) ids)"
  define chunk where "chunk = (case conditions of None \<Rightarrow> ids | Some p \<Rightarrow>
      map tk_id (sort_key tk_id (filter (\<lambda>t. tk_id t \<in> set ids \<and> p t) (sd_tickets db))))"
  show ?thesis
  proof (cases "conditions \<noteq> None \<and> chunk = []")
    case True
    then show ?thesis using assms unfolding delete_chunk_def Let_def prod.case chunk_def [symmetric] by simp
  next
    case False
    from assms have dist: "distinct (map tk_id (sd_tickets db))" by (simp add: support_ok_def tables_ok_def)
    have gone: "?gone t \<longleftrightarrow> tk_id t \<in> set chunk" if "t \<in> set (sd_tickets db)" for t
    proof (cases conditions)
      case (Some p)
      have "set chunk = tk_id ` {t \<in> set (sd_tickets db). tk_id t \<in> set ids \<and> p t}" by (simp add: chunk_def Some)
      with dist that show ?thesis by (auto simp: Some meets_def distinct_map inj_on_def)
    qed (simp add: chunk_def meets_def)
    have tickets: "sd_tickets ?db = filter (\<lambda>t. tk_id t \<notin> set chunk) (sd_tickets db)"
      unfolding delete_chunk_tickets using gone by (intro filter_cong refl) simp
    have rest: "sd_messages ?db = filter (\<lambda>m. mg_ticket_id m \<notin> set chunk) (sd_messages db)"
      "sd_attachments ?db = filter (\<lambda>a. at_ticket_id a \<notin> set chunk) (sd_attachments db)"
      "sd_next_ticket ?db = sd_next_ticket db" "sd_next_message ?db = sd_next_message db"
      "sd_next_attachment ?db = sd_next_attachment db"
      using False unfolding delete_chunk_def Let_def prod.case chunk_def [symmetric] by (simp_all add: if_not_P)
    have "opening_ok ?db t" if "t \<in> set (sd_tickets ?db)" for t
      using assms that by (auto simp: support_ok_def list_all_iff opening_ok_def first_message_def rest tickets fetch_filter_other)
    moreover have "message_ok now ?db m" if "m \<in> set (sd_messages ?db)" for m
    proof -
      from that assms obtain t where "t \<in> set (sd_tickets db)" "tk_id t = mg_ticket_id m" and m: "message_ok now db m" "mg_ticket_id m \<notin> set chunk"
        by (auto simp: support_ok_def tables_ok_def list_all_iff message_ok_def rest)
      then have "t \<in> set (sd_tickets ?db)" by (simp add: tickets)
      then have "mg_ticket_id m \<in> tk_id ` set (sd_tickets ?db)" using \<open>tk_id t = mg_ticket_id m\<close> by (metis imageI)
      with m show ?thesis by (simp add: message_ok_def rest del: image_iff)
    qed
    moreover have "attachment_ok ?db a" if "a \<in> set (sd_attachments ?db)" for a
    proof -
      from that assms obtain m where "m \<in> set (sd_messages db)" "mg_id m = at_message_id a" "mg_ticket_id m = at_ticket_id a"
        and a: "attachment_ok db a" "at_ticket_id a \<notin> set chunk"
        by (auto simp: support_ok_def tables_ok_def list_all_iff attachment_ok_def rest)
      then have "m \<in> set (sd_messages ?db)" by (simp add: rest)
      with a \<open>mg_id m = at_message_id a\<close> \<open>mg_ticket_id m = at_ticket_id a\<close> show ?thesis by (auto simp: attachment_ok_def rest image_iff)
    qed
    moreover have "distinct (map tk_id (sd_tickets ?db))" "distinct (map mg_id (sd_messages ?db))" "distinct (map at_id (sd_attachments ?db))"
      using assms unfolding tickets rest by (auto simp: support_ok_def tables_ok_def intro: distinct_map_filter)
    moreover have "list_all (\<lambda>t. ticket_ok now t \<and> 1 \<le> tk_id t \<and> tk_id t < sd_next_ticket ?db) (sd_tickets ?db)" "1 \<le> sd_next_ticket ?db"
      using assms by (auto simp: support_ok_def tables_ok_def list_all_iff tickets rest)
    ultimately have "tables_ok now ?db" by (simp add: tables_ok_def list_all_iff)
    with \<open>\<And>t. t \<in> set (sd_tickets ?db) \<Longrightarrow> opening_ok ?db t\<close> show ?thesis by (simp add: support_ok_def list_all_iff)
  qed
qed

lemma delete_tickets_ok: "support_ok now db \<Longrightarrow> support_ok now (fst (delete_tickets db ids conditions))"
  unfolding delete_tickets_def
  by (rule fold_fst_inv [where P = "support_ok now"]) (metis prod.collapse delete_chunk_ok, simp)

lemma purge_loop_ok: "support_ok now db \<Longrightarrow> support_ok now (fst (purge_loop cutoff db totals))"
proof (induction cutoff db totals rule: purge_loop.induct)
  case (1 cutoff db totals)
  show ?case
  proof (cases "due_ids cutoff db = []")
    case False
    obtain db1 counts where step: "delete_tickets db (due_ids cutoff db) (Some (closed_due cutoff)) = (db1, counts)" by (rule prod.exhaust)
    have "support_ok now db1" using delete_tickets_ok [OF 1(2), of "due_ids cutoff db"] step by (metis fst_conv)
    then have "support_ok now (fst (purge_loop cutoff db1 (add_totals totals counts)))"
      using 1(1) [OF refl False step [symmetric] refl] by blast
    with False show ?thesis by (subst purge_loop.simps) (simp add: step Let_def)
  qed (use 1 in \<open>simp add: purge_loop.simps\<close>)
qed

lemma purge_closed_ok: "support_ok now db \<Longrightarrow> support_ok now (fst (purge_closed_tickets env db now))"
  by (simp add: purge_closed_tickets_def Let_def purge_loop_ok)

end
