(* ===== verification/Ticket_Views.thy ===== *)
theory Ticket_Views
  imports Support_Tickets
begin

text \<open>
  What is read of support tickets: the thread and the details as the person and as staff see them
  (\<open>services/support_tickets.py\<close>), and the filters, order and pages of the staff queue
  (\<open>api/admin_tickets.py\<close>) and of the person's list (\<open>api/support_tickets.py\<close>). An answer is the JSON object that is
  sent. The text of a time and the day a text stands for are arguments. \<open>LIKE\<close> with an escaped needle between
  two percent signs is containment.
\<close>

record desk_env = ticket_env +
  dk_iso :: "time \<Rightarrow> string"
  dk_parse_day :: "string \<Rightarrow> time option"
  dk_loads :: "string \<Rightarrow> json option"
  dk_version :: string

datatype audience = For_User | For_Staff

section \<open>Labels and event lines\<close>

definition iso_utc :: "'e desk_env_scheme \<Rightarrow> time option \<Rightarrow> json" where
  "iso_utc env v = (case v of None \<Rightarrow> JNull | Some x \<Rightarrow> JString (dk_iso env x @ ''Z''))"

definition STATUS_LABELS :: "(string \<times> string) list" where
  "STATUS_LABELS =
     [(''open'', ''Open''), (''in_progress'', ''In progress''), (''waiting'', ''Waiting for user''), (''resolved'', ''Resolved''),
      (''closed'', ''Closed'')]"

definition status_label :: "string \<Rightarrow> audience \<Rightarrow> string" where
  "status_label status audience =
     (if status = ''waiting'' \<and> audience = For_User then ''Waiting for you''
      else case map_of STATUS_LABELS status of Some l \<Rightarrow> l | None \<Rightarrow> status)"

definition days_text :: "json \<Rightarrow> string" where
  "days_text n =
     (case py_int n of
        Inl _ \<Rightarrow> ''some days''
      | Inr i \<Rightarrow> if i = 1 then ''1 day'' else show_int i @ '' days'')"

definition email_note :: "string \<Rightarrow> string" where
  "email_note state =
     (if state = ''pending'' then CHR '' '' # CHR 0xB7 # '' email queued''
      else if state = ''sent'' then CHR '' '' # CHR 0xB7 # '' email sent''
      else if state = ''failed'' then CHR '' '' # CHR 0xB7 # '' email not sent'' else [])"

text \<open>\<open>facts.get(key) or other\<close>, as a text.\<close>

definition fact_or :: "'e desk_env_scheme \<Rightarrow> payload \<Rightarrow> string \<Rightarrow> string \<Rightarrow> string" where
  "fact_or env facts key d = json_str (tn_repr env) (json_or (dict_get facts key) (JString d))"

definition staff_event_text :: "'e desk_env_scheme \<Rightarrow> string \<Rightarrow> payload \<Rightarrow> string option" where
  "staff_event_text env kind facts =
     (let by_name = fact_or env facts ''by'' ''Someone''; str = json_str (tn_repr env)
      in if kind = ''assigned'' then
           (if dict_get facts ''by_id'' \<noteq> JNull \<and> dict_get facts ''by_id'' = dict_get facts ''to_id''
            then Some (fact_or env facts ''to'' by_name @ '' took the ticket'')
            else Some (by_name @ '' assigned this to '' @ fact_or env facts ''to'' ''someone'' @ email_note (str (dict_get facts ''email''))))
         else if kind = ''unassigned'' then Some (''Unassigned by '' @ by_name)
         else if kind = ''assignee_removed''
         then Some (''Unassigned: '' @ fact_or env facts ''from'' ''the assignee'' @ '' can no longer work tickets'')
         else if kind = ''priority'' then Some (''Priority changed to '' @ priority_label (str (dict_get facts ''to'')))
         else if kind = ''category'' then Some (''Category changed to '' @ str (dict_get facts ''to''))
         else None)"

definition event_text :: "'e desk_env_scheme \<Rightarrow> payload \<Rightarrow> audience \<Rightarrow> string option" where
  "event_text env facts audience =
     (let kind = fact_or env facts ''type'' []; by_name = fact_or env facts ''by'' ''Someone''; str = json_str (tn_repr env)
      in if kind = ''status'' then Some (''Status changed to '' @ status_label (str (dict_get facts ''to'')) audience)
         else if kind = ''auto_closed'' then Some (''Closed automatically: no reply in '' @ days_text (dict_get facts ''days''))
         else if kind = ''closed_resolved'' then Some (''Closed: resolved '' @ days_text (dict_get facts ''days'') @ '' ago'')
         else if kind = ''reopened'' then Some (''Reopened by '' @ by_name)
         else if kind = ''resolved'' then Some (by_name @ '' marked it resolved'')
         else if audience = For_User then
           (if kind = ''assigned'' then Some (fact_or env facts ''to'' ''Support'' @ '' is handling your ticket'') else None)
         else staff_event_text env kind facts)"

section \<open>Counts and names\<close>

definition hidden_kinds :: "audience \<Rightarrow> message_kind list" where
  "hidden_kinds audience = (if audience = For_User then [Event, Note] else [Event])"

definition message_counts :: "'x support_db_scheme \<Rightarrow> audience \<Rightarrow> int \<Rightarrow> int \<times> int" where
  "message_counts db audience i =
     (int (length (filter (\<lambda>m. mg_ticket_id m = i \<and> mg_kind m \<notin> set (hidden_kinds audience)) (sd_messages db))),
      int (length (filter (\<lambda>a. at_ticket_id a = i \<and>
             (case fetch mg_id (at_message_id a) (sd_messages db) of
                None \<Rightarrow> False | Some m \<Rightarrow> mg_kind m \<notin> set (hidden_kinds audience))) (sd_attachments db))))"

definition assignee_names :: "'x support_db_scheme \<Rightarrow> ticket list \<Rightarrow> int \<Rightarrow> string option" where
  "assignee_names db ts i =
     (if i \<in> set (List.map_filter tk_assignee_id ts) then map_option display_name (fetch a_id i (ad_users db)) else None)"

definition assignee_ref :: "ticket \<Rightarrow> (int \<Rightarrow> string option) \<Rightarrow> json" where
  "assignee_ref t names =
     (case tk_assignee_id t of
        None \<Rightarrow> JNull
      | Some i \<Rightarrow> JObject [(''id'', JInt i), (''name'', JString (case names i of None \<Rightarrow> ''Someone'' | Some n \<Rightarrow> n))])"

definition json_opt :: "string option \<Rightarrow> json" where
  "json_opt v = json_of_option JString v"

definition ticket_summary ::
  "'e desk_env_scheme \<Rightarrow> ticket \<Rightarrow> audience \<Rightarrow> int \<times> int \<Rightarrow> ticket_settings \<Rightarrow> (int \<Rightarrow> string option) \<Rightarrow> payload" where
  "ticket_summary env t audience counts settings names =
     [(''id'', JInt (tk_id t)), (''number'', JInt (tk_number t)), (''title'', JString (tk_title t)),
      (''category'', JString (tk_category t)), (''priority'', JString (tk_priority t)),
      (''status'', JString (status_name (tk_status t))), (''created_at'', iso_utc env (Some (tk_created_at t))),
      (''updated_at'', iso_utc env (Some (tk_updated_at t))), (''message_count'', JInt (fst counts)),
      (''image_count'', JInt (snd counts))] @
     (case audience of
        For_User \<Rightarrow> [(''user_unread'', JBool (tk_user_unread t)), (''reopen_until'', iso_utc env (reopen_until t settings))]
      | For_Staff \<Rightarrow>
          [(''needs_staff'', JBool (tk_needs_staff t)),
           (''reporter'', JObject [(''name'', JString (tk_reporter_name t)), (''username'', JString (tk_reporter_username t)),
                                   (''department'', json_opt (tk_reporter_department t))]),
           (''assignee'', assignee_ref t names)])"

section \<open>The thread\<close>

definition author_label :: "message_kind \<Rightarrow> audience \<Rightarrow> bool \<Rightarrow> string" where
  "author_label kind audience is_admin =
     (case kind of
        User_Message \<Rightarrow> if audience = For_User then ''You'' else ''Reporter''
      | Staff_Message \<Rightarrow> if is_admin then ''Administrator'' else ''Support''
      | Note \<Rightarrow> if is_admin then ''Administrator'' else ''Support''
      | Auto_Reply \<Rightarrow> ''Automatic reply''
      | Event \<Rightarrow> [])"

fun kind_name :: "message_kind \<Rightarrow> string" where
  "kind_name User_Message = ''user''"
| "kind_name Staff_Message = ''staff''"
| "kind_name Note = ''note''"
| "kind_name Auto_Reply = ''auto''"
| "kind_name Event = ''event''"

definition attachment_dict :: "ticket_attachment \<Rightarrow> json" where
  "attachment_dict a =
     JObject [(''id'', JInt (at_id a)), (''url'', JString (''/api/support/attachments/'' @ show_int (at_id a))),
       (''mime'', JString (at_mime a)), (''bytes'', JInt (at_bytes a)), (''width'', JInt (at_width a)),
       (''height'', JInt (at_height a)), (''display_name'', JString (at_display_name a))]"

definition thread_messages :: "'x support_db_scheme \<Rightarrow> ticket \<Rightarrow> audience \<Rightarrow> ticket_message list" where
  "thread_messages db t audience =
     sort_key mg_created_at (sort_key mg_id
       (filter (\<lambda>m. mg_ticket_id m = tk_id t \<and> \<not> (audience = For_User \<and> mg_kind m = Note)) (sd_messages db)))"

definition attachments_of :: "'x support_db_scheme \<Rightarrow> ticket \<Rightarrow> int \<Rightarrow> json list" where
  "attachments_of db t i =
     map attachment_dict (filter (\<lambda>a. at_message_id a = i) (sort_key at_id (filter (\<lambda>a. at_ticket_id a = tk_id t) (sd_attachments db))))"

definition message_author :: "ticket_message \<Rightarrow> json" where
  "message_author m =
     (case mg_kind m of
        Event \<Rightarrow> JNull
      | Auto_Reply \<Rightarrow>
          JObject [(''id'', JNull), (''name'', JString (if truthy (mg_author_name m) then the (mg_author_name m) else AUTO_REPLY_AUTHOR))]
      | _ \<Rightarrow>
          JObject [(''id'', json_of_option JInt (mg_author_id m)),
                   (''name'', JString (if truthy (mg_author_name m) then the (mg_author_name m) else ''Someone''))])"

definition message_text :: "'e desk_env_scheme \<Rightarrow> ticket_message \<Rightarrow> audience \<Rightarrow> string option" where
  "message_text env m audience =
     (if mg_kind m = Event then event_text env (case mg_event m of None \<Rightarrow> [] | Some facts \<Rightarrow> facts) audience
      else Some (mg_body m))"

definition thread_entry ::
  "'e desk_env_scheme \<Rightarrow> 'x support_db_scheme \<Rightarrow> ticket \<Rightarrow> audience \<Rightarrow> (int \<Rightarrow> string list option) \<Rightarrow> ticket_message \<Rightarrow> payload option" where
  "thread_entry env db t audience roles m =
     (case message_text env m audience of
        None \<Rightarrow> None
      | Some body \<Rightarrow>
          (let is_admin = (case mg_author_id m of None \<Rightarrow> False
                           | Some i \<Rightarrow> user_has_super_admin_access (case roles i of None \<Rightarrow> [] | Some ss \<Rightarrow> ss))
           in Some [(''id'', JInt (mg_id m)), (''kind'', JString (kind_name (mg_kind m))), (''author'', message_author m),
                (''author_label'', JString (author_label (mg_kind m) audience is_admin)), (''body'', JString body),
                (''created_at'', iso_utc env (Some (mg_created_at m))),
                (''internal'', JBool (audience = For_Staff \<and> mg_kind m = Note)),
                (''attachments'', JList (attachments_of db t (mg_id m)))]))"

definition thread :: "'e desk_env_scheme \<Rightarrow> 'x support_db_scheme \<Rightarrow> ticket \<Rightarrow> audience \<Rightarrow> payload list" where
  "thread env db t audience =
     (let messages = thread_messages db t audience;
          staff_ids = List.map_filter mg_author_id (filter (\<lambda>m. mg_kind m = Staff_Message \<or> mg_kind m = Note) messages);
          roles = get_roles_map db (sort (remdups staff_ids))
      in List.map_filter (thread_entry env db t audience roles) messages)"

section \<open>One ticket\<close>

definition auto_close_at :: "ticket \<Rightarrow> ticket_settings \<Rightarrow> time option" where
  "auto_close_at t settings =
     (if tk_status t = Waiting then map_option (\<lambda>w. w + days (ts_auto_close_days settings)) (tk_waiting_since t) else None)"

definition reopenable :: "ticket \<Rightarrow> ticket_settings \<Rightarrow> time \<Rightarrow> bool" where
  "reopenable t settings now = (case reopen_until t settings of None \<Rightarrow> False | Some u \<Rightarrow> now \<le> u)"

definition common_detail ::
  "'e desk_env_scheme \<Rightarrow> 'x support_db_scheme \<Rightarrow> ticket \<Rightarrow> audience \<Rightarrow> ticket_settings \<Rightarrow> payload" where
  "common_detail env db t audience settings =
     (let names = assignee_names db [t]
      in dict_update (ticket_summary env t audience (message_counts db audience (tk_id t)) settings names)
           [(''user_unread'', JBool (tk_user_unread t)), (''reopen_until'', iso_utc env (reopen_until t settings)),
            (''reporter'', JObject [(''name'', JString (tk_reporter_name t)), (''username'', JString (tk_reporter_username t)),
               (''email'', json_opt (tk_reporter_email t)), (''department'', json_opt (tk_reporter_department t))]),
            (''assignee'', assignee_ref t names), (''messages'', JList (map JObject (thread env db t audience))),
            (''auto_close_at'', iso_utc env (auto_close_at t settings))])"

definition user_permissions :: "ticket \<Rightarrow> account \<Rightarrow> ticket_settings \<Rightarrow> time \<Rightarrow> payload" where
  "user_permissions t viewer settings now =
     [(''can_reply'', JBool (a_is_active viewer \<and> (active_ticket t \<or> reopenable t settings now))),
      (''can_resolve'', JBool (a_is_active viewer \<and> active_ticket t))]"

fun reason_name :: "closed_reason \<Rightarrow> string" where
  "reason_name Closed_Manual = ''manual''"
| "reason_name Closed_Auto = ''auto''"
| "reason_name Closed_Resolved = ''resolved''"

fun resolver_name :: "resolved_by \<Rightarrow> string" where
  "resolver_name By_Staff = ''staff''"
| "resolver_name By_User = ''user''"

definition staff_detail ::
  "'e desk_env_scheme \<Rightarrow> 'x support_db_scheme \<Rightarrow> ticket \<Rightarrow> account \<Rightarrow> payload" where
  "staff_detail env db t viewer =
     (let slugs = get_user_role_slugs db (a_id viewer);
          can_write = usable viewer \<and> user_can_work_tickets slugs
      in [(''context'', case tk_context t of None \<Rightarrow> JNull | Some d \<Rightarrow> json_or (JObject d) JNull),
          (''first_staff_reply_at'', iso_utc env (tk_first_staff_reply_at t)), (''resolved_at'', iso_utc env (tk_resolved_at t)),
          (''closed_at'', iso_utc env (tk_closed_at t)),
          (''closed_reason'', json_of_option (JString \<circ> reason_name) (tk_closed_reason t)),
          (''resolved_by'', json_of_option (JString \<circ> resolver_name) (tk_resolved_by t)),
          (''reopened_count'', JInt (tk_reopened_count t)), (''can_write'', JBool can_write),
          (''can_delete'', JBool (usable viewer \<and> user_has_super_admin_access slugs)), (''can_reply'', JBool can_write),
          (''can_resolve'', JBool (can_write \<and> active_ticket t))])"

definition ticket_detail ::
  "'e desk_env_scheme \<Rightarrow> 'x support_db_scheme \<Rightarrow> ticket \<Rightarrow> audience \<Rightarrow> account \<Rightarrow> time \<Rightarrow> payload" where
  "ticket_detail env db t audience viewer now =
     (let settings = load_settings env (sd_settings db)
      in dict_update (common_detail env db t audience settings)
           (case audience of
              For_User \<Rightarrow> user_permissions t viewer settings now
            | For_Staff \<Rightarrow> staff_detail env db t viewer))"

section \<open>Counters\<close>

definition user_unread_count :: "'x support_db_scheme \<Rightarrow> int \<Rightarrow> int" where
  "user_unread_count db uid = count_tickets (\<lambda>t. tk_user_id t = uid \<and> tk_user_unread t) db"

definition staff_counts :: "'x support_db_scheme \<Rightarrow> int \<Rightarrow> (string \<times> int) list" where
  "staff_counts db viewer_id =
     [(''needs_staff'', count_tickets (\<lambda>t. active_ticket t \<and> tk_needs_staff t) db),
      (''needs_staff_urgent'', count_tickets (\<lambda>t. active_ticket t \<and> tk_needs_staff t \<and> tk_priority t = ''urgent'') db),
      (''mine'', count_tickets (\<lambda>t. active_ticket t \<and> tk_assignee_id t = Some viewer_id) db),
      (''unassigned'', count_tickets (\<lambda>t. active_ticket t \<and> tk_assignee_id t = None) db),
      (''active'', count_tickets active_ticket db), (''closed'', count_tickets done_ticket db)]"

section \<open>Filters\<close>

definition parse_id :: "string \<Rightarrow> int option" where
  "parse_id value =
     (let t = strip value
      in if t = [] \<or> \<not> list_all is_digit t \<or> 10 < length t then None
         else let n = digits_value t in if 1 \<le> n \<and> n \<le> MAX_ID then Some n else None)"

fun contains :: "string \<Rightarrow> string \<Rightarrow> bool" where
  "contains p [] \<longleftrightarrow> p = []"
| "contains p (c # s) \<longleftrightarrow> starts_with p (c # s) \<or> contains p s"

definition contains_ci :: "string \<Rightarrow> string \<Rightarrow> bool" where
  "contains_ci needle s \<longleftrightarrow> contains (lower needle) (lower s)"

text \<open>A ticket number: an optional \<open>#\<close>, white space, and one to nine digits.\<close>

definition quoted_number :: "string \<Rightarrow> int option" where
  "quoted_number s =
     (let digits = lstrip (case s of [] \<Rightarrow> [] | c # r \<Rightarrow> if c = CHR ''#'' then r else s)
      in if digits \<noteq> [] \<and> length digits \<le> 9 \<and> list_all is_digit digits then Some (digits_value digits) else None)"

definition SEARCH_MAX :: int where "SEARCH_MAX = 200"

definition search_needle :: "string \<Rightarrow> string" where
  "search_needle q = clip SEARCH_MAX (split_join q)"

definition in_messages :: "'x support_db_scheme \<Rightarrow> (message_kind \<Rightarrow> bool) \<Rightarrow> string \<Rightarrow> ticket \<Rightarrow> bool" where
  "in_messages db p needle t \<longleftrightarrow>
     list_ex (\<lambda>m. mg_ticket_id m = tk_id t \<and> p (mg_kind m) \<and> contains_ci needle (mg_body m)) (sd_messages db)"

definition user_search :: "'x support_db_scheme \<Rightarrow> string \<Rightarrow> ticket \<Rightarrow> bool" where
  "user_search db q t \<longleftrightarrow>
     (let needle = search_needle q
      in needle = [] \<or> contains_ci needle (tk_title t) \<or> in_messages db (\<lambda>k. k = User_Message) needle t \<or>
         quoted_number needle = Some (tk_number t))"

definition staff_search :: "'x support_db_scheme \<Rightarrow> string \<Rightarrow> ticket \<Rightarrow> bool" where
  "staff_search db q t \<longleftrightarrow>
     (let needle = search_needle q
      in needle = [] \<or> contains_ci needle (tk_title t) \<or> contains_ci needle (tk_reporter_name t) \<or>
         contains_ci needle (tk_reporter_username t) \<or> in_messages db (\<lambda>k. k \<noteq> Event) needle t \<or>
         quoted_number needle = Some (tk_number t))"

definition bad_filter :: "string \<Rightarrow> ticket_error" where
  "bad_filter message = TicketError ''invalid_filter'' message 422"

definition one_of :: "string \<Rightarrow> string list \<Rightarrow> string \<Rightarrow> (string option) ticket_result" where
  "one_of value allowed name =
     (let v = strip value
      in if v = [] then Inr None
         else if v \<notin> set allowed
         then Inl (bad_filter (name @ '' must be one of '' @ concat (map (\<lambda>a. a @ '', '') (butlast allowed)) @ last allowed @ ''.''))
         else Inr (Some v))"

definition assignee_condition :: "string \<Rightarrow> (ticket \<Rightarrow> bool) ticket_result" where
  "assignee_condition raw =
     (let v = strip raw
      in if v = [] then Inr (\<lambda>t. True)
         else if v = ''none'' then Inr (\<lambda>t. tk_assignee_id t = None)
         else (case parse_id v of
                 None \<Rightarrow> Inl (bad_filter ''assignee must be a user id or none.'')
               | Some i \<Rightarrow> Inr (\<lambda>t. tk_assignee_id t = Some i)))"

text \<open>\<open>YYYY-MM-DD\<close>, and a day that exists.\<close>

definition day_shape :: "string \<Rightarrow> bool" where
  "day_shape s \<longleftrightarrow>
     length s = 10 \<and> list_all (\<lambda>(i, c). if i = 4 \<or> i = 7 then c = CHR ''-'' else is_digit c) (enumerate 0 s)"

definition before_condition :: "'e desk_env_scheme \<Rightarrow> string \<Rightarrow> (ticket \<Rightarrow> bool) ticket_result" where
  "before_condition env raw =
     (let v = strip raw
      in if v = [] then Inr (\<lambda>t. True)
         else (case if day_shape v then dk_parse_day env v else None of
                 None \<Rightarrow> Inl (bad_filter ''before must be a date as YYYY-MM-DD.'')
               | Some day \<Rightarrow> Inr (\<lambda>t. tk_updated_at t < day)))"

definition VIEWS :: "string list" where
  "VIEWS = [''needs_staff'', ''mine'', ''unassigned'', ''active'', ''closed'', ''all'']"

definition view_condition :: "string \<Rightarrow> int \<Rightarrow> ticket \<Rightarrow> bool" where
  "view_condition view viewer_id t \<longleftrightarrow>
     (if view = ''needs_staff'' then active_ticket t \<and> tk_needs_staff t
      else if view = ''mine'' then active_ticket t \<and> tk_assignee_id t = Some viewer_id
      else if view = ''unassigned'' then active_ticket t \<and> tk_assignee_id t = None
      else if view = ''active'' then active_ticket t
      else if view = ''closed'' then done_ticket t
      else True)"

fun statuses_of :: "string list \<Rightarrow> (ticket_status list) ticket_result" where
  "statuses_of [] = Inr []"
| "statuses_of (v # values) =
     (let status = strip v
      in if status = [] then statuses_of values
         else (case find (\<lambda>s. status_name s = status) STATUSES of
                 None \<Rightarrow> Inl (bad_filter ''status must be one of open, in_progress, waiting, resolved, closed.'')
               | Some s \<Rightarrow> map_sum id ((#) s) (statuses_of values)))"

text \<open>Without duplicates and in the order of \<open>STATUSES\<close>.\<close>

definition sorted_statuses :: "string list \<Rightarrow> (ticket_status list) ticket_result" where
  "sorted_statuses values = map_sum id (\<lambda>out. filter (\<lambda>s. s \<in> set out) STATUSES) (statuses_of values)"

fun split_commas :: "string \<Rightarrow> string list" where
  "split_commas [] = [[]]"
| "split_commas (c # s) =
     (if c = CHR '','' then [] # split_commas s else case split_commas s of [] \<Rightarrow> [[c]] | w # ws \<Rightarrow> (c # w) # ws)"

record queue_filter =
  qf_view :: string
  qf_q :: string
  qf_priority :: string
  qf_category :: string
  qf_department :: string
  qf_assignee :: string
  qf_status :: string
  qf_statuses :: string
  qf_before :: string

definition queue_conditions ::
  "'e desk_env_scheme \<Rightarrow> 'x support_db_scheme \<Rightarrow> int \<Rightarrow> queue_filter \<Rightarrow> (string \<times> (ticket \<Rightarrow> bool)) ticket_result" where
  "queue_conditions env db viewer_id f =
     (case one_of (qf_view f) VIEWS ''view'' of Inl e \<Rightarrow> Inl e | Inr view \<Rightarrow>
      (case assignee_condition (qf_assignee f) of Inl e \<Rightarrow> Inl e | Inr by_assignee \<Rightarrow>
       (case before_condition env (qf_before f) of Inl e \<Rightarrow> Inl e | Inr by_day \<Rightarrow>
        (case one_of (qf_priority f) PRIORITIES ''priority'' of Inl e \<Rightarrow> Inl e | Inr priority \<Rightarrow>
         (case one_of (qf_status f) (map status_name STATUSES) ''status'' of Inl e \<Rightarrow> Inl e | Inr status \<Rightarrow>
          (case sorted_statuses (split_commas (qf_statuses f)) of Inl e \<Rightarrow> Inl e | Inr listed \<Rightarrow>
             (let chosen = (case view of None \<Rightarrow> ''active'' | Some v \<Rightarrow> v)
              in Inr (chosen, \<lambda>t.
                   view_condition chosen viewer_id t \<and> staff_search db (qf_q f) t \<and> by_assignee t \<and> by_day t \<and>
                   (case priority of None \<Rightarrow> True | Some p \<Rightarrow> tk_priority t = p) \<and>
                   (case status of None \<Rightarrow> True | Some s \<Rightarrow> status_name (tk_status t) = s) \<and>
                   (listed = [] \<or> tk_status t \<in> set listed) \<and>
                   (strip (qf_category f) = [] \<or> tk_category t = strip (qf_category f)) \<and>
                   (strip (qf_department f) = [] \<or> tk_reporter_department t = Some (strip (qf_department f)))))))))))"

definition newest_first :: "ticket list \<Rightarrow> ticket list" where
  "newest_first ts = sort_key (\<lambda>t. - tk_updated_at t) (sort_key (\<lambda>t. - tk_id t) ts)"

definition ordered :: "string \<Rightarrow> ticket list \<Rightarrow> ticket list" where
  "ordered view ts =
     (if view = ''needs_staff''
      then sort_key (\<lambda>t. of_bool (tk_priority t \<noteq> ''urgent'') :: int) (sort_key tk_updated_at (sort_key tk_id ts))
      else newest_first ts)"

section \<open>Lists\<close>

definition staff_list ::
  "'e desk_env_scheme \<Rightarrow> 'x support_db_scheme \<Rightarrow> int \<Rightarrow> queue_filter \<Rightarrow> nat \<Rightarrow> nat \<Rightarrow> (payload list \<times> int) ticket_result" where
  "staff_list env db viewer_id f page page_size =
     (case queue_conditions env db viewer_id f of
        Inl e \<Rightarrow> Inl e
      | Inr (chosen, p) \<Rightarrow>
          (let rows = take page_size (drop ((page - 1) * page_size) (ordered chosen (filter p (sd_tickets db))));
               names = assignee_names db rows
           in Inr (map (\<lambda>t. ticket_summary env t For_Staff (message_counts db For_Staff (tk_id t))
                              (load_settings env (sd_settings db)) names) rows,
                   count_tickets p db)))"

definition LIST_LIMIT :: nat where "LIST_LIMIT = 500"

record user_list_answer =
  ul_items :: "payload list"
  ul_open :: int
  ul_resolved :: int
  ul_all :: int

definition user_list ::
  "'e desk_env_scheme \<Rightarrow> 'x support_db_scheme \<Rightarrow> int \<Rightarrow> string \<Rightarrow> string \<Rightarrow> ticket_settings \<Rightarrow> user_list_answer" where
  "user_list env db uid state q settings =
     (let scope = (\<lambda>t. tk_user_id t = uid \<and> user_search db q t);
          shown = (\<lambda>t. scope t \<and> (if state = ''open'' then active_ticket t else if state = ''resolved'' then done_ticket t else True));
          rows = take LIST_LIMIT (newest_first (filter shown (sd_tickets db)))
      in \<lparr>ul_items = map (\<lambda>t. ticket_summary env t For_User (message_counts db For_User (tk_id t)) settings Map.empty) rows,
          ul_open = count_tickets (\<lambda>t. scope t \<and> active_ticket t) db,
          ul_resolved = count_tickets (\<lambda>t. scope t \<and> done_ticket t) db, ul_all = count_tickets scope db\<rparr>)"

text \<open>A cell a spreadsheet would run as a formula is written as text.\<close>

definition csv_cell :: "string \<Rightarrow> string" where
  "csv_cell v =
     (case v of
        [] \<Rightarrow> []
      | c # _ \<Rightarrow> if c \<in> {CHR ''='', CHR ''+'', CHR ''-'', CHR ''@'', CHR 0x09, CHR 0x0D} then CHR 0x27 # v else v)"

definition iso_cell :: "'e desk_env_scheme \<Rightarrow> time option \<Rightarrow> string" where
  "iso_cell env v = (case v of None \<Rightarrow> [] | Some x \<Rightarrow> dk_iso env x @ ''Z'')"

definition text_cell :: "string option \<Rightarrow> string" where
  "text_cell v = (case v of None \<Rightarrow> [] | Some s \<Rightarrow> s)"

definition export_row :: "'e desk_env_scheme \<Rightarrow> (int \<Rightarrow> string option) \<Rightarrow> ticket \<Rightarrow> string list" where
  "export_row env names t =
     map csv_cell
       [show_int (tk_number t), tk_title t, tk_reporter_name t, tk_reporter_username t, text_cell (tk_reporter_department t),
        tk_category t, priority_label (tk_priority t), status_label (status_name (tk_status t)) For_Staff,
        (case tk_assignee_id t of None \<Rightarrow> [] | Some i \<Rightarrow> text_cell (names i)), iso_cell env (Some (tk_created_at t)),
        iso_cell env (Some (tk_updated_at t)), iso_cell env (tk_first_staff_reply_at t), iso_cell env (tk_resolved_at t),
        iso_cell env (tk_closed_at t), (case tk_closed_reason t of None \<Rightarrow> [] | Some r \<Rightarrow> reason_name r)]"

definition EXPORT_ROWS :: nat where "EXPORT_ROWS = 50000"

definition export_rows ::
  "'e desk_env_scheme \<Rightarrow> 'x support_db_scheme \<Rightarrow> int \<Rightarrow> queue_filter \<Rightarrow> (string list list) ticket_result" where
  "export_rows env db viewer_id f =
     (case queue_conditions env db viewer_id f of
        Inl e \<Rightarrow> Inl e
      | Inr (chosen, p) \<Rightarrow>
          (let rows = take EXPORT_ROWS (ordered chosen (filter p (sd_tickets db)))
           in Inr (map (export_row env (assignee_names db rows)) rows)))"

section \<open>What the person does not see\<close>

lemma support_ok_fresh:
  assumes "support_ok now db"
  shows "m \<in> set (sd_messages db) \<Longrightarrow> mg_id m \<noteq> sd_next_message db"
    and "a \<in> set (sd_attachments db) \<Longrightarrow> \<exists>m. fetch mg_id (at_message_id a) (sd_messages db) = Some m"
    and "fetch mg_id (sd_next_message db) (sd_messages db) = None"
proof -
  show fresh: "m \<in> set (sd_messages db) \<Longrightarrow> mg_id m \<noteq> sd_next_message db" for m
    using assms by (fastforce simp: support_ok_def tables_ok_def list_all_iff message_ok_def)
  then have "sd_next_message db \<notin> mg_id ` set (sd_messages db)" by (metis imageE)
  then show "fetch mg_id (sd_next_message db) (sd_messages db) = None" by (simp add: fetch_None_iff)
  assume "a \<in> set (sd_attachments db)"
  with assms have "at_message_id a \<in> mg_id ` set (sd_messages db)"
    by (force simp: support_ok_def tables_ok_def list_all_iff attachment_ok_def)
  then show "\<exists>m. fetch mg_id (at_message_id a) (sd_messages db) = Some m"
    using fetch_None_iff by (metis not_None_eq)
qed

lemma attach_rows:
  "\<exists>new. sd_attachments (attach m images db) = sd_attachments db @ new \<and>
     list_all (\<lambda>a. at_message_id a = mg_id m \<and> at_ticket_id a = mg_ticket_id m) new"
proof (unfold attach_def, induction images arbitrary: db)
  case (Cons img images)
  from Cons [of "attach_one m db img"] obtain new where
    "sd_attachments (foldl (attach_one m) (attach_one m db img) images) = sd_attachments (attach_one m db img) @ new"
    "list_all (\<lambda>a. at_message_id a = mg_id m \<and> at_ticket_id a = mg_ticket_id m) new" by blast
  moreover have "sd_attachments (attach_one m db img) = sd_attachments db @ [attachment_row (sd_next_attachment db) m img]"
    by (simp add: attach_one_def)
  moreover have "at_message_id (attachment_row (sd_next_attachment db) m img) = mg_id m"
    "at_ticket_id (attachment_row (sd_next_attachment db) m img) = mg_ticket_id m"
    by (simp_all add: attachment_row_def)
  ultimately show ?case
    by (intro exI [of _ "attachment_row (sd_next_attachment db) m img # new"]) simp
qed simp

lemma attach_accounts [simp]:
  "ad_users (attach m images db) = ad_users db" "ad_roles (attach m images db) = ad_roles db"
  "ad_users (insert_message m db) = ad_users db" "ad_roles (insert_message m db) = ad_roles db"
  "ad_users (put_ticket t db) = ad_users db" "ad_roles (put_ticket t db) = ad_roles db"
  "sd_messages (put_ticket t db) = sd_messages db" "sd_attachments (put_ticket t db) = sd_attachments db"
  "sd_settings (put_ticket t db) = sd_settings db" "sd_attachments (insert_message m db) = sd_attachments db"
proof -
  show "ad_users (attach m images db) = ad_users db" "ad_roles (attach m images db) = ad_roles db"
    unfolding attach_def by (induction images arbitrary: db) (simp_all add: attach_one_def)
qed (simp_all add: insert_message_def put_ticket_def)

lemma roles_map_cong: "ad_roles db' = ad_roles db \<Longrightarrow> get_roles_map db' ids = get_roles_map db ids"
  by (simp add: get_roles_map_def rows_by_user_def)

lemma map_filter_cong_set: "(\<And>x. x \<in> set xs \<Longrightarrow> f x = g x) \<Longrightarrow> List.map_filter f xs = List.map_filter g xs"
  by (induction xs) (auto simp: List.map_filter_simps split: option.split)

text \<open>A database that differs in one more note, and in the images of that note.\<close>

definition note_added ::
  "'x support_db_scheme \<Rightarrow> 'x support_db_scheme \<Rightarrow> ticket_message \<Rightarrow> ticket_attachment list \<Rightarrow> time \<Rightarrow> bool" where
  "note_added db db' memo new now \<longleftrightarrow>
     support_ok now db \<and> mg_kind memo = Note \<and> mg_id memo = sd_next_message db \<and>
     sd_messages db' = sd_messages db @ [memo] \<and> sd_attachments db' = sd_attachments db @ new \<and>
     list_all (\<lambda>a. at_message_id a = mg_id memo) new \<and>
     ad_users db' = ad_users db \<and> ad_roles db' = ad_roles db \<and> sd_settings db' = sd_settings db"

lemma note_user_messages: "note_added db db' memo new now \<Longrightarrow> thread_messages db' t For_User = thread_messages db t For_User"
  by (simp add: thread_messages_def note_added_def)

lemma note_other_attachments:
  assumes "note_added db db' memo new now" and "m \<in> set (sd_messages db)"
  shows "attachments_of db' t (mg_id m) = attachments_of db t (mg_id m)"
proof -
  from assms have "mg_id m \<noteq> mg_id memo" using support_ok_fresh(1) by (fastforce simp: note_added_def)
  then have "filter (\<lambda>a. at_message_id a = mg_id m) (filter (\<lambda>a. at_ticket_id a = tk_id t) (sd_attachments db')) =
      filter (\<lambda>a. at_message_id a = mg_id m) (filter (\<lambda>a. at_ticket_id a = tk_id t) (sd_attachments db))"
    using assms(1) by (auto simp: note_added_def list_all_iff filter_empty_conv)
  then show ?thesis by (simp only: attachments_of_def filter_sort)
qed

lemma note_user_thread:
  assumes "note_added db db' memo new now"
  shows "thread env db' t For_User = thread env db t For_User"
proof -
  have roles: "get_roles_map db' ids = get_roles_map db ids" for ids
    using assms by (intro roles_map_cong) (simp add: note_added_def)
  have entry: "thread_entry env db' t For_User r m = thread_entry env db t For_User r m"
    if "m \<in> set (thread_messages db t For_User)" for m r
  proof -
    have "m \<in> set (sd_messages db)" using that by (simp add: thread_messages_def)
    from note_other_attachments [OF assms this] show ?thesis by (simp add: thread_entry_def cong: option.case_cong)
  qed
  show ?thesis unfolding thread_def Let_def note_user_messages [OF assms] roles by (rule map_filter_cong_set) (rule entry)
qed

lemma note_user_counts:
  assumes "note_added db db' memo new now"
  shows "message_counts db' For_User i = message_counts db For_User i"
proof -
  note a = assms [unfolded note_added_def]
  have old: "fetch mg_id (at_message_id x) (sd_messages db') = fetch mg_id (at_message_id x) (sd_messages db)"
    if "x \<in> set (sd_attachments db)" for x
    using support_ok_fresh(2) [OF conjunct1 [OF a] that] a by (auto simp: fetch_append)
  have new: "fetch mg_id (at_message_id x) (sd_messages db') = Some memo" if "x \<in> set new" for x
    using that a support_ok_fresh(3) [OF conjunct1 [OF a]] by (simp add: fetch_append list_all_iff)
  let ?shown = "\<lambda>msgs x. at_ticket_id x = i \<and> (case fetch mg_id (at_message_id x) msgs of
          None \<Rightarrow> False | Some m \<Rightarrow> mg_kind m \<notin> set (hidden_kinds For_User))"
  have "filter (?shown (sd_messages db')) new = []"
    using new a by (simp add: filter_empty_conv hidden_kinds_def)
  moreover have "filter (?shown (sd_messages db')) (sd_attachments db) = filter (?shown (sd_messages db)) (sd_attachments db)"
    using old by (intro filter_cong refl) simp
  ultimately have "filter (?shown (sd_messages db')) (sd_attachments db') = filter (?shown (sd_messages db)) (sd_attachments db)"
    using a by simp
  then show ?thesis using a by (simp add: message_counts_def hidden_kinds_def)
qed

lemma note_user_detail:
  assumes "note_added db db' memo new now"
  shows "ticket_detail env db' t For_User viewer at_time = ticket_detail env db t For_User viewer at_time"
proof -
  have "ad_users db' = ad_users db" "sd_settings db' = sd_settings db" using assms by (simp_all add: note_added_def)
  moreover from this(1) have "assignee_names db' = assignee_names db" by (intro ext) (simp add: assignee_names_def)
  ultimately show ?thesis
    by (simp add: ticket_detail_def common_detail_def note_user_thread [OF assms] note_user_counts [OF assms])
qed

lemma note_added_by_staff:
  assumes "support_ok now db" and "add_staff_message db t staff body True images None now = Inr db'"
  shows "\<exists>memo new. note_added db db' memo new now"
proof -
  from assms(2) obtain text_body where db': "db' = put_ticket t (add_message t Note text_body (Some staff) None now images db)"
    by (auto simp: add_staff_message_def precheck_staff_message_def staff_status_def Let_def split: sum.splits if_splits)
  let ?m = "message_row (sd_next_message db) t Note text_body (Some staff) None now"
  obtain new where new: "sd_attachments (attach ?m images (insert_message ?m db)) = sd_attachments (insert_message ?m db) @ new"
    "list_all (\<lambda>a. at_message_id a = mg_id ?m \<and> at_ticket_id a = mg_ticket_id ?m) new" using attach_rows by blast
  have "note_added db db' ?m new now"
    unfolding note_added_def
    by (use assms(1) new in \<open>simp add: db' add_message_def Let_def message_row_def list_all_iff\<close>)
  then show ?thesis by blast
qed

lemma user_thread_entry: "e \<in> set (thread env db t For_User) \<Longrightarrow>
  \<exists>m. m \<in> set (sd_messages db) \<and> mg_ticket_id m = tk_id t \<and> mg_kind m \<noteq> Note \<and> dict_get e ''kind'' = JString (kind_name (mg_kind m))"
  by (force simp: thread_def List.map_filter_def Let_def thread_entry_def thread_messages_def dict_get_def split: option.splits)

lemma kind_name_note [simp]: "kind_name k = ''note'' \<longleftrightarrow> k = Note"
  by (cases k) simp_all

section \<open>Properties\<close>


definition sample_desk :: desk_env where
  "sample_desk = ticket_env.extend sample_env \<lparr>dk_iso = show_int, dk_parse_day = (\<lambda>_. None), dk_loads = (\<lambda>_. None), dk_version = ''1.0''\<rparr>"

definition sample_ticket :: "int \<Rightarrow> ticket_status \<Rightarrow> ticket" where
  "sample_ticket i status =
     \<lparr>tk_id = i, tk_number = 1000 + i, tk_user_id = 1, tk_reporter_name = ''Ann'', tk_reporter_username = ''ann'',
      tk_reporter_email = None, tk_reporter_department = None, tk_title = ''Slow'', tk_category = ''Bug'',
      tk_priority = ''normal'', tk_status = status, tk_assignee_id = None, tk_assigned_at = None, tk_assigned_by_id = None,
      tk_context = None, tk_user_unread = False, tk_needs_staff = (status \<notin> set DONE_STATUSES), tk_created_at = 0, tk_updated_at = 0,
      tk_waiting_since = (if status = Waiting then Some 0 else None), tk_first_staff_reply_at = None,
      tk_resolved_at = (if status = Resolved then Some 0 else None), tk_closed_at = (if status = Closed then Some 0 else None),
      tk_closed_reason = (if status = Closed then Some Closed_Manual else None),
      tk_resolved_by = (if status = Resolved then Some By_User else None), tk_reopened_count = 0\<rparr>"

definition sample_message :: "int \<Rightarrow> ticket_message" where
  "sample_message i =
     \<lparr>mg_id = i, mg_ticket_id = i, mg_author_id = Some 1, mg_author_name = Some ''Ann'', mg_kind = User_Message,
      mg_body = ''It is slow'', mg_event = None, mg_created_at = 0\<rparr>"

text \<open>Person 1 with her tickets 1, 2, ..., and member of staff 2.\<close>

definition sample_support :: "ticket_status list \<Rightarrow> support_db" where
  "sample_support statuses =
     account_db.extend (sample_accounts [sample_account 1 ''ann'', sample_account 2 ''bob''] [(2, ''support_agent'')])
       \<lparr>sd_tickets = map (\<lambda>(i, s). sample_ticket (int i) s) (enumerate 1 statuses),
        sd_messages = map (\<lambda>(i, s). sample_message (int i)) (enumerate 1 statuses), sd_attachments = [],
        sd_settings = None, sd_next_ticket = int (length statuses) + 1, sd_next_message = int (length statuses) + 1,
        sd_next_attachment = 1, sd_removed = [], sd_audit = []\<rparr>"

lemma sample_support_ok: "support_ok 5 (sample_support [Open, Waiting, Resolved, Closed])"
  by code_simp


lemma detail_permissions:
  "dict_get (ticket_detail env db t For_User viewer now) ''can_reply'' =
     JBool (a_is_active viewer \<and> (active_ticket t \<or> reopenable t (load_settings env (sd_settings db)) now))"
  "dict_get (ticket_detail env db t For_User viewer now) ''can_resolve'' = JBool (a_is_active viewer \<and> active_ticket t)"
  by (simp_all add: ticket_detail_def user_permissions_def Let_def dict_update_def dict_get_set)

text \<open>
  C36: the buttons the person is shown are the ones that work: for a text of proper length, and as long as the
  hourly limit is not reached, a reply of the owner is accepted exactly when the page says so, and so is marking
  the ticket resolved.
\<close>

theorem buttons_agree:
  assumes "tk_user_id t = a_id user" and "check_text ''body'' BODY_MAX body = Inr text_body"
    and "recent_replies db (a_id user) (now - seconds 3600) < REPLIES_PER_HOUR"
  shows "dict_get (ticket_detail env db t For_User user now) ''can_reply'' =
      JBool (precheck_user_reply db t user body (load_settings env (sd_settings db)) now = Inr text_body)
    \<and> dict_get (ticket_detail env db t For_User user now) ''can_resolve'' = JBool (\<not> isl (user_resolve db t user now))"
  unfolding detail_permissions
  using assms by (auto simp: precheck_user_reply_def user_resolve_def reopen_passed_def reopenable_def split: option.splits)

theorem buttons_agree_witness:
  "dict_get (ticket_detail sample_desk (sample_support [Closed]) (sample_ticket 1 Closed) For_User (sample_account 1 ''ann'') (days 14))
       ''can_reply'' = JBool True
   \<and> precheck_user_reply (sample_support [Closed]) (sample_ticket 1 Closed) (sample_account 1 ''ann'') ''again''
       (load_settings sample_desk (sd_settings (sample_support [Closed]))) (days 14) = Inr ''again''"
proof -
  let ?db = "sample_support [Closed]"
  have pre: "precheck_user_reply ?db (sample_ticket 1 Closed) (sample_account 1 ''ann'') ''again''
       (load_settings sample_desk (sd_settings ?db)) (days 14) = Inr ''again''" by code_simp
  have "check_text ''body'' BODY_MAX ''again'' = Inr ''again''" by code_simp
  moreover have "recent_replies ?db (a_id (sample_account 1 ''ann'')) (days 14 - seconds 3600) < REPLIES_PER_HOUR" by code_simp
  moreover have "tk_user_id (sample_ticket 1 Closed) = a_id (sample_account 1 ''ann'')"
    by (simp add: sample_ticket_def sample_account_def)
  ultimately show ?thesis
    using buttons_agree [of "sample_ticket 1 Closed" "sample_account 1 ''ann''" "''again''" "''again''" ?db "days 14" sample_desk] pre
    by simp
qed

end
