(* ===== verification/Ticket_Desk.thy ===== *)
theory Ticket_Desk
  imports Ticket_Views
begin

text \<open>
  The requests on support tickets: the person's (\<open>api/support_tickets.py\<close>), those of staff and Super Admins
  (\<open>api/admin_tickets.py\<close>), and the two scheduled jobs (\<open>services/scheduler.py\<close>), over the services of
  \<open>Support_Tickets\<close>.

  A request that checks images reads the database twice: the first state is that of the cheap checks, the second the
  one the change is made in. Storing the images is an argument. A refusal with a plain detail has an empty code. The
  confirmation token is its payload with a signature; the signing function and the digest of a scope are arguments,
  the base64 text is left out. Emails and the removal of stored images are left out.
\<close>

record delete_token =
  tt_actor :: int
  tt_digest :: string
  tt_count :: int
  tt_includes_active :: bool
  tt_expires :: int

datatype delete_scope =
    Scope_Ids "int list"
  | Scope_Filter "ticket_status list" "string option" "string option" "string option" "string option" "string option"

record confirm_env = desk_env +
  ce_mac :: "delete_token \<Rightarrow> string"
  ce_digest :: "delete_scope \<Rightarrow> string"

section \<open>Who may ask\<close>

definition plain_error :: "int \<Rightarrow> string \<Rightarrow> ticket_error" where
  "plain_error status message = TicketError [] message status"

definition require_rbac_menu :: "'x account_db_scheme \<Rightarrow> account \<Rightarrow> string \<Rightarrow> bool \<Rightarrow> ticket_error option" where
  "require_rbac_menu db user menu write =
     (let slugs = get_user_role_slugs db (a_id user)
      in if \<not> user_is_admin_panel slugs then Some (plain_error 403 ''Admin only'')
         else if \<not> a_is_active user then Some (plain_error 403 ''User inactive'')
         else if \<not> user_can_access_menu slugs menu then Some (plain_error 403 ''Insufficient permissions for this menu'')
         else if write \<and> \<not> user_can_write_menu slugs (Some menu) then Some (plain_error 403 ''Read-only role: changes not allowed'')
         else None)"

definition require_super_admin :: "'x account_db_scheme \<Rightarrow> account \<Rightarrow> ticket_error option" where
  "require_super_admin db user =
     (if \<not> a_is_active user then Some (plain_error 403 ''User inactive'')
      else if \<not> user_has_super_admin_access (get_user_role_slugs db (a_id user)) then Some (plain_error 403 ''Super Admin only'')
      else None)"

definition require_ticket_worker :: "'x account_db_scheme \<Rightarrow> account \<Rightarrow> ticket_error option" where
  "require_ticket_worker db user =
     (case require_rbac_menu db user ''tickets'' True of
        Some e \<Rightarrow> Some e
      | None \<Rightarrow>
          if \<not> can_work_tickets db (Some user) then Some (plain_error 403 ''Only Support and Super Admins can work tickets.'') else None)"

definition require_ticket_admin :: "'x account_db_scheme \<Rightarrow> account \<Rightarrow> ticket_error option" where
  "require_ticket_admin db user =
     (case require_rbac_menu db user ''tickets'' True of Some e \<Rightarrow> Some e | None \<Rightarrow> require_super_admin db user)"

definition guarded :: "ticket_error option \<Rightarrow> 'a ticket_result \<Rightarrow> 'a ticket_result" where
  "guarded refusal answer = (case refusal of Some e \<Rightarrow> Inl e | None \<Rightarrow> answer)"

definition audit :: "account \<Rightarrow> string \<Rightarrow> string option \<Rightarrow> payload \<Rightarrow> 'x support_db_scheme \<Rightarrow> 'x support_db_scheme" where
  "audit actor action resource_id detail db =
     db\<lparr>sd_audit := sd_audit db @
         [\<lparr>al_actor_id = a_id actor, al_action = action, al_resource_id = resource_id, al_detail = detail\<rparr>]\<rparr>"

section \<open>The person's requests\<close>

definition enabled_settings :: "'e ticket_env_scheme \<Rightarrow> 'x support_db_scheme \<Rightarrow> ticket_settings ticket_result" where
  "enabled_settings env db =
     (let settings = load_settings env (sd_settings db)
      in if ts_enabled settings then Inr settings
         else Inl (TicketError ''tickets_disabled'' ''Support is turned off by your administrator.'' 403))"

definition require_active :: "account \<Rightarrow> ticket_error option" where
  "require_active user =
     (if a_is_active user then None
      else Some (TicketError ''account_inactive'' ''A disabled account can read its tickets but cannot change them.'' 403))"

definition own_ticket :: "'x support_db_scheme \<Rightarrow> int \<Rightarrow> account \<Rightarrow> ticket ticket_result" where
  "own_ticket db tid user =
     (if \<not> (1 \<le> tid \<and> tid \<le> MAX_ID) then Inl not_found
      else (case fetch tk_id tid (sd_tickets db) of
              None \<Rightarrow> Inl not_found
            | Some t \<Rightarrow> if tk_user_id t \<noteq> a_id user then Inl not_found else Inr t))"

text \<open>The row read again for the change; it may be gone, which nobody catches.\<close>

definition read_again :: "'x support_db_scheme \<Rightarrow> int \<Rightarrow> ticket ticket_result" where
  "read_again db tid =
     (case fetch tk_id tid (sd_tickets db) of None \<Rightarrow> Inl (plain_error 500 ''Internal Server Error'') | Some t \<Rightarrow> Inr t)"

definition CONTEXT_FIELD_MAX :: int where "CONTEXT_FIELD_MAX = 4000"

definition form_context :: "'e desk_env_scheme \<Rightarrow> string \<Rightarrow> (payload option) ticket_result" where
  "form_context env raw =
     (let t = strip raw
      in if t = [] then Inr None
         else (case if int (length t) \<le> CONTEXT_FIELD_MAX then dk_loads env t else None of
                 Some (JObject d) \<Rightarrow>
                   Inr (Some (if strip (json_str (tn_repr env) (json_or (dict_get d ''app_version'') (JString []))) = []
                              then dict_set ''app_version'' (JString (dk_version env)) d else d))
               | _ \<Rightarrow> Inl (TicketError ''invalid_context'' ''The technical details could not be read.'' 422)))"

type_synonym 'u image_store = "ticket_settings \<Rightarrow> int \<Rightarrow> 'u list \<Rightarrow> (stored_image list) ticket_result"

definition store_uploads :: "'u image_store \<Rightarrow> ticket_settings \<Rightarrow> account \<Rightarrow> 'u list \<Rightarrow> (stored_image list) ticket_result" where
  "store_uploads store settings user uploads = (if uploads = [] then Inr [] else store settings (a_id user) uploads)"

definition create_request ::
  "'e desk_env_scheme \<Rightarrow> 'u image_store \<Rightarrow> 'x support_db_scheme \<Rightarrow> 'x support_db_scheme \<Rightarrow> account \<Rightarrow> ticket_request \<Rightarrow> string \<Rightarrow>
   'u list \<Rightarrow> time \<Rightarrow> ('x support_db_scheme \<times> ticket) ticket_result" where
  "create_request env store db0 db user form raw_context uploads now =
     (case enabled_settings env db0 of Inl e \<Rightarrow> Inl e | Inr settings \<Rightarrow>
      guarded (require_active user)
       (case form_context env raw_context of Inl e \<Rightarrow> Inl e | Inr details \<Rightarrow>
        (let rq = form\<lparr>rq_category := strip (rq_category form), rq_priority := strip (rq_priority form), rq_context := details\<rparr>
         in (case precheck_create db0 user rq settings now of Inl e \<Rightarrow> Inl e | Inr _ \<Rightarrow>
             (case store_uploads store settings user uploads of Inl e \<Rightarrow> Inl e | Inr stored \<Rightarrow>
                create_ticket env db user rq stored settings now)))))"

definition reply_request ::
  "'e desk_env_scheme \<Rightarrow> 'u image_store \<Rightarrow> 'x support_db_scheme \<Rightarrow> 'x support_db_scheme \<Rightarrow> account \<Rightarrow> int \<Rightarrow> string \<Rightarrow> 'u list \<Rightarrow>
   time \<Rightarrow> ('x support_db_scheme) ticket_result" where
  "reply_request env store db0 db user tid body uploads now =
     (case enabled_settings env db0 of Inl e \<Rightarrow> Inl e | Inr settings \<Rightarrow>
      (case own_ticket db0 tid user of Inl e \<Rightarrow> Inl e | Inr t0 \<Rightarrow>
       guarded (require_active user)
        (case precheck_user_reply db0 t0 user body settings now of Inl e \<Rightarrow> Inl e | Inr _ \<Rightarrow>
         (case store_uploads store settings user uploads of Inl e \<Rightarrow> Inl e | Inr stored \<Rightarrow>
          (case read_again db tid of Inl e \<Rightarrow> Inl e | Inr t \<Rightarrow> add_user_message db t user body stored settings now)))))"

definition resolve_request ::
  "'e desk_env_scheme \<Rightarrow> 'x support_db_scheme \<Rightarrow> account \<Rightarrow> int \<Rightarrow> time \<Rightarrow> ('x support_db_scheme) ticket_result" where
  "resolve_request env db user tid now =
     (case enabled_settings env db of Inl e \<Rightarrow> Inl e | Inr _ \<Rightarrow>
      (case own_ticket db tid user of Inl e \<Rightarrow> Inl e | Inr t \<Rightarrow>
       guarded (require_active user) (user_resolve db t user now)))"

text \<open>Opening a ticket clears its badge.\<close>

definition open_request ::
  "'e desk_env_scheme \<Rightarrow> 'x support_db_scheme \<Rightarrow> account \<Rightarrow> int \<Rightarrow> time \<Rightarrow> ('x support_db_scheme \<times> payload) ticket_result" where
  "open_request env db user tid now =
     (case enabled_settings env db of Inl e \<Rightarrow> Inl e | Inr _ \<Rightarrow>
      (case own_ticket db tid user of Inl e \<Rightarrow> Inl e | Inr t \<Rightarrow>
       (let t1 = t\<lparr>tk_user_unread := False\<rparr>; db1 = put_ticket t1 db
        in Inr (db1, ticket_detail env db1 t1 For_User user now))))"

definition unread_request :: "'e desk_env_scheme \<Rightarrow> 'x support_db_scheme \<Rightarrow> account \<Rightarrow> int" where
  "unread_request env db user =
     (if ts_enabled (load_settings env (sd_settings db)) then user_unread_count db (a_id user) else 0)"

section \<open>Images\<close>

definition reads_tickets :: "'x account_db_scheme \<Rightarrow> account \<Rightarrow> bool" where
  "reads_tickets db user \<longleftrightarrow>
     a_is_active user \<and> user_is_admin_panel (get_user_role_slugs db (a_id user)) \<and>
     user_can_access_menu (get_user_role_slugs db (a_id user)) ''tickets''"

definition no_image :: ticket_error where
  "no_image = TicketError ''not_found'' ''Image not found.'' 404"

definition attachment_row_of :: "'x support_db_scheme \<Rightarrow> int \<Rightarrow> (ticket_attachment \<times> message_kind \<times> int) option" where
  "attachment_row_of db aid =
     (case fetch at_id aid (sd_attachments db) of
        None \<Rightarrow> None
      | Some a \<Rightarrow>
          (case (fetch mg_id (at_message_id a) (sd_messages db), fetch tk_id (at_ticket_id a) (sd_tickets db)) of
             (Some m, Some t) \<Rightarrow> Some (a, mg_kind m, tk_user_id t)
           | _ \<Rightarrow> None))"

definition attachment_request ::
  "'e desk_env_scheme \<Rightarrow> 'x support_db_scheme \<Rightarrow> account \<Rightarrow> int \<Rightarrow> string ticket_result" where
  "attachment_request env db user aid =
     (if \<not> (1 \<le> aid \<and> aid \<le> MAX_ID) then Inl no_image
      else if \<not> reads_tickets db user \<and> isl (enabled_settings env db)
      then Inl (TicketError ''tickets_disabled'' ''Support is turned off by your administrator.'' 403)
      else (case attachment_row_of db aid of
              None \<Rightarrow> Inl no_image
            | Some (a, kind, owner) \<Rightarrow>
                if (owner = a_id user \<and> kind \<noteq> Note) \<or> reads_tickets db user then Inr (at_storage_key a) else Inl no_image))"

section \<open>What staff request\<close>

definition any_ticket :: "'x support_db_scheme \<Rightarrow> int \<Rightarrow> ticket ticket_result" where
  "any_ticket db tid =
     (if \<not> (1 \<le> tid \<and> tid \<le> MAX_ID) then Inl not_found
      else (case fetch tk_id tid (sd_tickets db) of None \<Rightarrow> Inl not_found | Some t \<Rightarrow> Inr t))"

record ticket_patch =
  tp_status :: "string option"
  tp_priority :: "string option"
  tp_category :: "string option"

definition edit_if ::
  "('x support_db_scheme \<Rightarrow> ticket \<Rightarrow> string \<Rightarrow> ('x support_db_scheme) ticket_result) \<Rightarrow> string option \<Rightarrow> int \<Rightarrow>
   ('x support_db_scheme) ticket_result \<Rightarrow> ('x support_db_scheme) ticket_result" where
  "edit_if f wanted tid acc =
     (case acc of
        Inl e \<Rightarrow> Inl e
      | Inr db \<Rightarrow>
          (case (wanted, fetch tk_id tid (sd_tickets db)) of
             (Some v, Some t) \<Rightarrow> f db t v
           | _ \<Rightarrow> Inr db))"

definition ticket_facts :: "ticket \<Rightarrow> (string \<times> string) list" where
  "ticket_facts t =
     [(''status'', status_name (tk_status t)), (''priority'', tk_priority t), (''category'', tk_category t)]"

definition changed_facts :: "ticket \<Rightarrow> ticket \<Rightarrow> payload" where
  "changed_facts before after =
     map (\<lambda>((k, v), (_, w)). (k, JObject [(''from'', JString v), (''to'', JString w)]))
       (filter (\<lambda>((_, v), (_, w)). v \<noteq> w) (zip (ticket_facts before) (ticket_facts after)))"

definition patch_request ::
  "'e desk_env_scheme \<Rightarrow> 'x support_db_scheme \<Rightarrow> account \<Rightarrow> int \<Rightarrow> ticket_patch \<Rightarrow> time \<Rightarrow> ('x support_db_scheme) ticket_result" where
  "patch_request env db actor tid body now =
     guarded (require_ticket_worker db actor)
      (case any_ticket db tid of Inl e \<Rightarrow> Inl e | Inr before \<Rightarrow>
       (case edit_if (\<lambda>d t v. set_category env d t actor v None now) (tp_category body) tid
               (edit_if (\<lambda>d t v. set_priority d t actor v now) (tp_priority body) tid
                 (edit_if (\<lambda>d t v. set_status d t actor v now) (tp_status body) tid (Inr db))) of
          Inl e \<Rightarrow> Inl e
        | Inr db1 \<Rightarrow>
            (case fetch tk_id tid (sd_tickets db1) of
               None \<Rightarrow> Inr db1
             | Some after \<Rightarrow>
                 (let changes = changed_facts before after
                  in Inr (if changes = [] then db1
                          else audit actor ''ticket_updated'' (Some (show_int tid))
                                 [(''number'', JInt (tk_number before)), (''changes'', JObject changes)] db1)))))"

definition staff_message_request ::
  "'e desk_env_scheme \<Rightarrow> 'u image_store \<Rightarrow> 'x support_db_scheme \<Rightarrow> 'x support_db_scheme \<Rightarrow> account \<Rightarrow> int \<Rightarrow> string \<Rightarrow> string \<Rightarrow>
   string \<Rightarrow> 'u list \<Rightarrow> time \<Rightarrow> ('x support_db_scheme) ticket_result" where
  "staff_message_request env store db0 db actor tid body internal status uploads now =
     guarded (require_ticket_worker db0 actor)
      (case any_ticket db0 tid of Inl e \<Rightarrow> Inl e | Inr t0 \<Rightarrow>
       (let is_note = lower (strip internal) \<in> {''true'', ''1'', ''yes'', ''on''};
            new_status = (if strip status = [] then None else Some (strip status))
        in (case precheck_staff_message body new_status of Inl e \<Rightarrow> Inl e | Inr (text_body, _) \<Rightarrow>
            (case store (load_settings env (sd_settings db0)) (tk_user_id t0) uploads of Inl e \<Rightarrow> Inl e | Inr stored \<Rightarrow>
             (case read_again db tid of Inl e \<Rightarrow> Inl e | Inr t \<Rightarrow>
              (case add_staff_message db t actor text_body is_note stored new_status now of
                 Inl e \<Rightarrow> Inl e
               | Inr db1 \<Rightarrow>
                   (let after = (case fetch tk_id tid (sd_tickets db1) of None \<Rightarrow> t | Some x \<Rightarrow> x);
                        moved = (if tk_status after = tk_status t then []
                                 else [(''status'', JObject [(''from'', JString (status_name (tk_status t))),
                                                             (''to'', JString (status_name (tk_status after)))])])
                    in Inr (audit actor (if is_note then ''ticket_note_added'' else ''ticket_replied'') (Some (show_int tid))
                              ([(''number'', JInt (tk_number t)), (''images'', JInt (int (length stored)))] @ moved) db1))))))))"

definition assignee_user :: "'x support_db_scheme \<Rightarrow> int \<Rightarrow> account ticket_result" where
  "assignee_user db uid =
     (case fetch a_id uid (ad_users db) of
        None \<Rightarrow> Inl (TicketError ''not_assignable'' ''That person cannot work tickets.'' 422)
      | Some u \<Rightarrow> Inr u)"

definition assign_and_log ::
  "'e desk_env_scheme \<Rightarrow> 'x support_db_scheme \<Rightarrow> account \<Rightarrow> ticket \<Rightarrow> account option \<Rightarrow> time \<Rightarrow> ('x support_db_scheme) ticket_result" where
  "assign_and_log env db actor t assignee now =
     (case assign env db t actor assignee None now of
        Inl e \<Rightarrow> Inl e
      | Inr (db1, outcome) \<Rightarrow>
          (let extra = (case assignee of None \<Rightarrow> []
                        | Some u \<Rightarrow> [(''to_id'', JInt (a_id u)), (''email'', JBool (ao_email_wanted outcome))])
           in Inr (if \<not> ao_changed outcome then db1
                   else audit actor (if assignee = None then ''ticket_unassigned'' else ''ticket_assigned'') (Some (show_int (tk_id t)))
                          ([(''number'', JInt (tk_number t)), (''from_id'', json_of_option JInt (tk_assignee_id t))] @ extra) db1)))"

definition assign_request ::
  "'e desk_env_scheme \<Rightarrow> 'x support_db_scheme \<Rightarrow> account \<Rightarrow> int \<Rightarrow> int option \<Rightarrow> time \<Rightarrow> ('x support_db_scheme) ticket_result" where
  "assign_request env db actor tid assignee_id now =
     guarded (require_ticket_worker db actor)
      (case any_ticket db tid of Inl e \<Rightarrow> Inl e | Inr t \<Rightarrow>
       (case assignee_id of
          None \<Rightarrow> assign_and_log env db actor t None now
        | Some uid \<Rightarrow> (case assignee_user db uid of Inl e \<Rightarrow> Inl e | Inr u \<Rightarrow> assign_and_log env db actor t (Some u) now)))"

definition assign_to_me_request ::
  "'e desk_env_scheme \<Rightarrow> 'x support_db_scheme \<Rightarrow> account \<Rightarrow> int \<Rightarrow> time \<Rightarrow> ('x support_db_scheme) ticket_result" where
  "assign_to_me_request env db actor tid now =
     guarded (require_ticket_worker db actor)
      (case any_ticket db tid of Inl e \<Rightarrow> Inl e | Inr t \<Rightarrow> assign_and_log env db actor t (Some actor) now)"

section \<open>Several tickets at once\<close>

datatype bulk_action = Bulk_Assign_To_Me | Bulk_Assign "int option" | Bulk_Close

fun bulk_name :: "bulk_action \<Rightarrow> string" where
  "bulk_name Bulk_Assign_To_Me = ''assign_to_me''"
| "bulk_name (Bulk_Assign i) = ''assign''"
| "bulk_name Bulk_Close = ''close''"

definition bulk_assignee :: "'x support_db_scheme \<Rightarrow> account \<Rightarrow> bulk_action \<Rightarrow> (account option) ticket_result" where
  "bulk_assignee db actor action =
     (case action of
        Bulk_Assign_To_Me \<Rightarrow> Inr (Some actor)
      | Bulk_Assign None \<Rightarrow> Inl (TicketError ''assignee_required'' ''Choose who gets the tickets.'' 422)
      | Bulk_Assign (Some uid) \<Rightarrow> map_sum id Some (assignee_user db uid)
      | Bulk_Close \<Rightarrow> Inr None)"

text \<open>One ticket of the selection; the accumulator holds the changed tickets and the emails wanted.\<close>

fun bulk_each ::
  "'e desk_env_scheme \<Rightarrow> account \<Rightarrow> bool \<Rightarrow> account option \<Rightarrow> ticket_settings \<Rightarrow> time \<Rightarrow>
   'x support_db_scheme \<times> ticket list \<times> int list \<Rightarrow> ticket list \<Rightarrow> ('x support_db_scheme \<times> ticket list \<times> int list) ticket_result" where
  "bulk_each env actor close assignee settings now acc [] = Inr acc"
| "bulk_each env actor close assignee settings now (db, changed, emails) (t # ts) =
     (if close then
        (if tk_status t = Closed then bulk_each env actor close assignee settings now (db, changed, emails) ts
         else bulk_each env actor close assignee settings now (change_status t actor Closed now db, changed @ [t], emails) ts)
      else (case assign env db t actor assignee (Some settings) now of
              Inl e \<Rightarrow> Inl e
            | Inr (db1, outcome) \<Rightarrow>
                bulk_each env actor close assignee settings now
                  (db1, changed @ (if ao_changed outcome then [t] else []),
                   emails @ (case ao_event_id outcome of Some i \<Rightarrow> if ao_email_wanted outcome then [i] else [] | None \<Rightarrow> [])) ts))"

definition AUDIT_NUMBERS_MAX :: nat where "AUDIT_NUMBERS_MAX = 1000"

definition audit_numbers :: "int list \<Rightarrow> payload" where
  "audit_numbers values =
     (''numbers'', JList (map JInt (take AUDIT_NUMBERS_MAX (sort values)))) #
     (if AUDIT_NUMBERS_MAX < length values then [(''numbers_more'', JInt (int (length values - AUDIT_NUMBERS_MAX)))] else [])"

definition bulk_request ::
  "'e desk_env_scheme \<Rightarrow> 'x support_db_scheme \<Rightarrow> account \<Rightarrow> int list \<Rightarrow> bulk_action \<Rightarrow> time \<Rightarrow> ('x support_db_scheme \<times> int) ticket_result" where
  "bulk_request env db actor ids action now =
     guarded (require_ticket_worker db actor)
      (case bulk_assignee db actor action of Inl e \<Rightarrow> Inl e | Inr assignee \<Rightarrow>
       (let tickets = sort_key tk_id (filter (\<lambda>t. tk_id t \<in> set ids) (sd_tickets db));
            settings = load_settings env (sd_settings db)
        in (case bulk_each env actor (action = Bulk_Close) assignee settings now (db, [], []) tickets of
              Inl e \<Rightarrow> Inl e
            | Inr (db1, changed, emails) \<Rightarrow>
                (let extra = (case assignee of None \<Rightarrow> []
                              | Some u \<Rightarrow> [(''assignee_id'', JInt (a_id u)), (''emails'', JInt (int (length emails)))])
                 in Inr (if changed = [] then db1
                         else audit actor (''tickets_bulk_'' @ bulk_name action) None
                                ([(''action'', JString (bulk_name action)), (''updated'', JInt (int (length changed)))] @
                                 audit_numbers (map tk_number changed) @ extra) db1,
                         int (length changed))))))"

section \<open>Settings\<close>

definition changed_keys :: "payload \<Rightarrow> payload \<Rightarrow> string list" where
  "changed_keys before after = map fst (filter (\<lambda>(k, v). v \<noteq> dict_get before k) after)"

definition put_settings_request ::
  "'e desk_env_scheme \<Rightarrow> 'x support_db_scheme \<Rightarrow> account \<Rightarrow> payload \<Rightarrow> time \<Rightarrow> ('x support_db_scheme \<times> ticket_settings) ticket_result" where
  "put_settings_request env db actor body now =
     guarded (require_ticket_admin db actor)
      (let current = load_settings env (sd_settings db)
       in (case validate_settings env (JObject (dict_update (as_dict current) body)) of
             Inl e \<Rightarrow> Inl e
           | Inr saved \<Rightarrow>
               (let keys = changed_keys (as_dict current) (as_dict saved);
                    pick = (\<lambda>s. JObject (map (\<lambda>k. (k, dict_get (as_dict s) k)) keys));
                    db1 = db\<lparr>sd_settings := save_settings saved\<rparr>;
                    back_on = ts_enabled saved \<and> \<not> ts_enabled current;
                    (db2, restarted) = (if back_on then restart_waiting_clocks db1 now else (db1, 0));
                    detail = [(''changed'', JList (map JString keys)), (''before'', pick current), (''after'', pick saved)] @
                             (if back_on then [(''waiting_restarted'', JInt restarted)] else [])
                in Inr (if keys = [] then db2 else audit actor ''tickets_settings_updated'' (Some ''tickets.settings'') detail db2,
                        saved))))"

section \<open>Confirmed deletion\<close>

record delete_filter =
  df_statuses :: "string list"
  df_priority :: string
  df_category :: string
  df_department :: string
  df_assignee :: string
  df_before :: string

record delete_request =
  dr_ids :: "int list option"
  dr_filter :: "delete_filter option"

definition text_or_none :: "string \<Rightarrow> string option" where
  "text_or_none v = (if strip v = [] then None else Some (strip v))"

definition filter_scope :: "'e desk_env_scheme \<Rightarrow> delete_filter \<Rightarrow> delete_scope ticket_result" where
  "filter_scope env f =
     (case sorted_statuses (df_statuses f) of Inl e \<Rightarrow> Inl e | Inr statuses \<Rightarrow>
      (case one_of (df_priority f) PRIORITIES ''priority'' of Inl e \<Rightarrow> Inl e | Inr priority \<Rightarrow>
       (case assignee_condition (df_assignee f) of Inl e \<Rightarrow> Inl e | Inr _ \<Rightarrow>
        (case before_condition env (df_before f) of Inl e \<Rightarrow> Inl e | Inr _ \<Rightarrow>
           Inr (Scope_Filter (if statuses = [] then DONE_STATUSES else statuses) priority (text_or_none (df_category f))
                  (text_or_none (df_department f)) (text_or_none (df_assignee f)) (text_or_none (df_before f)))))))"

definition normal_scope :: "'e desk_env_scheme \<Rightarrow> delete_request \<Rightarrow> delete_scope ticket_result" where
  "normal_scope env body =
     (case (dr_ids body, dr_filter body) of
        (Some ids, None) \<Rightarrow>
          (let sorted = sort (remdups ids)
           in if sorted = [] then Inl (TicketError ''invalid_scope'' ''Name at least one ticket.'' 422) else Inr (Scope_Ids sorted))
      | (None, Some f) \<Rightarrow> filter_scope env f
      | _ \<Rightarrow> Inl (TicketError ''invalid_scope'' ''Send either the ticket ids or a filter.'' 422))"

definition holds :: "(ticket \<Rightarrow> bool) ticket_result \<Rightarrow> ticket \<Rightarrow> bool" where
  "holds condition t = (case condition of Inl _ \<Rightarrow> False | Inr p \<Rightarrow> p t)"

definition scope_conditions :: "'e desk_env_scheme \<Rightarrow> delete_scope \<Rightarrow> ticket \<Rightarrow> bool" where
  "scope_conditions env scope t =
     (case scope of
        Scope_Ids ids \<Rightarrow> tk_id t \<in> set ids
      | Scope_Filter statuses priority category department assignee before \<Rightarrow>
          tk_status t \<in> set statuses \<and>
          (case priority of None \<Rightarrow> True | Some p \<Rightarrow> tk_priority t = p) \<and>
          (case category of None \<Rightarrow> True | Some c \<Rightarrow> tk_category t = c) \<and>
          (case department of None \<Rightarrow> True | Some d \<Rightarrow> tk_reporter_department t = Some d) \<and>
          (case assignee of None \<Rightarrow> True | Some a \<Rightarrow> holds (assignee_condition a) t) \<and>
          (case before of None \<Rightarrow> True | Some b \<Rightarrow> holds (before_condition env b) t))"

record scope_totals =
  sc_count :: int
  sc_messages :: int
  sc_images :: int
  sc_image_bytes :: int
  sc_includes_active :: bool

definition totals_of :: "'x support_db_scheme \<Rightarrow> (ticket \<Rightarrow> bool) \<Rightarrow> scope_totals" where
  "totals_of db p =
     (let ids = map tk_id (filter p (sd_tickets db)); images = filter (\<lambda>a. at_ticket_id a \<in> set ids) (sd_attachments db)
      in \<lparr>sc_count = count_tickets p db,
          sc_messages = int (length (filter (\<lambda>m. mg_ticket_id m \<in> set ids \<and> mg_kind m \<noteq> Event) (sd_messages db))),
          sc_images = int (length images), sc_image_bytes = sum_list (map at_bytes images),
          sc_includes_active = (0 < count_tickets (\<lambda>t. p t \<and> active_ticket t) db)\<rparr>)"

definition delete_phrase :: "int \<Rightarrow> string" where
  "delete_phrase n = ''DELETE '' @ show_int n @ '' TICKETS''"

definition epoch :: "time \<Rightarrow> int" where
  "epoch now = now div 1000000"

definition TOKEN_TTL_SECONDS :: int where "TOKEN_TTL_SECONDS = 600"

definition sign_delete_token ::
  "'e confirm_env_scheme \<Rightarrow> int \<Rightarrow> delete_scope \<Rightarrow> int \<Rightarrow> bool \<Rightarrow> time \<Rightarrow> delete_token \<times> string" where
  "sign_delete_token env actor_id scope count includes_active now =
     (let token = \<lparr>tt_actor = actor_id, tt_digest = ce_digest env scope, tt_count = count,
                   tt_includes_active = includes_active, tt_expires = epoch now + TOKEN_TTL_SECONDS\<rparr>
      in (token, ce_mac env token))"

text \<open>\<open>None\<close> is a token that cannot be taken apart.\<close>

definition read_delete_token ::
  "'e confirm_env_scheme \<Rightarrow> (delete_token \<times> string) option \<Rightarrow> int \<Rightarrow> delete_scope \<Rightarrow> time \<Rightarrow> (int \<times> bool) ticket_result" where
  "read_delete_token env token actor_id scope now =
     (let refusal = Inl (TicketError ''token_invalid'' ''This confirmation has expired. Preview the delete again.'' 400)
      in (case token of
            None \<Rightarrow> refusal
          | Some (body, signature) \<Rightarrow>
              if ce_mac env body \<noteq> signature then refusal
              else if tt_actor body \<noteq> actor_id \<or> tt_digest body \<noteq> ce_digest env scope \<or> tt_expires body < epoch now then refusal
              else Inr (tt_count body, tt_includes_active body)))"

definition DELETE_BATCH :: nat where "DELETE_BATCH = 200"

definition delete_batch ::
  "(ticket \<Rightarrow> bool) option \<Rightarrow> 'x support_db_scheme \<times> delete_totals \<Rightarrow> int list \<Rightarrow> 'x support_db_scheme \<times> delete_totals" where
  "delete_batch conditions acc ids =
     (let (db1, counts) = delete_tickets (fst acc) ids conditions in (db1, add_totals (snd acc) counts))"

definition delete_in_batches ::
  "'x support_db_scheme \<Rightarrow> int list \<Rightarrow> (ticket \<Rightarrow> bool) option \<Rightarrow> 'x support_db_scheme \<times> delete_totals" where
  "delete_in_batches db ids conditions = foldl (delete_batch conditions) (db, no_totals) (chunks DELETE_BATCH (sort ids))"

definition preview_request ::
  "'e confirm_env_scheme \<Rightarrow> 'x support_db_scheme \<Rightarrow> account \<Rightarrow> delete_request \<Rightarrow> time \<Rightarrow>
   (scope_totals \<times> (delete_token \<times> string) \<times> string) ticket_result" where
  "preview_request env db actor body now =
     guarded (require_ticket_admin db actor)
      (case normal_scope env body of
         Inl e \<Rightarrow> Inl e
       | Inr scope \<Rightarrow>
           (let totals = totals_of db (scope_conditions env scope)
            in Inr (totals, sign_delete_token env (a_id actor) scope (sc_count totals) (sc_includes_active totals) now,
                    delete_phrase (sc_count totals))))"

definition status_list_json :: "ticket_status list \<Rightarrow> json" where
  "status_list_json ss = JList (map (JString \<circ> status_name) ss)"

definition scope_payload :: "delete_scope \<Rightarrow> payload" where
  "scope_payload scope =
     (case scope of
        Scope_Ids ids \<Rightarrow> [(''scope'', JString ''ids'')]
      | Scope_Filter statuses priority category department assignee before \<Rightarrow>
          (let entry = (\<lambda>k v. case v of None \<Rightarrow> [] | Some s \<Rightarrow> [(k, JString s)])
           in [(''scope'', JString ''filter''),
               (''filter'', JObject ((''statuses'', status_list_json statuses) # entry ''priority'' priority @ entry ''category'' category @
                  entry ''department'' department @ entry ''assignee'' assignee @ entry ''before'' before))]))"

definition totals_payload :: "scope_totals \<Rightarrow> payload" where
  "totals_payload totals =
     [(''messages'', JInt (sc_messages totals)), (''images'', JInt (sc_images totals)), (''image_bytes'', JInt (sc_image_bytes totals))]"

text \<open>
  The scope narrows to ended tickets when the selected ones were all ended at the preview. The tickets are counted
  in the first state; the batches run in the second, after the log entry is committed.
\<close>

definition confirmed_conditions :: "'e desk_env_scheme \<Rightarrow> delete_scope \<Rightarrow> bool \<Rightarrow> ticket \<Rightarrow> bool" where
  "confirmed_conditions env scope previewed_active t \<longleftrightarrow>
     scope_conditions env scope t \<and>
     ((case scope of Scope_Ids _ \<Rightarrow> \<not> previewed_active | _ \<Rightarrow> False) \<longrightarrow> done_ticket t)"

definition delete_request_checks ::
  "'e confirm_env_scheme \<Rightarrow> 'x support_db_scheme \<Rightarrow> account \<Rightarrow> delete_request \<Rightarrow> (delete_token \<times> string) option \<Rightarrow> string \<Rightarrow> time \<Rightarrow>
   (delete_scope \<times> bool \<times> ticket list) ticket_result" where
  "delete_request_checks env db actor body token phrase now =
     guarded (require_ticket_admin db actor)
      (case normal_scope env body of Inl e \<Rightarrow> Inl e | Inr scope \<Rightarrow>
       (case read_delete_token env token (a_id actor) scope now of Inl e \<Rightarrow> Inl e | Inr (previewed, previewed_active) \<Rightarrow>
          if strip phrase \<noteq> delete_phrase previewed
          then Inl (TicketError ''phrase_mismatch'' (''Type \"'' @ delete_phrase previewed @ ''\" to confirm.'') 400)
          else
            let rows = filter (confirmed_conditions env scope previewed_active) (sd_tickets db); n = int (length rows)
            in if n \<noteq> previewed
               then Inl (TicketError ''count_changed''
                      (''The number of tickets changed from '' @ show_int previewed @ '' to '' @ show_int n @ ''. Check it again.'') 409)
               else Inr (scope, previewed_active, rows)))"

definition delete_audit :: "'e desk_env_scheme \<Rightarrow> delete_scope \<Rightarrow> bool \<Rightarrow> ticket list \<Rightarrow> account \<Rightarrow> 'x support_db_scheme \<Rightarrow> 'x support_db_scheme" where
  "delete_audit env scope previewed_active rows actor db =
     (let totals = totals_of db (confirmed_conditions env scope previewed_active)
      in audit actor ''tickets_deleted'' (Some (case scope of Scope_Ids _ \<Rightarrow> ''selected'' | _ \<Rightarrow> ''filter''))
           (scope_payload scope @ [(''count'', JInt (int (length rows)))] @ totals_payload totals @
            [(''includes_active'', JBool (sc_includes_active totals))] @ audit_numbers (map tk_number rows)) db)"

definition delete_scope_request ::
  "'e confirm_env_scheme \<Rightarrow> ('x support_db_scheme \<Rightarrow> 'x support_db_scheme) \<Rightarrow> 'x support_db_scheme \<Rightarrow> account \<Rightarrow> delete_request \<Rightarrow>
   (delete_token \<times> string) option \<Rightarrow> string \<Rightarrow> time \<Rightarrow> ('x support_db_scheme \<times> delete_totals) ticket_result" where
  "delete_scope_request env meanwhile db actor body token phrase now =
     (case delete_request_checks env db actor body token phrase now of
        Inl e \<Rightarrow> Inl e
      | Inr (scope, previewed_active, rows) \<Rightarrow>
          Inr (delete_in_batches (meanwhile (delete_audit env scope previewed_active rows actor db)) (map tk_id rows)
                 (Some (confirmed_conditions env scope previewed_active))))"

definition DELETE_ALL_PHRASE :: string where "DELETE_ALL_PHRASE = ''DELETE ALL TICKETS''"

definition delete_all_request ::
  "'x support_db_scheme \<Rightarrow> account \<Rightarrow> string \<Rightarrow> ('x support_db_scheme \<times> delete_totals) ticket_result" where
  "delete_all_request db actor phrase =
     guarded (require_ticket_admin db actor)
      (if strip phrase \<noteq> DELETE_ALL_PHRASE
       then Inl (TicketError ''phrase_mismatch'' (''Type \"'' @ DELETE_ALL_PHRASE @ ''\" to confirm.'') 400)
       else
         let totals = totals_of db (\<lambda>t. True);
             detail = [(''count'', JInt (sc_count totals))] @ totals_payload totals @ audit_numbers (map tk_number (sd_tickets db))
         in Inr (delete_in_batches (audit actor ''tickets_deleted_all'' (Some ''all'') detail db) (map tk_id (sd_tickets db)) None))"

definition delete_ticket_request ::
  "'x support_db_scheme \<Rightarrow> account \<Rightarrow> int \<Rightarrow> ('x support_db_scheme) ticket_result" where
  "delete_ticket_request db actor tid =
     guarded (require_ticket_admin db actor)
      (case any_ticket db tid of
         Inl e \<Rightarrow> Inl e
       | Inr t \<Rightarrow>
           (let totals = totals_of db (\<lambda>x. tk_id x = tk_id t);
                detail = [(''number'', JInt (tk_number t)), (''status'', JString (status_name (tk_status t)))] @ totals_payload totals
            in Inr (fst (delete_tickets (audit actor ''ticket_deleted'' (Some (show_int tid)) detail db) [tk_id t] None))))"

section \<open>The scheduled jobs\<close>

text \<open>The three steps of the lifecycle job; each commits on its own, and the rows another session holds are given.\<close>

definition job_ticket_lifecycle ::
  "'e ticket_env_scheme \<Rightarrow> (int \<Rightarrow> bool) \<Rightarrow> time \<Rightarrow> 'x support_db_scheme \<Rightarrow> 'x support_db_scheme" where
  "job_ticket_lifecycle env busy now db =
     (let db1 = fst (close_waiting_tickets env db busy now);
          db2 = fst (close_resolved_tickets env db1 busy now)
      in fst (release_orphaned_assignments db2 now))"

definition job_ticket_retention :: "'e ticket_env_scheme \<Rightarrow> time \<Rightarrow> 'x support_db_scheme \<Rightarrow> 'x support_db_scheme" where
  "job_ticket_retention env now db = fst (purge_closed_tickets env db now)"

section \<open>Every request keeps the invariant\<close>

lemma audit_ok [simp]: "support_ok now (audit actor action rid detail db) = support_ok now db"
  by (simp add: support_ok_def tables_ok_def list_all_iff message_ok_def attachment_ok_def opening_ok_def first_message_def audit_def)

lemma settings_ok_frame [simp]: "support_ok now (db\<lparr>sd_settings := s\<rparr>) = support_ok now db"
  by (simp add: support_ok_def tables_ok_def list_all_iff message_ok_def attachment_ok_def opening_ok_def first_message_def)

lemma fetch_ticket: "fetch tk_id tid (sd_tickets db) = Some t \<Longrightarrow> t \<in> set (sd_tickets db)"
  by (blast dest: fetch_SomeD)

lemma own_ticket_mem: "own_ticket db tid user = Inr t \<Longrightarrow> t \<in> set (sd_tickets db)"
  by (auto simp: own_ticket_def fetch_ticket split: option.splits if_splits)

lemma read_again_mem: "read_again db tid = Inr t \<Longrightarrow> t \<in> set (sd_tickets db)"
  by (auto simp: read_again_def fetch_ticket split: option.splits)

lemma any_ticket_mem: "any_ticket db tid = Inr t \<Longrightarrow> t \<in> set (sd_tickets db)"
  by (auto simp: any_ticket_def fetch_ticket split: option.splits if_splits)

lemma guarded_Inr [simp]: "guarded refusal answer = Inr x \<longleftrightarrow> refusal = None \<and> answer = Inr x"
  by (simp add: guarded_def split: option.split)

lemma case_result_Inr: "(case r of Inl e \<Rightarrow> Inl e | Inr x \<Rightarrow> f x) = Inr y \<longleftrightarrow> (\<exists>x. r = Inr x \<and> f x = Inr y)"
  by (cases r) simp_all

lemma create_request_ok:
  "support_ok now db \<Longrightarrow> create_request env store db0 db user form raw uploads now = Inr (db', t) \<Longrightarrow> support_ok now db'"
  by (auto simp: create_request_def case_result_Inr Let_def dest: create_ticket_ok)

lemma reply_request_ok:
  "support_ok now db \<Longrightarrow> reply_request env store db0 db user tid body uploads now = Inr db' \<Longrightarrow> support_ok now db'"
  by (auto simp: reply_request_def case_result_Inr dest!: read_again_mem intro: add_user_message_ok)

lemma resolve_request_ok: "support_ok now db \<Longrightarrow> resolve_request env db user tid now = Inr db' \<Longrightarrow> support_ok now db'"
  by (auto simp: resolve_request_def case_result_Inr dest!: own_ticket_mem intro: user_resolve_ok)

lemma unread_ok: "ticket_ok now t \<Longrightarrow> ticket_ok now (t\<lparr>tk_user_unread := False\<rparr>)"
  by (auto simp: ticket_defs split: option.splits)

lemma open_request_ok: "support_ok now db \<Longrightarrow> open_request env db user tid now = Inr (db', answer) \<Longrightarrow> support_ok now db'"
  by (auto simp: open_request_def case_result_Inr Let_def same_origin_def dest!: own_ticket_mem
      intro!: put_ticket_ok unread_ok intro: support_ok_ticket)

lemma edit_if_ok:
  assumes "\<And>db' t v. support_ok now db' \<Longrightarrow> t \<in> set (sd_tickets db') \<Longrightarrow> f db' t v = Inr db2 \<Longrightarrow> support_ok now db2"
    and "\<And>db'. acc = Inr db' \<Longrightarrow> support_ok now db'" and "edit_if f wanted tid acc = Inr db2"
  shows "support_ok now db2"
  using assms(2,3) by (auto simp: edit_if_def split: sum.splits option.splits intro: assms(1) fetch_ticket)

lemma patch_request_ok: "support_ok now db \<Longrightarrow> patch_request env db actor tid body now = Inr db' \<Longrightarrow> support_ok now db'"
proof -
  assume ok: "support_ok now db" and req: "patch_request env db actor tid body now = Inr db'"
  let ?s = "edit_if (\<lambda>d t v. set_status d t actor v now) (tp_status body) tid (Inr db)"
  let ?p = "edit_if (\<lambda>d t v. set_priority d t actor v now) (tp_priority body) tid ?s"
  let ?c = "edit_if (\<lambda>d t v. set_category env d t actor v None now) (tp_category body) tid ?p"
  from req obtain db1 where c: "?c = Inr db1" and db': "support_ok now db' = support_ok now db1"
    unfolding patch_request_def guarded_Inr case_result_Inr
    by (auto simp: Let_def split: option.splits if_splits)
  have s: "support_ok now d" if "?s = Inr d" for d
    by (rule edit_if_ok [OF _ _ that]) (use ok in \<open>auto intro: staff_edits_ok(1)\<close>)
  have p: "support_ok now d" if "?p = Inr d" for d
    by (rule edit_if_ok [OF _ s that]) (auto intro: staff_edits_ok(2))
  show ?thesis unfolding db'
    by (rule edit_if_ok [OF _ p c]) (auto intro: staff_edits_ok(3))
qed

lemma staff_message_request_ok:
  "support_ok now db \<Longrightarrow> staff_message_request env store db0 db actor tid body internal status uploads now = Inr db' \<Longrightarrow> support_ok now db'"
proof -
  assume ok: "support_ok now db" and req: "staff_message_request env store db0 db actor tid body internal status uploads now = Inr db'"
  from req obtain text_body note_flag wanted stored t db1 where t: "read_again db tid = Inr t"
    and m: "add_staff_message db t actor text_body note_flag stored wanted now = Inr db1" and db': "support_ok now db' = support_ok now db1"
    unfolding staff_message_request_def guarded_Inr case_result_Inr Let_def
    by (auto simp: case_result_Inr)
  show ?thesis unfolding db' by (rule add_staff_message_ok [OF ok read_again_mem [OF t] m])
qed

lemma assign_and_log_ok:
  "support_ok now db \<Longrightarrow> t \<in> set (sd_tickets db) \<Longrightarrow> assign_and_log env db actor t assignee now = Inr db' \<Longrightarrow> support_ok now db'"
  by (auto simp: assign_and_log_def case_result_Inr Let_def split: if_splits dest: staff_edits_ok(4))

lemma assign_requests_ok:
  "support_ok now db \<Longrightarrow> assign_request env db actor tid assignee_id now = Inr db' \<Longrightarrow> support_ok now db'"
  "support_ok now db \<Longrightarrow> assign_to_me_request env db actor tid now = Inr db' \<Longrightarrow> support_ok now db'"
  by (auto simp: assign_request_def assign_to_me_request_def case_result_Inr split: option.splits
      dest!: any_ticket_mem intro: assign_and_log_ok)

lemma change_status_other:
  "x \<in> set (sd_tickets db) \<Longrightarrow> tk_id x \<noteq> tk_id t \<Longrightarrow> x \<in> set (sd_tickets (change_status t actor s now db))"
  by (auto simp: change_status_def same_origin_id intro: put_ticket_other)

lemma assign_other:
  assumes "assign env db t actor assignee settings now = Inr (db', outcome)" and "x \<in> set (sd_tickets db)" and "tk_id x \<noteq> tk_id t"
  shows "x \<in> set (sd_tickets db')"
  using assms by (auto simp: assign_def Let_def unassigned_def split: option.splits if_splits intro!: put_ticket_other)

lemma bulk_each_ok:
  assumes "support_ok now (fst acc)" and "set ts \<subseteq> set (sd_tickets (fst acc))" and "distinct (map tk_id ts)"
    and "bulk_each env actor close assignee settings now acc ts = Inr out"
  shows "support_ok now (fst out)"
  using assms
proof (induction env actor close assignee settings now acc ts rule: bulk_each.induct)
  case (2 env actor close assignee settings now db changed emails t ts)
  have keep: "set ts \<subseteq> set (sd_tickets db1)" if "\<And>x. x \<in> set (sd_tickets db) \<Longrightarrow> tk_id x \<noteq> tk_id t \<Longrightarrow> x \<in> set (sd_tickets db1)"
    for db1 :: "'c support_db_scheme"
  proof
    fix x assume x: "x \<in> set ts"
    have "tk_id t \<notin> tk_id ` set ts" using "2.prems"(3) by simp
    with x have "tk_id x \<noteq> tk_id t" by (metis imageI)
    with x "2.prems"(2) show "x \<in> set (sd_tickets db1)" by (auto intro: that)
  qed
  have t: "t \<in> set (sd_tickets db)" and ok: "support_ok now db" using "2.prems" by auto
  show ?case
  proof (cases close)
    case True
    show ?thesis
    proof (cases "tk_status t = Closed")
      case False
      have "support_ok now (change_status t actor Closed now db)"
        by (rule change_status_ok [OF ok t same_origin_refl support_ok_ticket [OF ok t]])
      moreover have "set ts \<subseteq> set (sd_tickets (change_status t actor Closed now db))" by (rule keep) (rule change_status_other)
      ultimately show ?thesis using 2 True False by simp
    qed (use 2 True in auto)
  next
    case False
    with "2.prems"(4) obtain db1 outcome where a: "assign env db t actor assignee (Some settings) now = Inr (db1, outcome)"
      by (auto simp: case_result_Inr)
    have "support_ok now db1" by (rule staff_edits_ok(4) [OF ok t a])
    moreover have "set ts \<subseteq> set (sd_tickets db1)" by (rule keep) (rule assign_other [OF a])
    ultimately show ?thesis using 2 False a by simp
  qed
qed simp

lemma bulk_request_ok: "support_ok now db \<Longrightarrow> bulk_request env db actor ids action now = Inr (db', n) \<Longrightarrow> support_ok now db'"
proof -
  assume ok: "support_ok now db" and req: "bulk_request env db actor ids action now = Inr (db', n)"
  let ?ts = "sort_key tk_id (filter (\<lambda>t. tk_id t \<in> set ids) (sd_tickets db))"
  from req obtain assignee db1 changed emails where
    b: "bulk_each env actor (action = Bulk_Close) assignee (load_settings env (sd_settings db)) now (db, [], []) ?ts = Inr (db1, changed, emails)"
    and db': "support_ok now db' = support_ok now db1"
    unfolding bulk_request_def guarded_Inr case_result_Inr Let_def by (auto simp: case_result_Inr split: if_splits)
  have "distinct (map tk_id ?ts)" using rows_distinct [OF ok] by (simp add: distinct_map)
  from bulk_each_ok [OF _ _ this b] ok show ?thesis unfolding db' by simp
qed

lemma put_settings_request_ok:
  "support_ok now db \<Longrightarrow> put_settings_request env db actor body now = Inr (db', saved) \<Longrightarrow> support_ok now db'"
proof -
  assume ok: "support_ok now db" and req: "put_settings_request env db actor body now = Inr (db', saved)"
  have "support_ok now (fst (restart_waiting_clocks (db\<lparr>sd_settings := s\<rparr>) now))" for s
    using ok by (intro restart_ok) simp
  then have "support_ok now d" if "restart_waiting_clocks (db\<lparr>sd_settings := s\<rparr>) now = (d, n)" for s d n
    using that by (metis fst_conv)
  with req ok show ?thesis
    unfolding put_settings_request_def guarded_Inr Let_def case_result_Inr
    by (auto split: if_splits prod.splits)
qed

lemma delete_in_batches_ok: "support_ok now db \<Longrightarrow> support_ok now (fst (delete_in_batches db ids conditions))"
  unfolding delete_in_batches_def
  by (rule fold_fst_inv [where P = "support_ok now"]) (simp_all add: delete_batch_def split_def Let_def delete_tickets_ok)

lemma delete_requests_ok:
  "support_ok now (meanwhile (delete_audit env scope active rows actor db)) \<Longrightarrow>
     delete_request_checks env db actor body token phrase now = Inr (scope, active, rows) \<Longrightarrow>
     delete_scope_request env meanwhile db actor body token phrase now = Inr (db', totals) \<Longrightarrow> support_ok now db'"
  "support_ok now db \<Longrightarrow> delete_all_request db actor phrase = Inr (db', totals) \<Longrightarrow> support_ok now db'"
  "support_ok now db \<Longrightarrow> delete_ticket_request db actor tid = Inr db' \<Longrightarrow> support_ok now db'"
proof -
  assume ok: "support_ok now (meanwhile (delete_audit env scope active rows actor db))"
    and r: "delete_request_checks env db actor body token phrase now = Inr (scope, active, rows)"
      "delete_scope_request env meanwhile db actor body token phrase now = Inr (db', totals)"
  then have "db' = fst (delete_in_batches (meanwhile (delete_audit env scope active rows actor db)) (map tk_id rows)
      (Some (confirmed_conditions env scope active)))"
    by (simp add: delete_scope_request_def)
  with ok show "support_ok now db'" by (simp add: delete_in_batches_ok)
next
  assume "support_ok now db" "delete_all_request db actor phrase = Inr (db', totals)"
  then show "support_ok now db'"
    by (auto simp: delete_all_request_def Let_def split: if_splits) (metis audit_ok delete_in_batches_ok fst_conv)
next
  assume "support_ok now db" "delete_ticket_request db actor tid = Inr db'"
  then show "support_ok now db'"
    by (auto simp: delete_ticket_request_def case_result_Inr Let_def delete_tickets_ok)
qed

lemma jobs_ok:
  "support_ok now db \<Longrightarrow> support_ok now (job_ticket_lifecycle env busy now db)"
  "support_ok now db \<Longrightarrow> support_ok now (job_ticket_retention env now db)"
  by (simp_all add: job_ticket_lifecycle_def job_ticket_retention_def Let_def release_ok close_jobs_ok purge_closed_ok)

end
