(* ===== verification/Ticket_Rules.thy ===== *)
theory Ticket_Rules
  imports Ticket_Desk
begin

text \<open>
  What the rules of support tickets achieve: the scheduled jobs over all their batches, the sweep of assignees, the
  purge, the limits of a person, confirmed deletion, and the invariant of the tables over every sequence of requests and
  jobs.
\<close>

section \<open>What the jobs do\<close>

lemma sorted_take_before:
  assumes "sorted (map k xs)" and "x \<in> set xs" and "x \<notin> set (take n xs)" and "y \<in> set (take n xs)"
  shows "k y \<le> k x"
proof -
  have "x \<in> set (drop n xs)" using assms(2,3) by (metis append_take_drop_id Un_iff set_append)
  moreover have "sorted (map k (take n xs @ drop n xs))" using assms(1) by simp
  ultimately show ?thesis using assms(4) by (simp add: sorted_append del: append_take_drop_id)
qed

lemma sorted_last_le: "sorted xs \<Longrightarrow> x \<in> set xs \<Longrightarrow> x \<le> last xs"
  by (induction xs) auto

text \<open>A batch holds every due row up to its last id.\<close>

lemma locked_batch_complete:
  assumes "t \<in> set (sd_tickets db)" and "after_id < tk_id t" and "due t" and "\<not> busy (tk_id t)"
    and "tk_id t \<le> tk_id (last (locked_batch due busy after_id db))" and "locked_batch due busy after_id db \<noteq> []"
    and "distinct (map tk_id (sd_tickets db))"
  shows "t \<in> set (locked_batch due busy after_id db)"
proof (rule ccontr)
  let ?all = "sort_key tk_id (filter (\<lambda>t. after_id < tk_id t \<and> due t \<and> \<not> busy (tk_id t)) (sd_tickets db))"
  let ?l = "last (locked_batch due busy after_id db)"
  assume no: "t \<notin> set (locked_batch due busy after_id db)"
  have l: "?l \<in> set (take JOB_BATCH ?all)" using last_in_set [OF assms(6)] by (simp add: locked_batch_def)
  have "tk_id ?l \<le> tk_id t"
    by (rule sorted_take_before [OF sorted_sort_key _ _ l]) (use assms no in \<open>simp_all add: locked_batch_def\<close>)
  with assms(5) have "tk_id ?l = tk_id t" by simp
  moreover have "?l \<in> set (sd_tickets db)" using locked_batch_after last_in_set [OF assms(6)] by blast
  ultimately have "?l = t" using assms(1,7) by (auto simp: distinct_map inj_on_def)
  with l no show False by (simp add: locked_batch_def)
qed

lemma put_ticket_map:
  assumes "distinct (map tk_id (sd_tickets db))" and "t \<in> set (sd_tickets db)" and "tk_id t' = tk_id t"
  shows "sd_tickets (put_ticket t' db) = map (\<lambda>x. if x = t then t' else x) (sd_tickets db)"
proof -
  have "x = t \<longleftrightarrow> tk_id x = tk_id t" if "x \<in> set (sd_tickets db)" for x
    using assms(1,2) that by (auto simp: distinct_map inj_on_def)
  then show ?thesis using assms(3) by (simp add: put_ticket_def modify_def)
qed

text \<open>Changing a list of rows one after the other changes exactly those rows.\<close>

lemma fold_put_map:
  assumes step: "\<And>db t. sd_tickets (f db t) = sd_tickets (put_ticket (change t) db)" and ids: "\<And>t. tk_id (change t) = tk_id t"
    and "distinct (map tk_id (sd_tickets db))" and "set ts \<subseteq> set (sd_tickets db)" and "distinct (map tk_id ts)"
  shows "sd_tickets (foldl f db ts) = map (\<lambda>x. if x \<in> set ts then change x else x) (sd_tickets db)"
  using assms(3-)
proof (induction ts arbitrary: db)
  case (Cons t ts)
  have one: "sd_tickets (f db t) = map (\<lambda>x. if x = t then change t else x) (sd_tickets db)"
    unfolding step by (rule put_ticket_map) (use Cons.prems ids in auto)
  have tl: "tk_id t \<notin> tk_id ` set ts" using Cons.prems(3) by simp
  have sub: "set ts \<subseteq> set (sd_tickets (f db t))"
  proof
    fix x assume "x \<in> set ts"
    then have "x \<noteq> t" "x \<in> set (sd_tickets db)" using tl Cons.prems(2) by auto
    then show "x \<in> set (sd_tickets (f db t))" unfolding one set_map by (intro image_eqI [of _ _ x]) simp_all
  qed
  have dist: "distinct (map tk_id (sd_tickets (f db t)))" using Cons.prems(1) unfolding step by simp
  have "change t \<notin> set ts" using tl ids by (metis imageI)
  with Cons.IH [OF dist sub] Cons.prems(3) show ?case by (auto simp: one)
qed simp

lemma close_batches_tickets:
  assumes "distinct (map tk_id (sd_tickets db))" and "\<And>t. tk_id (change t) = tk_id t"
  shows "sd_tickets (fst (close_batches due busy change facts now after_id db out)) =
    map (\<lambda>t. if after_id < tk_id t \<and> due t \<and> \<not> busy (tk_id t) then change t else t) (sd_tickets db)"
  using assms
proof (induction due busy change facts now after_id db out rule: close_batches.induct)
  case (1 due busy change facts now after_id db out)
  let ?batch = "locked_batch due busy after_id db"
  let ?db1 = "foldl (close_one change facts now) db ?batch"
  show ?case
  proof (cases "?batch = []")
    case True
    then have "set ?batch = {}" by simp
    then have "\<not> (after_id < tk_id t \<and> due t \<and> \<not> busy (tk_id t))" if "t \<in> set (sd_tickets db)" for t
      using that by (auto simp: locked_batch_def JOB_BATCH_def take_Cons' split: if_splits)
        (metis (no_types, lifting) emptyE list.set_intros(1) list.set(1) mem_Collect_eq set_filter set_sort)
    then have "map (\<lambda>t. if after_id < tk_id t \<and> due t \<and> \<not> busy (tk_id t) then change t else t) (sd_tickets db) = sd_tickets db"
      by (intro map_idI) auto
    with True show ?thesis by (subst close_batches.simps) (simp add: Let_def)
  next
    case False
    let ?last = "tk_id (last ?batch)"
    have rows: "set ?batch \<subseteq> set (sd_tickets db)" using locked_batch_after by blast
    have "distinct (map tk_id ?batch)"
      using 1(2) unfolding locked_batch_def take_map [symmetric] by (intro distinct_take) (simp add: distinct_map distinct_map_filter inj_on_def)
    then have db1: "sd_tickets ?db1 = map (\<lambda>x. if x \<in> set ?batch then change x else x) (sd_tickets db)"
      using 1(2,3) rows by (intro fold_put_map) (simp_all add: close_one_def)
    have bounds: "after_id < tk_id t \<and> tk_id t \<le> ?last \<and> due t \<and> \<not> busy (tk_id t)" if "t \<in> set ?batch" for t
    proof -
      have "sorted (map tk_id ?batch)" unfolding locked_batch_def take_map [symmetric] by (simp add: sorted_wrt_take)
      then have "tk_id t \<le> last (map tk_id ?batch)" using that by (intro sorted_last_le) simp_all
      then have "tk_id t \<le> ?last" by (simp add: last_map False)
      moreover have "after_id < tk_id t \<and> due t \<and> \<not> busy (tk_id t)" using that by (auto simp: locked_batch_def dest: in_set_takeD)
      ultimately show ?thesis by blast
    qed
    have IH: "sd_tickets (fst (close_batches due busy change facts now ?last ?db1 (out @ map tk_id ?batch))) =
        map (\<lambda>t. if ?last < tk_id t \<and> due t \<and> \<not> busy (tk_id t) then change t else t) (sd_tickets ?db1)"
      using 1(1) [OF refl False] 1(2,3) by simp
    have last_after: "after_id < ?last" using bounds False by (meson last_in_set)
    have same: "(if ?last < tk_id (if x \<in> set ?batch then change x else x) \<and> due (if x \<in> set ?batch then change x else x) \<and>
          \<not> busy (tk_id (if x \<in> set ?batch then change x else x)) then change (if x \<in> set ?batch then change x else x)
          else (if x \<in> set ?batch then change x else x)) =
        (if after_id < tk_id x \<and> due x \<and> \<not> busy (tk_id x) then change x else x)" if "x \<in> set (sd_tickets db)" for x
      using that bounds [of x] locked_batch_complete [OF that _ _ _ _ False 1(2)] last_after 1(3) by force
    show ?thesis
      using False IH same by (subst close_batches.simps) (simp add: Let_def db1)
  qed
qed

text \<open>The sweep of the assignees.\<close>

lemma release_ticket_tickets: "sd_tickets (release_ticket name aid now db t) = sd_tickets (put_ticket (unassigned t) db)"
  by (simp add: release_ticket_def)

lemma release_ticket_accounts [simp]:
  "ad_users (release_ticket name aid now db t) = ad_users db" "ad_roles (release_ticket name aid now db t) = ad_roles db"
  by (simp_all add: release_ticket_def add_event_def insert_message_def put_ticket_def)

lemma fold_release_accounts [simp]:
  "ad_users (foldl (release_ticket name aid now) db ts) = ad_users db"
  "ad_roles (foldl (release_ticket name aid now) db ts) = ad_roles db"
  by (induction ts arbitrary: db) simp_all

lemma role_slugs_cong: "ad_roles db' = ad_roles db \<Longrightarrow> get_user_role_slugs db' uid = get_user_role_slugs db uid"
  by (simp add: get_user_role_slugs_def role_rows_of_def)

lemma can_work_cong:
  assumes "ad_roles db' = ad_roles db"
  shows "can_work_tickets db' user = can_work_tickets db user"
  by (simp add: can_work_tickets_def role_slugs_cong [OF assms] split: option.split)

lemma release_assignee_tickets:
  assumes "distinct (map tk_id (sd_tickets db))"
  shows "sd_tickets (fst (release_assignee now (db, n) aid)) =
      map (\<lambda>t. if tk_assignee_id t = Some aid \<and> active_ticket t \<and> \<not> can_work_tickets db (fetch a_id aid (ad_users db))
               then unassigned t else t) (sd_tickets db)"
    and "ad_users (fst (release_assignee now (db, n) aid)) = ad_users db"
    and "ad_roles (fst (release_assignee now (db, n) aid)) = ad_roles db"
proof -
  let ?ts = "filter (\<lambda>t. tk_assignee_id t = Some aid \<and> active_ticket t) (sd_tickets db)"
  have "sd_tickets (foldl (release_ticket name aid now) db ?ts) = map (\<lambda>x. if x \<in> set ?ts then unassigned x else x) (sd_tickets db)" for name
    by (rule fold_put_map [OF release_ticket_tickets]) (use assms in \<open>auto simp: unassigned_def intro: distinct_map_filter\<close>)
  then show "sd_tickets (fst (release_assignee now (db, n) aid)) =
      map (\<lambda>t. if tk_assignee_id t = Some aid \<and> active_ticket t \<and> \<not> can_work_tickets db (fetch a_id aid (ad_users db))
               then unassigned t else t) (sd_tickets db)"
    by (simp add: release_assignee_def Let_def)
qed (simp_all add: release_assignee_def Let_def)

lemma release_fold_tickets:
  assumes "distinct (map tk_id (sd_tickets db))"
  shows "sd_tickets (fst (foldl (release_assignee now) (db, n) aids)) =
    map (\<lambda>t. if active_ticket t \<and> (\<exists>aid \<in> set aids. tk_assignee_id t = Some aid \<and> \<not> can_work_tickets db (fetch a_id aid (ad_users db)))
             then unassigned t else t) (sd_tickets db)"
  using assms
proof (induction aids arbitrary: db n)
  case (Cons aid aids)
  obtain db1 n1 where step: "release_assignee now (db, n) aid = (db1, n1)" by (rule prod.exhaust)
  note one = release_assignee_tickets [OF Cons.prems, of now n aid, unfolded step fst_conv]
  have "map tk_id (sd_tickets db1) = map tk_id (sd_tickets db)" unfolding one(1) by (simp add: unassigned_def)
  then have "distinct (map tk_id (sd_tickets db1))" using Cons.prems by (simp only:)
  note IH = Cons.IH [OF this, of n1]
  have work: "can_work_tickets db1 = can_work_tickets db" by (rule ext) (rule can_work_cong [OF one(3)])
  have "tk_assignee_id (unassigned t) = None" for t by (simp add: unassigned_def)
  then show ?case
    unfolding foldl_Cons step IH one work map_map comp_def
    by (intro map_cong refl) auto
qed (simp add: map_idI)

lemma release_tickets:
  assumes "distinct (map tk_id (sd_tickets db))"
  shows "sd_tickets (fst (release_orphaned_assignments db now)) =
    map (\<lambda>t. case tk_assignee_id t of None \<Rightarrow> t
         | Some aid \<Rightarrow> if active_ticket t \<and> \<not> can_work_tickets db (fetch a_id aid (ad_users db)) then unassigned t else t) (sd_tickets db)"
proof -
  have "aid \<in> set (assignees_of_active db)" if "t \<in> set (sd_tickets db)" "active_ticket t" "tk_assignee_id t = Some aid" for t aid
    using that by (force simp: assignees_of_active_def List.map_filter_def)
  then show ?thesis
    unfolding release_orphaned_assignments_def release_fold_tickets [OF assms]
    by (intro map_cong refl) (auto split: option.split)
qed

lemma release_accounts:
  "ad_users (fst (release_orphaned_assignments db now)) = ad_users db \<and> ad_roles (fst (release_orphaned_assignments db now)) = ad_roles db"
proof -
  have "ad_users (fst (foldl (release_assignee now) acc ids)) = ad_users (fst acc) \<and>
      ad_roles (fst (foldl (release_assignee now) acc ids)) = ad_roles (fst acc)" for acc ids
  proof (induction ids arbitrary: acc)
    case (Cons i ids)
    have "ad_users (fst (release_assignee now acc i)) = ad_users (fst acc)" "ad_roles (fst (release_assignee now acc i)) = ad_roles (fst acc)"
      by (simp_all add: release_assignee_def Let_def split: prod.split)
    with Cons show ?case by simp
  qed simp
  from this [of "(db, 0)" "assignees_of_active db"] show ?thesis by (simp add: release_orphaned_assignments_def)
qed

text \<open>The purge.\<close>

lemma purge_loop_tickets:
  "sd_tickets (fst (purge_loop cutoff db totals)) = filter (\<lambda>t. \<not> closed_due cutoff t) (sd_tickets db)"
proof (induction cutoff db totals rule: purge_loop.induct)
  case (1 cutoff db totals)
  show ?case
  proof (cases "due_ids cutoff db = []")
    case True
    then have "map tk_id (sort_key tk_id (filter (closed_due cutoff) (sd_tickets db))) = []" by (simp add: due_ids_def JOB_BATCH_def)
    then have "set (sort_key tk_id (filter (closed_due cutoff) (sd_tickets db))) = {}" by simp
    then have "filter (closed_due cutoff) (sd_tickets db) = []" by (simp add: filter_empty_conv)
    then have "filter (\<lambda>t. \<not> closed_due cutoff t) (sd_tickets db) = sd_tickets db" by (simp add: filter_empty_conv filter_id_conv)
    with True show ?thesis by (subst purge_loop.simps) simp
  next
    case False
    obtain db1 counts where step: "delete_tickets db (due_ids cutoff db) (Some (closed_due cutoff)) = (db1, counts)" by (rule prod.exhaust)
    have "sd_tickets db1 = filter (\<lambda>t. \<not> (tk_id t \<in> set (due_ids cutoff db) \<and> closed_due cutoff t)) (sd_tickets db)"
      using delete_tickets_tickets [of db "due_ids cutoff db" "Some (closed_due cutoff)"] unfolding step fst_conv meets_def option.case .
    moreover have "sd_tickets (fst (purge_loop cutoff db1 (add_totals totals counts))) = filter (\<lambda>t. \<not> closed_due cutoff t) (sd_tickets db1)"
      using 1 [OF refl False step [symmetric] refl] .
    ultimately have "sd_tickets (fst (purge_loop cutoff db1 (add_totals totals counts))) =
        filter (\<lambda>t. \<not> closed_due cutoff t) (filter (\<lambda>t. \<not> (tk_id t \<in> set (due_ids cutoff db) \<and> closed_due cutoff t)) (sd_tickets db))"
      by (simp only:)
    also have "\<dots> = filter (\<lambda>t. \<not> closed_due cutoff t) (sd_tickets db)"
      unfolding filter_filter by (rule filter_cong [OF refl]) blast
    finally have "sd_tickets (fst (purge_loop cutoff db1 (add_totals totals counts))) = filter (\<lambda>t. \<not> closed_due cutoff t) (sd_tickets db)" .
    with False show ?thesis by (subst purge_loop.simps) (simp add: step Let_def)
  qed
qed

section \<open>Tickets as an event system\<close>

text \<open>
  The state is the clock and the database. Requests name the account that makes them; the accounts change in any way
  between two requests. \<open>Purge_Person\<close> is the deletion of a purged person's tickets.
\<close>

datatype 'u support_event =
    Time_Passes int
  | Accounts_Change account_db
  | Person_Create int ticket_request string "'u list"
  | Person_Reply int int string "'u list"
  | Person_Resolve int int
  | Person_Open int int
  | Staff_Write int int string string string "'u list"
  | Staff_Patch int int ticket_patch
  | Staff_Assign int int "int option"
  | Staff_Take int int
  | Staff_Bulk int "int list" bulk_action
  | Save_Settings int payload
  | Delete_Scope int delete_request "(delete_token \<times> string) option" string
  | Delete_All int string
  | Delete_One int int
  | Purge_Person int
  | Lifecycle_Job "int list"
  | Retention_Job

definition by_account ::
  "'x support_db_scheme \<Rightarrow> int \<Rightarrow> (account \<Rightarrow> ('x support_db_scheme) ticket_result) \<Rightarrow> 'x support_db_scheme" where
  "by_account db uid f =
     (case fetch a_id uid (ad_users db) of
        None \<Rightarrow> db
      | Some user \<Rightarrow> (case f user of Inl _ \<Rightarrow> db | Inr db' \<Rightarrow> db'))"

definition state_of :: "('s \<times> 'a) ticket_result \<Rightarrow> 's ticket_result" where
  "state_of r = map_sum id fst r"

definition with_accounts :: "account_db \<Rightarrow> 'x support_db_scheme \<Rightarrow> 'x support_db_scheme" where
  "with_accounts accounts db = account_db.extend accounts (account_db.more db)"

fun support_change ::
  "'e confirm_env_scheme \<Rightarrow> 'u image_store \<Rightarrow> time \<Rightarrow> 'x support_db_scheme \<Rightarrow> 'u support_event \<Rightarrow> 'x support_db_scheme" where
  "support_change env store now db (Time_Passes d) = db"
| "support_change env store now db (Accounts_Change accounts) = with_accounts accounts db"
| "support_change env store now db (Person_Create uid form raw uploads) =
     by_account db uid (\<lambda>u. state_of (create_request env store db db u form raw uploads now))"
| "support_change env store now db (Person_Reply uid tid body uploads) =
     by_account db uid (\<lambda>u. reply_request env store db db u tid body uploads now)"
| "support_change env store now db (Person_Resolve uid tid) = by_account db uid (\<lambda>u. resolve_request env db u tid now)"
| "support_change env store now db (Person_Open uid tid) = by_account db uid (\<lambda>u. state_of (open_request env db u tid now))"
| "support_change env store now db (Staff_Write uid tid body internal status uploads) =
     by_account db uid (\<lambda>u. staff_message_request env store db db u tid body internal status uploads now)"
| "support_change env store now db (Staff_Patch uid tid body) = by_account db uid (\<lambda>u. patch_request env db u tid body now)"
| "support_change env store now db (Staff_Assign uid tid assignee) = by_account db uid (\<lambda>u. assign_request env db u tid assignee now)"
| "support_change env store now db (Staff_Take uid tid) = by_account db uid (\<lambda>u. assign_to_me_request env db u tid now)"
| "support_change env store now db (Staff_Bulk uid ids action) = by_account db uid (\<lambda>u. state_of (bulk_request env db u ids action now))"
| "support_change env store now db (Save_Settings uid body) =
     by_account db uid (\<lambda>u. state_of (put_settings_request env db u body now))"
| "support_change env store now db (Delete_Scope uid body token phrase) =
     by_account db uid (\<lambda>u. state_of (delete_scope_request env id db u body token phrase now))"
| "support_change env store now db (Delete_All uid phrase) = by_account db uid (\<lambda>u. state_of (delete_all_request db u phrase))"
| "support_change env store now db (Delete_One uid tid) = by_account db uid (\<lambda>u. delete_ticket_request db u tid)"
| "support_change env store now db (Purge_Person uid) = fst (delete_user_tickets db uid)"
| "support_change env store now db (Lifecycle_Job busy) = job_ticket_lifecycle env (\<lambda>i. i \<in> set busy) now db"
| "support_change env store now db Retention_Job = job_ticket_retention env now db"

fun clock_after :: "time \<Rightarrow> 'u support_event \<Rightarrow> time" where
  "clock_after now (Time_Passes d) = now + d"
| "clock_after now e = now"

fun clock_forward :: "'u support_event \<Rightarrow> bool" where
  "clock_forward (Time_Passes d) \<longleftrightarrow> 0 \<le> d"
| "clock_forward e \<longleftrightarrow> True"

definition support_step ::
  "'e confirm_env_scheme \<Rightarrow> 'u image_store \<Rightarrow> time \<times> 'x support_db_scheme \<Rightarrow> 'u support_event \<Rightarrow> time \<times> 'x support_db_scheme" where
  "support_step env store s e = (clock_after (fst s) e, support_change env store (fst s) (snd s) e)"

lemma with_accounts_ok [simp]: "support_ok now (with_accounts accounts db) = support_ok now db"
  by (cases db)
    (simp add: with_accounts_def account_db.defs support_ok_def tables_ok_def message_ok_def attachment_ok_def opening_ok_def
      first_message_def list_all_iff)

lemma by_account_ok: "support_ok now db \<Longrightarrow> (\<And>u db'. f u = Inr db' \<Longrightarrow> support_ok now db') \<Longrightarrow> support_ok now (by_account db uid f)"
  by (simp add: by_account_def split: option.split sum.split)

lemma state_of_Inr [simp]: "state_of r = Inr s \<longleftrightarrow> (\<exists>a. r = Inr (s, a))"
  by (cases r) (auto simp: state_of_def)

lemma delete_scope_now_ok:
  assumes "support_ok now db" and "delete_scope_request env id db actor body token phrase now = Inr (db', totals)"
  shows "support_ok now db'"
proof -
  from assms(2) obtain scope active rows where r: "delete_request_checks env db actor body token phrase now = Inr (scope, active, rows)"
    by (auto simp: delete_scope_request_def split: sum.splits)
  show ?thesis by (rule delete_requests_ok(1) [OF _ r assms(2)]) (simp add: assms(1) delete_audit_def Let_def)
qed

lemma support_change_ok:
  assumes "support_ok now db"
  shows "support_ok now (support_change env store now db e)"
proof (cases e)
  case (Person_Create uid form raw uploads)
  show ?thesis unfolding Person_Create support_change.simps
    by (rule by_account_ok [OF assms]) (unfold state_of_Inr, elim exE, rule create_request_ok [OF assms])
next
  case (Person_Reply uid tid body uploads)
  show ?thesis unfolding Person_Reply support_change.simps
    by (rule by_account_ok [OF assms]) (rule reply_request_ok [OF assms])
next
  case (Person_Resolve uid tid)
  show ?thesis unfolding Person_Resolve support_change.simps
    by (rule by_account_ok [OF assms]) (rule resolve_request_ok [OF assms])
next
  case (Person_Open uid tid)
  show ?thesis unfolding Person_Open support_change.simps
    by (rule by_account_ok [OF assms]) (unfold state_of_Inr, elim exE, rule open_request_ok [OF assms])
next
  case (Staff_Write uid tid body internal status uploads)
  show ?thesis unfolding Staff_Write support_change.simps
    by (rule by_account_ok [OF assms]) (rule staff_message_request_ok [OF assms])
next
  case (Staff_Patch uid tid body)
  show ?thesis unfolding Staff_Patch support_change.simps
    by (rule by_account_ok [OF assms]) (rule patch_request_ok [OF assms])
next
  case (Staff_Assign uid tid assignee)
  show ?thesis unfolding Staff_Assign support_change.simps
    by (rule by_account_ok [OF assms]) (rule assign_requests_ok(1) [OF assms])
next
  case (Staff_Take uid tid)
  show ?thesis unfolding Staff_Take support_change.simps
    by (rule by_account_ok [OF assms]) (rule assign_requests_ok(2) [OF assms])
next
  case (Staff_Bulk uid ids action)
  show ?thesis unfolding Staff_Bulk support_change.simps
    by (rule by_account_ok [OF assms]) (unfold state_of_Inr, elim exE, rule bulk_request_ok [OF assms])
next
  case (Save_Settings uid body)
  show ?thesis unfolding Save_Settings support_change.simps
    by (rule by_account_ok [OF assms]) (unfold state_of_Inr, elim exE, rule put_settings_request_ok [OF assms])
next
  case (Delete_Scope uid body token phrase)
  show ?thesis unfolding Delete_Scope support_change.simps
    by (rule by_account_ok [OF assms]) (unfold state_of_Inr, elim exE, rule delete_scope_now_ok [OF assms])
next
  case (Delete_All uid phrase)
  show ?thesis unfolding Delete_All support_change.simps
    by (rule by_account_ok [OF assms]) (unfold state_of_Inr, elim exE, rule delete_requests_ok(2) [OF assms])
next
  case (Delete_One uid tid)
  show ?thesis unfolding Delete_One support_change.simps
    by (rule by_account_ok [OF assms]) (rule delete_requests_ok(3) [OF assms])
qed (simp_all add: assms jobs_ok delete_user_tickets_def delete_tickets_ok)

interpretation support: invariant_system "support_step env store" clock_forward "\<lambda>s. support_ok (fst s) (snd s)"
  for env :: "'e confirm_env_scheme" and store :: "'u image_store"
proof
  fix e :: "'u support_event" and s :: "time \<times> 'b support_db_scheme"
  assume "clock_forward e" and ok: "support_ok (fst s) (snd s)"
  then have "fst s \<le> clock_after (fst s) e" by (cases e) simp_all
  with support_ok_mono [OF support_change_ok [OF ok]]
  show "support_ok (fst (support_step env store s e)) (snd (support_step env store s e))"
    by (simp add: support_step_def)
qed

section \<open>Properties\<close>

text \<open>
  C32: no sequence of requests, jobs and changes of the accounts breaks the tables of Support: the number of every
  ticket is its id plus 1000; a ticket waits since a time exactly while it is waiting, is closed with a reason exactly
  when it is closed, was resolved by someone exactly when it has a time of resolution, never needs staff once it has
  ended, and was not resolved after it was closed; every message and image belongs to a ticket that exists; and every
  thread begins with the person's message.
\<close>

theorem run_keeps_tickets:
  assumes "support_ok now db" and "list_all clock_forward es"
  shows "support_ok (fst (foldl (support_step env store) (now, db) es)) (snd (foldl (support_step env store) (now, db) es))"
  using support.run_inv [OF assms(2), of "(now, db)" env store] assms(1) by simp

definition sample_confirm :: confirm_env where
  "sample_confirm = desk_env.extend sample_desk \<lparr>ce_mac = (\<lambda>_. ''sig''), ce_digest = (\<lambda>_. [])\<rparr>"

definition no_store :: "unit image_store" where
  "no_store settings owner uploads = Inr []"

definition sample_events :: "(unit support_event) list" where
  "sample_events =
     [Person_Reply 1 3 ''still slow'' [], Staff_Write 2 3 ''which page?'' ''false'' ''waiting'' [], Time_Passes (days 8),
      Lifecycle_Job [], Time_Passes (days 400), Retention_Job]"

theorem run_keeps_tickets_witness:
  "(let s = foldl (support_step sample_confirm no_store) (5, sample_support [Open, Waiting, Resolved, Closed]) sample_events
    in support_ok (fst s) (snd s) \<and> map tk_id (sd_tickets (snd s)) = [1])"
proof -
  have "list_all clock_forward sample_events" by code_simp
  from run_keeps_tickets [OF sample_support_ok this, of sample_confirm no_store]
  have "let s = foldl (support_step sample_confirm no_store) (5, sample_support [Open, Waiting, Resolved, Closed]) sample_events
    in support_ok (fst s) (snd s)" by (simp add: Let_def)
  moreover have "map tk_id (sd_tickets (snd (foldl (support_step sample_confirm no_store)
      (5, sample_support [Open, Waiting, Resolved, Closed]) sample_events))) = [1]" by code_simp
  ultimately show ?thesis by (simp add: Let_def)
qed

lemma support_ok_distinct: "support_ok now db \<Longrightarrow> distinct (map tk_id (sd_tickets db))"
  by (simp add: support_ok_def tables_ok_def)

lemma days_mono: "m \<le> n \<Longrightarrow> days m \<le> days n"
  by (simp add: days_def seconds_def)

text \<open>
  C34: the nightly purge deletes exactly the closed tickets past the longer of the retention period and the reopen
  window (none when retention is off), so the person can no longer reopen any ticket it deletes, and it leaves no
  message or image behind.
\<close>

theorem purge_spares_reopenable:
  assumes "support_ok now db" and "settings = load_settings env (sd_settings db)"
  shows "sd_tickets (fst (purge_closed_tickets env db now)) =
      filter (\<lambda>t. \<not> (0 < ts_retention_days settings \<and> closed_due (purge_cutoff settings now) t)) (sd_tickets db)
    \<and> list_all (\<lambda>t. t \<in> set (sd_tickets (fst (purge_closed_tickets env db now))) \<or> reopen_passed t settings now) (sd_tickets db)
    \<and> support_ok now (fst (purge_closed_tickets env db now))"
proof (intro conjI)
  show tickets: "sd_tickets (fst (purge_closed_tickets env db now)) =
      filter (\<lambda>t. \<not> (0 < ts_retention_days settings \<and> closed_due (purge_cutoff settings now) t)) (sd_tickets db)"
    by (auto simp: purge_closed_tickets_def assms(2) [symmetric] Let_def purge_loop_tickets not_le)
  have "reopen_passed t settings now" if t: "t \<in> set (sd_tickets db)" and due: "closed_due (purge_cutoff settings now) t" for t
  proof -
    from due obtain c where c: "tk_status t = Closed" "tk_closed_at t = Some c" "c < purge_cutoff settings now"
      by (auto simp: closed_due_def split: option.splits)
    have early: "c + days (ts_reopen_days settings) < now"
      using c(3) days_mono [of "ts_reopen_days settings" "max (ts_retention_days settings) (ts_reopen_days settings)"]
      by (simp add: purge_cutoff_def)
    have "at_most (tk_resolved_at t) c"
      using support_ok_ticket [OF assms(1) t] c by (simp add: ticket_ok_def times_ok_def)
    with c early show ?thesis
      by (auto simp: reopen_passed_def reopen_until_def first_some_def at_most_def split: option.splits)
  qed
  then show "list_all (\<lambda>t. t \<in> set (sd_tickets (fst (purge_closed_tickets env db now))) \<or> reopen_passed t settings now) (sd_tickets db)"
    unfolding tickets by (auto simp: list_all_iff)
  show "support_ok now (fst (purge_closed_tickets env db now))" by (rule purge_closed_ok [OF assms(1)])
qed

theorem purge_spares_reopenable_witness:
  "map tk_id (sd_tickets (fst (purge_closed_tickets sample_env (sample_support [Closed, Resolved]) (days 366)))) = [2]"
proof -
  let ?db = "sample_support [Closed, Resolved]"
  have "support_ok (days 366) ?db" by code_simp
  from conjunct1 [OF purge_spares_reopenable [OF this refl, of sample_env]]
  have "map tk_id (sd_tickets (fst (purge_closed_tickets sample_env ?db (days 366)))) =
      map tk_id (filter (\<lambda>t. \<not> (0 < ts_retention_days (load_settings sample_env (sd_settings ?db)) \<and>
        closed_due (purge_cutoff (load_settings sample_env (sd_settings ?db)) (days 366)) t)) (sd_tickets ?db))" by simp
  also have "\<dots> = [2]" by code_simp
  finally show ?thesis .
qed

text \<open>
  C35: over all its batches, the automatic close ends every ticket that waited longer than the days allowed, except
  the rows another session holds, and changes no other ticket; while Support is off it changes none.
\<close>

theorem auto_close_exact:
  assumes "support_ok now db" and "settings = load_settings env (sd_settings db)"
  shows "sd_tickets (fst (close_waiting_tickets env db busy now)) =
    map (\<lambda>t. if ts_enabled settings \<and> waiting_due (now - days (ts_auto_close_days settings)) t \<and> \<not> busy (tk_id t)
             then auto_closed now t else t) (sd_tickets db)"
proof -
  have pos: "0 < tk_id t" if "t \<in> set (sd_tickets db)" for t
    using assms(1) that by (auto simp: support_ok_def tables_ok_def list_all_iff)
  show ?thesis
  proof (cases "ts_enabled settings")
    case True
    have "tk_id (auto_closed now t) = tk_id t" for t by (simp add: auto_closed_def)
    from close_batches_tickets [OF support_ok_distinct [OF assms(1)] this]
    have "sd_tickets (fst (close_waiting_tickets env db busy now)) =
      map (\<lambda>t. if 0 < tk_id t \<and> waiting_due (now - days (ts_auto_close_days settings)) t \<and> \<not> busy (tk_id t)
             then auto_closed now t else t) (sd_tickets db)"
      using True unfolding close_waiting_tickets_def assms(2) [symmetric] Let_def by simp
    also have "\<dots> = map (\<lambda>t. if ts_enabled settings \<and> waiting_due (now - days (ts_auto_close_days settings)) t \<and> \<not> busy (tk_id t)
             then auto_closed now t else t) (sd_tickets db)"
      using True pos by (intro map_cong refl) simp
    finally show ?thesis .
  qed (simp add: close_waiting_tickets_def assms(2) [symmetric] Let_def)
qed

theorem auto_close_exact_witness:
  "map tk_status (sd_tickets (fst (close_waiting_tickets sample_env (sample_support [Waiting, Waiting, Open]) (\<lambda>i. i = 2) (days 8)))) =
     [Closed, Waiting, Open]"
proof -
  let ?db = "sample_support [Waiting, Waiting, Open]"
  have "support_ok (days 8) ?db" by code_simp
  from auto_close_exact [OF this refl, of sample_env "\<lambda>i. i = 2"]
  have "map tk_status (sd_tickets (fst (close_waiting_tickets sample_env ?db (\<lambda>i. i = 2) (days 8)))) =
      map tk_status (map (\<lambda>t. if ts_enabled (load_settings sample_env (sd_settings ?db)) \<and>
          waiting_due (days 8 - days (ts_auto_close_days (load_settings sample_env (sd_settings ?db)))) t \<and> \<not> tk_id t = 2
        then auto_closed (days 8) t else t) (sd_tickets ?db))" by simp
  also have "\<dots> = [Closed, Waiting, Open]" by code_simp
  finally show ?thesis .
qed

section \<open>Who holds a ticket, and how many a person has\<close>

lemma fold_close_accounts [simp]:
  "ad_users (foldl (close_one change facts now) db ts) = ad_users db"
  "ad_roles (foldl (close_one change facts now) db ts) = ad_roles db"
  by (induction ts arbitrary: db) (simp_all add: close_one_def add_event_def insert_message_def put_ticket_def)

lemma close_batches_accounts:
  "ad_users (fst (close_batches due busy change facts now after_id db out)) = ad_users db
   \<and> ad_roles (fst (close_batches due busy change facts now after_id db out)) = ad_roles db"
proof (induction due busy change facts now after_id db out rule: close_batches.induct)
  case (1 due busy change facts now after_id db out)
  then show ?case by (subst (1 2) close_batches.simps) (simp add: Let_def)
qed

definition held_by_worker :: "'x support_db_scheme \<Rightarrow> ticket \<Rightarrow> bool" where
  "held_by_worker db t \<longleftrightarrow>
     (case tk_assignee_id t of None \<Rightarrow> True
      | Some aid \<Rightarrow> \<not> active_ticket t \<or> can_work_tickets db (fetch a_id aid (ad_users db)))"

text \<open>
  C39: after the lifecycle job no active ticket is held by somebody who cannot work tickets: an assignee who was
  deleted, disabled or lost the role has been taken off.
\<close>

theorem sweep_leaves_workers:
  assumes "support_ok now db"
  shows "list_all (held_by_worker db) (sd_tickets (job_ticket_lifecycle env busy now db))"
proof -
  let ?db2 = "fst (close_resolved_tickets env (fst (close_waiting_tickets env db busy now)) busy now)"
  have "support_ok now ?db2" by (simp add: assms close_jobs_ok)
  note rows = release_tickets [OF support_ok_distinct [OF this], of now]
  have same: "ad_users ?db2 = ad_users db" "ad_roles ?db2 = ad_roles db"
    by (simp_all add: close_resolved_tickets_def close_waiting_tickets_def close_batches_accounts Let_def)
  have work: "can_work_tickets ?db2 = can_work_tickets db" by (rule ext) (rule can_work_cong [OF same(2)])
  show ?thesis
    unfolding job_ticket_lifecycle_def Let_def list_all_iff rows
    by (auto simp: held_by_worker_def work same unassigned_def split: option.splits)
qed

theorem sweep_leaves_workers_witness:
  "(let db = put_ticket ((sample_ticket 1 Open)\<lparr>tk_assignee_id := Some 1, tk_assigned_at := Some 1\<rparr>) (sample_support [Open, Waiting]);
        after = sd_tickets (job_ticket_lifecycle sample_env (\<lambda>_. False) 5 db)
    in list_all (held_by_worker db) after \<and> map tk_assignee_id after = [None, None])"
proof -
  let ?db = "put_ticket ((sample_ticket 1 Open)\<lparr>tk_assignee_id := Some 1, tk_assigned_at := Some 1\<rparr>) (sample_support [Open, Waiting])"
  have "support_ok 5 ?db" by code_simp
  note sweep_leaves_workers [OF this, of sample_env "\<lambda>_. False"]
  moreover have "map tk_assignee_id (sd_tickets (job_ticket_lifecycle sample_env (\<lambda>_. False) 5 ?db)) = [None, None]" by code_simp
  ultimately show ?thesis by (simp add: Let_def)
qed

text \<open>
  A person who opens a ticket has one more active ticket than before, never more than the settings allow at
  once, and never more opened within the hour than the settings allow.
\<close>

theorem create_within_limits:
  assumes "create_ticket env db user rq images settings now = Inr (db', t)"
  shows "active_tickets db' (a_id user) = active_tickets db (a_id user) + 1
    \<and> active_tickets db' (a_id user) \<le> ts_max_open settings
    \<and> recent_tickets db' (a_id user) (now - seconds 3600) \<le> ts_per_hour settings"
proof -
  from assms obtain title description where pre: "precheck_create db user rq settings now = Inr (title, description)"
    and rows: "sd_tickets db' = sd_tickets db @ [new_ticket env (sd_next_ticket db) user title rq now]"
    by (auto simp: create_ticket_def Let_def insert_ticket_def split: sum.splits if_splits)
  from pre have "active_tickets db (a_id user) < ts_max_open settings"
    "recent_tickets db (a_id user) (now - seconds 3600) < ts_per_hour settings"
    by (auto simp: precheck_create_def not_le split: sum.splits if_splits)
  then show ?thesis
    by (simp add: active_tickets_def recent_tickets_def count_tickets_def rows new_ticket_def active_ticket_def ACTIVE_STATUSES_def)
qed

definition sample_request :: ticket_request where
  "sample_request = \<lparr>rq_title = ''Slow'', rq_description = ''It is slow'', rq_category = ''Bug'', rq_priority = ''normal'',
     rq_context = None\<rparr>"

theorem create_within_limits_witness:
  "active_tickets (fst (projr (create_ticket sample_env (sample_support [Open, Waiting, Closed]) (sample_account 1 ''ann'')
      sample_request [] (default_settings\<lparr>ts_max_open := 3\<rparr>) 5))) 1 = 3"
proof -
  let ?r = "create_ticket sample_env (sample_support [Open, Waiting, Closed]) (sample_account 1 ''ann'') sample_request []
    (default_settings\<lparr>ts_max_open := 3\<rparr>) 5"
  have "\<not> isl ?r" by code_simp
  then have "?r = Inr (fst (projr ?r), snd (projr ?r))" by (cases ?r) simp_all
  from create_within_limits [OF this] have "active_tickets (fst (projr ?r)) 1 = active_tickets (sample_support [Open, Waiting, Closed]) 1 + 1"
    by (simp add: sample_account_def)
  also have "\<dots> = 3" by code_simp
  finally show ?thesis .
qed

lemma count_put_ticket:
  assumes "support_ok now db" and "t \<in> set (sd_tickets db)" and "tk_id t' = tk_id t" and "\<not> p t" and "p t'"
  shows "count_tickets p (put_ticket t' db) = count_tickets p db + 1"
proof -
  obtain xs ys where rows: "sd_tickets db = xs @ t # ys" using split_list [OF assms(2)] by blast
  have "distinct (sd_tickets db)" using support_ok_distinct [OF assms(1)] by (simp only: distinct_map)
  then have "distinct (xs @ t # ys)" by (simp only: rows)
  then have "map (\<lambda>x. if x = t then t' else x) (sd_tickets db) = xs @ t' # ys" by (auto simp: rows intro!: map_idI)
  then show ?thesis
    using assms(4,5) by (simp add: count_tickets_def put_ticket_map [OF support_ok_distinct [OF assms(1)] assms(2,3)] rows)
qed



section \<open>Confirmed deletion\<close>

lemma delete_batches_tickets:
  "sd_tickets (fst (foldl (delete_batch conditions) acc cs)) =
     filter (\<lambda>t. \<not> (tk_id t \<in> \<Union> (set ` set cs) \<and> meets conditions t)) (sd_tickets (fst acc))"
proof (induction cs arbitrary: acc)
  case (Cons c cs)
  have "sd_tickets (fst (delete_batch conditions acc c)) =
      filter (\<lambda>t. \<not> (tk_id t \<in> set c \<and> meets conditions t)) (sd_tickets (fst acc))"
    by (simp add: delete_batch_def split_def Let_def delete_tickets_tickets)
  then show ?case by (auto simp: Cons.IH intro!: filter_cong)
qed simp

lemma delete_in_batches_tickets:
  "sd_tickets (fst (delete_in_batches db ids conditions)) =
     filter (\<lambda>t. \<not> (tk_id t \<in> set ids \<and> meets conditions t)) (sd_tickets db)"
  by (simp add: delete_in_batches_def delete_batches_tickets set_chunks DELETE_BATCH_def)

definition deleted_tickets :: "'x support_db_scheme \<Rightarrow> 'x support_db_scheme \<Rightarrow> ticket list" where
  "deleted_tickets before after = filter (\<lambda>t. t \<notin> set (sd_tickets after)) (sd_tickets before)"

lemma preview_token:
  assumes "preview_request env db actor body now = Inr (totals, (token, signature), phrase)"
  obtains scope where "normal_scope env body = Inr scope" and "totals = totals_of db (scope_conditions env scope)"
    and "tt_actor token = a_id actor" and "tt_digest token = ce_digest env scope" and "tt_count token = sc_count totals"
    and "tt_includes_active token = sc_includes_active totals" and "tt_expires token = epoch now + TOKEN_TTL_SECONDS"
    and "phrase = delete_phrase (sc_count totals)"
  using assms by (auto simp: preview_request_def guarded_Inr case_result_Inr sign_delete_token_def Let_def)

lemma checked_delete:
  assumes "delete_request_checks env db actor body (Some (token, signature)) phrase now = Inr (scope, active, rows)"
  shows "require_ticket_admin db actor = None" and "normal_scope env body = Inr scope" and "tt_actor token = a_id actor"
    and "tt_digest token = ce_digest env scope" and "epoch now \<le> tt_expires token" and "active = tt_includes_active token"
    and "strip phrase = delete_phrase (tt_count token)" and "int (length rows) = tt_count token"
    and "rows = filter (confirmed_conditions env scope active) (sd_tickets db)"
  using assms
  by (auto simp: delete_request_checks_def guarded_Inr case_result_Inr read_delete_token_def Let_def split: if_splits)

lemma deleted_bounded:
  assumes "distinct (map tk_id ts)" and "list_all (\<lambda>t. tk_id t \<in> set ids) ts"
  shows "length ts \<le> length ids"
proof -
  have "length ts = card (tk_id ` set ts)" using distinct_card [OF assms(1)] by simp
  also have "\<dots> \<le> card (set ids)" using assms(2) by (intro card_mono) (auto simp: list_all_iff)
  also have "\<dots> \<le> length ids" by (rule card_length)
  finally show ?thesis .
qed

text \<open>
  C38: a deletion confirmed with the token of a preview is made by the Super Admin who previewed, within ten minutes,
  for the scope that was previewed, after typing its phrase; and whatever happened to the tickets between preview,
  check and deletion, it deletes no more tickets than the preview counted, only tickets that are in the scope when
  they are deleted, and, of tickets chosen one by one that were all ended, none that was reopened. The digest of the
  requested scope is taken to be that of no other previewed scope.
\<close>

theorem confirmed_deletion:
  assumes "preview_request env db0 actor0 body0 now0 = Inr (totals, (token, signature), phrase0)"
    and "normal_scope env body0 = Inr scope0"
    and "\<And>scope. normal_scope env body = Inr scope \<Longrightarrow> ce_digest env scope = ce_digest env scope0 \<Longrightarrow> scope = scope0"
    and "support_ok now later"
    and "delete_scope_request env (\<lambda>_. later) db actor body (Some (token, signature)) phrase now = Inr (db', gone)"
  shows "a_id actor = a_id actor0 \<and> require_ticket_admin db actor = None \<and> epoch now \<le> epoch now0 + TOKEN_TTL_SECONDS
    \<and> normal_scope env body = Inr scope0 \<and> strip phrase = phrase0
    \<and> int (length (deleted_tickets later db')) \<le> sc_count totals
    \<and> list_all (scope_conditions env scope0) (deleted_tickets later db')
    \<and> (case scope0 of Scope_Ids ids \<Rightarrow> list_all (\<lambda>t. sc_includes_active totals \<or> done_ticket t) (deleted_tickets later db') | _ \<Rightarrow> True)"
proof -
  obtain active rows scope where checks: "delete_request_checks env db actor body (Some (token, signature)) phrase now = Inr (scope, active, rows)"
    and run: "db' = fst (delete_in_batches later (map tk_id rows) (Some (confirmed_conditions env scope active)))"
    using assms(5) by (auto simp: delete_scope_request_def split: sum.splits)
  note c = checked_delete [OF checks]
  obtain s0 where p: "normal_scope env body0 = Inr s0" "tt_actor token = a_id actor0" "tt_digest token = ce_digest env s0"
    "tt_count token = sc_count totals" "tt_includes_active token = sc_includes_active totals"
    "tt_expires token = epoch now0 + TOKEN_TTL_SECONDS" "phrase0 = delete_phrase (sc_count totals)"
    using preview_token [OF assms(1)] by metis
  have scope: "scope = scope0" using assms(3) [OF c(2)] c(4) p(1,3) assms(2) by simp
  have "deleted_tickets later db' =
      filter (\<lambda>t. tk_id t \<in> set (map tk_id rows) \<and> confirmed_conditions env scope0 active t) (sd_tickets later)"
    unfolding deleted_tickets_def run delete_in_batches_tickets meets_def scope by (intro filter_cong refl) auto
  then have del: "list_all (\<lambda>t. tk_id t \<in> set (map tk_id rows)) (deleted_tickets later db')"
    "list_all (confirmed_conditions env scope0 active) (deleted_tickets later db')" by (simp_all add: list_all_iff)
  have "distinct (map tk_id (deleted_tickets later db'))"
    unfolding deleted_tickets_def by (rule distinct_map_filter [OF support_ok_distinct [OF assms(4)]])
  from deleted_bounded [OF this del(1)] have "int (length (deleted_tickets later db')) \<le> sc_count totals" using c(8) p(4) by simp
  with c p scope del(2) show ?thesis
    by (auto simp: confirmed_conditions_def list_all_iff split: delete_scope.split)
qed

text \<open>Tickets 1 and 2 are previewed and both ended; ticket 2 is reopened before the batches run.\<close>

definition sample_admins :: "ticket_status list \<Rightarrow> support_db" where
  "sample_admins statuses = with_accounts
     (sample_accounts [sample_account 1 ''ann'', sample_account 2 ''bob''] [(2, ''super_admin'')]) (sample_support statuses)"

definition sample_delete :: delete_request where
  "sample_delete = \<lparr>dr_ids = Some [2, 1], dr_filter = None\<rparr>"

theorem confirmed_deletion_witness:
  "(case preview_request sample_confirm (sample_admins [Closed, Closed, Open]) (sample_account 2 ''bob'') sample_delete 5 of
      Inr (totals, token, phrase) \<Rightarrow>
        (case delete_scope_request sample_confirm (\<lambda>_. sample_admins [Closed, Open, Open]) (sample_admins [Closed, Closed, Open])
                (sample_account 2 ''bob'') sample_delete (Some token) phrase 6 of
           Inr (db', gone) \<Rightarrow>
             map tk_id (deleted_tickets (sample_admins [Closed, Open, Open]) db') = [1]
             \<and> int (length (deleted_tickets (sample_admins [Closed, Open, Open]) db')) \<le> sc_count totals
         | _ \<Rightarrow> False)
    | _ \<Rightarrow> False)"
proof -
  let ?now = "sample_admins [Closed, Closed, Open]" and ?later = "sample_admins [Closed, Open, Open]" and ?bob = "sample_account 2 ''bob''"
  let ?p = "preview_request sample_confirm ?now ?bob sample_delete 5"
  let ?totals = "fst (projr ?p)" and ?token = "fst (snd (projr ?p))" and ?phrase = "snd (snd (projr ?p))"
  let ?d = "delete_scope_request sample_confirm (\<lambda>_. ?later) ?now ?bob sample_delete (Some ?token) ?phrase 6"
  have p: "?p = Inr (?totals, (fst ?token, snd ?token), ?phrase)"
  proof -
    have "\<not> isl ?p" by code_simp
    then show ?thesis by (cases ?p) auto
  qed
  have d: "?d = Inr (fst (projr ?d), snd (projr ?d))"
  proof -
    have "\<not> isl ?d" by code_simp
    then show ?thesis by (cases ?d) auto
  qed
  have scope: "normal_scope sample_confirm sample_delete = Inr (Scope_Ids [1, 2])" by code_simp
  have ok: "support_ok 6 ?later" by code_simp
  have d': "delete_scope_request sample_confirm (\<lambda>_. ?later) ?now ?bob sample_delete (Some (fst ?token, snd ?token)) ?phrase 6
      = Inr (fst (projr ?d), snd (projr ?d))" using d by simp
  from confirmed_deletion [OF p scope _ ok d'] scope
  have "int (length (deleted_tickets ?later (fst (projr ?d)))) \<le> sc_count ?totals" by simp
  moreover have "map tk_id (deleted_tickets ?later (fst (projr ?d))) = [1]" by code_simp
  ultimately show ?thesis using p d by (auto split: sum.splits prod.splits)
qed
end
