(* ===== verification/Spec2Isabelle.thy ===== *)
theory Spec2Isabelle
  imports Books_System Capacity Knowledge_Worker Memory_Jobs Rate_Limit Project_Rules Knowledge_Retrieval Chat_Tools Ticket_Rules
begin

text \<open>
  \<^bold>\<open>Alpharouter: money, capacity, durable work and access.\<close>

  Alpharouter (\<open>src/backend/app\<close>) is a gateway between the people and API keys of an organisation
  and the providers of language models. Each paid call is bounded by a budget, each expensive
  resource by a limit, each piece of background work by a durable job, and each project, Agent and
  document by rules of access. This development models the services that carry these guarantees,
  function by function, and proves them.

  \<^bold>\<open>Conventions.\<close> A table is a list of records with unique keys, a nullable column an option, a
  Python float of money a rational that is rounded where the code rounds (\<open>Money.thy\<close>), a time a
  number of microseconds, an exception a value of \<open>py_error\<close> in the left of a sum. A row lock and
  the commit that follows make an operation atomic; runs are sequences of operations in any order,
  with the failures of Redis and of batches as inputs. Drawn identifiers, clocks, digests and
  the code of other modules are arguments. Definitions keep the names of the functions they model.

  \<^bold>\<open>Theories.\<close>
  \<^item> \<open>Router_Prelude\<close>: tables and sums over them, text, numerals, and the interfaces
    \<open>invariant_system\<close> and \<open>status_machine\<close> that the components interpret; \<open>Json\<close>: values of JSON
    columns; \<open>Money\<close>: rounding to eight decimals.
  \<^item> \<open>Budget_State\<close>, \<open>Budget_Holds\<close>, \<open>Budget_Admission\<close>: \<open>services/budget_reservation_service.py\<close>.
    A hold (\<open>reservation\<close>) is admitted against limit, use and reserved counter of a user or an API
    key, may grow, and ends settled, released or expired. Shown: a granted or grown hold never
    exceeds the limit, refusals are checked against the open holds, keys are idempotent, a
    settlement charges once, sweeps close what is stale and repair what drifted.
  \<^item> \<open>Budget_Plans\<close>, \<open>Plan_Assignment\<close>: \<open>services/budget_service.py\<close>,
    \<open>services/plan_assignment_service.py\<close>, \<open>services/group_membership.py\<close>. Which plan a user has, one
    by one and in a batch, and the monthly rollover and reset. The paged reset recurses on the ids
    that are left, so it ends without fuel.
  \<^item> \<open>Api_Keys\<close>: \<open>services/alpha_router_api_key_service.py\<close>. Credit periods, expiry, usability.
  \<^item> \<open>Budget_System\<close>: all operations on budgets as one event system; the counters stay exact under
    every sequence of them.
  \<^item> \<open>Usage_Capture\<close>, \<open>Usage_Pricing\<close>: \<open>services/usage_accounting_service.py\<close> up to the quote of a hold. What
    an answer of a provider says was used, what the catalogue charges for it item by item, which of
    the possible prices counts, the rates that administrators configure, and the amount to hold.
    Shown: tokens are billed once, prices are never negative, the most specific rate in force counts,
    a rate replaces its predecessor, a hold covers its quote; and that a rate per token prices holds
    but not calls.
  \<^item> \<open>Usage_Ledger\<close>, \<open>Books_System\<close>: the rest of that module and \<open>services/usage_logging_service.py\<close>. The one
    path on which every billed call is recorded and charged, its retries, and the corrections that
    providers report, as one event system together with \<open>Budget_System\<close>: ledger, events, operations
    and request logs agree and the counters stay exact in every run, a call is charged once and to
    whom; and the two histories in which spend that is not to be charged is, and a settlement that
    was made is reported as missing.
  \<^item> \<open>Capacity\<close>: \<open>services/code_interpreter_capacity_service.py\<close>. The Lua scripts on sorted sets and
    expiring keys, the policy and its switch; the ceilings hold in every run.
  \<^item> \<open>Outbox\<close>: \<open>services/outbox_service.py\<close>. Events are stored once per key, leased, published at least
    once, retried and buried.
  \<^item> \<open>Knowledge_Jobs\<close>: \<open>services/knowledge_job_service.py\<close>. The job table beside the outbox; the life of
    a job, exclusive leases, dispatch of every retry, recovery; and the history in which a job
    that was revived by hand is never dispatched again.
  \<^item> \<open>Knowledge_Worker\<close>: \<open>services/knowledge_worker_service.py\<close>, \<open>services/knowledge_queue.py\<close>. A delivery
    from claim to acknowledgement; what a handler does, and what others do meanwhile, is an
    argument.
  \<^item> \<open>Memory_Jobs\<close>: \<open>services/memory_job_service.py\<close> and \<open>services/project_memory_job_service.py\<close>. Debounced
    jobs with a unique index on the waiting ones; and the two histories in which it stands in
    their way.
  \<^item> \<open>Rate_Limit\<close>: \<open>services/rate_limit.py\<close>. Sliding windows in Redis and in memory against a
    specification over histories, and the limits of logins.
  \<^item> \<open>Roles\<close>: \<open>services/rbac.py\<close>. The role catalogue, menus and paths, legacy slugs, what several roles
    grant together, the permissions of the Agents and Knowledge domain. Shown: read-only roles cap
    all others, the most specific prefix names the menu of a path; and the read-only role that
    passes the write gate.
  \<^item> \<open>Accounts\<close>: \<open>services/user_role_service.py\<close>, \<open>services/user_lifecycle_service.py\<close>,
    \<open>services/user_account_cleanup_service.py\<close> and the user endpoints of \<open>api/admin.py\<close>. Shown: no
    sequence of requests locks out the last administrator, a purge erases what names the account,
    restoration undoes soft deletion; and the stored slug that is counted but grants nothing.
  \<^item> \<open>Project_Access\<close>, \<open>Project_Service\<close>, \<open>Project_System\<close>, \<open>Project_Rules\<close>:
    \<open>services/project_access_service.py\<close>, \<open>services/project_service.py\<close>. Capabilities, the life of a project,
    members and invitations, all requests and account events as one transition relation. Shown: one
    Primary Owner in every reachable state, who may change whom, that hidden projects look like
    missing ones, that publication is confirmed and deletion can be undone; and the purge that leaves
    a project without anyone who may manage it.
  \<^item> \<open>Resource_Access\<close>: \<open>services/resource_access_service.py\<close>. Deny-first rules of Agents, Knowledge Bases and
    documents against their meaning, the bulk forms against the single ones, saved rules against
    the constraints of their tables.
  \<^item> \<open>Knowledge_Search\<close>: the access part of \<open>services/knowledge_index_service.py\<close> and
    \<open>services/knowledge_retrieval_service.py\<close>. The filter of a vector search decides what the rules decide.
  \<^item> \<open>Knowledge_Retrieval\<close>: the rest of \<open>services/knowledge_retrieval_service.py\<close> with
    \<open>services/knowledge_crypto_service.py\<close>. A whole search from the policy to the context, over any vector store and
    any reranker. Shown: what is returned is authorized against the database and verified, the limits
    hold, and no document text leaves its block of the context.
  \<^item> \<open>Chat_Tools\<close>: \<open>services/chat_tool_registry.py\<close>, \<open>services/chat_tool_access_service.py\<close> and the parsing
    of \<open>services/chat_tools_service.py\<close>. The gate of a turn covers what the turn runs; a saved policy
    reads back and can be saved again unchanged.
  \<^item> \<open>Ticket_Settings\<close>, \<open>Support_Tickets\<close>, \<open>Ticket_Views\<close>, \<open>Ticket_Desk\<close>, \<open>Ticket_Rules\<close>:
    \<open>services/support_tickets.py\<close>, \<open>api/support_tickets.py\<close>, \<open>api/admin_tickets.py\<close> and the ticket jobs of
    \<open>services/scheduler.py\<close>. Settings within bounds, the tables of tickets, messages and images with every operation on
    them, what the person and staff are shown, the guarded requests, and all of them as one event system over changing
    accounts. Batches of the jobs recurse on the rows that are left, so they end without fuel. Shown: the tables stay
    well formed in every run, notes stay invisible to the person, the buttons shown are the ones that work, the jobs
    close and delete exactly what is due, a confirmed deletion stays within its preview, settings are read back as saved; and that reopening is not counted against
    the limit of open tickets. Emails, the storage of images, ticket reports and overviews are left out.

  \<^bold>\<open>Not modelled.\<close> The relays of chat, image, audio and video calls, agent runs, directories and sign-in,
  rooms and chat storage, reports, the user interface, migrations, and the clients of external systems.
  They call the operations modelled here or are input and output. The text of notices, metrics and
  logs is left out of the modelled functions, and so are columns that are only displayed and the
  choice between SQL dialects. LiteLLM's own estimate of a cost is an argument.
\<close>

end
